(* ===== verification/Prelude.thy ===== *)
theory Prelude
  imports Main "HOL-Library.AList" "HOL-Library.Word"
begin

text \<open>
  Shared vocabulary of the development: Rust's \<open>Result\<close> and its question-mark operator,
  saturating and checked \<open>u64\<close> arithmetic, the part of \<open>std::collections::HashMap\<close>
  the program uses (as association lists with distinct keys, so that every definition of the
  model evaluates), and the interface locales that several components share:
  \<open>hash_map\<close> (the laws of the map operations), \<open>replay_guard\<close> (a guard that consumes
  single-use keys) and \<open>inv_system\<close> (an invariant kept by every step of a labelled
  transition function).
\<close>

named_theorems hm_simps \<open>lookup laws of the association-list hash map\<close>
named_theorems sat_simps \<open>unfolding of saturating and checked arithmetic\<close>

subsection \<open>Results\<close>

text \<open>\<open>Result<A, E>\<close> is the sum with the error on the left.\<close>

abbreviation Err :: "'e \<Rightarrow> 'e + 'a" where "Err \<equiv> Inl"
abbreviation Ok :: "'a \<Rightarrow> 'e + 'a" where "Ok \<equiv> Inr"

definition bind_res :: "'e + 'a \<Rightarrow> ('a \<Rightarrow> 'e + 'b) \<Rightarrow> 'e + 'b" where
  "bind_res r f = (case r of Inl e \<Rightarrow> Inl e | Inr a \<Rightarrow> f a)"

lemma bind_res_simps [simp]:
  "bind_res (Inl e) f = Inl e" "bind_res (Inr a) f = f a"
  by (simp_all add: bind_res_def)

lemma bind_res_Ok_iff:
  "bind_res r f = Inr b \<longleftrightarrow> (\<exists>a. r = Inr a \<and> f a = Inr b)"
  by (cases r) auto

lemma bind_res_Err_iff:
  "bind_res r f = Inl e \<longleftrightarrow> r = Inl e \<or> (\<exists>a. r = Inr a \<and> f a = Inl e)"
  by (cases r) auto

lemma unit_result_cases: "(r :: 'e + unit) = Inr () \<or> (\<exists>e. r = Inl e)"
  by (cases r) auto

text \<open>A \<open>for\<close> loop whose body may return early with an error: the first error wins.\<close>

fun for_each :: "('a \<Rightarrow> 'e + unit) \<Rightarrow> 'a list \<Rightarrow> 'e + unit" where
  "for_each f [] = Inr ()"
| "for_each f (x # xs) = bind_res (f x) (\<lambda>_. for_each f xs)"

lemma for_each_Ok_iff: "for_each f xs = Inr () \<longleftrightarrow> (\<forall>x \<in> set xs. f x = Inr ())"
  by (induction xs) (auto simp: bind_res_Ok_iff)

lemma for_each_Err:
  "for_each f xs = Inl e \<Longrightarrow>
   \<exists>ys x zs. xs = ys @ x # zs \<and> (\<forall>y \<in> set ys. f y = Inr ()) \<and> f x = Inl e"
proof (induction xs)
  case Nil
  then show ?case by simp
next
  case (Cons x xs)
  show ?case
  proof (cases "f x")
    case (Inl e')
    with Cons.prems show ?thesis by (intro exI[of _ "[]"]) simp
  next
    case (Inr u)
    with Cons.prems have "for_each f xs = Inl e" by simp
    from Cons.IH [OF this] obtain ys y zs
      where "xs = ys @ y # zs" "\<forall>y \<in> set ys. f y = Inr ()" "f y = Inl e" by blast
    with Inr show ?thesis by (intro exI[of _ "x # ys"] exI[of _ y] exI[of _ zs]) simp
  qed
qed

subsection \<open>Machine arithmetic\<close>

text \<open>
  A \<open>u64\<close> that is only ever added with \<open>saturating_add\<close> or \<open>checked_add\<close> and
  subtracted with \<open>saturating_sub\<close> is a \<open>nat\<close> below \<open>2 ^ 64\<close>; the clamping is written
  out. Truncated subtraction on \<open>nat\<close> is exactly \<open>saturating_sub\<close>.
\<close>

type_synonym u64 = nat

definition u64_max :: nat where [sat_simps]: "u64_max = 2 ^ 64 - 1"

definition sat_add64 :: "u64 \<Rightarrow> u64 \<Rightarrow> u64" where
  [sat_simps]: "sat_add64 a b = min (a + b) u64_max"

definition checked_add64 :: "u64 \<Rightarrow> u64 \<Rightarrow> u64 option" where
  [sat_simps]: "checked_add64 a b = (if a + b \<le> u64_max then Some (a + b) else None)"

definition sat_mul64 :: "u64 \<Rightarrow> u64 \<Rightarrow> u64" where
  [sat_simps]: "sat_mul64 a b = min (a * b) u64_max"

definition checked_mul64 :: "u64 \<Rightarrow> u64 \<Rightarrow> u64 option" where
  [sat_simps]: "checked_mul64 a b = (if a * b \<le> u64_max then Some (a * b) else None)"

definition sat_mul128 :: "nat \<Rightarrow> nat \<Rightarrow> nat" where
  [sat_simps]: "sat_mul128 a b = min (a * b) (2 ^ 128 - 1)"

lemma sat_add64_le [simp]: "sat_add64 a b \<le> u64_max"
  by (simp add: sat_add64_def)

lemma sat_add64_le_add: "sat_add64 a b \<le> a + b"
  by (simp add: sat_add64_def)

lemma sat_add64_ge1: "a \<le> u64_max \<Longrightarrow> a \<le> sat_add64 a b"
  by (simp add: sat_add64_def)

lemma sat_add64_exact: "a + b \<le> u64_max \<Longrightarrow> sat_add64 a b = a + b"
  by (simp add: sat_add64_def)

lemma sat_add64_small: "sat_add64 a b < u64_max \<Longrightarrow> sat_add64 a b = a + b"
  by (simp add: sat_add64_def min_def split: if_splits)

lemma sat_add64_commute: "sat_add64 a b = sat_add64 b a"
  by (simp add: sat_add64_def add.commute)

lemma sat_add64_assoc: "sat_add64 (sat_add64 a b) c = sat_add64 a (sat_add64 b c)"
  by (simp add: sat_add64_def min_def)

text \<open>The saturating accumulation \<open>fold(0, saturating_add)\<close> is the clamped exact sum.\<close>

definition sat_sum64 :: "u64 list \<Rightarrow> u64" where
  "sat_sum64 xs = fold (\<lambda>x acc. sat_add64 acc x) xs 0"

lemma fold_sat_add64:
  "acc \<le> u64_max \<Longrightarrow> fold (\<lambda>x acc. sat_add64 acc x) xs acc = min (acc + sum_list xs) u64_max"
proof (induction xs arbitrary: acc)
  case Nil
  then show ?case by simp
next
  case (Cons x xs)
  have "fold (\<lambda>x acc. sat_add64 acc x) xs (sat_add64 acc x)
        = min (sat_add64 acc x + sum_list xs) u64_max"
    by (rule Cons.IH) simp
  then show ?case by (simp add: sat_add64_def min_def)
qed

lemma sat_sum64_eq: "sat_sum64 xs = min (sum_list xs) u64_max"
  by (simp add: sat_sum64_def fold_sat_add64)

lemma sat_sum64_le [simp]: "sat_sum64 xs \<le> u64_max"
  by (simp add: sat_sum64_eq)

lemma sat_sum64_exact: "sat_sum64 xs < u64_max \<Longrightarrow> sat_sum64 xs = sum_list xs"
  by (simp add: sat_sum64_eq min_def split: if_splits)

subsection \<open>Hash maps\<close>

text \<open>
  \<open>std::collections::HashMap\<close> as an association list with distinct keys. The program never
  depends on iteration order: it looks up, inserts, removes, retains by a predicate, and folds
  with order-independent functions (sums, counts, minima, existence).
\<close>

type_synonym ('k, 'v) hmap = "('k \<times> 'v) list"

definition hm_ok :: "('k, 'v) hmap \<Rightarrow> bool" where
  "hm_ok m = distinct (map fst m)"

definition hm_get :: "('k, 'v) hmap \<Rightarrow> 'k \<Rightarrow> 'v option" where
  "hm_get m k = map_of m k"

definition hm_insert :: "'k \<Rightarrow> 'v \<Rightarrow> ('k, 'v) hmap \<Rightarrow> ('k, 'v) hmap" where
  "hm_insert k v m = AList.update k v m"

definition hm_remove :: "'k \<Rightarrow> ('k, 'v) hmap \<Rightarrow> ('k, 'v) hmap" where
  "hm_remove k m = AList.delete k m"

definition hm_retain :: "('k \<Rightarrow> 'v \<Rightarrow> bool) \<Rightarrow> ('k, 'v) hmap \<Rightarrow> ('k, 'v) hmap" where
  "hm_retain P m = filter (\<lambda>(k, v). P k v) m"

definition hm_modify :: "'k \<Rightarrow> ('v \<Rightarrow> 'v) \<Rightarrow> ('k, 'v) hmap \<Rightarrow> ('k, 'v) hmap" where
  \<comment> \<open>an update through \<open>get_mut\<close>: nothing happens when the key is absent\<close>
  "hm_modify k f m = map (\<lambda>(k', v). (k', if k' = k then f v else v)) m"

definition hm_values :: "('k, 'v) hmap \<Rightarrow> 'v list" where
  "hm_values m = map snd m"

definition hm_keys :: "('k, 'v) hmap \<Rightarrow> 'k list" where
  "hm_keys m = map fst m"

definition hm_contains :: "('k, 'v) hmap \<Rightarrow> 'k \<Rightarrow> bool" where
  "hm_contains m k = (hm_get m k \<noteq> None)"

lemmas hm_defs = hm_ok_def hm_get_def hm_insert_def hm_remove_def hm_retain_def
  hm_modify_def hm_values_def hm_keys_def hm_contains_def

lemma hm_ok_Nil [simp]: "hm_ok []"
  by (simp add: hm_ok_def)

lemma hm_get_Nil [simp]: "hm_get [] k = None"
  by (simp add: hm_get_def)

lemma hm_get_insert [hm_simps]:
  "hm_get (hm_insert k v m) k' = (if k' = k then Some v else hm_get m k')"
  by (simp add: hm_get_def hm_insert_def update_conv)

lemma hm_get_remove [hm_simps]:
  "hm_get (hm_remove k m) k' = (if k' = k then None else hm_get m k')"
  by (simp add: hm_get_def hm_remove_def delete_conv)

lemma hm_get_Some_mem: "hm_get m k = Some v \<Longrightarrow> (k, v) \<in> set m"
  by (simp add: hm_get_def map_of_SomeD)

lemma hm_get_iff_mem: "hm_ok m \<Longrightarrow> hm_get m k = Some v \<longleftrightarrow> (k, v) \<in> set m"
  by (simp add: hm_get_def hm_ok_def)

lemma hm_get_retain [hm_simps]:
  "hm_ok m \<Longrightarrow> hm_get (hm_retain P m) k =
     (case hm_get m k of None \<Rightarrow> None | Some v \<Rightarrow> if P k v then Some v else None)"
proof (induction m)
  case Nil
  then show ?case by (simp add: hm_retain_def)
next
  case (Cons e m)
  obtain a b where e: "e = (a, b)" by (cases e)
  with Cons.prems have ok: "hm_ok m" and a: "a \<notin> fst ` set m" by (auto simp: hm_ok_def)
  then have "hm_get m a = None" by (simp add: hm_get_def map_of_eq_None_iff)
  with Cons.IH [OF ok] show ?case
    by (auto simp: e hm_retain_def hm_get_def split: option.splits)
qed

lemma hm_get_modify [hm_simps]:
  "hm_get (hm_modify k f m) k' = (if k' = k then map_option f (hm_get m k) else hm_get m k')"
  by (induction m) (auto simp: hm_get_def hm_modify_def)

lemma hm_ok_insert [simp]: "hm_ok m \<Longrightarrow> hm_ok (hm_insert k v m)"
  by (simp add: hm_ok_def hm_insert_def distinct_update)

lemma hm_ok_remove [simp]: "hm_ok m \<Longrightarrow> hm_ok (hm_remove k m)"
  by (simp add: hm_ok_def hm_remove_def distinct_delete)

lemma hm_ok_retain [simp]: "hm_ok m \<Longrightarrow> hm_ok (hm_retain P m)"
  by (simp add: hm_ok_def hm_retain_def distinct_map_filter)

lemma hm_keys_modify [simp]: "map fst (hm_modify k f m) = map fst m"
  by (induction m) (auto simp: hm_modify_def)

lemma hm_ok_modify [simp]: "hm_ok (hm_modify k f m) = hm_ok m"
  by (simp add: hm_ok_def)

lemma length_hm_modify [simp]: "length (hm_modify k f m) = length m"
  by (simp add: hm_modify_def)

lemma hm_insert_fresh: "hm_get m k = None \<Longrightarrow> hm_insert k v m = m @ [(k, v)]"
  by (induction m) (auto simp: hm_get_def hm_insert_def split: if_splits)

lemma length_hm_insert: "length (hm_insert k v m) \<le> Suc (length m)"
  by (induction m) (auto simp: hm_insert_def)

lemma length_hm_insert_fresh:
  "hm_get m k = None \<Longrightarrow> length (hm_insert k v m) = Suc (length m)"
  by (simp add: hm_insert_fresh)

lemma length_hm_retain: "length (hm_retain P m) \<le> length m"
  by (simp add: hm_retain_def)

lemma length_hm_remove: "length (hm_remove k m) \<le> length m"
  by (simp add: hm_remove_def length_delete_le)

lemma hm_retain_subset: "set (hm_retain P m) \<subseteq> set m"
  by (auto simp: hm_retain_def)

lemma hm_remove_subset: "set (hm_remove k m) \<subseteq> set m"
  by (induction m) (auto simp: hm_remove_def)

lemma hm_insert_subset: "set (hm_insert k v m) \<subseteq> insert (k, v) (set m)"
  by (induction m) (auto simp: hm_insert_def)

lemma hm_contains_iff: "hm_contains m k \<longleftrightarrow> (\<exists>v. hm_get m k = Some v)"
  by (auto simp: hm_contains_def)

lemma hm_get_values: "hm_get m k = Some v \<Longrightarrow> v \<in> set (hm_values m)"
  by (auto simp: hm_values_def dest!: hm_get_Some_mem intro: rev_image_eqI)

lemma hm_get_keys: "hm_get m k = None \<longleftrightarrow> k \<notin> set (hm_keys m)"
  by (simp add: hm_get_def hm_keys_def map_of_eq_None_iff)

text \<open>A weight summed over the entries changes by one entry under the map operations.\<close>

lemma sum_list_hm_retain_le: "sum_list (map f (hm_retain P m)) \<le> (sum_list (map f m) :: nat)"
  by (induction m) (auto simp: hm_retain_def)

lemma sum_list_hm_remove_le: "sum_list (map f (hm_remove k m)) \<le> (sum_list (map f m) :: nat)"
  by (induction m) (auto simp: hm_remove_def)

lemma sum_list_hm_remove:
  "hm_ok m \<Longrightarrow> hm_get m k = Some v \<Longrightarrow>
   sum_list (map f (hm_remove k m)) + f (k, v) = (sum_list (map f m) :: nat)"
proof (induction m)
  case Nil
  then show ?case by simp
next
  case (Cons e m)
  obtain a b where e: "e = (a, b)" by (cases e)
  show ?case
  proof (cases "a = k")
    case True
    with Cons.prems e have "v = b" "k \<notin> fst ` set m" by (auto simp: hm_get_def hm_ok_def)
    then have "hm_remove k m = m" by (simp add: hm_remove_def delete_idem)
    with True e \<open>v = b\<close> show ?thesis by (simp add: hm_remove_def)
  next
    case False
    with Cons e show ?thesis by (simp add: hm_remove_def hm_get_def hm_ok_def)
  qed
qed

lemma hm_insert_present:
  "hm_ok m \<Longrightarrow> hm_get m k = Some c \<Longrightarrow> hm_insert k c' m = hm_modify k (\<lambda>_. c') m"
proof (induction m)
  case (Cons e m)
  obtain a b where e: "e = (a, b)" by (cases e)
  show ?case
  proof (cases "a = k")
    case True
    with Cons.prems e have "k \<notin> fst ` set m" by (auto simp: hm_ok_def)
    then have "hm_modify k (\<lambda>_. c') m = m" by (induction m) (auto simp: hm_modify_def)
    with True e show ?thesis by (simp add: hm_insert_def hm_modify_def)
  next
    case False
    with Cons e show ?thesis by (simp add: hm_insert_def hm_modify_def hm_ok_def hm_get_def)
  qed
qed simp

lemma sum_list_hm_modify:
  assumes "hm_ok m" "\<And>c. hm_get m k = Some c \<Longrightarrow> w (f c) = (w c :: nat)"
  shows "sum_list (map (\<lambda>e. w (snd e)) (hm_modify k f m)) = sum_list (map (\<lambda>e. w (snd e)) m)"
proof -
  have "map (\<lambda>e. w (snd e)) (hm_modify k f m) = map (\<lambda>e. w (snd e)) m"
    using assms by (auto simp: hm_modify_def hm_get_iff_mem)
  then show ?thesis by simp
qed

lemma sum_list_partition:
  "sum_list (map f (filter P xs)) + sum_list (map f (filter (\<lambda>x. \<not> P x) xs)) = (sum_list (map f xs) :: nat)"
  by (induction xs) simp_all

lemma mem_drop_take:
  "v \<in> set (drop a (take b xs)) \<longleftrightarrow> (\<exists>r. a \<le> r \<and> r < b \<and> r < length xs \<and> v = xs ! r)"
proof
  assume "v \<in> set (drop a (take b xs))"
  then obtain i where i: "i < length (drop a (take b xs))" "v = drop a (take b xs) ! i" by (metis in_set_conv_nth)
  then show "\<exists>r. a \<le> r \<and> r < b \<and> r < length xs \<and> v = xs ! r" by (intro exI [of _ "a + i"]) (auto simp: min_def split: if_splits)
next
  assume "\<exists>r. a \<le> r \<and> r < b \<and> r < length xs \<and> v = xs ! r"
  then obtain r where r: "a \<le> r" "r < b" "r < length xs" "v = xs ! r" by blast
  then have "v = drop a (take b xs) ! (r - a)" "r - a < length (drop a (take b xs))" by auto
  then show "v \<in> set (drop a (take b xs))" by (metis nth_mem)
qed

subsection \<open>Hash sets\<close>

definition set_insert :: "'x \<Rightarrow> 'x list \<Rightarrow> 'x list" where
  "set_insert x xs = (if x \<in> set xs then xs else xs @ [x])"

lemma distinct_set_insert [simp]: "distinct (set_insert x xs) = distinct xs"
  by (simp add: set_insert_def)

lemma set_set_insert [simp]: "set (set_insert x xs) = insert x (set xs)"
  by (auto simp: set_insert_def)

subsection \<open>Mapping the values of a hash map\<close>

definition hm_map :: "('v \<Rightarrow> 'w) \<Rightarrow> ('k, 'v) hmap \<Rightarrow> ('k, 'w) hmap" where
  "hm_map f m = map (\<lambda>(k, v). (k, f v)) m"

lemma hm_map_Nil [simp]: "hm_map f [] = []"
  by (simp add: hm_map_def)

lemma hm_get_map [simp]: "hm_get (hm_map f m) k = map_option f (hm_get m k)"
  by (induction m) (auto simp: hm_get_def hm_map_def)

lemma hm_insert_map: "hm_insert k (f v) (hm_map f m) = hm_map f (hm_insert k v m)"
  by (induction m) (auto simp: hm_insert_def hm_map_def)

lemma hm_remove_map: "hm_remove k (hm_map f m) = hm_map f (hm_remove k m)"
  by (induction m) (auto simp: hm_remove_def hm_map_def)

lemma hm_retain_map: "(\<And>k v. P k (f v) = Q k v) \<Longrightarrow> hm_retain P (hm_map f m) = hm_map f (hm_retain Q m)"
  by (induction m) (auto simp: hm_retain_def hm_map_def)

lemma hm_modify_map: "(\<And>v. g (f v) = f (h v)) \<Longrightarrow> hm_modify k g (hm_map f m) = hm_map f (hm_modify k h m)"
  by (induction m) (auto simp: hm_modify_def hm_map_def)

subsection \<open>Interface: the map operations\<close>

text \<open>
  What the components rely on of a hash map: the lookup after each operation, and that each
  operation keeps the representation invariant. The client lemmas below are proved from the
  laws alone.
\<close>

locale hash_map =
  fixes ok :: "'m \<Rightarrow> bool"
    and get :: "'m \<Rightarrow> 'k \<Rightarrow> 'v option"
    and put :: "'k \<Rightarrow> 'v \<Rightarrow> 'm \<Rightarrow> 'm"
    and drop_key :: "'k \<Rightarrow> 'm \<Rightarrow> 'm"
    and retain :: "('k \<Rightarrow> 'v \<Rightarrow> bool) \<Rightarrow> 'm \<Rightarrow> 'm"
  assumes get_put: "get (put k v m) k' = (if k' = k then Some v else get m k')"
    and get_drop: "get (drop_key k m) k' = (if k' = k then None else get m k')"
    and get_retain: "ok m \<Longrightarrow> get (retain P m) k = Option.bind (get m k) (\<lambda>v. if P k v then Some v else None)"
    and ok_put: "ok m \<Longrightarrow> ok (put k v m)"
    and ok_drop: "ok m \<Longrightarrow> ok (drop_key k m)"
    and ok_retain: "ok m \<Longrightarrow> ok (retain P m)"
begin

lemma retain_keeps: "ok m \<Longrightarrow> get m k = Some v \<Longrightarrow> P k v \<Longrightarrow> get (retain P m) k = Some v"
  by (simp add: get_retain)

lemma retain_sound: "ok m \<Longrightarrow> get (retain P m) k = Some v \<Longrightarrow> get m k = Some v \<and> P k v"
  by (cases "get m k") (auto simp: get_retain split: if_splits)

lemma retain_retain:
  "ok m \<Longrightarrow> get (retain P (retain Q m)) k = get (retain (\<lambda>k v. P k v \<and> Q k v) m) k"
  by (cases "get m k") (simp_all add: get_retain ok_retain)

lemma put_retain:
  "ok m \<Longrightarrow> get (put k v (retain P m)) k' = Some w \<Longrightarrow> k' \<noteq> k \<Longrightarrow> get m k' = Some w \<and> P k' w"
  by (auto simp: get_put dest: retain_sound)

end

interpretation hm: hash_map hm_ok hm_get hm_insert hm_remove hm_retain
  by unfold_locales (auto simp: hm_simps split: option.splits)

subsection \<open>Interface: a guard that consumes single-use keys\<close>

text \<open>
  A stateful guard answers each request with a decision. It \<open>remembers\<close> a key once it
  accepted a request with that key, never forgets one, and refuses a remembered key. Whatever
  else happens, and whatever the clock readings inside the requests are, a key is then accepted
  at most once in a run.
\<close>

fun run_guard :: "('st \<Rightarrow> 'req \<Rightarrow> 'st \<times> 'dec) \<Rightarrow> 'st \<Rightarrow> 'req list \<Rightarrow> 'st \<times> 'dec list" where
  "run_guard f s [] = (s, [])"
| "run_guard f s (r # rs) =
     (let (s', d) = f s r; (s'', ds) = run_guard f s' rs in (s'', d # ds))"

lemma length_run_guard: "length (snd (run_guard f s rs)) = length rs"
  by (induction rs arbitrary: s) (auto split: prod.splits simp: Let_def, metis snd_conv)

lemma run_guard_invar:
  assumes "\<And>s r. I s \<Longrightarrow> I (fst (f s r))"
  shows "I s \<Longrightarrow> I (fst (run_guard f s rs))"
proof (induction rs arbitrary: s)
  case Nil
  then show ?case by simp
next
  case (Cons r rs)
  then show ?case using assms [of s r] by (auto simp: Let_def split: prod.splits) (metis fst_conv)
qed

locale replay_guard =
  fixes consume :: "'st \<Rightarrow> 'req \<Rightarrow> 'st \<times> 'dec"
    and invar :: "'st \<Rightarrow> bool"
    and accepted :: "'dec \<Rightarrow> bool"
    and key :: "'req \<Rightarrow> 'key"
    and remembers :: "'st \<Rightarrow> 'key \<Rightarrow> bool"
  assumes consume_invar: "invar s \<Longrightarrow> invar (fst (consume s r))"
    and accept_remembers:
      "invar s \<Longrightarrow> accepted (snd (consume s r)) \<Longrightarrow> remembers (fst (consume s r)) (key r)"
    and remembers_stable: "invar s \<Longrightarrow> remembers s k \<Longrightarrow> remembers (fst (consume s r)) k"
    and remembered_refused: "invar s \<Longrightarrow> remembers s (key r) \<Longrightarrow> \<not> accepted (snd (consume s r))"
begin

lemma remembered_never_accepted:
  "invar s \<Longrightarrow> remembers s (key (rs ! j)) \<Longrightarrow> j < length rs \<Longrightarrow>
   \<not> accepted (snd (run_guard consume s rs) ! j)"
proof (induction rs arbitrary: s j)
  case Nil
  then show ?case by simp
next
  case (Cons r rs)
  obtain s' d where c: "consume s r = (s', d)" by (cases "consume s r")
  obtain s'' ds where g: "run_guard consume s' rs = (s'', ds)" by (cases "run_guard consume s' rs")
  have i: "invar s'" using consume_invar [OF Cons.prems(1), of r] c by simp
  show ?case
  proof (cases j)
    case 0
    with Cons.prems c g show ?thesis using remembered_refused [of s r] by simp
  next
    case (Suc j')
    with Cons.prems c have "remembers s' (key (rs ! j'))" and "j' < length rs"
      using remembers_stable [of s "key (rs ! j')" r] by auto
    with Cons.IH [OF i this] g c Suc show ?thesis by simp
  qed
qed

lemma accepted_at_most_once:
  "invar s \<Longrightarrow> i < j \<Longrightarrow> j < length rs \<Longrightarrow> key (rs ! i) = key (rs ! j) \<Longrightarrow>
   accepted (snd (run_guard consume s rs) ! i) \<Longrightarrow> \<not> accepted (snd (run_guard consume s rs) ! j)"
proof (induction rs arbitrary: s i j)
  case Nil
  then show ?case by simp
next
  case (Cons r rs)
  obtain s' d where c: "consume s r = (s', d)" by (cases "consume s r")
  obtain s'' ds where g: "run_guard consume s' rs = (s'', ds)" by (cases "run_guard consume s' rs")
  have inv': "invar s'" using consume_invar [OF Cons.prems(1), of r] c by simp
  from Cons.prems obtain j' where j: "j = Suc j'" "j' < length rs" by (cases j) auto
  show ?case
  proof (cases i)
    case 0
    with Cons.prems c g j have "remembers s' (key (rs ! j'))"
      using accept_remembers [of s r] by simp
    with remembered_never_accepted [OF inv' this j(2)] c g j show ?thesis by simp
  next
    case (Suc i')
    with Cons.prems c g j have "\<not> accepted (snd (run_guard consume s' rs) ! j')"
      using Cons.IH [OF inv', of i' j'] by simp
    with c g j show ?thesis by simp
  qed
qed

end

subsection \<open>Interface: invariants of a labelled transition function\<close>

text \<open>
  A machine whose operations are labels and whose step is a function of the state and the
  label. What every step keeps, every run keeps; what every step relates (a preorder such as
  "never cleared" or "only shrinks"), every run relates.
\<close>

locale inv_system =
  fixes step :: "'l \<Rightarrow> 's \<Rightarrow> 's"
    and I :: "'s \<Rightarrow> bool"
    and R :: "'s \<Rightarrow> 's \<Rightarrow> bool"
  assumes step_inv: "I s \<Longrightarrow> I (step l s)"
    and step_rel: "I s \<Longrightarrow> R s (step l s)"
    and rel_refl: "R s s"
    and rel_trans: "R s t \<Longrightarrow> R t u \<Longrightarrow> R s u"
begin

lemma run_inv: "I s \<Longrightarrow> I (fold step ls s)"
  by (induction ls arbitrary: s) (auto intro: step_inv)

lemma run_rel: "I s \<Longrightarrow> R s (fold step ls s)"
proof (induction ls arbitrary: s)
  case Nil
  then show ?case by (simp add: rel_refl)
next
  case (Cons l ls)
  then show ?case using step_inv step_rel rel_trans by (metis fold_simps(2))
qed

end

end
