(* ===== verification/Bitcoin_Types.thy ===== *)
theory Bitcoin_Types
  imports Prelude
begin

text \<open>
  The parts of rust-bitcoin's data that the program reads and writes: transactions, PSBTs and
  their per-input and per-output maps, as plain records. Scripts, txids, public keys and
  signatures are byte strings; amounts are \<open>u64\<close> satoshis; \<open>vout\<close>, \<open>nSequence\<close>,
  \<open>nVersion\<close> and \<open>nLockTime\<close> keep their 32-bit width. What rust-bitcoin computes (a
  txid, a sighash, a signature check) is never defined here: the components take it as an
  argument.
\<close>

type_synonym byte = "8 word"
type_synonym bytes = "byte list"
type_synonym script = bytes
type_synonym txid = bytes
type_synonym pubkey = bytes
type_synonym digest = bytes

record outpoint =
  op_txid :: txid
  op_vout :: "32 word"

record txin =
  previous_output :: outpoint
  script_sig :: script
  sequence :: "32 word"
  txin_witness :: "bytes list"

record txout =
  script_pubkey :: script
  txo_value :: u64

record transaction =
  tx_version :: "32 word"
  tx_lock_time :: "32 word"
  tx_input :: "txin list"
  tx_output :: "txout list"

text \<open>An ECDSA signature in a PSBT: the signature proper and its sighash type.\<close>

record ecdsa_sig =
  signature :: bytes
  sig_sighash_type :: "32 word"

record psbt_input =
  non_witness_utxo :: "transaction option"
  witness_utxo :: "txout option"
  partial_sigs :: "(pubkey, ecdsa_sig) hmap"
  psbt_sighash_type :: "32 word option"
  redeem_script :: "script option"
  witness_script :: "script option"
  final_script_sig :: "bytes option"
  final_script_witness :: "bytes list option"

record psbt_output =
  bip32_derivation :: "(pubkey, bytes) hmap"

record psbt =
  unsigned_tx :: transaction
  psbt_inputs :: "psbt_input list"
  psbt_outputs :: "psbt_output list"

text \<open>\<open>EcdsaSighashType::All\<close> as its consensus value.\<close>

abbreviation SIGHASH_ALL :: "32 word" where "SIGHASH_ALL \<equiv> 1"

end
