(* ===== verification/Policy_Core.thy ===== *)
theory Policy_Core
  imports Bitcoin_Types
begin

text \<open>
  The pure policy crate, \<open>crates/policy-core/src/lib.rs\<close>: the bounded re-derivation primitive,
  the five checks of \<open>evaluate\<close> in their order, the node-derived transaction class and the Hot
  outflow it meters. The descriptor library is an argument (\<open>desc_api\<close>): how a descriptor
  splits into single-path ones, whether it has a wildcard, which script it derives at an index
  and which keys it visits. Human-readable refusal details are not modelled.
\<close>

subsection \<open>Data\<close>

datatype network = Bitcoin | Testnet | Testnet4 | Signet | Regtest
datatype network_kind = KindMain | KindTest

text \<open>The three shapes of a descriptor key; the extended ones carry their network kind.\<close>

datatype descriptor_public_key = Single | XPub network_kind | MultiXPub network_kind

record 'd desc_api =
  into_single_descriptors :: "'d \<Rightarrow> 'd list option"
  has_wildcard :: "'d \<Rightarrow> bool"
  derived_spk :: "'d \<Rightarrow> nat \<Rightarrow> script option"
  descriptor_keys :: "'d \<Rightarrow> descriptor_public_key list"
  network_kind_of :: "network \<Rightarrow> network_kind"

record 'd check_params =
  vault :: 'd
  allowed :: "'d list"
  escape :: "'d option"
  max_derivation_index :: nat
  hot_max_per_tx :: u64

datatype tx_class = Refresh | Escape | Hot

record classification =
  cls_class :: tx_class
  cls_hot_outflow :: u64

datatype violation_code =
    UnknownInput | DestNotAllowed | ChangeNotDerivable | FeeExceedsCap | PsbtInconsistent
  | HotBudgetExceeded

record violation =
  vio_code :: violation_code
  vio_check :: string

text \<open>A failed check, or the panic of \<open>check_inputs\<close>'s \<open>expect\<close>.\<close>

datatype policy_error = Violated violation | Panicked

definition MAX_FEE_PERCENT :: nat where "MAX_FEE_PERCENT = 10"

definition violation_new :: "violation_code \<Rightarrow> string \<Rightarrow> violation" where
  "violation_new c k = \<lparr>vio_code = c, vio_check = k\<rparr>"

definition refuse_with :: "violation_code \<Rightarrow> string \<Rightarrow> policy_error + 'a" where
  "refuse_with c k = Err (Violated (violation_new c k))"

subsection \<open>Re-derivation\<close>

definition derives_within :: "'d desc_api \<Rightarrow> 'd \<Rightarrow> script \<Rightarrow> nat \<Rightarrow> bool" where
  "derives_within api descriptor spk mx =
     (case into_single_descriptors api descriptor of
        None \<Rightarrow> False
      | Some singles \<Rightarrow>
          list_ex (\<lambda>single.
            let last_index = (if has_wildcard api single then mx else 0) in
            list_ex (\<lambda>index. derived_spk api single index = Some spk) [0..<Suc last_index])
          singles)"

subsection \<open>Extended-key flavour\<close>

fun key_kind :: "descriptor_public_key \<Rightarrow> network_kind option" where
  "key_kind (XPub k) = Some k"
| "key_kind (MultiXPub k) = Some k"
| "key_kind Single = None"

datatype kind_error = KindMismatch string network_kind network_kind network

definition check_descriptor_network_kind ::
  "'d desc_api \<Rightarrow> string \<Rightarrow> 'd \<Rightarrow> network \<Rightarrow> kind_error + unit" where
  "check_descriptor_network_kind api role descriptor net =
     (let expected = network_kind_of api net;
          offender = foldl (\<lambda>off key. case key_kind key of
              None \<Rightarrow> off
            | Some kind \<Rightarrow> if kind \<noteq> expected \<and> off = None then Some kind else off)
            None (descriptor_keys api descriptor)
      in case offender of
           None \<Rightarrow> Ok ()
         | Some kind \<Rightarrow> Err (KindMismatch role kind expected net))"

subsection \<open>The checks\<close>

definition check_psbt_consistency :: "psbt \<Rightarrow> policy_error + unit" where
  "check_psbt_consistency p =
     (let tx_inputs = length (tx_input (unsigned_tx p));
          tx_outputs = length (tx_output (unsigned_tx p))
      in if tx_inputs = 0 then refuse_with PsbtInconsistent ''psbt_consistency''
         else if tx_outputs = 0 then refuse_with PsbtInconsistent ''psbt_consistency''
         else if length (psbt_inputs p) \<noteq> tx_inputs
           then refuse_with PsbtInconsistent ''psbt_consistency''
         else if length (psbt_outputs p) \<noteq> tx_outputs
           then refuse_with PsbtInconsistent ''psbt_consistency''
         else for_each (\<lambda>input. if witness_utxo input = None
                then refuse_with PsbtInconsistent ''psbt_consistency'' else Ok ()) (psbt_inputs p))"

definition check_inputs :: "'d desc_api \<Rightarrow> psbt \<Rightarrow> 'd check_params \<Rightarrow> policy_error + unit" where
  "check_inputs api p params =
     for_each (\<lambda>input. case witness_utxo input of
         None \<Rightarrow> Err Panicked
       | Some utxo \<Rightarrow>
           if \<not> derives_within api (vault params) (script_pubkey utxo) (max_derivation_index params)
           then refuse_with UnknownInput ''input_ownership'' else Ok ()) (psbt_inputs p)"

text \<open>The three questions every output is asked, through the one primitive.\<close>

definition pays_vault :: "'d desc_api \<Rightarrow> 'd check_params \<Rightarrow> script \<Rightarrow> bool" where
  "pays_vault api params spk = derives_within api (vault params) spk (max_derivation_index params)"

definition pays_escape :: "'d desc_api \<Rightarrow> 'd check_params \<Rightarrow> script \<Rightarrow> bool" where
  "pays_escape api params spk =
     (case escape params of None \<Rightarrow> False
      | Some d \<Rightarrow> derives_within api d spk (max_derivation_index params))"

definition pays_allowed :: "'d desc_api \<Rightarrow> 'd check_params \<Rightarrow> script \<Rightarrow> bool" where
  "pays_allowed api params spk =
     list_ex (\<lambda>d. derives_within api d spk (max_derivation_index params)) (allowed params)"

definition check_destinations :: "'d desc_api \<Rightarrow> psbt \<Rightarrow> 'd check_params \<Rightarrow> policy_error + unit" where
  "check_destinations api p params =
     for_each (\<lambda>(out, out_map).
       let spk = script_pubkey out in
       if pays_allowed api params spk then Ok ()
       else if pays_vault api params spk then Ok ()
       else if bip32_derivation out_map \<noteq> []
         then refuse_with ChangeNotDerivable ''verified_change''
         else refuse_with DestNotAllowed ''destination_allowlist'')
     (zip (tx_output (unsigned_tx p)) (psbt_outputs p))"

definition hot_outflow :: "'d desc_api \<Rightarrow> psbt \<Rightarrow> 'd check_params \<Rightarrow> u64" where
  "hot_outflow api p params =
     foldl (\<lambda>sat out.
       let spk = script_pubkey out in
       if pays_vault api params spk then sat
       else if pays_escape api params spk then sat
       else sat_add64 sat (txo_value out)) 0 (tx_output (unsigned_tx p))"

definition check_hot_budget :: "'d desc_api \<Rightarrow> psbt \<Rightarrow> 'd check_params \<Rightarrow> policy_error + unit" where
  "check_hot_budget api p params =
     (if hot_outflow api p params > hot_max_per_tx params
      then refuse_with HotBudgetExceeded ''hot_budget'' else Ok ())"

definition total_in :: "psbt \<Rightarrow> nat" where
  "total_in p = sum_list (map txo_value (List.map_filter witness_utxo (psbt_inputs p)))"

definition total_out :: "psbt \<Rightarrow> nat" where
  "total_out p = sum_list (map txo_value (tx_output (unsigned_tx p)))"

definition check_fee :: "psbt \<Rightarrow> policy_error + unit" where
  "check_fee p =
     (let tin = total_in p; tout = total_out p in
      if tout > tin then refuse_with PsbtInconsistent ''fee_cap''
      else let fee = tin - tout in
        if fee * 100 > MAX_FEE_PERCENT * tin then refuse_with FeeExceedsCap ''fee_cap''
        else Ok ())"

definition evaluate :: "'d desc_api \<Rightarrow> psbt \<Rightarrow> 'd check_params \<Rightarrow> policy_error + unit" where
  "evaluate api p params =
     bind_res (check_psbt_consistency p) (\<lambda>_.
     bind_res (check_inputs api p params) (\<lambda>_.
     bind_res (check_destinations api p params) (\<lambda>_.
     bind_res (check_hot_budget api p params) (\<lambda>_.
     bind_res (check_fee p) (\<lambda>_. Ok ())))))"

subsection \<open>The transaction class\<close>

record classify_acc =
  ca_escape :: "nat list"
  ca_hot :: "nat list"
  ca_unrecognized :: "nat list"
  ca_hot_sat :: u64

definition classify_step ::
  "'d desc_api \<Rightarrow> 'd check_params \<Rightarrow> classify_acc \<Rightarrow> nat \<times> txout \<Rightarrow> classify_acc" where
  "classify_step api params acc = (\<lambda>(index, out).
     let spk = script_pubkey out in
     if pays_vault api params spk then acc
     else if pays_escape api params spk then acc\<lparr>ca_escape := ca_escape acc @ [index]\<rparr>
     else if pays_allowed api params spk
       then acc\<lparr>ca_hot := ca_hot acc @ [index], ca_hot_sat := sat_add64 (ca_hot_sat acc) (txo_value out)\<rparr>
     else acc\<lparr>ca_unrecognized := ca_unrecognized acc @ [index]\<rparr>)"

definition classify_scan :: "'d desc_api \<Rightarrow> 'd check_params \<Rightarrow> txout list \<Rightarrow> classify_acc" where
  "classify_scan api params outs =
     foldl (classify_step api params)
       \<lparr>ca_escape = [], ca_hot = [], ca_unrecognized = [], ca_hot_sat = 0\<rparr> (enumerate 0 outs)"

definition classify :: "'d desc_api \<Rightarrow> psbt \<Rightarrow> 'd check_params \<Rightarrow> policy_error + classification" where
  "classify api p params =
     (let acc = classify_scan api params (tx_output (unsigned_tx p)) in
      if ca_unrecognized acc \<noteq> [] then refuse_with PsbtInconsistent ''transaction_class''
      else case (ca_hot acc = [], ca_escape acc = []) of
          (True, True) \<Rightarrow> Ok \<lparr>cls_class = Refresh, cls_hot_outflow = ca_hot_sat acc\<rparr>
        | (True, False) \<Rightarrow> Ok \<lparr>cls_class = Escape, cls_hot_outflow = ca_hot_sat acc\<rparr>
        | (False, True) \<Rightarrow> Ok \<lparr>cls_class = Hot, cls_hot_outflow = ca_hot_sat acc\<rparr>
        | (False, False) \<Rightarrow> refuse_with PsbtInconsistent ''transaction_class'')"

subsection \<open>Specification: what an output is, what a spend moves\<close>

text \<open>
  The declarative reading of the scans: an output is vault change, escape, or hot (anything
  else), and the exact value of each share is an unbounded sum.
\<close>

definition is_hot :: "'d desc_api \<Rightarrow> 'd check_params \<Rightarrow> txout \<Rightarrow> bool" where
  "is_hot api params out \<longleftrightarrow>
     \<not> pays_vault api params (script_pubkey out) \<and> \<not> pays_escape api params (script_pubkey out)"

definition is_escape :: "'d desc_api \<Rightarrow> 'd check_params \<Rightarrow> txout \<Rightarrow> bool" where
  "is_escape api params out \<longleftrightarrow>
     \<not> pays_vault api params (script_pubkey out) \<and> pays_escape api params (script_pubkey out)"

definition value_where :: "(txout \<Rightarrow> bool) \<Rightarrow> psbt \<Rightarrow> nat" where
  "value_where P p = sum_list (map txo_value (filter P (tx_output (unsigned_tx p))))"

definition recognized :: "'d desc_api \<Rightarrow> 'd check_params \<Rightarrow> txout \<Rightarrow> bool" where
  "recognized api params out \<longleftrightarrow>
     pays_allowed api params (script_pubkey out) \<or> pays_vault api params (script_pubkey out)"

lemma derives_within_iff:
  "derives_within api d spk mx \<longleftrightarrow>
     (\<exists>singles single index. into_single_descriptors api d = Some singles \<and> single \<in> set singles \<and>
        index \<le> (if has_wildcard api single then mx else 0) \<and>
        derived_spk api single index = Some spk)"
proof (cases "into_single_descriptors api d")
  case None
  then show ?thesis by (simp add: derives_within_def)
next
  case (Some singles)
  have "index \<in> set [0..<Suc n] \<longleftrightarrow> index \<le> n" for index n :: nat by auto
  then show ?thesis by (simp only: derives_within_def Some list_ex_iff Let_def option.case Bex_def option.inject) blast
qed

lemma derives_within_mono:
  "derives_within api d spk m \<Longrightarrow> m \<le> n \<Longrightarrow> derives_within api d spk n"
proof -
  assume "derives_within api d spk m" "m \<le> n"
  then obtain singles single index where "into_single_descriptors api d = Some singles"
    "single \<in> set singles" "index \<le> (if has_wildcard api single then m else 0)"
    "derived_spk api single index = Some spk"
    unfolding derives_within_iff by blast
  moreover from this(3) \<open>m \<le> n\<close> have "index \<le> (if has_wildcard api single then n else 0)"
    by (simp split: if_splits)
  ultimately show ?thesis unfolding derives_within_iff by blast
qed

lemma refuse_with_not_Ok [simp]: "refuse_with c k \<noteq> Inr x" "Inr x \<noteq> refuse_with c k"
  by (simp_all add: refuse_with_def)

lemma refuse_with_eq_iff [simp]:
  "(refuse_with c k :: policy_error + 'a) = Inl e \<longleftrightarrow> e = Violated (violation_new c k)"
  "Inl e = (refuse_with c k :: policy_error + 'a) \<longleftrightarrow> e = Violated (violation_new c k)"
  by (auto simp: refuse_with_def)

lemma violation_new_simps [simp]:
  "vio_code (violation_new c k) = c" "vio_check (violation_new c k) = k"
  by (simp_all add: violation_new_def)

lemma foldl_hot:
  "acc \<le> u64_max \<Longrightarrow>
   foldl (\<lambda>sat out.
       let spk = script_pubkey out in
       if pays_vault api params spk then sat
       else if pays_escape api params spk then sat
       else sat_add64 sat (txo_value out)) acc outs
   = min (acc + sum_list (map txo_value (filter (is_hot api params) outs))) u64_max"
proof (induction outs arbitrary: acc)
  case Nil
  then show ?case by simp
next
  case (Cons out outs)
  show ?case
  proof (cases "is_hot api params out")
    case True
    then have "sat_add64 acc (txo_value out) \<le> u64_max" by simp
    from Cons.IH [OF this] True show ?thesis
      by (simp add: is_hot_def Let_def sat_add64_def min_def)
  next
    case False
    with Cons.IH [OF Cons.prems] show ?thesis by (auto simp: is_hot_def Let_def)
  qed
qed

lemma hot_outflow_eq:
  "hot_outflow api p params = min (value_where (is_hot api params) p) u64_max"
  using foldl_hot [of 0 api params "tx_output (unsigned_tx p)"]
  by (simp add: hot_outflow_def value_where_def)

subsection \<open>Each check as a condition\<close>

lemma check_psbt_consistency_Ok_iff:
  "check_psbt_consistency p = Ok () \<longleftrightarrow>
     tx_input (unsigned_tx p) \<noteq> [] \<and> tx_output (unsigned_tx p) \<noteq> [] \<and>
     length (psbt_inputs p) = length (tx_input (unsigned_tx p)) \<and>
     length (psbt_outputs p) = length (tx_output (unsigned_tx p)) \<and>
     (\<forall>i \<in> set (psbt_inputs p). witness_utxo i \<noteq> None)"
  by (auto simp: check_psbt_consistency_def Let_def for_each_Ok_iff split: if_splits)

lemma check_inputs_Ok_iff:
  "check_inputs api p params = Ok () \<longleftrightarrow>
     (\<forall>i \<in> set (psbt_inputs p). \<exists>utxo. witness_utxo i = Some utxo \<and>
        pays_vault api params (script_pubkey utxo))"
  by (auto simp: check_inputs_def for_each_Ok_iff pays_vault_def split: option.splits if_splits)

lemma zip_snd_ex: "length xs = length ys \<Longrightarrow> x \<in> set xs \<Longrightarrow> \<exists>y. (x, y) \<in> set (zip xs ys)"
  by (metis in_set_impl_in_set_zip1)

lemma check_destinations_Ok_iff:
  "length (psbt_outputs p) = length (tx_output (unsigned_tx p)) \<Longrightarrow>
   check_destinations api p params = Ok () \<longleftrightarrow>
     (\<forall>out \<in> set (tx_output (unsigned_tx p)). recognized api params out)"
proof -
  assume len: "length (psbt_outputs p) = length (tx_output (unsigned_tx p))"
  have "check_destinations api p params = Ok () \<longleftrightarrow>
      (\<forall>e \<in> set (zip (tx_output (unsigned_tx p)) (psbt_outputs p)). recognized api params (fst e))"
    by (auto simp: check_destinations_def for_each_Ok_iff Let_def recognized_def split: if_splits)
  also have "\<dots> \<longleftrightarrow> (\<forall>out \<in> set (tx_output (unsigned_tx p)). recognized api params out)"
    using zip_snd_ex [OF len [symmetric]] by (fastforce dest: set_zip_leftD)
  finally show ?thesis .
qed

lemma check_hot_budget_Ok_iff:
  "check_hot_budget api p params = Ok () \<longleftrightarrow> hot_outflow api p params \<le> hot_max_per_tx params"
  by (simp add: check_hot_budget_def)

lemma check_fee_Ok_iff:
  "check_fee p = Ok () \<longleftrightarrow>
     total_out p \<le> total_in p \<and> (total_in p - total_out p) * 100 \<le> MAX_FEE_PERCENT * total_in p"
  by (auto simp: check_fee_def Let_def)

lemma evaluate_Ok_iff:
  "evaluate api p params = Ok () \<longleftrightarrow>
     check_psbt_consistency p = Ok () \<and> check_inputs api p params = Ok () \<and>
     check_destinations api p params = Ok () \<and> check_hot_budget api p params = Ok () \<and>
     check_fee p = Ok ()"
  by (auto simp: evaluate_def bind_res_Ok_iff)

lemma evaluate_recognized:
  "evaluate api p params = Ok () \<Longrightarrow> out \<in> set (tx_output (unsigned_tx p)) \<Longrightarrow>
   recognized api params out"
  using check_destinations_Ok_iff [of p api params]
  by (simp add: evaluate_Ok_iff check_psbt_consistency_Ok_iff)

lemma value_split:
  "value_where (is_hot api params) p + value_where (is_escape api params) p +
     value_where (\<lambda>out. pays_vault api params (script_pubkey out)) p = total_out p"
proof -
  have "sum_list (map txo_value (filter (is_hot api params) outs)) +
        sum_list (map txo_value (filter (is_escape api params) outs)) +
        sum_list (map txo_value (filter (\<lambda>out. pays_vault api params (script_pubkey out)) outs))
        = sum_list (map txo_value outs)" for outs
    by (induction outs) (auto simp: is_hot_def is_escape_def)
  then show ?thesis by (simp add: value_where_def total_out_def)
qed

subsection \<open>The classification scan as filters\<close>

lemma enumerate_Suc_append: "enumerate n (xs @ [x]) = enumerate n xs @ [(n + length xs, x)]"
  by (induction xs arbitrary: n) auto

lemma classify_scan_eq:
  "classify_scan api params outs =
     \<lparr>ca_escape = map fst (filter (\<lambda>e. is_escape api params (snd e)) (enumerate 0 outs)),
      ca_hot = map fst (filter (\<lambda>e. is_hot api params (snd e) \<and>
                 pays_allowed api params (script_pubkey (snd e))) (enumerate 0 outs)),
      ca_unrecognized = map fst (filter (\<lambda>e. is_hot api params (snd e) \<and>
                 \<not> pays_allowed api params (script_pubkey (snd e))) (enumerate 0 outs)),
      ca_hot_sat = min (sum_list (map txo_value (filter (\<lambda>out. is_hot api params out \<and>
                 pays_allowed api params (script_pubkey out)) outs))) u64_max\<rparr>"
proof (induction outs rule: rev_induct)
  case Nil
  show ?case by (simp add: classify_scan_def)
next
  case (snoc out outs)
  have "classify_scan api params (outs @ [out])
        = classify_step api params (classify_scan api params outs) (length outs, out)"
    by (simp add: classify_scan_def enumerate_Suc_append)
  then show ?case
    unfolding snoc
    by (auto simp: classify_step_def Let_def is_hot_def is_escape_def enumerate_Suc_append
        sat_add64_def min_def)
qed

lemma filter_enumerate_Nil: "filter (P \<circ> snd) (enumerate n xs) = [] \<longleftrightarrow> (\<forall>x \<in> set xs. \<not> P x)"
  by (induction xs arbitrary: n) auto

lemmas classify_scan_Nil = filter_enumerate_Nil [unfolded comp_def]

lemma scan_escape_Nil:
  "ca_escape (classify_scan api params outs) = [] \<longleftrightarrow> (\<forall>out \<in> set outs. \<not> is_escape api params out)"
  by (simp add: classify_scan_eq classify_scan_Nil)

lemma scan_hot_Nil:
  "ca_hot (classify_scan api params outs) = [] \<longleftrightarrow>
   (\<forall>out \<in> set outs. \<not> (is_hot api params out \<and> pays_allowed api params (script_pubkey out)))"
  using classify_scan_Nil
    [of "\<lambda>out. is_hot api params out \<and> pays_allowed api params (script_pubkey out)" 0 outs]
  by (simp add: classify_scan_eq)

lemma scan_unrecognized_Nil:
  "ca_unrecognized (classify_scan api params outs) = [] \<longleftrightarrow>
   (\<forall>out \<in> set outs. is_hot api params out \<longrightarrow> pays_allowed api params (script_pubkey out))"
  using classify_scan_Nil
    [of "\<lambda>out. is_hot api params out \<and> \<not> pays_allowed api params (script_pubkey out)" 0 outs]
  by (auto simp: classify_scan_eq)

lemma scan_hot_sat:
  "ca_unrecognized (classify_scan api params (tx_output (unsigned_tx p))) = [] \<Longrightarrow>
   ca_hot_sat (classify_scan api params (tx_output (unsigned_tx p))) = hot_outflow api p params"
proof -
  assume "ca_unrecognized (classify_scan api params (tx_output (unsigned_tx p))) = []"
  then have "filter (\<lambda>out. is_hot api params out \<and> pays_allowed api params (script_pubkey out))
        (tx_output (unsigned_tx p)) = filter (is_hot api params) (tx_output (unsigned_tx p))"
    by (intro filter_cong) (auto simp: scan_unrecognized_Nil)
  then show ?thesis by (simp add: classify_scan_eq hot_outflow_eq value_where_def)
qed

lemma classify_Ok_iff:
  "classify api p params = Ok c \<longleftrightarrow>
     (let outs = tx_output (unsigned_tx p); acc = classify_scan api params outs in
      ca_unrecognized acc = [] \<and> (ca_hot acc = [] \<or> ca_escape acc = []) \<and>
      c = \<lparr>cls_class = (if ca_hot acc \<noteq> [] then Hot else if ca_escape acc \<noteq> [] then Escape else Refresh),
           cls_hot_outflow = hot_outflow api p params\<rparr>)"
  by (cases "ca_hot (classify_scan api params (tx_output (unsigned_tx p))) = []";
      cases "ca_escape (classify_scan api params (tx_output (unsigned_tx p))) = []")
    (auto simp: classify_def Let_def scan_hot_sat)

subsection \<open>Refusals\<close>

lemma check_psbt_consistency_Err:
  "check_psbt_consistency p = Err e \<Longrightarrow>
   e = Violated (violation_new PsbtInconsistent ''psbt_consistency'')"
  by (auto simp: check_psbt_consistency_def Let_def split: if_splits dest!: for_each_Err)

lemma check_inputs_Err:
  assumes "check_psbt_consistency p = Ok ()" and "check_inputs api p params = Err e"
  shows "e = Violated (violation_new UnknownInput ''input_ownership'') \<and>
         (\<exists>i \<in> set (psbt_inputs p). \<exists>utxo. witness_utxo i = Some utxo \<and>
            \<not> pays_vault api params (script_pubkey utxo))"
proof -
  from assms(2) [unfolded check_inputs_def, THEN for_each_Err] obtain ys i zs
    where i: "psbt_inputs p = ys @ i # zs" and
      e: "(case witness_utxo i of None \<Rightarrow> Err Panicked
       | Some utxo \<Rightarrow>
           if \<not> derives_within api (vault params) (script_pubkey utxo) (max_derivation_index params)
           then refuse_with UnknownInput ''input_ownership'' else Ok ()) = Err e" by blast
  from i assms(1) obtain utxo where "witness_utxo i = Some utxo"
    by (auto simp: check_psbt_consistency_Ok_iff)
  with e i show ?thesis by (auto simp: pays_vault_def split: if_splits)
qed

lemma check_destinations_Err:
  assumes "check_destinations api p params = Err e"
  shows "\<exists>(out, out_map) \<in> set (zip (tx_output (unsigned_tx p)) (psbt_outputs p)).
           \<not> recognized api params out \<and>
           e = Violated (if bip32_derivation out_map \<noteq> []
                 then violation_new ChangeNotDerivable ''verified_change''
                 else violation_new DestNotAllowed ''destination_allowlist'')"
  using for_each_Err [OF assms [unfolded check_destinations_def]]
  by (fastforce simp: recognized_def Let_def split: if_splits)

lemma check_hot_budget_Err:
  "check_hot_budget api p params = Err e \<longleftrightarrow>
   hot_outflow api p params > hot_max_per_tx params \<and>
   e = Violated (violation_new HotBudgetExceeded ''hot_budget'')"
  by (auto simp: check_hot_budget_def)

lemma check_fee_Err:
  "check_fee p = Err e \<longleftrightarrow>
   (if total_out p > total_in p then e = Violated (violation_new PsbtInconsistent ''fee_cap'')
    else (total_in p - total_out p) * 100 > MAX_FEE_PERCENT * total_in p \<and>
         e = Violated (violation_new FeeExceedsCap ''fee_cap''))"
  by (auto simp: check_fee_def Let_def)

lemma evaluate_Err_cases:
  assumes "evaluate api p params = Err e"
  obtains "check_psbt_consistency p = Err e"
  | "check_psbt_consistency p = Ok ()" "check_inputs api p params = Err e"
  | "check_psbt_consistency p = Ok ()" "check_inputs api p params = Ok ()"
    "check_destinations api p params = Err e"
  | "check_psbt_consistency p = Ok ()" "check_inputs api p params = Ok ()"
    "check_destinations api p params = Ok ()" "check_hot_budget api p params = Err e"
  | "check_psbt_consistency p = Ok ()" "check_inputs api p params = Ok ()"
    "check_destinations api p params = Ok ()" "check_hot_budget api p params = Ok ()"
    "check_fee p = Err e"
  using assms by (auto simp: evaluate_def bind_res_Err_iff)

subsection \<open>A concrete vault for the witnesses\<close>

text \<open>
  A descriptor is a tag byte; tag 9 is a two-chain descriptor that splits into tags 1 and 5,
  every other tag is itself. Descriptor \<open>t\<close> derives \<open>[t, i]\<close> at index \<open>i\<close>.
\<close>

definition demo_api :: "nat desc_api" where
  "demo_api = \<lparr>
     into_single_descriptors = (\<lambda>d. if d = 0 then None else if d = 9 then Some [1, 5] else Some [d]),
     has_wildcard = (\<lambda>d. d \<noteq> 3),
     derived_spk = (\<lambda>d i. Some [word_of_nat d, word_of_nat i]),
     descriptor_keys = (\<lambda>d. [Single, XPub (if d = 4 then KindMain else KindTest), MultiXPub KindTest]),
     network_kind_of = (\<lambda>n. if n = Bitcoin then KindMain else KindTest)\<rparr>"

definition demo_params :: "nat check_params" where
  "demo_params = \<lparr>vault = 9, allowed = [2, 3], escape = Some 3, max_derivation_index = 2,
     hot_max_per_tx = 600\<rparr>"

definition demo_input :: psbt_input where
  "demo_input = \<lparr>non_witness_utxo = None, witness_utxo = Some \<lparr>script_pubkey = [5, 1], txo_value = 1000\<rparr>, partial_sigs = [],
     psbt_sighash_type = None, redeem_script = None, witness_script = None,
     final_script_sig = None, final_script_witness = None\<rparr>"

definition demo_psbt :: "txout list \<Rightarrow> psbt" where
  "demo_psbt outs = \<lparr>
     unsigned_tx = \<lparr>tx_version = 2, tx_lock_time = 0,
       tx_input = [\<lparr>previous_output = \<lparr>op_txid = [7], op_vout = 0\<rparr>, script_sig = [], sequence = 0xfffffffd, txin_witness = []\<rparr>],
       tx_output = outs\<rparr>,
     psbt_inputs = [demo_input],
     psbt_outputs = map (\<lambda>_. \<lparr>bip32_derivation = []\<rparr>) outs\<rparr>"

definition demo_out :: "byte \<Rightarrow> byte \<Rightarrow> u64 \<Rightarrow> txout" where
  "demo_out t i v = \<lparr>script_pubkey = [t, i], txo_value = v\<rparr>"

definition demo_hot :: psbt where "demo_hot = demo_psbt [demo_out 2 1 600, demo_out 1 2 350]"
definition demo_escape :: psbt where "demo_escape = demo_psbt [demo_out 3 0 600, demo_out 1 2 350]"
definition demo_over :: psbt where "demo_over = demo_psbt [demo_out 2 1 700, demo_out 1 2 1]"

lemmas policy_defs = evaluate_def check_psbt_consistency_def check_inputs_def check_destinations_def
  check_hot_budget_def check_fee_def hot_outflow_def total_in_def total_out_def map_filter_simps
  pays_vault_def pays_escape_def pays_allowed_def derives_within_def MAX_FEE_PERCENT_def
  classify_def classify_scan_def classify_step_def upt_rec sat_add64_def u64_max_def

lemmas demo_defs = demo_api_def demo_params_def demo_input_def demo_psbt_def demo_out_def
  demo_hot_def demo_escape_def demo_over_def

subsection \<open>Properties\<close>

text \<open>C7: the loss bound. When \<open>evaluate\<close> admits a spend (and the per-transaction cap is
  a real one, below the saturation point of the meter), every input belongs to the vault, every
  output is an allowlisted destination or verified change, the value leaving to destinations
  that are neither the vault nor the escape wallet is at most the cap, and what the vault and
  the escape wallet do not get back is at most the cap plus a fee of ten percent of the inputs.\<close>

theorem evaluate_loss_bound:
  assumes "evaluate api p params = Ok ()" and "hot_max_per_tx params < u64_max"
  shows "(\<forall>i \<in> set (psbt_inputs p). \<exists>utxo. witness_utxo i = Some utxo \<and>
            pays_vault api params (script_pubkey utxo)) \<and>
         (\<forall>out \<in> set (tx_output (unsigned_tx p)). recognized api params out) \<and>
         value_where (is_hot api params) p \<le> hot_max_per_tx params \<and>
         10 * (total_in p - (value_where (\<lambda>out. pays_vault api params (script_pubkey out)) p +
                 value_where (is_escape api params) p))
           \<le> 10 * hot_max_per_tx params + total_in p"
proof -
  note ok = assms(1) [unfolded evaluate_Ok_iff]
  have hot: "value_where (is_hot api params) p \<le> hot_max_per_tx params"
    using ok assms(2) by (auto simp: check_hot_budget_Ok_iff hot_outflow_eq min_def split: if_splits)
  have fee: "total_out p \<le> total_in p" "(total_in p - total_out p) * 100 \<le> 10 * total_in p"
    using ok by (auto simp: check_fee_Ok_iff MAX_FEE_PERCENT_def)
  from hot fee value_split [of api params p] ok evaluate_recognized [OF assms(1)]
  show ?thesis by (auto simp: check_inputs_Ok_iff)
qed

theorem evaluate_loss_bound_witness:
  "evaluate demo_api demo_hot demo_params = Ok () \<and>
   value_where (is_hot demo_api demo_params) demo_hot \<le> 600"
proof -
  have ok: "evaluate demo_api demo_hot demo_params = Ok ()" by (simp add: demo_defs policy_defs refuse_with_def)
  have cap: "hot_max_per_tx demo_params < u64_max" by (simp add: demo_defs policy_defs refuse_with_def)
  have "hot_max_per_tx demo_params = 600" by (simp add: demo_params_def)
  with evaluate_loss_bound [OF ok cap] ok show ?thesis by simp
qed

text \<open>The \<open>expect\<close> in \<open>check_inputs\<close> is unreachable from \<open>evaluate\<close>: the
  consistency check runs first and refuses every PSBT that would trip it, so evaluation never
  panics, whatever the PSBT.\<close>

theorem evaluate_never_panics: "evaluate api p params \<noteq> Err Panicked"
  by (auto elim!: evaluate_Err_cases dest: check_psbt_consistency_Err check_inputs_Err
      check_destinations_Err simp: check_hot_budget_Err check_fee_Err split: if_splits)

text \<open>C39: what each refusal code means. The first failing check wins, so the code a spend is
  refused with certifies every earlier check: an over-budget refusal is only given to a spend
  whose inputs are all owned and whose outputs are all recognized, a fee refusal only to one
  that is also within the Hot budget, and the two destination codes differ by the change label
  of an unrecognized output.\<close>

theorem evaluate_refusal_code:
  assumes "evaluate api p params = Err (Violated v)"
  shows "case vio_code v of
      PsbtInconsistent \<Rightarrow>
        check_psbt_consistency p \<noteq> Ok () \<or>
        hot_outflow api p params \<le> hot_max_per_tx params \<and> total_in p < total_out p
    | UnknownInput \<Rightarrow>
        check_psbt_consistency p = Ok () \<and>
        (\<exists>i \<in> set (psbt_inputs p). \<exists>utxo. witness_utxo i = Some utxo \<and>
           \<not> pays_vault api params (script_pubkey utxo))
    | ChangeNotDerivable \<Rightarrow>
        check_inputs api p params = Ok () \<and>
        (\<exists>(out, om) \<in> set (zip (tx_output (unsigned_tx p)) (psbt_outputs p)).
           \<not> recognized api params out \<and> bip32_derivation om \<noteq> [])
    | DestNotAllowed \<Rightarrow>
        check_inputs api p params = Ok () \<and>
        (\<exists>(out, om) \<in> set (zip (tx_output (unsigned_tx p)) (psbt_outputs p)).
           \<not> recognized api params out \<and> bip32_derivation om = [])
    | HotBudgetExceeded \<Rightarrow>
        check_inputs api p params = Ok () \<and>
        (\<forall>out \<in> set (tx_output (unsigned_tx p)). recognized api params out) \<and>
        hot_outflow api p params > hot_max_per_tx params
    | FeeExceedsCap \<Rightarrow>
        check_inputs api p params = Ok () \<and>
        (\<forall>out \<in> set (tx_output (unsigned_tx p)). recognized api params out) \<and>
        hot_outflow api p params \<le> hot_max_per_tx params \<and> total_out p \<le> total_in p \<and>
        (total_in p - total_out p) * 10 > total_in p"
  using assms
proof (cases rule: evaluate_Err_cases)
  case 1
  then show ?thesis using check_psbt_consistency_Err [OF 1] by simp
next
  case 2
  then show ?thesis using check_inputs_Err [OF 2] by auto
next
  case 3
  from check_destinations_Err [OF 3(3)] obtain out om
    where "(out, om) \<in> set (zip (tx_output (unsigned_tx p)) (psbt_outputs p))"
      "\<not> recognized api params out"
      "v = (if bip32_derivation om \<noteq> [] then violation_new ChangeNotDerivable ''verified_change''
            else violation_new DestNotAllowed ''destination_allowlist'')" by auto
  with 3 show ?thesis by (cases "bip32_derivation om = []") (auto intro!: bexI [of _ "(out, om)"])
next
  case 4
  then show ?thesis using check_destinations_Ok_iff [of p api params]
    by (auto simp: check_hot_budget_Err check_psbt_consistency_Ok_iff)
next
  case 5
  then show ?thesis using check_destinations_Ok_iff [of p api params]
    by (auto simp: check_hot_budget_Ok_iff check_fee_Err check_psbt_consistency_Ok_iff
        MAX_FEE_PERCENT_def split: if_splits)
qed

theorem evaluate_refusal_code_witness:
  "evaluate demo_api demo_over demo_params
     = Err (Violated (violation_new HotBudgetExceeded ''hot_budget'')) \<and>
   check_inputs demo_api demo_over demo_params = Ok ()"
proof -
  have "evaluate demo_api demo_over demo_params
     = Err (Violated (violation_new HotBudgetExceeded ''hot_budget''))" by (simp add: demo_defs policy_defs refuse_with_def)
  from evaluate_refusal_code [OF this] this show ?thesis by simp
qed

text \<open>Class and admission agree. For a spend that \<open>evaluate\<close> admits, the
  classification fails exactly when hot and escape destinations are mixed; otherwise the class is
  Hot when some output is hot, Escape when some output is escape, Refresh when everything
  returns to the vault, and the outflow it carries is the very amount the per-transaction check
  metered, within the cap.\<close>

theorem classify_of_admitted:
  assumes "evaluate api p params = Ok ()"
  shows "let outs = set (tx_output (unsigned_tx p));
             hot = (\<exists>out \<in> outs. is_hot api params out);
             esc = (\<exists>out \<in> outs. is_escape api params out)
         in classify api p params =
              (if hot \<and> esc then refuse_with PsbtInconsistent ''transaction_class''
               else Ok \<lparr>cls_class = (if hot then Hot else if esc then Escape else Refresh),
                        cls_hot_outflow = hot_outflow api p params\<rparr>) \<and>
            hot_outflow api p params \<le> hot_max_per_tx params"
proof -
  let ?outs = "tx_output (unsigned_tx p)" and ?acc = "classify_scan api params (tx_output (unsigned_tx p))"
  have rec: "is_hot api params out \<longrightarrow> pays_allowed api params (script_pubkey out)" if "out \<in> set ?outs" for out
    using evaluate_recognized [OF assms that] by (auto simp: recognized_def is_hot_def)
  then have u: "ca_unrecognized ?acc = []" by (simp add: scan_unrecognized_Nil)
  have h: "ca_hot ?acc = [] \<longleftrightarrow> \<not> (\<exists>out \<in> set ?outs. is_hot api params out)"
    using rec by (auto simp: scan_hot_Nil)
  have e: "ca_escape ?acc = [] \<longleftrightarrow> \<not> (\<exists>out \<in> set ?outs. is_escape api params out)"
    by (auto simp: scan_escape_Nil)
  have cap: "hot_outflow api p params \<le> hot_max_per_tx params"
    using assms by (simp add: evaluate_Ok_iff check_hot_budget_Ok_iff)
  show ?thesis
    unfolding Let_def classify_def scan_hot_sat [OF u] u h e using cap
    by (cases "\<exists>out \<in> set ?outs. is_hot api params out";
        cases "\<exists>out \<in> set ?outs. is_escape api params out") (simp_all only: simp_thms if_True if_False bool.case prod.case)
qed

theorem classify_of_admitted_witness:
  "classify demo_api demo_escape demo_params = Ok \<lparr>cls_class = Escape, cls_hot_outflow = 0\<rparr> \<and>
   hot_outflow demo_api demo_escape demo_params \<le> hot_max_per_tx demo_params"
proof -
  have ok: "evaluate demo_api demo_escape demo_params = Ok ()" by (simp add: demo_defs policy_defs refuse_with_def)
  have c: "classify demo_api demo_escape demo_params = Ok \<lparr>cls_class = Escape, cls_hot_outflow = 0\<rparr>"
    by (simp add: demo_defs policy_defs refuse_with_def)
  from classify_of_admitted [OF ok] c show ?thesis by (simp add: Let_def)
qed

text \<open>The mixed-class bypass is closed, without relying on \<open>evaluate\<close> having run. A
  spend classified Escape or Refresh moves nothing to a destination outside the vault and the
  escape wallet (in unbounded arithmetic, so no saturation hides an outflow); a Refresh pays the
  vault alone; and a Hot spend pays nothing to the escape wallet.\<close>

theorem class_soundness:
  assumes "classify api p params = Ok c"
  shows "(cls_class c \<noteq> Hot \<longrightarrow> value_where (is_hot api params) p = 0 \<and> cls_hot_outflow c = 0 \<and>
            (\<forall>out \<in> set (tx_output (unsigned_tx p)).
               pays_vault api params (script_pubkey out) \<or> pays_escape api params (script_pubkey out))) \<and>
         (cls_class c = Refresh \<longrightarrow> (\<forall>out \<in> set (tx_output (unsigned_tx p)).
               pays_vault api params (script_pubkey out))) \<and>
         (cls_class c = Hot \<longrightarrow> value_where (is_escape api params) p = 0)"
proof -
  let ?outs = "tx_output (unsigned_tx p)" and ?acc = "classify_scan api params (tx_output (unsigned_tx p))"
  note c = assms [unfolded classify_Ok_iff Let_def]
  have u: "\<forall>out \<in> set ?outs. is_hot api params out \<longrightarrow> pays_allowed api params (script_pubkey out)"
    using c by (simp add: scan_unrecognized_Nil)
  have hot: "\<forall>out \<in> set ?outs. \<not> is_hot api params out" if "cls_class c \<noteq> Hot"
    using c u that by (auto simp: scan_hot_Nil split: if_splits)
  have esc: "\<forall>out \<in> set ?outs. \<not> is_escape api params out" if "cls_class c \<noteq> Escape"
    using c that by (auto simp: scan_escape_Nil split: if_splits)
  have zero: "(\<forall>out \<in> set ?outs. \<not> P out) \<Longrightarrow> value_where P p = 0" for P
    by (simp add: value_where_def)
  have out: "cls_hot_outflow c = min (value_where (is_hot api params) p) u64_max"
    using c by (simp add: hot_outflow_eq)
  show ?thesis
  proof (cases "cls_class c")
    case Refresh
    with hot esc zero [of "is_hot api params"] out show ?thesis by (auto simp: is_hot_def is_escape_def)
  next
    case Escape
    with hot zero [of "is_hot api params"] out show ?thesis by (auto simp: is_hot_def)
  next
    case Hot
    with esc zero [of "is_escape api params"] show ?thesis by auto
  qed
qed

theorem class_soundness_witness:
  "classify demo_api demo_escape demo_params = Ok \<lparr>cls_class = Escape, cls_hot_outflow = 0\<rparr> \<and>
   value_where (is_hot demo_api demo_params) demo_escape = 0"
proof -
  have c: "classify demo_api demo_escape demo_params = Ok \<lparr>cls_class = Escape, cls_hot_outflow = 0\<rparr>"
    by (simp add: demo_defs policy_defs refuse_with_def)
  from class_soundness [OF c] c show ?thesis by simp
qed

text \<open>The fee check is stated over unbounded sums; the code computes it in \<open>u128\<close>.
  With at most \<open>2 ^ 56\<close> inputs and outputs of \<open>u64\<close> amounts (no transaction comes near),
  every sum and product of the check stays below \<open>2 ^ 128\<close>, so the two agree.\<close>

theorem check_fee_no_overflow:
  assumes "length (psbt_inputs p) \<le> 2 ^ 56" and "length (tx_output (unsigned_tx p)) \<le> 2 ^ 56"
    and "\<forall>i \<in> set (psbt_inputs p). \<forall>utxo. witness_utxo i = Some utxo \<longrightarrow> txo_value utxo \<le> u64_max"
    and "\<forall>out \<in> set (tx_output (unsigned_tx p)). txo_value out \<le> u64_max"
  shows "total_in p * 100 < 2 ^ 128 \<and> total_out p < 2 ^ 128 \<and> MAX_FEE_PERCENT * total_in p < 2 ^ 128 \<and>
         (total_in p - total_out p) * 100 < 2 ^ 128"
proof -
  have bound: "sum_list xs \<le> length xs * u64_max" if "\<forall>x \<in> set xs. x \<le> u64_max" for xs :: "nat list"
    using that by (induction xs) auto
  have len: "length (List.map_filter f xs) \<le> length xs" for f :: "psbt_input \<Rightarrow> txout option" and xs
    by (simp add: map_filter_def)
  have "\<forall>x \<in> set (map txo_value (List.map_filter witness_utxo (psbt_inputs p))). x \<le> u64_max"
    using assms(3) by (auto simp: map_filter_def)
  from bound [OF this] have "total_in p \<le> length (List.map_filter witness_utxo (psbt_inputs p)) * u64_max"
    by (simp add: total_in_def)
  also have "\<dots> \<le> 2 ^ 56 * u64_max"
    using len [of witness_utxo "psbt_inputs p"] assms(1) by (intro mult_right_mono) linarith+
  finally have i: "total_in p \<le> 2 ^ 56 * u64_max" .
  have "total_out p \<le> length (tx_output (unsigned_tx p)) * u64_max"
    unfolding total_out_def
    using bound [of "map txo_value (tx_output (unsigned_tx p))"] assms(4) by auto
  also have "\<dots> \<le> 2 ^ 56 * u64_max"
    using assms(2) by (intro mult_right_mono) linarith+
  finally have o: "total_out p \<le> 2 ^ 56 * u64_max" .
  from i o show ?thesis by (simp add: u64_max_def MAX_FEE_PERCENT_def)
qed

theorem check_fee_no_overflow_witness:
  "length (psbt_inputs demo_hot) = 1 \<and> total_in demo_hot * 100 < 2 ^ 128"
proof -
  have "length (psbt_inputs demo_hot) \<le> 2 ^ 56" "length (tx_output (unsigned_tx demo_hot)) \<le> 2 ^ 56"
    "\<forall>i \<in> set (psbt_inputs demo_hot). \<forall>utxo. witness_utxo i = Some utxo \<longrightarrow> txo_value utxo \<le> u64_max"
    "\<forall>out \<in> set (tx_output (unsigned_tx demo_hot)). txo_value out \<le> u64_max"
    by (simp_all add: demo_defs u64_max_def)
  from check_fee_no_overflow [OF this] show ?thesis by (simp add: demo_hot_def demo_psbt_def)
qed

text \<open>The key-flavour check accepts a descriptor exactly when every extended key carries
  the kind the network implies, definite keys being neutral, and otherwise names the kind of the
  first offending key in visiting order.\<close>

theorem network_kind_check_spec:
  "check_descriptor_network_kind api role d net =
     (case filter (\<lambda>k. k \<noteq> network_kind_of api net)
             (List.map_filter key_kind (descriptor_keys api d)) of
        [] \<Rightarrow> Ok ()
      | k # ks \<Rightarrow> Err (KindMismatch role k (network_kind_of api net) net))"
proof -
  let ?f = "\<lambda>off key. case key_kind key of None \<Rightarrow> off
            | Some kind \<Rightarrow> if kind \<noteq> network_kind_of api net \<and> off = None then Some kind else off"
  have stuck: "foldl ?f (Some k) keys = Some k" for k keys
    by (induction keys) (simp_all split: option.splits)
  have "foldl ?f None keys =
     (case filter (\<lambda>k. k \<noteq> network_kind_of api net) (List.map_filter key_kind keys) of
        [] \<Rightarrow> None | k # ks \<Rightarrow> Some k)" for keys
    by (induction keys) (simp_all add: map_filter_simps stuck split: option.splits)
  then show ?thesis
    by (simp add: check_descriptor_network_kind_def Let_def split: list.splits)
qed

end
