(* ===== verification/Replay_Log.thy ===== *)
theory Replay_Log
  imports Bitcoin_Types
begin

text \<open>
  The node's in-memory logs, \<open>crates/vault-node/src/replay.rs\<close>: recorded verdicts
  (\<open>ReplayLog\<close>), pending spends (\<open>PendingLog\<close>), per-coin refresh times
  (\<open>RefreshLog\<close>) and the coordinator-nonce log (\<open>NonceLog\<close>) with its rollback
  high-water mark and the monotonic deadline of a carrier. Clocks are arguments, as in the code.
  The nonce log is an instance of the \<open>replay_guard\<close> interface. The verdict type of the
  replay log is a type variable, the txid function of rust-bitcoin an argument.
\<close>

subsection \<open>Recorded verdicts\<close>

record 'v entry =
  entry_expiry :: u64
  verdict :: 'v

type_synonym 'v replay_log = "(string, 'v entry) hmap"

definition replay_get :: "'v replay_log \<Rightarrow> string \<Rightarrow> u64 \<Rightarrow> 'v option" where
  "replay_get log key now =
     (case hm_get log key of None \<Rightarrow> None
      | Some e \<Rightarrow> if entry_expiry e > now then Some (verdict e) else None)"

definition replay_record :: "'v replay_log \<Rightarrow> string \<Rightarrow> u64 \<Rightarrow> 'v \<Rightarrow> 'v replay_log" where
  "replay_record log key expiry v = hm_insert key \<lparr>entry_expiry = expiry, verdict = v\<rparr> log"

definition replay_prune :: "'v replay_log \<Rightarrow> u64 \<Rightarrow> 'v replay_log" where
  "replay_prune log now = hm_retain (\<lambda>_ e. entry_expiry e > now) log"

subsection \<open>Pending spends\<close>

type_synonym pending_log = "(string, u64) hmap"

definition pending_record :: "pending_log \<Rightarrow> string \<Rightarrow> u64 \<Rightarrow> pending_log" where
  "pending_record log cid expiry = hm_insert cid expiry log"

definition pending_remove :: "pending_log \<Rightarrow> string \<Rightarrow> pending_log \<times> bool" where
  "pending_remove log cid = (hm_remove cid log, hm_get log cid \<noteq> None)"

definition pending_prune :: "pending_log \<Rightarrow> u64 \<Rightarrow> pending_log" where
  "pending_prune log now = hm_retain (\<lambda>_ expiry. expiry \<ge> now) log"

definition pending_has_any :: "pending_log \<Rightarrow> u64 \<Rightarrow> bool" where
  "pending_has_any log now = list_ex (\<lambda>expiry. expiry \<ge> now) (hm_values log)"

definition pending_ids :: "pending_log \<Rightarrow> u64 \<Rightarrow> string list" where
  "pending_ids log now = map fst (filter (\<lambda>(_, expiry). expiry \<ge> now) log)"

subsection \<open>Refresh times\<close>

type_synonym refresh_log = "(outpoint, u64) hmap"

definition last_refresh :: "refresh_log \<Rightarrow> outpoint \<Rightarrow> u64 option" where
  "last_refresh log outp = hm_get log outp"

definition refresh_record :: "(transaction \<Rightarrow> txid) \<Rightarrow> refresh_log \<Rightarrow> psbt \<Rightarrow> u64 \<Rightarrow> refresh_log" where
  "refresh_record compute_txid log refresh now =
     (let log1 = fold (\<lambda>input l. hm_insert (previous_output input) now l) (tx_input (unsigned_tx refresh)) log;
          id = compute_txid (unsigned_tx refresh);
          n = unat (word_of_nat (length (tx_output (unsigned_tx refresh))) :: 32 word)
      in fold (\<lambda>vout l. hm_insert \<lparr>op_txid = id, op_vout = word_of_nat vout\<rparr> now l) [0..<n] log1)"

definition refresh_prune :: "refresh_log \<Rightarrow> u64 \<Rightarrow> u64 \<Rightarrow> refresh_log" where
  "refresh_prune log now min_interval_secs = hm_retain (\<lambda>_ at. now - at < min_interval_secs) log"

subsection \<open>Coordinator nonces\<close>

definition MAX_COORD_NONCE_BYTES :: nat where "MAX_COORD_NONCE_BYTES = 64"
definition MAX_COORD_NONCES :: nat where "MAX_COORD_NONCES = 4096"

datatype nonce_decision = Accepted | InvalidLength | OutsideWindow u64 | Replayed | AtCapacity

record nonce_entry =
  ne_expiry :: u64
  ne_carrier_deadline :: "u64 option"

record nonce_log =
  nl_entries :: "(string, nonce_entry) hmap"
  high_water :: u64

definition nonce_log_default :: nonce_log where
  "nonce_log_default = \<lparr>nl_entries = [], high_water = 0\<rparr>"

fun deadline_live :: "u64 option \<Rightarrow> u64 option \<Rightarrow> bool" where
  "deadline_live None _ = False"
| "deadline_live (Some _) None = True"
| "deadline_live (Some deadline) (Some mono_t) = (mono_t < deadline)"

definition is_live :: "nonce_entry \<Rightarrow> u64 \<Rightarrow> u64 option \<Rightarrow> bool" where
  "is_live e eff mono_now = (ne_expiry e > eff \<or> deadline_live (ne_carrier_deadline e) mono_now)"

definition effective_now :: "nonce_log \<Rightarrow> u64 \<Rightarrow> u64" where
  "effective_now log now_input = max (high_water log) now_input"

definition carrier_deadline :: "nonce_log \<Rightarrow> string \<Rightarrow> u64 option" where
  "carrier_deadline log nonce = Option.bind (hm_get (nl_entries log) nonce) ne_carrier_deadline"

definition outer_stale_carrier_deadline :: "nonce_log \<Rightarrow> string \<Rightarrow> u64 \<Rightarrow> u64 option" where
  "outer_stale_carrier_deadline log nonce expiry =
     (case hm_get (nl_entries log) nonce of None \<Rightarrow> None
      | Some e \<Rightarrow> if high_water log < expiry \<and> ne_expiry e = expiry then ne_carrier_deadline e else None)"

text \<open>The retain of the accepted path: the kept entries and the mark raised through the expiries
  actually forgotten.\<close>

definition prune_nonces :: "nonce_log \<Rightarrow> u64 \<Rightarrow> u64 option \<Rightarrow> nonce_log" where
  "prune_nonces log eff mono_now = \<lparr>
     nl_entries = hm_retain (\<lambda>_ e. is_live e eff mono_now) (nl_entries log),
     high_water = fold (\<lambda>e through. if is_live e eff mono_now then through else max through (ne_expiry e))
       (hm_values (nl_entries log)) (high_water log)\<rparr>"

record nonce_request =
  nr_nonce :: string
  nr_expiry :: u64
  nr_now :: u64
  nr_max_age :: u64
  nr_mono_now :: "u64 option"
  nr_record_deadline :: bool

definition check_and_record :: "nonce_log \<Rightarrow> nonce_request \<Rightarrow> nonce_log \<times> nonce_decision" where
  "check_and_record log r =
     (let eff = effective_now log (nr_now r);
          live = (\<lambda>e. is_live e eff (nr_mono_now r))
      in if nr_nonce r = [] \<or> length (nr_nonce r) > MAX_COORD_NONCE_BYTES then (log, InvalidLength)
      else if nr_expiry r \<le> eff then (log, OutsideWindow eff)
      else if nr_expiry r > sat_add64 (nr_now r) (nr_max_age r) then (log, OutsideWindow (nr_now r))
      else if (case hm_get (nl_entries log) (nr_nonce r) of None \<Rightarrow> False | Some e \<Rightarrow> live e)
        then (log, Replayed)
      else if length (filter live (hm_values (nl_entries log))) \<ge> MAX_COORD_NONCES then (log, AtCapacity)
      else let deadline =
          (case (if nr_record_deadline r then nr_mono_now r else None) of
             None \<Rightarrow> Some None
           | Some mono_t \<Rightarrow> map_option Some (checked_add64 mono_t (nr_expiry r - eff)))
        in case deadline of
             None \<Rightarrow> (log, OutsideWindow eff)
           | Some d \<Rightarrow>
               (let log' = prune_nonces log eff (nr_mono_now r)
                in (log'\<lparr>nl_entries := hm_insert (nr_nonce r)
                      \<lparr>ne_expiry = nr_expiry r, ne_carrier_deadline = d\<rparr> (nl_entries log')\<rparr>, Accepted)))"

subsection \<open>Laws of the three plain logs\<close>

lemma replay_get_record:
  "replay_get (replay_record log key expiry v) key' now =
     (if key' = key then if expiry > now then Some v else None else replay_get log key' now)"
  by (simp add: replay_get_def replay_record_def hm_simps)

lemma replay_get_prune:
  "hm_ok log \<Longrightarrow> t \<le> now \<Longrightarrow> replay_get (replay_prune log t) key now = replay_get log key now"
  by (simp add: replay_get_def replay_prune_def hm_simps split: option.splits)

lemma pending_has_any_iff: "pending_has_any log now \<longleftrightarrow> pending_ids log now \<noteq> []"
  by (force simp: pending_has_any_def pending_ids_def hm_values_def list_ex_iff filter_empty_conv)

lemma pending_ids_iff:
  "hm_ok log \<Longrightarrow> cid \<in> set (pending_ids log now) \<longleftrightarrow> (\<exists>e. hm_get log cid = Some e \<and> now \<le> e)"
  by (force simp: pending_ids_def hm_get_iff_mem)

lemma hm_get_insert_fold:
  "hm_get (fold (\<lambda>x l. hm_insert (f x) v l) xs m) k = (if k \<in> f ` set xs then Some v else hm_get m k)"
  by (induction xs arbitrary: m) (auto simp: hm_simps)

lemma hm_ok_insert_fold: "hm_ok m \<Longrightarrow> hm_ok (fold (\<lambda>x l. hm_insert (f x) v l) xs m)"
  by (induction xs arbitrary: m) auto

lemma hm_ok_refresh_record: "hm_ok log \<Longrightarrow> hm_ok (refresh_record f log p now)"
  by (simp add: refresh_record_def Let_def hm_ok_insert_fold)

subsection \<open>The nonce log\<close>

definition nonce_inv :: "nonce_log \<Rightarrow> bool" where
  "nonce_inv log \<longleftrightarrow> hm_ok (nl_entries log) \<and> length (nl_entries log) \<le> MAX_COORD_NONCES \<and>
     (\<forall>(n, e) \<in> set (nl_entries log). 0 < length n \<and> length n \<le> MAX_COORD_NONCE_BYTES)"

definition nonce_accepted :: "nonce_decision \<Rightarrow> bool" where
  "nonce_accepted d = (d = Accepted)"

definition nonce_key :: "nonce_request \<Rightarrow> string \<times> u64" where
  "nonce_key r = (nr_nonce r, nr_expiry r)"

definition nonce_remembers :: "nonce_log \<Rightarrow> string \<times> u64 \<Rightarrow> bool" where
  "nonce_remembers log k \<longleftrightarrow> snd k \<le> high_water log \<or>
     (\<exists>e. hm_get (nl_entries log) (fst k) = Some e \<and> ne_expiry e = snd k)"

lemma fold_pruned_through:
  "fold (\<lambda>e through. if P e then through else max through (ne_expiry e)) es w \<ge> w \<and>
   (\<forall>e \<in> set es. \<not> P e \<longrightarrow>
      fold (\<lambda>e through. if P e then through else max through (ne_expiry e)) es w \<ge> ne_expiry e)"
proof (induction es arbitrary: w)
  case Nil
  then show ?case by simp
next
  case (Cons e es)
  let ?w = "if P e then w else max w (ne_expiry e)"
  from Cons.IH [of ?w] have "fold (\<lambda>e through. if P e then through else max through (ne_expiry e)) es ?w \<ge> ?w"
    and "\<forall>e \<in> set es. \<not> P e \<longrightarrow>
      fold (\<lambda>e through. if P e then through else max through (ne_expiry e)) es ?w \<ge> ne_expiry e"
    by auto
  then show ?case by (auto split: if_splits)
qed

lemma prune_nonces_high_water: "high_water log \<le> high_water (prune_nonces log eff mono_t)"
  by (simp add: prune_nonces_def fold_pruned_through)

lemma prune_nonces_forgets:
  assumes "hm_get (nl_entries log) n = Some e" "\<not> is_live e eff mono_t"
  shows "ne_expiry e \<le> high_water (prune_nonces log eff mono_t)"
  using assms hm_get_values [OF assms(1)]
    fold_pruned_through [of "high_water log" "\<lambda>e. is_live e eff mono_t" "hm_values (nl_entries log)"]
  by (auto simp: prune_nonces_def)

lemma prune_nonces_keeps:
  "hm_ok (nl_entries log) \<Longrightarrow> hm_get (nl_entries log) n = Some e \<Longrightarrow> is_live e eff mono_t \<Longrightarrow>
   hm_get (nl_entries (prune_nonces log eff mono_t)) n = Some e"
  by (simp add: prune_nonces_def hm_simps)

text \<open>The accepted branch, unfolded once.\<close>

lemma check_and_record_Accepted:
  assumes "snd (check_and_record log r) = Accepted"
  obtains d where
    "fst (check_and_record log r) =
       (let log' = prune_nonces log (effective_now log (nr_now r)) (nr_mono_now r)
        in log'\<lparr>nl_entries := hm_insert (nr_nonce r) \<lparr>ne_expiry = nr_expiry r, ne_carrier_deadline = d\<rparr>
              (nl_entries log')\<rparr>)"
    "nr_nonce r \<noteq> []" "length (nr_nonce r) \<le> MAX_COORD_NONCE_BYTES"
    "effective_now log (nr_now r) < nr_expiry r" "nr_expiry r \<le> sat_add64 (nr_now r) (nr_max_age r)"
    "\<And>e. hm_get (nl_entries log) (nr_nonce r) = Some e \<Longrightarrow>
         \<not> is_live e (effective_now log (nr_now r)) (nr_mono_now r)"
    "length (filter (\<lambda>e. is_live e (effective_now log (nr_now r)) (nr_mono_now r))
        (hm_values (nl_entries log))) < MAX_COORD_NONCES"
    "d = None \<or> (\<exists>mono_t. nr_mono_now r = Some mono_t \<and> nr_record_deadline r \<and>
        d = Some (mono_t + (nr_expiry r - effective_now log (nr_now r))))"
  using assms
  by (auto simp: check_and_record_def Let_def checked_add64_def split: if_splits option.splits)

lemma check_and_record_rejected:
  "snd (check_and_record log r) \<noteq> Accepted \<Longrightarrow> fst (check_and_record log r) = log"
  by (auto simp: check_and_record_def Let_def split: if_splits option.splits)

lemma nonce_inv_step: "nonce_inv log \<Longrightarrow> nonce_inv (fst (check_and_record log r))"
proof (cases "snd (check_and_record log r) = Accepted")
  case False
  then show "nonce_inv log \<Longrightarrow> ?thesis" by (simp add: check_and_record_rejected)
next
  case True
  assume inv: "nonce_inv log"
  let ?eff = "effective_now log (nr_now r)" and ?mono = "nr_mono_now r"
  let ?es = "nl_entries (prune_nonces log ?eff ?mono)"
  from True obtain d where st: "fst (check_and_record log r) =
       (prune_nonces log ?eff ?mono)\<lparr>nl_entries := hm_insert (nr_nonce r)
          \<lparr>ne_expiry = nr_expiry r, ne_carrier_deadline = d\<rparr> ?es\<rparr>"
    and n: "nr_nonce r \<noteq> []" "length (nr_nonce r) \<le> MAX_COORD_NONCE_BYTES"
    and cap: "length (filter (\<lambda>e. is_live e ?eff ?mono) (hm_values (nl_entries log))) < MAX_COORD_NONCES"
    by (rule check_and_record_Accepted) (auto simp: Let_def)
  have "length ?es = length (filter (\<lambda>e. is_live e ?eff ?mono) (hm_values (nl_entries log)))"
    by (simp add: prune_nonces_def hm_retain_def hm_values_def filter_map comp_def case_prod_unfold)
  with cap length_hm_insert [of "nr_nonce r" "\<lparr>ne_expiry = nr_expiry r, ne_carrier_deadline = d\<rparr>" ?es]
  have "length (nl_entries (fst (check_and_record log r))) \<le> MAX_COORD_NONCES"
    by (simp add: st)
  moreover have "set ?es \<subseteq> set (nl_entries log)"
    using hm_retain_subset by (simp add: prune_nonces_def)
  then have "set (nl_entries (fst (check_and_record log r)))
      \<subseteq> insert (nr_nonce r, \<lparr>ne_expiry = nr_expiry r, ne_carrier_deadline = d\<rparr>) (set (nl_entries log))"
    using hm_insert_subset [of "nr_nonce r" "\<lparr>ne_expiry = nr_expiry r, ne_carrier_deadline = d\<rparr>" ?es]
    by (auto simp: st)
  moreover have "hm_ok (nl_entries (fst (check_and_record log r)))"
    using inv by (simp add: st prune_nonces_def nonce_inv_def)
  ultimately show ?thesis using inv n by (fastforce simp: nonce_inv_def)
qed

lemma nonce_remembers_step:
  assumes inv: "nonce_inv log" and rem: "nonce_remembers log k"
  shows "nonce_remembers (fst (check_and_record log r)) k"
proof (cases "snd (check_and_record log r) = Accepted")
  case False
  with rem show ?thesis by (simp add: check_and_record_rejected)
next
  case True
  let ?eff = "effective_now log (nr_now r)" and ?mono = "nr_mono_now r"
  let ?log' = "prune_nonces log ?eff ?mono"
  from True obtain d where st: "fst (check_and_record log r) =
       ?log'\<lparr>nl_entries := hm_insert (nr_nonce r)
          \<lparr>ne_expiry = nr_expiry r, ne_carrier_deadline = d\<rparr> (nl_entries ?log')\<rparr>"
    and fresh: "\<And>e. hm_get (nl_entries log) (nr_nonce r) = Some e \<Longrightarrow> \<not> is_live e ?eff ?mono"
    by (rule check_and_record_Accepted) (auto simp: Let_def)
  from rem consider "snd k \<le> high_water log"
    | e where "hm_get (nl_entries log) (fst k) = Some e" "ne_expiry e = snd k"
    by (auto simp: nonce_remembers_def)
  then show ?thesis
  proof cases
    case 1
    then show ?thesis using prune_nonces_high_water [of log ?eff ?mono] by (simp add: nonce_remembers_def st)
  next
    case 2
    show ?thesis
    proof (cases "is_live e ?eff ?mono")
      case True
      with 2 fresh have "fst k \<noteq> nr_nonce r" by auto
      with 2 True prune_nonces_keeps [of log "fst k" e ?eff ?mono] inv show ?thesis
        by (simp add: nonce_remembers_def st hm_simps nonce_inv_def)
    next
      case False
      with 2 prune_nonces_forgets [of log "fst k" e ?eff ?mono] show ?thesis
        by (simp add: nonce_remembers_def st)
    qed
  qed
qed

lemma nonce_accept_remembers:
  "snd (check_and_record log r) = Accepted \<Longrightarrow> nonce_remembers (fst (check_and_record log r)) (nonce_key r)"
  by (erule check_and_record_Accepted) (simp add: Let_def nonce_remembers_def nonce_key_def hm_simps)

lemma nonce_remembered_refused:
  assumes "nonce_remembers log (nonce_key r)"
  shows "snd (check_and_record log r) \<noteq> Accepted"
proof
  assume "snd (check_and_record log r) = Accepted"
  then have "effective_now log (nr_now r) < nr_expiry r"
    and "\<And>e. hm_get (nl_entries log) (nr_nonce r) = Some e \<Longrightarrow>
         \<not> is_live e (effective_now log (nr_now r)) (nr_mono_now r)"
    by (auto elim: check_and_record_Accepted)
  with assms show False
    by (auto simp: nonce_remembers_def nonce_key_def effective_now_def is_live_def)
qed

interpretation nonces: replay_guard check_and_record nonce_inv nonce_accepted nonce_key nonce_remembers
  by unfold_locales
    (simp_all add: nonce_accepted_def nonce_inv_step nonce_accept_remembers nonce_remembers_step
      nonce_remembered_refused)

lemma nonce_inv_default: "nonce_inv nonce_log_default"
  by (simp add: nonce_inv_def nonce_log_default_def)

lemma high_water_step: "high_water log \<le> high_water (fst (check_and_record log r))"
proof (cases "snd (check_and_record log r) = Accepted")
  case False
  then show ?thesis by (simp add: check_and_record_rejected)
next
  case True
  then show ?thesis
    by (rule check_and_record_Accepted) (simp add: Let_def prune_nonces_high_water)
qed

subsection \<open>Properties\<close>

definition demo_nonce :: "string \<Rightarrow> u64 \<Rightarrow> u64 \<Rightarrow> nonce_request" where
  "demo_nonce n e now = \<lparr>nr_nonce = n, nr_expiry = e, nr_now = now, nr_max_age = 1000,
     nr_mono_now = Some 7, nr_record_deadline = False\<rparr>"

definition demo_nonce_run :: "nonce_request list" where
  "demo_nonce_run = [demo_nonce ''old'' 1000 500, demo_nonce ''new'' 2000 1000, demo_nonce ''old'' 1000 600]"

lemmas nonce_defs = check_and_record_def effective_now_def is_live_def prune_nonces_def hm_defs
  MAX_COORD_NONCE_BYTES_def MAX_COORD_NONCES_def sat_add64_def u64_max_def checked_add64_def

text \<open>C33: a coordinator request is consumed at most once. Over any sequence of requests, with any
  wall and monotonic clock readings (steps backwards included) and any ages, a second request
  with the nonce and expiry of an accepted one is never accepted, even after its entry was
  pruned.\<close>

theorem nonce_single_use:
  assumes "i < j" and "j < length rs"
    and "nr_nonce (rs ! i) = nr_nonce (rs ! j)" and "nr_expiry (rs ! i) = nr_expiry (rs ! j)"
    and "snd (run_guard check_and_record nonce_log_default rs) ! i = Accepted"
  shows "snd (run_guard check_and_record nonce_log_default rs) ! j \<noteq> Accepted"
  using nonces.accepted_at_most_once [OF nonce_inv_default assms(1,2)] assms(3-5)
  by (simp add: nonce_key_def nonce_accepted_def)

theorem nonce_single_use_witness:
  "snd (run_guard check_and_record nonce_log_default demo_nonce_run) ! 0 = Accepted \<and>
   snd (run_guard check_and_record nonce_log_default demo_nonce_run) ! 2 \<noteq> Accepted"
proof -
  have a: "snd (run_guard check_and_record nonce_log_default demo_nonce_run) ! 0 = Accepted"
    by (simp add: demo_nonce_run_def demo_nonce_def nonce_log_default_def nonce_defs)
  have "nr_nonce (demo_nonce_run ! 0) = nr_nonce (demo_nonce_run ! 2)"
    "nr_expiry (demo_nonce_run ! 0) = nr_expiry (demo_nonce_run ! 2)" "2 < length demo_nonce_run"
    by (simp_all add: demo_nonce_run_def demo_nonce_def)
  with nonce_single_use [of 0 2 demo_nonce_run] a show ?thesis by simp
qed

text \<open>The nonce log is bounded. After any sequence of requests it holds at most
  \<open>MAX_COORD_NONCES\<close> entries, with distinct non-empty keys of at most 64 bytes.\<close>

theorem nonce_log_bounded:
  "let log = fst (run_guard check_and_record nonce_log_default rs) in
   distinct (map fst (nl_entries log)) \<and> length (nl_entries log) \<le> 4096 \<and>
   list_all (\<lambda>(n, e). n \<noteq> [] \<and> length n \<le> 64) (nl_entries log)"
proof -
  have "nonce_inv (fst (run_guard check_and_record nonce_log_default rs))"
    by (rule run_guard_invar) (auto intro: nonce_inv_step nonce_inv_default)
  then show ?thesis
    by (auto simp: nonce_inv_def Let_def list_all_iff hm_ok_def MAX_COORD_NONCES_def MAX_COORD_NONCE_BYTES_def)
qed

text \<open>One decision at a time. A refusal leaves the log exactly as it was, so a transient clock
  excursion cannot ratchet the mark or prune; the mark never goes back; an acceptance lies inside
  the window between the guarded clock and the raw clock plus the maximum age; and while the
  monotonic deadline of a carrier has not passed, its nonce is not accepted again under any
  expiry.\<close>

theorem nonce_decision_laws:
  "(snd (check_and_record log r) \<noteq> Accepted \<longrightarrow> fst (check_and_record log r) = log) \<and>
   high_water log \<le> high_water (fst (check_and_record log r)) \<and>
   (snd (check_and_record log r) = Accepted \<longrightarrow>
      max (high_water log) (nr_now r) < nr_expiry r \<and> nr_expiry r \<le> nr_now r + nr_max_age r \<and>
      (nr_record_deadline r \<longrightarrow> carrier_deadline (fst (check_and_record log r)) (nr_nonce r) =
         map_option (\<lambda>t. t + (nr_expiry r - effective_now log (nr_now r))) (nr_mono_now r))) \<and>
   (\<forall>d t. carrier_deadline log (nr_nonce r) = Some d \<and> nr_mono_now r = Some t \<and> t < d \<longrightarrow>
      snd (check_and_record log r) \<noteq> Accepted)"
proof (cases "snd (check_and_record log r) = Accepted")
  case False
  then show ?thesis by (simp add: check_and_record_rejected)
next
  case True
  have dl: "carrier_deadline (fst (check_and_record log r)) (nr_nonce r) =
         map_option (\<lambda>t. t + (nr_expiry r - effective_now log (nr_now r))) (nr_mono_now r)"
    if "nr_record_deadline r"
    using True that
    by (auto simp: check_and_record_def Let_def carrier_deadline_def hm_simps checked_add64_def
        split: if_splits option.splits)
  have fresh: "\<And>e. hm_get (nl_entries log) (nr_nonce r) = Some e \<Longrightarrow>
         \<not> is_live e (effective_now log (nr_now r)) (nr_mono_now r)"
    and win: "effective_now log (nr_now r) < nr_expiry r" "nr_expiry r \<le> sat_add64 (nr_now r) (nr_max_age r)"
    using True by (auto elim: check_and_record_Accepted)
  have "\<not> t < d" if "carrier_deadline log (nr_nonce r) = Some d" "nr_mono_now r = Some t" for d t
    using that fresh by (fastforce simp: carrier_deadline_def is_live_def bind_eq_Some_conv)
  moreover have "nr_expiry r \<le> nr_now r + nr_max_age r"
    using win(2) sat_add64_le_add le_trans by blast
  ultimately show ?thesis using dl win high_water_step [of log r] True by (auto simp: effective_now_def)
qed

theorem nonce_decision_laws_witness:
  "snd (check_and_record nonce_log_default (demo_nonce ''x'' 900 500)) = Accepted \<and>
   900 \<le> 500 + (1000::nat)"
proof -
  have "snd (check_and_record nonce_log_default (demo_nonce ''x'' 900 500)) = Accepted"
    by (simp add: demo_nonce_def nonce_log_default_def nonce_defs)
  then show ?thesis
    using nonce_decision_laws [of nonce_log_default "demo_nonce ''x'' 900 500"] by (simp add: demo_nonce_def)
qed

text \<open>The refresh interval bounds a chain of refreshes. Recording a refresh starts the clock of
  every coin it spends and every coin it creates; and pruning at any later time, however often,
  forgets no coin whose interval has not elapsed.\<close>

theorem refresh_interval_kept:
  assumes "hm_ok log" and "length (tx_output (unsigned_tx p)) < 2 ^ 32"
    and "outp \<in> previous_output ` set (tx_input (unsigned_tx p)) \<or>
         (\<exists>v < length (tx_output (unsigned_tx p)).
            outp = \<lparr>op_txid = txid_of (unsigned_tx p), op_vout = word_of_nat v\<rparr>)"
    and "\<forall>t \<in> set ts. t - at < interval"
  shows "last_refresh (fold (\<lambda>t l. refresh_prune l t interval) ts (refresh_record txid_of log p at)) outp
           = Some at"
proof -
  have n: "unat (word_of_nat (length (tx_output (unsigned_tx p))) :: 32 word) = length (tx_output (unsigned_tx p))"
    using assms(2) by (simp add: unat_of_nat)
  have rec: "hm_get (refresh_record txid_of log p at) outp = Some at"
    using assms(3) by (auto simp: refresh_record_def Let_def hm_get_insert_fold n image_iff)
  have "hm_ok l \<Longrightarrow> hm_get l outp = Some at \<Longrightarrow> \<forall>t \<in> set ts. t - at < interval \<Longrightarrow>
      hm_get (fold (\<lambda>t l. refresh_prune l t interval) ts l) outp = Some at" for l
    by (induction ts arbitrary: l) (auto simp: refresh_prune_def hm_simps)
  with rec assms(1,4) show ?thesis by (simp add: last_refresh_def hm_ok_refresh_record)
qed

definition demo_refresh :: psbt where
  "demo_refresh = \<lparr>unsigned_tx = \<lparr>tx_version = 2, tx_lock_time = 0,
      tx_input = [\<lparr>previous_output = \<lparr>op_txid = [7], op_vout = 0\<rparr>, script_sig = [], sequence = 0, txin_witness = []\<rparr>],
      tx_output = [\<lparr>script_pubkey = [1], txo_value = 9\<rparr>]\<rparr>, psbt_inputs = [], psbt_outputs = []\<rparr>"

theorem refresh_interval_kept_witness:
  "last_refresh (fold (\<lambda>t l. refresh_prune l t 50) [120, 149] (refresh_record (\<lambda>_. [8]) [] demo_refresh 100))
     \<lparr>op_txid = [8], op_vout = 0\<rparr> = Some 100"
  using refresh_interval_kept [of "[]" demo_refresh "\<lparr>op_txid = [8], op_vout = 0\<rparr>" "\<lambda>_. [8]" "[120, 149]" 100 50]
  by (simp add: demo_refresh_def)

end
