(* ===== verification/Hot_Budget.thy ===== *)
theory Hot_Budget
  imports Prelude
begin

text \<open>
  The rolling-window half of the Hot budget, \<open>HotBudgetLedger\<close> of
  \<open>crates/vault-node/src/channel.rs\<close>. A reservation ages on the monotonic clock
  (\<open>HotClock\<close>) and on the wall expiry of the commitment it meters; both readings are
  arguments. The theory proves that the ledger never holds more than the window cap, whatever
  the clocks do, and, on any run with a non-decreasing monotonic clock, that what was accepted
  within one window and not released is at most the cap.
\<close>

record hot_budget =
  max_per_tx_sat :: u64
  max_per_window_sat :: u64
  window_secs :: u64

record hot_reservation =
  outflow_sat :: u64
  reserved_at :: u64
  hr_expiry :: u64

record hot_budget_ledger =
  budget :: hot_budget
  reservations :: "(string, hot_reservation) hmap"

datatype hot_reserve_refusal = Window u64 | Capacity

definition MAX_HOT_RESERVATIONS :: nat where "MAX_HOT_RESERVATIONS = 4096"

definition hot_ledger_new :: "hot_budget \<Rightarrow> hot_budget_ledger" where
  "hot_ledger_new b = \<lparr>budget = b, reservations = []\<rparr>"

definition hot_floor :: "hot_budget_ledger \<Rightarrow> u64 \<Rightarrow> u64" where
  "hot_floor l now = now - window_secs (budget l)"

definition hot_is_live :: "hot_reservation \<Rightarrow> u64 \<Rightarrow> u64 \<Rightarrow> bool" where
  "hot_is_live r fl wall_now = (reserved_at r \<ge> fl \<or> wall_now \<le> hr_expiry r)"

definition hot_window_sum :: "hot_budget_ledger \<Rightarrow> u64 \<Rightarrow> u64 \<Rightarrow> u64" where
  "hot_window_sum l now wall_now =
     (let fl = hot_floor l now in
      sat_sum64 (map outflow_sat (filter (\<lambda>r. hot_is_live r fl wall_now) (hm_values (reservations l)))))"

definition hot_prune :: "hot_budget_ledger \<Rightarrow> u64 \<Rightarrow> u64 \<Rightarrow> hot_budget_ledger" where
  "hot_prune l now wall_now =
     (let fl = hot_floor l now in
      l\<lparr>reservations := hm_retain (\<lambda>_ r. hot_is_live r fl wall_now) (reservations l)\<rparr>)"

definition hot_reserve ::
  "hot_budget_ledger \<Rightarrow> string \<Rightarrow> u64 \<Rightarrow> u64 \<Rightarrow> u64 \<Rightarrow> u64
    \<Rightarrow> hot_budget_ledger \<times> (hot_reserve_refusal + bool)" where
  "hot_reserve l cid outflow now wall_now expiry =
     (let l1 = hot_prune l now wall_now in
      if hm_contains (reservations l1) cid then (l1, Ok False)
      else let s = hot_window_sum l1 now wall_now in
        if sat_add64 s outflow > max_per_window_sat (budget l1) then (l1, Err (Window s))
        else if length (reservations l1) \<ge> MAX_HOT_RESERVATIONS then (l1, Err Capacity)
        else (l1\<lparr>reservations := hm_insert cid
               \<lparr>outflow_sat = outflow, reserved_at = now, hr_expiry = expiry\<rparr> (reservations l1)\<rparr>, Ok True))"

definition hot_release :: "hot_budget_ledger \<Rightarrow> string \<Rightarrow> hot_budget_ledger" where
  "hot_release l cid = l\<lparr>reservations := hm_remove cid (reservations l)\<rparr>"

subsection \<open>The ledger invariant\<close>

definition hot_total :: "hot_budget_ledger \<Rightarrow> nat" where
  "hot_total l = sum_list (map (\<lambda>e. outflow_sat (snd e)) (reservations l))"

definition hot_inv :: "hot_budget_ledger \<Rightarrow> bool" where
  "hot_inv l \<longleftrightarrow> hm_ok (reservations l) \<and> length (reservations l) \<le> MAX_HOT_RESERVATIONS \<and>
     (max_per_window_sat (budget l) < u64_max \<longrightarrow> hot_total l \<le> max_per_window_sat (budget l))"

lemma hot_inv_new: "hot_inv (hot_ledger_new b)"
  by (simp add: hot_inv_def hot_ledger_new_def hot_total_def)

lemma budget_hot_prune [simp]: "budget (hot_prune l now w) = budget l"
  by (simp add: hot_prune_def Let_def)

lemma hot_floor_prune [simp]: "hot_floor (hot_prune l now w) t = hot_floor l t"
  by (simp add: hot_floor_def)

lemma hot_inv_prune: "hot_inv l \<Longrightarrow> hot_inv (hot_prune l now w)"
  using length_hm_retain [of "\<lambda>_ r. hot_is_live r (hot_floor l now) w" "reservations l"]
    sum_list_hm_retain_le [of "\<lambda>e. outflow_sat (snd e)" "\<lambda>_ r. hot_is_live r (hot_floor l now) w" "reservations l"]
  by (auto simp: hot_inv_def hot_prune_def Let_def hot_total_def)

lemma hot_inv_release: "hot_inv l \<Longrightarrow> hot_inv (hot_release l cid)"
  using length_hm_remove [of cid "reservations l"]
    sum_list_hm_remove_le [of "\<lambda>e. outflow_sat (snd e)" cid "reservations l"]
  by (auto simp: hot_inv_def hot_release_def hot_total_def)

text \<open>After the prune of the same call, every stored reservation is live, so the window sum is the
  clamped total of the whole ledger.\<close>

lemma hot_window_sum_pruned:
  "hot_window_sum (hot_prune l now w) now w = min (hot_total (hot_prune l now w)) u64_max"
proof -
  let ?fl = "hot_floor l now"
  have "filter (\<lambda>r. hot_is_live r ?fl w) (map snd (filter (\<lambda>(k, r). hot_is_live r ?fl w) m))
        = map snd (filter (\<lambda>(k, r). hot_is_live r ?fl w) m)" for m :: "(string, hot_reservation) hmap"
    by (induction m) auto
  then show ?thesis
    by (simp add: hot_window_sum_def sat_sum64_eq hot_total_def)
      (simp add: hot_prune_def hm_values_def hm_retain_def Let_def comp_def)
qed

lemma hot_reserve_cases:
  obtains (hit) "hot_reserve l cid x now w e = (hot_prune l now w, Ok False)"
      "hm_contains (reservations (hot_prune l now w)) cid"
  | (window) "hot_reserve l cid x now w e = (hot_prune l now w, Err (Window (hot_window_sum (hot_prune l now w) now w)))"
      "sat_add64 (hot_window_sum (hot_prune l now w) now w) x > max_per_window_sat (budget l)"
      "hm_get (reservations (hot_prune l now w)) cid = None"
  | (capacity) "hot_reserve l cid x now w e = (hot_prune l now w, Err Capacity)"
      "length (reservations (hot_prune l now w)) \<ge> MAX_HOT_RESERVATIONS"
      "hm_get (reservations (hot_prune l now w)) cid = None"
  | (taken) "hot_reserve l cid x now w e = ((hot_prune l now w)\<lparr>reservations := hm_insert cid
               \<lparr>outflow_sat = x, reserved_at = now, hr_expiry = e\<rparr> (reservations (hot_prune l now w))\<rparr>, Ok True)"
      "hm_get (reservations (hot_prune l now w)) cid = None"
      "sat_add64 (hot_window_sum (hot_prune l now w) now w) x \<le> max_per_window_sat (budget l)"
      "length (reservations (hot_prune l now w)) < MAX_HOT_RESERVATIONS"
proof (cases "hm_contains (reservations (hot_prune l now w)) cid")
  case True
  then show thesis by (intro hit) (simp_all add: hot_reserve_def)
next
  case no: False
  then have none: "hm_get (reservations (hot_prune l now w)) cid = None" by (simp add: hm_contains_def)
  show thesis
  proof (cases "sat_add64 (hot_window_sum (hot_prune l now w) now w) x > max_per_window_sat (budget l)")
    case True
    with no none show thesis by (intro window) (simp_all add: hot_reserve_def Let_def)
  next
    case ok: False
    show thesis
    proof (cases "length (reservations (hot_prune l now w)) \<ge> MAX_HOT_RESERVATIONS")
      case True
      with no ok none show thesis by (intro capacity) (simp_all add: hot_reserve_def Let_def)
    next
      case False
      with no ok none show thesis by (intro taken) (simp_all add: hot_reserve_def Let_def)
    qed
  qed
qed

lemma hot_total_insert:
  "hm_get (reservations l) cid = None \<Longrightarrow>
   hot_total (l\<lparr>reservations := hm_insert cid r (reservations l)\<rparr>) = hot_total l + outflow_sat r"
  by (simp add: hot_total_def hm_insert_fresh)

lemma hot_inv_reserve: "hot_inv l \<Longrightarrow> hot_inv (fst (hot_reserve l cid x now w e))"
proof (cases rule: hot_reserve_cases [of l cid x now w e])
  case taken
  assume inv: "hot_inv l"
  let ?l = "hot_prune l now w"
  have cap: "hot_total ?l + x \<le> max_per_window_sat (budget l)" if "max_per_window_sat (budget l) < u64_max"
    using taken(3) that unfolding hot_window_sum_pruned by (auto simp: sat_add64_def min_def split: if_splits)
  from hot_inv_prune [OF inv, of now w] taken(2,4) cap show ?thesis
    unfolding taken(1) by (simp add: hot_inv_def hot_total_insert length_hm_insert_fresh)
qed (simp_all add: hot_inv_prune)

lemma budget_hot_reserve [simp]: "budget (fst (hot_reserve l cid x now w e)) = budget l"
  by (cases rule: hot_reserve_cases [of l cid x now w e]) simp_all

lemma hot_reserve_keeps_live:
  assumes "hm_ok (reservations l)" "hm_get (reservations l) k = Some r" "hot_is_live r (hot_floor l now) w"
  shows "hm_get (reservations (fst (hot_reserve l cid x now w e))) k = Some r"
proof -
  have kept: "hm_get (reservations (hot_prune l now w)) k = Some r"
    using assms by (simp add: hot_prune_def Let_def hm_simps)
  then show ?thesis
    by (cases rule: hot_reserve_cases [of l cid x now w e]) (auto simp: hm_simps)
qed

subsection \<open>Runs and the velocity bound\<close>

datatype hot_op = Reserve string u64 u64 u64 u64 | Release string

text \<open>An accepted claim as the outside sees it: the commitment, its outflow, the monotonic second.\<close>

type_synonym claim = "string \<times> u64 \<times> u64"

fun hot_step :: "hot_op \<Rightarrow> hot_budget_ledger \<times> claim list \<Rightarrow> hot_budget_ledger \<times> claim list" where
  "hot_step (Reserve cid x now w e) (l, g) =
     (let (l', res) = hot_reserve l cid x now w e
      in (l', if res = Ok True then (cid, x, now) # g else g))"
| "hot_step (Release cid) (l, g) = (hot_release l cid, filter (\<lambda>c. fst c \<noteq> cid) g)"

fun op_time :: "hot_op \<Rightarrow> u64 \<Rightarrow> u64" where
  "op_time (Reserve cid x now w e) t = now"
| "op_time (Release cid) t = t"

fun clock_ok :: "u64 \<Rightarrow> hot_op list \<Rightarrow> bool" where
  "clock_ok t [] = True"
| "clock_ok t (op # ops) = (t \<le> op_time op t \<and> clock_ok (op_time op t) ops)"

definition claims_since :: "u64 \<Rightarrow> claim list \<Rightarrow> claim list" where
  "claims_since fl g = filter (\<lambda>(cid, x, at). fl \<le> at) g"

definition ghost_inv :: "u64 \<Rightarrow> hot_budget_ledger \<times> claim list \<Rightarrow> bool" where
  "ghost_inv t s \<longleftrightarrow> hot_inv (fst s) \<and>
     distinct (map fst (claims_since (hot_floor (fst s) t) (snd s))) \<and>
     (\<forall>(cid, x, at) \<in> set (claims_since (hot_floor (fst s) t) (snd s)).
        \<exists>r. hm_get (reservations (fst s)) cid = Some r \<and> outflow_sat r = x \<and> reserved_at r = at)"

lemma claims_since_mono: "a \<le> b \<Longrightarrow> claims_since b g = filter (\<lambda>(cid, x, at). b \<le> at) (claims_since a g)"
  by (induction g) (auto simp: claims_since_def)

lemma ghost_inv_later:
  assumes "ghost_inv t s" "t \<le> t'" shows "ghost_inv t' s"
proof -
  have "hot_floor (fst s) t \<le> hot_floor (fst s) t'" using assms(2) by (simp add: hot_floor_def diff_le_mono)
  from claims_since_mono [OF this, of "snd s"] assms(1) show ?thesis
    by (auto simp: ghost_inv_def distinct_map_filter)
qed

lemma ghost_inv_release:
  assumes "ghost_inv t (l, g)" shows "ghost_inv t (hot_step (Release cid) (l, g))"
proof -
  have "claims_since fl (filter (\<lambda>c. fst c \<noteq> cid) g) = filter (\<lambda>c. fst c \<noteq> cid) (claims_since fl g)" for fl
    by (simp add: claims_since_def conj_commute)
  moreover have "hot_floor (hot_release l cid) t = hot_floor l t" by (simp add: hot_floor_def hot_release_def)
  moreover have "hm_get (reservations (hot_release l cid)) c = hm_get (reservations l) c" if "c \<noteq> cid" for c
    using that by (simp add: hot_release_def hm_simps)
  ultimately show ?thesis using assms
    by (auto simp: ghost_inv_def hot_inv_release distinct_map_filter)
qed

lemma ghost_inv_reserve:
  assumes "ghost_inv now (l, g)" shows "ghost_inv now (hot_step (Reserve cid x now w e) (l, g))"
proof -
  let ?l' = "fst (hot_reserve l cid x now w e)" and ?fl = "hot_floor l now"
  have inv: "hot_inv l" and ok: "hm_ok (reservations l)" using assms by (auto simp: ghost_inv_def hot_inv_def)
  have fl: "hot_floor ?l' now = ?fl" by (simp add: hot_floor_def)
  have kept: "\<exists>r. hm_get (reservations ?l') c = Some r \<and> outflow_sat r = y \<and> reserved_at r = a"
    if "(c, y, a) \<in> set (claims_since ?fl g)" for c y a
  proof -
    from that assms obtain r where r: "hm_get (reservations l) c = Some r" "outflow_sat r = y" "reserved_at r = a"
      by (auto simp: ghost_inv_def)
    moreover from that r have "hot_is_live r ?fl w" by (auto simp: claims_since_def hot_is_live_def)
    ultimately show ?thesis using hot_reserve_keeps_live [OF ok] by blast
  qed
  show ?thesis
  proof (cases "snd (hot_reserve l cid x now w e) = Ok True")
    case False
    then have "hot_step (Reserve cid x now w e) (l, g) = (?l', g)" by (auto split: prod.splits)
    with assms kept hot_inv_reserve [OF inv] fl show ?thesis by (auto simp: ghost_inv_def)
  next
    case True
    then have fresh: "hm_get (reservations (hot_prune l now w)) cid = None"
      and new: "hm_get (reservations ?l') cid = Some \<lparr>outflow_sat = x, reserved_at = now, hr_expiry = e\<rparr>"
      by (cases rule: hot_reserve_cases [of l cid x now w e]; simp add: hm_simps)+
    have "cid \<notin> fst ` set (claims_since ?fl g)"
    proof
      assume "cid \<in> fst ` set (claims_since ?fl g)"
      then obtain y a where c: "(cid, y, a) \<in> set (claims_since ?fl g)" by auto
      with assms obtain r where "hm_get (reservations l) cid = Some r" "reserved_at r = a"
        by (auto simp: ghost_inv_def)
      with c ok have "hm_get (reservations (hot_prune l now w)) cid = Some r"
        by (auto simp: hot_prune_def Let_def hm_simps claims_since_def hot_is_live_def)
      with fresh show False by simp
    qed
    moreover have "claims_since ?fl ((cid, x, now) # g) = (cid, x, now) # claims_since ?fl g"
      by (simp add: claims_since_def hot_floor_def)
    moreover have "hot_step (Reserve cid x now w e) (l, g) = (?l', (cid, x, now) # g)"
      using True by (auto split: prod.splits)
    ultimately show ?thesis using assms kept new hot_inv_reserve [OF inv] fl
      by (auto simp: ghost_inv_def)
  qed
qed

lemma ghost_inv_run: "ghost_inv t s \<Longrightarrow> clock_ok t ops \<Longrightarrow> ghost_inv (fold op_time ops t) (fold hot_step ops s)"
proof (induction ops arbitrary: t s)
  case Nil
  then show ?case by simp
next
  case (Cons op ops)
  obtain l g where s: "s = (l, g)" by (cases s)
  from Cons.prems have "ghost_inv (op_time op t) (l, g)" by (auto simp: s intro: ghost_inv_later)
  then have "ghost_inv (op_time op t) (hot_step op s)"
    unfolding s by (cases op) (auto simp del: hot_step.simps intro: ghost_inv_release ghost_inv_reserve)
  with Cons show ?case by simp
qed

lemma ghost_inv_bound:
  assumes "ghost_inv t s"
  shows "sum_list (map (\<lambda>(cid, x, at). x) (claims_since (hot_floor (fst s) t) (snd s))) \<le> hot_total (fst s)"
proof -
  let ?cs = "claims_since (hot_floor (fst s) t) (snd s)" and ?rs = "reservations (fst s)"
  let ?f = "\<lambda>cid. case hm_get ?rs cid of None \<Rightarrow> 0 | Some r \<Rightarrow> outflow_sat r"
  have d: "distinct (map fst ?cs)" and ok: "distinct (map fst ?rs)"
    using assms by (auto simp: ghost_inv_def hot_inv_def hm_ok_def)
  have "sum_list (map (\<lambda>(cid, x, at). x) ?cs) = sum_list (map ?f (map fst ?cs))"
    using assms by (fastforce simp: ghost_inv_def intro!: arg_cong [where f = sum_list])
  also have "\<dots> = sum ?f (set (map fst ?cs))" using d by (rule sum_list_distinct_conv_sum_set)
  also have "\<dots> \<le> sum ?f (set (map fst ?rs))"
  proof (rule sum_mono2)
    have "cid \<in> set (hm_keys ?rs)" if "(cid, x, at) \<in> set ?cs" for cid x at
      using that assms hm_get_keys [of ?rs cid] by (fastforce simp: ghost_inv_def)
    then show "set (map fst ?cs) \<subseteq> set (map fst ?rs)" by (auto simp: hm_keys_def)
  qed simp_all
  also have "\<dots> = sum_list (map ?f (map fst ?rs))" using ok by (rule sum_list_distinct_conv_sum_set [symmetric])
  also have "\<dots> = hot_total (fst s)"
    using ok by (auto simp: hot_total_def hm_get_def intro!: arg_cong [where f = sum_list])
  finally show ?thesis .
qed

subsection \<open>Properties\<close>

definition demo_budget :: hot_budget where
  "demo_budget = \<lparr>max_per_tx_sat = 600, max_per_window_sat = 1000, window_secs = 100\<rparr>"

text \<open>Two reserves that fill the window, a third that is refused, one accepted after the release.\<close>

definition demo_hot_ops :: "hot_op list" where
  "demo_hot_ops = [Reserve ''a'' 600 10 5000 5050, Reserve ''b'' 400 20 5010 5060,
     Reserve ''c'' 1 30 5020 5070, Release ''b'', Reserve ''d'' 400 40 1 5070]"

lemmas hot_defs = hot_ledger_new_def hot_reserve_def hot_prune_def hot_floor_def hot_is_live_def
  hot_window_sum_def hot_release_def sat_sum64_def sat_add64_def u64_max_def hm_defs
  MAX_HOT_RESERVATIONS_def claims_since_def

text \<open>C11: the velocity bound. Over any sequence of reserves and releases in which the monotonic
  clock does not go back (the wall clock may do anything), the outflow of the spends accepted
  within the last window and not released is at most the window cap, for every cap below the
  saturation point.\<close>

theorem hot_velocity_bound:
  assumes "clock_ok 0 ops" and "max_per_window_sat b < u64_max"
  shows "let (l, accepted) = fold hot_step ops (hot_ledger_new b, []);
             now = fold op_time ops 0
         in sum_list (map (\<lambda>(cid, x, at). x) (claims_since (now - window_secs b) accepted))
              \<le> max_per_window_sat b"
proof -
  let ?s = "fold hot_step ops (hot_ledger_new b, [])" and ?now = "fold op_time ops 0"
  have "ghost_inv 0 (hot_ledger_new b, [])"
    by (simp add: ghost_inv_def hot_inv_new claims_since_def)
  then have inv: "ghost_inv ?now ?s" using assms(1) by (rule ghost_inv_run)
  have bud: "budget (fst (fold hot_step ops s)) = budget (fst s)" for s
  proof (induction ops arbitrary: s)
    case (Cons op ops)
    have "budget (fst (hot_step op s)) = budget (fst s)"
      by (cases s; cases op) (auto simp: hot_release_def split: prod.splits, metis budget_hot_reserve fst_conv)
    with Cons show ?case by simp
  qed simp
  have "hot_total (fst ?s) \<le> max_per_window_sat b"
    using inv assms(2) bud by (auto simp: ghost_inv_def hot_inv_def hot_ledger_new_def)
  with ghost_inv_bound [OF inv] show ?thesis
    by (auto simp: hot_floor_def bud hot_ledger_new_def split: prod.splits)
qed

theorem hot_velocity_bound_witness:
  "clock_ok 0 demo_hot_ops \<and>
   snd (fold hot_step demo_hot_ops (hot_ledger_new demo_budget, []))
     = [(''d'', 400, 40), (''a'', 600, 10)] \<and>
   sum_list (map (\<lambda>(cid, x, at). x) [(''d'', 400, 40), (''a'', 600, 10 :: nat)]) \<le> (1000 :: nat)"
proof -
  have c: "clock_ok 0 demo_hot_ops" by (simp add: demo_hot_ops_def)
  have s: "snd (fold hot_step demo_hot_ops (hot_ledger_new demo_budget, []))
     = [(''d'', 400, 40), (''a'', 600, 10)]" and t: "fold op_time demo_hot_ops 0 = 40"
    by (simp_all add: demo_hot_ops_def demo_budget_def hot_defs)
  have "max_per_window_sat demo_budget < u64_max" by (simp add: demo_budget_def u64_max_def)
  from hot_velocity_bound [OF c this] s t c show ?thesis
    by (simp add: claims_since_def demo_budget_def split: prod.splits)
qed

text \<open>The ledger itself never exceeds the cap or its entry limit, under arbitrary clocks: after
  any sequence of operations, with no assumption on either clock, the stored reservations sum to
  at most the window cap (for a cap below saturation) and number at most 4096.\<close>

theorem hot_ledger_bounded:
  "let l = fst (fold hot_step ops (hot_ledger_new b, [])) in
   length (reservations l) \<le> 4096 \<and> distinct (map fst (reservations l)) \<and>
   (max_per_window_sat b < u64_max \<longrightarrow>
      sum_list (map (\<lambda>e. outflow_sat (snd e)) (reservations l)) \<le> max_per_window_sat b)"
proof -
  have step: "hot_inv (fst s) \<and> budget (fst s) = b \<Longrightarrow>
      hot_inv (fst (hot_step op s)) \<and> budget (fst (hot_step op s)) = b" for op s
    using hot_inv_reserve [of "fst s"] hot_inv_release [of "fst s"]
    by (cases s; cases op) (auto simp: hot_release_def split: prod.splits, metis fst_conv, metis budget_hot_reserve fst_conv)
  have "hot_inv (fst (fold hot_step ops s)) \<and> budget (fst (fold hot_step ops s)) = b"
    if "hot_inv (fst s) \<and> budget (fst s) = b" for s
    using that by (induction ops arbitrary: s) (simp_all add: step)
  from this [of "(hot_ledger_new b, [])"] show ?thesis
    by (auto simp: hot_inv_new) (auto simp: hot_ledger_new_def hot_inv_def hot_total_def hm_ok_def Let_def MAX_HOT_RESERVATIONS_def)
qed

theorem hot_ledger_bounded_witness:
  "length (reservations (fst (fold hot_step demo_hot_ops (hot_ledger_new demo_budget, [])))) \<le> 4096 \<and>
   sum_list (map (\<lambda>e. outflow_sat (snd e))
     (reservations (fst (fold hot_step demo_hot_ops (hot_ledger_new demo_budget, []))))) \<le> 1000"
  using hot_ledger_bounded [of demo_hot_ops demo_budget] by (simp add: Let_def demo_budget_def u64_max_def)

text \<open>One reserve. No live reservation is ever dropped or rewritten, a wall-clock step cannot
  bring a deletion forward (whatever the wall clock reads, an entry inside the monotonic window
  stays, and so does one whose commitment has not expired); a commitment that holds a live claim
  is answered without a second charge; and a refusal adds nothing.\<close>

theorem hot_reserve_laws:
  assumes "hm_ok (reservations l)"
  shows "(\<forall>k r. hm_get (reservations l) k = Some r \<and>
            (now \<le> reserved_at r + window_secs (budget l) \<or> wall \<le> hr_expiry r) \<longrightarrow>
            hm_get (reservations (fst (hot_reserve l cid x now wall e))) k = Some r) \<and>
         (\<forall>r. hm_get (reservations l) cid = Some r \<and> now \<le> reserved_at r + window_secs (budget l) \<longrightarrow>
            snd (hot_reserve l cid x now wall e) = Ok False) \<and>
         (snd (hot_reserve l cid x now wall e) \<noteq> Ok True \<longrightarrow>
            set (reservations (fst (hot_reserve l cid x now wall e))) \<subseteq> set (reservations l))"
proof -
  have live: "hot_is_live r (hot_floor l now) wall"
    if "now \<le> reserved_at r + window_secs (budget l) \<or> wall \<le> hr_expiry r" for r
    using that by (auto simp: hot_is_live_def hot_floor_def)
  have hit: "snd (hot_reserve l cid x now wall e) = Ok False"
    if "hm_get (reservations l) cid = Some r" "now \<le> reserved_at r + window_secs (budget l)" for r
  proof -
    have "hm_contains (reservations (hot_prune l now wall)) cid"
      using that assms live [of r] by (simp add: hot_prune_def Let_def hm_contains_def hm_simps)
    then show ?thesis by (simp add: hot_reserve_def)
  qed
  have sub: "set (reservations (hot_prune l now wall)) \<subseteq> set (reservations l)"
    using hm_retain_subset by (simp add: hot_prune_def Let_def)
  have "set (reservations (fst (hot_reserve l cid x now wall e))) \<subseteq> set (reservations l)"
    if "snd (hot_reserve l cid x now wall e) \<noteq> Ok True"
    using that sub by (cases rule: hot_reserve_cases [of l cid x now wall e]) simp_all
  with hit live hot_reserve_keeps_live [OF assms] show ?thesis by blast
qed

theorem hot_reserve_laws_witness:
  "snd (hot_reserve (fst (hot_reserve (hot_ledger_new demo_budget) ''a'' 600 10 5000 5050)) ''a'' 600 110 9000 5050)
     = Ok False"
proof -
  let ?l = "fst (hot_reserve (hot_ledger_new demo_budget) ''a'' 600 10 5000 5050)"
  have l: "?l = \<lparr>budget = demo_budget,
      reservations = [(''a'', \<lparr>outflow_sat = 600, reserved_at = 10, hr_expiry = 5050\<rparr>)]\<rparr>"
    by (simp add: hot_defs demo_budget_def)
  have "hm_ok (reservations ?l)" by (simp add: l hm_defs)
  from hot_reserve_laws [OF this, of 110 9000 "''a''" 600 5050] show ?thesis
    unfolding l by (simp add: hm_get_def demo_budget_def)
qed

end
