(* ===== verification/Ingress_Guard.thy ===== *)
theory Ingress_Guard
  imports Bitcoin_Types
begin

text \<open>
  The post-authentication guards of the inter-node channel, \<open>IngressGuards\<close> of
  \<open>crates/vault-node/src/channel.rs\<close>: the monotonic high-water clock, the freshness
  window, the nonce cache pruned by envelope timestamp and the per-peer sliding-window quota. A
  node id is a 16-bit word; the quota deque is a list with its front first. The guard is the
  second instance of the \<open>replay_guard\<close> interface.
\<close>

type_synonym node_id = "16 word"

definition FRESHNESS_PAST_SECS :: u64 where "FRESHNESS_PAST_SECS = 300"
definition FRESHNESS_FUTURE_SECS :: u64 where "FRESHNESS_FUTURE_SECS = 60"
definition QUOTA_WINDOW_SECS :: u64 where "QUOTA_WINDOW_SECS = 60"

record peer_quota =
  charged_at :: "u64 list"

record ingress_guards =
  ig_high_water :: u64
  seen_nonces :: "(node_id \<times> bytes, u64) hmap"
  quotas :: "(node_id, peer_quota) hmap"

definition ingress_guards_default :: ingress_guards where
  "ingress_guards_default = \<lparr>ig_high_water = 0, seen_nonces = [], quotas = []\<rparr>"

datatype ingress_guard_result =
  IngressAccepted u64 | IngressStale u64 | IngressReplayed | RateLimited u64

text \<open>The loop that pops the charges at or before the horizon off the front of the deque.\<close>

fun pop_charges :: "u64 \<Rightarrow> u64 list \<Rightarrow> u64 list" where
  "pop_charges horizon [] = []"
| "pop_charges horizon (c # cs) = (if c \<le> horizon then pop_charges horizon cs else c # cs)"

definition charge_quota ::
  "ingress_guards \<Rightarrow> node_id \<Rightarrow> u64 \<Rightarrow> u64 \<Rightarrow> ingress_guards \<times> ingress_guard_result option" where
  "charge_quota g sender now quota_per_min =
     (let q = (case hm_get (quotas g) sender of None \<Rightarrow> [] | Some pq \<Rightarrow> charged_at pq);
          q1 = pop_charges (now - QUOTA_WINDOW_SECS) q
      in if length q1 < quota_per_min
         then (g\<lparr>quotas := hm_insert sender \<lparr>charged_at = q1 @ [now]\<rparr> (quotas g)\<rparr>, None)
         else (g\<lparr>quotas := hm_insert sender \<lparr>charged_at = q1\<rparr> (quotas g)\<rparr>,
               Some (RateLimited (case q1 of [] \<Rightarrow> QUOTA_WINDOW_SECS
                 | oldest # _ \<Rightarrow> max (sat_add64 oldest QUOTA_WINDOW_SECS - now) 1))))"

record ingress_request =
  ir_sender :: node_id
  ir_nonce :: bytes
  ir_timestamp :: u64
  ir_now :: u64

text \<open>Charge the quota, and answer \<open>res\<close> with the guards updated by \<open>f\<close> unless the peer is over it.\<close>

definition charged ::
  "ingress_guards \<Rightarrow> node_id \<Rightarrow> u64 \<Rightarrow> u64 \<Rightarrow> (ingress_guards \<Rightarrow> ingress_guards \<times> ingress_guard_result)
    \<Rightarrow> ingress_guards \<times> ingress_guard_result" where
  "charged g sender now quota f =
     (case charge_quota g sender now quota of
        (g', Some limited) \<Rightarrow> (g', limited)
      | (g', None) \<Rightarrow> f g')"

definition check_and_consume ::
  "u64 \<Rightarrow> ingress_guards \<Rightarrow> ingress_request \<Rightarrow> ingress_guards \<times> ingress_guard_result" where
  "check_and_consume quota g r =
     (let now = max (ig_high_water g) (ir_now r);
          g1 = g\<lparr>ig_high_water := now\<rparr>
      in if ir_timestamp r < now - FRESHNESS_PAST_SECS \<or> ir_timestamp r > sat_add64 now FRESHNESS_FUTURE_SECS
         then charged g1 (ir_sender r) now quota (\<lambda>g'. (g', IngressStale now))
         else let g2 = g1\<lparr>seen_nonces := hm_retain (\<lambda>_ kept. kept \<ge> now - FRESHNESS_PAST_SECS) (seen_nonces g1)\<rparr>;
                  key = (ir_sender r, ir_nonce r)
           in if hm_contains (seen_nonces g2) key
              then charged g2 (ir_sender r) now quota (\<lambda>g'. (g', IngressReplayed))
              else charged g2 (ir_sender r) now quota
                (\<lambda>g'. (g'\<lparr>seen_nonces := hm_insert key (ir_timestamp r) (seen_nonces g')\<rparr>, IngressAccepted now)))"

subsection \<open>Laws\<close>

definition ingress_accepted :: "ingress_guard_result \<Rightarrow> bool" where
  "ingress_accepted d = (case d of IngressAccepted _ \<Rightarrow> True | _ \<Rightarrow> False)"

definition rate_limited :: "ingress_guard_result \<Rightarrow> bool" where
  "rate_limited d = (case d of RateLimited _ \<Rightarrow> True | _ \<Rightarrow> False)"

definition ingress_key :: "ingress_request \<Rightarrow> node_id \<times> bytes \<times> u64" where
  "ingress_key r = (ir_sender r, ir_nonce r, ir_timestamp r)"

definition ingress_remembers :: "ingress_guards \<Rightarrow> node_id \<times> bytes \<times> u64 \<Rightarrow> bool" where
  "ingress_remembers g k = (case k of (s, n, ts) \<Rightarrow>
     ts < ig_high_water g - FRESHNESS_PAST_SECS \<or> hm_get (seen_nonces g) (s, n) = Some ts)"

definition quota_of :: "ingress_guards \<Rightarrow> node_id \<Rightarrow> u64 list" where
  "quota_of g s = (case hm_get (quotas g) s of None \<Rightarrow> [] | Some pq \<Rightarrow> charged_at pq)"

lemma pop_charges_sorted: "sorted cs \<Longrightarrow> pop_charges h cs = filter (\<lambda>c. h < c) cs"
proof (induction cs)
  case Nil
  then show ?case by simp
next
  case (Cons c cs)
  then show ?case by (fastforce simp: filter_id_conv intro!: sym [of "filter _ cs"])
qed

lemma pop_charges_length: "length (pop_charges h cs) \<le> length cs"
  by (induction cs) auto

lemma charge_quota_frame:
  "ig_high_water (fst (charge_quota g s now q)) = ig_high_water g"
  "seen_nonces (fst (charge_quota g s now q)) = seen_nonces g"
  by (simp_all add: charge_quota_def Let_def)

lemma charge_quota_Some: "snd (charge_quota g s now q) = Some d \<Longrightarrow> rate_limited d"
  by (auto simp: charge_quota_def Let_def rate_limited_def split: if_splits)

lemma quota_of_charge:
  "quota_of (fst (charge_quota g s now q)) s' =
     (if s' = s then pop_charges (now - QUOTA_WINDOW_SECS) (quota_of g s) @
        (if length (pop_charges (now - QUOTA_WINDOW_SECS) (quota_of g s)) < q then [now] else [])
      else quota_of g s')"
  by (simp add: charge_quota_def Let_def quota_of_def hm_simps)

lemma charge_quota_None_iff:
  "snd (charge_quota g s now q) = None \<longleftrightarrow> length (pop_charges (now - QUOTA_WINDOW_SECS) (quota_of g s)) < q"
  by (simp add: charge_quota_def Let_def quota_of_def)

lemma charged_cases:
  obtains (limited) "rate_limited (snd (charged g s now q f))" "fst (charged g s now q f) = fst (charge_quota g s now q)"
      "snd (charge_quota g s now q) \<noteq> None"
  | (free) "charged g s now q f = f (fst (charge_quota g s now q))" "snd (charge_quota g s now q) = None"
proof (cases "charge_quota g s now q")
  case (Pair g' r)
  show thesis
  proof (cases r)
    case None
    with Pair show thesis by (intro free) (simp_all add: charged_def)
  next
    case (Some d)
    with Pair charge_quota_Some [of g s now q d] show thesis by (intro limited) (simp_all add: charged_def)
  qed
qed

lemma guard_result_simps [simp]:
  "ingress_accepted (IngressAccepted t)" "\<not> ingress_accepted (IngressStale t)"
  "\<not> ingress_accepted IngressReplayed" "\<not> ingress_accepted (RateLimited t)"
  "\<not> rate_limited (IngressAccepted t)" "\<not> rate_limited (IngressStale t)"
  "\<not> rate_limited IngressReplayed" "rate_limited (RateLimited t)"
  by (simp_all add: ingress_accepted_def rate_limited_def)

lemma rate_limited_not_accepted: "rate_limited d \<Longrightarrow> \<not> ingress_accepted d"
  by (cases d) auto

text \<open>The outcomes of one call in terms of the clock it established.\<close>

abbreviation guard_now :: "ingress_guards \<Rightarrow> ingress_request \<Rightarrow> u64" where
  "guard_now g r \<equiv> max (ig_high_water g) (ir_now r)"

lemma high_water_consume [simp]:
  "ig_high_water (fst (check_and_consume q g r)) = guard_now g r"
proof -
  have "ig_high_water (fst (charged g' s now q f)) = ig_high_water g'"
    if "\<And>g''. ig_high_water (fst (f g'')) = ig_high_water g''" for g' s now f
    by (cases rule: charged_cases [of g' s now q f]) (simp_all add: charge_quota_frame that)
  then show ?thesis by (simp add: check_and_consume_def Let_def)
qed

lemma seen_nonces_consume:
  assumes "hm_ok (seen_nonces g)"
  shows "hm_ok (seen_nonces (fst (check_and_consume q g r))) \<and>
    (\<forall>k ts. hm_get (seen_nonces g) k = Some ts \<and> guard_now g r - FRESHNESS_PAST_SECS \<le> ts \<longrightarrow>
        hm_get (seen_nonces (fst (check_and_consume q g r))) k = Some ts) \<and>
    (ingress_accepted (snd (check_and_consume q g r)) \<longrightarrow>
        guard_now g r - FRESHNESS_PAST_SECS \<le> ir_timestamp r \<and>
        ir_timestamp r \<le> guard_now g r + FRESHNESS_FUTURE_SECS \<and>
        (\<forall>ts. hm_get (seen_nonces g) (ir_sender r, ir_nonce r) = Some ts \<longrightarrow>
            ts < guard_now g r - FRESHNESS_PAST_SECS) \<and>
        hm_get (seen_nonces (fst (check_and_consume q g r))) (ir_sender r, ir_nonce r) = Some (ir_timestamp r))"
proof -
  let ?now = "guard_now g r" and ?g1 = "g\<lparr>ig_high_water := guard_now g r\<rparr>" and ?key = "(ir_sender r, ir_nonce r)"
  let ?g2 = "?g1\<lparr>seen_nonces := hm_retain (\<lambda>_ kept. kept \<ge> ?now - FRESHNESS_PAST_SECS) (seen_nonces ?g1)\<rparr>"
  let ?stale = "ir_timestamp r < ?now - FRESHNESS_PAST_SECS \<or> ir_timestamp r > sat_add64 ?now FRESHNESS_FUTURE_SECS"
  have ok2: "hm_ok (seen_nonces ?g2)" using assms by simp
  have kept: "hm_get (seen_nonces ?g2) k = Some ts"
    if "hm_get (seen_nonces g) k = Some ts" "?now - FRESHNESS_PAST_SECS \<le> ts" for k ts
    using that assms by (simp add: hm_simps)
  consider (stale) ?stale | (replay) "\<not> ?stale" "hm_contains (seen_nonces ?g2) ?key"
    | (fresh) "\<not> ?stale" "\<not> hm_contains (seen_nonces ?g2) ?key" by blast
  then show ?thesis
  proof cases
    case stale
    then have c: "check_and_consume q g r = charged ?g1 (ir_sender r) ?now q (\<lambda>g'. (g', IngressStale ?now))"
      by (simp add: check_and_consume_def Let_def)
    show ?thesis unfolding c using assms
      by (cases rule: charged_cases [of ?g1 "ir_sender r" ?now q "\<lambda>g'. (g', IngressStale ?now)"])
        (auto simp: charge_quota_frame dest: rate_limited_not_accepted)
  next
    case replay
    then have c: "check_and_consume q g r = charged ?g2 (ir_sender r) ?now q (\<lambda>g'. (g', IngressReplayed))"
      by (simp add: check_and_consume_def Let_def)
    show ?thesis unfolding c using ok2 kept
      by (cases rule: charged_cases [of ?g2 "ir_sender r" ?now q "\<lambda>g'. (g', IngressReplayed)"])
        (auto simp: charge_quota_frame dest: rate_limited_not_accepted)
  next
    case fresh
    let ?f = "\<lambda>g'. (g'\<lparr>seen_nonces := hm_insert ?key (ir_timestamp r) (seen_nonces g')\<rparr>, IngressAccepted ?now)"
    from fresh have c: "check_and_consume q g r = charged ?g2 (ir_sender r) ?now q ?f"
      by (simp add: check_and_consume_def Let_def)
    have none: "hm_get (seen_nonces ?g2) ?key = None" using fresh by (simp add: hm_contains_def)
    then have old: "ts < ?now - FRESHNESS_PAST_SECS" if "hm_get (seen_nonces g) ?key = Some ts" for ts
      using kept [OF that] by (cases "?now - FRESHNESS_PAST_SECS \<le> ts") auto
    have win: "?now - FRESHNESS_PAST_SECS \<le> ir_timestamp r" "ir_timestamp r \<le> ?now + FRESHNESS_FUTURE_SECS"
      using fresh sat_add64_le_add [of ?now FRESHNESS_FUTURE_SECS] by linarith+
    show ?thesis unfolding c using ok2 kept none old win
      by (cases rule: charged_cases [of ?g2 "ir_sender r" ?now q ?f])
        (auto simp: charge_quota_frame hm_get_insert dest: rate_limited_not_accepted)
  qed
qed

definition ingress_inv :: "ingress_guards \<Rightarrow> bool" where
  "ingress_inv g = hm_ok (seen_nonces g)"

interpretation channel_nonces:
  replay_guard "check_and_consume quota" ingress_inv ingress_accepted ingress_key ingress_remembers
  for quota
proof unfold_locales
  show "ingress_inv g \<Longrightarrow> ingress_inv (fst (check_and_consume quota g r))" for g r
    by (simp add: ingress_inv_def seen_nonces_consume)
  show "ingress_inv g \<Longrightarrow> ingress_accepted (snd (check_and_consume quota g r)) \<Longrightarrow>
      ingress_remembers (fst (check_and_consume quota g r)) (ingress_key r)" for g r
    using seen_nonces_consume [of g quota r] by (simp add: ingress_inv_def ingress_remembers_def ingress_key_def)
  show "ingress_remembers (fst (check_and_consume quota g r)) k" if "ingress_inv g" "ingress_remembers g k" for g r k
  proof -
    obtain s n ts where k: "k = (s, n, ts)" by (cases k)
    from that have "ts < guard_now g r - FRESHNESS_PAST_SECS \<or> hm_get (seen_nonces g) (s, n) = Some ts"
      by (auto simp: ingress_remembers_def k)
    with seen_nonces_consume [of g quota r] that show ?thesis
      by (fastforce simp: ingress_remembers_def k ingress_inv_def not_less)
  qed
  show "\<not> ingress_accepted (snd (check_and_consume quota g r))"
    if "ingress_inv g" "ingress_remembers g (ingress_key r)" for g r
    using seen_nonces_consume [of g quota r] that
    by (fastforce simp: ingress_remembers_def ingress_key_def ingress_inv_def)
qed

subsection \<open>The quota over a run\<close>

definition quota_inv :: "u64 \<Rightarrow> ingress_guards \<Rightarrow> bool" where
  "quota_inv q g \<longleftrightarrow> (\<forall>s. sorted (quota_of g s) \<and> length (quota_of g s) \<le> q \<and>
     (\<forall>c \<in> set (quota_of g s). c \<le> ig_high_water g))"

lemma quota_of_frame [simp]:
  "quota_of (g\<lparr>ig_high_water := t\<rparr>) s = quota_of g s" "quota_of (g\<lparr>seen_nonces := m\<rparr>) s = quota_of g s"
  by (simp_all add: quota_of_def)

text \<open>Every call charges the sender once, at the clock it established, unless it answers
  \<open>RateLimited\<close>.\<close>

lemma quota_of_consume:
  "quota_of (fst (check_and_consume q g r)) s =
     (if s = ir_sender r then pop_charges (guard_now g r - QUOTA_WINDOW_SECS) (quota_of g s) @
        (if rate_limited (snd (check_and_consume q g r)) then [] else [guard_now g r])
      else quota_of g s) \<and>
   (rate_limited (snd (check_and_consume q g r)) \<longleftrightarrow>
      q \<le> length (pop_charges (guard_now g r - QUOTA_WINDOW_SECS) (quota_of g (ir_sender r))))"
proof -
  have charged: "quota_of (fst (charged g' (ir_sender r) now q f)) t =
     (if t = ir_sender r then pop_charges (now - QUOTA_WINDOW_SECS) (quota_of g' t) @
        (if rate_limited (snd (charged g' (ir_sender r) now q f)) then [] else [now])
      else quota_of g' t) \<and>
     (rate_limited (snd (charged g' (ir_sender r) now q f)) \<longleftrightarrow>
        q \<le> length (pop_charges (now - QUOTA_WINDOW_SECS) (quota_of g' (ir_sender r))))"
    if "\<And>g''. quota_of (fst (f g'')) t = quota_of g'' t" "\<And>g''. \<not> rate_limited (snd (f g''))" for g' now f t
  proof (cases rule: charged_cases [of g' "ir_sender r" now q f])
    case limited
    then show ?thesis using charge_quota_None_iff [of g' "ir_sender r" now q] by (simp add: quota_of_charge not_less)
  next
    case free
    then show ?thesis using charge_quota_None_iff [of g' "ir_sender r" now q] that
      by (simp add: quota_of_charge not_le)
  qed
  show ?thesis
    unfolding check_and_consume_def Let_def
    by (simp add: charged)
qed

lemma quota_inv_consume: "quota_inv q g \<Longrightarrow> quota_inv q (fst (check_and_consume q g r))"
proof -
  assume inv: "quota_inv q g"
  let ?h = "guard_now g r - QUOTA_WINDOW_SECS"
  have "sorted (quota_of (fst (check_and_consume q g r)) s) \<and> length (quota_of (fst (check_and_consume q g r)) s) \<le> q \<and>
     (\<forall>c \<in> set (quota_of (fst (check_and_consume q g r)) s). c \<le> guard_now g r)" for s
  proof -
    have s: "sorted (quota_of g s)" "length (quota_of g s) \<le> q" "\<forall>c \<in> set (quota_of g s). c \<le> ig_high_water g"
      using inv by (auto simp: quota_inv_def)
    show ?thesis
    proof (cases "s = ir_sender r")
      case True
      have "sorted (filter (\<lambda>c. ?h < c) (quota_of g s))" using s(1) by (rule sorted_wrt_filter)
      moreover have "length (pop_charges ?h (quota_of g s)) \<le> q"
        using s(2) pop_charges_length le_trans by blast
      ultimately show ?thesis
        using quota_of_consume [of q g r s] True s pop_charges_sorted [OF s(1), of ?h]
        by (auto simp: sorted_append max_def not_le split: if_splits)
    next
      case False
      then show ?thesis using quota_of_consume [of q g r s] s by fastforce
    qed
  qed
  then show ?thesis by (simp add: quota_inv_def)
qed

fun ingress_step ::
  "u64 \<Rightarrow> ingress_request \<Rightarrow> ingress_guards \<times> (node_id \<times> u64) list \<Rightarrow> ingress_guards \<times> (node_id \<times> u64) list" where
  "ingress_step q r (g, served) =
     (let (g', d) = check_and_consume q g r
      in (g', if rate_limited d then served else served @ [(ir_sender r, ig_high_water g')]))"

definition served_times :: "node_id \<Rightarrow> (node_id \<times> u64) list \<Rightarrow> u64 list" where
  "served_times s served = map snd (filter (\<lambda>e. fst e = s) served)"

definition served_inv :: "u64 \<Rightarrow> ingress_guards \<times> (node_id \<times> u64) list \<Rightarrow> bool" where
  "served_inv q st \<longleftrightarrow> quota_inv q (fst st) \<and>
     (\<forall>s. let h = ig_high_water (fst st) - QUOTA_WINDOW_SECS in
        filter (\<lambda>t. h < t) (served_times s (snd st)) = filter (\<lambda>t. h < t) (quota_of (fst st) s))"

lemma filter_less_mono:
  fixes a b :: nat
  assumes "filter (\<lambda>t. a < t) xs = filter (\<lambda>t. a < t) ys" and "a \<le> b"
  shows "filter (\<lambda>t. b < t) xs = filter (\<lambda>t. b < t) ys"
proof -
  have "filter (\<lambda>t. b < t) zs = filter (\<lambda>t. b < t) (filter (\<lambda>t. a < t) zs)" for zs
    using assms(2) by (induction zs) auto
  then show ?thesis using assms(1) by metis
qed

lemma served_inv_step: "served_inv q st \<Longrightarrow> served_inv q (ingress_step q r st)"
proof -
  assume inv: "served_inv q st"
  obtain g served where st: "st = (g, served)" by (cases st)
  let ?g' = "fst (check_and_consume q g r)" and ?lim = "rate_limited (snd (check_and_consume q g r))"
  let ?h = "guard_now g r - QUOTA_WINDOW_SECS"
  let ?served' = "if ?lim then served else served @ [(ir_sender r, guard_now g r)]"
  have step: "ingress_step q r st = (?g', ?served')"
    using high_water_consume [of q g r] by (cases "check_and_consume q g r") (auto simp: st)
  have q: "quota_inv q g" using inv by (simp add: served_inv_def st)
  have "filter (\<lambda>t. ?h < t) (served_times s ?served') = filter (\<lambda>t. ?h < t) (quota_of ?g' s)" for s
  proof -
    have old: "filter (\<lambda>t. ?h < t) (served_times s served) = filter (\<lambda>t. ?h < t) (quota_of g s)"
    proof (rule filter_less_mono)
      show "filter (\<lambda>t. ig_high_water g - QUOTA_WINDOW_SECS < t) (served_times s served)
          = filter (\<lambda>t. ig_high_water g - QUOTA_WINDOW_SECS < t) (quota_of g s)"
        using inv by (simp add: served_inv_def st Let_def)
    qed (intro diff_le_mono, simp)
    have pop: "pop_charges ?h (quota_of g s) = filter (\<lambda>t. ?h < t) (quota_of g s)"
      using q by (intro pop_charges_sorted) (simp add: quota_inv_def)
    show ?thesis
      using quota_of_consume [of q g r s] old pop by (auto simp: served_times_def)
  qed
  with quota_inv_consume [OF q, of r] show ?thesis by (simp add: step served_inv_def Let_def)
qed

lemma served_inv_run: "served_inv q st \<Longrightarrow> served_inv q (fold (ingress_step q) rs st)"
  by (induction rs arbitrary: st) (simp_all add: served_inv_step)

subsection \<open>Properties\<close>

definition demo_envelope :: "nat \<Rightarrow> u64 \<Rightarrow> u64 \<Rightarrow> ingress_request" where
  "demo_envelope n ts now = \<lparr>ir_sender = 3, ir_nonce = [word_of_nat n], ir_timestamp = ts, ir_now = now\<rparr>"

definition demo_envelopes :: "ingress_request list" where
  "demo_envelopes = [demo_envelope 1 1000 990, demo_envelope 2 1005 1001, demo_envelope 1 1000 900]"

lemmas ingress_defs = check_and_consume_def charged_def charge_quota_def ingress_guards_default_def
  FRESHNESS_PAST_SECS_def FRESHNESS_FUTURE_SECS_def QUOTA_WINDOW_SECS_def sat_add64_def u64_max_def hm_defs

text \<open>C37: an envelope is dispatched at most once. Over any sequence of authenticated envelopes and
  any wall-clock readings, an envelope with the sender, nonce and timestamp of one that was
  accepted is never accepted again, although the cache forgets nonces as time passes.\<close>

theorem envelope_single_use:
  assumes "i < j" and "j < length rs" and "ingress_key (rs ! i) = ingress_key (rs ! j)"
    and "ingress_accepted (snd (run_guard (check_and_consume quota) ingress_guards_default rs) ! i)"
  shows "\<not> ingress_accepted (snd (run_guard (check_and_consume quota) ingress_guards_default rs) ! j)"
  using channel_nonces.accepted_at_most_once [of ingress_guards_default i j rs quota] assms
  by (simp add: ingress_inv_def ingress_guards_default_def)

theorem envelope_single_use_witness:
  "ingress_accepted (snd (run_guard (check_and_consume 2) ingress_guards_default demo_envelopes) ! 0) \<and>
   \<not> ingress_accepted (snd (run_guard (check_and_consume 2) ingress_guards_default demo_envelopes) ! 2)"
proof -
  have "ingress_accepted (snd (run_guard (check_and_consume 2) ingress_guards_default demo_envelopes) ! 0)"
    by (simp add: demo_envelopes_def demo_envelope_def ingress_defs)
  moreover have "ingress_key (demo_envelopes ! 0) = ingress_key (demo_envelopes ! 2)" "2 < length demo_envelopes"
    by (simp_all add: demo_envelopes_def ingress_key_def demo_envelope_def)
  ultimately show ?thesis using envelope_single_use [of 0 2 demo_envelopes 2] by simp
qed

text \<open>The per-peer quota is a true sliding window. After any sequence of envelopes from any
  peers (stale, replayed and accepted ones all charge), the number of envelopes of one peer that
  were served within the last sixty seconds of the guard's clock is at most the quota, so no peer
  takes two bursts across a window boundary.\<close>

theorem peer_quota_bound:
  "let (g, served) = fold (ingress_step quota) rs (ingress_guards_default, []) in
   length (filter (\<lambda>t. ig_high_water g - 60 < t) (served_times s served)) \<le> quota"
proof -
  let ?st = "fold (ingress_step quota) rs (ingress_guards_default, [])"
  have "served_inv quota (ingress_guards_default, [])"
    by (simp add: served_inv_def quota_inv_def quota_of_def served_times_def ingress_guards_default_def)
  then have inv: "served_inv quota ?st" by (rule served_inv_run)
  have "length (filter (\<lambda>t. ig_high_water (fst ?st) - QUOTA_WINDOW_SECS < t) (served_times s (snd ?st))) \<le> quota"
    using inv le_trans [OF length_filter_le] by (auto simp: served_inv_def Let_def quota_inv_def)
  then show ?thesis by (cases ?st) (simp add: QUOTA_WINDOW_SECS_def)
qed

text \<open>The guard's clock never goes back, and an accepted envelope is timed inside the freshness
  window of that clock and was not in the cache.\<close>

theorem ingress_freshness:
  assumes "hm_ok (seen_nonces g)" and "ingress_accepted (snd (check_and_consume quota g r))"
  shows "let now = ig_high_water (fst (check_and_consume quota g r)) in
         ig_high_water g \<le> now \<and> ir_now r \<le> now \<and> now \<le> ir_timestamp r + 300 \<and> ir_timestamp r \<le> now + 60 \<and>
         hm_get (seen_nonces g) (ir_sender r, ir_nonce r) \<noteq> Some (ir_timestamp r)"
  using seen_nonces_consume [OF assms(1), of quota r] assms(2)
  by (auto simp: Let_def FRESHNESS_PAST_SECS_def FRESHNESS_FUTURE_SECS_def)

theorem ingress_freshness_witness:
  "ingress_accepted (snd (check_and_consume 2 ingress_guards_default (demo_envelope 1 1000 990))) \<and>
   ig_high_water (fst (check_and_consume 2 ingress_guards_default (demo_envelope 1 1000 990))) \<le> 1300"
proof -
  have a: "ingress_accepted (snd (check_and_consume 2 ingress_guards_default (demo_envelope 1 1000 990)))"
    by (simp add: demo_envelope_def ingress_defs)
  have "hm_ok (seen_nonces ingress_guards_default)" by (simp add: ingress_guards_default_def)
  from ingress_freshness [OF this a] a show ?thesis by (simp add: Let_def demo_envelope_def)
qed

end
