(* ===== verification/Pin_Budget.thy ===== *)
theory Pin_Budget
  imports Bitcoin_Types
begin

text \<open>
  PIN verification and the wrong-PIN budget, \<open>crates/vault-node/src/pin.rs\<close>: the
  startup validation of the two enrolled digests, the work factor of the carrier KDF, the
  two-slot verdict, and the attempt budget with its fixed timestamp ring, backoff schedule and
  lockout. The \<open>argon2\<close> and \<open>password_hash\<close> crates are an argument (\<open>argon2_api\<close>):
  the PHC parser, the salt decoder, the parameter constructor and the memory-hard function. A
  Rust panic (an \<open>expect\<close>, an index out of range, a modulus of zero) is \<open>None\<close>. The
  ring is proved to refine a plain queue of timestamps.
\<close>

subsection \<open>Argon2 parameters\<close>

datatype algorithm = Argon2d | Argon2i | Argon2id
datatype version = V0x10 | V0x13

fun version_code :: "version \<Rightarrow> nat" where
  "version_code V0x10 = 16"
| "version_code V0x13 = 19"

text \<open>The code orders versions by their discriminants; the order is that of the class library.\<close>

instantiation version :: linorder
begin

definition less_eq_version :: "version \<Rightarrow> version \<Rightarrow> bool" where
  "less_eq_version a b = (version_code a \<le> version_code b)"

definition less_version :: "version \<Rightarrow> version \<Rightarrow> bool" where
  "less_version a b = (version_code a < version_code b)"

instance
proof
  fix a b c :: version
  show "(a < b) = (a \<le> b \<and> \<not> b \<le> a)" by (auto simp: less_eq_version_def less_version_def)
  show "a \<le> a" by (simp add: less_eq_version_def)
  show "a \<le> b \<Longrightarrow> b \<le> c \<Longrightarrow> a \<le> c" by (simp add: less_eq_version_def)
  show "a \<le> b \<Longrightarrow> b \<le> a \<Longrightarrow> a = b" by (cases a; cases b) (simp_all add: less_eq_version_def)
  show "a \<le> b \<or> b \<le> a" by (auto simp: less_eq_version_def)
qed

end

record argon2_params =
  m_cost :: nat
  t_cost :: nat
  p_cost :: nat

record phc =
  phc_algorithm :: "algorithm option"
  phc_version :: "version option option"
  phc_params :: "argon2_params option"
  phc_hash :: "bytes option"
  phc_salt :: "string option"

record argon2_api =
  phc_parse :: "string \<Rightarrow> phc option"
  default_version :: version
  decode_b64 :: "string \<Rightarrow> bytes option"
  min_salt_len :: nat
  min_m_cost :: nat
  params_new :: "nat \<Rightarrow> nat \<Rightarrow> nat \<Rightarrow> argon2_params option"
  hash_into :: "algorithm \<Rightarrow> version \<Rightarrow> argon2_params \<Rightarrow> bytes \<Rightarrow> bytes \<Rightarrow> nat \<Rightarrow> bytes option"

datatype pin_config_error =
    BadPhc string | UnknownAlgorithm string | NotArgon2id string | BadVersion string
  | BadParams string | MemoryTooLarge string | TimeTooLarge string | LanesTooLarge string
  | NoHash string | NoSalt string | SaltNotBase64 string | SaltTooShort string | SharedSalt
  | KdfParams

definition MAX_ARGON2_M_COST_KIB :: nat where "MAX_ARGON2_M_COST_KIB = 256 * 1024"
definition MAX_ARGON2_T_COST :: nat where "MAX_ARGON2_T_COST = 10"
definition MAX_ARGON2_P_COST :: nat where "MAX_ARGON2_P_COST = 16"

definition require_bounded_params :: "argon2_params \<Rightarrow> string \<Rightarrow> pin_config_error + unit" where
  "require_bounded_params params field =
     (if m_cost params > MAX_ARGON2_M_COST_KIB then Err (MemoryTooLarge field)
      else if t_cost params > MAX_ARGON2_T_COST then Err (TimeTooLarge field)
      else if p_cost params > MAX_ARGON2_P_COST then Err (LanesTooLarge field)
      else Ok ())"

definition parse_digest :: "argon2_api \<Rightarrow> string \<Rightarrow> string \<Rightarrow> pin_config_error + phc" where
  "parse_digest api text_phc field =
     (case phc_parse api text_phc of
        None \<Rightarrow> Err (BadPhc field)
      | Some parsed \<Rightarrow>
          (case phc_algorithm parsed of
             None \<Rightarrow> Err (UnknownAlgorithm field)
           | Some alg \<Rightarrow>
               if alg \<noteq> Argon2id then Err (NotArgon2id field)
               else if phc_version parsed = Some None then Err (BadVersion field)
               else (case phc_params parsed of
                   None \<Rightarrow> Err (BadParams field)
                 | Some params \<Rightarrow>
                     bind_res (require_bounded_params params field) (\<lambda>_.
                       if phc_hash parsed = None then Err (NoHash field) else Ok parsed))))"

definition require_usable_salt :: "argon2_api \<Rightarrow> string \<Rightarrow> string \<Rightarrow> pin_config_error + unit" where
  "require_usable_salt api salt field =
     (case decode_b64 api salt of
        None \<Rightarrow> Err (SaltNotBase64 field)
      | Some decoded \<Rightarrow> if length decoded < min_salt_len api then Err (SaltTooShort field) else Ok ())"

definition require_salt :: "phc \<Rightarrow> string \<Rightarrow> pin_config_error + string" where
  "require_salt p field = (case phc_salt p of None \<Rightarrow> Err (NoSalt field) | Some s \<Rightarrow> Ok s)"

definition validate_digests :: "argon2_api \<Rightarrow> string \<Rightarrow> string \<Rightarrow> pin_config_error + unit" where
  "validate_digests api normal_phc duress_phc =
     bind_res (parse_digest api normal_phc ''pin_normal_hash'') (\<lambda>normal.
     bind_res (parse_digest api duress_phc ''pin_duress_hash'') (\<lambda>duress.
     bind_res (require_salt normal ''pin_normal_hash'') (\<lambda>normal_salt.
     bind_res (require_salt duress ''pin_duress_hash'') (\<lambda>duress_salt.
     bind_res (require_usable_salt api normal_salt ''pin_normal_hash'') (\<lambda>_.
     bind_res (require_usable_salt api duress_salt ''pin_duress_hash'') (\<lambda>_.
       if normal_salt = duress_salt then Err SharedSalt else Ok ()))))))"

definition slot_version :: "argon2_api \<Rightarrow> phc \<Rightarrow> string \<Rightarrow> pin_config_error + version" where
  "slot_version api parsed field =
     (case phc_version parsed of
        None \<Rightarrow> Ok (default_version api)
      | Some None \<Rightarrow> Err (BadVersion field)
      | Some (Some v) \<Rightarrow> Ok v)"

definition stronger_version :: "version \<Rightarrow> version \<Rightarrow> version" where
  "stronger_version a b = (if version_code a \<ge> version_code b then a else b)"

record carrier_kdf =
  kdf_version :: version
  kdf_params :: argon2_params
  kdf_salt :: bytes

definition require_params :: "phc \<Rightarrow> string \<Rightarrow> pin_config_error + argon2_params" where
  "require_params p field = (case phc_params p of None \<Rightarrow> Err (BadParams field) | Some s \<Rightarrow> Ok s)"

definition carrier_kdf_new :: "argon2_api \<Rightarrow> string \<Rightarrow> string \<Rightarrow> bytes \<Rightarrow> pin_config_error + carrier_kdf" where
  "carrier_kdf_new api normal_phc duress_phc salt =
     bind_res (parse_digest api normal_phc ''pin_normal_hash'') (\<lambda>normal.
     bind_res (parse_digest api duress_phc ''pin_duress_hash'') (\<lambda>duress.
     bind_res (slot_version api normal ''pin_normal_hash'') (\<lambda>nv.
     bind_res (slot_version api duress ''pin_duress_hash'') (\<lambda>dv.
     bind_res (require_params normal ''pin_normal_hash'') (\<lambda>np.
     bind_res (require_params duress ''pin_duress_hash'') (\<lambda>dp.
       case params_new api (max (m_cost np) (m_cost dp)) (max (t_cost np) (t_cost dp)) (max (p_cost np) (p_cost dp)) of
         None \<Rightarrow> Err KdfParams
       | Some params \<Rightarrow> Ok \<lparr>kdf_version = stronger_version nv dv, kdf_params = params, kdf_salt = salt\<rparr>))))))"

definition enrol_m_cost :: "argon2_api \<Rightarrow> nat \<Rightarrow> nat" where
  "enrol_m_cost api m_cost_kib = min (max m_cost_kib (min_m_cost api)) MAX_ARGON2_M_COST_KIB"

subsection \<open>The verdict\<close>

datatype pin_verdict = Normal | Duress | Wrong
datatype pin_slot = SlotNormal | SlotDuress

text \<open>\<open>Argon2Evaluator::evaluate\<close>: every \<open>expect\<close> is a panic.\<close>

definition argon2_evaluate :: "argon2_api \<Rightarrow> string \<Rightarrow> string \<Rightarrow> pin_slot \<Rightarrow> bytes \<Rightarrow> bool option" where
  "argon2_evaluate api normal_phc duress_phc slot pin =
     Option.bind (phc_parse api (case slot of SlotNormal \<Rightarrow> normal_phc | SlotDuress \<Rightarrow> duress_phc)) (\<lambda>parsed.
     Option.bind (phc_algorithm parsed) (\<lambda>alg.
     Option.bind (case phc_version parsed of None \<Rightarrow> Some (default_version api) | Some v \<Rightarrow> v) (\<lambda>ver.
     Option.bind (phc_params parsed) (\<lambda>params.
     Option.bind (phc_salt parsed) (\<lambda>salt.
     Option.bind (phc_hash parsed) (\<lambda>expected.
     Option.bind (decode_b64 api salt) (\<lambda>salt_bytes.
     Option.bind (hash_into api alg ver params pin salt_bytes (length expected)) (\<lambda>out.
       Some (out = expected)))))))))"

definition verify_pin :: "(pin_slot \<Rightarrow> bytes \<Rightarrow> bool option) \<Rightarrow> bytes \<Rightarrow> pin_verdict option" where
  "verify_pin evaluate pin =
     Option.bind (evaluate SlotNormal pin) (\<lambda>normal.
     Option.bind (evaluate SlotDuress pin) (\<lambda>duress.
       let code0 = (0::nat);
           code1 = (if normal then 1 else code0);
           code2 = (if duress then 2 else code1)
       in Some (if code2 = 1 then Normal else if code2 = 2 then Duress else Wrong)))"

subsection \<open>The attempt budget\<close>

record pin_budget_config =
  max_attempts :: nat
  pb_window_secs :: u64
  backoff_schedule :: "u64 list"
  lockout_secs :: u64

datatype budget_config_error = NoAttempts | EmptyBackoff | NoWindow | NoLockout | RingTooLarge

definition pin_budget_validate :: "pin_budget_config \<Rightarrow> budget_config_error + unit" where
  "pin_budget_validate cfg =
     (if max_attempts cfg < 1 then Err NoAttempts
      else if backoff_schedule cfg = [] then Err EmptyBackoff
      else if pb_window_secs cfg < 1 then Err NoWindow
      else if lockout_secs cfg < 1 then Err NoLockout
      else Ok ())"

record attempt_budget =
  fail_times :: "u64 list"
  fail_head :: nat
  fails :: nat
  locked_until :: u64

record charge_outcome =
  co_refuse :: bool
  co_backoff :: u64
  co_locked :: bool

definition MAX_ATTEMPTS_CEILING :: nat where "MAX_ATTEMPTS_CEILING = 1024"

definition attempt_budget_new :: "nat \<Rightarrow> budget_config_error + attempt_budget" where
  "attempt_budget_new n =
     (if n > MAX_ATTEMPTS_CEILING then Err RingTooLarge
      else Ok \<lparr>fail_times = replicate n 0, fail_head = 0, fails = 0, locked_until = 0\<rparr>)"

text \<open>The loop that slides the window; it reads the ring at the head and pops.\<close>

fun slide_window :: "pin_budget_config \<Rightarrow> u64 \<Rightarrow> u64 list \<Rightarrow> nat \<Rightarrow> nat \<Rightarrow> (nat \<times> nat) option" where
  "slide_window cfg now ring head 0 = Some (head, 0)"
| "slide_window cfg now ring head (Suc f) =
     (if head < length ring then
        if now - ring ! head \<ge> pb_window_secs cfg then
          if max_attempts cfg = 0 then None
          else slide_window cfg now ring ((head + 1) mod max_attempts cfg) f
        else Some (head, Suc f)
      else None)"

definition charge ::
  "attempt_budget \<Rightarrow> pin_verdict \<Rightarrow> u64 \<Rightarrow> pin_budget_config \<Rightarrow> (attempt_budget \<times> charge_outcome) option" where
  "charge b verdict now cfg =
     (let b0 = (if locked_until b \<noteq> 0 \<and> now \<ge> locked_until b
                then b\<lparr>fail_head := 0, fails := 0, locked_until := 0\<rparr> else b)
      in case slide_window cfg now (fail_times b0) (fail_head b0) (fails b0) of
           None \<Rightarrow> None
         | Some (head, k) \<Rightarrow>
           (let locked = (locked_until b0 \<noteq> 0);
                is_wrong = (verdict = Wrong);
                appl = (is_wrong \<and> \<not> locked)
            in if backoff_schedule cfg = [] \<or> max_attempts cfg = 0 then None
               else let idx = min k (length (backoff_schedule cfg) - 1);
                   backoff_secs = (if appl then backoff_schedule cfg ! idx else 0);
                   tail = (head + k) mod max_attempts cfg
               in if tail \<ge> length (fail_times b0) then None
                  else let prior_time = fail_times b0 ! tail;
                      ring = (fail_times b0)[tail := (if appl then now else prior_time)];
                      incremented = min (sat_add64 k 1) (max_attempts cfg);
                      fails' = (if appl then incremented else k);
                      trips_lockout = (appl \<and> fails' = max_attempts cfg);
                      lockout_horizon = sat_add64 (sat_add64 now backoff_secs) (lockout_secs cfg);
                      locked' = (if trips_lockout then lockout_horizon else locked_until b0)
                  in Some (\<lparr>fail_times = ring, fail_head = head, fails = fails', locked_until = locked'\<rparr>,
                       \<lparr>co_refuse = (locked \<or> is_wrong), co_backoff = backoff_secs, co_locked = (locked' \<noteq> 0)\<rparr>)))"

subsection \<open>Specification: a queue of timestamps\<close>

text \<open>What the transition table of the budget means, without the ring: the wrong PINs of the
  current window, oldest first, and the lockout horizon.\<close>

type_synonym budget_spec = "u64 list \<times> u64"

definition spec_charge ::
  "pin_budget_config \<Rightarrow> budget_spec \<Rightarrow> pin_verdict \<Rightarrow> u64 \<Rightarrow> budget_spec \<times> charge_outcome" where
  "spec_charge cfg st verdict now =
     (let (q0, l0) = (if snd st \<noteq> 0 \<and> now \<ge> snd st then ([], 0) else st);
          q1 = dropWhile (\<lambda>t. now - t \<ge> pb_window_secs cfg) q0;
          appl = (verdict = Wrong \<and> l0 = 0);
          bo = (if appl then backoff_schedule cfg ! min (length q1) (length (backoff_schedule cfg) - 1) else 0);
          q2 = (if appl then q1 @ [now] else q1);
          l2 = (if appl \<and> length q2 = max_attempts cfg
                then sat_add64 (sat_add64 now bo) (lockout_secs cfg) else l0)
      in ((q2, l2), \<lparr>co_refuse = (l0 \<noteq> 0 \<or> verdict = Wrong), co_backoff = bo, co_locked = (l2 \<noteq> 0)\<rparr>))"

definition ring_contents :: "nat \<Rightarrow> u64 list \<Rightarrow> nat \<Rightarrow> nat \<Rightarrow> u64 list" where
  "ring_contents m ring head n = map (\<lambda>i. ring ! ((head + i) mod m)) [0..<n]"

definition budget_abs :: "pin_budget_config \<Rightarrow> attempt_budget \<Rightarrow> budget_spec" where
  "budget_abs cfg b = (ring_contents (max_attempts cfg) (fail_times b) (fail_head b) (fails b), locked_until b)"

definition config_ok :: "pin_budget_config \<Rightarrow> bool" where
  "config_ok cfg \<longleftrightarrow> pin_budget_validate cfg = Ok () \<and> max_attempts cfg \<le> MAX_ATTEMPTS_CEILING"

definition budget_inv :: "pin_budget_config \<Rightarrow> attempt_budget \<Rightarrow> bool" where
  "budget_inv cfg b \<longleftrightarrow> length (fail_times b) = max_attempts cfg \<and> fail_head b < max_attempts cfg \<and>
     fails b \<le> max_attempts cfg \<and> (locked_until b = 0 \<longrightarrow> fails b < max_attempts cfg)"

subsection \<open>Ring lemmas\<close>

lemma config_okD:
  assumes "config_ok cfg"
  shows "0 < max_attempts cfg" "backoff_schedule cfg \<noteq> []" "0 < pb_window_secs cfg" "0 < lockout_secs cfg"
    "max_attempts cfg < u64_max"
  using assms by (auto simp: config_ok_def pin_budget_validate_def MAX_ATTEMPTS_CEILING_def u64_max_def split: if_splits)

lemma length_ring_contents [simp]: "length (ring_contents m ring head n) = n"
  by (simp add: ring_contents_def)

lemma ring_contents_Suc:
  "head < m \<Longrightarrow> ring_contents m ring head (Suc n) = ring ! head # ring_contents m ring ((head + 1) mod m) n"
  by (simp add: ring_contents_def upt_conv_Cons map_Suc_upt [symmetric] mod_simps comp_def del: upt_Suc)

lemma ring_index_inj: "(head::nat) < m \<Longrightarrow> i < k \<Longrightarrow> k < m \<Longrightarrow> (head + i) mod m \<noteq> (head + k) mod m"
  by (auto simp: mod_if)

lemma ring_contents_push:
  assumes "length ring = m" "head < m" "k < m"
  shows "ring_contents m (ring[(head + k) mod m := x]) head (Suc k) = ring_contents m ring head k @ [x]"
proof -
  have "ring[(head + k) mod m := x] ! ((head + i) mod m) = ring ! ((head + i) mod m)" if "i < k" for i
    using ring_index_inj [OF assms(2) that assms(3)] by simp
  then show ?thesis using assms by (auto simp: ring_contents_def)
qed

lemma slide_window_refines:
  assumes "length ring = max_attempts cfg" "head < max_attempts cfg"
  shows "\<exists>h k. slide_window cfg now ring head n = Some (h, k) \<and> h < max_attempts cfg \<and> k \<le> n \<and>
     ring_contents (max_attempts cfg) ring h k
       = dropWhile (\<lambda>t. now - t \<ge> pb_window_secs cfg) (ring_contents (max_attempts cfg) ring head n)"
  using assms
proof (induction n arbitrary: head)
  case 0
  then show ?case by (simp add: ring_contents_def)
next
  case (Suc n)
  show ?case
  proof (cases "now - ring ! head \<ge> pb_window_secs cfg")
    case True
    have "(head + 1) mod max_attempts cfg < max_attempts cfg" using Suc.prems by simp
    from Suc.IH [OF Suc.prems(1) this] obtain h k where
      "slide_window cfg now ring ((head + 1) mod max_attempts cfg) n = Some (h, k)" "h < max_attempts cfg" "k \<le> n"
      "ring_contents (max_attempts cfg) ring h k = dropWhile (\<lambda>t. now - t \<ge> pb_window_secs cfg)
         (ring_contents (max_attempts cfg) ring ((head + 1) mod max_attempts cfg) n)" by blast
    with True Suc.prems show ?thesis
      by (intro exI [of _ h] exI [of _ k]) (simp add: ring_contents_Suc [OF Suc.prems(2)])
  next
    case False
    with Suc.prems show ?thesis
      by (intro exI [of _ head] exI [of _ "Suc n"]) (simp add: ring_contents_Suc [OF Suc.prems(2)])
  qed
qed

lemma budget_inv_new:
  "config_ok cfg \<Longrightarrow> \<exists>b. attempt_budget_new (max_attempts cfg) = Ok b \<and> budget_inv cfg b \<and> budget_abs cfg b = ([], 0)"
  using config_okD [of cfg]
  by (auto simp: attempt_budget_new_def budget_inv_def budget_abs_def ring_contents_def config_ok_def)

lemma charge_refines_spec:
  assumes ok: "config_ok cfg" and inv: "budget_inv cfg b"
  shows "\<exists>b' out. charge b verdict now cfg = Some (b', out) \<and> budget_inv cfg b' \<and>
           spec_charge cfg (budget_abs cfg b) verdict now = (budget_abs cfg b', out)"
proof -
  note cfg = config_okD [OF ok]
  define b0 where "b0 = (if locked_until b \<noteq> 0 \<and> now \<ge> locked_until b
                then b\<lparr>fail_head := 0, fails := 0, locked_until := 0\<rparr> else b)"
  let ?m = "max_attempts cfg" and ?drop = "dropWhile (\<lambda>t. now - t \<ge> pb_window_secs cfg)"
  have inv0: "budget_inv cfg b0" using inv cfg(1) by (auto simp: b0_def budget_inv_def)
  have abs0: "budget_abs cfg b0 = (if snd (budget_abs cfg b) \<noteq> 0 \<and> now \<ge> snd (budget_abs cfg b) then ([], 0)
      else budget_abs cfg b)"
    by (simp add: b0_def budget_abs_def ring_contents_def)
  from inv0 have len: "length (fail_times b0) = ?m" and hd: "fail_head b0 < ?m" by (auto simp: budget_inv_def)
  obtain h k where sl: "slide_window cfg now (fail_times b0) (fail_head b0) (fails b0) = Some (h, k)"
    "h < ?m" "k \<le> fails b0" and cont: "ring_contents ?m (fail_times b0) h k = ?drop (fst (budget_abs cfg b0))"
    using slide_window_refines [OF len hd, of now "fails b0"] by (auto simp: budget_abs_def)
  have len_drop: "length (?drop (fst (budget_abs cfg b0))) = k" using cont length_ring_contents by metis
  have tail: "(h + k) mod ?m < length (fail_times b0)" using len cfg(1) by simp
  show ?thesis
  proof (cases "verdict = Wrong \<and> locked_until b0 = 0")
    case True
    then have "k < ?m" using sl(3) inv0 by (auto simp: budget_inv_def)
    then have inc: "min (sat_add64 k 1) ?m = Suc k" using cfg(5) by (simp add: sat_add64_def)
    let ?bo = "backoff_schedule cfg ! min k (length (backoff_schedule cfg) - 1)"
    let ?l = "if Suc k = ?m then sat_add64 (sat_add64 now ?bo) (lockout_secs cfg) else locked_until b0"
    let ?b' = "\<lparr>fail_times = (fail_times b0)[(h + k) mod ?m := now], fail_head = h, fails = Suc k, locked_until = ?l\<rparr>"
    have ch: "charge b verdict now cfg = Some (?b', \<lparr>co_refuse = True, co_backoff = ?bo, co_locked = (?l \<noteq> 0)\<rparr>)"
      unfolding charge_def Let_def b0_def [symmetric] sl(1) using True cfg tail inc by simp
    have lock: "sat_add64 (sat_add64 now ?bo) (lockout_secs cfg) \<noteq> 0"
      using cfg(4) by (simp add: sat_add64_def u64_max_def min_def)
    have inv': "budget_inv cfg ?b'" using len sl(2) \<open>k < ?m\<close> lock by (auto simp: budget_inv_def)
    have "budget_abs cfg ?b' = (?drop (fst (budget_abs cfg b0)) @ [now], ?l)"
      unfolding cont [symmetric] by (simp add: budget_abs_def ring_contents_push [OF len sl(2) \<open>k < ?m\<close>])
    moreover have "snd (budget_abs cfg b0) = 0" using True by (simp add: budget_abs_def)
    ultimately have "spec_charge cfg (budget_abs cfg b) verdict now =
        (budget_abs cfg ?b', \<lparr>co_refuse = True, co_backoff = ?bo, co_locked = (?l \<noteq> 0)\<rparr>)"
      unfolding spec_charge_def abs0 [symmetric] using True len_drop
      by (cases "budget_abs cfg b0") (simp add: Let_def budget_abs_def)
    with ch inv' show ?thesis by blast
  next
    case False
    let ?b' = "\<lparr>fail_times = fail_times b0, fail_head = h, fails = k, locked_until = locked_until b0\<rparr>"
    let ?out = "\<lparr>co_refuse = (locked_until b0 \<noteq> 0 \<or> verdict = Wrong), co_backoff = 0, co_locked = (locked_until b0 \<noteq> 0)\<rparr>"
    have ch: "charge b verdict now cfg = Some (?b', ?out)"
      unfolding charge_def Let_def b0_def [symmetric] sl(1) using False cfg tail by auto
    have inv': "budget_inv cfg ?b'" using len sl(2,3) inv0 by (auto simp: budget_inv_def)
    have "budget_abs cfg ?b' = (?drop (fst (budget_abs cfg b0)), locked_until b0)"
      unfolding cont [symmetric] by (simp add: budget_abs_def)
    then have "spec_charge cfg (budget_abs cfg b) verdict now = (budget_abs cfg ?b', ?out)"
      unfolding spec_charge_def abs0 [symmetric] using False
      by (cases "budget_abs cfg b0") (auto simp: Let_def budget_abs_def)
    with ch inv' show ?thesis by blast
  qed
qed

subsection \<open>Runs\<close>

fun charge_run :: "pin_budget_config \<Rightarrow> attempt_budget \<Rightarrow> (pin_verdict \<times> u64) list
    \<Rightarrow> (attempt_budget \<times> charge_outcome list) option" where
  "charge_run cfg b [] = Some (b, [])"
| "charge_run cfg b ((v, now) # evs) =
     Option.bind (charge b v now cfg) (\<lambda>(b', out).
       map_option (\<lambda>(b'', outs). (b'', out # outs)) (charge_run cfg b' evs))"

fun spec_run :: "pin_budget_config \<Rightarrow> budget_spec \<Rightarrow> (pin_verdict \<times> u64) list
    \<Rightarrow> budget_spec \<times> charge_outcome list" where
  "spec_run cfg st [] = (st, [])"
| "spec_run cfg st ((v, now) # evs) =
     (let (st', out) = spec_charge cfg st v now; (st'', outs) = spec_run cfg st' evs in (st'', out # outs))"

lemma charge_run_refines:
  assumes "config_ok cfg"
  shows "budget_inv cfg b \<Longrightarrow> \<exists>b' outs. charge_run cfg b evs = Some (b', outs) \<and> budget_inv cfg b' \<and>
     spec_run cfg (budget_abs cfg b) evs = (budget_abs cfg b', outs)"
proof (induction evs arbitrary: b)
  case Nil
  then show ?case by simp
next
  case (Cons ev evs)
  obtain v now where ev: "ev = (v, now)" by (cases ev)
  from charge_refines_spec [OF assms Cons.prems, of v now] obtain b1 out where
    1: "charge b v now cfg = Some (b1, out)" "budget_inv cfg b1"
      "spec_charge cfg (budget_abs cfg b) v now = (budget_abs cfg b1, out)" by blast
  from Cons.IH [OF 1(2)] obtain b2 outs where
    2: "charge_run cfg b1 evs = Some (b2, outs)" "budget_inv cfg b2"
      "spec_run cfg (budget_abs cfg b1) evs = (budget_abs cfg b2, outs)" by blast
  from 1 2 show ?case by (simp add: ev)
qed








subsection \<open>Startup validation\<close>

lemma parse_digest_Ok:
  assumes "parse_digest api t field = Ok p"
  shows "phc_parse api t = Some p" "phc_algorithm p = Some Argon2id" "phc_version p \<noteq> Some None"
    "\<exists>params. phc_params p = Some params \<and> m_cost params \<le> MAX_ARGON2_M_COST_KIB \<and>
       t_cost params \<le> MAX_ARGON2_T_COST \<and> p_cost params \<le> MAX_ARGON2_P_COST"
    "phc_hash p \<noteq> None"
  using assms
  by (auto simp: parse_digest_def bind_res_Ok_iff require_bounded_params_def split: option.splits if_splits)

lemma require_salt_Ok_iff: "require_salt p field = Ok x \<longleftrightarrow> phc_salt p = Some x"
  by (simp add: require_salt_def split: option.splits)

lemma require_usable_salt_Ok_iff:
  "require_usable_salt api salt field = Ok () \<longleftrightarrow> (\<exists>b. decode_b64 api salt = Some b \<and> min_salt_len api \<le> length b)"
  by (auto simp: require_usable_salt_def split: option.splits)

lemma validate_digests_Ok:
  assumes "validate_digests api n d = Ok ()"
  obtains np dp ns ds nb db where
    "parse_digest api n ''pin_normal_hash'' = Ok np" "parse_digest api d ''pin_duress_hash'' = Ok dp"
    "phc_salt np = Some ns" "phc_salt dp = Some ds" "ns \<noteq> ds"
    "decode_b64 api ns = Some nb" "min_salt_len api \<le> length nb"
    "decode_b64 api ds = Some db" "min_salt_len api \<le> length db"
  using assms
  by (auto simp: validate_digests_def bind_res_Ok_iff require_salt_Ok_iff require_usable_salt_Ok_iff
      split: if_splits)

lemma argon2_evaluate_total:
  assumes "parse_digest api (case slot of SlotNormal \<Rightarrow> n | SlotDuress \<Rightarrow> d) field = Ok p"
    and "phc_salt p = Some s" "decode_b64 api s = Some b" "min_salt_len api \<le> length b"
    and "\<And>alg v ps pw salt len. min_salt_len api \<le> length salt \<Longrightarrow> hash_into api alg v ps pw salt len \<noteq> None"
  shows "\<exists>r. argon2_evaluate api n d slot pin = Some r"
proof -
  note p = parse_digest_Ok [OF assms(1)]
  from p obtain params h where "phc_params p = Some params" "phc_hash p = Some h" by blast
  moreover from p(3) obtain ver where "(case phc_version p of None \<Rightarrow> Some (default_version api) | Some v \<Rightarrow> v) = Some ver"
    by (cases "phc_version p") auto
  moreover obtain out where "hash_into api Argon2id ver params pin b (length h) = Some out"
    using assms(5) [OF assms(4)] by blast
  ultimately show ?thesis using p(1,2) assms(2,3) by (simp add: argon2_evaluate_def)
qed

lemma verify_pin_eq:
  "verify_pin ev pin = Option.bind (ev SlotNormal pin) (\<lambda>n. Option.bind (ev SlotDuress pin) (\<lambda>d.
     Some (if d then Duress else if n then Normal else Wrong)))"
  by (cases "ev SlotNormal pin"; cases "ev SlotDuress pin") (auto simp: verify_pin_def Let_def)

subsection \<open>Properties\<close>

definition demo_pin_cfg :: pin_budget_config where
  "demo_pin_cfg = \<lparr>max_attempts = 3, pb_window_secs = 100, backoff_schedule = [1, 4], lockout_secs = 50\<rparr>"

definition demo_attempts :: attempt_budget where
  "demo_attempts = \<lparr>fail_times = [0, 0, 0], fail_head = 0, fails = 0, locked_until = 0\<rparr>"

lemma demo_pin_cfg_ok: "config_ok demo_pin_cfg"
  by (simp add: config_ok_def pin_budget_validate_def demo_pin_cfg_def MAX_ATTEMPTS_CEILING_def)

text \<open>A PHC string is modelled by its first character; its salt is the text itself and the hash of
  a PIN is the salt followed by the PIN.\<close>

definition demo_argon2 :: argon2_api where
  "demo_argon2 = \<lparr>
     phc_parse = (\<lambda>t. if t = [] then None else Some \<lparr>phc_algorithm = Some Argon2id,
        phc_version = (if t = ''n'' then Some (Some V0x10) else None),
        phc_params = Some \<lparr>m_cost = length t * 8, t_cost = 4 - length t, p_cost = 1\<rparr>,
        phc_hash = Some (if t = ''n'' then [1, 7] else [2, 8]), phc_salt = Some t\<rparr>),
     default_version = V0x13, decode_b64 = (\<lambda>s. Some (if s = ''n'' then [1] else [2])),
     min_salt_len = 1, min_m_cost = 8,
     params_new = (\<lambda>m t p. Some \<lparr>m_cost = m, t_cost = t, p_cost = p\<rparr>),
     hash_into = (\<lambda>alg v ps pw salt len. Some (salt @ pw))\<rparr>"

lemma demo_argon2_valid: "validate_digests demo_argon2 ''n'' ''du'' = Ok ()"
  by (simp add: validate_digests_def parse_digest_def require_bounded_params_def require_salt_def
      require_usable_salt_def demo_argon2_def MAX_ARGON2_M_COST_KIB_def MAX_ARGON2_T_COST_def MAX_ARGON2_P_COST_def)

text \<open>The attempt ring implements the transition table. With a validated configuration, on any
  sequence of verdicts at any clock readings the ring never indexes out of range or divides by
  zero, and its outcomes and its state are those of the plain queue of timestamps of the
  specification.\<close>

theorem attempt_ring_refines_queue:
  assumes "pin_budget_validate cfg = Ok ()" and "max_attempts cfg \<le> MAX_ATTEMPTS_CEILING"
  shows "\<exists>b b' outs. attempt_budget_new (max_attempts cfg) = Ok b \<and>
     charge_run cfg b evs = Some (b', outs) \<and> spec_run cfg ([], 0) evs = (budget_abs cfg b', outs) \<and>
     length (fail_times b') = max_attempts cfg \<and> fail_head b' < max_attempts cfg \<and>
     fails b' \<le> max_attempts cfg"
proof -
  have ok: "config_ok cfg" using assms by (simp add: config_ok_def)
  from budget_inv_new [OF ok] obtain b where
    b: "attempt_budget_new (max_attempts cfg) = Ok b" "budget_inv cfg b" "budget_abs cfg b = ([], 0)" by blast
  from charge_run_refines [OF ok b(2), of evs] obtain b' outs where "charge_run cfg b evs = Some (b', outs)"
    "budget_inv cfg b'" "spec_run cfg (budget_abs cfg b) evs = (budget_abs cfg b', outs)" by blast
  with b show ?thesis by (auto simp: budget_inv_def)
qed

theorem attempt_ring_refines_queue_witness:
  "\<exists>b b' outs. attempt_budget_new 3 = Ok b \<and>
     charge_run demo_pin_cfg b [(Wrong, 10), (Normal, 20), (Wrong, 120)] = Some (b', outs) \<and>
     budget_abs demo_pin_cfg b' = ([120], 0)"
proof -
  have "pin_budget_validate demo_pin_cfg = Ok ()" "max_attempts demo_pin_cfg \<le> MAX_ATTEMPTS_CEILING"
    using demo_pin_cfg_ok by (auto simp: config_ok_def)
  from attempt_ring_refines_queue [OF this, of "[(Wrong, 10), (Normal, 20), (Wrong, 120)]"]
  obtain b b' outs where "attempt_budget_new 3 = Ok b"
    "charge_run demo_pin_cfg b [(Wrong, 10), (Normal, 20), (Wrong, 120)] = Some (b', outs)"
    "spec_run demo_pin_cfg ([], 0) [(Wrong, 10), (Normal, 20), (Wrong, 120)] = (budget_abs demo_pin_cfg b', outs)"
    by (auto simp: demo_pin_cfg_def)
  moreover have "fst (spec_run demo_pin_cfg ([], 0) [(Wrong, 10), (Normal, 20), (Wrong, 120)]) = ([120], 0)"
    by (simp add: spec_charge_def demo_pin_cfg_def)
  ultimately show ?thesis by auto
qed



text \<open>The budget is blind to which correct PIN was given: replacing any number of normal PINs by
  duress PINs (or back) in a history changes neither an outcome nor a bit of the budget state.\<close>

theorem budget_pin_blind:
  assumes "length vs = length ws" and "\<forall>i < length vs. (vs ! i = Wrong) = (ws ! i = Wrong)"
    and "length ts = length vs"
  shows "charge_run cfg b (zip vs ts) = charge_run cfg b (zip ws ts)"
  using assms
proof (induction vs ws arbitrary: b ts rule: list_induct2')
  case (4 v vs w ws)
  then obtain t ts' where ts: "ts = t # ts'" by (cases ts) auto
  have head: "(v = Wrong) = (w = Wrong)" using 4(3) by force
  have "\<forall>i < length vs. (vs ! i = Wrong) = (ws ! i = Wrong)" using 4(3) by force
  with 4 ts have "charge_run cfg b' (zip vs ts') = charge_run cfg b' (zip ws ts')" for b' by simp
  moreover have "charge b v t cfg = charge b w t cfg" by (simp only: charge_def head)
  ultimately show ?case by (simp add: ts)
qed simp_all

theorem budget_pin_blind_witness:
  "charge_run demo_pin_cfg demo_attempts [(Normal, 1), (Wrong, 2)]
     = charge_run demo_pin_cfg demo_attempts [(Duress, 1), (Wrong, 2)]"
  using budget_pin_blind [of "[Normal, Wrong]" "[Duress, Wrong]" "[1, 2]" demo_pin_cfg demo_attempts]
  by (simp add: less_Suc_eq nth_Cons split: nat.splits)

text \<open>Startup validation makes the request path total. If both digests validate, and the
  memory-hard function runs on every salt of the required length, then verifying any PIN panics
  nowhere, and the verdict is Duress whenever the duress digest matches (so a double match fails
  closed), Normal only when the normal digest alone matches, Wrong when neither does.\<close>

theorem verify_pin_total:
  assumes "validate_digests api n d = Ok ()"
    and "\<And>alg v ps pw salt len. min_salt_len api \<le> length salt \<Longrightarrow> hash_into api alg v ps pw salt len \<noteq> None"
  shows "\<exists>v. verify_pin (argon2_evaluate api n d) pin = Some v \<and>
     (v = Duress \<longleftrightarrow> argon2_evaluate api n d SlotDuress pin = Some True) \<and>
     (v = Normal \<longleftrightarrow> argon2_evaluate api n d SlotNormal pin = Some True \<and>
        argon2_evaluate api n d SlotDuress pin = Some False)"
proof -
  from assms(1) obtain np dp ns ds nb db where
    v: "parse_digest api n ''pin_normal_hash'' = Ok np" "parse_digest api d ''pin_duress_hash'' = Ok dp"
    "phc_salt np = Some ns" "phc_salt dp = Some ds"
    "decode_b64 api ns = Some nb" "min_salt_len api \<le> length nb"
    "decode_b64 api ds = Some db" "min_salt_len api \<le> length db"
    by (rule validate_digests_Ok)
  have "\<exists>r. argon2_evaluate api n d SlotNormal pin = Some r"
    by (rule argon2_evaluate_total [where slot = SlotNormal and field = "''pin_normal_hash''" and p = np and s = ns and b = nb]) (use v assms(2) in auto)
  moreover have "\<exists>r. argon2_evaluate api n d SlotDuress pin = Some r"
    by (rule argon2_evaluate_total [where slot = SlotDuress and field = "''pin_duress_hash''" and p = dp and s = ds and b = db]) (use v assms(2) in auto)
  ultimately show ?thesis by (auto simp: verify_pin_eq)
qed

theorem verify_pin_total_witness:
  "\<exists>v. verify_pin (argon2_evaluate demo_argon2 ''n'' ''du'') [8] = Some v \<and> v = Duress"
proof -
  have "argon2_evaluate demo_argon2 ''n'' ''du'' SlotDuress [8] = Some True"
    by (simp add: argon2_evaluate_def demo_argon2_def)
  with verify_pin_total [OF demo_argon2_valid, of "[8]"] show ?thesis by (auto simp: demo_argon2_def)
qed

text \<open>The carrier KDF is at least as strong as either enrolled slot: built from validated
  digests, its memory, time and lane costs and its version dominate those of both, and stay
  within the node's resource ceilings.\<close>

theorem carrier_kdf_dominates:
  assumes "carrier_kdf_new api n d salt = Ok kdf"
    and "\<And>m t p ps. params_new api m t p = Some ps \<Longrightarrow> ps = \<lparr>m_cost = m, t_cost = t, p_cost = p\<rparr>"
  shows "\<exists>np dp nps dps nv dv. phc_parse api n = Some np \<and> phc_parse api d = Some dp \<and>
     phc_params np = Some nps \<and> phc_params dp = Some dps \<and>
     slot_version api np ''pin_normal_hash'' = Ok nv \<and> slot_version api dp ''pin_duress_hash'' = Ok dv \<and>
     m_cost nps \<le> m_cost (kdf_params kdf) \<and> m_cost dps \<le> m_cost (kdf_params kdf) \<and>
     t_cost nps \<le> t_cost (kdf_params kdf) \<and> t_cost dps \<le> t_cost (kdf_params kdf) \<and>
     p_cost nps \<le> p_cost (kdf_params kdf) \<and> p_cost dps \<le> p_cost (kdf_params kdf) \<and>
     kdf_version kdf = max nv dv \<and> m_cost (kdf_params kdf) \<le> 262144 \<and> t_cost (kdf_params kdf) \<le> 10 \<and>
     p_cost (kdf_params kdf) \<le> 16"
proof -
  from assms(1) obtain np dp nv dv nps dps ps where
    p: "parse_digest api n ''pin_normal_hash'' = Ok np" "parse_digest api d ''pin_duress_hash'' = Ok dp"
    and v: "slot_version api np ''pin_normal_hash'' = Ok nv" "slot_version api dp ''pin_duress_hash'' = Ok dv"
    and r: "require_params np ''pin_normal_hash'' = Ok nps" "require_params dp ''pin_duress_hash'' = Ok dps"
    and k: "params_new api (max (m_cost nps) (m_cost dps)) (max (t_cost nps) (t_cost dps)) (max (p_cost nps) (p_cost dps)) = Some ps"
      "kdf = \<lparr>kdf_version = stronger_version nv dv, kdf_params = ps, kdf_salt = salt\<rparr>"
    by (auto simp: carrier_kdf_new_def bind_res_Ok_iff split: option.splits)
  have "stronger_version nv dv = max nv dv"
    by (cases nv; cases dv) (simp_all add: stronger_version_def max_def less_eq_version_def)
  moreover from r have "phc_params np = Some nps" "phc_params dp = Some dps"
    by (auto simp: require_params_def split: option.splits)
  moreover from parse_digest_Ok(4) [OF p(1)] parse_digest_Ok(4) [OF p(2)] calculation(2,3)
  have "m_cost nps \<le> 262144 \<and> t_cost nps \<le> 10 \<and> p_cost nps \<le> 16" "m_cost dps \<le> 262144 \<and> t_cost dps \<le> 10 \<and> p_cost dps \<le> 16"
    by (auto simp: MAX_ARGON2_M_COST_KIB_def MAX_ARGON2_T_COST_def MAX_ARGON2_P_COST_def)
  ultimately show ?thesis
    using parse_digest_Ok(1) [OF p(1)] parse_digest_Ok(1) [OF p(2)] v k(2) assms(2) [OF k(1)] by simp
qed

theorem carrier_kdf_dominates_witness:
  "\<exists>kdf. carrier_kdf_new demo_argon2 ''n'' ''du'' [9] = Ok kdf \<and> m_cost (kdf_params kdf) \<le> 262144"
proof -
  obtain kdf where k: "carrier_kdf_new demo_argon2 ''n'' ''du'' [9] = Ok kdf"
    by (simp add: carrier_kdf_new_def parse_digest_def require_bounded_params_def slot_version_def
        require_params_def demo_argon2_def MAX_ARGON2_M_COST_KIB_def MAX_ARGON2_T_COST_def MAX_ARGON2_P_COST_def)
  have "params_new demo_argon2 m t p = Some ps \<Longrightarrow> ps = \<lparr>m_cost = m, t_cost = t, p_cost = p\<rparr>" for m t p ps
    by (simp add: demo_argon2_def)
  from carrier_kdf_dominates [OF k this] k show ?thesis by auto
qed

end
