(* ===== verification/Wire_Proto.thy ===== *)
theory Wire_Proto
  imports Bitcoin_Types
begin

text \<open>
  The shared wire crate, \<open>crates/vault-proto/src/lib.rs\<close>: fixed-width little- and
  big-endian encodings, the length-prefixed byte string, the exact-transaction commitment, the
  coordinator-signed request and the tagged hash. SHA-256 and its hex rendering are arguments.
  The encodings are shown to be injective through the \<open>prefix_code\<close> interface: an
  encoding that can be read back off the front of any byte string. Integers keep their width;
  a Rust \<open>String\<close> is a \<open>string\<close> and \<open>as_bytes\<close> its characters as bytes.
\<close>

subsection \<open>Encoders\<close>

definition le_bytes :: "nat \<Rightarrow> 'a::len word \<Rightarrow> bytes" where
  "le_bytes n w = map (\<lambda>i. ucast (drop_bit (8 * i) w)) [0..<n]"

definition be_bytes :: "nat \<Rightarrow> 'a::len word \<Rightarrow> bytes" where
  "be_bytes n w = rev (le_bytes n w)"

abbreviation u16_le :: "16 word \<Rightarrow> bytes" where "u16_le \<equiv> le_bytes 2"
abbreviation u32_le :: "32 word \<Rightarrow> bytes" where "u32_le \<equiv> le_bytes 4"
abbreviation u64_le :: "64 word \<Rightarrow> bytes" where "u64_le \<equiv> le_bytes 8"
abbreviation u32_be :: "32 word \<Rightarrow> bytes" where "u32_be \<equiv> be_bytes 4"
abbreviation u64_be :: "64 word \<Rightarrow> bytes" where "u64_be \<equiv> be_bytes 8"

text \<open>\<open>len() as u32\<close> truncates.\<close>

definition len_u32 :: "'x list \<Rightarrow> 32 word" where
  "len_u32 xs = word_of_nat (length xs)"

definition str_bytes :: "string \<Rightarrow> bytes" where
  "str_bytes s = map of_char s"

definition push_var :: "bytes \<Rightarrow> bytes" where
  "push_var b = u32_le (len_u32 b) @ b"

definition tagged_hash :: "(bytes \<Rightarrow> digest) \<Rightarrow> string \<Rightarrow> bytes \<Rightarrow> digest" where
  "tagged_hash sha256 tag msg =
     (let th = sha256 (str_bytes tag) in sha256 (th @ th @ msg))"

subsection \<open>The transaction commitment\<close>

record commitment_input =
  ci_txid :: bytes
  ci_vout :: "32 word"
  ci_sequence :: "32 word"

record commitment_output =
  co_script_pubkey :: bytes
  co_amount :: "64 word"

record commitment =
  cm_wallet_id :: bytes
  cm_version :: "32 word"
  cm_lock_time :: "32 word"
  cm_inputs :: "commitment_input list"
  cm_outputs :: "commitment_output list"
  cm_fee :: "64 word"
  cm_expiry :: "64 word"
  cm_policy_version :: "32 word"

definition commitment_bytes :: "commitment \<Rightarrow> bytes" where
  "commitment_bytes c =
     cm_wallet_id c @ u32_be (cm_version c) @ u32_be (cm_lock_time c) @
     u32_be (len_u32 (cm_inputs c)) @
     concat (map (\<lambda>i. ci_txid i @ u32_be (ci_vout i) @ u32_be (ci_sequence i)) (cm_inputs c)) @
     u32_be (len_u32 (cm_outputs c)) @
     concat (map (\<lambda>out. u32_be (len_u32 (co_script_pubkey out)) @ co_script_pubkey out @ u64_be (co_amount out))
       (cm_outputs c)) @
     u64_be (cm_fee c) @ u64_be (cm_expiry c) @ u32_be (cm_policy_version c)"

definition commitment_id :: "(bytes \<Rightarrow> digest) \<Rightarrow> (digest \<Rightarrow> string) \<Rightarrow> commitment \<Rightarrow> string" where
  "commitment_id sha256 hex c = hex (sha256 (commitment_bytes c))"

subsection \<open>The coordinator request\<close>

definition COORD_REQUEST_TAG :: string where "COORD_REQUEST_TAG = ''btc-policy/coord-request/v0''"
definition ESCAPE_RBF_SEQUENCE :: "32 word" where "ESCAPE_RBF_SEQUENCE = 0xfffffffd"
definition MAX_ESCAPE_BUMPS :: nat where "MAX_ESCAPE_BUMPS = 3"
definition MAX_PIN_BYTES :: nat where "MAX_PIN_BYTES = 64"
definition SPEND_TAG :: byte where "SPEND_TAG = 1"
definition REFRESH_TAG :: byte where "REFRESH_TAG = 2"

datatype coord_request =
    CoordSpend (cr_spend_psbt: string) (cr_escape_psbt: string) (cr_escape_bumps: "string list")
      (cr_pin: string) (cr_nonce: string) (cr_expiry: "64 word") (cr_policy_version: "32 word")
  | CoordRefresh (cr_refresh_psbt: string) (cr_nonce: string) (cr_expiry: "64 word")
      (cr_policy_version: "32 word")

fun coord_request_bytes :: "coord_request \<Rightarrow> bytes" where
  "coord_request_bytes (CoordSpend spend esc bumps pin nonce expiry pv) =
     [SPEND_TAG] @ push_var (str_bytes spend) @ push_var (str_bytes esc) @
     u32_le (len_u32 bumps) @ concat (map (\<lambda>b. push_var (str_bytes b)) bumps) @
     push_var (str_bytes pin) @ push_var (str_bytes nonce) @ u64_le expiry @ u32_le pv"
| "coord_request_bytes (CoordRefresh refresh nonce expiry pv) =
     [REFRESH_TAG] @ push_var (str_bytes refresh) @ push_var (str_bytes nonce) @ u64_le expiry @ u32_le pv"

definition auth_digest :: "(bytes \<Rightarrow> digest) \<Rightarrow> coord_request \<Rightarrow> bytes \<Rightarrow> digest" where
  "auth_digest sha256 r wallet_id = tagged_hash sha256 COORD_REQUEST_TAG (wallet_id @ coord_request_bytes r)"

record sign_request =
  sr_psbt :: string
  sr_escape_psbt :: string
  sr_escape_bumps :: "string list"
  sr_pin :: string
  sr_nonce :: string
  sr_expiry :: "64 word"
  sr_policy_version :: "32 word"
  sr_coord_sig :: string

record refresh_request =
  rr_refresh_psbt :: string
  rr_nonce :: string
  rr_expiry :: "64 word"
  rr_policy_version :: "32 word"
  rr_coord_sig :: string

datatype tagged_request = TaggedSpend sign_request | TaggedRefresh refresh_request

definition sign_coord_request :: "sign_request \<Rightarrow> coord_request" where
  "sign_coord_request r = CoordSpend (sr_psbt r) (sr_escape_psbt r) (sr_escape_bumps r) (sr_pin r)
     (sr_nonce r) (sr_expiry r) (sr_policy_version r)"

definition refresh_coord_request :: "refresh_request \<Rightarrow> coord_request" where
  "refresh_coord_request r = CoordRefresh (rr_refresh_psbt r) (rr_nonce r) (rr_expiry r) (rr_policy_version r)"

datatype refusal_code =
    WrongDescriptor | RcUnknownInput | RcDestNotAllowed | RcChangeNotDerivable | RcFeeExceedsCap
  | BadSighash | UserSigInvalid | CommitmentExpired | RcPsbtInconsistent | BadPin | FraudSuspected
  | CoordAuthInvalid | NonceReplayed | CoordNonceCapacity | CandidateCapacity | ExpiryTooShort
  | RefreshTooSoon | RefreshFeeExceedsCap | RefreshSubordinated | RcHotBudgetExceeded
  | HotVelocityExceeded

record accepted_ack =
  ack_commitment_id :: string
  ack_first_seen :: u64
  ack_remaining_secs :: u64

record refusal =
  ref_code :: refusal_code
  ref_check :: string

datatype sign_response = RespAccepted accepted_ack | RespRefusal refusal

subsection \<open>Interface: encodings that read back\<close>

text \<open>An encoding is a prefix code on the values satisfying \<open>ok\<close> when what follows it can
  never be mistaken for part of it.\<close>

locale prefix_code =
  fixes ok :: "'a \<Rightarrow> bool" and enc :: "'a \<Rightarrow> bytes"
  assumes reads_back: "ok x \<Longrightarrow> ok y \<Longrightarrow> enc x @ r = enc y @ s \<Longrightarrow> x = y \<and> r = s"
begin

lemma enc_inj: "ok x \<Longrightarrow> ok y \<Longrightarrow> enc x = enc y \<Longrightarrow> x = y"
  using reads_back [of x y "[]" "[]"] by simp

lemma concat_reads_back:
  "length xs = length ys \<Longrightarrow> \<forall>x \<in> set xs. ok x \<Longrightarrow> \<forall>y \<in> set ys. ok y \<Longrightarrow>
   concat (map enc xs) @ r = concat (map enc ys) @ s \<Longrightarrow> xs = ys \<and> r = s"
proof (induction xs ys rule: list_induct2)
  case (Cons x xs y ys)
  then have "enc x @ (concat (map enc xs) @ r) = enc y @ (concat (map enc ys) @ s)" by simp
  with Cons reads_back [of x y] show ?case by fastforce
qed simp

end

lemma prefix_code_fixed:
  assumes "\<And>x. ok x \<Longrightarrow> length (enc x) = n" "\<And>x y. ok x \<Longrightarrow> ok y \<Longrightarrow> enc x = enc y \<Longrightarrow> x = y"
  shows "prefix_code ok enc"
proof
  fix x y r s
  assume "ok x" "ok y" "enc x @ r = enc y @ s"
  then show "x = y \<and> r = s" using assms by (metis append_eq_append_conv)
qed

lemma prefix_code_pair:
  assumes "prefix_code P f" "prefix_code Q g"
  shows "prefix_code (\<lambda>(a, b). P a \<and> Q b) (\<lambda>(a, b). f a @ g b)"
proof
  fix x y :: "'a \<times> 'b" and r s
  obtain a b c d where xy: "x = (a, b)" "y = (c, d)" by (cases x; cases y)
  assume "case x of (a, b) \<Rightarrow> P a \<and> Q b" "case y of (a, b) \<Rightarrow> P a \<and> Q b"
    "(case x of (a, b) \<Rightarrow> f a @ g b) @ r = (case y of (a, b) \<Rightarrow> f a @ g b) @ s"
  then have ok: "P a" "P c" "Q b" "Q d" and eq: "f a @ (g b @ r) = f c @ (g d @ s)" by (simp_all add: xy)
  from prefix_code.reads_back [OF assms(1) ok(1,2) eq] have "a = c" and eq2: "g b @ r = g d @ s" by simp_all
  with prefix_code.reads_back [OF assms(2) ok(3,4) eq2] show "x = y \<and> r = s" by (simp add: xy)
qed

lemma prefix_code_comap:
  assumes "prefix_code P f" "\<And>x. Q x \<Longrightarrow> P (h x)" "\<And>x y. Q x \<Longrightarrow> Q y \<Longrightarrow> h x = h y \<Longrightarrow> x = y"
  shows "prefix_code Q (\<lambda>x. f (h x))"
proof
  fix x y r s
  assume "Q x" "Q y" "f (h x) @ r = f (h y) @ s"
  then show "x = y \<and> r = s"
    using assms(2,3) prefix_code.reads_back [OF assms(1), of "h x" "h y" r s] by blast
qed

lemma length_le_bytes [simp]: "length (le_bytes n w) = n"
  by (simp add: le_bytes_def)

lemma length_be_bytes [simp]: "length (be_bytes n w) = n"
  by (simp add: be_bytes_def)

lemma le_bytes_inj:
  fixes v w :: "'a::len word"
  assumes "le_bytes n v = le_bytes n w" and "LENGTH('a) \<le> 8 * n"
  shows "v = w"
proof (rule bit_word_eqI)
  fix k
  assume k: "k < LENGTH('a)"
  let ?i = "k div 8"
  have "?i < n" using k assms(2) by (simp add: div_less_iff_less_mult mult.commute)
  with assms(1) have "(ucast (drop_bit (8 * ?i) v) :: byte) = ucast (drop_bit (8 * ?i) w)"
    by (auto simp: le_bytes_def dest!: map_eq_conv [THEN iffD1])
  then have "bit (ucast (drop_bit (8 * ?i) v) :: byte) (k mod 8) = bit (ucast (drop_bit (8 * ?i) w) :: byte) (k mod 8)"
    by simp
  moreover have "8 * ?i + k mod 8 = k" "k mod 8 < 8" by simp_all
  ultimately show "bit v k \<longleftrightarrow> bit w k" by (simp add: bit_ucast_iff bit_drop_bit_eq)
qed

lemma be_bytes_inj:
  fixes v w :: "'a::len word"
  shows "be_bytes n v = be_bytes n w \<Longrightarrow> LENGTH('a) \<le> 8 * n \<Longrightarrow> v = w"
  by (auto simp: be_bytes_def dest: le_bytes_inj)

interpretation le16: prefix_code "\<lambda>_. True" u16_le
  by (rule prefix_code_fixed [of _ _ 2]) (auto intro: le_bytes_inj)

interpretation le32: prefix_code "\<lambda>_. True" u32_le
  by (rule prefix_code_fixed [of _ _ 4]) (auto intro: le_bytes_inj)

interpretation le64: prefix_code "\<lambda>_. True" u64_le
  by (rule prefix_code_fixed [of _ _ 8]) (auto intro: le_bytes_inj)

interpretation be32: prefix_code "\<lambda>_. True" u32_be
  by (rule prefix_code_fixed [of _ _ 4]) (auto intro: be_bytes_inj)

interpretation be64: prefix_code "\<lambda>_. True" u64_be
  by (rule prefix_code_fixed [of _ _ 8]) (auto intro: be_bytes_inj)

text \<open>A byte array of a fixed length.\<close>

interpretation fixed_bytes: prefix_code "\<lambda>b. length b = n" "\<lambda>b. b" for n
  by (rule prefix_code_fixed) auto

lemma len_u32_inj:
  "length xs < 2 ^ 32 \<Longrightarrow> length ys < 2 ^ 32 \<Longrightarrow> len_u32 xs = len_u32 ys \<Longrightarrow> length xs = length ys"
proof -
  assume "length xs < 2 ^ 32" "length ys < 2 ^ 32" "len_u32 xs = len_u32 ys"
  moreover from this(1,2) have "unat (len_u32 xs) = length xs" "unat (len_u32 ys) = length ys"
    by (simp_all add: len_u32_def unat_of_nat)
  ultimately show ?thesis by simp
qed

lemma str_bytes_inj: "str_bytes s = str_bytes t \<Longrightarrow> s = t"
proof -
  have "inj (of_char :: char \<Rightarrow> byte)"
  proof (rule injI)
    fix c d :: char
    assume "(of_char c :: byte) = of_char d"
    then have "unat (of_char c :: byte) = unat (of_char d :: byte)" by simp
    moreover have "unat (of_char e :: byte) = of_char e" for e :: char
    proof -
      have "(of_char e :: nat) < 256" by simp
      moreover have "(of_char e :: byte) = word_of_nat (of_char e)" by (simp add: of_nat_of_char)
      ultimately show ?thesis by (simp add: unat_of_nat)
    qed
    ultimately show "c = d" by simp
  qed
  then show "str_bytes s = str_bytes t \<Longrightarrow> s = t" by (simp add: str_bytes_def inj_map_eq_map)
qed

lemma length_str_bytes [simp]: "length (str_bytes s) = length s"
  by (simp add: str_bytes_def)

lemma prefix_code_counted:
  assumes "prefix_code (\<lambda>_. True) h" "prefix_code P f"
  shows "prefix_code (\<lambda>xs. length xs < 2 ^ 32 \<and> (\<forall>x \<in> set xs. P x)) (\<lambda>xs. h (len_u32 xs) @ concat (map f xs))"
proof
  fix xs ys r s
  assume ok: "length xs < 2 ^ 32 \<and> (\<forall>x \<in> set xs. P x)" "length ys < 2 ^ 32 \<and> (\<forall>x \<in> set ys. P x)"
    and eq: "(h (len_u32 xs) @ concat (map f xs)) @ r = (h (len_u32 ys) @ concat (map f ys)) @ s"
  from eq have "h (len_u32 xs) @ (concat (map f xs) @ r) = h (len_u32 ys) @ (concat (map f ys) @ s)" by simp
  from prefix_code.reads_back [OF assms(1) TrueI TrueI this]
  have l: "len_u32 xs = len_u32 ys" and c: "concat (map f xs) @ r = concat (map f ys) @ s" by simp_all
  from len_u32_inj [OF _ _ l] ok have "length xs = length ys" by simp
  from prefix_code.concat_reads_back [OF assms(2) this _ _ c] ok show "xs = ys \<and> r = s" by simp
qed

lemma prefix_code_byte: "prefix_code (\<lambda>_. True) (\<lambda>b :: byte. [b])"
  by (rule prefix_code_fixed [of _ _ 1]) auto

lemma prefix_code_len_bytes:
  assumes "prefix_code (\<lambda>_. True) h"
  shows "prefix_code (\<lambda>b :: bytes. length b < 2 ^ 32) (\<lambda>b. h (len_u32 b) @ b)"
proof -
  have "concat (map (\<lambda>x. [x]) b) = b" for b :: bytes by (induction b) auto
  then show ?thesis using prefix_code_counted [OF assms prefix_code_byte] by simp
qed

interpretation var: prefix_code "\<lambda>b. length b < 2 ^ 32" push_var
  using prefix_code_len_bytes [OF le32.prefix_code_axioms] by (simp add: push_var_def [abs_def])

interpretation var_str: prefix_code "\<lambda>t. length t < 2 ^ 32" "\<lambda>t. push_var (str_bytes t)"
  by (rule prefix_code_comap [OF var.prefix_code_axioms]) (auto intro: str_bytes_inj)

interpretation var_strs: prefix_code "\<lambda>ts. length ts < 2 ^ 32 \<and> (\<forall>t \<in> set ts. length t < 2 ^ 32)"
  "\<lambda>ts. u32_le (len_u32 ts) @ concat (map (\<lambda>t. push_var (str_bytes t)) ts)"
  by (rule prefix_code_counted [OF le32.prefix_code_axioms var_str.prefix_code_axioms])

lemmas prefix_codes = le16.prefix_code_axioms le32.prefix_code_axioms le64.prefix_code_axioms
  be32.prefix_code_axioms be64.prefix_code_axioms fixed_bytes.prefix_code_axioms
  var.prefix_code_axioms var_str.prefix_code_axioms var_strs.prefix_code_axioms prefix_code_byte

subsection \<open>The commitment reads back\<close>

definition commitment_ok :: "commitment \<Rightarrow> bool" where
  "commitment_ok c \<longleftrightarrow> length (cm_wallet_id c) = 32 \<and> length (cm_inputs c) < 2 ^ 32 \<and>
     length (cm_outputs c) < 2 ^ 32 \<and> (\<forall>i \<in> set (cm_inputs c). length (ci_txid i) = 32) \<and>
     (\<forall>out \<in> set (cm_outputs c). length (co_script_pubkey out) < 2 ^ 32)"

lemma commitment_input_eq_iff:
  "(x :: commitment_input) = y \<longleftrightarrow> ci_txid x = ci_txid y \<and> ci_vout x = ci_vout y \<and> ci_sequence x = ci_sequence y"
  by (cases x; cases y) auto

lemma commitment_output_eq_iff:
  "(x :: commitment_output) = y \<longleftrightarrow> co_script_pubkey x = co_script_pubkey y \<and> co_amount x = co_amount y"
  by (cases x; cases y) auto

lemma commitment_eq_iff:
  "(x :: commitment) = y \<longleftrightarrow> cm_wallet_id x = cm_wallet_id y \<and> cm_version x = cm_version y \<and>
     cm_lock_time x = cm_lock_time y \<and> cm_inputs x = cm_inputs y \<and> cm_outputs x = cm_outputs y \<and>
     cm_fee x = cm_fee y \<and> cm_expiry x = cm_expiry y \<and> cm_policy_version x = cm_policy_version y"
  by (cases x; cases y) auto

lemma input_code:
  "prefix_code (\<lambda>i :: commitment_input. length (ci_txid i) = 32) (\<lambda>i. ci_txid i @ u32_be (ci_vout i) @ u32_be (ci_sequence i))"
  using prefix_code_comap [OF prefix_code_pair [OF fixed_bytes.prefix_code_axioms [of 32]
      prefix_code_pair [OF be32.prefix_code_axioms be32.prefix_code_axioms]],
      of "\<lambda>i :: commitment_input. length (ci_txid i) = 32" "\<lambda>i. (ci_txid i, ci_vout i, ci_sequence i)"]
  by (simp add: commitment_input_eq_iff)

lemma output_code:
  "prefix_code (\<lambda>out :: commitment_output. length (co_script_pubkey out) < 2 ^ 32)
     (\<lambda>out. u32_be (len_u32 (co_script_pubkey out)) @ co_script_pubkey out @ u64_be (co_amount out))"
  using prefix_code_comap [OF prefix_code_pair [OF prefix_code_len_bytes [OF be32.prefix_code_axioms]
      be64.prefix_code_axioms],
      of "\<lambda>out :: commitment_output. length (co_script_pubkey out) < 2 ^ 32" "\<lambda>out. (co_script_pubkey out, co_amount out)"]
  by (simp add: commitment_output_eq_iff)

interpretation commitment: prefix_code commitment_ok commitment_bytes
proof -
  note inputs = prefix_code_counted [OF be32.prefix_code_axioms input_code]
    and outputs = prefix_code_counted [OF be32.prefix_code_axioms output_code]
  note tuple = prefix_code_pair [OF fixed_bytes.prefix_code_axioms [of 32]
      prefix_code_pair [OF be32.prefix_code_axioms
      prefix_code_pair [OF be32.prefix_code_axioms
      prefix_code_pair [OF inputs
      prefix_code_pair [OF outputs
      prefix_code_pair [OF be64.prefix_code_axioms
      prefix_code_pair [OF be64.prefix_code_axioms be32.prefix_code_axioms]]]]]]]
  have "prefix_code commitment_ok (\<lambda>c. commitment_bytes c)"
    using prefix_code_comap [OF tuple, of commitment_ok "\<lambda>c. (cm_wallet_id c, cm_version c, cm_lock_time c,
      cm_inputs c, cm_outputs c, cm_fee c, cm_expiry c, cm_policy_version c)"]
    by (simp add: commitment_eq_iff commitment_ok_def commitment_bytes_def [abs_def])
  then show "prefix_code commitment_ok commitment_bytes" .
qed

subsection \<open>The coordinator request reads back\<close>

definition request_ok :: "coord_request \<Rightarrow> bool" where
  "request_ok r = (case r of
     CoordSpend spend esc bumps pin nonce expiry pv \<Rightarrow>
       length spend < 2 ^ 32 \<and> length esc < 2 ^ 32 \<and> length bumps < 2 ^ 32 \<and>
       (\<forall>b \<in> set bumps. length b < 2 ^ 32) \<and> length pin < 2 ^ 32 \<and> length nonce < 2 ^ 32
   | CoordRefresh refresh nonce expiry pv \<Rightarrow> length refresh < 2 ^ 32 \<and> length nonce < 2 ^ 32)"

lemma spend_tuple_code:
  "prefix_code (\<lambda>(spend, esc, bumps, pin, nonce, expiry :: 64 word, pv :: 32 word).
       length spend < 2 ^ 32 \<and> length esc < 2 ^ 32 \<and>
       (length bumps < 2 ^ 32 \<and> (\<forall>b \<in> set bumps. length b < 2 ^ 32)) \<and>
       length pin < 2 ^ 32 \<and> length nonce < 2 ^ 32)
     (\<lambda>(spend, esc, bumps, pin, nonce, expiry, pv).
       push_var (str_bytes spend) @ push_var (str_bytes esc) @
       u32_le (len_u32 bumps) @ concat (map (\<lambda>b. push_var (str_bytes b)) bumps) @
       push_var (str_bytes pin) @ push_var (str_bytes nonce) @ u64_le expiry @ u32_le pv)"
  using prefix_code_pair [OF var_str.prefix_code_axioms
      prefix_code_pair [OF var_str.prefix_code_axioms
      prefix_code_pair [OF var_strs.prefix_code_axioms
      prefix_code_pair [OF var_str.prefix_code_axioms
      prefix_code_pair [OF var_str.prefix_code_axioms
      prefix_code_pair [OF le64.prefix_code_axioms le32.prefix_code_axioms]]]]]]
  by (simp add: case_prod_unfold)

lemma refresh_tuple_code:
  "prefix_code (\<lambda>(refresh, nonce, expiry :: 64 word, pv :: 32 word). length refresh < 2 ^ 32 \<and> length nonce < 2 ^ 32)
     (\<lambda>(refresh, nonce, expiry, pv).
       push_var (str_bytes refresh) @ push_var (str_bytes nonce) @ u64_le expiry @ u32_le pv)"
  using prefix_code_pair [OF var_str.prefix_code_axioms
      prefix_code_pair [OF var_str.prefix_code_axioms
      prefix_code_pair [OF le64.prefix_code_axioms le32.prefix_code_axioms]]]
  by (simp add: case_prod_unfold)

interpretation coord_request: prefix_code request_ok coord_request_bytes
proof
  fix x y r s
  assume ok: "request_ok x" "request_ok y" and eq: "coord_request_bytes x @ r = coord_request_bytes y @ s"
  show "x = y \<and> r = s"
  proof (cases x)
    case x: (CoordSpend sp es bu pi no ex pv)
    show ?thesis
    proof (cases y)
      case y: (CoordSpend sp' es' bu' pi' no' ex' pv')
      from prefix_code.reads_back [OF spend_tuple_code, of "(sp, es, bu, pi, no, ex, pv)" "(sp', es', bu', pi', no', ex', pv')" r s]
        ok eq show ?thesis by (simp add: x y request_ok_def)
    next
      case CoordRefresh
      with eq x show ?thesis by (simp add: SPEND_TAG_def REFRESH_TAG_def)
    qed
  next
    case x: (CoordRefresh re no ex pv)
    show ?thesis
    proof (cases y)
      case y: (CoordRefresh re' no' ex' pv')
      from prefix_code.reads_back [OF refresh_tuple_code, of "(re, no, ex, pv)" "(re', no', ex', pv')" r s]
        ok eq show ?thesis by (simp add: x y request_ok_def)
    next
      case CoordSpend
      with eq x show ?thesis by (simp add: SPEND_TAG_def REFRESH_TAG_def)
    qed
  qed
qed

subsection \<open>Properties\<close>

definition demo_commitment :: "32 word \<Rightarrow> commitment" where
  "demo_commitment sq = \<lparr>cm_wallet_id = replicate 32 1, cm_version = 2, cm_lock_time = 0,
     cm_inputs = [\<lparr>ci_txid = replicate 32 7, ci_vout = 0, ci_sequence = sq\<rparr>],
     cm_outputs = [\<lparr>co_script_pubkey = [1, 2], co_amount = 5\<rparr>], cm_fee = 3, cm_expiry = 9,
     cm_policy_version = 1\<rparr>"

definition demo_spend_request :: "string list \<Rightarrow> coord_request" where
  "demo_spend_request bumps = CoordSpend ''s'' ''e'' bumps ''p'' ''n'' 9 1"

text \<open>The commitment bytes determine the transaction, and can be read back off any byte string.
  Two well-formed commitments whose canonical bytes agree up to whatever follows are equal: a
  different version, locktime, sequence, outpoint, script, amount, fee, expiry or policy version
  is a different SHA-256 input, and no commitment is a prefix of another.\<close>

theorem commitment_bytes_bind:
  assumes "commitment_ok c" and "commitment_ok d" and "commitment_bytes c @ r = commitment_bytes d @ s"
  shows "c = d \<and> r = s"
  using commitment.reads_back [OF assms] .

theorem commitment_bytes_bind_witness:
  "commitment_bytes (demo_commitment 0) \<noteq> commitment_bytes (demo_commitment 1)"
proof -
  have "commitment_ok (demo_commitment 0)" "commitment_ok (demo_commitment 1)"
    by (simp_all add: commitment_ok_def demo_commitment_def)
  from commitment_bytes_bind [OF this, of "[]" "[]"] show ?thesis by (auto simp: demo_commitment_def)
qed

text \<open>C38: the coordinator signature binds the whole request and the vault. If two well-formed requests have the same
  coordinator digest, each under its own 32-byte wallet id, and SHA-256 does not collide on the two strings that
  the digests hash, then the requests and the wallets are the same: a signature for one vault, PIN,
  nonce, expiry, PSBT or bump ladder covers no other, a spend is never a refresh, and no rung can be dropped, merged
  or split.\<close>

theorem auth_digest_binds:
  fixes sha256 :: "bytes \<Rightarrow> digest" and p q :: coord_request and w v :: bytes
  defines "hashed \<equiv> \<lambda>r wallet. sha256 (str_bytes COORD_REQUEST_TAG) @ sha256 (str_bytes COORD_REQUEST_TAG) @ wallet @ coord_request_bytes r"
  assumes "request_ok p" and "request_ok q" and "length w = 32" and "length v = 32"
    and "sha256 (hashed p w) = sha256 (hashed q v) \<longrightarrow> hashed p w = hashed q v"
    and "auth_digest sha256 p w = auth_digest sha256 q v"
  shows "p = q \<and> w = v"
proof -
  from assms(7) have "sha256 (hashed p w) = sha256 (hashed q v)" by (simp add: auth_digest_def tagged_hash_def hashed_def Let_def)
  with assms(6) have "hashed p w = hashed q v" by blast
  with assms(2-5) coord_request.enc_inj [of p q] show ?thesis by (simp add: hashed_def)
qed

theorem auth_digest_binds_witness:
  "auth_digest (\<lambda>x. x) (demo_spend_request [''a'', ''b'']) (replicate 32 1) \<noteq> auth_digest (\<lambda>x. x) (demo_spend_request [''ab'']) (replicate 32 1)"
  using auth_digest_binds [of "demo_spend_request [''a'', ''b'']" "demo_spend_request [''ab'']"
        "replicate 32 1" "replicate 32 1" "\<lambda>x. x"]
  by (auto simp: request_ok_def demo_spend_request_def)

end
