(* ===== verification/Manifest.thy ===== *)
theory Manifest
  imports Policy_Core Hot_Budget Ingress_Guard Wire_Proto "HOL-Library.List_Lexorder" "HOL-Library.Char_ord"
begin

text \<open>
  The sealed-manifest, endorsement and envelope preimages of the channel,
  \<open>crates/vault-node/src/channel.rs\<close>: the canonical encoder \<open>Enc\<close> (whose methods are
  the encoders of the wire theory), the network byte, the endorsement-free base manifest, the
  endorsement domain and the signed envelope. A compressed public key is its 33 bytes. The
  allowlist is hashed as a sorted, deduplicated list, as in the code.
\<close>

definition PROTOCOL_VERSION :: "32 word" where "PROTOCOL_VERSION = 2"
definition MANIFEST_TAG :: string where "MANIFEST_TAG = ''btc-policy/manifest/v0''"
definition ENDORSEMENT_TAG :: string where "ENDORSEMENT_TAG = ''btc-policy/channel-endorsement/v0''"
definition ENVELOPE_TAG :: string where "ENVELOPE_TAG = ''btc-policy/channel-envelope/v0''"

datatype manifest_error = UnsupportedNetwork network

fun network_code :: "network \<Rightarrow> manifest_error + byte" where
  "network_code Bitcoin = Ok 1"
| "network_code Signet = Ok 2"
| "network_code Regtest = Ok 3"
| "network_code other = Err (UnsupportedNetwork other)"

record manifest_node =
  mn_node_id :: node_id
  mn_signing_pubkey :: pubkey
  mn_channel_pubkey :: pubkey
  mn_endpoints :: "string list"

text \<open>The sealed fields, in the order of the preimage.\<close>

record base_manifest =
  bm_wallet_id :: bytes
  bm_protocol_version :: "32 word"
  bm_coordinator_auth :: pubkey
  bm_max_msg_bytes :: "64 word"
  bm_hot_max_per_tx :: "64 word"
  bm_hot_max_per_window :: "64 word"
  bm_hot_window_secs :: "64 word"
  bm_hot_allowlist :: "string list"
  bm_escape_descriptor :: string
  bm_max_derivation_index :: "32 word"
  bm_escape_feerate_floor :: "64 word"
  bm_escape_coverage_pct :: byte
  bm_escape_bump_max_fee_pct :: byte
  bm_network :: network
  bm_nodes :: "manifest_node list"

definition endpoints_bytes :: "string list \<Rightarrow> bytes" where
  "endpoints_bytes eps = u32_le (len_u32 eps) @ concat (map (\<lambda>ep. push_var (str_bytes ep)) eps)"

definition canonical_hot :: "string list \<Rightarrow> string list" where
  "canonical_hot allow = remdups_adj (sort allow)"

definition node_bytes :: "manifest_node \<Rightarrow> bytes" where
  "node_bytes n = u16_le (mn_node_id n) @ mn_signing_pubkey n @ mn_channel_pubkey n @ endpoints_bytes (mn_endpoints n)"

definition base_manifest_bytes :: "base_manifest \<Rightarrow> manifest_error + bytes" where
  "base_manifest_bytes b =
     bind_res (network_code (bm_network b)) (\<lambda>net.
       Ok (bm_wallet_id b @ u32_le (bm_protocol_version b) @ bm_coordinator_auth b @
         u64_le (bm_max_msg_bytes b) @ u64_le (bm_hot_max_per_tx b) @ u64_le (bm_hot_max_per_window b) @
         u64_le (bm_hot_window_secs b) @
         u32_le (len_u32 (canonical_hot (bm_hot_allowlist b))) @
         concat (map (\<lambda>d. push_var (str_bytes d)) (canonical_hot (bm_hot_allowlist b))) @
         push_var (str_bytes (bm_escape_descriptor b)) @ u32_le (bm_max_derivation_index b) @
         u64_le (bm_escape_feerate_floor b) @ [bm_escape_coverage_pct b] @ [bm_escape_bump_max_fee_pct b] @
         [net] @ u32_le (len_u32 (bm_nodes b)) @ concat (map node_bytes (bm_nodes b))))"

definition compute_manifest_hash :: "(bytes \<Rightarrow> digest) \<Rightarrow> base_manifest \<Rightarrow> manifest_error + digest" where
  "compute_manifest_hash sha256 b =
     bind_res (base_manifest_bytes b) (\<lambda>bs. Ok (tagged_hash sha256 MANIFEST_TAG bs))"

definition endorsement_bytes :: "bytes \<Rightarrow> digest \<Rightarrow> node_id \<Rightarrow> pubkey \<Rightarrow> 32 word \<Rightarrow> string list \<Rightarrow> bytes" where
  "endorsement_bytes wallet_id manifest_hash nid channel_pubkey pv eps =
     wallet_id @ manifest_hash @ u16_le nid @ channel_pubkey @ u32_le pv @ endpoints_bytes eps"

definition endorsement_digest ::
  "(bytes \<Rightarrow> digest) \<Rightarrow> bytes \<Rightarrow> digest \<Rightarrow> node_id \<Rightarrow> pubkey \<Rightarrow> 32 word \<Rightarrow> string list \<Rightarrow> digest" where
  "endorsement_digest sha256 wallet_id manifest_hash nid channel_pubkey pv eps =
     tagged_hash sha256 ENDORSEMENT_TAG (endorsement_bytes wallet_id manifest_hash nid channel_pubkey pv eps)"

record envelope_fields =
  ef_msg_type :: string
  ef_protocol_version :: "32 word"
  ef_wallet_id :: bytes
  ef_manifest_hash :: digest
  ef_sender :: node_id
  ef_recipient :: node_id
  ef_payload_b64 :: bytes
  ef_nonce :: bytes
  ef_timestamp :: "64 word"

definition envelope_preimage :: "envelope_fields \<Rightarrow> bytes" where
  "envelope_preimage e =
     push_var (str_bytes (ef_msg_type e)) @ u32_le (ef_protocol_version e) @ ef_wallet_id e @
     ef_manifest_hash e @ u16_le (ef_sender e) @ u16_le (ef_recipient e) @ push_var (ef_payload_b64 e) @
     push_var (ef_nonce e) @ u64_le (ef_timestamp e)"

subsection \<open>Reading back\<close>

lemma network_code_inj: "network_code a = Ok x \<Longrightarrow> network_code b = Ok x \<Longrightarrow> a = b"
  by (cases a; cases b) auto

lemma canonical_hot_set: "set (canonical_hot xs) = set xs"
  by (simp add: canonical_hot_def)

lemma canonical_hot_length: "length (canonical_hot xs) \<le> length xs"
  using remdups_adj_length [of "sort xs"] by (simp add: canonical_hot_def)

lemma sorted_distinct_canonical_hot: "sorted (canonical_hot xs) \<and> distinct (canonical_hot xs)"
proof -
  have "sorted ys \<Longrightarrow> distinct (remdups_adj ys)" for ys :: "string list"
    by (induction ys rule: remdups_adj.induct) (auto simp: order.strict_iff_order)
  then show ?thesis by (simp add: canonical_hot_def sorted_remdups_adj)
qed

text \<open>The canonical allowlist is a function of the set of wallets alone.\<close>

lemma canonical_hot_eq_iff: "canonical_hot xs = canonical_hot ys \<longleftrightarrow> set xs = set ys"
  using sorted_distinct_canonical_hot [of xs] sorted_distinct_canonical_hot [of ys]
  by (metis canonical_hot_set sorted_distinct_set_unique)

definition node_ok :: "manifest_node \<Rightarrow> bool" where
  "node_ok n \<longleftrightarrow> length (mn_signing_pubkey n) = 33 \<and> length (mn_channel_pubkey n) = 33 \<and>
     length (mn_endpoints n) < 2 ^ 32 \<and> (\<forall>t \<in> set (mn_endpoints n). length t < 2 ^ 32)"

lemma manifest_node_eq_iff:
  "(x :: manifest_node) = y \<longleftrightarrow> mn_node_id x = mn_node_id y \<and> mn_signing_pubkey x = mn_signing_pubkey y \<and>
     mn_channel_pubkey x = mn_channel_pubkey y \<and> mn_endpoints x = mn_endpoints y"
  by (cases x; cases y) auto

interpretation node: prefix_code node_ok node_bytes
proof -
  note tuple = prefix_code_pair [OF le16.prefix_code_axioms
      prefix_code_pair [OF fixed_bytes.prefix_code_axioms [of 33]
      prefix_code_pair [OF fixed_bytes.prefix_code_axioms [of 33] var_strs.prefix_code_axioms]]]
  have "prefix_code node_ok (\<lambda>n. node_bytes n)"
    using prefix_code_comap [OF tuple, of node_ok "\<lambda>n. (mn_node_id n, mn_signing_pubkey n, mn_channel_pubkey n, mn_endpoints n)"]
    by (simp add: manifest_node_eq_iff node_ok_def node_bytes_def [abs_def] endpoints_bytes_def)
  then show "prefix_code node_ok node_bytes" .
qed

definition envelope_ok :: "envelope_fields \<Rightarrow> bool" where
  "envelope_ok e \<longleftrightarrow> length (ef_msg_type e) < 2 ^ 32 \<and> length (ef_wallet_id e) = 32 \<and>
     length (ef_manifest_hash e) = 32 \<and> length (ef_payload_b64 e) < 2 ^ 32 \<and> length (ef_nonce e) < 2 ^ 32"

lemma envelope_fields_eq_iff:
  "(x :: envelope_fields) = y \<longleftrightarrow> ef_msg_type x = ef_msg_type y \<and> ef_protocol_version x = ef_protocol_version y \<and>
     ef_wallet_id x = ef_wallet_id y \<and> ef_manifest_hash x = ef_manifest_hash y \<and> ef_sender x = ef_sender y \<and>
     ef_recipient x = ef_recipient y \<and> ef_payload_b64 x = ef_payload_b64 y \<and> ef_nonce x = ef_nonce y \<and>
     ef_timestamp x = ef_timestamp y"
  by (cases x; cases y) auto

interpretation envelope: prefix_code envelope_ok envelope_preimage
proof -
  note tuple = prefix_code_pair [OF var_str.prefix_code_axioms
      prefix_code_pair [OF le32.prefix_code_axioms
      prefix_code_pair [OF fixed_bytes.prefix_code_axioms [of 32]
      prefix_code_pair [OF fixed_bytes.prefix_code_axioms [of 32]
      prefix_code_pair [OF le16.prefix_code_axioms
      prefix_code_pair [OF le16.prefix_code_axioms
      prefix_code_pair [OF var.prefix_code_axioms
      prefix_code_pair [OF var.prefix_code_axioms le64.prefix_code_axioms]]]]]]]]
  have "prefix_code envelope_ok (\<lambda>e. envelope_preimage e)"
    using prefix_code_comap [OF tuple, of envelope_ok "\<lambda>e. (ef_msg_type e, ef_protocol_version e, ef_wallet_id e,
      ef_manifest_hash e, ef_sender e, ef_recipient e, ef_payload_b64 e, ef_nonce e, ef_timestamp e)"]
    by (simp add: envelope_fields_eq_iff envelope_ok_def envelope_preimage_def [abs_def])
  then show "prefix_code envelope_ok envelope_preimage" .
qed

definition manifest_ok :: "base_manifest \<Rightarrow> bool" where
  "manifest_ok b \<longleftrightarrow> length (bm_wallet_id b) = 32 \<and> length (bm_coordinator_auth b) = 33 \<and>
     length (bm_hot_allowlist b) < 2 ^ 32 \<and> (\<forall>d \<in> set (bm_hot_allowlist b). length d < 2 ^ 32) \<and>
     length (bm_escape_descriptor b) < 2 ^ 32 \<and> length (bm_nodes b) < 2 ^ 32 \<and> (\<forall>n \<in> set (bm_nodes b). node_ok n)"

text \<open>What a manifest means: everything but the order and repetition of the allowlist.\<close>

definition manifest_equiv :: "base_manifest \<Rightarrow> base_manifest \<Rightarrow> bool" where
  "manifest_equiv x y \<longleftrightarrow> set (bm_hot_allowlist x) = set (bm_hot_allowlist y) \<and>
     x\<lparr>bm_hot_allowlist := []\<rparr> = y\<lparr>bm_hot_allowlist := []\<rparr>"

lemma manifest_tuple_code:
  "prefix_code (\<lambda>(w, pv :: 32 word, ca, mm :: 64 word, tx :: 64 word, win :: 64 word, ws :: 64 word, hot, esc,
        mdi :: 32 word, ff :: 64 word, cov :: byte, bump :: byte, net :: byte, nodes).
       length w = 32 \<and> length ca = 33 \<and> (length hot < 2 ^ 32 \<and> (\<forall>d \<in> set hot. length d < 2 ^ 32)) \<and>
       length esc < 2 ^ 32 \<and> length nodes < 2 ^ 32 \<and> (\<forall>n \<in> set nodes. node_ok n))
     (\<lambda>(w, pv, ca, mm, tx, win, ws, hot, esc, mdi, ff, cov, bump, net, nodes).
       w @ u32_le pv @ ca @ u64_le mm @ u64_le tx @ u64_le win @ u64_le ws @
       u32_le (len_u32 hot) @ concat (map (\<lambda>d. push_var (str_bytes d)) hot) @
       push_var (str_bytes esc) @ u32_le mdi @ u64_le ff @ [cov] @ [bump] @ [net] @
       u32_le (len_u32 nodes) @ concat (map node_bytes nodes))"
  using prefix_code_pair [OF fixed_bytes.prefix_code_axioms [of 32]
      prefix_code_pair [OF le32.prefix_code_axioms
      prefix_code_pair [OF fixed_bytes.prefix_code_axioms [of 33]
      prefix_code_pair [OF le64.prefix_code_axioms
      prefix_code_pair [OF le64.prefix_code_axioms
      prefix_code_pair [OF le64.prefix_code_axioms
      prefix_code_pair [OF le64.prefix_code_axioms
      prefix_code_pair [OF var_strs.prefix_code_axioms
      prefix_code_pair [OF var_str.prefix_code_axioms
      prefix_code_pair [OF le32.prefix_code_axioms
      prefix_code_pair [OF le64.prefix_code_axioms
      prefix_code_pair [OF prefix_code_byte
      prefix_code_pair [OF prefix_code_byte
      prefix_code_pair [OF prefix_code_byte
        prefix_code_counted [OF le32.prefix_code_axioms node.prefix_code_axioms]]]]]]]]]]]]]]]
  by (simp add: case_prod_unfold)

subsection \<open>Properties\<close>

definition demo_manifest :: "string list \<Rightarrow> base_manifest" where
  "demo_manifest allow = \<lparr>bm_wallet_id = replicate 32 1, bm_protocol_version = 2,
     bm_coordinator_auth = replicate 33 2, bm_max_msg_bytes = 9, bm_hot_max_per_tx = 8,
     bm_hot_max_per_window = 7, bm_hot_window_secs = 6, bm_hot_allowlist = allow, bm_escape_descriptor = ''e'',
     bm_max_derivation_index = 5, bm_escape_feerate_floor = 4, bm_escape_coverage_pct = 3,
     bm_escape_bump_max_fee_pct = 2, bm_network = Signet, bm_nodes = []\<rparr>"

text \<open>The sealed manifest preimage is faithful. On well-formed manifests of supported networks,
  two preimages are equal exactly when the manifests agree on every field and on the set of
  allowlisted wallets: listing the same hot wallets in another order or twice seals the same
  vault, and a difference in anything else (a budget, the floor, a percentage, the network, a
  node key or endpoint) changes the hashed bytes; an unsupported network has no preimage.\<close>

theorem manifest_preimage_faithful:
  assumes "manifest_ok x" and "manifest_ok y"
    and "bm_network x \<in> {Bitcoin, Signet, Regtest}" and "bm_network y \<in> {Bitcoin, Signet, Regtest}"
  shows "(base_manifest_bytes x = base_manifest_bytes y \<longleftrightarrow> manifest_equiv x y) \<and>
     (\<forall>n. base_manifest_bytes (x\<lparr>bm_network := n\<rparr>) = Err (UnsupportedNetwork n) \<longleftrightarrow> n = Testnet \<or> n = Testnet4)"
proof -
  obtain nx ny where nx: "network_code (bm_network x) = Ok nx" and ny: "network_code (bm_network y) = Ok ny"
    using assms(3,4) by auto
  have hot_ok: "length (canonical_hot (bm_hot_allowlist b)) < 2 ^ 32 \<and> (\<forall>d \<in> set (canonical_hot (bm_hot_allowlist b)). length d < 2 ^ 32)"
    if "manifest_ok b" for b :: base_manifest
    using that canonical_hot_length [of "bm_hot_allowlist b"] by (auto simp: manifest_ok_def canonical_hot_set)
  let ?t = "\<lambda>(b :: base_manifest) net. (bm_wallet_id b, bm_protocol_version b, bm_coordinator_auth b, bm_max_msg_bytes b,
     bm_hot_max_per_tx b, bm_hot_max_per_window b, bm_hot_window_secs b, canonical_hot (bm_hot_allowlist b),
     bm_escape_descriptor b, bm_max_derivation_index b, bm_escape_feerate_floor b, bm_escape_coverage_pct b,
     bm_escape_bump_max_fee_pct b, net, bm_nodes b)"
  have "base_manifest_bytes x = base_manifest_bytes y \<longleftrightarrow> ?t x nx = ?t y ny"
  proof
    assume "base_manifest_bytes x = base_manifest_bytes y"
    then show "?t x nx = ?t y ny"
      using prefix_code.enc_inj [OF manifest_tuple_code, of "?t x nx" "?t y ny"] hot_ok [OF assms(1)] hot_ok [OF assms(2)]
        assms(1,2) by (simp add: base_manifest_bytes_def nx ny manifest_ok_def)
  qed (simp add: base_manifest_bytes_def nx ny)
  also have "\<dots> \<longleftrightarrow> manifest_equiv x y"
    using nx ny network_code_inj [of "bm_network x" nx "bm_network y"]
    by (cases x; cases y) (auto simp: manifest_equiv_def canonical_hot_eq_iff)
  finally have "base_manifest_bytes x = base_manifest_bytes y \<longleftrightarrow> manifest_equiv x y" .
  moreover have "base_manifest_bytes (x\<lparr>bm_network := n\<rparr>) = Err (UnsupportedNetwork n) \<longleftrightarrow> n = Testnet \<or> n = Testnet4" for n
    by (cases n) (simp_all add: base_manifest_bytes_def)
  ultimately show ?thesis by blast
qed

theorem manifest_preimage_faithful_witness:
  "base_manifest_bytes (demo_manifest [''b'', ''a'', ''b'']) = base_manifest_bytes (demo_manifest [''a'', ''b''])"
  using manifest_preimage_faithful [of "demo_manifest [''b'', ''a'', ''b'']" "demo_manifest [''a'', ''b'']"]
  by (auto simp: manifest_ok_def demo_manifest_def manifest_equiv_def)

text \<open>The envelope signature binds every field. Two well-formed envelopes with the same signing
  preimage have the same type, version, wallet, manifest, sender, recipient, payload, nonce and
  timestamp, so an authenticated envelope cannot be re-addressed, re-timed or re-labelled.\<close>

theorem envelope_preimage_binds:
  assumes "envelope_ok a" and "envelope_ok b" and "envelope_preimage a = envelope_preimage b"
  shows "a = b"
  using envelope.enc_inj [OF assms] .

definition demo_envelope_fields :: "node_id \<Rightarrow> envelope_fields" where
  "demo_envelope_fields to = \<lparr>ef_msg_type = ''partial'', ef_protocol_version = 2, ef_wallet_id = replicate 32 1,
     ef_manifest_hash = replicate 32 2, ef_sender = 0, ef_recipient = to, ef_payload_b64 = [65], ef_nonce = replicate 16 3,
     ef_timestamp = 1000\<rparr>"

theorem envelope_preimage_binds_witness:
  "envelope_preimage (demo_envelope_fields 1) \<noteq> envelope_preimage (demo_envelope_fields 2)"
proof -
  have "envelope_ok (demo_envelope_fields 1)" "envelope_ok (demo_envelope_fields 2)"
    by (simp_all add: envelope_ok_def demo_envelope_fields_def)
  from envelope_preimage_binds [OF this] show ?thesis by (auto simp: demo_envelope_fields_def)
qed

end
