(* ===== verification/Candidate.thy ===== *)
theory Candidate
  imports Manifest
begin

text \<open>
  One registered candidate of the channel, \<open>crates/vault-node/src/channel.rs\<close>: a signing
  variant (this node's canonical PSBT of one transaction, its recomputed sighashes and the
  verified partials), the candidate with its fee-bump ladder, release state and byte accounting,
  and how both are built from a request. Transaction ids, sighashes, DER parsing, signature
  verification and PSBT serialization belong to rust-bitcoin and are an argument
  (\<open>sig_api\<close>). \<open>usize\<close> is 64 bits wide.
\<close>

record sig_api =
  sa_txid :: "transaction \<Rightarrow> txid"
  sa_sighash :: "transaction \<Rightarrow> nat \<Rightarrow> script \<Rightarrow> u64 \<Rightarrow> digest option"
  sa_serialize_der :: "bytes \<Rightarrow> bytes"
  sa_from_der :: "bytes \<Rightarrow> bytes option"
  sa_verify :: "digest \<Rightarrow> bytes \<Rightarrow> pubkey \<Rightarrow> bool"
  sa_psbt_len :: "psbt \<Rightarrow> nat"
  sa_sha256 :: "bytes \<Rightarrow> digest"

definition MAX_ECDSA_DER_BYTES :: nat where "MAX_ECDSA_DER_BYTES = 72"
definition PSBT_PARTIAL_SIG_FIXED_BYTES :: nat where "PSBT_PARTIAL_SIG_FIXED_BYTES = 37"
definition USER_SIG_HASH_TAG :: string where "USER_SIG_HASH_TAG = ''btc-policy/user-sig-hash/v0''"

datatype candidate_role = RoleSpend | RoleEscape

record fire_window =
  fire_at :: u64
  fw_deadline :: u64

definition is_open :: "fire_window \<Rightarrow> u64 \<Rightarrow> bool" where
  "is_open w now = (now \<ge> fire_at w \<and> now \<le> fw_deadline w)"

subsection \<open>Signing variants\<close>

record signing_variant =
  unsigned_txid :: txid
  sv_psbt :: psbt
  sighashes :: "digest list"
  user_sig_hash :: digest
  partials :: "(32 word \<times> node_id, bytes) hmap"

record candidate_keys =
  ck_witness_script :: script
  ck_user_pubkey :: pubkey
  ck_self_signing_pubkey :: pubkey

datatype candidate_error = NoWitnessUtxo nat | SighashFailed nat | NoUserSignature nat

definition canonical_input :: "candidate_keys \<Rightarrow> psbt_input \<Rightarrow> psbt_input" where
  "canonical_input keys inp = inp\<lparr>
     witness_script := Some (ck_witness_script keys), redeem_script := None,
     psbt_sighash_type := Some SIGHASH_ALL, final_script_sig := None, final_script_witness := None,
     partial_sigs := hm_retain (\<lambda>pk _. pk = ck_user_pubkey keys \<or> pk = ck_self_signing_pubkey keys) (partial_sigs inp)\<rparr>"

text \<open>The loop over the inputs: the sighashes and the bytes hashed into the user-signature digest.\<close>

fun hash_inputs ::
  "sig_api \<Rightarrow> candidate_keys \<Rightarrow> transaction \<Rightarrow> nat \<Rightarrow> psbt_input list \<Rightarrow> candidate_error + digest list \<times> bytes" where
  "hash_inputs api keys tx i [] = Ok ([], [])"
| "hash_inputs api keys tx i (inp # inps) =
     (case witness_utxo inp of
        None \<Rightarrow> Err (NoWitnessUtxo i)
      | Some utxo \<Rightarrow>
          (case sa_sighash api tx i (ck_witness_script keys) (txo_value utxo) of
             None \<Rightarrow> Err (SighashFailed i)
           | Some sh \<Rightarrow>
               (case hm_get (partial_sigs inp) (ck_user_pubkey keys) of
                  None \<Rightarrow> Err (NoUserSignature i)
                | Some sig \<Rightarrow>
                    bind_res (hash_inputs api keys tx (i + 1) inps) (\<lambda>(shs, usig).
                      Ok (sh # shs, push_var (sa_serialize_der api (signature sig)) @
                        [ucast (sig_sighash_type sig)] @ usig)))))"

definition variant_build :: "sig_api \<Rightarrow> psbt \<Rightarrow> candidate_keys \<Rightarrow> candidate_error + signing_variant" where
  "variant_build api p keys =
     (let p' = p\<lparr>psbt_inputs := map (canonical_input keys) (psbt_inputs p)\<rparr>
      in bind_res (hash_inputs api keys (unsigned_tx p') 0 (psbt_inputs p')) (\<lambda>(shs, usig).
           Ok \<lparr>unsigned_txid = sa_txid api (unsigned_tx p'), sv_psbt = p', sighashes = shs,
               user_sig_hash = tagged_hash (sa_sha256 api) USER_SIG_HASH_TAG usig, partials = []\<rparr>))"

definition variant_bytes :: "sig_api \<Rightarrow> signing_variant \<Rightarrow> nat" where
  "variant_bytes api v = sa_psbt_len api (sv_psbt v) + length (sighashes v) * 32 + 32"

definition signature_count :: "signing_variant \<Rightarrow> nat \<Rightarrow> manifest_node list \<Rightarrow> nat" where
  "signature_count v input nodes =
     (if input < length (psbt_inputs (sv_psbt v))
      then length (filter (\<lambda>n. hm_contains (partial_sigs (psbt_inputs (sv_psbt v) ! input)) (mn_signing_pubkey n)) nodes)
      else 0)"

definition has_quorum :: "signing_variant \<Rightarrow> nat \<Rightarrow> manifest_node list \<Rightarrow> bool" where
  "has_quorum v threshold nodes =
     (psbt_inputs (sv_psbt v) \<noteq> [] \<and>
      list_all (\<lambda>i. signature_count v i nodes \<ge> threshold) [0..<length (psbt_inputs (sv_psbt v))])"

subsection \<open>Candidates\<close>

record candidate =
  c_commitment_id :: string
  role :: candidate_role
  hot :: bool
  paired_commitment_id :: string
  holder_quorum_reached :: bool
  base :: signing_variant
  bumps :: "signing_variant list"
  rung :: nat
  c_release_floor :: nat
  c_expiry :: u64
  fire :: "fire_window option"
  released :: bool
  released_through :: "nat option"
  broadcast :: bool
  c_bytes :: nat
  capacity_bytes :: nat

record candidate_spec =
  cs_psbt :: psbt
  cs_escape_bumps :: "psbt list"
  cs_commitment_id :: string
  cs_paired_commitment_id :: string
  cs_holder_quorum_reached :: bool
  cs_role :: candidate_role
  cs_hot :: bool
  cs_fire :: "fire_window option"
  cs_expiry :: u64

fun build_variants :: "sig_api \<Rightarrow> candidate_keys \<Rightarrow> psbt list \<Rightarrow> candidate_error + signing_variant list" where
  "build_variants api keys [] = Ok []"
| "build_variants api keys (p # ps) =
     bind_res (variant_build api p keys) (\<lambda>v. bind_res (build_variants api keys ps) (\<lambda>vs. Ok (v # vs)))"

definition candidate_build :: "sig_api \<Rightarrow> candidate_spec \<Rightarrow> candidate_keys \<Rightarrow> candidate_error + candidate" where
  "candidate_build api spec keys =
     bind_res (variant_build api (cs_psbt spec) keys) (\<lambda>b.
     bind_res (build_variants api keys (cs_escape_bumps spec)) (\<lambda>bs.
       let total = foldl (\<lambda>acc v. sat_add64 acc (variant_bytes api v)) 0 (b # bs)
       in Ok \<lparr>c_commitment_id = cs_commitment_id spec, role = cs_role spec, hot = cs_hot spec,
              paired_commitment_id = cs_paired_commitment_id spec,
              holder_quorum_reached = cs_holder_quorum_reached spec, base = b, bumps = bs, rung = 0,
              c_release_floor = 0, c_expiry = cs_expiry spec, fire = cs_fire spec, released = False,
              released_through = None, broadcast = False, c_bytes = total, capacity_bytes = total\<rparr>))"

definition variants :: "candidate \<Rightarrow> signing_variant list" where
  "variants c = base c # bumps c"

definition variant :: "candidate \<Rightarrow> nat \<Rightarrow> signing_variant option" where
  "variant c r = (case r of 0 \<Rightarrow> Some (base c)
     | Suc k \<Rightarrow> if k < length (bumps c) then Some (bumps c ! k) else None)"

text \<open>An update through \<open>variant_mut\<close>: nothing happens past the ladder.\<close>

definition modify_variant :: "candidate \<Rightarrow> nat \<Rightarrow> (signing_variant \<Rightarrow> signing_variant) \<Rightarrow> candidate" where
  "modify_variant c r f = (case r of 0 \<Rightarrow> c\<lparr>base := f (base c)\<rparr>
     | Suc k \<Rightarrow> if k < length (bumps c) then c\<lparr>bumps := (bumps c)[k := f (bumps c ! k)]\<rparr> else c)"

fun position :: "('x \<Rightarrow> bool) \<Rightarrow> 'x list \<Rightarrow> nat option" where
  "position P [] = None"
| "position P (x # xs) = (if P x then Some 0 else map_option Suc (position P xs))"

definition rung_of_txid :: "candidate \<Rightarrow> txid \<Rightarrow> nat option" where
  "rung_of_txid c t = position (\<lambda>v. unsigned_txid v = t) (variants c)"

definition authorized_rung :: "candidate \<Rightarrow> nat" where
  "authorized_rung c = min (rung c) (length (bumps c))"

definition release_floor :: "candidate \<Rightarrow> nat" where
  "release_floor c = min (c_release_floor c) (length (bumps c))"

definition matches_registration :: "candidate \<Rightarrow> candidate \<Rightarrow> bool" where
  "matches_registration c other =
     (role c = role other \<and> paired_commitment_id c = paired_commitment_id other \<and>
      c_expiry c = c_expiry other \<and> length (bumps c) = length (bumps other) \<and>
      list_all (\<lambda>(mine, theirs). unsigned_txid mine = unsigned_txid theirs \<and>
          sighashes mine = sighashes theirs \<and> user_sig_hash mine = user_sig_hash theirs)
        (zip (variants c) (variants other)))"

definition node_growth :: "sig_api \<Rightarrow> node_id \<Rightarrow> psbt_input \<Rightarrow> nat \<Rightarrow> manifest_node \<Rightarrow> nat" where
  "node_growth api self_node_id inp capacity node =
     (let existing = (case hm_get (partial_sigs inp) (mn_signing_pubkey node) of
          None \<Rightarrow> 0
        | Some sig \<Rightarrow> PSBT_PARTIAL_SIG_FIXED_BYTES + length (sa_serialize_der api (signature sig)));
        cap1 = sat_add64 capacity ((PSBT_PARTIAL_SIG_FIXED_BYTES + MAX_ECDSA_DER_BYTES) - existing)
      in if mn_node_id node \<noteq> self_node_id then sat_add64 cap1 MAX_ECDSA_DER_BYTES else cap1)"

definition reserve_partial_capacity :: "sig_api \<Rightarrow> candidate \<Rightarrow> manifest_node list \<Rightarrow> node_id \<Rightarrow> candidate" where
  "reserve_partial_capacity api c nodes self_node_id =
     c\<lparr>capacity_bytes :=
        foldl (\<lambda>cap v. foldl (\<lambda>cap inp. foldl (node_growth api self_node_id inp) cap nodes) cap (psbt_inputs (sv_psbt v)))
          (c_bytes c) (variants c)\<rparr>"

subsection \<open>Laws\<close>

lemma position_Some:
  "position P xs = Some i \<Longrightarrow> i < length xs \<and> P (xs ! i) \<and> (\<forall>j < i. \<not> P (xs ! j))"
proof (induction xs arbitrary: i)
  case Nil
  then show ?case by simp
next
  case (Cons x xs)
  show ?case
  proof (cases "P x")
    case True
    with Cons.prems show ?thesis by simp
  next
    case False
    with Cons.prems obtain j where "position P xs = Some j" "i = Suc j" by auto
    with Cons.IH [of j] False show ?thesis by (auto simp: less_Suc_eq_0_disj)
  qed
qed

lemma variant_iff: "variant c r = Some v \<longleftrightarrow> r < length (variants c) \<and> v = variants c ! r"
  by (auto simp: variant_def variants_def split: nat.splits if_splits)

lemma variant_modify:
  "variant (modify_variant c r f) r' = (if r' = r then map_option f (variant c r) else variant c r')"
  by (auto simp: variant_def modify_variant_def split: nat.splits)

lemma modify_variant_frame [simp]:
  "c_commitment_id (modify_variant c r f) = c_commitment_id c" "role (modify_variant c r f) = role c"
  "hot (modify_variant c r f) = hot c" "paired_commitment_id (modify_variant c r f) = paired_commitment_id c"
  "holder_quorum_reached (modify_variant c r f) = holder_quorum_reached c" "rung (modify_variant c r f) = rung c"
  "c_release_floor (modify_variant c r f) = c_release_floor c" "c_expiry (modify_variant c r f) = c_expiry c"
  "fire (modify_variant c r f) = fire c" "released (modify_variant c r f) = released c"
  "released_through (modify_variant c r f) = released_through c" "broadcast (modify_variant c r f) = broadcast c"
  "length (bumps (modify_variant c r f)) = length (bumps c)" "capacity_bytes (modify_variant c r f) = capacity_bytes c"
  by (simp_all add: modify_variant_def split: nat.splits)

text \<open>What is left of the coordinator's PSBT in a built variant: nothing it planted.\<close>

lemma hm_get_retain_Some: "hm_get (hm_retain (\<lambda>k _. P k) m) k = Some v \<Longrightarrow> P k"
  by (auto simp: hm_get_def hm_retain_def dest: map_of_SomeD)

lemma hm_retain_key_get: "P k \<Longrightarrow> hm_get (hm_retain (\<lambda>k _. P k) m) k = hm_get m k"
  by (induction m) (auto simp: hm_get_def hm_retain_def)

lemma hash_inputs_Ok:
  assumes "hash_inputs api keys tx i inps = Ok (shs, usig)"
  shows "length shs = length inps \<and>
     (\<forall>j < length inps. \<exists>utxo. witness_utxo (inps ! j) = Some utxo \<and>
        sa_sighash api tx (i + j) (ck_witness_script keys) (txo_value utxo) = Some (shs ! j) \<and>
        hm_contains (partial_sigs (inps ! j)) (ck_user_pubkey keys))"
  using assms
proof (induction inps arbitrary: i shs usig)
  case Nil
  then show ?case by simp
next
  case (Cons inp inps)
  then obtain utxo sh sig shs' usig' where
    c: "witness_utxo inp = Some utxo" "sa_sighash api tx i (ck_witness_script keys) (txo_value utxo) = Some sh"
      "hm_get (partial_sigs inp) (ck_user_pubkey keys) = Some sig" "shs = sh # shs'"
      "hash_inputs api keys tx (i + 1) inps = Ok (shs', usig')"
    by (auto simp: bind_res_Ok_iff split: option.splits)
  from Cons.IH [OF c(5)] c show ?case
    by (auto simp: hm_contains_def nth_Cons split: nat.splits)
qed

end
