(* ===== verification/Partial_Store.thy ===== *)
theory Partial_Store
  imports Candidate
begin

text \<open>
  The candidate registry \<open>PartialStore\<close> of \<open>crates/vault-node/src/channel.rs\<close> with
  everything its one lock guards: the candidates, the byte reservation, the arm overlay, the
  carrier intents with their nonce memos and the Hot-budget ledger. One definition per method;
  an update through \<open>get_mut\<close> is \<open>hm_modify\<close>. A \<open>HashSet\<close> of node ids is a list
  without repetition.
\<close>

subsection \<open>Replies\<close>

datatype reject_reason =
    MalformedJson | OversizedBody | BadProtocolVersion | WrongWallet | WrongManifest | WrongRecipient
  | UnknownSender | BadChannelSig | StaleTimestamp | ReplayedNonce | MalformedPayload | UnknownMsgType
  | PayloadWalletMismatch | SignerMismatch | WrongTxid | WrongUserSigHash | WrongInput
  | WrongSighashType | BadPartialSig

datatype channel_reply =
  ReplyAccepted | Rejected reject_reason | UnknownCandidate | ReplyRateLimited u64

fun reject_code :: "reject_reason \<Rightarrow> string" where
  "reject_code MalformedJson = ''MALFORMED_JSON''"
| "reject_code OversizedBody = ''OVERSIZED_BODY''"
| "reject_code BadProtocolVersion = ''BAD_PROTOCOL_VERSION''"
| "reject_code WrongWallet = ''WRONG_WALLET''"
| "reject_code WrongManifest = ''WRONG_MANIFEST''"
| "reject_code WrongRecipient = ''WRONG_RECIPIENT''"
| "reject_code UnknownSender = ''UNKNOWN_SENDER''"
| "reject_code BadChannelSig = ''BAD_CHANNEL_SIG''"
| "reject_code StaleTimestamp = ''STALE_TIMESTAMP''"
| "reject_code ReplayedNonce = ''REPLAYED_NONCE''"
| "reject_code MalformedPayload = ''MALFORMED_PAYLOAD''"
| "reject_code UnknownMsgType = ''UNKNOWN_MSG_TYPE''"
| "reject_code PayloadWalletMismatch = ''PAYLOAD_WALLET_MISMATCH''"
| "reject_code SignerMismatch = ''SIGNER_MISMATCH''"
| "reject_code WrongTxid = ''WRONG_TXID''"
| "reject_code WrongUserSigHash = ''WRONG_USER_SIG_HASH''"
| "reject_code WrongInput = ''WRONG_INPUT''"
| "reject_code WrongSighashType = ''WRONG_SIGHASH_TYPE''"
| "reject_code BadPartialSig = ''BAD_PARTIAL_SIG''"

fun reply_status :: "channel_reply \<Rightarrow> nat" where
  "reply_status ReplyAccepted = 200"
| "reply_status (Rejected r) = 400"
| "reply_status UnknownCandidate = 409"
| "reply_status (ReplyRateLimited s) = 429"

datatype register_outcome = Inserted | AlreadyPresent | Conflict | RegAtCapacity

subsection \<open>The arm overlay, intents and memos\<close>

record armed_overlay =
  active :: bool
  armed_fire_at :: u64
  armed_escape_id :: string
  sweep_active :: bool
  combine_slack_secs :: u64

definition escape_window :: "armed_overlay \<Rightarrow> fire_window" where
  "escape_window a = \<lparr>fire_at = armed_fire_at a, fw_deadline = sat_add64 (armed_fire_at a) (combine_slack_secs a)\<rparr>"

record duress_timing =
  duress_delay_secs :: u64
  epsilon_secs :: u64
  dt_combine_slack_secs :: u64

record arm_intent =
  holders :: "node_id list"
  ready_to_propagate :: bool
  owner_ruling :: bool
  duress :: bool
  first_seen :: u64
  spend_commitment_id :: string
  escape_commitment_id :: string
  ai_expiry :: u64
  ai_deadline :: u64
  committed :: bool

datatype memo_outcome = InFlight bytes | Derived string bytes "(node_id, bytes) hmap"

record carrier_memo =
  cmo_outcome :: memo_outcome
  cmo_expiry :: u64
  cmo_deadline :: u64

record memo_generation =
  gen_signature_tag :: bytes
  gen_expiry :: u64
  gen_deadline :: u64

definition matches_generation :: "carrier_memo \<Rightarrow> memo_generation \<Rightarrow> bool" where
  "matches_generation m g =
     (cmo_expiry m = gen_expiry g \<and> cmo_deadline m = gen_deadline g \<and>
      (case cmo_outcome m of InFlight t \<Rightarrow> t = gen_signature_tag g | Derived _ _ _ \<Rightarrow> False))"

record partial_store =
  candidates :: "(string, candidate) hmap"
  reserved_bytes :: nat
  max_active_candidates :: nat
  max_bytes :: nat
  armed :: armed_overlay
  intents :: "(string, arm_intent) hmap"
  carriers_by_nonce :: "(string, carrier_memo) hmap"
  hot_ledger :: hot_budget_ledger

subsection \<open>Operations\<close>

text \<open>\<open>None\<close> is the panic of an absent or in-flight memo.\<close>

definition resolve_signature :: "partial_store \<Rightarrow> string \<Rightarrow> node_id \<Rightarrow> bytes \<Rightarrow> partial_store option" where
  "resolve_signature st nonce sender tag =
     (case hm_get (carriers_by_nonce st) nonce of
        None \<Rightarrow> None
      | Some memo \<Rightarrow>
          (case cmo_outcome memo of
             InFlight _ \<Rightarrow> None
           | Derived c t rs \<Rightarrow> Some (st\<lparr>carriers_by_nonce := hm_insert nonce
               (memo\<lparr>cmo_outcome := Derived c t (hm_insert sender tag rs)\<rparr>) (carriers_by_nonce st)\<rparr>)))"

definition is_unexposed_hot :: "candidate \<Rightarrow> bool" where
  "is_unexposed_hot c = (hot c \<and> \<not> released c \<and> \<not> broadcast c)"

definition release_if_unexposed :: "hot_budget_ledger \<Rightarrow> candidate \<Rightarrow> hot_budget_ledger" where
  "release_if_unexposed l c = (if is_unexposed_hot c then hot_release l (c_commitment_id c) else l)"

definition spends_any :: "outpoint list \<Rightarrow> candidate \<Rightarrow> bool" where
  "spends_any spent c = list_ex (\<lambda>i. previous_output i \<in> set spent) (tx_input (unsigned_tx (sv_psbt (base c))))"

definition hot_conflicts :: "partial_store \<Rightarrow> string \<Rightarrow> string list" where
  "hot_conflicts st spender_id =
     (let spent_inputs = (case hm_get (candidates st) spender_id of None \<Rightarrow> []
            | Some c \<Rightarrow> map previous_output (tx_input (unsigned_tx (sv_psbt (base c)))))
      in map fst (filter (\<lambda>(k, c). k \<noteq> spender_id \<and> hot c \<and> spends_any spent_inputs c) (candidates st)))"

text \<open>The body of the loop over the invalidated ids: refund first, then mark.\<close>

definition defeat :: "string \<Rightarrow> partial_store \<Rightarrow> partial_store" where
  "defeat k st =
     (case hm_get (candidates st) k of
        None \<Rightarrow> st
      | Some c \<Rightarrow> st\<lparr>hot_ledger := release_if_unexposed (hot_ledger st) c,
          candidates := hm_modify k (\<lambda>c. c\<lparr>broadcast := True\<rparr>) (candidates st)\<rparr>)"

definition invalidate_hot_conflicts :: "partial_store \<Rightarrow> string \<Rightarrow> partial_store \<times> string list" where
  "invalidate_hot_conflicts st spender_id =
     (let invalidated = hot_conflicts st spender_id in (fold defeat invalidated st, invalidated))"

definition owner_still_ruling :: "(string, arm_intent) hmap \<Rightarrow> carrier_memo \<Rightarrow> bool" where
  "owner_still_ruling ints memo =
     (case cmo_outcome memo of
        InFlight _ \<Rightarrow> True
      | Derived carrier _ _ \<Rightarrow> (case hm_get ints carrier of None \<Rightarrow> False | Some i \<Rightarrow> owner_ruling i))"

definition prune_carriers :: "partial_store \<Rightarrow> u64 \<Rightarrow> partial_store" where
  "prune_carriers st mono_now =
     (let ints = hm_retain (\<lambda>_ i. ai_deadline i > mono_now \<or> owner_ruling i) (intents st)
      in st\<lparr>intents := ints,
            carriers_by_nonce := hm_retain (\<lambda>_ memo. cmo_deadline memo > mono_now \<or> owner_still_ruling ints memo)
              (carriers_by_nonce st)\<rparr>)"

definition names_carrier :: "string \<Rightarrow> carrier_memo \<Rightarrow> bool" where
  "names_carrier carrier memo = (case cmo_outcome memo of InFlight _ \<Rightarrow> False | Derived c _ _ \<Rightarrow> c = carrier)"

definition retire_carrier :: "partial_store \<Rightarrow> string \<Rightarrow> partial_store" where
  "retire_carrier st carrier =
     st\<lparr>intents := hm_remove carrier (intents st),
        carriers_by_nonce := hm_retain (\<lambda>_ memo. \<not> names_carrier carrier memo) (carriers_by_nonce st)\<rparr>"

definition slot_active :: "partial_store \<Rightarrow> candidate \<Rightarrow> bool" where
  "slot_active st c =
     (let selected_escape = (active (armed st) \<and> sweep_active (armed st) \<and> armed_escape_id (armed st) = c_commitment_id c)
      in holder_quorum_reached c \<and> (role c \<noteq> RoleEscape \<or> selected_escape))"

definition register :: "partial_store \<Rightarrow> candidate \<Rightarrow> partial_store \<times> register_outcome" where
  "register st c =
     (case hm_get (candidates st) (c_commitment_id c) of
        Some resident \<Rightarrow> (st, if matches_registration resident c then AlreadyPresent else Conflict)
      | None \<Rightarrow>
          if length (candidates st) \<ge> max_active_candidates st \<or>
             sat_add64 (reserved_bytes st) (capacity_bytes c) > max_bytes st
          then (st, RegAtCapacity)
          else (st\<lparr>reserved_bytes := sat_add64 (reserved_bytes st) (capacity_bytes c),
                   candidates := hm_insert (c_commitment_id c) c (candidates st)\<rparr>, Inserted))"

definition open_escape_slot :: "u64 \<Rightarrow> candidate \<Rightarrow> bool" where
  "open_escape_slot now c =
     (role c = RoleEscape \<and> \<not> broadcast c \<and> (case fire c of None \<Rightarrow> False | Some w \<Rightarrow> now \<le> fw_deadline w))"

definition delayed_slot_context_exempt :: "partial_store \<Rightarrow> string \<Rightarrow> u64 \<Rightarrow> bool" where
  "delayed_slot_context_exempt st cid now =
     list_ex (\<lambda>esc. open_escape_slot now esc \<and> (c_commitment_id esc = cid \<or> paired_commitment_id esc = cid))
       (hm_values (candidates st))"

text \<open>The ids the expiry sweep exempts, collected before the retain.\<close>

definition exempt_delayed_context :: "partial_store \<Rightarrow> u64 \<Rightarrow> string list" where
  "exempt_delayed_context st now =
     concat (map (\<lambda>c. if open_escape_slot now c then [c_commitment_id c, paired_commitment_id c] else [])
       (hm_values (candidates st)))"

definition fire_complete_ids :: "partial_store \<Rightarrow> u64 \<Rightarrow> string list" where
  "fire_complete_ids st now =
     (let a = armed st;
          selected_pair = map_option paired_commitment_id (hm_get (candidates st) (armed_escape_id a));
          fire_complete = (active a \<and> sweep_active a \<and> now > fw_deadline (escape_window a))
      in if fire_complete then armed_escape_id a # (case selected_pair of None \<Rightarrow> [] | Some p \<Rightarrow> [p]) else [])"

definition prune_keeps :: "partial_store \<Rightarrow> u64 \<Rightarrow> string \<Rightarrow> candidate \<Rightarrow> bool" where
  "prune_keeps st now k c =
     (k \<notin> set (fire_complete_ids st now) \<and> (c_expiry c \<ge> now \<or> k \<in> set (exempt_delayed_context st now)))"

definition prune :: "partial_store \<Rightarrow> u64 \<Rightarrow> partial_store" where
  "prune st now =
     (let keep = prune_keeps st now;
          gone = filter (\<lambda>(k, c). \<not> keep k c) (candidates st);
          removed = foldl (\<lambda>acc (k, c). sat_add64 acc (capacity_bytes c)) 0 gone;
          freed = map fst (filter (\<lambda>(k, c). is_unexposed_hot c) gone)
      in st\<lparr>candidates := hm_retain keep (candidates st),
            reserved_bytes := reserved_bytes st - removed,
            hot_ledger := fold (\<lambda>k l. hot_release l k) freed (hot_ledger st)\<rparr>)"

record parsed_partial =
  pp_commitment_id :: string
  pp_txid :: txid
  pp_user_sig_hash :: digest
  pp_input :: "32 word"
  pp_signer :: node_id
  pp_der :: bytes

text \<open>The eviction of an expired candidate that a partial looked up.\<close>

definition evict :: "partial_store \<Rightarrow> string \<Rightarrow> partial_store" where
  "evict st cid =
     (case hm_get (candidates st) cid of
        None \<Rightarrow> st
      | Some c \<Rightarrow> st\<lparr>candidates := hm_remove cid (candidates st),
          hot_ledger := release_if_unexposed (hot_ledger st) c,
          reserved_bytes := reserved_bytes st - capacity_bytes c\<rparr>)"

text \<open>The import of a verified signature into one variant.\<close>

definition import_partial ::
  "sig_api \<Rightarrow> nat \<Rightarrow> 32 word \<times> node_id \<Rightarrow> pubkey \<Rightarrow> bytes \<Rightarrow> signing_variant \<Rightarrow> signing_variant" where
  "import_partial api input key expected sig v =
     v\<lparr>sv_psbt := (sv_psbt v)\<lparr>psbt_inputs := (psbt_inputs (sv_psbt v))
          [input := (psbt_inputs (sv_psbt v) ! input)\<lparr>partial_sigs :=
             hm_insert expected \<lparr>signature = sig, sig_sighash_type = SIGHASH_ALL\<rparr>
               (partial_sigs (psbt_inputs (sv_psbt v) ! input))\<rparr>]\<rparr>,
       partials := hm_insert key (sa_serialize_der api sig) (partials v)\<rparr>"

definition accept_partial ::
  "sig_api \<Rightarrow> partial_store \<Rightarrow> parsed_partial \<Rightarrow> manifest_node list \<Rightarrow> u64 \<Rightarrow> partial_store \<times> channel_reply" where
  "accept_partial api st p nodes now =
     (case hm_get (candidates st) (pp_commitment_id p) of
        None \<Rightarrow> (st, UnknownCandidate)
      | Some c \<Rightarrow>
          if c_expiry c < now \<and> \<not> delayed_slot_context_exempt st (pp_commitment_id p) now
          then (evict st (pp_commitment_id p), UnknownCandidate)
          else (case rung_of_txid c (pp_txid p) of
              None \<Rightarrow> (st, Rejected WrongTxid)
            | Some r \<Rightarrow>
                (case variant c r of
                   None \<Rightarrow> (st, Rejected WrongTxid)
                 | Some v \<Rightarrow>
                     if pp_user_sig_hash p \<noteq> user_sig_hash v then (st, Rejected WrongUserSigHash)
                     else let input = unat (pp_input p) in
                       if input \<ge> length (sighashes v) \<or> input \<ge> length (psbt_inputs (sv_psbt v))
                       then (st, Rejected WrongInput)
                       else if unat (pp_signer p) \<ge> length nodes then (st, Rejected SignerMismatch)
                       else let expected = mn_signing_pubkey (nodes ! unat (pp_signer p)) in
                         (case sa_from_der api (pp_der p) of
                            None \<Rightarrow> (st, Rejected BadPartialSig)
                          | Some sig \<Rightarrow>
                              if \<not> sa_verify api (sighashes v ! input) sig expected
                              then (st, Rejected BadPartialSig)
                              else let key = (pp_input p, pp_signer p) in
                                if hm_contains (partials v) key then (st, ReplyAccepted)
                                else let v' = import_partial api input key expected sig v;
                                         grown = sat_add64 (sat_add64 (c_bytes c - sa_psbt_len api (sv_psbt v))
                                           (sa_psbt_len api (sv_psbt v'))) (length (sa_serialize_der api sig))
                                     in (st\<lparr>candidates := hm_insert (pp_commitment_id p)
                                           ((modify_variant c r (\<lambda>_. v'))\<lparr>c_bytes := grown\<rparr>) (candidates st)\<rparr>,
                                         ReplyAccepted)))))"

subsection \<open>What the operations leave alone\<close>

lemma fold_defeat_frame [simp]:
  "armed (fold defeat ks st) = armed st" "intents (fold defeat ks st) = intents st"
  "carriers_by_nonce (fold defeat ks st) = carriers_by_nonce st"
  "reserved_bytes (fold defeat ks st) = reserved_bytes st" "max_bytes (fold defeat ks st) = max_bytes st"
  "max_active_candidates (fold defeat ks st) = max_active_candidates st"
  by (induction ks arbitrary: st) (simp_all add: defeat_def split: option.splits)

lemma evict_frame [simp]:
  "armed (evict st k) = armed st" "intents (evict st k) = intents st"
  "carriers_by_nonce (evict st k) = carriers_by_nonce st"
  "max_bytes (evict st k) = max_bytes st" "max_active_candidates (evict st k) = max_active_candidates st"
  by (simp_all add: evict_def split: option.splits)

lemma fold_evict_frame [simp]:
  "armed (fold (\<lambda>k s. evict s k) ks st) = armed st" "intents (fold (\<lambda>k s. evict s k) ks st) = intents st"
  by (induction ks arbitrary: st) simp_all

lemma register_frame [simp]:
  "armed (fst (register st c)) = armed st" "intents (fst (register st c)) = intents st"
  "carriers_by_nonce (fst (register st c)) = carriers_by_nonce st" "max_bytes (fst (register st c)) = max_bytes st"
  "max_active_candidates (fst (register st c)) = max_active_candidates st" "hot_ledger (fst (register st c)) = hot_ledger st"
  by (simp_all add: register_def split: option.splits)

lemma retire_carrier_frame [simp]: "armed (retire_carrier st k) = armed st" "candidates (retire_carrier st k) = candidates st"
  "reserved_bytes (retire_carrier st k) = reserved_bytes st" "max_bytes (retire_carrier st k) = max_bytes st"
  "max_active_candidates (retire_carrier st k) = max_active_candidates st" "hot_ledger (retire_carrier st k) = hot_ledger st"
  by (simp_all add: retire_carrier_def)

lemma prune_frame [simp]: "armed (prune st now) = armed st" "intents (prune st now) = intents st"
  "carriers_by_nonce (prune st now) = carriers_by_nonce st" "max_bytes (prune st now) = max_bytes st"
  "max_active_candidates (prune st now) = max_active_candidates st"
  by (simp_all add: prune_def Let_def)

lemma prune_carriers_frame [simp]: "armed (prune_carriers st now) = armed st" "candidates (prune_carriers st now) = candidates st"
  "reserved_bytes (prune_carriers st now) = reserved_bytes st" "max_bytes (prune_carriers st now) = max_bytes st"
  "max_active_candidates (prune_carriers st now) = max_active_candidates st" "hot_ledger (prune_carriers st now) = hot_ledger st"
  by (simp_all add: prune_carriers_def Let_def)

lemma resolve_signature_frame:
  "resolve_signature st nonce sender tag = Some st' \<Longrightarrow> \<exists>cb. st' = st\<lparr>carriers_by_nonce := cb\<rparr>"
  by (auto simp: resolve_signature_def split: option.splits memo_outcome.splits)

lemma resolve_signature_Derived:
  "hm_get (carriers_by_nonce st) nonce = Some memo \<Longrightarrow> cmo_outcome memo = Derived c t rs \<Longrightarrow>
   resolve_signature st nonce sender tag = Some (st\<lparr>carriers_by_nonce := hm_insert nonce
     (memo\<lparr>cmo_outcome := Derived c t (hm_insert sender tag rs)\<rparr>) (carriers_by_nonce st)\<rparr>)"
  by (simp add: resolve_signature_def)

end
