(* ===== verification/Duress_Arming.thy ===== *)
theory Duress_Arming
  imports Partial_Store
begin

text \<open>
  The two-track duress machine of the channel, \<open>crates/vault-node/src/channel.rs\<close>: atomic
  registration of a request's candidates, the fixed-shape delayed slot, the safety overlay and its
  fire time \<open>T\<close>, the carrier intents and nonce memos, and the confirmation-gated arm commit.
  Each definition is the body a method runs under the store lock, as a function of the store; the
  readings of the monotonic and the wall clock are arguments. The conditional selects of the code
  are conditionals here.
\<close>

record channel_env =
  ce_node_id :: node_id
  ce_nodes :: "manifest_node list"
  ce_wallet_id :: bytes
  ce_manifest_hash :: digest
  ce_quota_per_min :: u64

subsection \<open>Registration\<close>

record arm_directive =
  ad_sweep_escape :: string
  ad_spend_commitment_id :: string
  ad_carrier :: string
  ad_duress :: bool
  ad_epsilon_secs :: u64
  ad_now :: u64

record hot_reserve_spec =
  hs_commitment_id :: string
  hs_outflow_sat :: u64
  hs_wall_now :: u64
  hs_expiry :: u64

definition refresh_escape_window :: "partial_store \<Rightarrow> string \<Rightarrow> partial_store" where
  "refresh_escape_window st escape_id =
     (if escape_id = [] then st
      else let window = escape_window (armed st)
        in st\<lparr>candidates := hm_modify escape_id
              (\<lambda>c. if role c = RoleEscape then c\<lparr>fire := Some window\<rparr> else c) (candidates st)\<rparr>)"

text \<open>One hot Hold considered against \<open>T\<close>; committed only while armed.\<close>

definition shrink_for_hold :: "arm_directive \<Rightarrow> u64 \<Rightarrow> armed_overlay \<Rightarrow> armed_overlay" where
  "shrink_for_hold arm hold a =
     (let candidate_t = max (hold - ad_epsilon_secs arm) (ad_now arm);
          shrunk = min (armed_fire_at a) candidate_t
      in a\<lparr>armed_fire_at := (if active a then shrunk else armed_fire_at a)\<rparr>)"

definition apply_arm_directive :: "partial_store \<Rightarrow> arm_directive \<Rightarrow> u64 list \<Rightarrow> partial_store" where
  "apply_arm_directive st arm hot_holds =
     (let escape_live = (case hm_get (candidates st) (ad_sweep_escape arm) of
            None \<Rightarrow> False | Some c \<Rightarrow> holder_quorum_reached c);
          a1 = fold (shrink_for_hold arm) hot_holds (armed st);
          selected = (if sweep_active a1 then armed_escape_id a1 else ad_sweep_escape arm);
          a2 = a1\<lparr>armed_escape_id := selected,
                  sweep_active := (sweep_active a1 \<or> active a1 \<and> ad_duress arm \<and> escape_live)\<rparr>;
          st1 = st\<lparr>armed := a2\<rparr>
      in refresh_escape_window (refresh_escape_window st1 (ad_sweep_escape arm)) (armed_escape_id a2))"

definition apply_cached_schedule :: "partial_store \<Rightarrow> string \<Rightarrow> bool \<Rightarrow> u64 \<Rightarrow> u64 \<Rightarrow> partial_store" where
  "apply_cached_schedule st escape_id dur now eps =
     apply_arm_directive st \<lparr>ad_sweep_escape = escape_id, ad_spend_commitment_id = [], ad_carrier = [],
       ad_duress = dur, ad_epsilon_secs = eps, ad_now = now\<rparr> []"

fun register_all :: "partial_store \<Rightarrow> candidate list \<Rightarrow> partial_store \<times> register_outcome list" where
  "register_all st [] = (st, [])"
| "register_all st (c # cs) =
     (let (st1, out) = register st c; (st2, outs) = register_all st1 cs in (st2, out # outs))"

definition attach_pair :: "string \<Rightarrow> string \<Rightarrow> arm_intent \<Rightarrow> arm_intent" where
  "attach_pair spend esc i = i\<lparr>spend_commitment_id := spend, escape_commitment_id := esc\<rparr>"

definition unwind_reserve :: "partial_store \<Rightarrow> bool \<Rightarrow> hot_reserve_spec option \<Rightarrow> partial_store" where
  "unwind_reserve st taken hres =
     (if taken then (case hres of None \<Rightarrow> st
        | Some spec \<Rightarrow> st\<lparr>hot_ledger := Hot_Budget.hot_release (hot_ledger st) (hs_commitment_id spec)\<rparr>)
      else st)"

definition register_candidates ::
  "sig_api \<Rightarrow> channel_env \<Rightarrow> u64 \<Rightarrow> partial_store \<Rightarrow> candidate list \<Rightarrow> arm_directive \<Rightarrow> hot_reserve_spec option
    \<Rightarrow> partial_store \<times> (hot_reserve_refusal + register_outcome list)" where
  "register_candidates api env mono_now st cands0 arm hres =
     (let cands = map (\<lambda>c. reserve_partial_capacity api c (ce_nodes env) (ce_node_id env)) cands0;
          (st1, res) = (case hres of
              None \<Rightarrow> (st, Ok False)
            | Some spec \<Rightarrow>
                (let (l, r) = Hot_Budget.hot_reserve (hot_ledger st) (hs_commitment_id spec) (hs_outflow_sat spec)
                    mono_now (hs_wall_now spec) (hs_expiry spec)
                 in (st\<lparr>hot_ledger := l\<rparr>, r)))
      in case res of
           Inl refusal \<Rightarrow> (st1, Err refusal)
         | Inr taken \<Rightarrow>
             if list_ex (\<lambda>c. case hm_get (candidates st1) (c_commitment_id c) of
                  None \<Rightarrow> False | Some resident \<Rightarrow> \<not> matches_registration resident c) cands
             then (unwind_reserve st1 taken hres, Ok (replicate (length cands) Conflict))
             else let new = filter (\<lambda>c. \<not> hm_contains (candidates st1) (c_commitment_id c)) cands;
                      added = foldl (\<lambda>acc c. sat_add64 acc (capacity_bytes c)) 0 new
               in if sat_add64 (length (candidates st1)) (length new) > max_active_candidates st1 \<or>
                     sat_add64 (reserved_bytes st1) added > max_bytes st1
                  then (unwind_reserve st1 taken hres,
                        Ok (map (\<lambda>c. if hm_contains (candidates st1) (c_commitment_id c)
                                     then AlreadyPresent else RegAtCapacity) cands))
                  else let hot_holds = List.map_filter (\<lambda>c. if hot c then map_option fire_at (fire c) else None) cands;
                           (st2, outs) = register_all st1 cands;
                           st3 = apply_arm_directive st2 arm hot_holds
                    in (st3\<lparr>intents := hm_modify (ad_carrier arm)
                           (attach_pair (ad_spend_commitment_id arm) (ad_sweep_escape arm)) (intents st3)\<rparr>, Ok outs))"

definition record_intent_pair :: "partial_store \<Rightarrow> string \<Rightarrow> string \<Rightarrow> string \<Rightarrow> partial_store" where
  "record_intent_pair st carrier spend esc =
     st\<lparr>intents := hm_modify carrier (attach_pair spend esc) (intents st)\<rparr>"

subsection \<open>The safety overlay\<close>

fun min_option :: "u64 list \<Rightarrow> u64 option" where
  "min_option [] = None"
| "min_option (x # xs) = Some (case min_option xs of None \<Rightarrow> x | Some y \<Rightarrow> min x y)"

definition earliest_hot :: "partial_store \<Rightarrow> u64 \<Rightarrow> u64 option" where
  "earliest_hot st now =
     min_option (List.map_filter (\<lambda>c. if hot c \<and> \<not> broadcast c \<and> c_expiry c \<ge> now
        then map_option fire_at (fire c) else None) (hm_values (candidates st)))"

definition effective_t :: "partial_store \<Rightarrow> u64 \<Rightarrow> u64 \<Rightarrow> duress_timing \<Rightarrow> u64" where
  "effective_t st first now timing =
     (let t = sat_add64 first (duress_delay_secs timing);
          t' = (case earliest_hot st now of None \<Rightarrow> t | Some hot_fire \<Rightarrow> min t (hot_fire - epsilon_secs timing))
      in max t' now)"

definition write_safety_overlay :: "partial_store \<Rightarrow> bool \<Rightarrow> u64 \<Rightarrow> u64 \<Rightarrow> duress_timing \<Rightarrow> partial_store" where
  "write_safety_overlay st arm first now timing =
     (let et = effective_t st first now timing;
          was_active = active (armed st);
          retained = (if was_active then armed_fire_at (armed st) else et);
          shrunk = min retained et
      in st\<lparr>armed := (armed st)\<lparr>armed_fire_at := (if was_active \<and> arm then shrunk else retained),
             combine_slack_secs := dt_combine_slack_secs timing, active := (was_active \<or> arm)\<rparr>\<rparr>)"

subsection \<open>Intents and memos\<close>

datatype memo_upgrade = Upgraded | Superseded | Reinstalled

definition fresh_intent :: "u64 \<Rightarrow> memo_generation \<Rightarrow> arm_intent" where
  "fresh_intent first g = \<lparr>holders = [], ready_to_propagate = False, owner_ruling = False, duress = False,
     first_seen = first, spend_commitment_id = [], escape_commitment_id = [],
     ai_expiry = gen_expiry g, ai_deadline = gen_deadline g, committed = False\<rparr>"

definition record_arm_intent ::
  "partial_store \<Rightarrow> bool \<Rightarrow> string \<Rightarrow> string \<Rightarrow> memo_generation \<Rightarrow> u64 \<Rightarrow> u64 \<Rightarrow> duress_timing
    \<Rightarrow> partial_store \<times> memo_upgrade" where
  "record_arm_intent st dur carrier nonce g first now timing =
     (let st1 = write_safety_overlay st False first now timing;
          i0 = (case hm_get (intents st1) carrier of None \<Rightarrow> fresh_intent first g | Some i \<Rightarrow> i);
          i1 = i0\<lparr>duress := (duress i0 \<or> dur), owner_ruling := True\<rparr>;
          st2 = st1\<lparr>intents := hm_insert carrier i1 (intents st1)\<rparr>;
          derived = \<lparr>cmo_outcome = Derived carrier (gen_signature_tag g) [],
                     cmo_expiry = gen_expiry g, cmo_deadline = gen_deadline g\<rparr>;
          st3 = st2\<lparr>carriers_by_nonce := hm_insert nonce derived (carriers_by_nonce st2)\<rparr>
      in case hm_get (carriers_by_nonce st2) nonce of
           Some memo \<Rightarrow> if matches_generation memo g then (st3, Upgraded) else (st2, Superseded)
         | None \<Rightarrow> (st3, Reinstalled))"

definition claim_nonce_in_flight :: "partial_store \<Rightarrow> string \<Rightarrow> memo_generation \<Rightarrow> u64 \<Rightarrow> partial_store" where
  "claim_nonce_in_flight st nonce g mono_now =
     (let st1 = prune_carriers st mono_now
      in st1\<lparr>carriers_by_nonce := hm_insert nonce
           \<lparr>cmo_outcome = InFlight (gen_signature_tag g), cmo_expiry = gen_expiry g, cmo_deadline = gen_deadline g\<rparr>
           (carriers_by_nonce st1)\<rparr>)"

definition release_nonce_claim :: "partial_store \<Rightarrow> string \<Rightarrow> memo_generation \<Rightarrow> partial_store" where
  "release_nonce_claim st nonce g =
     (case hm_get (carriers_by_nonce st) nonce of
        None \<Rightarrow> st
      | Some memo \<Rightarrow> if matches_generation memo g
          then st\<lparr>carriers_by_nonce := hm_remove nonce (carriers_by_nonce st)\<rparr> else st)"

definition end_carrier_ruling :: "partial_store \<Rightarrow> string \<Rightarrow> u64 \<Rightarrow> partial_store" where
  "end_carrier_ruling st carrier mono_now =
     (case hm_get (intents st) carrier of
        None \<Rightarrow> st
      | Some i \<Rightarrow>
          (let st1 = st\<lparr>intents := hm_modify carrier (\<lambda>i. i\<lparr>owner_ruling := False\<rparr>) (intents st)\<rparr>
           in if \<not> ready_to_propagate i \<or> ai_deadline i \<le> mono_now then retire_carrier st1 carrier else st1))"

definition mark_carrier_propagated :: "channel_env \<Rightarrow> partial_store \<Rightarrow> string \<Rightarrow> partial_store" where
  "mark_carrier_propagated env st carrier =
     st\<lparr>intents := hm_modify carrier
          (\<lambda>i. i\<lparr>ready_to_propagate := True, holders := set_insert (ce_node_id env) (holders i)\<rparr>) (intents st)\<rparr>"

subsection \<open>Receipts\<close>

datatype carrier_memo_lookup =
    LookupVacant | LookupInFlight | AwaitingPropagation | ClockRefused | Exact string
  | DeriveForConfirmation string memo_generation | LookupSkip

definition OUTER_STALE_CLAIM_TAG :: string where "OUTER_STALE_CLAIM_TAG = ''btc-policy/outer-stale-claim/v0''"
definition CARRIER_CLOCK_RETRY_SECS :: u64 where "CARRIER_CLOCK_RETRY_SECS = 30"

definition raw_expired_retry :: "partial_store \<Rightarrow> string \<Rightarrow> node_id \<Rightarrow> carrier_memo_lookup" where
  "raw_expired_retry st carrier sender =
     (case hm_get (intents st) carrier of
        None \<Rightarrow> LookupVacant
      | Some i \<Rightarrow>
          if committed i \<or> sender \<in> set (holders i) then LookupVacant
          else if owner_ruling i \<and> \<not> ready_to_propagate i then AwaitingPropagation
          else if ready_to_propagate i then ClockRefused
          else LookupVacant)"

definition carrier_memo_lookup ::
  "sig_api \<Rightarrow> partial_store \<Rightarrow> string \<Rightarrow> bytes \<Rightarrow> u64 \<Rightarrow> node_id \<Rightarrow> u64 \<Rightarrow> u64 \<Rightarrow> carrier_memo_lookup" where
  "carrier_memo_lookup api st nonce tag request_expiry sender now mono_now =
     (case hm_get (carriers_by_nonce st) nonce of
        None \<Rightarrow> LookupVacant
      | Some memo \<Rightarrow>
          if cmo_deadline memo \<le> mono_now then LookupVacant
          else if cmo_expiry memo \<noteq> request_expiry then LookupVacant
          else let raw_expired = (cmo_expiry memo \<le> now) in
            (case cmo_outcome memo of
               InFlight _ \<Rightarrow> LookupInFlight
             | Derived carrier remembered resolved_senders \<Rightarrow>
                 if \<not> raw_expired \<and> (case hm_get (intents st) carrier of None \<Rightarrow> False
                      | Some i \<Rightarrow> owner_ruling i \<and> \<not> ready_to_propagate i)
                 then AwaitingPropagation
                 else let resolved = hm_get resolved_senders sender in
                   if remembered = tag \<or> resolved = Some tag
                   then (if raw_expired then raw_expired_retry st carrier sender else Exact carrier)
                   else if (case hm_get (intents st) carrier of None \<Rightarrow> False
                        | Some i \<Rightarrow> committed i \<or> sender \<in> set (holders i))
                   then LookupSkip
                   else if resolved = Some (tagged_hash (sa_sha256 api) OUTER_STALE_CLAIM_TAG tag) then LookupInFlight
                   else if resolved \<noteq> None then LookupSkip
                   else DeriveForConfirmation carrier \<lparr>gen_signature_tag = remembered,
                          gen_expiry = cmo_expiry memo, gen_deadline = cmo_deadline memo\<rparr>))"

definition claim_carrier_derivation :: "partial_store \<Rightarrow> string \<Rightarrow> node_id \<Rightarrow> string \<Rightarrow> partial_store \<times> bool" where
  "claim_carrier_derivation st nonce sender memoized_carrier =
     (if \<not> (case hm_get (intents st) memoized_carrier of None \<Rightarrow> False
          | Some i \<Rightarrow> \<not> committed i \<and> sender \<notin> set (holders i))
      then (st, False)
      else case hm_get (carriers_by_nonce st) nonce of
          None \<Rightarrow> (st, False)
        | Some memo \<Rightarrow>
            (case cmo_outcome memo of
               Derived carrier tag rs \<Rightarrow>
                 if carrier = memoized_carrier then
                   if hm_contains rs sender then (st, False)
                   else (st\<lparr>carriers_by_nonce := hm_insert nonce
                          (memo\<lparr>cmo_outcome := Derived carrier tag (hm_insert sender tag rs)\<rparr>) (carriers_by_nonce st)\<rparr>, True)
                 else (st, False)
             | InFlight _ \<Rightarrow> (st, False)))"

definition record_carrier_derivation_result ::
  "partial_store \<Rightarrow> string \<Rightarrow> node_id \<Rightarrow> bytes \<Rightarrow> memo_generation \<Rightarrow> string \<Rightarrow> partial_store \<times> bool" where
  "record_carrier_derivation_result st nonce sender tag g memoized_carrier =
     (case hm_get (carriers_by_nonce st) nonce of
        None \<Rightarrow> (st, False)
      | Some memo \<Rightarrow>
          (case cmo_outcome memo of
             Derived carrier remembered rs \<Rightarrow>
               if carrier = memoized_carrier \<and> remembered = gen_signature_tag g \<and> cmo_expiry memo = gen_expiry g \<and>
                  cmo_deadline memo = gen_deadline g \<and> hm_get rs sender = Some (gen_signature_tag g)
               then (st\<lparr>carriers_by_nonce := hm_insert nonce
                      (memo\<lparr>cmo_outcome := Derived carrier remembered (hm_insert sender tag rs)\<rparr>) (carriers_by_nonce st)\<rparr>, True)
               else (st, False)
           | InFlight _ \<Rightarrow> (st, False)))"

datatype outer_stale_carrier = StaleTerminal | StaleRetry u64 | StaleDerive string memo_generation
datatype outer_stale_step = Inspect bool | Finish string memo_generation bool

definition outer_stale_carrier ::
  "sig_api \<Rightarrow> partial_store \<Rightarrow> string \<Rightarrow> bytes \<Rightarrow> u64 \<times> u64 \<Rightarrow> node_id \<Rightarrow> u64 \<Rightarrow> u64 \<Rightarrow> outer_stale_step
    \<Rightarrow> (partial_store \<times> outer_stale_carrier) option" where
  "outer_stale_carrier api st nonce tag lifetime sender now mono_now step =
     (let (expiry, deadline) = lifetime in
      case hm_get (carriers_by_nonce st) nonce of
        None \<Rightarrow> Some (st, StaleTerminal)
      | Some memo \<Rightarrow>
          if deadline \<le> mono_now \<or> (cmo_expiry memo, cmo_deadline memo) \<noteq> lifetime then Some (st, StaleTerminal)
          else (case cmo_outcome memo of
              InFlight _ \<Rightarrow> Some (st, if expiry > now then StaleRetry 1 else StaleTerminal)
            | Derived carrier remembered resolved_senders \<Rightarrow>
                (let resolved = hm_get resolved_senders sender;
                     claim_tag = tagged_hash (sa_sha256 api) OUTER_STALE_CLAIM_TAG tag;
                     g = \<lparr>gen_signature_tag = remembered, gen_expiry = cmo_expiry memo, gen_deadline = cmo_deadline memo\<rparr>;
                     finished = (case step of
                         Finish memoized claimed matched \<Rightarrow>
                           if memoized = carrier \<and> claimed = g \<and> resolved = Some claim_tag then Some matched else None
                       | Inspect _ \<Rightarrow> None);
                     st1 = (case finished of None \<Rightarrow> Some st
                         | Some matched \<Rightarrow> resolve_signature st nonce sender (if matched then tag else remembered))
                 in case st1 of
                      None \<Rightarrow> None
                    | Some st1 \<Rightarrow>
                        if expiry \<le> now then Some (st1, StaleTerminal)
                        else (case hm_get (intents st1) carrier of
                            None \<Rightarrow> Some (st1, StaleTerminal)
                          | Some i \<Rightarrow>
                              if (ai_expiry i, ai_deadline i) \<noteq> lifetime \<or> committed i \<or> sender \<in> set (holders i) \<or>
                                 \<not> (owner_ruling i \<or> ready_to_propagate i)
                              then Some (st1, StaleTerminal)
                              else if owner_ruling i \<and> \<not> ready_to_propagate i then Some (st1, StaleRetry 1)
                              else if remembered = tag \<or> resolved = Some tag
                              then Some (st1, StaleRetry CARRIER_CLOCK_RETRY_SECS)
                              else if resolved = Some claim_tag \<and> (case step of Inspect _ \<Rightarrow> True | _ \<Rightarrow> False)
                              then Some (st1, StaleRetry 1)
                              else (case step of
                                  Inspect claim \<Rightarrow>
                                    if resolved = None then
                                      (if claim
                                       then map_option (\<lambda>st2. (st2, StaleDerive carrier g)) (resolve_signature st1 nonce sender claim_tag)
                                       else Some (st1, StaleDerive carrier g))
                                    else Some (st1, StaleTerminal)
                                | Finish _ _ _ \<Rightarrow>
                                    if finished = Some True then Some (st1, StaleRetry CARRIER_CLOCK_RETRY_SECS)
                                    else Some (st1, StaleTerminal))))))"

record carrier_confirmation =
  cc_committed :: bool
  cc_armed :: bool
  cc_clock_refused :: bool

definition NONE_CONFIRMED :: carrier_confirmation where
  "NONE_CONFIRMED = \<lparr>cc_committed = False, cc_armed = False, cc_clock_refused = False\<rparr>"

definition CLOCK_REFUSED :: carrier_confirmation where
  "CLOCK_REFUSED = \<lparr>cc_committed = False, cc_armed = False, cc_clock_refused = True\<rparr>"

definition open_gate :: "string \<Rightarrow> partial_store \<Rightarrow> partial_store" where
  "open_gate cid st = st\<lparr>candidates := hm_modify cid (\<lambda>c. c\<lparr>holder_quorum_reached := True\<rparr>) (candidates st)\<rparr>"

text \<open>The holder-decision transaction once the threshold is crossed, up to the retirement.\<close>

definition commit_holders :: "partial_store \<Rightarrow> arm_intent \<Rightarrow> u64 \<Rightarrow> duress_timing \<Rightarrow> partial_store" where
  "commit_holders st i now timing =
     (let commit_arm = duress i;
          esc = escape_commitment_id i;
          st1 = write_safety_overlay st commit_arm (first_seen i) now timing;
          st2 = open_gate esc (open_gate (spend_commitment_id i) st1);
          select_request = (commit_arm \<and> \<not> sweep_active (armed st2) \<and> esc \<noteq> []);
          selected = (if select_request then esc else armed_escape_id (armed st2));
          st3 = st2\<lparr>armed := (armed st2)\<lparr>armed_escape_id := selected,
                     sweep_active := (sweep_active (armed st2) \<or> select_request)\<rparr>\<rparr>
      in refresh_escape_window (refresh_escape_window st3 esc) selected)"

definition confirm_carrier ::
  "partial_store \<Rightarrow> node_id \<Rightarrow> string \<Rightarrow> nat \<Rightarrow> u64 \<Rightarrow> u64 \<Rightarrow> duress_timing \<Rightarrow> partial_store \<times> carrier_confirmation" where
  "confirm_carrier st sender carrier threshold now mono_now timing =
     (case hm_get (intents st) carrier of
        None \<Rightarrow> (st, NONE_CONFIRMED)
      | Some i \<Rightarrow>
          if \<not> ready_to_propagate i \<or> committed i \<or> sender \<in> set (holders i) then (st, NONE_CONFIRMED)
          else if ai_deadline i \<le> mono_now then (st, NONE_CONFIRMED)
          else if ai_expiry i \<le> now then (st, CLOCK_REFUSED)
          else let i1 = i\<lparr>holders := set_insert sender (holders i)\<rparr>;
                   st1 = st\<lparr>intents := hm_insert carrier i1 (intents st)\<rparr>
            in if length (holders i1) < threshold then (st1, NONE_CONFIRMED)
               else let i2 = i1\<lparr>committed := True\<rparr>;
                        st2 = st1\<lparr>intents := hm_insert carrier i2 (intents st1)\<rparr>
                 in (retire_carrier (commit_holders st2 i2 now timing) carrier,
                     \<lparr>cc_committed = True, cc_armed = duress i, cc_clock_refused = False\<rparr>))"

definition lockdown_due :: "partial_store \<Rightarrow> u64 \<Rightarrow> bool" where
  "lockdown_due st now = (active (armed st) \<and> now \<ge> armed_fire_at (armed st))"

definition prune_store :: "partial_store \<Rightarrow> u64 \<Rightarrow> u64 \<Rightarrow> partial_store" where
  "prune_store st now mono_now = prune (prune_carriers st mono_now) now"

definition reserve_hot_budget ::
  "partial_store \<Rightarrow> u64 \<Rightarrow> string \<Rightarrow> u64 \<Rightarrow> u64 \<Rightarrow> u64 \<Rightarrow> partial_store \<times> (hot_reserve_refusal + bool)" where
  "reserve_hot_budget st mono_now cid outflow wall_now expiry =
     (let (l, r) = Hot_Budget.hot_reserve (hot_ledger st) cid outflow mono_now wall_now expiry in (st\<lparr>hot_ledger := l\<rparr>, r))"

definition release_hot_budget :: "partial_store \<Rightarrow> string \<Rightarrow> partial_store" where
  "release_hot_budget st cid = st\<lparr>hot_ledger := Hot_Budget.hot_release (hot_ledger st) cid\<rparr>"

subsection \<open>What the operations leave alone\<close>

lemma register_all_Cons_fst: "fst (register_all st (c # cs)) = fst (register_all (fst (register st c)) cs)"
  by (simp add: split_beta Let_def)

lemma register_all_frame [simp]:
  "armed (fst (register_all st cs)) = armed st" "intents (fst (register_all st cs)) = intents st"
  "carriers_by_nonce (fst (register_all st cs)) = carriers_by_nonce st"
  "max_bytes (fst (register_all st cs)) = max_bytes st"
  "max_active_candidates (fst (register_all st cs)) = max_active_candidates st"
  "hot_ledger (fst (register_all st cs)) = hot_ledger st"
  by (induction cs arbitrary: st) (simp_all add: register_all_Cons_fst del: register_all.simps(2))

lemma refresh_escape_window_frame [simp]:
  "armed (refresh_escape_window st k) = armed st" "intents (refresh_escape_window st k) = intents st"
  "carriers_by_nonce (refresh_escape_window st k) = carriers_by_nonce st"
  "reserved_bytes (refresh_escape_window st k) = reserved_bytes st"
  "max_bytes (refresh_escape_window st k) = max_bytes st"
  "max_active_candidates (refresh_escape_window st k) = max_active_candidates st"
  "hot_ledger (refresh_escape_window st k) = hot_ledger st"
  by (simp_all add: refresh_escape_window_def Let_def)

lemma write_safety_overlay_frame [simp]:
  "candidates (write_safety_overlay st a f n t) = candidates st" "intents (write_safety_overlay st a f n t) = intents st"
  "carriers_by_nonce (write_safety_overlay st a f n t) = carriers_by_nonce st"
  "reserved_bytes (write_safety_overlay st a f n t) = reserved_bytes st"
  "max_bytes (write_safety_overlay st a f n t) = max_bytes st"
  "max_active_candidates (write_safety_overlay st a f n t) = max_active_candidates st"
  "hot_ledger (write_safety_overlay st a f n t) = hot_ledger st"
  by (simp_all add: write_safety_overlay_def Let_def)

subsection \<open>The arm overlay\<close>

definition arm_le :: "armed_overlay \<Rightarrow> armed_overlay \<Rightarrow> bool" where
  "arm_le a b \<longleftrightarrow> (active a \<longrightarrow> active b \<and> armed_fire_at b \<le> armed_fire_at a) \<and>
     (sweep_active a \<longrightarrow> sweep_active b \<and> armed_escape_id b = armed_escape_id a)"

definition sweep_inv :: "armed_overlay \<Rightarrow> bool" where
  "sweep_inv a \<longleftrightarrow> (sweep_active a \<longrightarrow> active a)"

lemma arm_le_refl [simp]: "arm_le a a"
  by (simp add: arm_le_def)

lemma arm_le_trans: "arm_le a b \<Longrightarrow> arm_le b c \<Longrightarrow> arm_le a c"
  by (auto simp: arm_le_def)

lemma arm_le_overlay: "arm_le (armed st) (armed (write_safety_overlay st arm f n t))"
  by (simp add: arm_le_def write_safety_overlay_def Let_def)

lemma sweep_inv_overlay: "sweep_inv (armed st) \<Longrightarrow> sweep_inv (armed (write_safety_overlay st arm f n t))"
  by (simp add: sweep_inv_def write_safety_overlay_def Let_def)

lemma shrink_for_hold_frame [simp]:
  "active (shrink_for_hold arm h a) = active a" "sweep_active (shrink_for_hold arm h a) = sweep_active a"
  "armed_escape_id (shrink_for_hold arm h a) = armed_escape_id a"
  by (simp_all add: shrink_for_hold_def Let_def)

lemma fold_shrink_frame [simp]:
  "active (fold (shrink_for_hold arm) hs a) = active a" "sweep_active (fold (shrink_for_hold arm) hs a) = sweep_active a"
  "armed_escape_id (fold (shrink_for_hold arm) hs a) = armed_escape_id a"
  by (induction hs arbitrary: a) simp_all

lemma fold_shrink_le: "armed_fire_at (fold (shrink_for_hold arm) hs a) \<le> armed_fire_at a"
proof (induction hs arbitrary: a)
  case (Cons h hs)
  have "armed_fire_at (shrink_for_hold arm h a) \<le> armed_fire_at a" by (simp add: shrink_for_hold_def Let_def)
  with Cons.IH [of "shrink_for_hold arm h a"] show ?case by simp
qed simp

lemma arm_le_directive: "arm_le (armed st) (armed (apply_arm_directive st arm holds))"
  by (simp add: arm_le_def apply_arm_directive_def Let_def fold_shrink_le)

lemma sweep_inv_directive: "sweep_inv (armed st) \<Longrightarrow> sweep_inv (armed (apply_arm_directive st arm holds))"
  by (auto simp: sweep_inv_def apply_arm_directive_def Let_def)

lemma open_gate_frame [simp]: "armed (open_gate k st) = armed st" "intents (open_gate k st) = intents st"
  "carriers_by_nonce (open_gate k st) = carriers_by_nonce st" "reserved_bytes (open_gate k st) = reserved_bytes st"
  "max_bytes (open_gate k st) = max_bytes st" "max_active_candidates (open_gate k st) = max_active_candidates st"
  "hot_ledger (open_gate k st) = hot_ledger st"
  by (simp_all add: open_gate_def)

lemma armed_commit_holders:
  "armed (commit_holders st i now timing) =
     (let a = armed (write_safety_overlay st (duress i) (first_seen i) now timing);
          sel = (duress i \<and> \<not> sweep_active a \<and> escape_commitment_id i \<noteq> [])
      in a\<lparr>armed_escape_id := (if sel then escape_commitment_id i else armed_escape_id a), sweep_active := (sweep_active a \<or> sel)\<rparr>)"
  by (cases "duress i") (simp_all add: commit_holders_def Let_def)

lemma arm_le_commit: "arm_le (armed st) (armed (commit_holders st i now timing))"
proof -
  have "arm_le (armed (write_safety_overlay st (duress i) (first_seen i) now timing)) (armed (commit_holders st i now timing))"
    by (simp add: arm_le_def armed_commit_holders Let_def)
  then show ?thesis using arm_le_overlay arm_le_trans by blast
qed

lemma sweep_inv_commit: "sweep_inv (armed st) \<Longrightarrow> sweep_inv (armed (commit_holders st i now timing))"
  by (auto simp: sweep_inv_def armed_commit_holders Let_def write_safety_overlay_def)

lemma claim_derivation_frame: "\<exists>cb. fst (claim_carrier_derivation st nonce sender k) = st\<lparr>carriers_by_nonce := cb\<rparr>"
  by (auto simp: claim_carrier_derivation_def intro: exI [of _ "carriers_by_nonce st"] split: option.splits memo_outcome.splits)

lemma record_derivation_frame:
  "\<exists>cb. fst (record_carrier_derivation_result st nonce sender tag g k) = st\<lparr>carriers_by_nonce := cb\<rparr>"
  by (auto simp: record_carrier_derivation_result_def intro: exI [of _ "carriers_by_nonce st"] split: option.splits memo_outcome.splits)

lemma release_nonce_frame: "\<exists>cb. release_nonce_claim st nonce g = st\<lparr>carriers_by_nonce := cb\<rparr>"
  by (auto simp: release_nonce_claim_def intro: exI [of _ "carriers_by_nonce st"] split: option.splits)

text \<open>The second resolution finds the memo the first one wrote, so neither panics.\<close>

lemma outer_stale_Some:
  "\<exists>cb r. outer_stale_carrier api st nonce tag lt sender now mono_now step = Some (st\<lparr>carriers_by_nonce := cb\<rparr>, r)"
proof -
  define K where "K x \<longleftrightarrow> (\<exists>cb r. x = Some (st\<lparr>carriers_by_nonce := cb\<rparr>, r))" for x :: "(partial_store \<times> outer_stale_carrier) option"
  have same: "K (Some (st, r))" for r unfolding K_def by (intro exI [of _ "carriers_by_nonce st"] exI [of _ r]) simp
  have upd: "K (Some (st\<lparr>carriers_by_nonce := x\<rparr>, r))" for x r unfolding K_def by blast
  have if_K: "K x \<Longrightarrow> K y \<Longrightarrow> K (if c then x else y)" for c x y by simp
  have opt_K: "K x \<Longrightarrow> (\<And>i. K (f i)) \<Longrightarrow> K (case oi of None \<Rightarrow> x | Some i \<Rightarrow> f i)" for x f and oi :: "arm_intent option"
    by (cases oi) simp_all
  have st_K: "K (f st) \<Longrightarrow> (\<And>x. K (f (st\<lparr>carriers_by_nonce := x\<rparr>))) \<Longrightarrow>
      K (case (case ob of None \<Rightarrow> Some st | Some b \<Rightarrow> Some (st\<lparr>carriers_by_nonce := u b\<rparr>)) of None \<Rightarrow> y | Some s \<Rightarrow> f s)"
    for f u y and ob :: "bool option" by (cases ob) simp_all
  obtain expiry deadline where lt: "lt = (expiry, deadline)" by (cases lt)
  have "K (outer_stale_carrier api st nonce tag lt sender now mono_now step)"
  proof (cases "hm_get (carriers_by_nonce st) nonce")
    case None
    then show ?thesis by (simp add: outer_stale_carrier_def lt same)
  next
    case (Some memo)
    show ?thesis
    proof (cases "cmo_outcome memo")
      case (InFlight x)
      with Some show ?thesis by (simp add: outer_stale_carrier_def lt same)
    next
      case (Derived c t rs)
      note r = resolve_signature_Derived [OF Some Derived]
      show ?thesis
      proof (cases step)
        case (Inspect claim)
        show ?thesis
          unfolding outer_stale_carrier_def lt Let_def prod.case Some option.case Derived memo_outcome.case Inspect
            outer_stale_step.case r option.map
          by (intro if_K opt_K same upd)
      next
        case (Finish k g b)
        show ?thesis
          unfolding outer_stale_carrier_def lt Let_def prod.case Some option.case Derived memo_outcome.case Finish
            outer_stale_step.case r
          by (intro if_K st_K opt_K same upd)
      qed
    qed
  qed
  then show ?thesis by (simp add: K_def)
qed

end
