(* ===== verification/Fire_Gate.thy ===== *)
theory Fire_Gate
  imports Duress_Arming
begin

text \<open>
  The fire path of \<open>crates/vault-node/src/channel.rs\<close>: which candidates are due, the gate
  through which this node's partial signatures leave it, the combine step, the last authorization
  before a transaction is handed to the network, the fee-bump latch and the settlement of a
  candidate. Hex and the textual form of a txid are rust-bitcoin's, PSBT finalization is
  miniscript's; they are arguments.
\<close>

record partial_payload =
  pl_commitment_id :: string
  pl_wallet_id :: string
  pl_txid :: string
  pl_input :: "32 word"
  pl_signer_node_id :: node_id
  pl_sighash_type :: "32 word"
  pl_spend_purpose :: string
  pl_user_sig_hash :: string
  pl_partial_sig :: string

record release =
  rel_payloads :: "partial_payload list"
  rel_deadline :: u64

record finalized_candidate =
  fc_tx :: transaction
  fc_rung :: nat
  fc_deadline :: u64

record text_api =
  ta_to_hex :: "bytes \<Rightarrow> string"
  ta_txid_to_string :: "txid \<Rightarrow> string"

definition SETTLEMENT_OBSERVE_GRACE_SECS :: u64 where "SETTLEMENT_OBSERVE_GRACE_SECS = FRESHNESS_PAST_SECS + FRESHNESS_FUTURE_SECS"
definition RELEASE_QUOTA_HEADROOM :: u64 where "RELEASE_QUOTA_HEADROOM = 2"

subsection \<open>Due candidates\<close>

definition due :: "partial_store \<Rightarrow> u64 \<Rightarrow> candidate \<Rightarrow> bool" where
  "due st now c =
     (let frozen = (active (armed st) \<and> hot c);
          window_open = (case fire c of None \<Rightarrow> False | Some w \<Rightarrow> is_open w now)
      in \<not> broadcast c \<and> \<not> frozen \<and> slot_active st c \<and> window_open)"

definition due_for_fire :: "partial_store \<Rightarrow> u64 \<Rightarrow> string list" where
  "due_for_fire st now = sort (map c_commitment_id (filter (due st now) (hm_values (candidates st))))"

definition fire_settlement_pollable :: "partial_store \<Rightarrow> string \<Rightarrow> u64 \<Rightarrow> bool" where
  "fire_settlement_pollable st cid now =
     (case hm_get (candidates st) cid of
        None \<Rightarrow> False
      | Some c \<Rightarrow> (case fire c of
            None \<Rightarrow> False
          | Some w \<Rightarrow> now \<ge> fire_at w \<and> now \<le> sat_add64 (fw_deadline w) SETTLEMENT_OBSERVE_GRACE_SECS))"

subsection \<open>The partial-release gate\<close>

definition quota_rung_cap :: "channel_env \<Rightarrow> candidate \<Rightarrow> nat" where
  "quota_rung_cap env c =
     (let inputs_per_variant = max (length (psbt_inputs (sv_psbt (hd (variants c))))) 1;
          partial_budget = max (ce_quota_per_min env - RELEASE_QUOTA_HEADROOM) 1
      in sat_add64 (release_floor c) (partial_budget div inputs_per_variant - 1))"

definition releasable_rung :: "channel_env \<Rightarrow> candidate \<Rightarrow> nat" where
  "releasable_rung env c = min (authorized_rung c) (quota_rung_cap env c)"

definition first_rung :: "candidate \<Rightarrow> nat" where
  "first_rung c =
     (let first_unreleased = (case released_through c of None \<Rightarrow> 0 | Some r \<Rightarrow> sat_add64 r 1)
      in max first_unreleased (release_floor c))"

fun purpose_of :: "candidate_role \<Rightarrow> string" where
  "purpose_of RoleSpend = ''spend''"
| "purpose_of RoleEscape = ''escape''"

definition payload_of ::
  "sig_api \<Rightarrow> text_api \<Rightarrow> channel_env \<Rightarrow> string \<Rightarrow> candidate_role \<Rightarrow> signing_variant \<Rightarrow> nat \<Rightarrow> ecdsa_sig \<Rightarrow> partial_payload" where
  "payload_of api ta env cid r v input sig =
     \<lparr>pl_commitment_id = cid, pl_wallet_id = ta_to_hex ta (ce_wallet_id env),
      pl_txid = ta_txid_to_string ta (unsigned_txid v), pl_input = word_of_nat input,
      pl_signer_node_id = ce_node_id env, pl_sighash_type = SIGHASH_ALL, pl_spend_purpose = purpose_of r,
      pl_user_sig_hash = ta_to_hex ta (user_sig_hash v),
      pl_partial_sig = ta_to_hex ta (sa_serialize_der api (signature sig))\<rparr>"

definition variant_payloads ::
  "sig_api \<Rightarrow> text_api \<Rightarrow> channel_env \<Rightarrow> pubkey \<Rightarrow> string \<Rightarrow> candidate_role \<Rightarrow> signing_variant \<Rightarrow> partial_payload list" where
  "variant_payloads api ta env signer cid r v =
     List.map_filter (\<lambda>(input, inp). map_option (payload_of api ta env cid r v input) (hm_get (partial_sigs inp) signer))
       (List.enumerate 0 (psbt_inputs (sv_psbt v)))"

definition release_partials ::
  "sig_api \<Rightarrow> text_api \<Rightarrow> channel_env \<Rightarrow> partial_store \<Rightarrow> string \<Rightarrow> u64 \<Rightarrow> partial_store \<times> release option" where
  "release_partials api ta env st cid now =
     (if unat (ce_node_id env) \<ge> length (ce_nodes env) then (st, None)
      else let signer = mn_signing_pubkey (ce_nodes env ! unat (ce_node_id env)) in
        case hm_get (candidates st) cid of
          None \<Rightarrow> (st, None)
        | Some c \<Rightarrow>
            if \<not> slot_active st c then (st, None)
            else if active (armed st) \<and> hot c then (st, None)
            else (case fire c of
                None \<Rightarrow> (st, None)
              | Some w \<Rightarrow>
                  if \<not> is_open w now then (st, None)
                  else let authorized = releasable_rung env c; first = first_rung c in
                    if first > authorized then (st, None)
                    else let c' = c\<lparr>released := True, released_through := Some authorized\<rparr>;
                             out = concat (map (variant_payloads api ta env signer cid (role c))
                                 (drop first (take (sat_add64 authorized 1) (variants c))))
                      in (st\<lparr>candidates := hm_insert cid c' (candidates st)\<rparr>,
                          Some \<lparr>rel_payloads = out, rel_deadline = fw_deadline w\<rparr>)))"

subsection \<open>Combining\<close>

text \<open>The loop down the ladder; a rung past the ladder ends the search.\<close>

fun finalize_from ::
  "(psbt \<Rightarrow> transaction option) \<Rightarrow> nat \<Rightarrow> manifest_node list \<Rightarrow> candidate \<Rightarrow> u64 \<Rightarrow> nat list \<Rightarrow> finalized_candidate option" where
  "finalize_from fin threshold nodes c dl [] = None"
| "finalize_from fin threshold nodes c dl (r # rs) =
     (case variant c r of
        None \<Rightarrow> None
      | Some v \<Rightarrow>
          if \<not> has_quorum v threshold nodes then finalize_from fin threshold nodes c dl rs
          else (case fin (sv_psbt v) of
              None \<Rightarrow> finalize_from fin threshold nodes c dl rs
            | Some tx \<Rightarrow> Some \<lparr>fc_tx = tx, fc_rung = r, fc_deadline = dl\<rparr>))"

definition try_finalize ::
  "(psbt \<Rightarrow> transaction option) \<Rightarrow> channel_env \<Rightarrow> partial_store \<Rightarrow> string \<Rightarrow> nat \<Rightarrow> u64 \<Rightarrow> finalized_candidate option" where
  "try_finalize fin env st cid threshold now =
     (case hm_get (candidates st) cid of
        None \<Rightarrow> None
      | Some c \<Rightarrow>
          if \<not> slot_active st c \<or> active (armed st) \<and> hot c then None
          else (case fire c of
              None \<Rightarrow> None
            | Some w \<Rightarrow>
                if \<not> is_open w now \<or> broadcast c then None
                else finalize_from fin threshold (ce_nodes env) c (fw_deadline w) (rev [0..<authorized_rung c + 1])))"

datatype authorization_error = Disappeared | SlotUnauthorized | FrozenByDuress | NoFireEvent | OutsideWindow

definition broadcast_authorization :: "partial_store \<Rightarrow> string \<Rightarrow> u64 \<Rightarrow> authorization_error + unit" where
  "broadcast_authorization st cid now =
     (case hm_get (candidates st) cid of
        None \<Rightarrow> Err Disappeared
      | Some c \<Rightarrow>
          if \<not> slot_active st c then Err SlotUnauthorized
          else if active (armed st) \<and> hot c then Err FrozenByDuress
          else (case fire c of
              None \<Rightarrow> Err NoFireEvent
            | Some w \<Rightarrow> if \<not> is_open w now \<or> broadcast c then Err OutsideWindow else Ok ()))"

text \<open>The backend call runs after the lock is dropped, exactly when authorized.\<close>

definition with_broadcast_authorization ::
  "partial_store \<Rightarrow> string \<Rightarrow> u64 \<Rightarrow> (unit \<Rightarrow> 'r) \<Rightarrow> authorization_error + 'r" where
  "with_broadcast_authorization st cid now send = bind_res (broadcast_authorization st cid now) (\<lambda>_. Ok (send ()))"

subsection \<open>Reading a candidate\<close>

definition candidate_txid :: "partial_store \<Rightarrow> string \<Rightarrow> txid option" where
  "candidate_txid st cid = map_option (\<lambda>c. unsigned_txid (base c)) (hm_get (candidates st) cid)"

definition candidate_rung_txids :: "partial_store \<Rightarrow> string \<Rightarrow> txid list option" where
  "candidate_rung_txids st cid = map_option (\<lambda>c. map unsigned_txid (variants c)) (hm_get (candidates st) cid)"

definition candidate_rung_txs :: "partial_store \<Rightarrow> string \<Rightarrow> transaction list option" where
  "candidate_rung_txs st cid = map_option (\<lambda>c. map (\<lambda>v. unsigned_tx (sv_psbt v)) (variants c)) (hm_get (candidates st) cid)"

definition escape_rung :: "partial_store \<Rightarrow> string \<Rightarrow> nat option" where
  "escape_rung st cid = map_option authorized_rung (hm_get (candidates st) cid)"

definition pairing :: "partial_store \<Rightarrow> string \<Rightarrow> (candidate_role \<times> string) option" where
  "pairing st cid = map_option (\<lambda>c. (role c, paired_commitment_id c)) (hm_get (candidates st) cid)"

definition is_armed_escape :: "partial_store \<Rightarrow> string \<Rightarrow> bool" where
  "is_armed_escape st cid =
     (active (armed st) \<and> sweep_active (armed st) \<and> armed_escape_id (armed st) = cid \<and>
      (case hm_get (candidates st) cid of None \<Rightarrow> False | Some c \<Rightarrow> role c = RoleEscape))"

record candidate_coverage_context =
  ccx_hot :: bool
  ccx_inputs :: "(outpoint \<times> u64) list"
  ccx_tx :: transaction

fun coverage_inputs :: "(txin \<times> psbt_input) list \<Rightarrow> (outpoint \<times> u64) list option" where
  "coverage_inputs [] = Some []"
| "coverage_inputs ((ti, inp) # rest) =
     (case witness_utxo inp of
        None \<Rightarrow> None
      | Some utxo \<Rightarrow> map_option (\<lambda>xs. (previous_output ti, txo_value utxo) # xs) (coverage_inputs rest))"

definition candidate_coverage_context :: "partial_store \<Rightarrow> string \<Rightarrow> candidate_coverage_context option" where
  "candidate_coverage_context st cid =
     (case hm_get (candidates st) cid of
        None \<Rightarrow> None
      | Some c \<Rightarrow>
          let p = sv_psbt (base c) in
          map_option (\<lambda>ins. \<lparr>ccx_hot = hot c, ccx_inputs = ins, ccx_tx = unsigned_tx p\<rparr>)
            (coverage_inputs (zip (tx_input (unsigned_tx p)) (psbt_inputs p))))"

definition peer_ids :: "channel_env \<Rightarrow> node_id list" where
  "peer_ids env = filter (\<lambda>i. i \<noteq> ce_node_id env) (map mn_node_id (ce_nodes env))"

subsection \<open>The latch and the settlement\<close>

definition latched :: "nat \<Rightarrow> nat \<Rightarrow> candidate \<Rightarrow> candidate" where
  "latched r lowest_admissible c =
     (let bounded = min r (length (bumps c))
      in c\<lparr>rung := (if bounded > rung c then bounded else rung c), c_release_floor := min lowest_admissible bounded\<rparr>)"

definition latch_escape_rung :: "partial_store \<Rightarrow> string \<Rightarrow> nat \<Rightarrow> nat \<Rightarrow> partial_store \<times> nat option" where
  "latch_escape_rung st cid r lowest_admissible =
     (case hm_get (candidates st) cid of
        None \<Rightarrow> (st, None)
      | Some c \<Rightarrow> (st\<lparr>candidates := hm_insert cid (latched r lowest_admissible c) (candidates st)\<rparr>,
                   Some (authorized_rung (latched r lowest_admissible c))))"

text \<open>The removal of the settled escape and of its pair is the eviction of \<^const>\<open>evict\<close>.\<close>

definition mark_broadcast :: "partial_store \<Rightarrow> string \<Rightarrow> partial_store \<times> string list" where
  "mark_broadcast st cid =
     (let (st1, invalidated_hot) = invalidate_hot_conflicts st cid;
          armed_escape = (active (armed st1) \<and> sweep_active (armed st1) \<and> armed_escape_id (armed st1) = cid)
      in (if armed_escape
          then let paired = map_option paired_commitment_id (hm_get (candidates st1) cid);
                   ids = (case paired of None \<Rightarrow> [] | Some p \<Rightarrow> [p]) @ [cid]
               in fold (\<lambda>k s. evict s k) ids st1
          else st1\<lparr>candidates := hm_modify cid (\<lambda>c. c\<lparr>broadcast := True\<rparr>) (candidates st1)\<rparr>,
          invalidated_hot))"

end
