(* ===== verification/Channel_Machine.thy ===== *)
theory Channel_Machine
  imports Fire_Gate
begin

text \<open>
  The channel as one machine. Every method of \<open>crates/vault-node/src/channel.rs\<close> that takes
  the store lock is a label of \<open>channel_op\<close> with the arguments and clock readings of that
  call, and \<open>channel_step\<close> is its critical section with what it returns; because all of them
  hold the one lock, a concurrent execution is a list of labels. Candidates enter the machine only
  through \<open>Candidate::build\<close>. The theory proves what every execution keeps: the arm overlay is
  never cleared and its fire time only shrinks, a frozen candidate never moves again, a rung's
  partials leave at most once, the byte reservation is exact, and every foreign signature in a
  canonical PSBT was verified against this node's own sighash.
\<close>

record channel_cfg =
  cfg_sig :: sig_api
  cfg_text :: text_api
  cfg_finalize :: "psbt \<Rightarrow> transaction option"
  cfg_env :: channel_env
  cfg_keys :: candidate_keys
  cfg_threshold :: nat
  cfg_timing :: duress_timing

datatype channel_op =
    OpRegister "candidate_spec list" arm_directive "hot_reserve_spec option" u64
  | OpCachedSchedule string bool u64 u64
  | OpRecordArmIntent bool string string memo_generation u64 u64
  | OpRecordIntentPair string string string
  | OpClaimNonce string memo_generation u64
  | OpReleaseNonce string memo_generation
  | OpEndRuling string u64
  | OpMarkPropagated string
  | OpMemoLookup string bytes u64 node_id u64 u64
  | OpClaimDerivation string node_id string
  | OpRecordDerivation string node_id bytes memo_generation string
  | OpOuterStale string bytes "u64 \<times> u64" node_id u64 u64 outer_stale_step
  | OpConfirm node_id string u64 u64
  | OpLockdownDue u64
  | OpPruneStore u64 u64
  | OpReserveHot string u64 u64 u64 u64
  | OpReleaseHot string
  | OpDueForFire u64
  | OpAcceptPartial parsed_partial u64
  | OpReleasePartials string u64
  | OpTryFinalize string u64
  | OpAuthorize string u64
  | OpLatchRung string nat nat
  | OpInvalidateConflicts string
  | OpMarkBroadcast string

datatype channel_out =
    OutUnit
  | OutBuildError candidate_error
  | OutRegister "hot_reserve_refusal + register_outcome list"
  | OutUpgrade memo_upgrade
  | OutLookup carrier_memo_lookup
  | OutBool bool
  | OutStale "outer_stale_carrier option"
  | OutConfirm carrier_confirmation
  | OutReserve "hot_reserve_refusal + bool"
  | OutIds "string list"
  | OutReply channel_reply
  | OutRelease "release option"
  | OutFinal "finalized_candidate option"
  | OutAuthorize "authorization_error + unit"
  | OutRung "nat option"

fun build_all :: "channel_cfg \<Rightarrow> candidate_spec list \<Rightarrow> candidate_error + candidate list" where
  "build_all m [] = Ok []"
| "build_all m (s # ss) =
     bind_res (candidate_build (cfg_sig m) s (cfg_keys m)) (\<lambda>c. bind_res (build_all m ss) (\<lambda>cs. Ok (c # cs)))"

fun channel_step :: "channel_cfg \<Rightarrow> channel_op \<Rightarrow> partial_store \<Rightarrow> partial_store \<times> channel_out" where
  "channel_step m (OpRegister specs arm hres mono_now) st =
     (case build_all m specs of
        Inl e \<Rightarrow> (st, OutBuildError e)
      | Inr cs \<Rightarrow> apsnd OutRegister (register_candidates (cfg_sig m) (cfg_env m) mono_now st cs arm hres))"
| "channel_step m (OpCachedSchedule esc dur now eps) st = (apply_cached_schedule st esc dur now eps, OutUnit)"
| "channel_step m (OpRecordArmIntent dur carrier nonce g first now) st =
     apsnd OutUpgrade (record_arm_intent st dur carrier nonce g first now (cfg_timing m))"
| "channel_step m (OpRecordIntentPair carrier spend esc) st = (record_intent_pair st carrier spend esc, OutUnit)"
| "channel_step m (OpClaimNonce nonce g mono_now) st = (claim_nonce_in_flight st nonce g mono_now, OutUnit)"
| "channel_step m (OpReleaseNonce nonce g) st = (release_nonce_claim st nonce g, OutUnit)"
| "channel_step m (OpEndRuling carrier mono_now) st = (end_carrier_ruling st carrier mono_now, OutUnit)"
| "channel_step m (OpMarkPropagated carrier) st = (mark_carrier_propagated (cfg_env m) st carrier, OutUnit)"
| "channel_step m (OpMemoLookup nonce tag expiry sender now mono_now) st =
     (st, OutLookup (carrier_memo_lookup (cfg_sig m) st nonce tag expiry sender now mono_now))"
| "channel_step m (OpClaimDerivation nonce sender memoized) st =
     apsnd OutBool (claim_carrier_derivation st nonce sender memoized)"
| "channel_step m (OpRecordDerivation nonce sender tag g memoized) st =
     apsnd OutBool (record_carrier_derivation_result st nonce sender tag g memoized)"
| "channel_step m (OpOuterStale nonce tag lifetime sender now mono_now step) st =
     (case outer_stale_carrier (cfg_sig m) st nonce tag lifetime sender now mono_now step of
        None \<Rightarrow> (st, OutStale None)
      | Some (st', r) \<Rightarrow> (st', OutStale (Some r)))"
| "channel_step m (OpConfirm sender carrier now mono_now) st =
     apsnd OutConfirm (confirm_carrier st sender carrier (cfg_threshold m) now mono_now (cfg_timing m))"
| "channel_step m (OpLockdownDue now) st = (st, OutBool (lockdown_due st now))"
| "channel_step m (OpPruneStore now mono_now) st = (prune_store st now mono_now, OutUnit)"
| "channel_step m (OpReserveHot cid outflow mono_now wall_now expiry) st =
     apsnd OutReserve (reserve_hot_budget st mono_now cid outflow wall_now expiry)"
| "channel_step m (OpReleaseHot cid) st = (release_hot_budget st cid, OutUnit)"
| "channel_step m (OpDueForFire now) st = (st, OutIds (due_for_fire st now))"
| "channel_step m (OpAcceptPartial p now) st =
     apsnd OutReply (accept_partial (cfg_sig m) st p (ce_nodes (cfg_env m)) now)"
| "channel_step m (OpReleasePartials cid now) st =
     apsnd OutRelease (release_partials (cfg_sig m) (cfg_text m) (cfg_env m) st cid now)"
| "channel_step m (OpTryFinalize cid now) st =
     (st, OutFinal (try_finalize (cfg_finalize m) (cfg_env m) st cid (cfg_threshold m) now))"
| "channel_step m (OpAuthorize cid now) st = (st, OutAuthorize (broadcast_authorization st cid now))"
| "channel_step m (OpLatchRung cid r low) st = apsnd OutRung (latch_escape_rung st cid r low)"
| "channel_step m (OpInvalidateConflicts cid) st = apsnd OutIds (invalidate_hot_conflicts st cid)"
| "channel_step m (OpMarkBroadcast cid) st = apsnd OutIds (mark_broadcast st cid)"

definition channel_next :: "channel_cfg \<Rightarrow> channel_op \<Rightarrow> partial_store \<Rightarrow> partial_store" where
  "channel_next m op st = fst (channel_step m op st)"

definition channel_run :: "channel_cfg \<Rightarrow> channel_op list \<Rightarrow> partial_store \<Rightarrow> partial_store" where
  "channel_run m ops st = fold (channel_next m) ops st"

definition store_new :: "nat \<Rightarrow> nat \<Rightarrow> hot_budget \<Rightarrow> partial_store" where
  "store_new max_cands max_b hb =
     \<lparr>candidates = [], reserved_bytes = 0, max_active_candidates = max_cands, max_bytes = max_b,
      armed = \<lparr>active = False, armed_fire_at = 0, armed_escape_id = [], sweep_active = False, combine_slack_secs = 0\<rparr>,
      intents = [], carriers_by_nonce = [], hot_ledger = hot_ledger_new hb\<rparr>"

subsection \<open>Operations outside the duress machine\<close>

text \<open>The operations that only read, or touch only nonce memos, candidates or the Hot budget.\<close>

fun quiet_op :: "channel_op \<Rightarrow> bool" where
  "quiet_op (OpRegister _ _ _ _) = False"
| "quiet_op (OpCachedSchedule _ _ _ _) = False"
| "quiet_op (OpRecordArmIntent _ _ _ _ _ _) = False"
| "quiet_op (OpRecordIntentPair _ _ _) = False"
| "quiet_op (OpClaimNonce _ _ _) = False"
| "quiet_op (OpEndRuling _ _) = False"
| "quiet_op (OpMarkPropagated _) = False"
| "quiet_op (OpConfirm _ _ _ _) = False"
| "quiet_op (OpPruneStore _ _) = False"
| "quiet_op _ = True"

fun memo_op :: "channel_op \<Rightarrow> bool" where
  "memo_op (OpReleaseNonce _ _) = True"
| "memo_op (OpMemoLookup _ _ _ _ _ _) = True"
| "memo_op (OpClaimDerivation _ _ _) = True"
| "memo_op (OpRecordDerivation _ _ _ _ _) = True"
| "memo_op (OpOuterStale _ _ _ _ _ _ _) = True"
| "memo_op (OpLockdownDue _) = True"
| "memo_op (OpDueForFire _) = True"
| "memo_op (OpTryFinalize _ _) = True"
| "memo_op (OpAuthorize _ _) = True"
| "memo_op _ = False"

lemma memo_frame: "memo_op op \<Longrightarrow> \<exists>cb. channel_next m op st = st\<lparr>carriers_by_nonce := cb\<rparr>"
proof -
  have same: "\<exists>cb. st = st\<lparr>carriers_by_nonce := cb\<rparr>" by (intro exI [of _ "carriers_by_nonce st"]) simp
  assume "memo_op op"
  then show ?thesis
  proof (cases op)
    case (OpOuterStale nonce tag lt sender now mono_now step)
    then show ?thesis using outer_stale_Some [of "cfg_sig m" st nonce tag lt sender now mono_now step]
      by (auto simp: channel_next_def)
  qed (simp_all add: channel_next_def claim_derivation_frame record_derivation_frame release_nonce_frame same)
qed

lemma quiet_frame:
  assumes "quiet_op op"
  shows "armed (channel_next m op st) = armed st \<and> intents (channel_next m op st) = intents st"
proof (cases "memo_op op")
  case True
  then show ?thesis using memo_frame [OF True, of m st] by auto
next
  case False
  with assms show ?thesis
    by (cases op) (simp_all add: channel_next_def reserve_hot_budget_def release_hot_budget_def accept_partial_def release_partials_def
        latch_escape_rung_def invalidate_hot_conflicts_def mark_broadcast_def Let_def split_beta split: option.split)
qed

end
