(* ===== verification/Channel_Demo.thy ===== *)
theory Channel_Demo
  imports Channel_Machine
begin

text \<open>
  A small concrete federation and one request through it, evaluated step by step: two nodes with
  threshold two, a spend with its paired escape of two rungs, and the operations that register the
  pair, propagate its carrier and confirm it. The witnesses of the channel's theorems run on it.
\<close>

definition demo_sig :: sig_api where
  "demo_sig = \<lparr>sa_txid = (\<lambda>tx. [word_of_nat (length (tx_output tx))]), sa_sighash = (\<lambda>tx i s v. Some [word_of_nat i]),
     sa_serialize_der = (\<lambda>x. x), sa_from_der = Some, sa_verify = (\<lambda>d s pk. s = pk), sa_psbt_len = (\<lambda>p. 100),
     sa_sha256 = (\<lambda>b. replicate 32 0)\<rparr>"

definition demo_text :: text_api where
  "demo_text = \<lparr>ta_to_hex = map (\<lambda>b. char_of (unat b)), ta_txid_to_string = map (\<lambda>b. char_of (unat b))\<rparr>"

definition demo_env :: "node_id \<Rightarrow> channel_env" where
  "demo_env self = \<lparr>ce_node_id = self,
     ce_nodes = [\<lparr>mn_node_id = 0, mn_signing_pubkey = [2], mn_channel_pubkey = [12], mn_endpoints = []\<rparr>,
                 \<lparr>mn_node_id = 1, mn_signing_pubkey = [3], mn_channel_pubkey = [13], mn_endpoints = []\<rparr>],
     ce_wallet_id = replicate 32 7, ce_manifest_hash = replicate 32 8, ce_quota_per_min = 10\<rparr>"

definition demo_cfg :: channel_cfg where
  "demo_cfg = \<lparr>cfg_sig = demo_sig, cfg_text = demo_text, cfg_finalize = (\<lambda>p. Some (unsigned_tx p)), cfg_env = demo_env 0,
     cfg_keys = \<lparr>ck_witness_script = [5], ck_user_pubkey = [1], ck_self_signing_pubkey = [2]\<rparr>, cfg_threshold = 2,
     cfg_timing = \<lparr>duress_delay_secs = 10, epsilon_secs = 1, dt_combine_slack_secs = 5\<rparr>\<rparr>"

definition demo_chan_psbt :: "nat \<Rightarrow> psbt" where
  "demo_chan_psbt n = \<lparr>unsigned_tx = \<lparr>tx_version = 2, tx_lock_time = 0,
       tx_input = [\<lparr>previous_output = \<lparr>op_txid = [9], op_vout = 0\<rparr>, script_sig = [], sequence = 0xfffffffd, txin_witness = []\<rparr>],
       tx_output = replicate n \<lparr>script_pubkey = [6], txo_value = 50\<rparr>\<rparr>,
     psbt_inputs = [\<lparr>non_witness_utxo = None, witness_utxo = Some \<lparr>script_pubkey = [4], txo_value = 100\<rparr>,
       partial_sigs = [([1], \<lparr>signature = [1], sig_sighash_type = 1\<rparr>), ([2], \<lparr>signature = [2], sig_sighash_type = 1\<rparr>)],
       psbt_sighash_type = None, redeem_script = None, witness_script = None, final_script_sig = None, final_script_witness = None\<rparr>],
     psbt_outputs = []\<rparr>"

definition demo_pair :: "bool \<Rightarrow> candidate_spec list" where
  "demo_pair h = [
     \<lparr>cs_psbt = demo_chan_psbt 4, cs_escape_bumps = [], cs_commitment_id = ''s'', cs_paired_commitment_id = ''e'',
      cs_holder_quorum_reached = False, cs_role = RoleSpend, cs_hot = h, cs_fire = Some \<lparr>fire_at = 0, fw_deadline = 100\<rparr>, cs_expiry = 1000\<rparr>,
     \<lparr>cs_psbt = demo_chan_psbt 2, cs_escape_bumps = [demo_chan_psbt 3], cs_commitment_id = ''e'', cs_paired_commitment_id = ''s'',
      cs_holder_quorum_reached = False, cs_role = RoleEscape, cs_hot = False, cs_fire = None, cs_expiry = 1000\<rparr>]"

definition demo_request :: "bool \<Rightarrow> bool \<Rightarrow> channel_op list" where
  "demo_request dur h = [
     OpRecordArmIntent dur ''k'' ''n'' \<lparr>gen_signature_tag = [1], gen_expiry = 1000, gen_deadline = 1000\<rparr> 0 0,
     OpRegister (demo_pair h) \<lparr>ad_sweep_escape = ''e'', ad_spend_commitment_id = ''s'', ad_carrier = ''k'', ad_duress = dur,
       ad_epsilon_secs = 1, ad_now = 0\<rparr> None 0,
     OpMarkPropagated ''k'',
     OpConfirm 1 ''k'' 5 5]"

definition demo_caps :: hot_budget where
  "demo_caps = \<lparr>max_per_tx_sat = 1, max_per_window_sat = 2, window_secs = 3\<rparr>"

definition demo_store :: partial_store where
  "demo_store = store_new 10 100000 demo_caps"

definition demo_variant :: "nat \<Rightarrow> signing_variant" where
  "demo_variant n = \<lparr>unsigned_txid = [word_of_nat n], sv_psbt = (demo_chan_psbt n)\<lparr>psbt_inputs := map (canonical_input (cfg_keys demo_cfg)) (psbt_inputs (demo_chan_psbt n))\<rparr>,
     sighashes = [[0]], user_sig_hash = replicate 32 0, partials = []\<rparr>"

lemma demo_variant_build: "variant_build demo_sig (demo_chan_psbt n) (cfg_keys demo_cfg) = Ok (demo_variant n)"
  by (simp add: variant_build_def demo_variant_def hash_inputs.simps canonical_input_def demo_chan_psbt_def demo_cfg_def demo_sig_def
     hm_retain_def hm_get_def tagged_hash_def)

definition demo_cand_spend :: "bool \<Rightarrow> bool \<Rightarrow> nat \<Rightarrow> candidate" where
  "demo_cand_spend h gate cap = \<lparr>c_commitment_id = ''s'', role = RoleSpend, hot = h, paired_commitment_id = ''e'', holder_quorum_reached = gate,
     base = demo_variant 4, bumps = [], rung = 0, c_release_floor = 0, c_expiry = 1000, fire = Some \<lparr>fire_at = 0, fw_deadline = 100\<rparr>,
     released = False, released_through = None, broadcast = False, c_bytes = 164, capacity_bytes = cap\<rparr>"

definition demo_cand_escape :: "bool \<Rightarrow> u64 option \<Rightarrow> nat \<Rightarrow> candidate" where
  "demo_cand_escape gate t cap = \<lparr>c_commitment_id = ''e'', role = RoleEscape, hot = False, paired_commitment_id = ''s'', holder_quorum_reached = gate,
     base = demo_variant 2, bumps = [demo_variant 3], rung = 0, c_release_floor = 0, c_expiry = 1000,
     fire = map_option (\<lambda>t. \<lparr>fire_at = t, fw_deadline = t + 5\<rparr>) t,
     released = False, released_through = None, broadcast = False, c_bytes = 328, capacity_bytes = cap\<rparr>"

lemma demo_build: "build_all demo_cfg (demo_pair h) = Ok [demo_cand_spend h False 164, demo_cand_escape False None 328]"
proof -
  have c: "cfg_sig demo_cfg = demo_sig" by (simp add: demo_cfg_def)
  have b: "variant_bytes demo_sig (demo_variant n) = 164" for n by (simp add: variant_bytes_def demo_variant_def demo_sig_def)
  show ?thesis
    by (simp add: c candidate_build_def demo_pair_def demo_variant_build b demo_cand_spend_def demo_cand_escape_def sat_simps)
qed

lemma demo_reserved:
  "reserve_partial_capacity demo_sig (demo_cand_spend h g 164) (ce_nodes (demo_env 0)) 0 = demo_cand_spend h g 416"
  "reserve_partial_capacity demo_sig (demo_cand_escape g t 328) (ce_nodes (demo_env 0)) 0 = demo_cand_escape g t 832"
proof -
  have g: "foldl (node_growth demo_sig 0 inp) cap (ce_nodes (demo_env 0)) = cap + 252"
    if "inp \<in> set (psbt_inputs (sv_psbt (demo_variant n)))" "cap < 10000" for inp cap n
    using that by (simp add: demo_variant_def demo_chan_psbt_def demo_cfg_def canonical_input_def hm_retain_def demo_env_def node_growth_def
        hm_get_def demo_sig_def PSBT_PARTIAL_SIG_FIXED_BYTES_def MAX_ECDSA_DER_BYTES_def sat_simps)
  have one: "\<exists>inp. psbt_inputs (sv_psbt (demo_variant n)) = [inp]" for n
    by (simp add: demo_variant_def demo_chan_psbt_def)
  have v: "foldl (\<lambda>cap inp. foldl (node_growth demo_sig 0 inp) cap (ce_nodes (demo_env 0))) cap (psbt_inputs (sv_psbt (demo_variant n))) = cap + 252"
    if "cap < 10000" for cap n
  proof -
    obtain inp where "psbt_inputs (sv_psbt (demo_variant n)) = [inp]" using one by blast
    with g [of inp n cap] that show ?thesis by simp
  qed
  show "reserve_partial_capacity demo_sig (demo_cand_spend h g 164) (ce_nodes (demo_env 0)) 0 = demo_cand_spend h g 416"
    by (simp add: reserve_partial_capacity_def demo_cand_spend_def variants_def v)
  show "reserve_partial_capacity demo_sig (demo_cand_escape g t 328) (ce_nodes (demo_env 0)) 0 = demo_cand_escape g t 832"
    by (simp add: reserve_partial_capacity_def demo_cand_escape_def variants_def v)
qed

definition demo_intent :: "bool \<Rightarrow> node_id list \<Rightarrow> arm_intent" where
  "demo_intent dur hs = \<lparr>holders = hs, ready_to_propagate = (hs \<noteq> []), owner_ruling = True, duress = dur, first_seen = 0,
     spend_commitment_id = ''s'', escape_commitment_id = ''e'', ai_expiry = 1000, ai_deadline = 1000, committed = False\<rparr>"

definition demo_memo :: carrier_memo where
  "demo_memo = \<lparr>cmo_outcome = Derived ''k'' [1] [], cmo_expiry = 1000, cmo_deadline = 1000\<rparr>"

text \<open>The store after the first three operations of the request.\<close>

definition demo_holding :: "bool \<Rightarrow> bool \<Rightarrow> partial_store" where
  "demo_holding dur h = demo_store\<lparr>candidates := [(''s'', demo_cand_spend h False 416), (''e'', demo_cand_escape False (Some 10) 832)],
     reserved_bytes := 1248,
     armed := \<lparr>active = False, armed_fire_at = 10, armed_escape_id = ''e'', sweep_active = False, combine_slack_secs = 5\<rparr>,
     intents := [(''k'', demo_intent dur [0])], carriers_by_nonce := [(''n'', demo_memo)]\<rparr>"

lemma demo_request_holding: "channel_run demo_cfg (take 3 (demo_request dur h)) demo_store = demo_holding dur h"
proof -
  define i1 where "i1 = (demo_intent dur [])\<lparr>spend_commitment_id := [], escape_commitment_id := []\<rparr>"
  define s1 where "s1 = demo_store\<lparr>armed := \<lparr>active = False, armed_fire_at = 10, armed_escape_id = [], sweep_active = False, combine_slack_secs = 5\<rparr>,
     intents := [(''k'', i1)], carriers_by_nonce := [(''n'', demo_memo)]\<rparr>"
  have 1: "channel_next demo_cfg (demo_request dur h ! 0) demo_store = s1"
    by (simp add: channel_next_def demo_request_def demo_store_def record_arm_intent_def Let_def write_safety_overlay_def effective_t_def
       earliest_hot_def store_new_def hm_values_def List.map_filter_def hm_get_def hm_insert_def demo_cfg_def sat_simps s1_def i1_def demo_intent_def
       fresh_intent_def demo_memo_def)
  define s2 where "s2 = demo_store\<lparr>candidates := [(''s'', demo_cand_spend h False 416), (''e'', demo_cand_escape False (Some 10) 832)],
     reserved_bytes := 1248,
     armed := \<lparr>active = False, armed_fire_at = 10, armed_escape_id = ''e'', sweep_active = False, combine_slack_secs = 5\<rparr>,
     intents := [(''k'', demo_intent dur [])], carriers_by_nonce := [(''n'', demo_memo)]\<rparr>"
  have cfg: "cfg_sig demo_cfg = demo_sig" "cfg_env demo_cfg = demo_env 0" "ce_node_id (demo_env 0) = 0"
    by (simp_all add: demo_cfg_def demo_env_def)
  have 2: "channel_next demo_cfg (demo_request dur h ! 1) s1 = s2"
    by (simp add: channel_next_def demo_request_def demo_build cfg register_candidates_def Let_def demo_reserved)
      (simp add: s1_def s2_def demo_store_def store_new_def hm_get_def hm_contains_def hm_insert_def hm_modify_def demo_cand_spend_def
        demo_cand_escape_def register_def sat_simps apply_arm_directive_def Let_def refresh_escape_window_def escape_window_def
        List.map_filter_def i1_def demo_intent_def attach_pair_def shrink_for_hold_def)
  have 3: "channel_next demo_cfg (demo_request dur h ! 2) s2 = demo_holding dur h"
    by (simp add: channel_next_def demo_request_def mark_carrier_propagated_def cfg s2_def demo_holding_def hm_modify_def set_insert_def
        demo_intent_def)
  have "take 3 (demo_request dur h) = [demo_request dur h ! 0, demo_request dur h ! 1, demo_request dur h ! 2]"
    by (simp add: demo_request_def)
  with 1 2 3 show ?thesis by (simp add: channel_run_def)
qed

text \<open>The store after the request: both gates open, and armed exactly under duress. A hot spend pulls
  the fire time to the present.\<close>

definition demo_confirmed :: "bool \<Rightarrow> bool \<Rightarrow> partial_store" where
  "demo_confirmed dur h = (let t = (if h then 5 else 10) in
     demo_store\<lparr>candidates := [(''s'', demo_cand_spend h True 416), (''e'', demo_cand_escape True (Some t) 832)],
     reserved_bytes := 1248,
     armed := \<lparr>active = dur, armed_fire_at = t, armed_escape_id = ''e'', sweep_active = dur, combine_slack_secs = 5\<rparr>\<rparr>)"

lemma demo_request_confirmed:
  "channel_run demo_cfg (demo_request dur h) demo_store = demo_confirmed dur h"
proof -
  define i2 where "i2 = (demo_intent dur [0, 1])\<lparr>committed := True\<rparr>"
  define t where "t = (if h then 5 else 10 :: nat)"
  define s2 where "s2 = (demo_holding dur h)\<lparr>intents := [(''k'', i2)]\<rparr>"
  define tm where "tm = \<lparr>duress_delay_secs = 10, epsilon_secs = 1, dt_combine_slack_secs = 5\<rparr>"
  define a where "a = \<lparr>active = dur, armed_fire_at = t, armed_escape_id = ''e'', sweep_active = False, combine_slack_secs = 5\<rparr>"
  have split: "channel_run demo_cfg (demo_request dur h) demo_store =
     channel_next demo_cfg (OpConfirm 1 ''k'' 5 5) (channel_run demo_cfg (take 3 (demo_request dur h)) demo_store)"
    by (simp add: channel_run_def demo_request_def)
  have c: "channel_next demo_cfg (OpConfirm 1 ''k'' 5 5) (demo_holding dur h) = retire_carrier (commit_holders s2 i2 5 tm) ''k''"
    by (simp add: channel_next_def confirm_carrier_def demo_cfg_def demo_holding_def hm_get_def hm_insert_def demo_intent_def
        set_insert_def s2_def i2_def tm_def Let_def)
  have e: "effective_t s2 0 5 tm = t"
    by (simp add: effective_t_def earliest_hot_def s2_def demo_holding_def hm_values_def List.map_filter_def demo_cand_spend_def demo_cand_escape_def
        tm_def t_def sat_simps)
  have w: "write_safety_overlay s2 dur 0 5 tm = s2\<lparr>armed := a\<rparr>"
    by (simp add: write_safety_overlay_def e Let_def) (simp add: s2_def demo_holding_def a_def tm_def)
  have o: "open_gate ''e'' (open_gate ''s'' (s2\<lparr>armed := a\<rparr>)) =
      s2\<lparr>armed := a, candidates := [(''s'', demo_cand_spend h True 416), (''e'', demo_cand_escape True (Some 10) 832)]\<rparr>"
    by (simp add: open_gate_def s2_def demo_holding_def hm_modify_def demo_cand_spend_def demo_cand_escape_def)
  have r: "refresh_escape_window (s\<lparr>candidates := [(''s'', demo_cand_spend h True 416), (''e'', demo_cand_escape True (Some t0) 832)], armed := b\<rparr>) ''e'' =
      s\<lparr>candidates := [(''s'', demo_cand_spend h True 416), (''e'', demo_cand_escape True (Some t) 832)], armed := b\<rparr>"
    if "armed_fire_at b = t" "combine_slack_secs b = 5" for s b t0
    using that by (simp add: refresh_escape_window_def Let_def hm_modify_def demo_cand_escape_def demo_cand_spend_def escape_window_def t_def sat_simps)
  have i: "duress i2 = dur" "escape_commitment_id i2 = ''e''" "spend_commitment_id i2 = ''s''" "first_seen i2 = 0"
    by (simp_all add: i2_def demo_intent_def)
  have cm: "commit_holders s2 i2 5 tm = s2\<lparr>candidates := [(''s'', demo_cand_spend h True 416), (''e'', demo_cand_escape True (Some t) 832)],
      armed := a\<lparr>sweep_active := dur\<rparr>\<rparr>"
  proof -
    have ad: "a\<lparr>armed_escape_id := ''e'', sweep_active := d\<rparr> = a\<lparr>sweep_active := d\<rparr>" for d by (simp add: a_def)
    have af: "armed_fire_at (a\<lparr>sweep_active := d\<rparr>) = t" "combine_slack_secs (a\<lparr>sweep_active := d\<rparr>) = 5"
      "\<not> sweep_active a" "armed_escape_id a = ''e''" for d
      by (simp_all add: a_def)
    show ?thesis
      unfolding commit_holders_def Let_def i w o by (simp add: af ad r [OF af(1,2)])
  qed
  show ?thesis
    unfolding split demo_request_holding c cm
    by (simp add: retire_carrier_def s2_def a_def demo_holding_def demo_confirmed_def Let_def t_def hm_remove_def hm_retain_def names_carrier_def
        demo_memo_def demo_store_def store_new_def)
qed

lemma demo_cfg_fields [simp]:
  "cfg_sig demo_cfg = demo_sig" "cfg_text demo_cfg = demo_text" "cfg_env demo_cfg = demo_env 0" "cfg_threshold demo_cfg = 2"
  "cfg_finalize demo_cfg = (\<lambda>p. Some (unsigned_tx p))"
  by (simp_all add: demo_cfg_def)

lemma demo_sig_fields [simp]:
  "sa_from_der demo_sig = Some" "sa_verify demo_sig = (\<lambda>d s pk. s = pk)" "sa_psbt_len demo_sig = (\<lambda>p. 100)"
  "sa_serialize_der demo_sig = (\<lambda>x. x)"
  by (simp_all add: demo_sig_def)

lemma demo_env_fields [simp]: "ce_node_id (demo_env n) = n" "length (ce_nodes (demo_env n)) = 2" "ce_quota_per_min (demo_env n) = 10"
  by (simp_all add: demo_env_def)

lemma demo_inputs_one: "length (psbt_inputs (sv_psbt (demo_variant n))) = 1"
  by (simp add: demo_variant_def demo_chan_psbt_def)

lemmas demo_confirmed_eval = demo_confirmed_def Let_def hm_get_def slot_active_def demo_cand_spend_def demo_cand_escape_def is_open_def
  demo_store_def store_new_def

text \<open>The confirmed spend is released at its fire time; the armed escape at \<open>T\<close>, one rung at a time.\<close>

lemma demo_release_spend:
  "\<exists>st' rel. release_partials demo_sig demo_text (demo_env 0) (demo_confirmed False False) ''s'' 5 = (st', Some rel)"
  by (simp add: release_partials_def demo_confirmed_eval first_rung_def releasable_rung_def quota_rung_cap_def authorized_rung_def
      release_floor_def variants_def demo_inputs_one RELEASE_QUOTA_HEADROOM_def sat_simps)

definition demo_latched :: partial_store where
  "demo_latched = channel_run demo_cfg [OpLatchRung ''e'' 1 0] (fst (release_partials demo_sig demo_text (demo_env 0) (demo_confirmed True False) ''e'' 10))"

lemma demo_release_escape:
  "\<exists>rel. release_partials demo_sig demo_text (demo_env 0) (demo_confirmed True False) ''e'' 10 =
     ((demo_confirmed True False)\<lparr>candidates := [(''s'', demo_cand_spend False True 416),
        (''e'', (demo_cand_escape True (Some 10) 832)\<lparr>released := True, released_through := Some 0\<rparr>)]\<rparr>, Some rel)"
  by (simp add: release_partials_def demo_confirmed_eval first_rung_def releasable_rung_def quota_rung_cap_def authorized_rung_def
      release_floor_def variants_def demo_inputs_one RELEASE_QUOTA_HEADROOM_def sat_simps hm_insert_def)

lemma demo_latched_eq:
  "demo_latched = (demo_confirmed True False)\<lparr>candidates := [(''s'', demo_cand_spend False True 416),
        (''e'', (demo_cand_escape True (Some 10) 832)\<lparr>released := True, released_through := Some 0, rung := 1\<rparr>)]\<rparr>"
proof -
  obtain rel where r: "release_partials demo_sig demo_text (demo_env 0) (demo_confirmed True False) ''e'' 10 =
     ((demo_confirmed True False)\<lparr>candidates := [(''s'', demo_cand_spend False True 416),
        (''e'', (demo_cand_escape True (Some 10) 832)\<lparr>released := True, released_through := Some 0\<rparr>)]\<rparr>, Some rel)"
    using demo_release_escape by blast
  show ?thesis
    by (simp add: demo_latched_def r channel_run_def channel_next_def latch_escape_rung_def hm_get_def hm_insert_def latched_def
        demo_cand_escape_def)
qed

lemma demo_release_bump:
  "\<exists>st' rel. release_partials demo_sig demo_text (demo_env 0) demo_latched ''e'' 12 = (st', Some rel)"
  by (simp add: demo_latched_eq release_partials_def demo_confirmed_eval first_rung_def releasable_rung_def quota_rung_cap_def authorized_rung_def
      release_floor_def variants_def demo_inputs_one RELEASE_QUOTA_HEADROOM_def sat_simps)

definition demo_partial :: parsed_partial where
  "demo_partial = \<lparr>pp_commitment_id = ''s'', pp_txid = [4], pp_user_sig_hash = replicate 32 0, pp_input = 0, pp_signer = 1, pp_der = [3]\<rparr>"

lemma demo_finalized:
  "\<exists>fc. try_finalize (\<lambda>p. Some (unsigned_tx p)) (demo_env 0)
     (channel_run demo_cfg (demo_request False False @ [OpAcceptPartial demo_partial 5]) demo_store) ''s'' 2 5 = Some fc"
proof -
  define v where "v = import_partial demo_sig 0 (0, 1) [3] [3] (demo_variant 4)"
  have n: "ce_nodes (demo_env 0) ! Suc 0 = \<lparr>mn_node_id = 1, mn_signing_pubkey = [3], mn_channel_pubkey = [13], mn_endpoints = []\<rparr>"
    by (simp add: demo_env_def)
  have s: "channel_run demo_cfg (demo_request False False @ [OpAcceptPartial demo_partial 5]) demo_store =
     channel_next demo_cfg (OpAcceptPartial demo_partial 5) (demo_confirmed False False)"
    using demo_request_confirmed [of False False] by (simp add: channel_run_def)
  have vf: "unsigned_txid (demo_variant 4) = [4]" "user_sig_hash (demo_variant 4) = replicate 32 0" "sighashes (demo_variant 4) = [[0]]"
    "partials (demo_variant 4) = []" by (simp_all add: demo_variant_def)
  have g: "hm_get (candidates (channel_next demo_cfg (OpAcceptPartial demo_partial 5) (demo_confirmed False False))) ''s'' =
     Some ((demo_cand_spend False True 416)\<lparr>base := v, c_bytes := 165\<rparr>)"
    by (simp add: channel_next_def accept_partial_def demo_partial_def demo_confirmed_def Let_def hm_get_def demo_cand_spend_def
        rung_of_txid_def variants_def vf variant_def demo_inputs_one hm_contains_def n v_def modify_variant_def hm_insert_def sat_simps)
  have q: "has_quorum v 2 (ce_nodes (demo_env 0))"
    by (simp add: has_quorum_def signature_count_def v_def import_partial_def demo_variant_def demo_chan_psbt_def demo_cfg_def canonical_input_def
        hm_retain_def hm_insert_def hm_contains_def hm_get_def demo_env_def)
  have a: "armed (channel_next demo_cfg (OpAcceptPartial demo_partial 5) (demo_confirmed False False)) = armed (demo_confirmed False False)"
    by (simp add: channel_next_def accept_partial_def Let_def split: option.split)
  show ?thesis
    unfolding s try_finalize_def g
    by (simp add: a slot_active_def) (simp add: demo_cand_spend_def is_open_def authorized_rung_def variant_def q demo_confirmed_def Let_def)
qed

end
