(* ===== verification/Registry.thy ===== *)
theory Registry
  imports Channel_Demo
begin

text \<open>
  What every execution of the channel keeps of the candidate registry. Each operation is shown to
  be a sequence of edits (\<open>store_edit\<close>), so an invariant is checked on the edits alone: the
  byte reservation is exact and bounded, every foreign signature in a canonical PSBT was verified
  against the sighash this node recomputed, a resident candidate only ever rises
  (\<open>cand_le\<close>), partials leave only through an open, authorized gate, and a rung leaves at
  most once.
\<close>

subsection \<open>How a resident candidate evolves\<close>

definition variant_le :: "sig_api \<Rightarrow> signing_variant \<Rightarrow> signing_variant \<Rightarrow> bool" where
  "variant_le api v v' \<longleftrightarrow>
     unsigned_txid v' = unsigned_txid v \<and> sighashes v' = sighashes v \<and> user_sig_hash v' = user_sig_hash v \<and>
     unsigned_tx (sv_psbt v') = unsigned_tx (sv_psbt v) \<and>
     length (psbt_inputs (sv_psbt v')) = length (psbt_inputs (sv_psbt v)) \<and>
     map witness_utxo (psbt_inputs (sv_psbt v')) = map witness_utxo (psbt_inputs (sv_psbt v)) \<and>
     (\<forall>i pk s. i < length (psbt_inputs (sv_psbt v)) \<longrightarrow> hm_get (partial_sigs (psbt_inputs (sv_psbt v') ! i)) pk = Some s \<longrightarrow>
        hm_get (partial_sigs (psbt_inputs (sv_psbt v) ! i)) pk = Some s \<or>
        i < length (sighashes v) \<and> sa_verify api (sighashes v ! i) (signature s) pk \<and> sig_sighash_type s = SIGHASH_ALL)"

text \<open>What never changes, what only rises, and what a release leaves behind.\<close>

definition cand_fixed :: "candidate \<Rightarrow> candidate \<Rightarrow> bool" where
  "cand_fixed c c' \<longleftrightarrow>
     c_commitment_id c' = c_commitment_id c \<and> role c' = role c \<and> hot c' = hot c \<and>
     paired_commitment_id c' = paired_commitment_id c \<and> c_expiry c' = c_expiry c \<and>
     capacity_bytes c' = capacity_bytes c \<and> length (bumps c') = length (bumps c)"

definition cand_rises :: "candidate \<Rightarrow> candidate \<Rightarrow> bool" where
  "cand_rises c c' \<longleftrightarrow>
     (holder_quorum_reached c \<longrightarrow> holder_quorum_reached c') \<and> (released c \<longrightarrow> released c') \<and>
     (broadcast c \<longrightarrow> broadcast c') \<and> rung c \<le> rung c' \<and> rung c' \<le> max (rung c) (length (bumps c))"

definition through_le :: "nat option \<Rightarrow> nat option \<Rightarrow> bool" where
  "through_le x y \<longleftrightarrow> (\<forall>r. x = Some r \<longrightarrow> (\<exists>r'. y = Some r' \<and> min r u64_max \<le> r'))"

definition cand_le :: "sig_api \<Rightarrow> bool \<Rightarrow> candidate \<Rightarrow> candidate \<Rightarrow> bool" where
  "cand_le api gate c c' \<longleftrightarrow> cand_fixed c c' \<and> cand_rises c c' \<and>
     (holder_quorum_reached c' \<and> \<not> gate \<longrightarrow> holder_quorum_reached c) \<and>
     through_le (released_through c) (released_through c') \<and> list_all2 (variant_le api) (variants c) (variants c')"

lemma variant_le_refl [simp]: "variant_le api v v"
  by (simp add: variant_le_def)

lemma variant_le_trans: "variant_le api v w \<Longrightarrow> variant_le api w x \<Longrightarrow> variant_le api v x"
  unfolding variant_le_def by (elim conjE) (intro conjI allI impI, simp_all, metis)

lemma through_le_refl [simp]: "through_le x x"
  by (simp add: through_le_def)

lemma through_le_trans: "through_le x y \<Longrightarrow> through_le y z \<Longrightarrow> through_le x z"
  by (cases x; cases y; cases z) (auto simp: through_le_def min_def split: if_splits)

lemma cand_rises_trans: "length (bumps d) = length (bumps c) \<Longrightarrow> cand_rises c d \<Longrightarrow> cand_rises d e \<Longrightarrow> cand_rises c e"
  by (auto simp: cand_rises_def max_def split: if_splits)

lemma cand_le_refl [simp]: "cand_le api g c c"
  by (simp add: cand_le_def cand_fixed_def cand_rises_def list.rel_refl)

lemma cand_le_trans: "cand_le api g c d \<Longrightarrow> cand_le api g d e \<Longrightarrow> cand_le api g c e"
  unfolding cand_le_def
proof (elim conjE, intro conjI)
  assume f: "cand_fixed c d" "cand_fixed d e"
  then show "cand_fixed c e" by (simp add: cand_fixed_def)
  from f(1) have "length (bumps d) = length (bumps c)" by (simp add: cand_fixed_def)
  then show "cand_rises c d \<Longrightarrow> cand_rises d e \<Longrightarrow> cand_rises c e" by (rule cand_rises_trans)
qed (auto intro: through_le_trans list_all2_trans [of "variant_le api" "variant_le api"] variant_le_trans)

lemma cand_le_gate: "cand_le api False c d \<Longrightarrow> cand_le api g c d"
  by (auto simp: cand_le_def)

lemma cand_le_fields:
  "cand_le api g c (c\<lparr>fire := w\<rparr>)" "cand_le api g c (c\<lparr>broadcast := True\<rparr>)"
  "cand_le api True c (c\<lparr>holder_quorum_reached := True\<rparr>)"
  by (simp_all add: cand_le_def cand_fixed_def cand_rises_def variants_def list.rel_refl)

lemma cand_le_latched: "cand_le api g c (latched r low c)"
  by (simp add: cand_le_def cand_fixed_def cand_rises_def variants_def latched_def Let_def list.rel_refl)

lemma releasable_rung_le: "releasable_rung env c \<le> u64_max" "releasable_rung env c \<le> length (bumps c)"
  by (simp_all add: releasable_rung_def quota_rung_cap_def Let_def authorized_rung_def min.coboundedI1 min.coboundedI2)

lemma cand_le_released:
  assumes "first_rung c \<le> releasable_rung env c"
  shows "cand_le api g c (c\<lparr>released := True, released_through := Some (releasable_rung env c)\<rparr>)"
proof -
  have "through_le (released_through c) (Some (releasable_rung env c))"
    using assms releasable_rung_le(1) [of env c]
    by (auto simp: through_le_def first_rung_def Let_def sat_add64_def split: option.splits)
  then show ?thesis by (simp add: cand_le_def cand_fixed_def cand_rises_def variants_def list.rel_refl)
qed

lemma variant_le_import:
  assumes "input < length (sighashes v)" "input < length (psbt_inputs (sv_psbt v))"
    and "sa_verify api (sighashes v ! input) sig expected"
  shows "variant_le api v (import_partial api input key expected sig v)"
  using assms by (auto simp: variant_le_def import_partial_def nth_list_update hm_simps map_update list_update_same_conv split: if_splits)

lemma variants_modify: "r < length (variants c) \<Longrightarrow> variants (modify_variant c r f) = (variants c)[r := f (variants c ! r)]"
  by (cases r) (simp_all add: modify_variant_def variants_def)

lemma cand_le_modify_variant:
  assumes "variant c r = Some v" "variant_le api v v'"
  shows "cand_le api g c ((modify_variant c r (\<lambda>_. v'))\<lparr>c_bytes := n\<rparr>)"
proof -
  have r: "r < length (variants c)" "variants c ! r = v" using assms(1) by (auto simp: variant_iff)
  have "variants ((modify_variant c r (\<lambda>_. v'))\<lparr>c_bytes := n\<rparr>) = (variants c)[r := v']"
    using r variants_modify [of r c "\<lambda>_. v'"] by (simp add: variants_def)
  moreover have "list_all2 (variant_le api) (variants c) ((variants c)[r := v'])"
    using r assms(2) by (auto simp: list_all2_conv_all_nth nth_list_update)
  ultimately show ?thesis by (simp add: cand_le_def cand_fixed_def cand_rises_def)
qed

subsection \<open>Edits of the registry\<close>

text \<open>
  Every operation edits the registry by a sequence of four moves: evolve one resident, insert one
  candidate of \<open>new\<close> that fits, drop one resident with its reservation, retain by a predicate. The
  gate of a resident may open only if its id is in \<open>gates\<close>; drops need \<open>drops\<close>.
\<close>

definition same_limits :: "partial_store \<Rightarrow> partial_store \<Rightarrow> bool" where
  "same_limits st st' \<longleftrightarrow> max_bytes st' = max_bytes st \<and> max_active_candidates st' = max_active_candidates st"

inductive store_edit :: "sig_api \<Rightarrow> candidate set \<Rightarrow> string set \<Rightarrow> bool \<Rightarrow> partial_store \<Rightarrow> partial_store \<Rightarrow> bool"
  for api new gates drops where
  frame: "same_limits st st' \<Longrightarrow> candidates st' = candidates st \<Longrightarrow> reserved_bytes st' = reserved_bytes st \<Longrightarrow>
    store_edit api new gates drops st st'"
| evolve: "same_limits st st' \<Longrightarrow> candidates st' = hm_modify k f (candidates st) \<Longrightarrow> reserved_bytes st' = reserved_bytes st \<Longrightarrow>
    (\<And>c. hm_get (candidates st) k = Some c \<Longrightarrow> cand_le api (k \<in> gates) c (f c)) \<Longrightarrow>
    store_edit api new gates drops st st'"
| insert: "same_limits st st' \<Longrightarrow> hm_get (candidates st) (c_commitment_id c) = None \<Longrightarrow> c \<in> new \<Longrightarrow>
    length (candidates st) < max_active_candidates st \<Longrightarrow> sat_add64 (reserved_bytes st) (capacity_bytes c) \<le> max_bytes st \<Longrightarrow>
    candidates st' = hm_insert (c_commitment_id c) c (candidates st) \<Longrightarrow>
    reserved_bytes st' = sat_add64 (reserved_bytes st) (capacity_bytes c) \<Longrightarrow> store_edit api new gates drops st st'"
| drop: "same_limits st st' \<Longrightarrow> drops \<Longrightarrow> hm_get (candidates st) k = Some c \<Longrightarrow> candidates st' = hm_remove k (candidates st) \<Longrightarrow>
    reserved_bytes st' = reserved_bytes st - capacity_bytes c \<Longrightarrow> store_edit api new gates drops st st'"
| retain: "same_limits st st' \<Longrightarrow> drops \<Longrightarrow> candidates st' = hm_retain P (candidates st) \<Longrightarrow>
    reserved_bytes st' = reserved_bytes st - foldl (\<lambda>acc (k, c). sat_add64 acc (capacity_bytes c)) 0 (filter (\<lambda>(k, c). \<not> P k c) (candidates st)) \<Longrightarrow>
    store_edit api new gates drops st st'"
| trans: "store_edit api new gates drops st st' \<Longrightarrow> store_edit api new gates drops st' st'' \<Longrightarrow>
    store_edit api new gates drops st st''"

lemma same_limits_refl [simp]: "same_limits st st"
  by (simp add: same_limits_def)

lemma store_edit_refl [simp]: "store_edit api new gates drops st st"
  by (rule frame) simp_all

lemma hm_ok_edit: "store_edit api new gates drops st st' \<Longrightarrow> hm_ok (candidates st) \<Longrightarrow> hm_ok (candidates st')"
  by (induction rule: store_edit.induct) simp_all

lemma edit_get_back:
  assumes "store_edit api new gates drops st st'" "hm_ok (candidates st)" "hm_get (candidates st') k = Some c'"
  shows "(\<exists>c. hm_get (candidates st) k = Some c \<and> cand_le api (k \<in> gates) c c') \<or>
    (\<exists>c \<in> new. c_commitment_id c = k \<and> cand_le api (k \<in> gates) c c')"
  using assms
proof (induction arbitrary: c' rule: store_edit.induct)
  case (evolve st st' k' f)
  then show ?case by (cases "k = k'") (auto simp: hm_simps)
next
  case (insert st st' c)
  then show ?case by (cases "k = c_commitment_id c") (auto simp: hm_simps)
next
  case (drop st st' k' c)
  then show ?case by (auto simp: hm_simps split: if_splits)
next
  case (retain st st' P)
  then show ?case by (auto simp: hm_simps split: option.splits if_splits)
next
  case (trans st st' st'')
  have ok: "hm_ok (candidates st')" using hm_ok_edit [OF trans.hyps(1)] trans.prems(1) by simp
  from trans.IH(2) [OF ok trans.prems(2)] show ?case
  proof
    assume "\<exists>c. hm_get (candidates st') k = Some c \<and> cand_le api (k \<in> gates) c c'"
    then obtain d where d: "hm_get (candidates st') k = Some d" "cand_le api (k \<in> gates) d c'" by blast
    from trans.IH(1) [OF trans.prems(1) d(1)] d(2) show ?thesis by (meson cand_le_trans)
  qed blast
qed auto

lemma edit_get_keep:
  assumes "store_edit api new gates drops st st'" "\<not> drops" "hm_get (candidates st) k = Some c"
  shows "\<exists>c'. hm_get (candidates st') k = Some c' \<and> cand_le api (k \<in> gates) c c'"
  using assms
proof (induction arbitrary: c rule: store_edit.induct)
  case (evolve st st' k' f)
  then show ?case by (cases "k = k'") (auto simp: hm_simps)
next
  case (insert st st' d)
  then have "k \<noteq> c_commitment_id d" by auto
  with insert show ?case by (auto simp: hm_simps)
next
  case (trans st st' st'')
  then show ?case by (meson cand_le_trans)
qed auto

subsection \<open>The byte reservation\<close>

definition held_bytes :: "partial_store \<Rightarrow> nat" where
  "held_bytes st = sum_list (map (\<lambda>e. capacity_bytes (snd e)) (candidates st))"

definition cap_inv :: "partial_store \<Rightarrow> bool" where
  "cap_inv st \<longleftrightarrow> hm_ok (candidates st) \<and> max_bytes st < u64_max \<and> reserved_bytes st = held_bytes st \<and>
     held_bytes st \<le> max_bytes st \<and> length (candidates st) \<le> max_active_candidates st"

lemma foldl_sat_caps:
  "foldl (\<lambda>acc (k, c). sat_add64 acc (capacity_bytes c)) 0 es = min (sum_list (map (\<lambda>e. capacity_bytes (snd e)) es)) u64_max"
proof -
  have "foldl (\<lambda>acc (k, c). sat_add64 acc (capacity_bytes c)) a es =
      fold (\<lambda>x acc. sat_add64 acc x) (map (\<lambda>e. capacity_bytes (snd e)) es) a" for a
    by (induction es arbitrary: a) (auto simp: split_beta)
  then show ?thesis by (simp add: fold_sat_add64)
qed

lemma cap_inv_edit: "store_edit api new gates drops st st' \<Longrightarrow> cap_inv st \<Longrightarrow> cap_inv st'"
proof (induction rule: store_edit.induct)
  case (evolve st st' k f)
  have "held_bytes st' = held_bytes st"
    unfolding held_bytes_def evolve.hyps(2)
    by (rule sum_list_hm_modify) (use evolve in \<open>auto simp: cap_inv_def cand_le_def cand_fixed_def\<close>)
  with evolve show ?case by (simp add: cap_inv_def same_limits_def)
next
  case (insert st st' c)
  then have "sat_add64 (reserved_bytes st) (capacity_bytes c) = reserved_bytes st + capacity_bytes c"
    by (intro sat_add64_small) (simp add: cap_inv_def)
  moreover have "held_bytes st' = held_bytes st + capacity_bytes c"
    using insert by (simp add: held_bytes_def hm_insert_fresh)
  ultimately show ?case using insert by (simp add: cap_inv_def same_limits_def length_hm_insert_fresh)
next
  case (drop st st' k c)
  have "held_bytes st' + capacity_bytes c = held_bytes st"
    using sum_list_hm_remove [of "candidates st" k c "\<lambda>e. capacity_bytes (snd e)"] drop by (simp add: held_bytes_def cap_inv_def)
  with drop length_hm_remove [of k "candidates st"] show ?case by (simp add: cap_inv_def same_limits_def)
next
  case (retain st st' P)
  have "held_bytes st' + sum_list (map (\<lambda>e. capacity_bytes (snd e)) (filter (\<lambda>(k, c). \<not> P k c) (candidates st))) = held_bytes st"
    using sum_list_partition [of "\<lambda>e. capacity_bytes (snd e)" "\<lambda>(k, c). P k c" "candidates st"] retain
    by (simp add: held_bytes_def hm_retain_def case_prod_unfold)
  with retain length_hm_retain [of P "candidates st"] show ?case
    by (simp add: cap_inv_def same_limits_def foldl_sat_caps)
qed (simp_all add: cap_inv_def same_limits_def held_bytes_def)

subsection \<open>The four outcomes of a registration\<close>

definition reserved_for :: "sig_api \<Rightarrow> channel_env \<Rightarrow> candidate list \<Rightarrow> candidate list" where
  "reserved_for api env cs = map (\<lambda>c. reserve_partial_capacity api c (ce_nodes env) (ce_node_id env)) cs"

definition admissible :: "partial_store \<Rightarrow> candidate list \<Rightarrow> bool" where
  "admissible st cs \<longleftrightarrow> (let new = filter (\<lambda>c. \<not> hm_contains (candidates st) (c_commitment_id c)) cs in
     sat_add64 (length (candidates st)) (length new) \<le> max_active_candidates st \<and>
     sat_add64 (reserved_bytes st) (foldl (\<lambda>acc c. sat_add64 acc (capacity_bytes c)) 0 new) \<le> max_bytes st)"

definition consistent :: "partial_store \<Rightarrow> candidate list \<Rightarrow> bool" where
  "consistent st cs \<longleftrightarrow> (\<forall>c \<in> set cs. \<forall>r. hm_get (candidates st) (c_commitment_id c) = Some r \<longrightarrow> matches_registration r c)"

definition registered :: "partial_store \<Rightarrow> candidate list \<Rightarrow> arm_directive \<Rightarrow> partial_store" where
  "registered st cs arm =
     (let holds = List.map_filter (\<lambda>c. if hot c then map_option fire_at (fire c) else None) cs;
          st3 = apply_arm_directive (fst (register_all st cs)) arm holds
      in st3\<lparr>intents := hm_modify (ad_carrier arm)
           (attach_pair (ad_spend_commitment_id arm) (ad_sweep_escape arm)) (intents st3)\<rparr>)"

lemma register_candidates_cases:
  obtains (budget) l e where "register_candidates api env t st cs arm hres = (st\<lparr>hot_ledger := l\<rparr>, Err e)"
  | (conflict) l where "register_candidates api env t st cs arm hres = (st\<lparr>hot_ledger := l\<rparr>, Ok (replicate (length cs) Conflict))"
      "\<not> consistent st (reserved_for api env cs)"
  | (capacity) l where "register_candidates api env t st cs arm hres = (st\<lparr>hot_ledger := l\<rparr>,
        Ok (map (\<lambda>c. if hm_contains (candidates st) (c_commitment_id c) then AlreadyPresent else RegAtCapacity) (reserved_for api env cs)))"
      "consistent st (reserved_for api env cs)" "\<not> admissible st (reserved_for api env cs)"
  | (admitted) l where "register_candidates api env t st cs arm hres =
        (registered (st\<lparr>hot_ledger := l\<rparr>) (reserved_for api env cs) arm,
         Ok (snd (register_all (st\<lparr>hot_ledger := l\<rparr>) (reserved_for api env cs))))"
      "consistent st (reserved_for api env cs)" "admissible st (reserved_for api env cs)"
proof -
  obtain st1 res where sr: "(case hres of None \<Rightarrow> (st, Ok False)
      | Some spec \<Rightarrow> (let (l, r) = Hot_Budget.hot_reserve (hot_ledger st) (hs_commitment_id spec) (hs_outflow_sat spec)
           t (hs_wall_now spec) (hs_expiry spec) in (st\<lparr>hot_ledger := l\<rparr>, r))) = (st1, res)" by fastforce
  have "\<exists>l. st1 = st\<lparr>hot_ledger := l\<rparr>"
  proof (cases hres)
    case None
    with sr have "st1 = st\<lparr>hot_ledger := hot_ledger st\<rparr>" by simp
    then show ?thesis by blast
  qed (use sr in \<open>auto split: prod.splits\<close>)
  then obtain l where l: "st1 = st\<lparr>hot_ledger := l\<rparr>" by blast
  have unw: "\<exists>l'. unwind_reserve st1 b hres = st\<lparr>hot_ledger := l'\<rparr>" for b
    by (auto simp: l unwind_reserve_def split: option.splits)
  let ?cs = "reserved_for api env cs"
  note d = register_candidates_def [of api env t st cs arm hres, folded reserved_for_def, unfolded Let_def, unfolded sr [unfolded Let_def] prod.case]
  show ?thesis
  proof (cases res)
    case (Inl e)
    with d l show ?thesis by (intro budget [of l e]) simp
  next
    case (Inr taken)
    have con: "list_ex (\<lambda>c. case hm_get (candidates st1) (c_commitment_id c) of None \<Rightarrow> False
        | Some resident \<Rightarrow> \<not> matches_registration resident c) ?cs \<longleftrightarrow> \<not> consistent st ?cs"
      by (auto simp: list_ex_iff consistent_def l split: option.splits)
    obtain l' where l': "unwind_reserve st1 taken hres = st\<lparr>hot_ledger := l'\<rparr>" using unw by blast
    have len: "length ?cs = length cs" by (simp add: reserved_for_def)
    show ?thesis
    proof (cases "consistent st ?cs")
      case False
      with d con Inr l' len show ?thesis by (intro conflict [of l']) simp_all
    next
      case True
      show ?thesis
      proof (cases "admissible st ?cs")
        case False
        then show ?thesis using d con Inr l' True
          by (intro capacity [of l']) (auto simp: admissible_def Let_def l not_le)
      next
        case adm: True
        show ?thesis
        proof (rule admitted [of l])
          show "register_candidates api env t st cs arm hres =
             (registered (st\<lparr>hot_ledger := l\<rparr>) ?cs arm, Ok (snd (register_all (st\<lparr>hot_ledger := l\<rparr>) ?cs)))"
            using d con Inr True adm by (simp add: admissible_def Let_def l not_le registered_def split_beta)
        qed (fact True, fact adm)
      qed
    qed
  qed
qed

subsection \<open>Every operation is an edit\<close>

lemma edit_refresh: "store_edit api new gates drops st (refresh_escape_window st k)"
proof (cases "k = []")
  case True
  then show ?thesis by (simp add: refresh_escape_window_def)
next
  case False
  show ?thesis
    by (rule evolve [where k = k and f = "\<lambda>c. if role c = RoleEscape then c\<lparr>fire := Some (escape_window (armed st))\<rparr> else c"])
      (use False in \<open>simp_all add: refresh_escape_window_def Let_def same_limits_def cand_le_fields\<close>)
qed

lemma edit_directive: "store_edit api new gates drops st (apply_arm_directive st arm holds)"
proof -
  have f: "store_edit api new gates drops st (st\<lparr>armed := a\<rparr>)" for a by (rule frame) (simp_all add: same_limits_def)
  show ?thesis
    unfolding apply_arm_directive_def Let_def by (rule trans [OF trans [OF f edit_refresh] edit_refresh])
qed

lemma edit_register: "c \<in> new \<Longrightarrow> store_edit api new gates drops st (fst (register st c))"
proof (cases "hm_get (candidates st) (c_commitment_id c) = None \<and> length (candidates st) < max_active_candidates st \<and>
    sat_add64 (reserved_bytes st) (capacity_bytes c) \<le> max_bytes st")
  case True
  assume "c \<in> new"
  with True show ?thesis
    by (intro insert [where c = c]) (simp_all add: register_def same_limits_def)
next
  case False
  then have "fst (register st c) = st" by (auto simp: register_def split: option.splits)
  then show ?thesis by simp
qed

lemma edit_register_all: "set cs \<subseteq> new \<Longrightarrow> store_edit api new gates drops st (fst (register_all st cs))"
proof (induction cs arbitrary: st)
  case (Cons c cs)
  then show ?case
    by (simp add: register_all_Cons_fst del: register_all.simps(2)) (meson edit_register trans)
qed simp

lemma edit_register_candidates:
  assumes "set (reserved_for (cfg_sig m) (cfg_env m) cs) \<subseteq> new"
  shows "store_edit api new gates drops st (fst (register_candidates (cfg_sig m) (cfg_env m) t st cs arm hres))"
proof -
  have led: "store_edit api new gates drops st (st\<lparr>hot_ledger := l\<rparr>)" for l by (rule frame) (simp_all add: same_limits_def)
  have int: "store_edit api new gates drops s (s\<lparr>intents := x\<rparr>)" for s x by (rule frame) (simp_all add: same_limits_def)
  show ?thesis
  proof (cases rule: register_candidates_cases [of "cfg_sig m" "cfg_env m" t st cs arm hres])
    case (admitted l)
    then show ?thesis using assms
      by (simp add: registered_def Let_def)
        (rule trans [OF trans [OF trans [OF led edit_register_all] edit_directive] int])
  qed (simp_all add: led)
qed

lemma edit_gate: "k \<in> gates \<Longrightarrow> store_edit api new gates drops st (open_gate k st)"
  by (rule evolve [where k = k and f = "\<lambda>c. c\<lparr>holder_quorum_reached := True\<rparr>"])
    (simp_all add: open_gate_def same_limits_def cand_le_fields)

lemma edit_commit:
  assumes "{spend_commitment_id i, escape_commitment_id i} \<subseteq> gates"
  shows "store_edit api new gates drops st (commit_holders st i now timing)"
proof -
  have o: "store_edit api new gates drops s (write_safety_overlay s b x y z)" for s b x y z
    by (rule frame) (simp_all add: same_limits_def)
  have f: "store_edit api new gates drops s (s\<lparr>armed := a\<rparr>)" for s a by (rule frame) (simp_all add: same_limits_def)
  show ?thesis
    unfolding commit_holders_def Let_def
    by (rule trans [OF trans [OF trans [OF trans [OF trans [OF o edit_gate] edit_gate] f] edit_refresh] edit_refresh])
      (use assms in auto)
qed

definition commit_gates :: "nat \<Rightarrow> partial_store \<Rightarrow> node_id \<Rightarrow> string \<Rightarrow> string set" where
  "commit_gates threshold st sender carrier = (case hm_get (intents st) carrier of None \<Rightarrow> {}
     | Some i \<Rightarrow> if sender \<notin> set (holders i) \<and> threshold \<le> Suc (length (holders i)) then {spend_commitment_id i, escape_commitment_id i} else {})"

lemma edit_confirm:
  assumes "commit_gates threshold st sender carrier \<subseteq> gates"
  shows "store_edit api new gates drops st (fst (confirm_carrier st sender carrier threshold now mono_now timing))"
proof (cases "hm_get (intents st) carrier")
  case None
  then show ?thesis by (simp add: confirm_carrier_def)
next
  case (Some i)
  have f: "store_edit api new gates drops s (s\<lparr>intents := x\<rparr>)" for s x by (rule frame) (simp_all add: same_limits_def)
  have r: "store_edit api new gates drops s (retire_carrier s carrier)" for s by (rule frame) (simp_all add: same_limits_def)
  define i2 where "i2 = i\<lparr>holders := set_insert sender (holders i), committed := True\<rparr>"
  have sub: "sender \<notin> set (holders i) \<Longrightarrow> threshold \<le> length (set_insert sender (holders i)) \<Longrightarrow>
      {spend_commitment_id i2, escape_commitment_id i2} \<subseteq> gates"
    using assms Some by (simp add: commit_gates_def set_insert_def i2_def split: if_splits)
  show ?thesis
    using Some f sub trans [OF trans [OF trans [OF f f] edit_commit [where i = i2]] r]
    by (simp add: confirm_carrier_def Let_def i2_def [symmetric])
qed

lemma edit_defeat: "store_edit api new gates drops st (defeat k st)"
proof (cases "hm_get (candidates st) k")
  case None
  then show ?thesis by (simp add: defeat_def)
next
  case (Some c)
  show ?thesis
    by (rule evolve [where k = k and f = "\<lambda>c. c\<lparr>broadcast := True\<rparr>"])
      (use Some in \<open>simp_all add: defeat_def same_limits_def cand_le_fields\<close>)
qed

lemma edit_fold:
  "(\<And>k s. store_edit api new gates drops s (f k s)) \<Longrightarrow> store_edit api new gates drops st (fold f ks st)"
proof (induction ks arbitrary: st)
  case (Cons k ks)
  then show ?case using trans by (metis fold_simps(2))
qed simp

lemma edit_invalidate: "store_edit api new gates drops st (fst (invalidate_hot_conflicts st k))"
  by (simp add: invalidate_hot_conflicts_def Let_def edit_fold edit_defeat)

lemma edit_evict: "store_edit api new gates True st (evict st k)"
proof (cases "hm_get (candidates st) k")
  case None
  then show ?thesis by (simp add: evict_def)
next
  case (Some c)
  then show ?thesis by (intro drop [where k = k and c = c]) (simp_all add: evict_def same_limits_def)
qed

lemma edit_prune: "store_edit api new gates True st (prune_store st now mono_now)"
proof -
  have c: "store_edit api new gates True st (prune_carriers st mono_now)" by (rule frame) (simp_all add: same_limits_def)
  have "store_edit api new gates True s (prune s now)" for s
    by (rule retain [where P = "prune_keeps s now"]) (simp_all add: prune_def Let_def same_limits_def)
  with c show ?thesis unfolding prune_store_def by (rule trans)
qed

lemma edit_mark_broadcast: "store_edit api new gates True st (fst (mark_broadcast st k))"
proof -
  have b: "store_edit api new gates True s (s\<lparr>candidates := hm_modify k (\<lambda>c. c\<lparr>broadcast := True\<rparr>) (candidates s)\<rparr>)" for s
    by (rule evolve [where k = k and f = "\<lambda>c. c\<lparr>broadcast := True\<rparr>"]) (simp_all add: same_limits_def cand_le_fields)
  have e: "store_edit api new gates True s (fold (\<lambda>k s. evict s k) ks s)" for s ks by (intro edit_fold edit_evict)
  show ?thesis
    using trans [OF edit_invalidate b] trans [OF trans [OF edit_invalidate e] edit_evict]
    by (simp add: mark_broadcast_def Let_def split_beta)
qed

lemma edit_replace:
  assumes "hm_ok (candidates st)" "hm_get (candidates st) k = Some c" "cand_le api (k \<in> gates) c c'"
  shows "store_edit api new gates drops st (st\<lparr>candidates := hm_insert k c' (candidates st)\<rparr>)"
  by (rule evolve [where k = k and f = "\<lambda>_. c'"]) (use assms in \<open>simp_all add: hm_insert_present same_limits_def\<close>)

lemma edit_latch:
  "hm_ok (candidates st) \<Longrightarrow> store_edit api new gates drops st (fst (latch_escape_rung st k r low))"
  by (auto simp: latch_escape_rung_def cand_le_latched intro!: edit_replace split: option.splits)

lemma edit_release:
  "hm_ok (candidates st) \<Longrightarrow> store_edit api new gates drops st (fst (release_partials sapi ta env st k now))"
  by (auto simp: release_partials_def Let_def intro!: edit_replace cand_le_released split: option.splits)

lemma edit_accept:
  assumes "hm_ok (candidates st)"
  shows "store_edit api new gates True st (fst (accept_partial api st p nodes now))"
proof -
  have "store_edit api new gates True st (st\<lparr>candidates := hm_insert (pp_commitment_id p)
        ((modify_variant c r (\<lambda>_. import_partial api (unat (pp_input p)) key expected sig v))\<lparr>c_bytes := n\<rparr>) (candidates st)\<rparr>)"
    if "hm_get (candidates st) (pp_commitment_id p) = Some c" "variant c r = Some v"
      "unat (pp_input p) < length (sighashes v)" "unat (pp_input p) < length (psbt_inputs (sv_psbt v))"
      "sa_verify api (sighashes v ! unat (pp_input p)) sig expected" for c r v key expected sig n
    by (rule edit_replace [OF assms that(1)]) (intro cand_le_modify_variant [OF that(2)] variant_le_import that)
  then show ?thesis
    by (auto simp: accept_partial_def Let_def edit_evict split: option.split)
qed

text \<open>What an operation may add, which gates it may open, and whether it may drop a resident.\<close>

definition built :: "channel_cfg \<Rightarrow> candidate_spec list \<Rightarrow> candidate list" where
  "built m specs = (case build_all m specs of Inl _ \<Rightarrow> [] | Inr cs \<Rightarrow> reserved_for (cfg_sig m) (cfg_env m) cs)"

fun op_new :: "channel_cfg \<Rightarrow> channel_op \<Rightarrow> candidate set" where
  "op_new m (OpRegister specs arm hres t) = set (built m specs)"
| "op_new m _ = {}"

fun op_gates :: "channel_cfg \<Rightarrow> channel_op \<Rightarrow> partial_store \<Rightarrow> string set" where
  "op_gates m (OpConfirm sender carrier now mono_now) st = commit_gates (cfg_threshold m) st sender carrier"
| "op_gates m _ st = {}"

fun op_drops :: "channel_op \<Rightarrow> bool" where
  "op_drops (OpPruneStore _ _) = True"
| "op_drops (OpAcceptPartial _ _) = True"
| "op_drops (OpMarkBroadcast _) = True"
| "op_drops _ = False"

lemma edit_memo: "\<exists>cb. st' = st\<lparr>carriers_by_nonce := cb\<rparr> \<Longrightarrow> store_edit api new gates drops st st'"
  by (rule frame) (auto simp: same_limits_def)

lemma edit_step:
  assumes "hm_ok (candidates st)"
  shows "store_edit (cfg_sig m) (op_new m op) (op_gates m op st) (op_drops op) st (channel_next m op st)"
proof (cases "memo_op op")
  case True
  then show ?thesis by (intro edit_memo memo_frame)
next
  case not_memo: False
  show ?thesis
  proof (cases op)
    case (OpRegister specs arm hres t)
    show ?thesis
    proof (cases "build_all m specs")
      case (Inr cs)
      then show ?thesis using OpRegister edit_register_candidates [of m cs "op_new m op"]
        by (simp add: channel_next_def built_def)
    qed (simp add: OpRegister channel_next_def)
  next
    case (OpRecordArmIntent dur carrier nonce g first now)
    then show ?thesis
      by (intro frame) (auto simp: channel_next_def record_arm_intent_def Let_def same_limits_def split: option.splits)
  next
    case (OpEndRuling carrier mono_now)
    then show ?thesis
      by (intro frame) (auto simp: channel_next_def end_carrier_ruling_def Let_def same_limits_def split: option.splits)
  next
    case (OpReserveHot cid outflow mono_now wall_now expiry)
    then show ?thesis
      by (intro frame) (auto simp: channel_next_def reserve_hot_budget_def same_limits_def split_beta)
  qed (use not_memo in \<open>simp_all add: channel_next_def edit_accept edit_release edit_latch edit_mark_broadcast edit_prune
        edit_invalidate edit_confirm assms apply_cached_schedule_def edit_directive\<close>,
      (rule frame; simp add: record_intent_pair_def claim_nonce_in_flight_def Let_def mark_carrier_propagated_def
        release_hot_budget_def same_limits_def)+)
qed

subsection \<open>Executions\<close>

lemma limits_edit: "store_edit api new gates drops st st' \<Longrightarrow> same_limits st st'"
  by (induction rule: store_edit.induct) (auto simp: same_limits_def)

lemma cap_inv_ok: "cap_inv st \<Longrightarrow> hm_ok (candidates st)"
  by (simp add: cap_inv_def)

interpretation registry: inv_system "channel_next m" cap_inv same_limits for m
proof unfold_locales
  fix st op
  assume "cap_inv st"
  note e = edit_step [OF cap_inv_ok [OF this], of m op]
  show "cap_inv (channel_next m op st)" by (rule cap_inv_edit [OF e]) fact
  show "same_limits st (channel_next m op st)" by (rule limits_edit [OF e])
qed (simp_all add: same_limits_def)

lemma cap_inv_new: "max_b < u64_max \<Longrightarrow> cap_inv (store_new max_cands max_b hb)"
  by (simp add: cap_inv_def store_new_def held_bytes_def)

text \<open>Whatever operations the channel executes from a fresh store, the byte reservation is
  exactly the sum of the capacities of the resident candidates and stays within \<open>max_candidate_store_bytes\<close>,
  and the number of candidates stays within \<open>max_active_candidates\<close>.\<close>

theorem capacity_never_exceeded:
  assumes "max_b < u64_max"
  shows "let st = channel_run m ops (store_new max_cands max_b hb) in
    reserved_bytes st = sum_list (map (\<lambda>e. capacity_bytes (snd e)) (candidates st)) \<and>
    reserved_bytes st \<le> max_b \<and> length (candidates st) \<le> max_cands"
proof -
  let ?s0 = "store_new max_cands max_b hb"
  have i: "cap_inv ?s0" by (rule cap_inv_new) fact
  show ?thesis
    using registry.run_inv [OF i, of m ops] registry.run_rel [OF i, of m ops]
    by (simp add: channel_run_def Let_def cap_inv_def same_limits_def held_bytes_def) (simp add: store_new_def)
qed

theorem capacity_never_exceeded_witness:
  "let st = channel_run demo_cfg (demo_request True True) (store_new 10 100000 demo_caps) in
    reserved_bytes st = sum_list (map (\<lambda>e. capacity_bytes (snd e)) (candidates st)) \<and> reserved_bytes st \<le> 100000 \<and> length (candidates st) \<le> 10"
  by (rule capacity_never_exceeded) (simp add: u64_max_def)

subsection \<open>Signatures in the canonical PSBTs\<close>

definition variant_ok :: "channel_cfg \<Rightarrow> signing_variant \<Rightarrow> bool" where
  "variant_ok m v \<longleftrightarrow> length (sighashes v) = length (psbt_inputs (sv_psbt v)) \<and>
     (\<forall>i < length (psbt_inputs (sv_psbt v)).
        (\<exists>utxo. witness_utxo (psbt_inputs (sv_psbt v) ! i) = Some utxo \<and>
           sa_sighash (cfg_sig m) (unsigned_tx (sv_psbt v)) i (ck_witness_script (cfg_keys m)) (txo_value utxo) = Some (sighashes v ! i)) \<and>
        (\<forall>pk s. hm_get (partial_sigs (psbt_inputs (sv_psbt v) ! i)) pk = Some s \<longrightarrow>
           pk = ck_user_pubkey (cfg_keys m) \<or> pk = ck_self_signing_pubkey (cfg_keys m) \<or>
           sa_verify (cfg_sig m) (sighashes v ! i) (signature s) pk))"

definition sig_inv :: "channel_cfg \<Rightarrow> partial_store \<Rightarrow> bool" where
  "sig_inv m st \<longleftrightarrow> hm_ok (candidates st) \<and>
     (\<forall>k c. hm_get (candidates st) k = Some c \<longrightarrow> c_commitment_id c = k \<and> (\<forall>v \<in> set (variants c). variant_ok m v))"

lemma variant_ok_le: "variant_ok m v \<Longrightarrow> variant_le (cfg_sig m) v v' \<Longrightarrow> variant_ok m v'"
proof -
  assume ok: "variant_ok m v" and le: "variant_le (cfg_sig m) v v'"
  have len: "length (psbt_inputs (sv_psbt v')) = length (psbt_inputs (sv_psbt v))"
    and w: "\<And>i. i < length (psbt_inputs (sv_psbt v)) \<Longrightarrow>
        witness_utxo (psbt_inputs (sv_psbt v') ! i) = witness_utxo (psbt_inputs (sv_psbt v) ! i)"
    using le by (simp_all add: variant_le_def list_eq_iff_nth_eq)
  show ?thesis
    unfolding variant_ok_def
  proof (intro conjI allI impI)
    show "length (sighashes v') = length (psbt_inputs (sv_psbt v'))" using ok le by (simp add: variant_ok_def variant_le_def)
  next
    fix i assume "i < length (psbt_inputs (sv_psbt v'))"
    with len have i: "i < length (psbt_inputs (sv_psbt v))" by simp
    then show "\<exists>utxo. witness_utxo (psbt_inputs (sv_psbt v') ! i) = Some utxo \<and>
        sa_sighash (cfg_sig m) (unsigned_tx (sv_psbt v')) i (ck_witness_script (cfg_keys m)) (txo_value utxo) = Some (sighashes v' ! i)"
      using ok le by (simp add: w [OF i]) (simp add: variant_ok_def variant_le_def)
    fix pk s assume "hm_get (partial_sigs (psbt_inputs (sv_psbt v') ! i)) pk = Some s"
    then show "pk = ck_user_pubkey (cfg_keys m) \<or> pk = ck_self_signing_pubkey (cfg_keys m) \<or>
        sa_verify (cfg_sig m) (sighashes v' ! i) (signature s) pk"
      using ok le i unfolding variant_ok_def variant_le_def by metis
  qed
qed

lemma variant_build_ok:
  assumes "variant_build (cfg_sig m) p (cfg_keys m) = Ok v"
  shows "variant_ok m v"
proof -
  define p' where "p' = p\<lparr>psbt_inputs := map (canonical_input (cfg_keys m)) (psbt_inputs p)\<rparr>"
  obtain shs usig where h: "hash_inputs (cfg_sig m) (cfg_keys m) (unsigned_tx p') 0 (psbt_inputs p') = Ok (shs, usig)"
    and v: "v = \<lparr>unsigned_txid = sa_txid (cfg_sig m) (unsigned_tx p'), sv_psbt = p', sighashes = shs,
        user_sig_hash = tagged_hash (sa_sha256 (cfg_sig m)) USER_SIG_HASH_TAG usig, partials = []\<rparr>"
    using assms by (auto simp: variant_build_def Let_def bind_res_Ok_iff p'_def)
  have planted: "hm_get (partial_sigs (psbt_inputs p' ! i)) pk = Some s \<Longrightarrow> i < length (psbt_inputs p') \<Longrightarrow>
      pk = ck_user_pubkey (cfg_keys m) \<or> pk = ck_self_signing_pubkey (cfg_keys m)" for i pk s
    unfolding p'_def by (auto simp: canonical_input_def dest: hm_get_retain_Some)
  show ?thesis
    using hash_inputs_Ok [OF h] planted by (auto simp: variant_ok_def v)
qed

lemma build_variants_ok: "build_variants (cfg_sig m) (cfg_keys m) ps = Ok vs \<Longrightarrow> \<forall>v \<in> set vs. variant_ok m v"
  by (induction ps arbitrary: vs) (auto simp: bind_res_Ok_iff intro: variant_build_ok)

lemma candidate_build_ok:
  "candidate_build (cfg_sig m) spec (cfg_keys m) = Ok c \<Longrightarrow> v \<in> set (variants c) \<Longrightarrow> variant_ok m v"
  by (auto simp: candidate_build_def bind_res_Ok_iff Let_def variants_def intro: variant_build_ok dest: build_variants_ok)

lemma build_all_mem:
  "build_all m specs = Ok cs \<Longrightarrow> c \<in> set cs \<Longrightarrow> \<exists>spec \<in> set specs. candidate_build (cfg_sig m) spec (cfg_keys m) = Ok c"
  by (induction specs arbitrary: cs) (auto simp: bind_res_Ok_iff)

lemma built_mem:
  assumes "c \<in> set (built m specs)"
  obtains spec c0 where "spec \<in> set specs" "candidate_build (cfg_sig m) spec (cfg_keys m) = Ok c0"
    "c = reserve_partial_capacity (cfg_sig m) c0 (ce_nodes (cfg_env m)) (ce_node_id (cfg_env m))"
proof (cases "build_all m specs")
  case (Inr cs)
  with assms obtain c0 where "c0 \<in> set cs" "c = reserve_partial_capacity (cfg_sig m) c0 (ce_nodes (cfg_env m)) (ce_node_id (cfg_env m))"
    by (auto simp: built_def reserved_for_def)
  with build_all_mem [OF Inr this(1)] that show ?thesis by blast
qed (use assms in \<open>simp add: built_def\<close>)

lemma variants_reserve [simp]: "variants (reserve_partial_capacity api c ns i) = variants c"
  by (simp add: reserve_partial_capacity_def variants_def)

lemma op_new_ok: "c \<in> op_new m op \<Longrightarrow> v \<in> set (variants c) \<Longrightarrow> variant_ok m v"
  by (cases op) (auto elim!: built_mem intro: candidate_build_ok)

lemma cand_le_variants_ok:
  assumes "cand_le (cfg_sig m) g c c'" "\<forall>v \<in> set (variants c). variant_ok m v"
  shows "\<forall>v \<in> set (variants c'). variant_ok m v"
proof -
  have "list_all2 (variant_le (cfg_sig m)) (variants c) (variants c')" using assms(1) by (simp add: cand_le_def)
  with assms(2) show ?thesis by (auto simp: list_all2_conv_all_nth in_set_conv_nth) (metis nth_mem variant_ok_le)
qed

lemma sig_inv_step: "sig_inv m st \<Longrightarrow> sig_inv m (channel_next m op st)"
proof -
  assume i: "sig_inv m st"
  then have ok: "hm_ok (candidates st)" by (simp add: sig_inv_def)
  note e = edit_step [OF ok, of m op]
  show ?thesis
    unfolding sig_inv_def
  proof (intro conjI allI impI)
    show "hm_ok (candidates (channel_next m op st))" by (rule hm_ok_edit [OF e ok])
    fix k c' assume "hm_get (candidates (channel_next m op st)) k = Some c'"
    from edit_get_back [OF e ok this] obtain c g where c: "cand_le (cfg_sig m) g c c'"
      "c_commitment_id c = k \<and> (\<forall>v \<in> set (variants c). variant_ok m v)"
    proof
      assume "\<exists>c. hm_get (candidates st) k = Some c \<and> cand_le (cfg_sig m) (k \<in> op_gates m op st) c c'"
      then show thesis using i that by (auto simp: sig_inv_def)
    next
      assume "\<exists>c \<in> op_new m op. c_commitment_id c = k \<and> cand_le (cfg_sig m) (k \<in> op_gates m op st) c c'"
      then show thesis using op_new_ok that by blast
    qed
    show "\<forall>v \<in> set (variants c'). variant_ok m v" by (rule cand_le_variants_ok [OF c(1)]) (use c(2) in simp)
    show "c_commitment_id c' = k" using c by (simp add: cand_le_def cand_fixed_def)
  qed
qed

interpretation signatures: inv_system "channel_next m" "sig_inv m" same_limits for m
proof unfold_locales
  fix st op
  assume i: "sig_inv m st"
  show "sig_inv m (channel_next m op st)" by (rule sig_inv_step [OF i])
  have "hm_ok (candidates st)" using i by (simp add: sig_inv_def)
  from limits_edit [OF edit_step [OF this]] show "same_limits st (channel_next m op st)" .
qed (simp_all add: same_limits_def)

lemma sig_inv_new: "sig_inv m (store_new a b hb)"
  by (simp add: sig_inv_def store_new_def)

lemma finalize_from_Some:
  "finalize_from fin t nodes c dl rs = Some fc \<Longrightarrow>
   \<exists>v. variant c (fc_rung fc) = Some v \<and> fc_rung fc \<in> set rs \<and> has_quorum v t nodes \<and> fin (sv_psbt v) = Some (fc_tx fc) \<and> fc_deadline fc = dl"
  by (induction rs) (auto split: option.splits if_splits)

lemma try_finalize_Some:
  assumes "try_finalize fin env st k t now = Some fc"
  obtains c w v where "hm_get (candidates st) k = Some c" "slot_active st c" "\<not> (active (armed st) \<and> hot c)" "fire c = Some w"
    "is_open w now" "\<not> broadcast c" "fc_rung fc \<le> authorized_rung c" "variant c (fc_rung fc) = Some v"
    "has_quorum v t (ce_nodes env)" "fin (sv_psbt v) = Some (fc_tx fc)"
  using assms by (auto simp: try_finalize_def split: option.splits if_splits dest!: finalize_from_Some)

text \<open>A node's share of a quorum: a signature is present under its signing key, and it verifies against the sighash
  recomputed from this node's own copy of the transaction unless the key is this node's own (whose signature this
  node made itself before it registered the candidate).\<close>

definition counted :: "channel_cfg \<Rightarrow> signing_variant \<Rightarrow> nat \<Rightarrow> manifest_node \<Rightarrow> bool" where
  "counted m v i n \<longleftrightarrow>
     (\<exists>utxo sh s. witness_utxo (psbt_inputs (sv_psbt v) ! i) = Some utxo \<and>
        sa_sighash (cfg_sig m) (unsigned_tx (sv_psbt v)) i (ck_witness_script (cfg_keys m)) (txo_value utxo) = Some sh \<and>
        hm_get (partial_sigs (psbt_inputs (sv_psbt v) ! i)) (mn_signing_pubkey n) = Some s \<and>
        (mn_signing_pubkey n = ck_self_signing_pubkey (cfg_keys m) \<or> sa_verify (cfg_sig m) sh (signature s) (mn_signing_pubkey n)))"

text \<open>The user's key is not the signing key of a manifest node: the template check refuses a descriptor in which
  two of its keys are equal.\<close>

definition user_key_apart :: "channel_cfg \<Rightarrow> bool" where
  "user_key_apart m \<longleftrightarrow> list_all (\<lambda>n. mn_signing_pubkey n \<noteq> ck_user_pubkey (cfg_keys m)) (ce_nodes (cfg_env m))"

lemma signature_count_counted:
  assumes "variant_ok m v" "i < length (psbt_inputs (sv_psbt v))"
    and "list_all (\<lambda>n. mn_signing_pubkey n \<noteq> ck_user_pubkey (cfg_keys m)) nodes"
  shows "signature_count v i nodes \<le> length (filter (counted m v i) nodes)"
proof -
  have "mn_signing_pubkey n \<noteq> ck_user_pubkey (cfg_keys m) \<Longrightarrow>
      hm_contains (partial_sigs (psbt_inputs (sv_psbt v) ! i)) (mn_signing_pubkey n) \<Longrightarrow> counted m v i n" for n
    using assms(1,2) unfolding variant_ok_def counted_def hm_contains_iff by metis
  with assms(3) have "length (filter (\<lambda>n. hm_contains (partial_sigs (psbt_inputs (sv_psbt v) ! i)) (mn_signing_pubkey n)) nodes)
      \<le> length (filter (counted m v i) nodes)"
    by (induction nodes) auto
  then show ?thesis using assms(2) by (simp add: signature_count_def)
qed

lemma finalized_counted:
  assumes inv: "sig_inv m st" and apart: "user_key_apart m"
    and fin: "try_finalize (cfg_finalize m) (cfg_env m) st k (cfg_threshold m) now = Some fc"
  shows "\<exists>c v. hm_get (candidates st) k = Some c \<and> variant c (fc_rung fc) = Some v \<and>
    cfg_finalize m (sv_psbt v) = Some (fc_tx fc) \<and> psbt_inputs (sv_psbt v) \<noteq> [] \<and>
    list_all (\<lambda>i. cfg_threshold m \<le> length (filter (counted m v i) (ce_nodes (cfg_env m)))) [0..<length (psbt_inputs (sv_psbt v))]"
proof -
  from try_finalize_Some [OF fin] obtain c v where c: "hm_get (candidates st) k = Some c" "variant c (fc_rung fc) = Some v"
    "has_quorum v (cfg_threshold m) (ce_nodes (cfg_env m))" "cfg_finalize m (sv_psbt v) = Some (fc_tx fc)" by metis
  from c(2) have "v \<in> set (variants c)" by (auto simp: variant_iff)
  with inv c(1) have ok: "variant_ok m v" by (auto simp: sig_inv_def)
  show ?thesis
  proof (intro exI conjI)
    show "hm_get (candidates st) k = Some c" "variant c (fc_rung fc) = Some v" "cfg_finalize m (sv_psbt v) = Some (fc_tx fc)"
      using c by simp_all
    show "psbt_inputs (sv_psbt v) \<noteq> []" using c(3) by (simp add: has_quorum_def)
    show "list_all (\<lambda>i. cfg_threshold m \<le> length (filter (counted m v i) (ce_nodes (cfg_env m)))) [0..<length (psbt_inputs (sv_psbt v))]"
      unfolding list_all_iff
    proof
      fix i assume "i \<in> set [0..<length (psbt_inputs (sv_psbt v))]"
      then have i: "i < length (psbt_inputs (sv_psbt v))" by simp
      with c(3) have "cfg_threshold m \<le> signature_count v i (ce_nodes (cfg_env m))" by (simp add: has_quorum_def list_all_iff)
      then show "cfg_threshold m \<le> length (filter (counted m v i) (ce_nodes (cfg_env m)))"
        using signature_count_counted [OF ok i apart [unfolded user_key_apart_def]] order_trans by blast
    qed
  qed
qed

text \<open>C10: a transaction this node combines, after any execution of the channel, comes from a
  resident candidate at a non-empty PSBT in which every input carries signatures under a threshold of manifest
  signing keys. Each one is present in the PSBT, and each one but this node's own verifies against the sighash
  recomputed from this node's own copy of the transaction. The user's key is no manifest key.\<close>

theorem finalized_needs_verified_quorum:
  assumes "user_key_apart m"
    and "try_finalize (cfg_finalize m) (cfg_env m) (channel_run m ops (store_new mc mb hb)) k (cfg_threshold m) now = Some fc"
  shows "\<exists>c v. hm_get (candidates (channel_run m ops (store_new mc mb hb))) k = Some c \<and> variant c (fc_rung fc) = Some v \<and>
    cfg_finalize m (sv_psbt v) = Some (fc_tx fc) \<and> psbt_inputs (sv_psbt v) \<noteq> [] \<and>
    list_all (\<lambda>i. cfg_threshold m \<le> length (filter (counted m v i) (ce_nodes (cfg_env m)))) [0..<length (psbt_inputs (sv_psbt v))]"
proof (rule finalized_counted [OF _ assms])
  show "sig_inv m (channel_run m ops (store_new mc mb hb))"
    using signatures.run_inv [OF sig_inv_new] by (simp add: channel_run_def)
qed

theorem finalized_needs_verified_quorum_witness:
  "\<exists>(fc :: finalized_candidate) c v. hm_get (candidates (channel_run demo_cfg (demo_request False False @ [OpAcceptPartial demo_partial 5])
       (store_new 10 100000 demo_caps))) ''s'' = Some c \<and>
     variant c (fc_rung fc) = Some v \<and> cfg_finalize demo_cfg (sv_psbt v) = Some (fc_tx fc) \<and> psbt_inputs (sv_psbt v) \<noteq> [] \<and>
     list_all (\<lambda>i. cfg_threshold demo_cfg \<le> length (filter (counted demo_cfg v i) (ce_nodes (cfg_env demo_cfg))))
       [0..<length (psbt_inputs (sv_psbt v))]"
proof -
  obtain fc where f: "try_finalize (cfg_finalize demo_cfg) (cfg_env demo_cfg)
     (channel_run demo_cfg (demo_request False False @ [OpAcceptPartial demo_partial 5]) demo_store) ''s'' (cfg_threshold demo_cfg) 5 = Some fc"
    using demo_finalized by auto
  have "user_key_apart demo_cfg" by (simp add: user_key_apart_def demo_cfg_def demo_env_def)
  from finalized_needs_verified_quorum [OF this f [unfolded demo_store_def]] show ?thesis by (rule exI)
qed

subsection \<open>A rung leaves at most once\<close>

fun resident :: "channel_cfg \<Rightarrow> string \<Rightarrow> channel_op list \<Rightarrow> partial_store \<Rightarrow> bool" where
  "resident m k [] st = hm_contains (candidates st) k"
| "resident m k (op # ops) st = (hm_contains (candidates st) k \<and> resident m k ops (channel_next m op st))"

lemma step_resident_le:
  assumes "hm_ok (candidates st)" "hm_get (candidates st) k = Some c" "hm_get (candidates (channel_next m op st)) k = Some c'"
  shows "cand_le (cfg_sig m) (k \<in> op_gates m op st) c c'"
proof (cases "op_drops op")
  case False
  with edit_get_keep [OF edit_step [OF assms(1), of m op] False assms(2)] assms(3) show ?thesis by simp
next
  case True
  then have "op_new m op = {}" by (cases op) simp_all
  with edit_get_back [OF edit_step [OF assms(1), of m op] assms(1,3)] assms(2) show ?thesis by auto
qed

lemma hm_ok_step: "hm_ok (candidates st) \<Longrightarrow> hm_ok (candidates (channel_next m op st))"
  using edit_step hm_ok_edit by blast

lemma cand_le_any: "cand_le api g c d \<Longrightarrow> cand_le api True c d"
  by (auto simp: cand_le_def)

lemma resident_le:
  assumes "hm_ok (candidates st)" "resident m k ops st" "hm_get (candidates st) k = Some c"
  shows "\<exists>c'. hm_get (candidates (channel_run m ops st)) k = Some c' \<and> cand_le (cfg_sig m) True c c'"
  using assms
proof (induction ops arbitrary: st c)
  case Nil
  then show ?case by (auto simp: channel_run_def)
next
  case (Cons op ops)
  have "hm_contains (candidates (channel_next m op st)) k" using Cons.prems(2) by (cases ops) auto
  then obtain d where d: "hm_get (candidates (channel_next m op st)) k = Some d" by (auto simp: hm_contains_iff)
  have "cand_le (cfg_sig m) True c d" using step_resident_le [OF Cons.prems(1,3) d] by (rule cand_le_any)
  moreover obtain c' where "hm_get (candidates (channel_run m ops (channel_next m op st))) k = Some c'" "cand_le (cfg_sig m) True d c'"
    using Cons.IH [OF hm_ok_step [OF Cons.prems(1)] _ d] Cons.prems(2) by auto
  ultimately show ?case by (auto simp: channel_run_def intro: cand_le_trans)
qed

lemma release_partials_Some:
  assumes "release_partials api ta env st k now = (st', Some rel)"
  obtains c w where "hm_get (candidates st) k = Some c" "slot_active st c" "\<not> (active (armed st) \<and> hot c)" "fire c = Some w"
    "is_open w now" "first_rung c \<le> releasable_rung env c" "unat (ce_node_id env) < length (ce_nodes env)"
    "st' = st\<lparr>candidates := hm_insert k (c\<lparr>released := True, released_through := Some (releasable_rung env c)\<rparr>) (candidates st)\<rparr>"
    "rel = \<lparr>rel_payloads = concat (map (variant_payloads api ta env (mn_signing_pubkey (ce_nodes env ! unat (ce_node_id env))) k (role c))
        (drop (first_rung c) (take (sat_add64 (releasable_rung env c) 1) (variants c)))), rel_deadline = fw_deadline w\<rparr>"
  using assms by (auto simp: release_partials_def Let_def not_le not_less split: option.splits if_splits)

lemma mem_variant_payloads:
  "p \<in> set (variant_payloads api ta env signer k r v) \<longleftrightarrow>
   (\<exists>i sig. i < length (psbt_inputs (sv_psbt v)) \<and> hm_get (partial_sigs (psbt_inputs (sv_psbt v) ! i)) signer = Some sig \<and>
      p = payload_of api ta env k r v i sig)"
  by (force simp: variant_payloads_def List.map_filter_def in_set_enumerate_eq image_iff)

lemma first_rung_floor: "release_floor c \<le> first_rung c"
  by (simp add: first_rung_def Let_def)

definition share_of :: "sig_api \<Rightarrow> text_api \<Rightarrow> channel_env \<Rightarrow> string \<Rightarrow> candidate \<Rightarrow> partial_payload \<Rightarrow> bool" where
  "share_of api ta env k c p \<longleftrightarrow> (\<exists>r v i sig. release_floor c \<le> r \<and> r \<le> authorized_rung c \<and> variant c r = Some v \<and>
     i < length (psbt_inputs (sv_psbt v)) \<and>
     hm_get (partial_sigs (psbt_inputs (sv_psbt v) ! i)) (mn_signing_pubkey (ce_nodes env ! unat (ce_node_id env))) = Some sig \<and>
     p = payload_of api ta env k (role c) v i sig)"

lemma release_partials_shares:
  assumes "release_partials api ta env st k now = (st', Some rel)" "hm_get (candidates st) k = Some c"
    and p: "p \<in> set (rel_payloads rel)"
  shows "share_of api ta env k c p"
proof -
  have rel: "rel_payloads rel = concat (map (variant_payloads api ta env (mn_signing_pubkey (ce_nodes env ! unat (ce_node_id env))) k (role c))
        (drop (first_rung c) (take (sat_add64 (releasable_rung env c) 1) (variants c))))"
    by (rule release_partials_Some [OF assms(1)]) (use assms(2) in simp)
  from p obtain r i sig where r: "first_rung c \<le> r" "r < sat_add64 (releasable_rung env c) 1" "r < length (variants c)"
    "i < length (psbt_inputs (sv_psbt (variants c ! r)))"
    "hm_get (partial_sigs (psbt_inputs (sv_psbt (variants c ! r)) ! i)) (mn_signing_pubkey (ce_nodes env ! unat (ce_node_id env))) = Some sig"
    "p = payload_of api ta env k (role c) (variants c ! r) i sig"
    by (auto simp: rel mem_variant_payloads mem_drop_take)
  have "r \<le> authorized_rung c" using r(2) sat_add64_le_add [of "releasable_rung env c" 1] by (simp add: releasable_rung_def)
  with r first_rung_floor [of c] show ?thesis
    unfolding share_of_def
    by (intro exI [of _ r] exI [of _ "variants c ! r"] exI [of _ i] exI [of _ sig]) (auto simp: variant_iff)
qed

text \<open>C9: the partial-release gate. Whenever \<open>release_partials\<close> hands out anything, after any execution, the
  candidate is resident, its combine window is open, its holder quorum was reached, it is not a hot spend of an
  armed store, an escape is the one the overlay selected, and every payload is this node's own signature on a rung
  between the release floor and the latched rung.\<close>

theorem release_gate_sound:
  fixes m ops mc mb hb
  defines "st \<equiv> channel_run m ops (store_new mc mb hb)"
  assumes "release_partials (cfg_sig m) (cfg_text m) (cfg_env m) st k now = (st', Some rel)"
  shows "\<exists>c w. hm_get (candidates st) k = Some c \<and> fire c = Some w \<and> is_open w now \<and> rel_deadline rel = fw_deadline w \<and>
    holder_quorum_reached c \<and> \<not> (active (armed st) \<and> hot c) \<and> (role c \<noteq> RoleEscape \<or> is_armed_escape st k) \<and>
    list_all (share_of (cfg_sig m) (cfg_text m) (cfg_env m) k c) (rel_payloads rel)"
proof -
  from release_partials_Some [OF assms(2)] obtain c w where
    c: "hm_get (candidates st) k = Some c" "slot_active st c" "\<not> (active (armed st) \<and> hot c)" "fire c = Some w" "is_open w now"
      "rel_deadline rel = fw_deadline w" by (metis release.select_convs(2))
  have "sig_inv m st" unfolding st_def channel_run_def by (rule signatures.run_inv [OF sig_inv_new])
  with c(1) have "c_commitment_id c = k" by (simp add: sig_inv_def)
  with c release_partials_shares [OF assms(2) c(1)] show ?thesis
    by (intro exI [of _ c] exI [of _ w]) (auto simp: slot_active_def Let_def is_armed_escape_def list_all_iff)
qed

theorem release_gate_sound_witness:
  "\<exists>rel c w. snd (release_partials demo_sig demo_text (demo_env 0) (demo_confirmed False False) ''s'' 5) = Some rel \<and>
    hm_get (candidates (demo_confirmed False False)) ''s'' = Some c \<and> fire c = Some w \<and> is_open w 5 \<and> rel_deadline rel = fw_deadline w \<and>
    holder_quorum_reached c \<and> \<not> (active (armed (demo_confirmed False False)) \<and> hot c) \<and>
    (role c \<noteq> RoleEscape \<or> is_armed_escape (demo_confirmed False False) ''s'') \<and>
    list_all (share_of demo_sig demo_text (demo_env 0) ''s'' c) (rel_payloads rel)"
proof -
  have st: "channel_run demo_cfg (demo_request False False) (store_new 10 100000 demo_caps)
      = demo_confirmed False False" using demo_request_confirmed by (simp add: demo_store_def)
  obtain st' rel where r: "release_partials (cfg_sig demo_cfg) (cfg_text demo_cfg) (cfg_env demo_cfg) (demo_confirmed False False) ''s'' 5 = (st', Some rel)"
    using demo_release_spend by auto
  from release_gate_sound [where m = demo_cfg and ops = "demo_request False False" and mc = 10 and mb = 100000 and
      hb = demo_caps, unfolded st, OF r] r show ?thesis by auto
qed

text \<open>Two releases of one candidate that stays resident in between hand out disjoint, increasing ranges of
  rungs, and the second still ends within the ladder: a rung's partials leave this node at most once.\<close>

theorem rung_released_once:
  assumes "hm_ok (candidates st)" "hm_get (candidates st) k = Some c" "length (bumps c) < u64_max"
    and "release_partials (cfg_sig m) (cfg_text m) (cfg_env m) st k t1 = (st1, Some rel1)"
    and "resident m k ops st1" "hm_get (candidates (channel_run m ops st1)) k = Some c2"
    and "release_partials (cfg_sig m) (cfg_text m) (cfg_env m) (channel_run m ops st1) k t2 = (st2, Some rel2)"
  shows "releasable_rung (cfg_env m) c < first_rung c2 \<and> releasable_rung (cfg_env m) c2 \<le> length (bumps c)"
proof -
  let ?c1 = "c\<lparr>released := True, released_through := Some (releasable_rung (cfg_env m) c)\<rparr>"
  have st1: "st1 = st\<lparr>candidates := hm_insert k ?c1 (candidates st)\<rparr>"
    using release_partials_Some [OF assms(4)] assms(2) by (metis option.inject)
  have "cand_le (cfg_sig m) True ?c1 c2"
    using resident_le [OF _ assms(5), of ?c1] assms(1,6) by (simp add: st1 hm_simps)
  then have t: "through_le (Some (releasable_rung (cfg_env m) c)) (released_through c2)" and l: "length (bumps c2) = length (bumps c)"
    by (simp_all add: cand_le_def cand_fixed_def)
  from t obtain r' where r': "released_through c2 = Some r'" "min (releasable_rung (cfg_env m) c) u64_max \<le> r'" by (auto simp: through_le_def)
  have "releasable_rung (cfg_env m) c < u64_max" using releasable_rung_le(2) [of "cfg_env m" c] assms(3) by simp
  with r' have "releasable_rung (cfg_env m) c < first_rung c2" by (auto simp: first_rung_def Let_def sat_add64_def min_def max_def split: if_splits)
  with releasable_rung_le(2) [of "cfg_env m" c2] l show ?thesis by simp
qed

theorem rung_released_once_witness:
  "releasable_rung (demo_env 0) (demo_cand_escape True (Some 10) 832)
     < first_rung ((demo_cand_escape True (Some 10) 832)\<lparr>released := True, released_through := Some 0, rung := 1\<rparr>) \<and>
   releasable_rung (demo_env 0) ((demo_cand_escape True (Some 10) 832)\<lparr>released := True, released_through := Some 0, rung := 1\<rparr>)
     \<le> length (bumps (demo_cand_escape True (Some 10) 832))"
proof -
  let ?st = "demo_confirmed True False"
  obtain st1 rel1 where r1: "release_partials demo_sig demo_text (demo_env 0) ?st ''e'' 10 = (st1, Some rel1)"
    using demo_release_escape by auto
  have l: "channel_run demo_cfg [OpLatchRung ''e'' 1 0] st1 = demo_latched" using r1 by (simp add: demo_latched_def)
  obtain st2 rel2 where r2: "release_partials demo_sig demo_text (demo_env 0) demo_latched ''e'' 12 = (st2, Some rel2)"
    using demo_release_bump by auto
  have c: "hm_ok (candidates ?st)" "hm_get (candidates ?st) ''e'' = Some (demo_cand_escape True (Some 10) 832)"
    "length (bumps (demo_cand_escape True (Some 10) 832)) < u64_max"
    by (simp_all add: demo_confirmed_def hm_ok_def hm_get_def demo_cand_escape_def u64_max_def)
  have g: "hm_get (candidates demo_latched) ''e'' = Some ((demo_cand_escape True (Some 10) 832)\<lparr>released := True, released_through := Some 0, rung := 1\<rparr>)"
    by (simp add: demo_latched_eq hm_get_def)
  have "hm_contains (candidates st1) ''e''" using r1 demo_release_escape by (auto simp: hm_contains_def hm_get_def)
  then have "resident demo_cfg ''e'' [OpLatchRung ''e'' 1 0] st1" using l g by (simp add: channel_run_def hm_contains_def)
  from rung_released_once [of ?st "''e''" _ demo_cfg 10 st1 rel1 "[OpLatchRung ''e'' 1 0]" _ 12 st2 rel2, OF c _ this]
  show ?thesis using r1 r2 l g by simp
qed

subsection \<open>Registration is all or nothing\<close>

definition new_in :: "partial_store \<Rightarrow> candidate list \<Rightarrow> candidate list" where
  "new_in st cs = filter (\<lambda>c. \<not> hm_contains (candidates st) (c_commitment_id c)) cs"

definition fits :: "partial_store \<Rightarrow> candidate list \<Rightarrow> bool" where
  "fits st cs \<longleftrightarrow> length (candidates st) + length (new_in st cs) \<le> max_active_candidates st \<and>
     min (reserved_bytes st + sum_list (map capacity_bytes (new_in st cs))) u64_max \<le> max_bytes st"

lemma foldl_sat_capacity:
  "foldl (\<lambda>acc c. sat_add64 acc (capacity_bytes c)) 0 cs = min (sum_list (map capacity_bytes cs)) u64_max"
proof -
  have "foldl (\<lambda>acc c. sat_add64 acc (capacity_bytes c)) a cs = fold (\<lambda>x acc. sat_add64 acc x) (map capacity_bytes cs) a" for a
    by (induction cs arbitrary: a) auto
  then show ?thesis by (simp add: fold_sat_add64)
qed

lemma admissible_fits: "admissible st cs \<Longrightarrow> max_active_candidates st < u64_max \<Longrightarrow> fits st cs"
  unfolding admissible_def Let_def fits_def new_in_def [symmetric] foldl_sat_capacity
  by (auto simp: sat_add64_def min_def split: if_splits)

lemma register_fits:
  assumes "fits st (c # cs)" "consistent st (c # cs)" "c_commitment_id c \<notin> c_commitment_id ` set cs"
  shows "snd (register st c) \<in> {Inserted, AlreadyPresent} \<and> fits (fst (register st c)) cs \<and> consistent (fst (register st c)) cs"
proof (cases "hm_get (candidates st) (c_commitment_id c)")
  case None
  then have n: "new_in st (c # cs) = c # new_in st cs" by (simp add: new_in_def hm_contains_def)
  have lt: "length (candidates st) < max_active_candidates st" and sz: "sat_add64 (reserved_bytes st) (capacity_bytes c) \<le> max_bytes st"
    using assms(1) by (auto simp: fits_def n sat_add64_def min_def split: if_splits)
  have r: "register st c = (st\<lparr>reserved_bytes := sat_add64 (reserved_bytes st) (capacity_bytes c),
      candidates := hm_insert (c_commitment_id c) c (candidates st)\<rparr>, Inserted)"
    using None lt sz by (simp add: register_def)
  have nn: "new_in (fst (register st c)) cs = new_in st cs"
    using assms(3) by (auto simp: new_in_def r hm_contains_def hm_simps image_iff intro!: filter_cong)
  have eq: "min (sat_add64 a b + s) u64_max = min (a + (b + s)) u64_max" for a b s
    by (simp add: sat_add64_def min_def)
  have "fits (fst (register st c)) cs"
    using assms(1) unfolding fits_def nn n by (simp add: r length_hm_insert_fresh [OF None] eq)
  moreover have "consistent (fst (register st c)) cs"
    using assms(2,3) by (auto simp: consistent_def r hm_simps image_iff split: if_splits)
  ultimately show ?thesis by (simp add: r)
next
  case (Some d)
  then have "register st c = (st, AlreadyPresent)" using assms(2) by (simp add: register_def consistent_def)
  moreover have "new_in st (c # cs) = new_in st cs" using Some by (simp add: new_in_def hm_contains_def)
  ultimately show ?thesis using assms(1,2) by (auto simp: fits_def consistent_def)
qed

lemma register_contains:
  assumes "snd (register st c) \<in> {Inserted, AlreadyPresent}"
  shows "hm_contains (candidates (fst (register st c))) (c_commitment_id c)"
  using assms by (auto simp: register_def hm_contains_def hm_simps split: option.splits if_splits)

lemma edit_contains: "store_edit api new gates False st st' \<Longrightarrow> hm_contains (candidates st) k \<Longrightarrow> hm_contains (candidates st') k"
  using edit_get_keep [of api new gates False st st' k] by (auto simp: hm_contains_iff)

lemma register_all_fits:
  assumes "fits st cs" "consistent st cs" "distinct (map c_commitment_id cs)"
  shows "set (snd (register_all st cs)) \<subseteq> {Inserted, AlreadyPresent} \<and> length (snd (register_all st cs)) = length cs \<and>
    list_all (\<lambda>c. hm_contains (candidates (fst (register_all st cs))) (c_commitment_id c)) cs"
  using assms
proof (induction cs arbitrary: st)
  case (Cons c cs)
  have d: "c_commitment_id c \<notin> c_commitment_id ` set cs" using Cons.prems(3) by simp
  note r = register_fits [OF Cons.prems(1,2) d]
  have IH: "set (snd (register_all (fst (register st c)) cs)) \<subseteq> {Inserted, AlreadyPresent} \<and>
      length (snd (register_all (fst (register st c)) cs)) = length cs \<and>
      list_all (\<lambda>x. hm_contains (candidates (fst (register_all (fst (register st c)) cs))) (c_commitment_id x)) cs"
    by (rule Cons.IH) (use r Cons.prems(3) in auto)
  have "hm_contains (candidates (fst (register st c))) (c_commitment_id c)" by (rule register_contains) (use r in simp)
  then have "hm_contains (candidates (fst (register_all (fst (register st c)) cs))) (c_commitment_id c)"
    by (rule edit_contains [OF edit_register_all [OF subset_refl], rotated])
  with IH r show ?case by (simp add: split_beta Let_def)
qed simp

text \<open>Registering a request's candidates is all or nothing. Either the store is unchanged but for the
  Hot-budget ledger and no candidate was inserted, or every candidate is reported inserted or already present and
  every one of them is resident.\<close>

theorem register_candidates_atomic:
  assumes "distinct (map c_commitment_id cs)" "max_active_candidates st < u64_max"
    and "register_candidates api env t st cs arm hres = (st', res)"
  shows "(\<exists>l. st' = st\<lparr>hot_ledger := l\<rparr>) \<and> (case res of Inl _ \<Rightarrow> True | Inr outs \<Rightarrow> length outs = length cs \<and> Inserted \<notin> set outs) \<or>
    (\<exists>outs. res = Ok outs \<and> length outs = length cs \<and> set outs \<subseteq> {Inserted, AlreadyPresent} \<and>
       list_all (\<lambda>c. hm_contains (candidates st') (c_commitment_id c)) cs)"
proof -
  have ids: "map c_commitment_id (reserved_for api env cs) = map c_commitment_id cs"
    by (simp add: reserved_for_def reserve_partial_capacity_def comp_def)
  have len: "length (reserved_for api env cs) = length cs" by (simp add: reserved_for_def)
  show ?thesis
  proof (cases rule: register_candidates_cases [of api env t st cs arm hres])
    case (admitted l)
    let ?s = "st\<lparr>hot_ledger := l\<rparr>" and ?cs = "reserved_for api env cs"
    have "fits ?s ?cs" using admissible_fits [OF admitted(3) assms(2)] by (simp add: fits_def new_in_def)
    moreover have "consistent ?s ?cs" using admitted(2) by (simp add: consistent_def)
    ultimately have r: "set (snd (register_all ?s ?cs)) \<subseteq> {Inserted, AlreadyPresent} \<and> length (snd (register_all ?s ?cs)) = length ?cs \<and>
        list_all (\<lambda>c. hm_contains (candidates (fst (register_all ?s ?cs))) (c_commitment_id c)) ?cs"
      by (rule register_all_fits) (simp add: ids assms(1))
    have "hm_contains (candidates (registered ?s ?cs arm)) k" if "hm_contains (candidates (fst (register_all ?s ?cs))) k" for k
      using edit_contains [OF edit_directive that] by (simp add: registered_def Let_def)
    with r have "list_all (\<lambda>k. hm_contains (candidates (registered ?s ?cs arm)) k) (map c_commitment_id ?cs)"
      by (auto simp: list_all_iff)
    then have "list_all (\<lambda>c. hm_contains (candidates (registered ?s ?cs arm)) (c_commitment_id c)) cs"
      unfolding ids by (simp add: list_all_iff)
    with r admitted(1) assms(3) show ?thesis by (auto simp: len)
  qed (use assms(3) in \<open>auto simp: len\<close>)
qed

theorem register_candidates_atomic_witness:
  "\<exists>st' res. register_candidates demo_sig (demo_env 0) 0 demo_store [demo_cand_spend False False 164] \<lparr>ad_sweep_escape = [], ad_spend_commitment_id = ''s'', ad_carrier = [], ad_duress = False, ad_epsilon_secs = 1, ad_now = 0\<rparr> None = (st', res) \<and>
    ((\<exists>l. st' = demo_store\<lparr>hot_ledger := l\<rparr>) \<and> (case res of Inl _ \<Rightarrow> True | Inr outs \<Rightarrow> length outs = 1 \<and> Inserted \<notin> set outs) \<or>
     (\<exists>outs. res = Ok outs \<and> length outs = 1 \<and> set outs \<subseteq> {Inserted, AlreadyPresent} \<and>
       list_all (\<lambda>c. hm_contains (candidates st') (c_commitment_id c)) [demo_cand_spend False False 164]))"
proof -
  obtain st' res where r: "register_candidates demo_sig (demo_env 0) 0 demo_store [demo_cand_spend False False 164] \<lparr>ad_sweep_escape = [], ad_spend_commitment_id = ''s'', ad_carrier = [], ad_duress = False, ad_epsilon_secs = 1, ad_now = 0\<rparr> None = (st', res)"
    by fastforce
  have "max_active_candidates demo_store < u64_max" by (simp add: demo_store_def store_new_def u64_max_def)
  from register_candidates_atomic [OF _ this r] r show ?thesis by (cases res) simp_all
qed

subsection \<open>Pruning\<close>

lemma hot_release_fold_get:
  "hm_get (reservations (fold (\<lambda>k l. hot_release l k) ks l)) k = (if k \<in> set ks then None else hm_get (reservations l) k)"
  by (induction ks arbitrary: l) (auto simp: hot_release_def hm_simps)

text \<open>The expiry sweep, entry by entry. A candidate survives exactly if it does not belong to a completed
  armed fire and is unexpired or in the exempted context of a pending delayed slot; a swept candidate gives its
  Hot-budget reservation back exactly if it was an unexposed hot spend, and every other reservation is kept.\<close>

theorem prune_store_spec:
  assumes "hm_ok (candidates st)"
  shows "hm_get (candidates (prune_store st now mono_now)) k =
      (case hm_get (candidates st) k of None \<Rightarrow> None
       | Some c \<Rightarrow> if k \<notin> set (fire_complete_ids st now) \<and> (now \<le> c_expiry c \<or> k \<in> set (exempt_delayed_context st now)) then Some c else None) \<and>
    hm_get (reservations (hot_ledger (prune_store st now mono_now))) k =
      (case hm_get (candidates st) k of None \<Rightarrow> hm_get (reservations (hot_ledger st)) k
       | Some c \<Rightarrow> if is_unexposed_hot c \<and> hm_get (candidates (prune_store st now mono_now)) k = None then None
           else hm_get (reservations (hot_ledger st)) k)"
proof -
  let ?s = "prune_carriers st mono_now"
  have k: "prune_keeps ?s now = prune_keeps st now"
    by (intro ext) (simp add: prune_keeps_def fire_complete_ids_def exempt_delayed_context_def)
  have g: "hm_get (candidates (prune_store st now mono_now)) k =
      (case hm_get (candidates st) k of None \<Rightarrow> None | Some c \<Rightarrow> if prune_keeps st now k c then Some c else None)"
    using assms by (simp add: prune_store_def prune_def Let_def k hm_simps)
  define freed where "freed = map fst (filter (\<lambda>(k, c). is_unexposed_hot c) (filter (\<lambda>(k, c). \<not> prune_keeps st now k c) (candidates st)))"
  have l: "hot_ledger (prune_store st now mono_now) = fold (\<lambda>k l. hot_release l k) freed (hot_ledger st)"
    by (simp add: prune_store_def prune_def Let_def k freed_def)
  have m: "k \<in> set freed \<longleftrightarrow> (\<exists>c. hm_get (candidates st) k = Some c \<and> is_unexposed_hot c \<and> \<not> prune_keeps st now k c)"
    using assms by (force simp: freed_def hm_get_iff_mem)
  show ?thesis
    unfolding l hot_release_fold_get g
    by (cases "hm_get (candidates st) k") (auto simp: m prune_keeps_def)
qed

theorem prune_store_spec_witness:
  "hm_get (candidates (prune_store (demo_confirmed True True) 2000 0)) ''s'' =
      (case hm_get (candidates (demo_confirmed True True)) ''s'' of None \<Rightarrow> None
       | Some c \<Rightarrow> if ''s'' \<notin> set (fire_complete_ids (demo_confirmed True True) 2000) \<and>
            (2000 \<le> c_expiry c \<or> ''s'' \<in> set (exempt_delayed_context (demo_confirmed True True) 2000)) then Some c else None)"
proof -
  have "hm_ok (candidates (demo_confirmed True True))" by (simp add: demo_confirmed_def hm_ok_def)
  from prune_store_spec [OF this, of 2000 0 "''s''"] show ?thesis by blast
qed

lemma delayed_pair_survives:
  assumes "hm_ok (candidates st)" "hm_get (candidates st) e = Some esc" "open_escape_slot now esc" "c_commitment_id esc = e"
    and "k = e \<or> k = paired_commitment_id esc" "k \<notin> set (fire_complete_ids st now)"
  shows "hm_get (candidates (prune_store st now mono_now)) k = hm_get (candidates st) k"
proof -
  have "esc \<in> set (hm_values (candidates st))" by (rule hm_get_values [OF assms(2)])
  with assms(3-5) have "k \<in> set (exempt_delayed_context st now)" by (auto simp: exempt_delayed_context_def)
  with prune_store_spec [OF assms(1), of now mono_now k] assms(6) show ?thesis by (simp split: option.splits)
qed

end
