(* ===== verification/Arm_Quorum.thy ===== *)
theory Arm_Quorum
  imports Registry
begin

text \<open>
  Why the duress overlay can be trusted. Along any execution of the channel the overlay is never
  disarmed, its fire time never moves later and the selected escape never changes; an armed node
  never lets a hot candidate move. The overlay arms, and the holder gate of a candidate opens, only
  after a threshold of distinct nodes was seen holding one and the same carrier; for arming, a
  request with that carrier was judged a duress at this node. The commit that does either retires
  the carrier.
\<close>

subsection \<open>The overlay along an execution\<close>

lemma registered_armed: "armed (registered st cs arm) = armed (apply_arm_directive (fst (register_all st cs)) arm
    (List.map_filter (\<lambda>c. if hot c then map_option fire_at (fire c) else None) cs))"
  by (simp add: registered_def Let_def)

lemma armed_register_candidates:
  obtains "armed (fst (register_candidates api env t st cs arm hres)) = armed st"
  | st1 holds where "armed st1 = armed st" "armed (fst (register_candidates api env t st cs arm hres)) = armed (apply_arm_directive st1 arm holds)"
proof (cases rule: register_candidates_cases [of api env t st cs arm hres])
  case (admitted l)
  then show ?thesis
    by (intro that(2) [of "fst (register_all (st\<lparr>hot_ledger := l\<rparr>) (reserved_for api env cs))"
          "List.map_filter (\<lambda>c. if hot c then map_option fire_at (fire c) else None) (reserved_for api env cs)"])
      (simp_all add: registered_armed)
qed (auto intro: that(1))

text \<open>A receipt either leaves the overlay alone or commits the quorum it completes.\<close>

lemma confirm_carrier_cases:
  obtains (none) r where "confirm_carrier st sender carrier t now mono_now timing = (st, r)" "\<not> cc_committed r"
  | (counted) i where "hm_get (intents st) carrier = Some i" "sender \<notin> set (holders i)"
      "length (holders i) + 1 < t"
      "confirm_carrier st sender carrier t now mono_now timing =
        (st\<lparr>intents := hm_insert carrier (i\<lparr>holders := set_insert sender (holders i)\<rparr>) (intents st)\<rparr>, NONE_CONFIRMED)"
  | (commit) i i2 st2 where "hm_get (intents st) carrier = Some i" "ready_to_propagate i" "\<not> committed i" "sender \<notin> set (holders i)"
      "mono_now < ai_deadline i" "now < ai_expiry i" "t \<le> length (holders i) + 1"
      "i2 = i\<lparr>holders := set_insert sender (holders i), committed := True\<rparr>"
      "st2 = st\<lparr>intents := hm_insert carrier i2 (hm_insert carrier (i\<lparr>holders := set_insert sender (holders i)\<rparr>) (intents st))\<rparr>"
      "confirm_carrier st sender carrier t now mono_now timing =
        (retire_carrier (commit_holders st2 i2 now timing) carrier, \<lparr>cc_committed = True, cc_armed = duress i, cc_clock_refused = False\<rparr>)"
proof (cases "hm_get (intents st) carrier")
  case None
  then show ?thesis by (intro none [of NONE_CONFIRMED]) (simp_all add: confirm_carrier_def NONE_CONFIRMED_def)
next
  case (Some i)
  show ?thesis
  proof (cases "ready_to_propagate i \<and> \<not> committed i \<and> sender \<notin> set (holders i) \<and> mono_now < ai_deadline i \<and> now < ai_expiry i")
    case False
    then show ?thesis
      by (intro none [of "snd (confirm_carrier st sender carrier t now mono_now timing)"])
        (auto simp: confirm_carrier_def Some NONE_CONFIRMED_def CLOCK_REFUSED_def)
  next
    case True
    show ?thesis
    proof (cases "length (holders i) + 1 < t")
      case True': True
      show ?thesis by (rule counted [of i]) (use True True' Some in \<open>simp_all add: confirm_carrier_def set_insert_def\<close>)
    next
      case False
      show ?thesis
        by (rule commit [OF Some _ _ _ _ _ _ refl refl])
          (use True False Some in \<open>simp_all add: confirm_carrier_def set_insert_def Let_def\<close>)
    qed
  qed
qed

definition activates :: "channel_cfg \<Rightarrow> channel_op \<Rightarrow> partial_store \<Rightarrow> bool" where
  "activates m op st \<longleftrightarrow> (\<exists>s carrier now mono_now i. op = OpConfirm s carrier now mono_now \<and> hm_get (intents st) carrier = Some i \<and>
     duress i \<and> s \<notin> set (holders i) \<and> cfg_threshold m \<le> length (holders i) + 1)"

definition arm_next :: "channel_cfg \<Rightarrow> channel_op \<Rightarrow> partial_store \<Rightarrow> partial_store \<Rightarrow> bool" where
  "arm_next m op st st' \<longleftrightarrow> arm_le (armed st) (armed st') \<and> (sweep_inv (armed st) \<longrightarrow> sweep_inv (armed st')) \<and>
     (active (armed st') \<longrightarrow> active (armed st) \<or> activates m op st)"

lemma arm_next_same: "armed st' = armed st \<Longrightarrow> arm_next m op st st'"
  by (simp add: arm_next_def)

lemma arm_next_directive: "armed s = armed st \<Longrightarrow> armed st' = armed (apply_arm_directive s arm holds) \<Longrightarrow> arm_next m op st st'"
  using arm_le_directive [of s arm holds] sweep_inv_directive [of s arm holds]
  by (simp add: arm_next_def) (simp add: apply_arm_directive_def Let_def)

lemma arm_step_confirm:
  "arm_next m (OpConfirm sender carrier now mono_now) st (channel_next m (OpConfirm sender carrier now mono_now) st)"
proof -
  let ?op = "OpConfirm sender carrier now mono_now"
  have s: "channel_next m ?op st = fst (confirm_carrier st sender carrier (cfg_threshold m) now mono_now (cfg_timing m))"
    by (simp add: channel_next_def)
  show ?thesis
  proof (cases rule: confirm_carrier_cases [of st sender carrier "cfg_threshold m" now mono_now "cfg_timing m"])
    case (commit i i2 st2)
    then have a: "armed st2 = armed st" "duress i2 = duress i" by simp_all
    have "active (armed (commit_holders st2 i2 now (cfg_timing m))) \<longrightarrow> active (armed st) \<or> duress i"
      by (simp add: armed_commit_holders Let_def write_safety_overlay_def a)
    with commit a arm_le_commit [of st2 i2 now "cfg_timing m"] sweep_inv_commit [of st2 i2 now "cfg_timing m"] show ?thesis
      unfolding s by (auto simp: arm_next_def activates_def)
  qed (simp_all add: s arm_next_same)
qed

lemma arm_step: "arm_next m op st (channel_next m op st)"
proof (cases "quiet_op op")
  case True
  then show ?thesis by (simp add: arm_next_same quiet_frame)
next
  case False
  then show ?thesis
  proof (cases op)
    case (OpRegister specs arm hres t)
    show ?thesis
    proof (cases "build_all m specs")
      case (Inr cs)
      then have s: "channel_next m op st = fst (register_candidates (cfg_sig m) (cfg_env m) t st cs arm hres)"
        by (simp add: OpRegister channel_next_def)
      show ?thesis unfolding s
        by (rule armed_register_candidates [of "cfg_sig m" "cfg_env m" t st cs arm hres])
          (erule arm_next_same, erule (1) arm_next_directive)
    qed (simp add: OpRegister channel_next_def arm_next_same)
  next
    case (OpRecordArmIntent dur carrier nonce g first now)
    have "armed (channel_next m op st) = armed (write_safety_overlay st False first now (cfg_timing m))"
      by (simp add: OpRecordArmIntent channel_next_def record_arm_intent_def Let_def split: option.splits)
    then show ?thesis using arm_le_overlay [of st False first now "cfg_timing m"] sweep_inv_overlay [of st False first now "cfg_timing m"]
      by (simp add: arm_next_def) (simp add: write_safety_overlay_def Let_def)
  next
    case (OpEndRuling carrier mono_now)
    then show ?thesis by (simp add: channel_next_def end_carrier_ruling_def Let_def arm_next_same split: option.splits)
  next
    case (OpCachedSchedule esc dur now eps)
    show ?thesis
      by (rule arm_next_directive [OF refl]) (simp add: OpCachedSchedule channel_next_def apply_cached_schedule_def)
  qed (simp_all add: arm_step_confirm, simp_all add: channel_next_def arm_next_same record_intent_pair_def
        claim_nonce_in_flight_def Let_def mark_carrier_propagated_def prune_store_def)
qed

interpretation arming: inv_system "channel_next m" "\<lambda>st. sweep_inv (armed st)" "\<lambda>st st'. arm_le (armed st) (armed st')" for m
  by unfold_locales (use arm_step arm_le_trans in \<open>auto simp: arm_next_def\<close>)

text \<open>C35: the duress overlay is a one-way street. From any store in which a sweep is only selected while armed,
  no execution ever disarms it, moves its fire time later, deselects the sweep or selects another escape.\<close>

theorem armed_forever:
  assumes "sweep_active (armed st) \<longrightarrow> active (armed st)"
  shows "arm_le (armed st) (armed (channel_run m ops st))"
  using arming.run_rel [of st m ops] assms by (simp add: channel_run_def sweep_inv_def)

theorem armed_forever_witness:
  "arm_le (armed (demo_confirmed True True)) (armed (channel_run demo_cfg (demo_request False True) (demo_confirmed True True)))"
  by (rule armed_forever) (simp add: demo_confirmed_def)

text \<open>While armed, nothing of a hot candidate can move: it is not due, releases nothing, is never
  combined and never authorized for the network.\<close>

lemma frozen_hot:
  assumes "active (armed st)" "hm_get (candidates st) k = Some c" "hot c"
  shows "\<not> due st now c" "release_partials api ta env st k now = (st, None)" "try_finalize fin env st k t now = None"
    "\<exists>e. broadcast_authorization st k now = Err e"
  using assms by (simp_all add: due_def release_partials_def try_finalize_def broadcast_authorization_def Let_def)

text \<open>C6: once armed, a hot spend stays frozen for the rest of every execution: whichever operations follow, a resident
  hot candidate is not due, releases no partial, is not combined, and is refused at the last check before the
  network send.\<close>

theorem armed_freezes_hot:
  fixes m ops st0
  defines "st \<equiv> channel_run m ops st0"
  assumes "active (armed st0)" "hm_get (candidates st) k = Some c" "hot c"
  shows "\<not> due st now c \<and> snd (release_partials (cfg_sig m) (cfg_text m) (cfg_env m) st k now) = None \<and>
    try_finalize (cfg_finalize m) (cfg_env m) st k (cfg_threshold m) now = None \<and>
    with_broadcast_authorization st k now send \<in> range Inl"
proof -
  have "active (armed st)"
    using arming.run_rel [of st0 m ops] assms(2) by (simp add: st_def channel_run_def arm_le_def sweep_inv_def)
  note f = frozen_hot [OF this assms(3,4)]
  from f(4) [of now] have "with_broadcast_authorization st k now send \<in> range Inl"
    by (auto simp: with_broadcast_authorization_def)
  with f(1-3) show ?thesis by simp
qed

theorem armed_freezes_hot_witness:
  "\<not> due (channel_run demo_cfg [] (demo_confirmed True True)) 5 (demo_cand_spend True True 416) \<and>
   snd (release_partials (cfg_sig demo_cfg) (cfg_text demo_cfg) (cfg_env demo_cfg) (channel_run demo_cfg [] (demo_confirmed True True)) ''s'' 5) = None \<and>
   try_finalize (cfg_finalize demo_cfg) (cfg_env demo_cfg) (channel_run demo_cfg [] (demo_confirmed True True)) ''s'' (cfg_threshold demo_cfg) 5 = None \<and>
   with_broadcast_authorization (channel_run demo_cfg [] (demo_confirmed True True)) ''s'' 5 (\<lambda>_. True) \<in> range Inl"
  by (rule armed_freezes_hot) (simp_all add: channel_run_def demo_confirmed_def hm_get_def, simp add: demo_cand_spend_def)

subsection \<open>Where an intent comes from\<close>

fun op_adds_holder :: "channel_cfg \<Rightarrow> channel_op \<Rightarrow> string \<Rightarrow> node_id \<Rightarrow> bool" where
  "op_adds_holder m (OpMarkPropagated c) carrier h = (c = carrier \<and> h = ce_node_id (cfg_env m))"
| "op_adds_holder m (OpConfirm s c _ _) carrier h = (c = carrier \<and> h = s)"
| "op_adds_holder m _ carrier h = False"

fun op_duress :: "channel_op \<Rightarrow> string \<Rightarrow> bool" where
  "op_duress (OpRecordArmIntent d c _ _ _ _) carrier = (d \<and> c = carrier)"
| "op_duress _ carrier = False"

fun op_pairs :: "channel_op \<Rightarrow> string \<Rightarrow> string \<Rightarrow> bool" where
  "op_pairs (OpRegister _ arm _ _) carrier k = (ad_carrier arm = carrier \<and> k \<in> {ad_spend_commitment_id arm, ad_sweep_escape arm})"
| "op_pairs (OpRecordIntentPair c a b) carrier k = (c = carrier \<and> k \<in> {a, b})"
| "op_pairs _ carrier k = False"

definition intent_from :: "channel_cfg \<Rightarrow> channel_op \<Rightarrow> string \<Rightarrow> arm_intent option \<Rightarrow> arm_intent \<Rightarrow> bool" where
  "intent_from m op carrier old i' \<longleftrightarrow>
     (let hs = (case old of None \<Rightarrow> [] | Some i \<Rightarrow> holders i);
          d = (case old of None \<Rightarrow> False | Some i \<Rightarrow> duress i);
          ks = (case old of None \<Rightarrow> {[]} | Some i \<Rightarrow> {spend_commitment_id i, escape_commitment_id i})
      in (holders i' = hs \<or> (\<exists>h. holders i' = set_insert h hs \<and> op_adds_holder m op carrier h)) \<and>
         (duress i' \<longrightarrow> d \<or> op_duress op carrier) \<and>
         (\<forall>k \<in> {spend_commitment_id i', escape_commitment_id i'}. k \<in> ks \<or> op_pairs op carrier k))"

lemma intent_from_same [simp]: "intent_from m op carrier (Some i) i"
  by (simp add: intent_from_def)

lemma intents_directive [simp]: "intents (apply_arm_directive st arm holds) = intents st"
  by (simp add: apply_arm_directive_def Let_def)

lemma intents_commit [simp]: "intents (commit_holders st i now timing) = intents st"
  by (simp add: commit_holders_def Let_def)

definition intents_from :: "channel_cfg \<Rightarrow> channel_op \<Rightarrow> (string, arm_intent) hmap \<Rightarrow> (string, arm_intent) hmap \<Rightarrow> bool" where
  "intents_from m op a b \<longleftrightarrow> hm_ok b \<and> (\<forall>carrier i'. hm_get b carrier = Some i' \<longrightarrow> intent_from m op carrier (hm_get a carrier) i')"

lemma intents_from_same: "hm_ok a \<Longrightarrow> intents_from m op a a"
  by (simp add: intents_from_def)

lemma intents_from_retain: "intents_from m op a b \<Longrightarrow> intents_from m op a (hm_retain P b)"
  by (auto simp: intents_from_def hm_simps split: option.splits if_splits)

lemma intents_from_remove: "intents_from m op a b \<Longrightarrow> intents_from m op a (hm_remove c b)"
  by (auto simp: intents_from_def hm_simps)

lemma intents_from_insert:
  "hm_ok a \<Longrightarrow> intent_from m op c (hm_get a c) i \<Longrightarrow> intents_from m op a (hm_insert c i a)"
  by (auto simp: intents_from_def hm_simps)

lemma intents_from_insert2:
  "hm_ok a \<Longrightarrow> intent_from m op c (hm_get a c) i \<Longrightarrow> intents_from m op a (hm_insert c i (hm_insert c i2 a))"
  by (auto simp: intents_from_def hm_simps)

lemma intents_from_modify:
  "hm_ok a \<Longrightarrow> (\<And>i. hm_get a c = Some i \<Longrightarrow> intent_from m op c (Some i) (f i)) \<Longrightarrow> intents_from m op a (hm_modify c f a)"
  by (auto simp: intents_from_def hm_simps)

lemma intents_step_confirm:
  assumes ok: "hm_ok (intents st)" and op: "op = OpConfirm sender carrier now mono_now"
  shows "intents_from m op (intents st) (intents (channel_next m op st))"
proof -
  have s: "channel_next m op st = fst (confirm_carrier st sender carrier (cfg_threshold m) now mono_now (cfg_timing m))"
    by (simp add: op channel_next_def)
  show ?thesis
  proof (cases rule: confirm_carrier_cases [of st sender carrier "cfg_threshold m" now mono_now "cfg_timing m"])
    case (none r)
    then show ?thesis by (simp add: s intents_from_same ok)
  next
    case (counted i)
    then show ?thesis by (simp add: s) (rule intents_from_insert [OF ok], auto simp: intent_from_def op)
  next
    case (commit i i2 st2)
    then show ?thesis
      by (simp add: s retire_carrier_def) (intro intents_from_remove intents_from_insert2 ok, auto simp: intent_from_def op)
  qed
qed

lemma intents_step_register:
  assumes ok: "hm_ok (intents st)" and op: "op = OpRegister specs arm hres t"
  shows "intents_from m op (intents st) (intents (channel_next m op st))"
proof -
  show ?thesis
  proof (cases "build_all m specs")
    case (Inr cs)
    then have s: "channel_next m op st = fst (register_candidates (cfg_sig m) (cfg_env m) t st cs arm hres)"
      by (simp add: op channel_next_def)
    show ?thesis
    proof (cases rule: register_candidates_cases [of "cfg_sig m" "cfg_env m" t st cs arm hres])
      case (admitted l)
      then show ?thesis unfolding s
        by (simp add: registered_def Let_def)
          (rule intents_from_modify [OF ok], simp add: intent_from_def attach_pair_def op)
    qed (simp_all add: s intents_from_same ok)
  qed (simp add: op channel_next_def intents_from_same ok)
qed

lemma intents_step:
  assumes ok: "hm_ok (intents st)"
  shows "intents_from m op (intents st) (intents (channel_next m op st))"
proof (cases "quiet_op op")
  case True
  then show ?thesis by (simp add: quiet_frame intents_from_same ok)
next
  case False
  then show ?thesis
  proof (cases op)
    case (OpRecordArmIntent dur carrier nonce g first now)
    define i1 where "i1 = (case hm_get (intents st) carrier of None \<Rightarrow> fresh_intent first g | Some i \<Rightarrow> i)"
    have "intents (channel_next m op st) = hm_insert carrier (i1\<lparr>duress := duress i1 \<or> dur, owner_ruling := True\<rparr>) (intents st)"
      by (simp add: OpRecordArmIntent channel_next_def record_arm_intent_def Let_def i1_def split: option.splits)
    moreover have "intent_from m op carrier (hm_get (intents st) carrier) (i1\<lparr>duress := duress i1 \<or> dur, owner_ruling := True\<rparr>)"
      by (simp add: intent_from_def OpRecordArmIntent i1_def fresh_intent_def split: option.splits)
    ultimately show ?thesis using intents_from_insert [OF ok] by simp
  next
    case (OpEndRuling carrier mono_now)
    have "intents_from m op (intents st) (hm_modify carrier (\<lambda>i. i\<lparr>owner_ruling := False\<rparr>) (intents st))"
      by (rule intents_from_modify [OF ok]) (simp add: intent_from_def)
    then show ?thesis
      by (simp add: OpEndRuling channel_next_def end_carrier_ruling_def Let_def retire_carrier_def intents_from_remove intents_from_same ok
          split: option.splits)
  next
    case (OpMarkPropagated carrier)
    then show ?thesis
      by (simp add: channel_next_def mark_carrier_propagated_def) (rule intents_from_modify [OF ok], auto simp: intent_from_def)
  next
    case (OpRecordIntentPair carrier a b)
    then show ?thesis
      by (simp add: channel_next_def record_intent_pair_def) (rule intents_from_modify [OF ok], auto simp: intent_from_def attach_pair_def)
  qed (simp_all add: intents_step_confirm intents_step_register ok, simp_all add: channel_next_def apply_cached_schedule_def
        claim_nonce_in_flight_def Let_def prune_store_def prune_carriers_def intents_from_same intents_from_retain ok)
qed

subsection \<open>Arming needs a quorum\<close>

definition quorum_seen :: "channel_cfg \<Rightarrow> channel_op list \<Rightarrow> string \<Rightarrow> bool" where
  "quorum_seen m ops carrier \<longleftrightarrow> (\<exists>hs. distinct hs \<and> cfg_threshold m \<le> length hs \<and>
     list_all (\<lambda>h. list_ex (\<lambda>op. op_adds_holder m op carrier h) ops) hs)"

definition duress_seen :: "channel_op list \<Rightarrow> string \<Rightarrow> bool" where
  "duress_seen ops carrier = list_ex (\<lambda>op. op_duress op carrier) ops"

definition pair_seen :: "channel_op list \<Rightarrow> string \<Rightarrow> string \<Rightarrow> bool" where
  "pair_seen ops carrier k = (k = [] \<or> list_ex (\<lambda>op. op_pairs op carrier k) ops)"

text \<open>A candidate registered with its gate already open, as a refresh is.\<close>

fun op_born_open :: "channel_op \<Rightarrow> string \<Rightarrow> bool" where
  "op_born_open (OpRegister specs _ _ _) k = list_ex (\<lambda>s. cs_commitment_id s = k \<and> cs_holder_quorum_reached s) specs"
| "op_born_open _ k = False"

definition gate_seen :: "channel_cfg \<Rightarrow> channel_op list \<Rightarrow> string \<Rightarrow> bool" where
  "gate_seen m ops k \<longleftrightarrow> list_ex (\<lambda>op. op_born_open op k) ops \<or> (\<exists>carrier. quorum_seen m ops carrier \<and> pair_seen ops carrier k)"

definition intent_seen :: "channel_cfg \<Rightarrow> channel_op list \<Rightarrow> string \<Rightarrow> arm_intent \<Rightarrow> bool" where
  "intent_seen m ops carrier i \<longleftrightarrow> distinct (holders i) \<and>
     list_all (\<lambda>h. list_ex (\<lambda>op. op_adds_holder m op carrier h) ops) (holders i) \<and>
     (duress i \<longrightarrow> duress_seen ops carrier) \<and>
     pair_seen ops carrier (spend_commitment_id i) \<and> pair_seen ops carrier (escape_commitment_id i)"

definition hist_inv :: "channel_cfg \<Rightarrow> channel_op list \<Rightarrow> partial_store \<Rightarrow> bool" where
  "hist_inv m ops st \<longleftrightarrow> hm_ok (candidates st) \<and> hm_ok (intents st) \<and>
     (\<forall>carrier i. hm_get (intents st) carrier = Some i \<longrightarrow> intent_seen m ops carrier i) \<and>
     (active (armed st) \<longrightarrow> (\<exists>carrier. quorum_seen m ops carrier \<and> duress_seen ops carrier)) \<and>
     (\<forall>k c. hm_get (candidates st) k = Some c \<longrightarrow> holder_quorum_reached c \<longrightarrow> gate_seen m ops k)"

lemma seen_mono:
  "quorum_seen m ops carrier \<Longrightarrow> quorum_seen m (ops @ [op]) carrier"
  "duress_seen ops carrier \<Longrightarrow> duress_seen (ops @ [op]) carrier"
  "pair_seen ops carrier k \<Longrightarrow> pair_seen (ops @ [op]) carrier k"
  "gate_seen m ops k \<Longrightarrow> gate_seen m (ops @ [op]) k"
proof -
  show q: "quorum_seen m ops carrier \<Longrightarrow> quorum_seen m (ops @ [op]) carrier" for carrier
    by (auto simp: quorum_seen_def list_all_iff)
  show "duress_seen ops carrier \<Longrightarrow> duress_seen (ops @ [op]) carrier" by (simp add: duress_seen_def)
  show p: "pair_seen ops carrier k \<Longrightarrow> pair_seen (ops @ [op]) carrier k" for carrier k by (auto simp: pair_seen_def)
  show "gate_seen m ops k \<Longrightarrow> gate_seen m (ops @ [op]) k" using q p by (auto simp: gate_seen_def)
qed

lemma intent_seen_step:
  assumes "intent_from m op carrier old i'" "\<And>i. old = Some i \<Longrightarrow> intent_seen m ops carrier i"
  shows "intent_seen m (ops @ [op]) carrier i'"
proof (cases old)
  case None
  with assms(1) show ?thesis
    by (auto simp: intent_from_def intent_seen_def duress_seen_def pair_seen_def list_all_iff Let_def set_insert_def)
next
  case (Some i)
  note a = assms(2) [OF Some]
  have "holders i' = holders i \<or> (\<exists>h. holders i' = set_insert h (holders i) \<and> op_adds_holder m op carrier h)"
    using assms(1) Some by (simp add: intent_from_def Let_def)
  with a have "distinct (holders i')" "list_all (\<lambda>h. list_ex (\<lambda>op. op_adds_holder m op carrier h) (ops @ [op])) (holders i')"
    by (auto simp: intent_seen_def list_all_iff)
  moreover have "duress i' \<longrightarrow> duress_seen (ops @ [op]) carrier"
    using assms(1) a Some by (auto simp: intent_from_def intent_seen_def duress_seen_def)
  moreover have "pair_seen (ops @ [op]) carrier k" if "k \<in> {spend_commitment_id i', escape_commitment_id i'}" for k
  proof -
    have "k \<in> {spend_commitment_id i, escape_commitment_id i} \<or> op_pairs op carrier k"
      using assms(1) Some that by (auto simp: intent_from_def Let_def)
    then show ?thesis using a seen_mono(3) [of ops carrier k op] by (auto simp: intent_seen_def) (simp_all add: pair_seen_def)
  qed
  ultimately show ?thesis by (simp add: intent_seen_def)
qed

lemma activates_seen:
  assumes "activates m op st" "\<And>carrier i. hm_get (intents st) carrier = Some i \<Longrightarrow> intent_seen m ops carrier i"
  shows "\<exists>carrier. quorum_seen m (ops @ [op]) carrier \<and> duress_seen (ops @ [op]) carrier"
proof -
  obtain s carrier now mono_now i where o: "op = OpConfirm s carrier now mono_now" "hm_get (intents st) carrier = Some i"
    "duress i" "s \<notin> set (holders i)" "cfg_threshold m \<le> length (holders i) + 1"
    using assms(1) by (auto simp: activates_def)
  note i = assms(2) [OF o(2)]
  have "quorum_seen m (ops @ [op]) carrier"
    unfolding quorum_seen_def
    by (intro exI [of _ "s # holders i"]) (use i o in \<open>auto simp: intent_seen_def list_all_iff\<close>)
  moreover have "duress_seen (ops @ [op]) carrier" using i o(3) seen_mono(2) by (auto simp: intent_seen_def)
  ultimately show ?thesis by blast
qed

lemma op_gates_seen:
  assumes "k \<in> op_gates m op st" "\<And>carrier i. hm_get (intents st) carrier = Some i \<Longrightarrow> intent_seen m ops carrier i"
  shows "gate_seen m (ops @ [op]) k"
proof -
  obtain s carrier now mono_now i where o: "op = OpConfirm s carrier now mono_now" "hm_get (intents st) carrier = Some i"
    "s \<notin> set (holders i)" "cfg_threshold m \<le> Suc (length (holders i))" "k \<in> {spend_commitment_id i, escape_commitment_id i}"
    using assms(1) by (cases op) (auto simp: commit_gates_def split: option.splits if_splits)
  note i = assms(2) [OF o(2)]
  have "quorum_seen m (ops @ [op]) carrier"
    unfolding quorum_seen_def
    by (intro exI [of _ "s # holders i"]) (use i o in \<open>auto simp: intent_seen_def list_all_iff\<close>)
  moreover have "pair_seen (ops @ [op]) carrier k" using i o(5) seen_mono(3) by (auto simp: intent_seen_def)
  ultimately show ?thesis by (auto simp: gate_seen_def)
qed

lemma candidate_build_gate:
  "candidate_build api spec keys = Ok c \<Longrightarrow> holder_quorum_reached c = cs_holder_quorum_reached spec \<and> c_commitment_id c = cs_commitment_id spec"
  by (auto simp: candidate_build_def bind_res_Ok_iff Let_def)

lemma op_new_born:
  "c \<in> op_new m op \<Longrightarrow> holder_quorum_reached c \<Longrightarrow> op_born_open op (c_commitment_id c)"
  by (cases op) (auto elim!: built_mem dest!: candidate_build_gate simp: reserve_partial_capacity_def list_ex_iff)

lemma hist_inv_step:
  assumes "hist_inv m ops st"
  shows "hist_inv m (ops @ [op]) (channel_next m op st)"
proof -
  have okc: "hm_ok (candidates st)" and oki: "hm_ok (intents st)"
    and seen: "\<And>carrier i. hm_get (intents st) carrier = Some i \<Longrightarrow> intent_seen m ops carrier i"
    and act: "active (armed st) \<Longrightarrow> \<exists>carrier. quorum_seen m ops carrier \<and> duress_seen ops carrier"
    and gate: "\<And>k c. hm_get (candidates st) k = Some c \<Longrightarrow> holder_quorum_reached c \<Longrightarrow> gate_seen m ops k"
    using assms by (auto simp: hist_inv_def)
  have int: "intents_from m op (intents st) (intents (channel_next m op st))" by (rule intents_step [OF oki])
  have "gate_seen m (ops @ [op]) k" if g: "hm_get (candidates (channel_next m op st)) k = Some c'" "holder_quorum_reached c'" for k c'
  proof (cases "k \<in> op_gates m op st")
    case True
    then show ?thesis by (rule op_gates_seen) (rule seen)
  next
    case False
    from edit_get_back [OF edit_step [OF okc, of m op] okc g(1)] False g(2)
    have "(\<exists>c. hm_get (candidates st) k = Some c \<and> holder_quorum_reached c) \<or> (\<exists>c \<in> op_new m op. c_commitment_id c = k \<and> holder_quorum_reached c)"
      by (auto simp: cand_le_def)
    then show ?thesis
    proof
      assume "\<exists>c. hm_get (candidates st) k = Some c \<and> holder_quorum_reached c"
      then show ?thesis using gate seen_mono(4) by blast
    next
      assume "\<exists>c \<in> op_new m op. c_commitment_id c = k \<and> holder_quorum_reached c"
      then have "op_born_open op k" using op_new_born by blast
      then show ?thesis by (simp add: gate_seen_def)
    qed
  qed
  moreover have "\<exists>carrier. quorum_seen m (ops @ [op]) carrier \<and> duress_seen (ops @ [op]) carrier"
    if "active (armed (channel_next m op st))"
  proof -
    have "active (armed st) \<or> activates m op st" using arm_step [of m op st] that by (simp add: arm_next_def)
    then show ?thesis using act seen_mono(1,2) activates_seen [OF _ seen, of op] by blast
  qed
  moreover have "intent_seen m (ops @ [op]) carrier i'" if "hm_get (intents (channel_next m op st)) carrier = Some i'" for carrier i'
    by (rule intent_seen_step [OF _ seen]) (use int that in \<open>auto simp: intents_from_def\<close>)
  ultimately show ?thesis
    using hm_ok_step [OF okc, of m op] int by (auto simp: hist_inv_def intents_from_def)
qed

lemma hist_inv_run: "hist_inv m ops0 st \<Longrightarrow> hist_inv m (ops0 @ ops) (channel_run m ops st)"
proof (induction ops arbitrary: ops0 st)
  case (Cons op ops)
  from Cons.IH [OF hist_inv_step [OF Cons.prems, of op]] show ?case by (simp add: channel_run_def)
qed (simp add: channel_run_def)

lemma hist_inv_new: "hist_inv m [] (store_new mc mb hb)"
  by (simp add: hist_inv_def store_new_def)

text \<open>C3: arming is confirmation-gated. If an execution from a fresh store ends armed, then for some one carrier it
  recorded an intent judged duress by this node, and a threshold of distinct nodes, each by its own receipt or, for
  this node, by its own propagation, were seen to hold that very carrier.\<close>

theorem arm_needs_quorum:
  assumes "active (armed (channel_run m ops (store_new mc mb hb)))"
  shows "\<exists>carrier. duress_seen ops carrier \<and> quorum_seen m ops carrier"
  using hist_inv_run [OF hist_inv_new, of m ops mc mb hb] assms by (auto simp: hist_inv_def)

theorem arm_needs_quorum_witness:
  "\<exists>carrier. duress_seen (demo_request True False) carrier \<and> quorum_seen demo_cfg (demo_request True False) carrier"
proof (rule arm_needs_quorum)
  show "active (armed (channel_run demo_cfg (demo_request True False) (store_new 10 100000 demo_caps)))"
    using demo_request_confirmed [of True False] by (simp add: demo_store_def [symmetric]) (simp add: demo_confirmed_def Let_def)
qed

text \<open>C8: no partial of a request that awaits confirmation leaves before the holder quorum. Take an execution from a
  fresh store in which the candidate \<open>k\<close> was never registered with its gate already open (a spend and its escape
  register with the gate closed; only a refresh, which needs no confirmation, registers with it open). If
  \<open>release_partials\<close> hands out partials of \<open>k\<close> afterwards, then a threshold of distinct nodes had been seen holding one
  carrier, and \<open>k\<close> had been attached to that carrier.\<close>

theorem release_needs_quorum:
  assumes "list_all (\<lambda>op. \<not> op_born_open op k) ops" and "k \<noteq> []"
    and "release_partials (cfg_sig m) (cfg_text m) (cfg_env m) (channel_run m ops (store_new mc mb hb)) k now = (st', Some rel)"
  shows "\<exists>carrier hs. distinct hs \<and> cfg_threshold m \<le> length hs \<and>
    list_all (\<lambda>h. list_ex (\<lambda>op. op_adds_holder m op carrier h) ops) hs \<and> list_ex (\<lambda>op. op_pairs op carrier k) ops"
proof -
  from release_partials_Some [OF assms(3)] obtain c where
    "hm_get (candidates (channel_run m ops (store_new mc mb hb))) k = Some c" "holder_quorum_reached c"
    by (metis slot_active_def)
  then have "gate_seen m ops k" using hist_inv_run [OF hist_inv_new, of m ops mc mb hb] by (auto simp: hist_inv_def)
  moreover have "\<not> list_ex (\<lambda>op. op_born_open op k) ops" using assms(1) by (auto simp: list_all_iff list_ex_iff)
  ultimately show ?thesis using assms(2) by (auto simp: gate_seen_def quorum_seen_def pair_seen_def)
qed

theorem release_needs_quorum_witness:
  "\<exists>carrier hs. distinct hs \<and> cfg_threshold demo_cfg \<le> length hs \<and>
    list_all (\<lambda>h. list_ex (\<lambda>op. op_adds_holder demo_cfg op carrier h) (demo_request False False)) hs \<and>
    list_ex (\<lambda>op. op_pairs op carrier ''s'') (demo_request False False)"
proof -
  have st: "channel_run demo_cfg (demo_request False False) (store_new 10 100000 demo_caps)
      = demo_confirmed False False" using demo_request_confirmed by (simp add: demo_store_def)
  have closed: "list_all (\<lambda>op. \<not> op_born_open op ''s'') (demo_request False False)"
    by (simp add: demo_request_def demo_pair_def)
  obtain st' rel where "release_partials demo_sig demo_text (demo_env 0) (demo_confirmed False False) ''s'' 5 = (st', Some rel)"
    using demo_release_spend by auto
  then show ?thesis
    by (intro release_needs_quorum [where mc = 10 and mb = 100000 and st' = st' and rel = rel and now = 5 and
          hb = demo_caps] closed) (simp_all add: st)
qed

text \<open>The commit is one-shot. A receipt that commits removes the intent and every nonce memo that names
  the carrier in the same critical section, so no later receipt of that carrier changes anything.\<close>

theorem commit_retires_carrier:
  assumes "cc_committed (snd (confirm_carrier st sender carrier t now mono_now timing))"
  shows "hm_get (intents (fst (confirm_carrier st sender carrier t now mono_now timing))) carrier = None \<and>
     list_all (\<lambda>memo. \<not> names_carrier carrier memo) (hm_values (carriers_by_nonce (fst (confirm_carrier st sender carrier t now mono_now timing)))) \<and>
     confirm_carrier (fst (confirm_carrier st sender carrier t now mono_now timing)) s2 carrier t n2 mn2 timing2 =
       (fst (confirm_carrier st sender carrier t now mono_now timing), NONE_CONFIRMED)"
proof (cases rule: confirm_carrier_cases [of st sender carrier t now mono_now timing])
  case (commit i i2 st2)
  let ?s = "retire_carrier (commit_holders st2 i2 now timing) carrier"
  have "hm_get (intents ?s) carrier = None" by (simp add: retire_carrier_def hm_simps)
  moreover have "list_all (\<lambda>memo. \<not> names_carrier carrier memo) (hm_values (carriers_by_nonce ?s))"
    by (auto simp: retire_carrier_def hm_values_def hm_retain_def list_all_iff)
  ultimately show ?thesis using commit(10) by (simp add: confirm_carrier_def)
qed (use assms in \<open>auto simp: NONE_CONFIRMED_def\<close>)

theorem commit_retires_carrier_witness:
  "hm_get (intents (fst (confirm_carrier (demo_holding True False) 1 ''k'' 2 5 5 (cfg_timing demo_cfg)))) ''k'' = None \<and>
   list_all (\<lambda>memo. \<not> names_carrier ''k'' memo)
     (hm_values (carriers_by_nonce (fst (confirm_carrier (demo_holding True False) 1 ''k'' 2 5 5 (cfg_timing demo_cfg))))) \<and>
   confirm_carrier (fst (confirm_carrier (demo_holding True False) 1 ''k'' 2 5 5 (cfg_timing demo_cfg))) 3 ''k'' 2 6 6 (cfg_timing demo_cfg) =
     (fst (confirm_carrier (demo_holding True False) 1 ''k'' 2 5 5 (cfg_timing demo_cfg)), NONE_CONFIRMED)"
  by (rule commit_retires_carrier)
    (simp add: confirm_carrier_def demo_holding_def hm_get_def demo_intent_def set_insert_def Let_def)

end
