(* ===== verification/Duress_Silence.thy ===== *)
theory Duress_Silence
  imports Arm_Quorum
begin

text \<open>
  Duress silence of the channel as noninterference. Erasing the pin class from a store
  (\<open>erase\<close>) and from the operations (\<open>erase_op\<close>) commutes with every step that
  does not arm. Until the arm commits, an execution and its erased twin therefore return the same
  results, call by call, and end in stores that differ in the private class bit alone.
\<close>

subsection \<open>Erasing the pin class\<close>

definition erase_intent :: "arm_intent \<Rightarrow> arm_intent" where
  "erase_intent i = i\<lparr>duress := False\<rparr>"

definition erase :: "partial_store \<Rightarrow> partial_store" where
  "erase st = st\<lparr>intents := hm_map erase_intent (intents st)\<rparr>"

fun erase_op :: "channel_op \<Rightarrow> channel_op" where
  "erase_op (OpRegister specs arm hres t) = OpRegister specs (arm\<lparr>ad_duress := False\<rparr>) hres t"
| "erase_op (OpCachedSchedule esc dur now eps) = OpCachedSchedule esc False now eps"
| "erase_op (OpRecordArmIntent dur carrier nonce g first now) = OpRecordArmIntent False carrier nonce g first now"
| "erase_op op = op"

fun channel_outs :: "channel_cfg \<Rightarrow> channel_op list \<Rightarrow> partial_store \<Rightarrow> channel_out list" where
  "channel_outs m [] st = []"
| "channel_outs m (op # ops) st = snd (channel_step m op st) # channel_outs m ops (channel_next m op st)"

lemma erase_intent_fields [simp]:
  "holders (erase_intent i) = holders i" "ready_to_propagate (erase_intent i) = ready_to_propagate i"
  "owner_ruling (erase_intent i) = owner_ruling i" "duress (erase_intent i) = False" "first_seen (erase_intent i) = first_seen i"
  "spend_commitment_id (erase_intent i) = spend_commitment_id i" "escape_commitment_id (erase_intent i) = escape_commitment_id i"
  "ai_expiry (erase_intent i) = ai_expiry i" "ai_deadline (erase_intent i) = ai_deadline i" "committed (erase_intent i) = committed i"
  by (simp_all add: erase_intent_def)

lemma erase_fields [simp]:
  "candidates (erase st) = candidates st" "reserved_bytes (erase st) = reserved_bytes st"
  "max_active_candidates (erase st) = max_active_candidates st" "max_bytes (erase st) = max_bytes st"
  "armed (erase st) = armed st" "carriers_by_nonce (erase st) = carriers_by_nonce st" "hot_ledger (erase st) = hot_ledger st"
  "intents (erase st) = hm_map erase_intent (intents st)"
  by (simp_all add: erase_def)

lemma erase_update [simp]:
  "(erase st)\<lparr>candidates := x1\<rparr> = erase (st\<lparr>candidates := x1\<rparr>)" "(erase st)\<lparr>reserved_bytes := x2\<rparr> = erase (st\<lparr>reserved_bytes := x2\<rparr>)"
  "(erase st)\<lparr>armed := x3\<rparr> = erase (st\<lparr>armed := x3\<rparr>)" "(erase st)\<lparr>carriers_by_nonce := x4\<rparr> = erase (st\<lparr>carriers_by_nonce := x4\<rparr>)"
  "(erase st)\<lparr>hot_ledger := x5\<rparr> = erase (st\<lparr>hot_ledger := x5\<rparr>)"
  by (simp_all add: erase_def)

lemma erase_update_intents: "(erase st)\<lparr>intents := hm_map erase_intent x\<rparr> = erase (st\<lparr>intents := x\<rparr>)"
  by (simp add: erase_def)

lemma erase_store_new [simp]: "erase (store_new a b hb) = store_new a b hb"
  by (simp add: erase_def store_new_def)

lemma erase_slot_active [simp]: "slot_active (erase st) c = slot_active st c"
  by (simp add: slot_active_def)

lemma erase_due_for_fire [simp]: "due_for_fire (erase st) now = due_for_fire st now"
proof -
  have "due (erase st) now = due st now" by (rule ext) (simp add: due_def)
  then show ?thesis by (simp add: due_for_fire_def)
qed

lemma erase_try_finalize [simp]: "try_finalize fin env (erase st) k t now = try_finalize fin env st k t now"
  by (simp add: try_finalize_def split: option.split)

lemma erase_authorization [simp]: "broadcast_authorization (erase st) k now = broadcast_authorization st k now"
  by (simp add: broadcast_authorization_def split: option.split)

lemma erase_refresh [simp]: "refresh_escape_window (erase st) k = erase (refresh_escape_window st k)"
  by (simp add: refresh_escape_window_def Let_def)

lemma erase_overlay [simp]: "write_safety_overlay (erase st) a f n t = erase (write_safety_overlay st a f n t)"
proof -
  have "effective_t (erase st) f n t = effective_t st f n t" by (simp add: effective_t_def earliest_hot_def)
  then show ?thesis by (simp add: write_safety_overlay_def Let_def)
qed

lemma shrink_blind: "shrink_for_hold (arm\<lparr>ad_duress := d\<rparr>) = shrink_for_hold arm"
  by (rule ext)+ (simp add: shrink_for_hold_def)

lemma sweep_same: "sweep_active a = b \<Longrightarrow> a\<lparr>armed_escape_id := e, sweep_active := b\<rparr> = a\<lparr>armed_escape_id := e\<rparr>"
  for a :: armed_overlay by (cases a) simp

text \<open>Before the arm commits, the selector bit of a directive has no effect.\<close>

lemma erase_directive:
  "\<not> active (armed st) \<Longrightarrow> apply_arm_directive (erase st) (arm\<lparr>ad_duress := False\<rparr>) holds = erase (apply_arm_directive st arm holds)"
  by (simp add: apply_arm_directive_def Let_def shrink_blind sweep_same)

lemma erase_register: "register (erase st) c = apfst erase (register st c)"
  by (simp add: register_def split: option.splits)

lemma erase_register_all: "register_all (erase st) cs = apfst erase (register_all st cs)"
  by (induction cs arbitrary: st) (simp_all add: erase_register split_beta Let_def apfst_def map_prod_def)

lemma erase_unwind: "unwind_reserve (erase st) b hres = erase (unwind_reserve st b hres)"
  by (simp add: unwind_reserve_def split: option.splits)

lemma erase_register_candidates:
  assumes "\<not> active (armed st)"
  shows "register_candidates api env t (erase st) cs (arm\<lparr>ad_duress := False\<rparr>) hres = apfst erase (register_candidates api env t st cs arm hres)"
proof -
  obtain l r where lr: "(case hres of None \<Rightarrow> (hot_ledger st, Ok False) | Some spec \<Rightarrow>
      Hot_Budget.hot_reserve (hot_ledger st) (hs_commitment_id spec) (hs_outflow_sat spec) t (hs_wall_now spec) (hs_expiry spec)) = (l, r)"
    by fastforce
  let ?s = "st\<lparr>hot_ledger := l\<rparr>"
  have e: "(case hres of None \<Rightarrow> (s, Ok False) | Some spec \<Rightarrow>
      (case Hot_Budget.hot_reserve (hot_ledger s) (hs_commitment_id spec) (hs_outflow_sat spec) t (hs_wall_now spec) (hs_expiry spec) of
         (l, r) \<Rightarrow> (s\<lparr>hot_ledger := l\<rparr>, r))) = (s\<lparr>hot_ledger := l\<rparr>, r)" if "hot_ledger s = hot_ledger st" for s
    using lr that by (cases hres) (auto split: prod.splits)
  have d: "fst (register_all (erase ?s) xs) = erase (fst (register_all ?s xs))" "snd (register_all (erase ?s) xs) = snd (register_all ?s xs)" for xs
    by (simp_all add: erase_register_all)
  have a: "\<not> active (armed (fst (register_all ?s xs)))" for xs using assms by simp
  have pair: "hm_modify k (attach_pair x y) (hm_map erase_intent ints) = hm_map erase_intent (hm_modify k (attach_pair x y) ints)" for k x y ints
    by (rule hm_modify_map) (simp add: attach_pair_def erase_intent_def)
  show ?thesis
    unfolding register_candidates_def Let_def e [of st, OF refl] e [of "erase st", simplified]
    by (simp add: erase_unwind d split_beta erase_directive [OF a] pair erase_update_intents split: sum.split)
qed

lemma erase_prune_carriers: "prune_carriers (erase st) now = erase (prune_carriers st now)"
proof -
  have r: "hm_retain (\<lambda>_ i. ai_deadline i > now \<or> owner_ruling i) (hm_map erase_intent ints) =
      hm_map erase_intent (hm_retain (\<lambda>_ i. ai_deadline i > now \<or> owner_ruling i) ints)" for ints
    by (rule hm_retain_map) simp
  have o: "owner_still_ruling (hm_map erase_intent ints) = owner_still_ruling ints" for ints
    by (rule ext) (simp add: owner_still_ruling_def split: memo_outcome.split option.split)
  show ?thesis by (simp add: prune_carriers_def Let_def r o erase_def)
qed

lemma erase_prune: "prune (erase st) now = erase (prune st now)"
proof -
  have "prune_keeps (erase st) now = prune_keeps st now"
    by (intro ext) (simp add: prune_keeps_def fire_complete_ids_def exempt_delayed_context_def)
  then show ?thesis by (simp add: prune_def Let_def)
qed

lemma erase_defeat: "defeat k (erase st) = erase (defeat k st)"
  by (simp add: defeat_def split: option.split)

lemma erase_fold: "(\<And>k s. f k (erase s) = erase (f k s)) \<Longrightarrow> fold f ks (erase st) = erase (fold f ks st)"
  by (induction ks arbitrary: st) simp_all

lemma erase_evict: "evict (erase st) k = erase (evict st k)"
  by (simp add: evict_def split: option.split)

lemma erase_invalidate: "invalidate_hot_conflicts (erase st) k = apfst erase (invalidate_hot_conflicts st k)"
  by (simp add: invalidate_hot_conflicts_def Let_def hot_conflicts_def erase_fold erase_defeat)

lemma erase_mark_broadcast: "mark_broadcast (erase st) k = apfst erase (mark_broadcast st k)"
proof -
  have f: "fold (\<lambda>k s. evict s k) ks (erase s) = erase (fold (\<lambda>k s. evict s k) ks s)" for ks s
    by (rule erase_fold) (rule erase_evict)
  show ?thesis by (simp add: mark_broadcast_def erase_invalidate split_beta Let_def f del: fold_append)
qed

lemma erase_accept: "accept_partial api (erase st) p nodes now = apfst erase (accept_partial api st p nodes now)"
proof -
  have "delayed_slot_context_exempt (erase st) k now = delayed_slot_context_exempt st k now" for k
    by (simp add: delayed_slot_context_exempt_def)
  then show ?thesis by (simp add: accept_partial_def Let_def erase_evict split: option.split)
qed

lemma erase_release: "release_partials api ta env (erase st) k now = apfst erase (release_partials api ta env st k now)"
  by (simp add: release_partials_def Let_def split: option.split)

lemma erase_latch: "latch_escape_rung (erase st) k r low = apfst erase (latch_escape_rung st k r low)"
  by (simp add: latch_escape_rung_def split: option.split)

lemma erase_retire: "retire_carrier (erase st) k = erase (retire_carrier st k)"
  by (simp add: retire_carrier_def hm_remove_map erase_def)

lemma erase_memo_lookup: "carrier_memo_lookup api (erase st) nonce tag e s n mn = carrier_memo_lookup api st nonce tag e s n mn"
  by (simp add: carrier_memo_lookup_def raw_expired_retry_def Let_def split: option.split memo_outcome.split)

lemma erase_claim_derivation:
  "claim_carrier_derivation (erase st) nonce s k = apfst erase (claim_carrier_derivation st nonce s k)"
  by (simp add: claim_carrier_derivation_def split: option.split memo_outcome.split)

lemma erase_record_derivation:
  "record_carrier_derivation_result (erase st) nonce s tag g k = apfst erase (record_carrier_derivation_result st nonce s tag g k)"
  by (simp add: record_carrier_derivation_result_def split: option.split memo_outcome.split)

lemma erase_resolve: "resolve_signature (erase st) nonce s tag = map_option erase (resolve_signature st nonce s tag)"
  by (simp add: resolve_signature_def split: option.split memo_outcome.split)

lemma erase_end_ruling: "end_carrier_ruling (erase st) k mn = erase (end_carrier_ruling st k mn)"
proof -
  have "hm_modify k (\<lambda>i. i\<lparr>owner_ruling := False\<rparr>) (hm_map erase_intent ints) = hm_map erase_intent (hm_modify k (\<lambda>i. i\<lparr>owner_ruling := False\<rparr>) ints)" for ints
    by (rule hm_modify_map) (simp add: erase_intent_def)
  then show ?thesis by (simp add: end_carrier_ruling_def Let_def erase_update_intents erase_retire split: option.split)
qed

lemma erase_mark_propagated: "mark_carrier_propagated env (erase st) k = erase (mark_carrier_propagated env st k)"
proof -
  have "hm_modify k (\<lambda>i. i\<lparr>ready_to_propagate := True, holders := set_insert n (holders i)\<rparr>) (hm_map erase_intent ints) =
      hm_map erase_intent (hm_modify k (\<lambda>i. i\<lparr>ready_to_propagate := True, holders := set_insert n (holders i)\<rparr>) ints)" for ints n
    by (rule hm_modify_map) (simp add: erase_intent_def)
  then show ?thesis by (simp add: mark_carrier_propagated_def erase_update_intents)
qed

lemma erase_record_pair: "record_intent_pair (erase st) k a b = erase (record_intent_pair st k a b)"
proof -
  have "hm_modify k (attach_pair a b) (hm_map erase_intent ints) = hm_map erase_intent (hm_modify k (attach_pair a b) ints)" for ints
    by (rule hm_modify_map) (simp add: attach_pair_def erase_intent_def)
  then show ?thesis by (simp add: record_intent_pair_def erase_update_intents)
qed

lemma erase_outer_stale:
  "outer_stale_carrier api (erase st) nonce tag lt s n mn step = map_option (apfst erase) (outer_stale_carrier api st nonce tag lt s n mn step)"
proof -
  obtain expiry deadline where lt: "lt = (expiry, deadline)" by (cases lt)
  show ?thesis
  proof (cases "hm_get (carriers_by_nonce st) nonce")
    case None
    then show ?thesis by (simp add: outer_stale_carrier_def lt)
  next
    case (Some memo)
    show ?thesis
    proof (cases "cmo_outcome memo")
      case (InFlight x)
      with Some show ?thesis by (simp add: outer_stale_carrier_def lt)
    next
      case (Derived c t rs)
      have r: "resolve_signature st nonce s x = Some (st\<lparr>carriers_by_nonce := hm_insert nonce
            (memo\<lparr>cmo_outcome := Derived c t (hm_insert s x rs)\<rparr>) (carriers_by_nonce st)\<rparr>)" for x
        by (rule resolve_signature_Derived [OF Some Derived])
      have i: "hm_get (intents st) c = None \<or> (\<exists>i. hm_get (intents st) c = Some i)" by auto
      show ?thesis
        using Some Derived i
        by (cases step) (auto simp: outer_stale_carrier_def lt Let_def r erase_resolve)
    qed
  qed
qed

lemma erase_record_arm_intent:
  "record_arm_intent (erase st) False carrier nonce g first now timing = apfst erase (record_arm_intent st dur carrier nonce g first now timing)"
proof -
  let ?ints = "intents st"
  define i0 where "i0 = (case hm_get ?ints carrier of None \<Rightarrow> fresh_intent first g | Some i \<Rightarrow> i)"
  have e0: "(case map_option erase_intent (hm_get ?ints carrier) of None \<Rightarrow> fresh_intent first g | Some i \<Rightarrow> i) = erase_intent i0"
    by (simp add: i0_def erase_intent_def fresh_intent_def split: option.split)
  have u: "(erase_intent i)\<lparr>duress := False, owner_ruling := True\<rparr> = erase_intent (i\<lparr>duress := d, owner_ruling := True\<rparr>)" for i d
    by (simp add: erase_intent_def)
  have ins: "hm_insert carrier ((erase_intent i0)\<lparr>duress := False, owner_ruling := True\<rparr>) (hm_map erase_intent ?ints) =
      hm_map erase_intent (hm_insert carrier (i0\<lparr>duress := duress i0 \<or> dur, owner_ruling := True\<rparr>) ?ints)"
    by (simp only: u [where d = "duress i0 \<or> dur"] hm_insert_map)
  show ?thesis
    unfolding record_arm_intent_def Let_def erase_overlay erase_fields write_safety_overlay_frame hm_get_map e0 i0_def [symmetric]
    by (simp add: ins erase_update_intents split: option.split)
qed

lemma erase_claim_nonce: "claim_nonce_in_flight (erase st) nonce g mn = erase (claim_nonce_in_flight st nonce g mn)"
  by (simp add: claim_nonce_in_flight_def Let_def erase_prune_carriers)

lemma erase_release_nonce: "release_nonce_claim (erase st) nonce g = erase (release_nonce_claim st nonce g)"
  by (simp add: release_nonce_claim_def split: option.split)

lemma erase_open_gate: "open_gate k (erase st) = erase (open_gate k st)"
  by (simp add: open_gate_def)

lemma erase_commit:
  assumes "\<not> duress i"
  shows "commit_holders (erase st) (erase_intent i) now timing = erase (commit_holders st i now timing)"
  using assms by (simp add: commit_holders_def Let_def erase_open_gate)

lemma active_commit: "active (armed (commit_holders st i now timing)) = (active (armed st) \<or> duress i)"
  by (auto simp: armed_commit_holders Let_def write_safety_overlay_def)

lemma erase_confirm:
  assumes "\<not> active (armed (fst (confirm_carrier st s carrier t now mn timing)))"
  shows "confirm_carrier (erase st) s carrier t now mn timing = apfst erase (confirm_carrier st s carrier t now mn timing)"
proof (cases "hm_get (intents st) carrier")
  case None
  then show ?thesis by (simp add: confirm_carrier_def)
next
  case (Some i)
  have u: "(erase_intent i)\<lparr>holders := h\<rparr> = erase_intent (i\<lparr>holders := h\<rparr>)"
    "(erase_intent j)\<lparr>committed := True\<rparr> = erase_intent (j\<lparr>committed := True\<rparr>)" for h j
    by (simp_all add: erase_intent_def)
  have nd: "\<not> duress i" if c: "ready_to_propagate i" "\<not> committed i" "s \<notin> set (holders i)" "\<not> ai_deadline i \<le> mn" "\<not> ai_expiry i \<le> now"
      "\<not> length (set_insert s (holders i)) < t"
    using assms by (simp add: confirm_carrier_def Some c Let_def active_commit)
  show ?thesis
    using nd by (simp add: confirm_carrier_def Some Let_def u hm_insert_map erase_update_intents erase_commit erase_retire)
qed

lemma erase_step:
  assumes "\<not> active (armed st)" "\<not> active (armed (channel_next m op st))"
  shows "channel_step m (erase_op op) (erase st) = apfst erase (channel_step m op st)"
proof (cases op)
  case (OpRegister specs arm hres t)
  then show ?thesis
    by (simp add: erase_register_candidates [OF assms(1)] split: sum.split)
next
  case (OpCachedSchedule esc dur now eps)
  then show ?thesis
    using erase_directive [OF assms(1), of "\<lparr>ad_sweep_escape = esc, ad_spend_commitment_id = [], ad_carrier = [],
       ad_duress = dur, ad_epsilon_secs = eps, ad_now = now\<rparr>" "[]"] by (simp add: apply_cached_schedule_def)
next
  case (OpRecordArmIntent dur carrier nonce g first now)
  then show ?thesis using erase_record_arm_intent [of st carrier nonce g first now "cfg_timing m" dur]
    by (simp add: apfst_def apsnd_def map_prod_def split_beta)
next
  case (OpOuterStale nonce tag lt sender now mono_now step)
  then show ?thesis by (simp add: erase_outer_stale split: option.split prod.split)
next
  case (OpConfirm sender carrier now mono_now)
  then show ?thesis
    using assms(2) by (simp add: channel_next_def erase_confirm)
next
  case (OpLockdownDue now)
  then show ?thesis by (simp add: lockdown_due_def)
next
  case (OpReserveHot cid outflow mono_now wall_now expiry)
  then show ?thesis by (simp add: reserve_hot_budget_def split_beta)
qed (simp_all add: erase_claim_nonce erase_release_nonce erase_end_ruling erase_mark_propagated erase_memo_lookup
      erase_claim_derivation erase_record_derivation erase_record_pair prune_store_def erase_prune erase_prune_carriers
      release_hot_budget_def erase_accept erase_release erase_latch erase_invalidate erase_mark_broadcast
      apfst_def apsnd_def map_prod_def split_beta)

lemma active_prefix: "\<not> active (armed (channel_run m ops (channel_next m op st))) \<Longrightarrow> \<not> active (armed (channel_next m op st)) \<and> \<not> active (armed st)"
  using arm_step [of m op st] arming.run_rel [of "channel_next m op st" m ops]
  by (auto simp: channel_run_def arm_next_def arm_le_def sweep_inv_def)

lemma erase_run:
  "\<not> active (armed (channel_run m ops st)) \<Longrightarrow>
   channel_run m (map erase_op ops) (erase st) = erase (channel_run m ops st) \<and>
   channel_outs m (map erase_op ops) (erase st) = channel_outs m ops st"
proof (induction ops arbitrary: st)
  case (Cons op ops)
  have na: "\<not> active (armed (channel_run m ops (channel_next m op st)))" using Cons.prems by (simp add: channel_run_def)
  note p = active_prefix [OF na]
  have s: "channel_step m (erase_op op) (erase st) = apfst erase (channel_step m op st)" by (rule erase_step) (use p in simp_all)
  then have n: "channel_next m (erase_op op) (erase st) = erase (channel_next m op st)" by (simp add: channel_next_def)
  from Cons.IH [OF na] show ?case by (simp add: n s channel_run_def)
qed (simp add: channel_run_def)

text \<open>C4: duress silence. As long as an execution has not armed, replacing every duress judgement in it by the
  normal one changes no result of any operation (replies, releases, due sets, finalizations, confirmations, register
  outcomes) and leaves the same store up to the private class bit of the intents.\<close>

theorem duress_silent_until_armed:
  assumes "\<not> active (armed (channel_run m ops (store_new mc mb hb)))"
  shows "channel_outs m (map erase_op ops) (store_new mc mb hb) = channel_outs m ops (store_new mc mb hb) \<and>
    channel_run m (map erase_op ops) (store_new mc mb hb) = erase (channel_run m ops (store_new mc mb hb))"
  using erase_run [OF assms] by simp

theorem duress_silent_until_armed_witness:
  "channel_outs demo_cfg (map erase_op (take 3 (demo_request True True))) (store_new 10 100000 demo_caps) =
     channel_outs demo_cfg (take 3 (demo_request True True)) (store_new 10 100000 demo_caps) \<and>
   channel_run demo_cfg (map erase_op (take 3 (demo_request True True))) (store_new 10 100000 demo_caps) =
     erase (channel_run demo_cfg (take 3 (demo_request True True)) (store_new 10 100000 demo_caps))"
proof (rule duress_silent_until_armed)
  show "\<not> active (armed (channel_run demo_cfg (take 3 (demo_request True True)) (store_new 10 100000 demo_caps)))"
    using demo_request_holding [of True True] by (simp add: demo_store_def [symmetric]) (simp add: demo_holding_def)
qed

end
