(* ===== verification/Ingest.thy ===== *)
theory Ingest
  imports Duress_Silence
begin

text \<open>
  The ingress and egress of the inter-node channel, \<open>crates/vault-node/src/channel.rs\<close>: how a
  raw body is parsed, authenticated, charged against the ingress guards and dispatched
  (\<open>ingest\<close>, \<open>handle_partial\<close>), and how an envelope is built. JSON, hex, base64 and
  the textual txid belong to serde, rust-bitcoin and the base64 crate and are an argument
  (\<open>wire_api\<close>); the calls made to the alert queue are recorded in order.
\<close>

definition MSG_TYPE_REQUEST :: string where "MSG_TYPE_REQUEST = ''request''"
definition MSG_TYPE_PARTIAL :: string where "MSG_TYPE_PARTIAL = ''partial''"

record envelope =
  ev_msg_type :: string
  ev_protocol_version :: "32 word"
  ev_wallet_id :: string
  ev_manifest_hash :: string
  ev_sender_node_id :: node_id
  ev_recipient_node_id :: node_id
  ev_payload_b64 :: string
  ev_nonce :: string
  ev_timestamp :: "64 word"
  ev_channel_sig :: string

record wire_api =
  wa_parse_envelope :: "bytes \<Rightarrow> envelope option"
  wa_parse_partial :: "bytes \<Rightarrow> partial_payload option"
  wa_parse_request :: "bytes \<Rightarrow> tagged_request option"
  wa_from_hex :: "string \<Rightarrow> bytes option"
  wa_b64_decode :: "string \<Rightarrow> bytes option"
  wa_b64_encode :: "bytes \<Rightarrow> string"
  wa_txid_of_string :: "string \<Rightarrow> txid option"

record freshness_event =
  fe_peer_node_id :: node_id
  fe_reject_count :: u64
  fe_skew_secs :: int

record channel_state =
  ch_store :: partial_store
  ch_guards :: ingress_guards
  ch_freshness :: "(node_id, u64) hmap"
  ch_alerts :: "(freshness_event \<times> u64) list"

datatype ingested = IngReply channel_reply | IngRequest node_id tagged_request | IngStaleSpend node_id tagged_request

definition reject :: "reject_reason \<Rightarrow> ingested" where
  "reject r = IngReply (Rejected r)"

definition from_hex_n :: "wire_api \<Rightarrow> nat \<Rightarrow> string \<Rightarrow> bytes option" where
  "from_hex_n wa n s = (case wa_from_hex wa s of None \<Rightarrow> None | Some b \<Rightarrow> if length b = n then Some b else None)"

text \<open>The counter saturates; the skew is clamped to \<open>i64\<close>.\<close>

definition record_freshness_reject :: "channel_state \<Rightarrow> node_id \<Rightarrow> u64 \<Rightarrow> u64 \<Rightarrow> channel_state" where
  "record_freshness_reject ch sender ts now =
     (let old = (case hm_get (ch_freshness ch) sender of None \<Rightarrow> 0 | Some c \<Rightarrow> c);
          count = sat_add64 old 1;
          skew_secs = min (max (int ts - int now) (- (2 ^ 63))) (2 ^ 63 - 1)
      in ch\<lparr>ch_freshness := hm_insert sender count (ch_freshness ch),
            ch_alerts := ch_alerts ch @ [(\<lparr>fe_peer_node_id = sender, fe_reject_count = count, fe_skew_secs = skew_secs\<rparr>, now)]\<rparr>)"

subsection \<open>Authentication\<close>

text \<open>What the checks before the guards establish of a body.\<close>

record authenticated =
  au_envelope :: envelope
  au_wallet_id :: bytes
  au_nonce :: bytes

definition fields_of :: "envelope \<Rightarrow> bytes \<Rightarrow> digest \<Rightarrow> bytes \<Rightarrow> envelope_fields" where
  "fields_of ev wallet mhash nonce =
     \<lparr>ef_msg_type = ev_msg_type ev, ef_protocol_version = ev_protocol_version ev, ef_wallet_id = wallet, ef_manifest_hash = mhash,
      ef_sender = ev_sender_node_id ev, ef_recipient = ev_recipient_node_id ev,
      ef_payload_b64 = str_bytes (ev_payload_b64 ev), ef_nonce = nonce, ef_timestamp = ev_timestamp ev\<rparr>"

definition channel_digest :: "sig_api \<Rightarrow> envelope_fields \<Rightarrow> digest" where
  "channel_digest api e = tagged_hash (sa_sha256 api) ENVELOPE_TAG (envelope_preimage e)"

definition authenticate :: "sig_api \<Rightarrow> wire_api \<Rightarrow> channel_env \<Rightarrow> bytes \<Rightarrow> reject_reason + authenticated" where
  "authenticate api wa env body =
     (case wa_parse_envelope wa body of
        None \<Rightarrow> Err MalformedJson
      | Some ev \<Rightarrow>
          (case (from_hex_n wa 32 (ev_wallet_id ev), from_hex_n wa 32 (ev_manifest_hash ev),
                 from_hex_n wa 16 (ev_nonce ev), wa_from_hex wa (ev_channel_sig ev)) of
             (Some wallet, Some mhash, Some nonce, Some sig_der) \<Rightarrow>
               if ev_protocol_version ev \<noteq> PROTOCOL_VERSION then Err BadProtocolVersion
               else if wallet \<noteq> ce_wallet_id env then Err WrongWallet
               else if mhash \<noteq> ce_manifest_hash env then Err WrongManifest
               else if ev_recipient_node_id ev \<noteq> ce_node_id env then Err WrongRecipient
               else if ev_sender_node_id ev = ce_node_id env \<or> unat (ev_sender_node_id ev) \<ge> length (ce_nodes env)
               then Err UnknownSender
               else let key = mn_channel_pubkey (ce_nodes env ! unat (ev_sender_node_id ev));
                        digest = channel_digest api (fields_of ev wallet mhash nonce)
                    in (case sa_from_der api sig_der of
                          None \<Rightarrow> Err BadChannelSig
                        | Some sig \<Rightarrow>
                            if sa_verify api digest sig key
                            then Ok \<lparr>au_envelope = ev, au_wallet_id = wallet, au_nonce = nonce\<rparr>
                            else Err BadChannelSig)
           | _ \<Rightarrow> Err MalformedJson))"

subsection \<open>Partials\<close>

definition handle_parsed ::
  "sig_api \<Rightarrow> wire_api \<Rightarrow> channel_env \<Rightarrow> partial_store \<Rightarrow> node_id \<Rightarrow> partial_payload \<Rightarrow> bytes \<Rightarrow> u64 \<Rightarrow> partial_store \<times> channel_reply" where
  "handle_parsed api wa env st sender p env_wallet now =
     (case (from_hex_n wa 32 (pl_wallet_id p), from_hex_n wa 32 (pl_user_sig_hash p),
            wa_txid_of_string wa (pl_txid p), wa_from_hex wa (pl_partial_sig p)) of
        (Some p_wallet, Some usig, Some txid, Some der) \<Rightarrow>
          if p_wallet \<noteq> env_wallet then (st, Rejected PayloadWalletMismatch)
          else if pl_signer_node_id p \<noteq> sender then (st, Rejected SignerMismatch)
          else if pl_sighash_type p \<noteq> SIGHASH_ALL then (st, Rejected WrongSighashType)
          else accept_partial api st
            \<lparr>pp_commitment_id = pl_commitment_id p, pp_txid = txid, pp_user_sig_hash = usig, pp_input = pl_input p,
             pp_signer = pl_signer_node_id p, pp_der = der\<rparr> (ce_nodes env) now
      | _ \<Rightarrow> (st, Rejected MalformedPayload))"

definition handle_partial ::
  "sig_api \<Rightarrow> wire_api \<Rightarrow> channel_env \<Rightarrow> partial_store \<Rightarrow> node_id \<Rightarrow> bytes \<Rightarrow> bytes \<Rightarrow> u64 \<Rightarrow> partial_store \<times> channel_reply" where
  "handle_partial api wa env st sender payload env_wallet now =
     (case wa_parse_partial wa payload of
        None \<Rightarrow> (st, Rejected MalformedPayload)
      | Some p \<Rightarrow> handle_parsed api wa env st sender p env_wallet now)"

subsection \<open>Dispatch\<close>

definition dispatch ::
  "sig_api \<Rightarrow> wire_api \<Rightarrow> channel_env \<Rightarrow> channel_state \<Rightarrow> authenticated \<Rightarrow> u64 \<Rightarrow> bool \<Rightarrow> channel_state \<times> ingested" where
  "dispatch api wa env ch a now outer_stale =
     (let ev = au_envelope a; sender = ev_sender_node_id ev in
      case wa_b64_decode wa (ev_payload_b64 ev) of
        None \<Rightarrow> (ch, reject (if outer_stale then StaleTimestamp else MalformedPayload))
      | Some payload \<Rightarrow>
          if outer_stale then
            (ch, case wa_parse_request wa payload of
               Some (TaggedSpend r) \<Rightarrow> IngStaleSpend sender (TaggedSpend r)
             | _ \<Rightarrow> reject StaleTimestamp)
          else if ev_msg_type ev = MSG_TYPE_PARTIAL then
            (let (st, r) = handle_partial api wa env (ch_store ch) sender payload (au_wallet_id a) now
             in (ch\<lparr>ch_store := st\<rparr>, IngReply r))
          else if ev_msg_type ev = MSG_TYPE_REQUEST then
            (ch, case wa_parse_request wa payload of
               None \<Rightarrow> reject MalformedPayload
             | Some r \<Rightarrow> IngRequest sender r)
          else (ch, reject UnknownMsgType))"

definition ingest ::
  "sig_api \<Rightarrow> wire_api \<Rightarrow> channel_env \<Rightarrow> channel_state \<Rightarrow> bytes \<Rightarrow> u64 \<Rightarrow> channel_state \<times> ingested" where
  "ingest api wa env ch body now_input =
     (case authenticate api wa env body of
        Inl r \<Rightarrow> (ch, reject r)
      | Inr a \<Rightarrow>
          (let ev = au_envelope a; sender = ev_sender_node_id ev; ts = unat (ev_timestamp ev);
               (g, d) = check_and_consume (ce_quota_per_min env) (ch_guards ch)
                 \<lparr>ir_sender = sender, ir_nonce = au_nonce a, ir_timestamp = ts, ir_now = now_input\<rparr>;
               ch1 = ch\<lparr>ch_guards := g\<rparr>
           in case d of
                IngressAccepted now \<Rightarrow> dispatch api wa env ch1 a now False
              | IngressStale now \<Rightarrow>
                  (let ch2 = record_freshness_reject ch1 sender ts now
                   in if ev_msg_type ev \<noteq> MSG_TYPE_REQUEST then (ch2, reject StaleTimestamp)
                      else dispatch api wa env ch2 a now True)
              | IngressReplayed \<Rightarrow> (ch1, reject ReplayedNonce)
              | RateLimited retry_after_secs \<Rightarrow> (ch1, IngReply (ReplyRateLimited retry_after_secs))))"

text \<open>The nonce is drawn and the signature made outside: both are arguments.\<close>

definition build_envelope ::
  "sig_api \<Rightarrow> text_api \<Rightarrow> wire_api \<Rightarrow> channel_env \<Rightarrow> (digest \<Rightarrow> bytes) \<Rightarrow> bytes \<Rightarrow> string \<Rightarrow> node_id \<Rightarrow> bytes \<Rightarrow> 64 word \<Rightarrow> envelope" where
  "build_envelope api ta wa env sign nonce msg_type recipient payload timestamp =
     (let b64 = wa_b64_encode wa payload;
          e = \<lparr>ef_msg_type = msg_type, ef_protocol_version = PROTOCOL_VERSION, ef_wallet_id = ce_wallet_id env,
               ef_manifest_hash = ce_manifest_hash env, ef_sender = ce_node_id env, ef_recipient = recipient,
               ef_payload_b64 = str_bytes b64, ef_nonce = nonce, ef_timestamp = timestamp\<rparr>
      in \<lparr>ev_msg_type = msg_type, ev_protocol_version = PROTOCOL_VERSION, ev_wallet_id = ta_to_hex ta (ce_wallet_id env),
          ev_manifest_hash = ta_to_hex ta (ce_manifest_hash env), ev_sender_node_id = ce_node_id env,
          ev_recipient_node_id = recipient, ev_payload_b64 = b64, ev_nonce = ta_to_hex ta nonce, ev_timestamp = timestamp,
          ev_channel_sig = ta_to_hex ta (sa_serialize_der api (sign (channel_digest api e)))\<rparr>)"

subsection \<open>Only authenticated bodies act\<close>

text \<open>
  What the envelope of a body must be: addressed to this node by another node of the manifest, for this wallet and
  manifest, with a signature field that verifies under the sender's endorsed channel key over the preimage of exactly the
  fields the envelope carries. \<open>nonce\<close> is the nonce field, decoded.
\<close>

definition authentic :: "sig_api \<Rightarrow> wire_api \<Rightarrow> channel_env \<Rightarrow> bytes \<Rightarrow> envelope \<Rightarrow> bytes \<Rightarrow> bool" where
  "authentic api wa env body ev nonce \<longleftrightarrow> wa_parse_envelope wa body = Some ev \<and> ev_protocol_version ev = PROTOCOL_VERSION \<and>
     from_hex_n wa 32 (ev_wallet_id ev) = Some (ce_wallet_id env) \<and> from_hex_n wa 32 (ev_manifest_hash ev) = Some (ce_manifest_hash env) \<and>
     from_hex_n wa 16 (ev_nonce ev) = Some nonce \<and>
     ev_recipient_node_id ev = ce_node_id env \<and> ev_sender_node_id ev \<noteq> ce_node_id env \<and> unat (ev_sender_node_id ev) < length (ce_nodes env) \<and>
     (\<exists>der sig. wa_from_hex wa (ev_channel_sig ev) = Some der \<and> sa_from_der api der = Some sig \<and>
        sa_verify api (tagged_hash (sa_sha256 api) ENVELOPE_TAG (envelope_preimage
            \<lparr>ef_msg_type = ev_msg_type ev, ef_protocol_version = ev_protocol_version ev, ef_wallet_id = ce_wallet_id env,
             ef_manifest_hash = ce_manifest_hash env, ef_sender = ev_sender_node_id ev, ef_recipient = ev_recipient_node_id ev,
             ef_payload_b64 = str_bytes (ev_payload_b64 ev), ef_nonce = nonce, ef_timestamp = ev_timestamp ev\<rparr>)) sig
          (mn_channel_pubkey (ce_nodes env ! unat (ev_sender_node_id ev))))"

lemma authenticate_Ok:
  assumes "authenticate api wa env body = Ok a"
  shows "authentic api wa env body (au_envelope a) (au_nonce a) \<and> au_wallet_id a = ce_wallet_id env"
  using assms by (auto simp: authenticate_def authentic_def channel_digest_def fields_of_def Let_def split: option.splits if_splits)

text \<open>The change of the store: none, or the import of the partial that the payload of this very envelope is,
  in the sender's name, at the time the guards accepted the envelope.\<close>

definition store_by_partial ::
  "sig_api \<Rightarrow> wire_api \<Rightarrow> channel_env \<Rightarrow> envelope \<Rightarrow> ingress_guard_result \<Rightarrow> partial_store \<Rightarrow> partial_store \<Rightarrow> bool" where
  "store_by_partial api wa env ev d st st' \<longleftrightarrow> st' = st \<or>
     (\<exists>now payload p usig txid der. d = IngressAccepted now \<and> ev_msg_type ev = MSG_TYPE_PARTIAL \<and>
        wa_b64_decode wa (ev_payload_b64 ev) = Some payload \<and> wa_parse_partial wa payload = Some p \<and>
        pl_signer_node_id p = ev_sender_node_id ev \<and> pl_sighash_type p = SIGHASH_ALL \<and>
        from_hex_n wa 32 (pl_wallet_id p) = Some (ce_wallet_id env) \<and> from_hex_n wa 32 (pl_user_sig_hash p) = Some usig \<and>
        wa_txid_of_string wa (pl_txid p) = Some txid \<and> wa_from_hex wa (pl_partial_sig p) = Some der \<and>
        st' = fst (accept_partial api st
          \<lparr>pp_commitment_id = pl_commitment_id p, pp_txid = txid, pp_user_sig_hash = usig, pp_input = pl_input p,
           pp_signer = ev_sender_node_id ev, pp_der = der\<rparr> (ce_nodes env) now))"

text \<open>What is handed to the node: a request is the one the payload of this envelope is, with its sender.\<close>

definition request_from :: "wire_api \<Rightarrow> envelope \<Rightarrow> ingested \<Rightarrow> bool" where
  "request_from wa ev out \<longleftrightarrow> (\<forall>s r. out = IngRequest s r \<or> out = IngStaleSpend s r \<longrightarrow>
     s = ev_sender_node_id ev \<and> ev_msg_type ev = MSG_TYPE_REQUEST \<and>
     (\<exists>payload. wa_b64_decode wa (ev_payload_b64 ev) = Some payload \<and> wa_parse_request wa payload = Some r))"

lemma request_from_reply [simp]: "request_from wa ev (IngReply r)" "request_from wa ev (reject x)"
  by (simp_all add: request_from_def reject_def)

lemma store_by_partial_same [simp]: "store_by_partial api wa env ev d st st"
  by (simp add: store_by_partial_def)

lemma handle_partial_store:
  assumes "ev_msg_type ev = MSG_TYPE_PARTIAL" "wa_b64_decode wa (ev_payload_b64 ev) = Some payload"
  shows "store_by_partial api wa env ev (IngressAccepted now) st
    (fst (handle_partial api wa env st (ev_sender_node_id ev) payload (ce_wallet_id env) now))"
proof (cases "wa_parse_partial wa payload")
  case (Some p)
  then have h: "handle_partial api wa env st (ev_sender_node_id ev) payload (ce_wallet_id env) now =
      handle_parsed api wa env st (ev_sender_node_id ev) p (ce_wallet_id env) now" by (simp add: handle_partial_def)
  show ?thesis
    using assms Some unfolding h handle_parsed_def store_by_partial_def by (auto split: option.splits)
qed (simp add: handle_partial_def)

lemma dispatch_bound:
  assumes "au_wallet_id a = ce_wallet_id env" "dispatch api wa env ch a now stale = (ch', out)"
    and "stale \<Longrightarrow> ev_msg_type (au_envelope a) = MSG_TYPE_REQUEST" and "\<not> stale \<Longrightarrow> d = IngressAccepted now"
  shows "store_by_partial api wa env (au_envelope a) d (ch_store ch) (ch_store ch') \<and>
    request_from wa (au_envelope a) out \<and> ch_guards ch' = ch_guards ch"
proof (cases "wa_b64_decode wa (ev_payload_b64 (au_envelope a))")
  case None
  with assms(2) show ?thesis by (auto simp: dispatch_def Let_def)
next
  case (Some payload)
  show ?thesis
  proof (cases "\<not> stale \<and> ev_msg_type (au_envelope a) = MSG_TYPE_PARTIAL")
    case True
    with assms(1,2,4) Some handle_partial_store [OF _ Some, of api env now "ch_store ch"] show ?thesis
      by (auto simp: dispatch_def Let_def split_beta)
  next
    case False
    with assms(2,3) Some show ?thesis
      by (auto simp: dispatch_def Let_def request_from_def reject_def split: if_splits option.splits tagged_request.splits)
  qed
qed

subsection \<open>A concrete body\<close>

definition demo_ev :: envelope where
  "demo_ev = \<lparr>ev_msg_type = ''request'', ev_protocol_version = 2, ev_wallet_id = ta_to_hex demo_text (replicate 32 7),
     ev_manifest_hash = ta_to_hex demo_text (replicate 32 8), ev_sender_node_id = 1, ev_recipient_node_id = 0,
     ev_payload_b64 = ''x'', ev_nonce = ta_to_hex demo_text (replicate 16 5), ev_timestamp = 1000,
     ev_channel_sig = ta_to_hex demo_text [13]\<rparr>"

definition demo_tagged :: tagged_request where
  "demo_tagged = TaggedRefresh \<lparr>rr_refresh_psbt = [], rr_nonce = [], rr_expiry = 0, rr_policy_version = 0, rr_coord_sig = []\<rparr>"

definition demo_wire :: wire_api where
  "demo_wire = \<lparr>wa_parse_envelope = (\<lambda>b. if b = [] then None else Some demo_ev), wa_parse_partial = (\<lambda>b. None),
     wa_parse_request = (\<lambda>b. Some demo_tagged), wa_from_hex = (\<lambda>s. Some (map of_char s)), wa_b64_decode = (\<lambda>s. Some []),
     wa_b64_encode = (\<lambda>b. []), wa_txid_of_string = (\<lambda>s. Some (map of_char s))\<rparr>"

definition demo_channel :: channel_state where
  "demo_channel = \<lparr>ch_store = demo_confirmed False False, ch_guards = ingress_guards_default, ch_freshness = [], ch_alerts = []\<rparr>"

lemma byte_char_roundtrip: "of_char (char_of (unat (b :: byte))) = b"
proof -
  have "unat b < 256" using unsigned_less [of b] by simp
  then have "(of_char (char_of (unat b)) :: nat) = unat b" by simp
  then show ?thesis by (metis of_nat_of_char of_nat_unat ucast_id)
qed

lemma demo_codec [simp]:
  "wa_from_hex demo_wire (ta_to_hex demo_text b) = Some b" "wa_txid_of_string demo_wire (ta_txid_to_string demo_text b) = Some b"
  by (simp_all add: demo_wire_def demo_text_def comp_def byte_char_roundtrip)

lemma demo_ingest:
  "\<exists>g. ingest demo_sig demo_wire (demo_env 0) demo_channel [1] 1000 = (demo_channel\<lparr>ch_guards := g\<rparr>, IngRequest 1 demo_tagged)"
proof -
  have p: "wa_parse_envelope demo_wire [1] = Some demo_ev" "wa_b64_decode demo_wire s = Some []" "wa_parse_request demo_wire b = Some demo_tagged"
    for s b by (simp_all add: demo_wire_def)
  have n: "mn_channel_pubkey (ce_nodes (demo_env 0) ! Suc 0) = [13]" "ce_wallet_id (demo_env 0) = replicate 32 7"
    "ce_manifest_hash (demo_env 0) = replicate 32 8" by (simp_all add: demo_env_def)
  have h: "from_hex_n demo_wire 32 (ev_wallet_id demo_ev) = Some (replicate 32 7)"
    "from_hex_n demo_wire 32 (ev_manifest_hash demo_ev) = Some (replicate 32 8)"
    "from_hex_n demo_wire 16 (ev_nonce demo_ev) = Some (replicate 16 5)" "wa_from_hex demo_wire (ev_channel_sig demo_ev) = Some [13]"
    by (simp_all add: demo_ev_def from_hex_n_def)
  have e: "ev_protocol_version demo_ev = 2" "ev_recipient_node_id demo_ev = 0" "ev_sender_node_id demo_ev = 1" "ev_msg_type demo_ev = ''request''"
    "unat (ev_timestamp demo_ev) = 1000" by (simp_all add: demo_ev_def)
  have a: "authenticate demo_sig demo_wire (demo_env 0) [1] = Ok \<lparr>au_envelope = demo_ev, au_wallet_id = replicate 32 7, au_nonce = replicate 16 5\<rparr>"
    by (simp add: authenticate_def p h e n Let_def PROTOCOL_VERSION_def)
  show ?thesis
    by (simp add: ingest_def a Let_def e check_and_consume_def charged_def charge_quota_def demo_channel_def ingress_guards_default_def
        FRESHNESS_PAST_SECS_def FRESHNESS_FUTURE_SECS_def QUOTA_WINDOW_SECS_def sat_simps hm_retain_def hm_contains_def hm_get_def
        dispatch_def p MSG_TYPE_PARTIAL_def MSG_TYPE_REQUEST_def hm_insert_def)
qed

text \<open>C34: only authenticated bodies act. Unless a body is rejected with the whole channel state untouched, it
  parses as an envelope addressed to this node by another node of the manifest, whose signature field verifies under
  that node's endorsed key over the preimage of exactly the fields the envelope carries (its own nonce
  included). The ingress guards are charged for that sender, nonce and timestamp and nothing else; a request handed
  to the node is the payload of that envelope under that sender; and the candidate store changes only by importing the
  partial that the payload of that envelope is, in that sender's name, for this wallet.\<close>

theorem ingest_only_authenticated:
  assumes "ingest api wa env ch body now = (ch', out)" "\<forall>r. (ch', out) \<noteq> (ch, reject r)"
  shows "\<exists>ev nonce d. authentic api wa env body ev nonce \<and>
    check_and_consume (ce_quota_per_min env) (ch_guards ch) \<lparr>ir_sender = ev_sender_node_id ev, ir_nonce = nonce,
      ir_timestamp = unat (ev_timestamp ev), ir_now = now\<rparr> = (ch_guards ch', d) \<and>
    request_from wa ev out \<and> store_by_partial api wa env ev d (ch_store ch) (ch_store ch')"
proof (cases "authenticate api wa env body")
  case (Inl r)
  with assms show ?thesis by (auto simp: ingest_def)
next
  case (Inr a)
  note au = authenticate_Ok [OF Inr]
  let ?ev = "au_envelope a"
  let ?s = "ev_sender_node_id ?ev"
  obtain g d where gd: "check_and_consume (ce_quota_per_min env) (ch_guards ch) \<lparr>ir_sender = ?s, ir_nonce = au_nonce a,
      ir_timestamp = unat (ev_timestamp ?ev), ir_now = now\<rparr> = (g, d)" by fastforce
  have fr: "ch_store (record_freshness_reject c x y z) = ch_store c" "ch_guards (record_freshness_reject c x y z) = ch_guards c" for c x y z
    by (simp_all add: record_freshness_reject_def Let_def)
  note i = assms(1) [unfolded ingest_def Inr sum.case Let_def gd prod.case]
  have "store_by_partial api wa env ?ev d (ch_store ch) (ch_store ch') \<and> request_from wa ?ev out \<and> ch_guards ch' = g"
  proof (cases d)
    case (IngressAccepted n)
    with i dispatch_bound [OF conjunct2 [OF au], of api wa "ch\<lparr>ch_guards := g\<rparr>" n False ch' out d] show ?thesis by simp
  next
    case (IngressStale n)
    let ?ch2 = "record_freshness_reject (ch\<lparr>ch_guards := g\<rparr>) ?s (unat (ev_timestamp ?ev)) n"
    show ?thesis
    proof (cases "ev_msg_type ?ev = MSG_TYPE_REQUEST")
      case True
      with i IngressStale dispatch_bound [OF conjunct2 [OF au], of api wa ?ch2 n True ch' out d] show ?thesis by (simp add: fr)
    qed (use i IngressStale in \<open>auto simp: fr\<close>)
  qed (use i in auto)
  then show ?thesis using au gd by blast
qed

theorem ingest_only_authenticated_witness:
  "\<exists>out ch' ev nonce d. ingest demo_sig demo_wire (demo_env 0) demo_channel [1] 1000 = (ch', out) \<and>
    authentic demo_sig demo_wire (demo_env 0) [1] ev nonce \<and> request_from demo_wire ev out \<and>
    store_by_partial demo_sig demo_wire (demo_env 0) ev d (ch_store demo_channel) (ch_store ch')"
proof -
  obtain g where i: "ingest demo_sig demo_wire (demo_env 0) demo_channel [1] 1000 = (demo_channel\<lparr>ch_guards := g\<rparr>, IngRequest 1 demo_tagged)"
    using demo_ingest by blast
  have "\<forall>r. (demo_channel\<lparr>ch_guards := g\<rparr>, IngRequest 1 demo_tagged) \<noteq> (demo_channel, reject r)" by (simp add: reject_def)
  from ingest_only_authenticated [OF i this] i show ?thesis by blast
qed

subsection \<open>A released share is imported by a peer\<close>

lemma position_distinct:
  "distinct (map f xs) \<Longrightarrow> r < length xs \<Longrightarrow> position (\<lambda>x. f x = f (xs ! r)) xs = Some r"
proof (induction xs arbitrary: r)
  case (Cons x xs)
  show ?case
  proof (cases r)
    case (Suc q)
    with Cons.prems have "f x \<noteq> f (xs ! q)" by (auto simp: image_iff)
    with Suc Cons show ?thesis by simp
  qed simp
qed simp

lemma variant_c_bytes [simp]: "variant (c\<lparr>c_bytes := n\<rparr>) r = variant c r"
  by (simp add: variant_def split: nat.split)

lemma accept_partial_imports:
  assumes "hm_get (candidates st) (pp_commitment_id p) = Some c" "now \<le> c_expiry c" "variant c r = Some v"
    and "distinct (map unsigned_txid (variants c))" "pp_txid p = unsigned_txid v" "pp_user_sig_hash p = user_sig_hash v"
    and "unat (pp_input p) < length (sighashes v)" "unat (pp_input p) < length (psbt_inputs (sv_psbt v))"
    and "unat (pp_signer p) < length nodes" "sa_from_der api (pp_der p) = Some sig"
    and "sa_verify api (sighashes v ! unat (pp_input p)) sig (mn_signing_pubkey (nodes ! unat (pp_signer p)))"
    and "\<not> hm_contains (partials v) (pp_input p, pp_signer p)"
  shows "\<exists>st' c' v'. accept_partial api st p nodes now = (st', ReplyAccepted) \<and>
    hm_get (candidates st') (pp_commitment_id p) = Some c' \<and> variant c' r = Some v' \<and>
    hm_get (partial_sigs (psbt_inputs (sv_psbt v') ! unat (pp_input p))) (mn_signing_pubkey (nodes ! unat (pp_signer p)))
      = Some \<lparr>signature = sig, sig_sighash_type = SIGHASH_ALL\<rparr>"
proof -
  have r: "r < length (variants c)" "v = variants c ! r" using assms(3) by (simp_all add: variant_iff)
  have "rung_of_txid c (pp_txid p) = Some r"
    using position_distinct [OF assms(4) r(1)] by (simp add: rung_of_txid_def assms(5) r(2))
  with assms show ?thesis
    by (simp add: accept_partial_def Let_def not_less) (auto simp: hm_simps variant_modify import_partial_def)
qed

text \<open>The codecs read back what they wrote; a node's own signatures verify; a peer still lacks the share.\<close>

definition codecs_roundtrip :: "sig_api \<Rightarrow> text_api \<Rightarrow> wire_api \<Rightarrow> bool" where
  "codecs_roundtrip api ta wa \<longleftrightarrow> (\<forall>b. wa_from_hex wa (ta_to_hex ta b) = Some b) \<and>
     (\<forall>t. wa_txid_of_string wa (ta_txid_to_string ta t) = Some t) \<and> (\<forall>x. sa_from_der api (sa_serialize_der api x) = Some x)"

definition own_sigs_valid :: "sig_api \<Rightarrow> pubkey \<Rightarrow> candidate \<Rightarrow> bool" where
  "own_sigs_valid api key c \<longleftrightarrow> (\<forall>v \<in> set (variants c). length (user_sig_hash v) = 32 \<and>
     length (psbt_inputs (sv_psbt v)) = length (sighashes v) \<and> length (sighashes v) < 2 ^ 32 \<and>
     (\<forall>i < length (sighashes v). \<forall>s. hm_get (partial_sigs (psbt_inputs (sv_psbt v) ! i)) key = Some s \<longrightarrow>
        sa_verify api (sighashes v ! i) (signature s) key))"

definition awaits_share :: "node_id \<Rightarrow> candidate \<Rightarrow> partial_payload \<Rightarrow> bool" where
  "awaits_share node c p \<longleftrightarrow> distinct (map unsigned_txid (variants c)) \<and>
     (\<forall>v \<in> set (variants c). length (psbt_inputs (sv_psbt v)) = length (sighashes v) \<and> \<not> hm_contains (partials v) (pl_input p, node))"

text \<open>Release and import fit together. If the text and DER codecs read back what they wrote, a share that one
  node's release gate hands out for a candidate is accepted by a peer that registered the same candidate and still
  lacks the share, and afterwards stands in the peer's PSBT under the releasing node's key.\<close>

theorem released_share_imported:
  fixes env senv :: channel_env and ta :: text_api
  defines "node \<equiv> ce_node_id senv"
  defines "key \<equiv> mn_signing_pubkey (ce_nodes env ! unat node)"
  assumes codec: "codecs_roundtrip api ta wa" and share: "share_of api ta senv k c p"
    and same: "ce_wallet_id senv = ce_wallet_id env" "ce_nodes senv = ce_nodes env" "length (ce_wallet_id env) = 32"
      "unat node < length (ce_nodes env)"
    and peer: "hm_get (candidates st) k = Some c'" "matches_registration c' c" "now \<le> c_expiry c'" "awaits_share node c' p"
    and sound: "own_sigs_valid api key c"
  shows "\<exists>st' c'' r v s. handle_parsed api wa env st node p (ce_wallet_id env) now = (st', ReplyAccepted) \<and>
    hm_get (candidates st') k = Some c'' \<and> variant c'' r = Some v \<and>
    hm_get (partial_sigs (psbt_inputs (sv_psbt v) ! unat (pl_input p))) key = Some \<lparr>signature = s, sig_sighash_type = SIGHASH_ALL\<rparr>"
proof -
  obtain r v i s where sh: "variant c r = Some v" "i < length (psbt_inputs (sv_psbt v))"
    "hm_get (partial_sigs (psbt_inputs (sv_psbt v) ! i)) key = Some s" "p = payload_of api ta senv k (role c) v i s"
    using share same(2) by (auto simp: share_of_def key_def node_def)
  have rv: "r < length (variants c)" "v = variants c ! r" "v \<in> set (variants c)" using sh(1) by (auto simp: variant_iff)
  note snd = sound [unfolded own_sigs_valid_def, rule_format, OF rv(3)]
  have len: "length (variants c') = length (variants c)" using peer(2) by (simp add: matches_registration_def variants_def)
  define v' where "v' = variants c' ! r"
  have v': "variant c' r = Some v'" "v' \<in> set (variants c')" using rv len by (simp_all add: variant_iff v'_def)
  have pos: "(v', v) \<in> set (zip (variants c') (variants c))"
    using rv len by (auto simp: set_zip v'_def)
  have eq: "unsigned_txid v' = unsigned_txid v" "sighashes v' = sighashes v" "user_sig_hash v' = user_sig_hash v"
    using peer(2) pos by (auto simp: matches_registration_def list_all_iff)
  have i: "i < length (sighashes v)" "i < 2 ^ 32" "unat (word_of_nat i :: 32 word) = i"
    using sh(2) snd by (auto simp: unat_of_nat)
  let ?pp = "\<lparr>pp_commitment_id = k, pp_txid = unsigned_txid v, pp_user_sig_hash = user_sig_hash v, pp_input = word_of_nat i,
      pp_signer = node, pp_der = sa_serialize_der api (signature s)\<rparr>"
  have h: "handle_parsed api wa env st node p (ce_wallet_id env) now = accept_partial api st ?pp (ce_nodes env) now"
    using codec same snd by (simp add: codecs_roundtrip_def handle_parsed_def sh(4) payload_of_def from_hex_n_def node_def)
  have "\<exists>st' c'' v''. accept_partial api st ?pp (ce_nodes env) now = (st', ReplyAccepted) \<and>
    hm_get (candidates st') (pp_commitment_id ?pp) = Some c'' \<and> variant c'' r = Some v'' \<and>
    hm_get (partial_sigs (psbt_inputs (sv_psbt v'') ! unat (pp_input ?pp))) (mn_signing_pubkey (ce_nodes env ! unat (pp_signer ?pp)))
      = Some \<lparr>signature = signature s, sig_sighash_type = SIGHASH_ALL\<rparr>"
  proof (rule accept_partial_imports [OF _ _ v'(1)])
    show "\<not> hm_contains (partials v') (pp_input ?pp, pp_signer ?pp)"
      using peer(4) v'(2) by (simp add: awaits_share_def sh(4) payload_of_def)
    show "sa_verify api (sighashes v' ! unat (pp_input ?pp)) (signature s) (mn_signing_pubkey (ce_nodes env ! unat (pp_signer ?pp)))"
      using snd i sh(3) by (simp add: eq key_def)
    show "unat (pp_input ?pp) < length (psbt_inputs (sv_psbt v'))" using peer(4) v'(2) i by (simp add: awaits_share_def eq)
  qed (use peer codec same i in \<open>simp_all add: eq awaits_share_def codecs_roundtrip_def\<close>)
  moreover have "pl_input p = word_of_nat i" by (simp add: sh(4) payload_of_def)
  ultimately show ?thesis unfolding h key_def by simp blast
qed

theorem released_share_imported_witness:
  "\<exists>p st' c'' r v s. handle_parsed demo_sig demo_wire (demo_env 1) (demo_confirmed False False) (ce_node_id (demo_env 0)) p
        (ce_wallet_id (demo_env 1)) 5 = (st', ReplyAccepted) \<and>
    hm_get (candidates st') ''s'' = Some c'' \<and> variant c'' r = Some v \<and>
    hm_get (partial_sigs (psbt_inputs (sv_psbt v) ! unat (pl_input p)))
      (mn_signing_pubkey (ce_nodes (demo_env 1) ! unat (ce_node_id (demo_env 0)))) = Some \<lparr>signature = s, sig_sighash_type = SIGHASH_ALL\<rparr>"
proof -
  define c where "c = demo_cand_spend False True 416"
  define sg where "sg = \<lparr>signature = [2], sig_sighash_type = 1 :: 32 word\<rparr>"
  define p where "p = payload_of demo_sig demo_text (demo_env 0) ''s'' (role c) (demo_variant 4) 0 sg"
  have n: "ce_nodes (demo_env k) ! 0 = \<lparr>mn_node_id = 0, mn_signing_pubkey = [2], mn_channel_pubkey = [12], mn_endpoints = []\<rparr>" for k
    by (simp add: demo_env_def)
  have g: "hm_get (partial_sigs (psbt_inputs (sv_psbt (demo_variant 4)) ! 0)) [2] = Some sg"
    by (simp add: demo_variant_def demo_chan_psbt_def canonical_input_def demo_cfg_def hm_retain_def hm_get_def sg_def)
  have vs: "variants c = [demo_variant 4]" by (simp add: c_def demo_cand_spend_def variants_def)
  have vf: "sighashes (demo_variant 4) = [[0]]" "user_sig_hash (demo_variant 4) = replicate 32 0" "partials (demo_variant 4) = []"
    by (simp_all add: demo_variant_def)
  have 1: "codecs_roundtrip demo_sig demo_text demo_wire" by (simp add: codecs_roundtrip_def)
  have 2: "share_of demo_sig demo_text (demo_env 0) ''s'' c p"
    unfolding share_of_def
    by (intro exI [of _ 0] exI [of _ "demo_variant 4"] exI [of _ sg])
      (simp add: p_def n g demo_inputs_one, simp add: release_floor_def variant_def c_def demo_cand_spend_def)
  have 3: "ce_wallet_id (demo_env 0) = ce_wallet_id (demo_env 1)" "ce_nodes (demo_env 0) = ce_nodes (demo_env 1)"
    "length (ce_wallet_id (demo_env 1)) = 32" "unat (ce_node_id (demo_env 0)) < length (ce_nodes (demo_env 1))"
    by (simp_all add: demo_env_def)
  have 4: "hm_get (candidates (demo_confirmed False False)) ''s'' = Some c" by (simp add: demo_confirmed_def hm_get_def c_def)
  have 5: "matches_registration c c" by (simp add: matches_registration_def vs)
  have 6: "5 \<le> c_expiry c" by (simp add: c_def demo_cand_spend_def)
  have 7: "awaits_share (ce_node_id (demo_env 0)) c p" by (simp add: awaits_share_def vs vf demo_inputs_one hm_contains_def)
  have 8: "own_sigs_valid demo_sig (mn_signing_pubkey (ce_nodes (demo_env 1) ! unat (ce_node_id (demo_env 0)))) c"
    using g by (auto simp: own_sigs_valid_def vs vf demo_inputs_one n sg_def)
  from released_share_imported [OF 1 2 3 4 5 6 7 8] show ?thesis by blast
qed

end
