(* ===== verification/Chain_View.thy ===== *)
theory Chain_View
  imports Candidate
begin

text \<open>
  The interface of \<open>crates/vault-node/src/chain.rs\<close> to a full node and the checks the module
  makes on its answers. A \<open>ChainBackend\<close> is a record of functions over an unknown world state
  \<open>'w\<close> that every call may change, so that two calls of one pass can disagree; a call returns
  its result and the next world (\<open>chain_io\<close>). Transaction weights and the consensus encoding
  belong to rust-bitcoin and are an argument (\<open>tx_api\<close>). The theory holds the ancestor
  validation of \<open>assemble_package\<close> with its termination and its soundness, and the chain
  identity check made at start.
\<close>

subsection \<open>Fallible calls that change the world\<close>

type_synonym ('w, 'e, 'a) chain_io = "'w \<Rightarrow> ('e + 'a) \<times> 'w"

definition io_return :: "'a \<Rightarrow> ('w, 'e, 'a) chain_io" where
  "io_return a w = (Ok a, w)"

definition io_fail :: "'e \<Rightarrow> ('w, 'e, 'a) chain_io" where
  "io_fail e w = (Err e, w)"

definition io_bind :: "('w, 'e, 'a) chain_io \<Rightarrow> ('a \<Rightarrow> ('w, 'e, 'b) chain_io) \<Rightarrow> ('w, 'e, 'b) chain_io" where
  "io_bind m f w = (case m w of (Inl e, w1) \<Rightarrow> (Inl e, w1) | (Inr a, w1) \<Rightarrow> f a w1)"

definition io_map_err :: "('e \<Rightarrow> 'f) \<Rightarrow> ('w, 'e, 'a) chain_io \<Rightarrow> ('w, 'f, 'a) chain_io" where
  "io_map_err g m w = (case m w of (Inl e, w1) \<Rightarrow> (Inl (g e), w1) | (Inr a, w1) \<Rightarrow> (Inr a, w1))"

lemma io_simps [simp]:
  "io_return a w = (Inr a, w)" "io_fail e w = (Inl e, w)"
  by (simp_all add: io_return_def io_fail_def)

lemma io_bind_Ok_iff:
  "io_bind m f w = (Inr b, w2) \<longleftrightarrow> (\<exists>a w1. m w = (Inr a, w1) \<and> f a w1 = (Inr b, w2))"
  by (auto simp: io_bind_def split: prod.splits sum.splits)

lemma io_bind_OkE:
  assumes "io_bind m f w = (Inr b, w')"
  obtains a w1 where "m w = (Inr a, w1)" and "f a w1 = (Inr b, w')"
  using assms by (auto simp: io_bind_Ok_iff)

lemma io_map_err_Ok_iff [simp]: "io_map_err g m w = (Inr b, w2) \<longleftrightarrow> m w = (Inr b, w2)"
  by (auto simp: io_map_err_def split: prod.splits sum.splits)

subsection \<open>The backend\<close>

record prevout =
  po_txout :: txout
  po_confirmed :: bool

datatype package_verdict = PackageAccepted | PackageRejected

datatype chain_error =
    BackendFailure
  | PrevoutUnknown outpoint
  | ParentGone txid
  | ParentUnauthorized outpoint txid
  | AncestorBound
  | ParentMalformed txid
  | InputSetDiffers
  | PackageRefused
  | BroadcastClosed

record 'w chain_backend =
  b_broadcast :: "bytes \<Rightarrow> ('w, chain_error, txid) chain_io"
  b_tip_height :: "('w, chain_error, nat) chain_io"
  b_block_median_feerate :: "nat \<Rightarrow> ('w, chain_error, u64 option) chain_io"
  b_prevout :: "outpoint \<Rightarrow> ('w, chain_error, prevout option) chain_io"
  b_prevouts :: "outpoint list \<Rightarrow> ('w, chain_error, prevout option list) chain_io"
  b_vault_unspent :: "script list \<Rightarrow> txid list \<Rightarrow> ('w, chain_error, (outpoint \<times> prevout) list) chain_io"
  b_mempool_transaction :: "txid \<Rightarrow> ('w, chain_error, bytes option) chain_io"
  b_mempool_resident :: "txid list \<Rightarrow> ('w, chain_error, (txid \<times> bytes) option) chain_io"
  b_transaction_confirmed :: "txid \<Rightarrow> ('w, chain_error, bool) chain_io"
  b_test_package_accept :: "bytes list \<Rightarrow> ('w, chain_error, package_verdict) chain_io"

record tx_api =
  tx_weight :: "transaction \<Rightarrow> nat"
  tx_vsize :: "transaction \<Rightarrow> nat"
  tx_serialize :: "transaction \<Rightarrow> bytes"
  tx_deserialize :: "bytes \<Rightarrow> transaction option"

text \<open>The default body of \<open>mempool_resident\<close>: the first listed id that the mempool holds.\<close>

fun first_resident_by_lookup ::
  "txid list \<Rightarrow> (txid \<Rightarrow> ('w, 'e, bytes option) chain_io) \<Rightarrow> ('w, 'e, (txid \<times> bytes) option) chain_io" where
  "first_resident_by_lookup [] lookup w = (Ok None, w)"
| "first_resident_by_lookup (t # ts) lookup w =
     (case lookup t w of
        (Inl e, w1) \<Rightarrow> (Inl e, w1)
      | (Inr (Some raw), w1) \<Rightarrow> (Ok (Some (t, raw)), w1)
      | (Inr None, w1) \<Rightarrow> first_resident_by_lookup ts lookup w1)"

text \<open>The default body of \<open>prevouts\<close>.\<close>

fun prevouts_one_by_one ::
  "(outpoint \<Rightarrow> ('w, 'e, prevout option) chain_io) \<Rightarrow> outpoint list \<Rightarrow> ('w, 'e, prevout option list) chain_io" where
  "prevouts_one_by_one one [] = io_return []"
| "prevouts_one_by_one one (outp # outps) =
     io_bind (one outp) (\<lambda>p. io_bind (prevouts_one_by_one one outps) (\<lambda>ps. io_return (p # ps)))"

subsection \<open>Package assembly\<close>

definition MAX_PACKAGE_ANCESTORS :: nat where "MAX_PACKAGE_ANCESTORS = 24"
definition MAX_SUPPORTED_INCREMENTAL_RELAY_SAT_KVB :: u64 where "MAX_SUPPORTED_INCREMENTAL_RELAY_SAT_KVB = 1000"

text \<open>What one input contributes: \<open>Some raw\<close> is an unconfirmed parent, \<open>None\<close> the \<open>continue\<close>.\<close>

definition unconfirmed_parent ::
  "'w chain_backend \<Rightarrow> bool \<Rightarrow> txin \<Rightarrow> ('w, chain_error, bytes option) chain_io" where
  "unconfirmed_parent be inputs_are_unspent input =
     (let outp = previous_output input; parent_txid = op_txid outp in
      if inputs_are_unspent
      then io_bind (b_prevout be outp) (\<lambda>p. case p of
             None \<Rightarrow> io_fail (PrevoutUnknown outp)
           | Some po \<Rightarrow>
               if po_confirmed po then io_return None
               else io_bind (b_mempool_transaction be parent_txid) (\<lambda>r. case r of
                      None \<Rightarrow> io_fail (ParentGone parent_txid)
                    | Some raw \<Rightarrow> io_return (Some raw)))
      else b_mempool_transaction be parent_txid)"

function validate_ancestors ::
  "'w chain_backend \<Rightarrow> tx_api \<Rightarrow> txid list \<Rightarrow> bool \<Rightarrow> txin list \<Rightarrow> txid list \<Rightarrow> ('w, chain_error, txid list) chain_io" where
  "validate_ancestors be ta auth unspent [] seen w = (Ok seen, w)"
| "validate_ancestors be ta auth unspent (input # rest) seen w =
     (case unconfirmed_parent be unspent input w of
        (Inl e, w1) \<Rightarrow> (Inl e, w1)
      | (Inr None, w1) \<Rightarrow> validate_ancestors be ta auth unspent rest seen w1
      | (Inr (Some raw), w1) \<Rightarrow>
          let parent_txid = op_txid (previous_output input) in
          if parent_txid \<notin> set auth then (Inl (ParentUnauthorized (previous_output input) parent_txid), w1)
          else if parent_txid \<in> set seen then validate_ancestors be ta auth unspent rest seen w1
          else if length (parent_txid # seen) > MAX_PACKAGE_ANCESTORS then (Inl AncestorBound, w1)
          else (case tx_deserialize ta raw of
                  None \<Rightarrow> (Inl (ParentMalformed parent_txid), w1)
                | Some parent \<Rightarrow>
                    (case validate_ancestors be ta auth False (tx_input parent) (parent_txid # seen) w1 of
                       (Inl e, w2) \<Rightarrow> (Inl e, w2)
                     | (Inr seen2, w2) \<Rightarrow> validate_ancestors be ta auth unspent rest seen2 w2)))"
  by pat_completeness auto

text \<open>
  The recursion is nested: the set that the parent's call returns is the set of the next call. It
  only grows, and it never grows past the bound, so the pair of the room left in it and the number of
  inputs left decreases.
\<close>

lemma validate_ancestors_grows:
  "validate_ancestors_dom (be, ta, auth, unspent, ins, seen, w) \<Longrightarrow>
   validate_ancestors be ta auth unspent ins seen w = (Inr seen', w') \<Longrightarrow> length seen \<le> length seen'"
proof (induction arbitrary: seen' w' rule: validate_ancestors.pinduct)
  case (1 be ta auth unspent seen w)
  then show ?case by (simp add: validate_ancestors.psimps)
next
  case (2 be ta auth unspent input rest seen w)
  from "2.prems" show ?case
    using "2.hyps" "2.IH"
    by (fastforce simp: validate_ancestors.psimps Let_def split: prod.splits sum.splits option.splits if_splits)
qed

termination validate_ancestors
proof (relation "measures [\<lambda>(be, ta, auth, unspent, ins, seen, w). MAX_PACKAGE_ANCESTORS - length seen,
                           \<lambda>(be, ta, auth, unspent, ins, seen, w). length ins]", goal_cases)
  case 1
  show ?case by simp
qed (auto dest!: validate_ancestors_grows [OF _ sym])

definition assemble_package ::
  "'w chain_backend \<Rightarrow> tx_api \<Rightarrow> transaction \<Rightarrow> txid list \<Rightarrow> ('w, chain_error, bytes list) chain_io" where
  "assemble_package be ta tx authorized =
     io_bind (validate_ancestors be ta authorized True (tx_input tx) []) (\<lambda>_. io_return [tx_serialize ta tx])"

definition assemble_replacement_package ::
  "'w chain_backend \<Rightarrow> tx_api \<Rightarrow> transaction \<Rightarrow> transaction \<Rightarrow> txid list \<Rightarrow> ('w, chain_error, bytes list) chain_io" where
  "assemble_replacement_package be ta replacement replaced authorized =
     (let replacement_inputs = map previous_output (tx_input replacement);
          replaced_inputs = map previous_output (tx_input replaced) in
      if replacement_inputs \<noteq> replaced_inputs then io_fail InputSetDiffers
      else io_bind (validate_ancestors be ta authorized False (tx_input replaced) [])
             (\<lambda>_. io_return [tx_serialize ta replacement]))"

subsection \<open>The identity of the backend's chain\<close>

text \<open>
  The fields of \<open>getblockchaininfo\<close> that the start-up check reads, \<open>None\<close> where a field is absent or
  of another JSON type. \<open>Network::from_core_arg\<close> is an argument. White space is that of ASCII.
\<close>

record blockchain_info =
  bi_chain :: "string option"
  bi_signet_challenge :: "string option"
  bi_initialblockdownload :: "bool option"

datatype identity_error =
    RpcFailed | UnsupportedSealed network | NoChainField | UnknownChain string | WrongChain string network
  | CustomSignet string | NoSignetChallenge | StrayChallenge string | InInitialDownload
  | NoTxindex | TxindexUnsynced | IncrementalFeeTooHigh u64

definition PUBLIC_SIGNET_CHALLENGE :: string where
  "PUBLIC_SIGNET_CHALLENGE = ''512103ad5e0edad18cb1f0fc0d28a3d4f1f3e445640337489abb10404f2d1e086be430210359ef5021964fe22d6f8e05b2463c9540ce96883fe3b278760f048f5189f2e6c452ae''"

definition is_space :: "char \<Rightarrow> bool" where
  "is_space c = (of_char c \<in> {9, 10, 11, 12, 13, 32 :: nat})"

definition str_trim :: "string \<Rightarrow> string" where
  "str_trim t = rev (dropWhile is_space (rev (dropWhile is_space t)))"

definition ascii_lower :: "char \<Rightarrow> char" where
  "ascii_lower c = (if (65 :: nat) \<le> of_char c \<and> of_char c \<le> (90 :: nat) then char_of (of_char c + (32 :: nat)) else c)"

definition eq_ignore_ascii_case :: "string \<Rightarrow> string \<Rightarrow> bool" where
  "eq_ignore_ascii_case a b = (map ascii_lower a = map ascii_lower b)"

definition verify_chain_identity ::
  "(string \<Rightarrow> network option) \<Rightarrow> blockchain_info \<Rightarrow> network \<Rightarrow> identity_error + unit" where
  "verify_chain_identity from_core_arg info sealed =
     (case bi_chain info of
        None \<Rightarrow> Err NoChainField
      | Some reported \<Rightarrow>
          (case from_core_arg reported of
             None \<Rightarrow> Err (UnknownChain reported)
           | Some observed \<Rightarrow>
               if observed \<noteq> sealed then Err (WrongChain reported sealed)
               else let challenge = (case map_option str_trim (bi_signet_challenge info) of
                          None \<Rightarrow> None | Some ch \<Rightarrow> if ch = [] then None else Some ch) in
                 (case (sealed, challenge) of
                    (Signet, Some ch) \<Rightarrow> if eq_ignore_ascii_case ch PUBLIC_SIGNET_CHALLENGE then Ok () else Err (CustomSignet ch)
                  | (Signet, None) \<Rightarrow> Err NoSignetChallenge
                  | (_, Some ch) \<Rightarrow> Err (StrayChallenge ch)
                  | (_, None) \<Rightarrow> Ok ())))"

text \<open>The replies of the three RPCs in order; the \<open>txindex\<close> object carries its \<open>synced\<close> field.\<close>

definition verify_required_indexes ::
  "(string \<Rightarrow> network option) \<Rightarrow> identity_error + blockchain_info \<Rightarrow> identity_error + bool option option
    \<Rightarrow> identity_error + u64 \<Rightarrow> network \<Rightarrow> identity_error + unit" where
  "verify_required_indexes from_core_arg info_reply index_reply fee_reply sealed =
     (case network_code sealed of
        Inl _ \<Rightarrow> Err (UnsupportedSealed sealed)
      | Inr _ \<Rightarrow>
          bind_res info_reply (\<lambda>info. bind_res (verify_chain_identity from_core_arg info sealed) (\<lambda>_.
          if bi_initialblockdownload info \<noteq> Some False then Err InInitialDownload
          else bind_res index_reply (\<lambda>txindex. case txindex of
              None \<Rightarrow> Err NoTxindex
            | Some synced \<Rightarrow>
                if synced \<noteq> Some True then Err TxindexUnsynced
                else bind_res fee_reply (\<lambda>incremental_sat_kvb.
                  if incremental_sat_kvb > MAX_SUPPORTED_INCREMENTAL_RELAY_SAT_KVB
                  then Err (IncrementalFeeTooHigh incremental_sat_kvb) else Ok ())))))"

subsection \<open>What a packaged transaction rests on\<close>

text \<open>A world that answers the two queries of the validation without changing.\<close>

definition still_world :: "'w chain_backend \<Rightarrow> 'w \<Rightarrow> bool" where
  "still_world be w \<longleftrightarrow> (\<forall>outp. snd (b_prevout be outp w) = w) \<and> (\<forall>t. snd (b_mempool_transaction be t w) = w)"

text \<open>The parent of an input is unconfirmed: read through the prevout, or through the mempool alone.\<close>

definition hangs_off :: "'w chain_backend \<Rightarrow> 'w \<Rightarrow> bool \<Rightarrow> txin list \<Rightarrow> txid \<Rightarrow> bytes \<Rightarrow> bool" where
  "hangs_off be w unspent ins t raw \<longleftrightarrow>
     (\<exists>i \<in> set ins. op_txid (previous_output i) = t \<and> unconfirmed_parent be unspent i w = (Inr (Some raw), w))"

inductive unconfirmed_ancestor :: "'w chain_backend \<Rightarrow> tx_api \<Rightarrow> 'w \<Rightarrow> bool \<Rightarrow> txin list \<Rightarrow> txid \<Rightarrow> bool"
  for be ta w unspent ins where
  parent: "hangs_off be w unspent ins t raw \<Longrightarrow> unconfirmed_ancestor be ta w unspent ins t"
| further: "unconfirmed_ancestor be ta w unspent ins t \<Longrightarrow> fst (b_mempool_transaction be t w) = Inr (Some raw) \<Longrightarrow>
    tx_deserialize ta raw = Some tx \<Longrightarrow> hangs_off be w False (tx_input tx) t' raw' \<Longrightarrow>
    unconfirmed_ancestor be ta w unspent ins t'"

lemma unconfirmed_parent_still:
  assumes "still_world be w" "unconfirmed_parent be unspent i w = (r, w')"
  shows "w' = w"
  using assms by (auto simp: unconfirmed_parent_def io_bind_def still_world_def Let_def
      split: prod.splits sum.splits option.splits if_splits) (metis snd_conv)+

lemma unconfirmed_parent_raw:
  assumes "still_world be w" "unconfirmed_parent be unspent i w = (Inr (Some raw), w')"
  shows "fst (b_mempool_transaction be (op_txid (previous_output i)) w) = Inr (Some raw)"
proof -
  have "snd (b_prevout be (previous_output i) w) = w" using assms(1) by (simp add: still_world_def)
  with assms(2) show ?thesis
    by (auto simp: unconfirmed_parent_def io_bind_def Let_def split: prod.splits sum.splits option.splits if_splits)
qed

text \<open>The set that the walk returns: it contains every parent it met and is closed from the new members on.\<close>

definition parents_in :: "'w chain_backend \<Rightarrow> tx_api \<Rightarrow> 'w \<Rightarrow> txid set \<Rightarrow> txid set \<Rightarrow> bool" where
  "parents_in be ta w new all \<longleftrightarrow> (\<forall>t \<in> new. \<forall>raw tx t' raw'. fst (b_mempool_transaction be t w) = Inr (Some raw) \<longrightarrow>
     tx_deserialize ta raw = Some tx \<longrightarrow> hangs_off be w False (tx_input tx) t' raw' \<longrightarrow> t' \<in> all)"

definition walked :: "'w chain_backend \<Rightarrow> tx_api \<Rightarrow> txid list \<Rightarrow> 'w \<Rightarrow> bool \<Rightarrow> txin list \<Rightarrow> txid list \<Rightarrow> txid list \<Rightarrow> bool" where
  "walked be ta auth w unspent ins seen seen' \<longleftrightarrow>
     set seen \<subseteq> set seen' \<and> set seen' \<subseteq> set seen \<union> set auth \<and>
     (length seen \<le> MAX_PACKAGE_ANCESTORS \<longrightarrow> length seen' \<le> MAX_PACKAGE_ANCESTORS) \<and>
     (\<forall>t raw. hangs_off be w unspent ins t raw \<longrightarrow> t \<in> set seen') \<and>
     parents_in be ta w (set seen' - set seen) (set seen') \<and>
     (\<forall>i \<in> set ins. \<exists>r. unconfirmed_parent be unspent i w = (Inr r, w))"

lemma parents_in_mono: "parents_in be ta w A B \<Longrightarrow> B \<subseteq> C \<Longrightarrow> parents_in be ta w A C"
  by (fastforce simp: parents_in_def)

lemma parents_in_split:
  "parents_in be ta w A C \<Longrightarrow> parents_in be ta w B C \<Longrightarrow> D \<subseteq> A \<union> B \<Longrightarrow> parents_in be ta w D C"
  by (fastforce simp: parents_in_def)

lemma hangs_off_Cons:
  "hangs_off be w unspent (i # ins) t raw \<longleftrightarrow>
     (op_txid (previous_output i) = t \<and> unconfirmed_parent be unspent i w = (Inr (Some raw), w)) \<or> hangs_off be w unspent ins t raw"
  by (auto simp: hangs_off_def)

lemma walkedD:
  assumes "walked be ta auth w unspent ins seen seen'"
  shows "set seen \<subseteq> set seen'" "set seen' \<subseteq> set seen \<union> set auth"
    "length seen \<le> MAX_PACKAGE_ANCESTORS \<Longrightarrow> length seen' \<le> MAX_PACKAGE_ANCESTORS"
    "hangs_off be w unspent ins t raw \<Longrightarrow> t \<in> set seen'"
    "parents_in be ta w (set seen' - set seen) (set seen')"
    "i \<in> set ins \<Longrightarrow> \<exists>r. unconfirmed_parent be unspent i w = (Inr r, w)"
  using assms unfolding walked_def by blast+

lemma walked_Nil: "walked be ta auth w unspent [] seen seen"
  by (auto simp: walked_def parents_in_def hangs_off_def)

lemma walked_skip:
  assumes "unconfirmed_parent be unspent i w = (Inr None, w)" "walked be ta auth w unspent ins seen seen'"
  shows "walked be ta auth w unspent (i # ins) seen seen'"
  using assms by (auto simp: walked_def hangs_off_Cons)

lemma walked_known:
  assumes "unconfirmed_parent be unspent i w = (Inr (Some raw), w)" "op_txid (previous_output i) \<in> set seen"
    "walked be ta auth w unspent ins seen seen'"
  shows "walked be ta auth w unspent (i # ins) seen seen'"
  using assms by (auto simp: walked_def hangs_off_Cons)

lemma walked_new:
  assumes still: "still_world be w"
    and up: "unconfirmed_parent be unspent i w = (Inr (Some raw), w)"
    and t: "t = op_txid (previous_output i)" "t \<in> set auth" "t \<notin> set seen" "Suc (length seen) \<le> MAX_PACKAGE_ANCESTORS"
    and tx: "tx_deserialize ta raw = Some tx"
    and inner: "walked be ta auth w False (tx_input tx) (t # seen) seen2"
    and outer: "walked be ta auth w unspent ins seen2 seen'"
  shows "walked be ta auth w unspent (i # ins) seen seen'"
proof -
  note i = walkedD [OF inner] and ou = walkedD [OF outer]
  have sub: "set seen2 \<subseteq> set seen'" "insert t (set seen) \<subseteq> set seen2" using i(1) ou(1) by simp_all
  have raw: "fst (b_mempool_transaction be t w) = Inr (Some raw)"
    using unconfirmed_parent_raw [OF still up] t(1) by simp
  have t_ok: "parents_in be ta w {t} (set seen')"
    unfolding parents_in_def
  proof (intro ballI allI impI)
    fix u raw' tx' t' r'
    assume "u \<in> {t}" "fst (b_mempool_transaction be u w) = Inr (Some raw')" "tx_deserialize ta raw' = Some tx'"
      "hangs_off be w False (tx_input tx') t' r'"
    with raw tx have "hangs_off be w False (tx_input tx) t' r'" by simp
    then show "t' \<in> set seen'" using i(4) sub(1) by blast
  qed
  have in2: "parents_in be ta w (set seen2 - insert t (set seen)) (set seen')"
    using parents_in_mono [OF i(5) sub(1)] by simp
  have "parents_in be ta w (set seen2 - set seen) (set seen')"
    by (rule parents_in_split [OF t_ok in2]) blast
  then have closed: "parents_in be ta w (set seen' - set seen) (set seen')"
    by (rule parents_in_split [OF ou(5)]) blast
  have len: "length seen' \<le> MAX_PACKAGE_ANCESTORS" using i(3) ou(3) t(4) by simp
  have auth: "set seen' \<subseteq> set seen \<union> set auth" using i(2) ou(2) t(2) by auto
  have met: "\<forall>u raw. hangs_off be w unspent (i # ins) u raw \<longrightarrow> u \<in> set seen'"
    using ou(4) sub t(1) by (auto simp: hangs_off_Cons)
  have known: "\<forall>j \<in> set (i # ins). \<exists>r. unconfirmed_parent be unspent j w = (Inr r, w)"
    using ou(6) up by simp
  from sub have "set seen \<subseteq> set seen'" by blast
  then show ?thesis unfolding walked_def using closed len auth met known by (intro conjI impI)
qed

lemma validate_ancestors_walked:
  "still_world be w \<Longrightarrow> validate_ancestors be ta auth unspent ins seen w = (Inr seen', w') \<Longrightarrow>
   w' = w \<and> walked be ta auth w unspent ins seen seen'"
proof (induction be ta auth unspent ins seen w arbitrary: seen' w' rule: validate_ancestors.induct)
  case (1 be ta auth unspent seen w)
  then show ?case by (simp add: walked_Nil)
next
  case (2 be ta auth unspent i ins seen w)
  obtain r w1 where up: "unconfirmed_parent be unspent i w = (r, w1)" by fastforce
  with unconfirmed_parent_still [OF "2.prems"(1) up] have up: "unconfirmed_parent be unspent i w = (r, w)" by simp
  note hyps = "2.IH"[OF up [symmetric]] and still = "2.prems"(1) and run = "2.prems"(2)
  show ?case
  proof (cases r)
    case (Inl e)
    with run up show ?thesis by simp
  next
    case r: (Inr p)
    show ?thesis
    proof (cases p)
      case None
      with run up r hyps(1) still show ?thesis by (auto intro: walked_skip)
    next
      case p: (Some raw)
      let ?t = "op_txid (previous_output i)"
      show ?thesis
      proof (cases "?t \<in> set seen")
        case True
        with run up r p have "?t \<in> set auth" "validate_ancestors be ta auth unspent ins seen w = (Inr seen', w')"
          by (auto simp: Let_def split: if_splits)
        with hyps(2) [OF r p refl] True still up r p show ?thesis by (auto intro: walked_known)
      next
        case new: False
        with run up r p obtain tx seen2 w2 where t: "?t \<in> set auth" "Suc (length seen) \<le> MAX_PACKAGE_ANCESTORS"
            "tx_deserialize ta raw = Some tx"
            "validate_ancestors be ta auth False (tx_input tx) (?t # seen) w = (Inr seen2, w2)"
            "validate_ancestors be ta auth unspent ins seen2 w2 = (Inr seen', w')"
          by (auto simp: Let_def split: if_splits option.splits prod.splits sum.splits)
        from hyps(3) [OF r p refl] t new still
        have inner: "w2 = w" "walked be ta auth w False (tx_input tx) (?t # seen) seen2" by auto
        with hyps(4) [OF r p refl _ _ _ t(3) t(4) [symmetric]] t new still
        have "w' = w" "walked be ta auth w unspent ins seen2 seen'" by auto
        with inner up r p t new still show ?thesis by (auto intro: walked_new)
      qed
    qed
  qed
qed

lemma walked_ancestors:
  assumes still: "still_world be w" and wk: "walked be ta auth w unspent ins [] seen"
  shows "unconfirmed_ancestor be ta w unspent ins t \<Longrightarrow> t \<in> set seen"
proof (induction rule: unconfirmed_ancestor.induct)
  case (parent t raw)
  then show ?case by (rule walkedD(4) [OF wk])
next
  case (further t raw tx t' raw')
  with walkedD(5) [OF wk] show ?case by (simp add: parents_in_def) blast
qed

lemma assembled_ancestors:
  assumes "still_world be w" "validate_ancestors be ta auth unspent ins [] w = (Inr seen, w')"
  shows "w' = w \<and> length seen \<le> MAX_PACKAGE_ANCESTORS \<and> set seen \<subseteq> set auth \<and>
    (\<forall>t. unconfirmed_ancestor be ta w unspent ins t \<longrightarrow> t \<in> set seen)"
proof -
  from validate_ancestors_walked [OF assms] have "w' = w" and wk: "walked be ta auth w unspent ins [] seen" by auto
  with walkedD(2,3) [OF wk] walked_ancestors [OF assms(1) wk] show ?thesis by auto
qed

lemma known_prevout:
  assumes "still_world be w" "unconfirmed_parent be True i w = (Inr r, w)"
  shows "\<exists>po. b_prevout be (previous_output i) w = (Inr (Some po), w)"
proof -
  have "snd (b_prevout be (previous_output i) w) = w" using assms(1) by (simp add: still_world_def)
  with assms(2) show ?thesis
    by (cases "b_prevout be (previous_output i) w")
       (auto simp: unconfirmed_parent_def io_bind_def Let_def split: prod.splits sum.splits option.splits if_splits)
qed

text \<open>Package assembly is sound. When the node's view of the chain stands still, an assembled package
  is the transaction alone, every input it spends is known to that view, and every unconfirmed
  transaction it hangs off, at any depth, is one that this node has authorized; there are at most
  twenty-four of them.\<close>

theorem assemble_package_sound:
  assumes "still_world be w" "assemble_package be ta tx authorized w = (Inr package, w')"
  shows "package = [tx_serialize ta tx] \<and>
    (\<forall>i \<in> set (tx_input tx). \<exists>po. b_prevout be (previous_output i) w = (Inr (Some po), w)) \<and>
    (\<exists>seen. length seen \<le> 24 \<and> set seen \<subseteq> set authorized \<and>
       (\<forall>t. unconfirmed_ancestor be ta w True (tx_input tx) t \<longrightarrow> t \<in> set seen))"
proof -
  from assms(2) obtain seen w1 where v: "validate_ancestors be ta authorized True (tx_input tx) [] w = (Inr seen, w1)"
      "package = [tx_serialize ta tx]"
    by (auto simp: assemble_package_def io_bind_Ok_iff)
  from validate_ancestors_walked [OF assms(1) v(1)] have wk: "walked be ta authorized w True (tx_input tx) [] seen" by simp
  have "\<forall>i \<in> set (tx_input tx). \<exists>po. b_prevout be (previous_output i) w = (Inr (Some po), w)"
    using walkedD(6) [OF wk] known_prevout [OF assms(1)] by blast
  then show ?thesis using v(2) assembled_ancestors [OF assms(1) v(1)] by (auto simp: MAX_PACKAGE_ANCESTORS_def)
qed

text \<open>A node serves only the chain it is sealed to. The start-up check passes exactly when the backend
  names the sealed chain, its signet challenge is the public one on signet and absent elsewhere, it has left
  the initial block download, its transaction index is synced, and its incremental relay fee is within the bound
  that the escape ladder is priced for.\<close>

theorem required_indexes_pass_iff:
  "verify_required_indexes fca (Inr info) (Inr txindex) (Inr fee) sealed = Inr () \<longleftrightarrow>
     sealed \<in> {Bitcoin, Signet, Regtest} \<and> (\<exists>c. bi_chain info = Some c \<and> fca c = Some sealed) \<and>
     (case map_option str_trim (bi_signet_challenge info) of
        None \<Rightarrow> sealed \<noteq> Signet
      | Some ch \<Rightarrow> if sealed = Signet then map ascii_lower ch = map ascii_lower PUBLIC_SIGNET_CHALLENGE else ch = []) \<and>
     bi_initialblockdownload info = Some False \<and> txindex = Some (Some True) \<and> fee \<le> 1000"
  by (cases sealed; cases "bi_chain info"; cases "bi_signet_challenge info"; cases txindex)
     (auto simp: verify_required_indexes_def verify_chain_identity_def eq_ignore_ascii_case_def Let_def
       MAX_SUPPORTED_INCREMENTAL_RELAY_SAT_KVB_def PUBLIC_SIGNET_CHALLENGE_def bind_res_def split: option.splits sum.splits if_splits)

text \<open>A chain of one authorized unconfirmed parent over a confirmed coin.\<close>

definition demo_in :: "txid \<Rightarrow> txin" where
  "demo_in parent = \<lparr>previous_output = \<lparr>op_txid = parent, op_vout = 0\<rparr>, script_sig = [], sequence = 0xfffffffd, txin_witness = []\<rparr>"

definition demo_tx_on :: "txid \<Rightarrow> nat \<Rightarrow> transaction" where
  "demo_tx_on parent v = \<lparr>tx_version = 2, tx_lock_time = 0,
     tx_input = [demo_in parent], tx_output = [\<lparr>script_pubkey = [3, 0], txo_value = v\<rparr>]\<rparr>"

definition demo_tx_api :: tx_api where
  "demo_tx_api = \<lparr>tx_weight = (\<lambda>tx. 400), tx_vsize = (\<lambda>tx. 100),
     tx_serialize = (\<lambda>tx. op_txid (previous_output (hd (tx_input tx)))), tx_deserialize = (\<lambda>raw. Some (demo_tx_on raw 5))\<rparr>"

definition demo_backend :: "unit chain_backend" where
  "demo_backend = \<lparr>b_broadcast = (\<lambda>raw. io_return raw), b_tip_height = io_return 100, b_block_median_feerate = (\<lambda>h. io_return (Some 12)),
     b_prevout = (\<lambda>outp. io_return (Some \<lparr>po_txout = \<lparr>script_pubkey = [1], txo_value = 100000\<rparr>, po_confirmed = (op_txid outp \<noteq> [8])\<rparr>)),
     b_prevouts = (\<lambda>outps. io_return (map (\<lambda>_. Some \<lparr>po_txout = \<lparr>script_pubkey = [1], txo_value = 100000\<rparr>, po_confirmed = True\<rparr>) outps)),
     b_vault_unspent = (\<lambda>scripts auth. io_return [(\<lparr>op_txid = [9], op_vout = 0\<rparr>,
       \<lparr>po_txout = \<lparr>script_pubkey = [1], txo_value = 100000\<rparr>, po_confirmed = True\<rparr>)]),
     b_mempool_transaction = (\<lambda>t. io_return (if t = [8] then Some [9] else None)),
     b_mempool_resident = (\<lambda>ts. io_return None), b_transaction_confirmed = (\<lambda>t. io_return False),
     b_test_package_accept = (\<lambda>p. io_return PackageAccepted)\<rparr>"

lemma demo_backend_still: "still_world demo_backend ()"
  by (simp add: still_world_def demo_backend_def)

lemma demo_backend_reads:
  "b_mempool_transaction demo_backend t w = (Inr (if t = [8] then Some [9] else None), w)"
  "b_prevout demo_backend outp w =
     (Inr (Some \<lparr>po_txout = \<lparr>script_pubkey = [1], txo_value = 100000\<rparr>, po_confirmed = (op_txid outp \<noteq> [8])\<rparr>), w)"
  "tx_deserialize demo_tx_api raw = Some (demo_tx_on raw 5)"
  "tx_serialize demo_tx_api tx = op_txid (previous_output (hd (tx_input tx)))"
  by (simp_all add: demo_backend_def demo_tx_api_def)

lemma demo_parent:
  "unconfirmed_parent demo_backend True (demo_in [8]) w = (Inr (Some [9]), w)"
  "unconfirmed_parent demo_backend False (demo_in [9]) w = (Inr None, w)"
  by (simp_all add: unconfirmed_parent_def demo_in_def demo_backend_reads io_bind_def Let_def)

lemma demo_tx_input: "tx_input (demo_tx_on t v) = [demo_in t]" "op_txid (previous_output (demo_in t)) = t"
  by (simp_all add: demo_tx_on_def demo_in_def)

theorem assemble_package_sound_witness:
  "assemble_package demo_backend demo_tx_api (demo_tx_on [8] 4) [[8]] () = (Inr [[8]], ()) \<and>
   (\<exists>seen. length seen \<le> 24 \<and> set seen \<subseteq> {[8]} \<and>
      set (filter (unconfirmed_ancestor demo_backend demo_tx_api () True (tx_input (demo_tx_on [8] 4))) [[8], [9]]) \<subseteq> set seen)"
proof -
  have run: "assemble_package demo_backend demo_tx_api (demo_tx_on [8] 4) [[8]] () = (Inr [[8]], ())"
    by (simp add: assemble_package_def io_bind_def demo_parent demo_tx_input demo_backend_reads MAX_PACKAGE_ANCESTORS_def)
  from assemble_package_sound [OF demo_backend_still run] run show ?thesis by auto
qed

end
