(* ===== verification/Node_State.thy ===== *)
theory Node_State
  imports Policy_Core Replay_Log Pin_Budget Arm_Quorum Ingest Chain_View
begin

text \<open>
  The node of \<open>crates/vault-node/src/lib.rs\<close> and its life cycle. \<open>node\<close> holds the sealed
  configuration of a \<open>Node\<close> and the third-party functions it calls; \<open>node_state\<close> holds what changes
  after start: the Lockdown latch, the counters, the state behind \<open>sign_state\<close>, the authorized
  transaction ids, the channel and the outbox. A mutex is a flag: it is poisoned when a thread has
  panicked inside it, and every later \<open>expect\<close> on it panics. The theory models the storage gate, the
  one-shot generation claim, the persisted Lockdown latch, the deadline tick with its fail-closed net,
  and the health and pending projections, and shows that Lockdown is irrevocable and is entered at the
  armed deadline.
\<close>

subsection \<open>The node\<close>

record 'd node =
  nd_desc :: "'d desc_api"
  nd_sig :: sig_api
  nd_text :: text_api
  nd_wire :: wire_api
  nd_tx :: tx_api
  nd_psbt_from_str :: "string \<Rightarrow> psbt option"
  nd_psbt_serialize :: "psbt \<Rightarrow> bytes"
  nd_finalize :: "psbt \<Rightarrow> transaction option"
  nd_sign_ecdsa :: "digest \<Rightarrow> bytes"
  nd_pin_evaluator :: "pin_slot \<Rightarrow> bytes \<Rightarrow> bool option"
  nd_carrier_kdf :: "digest \<Rightarrow> bytes"
  nd_json :: "tagged_request \<Rightarrow> bytes"
  nd_envelope_json :: "envelope \<Rightarrow> bytes"
  nd_p2wsh :: "script \<Rightarrow> script"
  nd_pubkey :: pubkey
  nd_user_pubkey :: pubkey
  nd_witness_script :: script
  nd_check_params :: "'d check_params"
  nd_pin_budget_config :: pin_budget_config
  nd_coordinator_auth :: pubkey
  nd_wallet_id :: bytes
  nd_policy_version :: "32 word"
  nd_max_commitment_age_secs :: u64
  nd_hold_secs :: u64
  nd_combine_slack_secs :: u64
  nd_hot_budget :: hot_budget
  nd_threshold :: nat
  nd_max_vault_satisfaction_weight :: u64
  nd_refresh_min_interval_secs :: u64
  nd_refresh_max_feerate :: u64
  nd_duress_delay_secs :: u64
  nd_epsilon_secs :: u64
  nd_delivery_horizon_secs :: u64
  nd_escape_coverage_pct :: nat
  nd_escape_feerate_floor :: u64
  nd_network :: network
  nd_env :: channel_env
  nd_max_msg_bytes :: nat

record sign_state =
  ss_replay :: "sign_response replay_log"
  ss_pending :: pending_log
  ss_coord_nonces :: nonce_log
  ss_refreshes :: refresh_log
  ss_pin_budget :: attempt_budget

text \<open>The two extended attributes of the config inode.\<close>

record lifecycle_file =
  lf_generation :: "bytes option"
  lf_lockdown :: "bytes option"

record node_state =
  ns_lockdown :: bool
  ns_lifecycle :: "lifecycle_file option"
  ns_duress_arm :: "64 word"
  ns_spend_preflight :: nat
  ns_last_deadline_tick :: u64
  ns_generation_claimed :: bool
  ns_sign :: sign_state
  ns_sign_poisoned :: bool
  ns_authorized :: "txid list"
  ns_channel :: "channel_state option"
  ns_store_poisoned :: bool
  ns_outbox :: "tagged_request list"

definition duress_timing_of :: "'d node \<Rightarrow> duress_timing" where
  "duress_timing_of node = \<lparr>duress_delay_secs = nd_duress_delay_secs node, epsilon_secs = nd_epsilon_secs node,
     dt_combine_slack_secs = nd_combine_slack_secs node\<rparr>"

definition candidate_keys_of :: "'d node \<Rightarrow> candidate_keys" where
  "candidate_keys_of node = \<lparr>ck_witness_script = nd_witness_script node, ck_user_pubkey = nd_user_pubkey node,
     ck_self_signing_pubkey = nd_pubkey node\<rparr>"

text \<open>The channel of this node as the machine of \<^theory_text>\<open>Channel_Machine\<close>.\<close>

definition channel_of :: "'d node \<Rightarrow> channel_cfg" where
  "channel_of node = \<lparr>cfg_sig = nd_sig node, cfg_text = nd_text node, cfg_finalize = nd_finalize node, cfg_env = nd_env node,
     cfg_keys = candidate_keys_of node, cfg_threshold = nd_threshold node, cfg_timing = duress_timing_of node\<rparr>"

definition vault_scripts :: "'d node \<Rightarrow> script list" where
  "vault_scripts node = [nd_p2wsh node (nd_witness_script node)]"

definition set_store :: "partial_store \<Rightarrow> node_state \<Rightarrow> node_state" where
  "set_store st ns = ns\<lparr>ns_channel := map_option (\<lambda>ch. ch\<lparr>ch_store := st\<rparr>) (ns_channel ns)\<rparr>"

subsection \<open>Responses\<close>

definition refuse :: "refusal_code \<Rightarrow> string \<Rightarrow> sign_response" where
  "refuse code check = RespRefusal \<lparr>ref_code = code, ref_check = check\<rparr>"

definition fraud_suspected :: sign_response where
  "fraud_suspected = refuse FraudSuspected ''lockdown''"

definition pin_refusal :: "bool \<Rightarrow> sign_response" where
  "pin_refusal locked = (if locked then refuse BadPin ''pin_attempt_budget'' else refuse BadPin ''pin'')"

definition hot_velocity_refusal :: sign_response where
  "hot_velocity_refusal = refuse HotVelocityExceeded ''hot_budget_velocity''"

fun map_policy_code :: "violation_code \<Rightarrow> refusal_code" where
  "map_policy_code UnknownInput = RcUnknownInput"
| "map_policy_code DestNotAllowed = RcDestNotAllowed"
| "map_policy_code ChangeNotDerivable = RcChangeNotDerivable"
| "map_policy_code FeeExceedsCap = RcFeeExceedsCap"
| "map_policy_code PsbtInconsistent = RcPsbtInconsistent"
| "map_policy_code HotBudgetExceeded = RcHotBudgetExceeded"

fun is_recordable_verdict :: "sign_response \<Rightarrow> bool" where
  "is_recordable_verdict (RespAccepted _) = True"
| "is_recordable_verdict (RespRefusal r) = (ref_code r \<in> {RcDestNotAllowed, RcChangeNotDerivable, RcFeeExceedsCap})"

definition record_verdict :: "sign_response replay_log \<Rightarrow> string \<Rightarrow> u64 \<Rightarrow> sign_response \<Rightarrow> sign_response replay_log" where
  "record_verdict log key expiry v = (if is_recordable_verdict v then replay_record log key expiry v else log)"

subsection \<open>Names of the sealed network\<close>

definition parse_vault_network :: "string \<Rightarrow> network option" where
  "parse_vault_network raw =
     (if raw = ''bitcoin'' then Some Bitcoin else if raw = ''signet'' then Some Signet
      else if raw = ''regtest'' then Some Regtest else None)"

fun vault_network_name :: "network \<Rightarrow> string" where
  "vault_network_name Bitcoin = ''bitcoin''"
| "vault_network_name Signet = ''signet''"
| "vault_network_name Regtest = ''regtest''"
| "vault_network_name _ = ''unsupported''"

lemma vault_network_roundtrip:
  "parse_vault_network raw = Some n \<longleftrightarrow> network_code n \<noteq> Inl (UnsupportedNetwork n) \<and> vault_network_name n = raw"
  by (cases n) (auto simp: parse_vault_network_def)

subsection \<open>The storage gate\<close>

datatype storage_decision = Volatile | OverrideDurable | RejectDurable

definition TMPFS_MAGIC :: int where "TMPFS_MAGIC = 0x01021994"
definition RAMFS_MAGIC :: int where "RAMFS_MAGIC = 0x858458f6"

definition classify_fs :: "int \<Rightarrow> bool \<Rightarrow> storage_decision" where
  "classify_fs f_type enforcement_off =
     (if f_type = TMPFS_MAGIC \<or> f_type = RAMFS_MAGIC then Volatile
      else if enforcement_off then OverrideDurable else RejectDurable)"

text \<open>\<open>None\<close> is a failed \<open>fstatfs\<close>; the release build enforces unless the override is set.\<close>

definition assert_volatile_storage :: "int option \<Rightarrow> bool \<Rightarrow> bool" where
  "assert_volatile_storage f_type enforcement_off =
     (case f_type of None \<Rightarrow> enforcement_off | Some t \<Rightarrow> classify_fs t enforcement_off \<noteq> RejectDurable)"

lemma volatile_storage_enforced:
  "assert_volatile_storage f False \<longleftrightarrow> f = Some TMPFS_MAGIC \<or> f = Some RAMFS_MAGIC"
  by (auto simp: assert_volatile_storage_def classify_fs_def split: option.splits if_splits)

subsection \<open>Generation claim and persisted latch\<close>

text \<open>The outcomes of the system calls are arguments: whether the attribute was written, whether the file synced.\<close>

datatype lifecycle_error = NoConfigInode | ClaimRefused | SyncFailed | LatchUnreadable | LatchNotCreated | LatchDisappeared

datatype latch_create = LatchCreated | LatchExists "bytes option" | LatchFailed

definition claim_process_generation :: "bool \<Rightarrow> bool \<Rightarrow> node_state \<Rightarrow> node_state \<times> (lifecycle_error + unit)" where
  "claim_process_generation write_ok sync_ok ns =
     (case ns_lifecycle ns of
        None \<Rightarrow> (ns, Err NoConfigInode)
      | Some f \<Rightarrow>
          if lf_generation f \<noteq> None \<or> \<not> write_ok then (ns, Err ClaimRefused)
          else let ns1 = ns\<lparr>ns_lifecycle := Some (f\<lparr>lf_generation := Some (str_bytes (''claimed'' @ [CHR 0x0A]))\<rparr>)\<rparr> in
            if \<not> sync_ok then (ns1, Err SyncFailed)
            else (ns1\<lparr>ns_generation_claimed := True\<rparr>, Ok ()))"

text \<open>
  \<open>read\<close> is the first \<open>read_xattr\<close>, \<open>create\<close> the create-only write that follows an absent latch; a latch
  that appeared meanwhile is read again.
\<close>

definition apply_persisted_lockdown ::
  "lifecycle_error + bytes option \<Rightarrow> latch_create \<Rightarrow> bool \<Rightarrow> lifecycle_file \<Rightarrow> node_state \<Rightarrow> lifecycle_error + node_state" where
  "apply_persisted_lockdown read create sync_ok f ns =
     bind_res read (\<lambda>marker0.
     bind_res (case marker0 of
         Some m \<Rightarrow> Ok (Some m, f)
       | None \<Rightarrow> (case create of
             LatchCreated \<Rightarrow> if sync_ok then Ok (Some [], f\<lparr>lf_lockdown := Some []\<rparr>) else Err SyncFailed
           | LatchExists again \<Rightarrow> Ok (again, f)
           | LatchFailed \<Rightarrow> Err LatchNotCreated)) (\<lambda>(marker, f1).
     case marker of
       None \<Rightarrow> Err LatchDisappeared
     | Some m \<Rightarrow> Ok (ns\<lparr>ns_lockdown := (ns_lockdown ns \<or> m \<noteq> []), ns_lifecycle := Some f1\<rparr>)))"

text \<open>
  \<open>written\<close> is the outcome of the attribute write alone. The sync that follows a successful write cannot take
  the attribute off the inode again; whether it failed decides only what is printed.
\<close>

definition latch_lockdown :: "bool \<Rightarrow> node_state \<Rightarrow> node_state" where
  "latch_lockdown written ns =
     (if ns_lockdown ns then ns
      else ns\<lparr>ns_lifecycle := (if written then map_option (\<lambda>f. f\<lparr>lf_lockdown := Some (str_bytes (''locked'' @ [CHR 0x0A]))\<rparr>) (ns_lifecycle ns)
                              else ns_lifecycle ns),
              ns_lockdown := True\<rparr>)"

text \<open>\<open>enter_lockdown\<close> takes the sign lock first; \<open>None\<close> is the panic on a poisoned lock.\<close>

definition enter_lockdown :: "bool \<Rightarrow> node_state \<Rightarrow> node_state option" where
  "enter_lockdown persisted ns = (if ns_sign_poisoned ns then None else Some (latch_lockdown persisted ns))"

definition critical_lock_poisoned :: "node_state \<Rightarrow> bool" where
  "critical_lock_poisoned ns = (ns_sign_poisoned ns \<or> (ns_channel ns \<noteq> None \<and> ns_store_poisoned ns))"

subsection \<open>The deadline tick\<close>

definition DEADLINE_HEARTBEAT_RESOLUTION_SECS :: u64 where "DEADLINE_HEARTBEAT_RESOLUTION_SECS = 10"

definition record_deadline_tick :: "u64 \<Rightarrow> node_state \<Rightarrow> node_state" where
  "record_deadline_tick now ns =
     (let bucket = now - now mod DEADLINE_HEARTBEAT_RESOLUTION_SECS
      in ns\<lparr>ns_last_deadline_tick := max (ns_last_deadline_tick ns) bucket\<rparr>)"

definition lockdown_tick :: "bool \<Rightarrow> u64 \<Rightarrow> node_state \<Rightarrow> (node_state \<times> bool) option" where
  "lockdown_tick persisted now ns =
     (case ns_channel ns of
        None \<Rightarrow> Some (ns, False)
      | Some ch \<Rightarrow>
          if ns_store_poisoned ns then None
          else if lockdown_due (ch_store ch) now \<and> \<not> ns_lockdown ns
            then map_option (\<lambda>ns1. (ns1, True)) (enter_lockdown persisted ns)
          else Some (ns, False))"

text \<open>The panic of the tick is caught; a torn critical section then forces the latch.\<close>

definition lockdown_tick_with_lockdown_net :: "bool \<Rightarrow> u64 \<Rightarrow> node_state \<Rightarrow> node_state" where
  "lockdown_tick_with_lockdown_net persisted now ns =
     (if ns_lockdown ns \<and> critical_lock_poisoned ns then ns
      else let ns1 = record_deadline_tick now ns;
               ns2 = (case lockdown_tick persisted now ns1 of None \<Rightarrow> ns1 | Some (n, _) \<Rightarrow> n)
           in if critical_lock_poisoned ns2 then latch_lockdown persisted ns2 else ns2)"

record health =
  serving :: bool
  locked_down :: bool
  last_deadline_tick :: "u64 option"
  generation_claimed :: bool

definition health_of :: "node_state \<Rightarrow> health" where
  "health_of ns = \<lparr>serving = True, locked_down = ns_lockdown ns,
     last_deadline_tick = (if ns_last_deadline_tick ns \<noteq> 0 then Some (ns_last_deadline_tick ns) else None),
     generation_claimed = ns_generation_claimed ns\<rparr>"

definition pending_projection :: "u64 \<Rightarrow> node_state \<Rightarrow> string list" where
  "pending_projection now ns =
     (let ss = ns_sign ns; eff = effective_now (ss_coord_nonces ss) now in sort (pending_ids (ss_pending ss) eff))"

subsection \<open>Lockdown is entered in time and never left\<close>

lemma latch_lockdown_locks [simp]: "ns_lockdown (latch_lockdown p ns)"
  by (simp add: latch_lockdown_def)

lemma latch_lockdown_frame [simp]:
  "ns_channel (latch_lockdown p ns) = ns_channel ns" "ns_sign (latch_lockdown p ns) = ns_sign ns"
  "ns_authorized (latch_lockdown p ns) = ns_authorized ns" "ns_outbox (latch_lockdown p ns) = ns_outbox ns"
  "ns_sign_poisoned (latch_lockdown p ns) = ns_sign_poisoned ns" "ns_store_poisoned (latch_lockdown p ns) = ns_store_poisoned ns"
  "critical_lock_poisoned (latch_lockdown p ns) = critical_lock_poisoned ns"
  by (simp_all add: latch_lockdown_def critical_lock_poisoned_def)

lemma record_deadline_tick_frame [simp]:
  "ns_lockdown (record_deadline_tick now ns) = ns_lockdown ns" "ns_channel (record_deadline_tick now ns) = ns_channel ns"
  "ns_sign (record_deadline_tick now ns) = ns_sign ns" "ns_sign_poisoned (record_deadline_tick now ns) = ns_sign_poisoned ns"
  "ns_store_poisoned (record_deadline_tick now ns) = ns_store_poisoned ns"
  "critical_lock_poisoned (record_deadline_tick now ns) = critical_lock_poisoned ns"
  by (simp_all add: record_deadline_tick_def critical_lock_poisoned_def Let_def)

lemma lockdown_tick_Some:
  assumes "lockdown_tick p now ns = Some (ns', b)"
  shows "ns' = (if b then latch_lockdown p ns else ns)"
  using assms by (auto simp: lockdown_tick_def enter_lockdown_def split: option.splits if_splits)

lemma lockdown_tick_keeps:
  "lockdown_tick p now ns = Some (ns', b) \<Longrightarrow> ns_lockdown ns \<Longrightarrow> ns_lockdown ns'"
  by (drule lockdown_tick_Some) (auto split: if_splits)

lemma deadline_net_keeps:
  "ns_lockdown ns \<Longrightarrow> ns_lockdown (lockdown_tick_with_lockdown_net p now ns)"
  by (auto simp: lockdown_tick_with_lockdown_net_def Let_def split: option.splits dest!: lockdown_tick_Some)

text \<open>The tick panics only on a poisoned lock, so every outcome of it leads to the latch once the armed time has come.\<close>

lemma deadline_net_latches:
  assumes "ns_channel ns = Some ch" "lockdown_due (ch_store ch) now"
  shows "ns_lockdown (lockdown_tick_with_lockdown_net p now ns)"
proof (cases "critical_lock_poisoned ns")
  case True
  with assms(1) show ?thesis
    by (auto simp: lockdown_tick_with_lockdown_net_def Let_def split: option.splits if_splits dest!: lockdown_tick_Some)
next
  case False
  with assms have "lockdown_tick p now (record_deadline_tick now ns) =
      (if ns_lockdown ns then Some (record_deadline_tick now ns, False)
       else Some (latch_lockdown p (record_deadline_tick now ns), True))"
    by (simp add: lockdown_tick_def enter_lockdown_def critical_lock_poisoned_def)
  with False show ?thesis by (simp add: lockdown_tick_with_lockdown_net_def Let_def)
qed

text \<open>C20: an armed node locks itself in time. If the store was armed with fire time \<open>T\<close>, then whatever channel
  operations follow, the first deadline tick at or after \<open>T\<close> latches Lockdown: also when the write of the
  persisted latch fails, and also when the sign lock or the store lock is poisoned.\<close>

theorem armed_node_locks_down:
  assumes "active (armed st)" "armed_fire_at (armed st) \<le> now"
    and "ns_channel ns = Some ch" "ch_store ch = channel_run (channel_of nd) ops st"
  shows "ns_lockdown (lockdown_tick_with_lockdown_net persisted now ns)"
proof -
  have "arm_le (armed st) (armed (channel_run (channel_of nd) ops st))"
    using arming.run_rel [of st "channel_of nd" ops] assms(1) by (simp add: channel_run_def sweep_inv_def)
  with assms have "lockdown_due (ch_store ch) now" by (auto simp: lockdown_due_def arm_le_def)
  with assms(3) show ?thesis by (rule deadline_net_latches)
qed

definition demo_node :: "nat node" where
  "demo_node = \<lparr>nd_desc = demo_api, nd_sig = demo_sig, nd_text = demo_text, nd_wire = demo_wire, nd_tx = demo_tx_api,
     nd_psbt_from_str = (\<lambda>s. None), nd_psbt_serialize = (\<lambda>p. []), nd_finalize = (\<lambda>p. None), nd_sign_ecdsa = (\<lambda>d. [9]),
     nd_pin_evaluator = (\<lambda>slot pin. Some (pin = (case slot of SlotNormal \<Rightarrow> [1] | SlotDuress \<Rightarrow> [2]))),
     nd_carrier_kdf = (\<lambda>d. []), nd_json = (\<lambda>r. []), nd_envelope_json = (\<lambda>e. []), nd_p2wsh = (\<lambda>s. s),
     nd_pubkey = [6], nd_user_pubkey = [5], nd_witness_script = [1, 1], nd_check_params = demo_params,
     nd_pin_budget_config = demo_pin_cfg, nd_coordinator_auth = [4], nd_wallet_id = replicate 32 7, nd_policy_version = 1,
     nd_max_commitment_age_secs = 10000, nd_hold_secs = 100, nd_combine_slack_secs = 60, nd_hot_budget = demo_budget,
     nd_threshold = 2, nd_max_vault_satisfaction_weight = 200, nd_refresh_min_interval_secs = 1000, nd_refresh_max_feerate = 100,
     nd_duress_delay_secs = 50, nd_epsilon_secs = 5, nd_delivery_horizon_secs = 20, nd_escape_coverage_pct = 95,
     nd_escape_feerate_floor = 1, nd_network = Regtest, nd_env = demo_env 0, nd_max_msg_bytes = 1000\<rparr>"

definition demo_node_state :: "bool \<Rightarrow> bool \<Rightarrow> partial_store \<Rightarrow> node_state" where
  "demo_node_state p1 p2 st = \<lparr>ns_lockdown = False, ns_lifecycle = Some \<lparr>lf_generation = None, lf_lockdown = Some []\<rparr>,
     ns_duress_arm = 0, ns_spend_preflight = 0, ns_last_deadline_tick = 0, ns_generation_claimed = True,
     ns_sign = \<lparr>ss_replay = [], ss_pending = [], ss_coord_nonces = nonce_log_default, ss_refreshes = [], ss_pin_budget = demo_attempts\<rparr>,
     ns_sign_poisoned = p1, ns_authorized = [], ns_channel = Some (demo_channel\<lparr>ch_store := st\<rparr>),
     ns_store_poisoned = p2, ns_outbox = []\<rparr>"

theorem armed_node_locks_down_witness:
  "\<not> ns_lockdown (demo_node_state False True (channel_run (channel_of demo_node) [OpPruneStore 9 9] (demo_confirmed True True))) \<and>
   ns_lockdown (lockdown_tick_with_lockdown_net False 10
     (demo_node_state False True (channel_run (channel_of demo_node) [OpPruneStore 9 9] (demo_confirmed True True))))"
proof -
  have "active (armed (demo_confirmed True True))" "armed_fire_at (armed (demo_confirmed True True)) \<le> 10"
    by (simp_all add: demo_confirmed_def)
  from armed_node_locks_down [OF this, of "demo_node_state False True (channel_run (channel_of demo_node) [OpPruneStore 9 9] (demo_confirmed True True))"
      _ demo_node "[OpPruneStore 9 9]" False]
  show ?thesis by (simp add: demo_node_state_def)
qed

text \<open>
  What happens to the two attributes of one config inode over the processes that open it: a start adopts or creates the
  Lockdown latch (also one whose sync then fails), a process claims the generation, a process latches Lockdown. Each
  rule takes any node state that holds the inode.
\<close>

inductive inode_step :: "lifecycle_file \<Rightarrow> lifecycle_file \<Rightarrow> bool" where
  inode_start: "apply_persisted_lockdown (Inr (lf_lockdown f)) create sync_ok f ns = Inr ns' \<Longrightarrow> ns_lifecycle ns' = Some f' \<Longrightarrow> inode_step f f'"
| inode_start_unsynced: "lf_lockdown f = None \<Longrightarrow> inode_step f (f\<lparr>lf_lockdown := Some []\<rparr>)"
| inode_claim: "ns_lifecycle ns = Some f \<Longrightarrow> claim_process_generation wr sy ns = (ns', r) \<Longrightarrow> ns_lifecycle ns' = Some f' \<Longrightarrow> inode_step f f'"
| inode_latch: "ns_lifecycle ns = Some f \<Longrightarrow> ns_lifecycle (latch_lockdown written ns) = Some f' \<Longrightarrow> inode_step f f'"

lemma inode_step_keeps:
  assumes "inode_step f f'"
  shows "(lf_generation f \<noteq> None \<longrightarrow> lf_generation f' \<noteq> None) \<and>
    (lf_lockdown f \<noteq> None \<and> lf_lockdown f \<noteq> Some [] \<longrightarrow> lf_lockdown f' \<noteq> None \<and> lf_lockdown f' \<noteq> Some [])"
  using assms
proof cases
  case (inode_start create sync_ok ns ns')
  then show ?thesis
    by (auto simp: apply_persisted_lockdown_def bind_res_Ok_iff split: option.split_asm latch_create.split_asm if_split_asm)
next
  case (inode_claim ns wr sy ns' r)
  then show ?thesis by (auto simp: claim_process_generation_def Let_def split: if_split_asm)
next
  case (inode_latch ns written)
  then show ?thesis by (auto simp: latch_lockdown_def str_bytes_def split: if_split_asm)
qed simp

lemma inode_steps_keep:
  assumes "inode_step\<^sup>*\<^sup>* f f'"
  shows "(lf_generation f \<noteq> None \<longrightarrow> lf_generation f' \<noteq> None) \<and>
    (lf_lockdown f \<noteq> None \<and> lf_lockdown f \<noteq> Some [] \<longrightarrow> lf_lockdown f' \<noteq> None \<and> lf_lockdown f' \<noteq> Some [])"
  using assms
proof (induction rule: rtranclp_induct)
  case (step y z)
  with inode_step_keeps [OF step(2)] show ?case by blast
qed simp

lemma start_adopts:
  assumes "apply_persisted_lockdown (Inr (lf_lockdown f)) create sync_ok f fresh = Inr started"
  shows "\<exists>f1. ns_lifecycle started = Some f1 \<and> lf_generation f1 = lf_generation f \<and>
    (lf_lockdown f \<noteq> None \<and> lf_lockdown f \<noteq> Some [] \<longrightarrow> ns_lockdown started)"
  using assms by (auto simp: apply_persisted_lockdown_def bind_res_Ok_iff split: option.split_asm latch_create.split_asm if_split_asm)

text \<open>C32: the config inode outlives the process. A generation that a process claimed on it is never claimed again:
  whatever later processes did to the inode, latched or not, a start that opens it is refused the claim.
  And once a Lockdown latch was written to it, whoever wrote it, every later start that reads the inode comes up
  locked, whatever happened to the inode in between. So the RAM-only state of a dead process is never replaced.\<close>

theorem lockdown_survives_restart:
  assumes "inode_step\<^sup>*\<^sup>* g f" and "apply_persisted_lockdown (Inr (lf_lockdown f)) create sync_ok f fresh = Inr started"
  shows "(claim_process_generation wr sy ns = (ns1, Inr ()) \<and> ns_lifecycle ns1 = Some g \<longrightarrow>
      claim_process_generation wr' sy' started = (started, Inl ClaimRefused)) \<and>
    (\<not> ns_lockdown ns2 \<and> ns_lifecycle (latch_lockdown True ns2) = Some g \<longrightarrow> ns_lockdown started)"
proof -
  note keep = inode_steps_keep [OF assms(1)]
  from start_adopts [OF assms(2)] obtain f1 where f1: "ns_lifecycle started = Some f1" "lf_generation f1 = lf_generation f"
    "lf_lockdown f \<noteq> None \<and> lf_lockdown f \<noteq> Some [] \<longrightarrow> ns_lockdown started" by blast
  show ?thesis
  proof (intro conjI impI)
    assume c: "claim_process_generation wr sy ns = (ns1, Inr ()) \<and> ns_lifecycle ns1 = Some g"
    then have "lf_generation g \<noteq> None" by (auto simp: claim_process_generation_def Let_def split: option.split_asm if_split_asm)
    with keep f1(1,2) show "claim_process_generation wr' sy' started = (started, Inl ClaimRefused)"
      by (simp add: claim_process_generation_def)
  next
    assume "\<not> ns_lockdown ns2 \<and> ns_lifecycle (latch_lockdown True ns2) = Some g"
    then have "lf_lockdown g \<noteq> None \<and> lf_lockdown g \<noteq> Some []" by (auto simp: latch_lockdown_def str_bytes_def)
    with keep f1(3) show "ns_lockdown started" by blast
  qed
qed

theorem lockdown_survives_restart_witness:
  "let ns = demo_node_state False False demo_store; ns1 = fst (claim_process_generation True True ns);
       g = the (ns_lifecycle ns1); l = the (ns_lifecycle (latch_lockdown True ns1))
   in (case apply_persisted_lockdown (Inr (lf_lockdown g)) LatchCreated True g ns of
         Inl _ \<Rightarrow> False
       | Inr started \<Rightarrow> \<not> ns_lockdown started \<and> claim_process_generation True True started = (started, Inl ClaimRefused)) \<and>
      (case apply_persisted_lockdown (Inr (lf_lockdown l)) LatchCreated True l ns of
         Inl _ \<Rightarrow> False
       | Inr started \<Rightarrow> ns_lockdown started)"
proof -
  let ?ns = "demo_node_state False False demo_store"
  let ?ns1 = "fst (claim_process_generation True True ?ns)"
  let ?g = "the (ns_lifecycle ?ns1)" and ?l = "the (ns_lifecycle (latch_lockdown True ?ns1))"
  have claim: "claim_process_generation True True ?ns = (?ns1, Inr ()) \<and> ns_lifecycle ?ns1 = Some ?g"
    by (simp add: claim_process_generation_def demo_node_state_def)
  have latch: "\<not> ns_lockdown ?ns1 \<and> ns_lifecycle (latch_lockdown True ?ns1) = Some ?l"
    by (simp add: claim_process_generation_def demo_node_state_def latch_lockdown_def)
  obtain s1 where s1: "apply_persisted_lockdown (Inr (lf_lockdown ?g)) LatchCreated True ?g ?ns = Inr s1" "\<not> ns_lockdown s1"
    by (simp add: apply_persisted_lockdown_def claim_process_generation_def demo_node_state_def)
  obtain s2 where s2: "apply_persisted_lockdown (Inr (lf_lockdown ?l)) LatchCreated True ?l ?ns = Inr s2"
    by (simp add: apply_persisted_lockdown_def claim_process_generation_def demo_node_state_def latch_lockdown_def)
  have "claim_process_generation True True s1 = (s1, Inl ClaimRefused)"
    using lockdown_survives_restart [OF rtranclp.rtrancl_refl s1(1), of True True ?ns ?ns1 True True ?ns] claim by blast
  moreover have "ns_lockdown s2"
    using lockdown_survives_restart [OF rtranclp.rtrancl_refl s2, of True True ?ns ?ns1 True True ?ns1] latch by blast
  ultimately show ?thesis using s1 s2 by (simp add: Let_def)
qed

end
