(* ===== verification/Escape_Ladder.thy ===== *)
theory Escape_Ladder
  imports Node_State
begin

text \<open>
  The fee-bump ladder of an escape, \<open>ensure_escape_ladder\<close> of \<open>crates/vault-node/src/lib.rs\<close>: the
  size bound that prices a rung, the fee of a PSBT, and the checks that make the rungs a chain of
  replacements. The theory shows what an accepted ladder guarantees of any two of its rungs: the
  same inputs and destinations, no output raised, and a strictly higher fee.
\<close>

definition ESCAPE_RBF_INCREMENTAL_RELAY_SAT_VB :: u64 where
  "ESCAPE_RBF_INCREMENTAL_RELAY_SAT_VB = MAX_SUPPORTED_INCREMENTAL_RELAY_SAT_KVB div 1000"

definition expected_escape_sequence :: "bool \<Rightarrow> 32 word" where
  "expected_escape_sequence laddered = (if laddered then ESCAPE_RBF_SEQUENCE else 0xffffffff)"

text \<open>\<open>None\<close> is an overflow of one of the checked steps.\<close>

definition maximum_finalized_vsize_for :: "tx_api \<Rightarrow> u64 \<Rightarrow> transaction \<Rightarrow> u64 option" where
  "maximum_finalized_vsize_for ta max_vault_satisfaction_weight tx =
     Option.bind (checked_add64 max_vault_satisfaction_weight 1) (\<lambda>per_input.
     Option.bind (checked_mul64 per_input (length (tx_input tx))) (\<lambda>maximum_witness_weight.
     Option.bind (checked_add64 (tx_weight ta tx) 2) (\<lambda>weight.
     Option.bind (checked_add64 weight maximum_witness_weight) (\<lambda>maximum_weight.
     map_option (\<lambda>x. x div 4) (checked_add64 maximum_weight 3)))))"

definition maximum_finalized_vsize :: "'d node \<Rightarrow> transaction \<Rightarrow> u64 option" where
  "maximum_finalized_vsize node tx = maximum_finalized_vsize_for (nd_tx node) (nd_max_vault_satisfaction_weight node) tx"

definition escape_replacement_min_fee_delta :: "tx_api \<Rightarrow> u64 \<Rightarrow> transaction \<Rightarrow> u64 option" where
  "escape_replacement_min_fee_delta ta max_vault_satisfaction_weight tx =
     map_option (\<lambda>v. sat_mul64 v ESCAPE_RBF_INCREMENTAL_RELAY_SAT_VB) (maximum_finalized_vsize_for ta max_vault_satisfaction_weight tx)"

fun utxo_total :: "u64 \<Rightarrow> psbt_input list \<Rightarrow> u64 option" where
  "utxo_total acc [] = Some acc"
| "utxo_total acc (input # rest) =
     (case witness_utxo input of None \<Rightarrow> None | Some utxo \<Rightarrow> utxo_total (sat_add64 acc (txo_value utxo)) rest)"

definition psbt_fee :: "psbt \<Rightarrow> u64 option" where
  "psbt_fee p =
     map_option (\<lambda>tin. tin - sat_sum64 (map txo_value (tx_output (unsigned_tx p)))) (utxo_total 0 (psbt_inputs p))"

subsection \<open>The ladder checks\<close>

definition bad_ladder :: sign_response where
  "bad_ladder = refuse RcPsbtInconsistent ''escape:bump_ladder''"

definition rung_inputs :: "psbt \<Rightarrow> outpoint list" where
  "rung_inputs p = map previous_output (tx_input (unsigned_tx p))"

definition rung_scripts :: "psbt \<Rightarrow> script list" where
  "rung_scripts p = map script_pubkey (tx_output (unsigned_tx p))"

definition rung_values :: "psbt \<Rightarrow> u64 list" where
  "rung_values p = map txo_value (tx_output (unsigned_tx p))"

definition rung_shape :: "32 word \<Rightarrow> psbt \<Rightarrow> sign_response + unit" where
  "rung_shape base_version p =
     (if tx_version (unsigned_tx p) \<noteq> base_version then Err bad_ladder
      else if tx_lock_time (unsigned_tx p) \<noteq> 0 then Err bad_ladder
      else for_each (\<lambda>input. if sequence input \<noteq> expected_escape_sequence True then Err bad_ladder else Ok ())
             (tx_input (unsigned_tx p)))"

text \<open>The body of the second loop, with \<open>previous_fee\<close> and \<open>previous_values\<close> as its state.\<close>

fun ladder_rungs ::
  "'d node \<Rightarrow> outpoint list \<Rightarrow> script list \<Rightarrow> u64 \<Rightarrow> u64 list \<Rightarrow> psbt list \<Rightarrow> sign_response + unit" where
  "ladder_rungs node base_inputs base_scripts previous_fee previous_values [] = Ok ()"
| "ladder_rungs node base_inputs base_scripts previous_fee previous_values (bump # rest) =
     (if rung_inputs bump \<noteq> base_inputs then Err bad_ladder
      else if rung_scripts bump \<noteq> base_scripts then Err bad_ladder
      else if list_ex (\<lambda>(v, previous). v > previous) (zip (rung_values bump) previous_values) then Err bad_ladder
      else (case psbt_fee bump of
         None \<Rightarrow> Err bad_ladder
       | Some bump_fee \<Rightarrow>
           (case maximum_finalized_vsize node (unsigned_tx bump) of
              None \<Rightarrow> Err bad_ladder
            | Some replacement_vsize \<Rightarrow>
                let minimum_delta = sat_mul64 replacement_vsize ESCAPE_RBF_INCREMENTAL_RELAY_SAT_VB in
                if bump_fee < previous_fee then Err bad_ladder
                else if bump_fee - previous_fee < minimum_delta then Err bad_ladder
                else ladder_rungs node base_inputs base_scripts bump_fee (rung_values bump) rest)))"

definition ensure_escape_ladder :: "'d node \<Rightarrow> psbt \<Rightarrow> psbt list \<Rightarrow> bool \<Rightarrow> sign_response + unit" where
  "ensure_escape_ladder node esc bmps self_paired =
     (if bmps = [] then Ok ()
      else if self_paired then Err bad_ladder
      else bind_res (for_each (rung_shape (tx_version (unsigned_tx esc))) (esc # bmps)) (\<lambda>_.
        (case psbt_fee esc of
           None \<Rightarrow> Err bad_ladder
         | Some base_fee \<Rightarrow>
             ladder_rungs node (rung_inputs esc) (rung_scripts esc) base_fee (rung_values esc) bmps)))"

subsection \<open>What an accepted ladder is\<close>

text \<open>Two adjacent rungs, as the loop leaves them.\<close>

definition rung_above :: "psbt \<Rightarrow> psbt \<Rightarrow> bool" where
  "rung_above p q \<longleftrightarrow> rung_inputs q = rung_inputs p \<and> rung_scripts q = rung_scripts p \<and>
     list_all2 (\<le>) (rung_values q) (rung_values p) \<and>
     (\<exists>f g. psbt_fee p = Some f \<and> psbt_fee q = Some g \<and> f < g)"

lemma finalized_vsize_pos: "maximum_finalized_vsize node tx = Some v \<Longrightarrow> 0 < v"
  by (auto simp: maximum_finalized_vsize_def maximum_finalized_vsize_for_def bind_eq_Some_conv checked_add64_def split: if_splits)

lemma list_all2_le_trans: "list_all2 (\<le>) xs ys \<Longrightarrow> list_all2 (\<le>) ys zs \<Longrightarrow> list_all2 (\<le>) xs (zs :: nat list)"
  by (auto simp: list_all2_conv_all_nth) (meson order_trans)

lemma rung_above_trans: "rung_above p q \<Longrightarrow> rung_above q r \<Longrightarrow> rung_above p r"
  by (auto simp: rung_above_def intro: list_all2_le_trans)

lemma rung_lengths: "length (rung_values p) = length (rung_scripts p)"
  by (simp add: rung_values_def rung_scripts_def)

lemma not_raised:
  "length xs = length ys \<Longrightarrow> \<not> list_ex (\<lambda>(v, previous). previous < v) (zip xs ys) \<longleftrightarrow> list_all2 (\<le>) xs (ys :: nat list)"
  by (auto simp: list_all2_iff list_ex_iff Ball_def not_less)

lemma ladder_rungs_chain:
  assumes "ladder_rungs node (rung_inputs p) (rung_scripts p) f (rung_values p) bmps = Inr ()" "psbt_fee p = Some f"
  shows "sorted_wrt rung_above (p # bmps)"
  using assms
proof (induction bmps arbitrary: p f)
  case Nil
  then show ?case by simp
next
  case (Cons q rest)
  from Cons.prems obtain g v where q: "rung_inputs q = rung_inputs p" "rung_scripts q = rung_scripts p"
      "\<not> list_ex (\<lambda>(v, previous). previous < v) (zip (rung_values q) (rung_values p))"
      "psbt_fee q = Some g" "maximum_finalized_vsize node (unsigned_tx q) = Some v" "f \<le> g"
      "sat_mul64 v ESCAPE_RBF_INCREMENTAL_RELAY_SAT_VB \<le> g - f"
      "ladder_rungs node (rung_inputs q) (rung_scripts q) g (rung_values q) rest = Inr ()"
    by (auto simp: Let_def not_less split: if_splits option.splits)
  have "0 < sat_mul64 v ESCAPE_RBF_INCREMENTAL_RELAY_SAT_VB"
    using finalized_vsize_pos [OF q(5)]
    by (simp add: sat_mul64_def ESCAPE_RBF_INCREMENTAL_RELAY_SAT_VB_def MAX_SUPPORTED_INCREMENTAL_RELAY_SAT_KVB_def u64_max_def)
  with q Cons.prems(2) have step: "rung_above p q"
    by (simp add: rung_above_def not_raised rung_lengths)
  from Cons.IH [OF q(8,4)] have rest: "sorted_wrt rung_above (q # rest)" .
  with step show ?case by (auto intro: rung_above_trans)
qed

lemma accepted_ladder_chain:
  assumes "ensure_escape_ladder node esc bmps sp = Inr ()" "bmps \<noteq> []"
  shows "sorted_wrt rung_above (esc # bmps)"
  using assms by (auto simp: ensure_escape_ladder_def bind_res_Ok_iff split: if_splits option.splits
      intro: ladder_rungs_chain simp del: sorted_wrt.simps(2))

lemma accepted_ladder_shape:
  assumes "ensure_escape_ladder node esc bmps sp = Inr ()" "bmps \<noteq> []" "p \<in> set (esc # bmps)"
  shows "tx_version (unsigned_tx p) = tx_version (unsigned_tx esc)" "tx_lock_time (unsigned_tx p) = 0"
    "\<forall>i \<in> set (tx_input (unsigned_tx p)). sequence i = ESCAPE_RBF_SEQUENCE"
proof -
  from assms have "rung_shape (tx_version (unsigned_tx esc)) p = Inr ()"
    by (auto simp: ensure_escape_ladder_def bind_res_Ok_iff for_each_Ok_iff split: if_splits option.splits)
  then show "tx_version (unsigned_tx p) = tx_version (unsigned_tx esc)" "tx_lock_time (unsigned_tx p) = 0"
    "\<forall>i \<in> set (tx_input (unsigned_tx p)). sequence i = ESCAPE_RBF_SEQUENCE"
    by (auto simp: rung_shape_def for_each_Ok_iff expected_escape_sequence_def split: if_splits)
qed

text \<open>An accepted fee-bump ladder is a chain of replacements. Of any two of its rungs the higher one spends
  the same inputs in the same order, pays the same scripts, raises no output, and pays a strictly higher
  fee; every rung is final at the fire time (lock time zero) and signals replacement on every input.\<close>

theorem accepted_ladder_ascends:
  assumes "ensure_escape_ladder node esc bmps self_paired = Inr ()" "i < j" "j < length (esc # bmps)"
    and "p = (esc # bmps) ! i" "q = (esc # bmps) ! j"
  shows "map previous_output (tx_input (unsigned_tx q)) = map previous_output (tx_input (unsigned_tx p)) \<and>
    map script_pubkey (tx_output (unsigned_tx q)) = map script_pubkey (tx_output (unsigned_tx p)) \<and>
    list_all2 (\<lambda>x y. txo_value x \<le> txo_value y) (tx_output (unsigned_tx q)) (tx_output (unsigned_tx p)) \<and>
    (\<exists>f g. psbt_fee p = Some f \<and> psbt_fee q = Some g \<and> f < g) \<and>
    tx_lock_time (unsigned_tx q) = 0 \<and> list_all (\<lambda>inp. sequence inp = 0xfffffffd) (tx_input (unsigned_tx q))"
proof -
  from assms(2,3) have ne: "bmps \<noteq> []" by auto
  have "rung_above p q"
    using accepted_ladder_chain [OF assms(1) ne] assms(2-5) by (metis sorted_wrt_nth_less)
  moreover have "q \<in> set (esc # bmps)" using assms(3,5) by (metis nth_mem)
  note accepted_ladder_shape [OF assms(1) ne this]
  ultimately show ?thesis
    by (auto simp: rung_above_def rung_inputs_def rung_scripts_def rung_values_def list.rel_map list_all_iff ESCAPE_RBF_SEQUENCE_def)
qed

definition demo_rung :: "u64 \<Rightarrow> psbt" where
  "demo_rung v = \<lparr>unsigned_tx = demo_tx_on [9] v, psbt_inputs = [demo_input], psbt_outputs = []\<rparr>"

lemma demo_ladder_accepted: "ensure_escape_ladder demo_node (demo_rung 800) [demo_rung 600, demo_rung 400] False = Inr ()"
  by (simp add: ensure_escape_ladder_def rung_shape_def demo_rung_def demo_tx_on_def demo_in_def expected_escape_sequence_def
      ESCAPE_RBF_SEQUENCE_def psbt_fee_def demo_input_def rung_inputs_def rung_scripts_def rung_values_def sat_sum64_def
      maximum_finalized_vsize_def maximum_finalized_vsize_for_def demo_node_def demo_tx_api_def ESCAPE_RBF_INCREMENTAL_RELAY_SAT_VB_def
      MAX_SUPPORTED_INCREMENTAL_RELAY_SAT_KVB_def sat_simps)

theorem accepted_ladder_ascends_witness:
  "\<exists>f g. psbt_fee (demo_rung 800) = Some f \<and> psbt_fee (demo_rung 400) = Some g \<and> f < g"
  using accepted_ladder_ascends [OF demo_ladder_accepted, of 0 2, OF _ _ refl refl] by simp

text \<open>What a rung delivers to a set of scripts only falls along the ladder.\<close>

definition delivered_to :: "(script \<Rightarrow> bool) \<Rightarrow> transaction \<Rightarrow> nat" where
  "delivered_to P tx = sum_list (map txo_value (filter (\<lambda>out. P (script_pubkey out)) (tx_output tx)))"

lemma delivered_mono:
  "map script_pubkey xs = map script_pubkey ys \<Longrightarrow> list_all2 (\<lambda>x y. txo_value x \<le> txo_value y) xs ys \<Longrightarrow>
   sum_list (map txo_value (filter (\<lambda>out. P (script_pubkey out)) xs)) \<le>
   sum_list (map txo_value (filter (\<lambda>out. P (script_pubkey out)) ys))"
  by (induction xs arbitrary: ys) (auto simp: list_all2_Cons1 add_mono)

lemma rung_above_delivers:
  "rung_above p q \<Longrightarrow> delivered_to P (unsigned_tx q) \<le> delivered_to P (unsigned_tx p)"
  by (auto simp: delivered_to_def rung_above_def rung_scripts_def rung_values_def list.rel_map intro!: delivered_mono)

end
