(* ===== verification/Escape_Sweep.thy ===== *)
theory Escape_Sweep
  imports Escape_Ladder
begin

text \<open>
  The admission of an armed escape at its fire time, from \<open>crates/vault-node/src/lib.rs\<close>: what is
  protected and what the sweep would deliver (\<open>sweep_env\<close>), the floor and coverage checks on one
  rung (\<open>sweep_rung_admissible\<close>), the choice of the fee-bump rung (\<open>select_escape_rung\<close>) and the
  preflight that latches it (\<open>escape_sweep_pre_release_admissible\<close>). Error texts are one constructor
  per cause. A preflight reads the store and the chain in turn; the store is the one passed in.
\<close>

datatype sweep_error =
    ContextUnavailable | MempoolUnreadable | NotInLadder txid | ResidentMalformed txid | ResidentMismatch txid txid
  | PrevoutsUnreadable | PrevoutCount nat nat | InputContextMismatch | EscapePrevoutUnknown outpoint | NoEscapeDescriptor
  | BalanceUnreadable | NothingProtected | NoPairedSpend | PairedContextUnavailable | SharesInput outpoint
  | PairedUnreadable txid | PairedUnconfirmed txid | PairedReturnsMore | VsizeOverflow | WrongSequence nat | ZeroVsize
  | BelowFeeFloor | BelowCoverage | NoCandidateTx | NoRungAdmissible | LatchedRungInadmissible nat | PackageInadmissible
  | EscapeDisappeared | RungIndexPanic

record sweep_env =
  se_total_in :: u64
  se_protected_value :: u64
  se_paired_delivered :: u64
  se_laddered :: bool

record escape_sweep_tick_context =
  tc_resident_rung :: "transaction option"
  tc_env :: sweep_env

subsection \<open>What the network shows of the ladder\<close>

definition transaction_is_settled :: "'w chain_backend \<Rightarrow> txid \<Rightarrow> ('w, chain_error, bool) chain_io" where
  "transaction_is_settled be t =
     io_bind (b_mempool_transaction be t) (\<lambda>m. if m \<noteq> None then io_return True else b_transaction_confirmed be t)"

datatype armed_escape_state = EscapeConfirmed txid | InMempoolAtOrAboveLatch | EscapeAbsent

fun first_confirmed :: "'w chain_backend \<Rightarrow> txid list \<Rightarrow> ('w, chain_error, txid option) chain_io" where
  "first_confirmed be [] = io_return None"
| "first_confirmed be (t # ts) =
     io_bind (b_transaction_confirmed be t) (\<lambda>yes. if yes then io_return (Some t) else first_confirmed be ts)"

definition armed_escape_network_state ::
  "(transaction \<Rightarrow> txid) \<Rightarrow> 'w chain_backend \<Rightarrow> txid list \<Rightarrow> nat \<Rightarrow> transaction option \<Rightarrow> ('w, chain_error, armed_escape_state) chain_io" where
  "armed_escape_network_state compute_txid be rung_txids latch resident_rung =
     io_bind (first_confirmed be rung_txids) (\<lambda>c. case c of
         Some t \<Rightarrow> io_return (EscapeConfirmed t)
       | None \<Rightarrow>
           (case resident_rung of
              None \<Rightarrow> io_return EscapeAbsent
            | Some tx \<Rightarrow>
                (case position (\<lambda>t. t = compute_txid tx) rung_txids of
                   None \<Rightarrow> io_return EscapeAbsent
                 | Some r \<Rightarrow> io_return (if r \<ge> latch then InMempoolAtOrAboveLatch else EscapeAbsent))))"

definition mempool_escape_rung ::
  "'d node \<Rightarrow> 'w chain_backend \<Rightarrow> partial_store \<Rightarrow> string \<Rightarrow> ('w, sweep_error, transaction option) chain_io" where
  "mempool_escape_rung node be st cid =
     (case candidate_rung_txs st cid of
        None \<Rightarrow> io_return None
      | Some rungs \<Rightarrow>
          let txids = map (sa_txid (nd_sig node)) rungs in
          io_bind (io_map_err (\<lambda>_. MempoolUnreadable) (b_mempool_resident be txids)) (\<lambda>found. case found of
              None \<Rightarrow> io_return None
            | Some (expected, raw) \<Rightarrow>
                if expected \<notin> set txids then io_fail (NotInLadder expected)
                else (case tx_deserialize (nd_tx node) raw of
                        None \<Rightarrow> io_fail (ResidentMalformed expected)
                      | Some tx \<Rightarrow>
                          if sa_txid (nd_sig node) tx \<noteq> expected
                          then io_fail (ResidentMismatch expected (sa_txid (nd_sig node) tx))
                          else io_return (Some tx))))"

definition assemble_escape_package ::
  "'w chain_backend \<Rightarrow> tx_api \<Rightarrow> transaction \<Rightarrow> transaction option \<Rightarrow> txid list \<Rightarrow> ('w, chain_error, bytes list) chain_io" where
  "assemble_escape_package be ta tx resident_rung authorized =
     (case resident_rung of
        Some r \<Rightarrow> assemble_replacement_package be ta tx r authorized
      | None \<Rightarrow> assemble_package be ta tx authorized)"

subsection \<open>The protected balance\<close>

fun escape_total_in :: "bool \<Rightarrow> u64 \<Rightarrow> ((outpoint \<times> prevout option) \<times> (outpoint \<times> u64)) list \<Rightarrow> sweep_error + u64" where
  "escape_total_in has_resident acc [] = Ok acc"
| "escape_total_in has_resident acc (((outp, po), (stored_outp, stored_value)) # rest) =
     (if outp \<noteq> stored_outp then Err InputContextMismatch
      else (case po of
              Some p \<Rightarrow> escape_total_in has_resident (sat_add64 acc (txo_value (po_txout p))) rest
            | None \<Rightarrow> if has_resident then escape_total_in has_resident (sat_add64 acc stored_value) rest
                      else Err (EscapePrevoutUnknown outp)))"

text \<open>The vault coins outside the resident rung, plus the candidate's inputs the view no longer lists.\<close>

definition protected_before_pair ::
  "(transaction \<Rightarrow> txid) \<Rightarrow> (outpoint \<times> prevout) list \<Rightarrow> (outpoint \<times> u64) list \<Rightarrow> transaction option \<Rightarrow> u64" where
  "protected_before_pair compute_txid vault_unspent inputs resident_rung =
     (let resident_txid = map_option compute_txid resident_rung;
          listed = foldl (\<lambda>acc (_, p). sat_add64 acc (txo_value (po_txout p))) 0
            (filter (\<lambda>(outp, _). Some (op_txid outp) \<noteq> resident_txid) vault_unspent)
      in if resident_rung \<noteq> None
         then foldl (\<lambda>acc (outp, v). if outp \<notin> set (map fst vault_unspent) then sat_add64 acc v else acc) listed inputs
         else listed)"

definition sat_outputs :: "(txout \<Rightarrow> bool) \<Rightarrow> u64 \<Rightarrow> transaction \<Rightarrow> u64" where
  "sat_outputs P acc tx = foldl (\<lambda>a out. sat_add64 a (txo_value out)) acc (filter P (tx_output tx))"

text \<open>The adjustment for an escape-class spend that completed on its own: departed and delivered value.\<close>

definition paired_adjustment ::
  "'d node \<Rightarrow> 'd \<Rightarrow> 'w chain_backend \<Rightarrow> transaction \<Rightarrow> candidate_coverage_context \<Rightarrow> u64 \<Rightarrow> ('w, sweep_error, u64 \<times> u64) chain_io" where
  "paired_adjustment node escape_desc be tx paired protected =
     (if ccx_hot paired then io_return (protected, 0)
      else let escape_inputs = map previous_output (tx_input tx) in
        (case List.find (\<lambda>(outp, _). outp \<in> set escape_inputs) (ccx_inputs paired) of
           Some (shared, _) \<Rightarrow> io_fail (SharesInput shared)
         | None \<Rightarrow>
             let paired_txid = sa_txid (nd_sig node) (ccx_tx paired) in
             io_bind (io_map_err (\<lambda>_. PairedUnreadable paired_txid) (b_transaction_confirmed be paired_txid)) (\<lambda>yes.
               if \<not> yes then io_fail (PairedUnconfirmed paired_txid)
               else let paired_input_value = foldl (\<lambda>a (_, v). sat_add64 a v) 0 (ccx_inputs paired);
                        paired_vault_change = sat_outputs (\<lambda>out. script_pubkey out \<in> set (vault_scripts node)) 0 (ccx_tx paired)
                    in if paired_input_value < paired_vault_change then io_fail PairedReturnsMore
                       else io_return (sat_add64 protected (paired_input_value - paired_vault_change),
                              sat_outputs (\<lambda>out. derives_within (nd_desc node) escape_desc (script_pubkey out)
                                 (max_derivation_index (nd_check_params node))) 0 (ccx_tx paired)))))"

definition env_with_pair ::
  "'d node \<Rightarrow> 'd \<Rightarrow> 'w chain_backend \<Rightarrow> partial_store \<Rightarrow> string \<Rightarrow> transaction \<Rightarrow> bool \<Rightarrow> u64 \<Rightarrow> u64 \<Rightarrow> ('w, sweep_error, sweep_env) chain_io" where
  "env_with_pair node escape_desc be st cid tx laddered tin protected =
     (case map_option snd (pairing st cid) of
        None \<Rightarrow> io_fail NoPairedSpend
      | Some spend_id \<Rightarrow>
          (case candidate_coverage_context st spend_id of
             None \<Rightarrow> io_fail PairedContextUnavailable
           | Some paired \<Rightarrow>
               io_bind (paired_adjustment node escape_desc be tx paired protected) (\<lambda>adj.
                 io_return \<lparr>se_total_in = tin, se_protected_value = fst adj, se_paired_delivered = snd adj, se_laddered = laddered\<rparr>)))"

definition sweep_env_of ::
  "'d node \<Rightarrow> 'w chain_backend \<Rightarrow> txid list \<Rightarrow> partial_store \<Rightarrow> string \<Rightarrow> bool \<Rightarrow> transaction option
    \<Rightarrow> ('w, sweep_error, sweep_env) chain_io" where
  "sweep_env_of node be authorized st cid laddered resident_rung =
     (case candidate_coverage_context st cid of
        None \<Rightarrow> io_fail ContextUnavailable
      | Some cand \<Rightarrow>
          let tx = ccx_tx cand; escape_outpoints = map previous_output (tx_input tx) in
          io_bind (io_map_err (\<lambda>_. PrevoutsUnreadable) (b_prevouts be escape_outpoints)) (\<lambda>escape_prevouts.
          if length escape_prevouts \<noteq> length escape_outpoints
          then io_fail (PrevoutCount (length escape_prevouts) (length escape_outpoints))
          else io_bind (Pair (escape_total_in (resident_rung \<noteq> None) 0 (zip (zip escape_outpoints escape_prevouts) (ccx_inputs cand)))) (\<lambda>tin.
          case escape (nd_check_params node) of
            None \<Rightarrow> io_fail NoEscapeDescriptor
          | Some escape_desc \<Rightarrow>
              io_bind (io_map_err (\<lambda>_. BalanceUnreadable) (b_vault_unspent be (vault_scripts node) authorized)) (\<lambda>unspent.
              let protected = protected_before_pair (sa_txid (nd_sig node)) unspent (ccx_inputs cand) resident_rung in
              if protected = 0 then io_fail NothingProtected
              else env_with_pair node escape_desc be st cid tx laddered tin protected))))"

subsection \<open>One rung\<close>

definition rung_fee :: "sweep_env \<Rightarrow> transaction \<Rightarrow> u64" where
  "rung_fee env tx = se_total_in env - sat_sum64 (map txo_value (tx_output tx))"

definition sequences_ok :: "bool \<Rightarrow> transaction \<Rightarrow> bool" where
  "sequences_ok laddered tx = list_all (\<lambda>i. sequence i = expected_escape_sequence laddered) (tx_input tx)"

definition sweep_rung_admissible :: "'d node \<Rightarrow> sweep_env \<Rightarrow> transaction \<Rightarrow> u64 \<Rightarrow> sweep_error + unit" where
  "sweep_rung_admissible node env tx feerate_vsize =
     (case position (\<lambda>i. sequence i \<noteq> expected_escape_sequence (se_laddered env)) (tx_input tx) of
        Some i \<Rightarrow> Err (WrongSequence i)
      | None \<Rightarrow>
          if feerate_vsize = 0 then Err ZeroVsize
          else if rung_fee env tx < sat_mul128 (nd_escape_feerate_floor node) feerate_vsize then Err BelowFeeFloor
          else (case escape (nd_check_params node) of
             None \<Rightarrow> Err NoEscapeDescriptor
           | Some escape_desc \<Rightarrow>
               let delivered_value = sat_outputs (\<lambda>out. derives_within (nd_desc node) escape_desc (script_pubkey out)
                     (max_derivation_index (nd_check_params node))) (se_paired_delivered env) tx
               in if sat_mul128 delivered_value 100 < sat_mul128 (se_protected_value env) (nd_escape_coverage_pct node)
                  then Err BelowCoverage else Ok ()))"

subsection \<open>The choice of a rung\<close>

definition FEE_ANCHOR_QUANTUM :: nat where "FEE_ANCHOR_QUANTUM = 6"
definition FEE_TARGET_STEP_SAT_VB :: u64 where "FEE_TARGET_STEP_SAT_VB = 5"

definition escape_bump_target_feerate :: "'w chain_backend \<Rightarrow> ('w, chain_error, u64 option) chain_io" where
  "escape_bump_target_feerate be =
     io_bind (b_tip_height be) (\<lambda>tip.
     let anchor = tip - tip mod FEE_ANCHOR_QUANTUM in
     io_bind (b_block_median_feerate be anchor) (\<lambda>median.
     io_return (map_option (\<lambda>m. m div FEE_TARGET_STEP_SAT_VB * FEE_TARGET_STEP_SAT_VB) median)))"

record scored_ladder =
  sl_rungs :: "transaction list"
  sl_maximum_vsizes :: "u64 list"
  sl_admissible :: "(sweep_error + unit) list"
  sl_total_in :: u64

definition reaches :: "scored_ladder \<Rightarrow> nat \<Rightarrow> u64 \<Rightarrow> bool" where
  "reaches l r required =
     (r < length (sl_rungs l) \<and> r < length (sl_maximum_vsizes l) \<and>
      sat_mul128 required (sl_maximum_vsizes l ! r) \<le>
        sl_total_in l - sat_sum64 (map txo_value (tx_output (sl_rungs l ! r))))"

definition rung_ok :: "scored_ladder \<Rightarrow> nat \<Rightarrow> bool" where
  "rung_ok l r = (r < length (sl_admissible l) \<and> sl_admissible l ! r = Inr ())"

definition needed_rung :: "scored_ladder \<Rightarrow> u64 \<Rightarrow> nat" where
  "needed_rung l required =
     (let n = length (sl_rungs l) in
      case List.find (\<lambda>r. reaches l r required) [0..<n] of None \<Rightarrow> n - 1 | Some r \<Rightarrow> r)"

definition rung_choice :: "scored_ladder \<Rightarrow> u64 \<Rightarrow> nat option" where
  "rung_choice l required =
     (let rs = [0..<length (sl_rungs l)] in
      case List.find (\<lambda>r. r \<ge> needed_rung l required) (filter (rung_ok l) rs) of
        Some r \<Rightarrow> Some r
      | None \<Rightarrow> List.find (rung_ok l) (rev rs))"

definition first_reason :: "scored_ladder \<Rightarrow> sweep_error" where
  "first_reason l = (case sl_admissible l of Inl e # _ \<Rightarrow> e | _ \<Rightarrow> NoRungAdmissible)"

definition select_escape_rung ::
  "'d node \<Rightarrow> 'w chain_backend \<Rightarrow> partial_store \<Rightarrow> string \<Rightarrow> scored_ladder \<Rightarrow> ('w, sweep_error, nat \<times> u64 \<times> u64) chain_io" where
  "select_escape_rung node be st cid l w =
     (if length (sl_rungs l) \<le> 1
      then (case sl_admissible l of
              Inr _ # _ \<Rightarrow> (Ok (0, 0, nd_escape_feerate_floor node), w)
            | Inl e # _ \<Rightarrow> (Err e, w)
            | [] \<Rightarrow> (Err NoCandidateTx, w))
      else let (reading, w1) = escape_bump_target_feerate be w;
               target = (case reading of Inl _ \<Rightarrow> 0 | Inr None \<Rightarrow> 0 | Inr (Some t) \<Rightarrow> t);
               required = max target (nd_escape_feerate_floor node)
           in (case rung_choice l required of
                 None \<Rightarrow> (Err (first_reason l), w1)
               | Some choice \<Rightarrow>
                   let selected = max choice (case escape_rung st cid of None \<Rightarrow> 0 | Some r \<Rightarrow> r) in
                   if selected < length (sl_admissible l) \<and> sl_admissible l ! selected \<noteq> Inr ()
                   then (Err (LatchedRungInadmissible selected), w1)
                   else (Ok (selected, target, required), w1)))"

subsection \<open>The preflight\<close>

fun vsizes_of :: "'d node \<Rightarrow> transaction list \<Rightarrow> sweep_error + u64 list" where
  "vsizes_of node [] = Ok []"
| "vsizes_of node (tx # txs) =
     (case maximum_finalized_vsize node tx of
        None \<Rightarrow> Err VsizeOverflow
      | Some v \<Rightarrow> bind_res (vsizes_of node txs) (\<lambda>vs. Ok (v # vs)))"

definition lowest_admissible :: "(sweep_error + unit) list \<Rightarrow> nat \<Rightarrow> nat" where
  "lowest_admissible adm selected =
     min (case position (\<lambda>r. r = Inr ()) adm of None \<Rightarrow> selected | Some i \<Rightarrow> i) selected"

definition escape_sweep_pre_release_admissible ::
  "'d node \<Rightarrow> 'w chain_backend \<Rightarrow> txid list \<Rightarrow> partial_store \<Rightarrow> string
    \<Rightarrow> ('w, sweep_error, partial_store \<times> escape_sweep_tick_context) chain_io" where
  "escape_sweep_pre_release_admissible node be authorized st cid =
     (case candidate_rung_txs st cid of
        None \<Rightarrow> io_fail ContextUnavailable
      | Some rungs \<Rightarrow>
          if rungs = [] then io_fail ContextUnavailable
          else io_bind (io_map_err (\<lambda>_. MempoolUnreadable) (mempool_escape_rung node be st cid)) (\<lambda>resident_rung.
          io_bind (sweep_env_of node be authorized st cid (length rungs > 1) resident_rung) (\<lambda>env.
          io_bind (Pair (vsizes_of node rungs)) (\<lambda>maximum_vsizes.
          let adm = map (\<lambda>(tx, vsize). sweep_rung_admissible node env tx vsize) (zip rungs maximum_vsizes);
              ladder = \<lparr>sl_rungs = rungs, sl_maximum_vsizes = maximum_vsizes, sl_admissible = adm, sl_total_in = se_total_in env\<rparr>
          in io_bind (select_escape_rung node be st cid ladder) (\<lambda>(selected, target, required).
          if selected < length rungs
          then io_bind (io_map_err (\<lambda>_. PackageInadmissible)
                   (assemble_escape_package be (nd_tx node) (rungs ! selected) resident_rung authorized)) (\<lambda>_.
               (case latch_escape_rung st cid selected (lowest_admissible adm selected) of
                  (_, None) \<Rightarrow> io_fail EscapeDisappeared
                | (st1, Some _) \<Rightarrow> io_return (st1, \<lparr>tc_resident_rung = resident_rung, tc_env = env\<rparr>)))
          else io_fail RungIndexPanic)))))"

subsection \<open>The choice meets its specification\<close>

lemma find_upt: "List.find P [0..<n] = Some r \<longleftrightarrow> r < n \<and> P r \<and> (\<forall>j < r. \<not> P j)"
  by (auto simp: find_Some_iff)

lemma find_upt_None: "List.find P [0..<n] = None \<longleftrightarrow> (\<forall>j < n. \<not> P j)"
  by (auto simp: find_None_iff)

lemma find_filter: "List.find Q (filter P xs) = List.find (\<lambda>x. P x \<and> Q x) xs"
  by (induction xs) auto

lemma find_rev_upt: "List.find P (rev [0..<n]) = (if \<exists>r < n. P r then Some (Max {r. r < n \<and> P r}) else None)"
proof (induction n)
  case 0
  then show ?case by simp
next
  case (Suc n)
  show ?case
  proof (cases "P n")
    case True
    then have "Max {r. r < Suc n \<and> P r} = n" by (intro Max_eqI) auto
    with True show ?thesis by auto
  next
    case False
    then have "{r. r < Suc n \<and> P r} = {r. r < n \<and> P r}" "(\<exists>r < Suc n. P r) \<longleftrightarrow> (\<exists>r < n. P r)"
      by (auto simp: less_Suc_eq)
    with False Suc show ?thesis by simp
  qed
qed

lemma find_upt_Least: "List.find P [0..<n] = (if \<exists>r < n. P r then Some (LEAST r. P r) else None)"
proof (cases "\<exists>r < n. P r")
  case True
  then have "List.find P [0..<n] = Some (LEAST r. P r)"
    by (auto simp: find_upt intro: LeastI le_less_trans [OF Least_le] dest: not_less_Least)
  with True show ?thesis by simp
next
  case False
  then show ?thesis by (auto simp: find_upt_None)
qed

text \<open>
  The reference: the cheapest rung that reaches the required feerate is needed (the top one if none
  does); take the lowest admissible rung from there up, else the highest admissible rung of all.
\<close>

definition best_rung :: "scored_ladder \<Rightarrow> u64 \<Rightarrow> nat option" where
  "best_rung l required =
     (let n = length (sl_rungs l);
          need = (if \<exists>r < n. reaches l r required then LEAST r. reaches l r required else n - 1);
          ok = {r. r < n \<and> rung_ok l r}
      in if \<exists>r \<in> ok. need \<le> r then Some (LEAST r. rung_ok l r \<and> need \<le> r)
         else if ok = {} then None else Some (Max ok))"

lemma rung_choice_best: "rung_choice l required = best_rung l required"
proof -
  have "(\<exists>r < length (sl_rungs l). rung_ok l r \<and> needed_rung l required \<le> r) \<longleftrightarrow>
      (\<exists>r \<in> {r. r < length (sl_rungs l) \<and> rung_ok l r}. needed_rung l required \<le> r)" by auto
  moreover have "needed_rung l required = (if \<exists>r < length (sl_rungs l). reaches l r required
      then LEAST r. reaches l r required else length (sl_rungs l) - 1)"
    by (auto simp: needed_rung_def find_upt_Least Let_def)
  ultimately show ?thesis
    by (auto simp: rung_choice_def best_rung_def find_filter find_upt_Least find_rev_upt Let_def)
qed

lemma best_rung_ok:
  assumes "best_rung l required = Some r"
  shows "r < length (sl_rungs l) \<and> rung_ok l r"
proof -
  let ?ok = "{r. r < length (sl_rungs l) \<and> rung_ok l r}"
  have "r \<in> ?ok"
  proof (cases "List.find (\<lambda>r. rung_ok l r \<and> needed_rung l required \<le> r) [0..<length (sl_rungs l)]")
    case (Some x)
    with assms show ?thesis by (simp add: rung_choice_best [symmetric] rung_choice_def find_filter) (simp add: find_upt)
  next
    case None
    with assms have "?ok \<noteq> {}" "r = Max ?ok"
      by (auto simp: rung_choice_best [symmetric] rung_choice_def find_filter find_rev_upt split: if_splits)
    then show ?thesis using Max_in [of ?ok] by simp
  qed
  then show ?thesis by simp
qed

lemma select_Ok:
  assumes "select_escape_rung node be st cid l w = (Inr (selected, target, required), w')"
    and "length (sl_admissible l) = length (sl_rungs l)" "sl_rungs l \<noteq> []" "escape_rung st cid = Some r" "r < length (sl_rungs l)"
  shows "selected < length (sl_rungs l) \<and> rung_ok l selected \<and> r \<le> selected"
proof (cases "length (sl_rungs l) \<le> 1")
  case True
  with assms(3) have one: "length (sl_rungs l) = 1" by (cases "sl_rungs l") auto
  with assms(2) obtain a where a: "sl_admissible l = [a]" by (cases "sl_admissible l") auto
  have "select_escape_rung node be st cid l w =
      (case a of Inl e \<Rightarrow> (Inl e, w) | Inr _ \<Rightarrow> (Inr (0, 0, nd_escape_feerate_floor node), w))"
    using True a by (cases a) (simp_all add: select_escape_rung_def)
  with assms(1) have "a = Inr ()" "selected = 0" by (cases a, simp_all)+
  with one a assms(5) show ?thesis by (simp add: rung_ok_def)
next
  case False
  with assms(1) obtain choice where c: "best_rung l required = Some choice" "selected = max choice r"
      "\<not> (selected < length (sl_admissible l) \<and> sl_admissible l ! selected \<noteq> Inr ())"
    using assms(4) by (auto simp: select_escape_rung_def rung_choice_best Let_def split: prod.splits option.splits if_splits)
  with best_rung_ok [OF c(1)] assms(2,5) show ?thesis by (auto simp: rung_ok_def)
qed

text \<open>C31: the fee-bump rung is chosen as specified. On a ladder of several rungs the search over the scored
  rungs picks the reference choice: the lowest admissible rung at or above the first one that reaches the required
  feerate, otherwise the highest admissible one; the selected rung is that choice raised to the latched rung,
  and an inadmissible latched rung is an error rather than a lower rung.\<close>

theorem select_escape_rung_spec:
  assumes "1 < length (sl_rungs l)" "escape_bump_target_feerate be w = (Inr (Some target), w1)"
    and "required = max target (nd_escape_feerate_floor node)" "escape_rung st cid = Some latch"
  shows "select_escape_rung node be st cid l w =
    (case best_rung l required of
       None \<Rightarrow> (Inl (first_reason l), w1)
     | Some choice \<Rightarrow>
         let selected = max choice latch in
         if selected < length (sl_admissible l) \<and> sl_admissible l ! selected \<noteq> Inr ()
         then (Inl (LatchedRungInadmissible selected), w1) else (Inr (selected, target, required), w1))"
  using assms by (simp add: select_escape_rung_def rung_choice_best Let_def split: option.split)

subsection \<open>The admissible rungs are an interval\<close>

lemma position_None: "position P xs = None \<longleftrightarrow> (\<forall>x \<in> set xs. \<not> P x)"
  by (induction xs) auto

lemma fold_sat_outputs: "acc \<le> u64_max \<Longrightarrow> sat_outputs P acc tx = min (acc + sum_list (map txo_value (filter P (tx_output tx)))) u64_max"
proof -
  have "foldl (\<lambda>a out. sat_add64 a (txo_value out)) acc xs = fold (\<lambda>x a. sat_add64 a x) (map txo_value xs) acc" for xs
    by (induction xs arbitrary: acc) simp_all
  then show "acc \<le> u64_max \<Longrightarrow> ?thesis" by (simp add: sat_outputs_def fold_sat_add64)
qed

lemma sat_outputs_mono:
  assumes "sum_list (map txo_value (filter P (tx_output q))) \<le> sum_list (map txo_value (filter P (tx_output p)))" "acc \<le> u64_max"
  shows "sat_outputs P acc q \<le> sat_outputs P acc p"
  using assms by (simp add: fold_sat_outputs min_def)

lemma sat_mul128_mono: "a \<le> b \<Longrightarrow> sat_mul128 a c \<le> sat_mul128 b c"
  unfolding sat_mul128_def by (intro min.mono mult_le_mono1 order_refl)

lemma sat_mul128_mono2: "a \<le> b \<Longrightarrow> sat_mul128 c a \<le> sat_mul128 c b"
  unfolding sat_mul128_def by (intro min.mono mult_le_mono2 order_refl)

definition escape_delivered :: "'d node \<Rightarrow> 'd \<Rightarrow> sweep_env \<Rightarrow> transaction \<Rightarrow> u64" where
  "escape_delivered node d env tx =
     sat_outputs (\<lambda>out. derives_within (nd_desc node) d (script_pubkey out) (max_derivation_index (nd_check_params node)))
       (se_paired_delivered env) tx"

lemma admissible_iff:
  "sweep_rung_admissible node env tx v = Inr () \<longleftrightarrow>
     sequences_ok (se_laddered env) tx \<and> v \<noteq> 0 \<and> sat_mul128 (nd_escape_feerate_floor node) v \<le> rung_fee env tx \<and>
     (\<exists>d. escape (nd_check_params node) = Some d \<and>
        sat_mul128 (se_protected_value env) (nd_escape_coverage_pct node) \<le> sat_mul128 (escape_delivered node d env tx) 100)"
proof -
  let ?pos = "position (\<lambda>i. sequence i \<noteq> expected_escape_sequence (se_laddered env)) (tx_input tx)"
  have seq: "?pos = None \<longleftrightarrow> sequences_ok (se_laddered env) tx" by (simp add: position_None sequences_ok_def list_all_iff)
  show ?thesis
    by (cases ?pos; cases "escape (nd_check_params node)"; insert seq)
       (simp_all add: sweep_rung_admissible_def escape_delivered_def Let_def not_less)
qed

text \<open>Two unsigned transactions of one ladder.\<close>

definition tx_above :: "transaction \<Rightarrow> transaction \<Rightarrow> bool" where
  "tx_above p q \<longleftrightarrow> map previous_output (tx_input q) = map previous_output (tx_input p) \<and>
     map script_pubkey (tx_output q) = map script_pubkey (tx_output p) \<and>
     list_all2 (\<lambda>x y. txo_value x \<le> txo_value y) (tx_output q) (tx_output p)"

text \<open>
  Documented of rust-bitcoin's \<open>Transaction::weight\<close>: it is a sum of serialized lengths, and amounts,
  outpoints and sequences have a fixed length, so it depends only on the number of inputs, on their script
  signatures and witnesses, and on the output scripts. The unsigned transaction of a PSBT has empty script
  signatures and witnesses.
\<close>

definition weight_by_shape :: "tx_api \<Rightarrow> bool" where
  "weight_by_shape ta \<longleftrightarrow> (\<forall>p q. length (tx_input p) = length (tx_input q) \<longrightarrow>
     map script_sig (tx_input p) = map script_sig (tx_input q) \<longrightarrow> map txin_witness (tx_input p) = map txin_witness (tx_input q) \<longrightarrow>
     map script_pubkey (tx_output p) = map script_pubkey (tx_output q) \<longrightarrow> tx_weight ta p = tx_weight ta q)"

definition unsigned :: "transaction \<Rightarrow> bool" where
  "unsigned tx = list_all (\<lambda>i. script_sig i = [] \<and> txin_witness i = []) (tx_input tx)"

lemma tx_above_vsize:
  assumes "weight_by_shape (nd_tx node)" "tx_above p q" "unsigned p" "unsigned q"
  shows "maximum_finalized_vsize node q = maximum_finalized_vsize node p"
proof -
  have len: "length (tx_input q) = length (tx_input p)" using assms(2) unfolding tx_above_def by (metis length_map)
  have blank: "list_all (\<lambda>i. script_sig i = [] \<and> txin_witness i = []) xs \<Longrightarrow>
      map script_sig xs = replicate (length xs) [] \<and> map txin_witness xs = replicate (length xs) []" for xs :: "txin list"
    by (induction xs) simp_all
  have "map script_sig (tx_input q) = map script_sig (tx_input p) \<and> map txin_witness (tx_input q) = map txin_witness (tx_input p)"
    using len assms(3,4) by (simp add: unsigned_def blank)
  moreover have "map script_pubkey (tx_output q) = map script_pubkey (tx_output p)" using assms(2) by (simp add: tx_above_def)
  ultimately have "tx_weight (nd_tx node) q = tx_weight (nd_tx node) p"
    using assms(1) len unfolding weight_by_shape_def by blast
  with len show ?thesis by (simp add: maximum_finalized_vsize_def maximum_finalized_vsize_for_def)
qed

lemma tx_above_refl [simp]: "tx_above p p"
  by (simp add: tx_above_def list.rel_refl)

lemma tx_above_total: "tx_above p q \<Longrightarrow> sum_list (map txo_value (filter (\<lambda>out. P (script_pubkey out)) (tx_output q))) \<le>
    sum_list (map txo_value (filter (\<lambda>out. P (script_pubkey out)) (tx_output p)))"
  by (auto simp: tx_above_def intro: delivered_mono)

lemma tx_above_fee: "tx_above p q \<Longrightarrow> rung_fee env p \<le> rung_fee env q"
  using tx_above_total [of p q "\<lambda>_. True"] by (auto simp: rung_fee_def sat_sum64_eq min_def intro: diff_le_mono2)

text \<open>Between a rung that pays enough and a higher rung that still covers enough, every rung does both.\<close>

lemma admissible_between:
  assumes "sweep_rung_admissible node env low v = Inr ()" "sweep_rung_admissible node env high v = Inr ()"
    and "tx_above low mid" "tx_above mid high" "sequences_ok (se_laddered env) mid"
    and "se_paired_delivered env \<le> u64_max"
  shows "sweep_rung_admissible node env mid v = Inr ()"
proof -
  have fee: "rung_fee env low \<le> rung_fee env mid" using assms(3) by (rule tx_above_fee)
  have del: "escape_delivered node d env high \<le> escape_delivered node d env mid" for d
    using assms(4,6) unfolding escape_delivered_def by (auto intro!: sat_outputs_mono tx_above_total)
  from assms(1) have lo: "v \<noteq> 0" "sat_mul128 (nd_escape_feerate_floor node) v \<le> rung_fee env low" by (simp_all add: admissible_iff)
  from assms(2) obtain d where hi: "escape (nd_check_params node) = Some d"
      "sat_mul128 (se_protected_value env) (nd_escape_coverage_pct node) \<le> sat_mul128 (escape_delivered node d env high) 100"
    by (auto simp: admissible_iff)
  show ?thesis
    using lo hi fee assms(5) order_trans [OF hi(2) sat_mul128_mono [OF del]] by (simp add: admissible_iff)
qed

lemma sat_outputs_le: "sat_outputs P 0 tx \<le> u64_max"
  by (simp add: fold_sat_outputs)

lemma paired_adjustment_le:
  "paired_adjustment node d be tx paired prot w = (Inr (prot', del), w') \<Longrightarrow> del \<le> u64_max"
  by (auto simp: paired_adjustment_def Let_def io_bind_Ok_iff sat_outputs_le split: if_splits option.splits prod.splits)

lemma env_with_pair_Ok:
  "env_with_pair node d be st cid tx laddered tin prot w = (Inr env, w') \<Longrightarrow> se_laddered env = laddered \<and> se_paired_delivered env \<le> u64_max"
  by (auto simp: env_with_pair_def io_bind_Ok_iff dest: paired_adjustment_le split: option.split_asm)

lemma sweep_env_Ok:
  assumes "sweep_env_of node be auth st cid laddered res w = (Inr env, w')"
  shows "se_laddered env = laddered \<and> se_paired_delivered env \<le> u64_max"
proof -
  from assms obtain cand where "candidate_coverage_context st cid = Some cand"
    by (auto simp: sweep_env_of_def split: option.split_asm)
  with assms obtain d tin prot w1 where "env_with_pair node d be st cid (ccx_tx cand) laddered tin prot w1 = (Inr env, w')"
    by (auto simp: sweep_env_of_def Let_def io_bind_Ok_iff split: if_split_asm option.split_asm)
  then show ?thesis by (rule env_with_pair_Ok)
qed

lemma vsizes_of_Ok:
  "vsizes_of node txs = Inr vs \<Longrightarrow> length vs = length txs \<and> (\<forall>i < length txs. maximum_finalized_vsize node (txs ! i) = Some (vs ! i))"
proof (induction txs arbitrary: vs)
  case Nil
  then show ?case by simp
next
  case (Cons tx txs)
  from Cons.prems obtain v vs' where v: "maximum_finalized_vsize node tx = Some v" "vsizes_of node txs = Inr vs'" "vs = v # vs'"
    by (auto simp: bind_res_Ok_iff split: option.splits)
  with Cons.IH [OF v(2)] show ?case by (auto simp: less_Suc_eq_0_disj)
qed

lemma preflight_Ok:
  assumes "escape_sweep_pre_release_admissible node be auth st cid w = (Inr (st', ctx), w')"
  obtains rungs vs l selected target required u x w1 w2 where
    "candidate_rung_txs st cid = Some rungs" "rungs \<noteq> []" "vsizes_of node rungs = Inr vs"
    "se_laddered (tc_env ctx) = (length rungs > 1)" "se_paired_delivered (tc_env ctx) \<le> u64_max"
    "sl_rungs l = rungs" "sl_admissible l = map (\<lambda>(tx, v). sweep_rung_admissible node (tc_env ctx) tx v) (zip rungs vs)"
    "select_escape_rung node be st cid l w1 = (Inr (selected, target, required), w2)" "selected < length rungs"
    "latch_escape_rung st cid selected (lowest_admissible (sl_admissible l) selected) = (st', Some x)"
proof -
  obtain rungs where r: "candidate_rung_txs st cid = Some rungs" "rungs \<noteq> []"
    using assms by (auto simp: escape_sweep_pre_release_admissible_def split: option.splits if_splits)
  from assms obtain res env vs w0 w1 w1' w2 selected target required where
      e: "sweep_env_of node be auth st cid (length rungs > 1) res w0 = (Inr env, w1)" "vsizes_of node rungs = Inr vs"
      and sel: "select_escape_rung node be st cid \<lparr>sl_rungs = rungs, sl_maximum_vsizes = vs,
          sl_admissible = map (\<lambda>(tx, v). sweep_rung_admissible node env tx v) (zip rungs vs), sl_total_in = se_total_in env\<rparr> w1'
          = (Inr (selected, target, required), w2)"
      and lt: "selected < length rungs" and ctx: "tc_env ctx = env"
      and latch: "\<exists>x. latch_escape_rung st cid selected
          (lowest_admissible (map (\<lambda>(tx, v). sweep_rung_admissible node env tx v) (zip rungs vs)) selected) = (st', Some x)"
    using r by (auto simp: escape_sweep_pre_release_admissible_def Let_def io_bind_Ok_iff split: if_splits prod.splits option.splits)
  show thesis
    using that [OF r e(2) _ _ _ _ sel lt] sweep_env_Ok [OF e(1)] ctx latch by auto
qed

text \<open>The unsigned transactions of an accepted ladder.\<close>

definition ladder_txs :: "transaction list \<Rightarrow> bool" where
  "ladder_txs txs \<longleftrightarrow> (1 < length txs \<longrightarrow> sorted_wrt tx_above txs \<and> list_all (sequences_ok True) txs)"

lemma accepted_ladder_txs:
  assumes "ensure_escape_ladder node esc bmps sp = Inr ()"
  shows "ladder_txs (map unsigned_tx (esc # bmps))"
proof (cases "bmps = []")
  case True
  then show ?thesis by (simp add: ladder_txs_def)
next
  case False
  have above: "rung_above p q \<Longrightarrow> tx_above (unsigned_tx p) (unsigned_tx q)" for p q
    by (auto simp: rung_above_def tx_above_def rung_inputs_def rung_scripts_def rung_values_def list.rel_map)
  from accepted_ladder_chain [OF assms False] have "sorted_wrt (\<lambda>p q. tx_above (unsigned_tx p) (unsigned_tx q)) (esc # bmps)"
    by (rule sorted_wrt_mono_rel [rotated]) (rule above)
  moreover have "list_all (sequences_ok True) (map unsigned_tx (esc # bmps))"
    using accepted_ladder_shape(3) [OF assms False]
    by (auto simp: list_all_iff sequences_ok_def expected_escape_sequence_def)
  ultimately show ?thesis by (simp only: ladder_txs_def sorted_wrt_map) simp
qed

lemma ladder_txs_above: "ladder_txs txs \<Longrightarrow> i \<le> j \<Longrightarrow> j < length txs \<Longrightarrow> tx_above (txs ! i) (txs ! j)"
  by (cases "i = j") (auto simp: ladder_txs_def intro: sorted_wrt_nth_less)

lemma latched_between:
  assumes "authorized_rung c \<le> selected" "selected \<le> length (bumps c)"
  shows "authorized_rung (latched selected low c) = selected" "release_floor (latched selected low c) = min low selected"
  using assms by (auto simp: authorized_rung_def release_floor_def latched_def Let_def min_def)

lemma latch_keeps_variants:
  assumes "latch_escape_rung st cid r low = (st', Some x)" "hm_get (candidates st) cid = Some c"
  shows "\<exists>c'. hm_get (candidates st') cid = Some c' \<and> variants c' = variants c"
  using assms by (auto simp: latch_escape_rung_def hm_simps latched_def variants_def Let_def)

lemma lowest_admissible_ok:
  assumes "selected < length adm" "adm ! selected = Inr ()"
  shows "lowest_admissible adm selected \<le> selected" "adm ! lowest_admissible adm selected = Inr ()"
  using assms by (auto simp: lowest_admissible_def min_def dest: position_Some split: option.splits)

lemma candidate_rung_count:
  assumes "hm_get (candidates st) cid = Some c" "candidate_rung_txs st cid = Some rungs"
  shows "length rungs = Suc (length (bumps c))" "escape_rung st cid = Some (authorized_rung c)" "authorized_rung c < length rungs"
  using assms by (auto simp: candidate_rung_txs_def escape_rung_def variants_def authorized_rung_def)

lemma preflight_interval:
  assumes run: "escape_sweep_pre_release_admissible node be auth st cid w = (Inr (st', ctx), w')"
    and c: "hm_get (candidates st) cid = Some c"
    and rungs: "candidate_rung_txs st cid = Some rungs" "ladder_txs rungs" "list_all unsigned rungs" "weight_by_shape (nd_tx node)"
    and c': "hm_get (candidates st') cid = Some c'"
    and r: "release_floor c' \<le> r" "r \<le> authorized_rung c'"
  shows "r < length rungs \<and> (\<exists>v. maximum_finalized_vsize node (rungs ! r) = Some v \<and> sweep_rung_admissible node (tc_env ctx) (rungs ! r) v = Inr ())"
proof -
  from preflight_Ok [OF run] obtain rungs' vs l selected target required x w1 w2 where
    p: "candidate_rung_txs st cid = Some rungs'" "rungs' \<noteq> []" "vsizes_of node rungs' = Inr vs"
      "se_laddered (tc_env ctx) = (length rungs' > 1)" "se_paired_delivered (tc_env ctx) \<le> u64_max" "sl_rungs l = rungs'"
      "sl_admissible l = map (\<lambda>(tx, v). sweep_rung_admissible node (tc_env ctx) tx v) (zip rungs' vs)"
      "select_escape_rung node be st cid l w1 = (Inr (selected, target, required), w2)"
      "latch_escape_rung st cid selected (lowest_admissible (sl_admissible l) selected) = (st', Some x)"
    by metis
  with rungs(1) have eq: "rungs' = rungs" by simp
  note p = p [unfolded eq]
  note n = candidate_rung_count [OF c rungs(1)] and vs = vsizes_of_Ok [OF p(3)]
  let ?adm = "sl_admissible l" and ?low = "lowest_admissible (sl_admissible l) selected"
  have len: "length ?adm = length rungs" using vs by (simp add: p(7))
  have sel: "selected < length rungs" "?adm ! selected = Inr ()" "authorized_rung c \<le> selected"
    using select_Ok [OF p(8), of "authorized_rung c"] len n p(2,6) by (auto simp: rung_ok_def)
  note low = lowest_admissible_ok [of selected ?adm, unfolded len, OF sel(1,2)]
  have adm: "?adm ! i = sweep_rung_admissible node (tc_env ctx) (rungs ! i) (vs ! i)" if "i < length rungs" for i
    using that vs by (simp add: p(7))
  have vsz: "vs ! i = vs ! r" if "i < length rungs" "r < length rungs" "i \<le> r \<or> r \<le> i" for i
    using that vs rungs(3) tx_above_vsize [OF rungs(4) ladder_txs_above [OF rungs(2)]]
    by (metis list_all_length option.inject)
  from p(9) c c' have "c' = latched selected ?low c" by (auto simp: latch_escape_rung_def hm_simps)
  with latched_between [OF sel(3), of ?low] sel(1) n(1) r low(1) have r': "?low \<le> r" "r \<le> selected" by auto
  have rl: "r < length rungs" using r' sel(1) by simp
  have lo: "sweep_rung_admissible node (tc_env ctx) (rungs ! ?low) (vs ! r) = Inr ()"
    using low(2) adm [of ?low] vsz [of ?low] r' rl by auto
  have hi: "sweep_rung_admissible node (tc_env ctx) (rungs ! selected) (vs ! r) = Inr ()"
    using sel(2) adm [of selected] vsz [of selected] r' rl sel(1) by auto
  have seq: "sequences_ok (se_laddered (tc_env ctx)) (rungs ! r)"
  proof (cases "1 < length rungs")
    case True
    with rungs(2) rl p(4) show ?thesis by (simp add: ladder_txs_def list_all_length)
  next
    case False
    with rl r' sel(1) have "r = selected" by simp
    with hi show ?thesis by (simp add: admissible_iff)
  qed
  have "sweep_rung_admissible node (tc_env ctx) (rungs ! r) (vs ! r) = Inr ()"
    by (rule admissible_between [OF lo hi _ _ seq p(5)]) (use r' rl sel(1) rungs(2) in \<open>auto intro: ladder_txs_above\<close>)
  with rl vs show ?thesis by auto
qed

text \<open>C30: shares leave only for admissible rungs. If the escape of a candidate was accepted as a ladder and the
  preflight of an armed sweep succeeds, then every share the next release hands out is for a rung that pays the
  feerate floor at its largest possible size and delivers the required percentage of the protected balance to the
  escape wallet: no rung below the paying ones and none above the covering ones is ever released.\<close>

theorem preflight_releases_only_admissible:
  assumes "escape_sweep_pre_release_admissible node be authorized st cid w = (Inr (st', ctx), w')"
    and "hm_get (candidates st) cid = Some c"
    and "ensure_escape_ladder node esc bmps self_paired = Inr ()"
    and "map (\<lambda>v. unsigned_tx (sv_psbt v)) (variants c) = map unsigned_tx (esc # bmps)"
    and "list_all unsigned (map unsigned_tx (esc # bmps))" "weight_by_shape (nd_tx node)"
    and "release_partials api ta env st' cid now = (st2, Some rel)" "p \<in> set (rel_payloads rel)"
  shows "\<exists>r v vsize. variant c r = Some v \<and> pl_txid p = ta_txid_to_string ta (unsigned_txid v) \<and>
    maximum_finalized_vsize node (unsigned_tx (sv_psbt v)) = Some vsize \<and>
    sweep_rung_admissible node (tc_env ctx) (unsigned_tx (sv_psbt v)) vsize = Inr ()"
proof -
  let ?rungs = "map unsigned_tx (esc # bmps)"
  have rungs: "candidate_rung_txs st cid = Some ?rungs" using assms(2,4) by (simp add: candidate_rung_txs_def)
  from preflight_Ok [OF assms(1)] obtain c' where c': "hm_get (candidates st') cid = Some c'" "variants c' = variants c"
    using assms(2) by (metis (no_types) latch_keeps_variants)
  from release_partials_shares [OF assms(7) c'(1) assms(8)] obtain r v i sig where
    r: "release_floor c' \<le> r" "r \<le> authorized_rung c'" "variant c' r = Some v" "p = payload_of api ta env cid (role c') v i sig"
    by (auto simp: share_of_def)
  from preflight_interval [OF assms(1,2) rungs accepted_ladder_txs [OF assms(3)] assms(5,6) c'(1) r(1,2)] obtain vsize where
    adm: "maximum_finalized_vsize node (?rungs ! r) = Some vsize" "sweep_rung_admissible node (tc_env ctx) (?rungs ! r) vsize = Inr ()"
    by blast
  have v: "variant c r = Some v" using r(3) c'(2) by (simp add: variant_iff)
  then have "(map (\<lambda>v. unsigned_tx (sv_psbt v)) (variants c)) ! r = unsigned_tx (sv_psbt v)" by (simp add: variant_iff)
  then have "?rungs ! r = unsigned_tx (sv_psbt v)" by (simp only: assms(4))
  with v r(4) adm show ?thesis by (intro exI [of _ r] exI [of _ v] exI [of _ vsize]) (simp add: payload_of_def)
qed

subsection \<open>A sweep of two rungs\<close>

definition demo_sweep_psbt :: "u64 \<Rightarrow> psbt" where
  "demo_sweep_psbt v = \<lparr>unsigned_tx = demo_tx_on [9] v,
     psbt_inputs = [demo_input\<lparr>witness_utxo := Some \<lparr>script_pubkey = [5, 1], txo_value = 100000\<rparr>,
       partial_sigs := [([2], \<lparr>signature = [2], sig_sighash_type = 1\<rparr>)]\<rparr>], psbt_outputs = []\<rparr>"

definition demo_sweep_variant :: "u64 \<Rightarrow> signing_variant" where
  "demo_sweep_variant v = \<lparr>unsigned_txid = [word_of_nat v], sv_psbt = demo_sweep_psbt v, sighashes = [[0]], user_sig_hash = replicate 32 0,
     partials = []\<rparr>"

definition demo_sweep_cand :: candidate where
  "demo_sweep_cand = (demo_cand_escape True (Some 10) 832)\<lparr>base := demo_sweep_variant 99000, bumps := [demo_sweep_variant 98000]\<rparr>"

definition demo_sweep_store :: partial_store where
  "demo_sweep_store = (demo_confirmed True False)\<lparr>candidates := [(''s'', demo_cand_spend True True 416), (''e'', demo_sweep_cand)]\<rparr>"

definition demo_sweep_env :: sweep_env where
  "demo_sweep_env = \<lparr>se_total_in = 100000, se_protected_value = 100000, se_paired_delivered = 0, se_laddered = True\<rparr>"

lemma demo_sweep_reads:
  "candidate_rung_txs demo_sweep_store ''e'' = Some [demo_tx_on [9] 99000, demo_tx_on [9] 98000]"
  "candidate_coverage_context demo_sweep_store ''e'' = Some \<lparr>ccx_hot = False, ccx_inputs = [(\<lparr>op_txid = [9], op_vout = 0\<rparr>, 100000)],
     ccx_tx = demo_tx_on [9] 99000\<rparr>"
  "\<exists>ctx. candidate_coverage_context demo_sweep_store ''s'' = Some ctx \<and> ccx_hot ctx"
  "pairing demo_sweep_store ''e'' = Some (RoleEscape, ''s'')" "escape_rung demo_sweep_store ''e'' = Some 0"
  by (simp_all add: demo_sweep_store_def candidate_rung_txs_def candidate_coverage_context_def pairing_def escape_rung_def hm_get_def
      variants_def demo_sweep_cand_def demo_sweep_variant_def demo_sweep_psbt_def demo_cand_escape_def demo_cand_spend_def
      demo_variant_def demo_chan_psbt_def canonical_input_def demo_tx_on_def demo_in_def authorized_rung_def)

text \<open>The weight is the sum of the serialized lengths of a transaction with fewer than 253 inputs, outputs and script bytes.\<close>

definition tx_shape_weight :: "transaction \<Rightarrow> nat" where
  "tx_shape_weight tx = 4 * (10 + sum_list (map (\<lambda>i. 41 + length (script_sig i)) (tx_input tx)) +
       sum_list (map (\<lambda>out. 9 + length (script_pubkey out)) (tx_output tx))) +
     (if list_all (\<lambda>i. txin_witness i = []) (tx_input tx) then 0
      else 2 + sum_list (map (\<lambda>i. 1 + sum_list (map (\<lambda>item. 1 + length item) (txin_witness i))) (tx_input tx)))"

definition sweep_tx_api :: tx_api where
  "sweep_tx_api = demo_tx_api\<lparr>tx_weight := tx_shape_weight\<rparr>"

definition sweep_node :: "nat node" where
  "sweep_node = demo_node\<lparr>nd_tx := sweep_tx_api\<rparr>"

lemma sweep_tx_reads: "tx_serialize sweep_tx_api = tx_serialize demo_tx_api" "tx_deserialize sweep_tx_api = tx_deserialize demo_tx_api"
  "tx_weight sweep_tx_api = tx_shape_weight"
  by (simp_all add: sweep_tx_api_def)

lemma tx_shape_weight_by_shape: "weight_by_shape sweep_tx_api"
proof -
  have s: "sum_list (map (\<lambda>i. 41 + length (script_sig i)) xs) = sum_list (map (\<lambda>b. 41 + length b) (map script_sig xs))"
    "sum_list (map (\<lambda>out. 9 + length (script_pubkey out)) ys) = sum_list (map (\<lambda>b. 9 + length b) (map script_pubkey ys))"
    "list_all (\<lambda>i. txin_witness i = []) xs = list_all (\<lambda>w. w = []) (map txin_witness xs)"
    "sum_list (map (\<lambda>i. 1 + sum_list (map (\<lambda>item. 1 + length item) (txin_witness i))) xs) =
       sum_list (map (\<lambda>w. 1 + sum_list (map (\<lambda>item. 1 + length item) w)) (map txin_witness xs))"
    for xs :: "txin list" and ys :: "txout list" by (simp_all add: comp_def list.pred_map)
  show ?thesis unfolding weight_by_shape_def sweep_tx_reads tx_shape_weight_def s by simp
qed

lemma sweep_node_reads:
  "nd_sig sweep_node = demo_sig" "nd_tx sweep_node = sweep_tx_api" "nd_desc sweep_node = demo_api" "nd_check_params sweep_node = demo_params"
  "nd_escape_feerate_floor sweep_node = 1" "nd_escape_coverage_pct sweep_node = 95" "nd_max_vault_satisfaction_weight sweep_node = 200"
  by (simp_all add: sweep_node_def demo_node_def)

lemma demo_sweep_chain:
  "b_prevouts demo_backend [outp] w = (Inr [Some \<lparr>po_txout = \<lparr>script_pubkey = [1], txo_value = 100000\<rparr>, po_confirmed = True\<rparr>], w)"
  "b_vault_unspent demo_backend scripts auth w =
     (Inr [(\<lparr>op_txid = [9], op_vout = 0\<rparr>, \<lparr>po_txout = \<lparr>script_pubkey = [1], txo_value = 100000\<rparr>, po_confirmed = True\<rparr>)], w)"
  "b_mempool_resident demo_backend ts w = (Inr None, w)"
  by (simp_all add: demo_backend_def)

lemma demo_env_with_pair:
  "env_with_pair sweep_node d demo_backend demo_sweep_store ''e'' tx True 100000 100000 () = (Inr demo_sweep_env, ())"
proof -
  obtain ctx where "candidate_coverage_context demo_sweep_store ''s'' = Some ctx" "ccx_hot ctx" using demo_sweep_reads(3) by blast
  then show ?thesis by (simp add: env_with_pair_def demo_sweep_reads paired_adjustment_def io_bind_def demo_sweep_env_def)
qed

lemma demo_sweep_env_of: "sweep_env_of sweep_node demo_backend [] demo_sweep_store ''e'' True None () = (Inr demo_sweep_env, ())"
proof -
  have ins: "map previous_output (tx_input (demo_tx_on [9] 99000)) = [\<lparr>op_txid = [9], op_vout = 0\<rparr>]"
    by (simp add: demo_tx_on_def demo_in_def)
  show ?thesis
    by (simp add: sweep_env_of_def demo_sweep_reads ins demo_tx_input(1) demo_in_def demo_sweep_chain io_bind_def io_map_err_def Let_def demo_env_with_pair
        sweep_node_reads demo_params_def protected_before_pair_def sat_simps)
qed

lemma demo_sweep_vsizes: "vsizes_of sweep_node [demo_tx_on [9] 99000, demo_tx_on [9] 98000] = Inr [113, 113]"
  by (simp add: maximum_finalized_vsize_def maximum_finalized_vsize_for_def sweep_node_reads sweep_tx_reads tx_shape_weight_def demo_tx_on_def demo_in_def sat_simps)

lemma demo_escape_script: "derives_within demo_api 3 [3, 0] 2"
  by (simp add: derives_within_def demo_api_def)

lemma demo_sweep_admissible:
  "sweep_rung_admissible sweep_node demo_sweep_env (demo_tx_on [9] 99000) 113 = Inr ()"
  "sweep_rung_admissible sweep_node demo_sweep_env (demo_tx_on [9] 98000) 113 = Inr ()"
  by (simp_all add: sweep_rung_admissible_def demo_sweep_env_def demo_tx_on_def demo_in_def expected_escape_sequence_def
      ESCAPE_RBF_SEQUENCE_def rung_fee_def sat_sum64_def sat_outputs_def sweep_node_reads demo_params_def demo_escape_script sat_simps)

definition demo_sweep_ladder :: scored_ladder where
  "demo_sweep_ladder = \<lparr>sl_rungs = [demo_tx_on [9] 99000, demo_tx_on [9] 98000], sl_maximum_vsizes = [113, 113],
     sl_admissible = [Inr (), Inr ()], sl_total_in = 100000\<rparr>"

lemma demo_target: "escape_bump_target_feerate demo_backend () = (Inr (Some 10), ())"
  by (simp add: escape_bump_target_feerate_def demo_backend_def io_bind_def FEE_TARGET_STEP_SAT_VB_def Let_def)

lemma demo_sweep_select:
  "select_escape_rung sweep_node demo_backend demo_sweep_store ''e'' demo_sweep_ladder () = (Inr (1, 10, 10), ())"
proof -
  have r: "reaches demo_sweep_ladder 0 10 = False" "reaches demo_sweep_ladder (Suc 0) 10 = True"
    by (simp_all add: reaches_def demo_sweep_ladder_def demo_tx_on_def sat_sum64_def sat_simps)
  have ok: "rung_ok demo_sweep_ladder 0" "rung_ok demo_sweep_ladder (Suc 0)" by (simp_all add: rung_ok_def demo_sweep_ladder_def)
  have len: "length (sl_rungs demo_sweep_ladder) = 2" "length (sl_admissible demo_sweep_ladder) = 2" by (simp_all add: demo_sweep_ladder_def)
  have n: "needed_rung demo_sweep_ladder 10 = 1" by (simp add: needed_rung_def len r upt_rec Let_def)
  have "rung_choice demo_sweep_ladder 10 = Some 1" by (simp add: rung_choice_def len ok n upt_rec Let_def)
  then show ?thesis
    by (simp add: select_escape_rung_def len demo_target sweep_node_reads demo_sweep_reads(5)) (simp add: demo_sweep_ladder_def)
qed

definition demo_sweep_latched :: partial_store where
  "demo_sweep_latched = demo_sweep_store\<lparr>candidates := hm_insert ''e'' (latched 1 0 demo_sweep_cand) (candidates demo_sweep_store)\<rparr>"

lemma demo_sweep_cand_at: "hm_get (candidates demo_sweep_store) ''e'' = Some demo_sweep_cand"
  by (simp add: demo_sweep_store_def hm_get_def)

lemma demo_sweep_preflight:
  "escape_sweep_pre_release_admissible sweep_node demo_backend [] demo_sweep_store ''e'' () =
     (Inr (demo_sweep_latched, \<lparr>tc_resident_rung = None, tc_env = demo_sweep_env\<rparr>), ())"
proof -
  have res: "mempool_escape_rung sweep_node demo_backend demo_sweep_store ''e'' () = (Inr None, ())"
    by (simp add: mempool_escape_rung_def demo_sweep_reads Let_def io_bind_def io_map_err_def demo_sweep_chain)
  have tot: "se_total_in demo_sweep_env = 100000" by (simp add: demo_sweep_env_def)
  have pkg: "assemble_package demo_backend sweep_tx_api (demo_tx_on [9] 98000) [] () = (Inr [[9]], ())"
    by (simp add: assemble_package_def io_bind_def demo_tx_input unconfirmed_parent_def demo_in_def demo_backend_reads sweep_tx_reads Let_def)
  have latch: "latch_escape_rung demo_sweep_store ''e'' 1 0 = (demo_sweep_latched, Some 1)"
    by (simp add: latch_escape_rung_def demo_sweep_cand_at demo_sweep_latched_def authorized_rung_def latched_def demo_sweep_cand_def
        demo_cand_escape_def)
  show ?thesis
    by (simp add: escape_sweep_pre_release_admissible_def demo_sweep_reads(1) io_bind_def [of "io_map_err f m" for f m] io_map_err_def res
        io_bind_def [of "sweep_env_of a b c d e f g" for a b c d e f g] demo_sweep_env_of io_bind_def [of "Pair x" for x] demo_sweep_vsizes
        demo_sweep_admissible Let_def tot demo_sweep_select [unfolded demo_sweep_ladder_def] io_bind_def assemble_escape_package_def
        sweep_node_reads pkg lowest_admissible_def latch [unfolded One_nat_def] del: vsizes_of.simps)
qed

lemma demo_sweep_ladder_accepted: "ensure_escape_ladder sweep_node (demo_sweep_psbt 99000) [demo_sweep_psbt 98000] False = Inr ()"
  by (simp add: ensure_escape_ladder_def rung_shape_def demo_sweep_psbt_def demo_tx_on_def demo_in_def expected_escape_sequence_def
      ESCAPE_RBF_SEQUENCE_def psbt_fee_def rung_inputs_def rung_scripts_def rung_values_def sat_sum64_def
      maximum_finalized_vsize_def maximum_finalized_vsize_for_def sweep_node_reads sweep_tx_reads tx_shape_weight_def ESCAPE_RBF_INCREMENTAL_RELAY_SAT_VB_def
      MAX_SUPPORTED_INCREMENTAL_RELAY_SAT_KVB_def sat_simps)

lemma demo_sweep_release:
  "\<exists>st2 rel p. release_partials demo_sig demo_text (demo_env 0) demo_sweep_latched ''e'' 12 = (st2, Some rel) \<and> p \<in> set (rel_payloads rel) \<and>
     pl_txid p = ta_txid_to_string demo_text [word_of_nat 98000]"
proof -
  define c where "c = latched 1 0 demo_sweep_cand"
  have at: "hm_get (candidates demo_sweep_latched) ''e'' = Some c" by (simp add: demo_sweep_latched_def hm_simps c_def)
  have slot: "slot_active demo_sweep_latched c" "active (armed demo_sweep_latched)" "\<not> hot c" "role c = RoleEscape"
    "fire c = Some \<lparr>fire_at = 10, fw_deadline = 15\<rparr>"
    by (simp_all add: slot_active_def demo_sweep_latched_def demo_sweep_store_def demo_confirmed_def c_def latched_def demo_sweep_cand_def
        demo_cand_escape_def Let_def)
  have vs: "variants c = [demo_sweep_variant 99000, demo_sweep_variant 98000]"
    by (simp add: variants_def c_def latched_def demo_sweep_cand_def demo_cand_escape_def Let_def)
  have fl: "release_floor c = 0" "authorized_rung c = 1" "released_through c = None"
    by (simp_all add: release_floor_def authorized_rung_def c_def latched_def demo_sweep_cand_def demo_cand_escape_def Let_def)
  have ins: "length (psbt_inputs (sv_psbt (demo_sweep_variant v))) = 1" for v
    by (simp add: demo_sweep_variant_def demo_sweep_psbt_def)
  have rel: "releasable_rung (demo_env 0) c = 1" "first_rung c = 0"
    by (simp_all add: releasable_rung_def quota_rung_cap_def first_rung_def fl vs ins Let_def demo_env_def RELEASE_QUOTA_HEADROOM_def sat_simps)
  let ?pay = "variant_payloads demo_sig demo_text (demo_env 0) [2] ''e'' RoleEscape"
  have key: "mn_signing_pubkey (ce_nodes (demo_env 0) ! 0) = [2]" "unat (ce_node_id (demo_env 0)) = 0"
    "\<not> length (ce_nodes (demo_env 0)) \<le> unat (ce_node_id (demo_env 0))" by (simp_all add: demo_env_def)
  have out: "\<exists>st2. release_partials demo_sig demo_text (demo_env 0) demo_sweep_latched ''e'' 12 =
      (st2, Some \<lparr>rel_payloads = ?pay (demo_sweep_variant 99000) @ ?pay (demo_sweep_variant 98000), rel_deadline = 15\<rparr>)"
    by (simp add: release_partials_def at slot rel vs is_open_def key sat_simps Let_def)
  have "payload_of demo_sig demo_text (demo_env 0) ''e'' RoleEscape (demo_sweep_variant 98000) 0 \<lparr>signature = [2], sig_sighash_type = 1\<rparr>
      \<in> set (?pay (demo_sweep_variant 98000))"
    by (simp only: mem_variant_payloads, intro exI conjI [rotated], rule refl)
       (simp_all add: demo_sweep_variant_def demo_sweep_psbt_def hm_get_def)
  moreover have "pl_txid (payload_of demo_sig demo_text (demo_env 0) ''e'' RoleEscape (demo_sweep_variant 98000) 0 sig) =
      ta_txid_to_string demo_text [word_of_nat 98000]" for sig by (simp add: payload_of_def demo_sweep_variant_def)
  ultimately show ?thesis using out by fastforce
qed

theorem preflight_releases_only_admissible_witness:
  "\<exists>r v vsize. variant demo_sweep_cand r = Some v \<and>
    ta_txid_to_string demo_text [word_of_nat 98000] = ta_txid_to_string demo_text (unsigned_txid v) \<and>
    maximum_finalized_vsize sweep_node (unsigned_tx (sv_psbt v)) = Some vsize \<and>
    sweep_rung_admissible sweep_node demo_sweep_env (unsigned_tx (sv_psbt v)) vsize = Inr ()"
proof -
  obtain st2 rel p where r: "release_partials demo_sig demo_text (demo_env 0) demo_sweep_latched ''e'' 12 = (st2, Some rel)"
      "p \<in> set (rel_payloads rel)" "pl_txid p = ta_txid_to_string demo_text [word_of_nat 98000]"
    using demo_sweep_release by blast
  have vs: "map (\<lambda>v. unsigned_tx (sv_psbt v)) (variants demo_sweep_cand) =
      map unsigned_tx (demo_sweep_psbt 99000 # [demo_sweep_psbt 98000])"
    by (simp add: variants_def demo_sweep_cand_def demo_cand_escape_def demo_sweep_variant_def)
  have un: "list_all unsigned (map unsigned_tx (demo_sweep_psbt 99000 # [demo_sweep_psbt 98000]))"
    by (simp add: unsigned_def demo_sweep_psbt_def demo_tx_on_def demo_in_def)
  have wt: "weight_by_shape (nd_tx sweep_node)" by (simp add: sweep_node_reads tx_shape_weight_by_shape)
  from preflight_releases_only_admissible [OF demo_sweep_preflight demo_sweep_cand_at demo_sweep_ladder_accepted vs un wt r(1,2)] r(3)
  show ?thesis by simp
qed

theorem select_escape_rung_spec_witness:
  "select_escape_rung sweep_node demo_backend demo_sweep_store ''e'' demo_sweep_ladder () = (Inr (1, 10, 10), ()) \<and>
   best_rung demo_sweep_ladder 10 = Some 1"
proof -
  have len: "1 < length (sl_rungs demo_sweep_ladder)" by (simp add: demo_sweep_ladder_def)
  have req: "10 = max 10 (nd_escape_feerate_floor sweep_node)" by (simp add: sweep_node_reads)
  from select_escape_rung_spec [OF len demo_target req demo_sweep_reads(5)] demo_sweep_select show ?thesis
    by (auto simp: Let_def max_def split: option.splits if_splits)
qed

end
