(* ===== verification/Fire_Loop.thy ===== *)
theory Fire_Loop
  imports Escape_Sweep
begin

text \<open>
  The fire loop of \<open>crates/vault-node/src/lib.rs\<close>: one pass prunes the store, polls the Lockdown deadline,
  collects the candidates that are due, preflights the armed escape, releases this node's partials, and then
  settles, combines and broadcasts. \<open>fire_state\<close> is the part of the node the pass changes: the candidate
  store and the pending log behind the sign lock. What the loop prints about a candidate is its
  \<open>fire_outcome\<close>. The two clock readings of a candidate (at the combine and at the last authorization) are
  arguments, and so is every answer of the chain backend. A pass in the theory runs without other threads in
  between; the theorems about one candidate hold for every store it starts from.
\<close>

record fire_state =
  fs_store :: partial_store
  fs_pending :: pending_log

datatype broadcast_outcome = BoSent txid | BoAlreadySettled txid

datatype fire_outcome =
    FoGone
  | FoConfirmed txid bool
  | FoInMempool
  | FoUnreadable
  | FoSettled txid
  | FoInadmissible sweep_error
  | FoNotCombined
  | FoSent finalized_candidate txid
  | FoAlreadySettled txid
  | FoNotSent chain_error

subsection \<open>Settlement\<close>

text \<open>\<open>PendingLog::remove\<close> on each id in turn, and whether any was present.\<close>

definition drop_pending :: "string list \<Rightarrow> pending_log \<Rightarrow> pending_log \<times> bool" where
  "drop_pending ks log = fold (\<lambda>k (p, any). let (p', was) = pending_remove p k in (p', any \<or> was)) ks (log, False)"

definition pair_ids :: "partial_store \<Rightarrow> string \<Rightarrow> string list" where
  "pair_ids st cid = (case pairing st cid of None \<Rightarrow> [] | Some p \<Rightarrow> [snd p])"

definition settle_candidate :: "string \<Rightarrow> fire_state \<Rightarrow> fire_state" where
  "settle_candidate cid fs =
     (let paired = pair_ids (fs_store fs) cid;
          (st1, invalidated_hot) = mark_broadcast (fs_store fs) cid
      in \<lparr>fs_store = st1, fs_pending = fst (drop_pending (cid # paired @ invalidated_hot) (fs_pending fs))\<rparr>)"

definition confirm_escape :: "string \<Rightarrow> txid \<Rightarrow> fire_state \<Rightarrow> fire_state \<times> fire_outcome" where
  "confirm_escape cid t fs =
     (let paired = pair_ids (fs_store fs) cid;
          (st1, invalidated_hot) = invalidate_hot_conflicts (fs_store fs) cid;
          (p, first_confirmation) = drop_pending (cid # paired @ invalidated_hot) (fs_pending fs)
      in (\<lparr>fs_store = st1, fs_pending = p\<rparr>, FoConfirmed t first_confirmation))"

subsection \<open>Broadcast\<close>

text \<open>The send under the last authorization; a refused send may still be a settled one.\<close>

definition send_authorized ::
  "'d node \<Rightarrow> 'w chain_backend \<Rightarrow> partial_store \<Rightarrow> string \<Rightarrow> transaction \<Rightarrow> u64 \<Rightarrow> ('w, chain_error, broadcast_outcome) chain_io" where
  "send_authorized node be st cid tx now w =
     (case with_broadcast_authorization st cid now (\<lambda>_. b_broadcast be (tx_serialize (nd_tx node) tx) w) of
        Inl _ \<Rightarrow> (Err BroadcastClosed, w)
      | Inr (Inr sent, w1) \<Rightarrow> (Ok (BoSent sent), w1)
      | Inr (Inl e, w1) \<Rightarrow>
          (case transaction_is_settled be (sa_txid (nd_sig node) tx) w1 of
             (Inr True, w2) \<Rightarrow> (Ok (BoAlreadySettled (sa_txid (nd_sig node) tx)), w2)
           | (_, w2) \<Rightarrow> (Err e, w2)))"

definition broadcast_package ::
  "'d node \<Rightarrow> 'w chain_backend \<Rightarrow> txid list \<Rightarrow> partial_store \<Rightarrow> string \<Rightarrow> finalized_candidate \<Rightarrow> transaction option \<Rightarrow> u64
    \<Rightarrow> ('w, chain_error, broadcast_outcome) chain_io" where
  "broadcast_package node be authorized st cid finalized resident_rung now =
     (let tx = fc_tx finalized; t = sa_txid (nd_sig node) tx in
      io_bind (transaction_is_settled be t) (\<lambda>settled.
      if settled then io_return (BoAlreadySettled t)
      else io_bind (if is_armed_escape st cid then assemble_escape_package be (nd_tx node) tx resident_rung authorized
                    else assemble_package be (nd_tx node) tx authorized) (\<lambda>package.
      io_bind (b_test_package_accept be package) (\<lambda>verdict.
      if verdict = PackageRejected then io_fail PackageRefused
      else send_authorized node be st cid tx now))))"

subsection \<open>One candidate\<close>

text \<open>The network's word first; \<open>Inr\<close> continues to the combine.\<close>

definition check_settled ::
  "'d node \<Rightarrow> 'w chain_backend \<Rightarrow> escape_sweep_tick_context option \<Rightarrow> string \<Rightarrow> txid \<Rightarrow> fire_state
    \<Rightarrow> ('w, fire_state \<times> fire_outcome, unit) chain_io" where
  "check_settled node be ctx cid base_txid fs w =
     (let st = fs_store fs in
      if is_armed_escape st cid
      then let rung_txids = (case candidate_rung_txids st cid of None \<Rightarrow> [base_txid] | Some ts \<Rightarrow> ts);
               latch = (case escape_rung st cid of None \<Rightarrow> 0 | Some r \<Rightarrow> r)
           in (case armed_escape_network_state (sa_txid (nd_sig node)) be rung_txids latch (Option.bind ctx tc_resident_rung) w of
                 (Inl _, w1) \<Rightarrow> (Err (fs, FoUnreadable), w1)
               | (Inr (EscapeConfirmed t), w1) \<Rightarrow> (Err (confirm_escape cid t fs), w1)
               | (Inr InMempoolAtOrAboveLatch, w1) \<Rightarrow> (Err (fs, FoInMempool), w1)
               | (Inr EscapeAbsent, w1) \<Rightarrow> (Ok (), w1))
      else (case transaction_is_settled be base_txid w of
              (Inl _, w1) \<Rightarrow> (Err (fs, FoUnreadable), w1)
            | (Inr True, w1) \<Rightarrow> (Err (settle_candidate cid fs, FoSettled base_txid), w1)
            | (Inr False, w1) \<Rightarrow> (Ok (), w1)))"

definition sweep_context ::
  "'d node \<Rightarrow> 'w chain_backend \<Rightarrow> txid list \<Rightarrow> escape_sweep_tick_context option \<Rightarrow> string \<Rightarrow> partial_store
    \<Rightarrow> ('w, sweep_error, partial_store \<times> escape_sweep_tick_context option) chain_io" where
  "sweep_context node be authorized ctx cid st =
     (case ctx of
        Some c \<Rightarrow> io_return (st, Some c)
      | None \<Rightarrow>
          if is_armed_escape st cid
          then io_bind (escape_sweep_pre_release_admissible node be authorized st cid) (\<lambda>r. io_return (fst r, Some (snd r)))
          else io_return (st, None))"

text \<open>The last look at a combined sweep, at the size it really has.\<close>

definition combined_admissible ::
  "'d node \<Rightarrow> bool \<Rightarrow> escape_sweep_tick_context option \<Rightarrow> transaction \<Rightarrow> sweep_error + unit" where
  "combined_admissible node armed_escape ctx tx =
     (if \<not> armed_escape then Ok ()
      else (case ctx of
              None \<Rightarrow> Err ContextUnavailable
            | Some c \<Rightarrow> sweep_rung_admissible node (tc_env c) tx (tx_vsize (nd_tx node) tx)))"

definition finalize_and_send ::
  "'d node \<Rightarrow> 'w chain_backend \<Rightarrow> txid list \<Rightarrow> bool \<Rightarrow> escape_sweep_tick_context option \<Rightarrow> u64 \<times> u64 \<Rightarrow> string
    \<Rightarrow> fire_state \<Rightarrow> 'w \<Rightarrow> (fire_state \<times> fire_outcome) \<times> 'w" where
  "finalize_and_send node be authorized armed_escape ctx clock cid fs w =
     (case try_finalize (nd_finalize node) (nd_env node) (fs_store fs) cid (nd_threshold node) (fst clock) of
        None \<Rightarrow> ((fs, FoNotCombined), w)
      | Some finalized \<Rightarrow>
          (case combined_admissible node armed_escape ctx (fc_tx finalized) of
             Inl e \<Rightarrow> ((fs, FoInadmissible e), w)
           | Inr _ \<Rightarrow>
               (case broadcast_package node be authorized (fs_store fs) cid finalized (Option.bind ctx tc_resident_rung) (snd clock) w of
                  (Inl e, w1) \<Rightarrow> ((fs, FoNotSent e), w1)
                | (Inr out, w1) \<Rightarrow>
                    ((if armed_escape then fs else settle_candidate cid fs,
                      case out of BoSent t \<Rightarrow> FoSent finalized t | BoAlreadySettled t \<Rightarrow> FoAlreadySettled t), w1))))"

definition combine_one ::
  "'d node \<Rightarrow> 'w chain_backend \<Rightarrow> txid list \<Rightarrow> (string, escape_sweep_tick_context) hmap \<Rightarrow> u64 \<times> u64 \<Rightarrow> string \<Rightarrow> fire_state
    \<Rightarrow> 'w \<Rightarrow> (fire_state \<times> fire_outcome) \<times> 'w" where
  "combine_one node be authorized contexts clock cid fs w =
     (case candidate_txid (fs_store fs) cid of
        None \<Rightarrow> ((fs, FoGone), w)
      | Some base_txid \<Rightarrow>
          let armed_escape = is_armed_escape (fs_store fs) cid; ctx0 = hm_get contexts cid in
          (case check_settled node be ctx0 cid base_txid fs w of
             (Inl done, w1) \<Rightarrow> (done, w1)
           | (Inr _, w1) \<Rightarrow>
               (case sweep_context node be authorized ctx0 cid (fs_store fs) w1 of
                  (Inl e, w2) \<Rightarrow> ((fs, FoInadmissible e), w2)
                | (Inr (st1, ctx), w2) \<Rightarrow> finalize_and_send node be authorized armed_escape ctx clock cid (fs\<lparr>fs_store := st1\<rparr>) w2)))"

fun combine_and_broadcast ::
  "'d node \<Rightarrow> 'w chain_backend \<Rightarrow> txid list \<Rightarrow> (string, escape_sweep_tick_context) hmap \<Rightarrow> (string \<Rightarrow> u64 \<times> u64) \<Rightarrow> string list
    \<Rightarrow> fire_state \<Rightarrow> 'w \<Rightarrow> (fire_state \<times> (string \<times> fire_outcome) list) \<times> 'w" where
  "combine_and_broadcast node be authorized contexts clock [] fs w = ((fs, []), w)"
| "combine_and_broadcast node be authorized contexts clock (cid # due_ids) fs w =
     (let ((fs1, out), w1) = combine_one node be authorized contexts (clock cid) cid fs w;
          ((fs2, outs), w2) = combine_and_broadcast node be authorized contexts clock due_ids fs1 w1
      in ((fs2, (cid, out) # outs), w2))"

fun is_sent :: "fire_outcome \<Rightarrow> bool" where
  "is_sent (FoSent _ _) = True"
| "is_sent _ = False"

subsection \<open>The pass\<close>

fun preflight_all ::
  "'d node \<Rightarrow> 'w chain_backend \<Rightarrow> txid list \<Rightarrow> string list \<Rightarrow> partial_store \<Rightarrow> 'w
    \<Rightarrow> (partial_store \<times> (string, escape_sweep_tick_context) hmap) \<times> 'w" where
  "preflight_all node be authorized [] st w = ((st, []), w)"
| "preflight_all node be authorized (cid # due_ids) st w =
     (if \<not> is_armed_escape st cid then preflight_all node be authorized due_ids st w
      else (case escape_sweep_pre_release_admissible node be authorized st cid w of
              (Inl _, w1) \<Rightarrow> preflight_all node be authorized due_ids st w1
            | (Inr (st1, ctx), w1) \<Rightarrow>
                let ((st2, ctxs), w2) = preflight_all node be authorized due_ids st1 w1 in ((st2, (cid, ctx) # ctxs), w2)))"

fun release_all ::
  "'d node \<Rightarrow> (string, escape_sweep_tick_context) hmap \<Rightarrow> u64 \<Rightarrow> string list \<Rightarrow> partial_store \<Rightarrow> partial_store \<times> (string \<times> release) list" where
  "release_all node contexts release_now [] st = (st, [])"
| "release_all node contexts release_now (cid # due_ids) st =
     (if is_armed_escape st cid \<and> \<not> hm_contains contexts cid then release_all node contexts release_now due_ids st
      else (case release_partials (nd_sig node) (nd_text node) (nd_env node) st cid release_now of
              (st1, None) \<Rightarrow> release_all node contexts release_now due_ids st1
            | (st1, Some r) \<Rightarrow> let (st2, rs) = release_all node contexts release_now due_ids st1 in (st2, (cid, r) # rs)))"

record fire_clock =
  fk_due_now :: u64
  fk_mono_now :: u64
  fk_release_now :: u64
  fk_combine :: "string \<Rightarrow> u64 \<times> u64"

definition fire_due :: "partial_store \<Rightarrow> pending_log \<Rightarrow> u64 \<Rightarrow> string list" where
  "fire_due st pending now =
     remdups_adj (sort (due_for_fire st now @ filter (\<lambda>cid. fire_settlement_pollable st cid now) (pending_ids pending now)))"

text \<open>
  The body of a pass on live locks: the partials that leave, the outcomes, the node afterwards. A poisoned store
  panics at once; a poisoned sign lock panics after the prune, at the latest when the pending log is read.
\<close>

definition fire_tick ::
  "'d node \<Rightarrow> 'w chain_backend \<Rightarrow> bool \<Rightarrow> fire_clock \<Rightarrow> node_state \<Rightarrow> 'w
    \<Rightarrow> (node_state \<times> ((string \<times> release) list \<times> (string \<times> fire_outcome) list) option) \<times> 'w" where
  "fire_tick node be persisted clock ns w =
     (case ns_channel ns of
        None \<Rightarrow> ((ns, Some ([], [])), w)
      | Some ch \<Rightarrow>
          if ns_store_poisoned ns then ((ns, None), w)
          else let st0 = prune_store (ch_store ch) (fk_due_now clock) (fk_mono_now clock);
                   ns1 = set_store st0 ns in
            (case lockdown_tick persisted (fk_due_now clock) ns1 of
               None \<Rightarrow> ((ns1, None), w)
             | Some (ns2, _) \<Rightarrow>
                 if ns_sign_poisoned ns2 then ((ns2, None), w)
                 else let due_ids = fire_due st0 (ss_pending (ns_sign ns2)) (fk_due_now clock);
                          ((st1, contexts), w1) = preflight_all node be (ns_authorized ns2) due_ids st0 w;
                          (st2, releases) = release_all node contexts (fk_release_now clock) due_ids st1;
                          ((fs, outs), w2) = combine_and_broadcast node be (ns_authorized ns2) contexts (fk_combine clock) due_ids
                             \<lparr>fs_store = st2, fs_pending = ss_pending (ns_sign ns2)\<rparr> w1
                      in ((set_store (fs_store fs) (ns2\<lparr>ns_sign := (ns_sign ns2)\<lparr>ss_pending := fs_pending fs\<rparr>\<rparr>), Some (releases, outs)), w2)))"

definition fire_tick_with_lockdown_net ::
  "'d node \<Rightarrow> 'w chain_backend \<Rightarrow> bool \<Rightarrow> fire_clock \<Rightarrow> node_state \<Rightarrow> 'w \<Rightarrow> (node_state \<times> nat) \<times> 'w" where
  "fire_tick_with_lockdown_net node be persisted clock ns w =
     (if ns_lockdown ns \<and> critical_lock_poisoned ns then ((ns, 0), w)
      else let ((ns1, r), w1) = fire_tick node be persisted clock ns w;
               sent = (case r of None \<Rightarrow> 0 | Some (_, outs) \<Rightarrow> length (filter (\<lambda>x. is_sent (snd x)) outs))
           in ((if critical_lock_poisoned ns1 then latch_lockdown persisted ns1 else ns1, sent), w1))"

subsection \<open>The pass is an execution of the channel\<close>

definition store_runs :: "'d node \<Rightarrow> partial_store \<Rightarrow> partial_store \<Rightarrow> bool" where
  "store_runs node st st' \<longleftrightarrow> (\<exists>ops. st' = channel_run (channel_of node) ops st)"

lemma store_runs_refl [simp]: "store_runs node st st"
  by (auto simp: store_runs_def channel_run_def intro: exI [of _ "[]"])

lemma store_runs_trans: "store_runs node a b \<Longrightarrow> store_runs node b c \<Longrightarrow> store_runs node a c"
proof -
  assume "store_runs node a b" "store_runs node b c"
  then obtain p q where "b = channel_run (channel_of node) p a" "c = channel_run (channel_of node) q b" by (auto simp: store_runs_def)
  then have "c = channel_run (channel_of node) (p @ q) a" by (simp add: channel_run_def)
  then show ?thesis by (auto simp: store_runs_def)
qed

lemma store_runs_op: "st' = channel_next (channel_of node) op st \<Longrightarrow> store_runs node st st'"
  unfolding store_runs_def by (rule exI [of _ "[op]"]) (simp add: channel_run_def)

text \<open>The operations a pass makes on the store: no registration, no confirmation, no peer's share. \<open>pass_runs\<close>
  relates the stores of one pass, in the order in which the pass goes through them.\<close>

fun pass_op :: "channel_op \<Rightarrow> bool" where
  "pass_op (OpPruneStore _ _) = True"
| "pass_op (OpLatchRung _ _ _) = True"
| "pass_op (OpReleasePartials _ _) = True"
| "pass_op (OpInvalidateConflicts _) = True"
| "pass_op (OpMarkBroadcast _) = True"
| "pass_op _ = False"

definition pass_runs :: "'d node \<Rightarrow> partial_store \<Rightarrow> partial_store \<Rightarrow> bool" where
  "pass_runs node st st' \<longleftrightarrow> (\<exists>ops. list_all pass_op ops \<and> st' = channel_run (channel_of node) ops st)"

lemma pass_runs_refl [simp]: "pass_runs node st st"
  by (auto simp: pass_runs_def channel_run_def intro: exI [of _ "[]"])

lemma pass_runs_trans: "pass_runs node a b \<Longrightarrow> pass_runs node b c \<Longrightarrow> pass_runs node a c"
proof -
  assume "pass_runs node a b" "pass_runs node b c"
  then obtain p q where "list_all pass_op (p @ q)" "b = channel_run (channel_of node) p a" "c = channel_run (channel_of node) q b"
    by (auto simp: pass_runs_def)
  then have "list_all pass_op (p @ q) \<and> c = channel_run (channel_of node) (p @ q) a" by (simp add: channel_run_def)
  then show ?thesis unfolding pass_runs_def by blast
qed

lemma pass_runs_op: "st' = channel_next (channel_of node) op st \<Longrightarrow> pass_op op \<Longrightarrow> pass_runs node st st'"
  unfolding pass_runs_def by (rule exI [of _ "[op]"]) (simp add: channel_run_def)

lemma pass_runs_store: "pass_runs node a b \<Longrightarrow> store_runs node a b"
  by (auto simp: pass_runs_def store_runs_def)

lemma runs_mark_broadcast: "mark_broadcast st cid = (st', ids) \<Longrightarrow> pass_runs node st st'"
  by (rule pass_runs_op [of _ _ "OpMarkBroadcast cid"]) (simp_all add: channel_next_def)

lemma runs_invalidate: "invalidate_hot_conflicts st cid = (st', ids) \<Longrightarrow> pass_runs node st st'"
  by (rule pass_runs_op [of _ _ "OpInvalidateConflicts cid"]) (simp_all add: channel_next_def)

lemma runs_latch: "latch_escape_rung st cid r low = (st', x) \<Longrightarrow> pass_runs node st st'"
  by (rule pass_runs_op [of _ _ "OpLatchRung cid r low"]) (simp_all add: channel_next_def)

lemma runs_prune: "pass_runs node st (prune_store st now mono_now)"
  by (rule pass_runs_op [of _ _ "OpPruneStore now mono_now"]) (simp_all add: channel_next_def)

lemma runs_release:
  "release_partials (nd_sig node) (nd_text node) (nd_env node) st cid now = (st', r) \<Longrightarrow> pass_runs node st st'"
  by (rule pass_runs_op [of _ _ "OpReleasePartials cid now"]) (simp_all add: channel_next_def channel_of_def)

lemma runs_preflight:
  "escape_sweep_pre_release_admissible node be auth st cid w = (Inr (st', ctx), w') \<Longrightarrow> pass_runs node st st'"
  by (erule preflight_Ok) (rule runs_latch)

lemma runs_settle: "pass_runs node (fs_store fs) (fs_store (settle_candidate cid fs))"
  by (auto simp: settle_candidate_def Let_def split: prod.splits intro: runs_mark_broadcast)

lemma runs_confirm: "pass_runs node (fs_store fs) (fs_store (fst (confirm_escape cid t fs)))"
  by (auto simp: confirm_escape_def Let_def split: prod.splits intro: runs_invalidate)

text \<open>What a pass cannot change: the overlay stands still, no candidate appears, and a candidate that was sent
  before is never unsent.\<close>

lemma pass_next_armed: "pass_op op \<Longrightarrow> armed (channel_next m op st) = armed st"
  by (cases op) (auto simp: channel_next_def prune_store_def prune_def prune_carriers_def latch_escape_rung_def release_partials_def
      mark_broadcast_def invalidate_hot_conflicts_def Let_def split: option.splits if_splits prod.splits)

lemma pass_next_back:
  assumes "pass_op op" "hm_ok (candidates st)" "hm_get (candidates (channel_next m op st)) k = Some c'"
  shows "\<exists>c. hm_get (candidates st) k = Some c \<and> cand_le (cfg_sig m) True c c'"
proof -
  from assms(1) have "op_new m op = {}" by (cases op) simp_all
  with edit_get_back [OF edit_step [OF assms(2)] assms(2,3)] show ?thesis using cand_le_any by blast
qed

lemma pass_run_back:
  assumes "list_all pass_op ops" "hm_ok (candidates st)" "hm_get (candidates (channel_run m ops st)) k = Some c'"
  shows "(\<exists>c. hm_get (candidates st) k = Some c \<and> cand_le (cfg_sig m) True c c') \<and> armed (channel_run m ops st) = armed st"
  using assms
proof (induction ops arbitrary: st)
  case Nil
  then show ?case by (auto simp: channel_run_def)
next
  case (Cons op ops)
  from Cons.prems have op: "pass_op op" and ops: "list_all pass_op ops" by simp_all
  note ok = hm_ok_step [OF Cons.prems(2), of m op]
  from Cons.IH [OF ops ok] Cons.prems(3) obtain d where
    d: "hm_get (candidates (channel_next m op st)) k = Some d" "cand_le (cfg_sig m) True d c'"
    "armed (channel_run m ops (channel_next m op st)) = armed (channel_next m op st)"
    by (auto simp: channel_run_def)
  from pass_next_back [OF op Cons.prems(2) d(1)] d(2,3) pass_next_armed [OF op] show ?case
    by (auto simp: channel_run_def intro: cand_le_trans)
qed

lemma pass_runs_back:
  assumes "pass_runs node a b" "hm_ok (candidates a)" "hm_get (candidates b) k = Some c'"
  shows "(\<exists>c. hm_get (candidates a) k = Some c \<and> hot c = hot c' \<and> (broadcast c \<longrightarrow> broadcast c')) \<and> armed b = armed a"
proof -
  from assms(1) obtain ops where "list_all pass_op ops" "b = channel_run (channel_of node) ops a" by (auto simp: pass_runs_def)
  with pass_run_back [OF _ assms(2), of ops "channel_of node" k c'] assms(3) show ?thesis
    by (auto simp: cand_le_def cand_fixed_def cand_rises_def)
qed

lemma pass_runs_ok: "pass_runs node a b \<Longrightarrow> hm_ok (candidates a) \<Longrightarrow> hm_ok (candidates b)"
proof -
  assume "pass_runs node a b" "hm_ok (candidates a)"
  then obtain ops where "b = channel_run (channel_of node) ops a" by (auto simp: pass_runs_def)
  moreover have "hm_ok (candidates (channel_run (channel_of node) ops a))"
    using \<open>hm_ok (candidates a)\<close> by (induction ops arbitrary: a) (simp_all add: channel_run_def hm_ok_step)
  ultimately show ?thesis by simp
qed

text \<open>Once sent, a candidate that is still resident carries the mark.\<close>

definition spent_mark :: "partial_store \<Rightarrow> string \<Rightarrow> bool" where
  "spent_mark st cid \<longleftrightarrow> (\<forall>c. hm_get (candidates st) cid = Some c \<longrightarrow> broadcast c)"

lemma spent_mark_runs: "spent_mark a cid \<Longrightarrow> hm_ok (candidates a) \<Longrightarrow> pass_runs node a b \<Longrightarrow> spent_mark b cid"
  unfolding spent_mark_def using pass_runs_back by blast

lemma hm_ok_defeats: "hm_ok (candidates st) \<Longrightarrow> hm_ok (candidates (fst (invalidate_hot_conflicts st cid)))"
  using pass_runs_ok [OF runs_invalidate [of st cid "fst (invalidate_hot_conflicts st cid)" "snd (invalidate_hot_conflicts st cid)"]] by simp

lemma mark_broadcast_marks: "hm_ok (candidates st) \<Longrightarrow> spent_mark (fst (mark_broadcast st cid)) cid"
  using hm_ok_defeats [of st cid]
  by (auto simp: mark_broadcast_def spent_mark_def evict_def Let_def hm_simps split: prod.splits option.splits)

lemma settle_marks: "hm_ok (candidates (fs_store fs)) \<Longrightarrow> spent_mark (fs_store (settle_candidate cid fs)) cid"
  using mark_broadcast_marks [of "fs_store fs" cid] by (auto simp: settle_candidate_def Let_def split: prod.splits)

subsection \<open>The worlds of a pass\<close>

text \<open>One answered call of the chain backend; the worlds between two points of a pass are linked by such calls.\<close>

inductive backend_call :: "'w chain_backend \<Rightarrow> 'w \<Rightarrow> 'w \<Rightarrow> bool" for be where
  call_broadcast: "backend_call be w (snd (b_broadcast be raw w))"
| call_tip: "backend_call be w (snd (b_tip_height be w))"
| call_median: "backend_call be w (snd (b_block_median_feerate be h w))"
| call_prevout: "backend_call be w (snd (b_prevout be outp w))"
| call_prevouts: "backend_call be w (snd (b_prevouts be outps w))"
| call_unspent: "backend_call be w (snd (b_vault_unspent be scripts auth w))"
| call_mempool: "backend_call be w (snd (b_mempool_transaction be t w))"
| call_resident: "backend_call be w (snd (b_mempool_resident be ts w))"
| call_confirmed: "backend_call be w (snd (b_transaction_confirmed be t w))"
| call_accept: "backend_call be w (snd (b_test_package_accept be raws w))"

abbreviation world_runs :: "'w chain_backend \<Rightarrow> 'w \<Rightarrow> 'w \<Rightarrow> bool" where
  "world_runs be \<equiv> (backend_call be)\<^sup>*\<^sup>*"

text \<open>An action that reaches the world only through the backend.\<close>

definition calls_only :: "'w chain_backend \<Rightarrow> ('w \<Rightarrow> 'a \<times> 'w) \<Rightarrow> bool" where
  "calls_only be act \<longleftrightarrow> (\<forall>w. world_runs be w (snd (act w)))"

lemma calls_onlyD: "calls_only be act \<Longrightarrow> act w = (r, w') \<Longrightarrow> world_runs be w w'"
  unfolding calls_only_def by (metis snd_conv)

lemma calls_onlyI: "(\<And>w r w'. act w = (r, w') \<Longrightarrow> world_runs be w w') \<Longrightarrow> calls_only be act"
  unfolding calls_only_def by (metis prod.collapse)

lemma calls_backend [intro!]:
  "calls_only be (b_broadcast be raw)" "calls_only be (b_tip_height be)" "calls_only be (b_block_median_feerate be h)"
  "calls_only be (b_prevout be outp)" "calls_only be (b_prevouts be outps)" "calls_only be (b_vault_unspent be scripts auth)"
  "calls_only be (b_mempool_transaction be t)" "calls_only be (b_mempool_resident be ts)"
  "calls_only be (b_transaction_confirmed be t)" "calls_only be (b_test_package_accept be raws)"
  by (auto simp: calls_only_def intro: backend_call.intros)

lemma calls_pure [intro!]: "calls_only be (io_return a)" "calls_only be (io_fail e)" "calls_only be (Pair r)"
  by (simp_all add: calls_only_def)

lemma calls_bind [intro!]:
  assumes "calls_only be m" "\<And>a. calls_only be (f a)"
  shows "calls_only be (io_bind m f)"
proof (rule calls_onlyI)
  fix w r w' assume "io_bind m f w = (r, w')"
  then show "world_runs be w w'"
    using calls_onlyD [OF assms(1)] calls_onlyD [OF assms(2)]
    by (auto simp: io_bind_def split: prod.splits sum.splits) (meson rtranclp_trans)
qed

lemma calls_map_err [intro!]: "calls_only be m \<Longrightarrow> calls_only be (io_map_err g m)"
  by (auto intro!: calls_onlyI dest: calls_onlyD simp: io_map_err_def split: prod.splits sum.splits)

lemma calls_parent [intro!]: "calls_only be (unconfirmed_parent be u i)"
  unfolding unconfirmed_parent_def Let_def by (auto split: option.split)

lemma validate_world: "world_runs be w (snd (validate_ancestors be ta auth u ins seen w))"
proof (induction be ta auth u ins seen w rule: validate_ancestors.induct)
  case (1 be ta auth unspent seen w)
  then show ?case by simp
next
  case (2 be ta auth unspent input rest seen w)
  obtain r w1 where u: "unconfirmed_parent be unspent input w = (r, w1)" by fastforce
  note w1 = calls_onlyD [OF calls_parent u]
  show ?case
  proof (cases "\<exists>raw. r = Inr (Some raw)")
    case False
    with 2(1) [OF u [symmetric]] u w1 show ?thesis by (cases r) (auto intro: rtranclp_trans split: option.split)
  next
    case True
    then obtain raw where r: "r = Inr (Some raw)" by blast
    let ?p = "op_txid (previous_output input)"
    show ?thesis
    proof (cases "?p \<in> set auth \<and> ?p \<notin> set seen \<and> \<not> MAX_PACKAGE_ANCESTORS < length (?p # seen)")
      case False
      with 2(2) [OF u [symmetric] r refl refl] u r w1 show ?thesis by (auto simp: Let_def intro: rtranclp_trans)
    next
      case ok: True
      show ?thesis
      proof (cases "tx_deserialize ta raw")
        case None
        with u r ok w1 show ?thesis by (simp add: Let_def)
      next
        case (Some parent)
        obtain r2 w2 where v: "validate_ancestors be ta auth False (tx_input parent) (?p # seen) w1 = (r2, w2)" by fastforce
        have w2: "world_runs be w1 w2" using 2(3) [OF u [symmetric] r refl refl _ _ _ Some] ok v by simp
        show ?thesis using 2(4) [OF u [symmetric] r refl refl _ _ _ Some v [symmetric]] u r ok Some v w1 w2
          by (auto simp: Let_def intro: rtranclp_trans split: sum.split)
      qed
    qed
  qed
qed

lemma calls_assemble [intro!]: "calls_only be (assemble_package be ta tx auth)" "calls_only be (assemble_replacement_package be ta tx old auth)"
  "calls_only be (assemble_escape_package be ta tx res auth)"
proof -
  have v: "calls_only be (validate_ancestors be ta auth u ins seen)" for u ins seen by (simp add: calls_only_def validate_world)
  show a: "calls_only be (assemble_package be ta tx auth)" for tx unfolding assemble_package_def by (auto intro!: v)
  show b: "calls_only be (assemble_replacement_package be ta tx old auth)" for old
    unfolding assemble_replacement_package_def Let_def by (auto intro!: v split: option.split)
  show "calls_only be (assemble_escape_package be ta tx res auth)"
    unfolding assemble_escape_package_def by (auto intro!: a b split: option.split)
qed

lemma calls_settled [intro!]: "calls_only be (transaction_is_settled be t)"
  unfolding transaction_is_settled_def by auto

lemma calls_first_confirmed [intro!]: "calls_only be (first_confirmed be ts)"
  by (induction ts) auto

lemma calls_network_state [intro!]: "calls_only be (armed_escape_network_state f be ts latch res)"
  unfolding armed_escape_network_state_def by (auto split: option.split)

lemma calls_resident_rung [intro!]: "calls_only be (mempool_escape_rung node be st cid)"
  unfolding mempool_escape_rung_def Let_def by (auto split: option.split)

lemma calls_adjustment [intro!]: "calls_only be (paired_adjustment node desc be tx p v)"
  unfolding paired_adjustment_def Let_def by (auto split: option.split)

lemma calls_env [intro!]: "calls_only be (sweep_env_of node be auth st cid lad res)"
  unfolding sweep_env_of_def env_with_pair_def Let_def by (auto split: option.split)

lemma calls_target [intro!]: "calls_only be (escape_bump_target_feerate be)"
  unfolding escape_bump_target_feerate_def Let_def by auto

lemma calls_select [intro!]: "calls_only be (select_escape_rung node be st cid l)"
proof (rule calls_onlyI)
  fix w r w' assume "select_escape_rung node be st cid l w = (r, w')"
  moreover obtain q w1 where "escape_bump_target_feerate be w = (q, w1)" by fastforce
  moreover note calls_onlyD [OF calls_target this]
  ultimately show "world_runs be w w'"
    by (auto simp: select_escape_rung_def Let_def split: if_splits option.splits list.splits sum.splits)
qed

lemma calls_preflight [intro!]: "calls_only be (escape_sweep_pre_release_admissible node be auth st cid)"
  unfolding escape_sweep_pre_release_admissible_def Let_def by (auto split: option.split prod.split)

lemma calls_send [intro!]: "calls_only be (send_authorized node be st cid tx now)"
proof (rule calls_onlyI)
  fix w r w' assume r: "send_authorized node be st cid tx now w = (r, w')"
  obtain q w1 where b: "b_broadcast be (tx_serialize (nd_tx node) tx) w = (q, w1)" by fastforce
  obtain q2 w2 where s: "transaction_is_settled be (sa_txid (nd_sig node) tx) w1 = (q2, w2)" by fastforce
  have "w' = w \<or> w' = w1 \<or> w' = w2"
    using r b s by (cases "broadcast_authorization st cid now") (auto simp: send_authorized_def with_broadcast_authorization_def split: sum.splits bool.splits)
  moreover have "world_runs be w w1" "world_runs be w1 w2"
    using calls_onlyD [OF calls_backend(1) b] calls_onlyD [OF calls_settled s] by simp_all
  ultimately show "world_runs be w w'" by (auto intro: rtranclp_trans)
qed

lemma calls_package [intro!]: "calls_only be (broadcast_package node be auth st cid fin res now)"
  unfolding broadcast_package_def Let_def by auto

lemma calls_check [intro!]: "calls_only be (check_settled node be ctx cid t fs)"
proof (rule calls_onlyI)
  fix w r w' assume r: "check_settled node be ctx cid t fs w = (r, w')"
  show "world_runs be w w'"
  proof (cases "is_armed_escape (fs_store fs) cid")
    case True
    with r show ?thesis
      by (auto simp: check_settled_def Let_def dest!: calls_onlyD [OF calls_network_state] split: prod.splits sum.splits armed_escape_state.splits)
  next
    case False
    with r show ?thesis
      by (auto simp: check_settled_def Let_def dest!: calls_onlyD [OF calls_settled] split: prod.splits sum.splits bool.splits)
  qed
qed

lemma calls_context [intro!]: "calls_only be (sweep_context node be auth ctx cid st)"
  unfolding sweep_context_def by (auto split: option.split)

lemma calls_finalize [intro!]: "calls_only be (finalize_and_send node be auth ae ctx clk cid fs)"
  by (rule calls_onlyI)
    (auto simp: finalize_and_send_def dest!: calls_onlyD [OF calls_package] split: option.splits sum.splits prod.splits)

lemma calls_combine_one: "calls_only be (combine_one node be auth ctxs clk cid fs)"
proof (rule calls_onlyI)
  fix w r w' assume r: "combine_one node be auth ctxs clk cid fs w = (r, w')"
  show "world_runs be w w'"
  proof (cases "candidate_txid (fs_store fs) cid")
    case None
    with r show ?thesis by (simp add: combine_one_def)
  next
    case (Some t)
    obtain q w1 where a: "check_settled node be (hm_get ctxs cid) cid t fs w = (q, w1)" by fastforce
    obtain q2 w2 where b: "sweep_context node be auth (hm_get ctxs cid) cid (fs_store fs) w1 = (q2, w2)" by fastforce
    have "world_runs be w w1" "world_runs be w1 w2" using calls_onlyD [OF calls_check a] calls_onlyD [OF calls_context b] by simp_all
    with r Some a b show ?thesis
      by (auto simp: combine_one_def Let_def dest!: calls_onlyD [OF calls_finalize] split: sum.splits prod.splits
          intro: rtranclp_trans)
  qed
qed

subsection \<open>Sends\<close>

lemma check_settled_Err:
  assumes "check_settled node be ctx cid t fs w = (Inl (fs', out), w')"
  shows "pass_runs node (fs_store fs) (fs_store fs') \<and> \<not> is_sent out"
proof -
  have c: "confirm_escape cid u fs = (fs', out) \<Longrightarrow> pass_runs node (fs_store fs) (fs_store fs') \<and> \<not> is_sent out" for u
    using runs_confirm [of node fs cid u] by (auto simp: confirm_escape_def Let_def split: prod.splits)
  from assms show ?thesis
    by (auto simp: check_settled_def Let_def runs_settle dest: c
        split: if_split_asm prod.split_asm sum.split_asm bool.split_asm armed_escape_state.split_asm)
qed

lemma latch_keeps_armed: "latch_escape_rung st cid r low = (st', x) \<Longrightarrow> is_armed_escape st' cid = is_armed_escape st cid"
  by (auto simp: latch_escape_rung_def is_armed_escape_def hm_simps latched_def Let_def split: option.splits)

lemma preflight_keeps_armed:
  "escape_sweep_pre_release_admissible node be auth st cid w = (Inr (st', ctx), w') \<Longrightarrow> is_armed_escape st' cid = is_armed_escape st cid"
  by (erule preflight_Ok) (rule latch_keeps_armed)

text \<open>An environment this node measured in a pass, before the pass came to the store \<open>stop\<close>: the preflight of the
  candidate succeeded on a store and in a world the pass reached from its \<open>start\<close>.\<close>

definition measured ::
  "'d node \<Rightarrow> 'w chain_backend \<Rightarrow> txid list \<Rightarrow> string \<Rightarrow> partial_store \<times> 'w \<Rightarrow> partial_store \<Rightarrow> sweep_env \<Rightarrow> bool" where
  "measured node be authorized cid start stop env \<longleftrightarrow>
     (\<exists>sta stb ctx w0 w1. pass_runs node (fst start) sta \<and> world_runs be (snd start) w0 \<and>
        escape_sweep_pre_release_admissible node be authorized sta cid w0 = (Inr (stb, ctx), w1) \<and> tc_env ctx = env \<and>
        pass_runs node stb stop)"

lemma measuredI:
  assumes "escape_sweep_pre_release_admissible node be auth sta cid w0 = (Inr (stb, ctx), w1)"
    and "pass_runs node a sta" and "world_runs be t w0" and "pass_runs node stb d"
  shows "measured node be auth cid (a, t) d (tc_env ctx)"
  unfolding measured_def using assms
  by (intro exI [of _ sta] exI [of _ stb] exI [of _ ctx] exI [of _ w0] exI [of _ w1]) simp

lemma measured_widen:
  assumes "measured node be auth cid (b, u) c env" "pass_runs node a b" "world_runs be t u" "pass_runs node c d"
  shows "measured node be auth cid (a, t) d env"
proof -
  from assms(1) obtain sta stb ctx w0 w1 where m: "escape_sweep_pre_release_admissible node be auth sta cid w0 = (Inr (stb, ctx), w1)"
    "pass_runs node b sta" "world_runs be u w0" "pass_runs node stb c" "tc_env ctx = env" by (auto simp: measured_def)
  from measuredI [OF m(1) pass_runs_trans [OF assms(2) m(2)] rtranclp_trans [OF assms(3) m(3)] pass_runs_trans [OF m(4) assms(4)]] m(5)
  show ?thesis by simp
qed

lemma measured_later: "measured node be auth cid start c env \<Longrightarrow> pass_runs node c d \<Longrightarrow> measured node be auth cid start d env"
  using measured_widen [of node be auth cid "fst start" "snd start" c env "fst start" "snd start" d] by simp

lemma preflight_measured:
  assumes "escape_sweep_pre_release_admissible node be auth st cid w = (Inr (st', ctx), w')"
  shows "measured node be auth cid (st, w) st' (tc_env ctx)"
  by (rule measuredI [OF assms]) simp_all

lemma sweep_context_Ok:
  assumes "sweep_context node be auth ctx0 cid st w = (Inr (st1, ctx), w')"
  shows "pass_runs node st st1" "is_armed_escape st1 cid = is_armed_escape st cid"
    "\<forall>c. ctx = Some c \<longrightarrow> ctx0 = Some c \<or> measured node be auth cid (st, w) st1 (tc_env c)"
  using assms by (auto simp: sweep_context_def io_bind_Ok_iff preflight_keeps_armed split: option.split_asm if_split_asm
      intro: runs_preflight preflight_measured)

lemma broadcast_package_Sent:
  assumes "broadcast_package node be auth st cid fin res now w = (Inr (BoSent t), w')"
  shows "broadcast_authorization st cid now = Inr ()"
proof -
  from assms obtain w1 where "send_authorized node be st cid (fc_tx fin) now w1 = (Inr (BoSent t), w')"
    by (auto simp: broadcast_package_def Let_def io_bind_Ok_iff split: if_split_asm)
  then show ?thesis
    by (cases "broadcast_authorization st cid now") (simp_all add: send_authorized_def with_broadcast_authorization_def)
qed

text \<open>What holds at the moment a combined transaction of \<open>cid\<close> is handed to the network, in a pass that began with
  store and world \<open>start\<close>: \<open>st\<close> is the store of that moment.\<close>

definition sent_ok ::
  "'d node \<Rightarrow> 'w chain_backend \<Rightarrow> txid list \<Rightarrow> u64 \<times> u64 \<Rightarrow> string \<Rightarrow> partial_store \<times> 'w \<Rightarrow> partial_store
    \<Rightarrow> finalized_candidate \<Rightarrow> bool" where
  "sent_ok node be authorized clock cid start st fin \<longleftrightarrow>
     try_finalize (nd_finalize node) (nd_env node) st cid (nd_threshold node) (fst clock) = Some fin \<and>
     broadcast_authorization st cid (snd clock) = Inr () \<and>
     (is_armed_escape st cid \<longrightarrow> (\<exists>env. measured node be authorized cid start st env \<and>
        sweep_rung_admissible node env (fc_tx fin) (tx_vsize (nd_tx node) (fc_tx fin)) = Inr ()))"

lemma finalize_and_send_runs:
  assumes "finalize_and_send node be auth ae ctx clk cid fs w = ((fs', out), w')"
  shows "pass_runs node (fs_store fs) (fs_store fs')"
  using assms by (auto simp: finalize_and_send_def runs_settle split: option.split_asm sum.split_asm prod.split_asm)

lemma finalize_and_send_Sent:
  assumes "finalize_and_send node be auth ae ctx clk cid fs w = ((fs', FoSent fin t), w')"
    and "ae = is_armed_escape (fs_store fs) cid"
    and "\<forall>c. ctx = Some c \<longrightarrow> measured node be auth cid start (fs_store fs) (tc_env c)"
  shows "sent_ok node be auth clk cid start (fs_store fs) fin"
    "hm_ok (candidates (fs_store fs)) \<Longrightarrow> \<not> ae \<Longrightarrow> spent_mark (fs_store fs') cid"
proof -
  from assms(1) have f: "try_finalize (nd_finalize node) (nd_env node) (fs_store fs) cid (nd_threshold node) (fst clk) = Some fin"
    "combined_admissible node ae ctx (fc_tx fin) = Inr ()" "broadcast_authorization (fs_store fs) cid (snd clk) = Inr ()"
    "fs' = (if ae then fs else settle_candidate cid fs)"
    by (auto simp: finalize_and_send_def dest: broadcast_package_Sent
        split: option.split_asm sum.split_asm prod.split_asm broadcast_outcome.split_asm)
  then show "sent_ok node be auth clk cid start (fs_store fs) fin"
    using assms(2,3) by (auto simp: sent_ok_def combined_admissible_def split: option.split_asm)
  show "hm_ok (candidates (fs_store fs)) \<Longrightarrow> \<not> ae \<Longrightarrow> spent_mark (fs_store fs') cid" using f(4) settle_marks by simp
qed

definition contexts_measured ::
  "'d node \<Rightarrow> 'w chain_backend \<Rightarrow> txid list \<Rightarrow> partial_store \<times> 'w \<Rightarrow> partial_store
    \<Rightarrow> (string, escape_sweep_tick_context) hmap \<Rightarrow> bool" where
  "contexts_measured node be authorized start stop contexts \<longleftrightarrow>
     (\<forall>cid c. hm_get contexts cid = Some c \<longrightarrow> measured node be authorized cid start stop (tc_env c))"

lemma contexts_later:
  "contexts_measured node be auth start b ctxs \<Longrightarrow> pass_runs node b c \<Longrightarrow> contexts_measured node be auth start c ctxs"
  by (auto simp: contexts_measured_def intro: measured_later)

text \<open>One send of a pass from \<open>start\<close>: made at a store \<open>st\<close> of the pass, after which the store went on to \<open>final\<close>.\<close>

definition send_ok ::
  "'d node \<Rightarrow> 'w chain_backend \<Rightarrow> txid list \<Rightarrow> u64 \<times> u64 \<Rightarrow> string \<Rightarrow> partial_store \<times> 'w \<Rightarrow> partial_store
    \<Rightarrow> partial_store \<Rightarrow> finalized_candidate \<Rightarrow> bool" where
  "send_ok node be authorized clock cid start now final fin \<longleftrightarrow>
     (\<exists>st. pass_runs node now st \<and> pass_runs node st final \<and> sent_ok node be authorized clock cid start st fin \<and>
        (hm_ok (candidates st) \<longrightarrow> is_armed_escape st cid \<or> spent_mark final cid))"

lemma combine_one_cases:
  assumes "combine_one node be auth ctxs clk cid fs w = ((fs', out), w')"
    and "contexts_measured node be auth (s, v) (fs_store fs) ctxs"
    and "pass_runs node s (fs_store fs)" and "world_runs be v w"
  shows "pass_runs node (fs_store fs) (fs_store fs') \<and>
    (\<forall>fin t. out = FoSent fin t \<longrightarrow> send_ok node be auth clk cid (s, v) (fs_store fs) (fs_store fs') fin)"
proof (cases "candidate_txid (fs_store fs) cid")
  case None
  with assms(1) show ?thesis by (auto simp: combine_one_def)
next
  case (Some base)
  obtain r w1 where cs: "check_settled node be (hm_get ctxs cid) cid base fs w = (r, w1)" by fastforce
  show ?thesis
  proof (cases r)
    case (Inl d)
    with assms(1) Some cs check_settled_Err [of node be "hm_get ctxs cid" cid base fs w "fst d" "snd d" w1] show ?thesis
      by (auto simp: combine_one_def Let_def)
  next
    case r: (Inr u)
    obtain r2 w2 where sc: "sweep_context node be auth (hm_get ctxs cid) cid (fs_store fs) w1 = (r2, w2)" by fastforce
    show ?thesis
    proof (cases r2)
      case (Inl e)
      with assms(1) Some cs r sc show ?thesis by (auto simp: combine_one_def Let_def)
    next
      case r2: (Inr p)
      obtain st1 ctx where p: "p = (st1, ctx)" by fastforce
      note ok = sweep_context_Ok [OF sc [unfolded r2 p]]
      note ww = rtranclp_trans [OF assms(4) calls_onlyD [OF calls_check cs]]
      have mc: "\<forall>c. ctx = Some c \<longrightarrow> measured node be auth cid (s, v) st1 (tc_env c)"
        using ok(3) contexts_later [OF assms(2) ok(1)] measured_widen [OF _ assms(3) ww pass_runs_refl]
        unfolding contexts_measured_def by blast
      from assms(1) Some cs r sc r2 p ok(2)
      have run: "finalize_and_send node be auth (is_armed_escape st1 cid) ctx clk cid (fs\<lparr>fs_store := st1\<rparr>) w2 = ((fs', out), w')"
        by (simp add: combine_one_def Let_def)
      note fin = finalize_and_send_runs [OF run]
      have "send_ok node be auth clk cid (s, v) (fs_store fs) (fs_store fs') f" if "out = FoSent f t" for f t
        using finalize_and_send_Sent [OF run [unfolded that], of "(s, v)"] mc ok(1) fin
        unfolding send_ok_def by (intro exI [of _ st1]) auto
      with fin ok(1) show ?thesis by (auto intro: pass_runs_trans)
    qed
  qed
qed

definition sends_ok ::
  "'d node \<Rightarrow> 'w chain_backend \<Rightarrow> txid list \<Rightarrow> (string \<Rightarrow> u64 \<times> u64) \<Rightarrow> partial_store \<times> 'w \<Rightarrow> partial_store \<Rightarrow> partial_store
    \<Rightarrow> (string \<times> fire_outcome) list \<Rightarrow> bool" where
  "sends_ok node be authorized clock start now final outs \<longleftrightarrow> (\<forall>cid fin t. (cid, FoSent fin t) \<in> set outs \<longrightarrow>
     send_ok node be authorized (clock cid) cid start now final fin)"

lemma send_ok_widen:
  "send_ok node be auth clk cid start b c fin \<Longrightarrow> pass_runs node a b \<Longrightarrow> pass_runs node c d \<Longrightarrow>
   send_ok node be auth clk cid start a d fin"
  unfolding send_ok_def by (meson pass_runs_trans pass_runs_ok spent_mark_runs)

lemma combine_and_broadcast_cases:
  assumes "combine_and_broadcast node be auth ctxs clk ids fs w = ((fs', outs), w')"
    and "contexts_measured node be auth (s, v) (fs_store fs) ctxs"
    and "pass_runs node s (fs_store fs)" and "world_runs be v w"
  shows "pass_runs node (fs_store fs) (fs_store fs') \<and> sends_ok node be auth clk (s, v) (fs_store fs) (fs_store fs') outs"
  using assms
proof (induction ids arbitrary: fs w outs)
  case Nil
  then show ?case by (simp add: sends_ok_def)
next
  case (Cons k ids)
  obtain fs1 out w1 where one: "combine_one node be auth ctxs (clk k) k fs w = ((fs1, out), w1)" by (metis surj_pair)
  obtain outs2 where rest: "combine_and_broadcast node be auth ctxs clk ids fs1 w1 = ((fs', outs2), w')" "outs = (k, out) # outs2"
    using Cons.prems(1) one by (auto split: prod.split_asm)
  note o1 = combine_one_cases [OF one Cons.prems(2-4)] and w1 = calls_onlyD [OF calls_combine_one one]
  have r: "pass_runs node (fs_store fs1) (fs_store fs') \<and> sends_ok node be auth clk (s, v) (fs_store fs1) (fs_store fs') outs2"
    by (rule Cons.IH [OF rest(1)])
      (use o1 w1 Cons.prems(2-4) in \<open>blast intro: contexts_later pass_runs_trans rtranclp_trans\<close>)+
  have "send_ok node be auth (clk cid) cid (s, v) (fs_store fs) (fs_store fs') fin" if "(cid, FoSent fin t) \<in> set outs" for cid fin t
  proof (cases "(cid, FoSent fin t) = (k, out)")
    case True
    with o1 have "send_ok node be auth (clk cid) cid (s, v) (fs_store fs) (fs_store fs1) fin" by blast
    from send_ok_widen [OF this pass_runs_refl conjunct1 [OF r]] show ?thesis .
  next
    case False
    with that rest(2) r have "send_ok node be auth (clk cid) cid (s, v) (fs_store fs1) (fs_store fs') fin" by (auto simp: sends_ok_def)
    from send_ok_widen [OF this conjunct1 [OF o1] pass_runs_refl] show ?thesis .
  qed
  with o1 r show ?case unfolding sends_ok_def by (blast intro: pass_runs_trans)
qed

lemma preflight_all_cases:
  assumes "preflight_all node be auth ids st w = ((st', ctxs), w')"
  shows "pass_runs node st st' \<and> world_runs be w w' \<and> contexts_measured node be auth (st, w) st' ctxs"
  using assms
proof (induction ids arbitrary: st w ctxs)
  case Nil
  then show ?case by (simp add: contexts_measured_def hm_get_def)
next
  case (Cons cid ids)
  show ?case
  proof (cases "is_armed_escape st cid")
    case False
    with Cons show ?thesis by simp
  next
    case True
    obtain r w1 where pf: "escape_sweep_pre_release_admissible node be auth st cid w = (r, w1)" by fastforce
    note ww = calls_onlyD [OF calls_preflight pf]
    show ?thesis
    proof (cases r)
      case (Inl e)
      with Cons.prems True pf have "preflight_all node be auth ids st w1 = ((st', ctxs), w')" by simp
      from Cons.IH [OF this] ww show ?thesis
        by (auto simp: contexts_measured_def intro: measured_widen [OF _ pass_runs_refl _ pass_runs_refl] rtranclp_trans)
    next
      case (Inr p)
      obtain st1 ctx where p: "p = (st1, ctx)" by fastforce
      from Cons.prems True pf Inr p obtain rest where
        rest: "preflight_all node be auth ids st1 w1 = ((st', rest), w')" "ctxs = (cid, ctx) # rest"
        by (auto split: prod.split_asm)
      note i = Cons.IH [OF rest(1)] and m = preflight_measured [OF pf [unfolded Inr p]] and pr = runs_preflight [OF pf [unfolded Inr p]]
      have "measured node be auth cid (st, w) st' (tc_env ctx)" using measured_later [OF m] i by blast
      moreover have "measured node be auth k (st, w) st' (tc_env c)" if "hm_get rest k = Some c" for k c
        using that i pr ww measured_widen [of node be auth k st1 w1 st' "tc_env c" st w st'] by (auto simp: contexts_measured_def)
      ultimately show ?thesis using i pr ww rest(2)
        by (auto simp: contexts_measured_def hm_get_def intro: pass_runs_trans rtranclp_trans)
    qed
  qed
qed

lemma release_all_runs: "release_all node ctxs now ids st = (st', rels) \<Longrightarrow> pass_runs node st st'"
proof (induction ids arbitrary: st rels)
  case (Cons k ids)
  obtain st1 r where rel: "release_partials (nd_sig node) (nd_text node) (nd_env node) st k now = (st1, r)" by fastforce
  note run = runs_release [OF rel]
  show ?case
    using Cons rel by (auto split: if_split_asm option.split_asm prod.split_asm intro: pass_runs_trans [OF run])
qed simp

lemma lockdown_tick_store: "lockdown_tick persisted now ns = Some (ns', dl) \<Longrightarrow>
    ns_channel ns' = ns_channel ns \<and> ns_authorized ns' = ns_authorized ns"
  by (auto simp: lockdown_tick_def enter_lockdown_def latch_lockdown_def split: option.split_asm if_split_asm)

text \<open>The store of a finished pass is reached from the store it started from, and every send happened in between.\<close>

lemma fire_tick_cases:
  assumes "fire_tick node be persisted clock ns w = ((ns', Some (rels, outs)), w')" and "ns_channel ns = Some ch"
  shows "\<exists>ch'. ns_channel ns' = Some ch' \<and> store_runs node (ch_store ch) (ch_store ch') \<and>
    sends_ok node be (ns_authorized ns) (fk_combine clock) (ch_store ch, w) (ch_store ch) (ch_store ch') outs"
proof -
  let ?st0 = "prune_store (ch_store ch) (fk_due_now clock) (fk_mono_now clock)"
  from assms obtain ns2 d where lk: "lockdown_tick persisted (fk_due_now clock) (set_store ?st0 ns) = Some (ns2, d)"
    "\<not> ns_store_poisoned ns" "\<not> ns_sign_poisoned ns2"
    by (auto simp: fire_tick_def Let_def split: if_split_asm option.split_asm prod.split_asm)
  let ?ids = "fire_due ?st0 (ss_pending (ns_sign ns2)) (fk_due_now clock)"
  obtain st1 ctxs w1 where pf: "preflight_all node be (ns_authorized ns2) ?ids ?st0 w = ((st1, ctxs), w1)" by (metis surj_pair)
  obtain st2 rs where rl: "release_all node ctxs (fk_release_now clock) ?ids st1 = (st2, rs)" by fastforce
  obtain fs os w2 where cb: "combine_and_broadcast node be (ns_authorized ns2) ctxs (fk_combine clock) ?ids
      \<lparr>fs_store = st2, fs_pending = ss_pending (ns_sign ns2)\<rparr> w1 = ((fs, os), w2)" by (metis surj_pair)
  from assms lk pf rl cb have eqs: "outs = os" "ns' = set_store (fs_store fs) (ns2\<lparr>ns_sign := (ns_sign ns2)\<lparr>ss_pending := fs_pending fs\<rparr>\<rparr>)"
    by (auto simp: fire_tick_def Let_def)
  have ch2: "ns_channel ns2 = Some (ch\<lparr>ch_store := ?st0\<rparr>)" "ns_authorized ns2 = ns_authorized ns"
    using lockdown_tick_store [OF lk(1)] assms(2) by (simp_all add: set_store_def)
  note p = preflight_all_cases [OF pf] and r = release_all_runs [OF rl] and pr = runs_prune [of node "ch_store ch" "fk_due_now clock" "fk_mono_now clock"]
  have to2: "pass_runs node (ch_store ch) st2" using pr p r by (blast intro: pass_runs_trans)
  have "contexts_measured node be (ns_authorized ns2) (ch_store ch, w) st2 ctxs"
    using p r pr measured_widen [of node be "ns_authorized ns2" _ ?st0 w st1 _ "ch_store ch" w st2] by (auto simp: contexts_measured_def)
  from combine_and_broadcast_cases [OF cb, unfolded fire_state.select_convs, OF this to2] p
  have c: "pass_runs node st2 (fs_store fs)" "sends_ok node be (ns_authorized ns2) (fk_combine clock) (ch_store ch, w) st2 (fs_store fs) os"
    by auto
  have "pass_runs node (ch_store ch) (fs_store fs)" by (rule pass_runs_trans [OF to2 c(1)])
  moreover have "sends_ok node be (ns_authorized ns) (fk_combine clock) (ch_store ch, w) (ch_store ch) (fs_store fs) outs"
    using c(2) send_ok_widen [OF _ to2 pass_runs_refl] unfolding sends_ok_def eqs(1) ch2(2) by blast
  ultimately show ?thesis using ch2(1) eqs(2) by (auto simp: set_store_def dest: pass_runs_store)
qed

lemma authorized_Ok:
  assumes "broadcast_authorization st cid now = Inr ()"
  shows "\<exists>c win. hm_get (candidates st) cid = Some c \<and> slot_active st c \<and> \<not> (active (armed st) \<and> hot c) \<and>
    fire c = Some win \<and> is_open win now \<and> \<not> broadcast c"
  using assms by (auto simp: broadcast_authorization_def split: option.split_asm if_split_asm)

text \<open>C1: what the fire loop sends is quorum-signed, authorized and admissible. Take any store the channel reached since
  it was empty, and a pass of the fire loop on it. Every transaction the pass hands to the network belongs to a
  candidate that was resident when the pass began, had not been broadcast and was no Hot spend frozen by duress.
  At the store \<open>st\<close> of the send, which the pass itself reached by its own operations, it finalizes one rung
  whose every input carries signatures under at least threshold manifest keys (each verified but this node's own),
  its slot is active, its fire window is open and it is still neither sent nor frozen. An armed escape in addition
  passes the sweep rules, at the size it really has, in an environment this node measured earlier in the same pass,
  in a world reached from the pass's own by calls of the chain backend; any other candidate is marked
  as broadcast, or gone, in the store the pass leaves behind, so no later pass sends it again.\<close>

theorem fired_transactions_sound:
  assumes "user_key_apart (channel_of node)"
    and "ns_channel ns = Some ch" and "ch_store ch = channel_run (channel_of node) ops (store_new mc mb hb)"
    and "fire_tick node be persisted clock ns w = ((ns', Some (rels, outs)), w')" and "(cid, FoSent fin t) \<in> set outs"
  shows "\<exists>ch' st c0 c v win. ns_channel ns' = Some ch' \<and>
    pass_runs node (ch_store ch) st \<and> pass_runs node st (ch_store ch') \<and>
    hm_get (candidates (ch_store ch)) cid = Some c0 \<and> \<not> broadcast c0 \<and> \<not> (active (armed (ch_store ch)) \<and> hot c0) \<and>
    hm_get (candidates st) cid = Some c \<and> variant c (fc_rung fin) = Some v \<and> nd_finalize node (sv_psbt v) = Some (fc_tx fin) \<and>
    psbt_inputs (sv_psbt v) \<noteq> [] \<and>
    list_all (\<lambda>i. nd_threshold node \<le> length (filter (counted (channel_of node) v i) (ce_nodes (nd_env node))))
      [0..<length (psbt_inputs (sv_psbt v))] \<and>
    slot_active st c \<and> \<not> (active (armed st) \<and> hot c) \<and> \<not> broadcast c \<and>
    fire c = Some win \<and> is_open win (snd (fk_combine clock cid)) \<and>
    (is_armed_escape st cid \<longrightarrow> (\<exists>env. measured node be (ns_authorized ns) cid (ch_store ch, w) st env \<and>
       sweep_rung_admissible node env (fc_tx fin) (tx_vsize (nd_tx node) (fc_tx fin)) = Inr ())) \<and>
    (\<not> is_armed_escape st cid \<longrightarrow> spent_mark (ch_store ch') cid)"
proof -
  from fire_tick_cases [OF assms(4,2)] assms(5) obtain ch' st where
    st: "ns_channel ns' = Some ch'" "pass_runs node (ch_store ch) st" "pass_runs node st (ch_store ch')"
    "sent_ok node be (ns_authorized ns) (fk_combine clock cid) cid (ch_store ch, w) st fin"
    "hm_ok (candidates st) \<longrightarrow> is_armed_escape st cid \<or> spent_mark (ch_store ch') cid"
    unfolding sends_ok_def send_ok_def by blast
  have inv0: "sig_inv (channel_of node) (ch_store ch)"
    unfolding assms(3) channel_run_def by (rule signatures.run_inv [OF sig_inv_new])
  with st(2) have inv: "sig_inv (channel_of node) st"
    by (auto simp: pass_runs_def channel_run_def intro: signatures.run_inv)
  have ok: "hm_ok (candidates (ch_store ch))" "hm_ok (candidates st)" using inv0 inv by (simp_all add: sig_inv_def)
  have fin: "try_finalize (cfg_finalize (channel_of node)) (cfg_env (channel_of node)) st cid (cfg_threshold (channel_of node))
      (fst (fk_combine clock cid)) = Some fin"
    using st(4) by (simp add: sent_ok_def channel_of_def)
  from finalized_counted [OF inv assms(1) fin] authorized_Ok [of st cid "snd (fk_combine clock cid)"] st(4) obtain c v win where
    c: "hm_get (candidates st) cid = Some c" "variant c (fc_rung fin) = Some v" "nd_finalize node (sv_psbt v) = Some (fc_tx fin)"
    "psbt_inputs (sv_psbt v) \<noteq> []" "slot_active st c" "\<not> (active (armed st) \<and> hot c)" "fire c = Some win"
    "is_open win (snd (fk_combine clock cid))" "\<not> broadcast c"
    "list_all (\<lambda>i. nd_threshold node \<le> length (filter (counted (channel_of node) v i) (ce_nodes (nd_env node))))
      [0..<length (psbt_inputs (sv_psbt v))]"
    by (auto simp: sent_ok_def channel_of_def)
  from pass_runs_back [OF st(2) ok(1) c(1)] c(6,9) obtain c0 where
    "hm_get (candidates (ch_store ch)) cid = Some c0" "\<not> broadcast c0" "\<not> (active (armed (ch_store ch)) \<and> hot c0)" by auto
  moreover have "is_armed_escape st cid \<longrightarrow> (\<exists>env. measured node be (ns_authorized ns) cid (ch_store ch, w) st env \<and>
       sweep_rung_admissible node env (fc_tx fin) (tx_vsize (nd_tx node) (fc_tx fin)) = Inr ())"
    using st(4) by (simp add: sent_ok_def)
  moreover have "\<not> is_armed_escape st cid \<longrightarrow> spent_mark (ch_store ch') cid" using st(5) ok(2) by blast
  ultimately show ?thesis
    using st(1-3) c by (intro exI [of _ ch'] exI [of _ st] exI [of _ c0] exI [of _ c] exI [of _ v] exI [of _ win]) blast
qed

subsection \<open>A pass that sends\<close>

text \<open>A node whose channel is the demonstration's, and the request confirmed with the second node's share in.\<close>

definition fire_node :: "nat node" where
  "fire_node = demo_node\<lparr>nd_witness_script := [5], nd_user_pubkey := [1], nd_pubkey := [2], nd_finalize := (\<lambda>p. Some (unsigned_tx p)),
     nd_duress_delay_secs := 10, nd_epsilon_secs := 1, nd_combine_slack_secs := 5\<rparr>"

lemma channel_of_fire_node: "channel_of fire_node = demo_cfg"
  by (simp add: channel_of_def fire_node_def demo_node_def demo_cfg_def candidate_keys_of_def duress_timing_of_def)

lemma fire_node_reads:
  "nd_finalize fire_node = (\<lambda>p. Some (unsigned_tx p))" "nd_env fire_node = demo_env 0" "nd_threshold fire_node = 2" "nd_sig fire_node = demo_sig"
  "nd_text fire_node = demo_text" "nd_tx fire_node = demo_tx_api"
  by (simp_all add: fire_node_def demo_node_def)

definition fire_ops :: "channel_op list" where
  "fire_ops = demo_request False False @ [OpAcceptPartial demo_partial 5]"

definition fire_variant :: signing_variant where
  "fire_variant = import_partial demo_sig 0 (0, 1) [3] [3] (demo_variant 4)"

definition fire_cand :: candidate where
  "fire_cand = (demo_cand_spend False True 416)\<lparr>base := fire_variant, c_bytes := 165\<rparr>"

definition fire_store :: partial_store where
  "fire_store = (demo_confirmed False False)\<lparr>candidates := [(''s'', fire_cand), (''e'', demo_cand_escape True (Some 10) 832)]\<rparr>"

lemma fire_store_run: "channel_run demo_cfg fire_ops demo_store = fire_store"
proof -
  have n: "ce_nodes (demo_env 0) ! Suc 0 = \<lparr>mn_node_id = 1, mn_signing_pubkey = [3], mn_channel_pubkey = [13], mn_endpoints = []\<rparr>"
    by (simp add: demo_env_def)
  have vf: "unsigned_txid (demo_variant 4) = [4]" "user_sig_hash (demo_variant 4) = replicate 32 0" "sighashes (demo_variant 4) = [[0]]"
    "partials (demo_variant 4) = []" by (simp_all add: demo_variant_def)
  have "channel_next demo_cfg (OpAcceptPartial demo_partial 5) (demo_confirmed False False) = fire_store"
    by (simp add: channel_next_def accept_partial_def demo_partial_def demo_confirmed_def Let_def hm_get_def demo_cand_spend_def
        rung_of_txid_def variants_def vf variant_def demo_inputs_one hm_contains_def n modify_variant_def hm_insert_def sat_simps
        fire_store_def fire_cand_def fire_variant_def)
  then show ?thesis using demo_request_confirmed [of False False] by (simp add: channel_run_def fire_ops_def)
qed

definition fire_pass_clock :: fire_clock where
  "fire_pass_clock = \<lparr>fk_due_now = 5, fk_mono_now = 5, fk_release_now = 5, fk_combine = (\<lambda>_. (5, 5))\<rparr>"
lemma fire_prune: "prune_store fire_store 5 5 = fire_store"
  by (simp add: prune_store_def prune_def prune_keeps_def prune_carriers_def fire_complete_ids_def fire_store_def demo_confirmed_def
      demo_store_def store_new_def hm_retain_def fire_cand_def demo_cand_spend_def demo_cand_escape_def Let_def)

lemma fire_armed: "\<not> active (armed fire_store)"
  by (simp add: fire_store_def demo_confirmed_def)

lemma fire_due_ids: "fire_due fire_store [] 5 = [''s'']"
proof -
  have d: "due fire_store 5 fire_cand" "\<not> due fire_store 5 (demo_cand_escape True (Some 10) 832)"
    by (simp_all add: due_def slot_active_def fire_armed) (simp_all add: fire_cand_def demo_cand_spend_def demo_cand_escape_def is_open_def)
  have cs: "hm_values (candidates fire_store) = [fire_cand, demo_cand_escape True (Some 10) 832]" by (simp add: fire_store_def hm_values_def)
  show ?thesis by (simp add: fire_due_def due_for_fire_def pending_ids_def cs d) (simp add: fire_cand_def demo_cand_spend_def)
qed

lemma fire_lockdown: "lockdown_tick False 5 (demo_node_state False False fire_store) = Some (demo_node_state False False fire_store, False)"
  by (simp add: lockdown_tick_def demo_node_state_def lockdown_due_def fire_armed)

lemma fire_preflight: "preflight_all fire_node demo_backend [] [''s''] fire_store () = ((fire_store, []), ())"
  by (simp add: is_armed_escape_def fire_armed)

definition fire_released :: partial_store where
  "fire_released = fire_store\<lparr>candidates := [(''s'', fire_cand\<lparr>released := True, released_through := Some 0\<rparr>), (''e'', demo_cand_escape True (Some 10) 832)]\<rparr>"

lemma fire_variant_inputs: "\<exists>inp. psbt_inputs (sv_psbt fire_variant) = [inp]"
  by (simp add: fire_variant_def import_partial_def demo_variant_def demo_chan_psbt_def)

lemma fire_release: "\<exists>rels. release_all fire_node [] 5 [''s''] fire_store = (fire_released, rels)"
proof -
  obtain inp where inp: "psbt_inputs (sv_psbt fire_variant) = [inp]" using fire_variant_inputs by blast
  have "\<exists>r. release_partials demo_sig demo_text (demo_env 0) fire_store ''s'' 5 = (fire_released, Some r)"
    by (simp add: release_partials_def fire_released_def fire_store_def fire_cand_def hm_get_def slot_active_def demo_confirmed_def
        demo_cand_spend_def first_rung_def releasable_rung_def quota_rung_cap_def authorized_rung_def release_floor_def is_open_def
        variants_def RELEASE_QUOTA_HEADROOM_def demo_env_def hm_insert_def inp sat_simps Let_def)
  then show ?thesis by (auto simp: is_armed_escape_def fire_armed fire_node_reads)
qed

definition fire_final :: finalized_candidate where
  "fire_final = \<lparr>fc_tx = unsigned_tx (demo_chan_psbt 4), fc_rung = 0, fc_deadline = 100\<rparr>"

lemma fire_finalize: "try_finalize (\<lambda>p. Some (unsigned_tx p)) (demo_env 0) fire_released ''s'' 2 5 = Some fire_final"
proof -
  have q: "has_quorum fire_variant 2 (ce_nodes (demo_env 0))"
    by (simp add: has_quorum_def signature_count_def fire_variant_def import_partial_def demo_variant_def demo_chan_psbt_def demo_cfg_def
        canonical_input_def hm_retain_def hm_insert_def hm_contains_def hm_get_def demo_env_def)
  have t: "unsigned_tx (sv_psbt fire_variant) = unsigned_tx (demo_chan_psbt 4)"
    by (simp add: fire_variant_def import_partial_def demo_variant_def)
  show ?thesis
    by (simp add: try_finalize_def fire_released_def fire_store_def fire_cand_def hm_get_def slot_active_def demo_confirmed_def demo_cand_spend_def
        is_open_def authorized_rung_def variant_def q t fire_final_def)
qed

lemma fire_authorized: "broadcast_authorization fire_released ''s'' 5 = Inr ()"
  by (simp add: broadcast_authorization_def fire_released_def fire_store_def fire_cand_def hm_get_def slot_active_def demo_confirmed_def
      demo_cand_spend_def is_open_def)

lemma fire_broadcast:
  "broadcast_package fire_node demo_backend [] fire_released ''s'' fire_final None 5 () = (Inr (BoSent [9]), ())"
proof -
  have set: "transaction_is_settled demo_backend t () = (Inr False, ())" if "t \<noteq> [8]" for t
    using that by (simp add: transaction_is_settled_def demo_backend_def io_bind_def)
  have na: "\<not> is_armed_escape fire_released ''s''" by (simp add: is_armed_escape_def fire_released_def fire_armed)
  have tin: "tx_input (fc_tx fire_final) = [demo_in [9]]" by (simp add: fire_final_def demo_chan_psbt_def demo_in_def)
  have tid: "sa_txid demo_sig (fc_tx fire_final) = [4]" by (simp add: demo_sig_def fire_final_def demo_chan_psbt_def)
  have par: "unconfirmed_parent demo_backend True (demo_in [9]) () = (Inr None, ())"
    by (simp add: unconfirmed_parent_def demo_in_def demo_backend_reads io_bind_def Let_def)
  have pkg: "assemble_package demo_backend demo_tx_api (fc_tx fire_final) [] () = (Inr [[9]], ())"
    by (simp add: assemble_package_def io_bind_def demo_parent demo_tx_input demo_backend_reads MAX_PACKAGE_ANCESTORS_def tin par)
  have be: "b_broadcast demo_backend = io_return" "b_test_package_accept demo_backend p = io_return PackageAccepted" for p
    by (simp_all add: demo_backend_def)
  show ?thesis
    by (simp add: broadcast_package_def Let_def fire_node_reads io_bind_def set tid na pkg be send_authorized_def
        with_broadcast_authorization_def fire_authorized demo_backend_reads tin demo_tx_input)
qed
lemma fire_combine:
  "\<exists>fs. combine_and_broadcast fire_node demo_backend [] [] (\<lambda>_. (5, 5)) [''s''] \<lparr>fs_store = fire_released, fs_pending = []\<rparr> () =
     ((fs, [(''s'', FoSent fire_final [9])]), ())"
proof -
  have na: "\<not> is_armed_escape fire_released ''s''" by (simp add: is_armed_escape_def fire_released_def fire_armed)
  have t: "candidate_txid fire_released ''s'' = Some [4]"
    by (simp add: candidate_txid_def fire_released_def hm_get_def fire_cand_def fire_variant_def import_partial_def demo_variant_def)
  have cs: "check_settled fire_node demo_backend None ''s'' [4] \<lparr>fs_store = fire_released, fs_pending = []\<rparr> () = (Inr (), ())"
    by (simp add: check_settled_def na transaction_is_settled_def demo_backend_def io_bind_def)
  have sc: "sweep_context fire_node demo_backend [] None ''s'' fire_released () = (Inr (fire_released, None), ())"
    by (simp add: sweep_context_def na)
  show ?thesis
    by (simp add: combine_one_def t na cs sc hm_get_def Let_def finalize_and_send_def fire_node_reads fire_finalize combined_admissible_def fire_broadcast)
qed

lemma fire_pass:
  "\<exists>ns' rels. fire_tick fire_node demo_backend False fire_pass_clock (demo_node_state False False fire_store) () =
     ((ns', Some (rels, [(''s'', FoSent fire_final [9])])), ())"
proof -
  obtain fs where fs: "combine_and_broadcast fire_node demo_backend [] [] (\<lambda>_. (5, 5)) [''s''] \<lparr>fs_store = fire_released, fs_pending = []\<rparr> () =
     ((fs, [(''s'', FoSent fire_final [9])]), ())" using fire_combine by blast
  obtain rels where rl: "release_all fire_node [] 5 [''s''] fire_store = (fire_released, rels)" using fire_release by blast
  have rd: "ns_channel (demo_node_state False False fire_store) = Some (demo_channel\<lparr>ch_store := fire_store\<rparr>)"
    "\<not> ns_store_poisoned (demo_node_state False False fire_store)" "\<not> ns_sign_poisoned (demo_node_state False False fire_store)"
    "ss_pending (ns_sign (demo_node_state False False fire_store)) = []" "ns_authorized (demo_node_state False False fire_store) = []"
    "set_store fire_store (demo_node_state False False fire_store) = demo_node_state False False fire_store"
    by (simp_all add: demo_node_state_def set_store_def)
  have chs: "ch_store (demo_channel\<lparr>ch_store := fire_store\<rparr>) = fire_store" by simp
  show ?thesis
    by (simp only: fire_tick_def rd option.case if_False fire_pass_clock_def fire_clock.simps chs fire_prune Let_def
        fire_lockdown prod.case fire_due_ids fire_preflight rl fs) blast
qed

theorem fired_transactions_sound_witness:
  "\<exists>st ns' ch' rels c0 c v win. fire_tick fire_node demo_backend False fire_pass_clock (demo_node_state False False fire_store) () =
       ((ns', Some (rels, [(''s'', FoSent fire_final [9])])), ()) \<and> ns_channel ns' = Some ch' \<and>
     pass_runs fire_node fire_store st \<and> pass_runs fire_node st (ch_store ch') \<and>
     hm_get (candidates fire_store) ''s'' = Some c0 \<and> \<not> broadcast c0 \<and> hm_get (candidates st) ''s'' = Some c \<and> variant c 0 = Some v \<and>
     list_all (\<lambda>i. 2 \<le> length (filter (counted demo_cfg v i) (ce_nodes (demo_env 0)))) [0..<length (psbt_inputs (sv_psbt v))] \<and>
     slot_active st c \<and> \<not> broadcast c \<and> fire c = Some win \<and> is_open win 5 \<and>
     (\<not> is_armed_escape st ''s'' \<longrightarrow> spent_mark (ch_store ch') ''s'')"
proof -
  obtain ns' rels where tick: "fire_tick fire_node demo_backend False fire_pass_clock (demo_node_state False False fire_store) () =
     ((ns', Some (rels, [(''s'', FoSent fire_final [9])])), ())" using fire_pass by blast
  have ch: "ns_channel (demo_node_state False False fire_store) = Some (demo_channel\<lparr>ch_store := fire_store\<rparr>)"
    by (simp add: demo_node_state_def)
  have run: "ch_store (demo_channel\<lparr>ch_store := fire_store\<rparr>) = channel_run (channel_of fire_node) fire_ops (store_new 10 100000 demo_caps)"
    using fire_store_run by (simp add: channel_of_fire_node demo_store_def)
  have apart: "user_key_apart (channel_of fire_node)" by (simp add: channel_of_fire_node user_key_apart_def demo_cfg_def demo_env_def)
  have mem: "(''s'', FoSent fire_final [9]) \<in> set [(''s'', FoSent fire_final [9])]"
    and rd: "fc_rung fire_final = 0" "snd (fk_combine fire_pass_clock ''s'') = 5" "ch_store (demo_channel\<lparr>ch_store := fire_store\<rparr>) = fire_store"
    by (simp_all add: fire_final_def fire_pass_clock_def)
  show ?thesis
    using fired_transactions_sound [OF apart ch run tick mem, unfolded rd channel_of_fire_node fire_node_reads]
    apply (elim exE conjE)
    subgoal for ch' st c0 c v win
      using tick by (intro exI [of _ st] exI [of _ ns'] exI [of _ ch'] exI [of _ rels] exI [of _ c0] exI [of _ c] exI [of _ v] exI [of _ win] conjI)
    done
qed

end
