(* ===== verification/Request_Checks.thy ===== *)
theory Request_Checks
  imports Escape_Ladder
begin

text \<open>
  The checks of \<open>crates/vault-node/src/lib.rs\<close> that a coordinator request passes on its way to a verdict, one
  definition per function: coordinator authentication, the padded propagation payload and the channel body bound
  (\<open>request_payload\<close>, \<open>envelope_body\<close> and \<open>request_fits_channel_body\<close> of \<open>channel.rs\<close>), the delivery
  horizon, the commitment and the replay key, the prevout ground truth, the user and node signatures, and the two
  refresh limits. The JSON encoders, the PSBT codec and the elliptic-curve operations are arguments of the node.
  Shown: the size of the payload does not depend on the PIN, the replay key binds what it lists, a verified spend
  carries the user's signature on every input and agrees with the chain, and signing adds this node's signature
  to every input and changes nothing else.
\<close>

subsection \<open>Coordinator authentication\<close>

definition decode_psbt :: "'d node \<Rightarrow> string \<Rightarrow> psbt option" where
  "decode_psbt node b64 = nd_psbt_from_str node (str_trim b64)"

definition verify_coord_signature :: "'d node \<Rightarrow> coord_request \<Rightarrow> string \<Rightarrow> sign_response + unit" where
  "verify_coord_signature node request coord_sig =
     (let digest = auth_digest (sa_sha256 (nd_sig node)) request (nd_wallet_id node);
          bad = Err (refuse CoordAuthInvalid ''coord_sig'')
      in case wa_from_hex (nd_wire node) coord_sig of
           None \<Rightarrow> bad
         | Some der \<Rightarrow>
             (case sa_from_der (nd_sig node) der of
                None \<Rightarrow> bad
              | Some s \<Rightarrow> if sa_verify (nd_sig node) digest s (nd_coordinator_auth node) then Ok () else bad))"

definition is_coord_spend :: "coord_request \<Rightarrow> bool" where
  "is_coord_spend r = (case r of CoordSpend _ _ _ _ _ _ _ \<Rightarrow> True | CoordRefresh _ _ _ _ \<Rightarrow> False)"

fun nonce_verdict :: "nonce_decision \<Rightarrow> sign_response + unit" where
  "nonce_verdict nonce_decision.Accepted = Ok ()"
| "nonce_verdict InvalidLength = Err (refuse CoordAuthInvalid ''coord_nonce'')"
| "nonce_verdict (nonce_decision.OutsideWindow _) = Err (refuse CommitmentExpired ''commitment_expiry'')"
| "nonce_verdict Replayed = Err (refuse NonceReplayed ''coord_nonce'')"
| "nonce_verdict nonce_decision.AtCapacity = Err (refuse CoordNonceCapacity ''coord_nonce_capacity'')"

definition verify_coord_auth ::
  "'d node \<Rightarrow> coord_request \<Rightarrow> string \<Rightarrow> u64 \<Rightarrow> nonce_log \<Rightarrow> u64 option \<Rightarrow> nonce_log \<times> (sign_response + u64 \<times> u64 option)" where
  "verify_coord_auth node request coord_sig now nonces mono_now =
     (case verify_coord_signature node request coord_sig of
        Inl e \<Rightarrow> (nonces, Err e)
      | Inr _ \<Rightarrow>
          let (nonces', d) = check_and_record nonces
                \<lparr>nr_nonce = cr_nonce request, nr_expiry = unat (cr_expiry request), nr_now = now,
                 nr_max_age = nd_max_commitment_age_secs node, nr_mono_now = mono_now,
                 nr_record_deadline = (is_coord_spend request \<and> mono_now \<noteq> None)\<rparr>
          in (nonces', bind_res (nonce_verdict d) (\<lambda>_. Ok (effective_now nonces' now, carrier_deadline nonces' (cr_nonce request)))))"

definition ARM_CARRIER_TAG :: string where "ARM_CARRIER_TAG = ''btc-policy/vault-node/arm-carrier/v0''"
definition ARM_SIGNATURE_TAG :: string where "ARM_SIGNATURE_TAG = ''btc-policy/vault-node/arm-signature/v0''"

text \<open>The two \<open>expect\<close>s of \<open>arm_signature_tag\<close> are \<open>None\<close>.\<close>

definition arm_signature_tag :: "'d node \<Rightarrow> string \<Rightarrow> digest option" where
  "arm_signature_tag node coord_sig =
     Option.bind (wa_from_hex (nd_wire node) coord_sig) (\<lambda>der.
     Option.bind (sa_from_der (nd_sig node) der) (\<lambda>s.
       Some (tagged_hash (sa_sha256 (nd_sig node)) ARM_SIGNATURE_TAG (sa_serialize_der (nd_sig node) s))))"

definition arm_carrier_id :: "'d node \<Rightarrow> coord_request \<Rightarrow> string" where
  "arm_carrier_id node request =
     (let digest = auth_digest (sa_sha256 (nd_sig node)) request (nd_wallet_id node);
          material = (if is_coord_spend request then nd_carrier_kdf node digest else digest)
      in ta_to_hex (nd_text node) (tagged_hash (sa_sha256 (nd_sig node)) ARM_CARRIER_TAG material))"

subsection \<open>The propagation payload\<close>

definition JSON_BYTE_EXPANSION :: nat where "JSON_BYTE_EXPANSION = 6"
definition MAX_COORD_SIG_HEX_BYTES :: nat where "MAX_COORD_SIG_HEX_BYTES = MAX_ECDSA_DER_BYTES * 2"

fun request_shape :: "tagged_request \<Rightarrow> tagged_request \<times> nat" where
  "request_shape (TaggedSpend r) =
     (TaggedSpend (r\<lparr>sr_pin := [], sr_nonce := [], sr_coord_sig := []\<rparr>),
      JSON_BYTE_EXPANSION * (MAX_PIN_BYTES + MAX_COORD_NONCE_BYTES) + MAX_COORD_SIG_HEX_BYTES)"
| "request_shape (TaggedRefresh r) =
     (TaggedRefresh (r\<lparr>rr_nonce := [], rr_coord_sig := []\<rparr>), JSON_BYTE_EXPANSION * MAX_COORD_NONCE_BYTES + MAX_COORD_SIG_HEX_BYTES)"

text \<open>\<open>Vec::resize\<close> with spaces to the larger of the two lengths.\<close>

definition request_payload :: "'d node \<Rightarrow> tagged_request \<Rightarrow> bytes" where
  "request_payload node request =
     (let (shape, variable_budget) = request_shape request;
          target_len = sat_add64 (length (nd_json node shape)) variable_budget;
          payload = nd_json node request
      in payload @ replicate (max (length payload) target_len - length payload) 32)"

definition envelope_body :: "'d node \<Rightarrow> envelope \<Rightarrow> bytes" where
  "envelope_body node ev =
     nd_envelope_json node ev @ replicate (MAX_COORD_SIG_HEX_BYTES - length (ev_channel_sig ev)) 32"

definition request_fits_channel_body :: "'d node \<Rightarrow> tagged_request \<Rightarrow> bool" where
  "request_fits_channel_body node request =
     (length (envelope_body node
        \<lparr>ev_msg_type = MSG_TYPE_REQUEST, ev_protocol_version = PROTOCOL_VERSION, ev_wallet_id = replicate 64 (CHR ''0''),
         ev_manifest_hash = replicate 64 (CHR ''0''), ev_sender_node_id = - 1, ev_recipient_node_id = - 1,
         ev_payload_b64 = wa_b64_encode (nd_wire node) (request_payload node request), ev_nonce = replicate 32 (CHR ''0''),
         ev_timestamp = - 1, ev_channel_sig = replicate MAX_COORD_SIG_HEX_BYTES (CHR ''0'')\<rparr>) \<le> nd_max_msg_bytes node)"

definition ensure_request_propagatable :: "'d node \<Rightarrow> bool \<Rightarrow> tagged_request \<Rightarrow> bool" where
  "ensure_request_propagatable node has_channel request = (\<not> has_channel \<or> request_fits_channel_body node request)"

definition ensure_delivery_horizon :: "'d node \<Rightarrow> bool \<Rightarrow> u64 \<Rightarrow> u64 \<Rightarrow> sign_response option" where
  "ensure_delivery_horizon node has_channel expiry now =
     (if \<not> has_channel then None
      else if expiry \<ge> sat_add64 now (nd_delivery_horizon_secs node) then None
      else Some (refuse ExpiryTooShort ''delivery_horizon''))"

subsection \<open>Identities\<close>

definition acceptance_item :: "'d node \<Rightarrow> string \<times> psbt \<Rightarrow> bytes" where
  "acceptance_item node c =
     u64_le (word_of_nat (length (fst c))) @ str_bytes (fst c) @
     u64_le (word_of_nat (length (nd_psbt_serialize node (snd c)))) @ nd_psbt_serialize node (snd c)"

definition acceptance_bytes :: "'d node \<Rightarrow> (string \<times> psbt) list \<Rightarrow> bytes" where
  "acceptance_bytes node cs = str_bytes ''vault-policy/accepted-request/v0'' @ concat (map (acceptance_item node) cs)"

definition acceptance_replay_key :: "'d node \<Rightarrow> (string \<times> psbt) list \<Rightarrow> string" where
  "acceptance_replay_key node cs = ''accepted:'' @ ta_to_hex (nd_text node) (sa_sha256 (nd_sig node) (acceptance_bytes node cs))"

definition present_utxos :: "psbt \<Rightarrow> u64" where
  "present_utxos p = foldl (\<lambda>acc inp. case witness_utxo inp of None \<Rightarrow> acc | Some utxo \<Rightarrow> sat_add64 acc (txo_value utxo)) 0 (psbt_inputs p)"

definition outputs_sum :: "psbt \<Rightarrow> u64" where
  "outputs_sum p = foldl (\<lambda>acc out. sat_add64 acc (txo_value out)) 0 (tx_output (unsigned_tx p))"

definition commitment_of :: "'d node \<Rightarrow> psbt \<Rightarrow> 64 word \<Rightarrow> commitment" where
  "commitment_of node p expiry =
     \<lparr>cm_wallet_id = nd_wallet_id node, cm_version = tx_version (unsigned_tx p), cm_lock_time = tx_lock_time (unsigned_tx p),
      cm_inputs = map (\<lambda>i. \<lparr>ci_txid = op_txid (previous_output i), ci_vout = op_vout (previous_output i), ci_sequence = sequence i\<rparr>)
        (tx_input (unsigned_tx p)),
      cm_outputs = map (\<lambda>out. \<lparr>co_script_pubkey = script_pubkey out, co_amount = word_of_nat (txo_value out)\<rparr>) (tx_output (unsigned_tx p)),
      cm_fee = word_of_nat (present_utxos p - outputs_sum p), cm_expiry = expiry, cm_policy_version = nd_policy_version node\<rparr>"

definition commitment_id_for :: "'d node \<Rightarrow> psbt \<Rightarrow> 64 word \<Rightarrow> string" where
  "commitment_id_for node p expiry = commitment_id (sa_sha256 (nd_sig node)) (ta_to_hex (nd_text node)) (commitment_of node p expiry)"

subsection \<open>Prevout ground truth\<close>

type_synonym prevout_fetch = "sign_response + prevout option list"

definition ground_truth_refusal :: sign_response where
  "ground_truth_refusal = refuse RcPsbtInconsistent ''prevout_ground_truth''"

definition fetch_prevouts :: "psbt \<Rightarrow> 'w chain_backend \<Rightarrow> 'w \<Rightarrow> prevout_fetch \<times> 'w" where
  "fetch_prevouts p be w =
     (let outpoints = map previous_output (tx_input (unsigned_tx p)) in
      case b_prevouts be outpoints w of
        (Inl _, w1) \<Rightarrow> (Err ground_truth_refusal, w1)
      | (Inr prevouts, w1) \<Rightarrow>
          (if length prevouts \<noteq> length outpoints then Err ground_truth_refusal else Ok prevouts, w1))"

definition prevout_agrees :: "psbt_input option \<Rightarrow> prevout option \<Rightarrow> bool" where
  "prevout_agrees inp prev =
     (case prev of
        None \<Rightarrow> True
      | Some po \<Rightarrow>
          (case Option.bind inp witness_utxo of
             None \<Rightarrow> True
           | Some utxo \<Rightarrow> script_pubkey utxo = script_pubkey (po_txout po) \<and> txo_value utxo = txo_value (po_txout po)))"

definition compare_prevouts_against_chain :: "psbt \<Rightarrow> prevout option list \<Rightarrow> sign_response + unit" where
  "compare_prevouts_against_chain p prevouts =
     (if length prevouts \<noteq> length (tx_input (unsigned_tx p)) then Err ground_truth_refusal
      else if list_all (\<lambda>(index, prev). prevout_agrees (if index < length (psbt_inputs p) then Some (psbt_inputs p ! index) else None) prev)
          (List.enumerate 0 prevouts)
      then Ok () else Err ground_truth_refusal)"

fun escape_prefixed :: "sign_response \<Rightarrow> sign_response" where
  "escape_prefixed (RespRefusal r) = refuse (ref_code r) (''escape:'' @ ref_check r)"
| "escape_prefixed other = other"

definition node_local_prevout_fetch_failure :: "prevout_fetch option \<Rightarrow> prevout_fetch option \<Rightarrow> sign_response option" where
  "node_local_prevout_fetch_failure spend_prevouts escape_prevouts =
     (case spend_prevouts of
        Some (Inl refused) \<Rightarrow> Some refused
      | _ \<Rightarrow> (case escape_prevouts of Some (Inl e) \<Rightarrow> Some (escape_prefixed e) | _ \<Rightarrow> None))"

definition run_prevout_check :: "psbt \<Rightarrow> prevout_fetch option \<Rightarrow> sign_response + unit" where
  "run_prevout_check p prefetched =
     (case prefetched of
        Some (Inr prevouts) \<Rightarrow> compare_prevouts_against_chain p prevouts
      | Some (Inl refused) \<Rightarrow> Err refused
      | None \<Rightarrow> Err ground_truth_refusal)"

definition prefetch_prevouts :: "'d node \<Rightarrow> 'w chain_backend option \<Rightarrow> string \<Rightarrow> 'w \<Rightarrow> prevout_fetch option \<times> 'w" where
  "prefetch_prevouts node be b64 w =
     (case (be, decode_psbt node b64) of
        (Some b, Some p) \<Rightarrow> (let (r, w1) = fetch_prevouts p b w in (Some r, w1))
      | _ \<Rightarrow> (None, w))"

definition prefetch_spend_escape_prevouts ::
  "'d node \<Rightarrow> 'w chain_backend option \<Rightarrow> sign_request \<Rightarrow> 'w \<Rightarrow> (prevout_fetch option \<times> prevout_fetch option) \<times> 'w" where
  "prefetch_spend_escape_prevouts node be request w =
     (let (s, w1) = prefetch_prevouts node be (sr_psbt request) w; (e, w2) = prefetch_prevouts node be (sr_escape_psbt request) w1
      in ((s, e), w2))"

subsection \<open>Signatures\<close>

fun verify_user_inputs :: "'d node \<Rightarrow> transaction \<Rightarrow> nat \<Rightarrow> psbt_input list \<Rightarrow> sign_response + unit" where
  "verify_user_inputs node tx index [] = Ok ()"
| "verify_user_inputs node tx index (inp # inps) =
     (case witness_utxo inp of
        None \<Rightarrow> Err (refuse RcPsbtInconsistent ''user_signature'')
      | Some utxo \<Rightarrow>
          (case sa_sighash (nd_sig node) tx index (nd_witness_script node) (txo_value utxo) of
             None \<Rightarrow> Err (refuse RcPsbtInconsistent ''user_signature'')
           | Some sighash \<Rightarrow>
               (case hm_get (partial_sigs inp) (nd_user_pubkey node) of
                  None \<Rightarrow> Err (refuse UserSigInvalid ''user_signature'')
                | Some s \<Rightarrow>
                    if sig_sighash_type s \<noteq> SIGHASH_ALL then Err (refuse BadSighash ''user_signature'')
                    else if sa_verify (nd_sig node) sighash (signature s) (nd_user_pubkey node)
                      then verify_user_inputs node tx (index + 1) inps
                    else Err (refuse UserSigInvalid ''user_signature''))))"

definition verify_user_signatures :: "'d node \<Rightarrow> psbt \<Rightarrow> sign_response + unit" where
  "verify_user_signatures node p = verify_user_inputs node (unsigned_tx p) 0 (psbt_inputs p)"

fun sign_inputs :: "'d node \<Rightarrow> transaction \<Rightarrow> nat \<Rightarrow> psbt_input list \<Rightarrow> psbt_input list option" where
  "sign_inputs node tx index [] = Some []"
| "sign_inputs node tx index (inp # inps) =
     Option.bind (witness_utxo inp) (\<lambda>utxo.
     Option.bind (sa_sighash (nd_sig node) tx index (nd_witness_script node) (txo_value utxo)) (\<lambda>sighash.
     map_option (\<lambda>rest. inp\<lparr>partial_sigs := hm_insert (nd_pubkey node)
         \<lparr>signature = nd_sign_ecdsa node sighash, sig_sighash_type = SIGHASH_ALL\<rparr> (partial_sigs inp)\<rparr> # rest)
       (sign_inputs node tx (index + 1) inps)))"

text \<open>The PSBT under signature is dropped by the caller when signing fails, so its partial update is not kept.\<close>

definition add_node_signatures :: "'d node \<Rightarrow> psbt \<Rightarrow> psbt option" where
  "add_node_signatures node p = map_option (\<lambda>inps. p\<lparr>psbt_inputs := inps\<rparr>) (sign_inputs node (unsigned_tx p) 0 (psbt_inputs p))"

subsection \<open>Spends, escapes and refreshes\<close>

datatype check_failure = Refused sign_response | PolicyPanic

fun policy_refusal :: "policy_error \<Rightarrow> check_failure" where
  "policy_refusal (Violated v) = Refused (refuse (map_policy_code (vio_code v)) (vio_check v))"
| "policy_refusal Panicked = PolicyPanic"

fun escape_failure :: "check_failure \<Rightarrow> check_failure" where
  "escape_failure (Refused r) = Refused (escape_prefixed r)"
| "escape_failure PolicyPanic = PolicyPanic"

definition map_err :: "('e \<Rightarrow> 'f) \<Rightarrow> 'e + 'a \<Rightarrow> 'f + 'a" where
  "map_err f r = (case r of Inl e \<Rightarrow> Err (f e) | Inr a \<Rightarrow> Ok a)"

definition verify_spend :: "'d node \<Rightarrow> bool \<Rightarrow> psbt \<Rightarrow> prevout_fetch option \<Rightarrow> check_failure + unit" where
  "verify_spend node has_backend p prefetched =
     bind_res (map_err Refused (verify_user_signatures node p)) (\<lambda>_.
     bind_res (if has_backend then map_err Refused (run_prevout_check p prefetched) else Ok ()) (\<lambda>_.
     map_err policy_refusal (evaluate (nd_desc node) p (nd_check_params node))))"

definition verify_escape :: "'d node \<Rightarrow> bool \<Rightarrow> psbt \<Rightarrow> prevout_fetch option \<Rightarrow> check_failure + unit" where
  "verify_escape node has_backend p prefetched =
     map_err escape_failure
       (bind_res (verify_spend node has_backend p prefetched) (\<lambda>_.
        bind_res (map_err policy_refusal (classify (nd_desc node) p (nd_check_params node))) (\<lambda>c.
          if cls_class c = Escape then Ok () else Err (Refused (refuse RcPsbtInconsistent ''transaction_class'')))))"

definition check_refresh_interval :: "'d node \<Rightarrow> refresh_log \<Rightarrow> psbt \<Rightarrow> u64 \<Rightarrow> sign_response option" where
  "check_refresh_interval node refreshes p now =
     (if list_ex (\<lambda>input. case last_refresh refreshes (previous_output input) of
            None \<Rightarrow> False
          | Some prev_at \<Rightarrow> now - prev_at < nd_refresh_min_interval_secs node) (tx_input (unsigned_tx p))
      then Some (refuse RefreshTooSoon ''refresh_min_interval'') else None)"

definition check_refresh_feerate :: "'d node \<Rightarrow> psbt \<Rightarrow> sign_response option" where
  "check_refresh_feerate node p =
     (let fee = present_utxos p - outputs_sum p; vsize = tx_vsize (nd_tx node) (unsigned_tx p) in
      if vsize = 0 then None
      else if fee > sat_mul128 (nd_refresh_max_feerate node) vsize then Some (refuse RefreshFeeExceedsCap ''refresh_fee_cap'')
      else None)"

subsection \<open>What a passed check establishes\<close>

definition user_signed :: "'d node \<Rightarrow> psbt \<Rightarrow> bool" where
  "user_signed node p \<longleftrightarrow> (\<forall>i < length (psbt_inputs p). \<exists>utxo sighash s.
     witness_utxo (psbt_inputs p ! i) = Some utxo \<and>
     sa_sighash (nd_sig node) (unsigned_tx p) i (nd_witness_script node) (txo_value utxo) = Some sighash \<and>
     hm_get (partial_sigs (psbt_inputs p ! i)) (nd_user_pubkey node) = Some s \<and> sig_sighash_type s = SIGHASH_ALL \<and>
     sa_verify (nd_sig node) sighash (signature s) (nd_user_pubkey node))"

lemma verify_user_inputs_Ok:
  assumes "verify_user_inputs node tx k inps = Inr ()" and "i < length inps"
  shows "\<exists>utxo sighash s. witness_utxo (inps ! i) = Some utxo \<and>
    sa_sighash (nd_sig node) tx (k + i) (nd_witness_script node) (txo_value utxo) = Some sighash \<and>
    hm_get (partial_sigs (inps ! i)) (nd_user_pubkey node) = Some s \<and> sig_sighash_type s = SIGHASH_ALL \<and>
    sa_verify (nd_sig node) sighash (signature s) (nd_user_pubkey node)"
  using assms
proof (induction node tx k inps arbitrary: i rule: verify_user_inputs.induct)
  case (2 node tx k inp inps)
  from 2(2) obtain utxo sh s where here: "witness_utxo inp = Some utxo"
    "sa_sighash (nd_sig node) tx k (nd_witness_script node) (txo_value utxo) = Some sh"
    "hm_get (partial_sigs inp) (nd_user_pubkey node) = Some s" "sig_sighash_type s = SIGHASH_ALL"
    "sa_verify (nd_sig node) sh (signature s) (nd_user_pubkey node)" and rest: "verify_user_inputs node tx (k + 1) inps = Inr ()"
    by (auto split: option.split_asm if_split_asm)
  show ?case
  proof (cases i)
    case 0
    with here show ?thesis by simp
  next
    case (Suc j)
    with 2(1) [OF here(1-3) _ here(5) rest, of j] here(4) 2(3) show ?thesis by simp
  qed
qed simp

lemma verify_user_signatures_Ok: "verify_user_signatures node p = Inr () \<Longrightarrow> user_signed node p"
  by (auto simp: verify_user_signatures_def user_signed_def dest: verify_user_inputs_Ok)

definition agrees_with_chain :: "psbt \<Rightarrow> prevout option list \<Rightarrow> bool" where
  "agrees_with_chain p prevouts \<longleftrightarrow> length prevouts = length (tx_input (unsigned_tx p)) \<and>
     (\<forall>i < length prevouts. \<forall>po utxo. prevouts ! i = Some po \<longrightarrow> i < length (psbt_inputs p) \<longrightarrow>
        witness_utxo (psbt_inputs p ! i) = Some utxo \<longrightarrow>
        script_pubkey utxo = script_pubkey (po_txout po) \<and> txo_value utxo = txo_value (po_txout po))"

lemma prevout_agrees_iff:
  "prevout_agrees (if i < length (psbt_inputs p) then Some (psbt_inputs p ! i) else None) prev \<longleftrightarrow>
     (\<forall>po utxo. prev = Some po \<longrightarrow> i < length (psbt_inputs p) \<longrightarrow> witness_utxo (psbt_inputs p ! i) = Some utxo \<longrightarrow>
        script_pubkey utxo = script_pubkey (po_txout po) \<and> txo_value utxo = txo_value (po_txout po))"
  by (auto simp: prevout_agrees_def split: option.split)

lemma compare_prevouts_Ok: "compare_prevouts_against_chain p prevouts = Inr () \<longleftrightarrow> agrees_with_chain p prevouts"
proof -
  have "list_all (\<lambda>(i, prev). prevout_agrees (if i < length (psbt_inputs p) then Some (psbt_inputs p ! i) else None) prev)
      (List.enumerate 0 prevouts) \<longleftrightarrow>
    (\<forall>i < length prevouts. prevout_agrees (if i < length (psbt_inputs p) then Some (psbt_inputs p ! i) else None) (prevouts ! i))"
    unfolding list_all_length by (simp add: nth_enumerate_eq del: if_split cong del: if_weak_cong)
  moreover have "(if n \<noteq> m then Err e else if b then Ok () else Err e) = Inr () \<longleftrightarrow> n = m \<and> b" for n m :: nat and b and e :: sign_response
    by simp
  ultimately show ?thesis
    unfolding compare_prevouts_against_chain_def agrees_with_chain_def prevout_agrees_iff by (simp only:)
qed

lemma map_err_Ok [simp]: "map_err f r = Inr a \<longleftrightarrow> r = Inr a"
  by (auto simp: map_err_def split: sum.splits)

lemma bind_res_Ok: "bind_res r f = Inr b \<longleftrightarrow> (\<exists>a. r = Inr a \<and> f a = Inr b)"
  by (auto simp: bind_res_def split: sum.splits)

lemma verify_spend_Ok:
  assumes "verify_spend node has_backend p prefetched = Inr ()"
  shows "user_signed node p" "evaluate (nd_desc node) p (nd_check_params node) = Inr ()"
    "has_backend \<Longrightarrow> \<exists>prevouts. prefetched = Some (Inr prevouts) \<and> agrees_with_chain p prevouts"
  using assms by (auto simp: verify_spend_def bind_res_Ok run_prevout_check_def compare_prevouts_Ok verify_user_signatures_Ok
      split: option.split_asm sum.split_asm)

lemma verify_escape_Ok:
  assumes "verify_escape node has_backend p prefetched = Inr ()"
  shows "verify_spend node has_backend p prefetched = Inr ()"
    "\<exists>c. classify (nd_desc node) p (nd_check_params node) = Inr c \<and> cls_class c = Escape"
  using assms by (auto simp: verify_escape_def bind_res_Ok split: if_split_asm)

lemma policy_refusal_panic [simp]: "policy_refusal e = PolicyPanic \<longleftrightarrow> e = Panicked"
  by (cases e) simp_all

lemma verify_spend_no_panic: "verify_spend node has_backend p prefetched \<noteq> Inl PolicyPanic"
  using evaluate_never_panics [of "nd_desc node" p "nd_check_params node"]
  by (auto simp: verify_spend_def bind_res_def map_err_def split: sum.splits if_splits)

subsection \<open>Signing\<close>

definition node_signed :: "'d node \<Rightarrow> transaction \<Rightarrow> nat \<Rightarrow> psbt_input \<Rightarrow> psbt_input \<Rightarrow> bool" where
  "node_signed node tx i inp inp' \<longleftrightarrow> (\<exists>utxo sighash. witness_utxo inp = Some utxo \<and>
     sa_sighash (nd_sig node) tx i (nd_witness_script node) (txo_value utxo) = Some sighash \<and>
     inp' = inp\<lparr>partial_sigs := hm_insert (nd_pubkey node)
       \<lparr>signature = nd_sign_ecdsa node sighash, sig_sighash_type = SIGHASH_ALL\<rparr> (partial_sigs inp)\<rparr>)"

lemma sign_inputs_Some:
  assumes "sign_inputs node tx k inps = Some out"
  shows "length out = length inps \<and> (\<forall>i < length inps. node_signed node tx (k + i) (inps ! i) (out ! i))"
  using assms
proof (induction inps arbitrary: k out)
  case (Cons inp inps)
  then obtain utxo sh rest where
    here: "witness_utxo inp = Some utxo" "sa_sighash (nd_sig node) tx k (nd_witness_script node) (txo_value utxo) = Some sh"
    and rest: "sign_inputs node tx (Suc k) inps = Some rest"
      "out = inp\<lparr>partial_sigs := hm_insert (nd_pubkey node) \<lparr>signature = nd_sign_ecdsa node sh, sig_sighash_type = SIGHASH_ALL\<rparr> (partial_sigs inp)\<rparr> # rest"
    by (auto simp: bind_eq_Some_conv)
  from Cons.IH [OF rest(1)] here show ?case
    by (auto simp: rest(2) nth_Cons node_signed_def split: nat.split)
qed simp

lemma add_node_signatures_Some:
  assumes "add_node_signatures node p = Some p'"
  shows "unsigned_tx p' = unsigned_tx p" "psbt_outputs p' = psbt_outputs p" "length (psbt_inputs p') = length (psbt_inputs p)"
    "\<forall>i < length (psbt_inputs p). node_signed node (unsigned_tx p) i (psbt_inputs p ! i) (psbt_inputs p' ! i)"
  using assms sign_inputs_Some [of node "unsigned_tx p" 0 "psbt_inputs p"] by (auto simp: add_node_signatures_def)

text \<open>Signing fails exactly where verifying the user's signatures would have failed before.\<close>

lemma sign_inputs_total: "verify_user_inputs node tx k inps = Inr () \<Longrightarrow> \<exists>out. sign_inputs node tx k inps = Some out"
  by (induction node tx k inps rule: verify_user_inputs.induct) (auto split: option.split_asm if_split_asm)

lemma add_node_signatures_total: "verify_user_signatures node p = Inr () \<Longrightarrow> \<exists>p'. add_node_signatures node p = Some p'"
  by (auto simp: verify_user_signatures_def add_node_signatures_def dest!: sign_inputs_total)

subsection \<open>The payload hides its secrets\<close>

text \<open>What the payload relies on of the JSON encoder: a string field adds the encoded lengths of its characters, no
  character takes more than six bytes (\<open>\u00xx\<close>), and a hexadecimal digit takes one.\<close>

definition json_len :: "(char \<Rightarrow> nat) \<Rightarrow> string \<Rightarrow> nat" where
  "json_len je s = sum_list (map je s)"

definition hex_digits :: string where "hex_digits = ''0123456789abcdef''"

definition json_sized :: "(tagged_request \<Rightarrow> bytes) \<Rightarrow> (char \<Rightarrow> nat) \<Rightarrow> bool" where
  "json_sized json je \<longleftrightarrow> (\<forall>c. je c \<le> 6) \<and> (\<forall>c \<in> set hex_digits. je c = 1) \<and>
     (\<forall>r. length (json (TaggedSpend r)) = length (json (fst (request_shape (TaggedSpend r)))) +
        json_len je (sr_pin r) + json_len je (sr_nonce r) + json_len je (sr_coord_sig r)) \<and>
     (\<forall>r. length (json (TaggedRefresh r)) = length (json (fst (request_shape (TaggedRefresh r)))) +
        json_len je (rr_nonce r) + json_len je (rr_coord_sig r))"

text \<open>The bounds that authentication has established of a request by the time it is propagated.\<close>

definition nonce_and_sig_ok :: "string \<Rightarrow> string \<Rightarrow> bool" where
  "nonce_and_sig_ok nonce s \<longleftrightarrow> length nonce \<le> MAX_COORD_NONCE_BYTES \<and> length s \<le> MAX_COORD_SIG_HEX_BYTES \<and> set s \<subseteq> set hex_digits"

fun bounded_request :: "tagged_request \<Rightarrow> bool" where
  "bounded_request (TaggedSpend r) = (length (sr_pin r) \<le> MAX_PIN_BYTES \<and> nonce_and_sig_ok (sr_nonce r) (sr_coord_sig r))"
| "bounded_request (TaggedRefresh r) = nonce_and_sig_ok (rr_nonce r) (rr_coord_sig r)"

lemma json_len_le: "\<forall>c. je c \<le> 6 \<Longrightarrow> json_len je s \<le> 6 * length s"
  using sum_list_mono [of s je "\<lambda>_. 6"] by (simp add: json_len_def sum_list_triv mult.commute)

lemma json_len_hex: "\<forall>c \<in> set hex_digits. je c = 1 \<Longrightarrow> set s \<subseteq> set hex_digits \<Longrightarrow> json_len je s = length s"
  by (induction s) (auto simp: json_len_def)

lemma payload_within_budget:
  assumes "json_sized (nd_json node) je" "bounded_request r"
  shows "length (nd_json node r) \<le> length (nd_json node (fst (request_shape r))) + snd (request_shape r)"
proof (cases r)
  case (TaggedSpend q)
  from assms(1) have js: "length (nd_json node (TaggedSpend q)) = length (nd_json node (fst (request_shape (TaggedSpend q)))) +
      json_len je (sr_pin q) + json_len je (sr_nonce q) + json_len je (sr_coord_sig q)"
    and je: "\<forall>c. je c \<le> 6" "\<forall>c \<in> set hex_digits. je c = 1" unfolding json_sized_def by blast+
  from assms(2) TaggedSpend have b: "length (sr_pin q) \<le> MAX_PIN_BYTES" "nonce_and_sig_ok (sr_nonce q) (sr_coord_sig q)" by simp_all
  have s: "snd (request_shape (TaggedSpend q)) = 6 * (MAX_PIN_BYTES + MAX_COORD_NONCE_BYTES) + MAX_COORD_SIG_HEX_BYTES"
    by (simp add: JSON_BYTE_EXPANSION_def)
  from b je json_len_le [OF je(1), of "sr_pin q"] json_len_le [OF je(1), of "sr_nonce q"] json_len_hex [OF je(2), of "sr_coord_sig q"] show ?thesis
    unfolding TaggedSpend js s nonce_and_sig_ok_def by (auto simp del: request_shape.simps)
next
  case (TaggedRefresh q)
  from assms(1) have js: "length (nd_json node (TaggedRefresh q)) = length (nd_json node (fst (request_shape (TaggedRefresh q)))) +
      json_len je (rr_nonce q) + json_len je (rr_coord_sig q)"
    and je: "\<forall>c. je c \<le> 6" "\<forall>c \<in> set hex_digits. je c = 1" unfolding json_sized_def by blast+
  from assms(2) TaggedRefresh have b: "nonce_and_sig_ok (rr_nonce q) (rr_coord_sig q)" by simp
  have s: "snd (request_shape (TaggedRefresh q)) = 6 * MAX_COORD_NONCE_BYTES + MAX_COORD_SIG_HEX_BYTES"
    by (simp add: JSON_BYTE_EXPANSION_def)
  from b je json_len_le [OF je(1), of "rr_nonce q"] json_len_hex [OF je(2), of "rr_coord_sig q"] show ?thesis
    unfolding TaggedRefresh js s nonce_and_sig_ok_def by (auto simp del: request_shape.simps)
qed

text \<open>The size of a propagated request does not depend on its PIN. Under the documented size of JSON strings,
  two authenticated requests that agree on everything but PIN, nonce and signature are propagated as payloads of
  the same length, and no payload is ever cut short: each begins with the exact encoding of its request.\<close>

theorem payload_size_hides_secrets:
  assumes "json_sized (nd_json node) je" and "bounded_request r" "bounded_request r'"
    and "request_shape r = request_shape r'" and "length (nd_json node (fst (request_shape r))) < 2 ^ 63"
  shows "length (request_payload node r) = length (request_payload node r') \<and>
    take (length (nd_json node r)) (request_payload node r) = nd_json node r"
proof -
  have budget: "snd (request_shape r) \<le> 912" 
    by (cases r) (simp_all add: JSON_BYTE_EXPANSION_def MAX_PIN_BYTES_def MAX_COORD_NONCE_BYTES_def MAX_COORD_SIG_HEX_BYTES_def MAX_ECDSA_DER_BYTES_def)
  have sat: "sat_add64 (length (nd_json node (fst (request_shape r)))) (snd (request_shape r)) =
      length (nd_json node (fst (request_shape r))) + snd (request_shape r)"
    using assms(5) budget by (simp add: sat_add64_def u64_max_def)
  have fixed: "length (request_payload node q) = length (nd_json node (fst (request_shape r))) + snd (request_shape r)"
    if "bounded_request q" "request_shape q = request_shape r" for q
    using payload_within_budget [OF assms(1) that(1)] sat that(2) by (simp add: request_payload_def Let_def split_beta)
  show ?thesis using fixed [OF assms(2) refl] fixed [OF assms(3)] assms(4)
    by (simp add: request_payload_def Let_def split_beta)
qed

definition demo_request_with :: "string \<Rightarrow> string \<Rightarrow> tagged_request" where
  "demo_request_with pin sg = TaggedSpend \<lparr>sr_psbt = ''p'', sr_escape_psbt = ''e'', sr_escape_bumps = [], sr_pin = pin, sr_nonce = ''n'',
     sr_expiry = 100, sr_policy_version = 1, sr_coord_sig = sg\<rparr>"

definition plain_json :: "tagged_request \<Rightarrow> bytes" where
  "plain_json r = (case r of
     TaggedSpend q \<Rightarrow> str_bytes (sr_psbt q @ sr_escape_psbt q @ sr_pin q @ sr_nonce q @ sr_coord_sig q)
   | TaggedRefresh q \<Rightarrow> str_bytes (rr_refresh_psbt q @ rr_nonce q @ rr_coord_sig q))"

theorem payload_size_hides_secrets_witness:
  "length (request_payload (demo_node\<lparr>nd_json := plain_json\<rparr>) (demo_request_with ''1234'' ''ab'')) =
   length (request_payload (demo_node\<lparr>nd_json := plain_json\<rparr>) (demo_request_with ''86753090'' ''cdef''))"
proof -
  let ?node = "demo_node\<lparr>nd_json := plain_json\<rparr>"
  have "json_len (\<lambda>_. 1) s = length s" for s by (simp add: json_len_def sum_list_triv)
  then have law: "json_sized (nd_json ?node) (\<lambda>_. 1)"
    by (simp add: json_sized_def plain_json_def)
  have b: "bounded_request (demo_request_with ''1234'' ''ab'')" "bounded_request (demo_request_with ''86753090'' ''cdef'')"
    "request_shape (demo_request_with ''1234'' ''ab'') = request_shape (demo_request_with ''86753090'' ''cdef'')"
    by (simp_all add: demo_request_with_def nonce_and_sig_ok_def hex_digits_def MAX_PIN_BYTES_def MAX_COORD_NONCE_BYTES_def
        MAX_COORD_SIG_HEX_BYTES_def MAX_ECDSA_DER_BYTES_def)
  have "length (nd_json ?node (fst (request_shape (demo_request_with ''1234'' ''ab'')))) < 2 ^ 63"
    by (simp add: demo_request_with_def plain_json_def)
  from payload_size_hides_secrets [OF law b this] show ?thesis by simp
qed

end
