(* ===== verification/Sign_Pipeline.thy ===== *)
theory Sign_Pipeline
  imports Request_Checks Fire_Loop
begin

text \<open>
  The spend handler of \<open>crates/vault-node/src/lib.rs\<close> (\<open>handle_sign_after_lock\<close>). The code takes the sign lock
  three times: to authenticate and admit the request, to rule on the PIN that was evaluated outside the lock, and,
  after the chain reads, to verify, reserve, sign, register and record. \<open>sign_admit\<close>, \<open>sign_rule\<close> and
  \<open>sign_decide\<close> are these critical sections; \<open>handle_sign\<close> composes them. What other threads do
  while the lock is released is an argument, a function on the node state, so a theorem about the handler
  quantifies over it. The guards that Rust drops at the end of the call are \<open>finish_sign\<close>. The handlers run
  on a live store lock; a poisoned sign lock, and the \<open>expect\<close>s of the call itself, are the value
  \<open>HandlerPanic\<close>.
\<close>

subsection \<open>State and results\<close>

datatype bad_request = NotPropagatable | CannotDecode string

datatype handled = Handled "bad_request + sign_response" | HandlerPanic

abbreviation answer :: "sign_response \<Rightarrow> handled" where "answer r \<equiv> Handled (Ok r)"

text \<open>\<open>InFlightMemoGuard\<close>.\<close>

record nonce_claim =
  nc_nonce :: string
  nc_generation :: memo_generation
  nc_owns_memo :: bool
  nc_ruling_carrier :: "string option"

record admitted =
  am_first_seen :: u64
  am_generation :: "memo_generation option"
  am_claim :: "nonce_claim option"

record sign_clock =
  sk_admit_raw :: u64
  sk_admit_mono :: u64
  sk_rule_raw :: u64
  sk_decide_raw :: u64
  sk_prune_mono :: u64
  sk_reserve_mono :: u64
  sk_register_mono :: u64
  sk_drop_mono :: u64

definition has_channel :: "node_state \<Rightarrow> bool" where
  "has_channel ns = (ns_channel ns \<noteq> None)"

definition with_store :: "(partial_store \<Rightarrow> partial_store) \<Rightarrow> node_state \<Rightarrow> node_state" where
  "with_store f ns = ns\<lparr>ns_channel := map_option (\<lambda>ch. ch\<lparr>ch_store := f (ch_store ch)\<rparr>) (ns_channel ns)\<rparr>"

definition set_sign :: "(sign_state \<Rightarrow> sign_state) \<Rightarrow> node_state \<Rightarrow> node_state" where
  "set_sign f ns = ns\<lparr>ns_sign := f (ns_sign ns)\<rparr>"

definition push_outbox :: "tagged_request \<Rightarrow> node_state \<Rightarrow> node_state" where
  "push_outbox r ns = ns\<lparr>ns_outbox := ns_outbox ns @ [r]\<rparr>"

definition stage_spend_carrier :: "'d node \<Rightarrow> tagged_request \<Rightarrow> string \<Rightarrow> node_state \<Rightarrow> node_state" where
  "stage_spend_carrier node request carrier ns =
     with_store (\<lambda>st. mark_carrier_propagated (nd_env node) st carrier) (push_outbox request ns)"

definition drop_claim :: "u64 \<Rightarrow> nonce_claim option \<Rightarrow> node_state \<Rightarrow> node_state" where
  "drop_claim mono_now claim ns =
     (case claim of
        None \<Rightarrow> ns
      | Some c \<Rightarrow>
          let ns1 = (if nc_owns_memo c then with_store (\<lambda>st. release_nonce_claim st (nc_nonce c) (nc_generation c)) ns else ns)
          in case nc_ruling_carrier c of None \<Rightarrow> ns1 | Some k \<Rightarrow> with_store (\<lambda>st. end_carrier_ruling st k mono_now) ns1)"

definition finish_sign :: "u64 \<Rightarrow> nonce_claim option \<Rightarrow> node_state \<Rightarrow> node_state" where
  "finish_sign mono_now claim ns = (drop_claim mono_now claim ns)\<lparr>ns_spend_preflight := ns_spend_preflight ns - 1\<rparr>"

subsection \<open>Admission\<close>

definition sign_generation :: "'d node \<Rightarrow> sign_request \<Rightarrow> u64 option \<Rightarrow> memo_generation option" where
  "sign_generation node request carrier_dl =
     Option.bind (arm_signature_tag node (sr_coord_sig request)) (\<lambda>tag.
       map_option (\<lambda>d. \<lparr>gen_signature_tag = tag, gen_expiry = unat (sr_expiry request), gen_deadline = d\<rparr>) carrier_dl)"

definition claim_for :: "sign_request \<Rightarrow> memo_generation \<Rightarrow> nonce_claim" where
  "claim_for request g = \<lparr>nc_nonce = sr_nonce request, nc_generation = g, nc_owns_memo = True, nc_ruling_carrier = None\<rparr>"

definition admit_claim ::
  "'d node \<Rightarrow> u64 \<Rightarrow> sign_request \<Rightarrow> u64 \<Rightarrow> u64 option \<Rightarrow> node_state \<Rightarrow> node_state \<times> (handled + admitted)" where
  "admit_claim node mono_now request eff carrier_dl ns =
     (if \<not> has_channel ns
      then (ns\<lparr>ns_spend_preflight := ns_spend_preflight ns + 1\<rparr>, Ok \<lparr>am_first_seen = eff, am_generation = None, am_claim = None\<rparr>)
      else (case sign_generation node request carrier_dl of
              None \<Rightarrow> (ns\<lparr>ns_sign_poisoned := True\<rparr>, Err HandlerPanic)
            | Some g \<Rightarrow>
                (with_store (\<lambda>st. claim_nonce_in_flight st (sr_nonce request) g mono_now)
                   (ns\<lparr>ns_spend_preflight := ns_spend_preflight ns + 1\<rparr>),
                 Ok \<lparr>am_first_seen = eff, am_generation = Some g, am_claim = Some (claim_for request g)\<rparr>)))"

definition sign_admit :: "'d node \<Rightarrow> sign_clock \<Rightarrow> sign_request \<Rightarrow> node_state \<Rightarrow> node_state \<times> (handled + admitted)" where
  "sign_admit node clock request ns =
     (if ns_lockdown ns then (ns, Err (answer fraud_suspected))
      else if ns_sign_poisoned ns then (ns, Err HandlerPanic)
      else let mono_now = (if has_channel ns then Some (sk_admit_mono clock) else None);
               (nonces, r) = verify_coord_auth node (sign_coord_request request) (sr_coord_sig request) (sk_admit_raw clock)
                  (ss_coord_nonces (ns_sign ns)) mono_now;
               ns1 = set_sign (\<lambda>s. s\<lparr>ss_coord_nonces := nonces\<rparr>) ns
        in case r of
             Inl rejected \<Rightarrow> (ns1, Err (answer rejected))
           | Inr (eff, carrier_dl) \<Rightarrow>
               if \<not> ensure_request_propagatable node (has_channel ns) (TaggedSpend request)
               then (ns1, Err (Handled (Err NotPropagatable)))
               else (case ensure_delivery_horizon node (has_channel ns) (unat (sr_expiry request)) eff of
                       Some refused \<Rightarrow> (push_outbox (TaggedSpend request) ns1, Err (answer refused))
                     | None \<Rightarrow> admit_claim node (sk_admit_mono clock) request eff carrier_dl ns1))"

subsection \<open>The PIN\<close>

definition pin_ruling :: "'d node \<Rightarrow> string \<Rightarrow> pin_verdict option" where
  "pin_ruling node pin =
     map_option (\<lambda>compared. if pin = [] \<or> length pin > MAX_PIN_BYTES then Wrong else compared)
       (verify_pin (nd_pin_evaluator node) (str_bytes pin))"

text \<open>\<open>fire_arm_hook\<close>: the counter wraps, the intent is recorded with the duress bit of the verdict.\<close>

definition fire_arm_hook ::
  "'d node \<Rightarrow> pin_verdict \<Rightarrow> string \<Rightarrow> string \<Rightarrow> memo_generation option \<Rightarrow> u64 \<Rightarrow> u64 \<Rightarrow> node_state \<Rightarrow> node_state \<times> memo_upgrade option" where
  "fire_arm_hook node ruling carrier nonce g first now ns =
     (let ns1 = ns\<lparr>ns_duress_arm := ns_duress_arm ns + (if ruling = Duress then 1 else 0)\<rparr> in
      case (ns_channel ns1, g) of
        (Some ch, Some gen) \<Rightarrow>
          let (st', up) = record_arm_intent (ch_store ch) (ruling = Duress) carrier nonce gen first now (duress_timing_of node)
          in (set_store st' ns1, Some up)
      | _ \<Rightarrow> (ns1, None))"

definition claim_after :: "string \<Rightarrow> memo_upgrade option \<Rightarrow> nonce_claim option \<Rightarrow> nonce_claim option" where
  "claim_after carrier upgrade claim =
     (case upgrade of
        None \<Rightarrow> claim
      | Some up \<Rightarrow> map_option (\<lambda>c. c\<lparr>nc_ruling_carrier := Some carrier,
            nc_owns_memo := (if up \<in> {Upgraded, Reinstalled} then False else nc_owns_memo c)\<rparr>) claim)"

text \<open>The two expiry tests and the delivery horizon, taken again at every later clock reading.\<close>

definition expiry_refusal :: "'d node \<Rightarrow> bool \<Rightarrow> u64 \<Rightarrow> u64 \<Rightarrow> u64 \<Rightarrow> sign_response option" where
  "expiry_refusal node has_ch expiry now raw_now =
     (if expiry \<le> now then Some (refuse CommitmentExpired ''commitment_expiry'')
      else if expiry > sat_add64 raw_now (nd_max_commitment_age_secs node) then Some (refuse CommitmentExpired ''commitment_expiry'')
      else ensure_delivery_horizon node has_ch expiry now)"

definition sign_rule ::
  "'d node \<Rightarrow> sign_clock \<Rightarrow> sign_request \<Rightarrow> admitted \<Rightarrow> pin_verdict \<Rightarrow> string \<Rightarrow> node_state \<Rightarrow> node_state \<times> nonce_claim option \<times> handled option" where
  "sign_rule node clock request adm ruling carrier ns =
     (if ns_sign_poisoned ns then (ns, am_claim adm, Some HandlerPanic)
      else if ns_lockdown ns then (ns, am_claim adm, Some (answer fraud_suspected))
      else let commit_now = effective_now (ss_coord_nonces (ns_sign ns)) (sk_rule_raw clock);
               (ns1, upgrade) = fire_arm_hook node ruling carrier (sr_nonce request) (am_generation adm) (am_first_seen adm) commit_now ns;
               claim = claim_after carrier upgrade (am_claim adm)
        in case expiry_refusal node (has_channel ns) (unat (sr_expiry request)) commit_now (sk_rule_raw clock) of
             Some refused \<Rightarrow> (stage_spend_carrier node (TaggedSpend request) carrier ns1, claim, Some (answer refused))
           | None \<Rightarrow>
               (case charge (ss_pin_budget (ns_sign ns1)) ruling commit_now (nd_pin_budget_config node) of
                  None \<Rightarrow> (ns1\<lparr>ns_sign_poisoned := True\<rparr>, claim, Some HandlerPanic)
                | Some (pb, outcome) \<Rightarrow>
                    let ns2 = set_sign (\<lambda>s. s\<lparr>ss_pin_budget := pb\<rparr>) ns1 in
                    if co_refuse outcome
                    then (stage_spend_carrier node (TaggedSpend request) carrier ns2, claim, Some (answer (pin_refusal (co_locked outcome))))
                    else (ns2, claim, None)))"

subsection \<open>Registration\<close>

record pair_registration =
  rp_spend :: psbt
  rp_spend_commitment_id :: string
  rp_spend_hot :: bool
  rp_duress :: bool
  rp_confirmation_required :: bool
  rp_escape :: psbt
  rp_escape_bumps :: "psbt list"
  rp_escape_commitment_id :: string
  rp_fire :: fire_window
  rp_expiry :: u64
  rp_now :: u64
  rp_hot_reserve :: "hot_reserve_spec option"
  rp_carrier :: string

definition pair_specs :: "pair_registration \<Rightarrow> candidate_spec list" where
  "pair_specs p =
     \<lparr>cs_psbt = rp_spend p, cs_escape_bumps = [], cs_commitment_id = rp_spend_commitment_id p,
      cs_paired_commitment_id = rp_escape_commitment_id p, cs_holder_quorum_reached = (\<not> rp_confirmation_required p),
      cs_role = RoleSpend, cs_hot = rp_spend_hot p, cs_fire = Some (rp_fire p), cs_expiry = rp_expiry p\<rparr> #
     (if rp_escape_commitment_id p \<noteq> rp_spend_commitment_id p
      then [\<lparr>cs_psbt = rp_escape p, cs_escape_bumps = rp_escape_bumps p, cs_commitment_id = rp_escape_commitment_id p,
             cs_paired_commitment_id = rp_spend_commitment_id p, cs_holder_quorum_reached = (\<not> rp_confirmation_required p),
             cs_role = RoleEscape, cs_hot = False, cs_fire = None, cs_expiry = rp_expiry p\<rparr>]
      else [])"

definition pair_directive :: "'d node \<Rightarrow> pair_registration \<Rightarrow> arm_directive" where
  "pair_directive node p =
     \<lparr>ad_sweep_escape = rp_escape_commitment_id p, ad_spend_commitment_id = rp_spend_commitment_id p, ad_carrier = rp_carrier p,
      ad_duress = rp_duress p, ad_epsilon_secs = nd_epsilon_secs node, ad_now = rp_now p\<rparr>"

definition register_verdict :: "hot_reserve_spec option \<Rightarrow> hot_reserve_refusal + register_outcome list \<Rightarrow> sign_response + unit" where
  "register_verdict hres r =
     (case r of
        Inl _ \<Rightarrow> Err (case hres of None \<Rightarrow> refuse RcPsbtInconsistent ''candidate_registration'' | Some _ \<Rightarrow> hot_velocity_refusal)
      | Inr outcomes \<Rightarrow>
          if Conflict \<in> set outcomes then Err (refuse RcPsbtInconsistent ''candidate_identity'')
          else if RegAtCapacity \<in> set outcomes then Err (refuse CandidateCapacity ''candidate_registry_capacity'')
          else Ok ())"

definition register_pair :: "'d node \<Rightarrow> u64 \<Rightarrow> pair_registration \<Rightarrow> node_state \<Rightarrow> node_state \<times> (sign_response + unit)" where
  "register_pair node mono_now p ns =
     (case ns_channel ns of
        None \<Rightarrow> (ns, Ok ())
      | Some ch \<Rightarrow>
          (case build_all (channel_of node) (pair_specs p) of
             Inl _ \<Rightarrow> (ns, Err (refuse RcPsbtInconsistent ''candidate_registration''))
           | Inr cs \<Rightarrow>
               let (st', r) = register_candidates (nd_sig node) (nd_env node) mono_now (ch_store ch) cs (pair_directive node p) (rp_hot_reserve p)
               in (set_store st' ns, register_verdict (rp_hot_reserve p) r)))"

subsection \<open>The decision\<close>

text \<open>The facts of a decoded request that the later steps read.\<close>

record spend_case =
  sc_request :: sign_request
  sc_carrier :: string
  sc_duress :: bool
  sc_raw_now :: u64
  sc_now :: u64
  sc_spend :: psbt
  sc_escape :: psbt
  sc_bumps :: "psbt list"
  sc_commitment_id :: string
  sc_escape_id :: string
  sc_key :: string

definition sc_expiry :: "spend_case \<Rightarrow> u64" where
  "sc_expiry c = unat (sr_expiry (sc_request c))"

definition staged :: "'d node \<Rightarrow> spend_case \<Rightarrow> node_state \<Rightarrow> node_state" where
  "staged node c = stage_spend_carrier node (TaggedSpend (sc_request c)) (sc_carrier c)"

fun sign_all :: "'d node \<Rightarrow> psbt list \<Rightarrow> psbt list option" where
  "sign_all node [] = Some []"
| "sign_all node (p # ps) = Option.bind (add_node_signatures node p) (\<lambda>q. map_option (Cons q) (sign_all node ps))"

definition pair_of_case :: "'d node \<Rightarrow> spend_case \<Rightarrow> classification \<Rightarrow> u64 \<Rightarrow> psbt \<Rightarrow> psbt \<Rightarrow> psbt list \<Rightarrow> pair_registration" where
  "pair_of_case node c cls fire_time spend esc bmps =
     \<lparr>rp_spend = spend, rp_spend_commitment_id = sc_commitment_id c, rp_spend_hot = (cls_class cls = Hot), rp_duress = sc_duress c,
      rp_confirmation_required = True, rp_escape = esc, rp_escape_bumps = bmps, rp_escape_commitment_id = sc_escape_id c,
      rp_fire = \<lparr>fire_at = fire_time, fw_deadline = min (sc_expiry c) (sat_add64 fire_time (nd_combine_slack_secs node))\<rparr>,
      rp_expiry = sc_expiry c, rp_now = sc_now c,
      rp_hot_reserve = (if cls_class cls = Hot
         then Some \<lparr>hs_commitment_id = sc_commitment_id c, hs_outflow_sat = cls_hot_outflow cls, hs_wall_now = sc_raw_now c, hs_expiry = sc_expiry c\<rparr>
         else None),
      rp_carrier = sc_carrier c\<rparr>"

definition set_insert_all :: "'a list \<Rightarrow> 'a list \<Rightarrow> 'a list" where
  "set_insert_all xs s = fold set_insert xs s"

definition record_acceptance :: "'d node \<Rightarrow> spend_case \<Rightarrow> classification \<Rightarrow> u64 \<Rightarrow> node_state \<Rightarrow> node_state \<times> handled" where
  "record_acceptance node c cls fire_time ns =
     (let txids = map (\<lambda>p. sa_txid (nd_sig node) (unsigned_tx p)) (sc_spend c # sc_escape c # sc_bumps c);
          ack = RespAccepted \<lparr>ack_commitment_id = sc_commitment_id c, ack_first_seen = sc_now c, ack_remaining_secs = fire_time - sc_now c\<rparr>;
          ns1 = ns\<lparr>ns_authorized := set_insert_all txids (ns_authorized ns)\<rparr>;
          ns2 = (if cls_class cls = Hot then set_sign (\<lambda>s. s\<lparr>ss_pending := pending_record (ss_pending s) (sc_commitment_id c) (sc_expiry c)\<rparr>) ns1 else ns1)
      in (set_sign (\<lambda>s. s\<lparr>ss_replay := record_verdict (ss_replay s) (sc_key c) (sc_expiry c) ack\<rparr>) ns2, answer ack))"

text \<open>From the Hold on: sign, stage, register, record.\<close>

definition sign_and_register ::
  "'d node \<Rightarrow> u64 \<Rightarrow> spend_case \<Rightarrow> classification \<Rightarrow> u64 \<Rightarrow> (node_state \<Rightarrow> node_state) \<Rightarrow> node_state \<Rightarrow> node_state \<times> handled" where
  "sign_and_register node mono_now c cls fire_time unwind ns =
     (case sign_all node (sc_spend c # sc_escape c # sc_bumps c) of
        Some (spend # esc # bmps) \<Rightarrow>
          let (ns1, r) = register_pair node mono_now (pair_of_case node c cls fire_time spend esc bmps) (staged node c ns) in
          (case r of
             Inl refused \<Rightarrow> (unwind ns1, answer refused)
           | Inr _ \<Rightarrow> record_acceptance node c cls fire_time ns1)
      | _ \<Rightarrow> (unwind ns, answer (refuse RcPsbtInconsistent ''signing'')))"

definition hold_and_sign ::
  "'d node \<Rightarrow> u64 \<Rightarrow> spend_case \<Rightarrow> classification \<Rightarrow> (node_state \<Rightarrow> node_state) \<Rightarrow> node_state \<Rightarrow> node_state \<times> handled" where
  "hold_and_sign node mono_now c cls unwind ns =
     (case cls_class cls of
        Refresh \<Rightarrow> (unwind ns, answer (refuse RcPsbtInconsistent ''transaction_class''))
      | Escape \<Rightarrow>
          if sc_escape_id c = sc_commitment_id c then (unwind ns, answer (refuse RcPsbtInconsistent ''escape_class_residual''))
          else sign_and_register node mono_now c cls (sc_now c) unwind ns
      | Hot \<Rightarrow>
          let fire_time = sat_add64 (sc_now c) (nd_hold_secs node) in
          if sc_expiry c < sat_add64 fire_time (nd_combine_slack_secs node)
          then (staged node c (unwind ns), answer (refuse ExpiryTooShort ''commitment_expiry''))
          else sign_and_register node mono_now c cls fire_time unwind ns)"

text \<open>The escape, its ladder and every bump.\<close>

definition verify_all_escapes :: "'d node \<Rightarrow> bool \<Rightarrow> spend_case \<Rightarrow> prevout_fetch option \<Rightarrow> check_failure + unit" where
  "verify_all_escapes node has_backend c prefetched =
     bind_res (verify_escape node has_backend (sc_escape c) prefetched) (\<lambda>_.
     bind_res (map_err Refused (ensure_escape_ladder node (sc_escape c) (sc_bumps c) (sc_escape_id c = sc_commitment_id c))) (\<lambda>_.
     fold (\<lambda>bump r. bind_res r (\<lambda>_. verify_escape node has_backend bump prefetched)) (sc_bumps c) (Ok ())))"

definition after_reserve ::
  "'d node \<Rightarrow> bool \<Rightarrow> u64 \<Rightarrow> spend_case \<Rightarrow> prevout_fetch option \<Rightarrow> classification \<Rightarrow> (node_state \<Rightarrow> node_state) \<Rightarrow> node_state
    \<Rightarrow> node_state \<times> handled" where
  "after_reserve node has_backend mono_now c escape_prevouts cls unwind ns =
     (case verify_all_escapes node has_backend c escape_prevouts of
        Inl (Refused r) \<Rightarrow> (unwind ns, answer r)
      | Inl PolicyPanic \<Rightarrow> (ns\<lparr>ns_sign_poisoned := True\<rparr>, HandlerPanic)
      | Inr _ \<Rightarrow> hold_and_sign node mono_now c cls unwind ns)"

definition reserve_hot :: "u64 \<Rightarrow> spend_case \<Rightarrow> classification \<Rightarrow> node_state \<Rightarrow> node_state \<times> (unit + bool)" where
  "reserve_hot mono_now c cls ns =
     (case ns_channel ns of
        None \<Rightarrow> (ns, Ok False)
      | Some ch \<Rightarrow>
          let (st', r) = reserve_hot_budget (ch_store ch) mono_now (sc_commitment_id c) (cls_hot_outflow cls) (sc_raw_now c) (sc_expiry c)
          in (set_store st' ns, map_err (\<lambda>_. ()) r))"

definition record_refusal :: "spend_case \<Rightarrow> sign_response \<Rightarrow> node_state \<Rightarrow> node_state" where
  "record_refusal c r = set_sign (\<lambda>s. s\<lparr>ss_replay := record_verdict (ss_replay s) (sc_commitment_id c) (sc_expiry c) r\<rparr>)"

definition after_verify ::
  "'d node \<Rightarrow> bool \<Rightarrow> sign_clock \<Rightarrow> spend_case \<Rightarrow> prevout_fetch option \<Rightarrow> node_state \<Rightarrow> node_state \<times> handled" where
  "after_verify node has_backend clock c escape_prevouts ns =
     (case classify (nd_desc node) (sc_spend c) (nd_check_params node) of
        Inl e \<Rightarrow> (case policy_refusal e of
                    Refused r \<Rightarrow> (record_refusal c r ns, answer r)
                  | PolicyPanic \<Rightarrow> (ns\<lparr>ns_sign_poisoned := True\<rparr>, HandlerPanic))
      | Inr cls \<Rightarrow>
          (case cls_class cls of
             Refresh \<Rightarrow> let r = refuse RcPsbtInconsistent ''transaction_class'' in (record_refusal c r ns, answer r)
           | Escape \<Rightarrow> after_reserve node has_backend (sk_register_mono clock) c escape_prevouts cls (\<lambda>x. x) ns
           | Hot \<Rightarrow>
               (case reserve_hot (sk_reserve_mono clock) c cls ns of
                  (ns1, Inl _) \<Rightarrow> (staged node c ns1, answer hot_velocity_refusal)
                | (ns1, Inr new) \<Rightarrow>
                    after_reserve node has_backend (sk_register_mono clock) c escape_prevouts cls
                      (if new then with_store (\<lambda>st. release_hot_budget st (sc_commitment_id c)) else (\<lambda>x. x)) ns1)))"

definition prune_logs :: "'d node \<Rightarrow> u64 \<Rightarrow> u64 \<Rightarrow> node_state \<Rightarrow> node_state" where
  "prune_logs node now mono_now ns =
     with_store (\<lambda>st. prune_store st now mono_now)
       (set_sign (\<lambda>s. s\<lparr>ss_pending := pending_prune (ss_pending s) now,
          ss_refreshes := refresh_prune (ss_refreshes s) now (nd_refresh_min_interval_secs node)\<rparr>) ns)"

definition verify_fresh ::
  "'d node \<Rightarrow> bool \<Rightarrow> sign_clock \<Rightarrow> spend_case \<Rightarrow> prevout_fetch option \<times> prevout_fetch option \<Rightarrow> node_state \<Rightarrow> node_state \<times> handled" where
  "verify_fresh node has_backend clock c pre ns =
     (case node_local_prevout_fetch_failure (fst pre) (snd pre) of
        Some refused \<Rightarrow> (staged node c ns, answer refused)
      | None \<Rightarrow>
          let ns1 = prune_logs node (sc_now c) (sk_prune_mono clock) ns in
          (case verify_spend node has_backend (sc_spend c) (fst pre) of
             Inl PolicyPanic \<Rightarrow> (ns1\<lparr>ns_sign_poisoned := True\<rparr>, HandlerPanic)
           | Inl (Refused r) \<Rightarrow>
               let ns2 = (case r of RespRefusal x \<Rightarrow> if ref_code x = RcHotBudgetExceeded then staged node c ns1 else ns1 | _ \<Rightarrow> ns1)
               in (record_refusal c r ns2, answer r)
           | Inr _ \<Rightarrow> after_verify node has_backend clock c (snd pre) ns1))"

text \<open>A recorded verdict is returned as it is; a recorded acceptance also refreshes its schedule and its intent.\<close>

definition replay_or_verify ::
  "'d node \<Rightarrow> bool \<Rightarrow> sign_clock \<Rightarrow> spend_case \<Rightarrow> prevout_fetch option \<times> prevout_fetch option \<Rightarrow> node_state \<Rightarrow> node_state \<times> handled" where
  "replay_or_verify node has_backend clock c pre ns0 =
     (let ns = set_sign (\<lambda>s. s\<lparr>ss_replay := replay_prune (ss_replay s) (sc_now c)\<rparr>) ns0 in
      case replay_get (ss_replay (ns_sign ns)) (sc_key c) (sc_now c) of
        Some recorded \<Rightarrow>
          (staged node c
             (with_store (\<lambda>st. record_intent_pair
                (apply_cached_schedule st (sc_escape_id c) (sc_duress c) (sc_now c) (nd_epsilon_secs node))
                (sc_carrier c) (sc_commitment_id c) (sc_escape_id c)) ns), answer recorded)
      | None \<Rightarrow>
          (case replay_get (ss_replay (ns_sign ns)) (sc_commitment_id c) (sc_now c) of
             Some recorded \<Rightarrow> (ns, answer recorded)
           | None \<Rightarrow> verify_fresh node has_backend clock c pre ns))"

fun decode_bumps :: "'d node \<Rightarrow> string list \<Rightarrow> psbt list option" where
  "decode_bumps node [] = Some []"
| "decode_bumps node (b # bs) = Option.bind (decode_psbt node b) (\<lambda>p. map_option (Cons p) (decode_bumps node bs))"

definition bump_labels :: "psbt list \<Rightarrow> (string \<times> psbt) list" where
  "bump_labels bmps = map (\<lambda>(i, p). (''escape_bump:'' @ [CHR ''0'', CHR ''1'', CHR ''2''] ! i # [], p)) (List.enumerate 0 bmps)"

definition spend_case_of ::
  "'d node \<Rightarrow> sign_request \<Rightarrow> string \<Rightarrow> bool \<Rightarrow> u64 \<Rightarrow> u64 \<Rightarrow> psbt \<Rightarrow> psbt \<Rightarrow> psbt list \<Rightarrow> spend_case" where
  "spend_case_of node request carrier dur raw_now now spend esc bmps =
     (let cid = commitment_id_for node spend (sr_expiry request); eid = commitment_id_for node esc (sr_expiry request) in
      \<lparr>sc_request = request, sc_carrier = carrier, sc_duress = dur, sc_raw_now = raw_now, sc_now = now, sc_spend = spend, sc_escape = esc,
       sc_bumps = bmps, sc_commitment_id = cid, sc_escape_id = eid,
       sc_key = acceptance_replay_key node ((cid, spend) # (eid, esc) # bump_labels bmps)\<rparr>)"

definition decode_and_decide ::
  "'d node \<Rightarrow> bool \<Rightarrow> sign_clock \<Rightarrow> sign_request \<Rightarrow> pin_verdict \<Rightarrow> string \<Rightarrow> prevout_fetch option \<times> prevout_fetch option \<Rightarrow> u64 \<Rightarrow> node_state
    \<Rightarrow> node_state \<times> handled" where
  "decode_and_decide node has_backend clock request ruling carrier pre now ns =
     (case decode_psbt node (sr_psbt request) of
        None \<Rightarrow> (ns, Handled (Err (CannotDecode ''spend'')))
      | Some spend \<Rightarrow>
          (case decode_psbt node (sr_escape_psbt request) of
             None \<Rightarrow> (ns, Handled (Err (CannotDecode ''escape'')))
           | Some esc \<Rightarrow>
               if length (sr_escape_bumps request) > MAX_ESCAPE_BUMPS then (ns, answer (refuse RcPsbtInconsistent ''escape:bump_ladder''))
               else (case decode_bumps node (sr_escape_bumps request) of
                       None \<Rightarrow> (ns, Handled (Err (CannotDecode ''escape_bump'')))
                     | Some bmps \<Rightarrow>
                         replay_or_verify node has_backend clock
                           (spend_case_of node request carrier (ruling = Duress) (sk_decide_raw clock) now spend esc bmps) pre ns)))"

definition sign_decide ::
  "'d node \<Rightarrow> bool \<Rightarrow> sign_clock \<Rightarrow> sign_request \<Rightarrow> pin_verdict \<Rightarrow> string \<Rightarrow> prevout_fetch option \<times> prevout_fetch option \<Rightarrow> node_state
    \<Rightarrow> node_state \<times> handled" where
  "sign_decide node has_backend clock request ruling carrier pre ns =
     (if ns_sign_poisoned ns then (ns, HandlerPanic)
      else if ns_lockdown ns then (ns, answer fraud_suspected)
      else let now = effective_now (ss_coord_nonces (ns_sign ns)) (sk_decide_raw clock) in
        case expiry_refusal node (has_channel ns) (unat (sr_expiry request)) now (sk_decide_raw clock) of
          Some refused \<Rightarrow> (stage_spend_carrier node (TaggedSpend request) carrier ns, answer refused)
        | None \<Rightarrow> decode_and_decide node has_backend clock request ruling carrier pre now ns)"

subsection \<open>The handler\<close>

text \<open>\<open>during_pin\<close> and \<open>during_fetch\<close> are what other threads do while this call is outside the lock.
  \<open>sign_ruled\<close> is the call from the PIN's ruling on.\<close>

definition sign_ruled ::
  "'d node \<Rightarrow> 'w chain_backend option \<Rightarrow> sign_clock \<Rightarrow> (node_state \<Rightarrow> node_state) \<Rightarrow> sign_request \<Rightarrow> admitted \<Rightarrow> pin_verdict \<Rightarrow> string
    \<Rightarrow> node_state \<Rightarrow> 'w \<Rightarrow> (node_state \<times> handled) \<times> 'w" where
  "sign_ruled node be clock during_fetch request adm ruling carrier ns w =
     (case sign_rule node clock request adm ruling carrier ns of
        (ns2, claim, Some h) \<Rightarrow> ((finish_sign (sk_drop_mono clock) claim ns2, h), w)
      | (ns2, claim, None) \<Rightarrow>
          let (pre, w1) = prefetch_spend_escape_prevouts node be request w;
              (ns3, h) = sign_decide node (be \<noteq> None) clock request ruling carrier pre (during_fetch ns2)
          in ((finish_sign (sk_drop_mono clock) claim ns3, h), w1))"

definition handle_sign ::
  "'d node \<Rightarrow> 'w chain_backend option \<Rightarrow> sign_clock \<Rightarrow> (node_state \<Rightarrow> node_state) \<Rightarrow> (node_state \<Rightarrow> node_state) \<Rightarrow> sign_request
    \<Rightarrow> node_state \<Rightarrow> 'w \<Rightarrow> (node_state \<times> handled) \<times> 'w" where
  "handle_sign node be clock during_pin during_fetch request ns w =
     (case sign_admit node clock request ns of
        (ns1, Inl h) \<Rightarrow> ((ns1, h), w)
      | (ns1, Inr adm) \<Rightarrow>
          (case pin_ruling node (sr_pin request) of
             None \<Rightarrow> ((finish_sign (sk_drop_mono clock) (am_claim adm) (during_pin ns1), HandlerPanic), w)
           | Some ruling \<Rightarrow>
               let carrier = (if has_channel ns1 then arm_carrier_id node (sign_coord_request request) else [])
               in sign_ruled node be clock during_fetch request adm ruling carrier (during_pin ns1) w))"

end
