(* ===== verification/Sign_Sound.thy ===== *)
theory Sign_Sound
  imports Sign_Pipeline
begin

text \<open>
  What the spend handler guarantees. First, everything it does to the candidate store is an execution of the channel
  machine, so the theorems about the channel hold of a store that the handlers worked on. Second, what an
  acceptance certifies, whatever the other threads did while the handler was outside its lock.
\<close>

subsection \<open>The handler is an execution of the channel\<close>

definition node_runs :: "'d node \<Rightarrow> node_state \<Rightarrow> node_state \<Rightarrow> bool" where
  "node_runs node ns ns' \<longleftrightarrow>
     (case ns_channel ns of
        None \<Rightarrow> ns_channel ns' = None
      | Some ch \<Rightarrow> \<exists>ch'. ns_channel ns' = Some ch' \<and> store_runs node (ch_store ch) (ch_store ch'))"

lemma node_runs_same: "ns_channel ns' = ns_channel ns \<Longrightarrow> node_runs node ns ns'"
  by (simp add: node_runs_def split: option.split)

lemma node_runs_refl [simp]: "node_runs node ns ns"
  by (simp add: node_runs_same)

lemma node_runs_trans [trans]: "node_runs node a b \<Longrightarrow> node_runs node b c \<Longrightarrow> node_runs node a c"
  by (auto simp: node_runs_def split: option.split_asm intro: store_runs_trans)

lemma node_runs_frame [simp]:
  "node_runs node a (b\<lparr>ns_sign := x\<rparr>) = node_runs node a b" "node_runs node a (b\<lparr>ns_sign_poisoned := y\<rparr>) = node_runs node a b"
  "node_runs node a (b\<lparr>ns_spend_preflight := n\<rparr>) = node_runs node a b" "node_runs node a (b\<lparr>ns_outbox := q\<rparr>) = node_runs node a b"
  "node_runs node a (b\<lparr>ns_authorized := t\<rparr>) = node_runs node a b" "node_runs node a (b\<lparr>ns_duress_arm := d\<rparr>) = node_runs node a b"
  "node_runs node a (set_sign f b) = node_runs node a b" "node_runs node a (push_outbox r b) = node_runs node a b"
  by (simp_all add: node_runs_def set_sign_def push_outbox_def cong: option.case_cong)

lemma node_runs_with_store:
  assumes "\<And>st. f st = channel_next (channel_of node) op st"
  shows "node_runs node ns (with_store f ns)"
  using assms by (auto simp: node_runs_def with_store_def intro: store_runs_op split: option.split)

lemma node_runs_set_store:
  assumes "ns_channel ns = Some ch" "st' = channel_next (channel_of node) op (ch_store ch)"
  shows "node_runs node ns (set_store st' ns)"
  using assms by (auto simp: node_runs_def set_store_def intro: store_runs_op split: option.split)

lemma runs_stage: "node_runs node ns (stage_spend_carrier node r k ns)"
  unfolding stage_spend_carrier_def
  by (rule node_runs_trans [OF node_runs_same node_runs_with_store [of _ _ "OpMarkPropagated k"]])
     (simp_all add: push_outbox_def channel_next_def channel_of_def)

lemma runs_stage_from [intro]: "node_runs node a b \<Longrightarrow> node_runs node a (stage_spend_carrier node r k b)"
  by (rule node_runs_trans [OF _ runs_stage])

lemma runs_staged: "node_runs node ns (staged node c ns)"
  by (simp add: staged_def runs_stage)

lemma runs_release_nonce: "node_runs node ns (with_store (\<lambda>st. release_nonce_claim st n g) ns)"
  by (rule node_runs_with_store [of _ _ "OpReleaseNonce n g"]) (simp add: channel_next_def)

lemma runs_end_ruling: "node_runs node ns (with_store (\<lambda>st. end_carrier_ruling st k t) ns)"
  by (rule node_runs_with_store [of _ _ "OpEndRuling k t"]) (simp add: channel_next_def)

lemma runs_claim_nonce: "node_runs node ns (with_store (\<lambda>st. claim_nonce_in_flight st n g t) ns)"
  by (rule node_runs_with_store [of _ _ "OpClaimNonce n g t"]) (simp add: channel_next_def)

lemma runs_release_hot: "node_runs node ns (with_store (\<lambda>st. release_hot_budget st k) ns)"
  by (rule node_runs_with_store [of _ _ "OpReleaseHot k"]) (simp add: channel_next_def)

lemma runs_prune_node: "node_runs node ns (with_store (\<lambda>st. prune_store st now t) ns)"
  by (rule node_runs_with_store [of _ _ "OpPruneStore now t"]) (simp add: channel_next_def)

lemma runs_cached:
  "node_runs node ns (with_store (\<lambda>st. record_intent_pair (apply_cached_schedule st e d now eps) k c e') ns)"
proof -
  have "with_store (\<lambda>st. record_intent_pair (apply_cached_schedule st e d now eps) k c e') ns =
      with_store (\<lambda>st. record_intent_pair st k c e') (with_store (\<lambda>st. apply_cached_schedule st e d now eps) ns)"
    by (simp add: with_store_def option.map_comp comp_def)
  moreover have "node_runs node ns (with_store (\<lambda>st. record_intent_pair st k c e') (with_store (\<lambda>st. apply_cached_schedule st e d now eps) ns))"
    by (rule node_runs_trans [OF node_runs_with_store [of _ _ "OpCachedSchedule e d now eps"]
          node_runs_with_store [of _ _ "OpRecordIntentPair k c e'"]]) (simp_all add: channel_next_def)
  ultimately show ?thesis by simp
qed

lemma runs_drop_claim: "node_runs node ns (drop_claim t claim ns)"
proof (cases claim)
  case (Some c)
  let ?ns1 = "if nc_owns_memo c then with_store (\<lambda>st. release_nonce_claim st (nc_nonce c) (nc_generation c)) ns else ns"
  have "node_runs node ns ?ns1" by (simp add: runs_release_nonce)
  with Some show ?thesis
    by (auto simp: drop_claim_def Let_def split: option.split intro: node_runs_trans [OF _ runs_end_ruling])
qed (simp add: drop_claim_def)

lemma runs_finish: "node_runs node ns (finish_sign t claim ns)"
  by (simp add: finish_sign_def runs_drop_claim)

lemma runs_admit: "sign_admit node clock r ns = (ns', res) \<Longrightarrow> node_runs node ns ns'"
proof -
  have claim: "node_runs node a (fst (admit_claim node t r eff cd b)) = node_runs node a b" if "ns_channel a = ns_channel b" for a b t eff cd
    using that node_runs_trans [OF node_runs_same [of b a] runs_claim_nonce]
    by (auto simp: admit_claim_def node_runs_same split: option.split intro: node_runs_trans [OF node_runs_same runs_claim_nonce])
  assume "sign_admit node clock r ns = (ns', res)"
  then have "ns' = fst (sign_admit node clock r ns)" by simp
  then show ?thesis
    by (auto simp: sign_admit_def Let_def claim set_sign_def split_beta split: option.split sum.split)
qed

lemma runs_hook: "fire_arm_hook node v k n g first now ns = (ns', up) \<Longrightarrow> node_runs node ns ns'"
proof (cases "ns_channel ns")
  case (Some ch)
  assume hook: "fire_arm_hook node v k n g first now ns = (ns', up)"
  show ?thesis
  proof (cases g)
    case gen: (Some gen)
    let ?ns1 = "ns\<lparr>ns_duress_arm := ns_duress_arm ns + (if v = Duress then 1 else 0)\<rparr>"
    have "node_runs node ?ns1 (set_store (fst (record_arm_intent (ch_store ch) (v = Duress) k n gen first now (duress_timing_of node))) ?ns1)"
      by (rule node_runs_set_store [of _ ch _ _ "OpRecordArmIntent (v = Duress) k n gen first now"])
         (simp_all add: Some channel_next_def channel_of_def)
    moreover have "node_runs node ns ?ns1" by simp
    ultimately have "node_runs node ns (set_store (fst (record_arm_intent (ch_store ch) (v = Duress) k n gen first now (duress_timing_of node))) ?ns1)"
      by (rule node_runs_trans [rotated])
    with hook Some gen show ?thesis by (simp add: fire_arm_hook_def Let_def split_beta)
  qed (use hook in \<open>simp add: fire_arm_hook_def Let_def Some, auto intro: node_runs_same\<close>)
qed (auto simp: fire_arm_hook_def Let_def intro: node_runs_same)

lemma runs_rule:
  assumes "sign_rule node clock r adm v k ns = (ns', claim, res)"
  shows "node_runs node ns ns'"
proof -
  let ?now = "effective_now (ss_coord_nonces (ns_sign ns)) (sk_rule_raw clock)"
  obtain ns1 up where hook: "fire_arm_hook node v k (sr_nonce r) (am_generation adm) (am_first_seen adm) ?now ns = (ns1, up)" by fastforce
  note h = runs_hook [OF hook]
  from assms hook show ?thesis
    by (auto simp: sign_rule_def Let_def h intro!: runs_stage_from split: if_split_asm option.split_asm prod.split_asm)
qed

lemma runs_register: "register_pair node t p ns = (ns', res) \<Longrightarrow> node_runs node ns ns'"
proof -
  assume reg: "register_pair node t p ns = (ns', res)"
  show ?thesis
  proof (cases "ns_channel ns")
    case (Some ch)
    show ?thesis
    proof (cases "build_all (channel_of node) (pair_specs p)")
      case (Inr cs)
      have "node_runs node ns (set_store (fst (register_candidates (nd_sig node) (nd_env node) t (ch_store ch) cs
          (pair_directive node p) (rp_hot_reserve p))) ns)"
        by (rule node_runs_set_store [of _ ch _ _ "OpRegister (pair_specs p) (pair_directive node p) (rp_hot_reserve p) t"])
           (simp_all add: Some channel_next_def Inr, simp add: channel_of_def)
      with reg Some Inr show ?thesis by (simp add: register_pair_def split_beta Let_def)
    qed (use reg Some in \<open>simp add: register_pair_def\<close>)
  qed (use reg in \<open>simp add: register_pair_def\<close>)
qed

lemma runs_record_acceptance: "record_acceptance node c cls f ns = (ns', h) \<Longrightarrow> node_runs node a ns' = node_runs node a ns"
  by (auto simp: record_acceptance_def Let_def split: if_split_asm)

text \<open>An unwinding is harmless when it runs the channel.\<close>

definition harmless :: "'d node \<Rightarrow> (node_state \<Rightarrow> node_state) \<Rightarrow> bool" where
  "harmless node f \<longleftrightarrow> (\<forall>ns. node_runs node ns (f ns))"

lemma harmless_after: "harmless node f \<Longrightarrow> node_runs node a b \<Longrightarrow> node_runs node a (f b)"
  using node_runs_trans [of node a b "f b"] by (simp add: harmless_def)

lemma runs_sign_and_register:
  assumes "sign_and_register node t c cls f unwind ns = (ns', h)" and "harmless node unwind"
  shows "node_runs node ns ns'"
proof -
  have staged: "node_runs node ns x" if "register_pair node t p (staged node c ns) = (x, r)" for p x r
    using node_runs_trans [OF runs_staged runs_register [OF that]] .
  from assms(1) show ?thesis
    by (auto simp: sign_and_register_def Let_def harmless_after [OF assms(2)] runs_record_acceptance
        split: option.split_asm list.split_asm prod.split_asm sum.split_asm dest!: staged)
qed

lemma runs_hold:
  assumes "hold_and_sign node t c cls unwind ns = (ns', h)" and "harmless node unwind"
  shows "node_runs node ns ns'"
  using assms(1) node_runs_trans [OF harmless_after [OF assms(2) node_runs_refl] runs_staged]
  by (auto simp: hold_and_sign_def Let_def harmless_after [OF assms(2)] split: tx_class.split_asm if_split_asm
      dest: runs_sign_and_register [OF _ assms(2)])

lemma runs_after_reserve:
  assumes "after_reserve node hb t c pre cls unwind ns = (ns', h)" and "harmless node unwind"
  shows "node_runs node ns ns'"
  using assms(1) by (auto simp: after_reserve_def harmless_after [OF assms(2)] split: sum.split_asm check_failure.split_asm
      dest: runs_hold [OF _ assms(2)])

lemma runs_reserve: "reserve_hot t c cls ns = (ns', r) \<Longrightarrow> node_runs node ns ns'"
proof (cases "ns_channel ns")
  case (Some ch)
  assume res: "reserve_hot t c cls ns = (ns', r)"
  have "node_runs node ns (set_store (fst (reserve_hot_budget (ch_store ch) t (sc_commitment_id c) (cls_hot_outflow cls) (sc_raw_now c) (sc_expiry c))) ns)"
    by (rule node_runs_set_store [of _ ch _ _ "OpReserveHot (sc_commitment_id c) (cls_hot_outflow cls) t (sc_raw_now c) (sc_expiry c)"])
       (simp_all add: Some channel_next_def)
  with res Some show ?thesis by (simp add: reserve_hot_def split_beta Let_def)
qed (simp add: reserve_hot_def)

lemma runs_after_verify:
  assumes "after_verify node hb clock c pre ns = (ns', h)"
  shows "node_runs node ns ns'"
proof -
  have unwind: "harmless node (if new then with_store (\<lambda>st. release_hot_budget st k) else (\<lambda>x. x))" for new k
    by (simp add: harmless_def runs_release_hot)
  have id: "harmless node (\<lambda>x. x)" by (simp add: harmless_def)
  have res: "node_runs node ns x" if "reserve_hot t c cls ns = (x, r)" for t cls x r using runs_reserve [OF that] .
  from assms show ?thesis
    by (auto simp: after_verify_def Let_def record_refusal_def split: sum.split_asm check_failure.split_asm tx_class.split_asm prod.split_asm
        dest: runs_after_reserve [OF _ id] runs_after_reserve [OF _ unwind] dest!: res
        intro: node_runs_trans [OF _ runs_staged] node_runs_trans)
qed

lemma runs_verify_fresh:
  assumes "verify_fresh node hb clock c pre ns = (ns', h)"
  shows "node_runs node ns ns'"
proof -
  have pr: "node_runs node ns (prune_logs node now t ns)" for now t
    unfolding prune_logs_def by (rule node_runs_trans [OF node_runs_same runs_prune_node]) (simp add: set_sign_def)
  from assms show ?thesis
    by (auto simp: verify_fresh_def Let_def record_refusal_def pr runs_staged
        split: option.split_asm sum.split_asm check_failure.split_asm sign_response.split_asm if_split_asm
        dest!: runs_after_verify intro: node_runs_trans [OF pr] node_runs_trans [OF pr runs_staged])
qed

lemma runs_decide:
  assumes "sign_decide node hb clock r v k pre ns = (ns', h)"
  shows "node_runs node ns ns'"
proof -
  have rep: "node_runs node ns x" if "replay_or_verify node hb clock c pre ns = (x, h)" for c x
  proof -
    let ?ns = "set_sign (\<lambda>s. s\<lparr>ss_replay := replay_prune (ss_replay s) (sc_now c)\<rparr>) ns"
    have p: "node_runs node ns ?ns" by simp
    from that show ?thesis
      by (auto simp: replay_or_verify_def Let_def split: option.split_asm
          intro: node_runs_trans [OF p node_runs_trans [OF runs_cached runs_staged]] node_runs_trans [OF p runs_verify_fresh])
  qed
  from assms show ?thesis
    by (auto simp: sign_decide_def decode_and_decide_def Let_def runs_stage split: if_split_asm option.split_asm dest: rep)
qed

lemma handle_sign_end:
  assumes "sign_admit node clock r ns = (ns1, Inr adm)" "pin_ruling node (sr_pin r) = Some v"
    and "sign_rule node clock r adm v (if has_channel ns1 then arm_carrier_id node (sign_coord_request r) else []) (during_pin ns1) = (ns2, claim, res2)"
    and "prefetch_spend_escape_prevouts node be r w = (pre, w1)"
    and "sign_decide node (be \<noteq> None) clock r v (if has_channel ns1 then arm_carrier_id node (sign_coord_request r) else []) pre (during_fetch ns2) =
      (ns3, h3)"
  shows "handle_sign node be clock during_pin during_fetch r ns w =
    (case res2 of Some h \<Rightarrow> ((finish_sign (sk_drop_mono clock) claim ns2, h), w)
     | None \<Rightarrow> ((finish_sign (sk_drop_mono clock) claim ns3, h3), w1))"
  unfolding handle_sign_def assms(1,2) by (simp only: prod.case sum.case option.case Let_def sign_ruled_def assms(3-5) split: option.split)

lemma handle_sign_runs:
  assumes "handle_sign node be clock during_pin during_fetch r ns w = ((ns', h), w')"
    and "harmless node during_pin" "harmless node during_fetch"
  shows "node_runs node ns ns'"
proof -
  note fin = node_runs_trans [OF _ runs_finish]
  obtain ns1 res where adm: "sign_admit node clock r ns = (ns1, res)" by fastforce
  note r1 = runs_admit [OF adm]
  note r2 = harmless_after [OF assms(2) r1]
  show ?thesis
  proof (cases res)
    case (Inl x)
    with adm assms(1) r1 show ?thesis by (simp add: handle_sign_def)
  next
    case ok: (Inr a)
    show ?thesis
    proof (cases "pin_ruling node (sr_pin r)")
      case None
      with adm ok assms(1) fin [OF r2] show ?thesis by (auto simp: handle_sign_def)
    next
      case pin: (Some v)
      let ?k = "if has_channel ns1 then arm_carrier_id node (sign_coord_request r) else []"
      obtain ns2 claim res2 where rl: "sign_rule node clock r a v ?k (during_pin ns1) = (ns2, claim, res2)" by (metis surj_pair)
      note r3 = node_runs_trans [OF r2 runs_rule [OF rl]]
      obtain pre w1 where pf: "prefetch_spend_escape_prevouts node be r w = (pre, w1)" by fastforce
      obtain ns3 h3 where dc: "sign_decide node (be \<noteq> None) clock r v ?k pre (during_fetch ns2) = (ns3, h3)" by fastforce
      note r4 = node_runs_trans [OF harmless_after [OF assms(3) r3] runs_decide [OF dc]]
      from assms(1) handle_sign_end [where during_pin = during_pin and during_fetch = during_fetch, OF adm [unfolded ok] pin rl pf dc] fin [OF r3] fin [OF r4] show ?thesis
        by (cases res2) auto
    qed
  qed
qed

subsection \<open>Refusals are refusals\<close>

fun is_refusal :: "sign_response \<Rightarrow> bool" where
  "is_refusal (RespRefusal _) = True"
| "is_refusal (RespAccepted _) = False"

lemma is_refusal_refuse [simp]: "is_refusal (refuse code check)"
  by (simp add: refuse_def)

lemma not_accepted [simp]: "is_refusal r \<Longrightarrow> r \<noteq> RespAccepted a" "is_refusal r \<Longrightarrow> RespAccepted a \<noteq> r"
  by auto

definition refusing :: "sign_response + 'a \<Rightarrow> bool" where
  "refusing r \<longleftrightarrow> (\<forall>e. r = Inl e \<longrightarrow> is_refusal e)"

definition failing :: "check_failure + 'a \<Rightarrow> bool" where
  "failing r \<longleftrightarrow> (\<forall>e. r = Inl (Refused e) \<longrightarrow> is_refusal e)"

lemma refusing_simps [simp]: "refusing (Inr x)" "refusing (Inl e) = is_refusal e"
  by (simp_all add: refusing_def)

lemma failing_simps [simp]: "failing (Inr x)" "failing (Inl PolicyPanic)" "failing (Inl (Refused e)) = is_refusal e"
  by (simp_all add: failing_def)

lemma failing_bind [intro]: "failing r \<Longrightarrow> (\<And>a. failing (f a)) \<Longrightarrow> failing (bind_res r f)"
  by (cases r) (simp_all add: failing_def bind_res_def)

lemma failing_lift: "refusing r \<Longrightarrow> failing (map_err Refused r)"
  by (cases r) (simp_all add: map_err_def)

lemma failing_policy: "failing (map_err policy_refusal r)"
proof (cases r)
  case (Inl e)
  then show ?thesis by (cases e) (simp_all add: map_err_def)
qed (simp add: map_err_def)

lemma is_refusal_escape [simp]: "is_refusal (escape_prefixed r) = is_refusal r"
  by (cases r) simp_all

lemma failing_escape: "failing r \<Longrightarrow> failing (map_err escape_failure r)"
proof (cases r)
  case (Inl e)
  then show "failing r \<Longrightarrow> ?thesis" by (cases e) (simp_all add: map_err_def)
qed (simp add: map_err_def)

lemma refusing_user: "refusing (verify_user_signatures node p)"
proof -
  have "refusing (verify_user_inputs node tx k inps)" for tx k inps
    by (induction node tx k inps rule: verify_user_inputs.induct) (auto split: option.split)
  then show ?thesis by (simp add: verify_user_signatures_def)
qed

definition fetch_refuses :: "prevout_fetch option \<Rightarrow> bool" where
  "fetch_refuses f \<longleftrightarrow> (\<forall>e. f = Some (Inl e) \<longrightarrow> is_refusal e)"

lemma refusing_prevouts: "fetch_refuses f \<Longrightarrow> refusing (run_prevout_check p f)"
  by (auto simp: refusing_def run_prevout_check_def compare_prevouts_against_chain_def fetch_refuses_def ground_truth_refusal_def
      split: option.split_asm sum.split_asm if_split_asm)

lemma failing_spend: "fetch_refuses f \<Longrightarrow> failing (verify_spend node hb p f)"
  unfolding verify_spend_def by (intro failing_bind failing_lift failing_policy refusing_user) (simp add: failing_lift refusing_prevouts)

lemma failing_verify_escape: "fetch_refuses f \<Longrightarrow> failing (verify_escape node hb p f)"
  unfolding verify_escape_def by (intro failing_escape failing_bind failing_spend failing_policy) simp_all

lemma refusing_bind: "refusing r \<Longrightarrow> (\<And>a. refusing (f a)) \<Longrightarrow> refusing (bind_res r f)"
  by (cases r) (simp_all add: bind_res_def)

lemma refusing_for_each: "(\<And>x. refusing (f x)) \<Longrightarrow> refusing (for_each f xs)"
  by (induction xs) (auto intro: refusing_bind)

lemma refusing_bad_ladder [simp]: "is_refusal bad_ladder"
  by (simp add: bad_ladder_def)

lemma refusing_rungs: "refusing (ladder_rungs node ins scr fee vals bs)"
  by (induction node ins scr fee vals bs rule: ladder_rungs.induct) (auto simp: Let_def split: option.split)

lemma refusing_ladder: "refusing (ensure_escape_ladder node e bs sp)"
  by (auto simp: ensure_escape_ladder_def rung_shape_def intro!: refusing_bind refusing_for_each refusing_rungs split: option.split)

lemma failing_all_escapes: "fetch_refuses f \<Longrightarrow> failing (verify_all_escapes node hb c f)"
proof -
  assume f: "fetch_refuses f"
  have "failing (fold (\<lambda>bump r. bind_res r (\<lambda>_. verify_escape node hb bump f)) bs r)" if "failing r" for bs r
    using that by (induction bs arbitrary: r) (simp_all add: failing_bind failing_verify_escape [OF f])
  then show ?thesis
    unfolding verify_all_escapes_def by (intro failing_bind failing_verify_escape [OF f] failing_lift refusing_ladder) simp
qed

lemma refusing_register: "register_pair node t p ns = (ns', r) \<Longrightarrow> refusing r"
  by (auto simp: register_pair_def register_verdict_def Let_def hot_velocity_refusal_def
      split: option.split_asm sum.split_asm prod.split_asm if_split_asm)

lemma refusal_expiry: "expiry_refusal node hc e now raw = Some r \<Longrightarrow> is_refusal r"
  by (auto simp: expiry_refusal_def ensure_delivery_horizon_def split: if_split_asm)

subsection \<open>What an acceptance certifies\<close>

definition escape_ok :: "'d node \<Rightarrow> bool \<Rightarrow> prevout_fetch option \<Rightarrow> psbt \<Rightarrow> bool" where
  "escape_ok node hb prefetched p \<longleftrightarrow> user_signed node p \<and> evaluate (nd_desc node) p (nd_check_params node) = Inr () \<and>
     (\<exists>cls. classify (nd_desc node) p (nd_check_params node) = Inr cls \<and> cls_class cls = Escape) \<and>
     (hb \<longrightarrow> (\<exists>prevouts. prefetched = Some (Inr prevouts) \<and> agrees_with_chain p prevouts))"

lemma escape_okI: "verify_escape node hb p f = Inr () \<Longrightarrow> escape_ok node hb f p"
  using verify_escape_Ok [of node hb p f] verify_spend_Ok [of node hb p f] by (auto simp: escape_ok_def)

lemma fold_escapes_Ok:
  "fold (\<lambda>bump r. bind_res r (\<lambda>_. verify_escape node hb bump f)) bs r = Inr () \<Longrightarrow>
     r = Inr () \<and> (\<forall>p \<in> set bs. verify_escape node hb p f = Inr ())"
proof (induction bs arbitrary: r)
  case (Cons b bs)
  have "bind_res r (\<lambda>_. verify_escape node hb b f) = Inr () \<and> (\<forall>p \<in> set bs. verify_escape node hb p f = Inr ())"
    by (rule Cons.IH) (use Cons.prems in simp)
  then show ?case by (cases r) (simp_all add: bind_res_def)
qed simp

lemma all_escapes_Ok:
  assumes "verify_all_escapes node hb c f = Inr ()"
  shows "\<forall>p \<in> set (sc_escape c # sc_bumps c). escape_ok node hb f p"
    "ensure_escape_ladder node (sc_escape c) (sc_bumps c) (sc_escape_id c = sc_commitment_id c) = Inr ()"
  using assms by (auto simp: verify_all_escapes_def bind_res_Ok dest!: fold_escapes_Ok intro: escape_okI)

text \<open>The conditions under which a spend is accepted that no earlier verdict was recorded for.\<close>

definition fresh_acceptance ::
  "'d node \<Rightarrow> bool \<Rightarrow> spend_case \<Rightarrow> prevout_fetch option \<times> prevout_fetch option \<Rightarrow> accepted_ack \<Rightarrow> bool" where
  "fresh_acceptance node hb c pre a \<longleftrightarrow>
     user_signed node (sc_spend c) \<and> evaluate (nd_desc node) (sc_spend c) (nd_check_params node) = Inr () \<and>
     (hb \<longrightarrow> (\<exists>prevouts. fst pre = Some (Inr prevouts) \<and> agrees_with_chain (sc_spend c) prevouts)) \<and>
     (\<forall>p \<in> set (sc_escape c # sc_bumps c). escape_ok node hb (snd pre) p) \<and>
     ensure_escape_ladder node (sc_escape c) (sc_bumps c) (sc_escape_id c = sc_commitment_id c) = Inr () \<and>
     (\<exists>cls. classify (nd_desc node) (sc_spend c) (nd_check_params node) = Inr cls \<and>
        (cls_class cls = Hot \<and> sat_add64 (sat_add64 (sc_now c) (nd_hold_secs node)) (nd_combine_slack_secs node) \<le> sc_expiry c \<and>
           ack_remaining_secs a = sat_add64 (sc_now c) (nd_hold_secs node) - sc_now c \<or>
         cls_class cls = Escape \<and> sc_escape_id c \<noteq> sc_commitment_id c \<and> ack_remaining_secs a = 0)) \<and>
     ack_commitment_id a = sc_commitment_id c \<and> ack_first_seen a = sc_now c"

lemma sign_and_register_Accepted:
  assumes "sign_and_register node t c cls f unwind ns = (ns', answer (RespAccepted a))"
  shows "ack_commitment_id a = sc_commitment_id c \<and> ack_first_seen a = sc_now c \<and> ack_remaining_secs a = f - sc_now c"
  using assms by (auto simp: sign_and_register_def record_acceptance_def Let_def dest!: refusing_register
      split: option.split_asm list.split_asm prod.split_asm sum.split_asm)

lemma hold_and_sign_Accepted:
  assumes "hold_and_sign node t c cls unwind ns = (ns', answer (RespAccepted a))"
  shows "(cls_class cls = Hot \<and> sat_add64 (sat_add64 (sc_now c) (nd_hold_secs node)) (nd_combine_slack_secs node) \<le> sc_expiry c \<and>
           ack_remaining_secs a = sat_add64 (sc_now c) (nd_hold_secs node) - sc_now c \<or>
         cls_class cls = Escape \<and> sc_escape_id c \<noteq> sc_commitment_id c \<and> ack_remaining_secs a = 0) \<and>
     ack_commitment_id a = sc_commitment_id c \<and> ack_first_seen a = sc_now c"
  using assms by (auto simp: hold_and_sign_def Let_def refuse_def split: tx_class.split_asm if_split_asm dest!: sign_and_register_Accepted)

lemma after_reserve_Accepted:
  assumes "after_reserve node hb t c f cls unwind ns = (ns', answer (RespAccepted a))" and "fetch_refuses f"
  shows "verify_all_escapes node hb c f = Inr () \<and> hold_and_sign node t c cls unwind ns = (ns', answer (RespAccepted a))"
  using assms(1) failing_all_escapes [OF assms(2), of node hb c]
  by (auto simp: after_reserve_def split: sum.split_asm check_failure.split_asm)

lemma after_verify_Accepted:
  assumes "after_verify node hb clock c f ns = (ns', answer (RespAccepted a))" and "fetch_refuses f"
  shows "\<exists>cls t unwind ns1. classify (nd_desc node) (sc_spend c) (nd_check_params node) = Inr cls \<and>
    verify_all_escapes node hb c f = Inr () \<and> hold_and_sign node t c cls unwind ns1 = (ns', answer (RespAccepted a))"
proof (cases "classify (nd_desc node) (sc_spend c) (nd_check_params node)")
  case (Inl e)
  with assms(1) show ?thesis by (cases e) (simp_all add: after_verify_def refuse_def)
next
  case (Inr cls)
  with assms(1) obtain t unwind ns1 where "after_reserve node hb t c f cls unwind ns1 = (ns', answer (RespAccepted a))"
    by (auto simp: after_verify_def Let_def refuse_def hot_velocity_refusal_def split: tx_class.split_asm prod.split_asm sum.split_asm)
  from after_reserve_Accepted [OF this assms(2)] Inr show ?thesis by blast
qed

lemma verify_fresh_Accepted:
  assumes "verify_fresh node hb clock c pre ns = (ns', answer (RespAccepted a))"
    and "fetch_refuses (fst pre)" "fetch_refuses (snd pre)"
  shows "fresh_acceptance node hb c pre a"
proof -
  have loc: "is_refusal r" if "node_local_prevout_fetch_failure (fst pre) (snd pre) = Some r" for r
    using that assms(2,3) by (auto simp: node_local_prevout_fetch_failure_def fetch_refuses_def split: option.split_asm sum.split_asm)
  have vs: "failing (verify_spend node hb (sc_spend c) (fst pre))" by (rule failing_spend [OF assms(2)])
  from assms(1) loc vs obtain ns1 where ok: "verify_spend node hb (sc_spend c) (fst pre) = Inr ()"
    and av: "after_verify node hb clock c (snd pre) ns1 = (ns', answer (RespAccepted a))"
    by (auto simp: verify_fresh_def Let_def split: option.split_asm sum.split_asm check_failure.split_asm)
  from after_verify_Accepted [OF av assms(3)] obtain cls t unwind ns2 where
    cls: "classify (nd_desc node) (sc_spend c) (nd_check_params node) = Inr cls" "verify_all_escapes node hb c (snd pre) = Inr ()"
    "hold_and_sign node t c cls unwind ns2 = (ns', answer (RespAccepted a))" by blast
  from verify_spend_Ok [OF ok] all_escapes_Ok [OF cls(2)] hold_and_sign_Accepted [OF cls(3)] cls(1) show ?thesis
    unfolding fresh_acceptance_def by blast
qed

text \<open>An acceptance that was recorded for the request before, under its acceptance key or its commitment.\<close>

definition recorded_acceptance :: "spend_case \<Rightarrow> node_state \<Rightarrow> accepted_ack \<Rightarrow> bool" where
  "recorded_acceptance c ns a \<longleftrightarrow>
     (\<exists>key \<in> {sc_key c, sc_commitment_id c}. replay_get (replay_prune (ss_replay (ns_sign ns)) (sc_now c)) key (sc_now c) = Some (RespAccepted a))"

lemma decide_Accepted:
  assumes "sign_decide node hb clock r v k pre ns = (ns', answer (RespAccepted a))"
    and "fetch_refuses (fst pre)" "fetch_refuses (snd pre)"
  shows "\<not> ns_lockdown ns \<and> (\<exists>now spend esc bmps. now = effective_now (ss_coord_nonces (ns_sign ns)) (sk_decide_raw clock) \<and>
     now < unat (sr_expiry r) \<and> unat (sr_expiry r) \<le> sat_add64 (sk_decide_raw clock) (nd_max_commitment_age_secs node) \<and>
     decode_psbt node (sr_psbt r) = Some spend \<and> decode_psbt node (sr_escape_psbt r) = Some esc \<and>
     decode_bumps node (sr_escape_bumps r) = Some bmps \<and> length (sr_escape_bumps r) \<le> MAX_ESCAPE_BUMPS \<and>
     (let c = spend_case_of node r k (v = Duress) (sk_decide_raw clock) now spend esc bmps in
      recorded_acceptance c ns a \<or> fresh_acceptance node hb c pre a))"
proof -
  let ?now = "effective_now (ss_coord_nonces (ns_sign ns)) (sk_decide_raw clock)"
  have nr: "expiry_refusal node (has_channel ns) (unat (sr_expiry r)) ?now (sk_decide_raw clock) \<noteq> Some (RespAccepted a)"
    using refusal_expiry by fastforce
  have ex: "expiry_refusal node (has_channel ns) (unat (sr_expiry r)) ?now (sk_decide_raw clock) = None"
    and ld: "\<not> ns_lockdown ns"
    and dd: "decode_and_decide node hb clock r v k pre ?now ns = (ns', answer (RespAccepted a))"
    using assms(1) nr by (auto simp: sign_decide_def Let_def fraud_suspected_def split: if_split_asm option.split_asm)
  from dd obtain spend esc bmps where dec: "decode_psbt node (sr_psbt r) = Some spend" "decode_psbt node (sr_escape_psbt r) = Some esc"
    "decode_bumps node (sr_escape_bumps r) = Some bmps" "length (sr_escape_bumps r) \<le> MAX_ESCAPE_BUMPS"
    and rv: "replay_or_verify node hb clock (spend_case_of node r k (v = Duress) (sk_decide_raw clock) ?now spend esc bmps) pre ns =
       (ns', answer (RespAccepted a))"
    by (auto simp: decode_and_decide_def refuse_def split: option.split_asm if_split_asm)
  let ?c = "spend_case_of node r k (v = Duress) (sk_decide_raw clock) ?now spend esc bmps"
  from rv have "recorded_acceptance ?c ns a \<or> fresh_acceptance node hb ?c pre a"
    by (auto simp: replay_or_verify_def Let_def recorded_acceptance_def set_sign_def split: option.split_asm
        dest!: verify_fresh_Accepted [OF _ assms(2,3)])
  with ex ld dec show ?thesis by (auto simp: expiry_refusal_def Let_def split: if_split_asm)
qed

lemma prefetch_refuses:
  assumes "prefetch_spend_escape_prevouts node be r w = (pre, w')"
  shows "fetch_refuses (fst pre)" "fetch_refuses (snd pre)"
proof -
  have one: "fetch_refuses (fst (prefetch_prevouts node be s w))" for s w
    by (auto simp: prefetch_prevouts_def fetch_prevouts_def fetch_refuses_def ground_truth_refusal_def Let_def split_beta
        split: option.split prod.split sum.split)
  from assms one show "fetch_refuses (fst pre)" "fetch_refuses (snd pre)"
    by (auto simp: prefetch_spend_escape_prevouts_def Let_def split_beta)
qed

lemma admit_Ok:
  assumes "sign_admit node clock r ns = (ns1, Inr adm)"
  shows "\<not> ns_lockdown ns \<and> verify_coord_signature node (sign_coord_request r) (sr_coord_sig r) = Inr () \<and>
    snd (check_and_record (ss_coord_nonces (ns_sign ns))
      \<lparr>nr_nonce = sr_nonce r, nr_expiry = unat (sr_expiry r), nr_now = sk_admit_raw clock, nr_max_age = nd_max_commitment_age_secs node,
       nr_mono_now = (if has_channel ns then Some (sk_admit_mono clock) else None), nr_record_deadline = has_channel ns\<rparr>) = nonce_decision.Accepted"
proof -
  have sr: "cr_nonce (sign_coord_request r) = sr_nonce r" "cr_expiry (sign_coord_request r) = sr_expiry r" "is_coord_spend (sign_coord_request r)"
    by (simp_all add: sign_coord_request_def is_coord_spend_def)
  have nv: "nonce_verdict d = Inr () \<longleftrightarrow> d = nonce_decision.Accepted" for d by (cases d) simp_all
  from assms show ?thesis
    by (auto simp: sign_admit_def verify_coord_auth_def Let_def split_beta sr nv bind_res_def
        split: if_split_asm sum.split_asm option.split_asm prod.split_asm)
qed

lemma admit_refuses: "sign_admit node clock r ns = (ns1, Inl (answer x)) \<Longrightarrow> is_refusal x"
proof -
  have nv: "nonce_verdict d = Inl e \<Longrightarrow> is_refusal e" for d e by (cases d) auto
  have cs: "verify_coord_signature node q s = Inl e \<Longrightarrow> is_refusal e" for q s e
    by (auto simp: verify_coord_signature_def Let_def split: option.split_asm if_split_asm)
  assume "sign_admit node clock r ns = (ns1, Inl (answer x))"
  then show ?thesis
    by (auto simp: sign_admit_def admit_claim_def verify_coord_auth_def Let_def split_beta bind_res_def fraud_suspected_def
        ensure_delivery_horizon_def split: if_split_asm sum.split_asm option.split_asm prod.split_asm dest!: nv cs)
qed

lemma rule_refuses: "sign_rule node clock r adm v k ns = (ns', claim, Some (answer x)) \<Longrightarrow> is_refusal x"
  by (auto simp: sign_rule_def Let_def fraud_suspected_def pin_refusal_def dest!: refusal_expiry
      split: if_split_asm option.split_asm prod.split_asm)

lemma hook_sign: "fire_arm_hook node v k n g first now ns = (ns', up) \<Longrightarrow> ns_sign ns' = ns_sign ns"
  by (auto simp: fire_arm_hook_def Let_def set_store_def split: option.split_asm prod.split_asm)

text \<open>No lockout is in force at \<open>now\<close>.\<close>

definition budget_open :: "attempt_budget \<Rightarrow> u64 \<Rightarrow> bool" where
  "budget_open b now \<longleftrightarrow> locked_until b = 0 \<or> locked_until b \<le> now"

lemma charge_admits:
  assumes "charge b v now cfg = Some (b', out)" and "\<not> co_refuse out"
  shows "v \<noteq> Wrong \<and> budget_open b now"
  using assms by (auto simp: charge_def budget_open_def Let_def split: option.split_asm if_split_asm)

lemma rule_Continue:
  assumes "sign_rule node clock r adm v k ns = (ns', claim, None)"
  shows "v \<noteq> Wrong \<and> \<not> ns_lockdown ns \<and> ss_replay (ns_sign ns') = ss_replay (ns_sign ns) \<and>
    budget_open (ss_pin_budget (ns_sign ns)) (effective_now (ss_coord_nonces (ns_sign ns)) (sk_rule_raw clock))"
proof -
  let ?now = "effective_now (ss_coord_nonces (ns_sign ns)) (sk_rule_raw clock)"
  obtain ns1 up where h: "fire_arm_hook node v k (sr_nonce r) (am_generation adm) (am_first_seen adm) ?now ns = (ns1, up)" by fastforce
  from assms h obtain pb out where c: "\<not> ns_lockdown ns" "charge (ss_pin_budget (ns_sign ns1)) v ?now (nd_pin_budget_config node) = Some (pb, out)"
    "\<not> co_refuse out" "ns' = set_sign (\<lambda>s. s\<lparr>ss_pin_budget := pb\<rparr>) ns1"
    by (auto simp: sign_rule_def Let_def split: if_split_asm option.split_asm prod.split_asm)
  from charge_admits [OF c(2,3)] c(1,4) hook_sign [OF h] show ?thesis by (simp add: set_sign_def)
qed

lemma admit_replay: "sign_admit node clock r ns = (ns1, res) \<Longrightarrow> ss_replay (ns_sign ns1) = ss_replay (ns_sign ns)"
  by (auto simp: sign_admit_def admit_claim_def set_sign_def push_outbox_def with_store_def Let_def
      split: if_split_asm sum.split_asm option.split_asm prod.split_asm)

text \<open>C2: what an accepted spend certifies. Whatever other threads do while the handler is outside its lock, a node
  acknowledges a spend only if it was not locked down, the coordinator's signature over the whole request verifies,
  the nonce was fresh, the PIN is one of the two enrolled ones, no lockout of the attempt budget was in force when the
  PIN was ruled on, the request has not expired on the node's ratcheted clock, and, at the state \<open>during_fetch ns2\<close> in
  which the handler decides, either the replay log already held that acceptance for the request's own acceptance
  key or commitment (this call has not written the log before), or the spend passes every check against the prevouts
  this call fetched: user signatures on each input of the spend, of the escape and of every fee bump, agreement with the
  chain, the whole policy, an escape that pays only the escape wallet, a ladder that ascends, and for a Hot spend
  an expiry that outlives the Hold and the combine slack. \<open>ns1\<close> and \<open>ns2\<close> are the states this very call leaves
  after admission and after the PIN ruling.\<close>

theorem sign_acceptance_sound:
  assumes "handle_sign node be clock during_pin during_fetch request ns w = ((ns', answer (RespAccepted a)), w')"
  shows "\<not> ns_lockdown ns \<and> verify_coord_signature node (sign_coord_request request) (sr_coord_sig request) = Inr () \<and>
    snd (check_and_record (ss_coord_nonces (ns_sign ns))
      \<lparr>nr_nonce = sr_nonce request, nr_expiry = unat (sr_expiry request), nr_now = sk_admit_raw clock,
       nr_max_age = nd_max_commitment_age_secs node,
       nr_mono_now = (if has_channel ns then Some (sk_admit_mono clock) else None), nr_record_deadline = has_channel ns\<rparr>) = nonce_decision.Accepted \<and>
    (\<exists>ns1 adm ruling carrier ns2 claim pre now spend esc bmps.
       sign_admit node clock request ns = (ns1, Inr adm) \<and>
       carrier = (if has_channel ns1 then arm_carrier_id node (sign_coord_request request) else []) \<and>
       sign_rule node clock request adm ruling carrier (during_pin ns1) = (ns2, claim, None) \<and>
       prefetch_spend_escape_prevouts node be request w = (pre, w') \<and>
       ss_replay (ns_sign ns1) = ss_replay (ns_sign ns) \<and> ss_replay (ns_sign ns2) = ss_replay (ns_sign (during_pin ns1)) \<and>
       pin_ruling node (sr_pin request) = Some ruling \<and> ruling \<noteq> Wrong \<and> \<not> ns_lockdown (during_pin ns1) \<and>
       budget_open (ss_pin_budget (ns_sign (during_pin ns1))) (effective_now (ss_coord_nonces (ns_sign (during_pin ns1))) (sk_rule_raw clock)) \<and>
       \<not> ns_lockdown (during_fetch ns2) \<and>
       now = effective_now (ss_coord_nonces (ns_sign (during_fetch ns2))) (sk_decide_raw clock) \<and> now < unat (sr_expiry request) \<and>
       unat (sr_expiry request) \<le> sat_add64 (sk_decide_raw clock) (nd_max_commitment_age_secs node) \<and>
       decode_psbt node (sr_psbt request) = Some spend \<and> decode_psbt node (sr_escape_psbt request) = Some esc \<and>
       decode_bumps node (sr_escape_bumps request) = Some bmps \<and> length (sr_escape_bumps request) \<le> MAX_ESCAPE_BUMPS \<and>
       (let c = spend_case_of node request carrier (ruling = Duress) (sk_decide_raw clock) now spend esc bmps in
        recorded_acceptance c (during_fetch ns2) a \<or> fresh_acceptance node (be \<noteq> None) c pre a))"
proof -
  obtain ns1 res where adm: "sign_admit node clock request ns = (ns1, res)" by fastforce
  show ?thesis
  proof (cases res)
    case (Inl h)
    with adm assms have "sign_admit node clock request ns = (ns', Inl (answer (RespAccepted a)))" by (simp add: handle_sign_def)
    then show ?thesis using admit_refuses by fastforce
  next
    case ok: (Inr x)
    from adm ok assms obtain v where pin: "pin_ruling node (sr_pin request) = Some v"
      by (cases "pin_ruling node (sr_pin request)") (auto simp: handle_sign_def)
    let ?k = "if has_channel ns1 then arm_carrier_id node (sign_coord_request request) else []"
    obtain ns2 claim res2 where rl: "sign_rule node clock request x v ?k (during_pin ns1) = (ns2, claim, res2)" by (metis surj_pair)
    obtain pre w1 where pf: "prefetch_spend_escape_prevouts node be request w = (pre, w1)" by fastforce
    obtain ns3 h3 where dc: "sign_decide node (be \<noteq> None) clock request v ?k pre (during_fetch ns2) = (ns3, h3)" by fastforce
    note end_of = handle_sign_end [where during_pin = during_pin and during_fetch = during_fetch, OF adm [unfolded ok] pin rl pf dc]
    have "res2 = None"
    proof (cases res2)
      case (Some h)
      with assms end_of have "h = answer (RespAccepted a)" by simp
      with rl Some rule_refuses show ?thesis by fastforce
    qed
    with assms end_of have h3: "h3 = answer (RespAccepted a)" "w1 = w'" by simp_all
    with \<open>res2 = None\<close> dc rl have dc': "sign_decide node (be \<noteq> None) clock request v ?k pre (during_fetch ns2) = (ns3, answer (RespAccepted a))"
      and rl': "sign_rule node clock request x v ?k (during_pin ns1) = (ns2, claim, None)" by simp_all
    from decide_Accepted [OF dc' prefetch_refuses [OF pf]] obtain now spend esc bmps where d:
      "\<not> ns_lockdown (during_fetch ns2)" "now = effective_now (ss_coord_nonces (ns_sign (during_fetch ns2))) (sk_decide_raw clock)"
      "now < unat (sr_expiry request)" "unat (sr_expiry request) \<le> sat_add64 (sk_decide_raw clock) (nd_max_commitment_age_secs node)"
      "decode_psbt node (sr_psbt request) = Some spend" "decode_psbt node (sr_escape_psbt request) = Some esc"
      "decode_bumps node (sr_escape_bumps request) = Some bmps" "length (sr_escape_bumps request) \<le> MAX_ESCAPE_BUMPS"
      "let c = spend_case_of node request ?k (v = Duress) (sk_decide_raw clock) now spend esc bmps in
         recorded_acceptance c (during_fetch ns2) a \<or> fresh_acceptance node (be \<noteq> None) c pre a" by blast
    note ad = admit_Ok [OF adm [unfolded ok]] and rc = rule_Continue [OF rl'] and rp = admit_replay [OF adm]
    show ?thesis
      using ad rc rp d pin rl' pf h3 adm ok
      by (intro conjI exI [of _ ns1] exI [of _ x] exI [of _ v] exI [of _ ?k] exI [of _ ns2] exI [of _ claim] exI [of _ pre] exI [of _ now]
          exI [of _ spend] exI [of _ esc] exI [of _ bmps]) (simp only:; blast)+
  qed
qed

end
