(* ===== verification/Sign_Demo.thy ===== *)
theory Sign_Demo
  imports Sign_Sound
begin

text \<open>A spend through the handler, evaluated step by step: an escape-class spend with a distinct residual escape is
  authenticated, ruled on, checked against the chain, signed and registered.\<close>

definition sd_input :: psbt_input where
  "sd_input = demo_input\<lparr>partial_sigs := [([5], \<lparr>signature = [5], sig_sighash_type = 1\<rparr>)]\<rparr>"

definition sd_spend :: psbt where
  "sd_spend = (demo_psbt [demo_out 3 0 950])\<lparr>psbt_inputs := [sd_input]\<rparr>"

definition sd_escape :: psbt where
  "sd_escape = (demo_psbt [demo_out 3 0 500, demo_out 3 0 450])\<lparr>psbt_inputs := [sd_input]\<rparr>"

definition sd_sig :: sig_api where
  "sd_sig = demo_sig\<lparr>sa_sha256 := (\<lambda>b. [word_of_nat (length b)])\<rparr>"

definition sign_node :: "nat node" where
  "sign_node = demo_node\<lparr>nd_sig := sd_sig,
     nd_psbt_from_str := (\<lambda>s. if s = ''s'' then Some sd_spend else if s = ''e'' then Some sd_escape else None)\<rparr>"

definition sd_request :: sign_request where
  "sd_request = \<lparr>sr_psbt = ''s'', sr_escape_psbt = ''e'', sr_escape_bumps = [], sr_pin = [CHR 0x01], sr_nonce = ''n'',
     sr_expiry = 2000, sr_policy_version = 1, sr_coord_sig = [CHR 0x04]\<rparr>"

definition sd_clock :: sign_clock where
  "sd_clock = \<lparr>sk_admit_raw = 1000, sk_admit_mono = 7, sk_rule_raw = 1001, sk_decide_raw = 1002, sk_prune_mono = 8, sk_reserve_mono = 8,
     sk_register_mono = 8, sk_drop_mono = 9\<rparr>"

definition sd_backend :: "unit chain_backend" where
  "sd_backend = demo_backend\<lparr>b_prevouts := (\<lambda>ops. io_return (map (\<lambda>_. Some
     \<lparr>po_txout = \<lparr>script_pubkey = [5, 1], txo_value = 1000\<rparr>, po_confirmed = True\<rparr>) ops))\<rparr>"

definition sd_state :: node_state where
  "sd_state = demo_node_state False False (store_new 10 100000 demo_budget)"

lemma sign_node_reads:
  "nd_sig sign_node = sd_sig" "nd_desc sign_node = demo_api" "nd_check_params sign_node = demo_params" "nd_user_pubkey sign_node = [5]"
  "nd_witness_script sign_node = [1, 1]" "nd_wire sign_node = demo_wire" "nd_text sign_node = demo_text" "nd_coordinator_auth sign_node = [4]"
  "nd_max_commitment_age_secs sign_node = 10000" "nd_delivery_horizon_secs sign_node = 20" "nd_max_msg_bytes sign_node = 1000"
  "nd_json sign_node = (\<lambda>r. [])" "nd_envelope_json sign_node = (\<lambda>e. [])" "nd_pubkey sign_node = [6]" "nd_sign_ecdsa sign_node = (\<lambda>d. [9])"
  "nd_pin_budget_config sign_node = demo_pin_cfg" "nd_wallet_id sign_node = replicate 32 7" "nd_env sign_node = demo_env 0"
  "nd_policy_version sign_node = 1" "nd_pin_evaluator sign_node = (\<lambda>slot pin. Some (pin = (case slot of SlotNormal \<Rightarrow> [1] | SlotDuress \<Rightarrow> [2])))"
  "nd_combine_slack_secs sign_node = 60" "nd_epsilon_secs sign_node = 5"
  by (simp_all add: sign_node_def demo_node_def)

lemma sd_sig_reads:
  "sa_sha256 sd_sig b = [word_of_nat (length b)]" "sa_sighash sd_sig tx i s v = Some [word_of_nat i]" "sa_verify sd_sig d x pk = (x = pk)"
  "sa_from_der sd_sig d = Some d" "sa_serialize_der sd_sig d = d" "sa_psbt_len sd_sig p = 100" "sa_txid sd_sig tx = [word_of_nat (length (tx_output tx))]"
  by (simp_all add: sd_sig_def demo_sig_def)

lemma sd_signature: "verify_coord_signature sign_node q [CHR 0x04] = Inr ()"
  by (simp add: verify_coord_signature_def sign_node_reads demo_wire_def sd_sig_reads)

text \<open>What the later steps need of the state: it is live, and its candidate registry is empty.\<close>

definition sd_store :: "partial_store \<Rightarrow> bool" where
  "sd_store st \<longleftrightarrow> candidates st = [] \<and> reserved_bytes st = 0 \<and> max_active_candidates st = 10 \<and> max_bytes st = 100000"

definition sd_live :: "node_state \<Rightarrow> bool" where
  "sd_live ns \<longleftrightarrow> \<not> ns_lockdown ns \<and> \<not> ns_sign_poisoned ns \<and> (\<exists>ch. ns_channel ns = Some ch \<and> sd_store (ch_store ch)) \<and>
     ss_replay (ns_sign ns) = [] \<and> high_water (ss_coord_nonces (ns_sign ns)) = 0 \<and> ss_pin_budget (ns_sign ns) = demo_attempts"

lemma sd_live_with_store: "sd_live ns \<Longrightarrow> (\<And>st. sd_store st \<Longrightarrow> sd_store (f st)) \<Longrightarrow> sd_live (with_store f ns)"
  by (auto simp: sd_live_def with_store_def)

lemma sd_live_frame [simp]:
  "sd_live (push_outbox r ns) = sd_live ns" "sd_live (ns\<lparr>ns_spend_preflight := n\<rparr>) = sd_live ns" "sd_live (ns\<lparr>ns_duress_arm := d\<rparr>) = sd_live ns"
  by (simp_all add: sd_live_def push_outbox_def)

lemma sd_store_keeps:
  "sd_store st \<Longrightarrow> sd_store (claim_nonce_in_flight st n g t)" "sd_store st \<Longrightarrow> sd_store (mark_carrier_propagated env st k)"
  "sd_store st \<Longrightarrow> sd_store (fst (record_arm_intent st dur k n g first now timing))" "sd_store st \<Longrightarrow> sd_store (prune_store st now t)"
  by (auto simp: sd_store_def claim_nonce_in_flight_def prune_carriers_def mark_carrier_propagated_def record_arm_intent_def write_safety_overlay_def
      refresh_escape_window_def hm_modify_def prune_store_def prune_def hm_retain_def Let_def split: option.split)

lemma sd_fits: "request_fits_channel_body sign_node q"
  by (simp add: request_fits_channel_body_def envelope_body_def sign_node_reads)

lemma sd_admit: "\<exists>ns adm. sign_admit sign_node sd_clock sd_request sd_state = (ns, Inr adm) \<and> sd_live ns"
proof -
  have ch: "has_channel sd_state" by (simp add: has_channel_def sd_state_def demo_node_state_def)
  have st: "\<not> ns_lockdown sd_state" "\<not> ns_sign_poisoned sd_state" "ss_coord_nonces (ns_sign sd_state) = nonce_log_default"
    by (simp_all add: sd_state_def demo_node_state_def)
  obtain log where cr: "check_and_record nonce_log_default \<lparr>nr_nonce = ''n'', nr_expiry = 2000, nr_now = 1000, nr_max_age = 10000,
      nr_mono_now = Some 7, nr_record_deadline = True\<rparr> = (log, nonce_decision.Accepted)" "high_water log = 0" "carrier_deadline log ''n'' = Some 1007"
    by (simp add: check_and_record_def nonce_log_default_def effective_now_def carrier_deadline_def prune_nonces_def hm_simps
        MAX_COORD_NONCE_BYTES_def MAX_COORD_NONCES_def sat_add64_def u64_max_def checked_add64_def Let_def hm_values_def hm_get_def hm_retain_def hm_insert_def)
  have req: "cr_nonce (sign_coord_request sd_request) = ''n''" "unat (cr_expiry (sign_coord_request sd_request)) = 2000"
    "is_coord_spend (sign_coord_request sd_request)" "sr_coord_sig sd_request = [CHR 0x04]" "unat (sr_expiry sd_request) = 2000"
    by (simp_all add: sign_coord_request_def sd_request_def is_coord_spend_def)
  have auth: "verify_coord_auth sign_node (sign_coord_request sd_request) [CHR 0x04] 1000 nonce_log_default (Some 7) = (log, Inr (1000, Some 1007))"
    by (simp add: verify_coord_auth_def sd_signature req sign_node_reads cr bind_res_def effective_now_def)
  obtain g where g: "sign_generation sign_node sd_request (Some 1007) = Some g"
    by (simp add: sign_generation_def arm_signature_tag_def req sign_node_reads demo_wire_def sd_sig_reads)
  let ?ns1 = "set_sign (\<lambda>s. s\<lparr>ss_coord_nonces := log\<rparr>) sd_state"
  have ch1: "has_channel ?ns1" using ch by (simp add: has_channel_def set_sign_def)
  have live: "sd_live ?ns1"
    using cr(2) by (simp add: sd_live_def set_sign_def sd_state_def demo_node_state_def sd_store_def store_new_def)
  have hz: "ensure_delivery_horizon sign_node True 2000 1000 = None"
    by (simp add: ensure_delivery_horizon_def sign_node_reads sat_add64_def u64_max_def)
  show ?thesis
    by (simp add: sign_admit_def st ch sd_clock_def req auth Let_def ensure_request_propagatable_def sd_fits hz admit_claim_def ch1 g)
       (intro sd_live_with_store sd_store_keeps, simp_all add: live)
qed

lemma sd_ruling: "pin_ruling sign_node (sr_pin sd_request) = Some Normal"
  by (simp add: pin_ruling_def sd_request_def sign_node_reads verify_pin_def str_bytes_def MAX_PIN_BYTES_def)

lemma sd_rule:
  assumes "sd_live ns"
  shows "\<exists>ns' claim. sign_rule sign_node sd_clock sd_request adm Normal k ns = (ns', claim, None) \<and> sd_live ns'"
proof -
  from assms obtain ch where ch: "ns_channel ns = Some ch" "sd_store (ch_store ch)" by (auto simp: sd_live_def)
  have now: "effective_now (ss_coord_nonces (ns_sign ns)) t = t" for t using assms by (simp add: sd_live_def effective_now_def)
  obtain ns1 up where hook: "fire_arm_hook sign_node Normal k (sr_nonce sd_request) (am_generation adm) (am_first_seen adm) 1001 ns = (ns1, up)" by fastforce
  have live: "sd_live ns1"
  proof -
    have "sd_live (set_store st ns)" if "sd_store st" for st using assms ch that by (auto simp: sd_live_def set_store_def)
    moreover have "sd_store (fst (record_arm_intent (ch_store ch) d n k g f now tm))" for d n k g f now tm
      using sd_store_keeps(3) [OF ch(2)] .
    ultimately show ?thesis
      using hook assms ch by (auto simp: fire_arm_hook_def Let_def split_beta set_store_def sd_live_def split: option.split_asm)
  qed
  have ex: "expiry_refusal sign_node hc 2000 1001 1001 = None" for hc
    by (simp add: expiry_refusal_def ensure_delivery_horizon_def sign_node_reads sat_add64_def u64_max_def)
  obtain b out where c: "charge demo_attempts Normal 1001 demo_pin_cfg = Some (b, out)" "\<not> co_refuse out" "b = demo_attempts"
    by (simp add: charge_def demo_attempts_def demo_pin_cfg_def slide_window.simps Let_def)
  have e: "unat (sr_expiry sd_request) = 2000" by (simp add: sd_request_def)
  have set: "sd_live (set_sign (\<lambda>s. s\<lparr>ss_pin_budget := demo_attempts\<rparr>) ns1)" using live by (simp add: sd_live_def set_sign_def)
  from assms live c set show ?thesis
    by (auto simp: sign_rule_def now sd_clock_def hook ex e sign_node_reads Let_def sd_live_def)
qed

lemma sd_prefetch:
  "prefetch_spend_escape_prevouts sign_node (Some sd_backend) sd_request () =
     ((Some (Inr [Some \<lparr>po_txout = \<lparr>script_pubkey = [5, 1], txo_value = 1000\<rparr>, po_confirmed = True\<rparr>]),
       Some (Inr [Some \<lparr>po_txout = \<lparr>script_pubkey = [5, 1], txo_value = 1000\<rparr>, po_confirmed = True\<rparr>])), ())"
proof -
  have "decode_psbt sign_node ''s'' = Some sd_spend" "decode_psbt sign_node ''e'' = Some sd_escape"
    by (simp_all add: decode_psbt_def sign_node_def str_trim_def is_space_def)
  moreover have "fetch_prevouts p sd_backend () = (Inr [Some \<lparr>po_txout = \<lparr>script_pubkey = [5, 1], txo_value = 1000\<rparr>, po_confirmed = True\<rparr>], ())"
    if "length (tx_input (unsigned_tx p)) = 1" for p
    using that by (auto simp: fetch_prevouts_def sd_backend_def length_Suc_conv)
  ultimately show ?thesis
    by (simp add: prefetch_spend_escape_prevouts_def prefetch_prevouts_def sd_request_def sd_spend_def sd_escape_def demo_psbt_def)
qed

definition sd_prevouts :: prevout_fetch where
  "sd_prevouts = Inr [Some \<lparr>po_txout = \<lparr>script_pubkey = [5, 1], txo_value = 1000\<rparr>, po_confirmed = True\<rparr>]"

lemma sd_verify_spend:
  "verify_spend sign_node True sd_spend (Some sd_prevouts) = Inr ()" "verify_spend sign_node True sd_escape (Some sd_prevouts) = Inr ()"
proof -
  have u: "verify_user_signatures sign_node p = Inr ()" if "psbt_inputs p = [sd_input]" for p
    using that by (simp add: verify_user_signatures_def sd_input_def demo_input_def sign_node_reads sd_sig_reads hm_get_def)
  have c: "compare_prevouts_against_chain p [Some \<lparr>po_txout = \<lparr>script_pubkey = [5, 1], txo_value = 1000\<rparr>, po_confirmed = True\<rparr>] = Inr ()"
    if "psbt_inputs p = [sd_input]" "length (tx_input (unsigned_tx p)) = 1" for p
    using that by (simp add: compare_prevouts_against_chain_def prevout_agrees_def sd_input_def demo_input_def)
  have "evaluate demo_api sd_spend demo_params = Inr ()" "evaluate demo_api sd_escape demo_params = Inr ()"
    by (simp_all add: sd_spend_def sd_escape_def sd_input_def demo_defs policy_defs refuse_with_def bind_res_def)
  with u c show "verify_spend sign_node True sd_spend (Some sd_prevouts) = Inr ()" "verify_spend sign_node True sd_escape (Some sd_prevouts) = Inr ()"
    by (simp_all add: verify_spend_def sign_node_reads run_prevout_check_def sd_prevouts_def bind_res_def map_err_def sd_spend_def sd_escape_def demo_psbt_def)
qed

lemma sd_classes:
  "classify demo_api sd_spend demo_params = Inr \<lparr>cls_class = Escape, cls_hot_outflow = 0\<rparr>"
  "classify demo_api sd_escape demo_params = Inr \<lparr>cls_class = Escape, cls_hot_outflow = 0\<rparr>"
  by (simp_all add: sd_spend_def sd_escape_def sd_input_def demo_defs policy_defs refuse_with_def)

lemma sd_ids:
  "commitment_id_for sign_node sd_spend e = [char_of (91 :: nat)]" "commitment_id_for sign_node sd_escape e = [char_of (105 :: nat)]"
  by (simp_all add: commitment_id_for_def commitment_id_def commitment_of_def commitment_bytes_def sign_node_reads sd_sig_reads demo_text_def
      sd_spend_def sd_escape_def demo_psbt_def demo_out_def)

definition sd_signed :: psbt_input where
  "sd_signed = sd_input\<lparr>partial_sigs := hm_insert [6] \<lparr>signature = [9], sig_sighash_type = 1\<rparr> (partial_sigs sd_input)\<rparr>"

lemma sd_sign_all:
  "sign_all sign_node [sd_spend, sd_escape] = Some [sd_spend\<lparr>psbt_inputs := [sd_signed]\<rparr>, sd_escape\<lparr>psbt_inputs := [sd_signed]\<rparr>]"
  by (simp add: add_node_signatures_def sd_spend_def sd_escape_def sign_node_reads sd_sig_reads sd_signed_def sd_input_def demo_input_def)

lemma sd_build:
  assumes "psbt_inputs p = [sd_signed]" "cs_psbt spec = p" "cs_escape_bumps spec = []"
  shows "\<exists>c. candidate_build sd_sig spec (candidate_keys_of sign_node) = Ok c \<and> c_commitment_id c = cs_commitment_id spec \<and>
    capacity_bytes (reserve_partial_capacity sd_sig c (ce_nodes (demo_env 0)) 0) = 454"
proof -
  obtain v where v: "variant_build sd_sig p (candidate_keys_of sign_node) = Ok v" "\<exists>inp. psbt_inputs (sv_psbt v) = [inp] \<and>
      hm_get (partial_sigs inp) [2] = None \<and> hm_get (partial_sigs inp) [3] = None" "variant_bytes sd_sig v = 164"
    using assms(1) by (simp add: variant_build_def canonical_input_def candidate_keys_of_def sign_node_reads sd_sig_reads sd_signed_def sd_input_def
        demo_input_def hash_inputs.simps hm_insert_def hm_retain_def hm_get_def variant_bytes_def bind_res_def)
  then obtain inp where inp: "psbt_inputs (sv_psbt v) = [inp]" "hm_get (partial_sigs inp) [2] = None" "hm_get (partial_sigs inp) [3] = None" by blast
  show ?thesis
    using assms(2,3) v(1,3) inp by (simp add: candidate_build_def bind_res_def reserve_partial_capacity_def variants_def node_growth_def demo_env_def
        PSBT_PARTIAL_SIG_FIXED_BYTES_def MAX_ECDSA_DER_BYTES_def sat_simps)
qed

lemma sd_register:
  assumes "sd_live ns" "pair_specs p = [s1, s2]" "cs_psbt s1 = sd_spend\<lparr>psbt_inputs := [sd_signed]\<rparr>" "cs_psbt s2 = sd_escape\<lparr>psbt_inputs := [sd_signed]\<rparr>"
    and "cs_escape_bumps s1 = []" "cs_escape_bumps s2 = []" "cs_commitment_id s1 \<noteq> cs_commitment_id s2" "rp_hot_reserve p = None"
  shows "\<exists>ns'. register_pair sign_node t p ns = (ns', Inr ())"
proof -
  obtain ch where ch: "ns_channel ns = Some ch" "sd_store (ch_store ch)" using assms(1) by (auto simp: sd_live_def)
  obtain c1 where c1: "candidate_build sd_sig s1 (candidate_keys_of sign_node) = Ok c1" "c_commitment_id c1 = cs_commitment_id s1"
    "capacity_bytes (reserve_partial_capacity sd_sig c1 (ce_nodes (demo_env 0)) 0) = 454" using sd_build [OF _ assms(3,5)] by auto
  obtain c2 where c2: "candidate_build sd_sig s2 (candidate_keys_of sign_node) = Ok c2" "c_commitment_id c2 = cs_commitment_id s2"
    "capacity_bytes (reserve_partial_capacity sd_sig c2 (ce_nodes (demo_env 0)) 0) = 454" using sd_build [OF _ assms(4,6)] by auto
  have b: "build_all (channel_of sign_node) (pair_specs p) = Ok [c1, c2]"
    using c1(1) c2(1) assms(2) by (simp add: channel_of_def sign_node_reads bind_res_def)
  have ids: "c_commitment_id (reserve_partial_capacity a c n i) = c_commitment_id c" for a c n i by (simp add: reserve_partial_capacity_def)
  have ce: "ce_node_id (demo_env 0) = 0" by (simp add: demo_env_def)
  obtain st' outs where r: "register_candidates sd_sig (demo_env 0) t (ch_store ch) [c1, c2] (pair_directive sign_node p) None = (st', Ok outs)"
    "outs = [Inserted, Inserted]"
    using ch(2) c1(2,3) c2(2,3) assms(7)
    by (simp add: register_candidates_def sd_store_def Let_def ids hm_get_def hm_contains_def sat_simps ce register_def hm_insert_def)
  then show ?thesis
    using ch b assms(8) by (simp add: register_pair_def sign_node_reads r register_verdict_def)
qed

lemma sd_decide:
  assumes "sd_live ns"
  shows "\<exists>ns'. sign_decide sign_node True sd_clock sd_request Normal k (Some sd_prevouts, Some sd_prevouts) ns =
    (ns', answer (RespAccepted \<lparr>ack_commitment_id = [char_of (91 :: nat)], ack_first_seen = 1002, ack_remaining_secs = 0\<rparr>))"
proof -
  have now: "effective_now (ss_coord_nonces (ns_sign ns)) t = t" for t using assms by (simp add: sd_live_def effective_now_def)
  have ex: "expiry_refusal sign_node hc 2000 1002 1002 = None" for hc
    by (simp add: expiry_refusal_def ensure_delivery_horizon_def sign_node_reads sat_add64_def u64_max_def)
  have e: "unat (sr_expiry sd_request) = 2000" by (simp add: sd_request_def)
  have dec: "decode_psbt sign_node (sr_psbt sd_request) = Some sd_spend" "decode_psbt sign_node (sr_escape_psbt sd_request) = Some sd_escape"
    "sr_escape_bumps sd_request = []"
    by (simp_all add: decode_psbt_def sign_node_def str_trim_def is_space_def sd_request_def)
  define c where "c = spend_case_of sign_node sd_request k False 1002 1002 sd_spend sd_escape []"
  have cf: "sc_now c = 1002" "sc_spend c = sd_spend" "sc_escape c = sd_escape" "sc_bumps c = []" "sc_commitment_id c = [char_of (91 :: nat)]"
    "sc_escape_id c = [char_of (105 :: nat)]" "sc_expiry c = 2000"
    by (simp_all add: c_def spend_case_of_def sd_ids Let_def sc_expiry_def e)
  have ne: "char_of (105 :: nat) \<noteq> (char_of (91 :: nat) :: char)" by simp
  let ?ns = "set_sign (\<lambda>s. s\<lparr>ss_replay := replay_prune (ss_replay s) 1002\<rparr>) ns"
  have live: "sd_live ?ns" "ss_replay (ns_sign ?ns) = []" using assms by (simp_all add: sd_live_def set_sign_def replay_prune_def hm_retain_def)
  let ?ns2 = "prune_logs sign_node 1002 (sk_prune_mono sd_clock) ?ns"
  have live2: "sd_live ?ns2"
    unfolding prune_logs_def by (rule sd_live_with_store) (use live sd_store_keeps in \<open>simp_all add: sd_live_def set_sign_def\<close>)
  have esc: "verify_all_escapes sign_node True c (Some sd_prevouts) = Inr ()"
    by (simp add: verify_all_escapes_def cf verify_escape_def sd_verify_spend sign_node_reads sd_classes bind_res_def map_err_def ensure_escape_ladder_def)
  let ?cls = "\<lparr>cls_class = Escape, cls_hot_outflow = 0\<rparr>"
  let ?p = "pair_of_case sign_node c ?cls 1002 (sd_spend\<lparr>psbt_inputs := [sd_signed]\<rparr>) (sd_escape\<lparr>psbt_inputs := [sd_signed]\<rparr>) []"
  have staged: "sd_live (staged sign_node c ?ns2)"
    unfolding staged_def stage_spend_carrier_def by (rule sd_live_with_store) (simp_all add: live2 sd_store_keeps)
  obtain s1 s2 where sp: "pair_specs ?p = [s1, s2]" "cs_psbt s1 = sd_spend\<lparr>psbt_inputs := [sd_signed]\<rparr>"
    "cs_psbt s2 = sd_escape\<lparr>psbt_inputs := [sd_signed]\<rparr>" "cs_escape_bumps s1 = []" "cs_escape_bumps s2 = []" "cs_commitment_id s1 \<noteq> cs_commitment_id s2"
    by (simp add: pair_specs_def pair_of_case_def cf ne)
  have "rp_hot_reserve ?p = None" by (simp add: pair_of_case_def)
  from sd_register [OF staged sp this] obtain ns3 where reg: "register_pair sign_node (sk_register_mono sd_clock) ?p (staged sign_node c ?ns2) = (ns3, Inr ())" by blast
  have "\<exists>ns'. hold_and_sign sign_node (sk_register_mono sd_clock) c ?cls (\<lambda>x. x) ?ns2 =
      (ns', answer (RespAccepted \<lparr>ack_commitment_id = [char_of (91 :: nat)], ack_first_seen = 1002, ack_remaining_secs = 0\<rparr>))"
    by (simp add: hold_and_sign_def cf ne sign_and_register_def sd_sign_all reg record_acceptance_def Let_def del: sign_all.simps)
  then have "\<exists>ns'. replay_or_verify sign_node True sd_clock c (Some sd_prevouts, Some sd_prevouts) ns =
      (ns', answer (RespAccepted \<lparr>ack_commitment_id = [char_of (91 :: nat)], ack_first_seen = 1002, ack_remaining_secs = 0\<rparr>))"
    by (simp add: replay_or_verify_def live cf replay_get_def hm_get_def verify_fresh_def node_local_prevout_fetch_failure_def sd_prevouts_def
        sd_verify_spend [unfolded sd_prevouts_def] after_verify_def sign_node_reads sd_classes after_reserve_def esc [unfolded sd_prevouts_def] Let_def)
  then show ?thesis
    using assms by (simp add: sign_decide_def now ex e dec decode_and_decide_def sd_clock_def MAX_ESCAPE_BUMPS_def c_def sd_live_def)
qed

theorem sign_acceptance_sound_witness:
  "\<exists>ns' a. handle_sign sign_node (Some sd_backend) sd_clock (\<lambda>x. x) (\<lambda>x. x) sd_request sd_state () = ((ns', answer (RespAccepted a)), ()) \<and>
     verify_coord_signature sign_node (sign_coord_request sd_request) (sr_coord_sig sd_request) = Inr () \<and>
     (\<exists>ruling. pin_ruling sign_node (sr_pin sd_request) = Some ruling \<and> ruling \<noteq> Wrong)"
proof -
  obtain ns1 adm where adm: "sign_admit sign_node sd_clock sd_request sd_state = (ns1, Inr adm)" "sd_live ns1" using sd_admit by blast
  let ?k = "if has_channel ns1 then arm_carrier_id sign_node (sign_coord_request sd_request) else []"
  obtain ns2 claim where rl: "sign_rule sign_node sd_clock sd_request adm Normal ?k ns1 = (ns2, claim, None)" "sd_live ns2"
    using sd_rule [OF adm(2)] by blast
  obtain ns3 where dc: "sign_decide sign_node True sd_clock sd_request Normal ?k (Some sd_prevouts, Some sd_prevouts) ns2 =
    (ns3, answer (RespAccepted \<lparr>ack_commitment_id = [char_of (91 :: nat)], ack_first_seen = 1002, ack_remaining_secs = 0\<rparr>))"
    using sd_decide [OF rl(2)] by blast
  have pf: "prefetch_spend_escape_prevouts sign_node (Some sd_backend) sd_request () = ((Some sd_prevouts, Some sd_prevouts), ())"
    using sd_prefetch by (simp add: sd_prevouts_def)
  have run: "handle_sign sign_node (Some sd_backend) sd_clock (\<lambda>x. x) (\<lambda>x. x) sd_request sd_state () =
      ((finish_sign (sk_drop_mono sd_clock) claim ns3, answer (RespAccepted \<lparr>ack_commitment_id = [char_of (91 :: nat)], ack_first_seen = 1002,
         ack_remaining_secs = 0\<rparr>)), ())"
    using handle_sign_end [where during_pin = "\<lambda>x. x" and during_fetch = "\<lambda>x. x", OF adm(1) sd_ruling rl(1) pf, of ns3] dc by simp
  from sign_acceptance_sound [OF run] run show ?thesis by blast
qed

end
