(* ===== verification/Sign_Silence.thy ===== *)
theory Sign_Silence
  imports Sign_Demo Duress_Silence
begin

text \<open>
  Duress silence of the spend handler. From the ruling on the PIN to the answer, the handler is run once on the state
  as it is and once on the state with every pin class erased; as long as the store is not armed the two runs answer
  the same, read the same from the chain and leave states that differ in the private class alone. A duress PIN and a
  normal one therefore get the same answer.
\<close>

definition erase_ns :: "node_state \<Rightarrow> node_state" where
  "erase_ns ns = ns\<lparr>ns_channel := map_option (\<lambda>ch. ch\<lparr>ch_store := erase (ch_store ch)\<rparr>) (ns_channel ns), ns_duress_arm := 0\<rparr>"

definition unarmed :: "node_state \<Rightarrow> bool" where
  "unarmed ns \<longleftrightarrow> (\<forall>ch. ns_channel ns = Some ch \<longrightarrow> \<not> active (armed (ch_store ch)))"

lemma erase_ns_fields [simp]:
  "ns_lockdown (erase_ns ns) = ns_lockdown ns" "ns_sign_poisoned (erase_ns ns) = ns_sign_poisoned ns" "ns_sign (erase_ns ns) = ns_sign ns"
  "ns_outbox (erase_ns ns) = ns_outbox ns" "ns_authorized (erase_ns ns) = ns_authorized ns" "ns_spend_preflight (erase_ns ns) = ns_spend_preflight ns"
  "ns_channel (erase_ns ns) = map_option (\<lambda>ch. ch\<lparr>ch_store := erase (ch_store ch)\<rparr>) (ns_channel ns)" "ns_duress_arm (erase_ns ns) = 0"
  "has_channel (erase_ns ns) = has_channel ns"
  by (simp_all add: erase_ns_def has_channel_def)

lemma erase_ns_update [simp]:
  "(erase_ns ns)\<lparr>ns_sign := x\<rparr> = erase_ns (ns\<lparr>ns_sign := x\<rparr>)" "(erase_ns ns)\<lparr>ns_sign_poisoned := y\<rparr> = erase_ns (ns\<lparr>ns_sign_poisoned := y\<rparr>)"
  "(erase_ns ns)\<lparr>ns_outbox := q\<rparr> = erase_ns (ns\<lparr>ns_outbox := q\<rparr>)" "(erase_ns ns)\<lparr>ns_authorized := t\<rparr> = erase_ns (ns\<lparr>ns_authorized := t\<rparr>)"
  "(erase_ns ns)\<lparr>ns_spend_preflight := n\<rparr> = erase_ns (ns\<lparr>ns_spend_preflight := n\<rparr>)" "erase_ns (ns\<lparr>ns_duress_arm := d\<rparr>) = erase_ns ns"
  by (simp_all add: erase_ns_def)

lemma erase_set_sign [simp]: "set_sign f (erase_ns ns) = erase_ns (set_sign f ns)"
  by (simp add: set_sign_def)

lemma erase_push_outbox [simp]: "push_outbox r (erase_ns ns) = erase_ns (push_outbox r ns)"
  by (simp add: push_outbox_def)

lemma erase_set_store: "set_store (erase st) (erase_ns ns) = erase_ns (set_store st ns)"
  by (simp add: set_store_def erase_ns_def option.map_comp comp_def)

lemma erase_with_store: "(\<And>st. f (erase st) = erase (f st)) \<Longrightarrow> with_store f (erase_ns ns) = erase_ns (with_store f ns)"
  by (simp add: with_store_def erase_ns_def option.map_comp comp_def)

lemma erase_stage: "stage_spend_carrier node r k (erase_ns ns) = erase_ns (stage_spend_carrier node r k ns)"
  by (simp add: stage_spend_carrier_def erase_with_store erase_mark_propagated)

lemma erase_staged: "staged node c (erase_ns ns) = erase_ns (staged node c ns)"
  by (simp add: staged_def erase_stage)

lemma erase_finish: "finish_sign t claim (erase_ns ns) = erase_ns (finish_sign t claim ns)"
proof -
  have "drop_claim t claim (erase_ns ns) = erase_ns (drop_claim t claim ns)"
    by (simp add: drop_claim_def Let_def erase_with_store erase_release_nonce erase_end_ruling split: option.split)
  then show ?thesis by (simp add: finish_sign_def)
qed

subsection \<open>The ruling\<close>

lemma charge_class: "charge b Duress now cfg = charge b Normal now cfg"
proof -
  have same: "(Duress = Wrong) = (Normal = Wrong)" by simp
  show ?thesis unfolding charge_def same ..
qed

lemma erase_hook:
  assumes "v \<noteq> Wrong"
  shows "fire_arm_hook node Normal k n g first now (erase_ns ns) = apfst erase_ns (fire_arm_hook node v k n g first now ns)"
proof -
  have z: "(erase_ns ns)\<lparr>ns_duress_arm := 0\<rparr> = erase_ns ns" by (simp add: erase_ns_def)
  show ?thesis
    by (cases "ns_channel ns"; cases g)
       (simp_all add: fire_arm_hook_def Let_def split_beta erase_record_arm_intent [where dur = "v = Duress"] z erase_set_store
         apfst_def map_prod_def, simp_all add: set_store_def erase_ns_def)
qed

lemma erase_rule:
  assumes "v \<noteq> Wrong"
  shows "sign_rule node clock r adm Normal k (erase_ns ns) = apfst erase_ns (sign_rule node clock r adm v k ns)"
proof -
  have ch: "charge b v now cfg = charge b Normal now cfg" for b now cfg using assms charge_class by (cases v) auto
  obtain ns1 up where h: "fire_arm_hook node v k (sr_nonce r) (am_generation adm) (am_first_seen adm)
      (effective_now (ss_coord_nonces (ns_sign ns)) (sk_rule_raw clock)) ns = (ns1, up)" by fastforce
  show ?thesis
    by (simp add: sign_rule_def Let_def erase_hook [OF assms] h erase_stage ch split: option.split prod.split)
qed

subsection \<open>Signing and registration\<close>

abbreviation blind :: "spend_case \<Rightarrow> spend_case" where "blind c \<equiv> c\<lparr>sc_duress := False\<rparr>"

lemma blind_expiry [simp]: "sc_expiry (blind c) = sc_expiry c"
  by (simp add: sc_expiry_def)

lemma blind_staged [simp]: "staged node (blind c) = staged node c"
  by (simp add: staged_def)

lemma unarmed_simps [simp]:
  "unarmed (set_sign f ns) = unarmed ns" "unarmed (ns\<lparr>ns_sign_poisoned := b\<rparr>) = unarmed ns" "unarmed (ns\<lparr>ns_authorized := t\<rparr>) = unarmed ns"
  "unarmed (ns\<lparr>ns_duress_arm := d\<rparr>) = unarmed ns"
  by (simp_all add: unarmed_def set_sign_def)

lemma unarmed_with_store: "(\<And>st. armed (f st) = armed st) \<Longrightarrow> unarmed (with_store f ns) = unarmed ns"
  by (cases "ns_channel ns") (simp_all add: unarmed_def with_store_def)

lemma unarmed_staged [simp]: "unarmed (staged node c ns) = unarmed ns"
proof -
  have "unarmed (push_outbox (TaggedSpend (sc_request c)) ns) = unarmed ns" by (simp add: push_outbox_def unarmed_def)
  then show ?thesis by (simp add: staged_def stage_spend_carrier_def unarmed_with_store mark_carrier_propagated_def)
qed

lemma erase_register_pair:
  assumes "unarmed ns"
  shows "register_pair node t (p\<lparr>rp_duress := False\<rparr>) (erase_ns ns) = apfst erase_ns (register_pair node t p ns)"
proof (cases "ns_channel ns")
  case None
  then show ?thesis by (simp add: register_pair_def)
next
  case (Some ch)
  have na: "\<not> active (armed (ch_store ch))" using assms Some by (simp add: unarmed_def)
  have specs: "pair_specs (p\<lparr>rp_duress := False\<rparr>) = pair_specs p" by (simp add: pair_specs_def)
  have dir: "pair_directive node (p\<lparr>rp_duress := False\<rparr>) = (pair_directive node p)\<lparr>ad_duress := False\<rparr>" by (simp add: pair_directive_def)
  show ?thesis
    by (simp add: register_pair_def Some specs dir erase_register_candidates [OF na] erase_set_store split_beta Let_def split: sum.split)
qed

lemma erase_record_acceptance:
  "record_acceptance node (blind c) cls t (erase_ns ns) = apfst erase_ns (record_acceptance node c cls t ns)"
  by (simp add: record_acceptance_def Let_def)

lemma blind_pair: "pair_of_case node (blind c) cls t spend esc bmps = (pair_of_case node c cls t spend esc bmps)\<lparr>rp_duress := False\<rparr>"
  by (simp add: pair_of_case_def)

lemma erase_sign_and_register:
  assumes "unarmed ns" and u: "\<And>x. unwind (erase_ns x) = erase_ns (unwind x)"
  shows "sign_and_register node mt (blind c) cls t unwind (erase_ns ns) = apfst erase_ns (sign_and_register node mt c cls t unwind ns)"
proof -
  have r: "register_pair node mt (pair_of_case node (blind c) cls t spend esc bmps) (staged node c (erase_ns ns)) =
      apfst erase_ns (register_pair node mt (pair_of_case node c cls t spend esc bmps) (staged node c ns))" for spend esc bmps
    using assms(1) by (simp add: blind_pair erase_staged erase_register_pair)
  show ?thesis
    by (simp add: sign_and_register_def Let_def r split_beta u erase_record_acceptance del: sign_all.simps split: option.split list.split sum.split)
qed

lemma erase_hold_and_sign:
  assumes "unarmed ns" and u: "\<And>x. unwind (erase_ns x) = erase_ns (unwind x)"
  shows "hold_and_sign node mt (blind c) cls unwind (erase_ns ns) = apfst erase_ns (hold_and_sign node mt c cls unwind ns)"
  by (simp add: hold_and_sign_def Let_def u erase_staged assms(1) erase_sign_and_register split: tx_class.split)

lemma erase_after_reserve:
  assumes "unarmed ns" and u: "\<And>x. unwind (erase_ns x) = erase_ns (unwind x)"
  shows "after_reserve node hb mt (blind c) pre cls unwind (erase_ns ns) = apfst erase_ns (after_reserve node hb mt c pre cls unwind ns)"
proof -
  have "verify_all_escapes node hb (blind c) pre = verify_all_escapes node hb c pre" by (simp add: verify_all_escapes_def)
  then show ?thesis by (simp add: after_reserve_def u assms(1) erase_hold_and_sign split: sum.split check_failure.split)
qed

subsection \<open>Verification and replay\<close>

lemma erase_reserve_hot: "reserve_hot mt (blind c) cls (erase_ns ns) = apfst erase_ns (reserve_hot mt c cls ns)"
  by (simp add: reserve_hot_def reserve_hot_budget_def erase_set_store split_beta Let_def split: option.split)

lemma unarmed_reserve_hot: "unarmed (fst (reserve_hot mt c cls ns)) = unarmed ns"
  by (simp add: reserve_hot_def reserve_hot_budget_def set_store_def unarmed_def split_beta Let_def split: option.split)

lemma blind_record_refusal [simp]: "record_refusal (blind c) r = record_refusal c r"
  by (simp add: record_refusal_def)

lemma erase_record_refusal [simp]: "record_refusal c r (erase_ns ns) = erase_ns (record_refusal c r ns)"
  by (simp add: record_refusal_def)

lemma erase_after_verify:
  assumes "unarmed ns"
  shows "after_verify node hb clock (blind c) pre (erase_ns ns) = apfst erase_ns (after_verify node hb clock c pre ns)"
proof -
  have ua: "unarmed (fst (reserve_hot (sk_reserve_mono clock) c cls ns))" for cls using assms by (simp add: unarmed_reserve_hot)
  have w: "with_store (\<lambda>st. release_hot_budget st k) (erase_ns x) = erase_ns (with_store (\<lambda>st. release_hot_budget st k) x)" for k x
    by (simp add: erase_with_store release_hot_budget_def)
  show ?thesis
  proof (cases "classify (nd_desc node) (sc_spend c) (nd_check_params node)")
    case (Inl e)
    then show ?thesis by (simp add: after_verify_def split: check_failure.split)
  next
    case (Inr cls)
    obtain ns1 r where r: "reserve_hot (sk_reserve_mono clock) c cls ns = (ns1, r)" by fastforce
    have "unarmed ns1" using ua [of cls] r by simp
    then show ?thesis using Inr assms
      by (cases "cls_class cls") (simp_all add: after_verify_def Let_def erase_after_reserve erase_reserve_hot r w erase_staged split: sum.split)
  qed
qed

lemma erase_prune_logs: "prune_logs node now mt (erase_ns ns) = erase_ns (prune_logs node now mt ns)"
  by (simp add: prune_logs_def erase_with_store prune_store_def erase_prune erase_prune_carriers)

lemma erase_verify_fresh:
  assumes "unarmed ns"
  shows "verify_fresh node hb clock (blind c) pre (erase_ns ns) = apfst erase_ns (verify_fresh node hb clock c pre ns)"
proof -
  have "unarmed (prune_logs node (sc_now c) (sk_prune_mono clock) ns)"
    using assms by (simp add: prune_logs_def unarmed_with_store prune_store_def)
  then show ?thesis
    by (simp add: verify_fresh_def Let_def erase_staged erase_prune_logs erase_after_verify
          split: option.split sum.split check_failure.split sign_response.split)
qed

lemma erase_replay_or_verify:
  assumes "unarmed ns"
  shows "replay_or_verify node hb clock (blind c) pre (erase_ns ns) = apfst erase_ns (replay_or_verify node hb clock c pre ns)"
proof -
  define ns1 where "ns1 = set_sign (\<lambda>s. s\<lparr>ss_replay := replay_prune (ss_replay s) (sc_now c)\<rparr>) ns"
  let ?f = "\<lambda>dur st. record_intent_pair (apply_cached_schedule st (sc_escape_id c) dur (sc_now c) (nd_epsilon_secs node))
     (sc_carrier c) (sc_commitment_id c) (sc_escape_id c)"
  have ua: "unarmed ns1" using assms by (simp add: ns1_def)
  have f: "?f False (erase st) = erase (?f (sc_duress c) st)" if "\<not> active (armed st)" for st
    using erase_directive [OF that, of "\<lparr>ad_sweep_escape = sc_escape_id c, ad_spend_commitment_id = [], ad_carrier = [],
       ad_duress = sc_duress c, ad_epsilon_secs = nd_epsilon_secs node, ad_now = sc_now c\<rparr>" "[]"]
    by (simp add: apply_cached_schedule_def erase_record_pair)
  have cached: "with_store (?f False) (erase_ns ns1) = erase_ns (with_store (?f (sc_duress c)) ns1)"
    using ua by (cases "ns_channel ns1") (simp_all add: with_store_def erase_ns_def unarmed_def f)
  show ?thesis
    by (simp add: replay_or_verify_def Let_def ns1_def [symmetric] cached erase_staged erase_verify_fresh ua split: option.split)
qed

lemma blind_case:
  "spend_case_of node request carrier False raw now spend esc bmps = blind (spend_case_of node request carrier d raw now spend esc bmps)"
  by (simp add: spend_case_of_def Let_def)

lemma erase_decide:
  assumes "unarmed ns"
  shows "sign_decide node hb clock request Normal carrier pre (erase_ns ns) = apfst erase_ns (sign_decide node hb clock request v carrier pre ns)"
proof -
  have "decode_and_decide node hb clock request Normal carrier pre now (erase_ns ns) =
      apfst erase_ns (decode_and_decide node hb clock request v carrier pre now ns)" for now
    by (simp add: decode_and_decide_def blind_case [where d = "v = Duress"] erase_replay_or_verify [OF assms] split: option.split)
  then show ?thesis by (simp add: sign_decide_def Let_def erase_stage split: option.split)
qed

subsection \<open>The silence of the handler\<close>

lemma erase_ruled:
  assumes v: "v \<noteq> Wrong"
    and other: "\<And>x. during_fetch (erase_ns x) = erase_ns (during_fetch x)"
    and calm: "unarmed (during_fetch (fst (sign_rule node clock request adm v carrier ns)))"
  shows "sign_ruled node be clock during_fetch request adm Normal carrier (erase_ns ns) w =
    apfst (apfst erase_ns) (sign_ruled node be clock during_fetch request adm v carrier ns w)"
proof -
  obtain ns2 claim h where r: "sign_rule node clock request adm v carrier ns = (ns2, claim, h)" by (metis prod_cases3)
  have "unarmed (during_fetch ns2)" using calm r by simp
  then show ?thesis
    by (simp add: sign_ruled_def Let_def erase_rule [OF v] r erase_finish split_beta erase_decide [where v = v] other split: option.split)
qed

lemma unarmed_erase [simp]: "unarmed (erase_ns ns) = unarmed ns"
  by (cases "ns_channel ns") (simp_all add: unarmed_def)

lemma active_record_arm_intent: "active (armed (fst (record_arm_intent st dur k n g first now timing))) = active (armed st)"
  by (simp add: record_arm_intent_def write_safety_overlay_def Let_def split: option.split)

lemma unarmed_rule:
  assumes "unarmed ns"
  shows "unarmed (fst (sign_rule node clock r adm v k ns))"
proof -
  have stage: "unarmed (stage_spend_carrier node q c x) = unarmed x" for q c x
    by (simp add: stage_spend_carrier_def unarmed_with_store mark_carrier_propagated_def) (simp add: push_outbox_def unarmed_def)
  have "unarmed (fst (fire_arm_hook node v k n g first now ns))" for n g first now
    using assms by (cases "ns_channel ns"; cases g)
      (simp_all add: fire_arm_hook_def Let_def split_beta unarmed_def set_store_def active_record_arm_intent)
  then show ?thesis using assms
    by (simp add: sign_rule_def Let_def split_beta stage split: option.split)
qed

text \<open>C5: duress silence of the spend handler. Run from the ruling on the PIN to its answer, the handler gives a duress
  PIN and a normal PIN the same answer after the same chain reads, and leaves states that differ in the private pin
  class alone, as long as what other threads do in between does not depend on that class and the node is not armed
  when it decides.\<close>

theorem sign_duress_silent:
  assumes other: "\<forall>x. during_fetch (erase_ns x) = erase_ns (during_fetch x)"
    and calm: "unarmed (during_fetch (fst (sign_rule node clock request adm Duress carrier ns)))"
  shows "snd (fst (sign_ruled node be clock during_fetch request adm Duress carrier ns w)) =
      snd (fst (sign_ruled node be clock during_fetch request adm Normal carrier ns w)) \<and>
    snd (sign_ruled node be clock during_fetch request adm Duress carrier ns w) =
      snd (sign_ruled node be clock during_fetch request adm Normal carrier ns w) \<and>
    erase_ns (fst (fst (sign_ruled node be clock during_fetch request adm Duress carrier ns w))) =
      erase_ns (fst (fst (sign_ruled node be clock during_fetch request adm Normal carrier ns w)))"
proof -
  let ?r = "\<lambda>v. fst (sign_rule node clock request adm v carrier ns)"
  have same: "erase_ns (?r Duress) = erase_ns (?r Normal)"
    using erase_rule [of Duress node clock request adm carrier ns] erase_rule [of Normal node clock request adm carrier ns]
    by (metis fst_apfst pin_verdict.distinct(3) pin_verdict.distinct(5))
  have "unarmed (during_fetch (?r Normal))"
    using calm other same by (metis unarmed_erase)
  then have n: "sign_ruled node be clock during_fetch request adm Normal carrier (erase_ns ns) w =
      apfst (apfst erase_ns) (sign_ruled node be clock during_fetch request adm Normal carrier ns w)"
    using other by (intro erase_ruled) simp_all
  have d: "sign_ruled node be clock during_fetch request adm Normal carrier (erase_ns ns) w =
      apfst (apfst erase_ns) (sign_ruled node be clock during_fetch request adm Duress carrier ns w)"
    using other calm by (intro erase_ruled) simp_all
  from n d have e: "apfst (apfst erase_ns) (sign_ruled node be clock during_fetch request adm Duress carrier ns w) =
      apfst (apfst erase_ns) (sign_ruled node be clock during_fetch request adm Normal carrier ns w)" by simp
  then show ?thesis by (metis fst_apfst snd_apfst)
qed

definition sd_admitted :: admitted where
  "sd_admitted = (let g = \<lparr>gen_signature_tag = [1], gen_expiry = 2000, gen_deadline = 1007\<rparr>
     in \<lparr>am_first_seen = 1000, am_generation = Some g, am_claim = Some (claim_for sd_request g)\<rparr>)"

theorem sign_duress_silent_witness:
  "(\<exists>a. snd (fst (sign_ruled sign_node (Some sd_backend) sd_clock (\<lambda>x. x) sd_request sd_admitted Duress ''k'' sd_state ())) =
     answer (RespAccepted a)) \<and>
   erase_ns (fst (fst (sign_ruled sign_node (Some sd_backend) sd_clock (\<lambda>x. x) sd_request sd_admitted Duress ''k'' sd_state ()))) =
     erase_ns (fst (fst (sign_ruled sign_node (Some sd_backend) sd_clock (\<lambda>x. x) sd_request sd_admitted Normal ''k'' sd_state ())))"
proof -
  have ua: "unarmed sd_state" by (simp add: unarmed_def sd_state_def demo_node_state_def store_new_def)
  have live: "sd_live sd_state" by (simp add: sd_live_def sd_state_def demo_node_state_def sd_store_def store_new_def nonce_log_default_def)
  obtain ns2 claim where rl: "sign_rule sign_node sd_clock sd_request sd_admitted Normal ''k'' sd_state = (ns2, claim, None)" "sd_live ns2"
    using sd_rule [OF live] by blast
  obtain ns3 a where dc: "sign_decide sign_node True sd_clock sd_request Normal ''k'' (Some sd_prevouts, Some sd_prevouts) ns2 = (ns3, answer (RespAccepted a))"
    using sd_decide [OF rl(2)] by blast
  have pf: "prefetch_spend_escape_prevouts sign_node (Some sd_backend) sd_request () = ((Some sd_prevouts, Some sd_prevouts), ())"
    using sd_prefetch by (simp add: sd_prevouts_def)
  have "snd (fst (sign_ruled sign_node (Some sd_backend) sd_clock (\<lambda>x. x) sd_request sd_admitted Normal ''k'' sd_state ())) = answer (RespAccepted a)"
    by (simp add: sign_ruled_def rl pf dc)
  then show ?thesis
    using sign_duress_silent [of "\<lambda>x. x" sign_node sd_clock sd_request sd_admitted "''k''" sd_state "Some sd_backend" "()"]
      unarmed_rule [OF ua, of sign_node sd_clock sd_request sd_admitted Duress "''k''"] by auto
qed

end
