(* ===== verification/Refresh_Handler.thy ===== *)
theory Refresh_Handler
  imports Sign_Sound
begin

text \<open>
  The refresh handler of \<open>crates/vault-node/src/lib.rs\<close> (\<open>handle_refresh_after_lock\<close>): a vault to vault
  spend without PIN, Hold and escape. It takes the sign lock twice, around its one chain read; \<open>refresh_admit\<close>
  and \<open>refresh_decide\<close> are the two critical sections. Shown: its effect on the store is an execution of the
  channel, and what an accepted refresh certifies, first of all that no spend was pending or in flight.
\<close>

subsection \<open>The handler\<close>

record refresh_clock =
  rk_admit_raw :: u64
  rk_admit_mono :: u64
  rk_decide_raw :: u64
  rk_prune_mono :: u64
  rk_register_mono :: u64

definition refresh_admit :: "'d node \<Rightarrow> refresh_clock \<Rightarrow> refresh_request \<Rightarrow> node_state \<Rightarrow> node_state \<times> handled option" where
  "refresh_admit node clock request ns =
     (if ns_lockdown ns then (ns, Some (answer fraud_suspected))
      else if ns_sign_poisoned ns then (ns, Some HandlerPanic)
      else let mono_now = (if has_channel ns then Some (rk_admit_mono clock) else None);
               (nonces, r) = verify_coord_auth node (refresh_coord_request request) (rr_coord_sig request) (rk_admit_raw clock)
                  (ss_coord_nonces (ns_sign ns)) mono_now;
               ns1 = set_sign (\<lambda>s. s\<lparr>ss_coord_nonces := nonces\<rparr>) ns
        in case r of
             Inl rejected \<Rightarrow> (ns1, Some (answer rejected))
           | Inr _ \<Rightarrow>
               if ensure_request_propagatable node (has_channel ns) (TaggedRefresh request) then (ns1, None)
               else (ns1, Some (Handled (Err NotPropagatable))))"

text \<open>A decoded refresh with the identities the replay log knows it by.\<close>

record refresh_case =
  fc_request :: refresh_request
  fc_now :: u64
  fc_psbt :: psbt
  fc_commitment_id :: string
  fc_key :: string

definition fc_expiry :: "refresh_case \<Rightarrow> u64" where
  "fc_expiry c = unat (rr_expiry (fc_request c))"

definition refresh_case_of :: "'d node \<Rightarrow> refresh_request \<Rightarrow> u64 \<Rightarrow> psbt \<Rightarrow> refresh_case" where
  "refresh_case_of node request now p =
     (let cid = commitment_id_for node p (rr_expiry request) in
      \<lparr>fc_request = request, fc_now = now, fc_psbt = p, fc_commitment_id = cid, fc_key = acceptance_replay_key node [(cid, p)]\<rparr>)"

text \<open>The refresh names itself as its escape, is due at once and has no holder gate.\<close>

definition refresh_pair :: "'d node \<Rightarrow> refresh_case \<Rightarrow> psbt \<Rightarrow> pair_registration" where
  "refresh_pair node c sgd =
     \<lparr>rp_spend = sgd, rp_spend_commitment_id = fc_commitment_id c, rp_spend_hot = False, rp_duress = False,
      rp_confirmation_required = False, rp_escape = sgd, rp_escape_bumps = [], rp_escape_commitment_id = fc_commitment_id c,
      rp_fire = \<lparr>fire_at = fc_now c, fw_deadline = min (fc_expiry c) (sat_add64 (fc_now c) (nd_combine_slack_secs node))\<rparr>,
      rp_expiry = fc_expiry c, rp_now = fc_now c, rp_hot_reserve = None,
      rp_carrier = arm_carrier_id node (refresh_coord_request (fc_request c))\<rparr>"

definition record_refresh :: "'d node \<Rightarrow> refresh_case \<Rightarrow> psbt \<Rightarrow> node_state \<Rightarrow> node_state \<times> handled" where
  "record_refresh node c sgd ns =
     (let txid_of = sa_txid (nd_sig node);
          ack = RespAccepted \<lparr>ack_commitment_id = fc_commitment_id c, ack_first_seen = fc_now c, ack_remaining_secs = 0\<rparr>;
          ns1 = set_sign (\<lambda>s. s\<lparr>ss_refreshes := refresh_record txid_of (ss_refreshes s) sgd (fc_now c)\<rparr>) ns;
          ns2 = push_outbox (TaggedRefresh (fc_request c))
            (ns1\<lparr>ns_authorized := set_insert (txid_of (unsigned_tx sgd)) (ns_authorized ns1)\<rparr>)
      in (set_sign (\<lambda>s. s\<lparr>ss_replay := record_verdict (ss_replay s) (fc_key c) (fc_expiry c) ack\<rparr>) ns2, answer ack))"

definition sign_refresh :: "'d node \<Rightarrow> u64 \<Rightarrow> refresh_case \<Rightarrow> node_state \<Rightarrow> node_state \<times> handled" where
  "sign_refresh node mono_now c ns =
     (case add_node_signatures node (fc_psbt c) of
        None \<Rightarrow> (ns, answer (refuse RcPsbtInconsistent ''signing''))
      | Some sgd \<Rightarrow>
          (case register_pair node mono_now (refresh_pair node c sgd) ns of
             (ns1, Inl refused) \<Rightarrow> (ns1, answer refused)
           | (ns1, Inr _) \<Rightarrow> record_refresh node c sgd ns1))"

text \<open>Subordination to every pending spend and every spend in flight, then the two burn bounds.\<close>

definition refresh_gates :: "'d node \<Rightarrow> refresh_case \<Rightarrow> node_state \<Rightarrow> sign_response option" where
  "refresh_gates node c ns =
     (if pending_has_any (ss_pending (ns_sign ns)) (fc_now c) \<or> ns_spend_preflight ns > 0
      then Some (refuse RefreshSubordinated ''refresh_subordination'')
      else case check_refresh_interval node (ss_refreshes (ns_sign ns)) (fc_psbt c) (fc_now c) of
             Some refused \<Rightarrow> Some refused
           | None \<Rightarrow> check_refresh_feerate node (fc_psbt c))"

definition record_refresh_refusal :: "refresh_case \<Rightarrow> sign_response \<Rightarrow> node_state \<Rightarrow> node_state \<times> handled" where
  "record_refresh_refusal c r ns =
     (set_sign (\<lambda>s. s\<lparr>ss_replay := record_verdict (ss_replay s) (fc_commitment_id c) (fc_expiry c) r\<rparr>) ns, answer r)"

definition refresh_failure :: "refresh_case \<Rightarrow> check_failure \<Rightarrow> node_state \<Rightarrow> node_state \<times> handled" where
  "refresh_failure c f ns =
     (case f of Refused r \<Rightarrow> record_refresh_refusal c r ns | PolicyPanic \<Rightarrow> (ns\<lparr>ns_sign_poisoned := True\<rparr>, HandlerPanic))"

definition verify_refresh ::
  "'d node \<Rightarrow> bool \<Rightarrow> refresh_clock \<Rightarrow> refresh_case \<Rightarrow> prevout_fetch option \<Rightarrow> node_state \<Rightarrow> node_state \<times> handled" where
  "verify_refresh node has_backend clock c prefetched ns0 =
     (let ns = prune_logs node (fc_now c) (rk_prune_mono clock) ns0 in
      case verify_spend node has_backend (fc_psbt c) prefetched of
        Inl f \<Rightarrow> refresh_failure c f ns
      | Inr _ \<Rightarrow>
          (case classify (nd_desc node) (fc_psbt c) (nd_check_params node) of
             Inl e \<Rightarrow> refresh_failure c (policy_refusal e) ns
           | Inr cls \<Rightarrow>
               if cls_class cls \<noteq> Refresh then record_refresh_refusal c (refuse RcPsbtInconsistent ''transaction_class'') ns
               else (case refresh_gates node c ns of
                       Some refused \<Rightarrow> (ns, answer refused)
                     | None \<Rightarrow> sign_refresh node (rk_register_mono clock) c ns)))"

definition replay_or_refresh ::
  "'d node \<Rightarrow> bool \<Rightarrow> refresh_clock \<Rightarrow> refresh_case \<Rightarrow> prevout_fetch option \<Rightarrow> node_state \<Rightarrow> node_state \<times> handled" where
  "replay_or_refresh node has_backend clock c prefetched ns0 =
     (let ns = set_sign (\<lambda>s. s\<lparr>ss_replay := replay_prune (ss_replay s) (fc_now c)\<rparr>) ns0 in
      case replay_get (ss_replay (ns_sign ns)) (fc_key c) (fc_now c) of
        Some recorded \<Rightarrow> (ns, answer recorded)
      | None \<Rightarrow>
          (case replay_get (ss_replay (ns_sign ns)) (fc_commitment_id c) (fc_now c) of
             Some recorded \<Rightarrow> (ns, answer recorded)
           | None \<Rightarrow> verify_refresh node has_backend clock c prefetched ns))"

definition refresh_decide ::
  "'d node \<Rightarrow> bool \<Rightarrow> refresh_clock \<Rightarrow> refresh_request \<Rightarrow> prevout_fetch option \<Rightarrow> node_state \<Rightarrow> node_state \<times> handled" where
  "refresh_decide node has_backend clock request prefetched ns =
     (if ns_sign_poisoned ns then (ns, HandlerPanic)
      else if ns_lockdown ns then (ns, answer fraud_suspected)
      else let raw_now = rk_decide_raw clock;
               now = effective_now (ss_coord_nonces (ns_sign ns)) raw_now;
               expiry = unat (rr_expiry request)
        in if expiry \<le> now \<or> expiry > sat_add64 raw_now (nd_max_commitment_age_secs node)
           then (ns, answer (refuse CommitmentExpired ''commitment_expiry''))
           else (case decode_psbt node (rr_refresh_psbt request) of
                   None \<Rightarrow> (ns, Handled (Err (CannotDecode ''refresh'')))
                 | Some p \<Rightarrow> replay_or_refresh node has_backend clock (refresh_case_of node request now p) prefetched ns))"

definition handle_refresh ::
  "'d node \<Rightarrow> 'w chain_backend option \<Rightarrow> refresh_clock \<Rightarrow> (node_state \<Rightarrow> node_state) \<Rightarrow> refresh_request \<Rightarrow> node_state \<Rightarrow> 'w
    \<Rightarrow> (node_state \<times> handled) \<times> 'w" where
  "handle_refresh node be clock during_fetch request ns w =
     (case refresh_admit node clock request ns of
        (ns1, Some h) \<Rightarrow> ((ns1, h), w)
      | (ns1, None) \<Rightarrow>
          let (pre, w1) = prefetch_prevouts node be (rr_refresh_psbt request) w
          in (refresh_decide node (be \<noteq> None) clock request pre (during_fetch ns1), w1))"

subsection \<open>The handler is an execution of the channel\<close>

lemma runs_refresh_admit: "node_runs node ns (fst (refresh_admit node clock r ns))"
  by (simp add: refresh_admit_def Let_def split_beta split: sum.split)

lemma runs_prune_logs: "node_runs node ns (prune_logs node now t ns)"
  unfolding prune_logs_def by (rule node_runs_trans [OF node_runs_same runs_prune_node]) (simp add: set_sign_def)

lemma runs_sign_refresh: "node_runs node ns (fst (sign_refresh node t c ns))"
proof (cases "add_node_signatures node (fc_psbt c)")
  case (Some sgd)
  obtain ns1 r where reg: "register_pair node t (refresh_pair node c sgd) ns = (ns1, r)" by fastforce
  from runs_register [OF reg] show ?thesis
    by (cases r) (simp_all add: sign_refresh_def Some reg record_refresh_def Let_def)
qed (simp add: sign_refresh_def)

lemma runs_verify_refresh: "node_runs node ns (fst (verify_refresh node hb clock c pre ns))"
proof -
  note p = runs_prune_logs [of node ns "fc_now c" "rk_prune_mono clock"]
  have f: "node_runs node a (fst (refresh_failure c x b)) = node_runs node a b" for a b x
    by (cases x) (simp_all add: refresh_failure_def record_refresh_refusal_def)
  show ?thesis
    by (simp add: verify_refresh_def Let_def f p record_refresh_refusal_def node_runs_trans [OF p runs_sign_refresh] split: sum.split option.split)
qed

lemma runs_refresh_decide: "node_runs node ns (fst (refresh_decide node hb clock r pre ns))"
proof -
  have rep: "node_runs node ns (fst (replay_or_refresh node hb clock c pre ns))" for c
  proof -
    let ?ns = "set_sign (\<lambda>s. s\<lparr>ss_replay := replay_prune (ss_replay s) (fc_now c)\<rparr>) ns"
    have p: "node_runs node ns ?ns" by simp
    show ?thesis by (simp add: replay_or_refresh_def Let_def node_runs_trans [OF p runs_verify_refresh] split: option.split)
  qed
  then show ?thesis by (simp add: refresh_decide_def Let_def split: option.split)
qed

lemma handle_refresh_runs:
  assumes "handle_refresh node be clock during_fetch r ns w = ((ns', h), w')" and "harmless node during_fetch"
  shows "node_runs node ns ns'"
proof -
  obtain ns1 res where adm: "refresh_admit node clock r ns = (ns1, res)" by fastforce
  have r1: "node_runs node ns ns1" using runs_refresh_admit [of node ns clock r] adm by simp
  obtain pre w1 where pf: "prefetch_prevouts node be (rr_refresh_psbt r) w = (pre, w1)" by fastforce
  from assms(1) adm pf r1 node_runs_trans [OF harmless_after [OF assms(2) r1] runs_refresh_decide [of node _ "be \<noteq> None" clock r pre]]
  show ?thesis by (cases res) (auto simp: handle_refresh_def dest: arg_cong [where f = fst])
qed

subsection \<open>What an accepted refresh certifies\<close>

lemma hm_get_retained: "hm_get m k = Some v \<Longrightarrow> P k v \<Longrightarrow> hm_get (hm_retain P m) k = Some v"
  by (induction m) (auto simp: hm_get_def hm_retain_def split: if_split_asm)

definition fresh_refresh :: "'d node \<Rightarrow> bool \<Rightarrow> node_state \<Rightarrow> u64 \<Rightarrow> psbt \<Rightarrow> prevout_fetch option \<Rightarrow> bool" where
  "fresh_refresh node hb ns now p pre \<longleftrightarrow>
     user_signed node p \<and> evaluate (nd_desc node) p (nd_check_params node) = Inr () \<and>
     (hb \<longrightarrow> (\<exists>prevouts. pre = Some (Inr prevouts) \<and> agrees_with_chain p prevouts)) \<and>
     (\<exists>cls. classify (nd_desc node) p (nd_check_params node) = Inr cls \<and> cls_class cls = Refresh) \<and>
     ns_spend_preflight ns = 0 \<and> \<not> pending_has_any (ss_pending (ns_sign ns)) now \<and>
     (\<forall>input \<in> set (tx_input (unsigned_tx p)). \<forall>t. last_refresh (ss_refreshes (ns_sign ns)) (previous_output input) = Some t \<longrightarrow>
        nd_refresh_min_interval_secs node \<le> now - t) \<and>
     (tx_vsize (nd_tx node) (unsigned_tx p) = 0 \<or>
      present_utxos p - outputs_sum p \<le> sat_mul128 (nd_refresh_max_feerate node) (tx_vsize (nd_tx node) (unsigned_tx p)))"

definition recorded_refresh :: "refresh_case \<Rightarrow> node_state \<Rightarrow> accepted_ack \<Rightarrow> bool" where
  "recorded_refresh c ns a \<longleftrightarrow>
     (\<exists>key \<in> {fc_key c, fc_commitment_id c}. replay_get (replay_prune (ss_replay (ns_sign ns)) (fc_now c)) key (fc_now c) = Some (RespAccepted a))"

lemma gates_None:
  assumes "refresh_gates node c (prune_logs node (fc_now c) t ns) = None"
  shows "ns_spend_preflight ns = 0" "\<not> pending_has_any (ss_pending (ns_sign ns)) (fc_now c)"
    "\<forall>input \<in> set (tx_input (unsigned_tx (fc_psbt c))). \<forall>at. last_refresh (ss_refreshes (ns_sign ns)) (previous_output input) = Some at \<longrightarrow>
       nd_refresh_min_interval_secs node \<le> fc_now c - at"
    "check_refresh_feerate node (fc_psbt c) = None"
proof -
  let ?p = "prune_logs node (fc_now c) t ns"
  have f: "ns_spend_preflight ?p = ns_spend_preflight ns" "ss_pending (ns_sign ?p) = pending_prune (ss_pending (ns_sign ns)) (fc_now c)"
    "ss_refreshes (ns_sign ?p) = refresh_prune (ss_refreshes (ns_sign ns)) (fc_now c) (nd_refresh_min_interval_secs node)"
    by (simp_all add: prune_logs_def with_store_def set_sign_def)
  have pend: "pending_has_any (pending_prune l now) now = pending_has_any l now" for l now
    by (force simp: pending_has_any_def pending_prune_def hm_values_def hm_retain_def list_ex_iff)
  have g: "\<not> pending_has_any (ss_pending (ns_sign ns)) (fc_now c)" "ns_spend_preflight ns = 0"
    "check_refresh_interval node (ss_refreshes (ns_sign ?p)) (fc_psbt c) (fc_now c) = None" "check_refresh_feerate node (fc_psbt c) = None"
    using assms by (auto simp: refresh_gates_def f pend split: if_split_asm option.split_asm)
  from g show "ns_spend_preflight ns = 0" "\<not> pending_has_any (ss_pending (ns_sign ns)) (fc_now c)" "check_refresh_feerate node (fc_psbt c) = None" by simp_all
  show "\<forall>input \<in> set (tx_input (unsigned_tx (fc_psbt c))). \<forall>at. last_refresh (ss_refreshes (ns_sign ns)) (previous_output input) = Some at \<longrightarrow>
      nd_refresh_min_interval_secs node \<le> fc_now c - at"
  proof (intro ballI allI impI, rule ccontr)
    fix input at
    assume inp: "input \<in> set (tx_input (unsigned_tx (fc_psbt c)))" and l: "last_refresh (ss_refreshes (ns_sign ns)) (previous_output input) = Some at"
      and "\<not> nd_refresh_min_interval_secs node \<le> fc_now c - at"
    then have "last_refresh (ss_refreshes (ns_sign ?p)) (previous_output input) = Some at"
      unfolding f last_refresh_def refresh_prune_def by (intro hm_get_retained) (simp_all add: last_refresh_def)
    with g(3) inp \<open>\<not> nd_refresh_min_interval_secs node \<le> fc_now c - at\<close> show False
      by (auto simp: check_refresh_interval_def list_ex_iff split: if_split_asm)
  qed
qed

lemma verify_refresh_Accepted:
  assumes "verify_refresh node hb clock c pre ns = (ns', answer (RespAccepted a))" and "fetch_refuses pre"
  shows "fresh_refresh node hb ns (fc_now c) (fc_psbt c) pre"
proof -
  have fl: "refresh_failure c f x \<noteq> (y, answer (RespAccepted a))" if "failing (Inl f :: check_failure + unit)" for f x y
    using that by (cases f) (auto simp: refresh_failure_def record_refresh_refusal_def)
  have vs: "failing (verify_spend node hb (fc_psbt c) pre)" by (rule failing_spend [OF assms(2)])
  have pr: "failing (Inl (policy_refusal e) :: check_failure + unit)" for e by (cases e) simp_all
  let ?p = "prune_logs node (fc_now c) (rk_prune_mono clock) ns"
  have gr: "refresh_gates node c ?p \<noteq> Some (RespAccepted a)"
    by (auto simp: refresh_gates_def check_refresh_interval_def check_refresh_feerate_def Let_def refuse_def split: option.split)
  from assms(1) vs have ok: "verify_spend node hb (fc_psbt c) pre = Inr ()"
    by (cases "verify_spend node hb (fc_psbt c) pre") (auto simp: verify_refresh_def fl failing_def)
  from assms(1) ok obtain cls where cls: "classify (nd_desc node) (fc_psbt c) (nd_check_params node) = Inr cls" "cls_class cls = Refresh"
    by (cases "classify (nd_desc node) (fc_psbt c) (nd_check_params node)")
       (auto simp: verify_refresh_def Let_def fl [OF pr] record_refresh_refusal_def refuse_def split: if_split_asm)
  from assms(1) ok cls gr have "refresh_gates node c ?p = None"
    by (auto simp: verify_refresh_def Let_def split: option.split_asm)
  note g = gates_None [OF this]
  from g(4) have "tx_vsize (nd_tx node) (unsigned_tx (fc_psbt c)) = 0 \<or> present_utxos (fc_psbt c) - outputs_sum (fc_psbt c) \<le>
      sat_mul128 (nd_refresh_max_feerate node) (tx_vsize (nd_tx node) (unsigned_tx (fc_psbt c)))"
    by (auto simp: check_refresh_feerate_def Let_def split: if_split_asm)
  with g(1-3) verify_spend_Ok [OF ok] cls show ?thesis unfolding fresh_refresh_def by blast
qed

lemma fetch_refuses_prefetch: "fetch_refuses (fst (prefetch_prevouts node be s w))"
  by (auto simp: prefetch_prevouts_def fetch_prevouts_def fetch_refuses_def ground_truth_refusal_def Let_def split_beta
      split: option.split prod.split sum.split)

lemma coord_auth_Ok:
  assumes "verify_coord_auth node q s now nonces mt = (nonces', Inr x)"
  shows "verify_coord_signature node q s = Inr () \<and>
    snd (check_and_record nonces \<lparr>nr_nonce = cr_nonce q, nr_expiry = unat (cr_expiry q), nr_now = now,
      nr_max_age = nd_max_commitment_age_secs node, nr_mono_now = mt, nr_record_deadline = (is_coord_spend q \<and> mt \<noteq> None)\<rparr>) = nonce_decision.Accepted"
proof -
  have nv: "nonce_verdict d = Inr () \<longleftrightarrow> d = nonce_decision.Accepted" for d by (cases d) simp_all
  from assms show ?thesis by (auto simp: verify_coord_auth_def Let_def split_beta bind_res_def nv split: sum.split_asm)
qed

lemma coord_auth_refuses: "verify_coord_auth node q s now nonces mt = (nonces', Inl x) \<Longrightarrow> is_refusal x"
proof -
  have nv: "nonce_verdict d = Inl e \<Longrightarrow> is_refusal e" for d e by (cases d) auto
  have cs: "verify_coord_signature node q s = Inl e \<Longrightarrow> is_refusal e" for q s e
    by (auto simp: verify_coord_signature_def Let_def split: option.split_asm if_split_asm)
  assume "verify_coord_auth node q s now nonces mt = (nonces', Inl x)"
  then show ?thesis by (auto simp: verify_coord_auth_def Let_def split_beta bind_res_def split: sum.split_asm dest!: nv cs)
qed

lemma refresh_decide_Accepted:
  assumes "refresh_decide node hb clock request pre mid = (ns', answer (RespAccepted a))" and "fetch_refuses pre"
  shows "\<not> ns_lockdown mid \<and> (\<exists>now p. now = effective_now (ss_coord_nonces (ns_sign mid)) (rk_decide_raw clock) \<and>
    now < unat (rr_expiry request) \<and> unat (rr_expiry request) \<le> sat_add64 (rk_decide_raw clock) (nd_max_commitment_age_secs node) \<and>
    decode_psbt node (rr_refresh_psbt request) = Some p \<and>
    (recorded_refresh (refresh_case_of node request now p) mid a \<or> fresh_refresh node hb mid now p pre))"
proof -
  let ?now = "effective_now (ss_coord_nonces (ns_sign mid)) (rk_decide_raw clock)"
  from assms(1) obtain p where d: "\<not> ns_lockdown mid" "?now < unat (rr_expiry request)"
    "unat (rr_expiry request) \<le> sat_add64 (rk_decide_raw clock) (nd_max_commitment_age_secs node)" "decode_psbt node (rr_refresh_psbt request) = Some p"
    and rr: "replay_or_refresh node hb clock (refresh_case_of node request ?now p) pre mid = (ns', answer (RespAccepted a))"
    by (auto simp: refresh_decide_def Let_def fraud_suspected_def refuse_def split: if_split_asm option.split_asm)
  let ?c = "refresh_case_of node request ?now p"
  let ?pruned = "set_sign (\<lambda>s. s\<lparr>ss_replay := replay_prune (ss_replay s) (fc_now ?c)\<rparr>) mid"
  have c: "fc_now ?c = ?now" "fc_psbt ?c = p" by (simp_all add: refresh_case_of_def Let_def)
  have same: "fresh_refresh node hb ?pruned t p pre = fresh_refresh node hb mid t p pre" for t by (simp add: fresh_refresh_def set_sign_def)
  from rr have "recorded_refresh ?c mid a \<or> verify_refresh node hb clock ?c pre ?pruned = (ns', answer (RespAccepted a))"
    by (auto simp: replay_or_refresh_def Let_def recorded_refresh_def set_sign_def split: option.split_asm)
  then have "recorded_refresh ?c mid a \<or> fresh_refresh node hb mid ?now p pre"
    using verify_refresh_Accepted [OF _ assms(2), of node hb clock ?c ?pruned ns' a] same [unfolded c] by (auto simp: c)
  with d show ?thesis by blast
qed

lemma refresh_admit_Ok:
  assumes "refresh_admit node clock request ns = (ns1, None)"
  shows "\<not> ns_lockdown ns \<and> ss_replay (ns_sign ns1) = ss_replay (ns_sign ns) \<and>
    verify_coord_signature node (refresh_coord_request request) (rr_coord_sig request) = Inr () \<and>
    snd (check_and_record (ss_coord_nonces (ns_sign ns))
      \<lparr>nr_nonce = rr_nonce request, nr_expiry = unat (rr_expiry request), nr_now = rk_admit_raw clock,
       nr_max_age = nd_max_commitment_age_secs node,
       nr_mono_now = (if has_channel ns then Some (rk_admit_mono clock) else None), nr_record_deadline = False\<rparr>) = nonce_decision.Accepted"
proof -
  obtain nonces r where auth: "verify_coord_auth node (refresh_coord_request request) (rr_coord_sig request) (rk_admit_raw clock)
      (ss_coord_nonces (ns_sign ns)) (if has_channel ns then Some (rk_admit_mono clock) else None) = (nonces, r)" by fastforce
  have q: "cr_nonce (refresh_coord_request request) = rr_nonce request" "cr_expiry (refresh_coord_request request) = rr_expiry request"
    "\<not> is_coord_spend (refresh_coord_request request)" by (simp_all add: refresh_coord_request_def is_coord_spend_def)
  from assms auth obtain x where x: "\<not> ns_lockdown ns" "r = Inr x" "ns1 = set_sign (\<lambda>s. s\<lparr>ss_coord_nonces := nonces\<rparr>) ns"
    by (cases r) (auto simp: refresh_admit_def Let_def split: if_split_asm)
  with coord_auth_Ok [OF auth [unfolded x(2)]] show ?thesis by (auto simp: q set_sign_def)
qed

lemma refresh_admit_refuses: "refresh_admit node clock request ns = (ns1, Some (answer x)) \<Longrightarrow> is_refusal x"
  by (auto simp: refresh_admit_def Let_def fraud_suspected_def split: if_split_asm prod.split_asm sum.split_asm dest: coord_auth_refuses)

text \<open>C24: what an accepted refresh certifies. Whatever other threads do while the handler reads the chain, a node
  acknowledges a refresh only if it is not locked down, the coordinator's signature verifies, the nonce was fresh, the
  request has not expired on the ratcheted clock, and, at the state \<open>during_fetch ns1\<close> in which the handler decides,
  either the replay log already held that acceptance for the request's own key or commitment (admission, which leaves
  \<open>ns1\<close>, does not write the log), or the transaction pays the vault alone, is signed by the user, agrees with the
  prevouts this call fetched and with the policy, no spend is pending or in flight on the node, every coin it spends
  is past the minimum refresh interval, and its fee is within the refresh cap.\<close>

theorem refresh_acceptance_sound:
  assumes "handle_refresh node be clock during_fetch request ns w = ((ns', answer (RespAccepted a)), w')"
  shows "\<not> ns_lockdown ns \<and> verify_coord_signature node (refresh_coord_request request) (rr_coord_sig request) = Inr () \<and>
    snd (check_and_record (ss_coord_nonces (ns_sign ns))
      \<lparr>nr_nonce = rr_nonce request, nr_expiry = unat (rr_expiry request), nr_now = rk_admit_raw clock,
       nr_max_age = nd_max_commitment_age_secs node,
       nr_mono_now = (if has_channel ns then Some (rk_admit_mono clock) else None), nr_record_deadline = False\<rparr>) = nonce_decision.Accepted \<and>
    (\<exists>ns1 pre now p. refresh_admit node clock request ns = (ns1, None) \<and> ss_replay (ns_sign ns1) = ss_replay (ns_sign ns) \<and>
       prefetch_prevouts node be (rr_refresh_psbt request) w = (pre, w') \<and>
       \<not> ns_lockdown (during_fetch ns1) \<and> now = effective_now (ss_coord_nonces (ns_sign (during_fetch ns1))) (rk_decide_raw clock) \<and>
       now < unat (rr_expiry request) \<and> unat (rr_expiry request) \<le> sat_add64 (rk_decide_raw clock) (nd_max_commitment_age_secs node) \<and>
       decode_psbt node (rr_refresh_psbt request) = Some p \<and>
       (recorded_refresh (refresh_case_of node request now p) (during_fetch ns1) a \<or>
        fresh_refresh node (be \<noteq> None) (during_fetch ns1) now p pre))"
proof -
  obtain ns1 r where adm: "refresh_admit node clock request ns = (ns1, r)" by fastforce
  obtain pre w1 where pf: "prefetch_prevouts node be (rr_refresh_psbt request) w = (pre, w1)" by fastforce
  have pre: "fetch_refuses pre" using fetch_refuses_prefetch [of node be "rr_refresh_psbt request" w] pf by simp
  from assms adm refresh_admit_refuses [of node clock request ns ns1 "RespAccepted a"] have r: "r = None"
    by (cases r) (auto simp: handle_refresh_def)
  with assms adm pf have dc: "refresh_decide node (be \<noteq> None) clock request pre (during_fetch ns1) = (ns', answer (RespAccepted a))" "w1 = w'"
    by (simp_all add: handle_refresh_def)
  from refresh_decide_Accepted [OF dc(1) pre] refresh_admit_Ok [OF adm [unfolded r]] adm r pf dc(2) show ?thesis by auto
qed

end
