(* ===== verification/Channel_Handler.thy ===== *)
theory Channel_Handler
  imports Refresh_Handler
begin

text \<open>
  The \<open>/channel\<close> handler of \<open>crates/vault-node/src/lib.rs\<close> (\<open>handle_channel_body_with_clocks\<close>,
  \<open>handle_outer_stale_spend\<close>) and the drain of the outbox. A body is ingested; a relayed request runs this node's own
  handler and then counts the sender as a holder of the carrier, the only place where an arm commits. The steps
  between two locks are open to other threads: \<open>during i\<close> is what they do before step \<open>i\<close>. Whether the one
  Argon2 slot was free is an argument, and so is every clock reading.
\<close>

datatype channel_handled = Replied channel_reply | ChannelPanic

record channel_clock =
  ck_received :: u64
  ck_sign :: sign_clock
  ck_refresh :: refresh_clock
  ck_lookup :: u64
  ck_lookup_mono :: u64
  ck_relookup :: u64
  ck_relookup_mono :: u64
  ck_confirm :: u64
  ck_confirm_mono :: u64
  ck_stale :: "nat \<Rightarrow> u64"
  ck_stale_mono :: "nat \<Rightarrow> u64"

definition on_store :: "'a \<Rightarrow> (partial_store \<Rightarrow> partial_store \<times> 'a) \<Rightarrow> node_state \<Rightarrow> node_state \<times> 'a" where
  "on_store d f ns = (case ns_channel ns of None \<Rightarrow> (ns, d) | Some ch \<Rightarrow> (let (st', x) = f (ch_store ch) in (set_store st' ns, x)))"

subsection \<open>Receipts\<close>

definition retry_in :: "u64 \<Rightarrow> channel_handled" where
  "retry_in s = Replied (ReplyRateLimited s)"

text \<open>\<open>Node::confirm_carrier\<close>: the ratcheted clock and the store under one hold of the sign lock.\<close>

definition confirm_on_node ::
  "'d node \<Rightarrow> u64 \<Rightarrow> u64 \<Rightarrow> node_id \<Rightarrow> string \<Rightarrow> node_state \<Rightarrow> node_state \<times> carrier_confirmation option" where
  "confirm_on_node node now mono_now sender carrier ns =
     (if \<not> has_channel ns then (ns, Some NONE_CONFIRMED)
      else if ns_sign_poisoned ns then (ns, None)
      else apsnd Some (on_store NONE_CONFIRMED (\<lambda>st. confirm_carrier st sender carrier (nd_threshold node)
             (effective_now (ss_coord_nonces (ns_sign ns)) now) mono_now (duress_timing_of node)) ns))"

definition receipt_eligible :: "'d node \<Rightarrow> sign_request \<Rightarrow> node_state \<Rightarrow> bool" where
  "receipt_eligible node spend ns \<longleftrightarrow>
     \<not> ns_lockdown ns \<and> sr_nonce spend \<noteq> [] \<and> length (sr_nonce spend) \<le> MAX_COORD_NONCE_BYTES \<and>
     ensure_request_propagatable node (has_channel ns) (TaggedSpend spend) \<and>
     verify_coord_signature node (sign_coord_request spend) (sr_coord_sig spend) = Inr ()"

definition memo_lookup :: "'d node \<Rightarrow> sign_request \<Rightarrow> digest \<Rightarrow> node_id \<Rightarrow> u64 \<Rightarrow> u64 \<Rightarrow> node_state \<Rightarrow> carrier_memo_lookup" where
  "memo_lookup node spend tag sender now mono_now ns =
     (case ns_channel ns of
        None \<Rightarrow> LookupVacant
      | Some ch \<Rightarrow> carrier_memo_lookup (nd_sig node) (ch_store ch) (sr_nonce spend) tag (unat (sr_expiry spend)) sender now mono_now)"

text \<open>The last look, after a conflicting signature was resolved.\<close>

fun relooked :: "carrier_memo_lookup \<Rightarrow> channel_handled + string option" where
  "relooked (Exact carrier) = Ok (Some carrier)"
| "relooked AwaitingPropagation = Err (retry_in 1)"
| "relooked ClockRefused = Err (retry_in CARRIER_CLOCK_RETRY_SECS)"
| "relooked _ = Ok None"

text \<open>A second valid signature over a live nonce: derive the carrier of this body once for this sender.\<close>

definition resolve_conflict ::
  "'d node \<Rightarrow> bool \<Rightarrow> channel_clock \<Rightarrow> (nat \<Rightarrow> node_state \<Rightarrow> node_state) \<Rightarrow> node_id \<Rightarrow> sign_request \<Rightarrow> digest \<Rightarrow> string \<Rightarrow> memo_generation
    \<Rightarrow> node_state \<Rightarrow> node_state \<times> (channel_handled + string option)" where
  "resolve_conflict node kdf_free clock during sender spend tag memoized_carrier g ns =
     (if \<not> kdf_free then (ns, Err (retry_in 1))
      else let (ns1, claimed) = on_store False (\<lambda>st. claim_carrier_derivation st (sr_nonce spend) sender memoized_carrier) (during 3 ns) in
        if \<not> claimed then (ns1, Err (retry_in 1))
        else if arm_carrier_id node (sign_coord_request spend) \<noteq> memoized_carrier then (ns1, Ok None)
        else let (ns2, recorded) = on_store False (\<lambda>st. record_carrier_derivation_result st (sr_nonce spend) sender tag g memoized_carrier) (during 4 ns1) in
          if \<not> recorded then (ns2, Ok None)
          else let ns3 = during 5 ns2 in
            (ns3, relooked (memo_lookup node spend tag sender (ck_relookup clock) (ck_relookup_mono clock) ns3)))"

definition resolve_carrier ::
  "'d node \<Rightarrow> bool \<Rightarrow> channel_clock \<Rightarrow> (nat \<Rightarrow> node_state \<Rightarrow> node_state) \<Rightarrow> node_id \<Rightarrow> sign_request \<Rightarrow> node_state
    \<Rightarrow> node_state \<times> (channel_handled + string option)" where
  "resolve_carrier node kdf_free clock during sender spend ns =
     (if \<not> receipt_eligible node spend ns then (ns, Ok None)
      else case arm_signature_tag node (sr_coord_sig spend) of
             None \<Rightarrow> (ns, Err ChannelPanic)
           | Some tag \<Rightarrow>
               (case memo_lookup node spend tag sender (ck_lookup clock) (ck_lookup_mono clock) ns of
                  Exact carrier \<Rightarrow> (ns, Ok (Some carrier))
                | LookupVacant \<Rightarrow> (ns, Ok None)
                | LookupSkip \<Rightarrow> (ns, Ok None)
                | LookupInFlight \<Rightarrow> (ns, Err (retry_in 1))
                | AwaitingPropagation \<Rightarrow> (ns, Err (retry_in 1))
                | ClockRefused \<Rightarrow> (ns, Err (retry_in CARRIER_CLOCK_RETRY_SECS))
                | DeriveForConfirmation memoized_carrier g \<Rightarrow>
                    resolve_conflict node kdf_free clock during sender spend tag memoized_carrier g ns))"

text \<open>The receipt counts after the local handler ran; \<open>Some\<close> is a reply that ends the call.\<close>

definition count_receipt ::
  "'d node \<Rightarrow> bool \<Rightarrow> channel_clock \<Rightarrow> (nat \<Rightarrow> node_state \<Rightarrow> node_state) \<Rightarrow> node_id \<Rightarrow> sign_request \<Rightarrow> node_state
    \<Rightarrow> node_state \<times> channel_handled option" where
  "count_receipt node kdf_free clock during sender spend ns =
     (case resolve_carrier node kdf_free clock during sender spend ns of
        (ns1, Inl h) \<Rightarrow> (ns1, Some h)
      | (ns1, Inr None) \<Rightarrow> (ns1, None)
      | (ns1, Inr (Some carrier)) \<Rightarrow>
          (case confirm_on_node node (ck_confirm clock) (ck_confirm_mono clock) sender carrier (during 6 ns1) of
             (ns2, None) \<Rightarrow> (ns2, Some ChannelPanic)
           | (ns2, Some confirmation) \<Rightarrow>
               (ns2, if cc_clock_refused confirmation then Some (retry_in CARRIER_CLOCK_RETRY_SECS) else None)))"

subsection \<open>Relayed requests\<close>

fun channel_outcome :: "bad_request + sign_response \<Rightarrow> channel_reply" where
  "channel_outcome (Inr _) = ReplyAccepted"
| "channel_outcome (Inl _) = Rejected MalformedPayload"

definition run_handler ::
  "'d node \<Rightarrow> 'w chain_backend option \<Rightarrow> channel_clock \<Rightarrow> (nat \<Rightarrow> node_state \<Rightarrow> node_state) \<Rightarrow> tagged_request \<Rightarrow> node_state \<Rightarrow> 'w
    \<Rightarrow> (node_state \<times> handled) \<times> 'w" where
  "run_handler node be clock during request ns w =
     (case request of
        TaggedSpend r \<Rightarrow> handle_sign node be (ck_sign clock) (during 0) (during 1) r ns w
      | TaggedRefresh r \<Rightarrow> handle_refresh node be (ck_refresh clock) (during 1) r ns w)"

definition handle_relayed ::
  "'d node \<Rightarrow> 'w chain_backend option \<Rightarrow> bool \<Rightarrow> channel_clock \<Rightarrow> (nat \<Rightarrow> node_state \<Rightarrow> node_state) \<Rightarrow> node_id \<Rightarrow> tagged_request
    \<Rightarrow> node_state \<Rightarrow> 'w \<Rightarrow> (node_state \<times> channel_handled) \<times> 'w" where
  "handle_relayed node be kdf_free clock during sender request ns w =
     (case run_handler node be clock during request ns w of
        ((ns1, HandlerPanic), w1) \<Rightarrow> ((ns1, ChannelPanic), w1)
      | ((ns1, Handled outcome), w1) \<Rightarrow>
          let (ns2, early) = (case request of
                 TaggedSpend spend \<Rightarrow> count_receipt node kdf_free clock during sender spend (during 2 ns1)
               | TaggedRefresh _ \<Rightarrow> (ns1, None))
          in ((ns2, case early of Some h \<Rightarrow> h | None \<Rightarrow> Replied (channel_outcome outcome)), w1))"

subsection \<open>Outer-stale spends\<close>

fun stale_reply :: "outer_stale_carrier \<Rightarrow> channel_handled" where
  "stale_reply (StaleRetry s) = retry_in s"
| "stale_reply StaleTerminal = Replied (Rejected StaleTimestamp)"
| "stale_reply (StaleDerive _ _) = retry_in 1"

definition stale_classify ::
  "'d node \<Rightarrow> channel_clock \<Rightarrow> nat \<Rightarrow> node_id \<Rightarrow> sign_request \<Rightarrow> digest \<Rightarrow> u64 \<Rightarrow> outer_stale_step \<Rightarrow> node_state
    \<Rightarrow> node_state \<times> outer_stale_carrier option" where
  "stale_classify node clock k sender spend tag deadline step =
     on_store (Some StaleTerminal) (\<lambda>st.
       case outer_stale_carrier (nd_sig node) st (sr_nonce spend) tag (unat (sr_expiry spend), deadline) sender
              (ck_stale clock k) (ck_stale_mono clock k) step of
         None \<Rightarrow> (st, None)
       | Some (st', outcome) \<Rightarrow> (st', Some outcome))"

text \<open>\<open>decide\<close> of \<open>handle_outer_stale_spend\<close>, under the sign lock; the last component is the reservation.\<close>

definition stale_decide ::
  "'d node \<Rightarrow> bool \<Rightarrow> channel_clock \<Rightarrow> nat \<Rightarrow> node_id \<Rightarrow> sign_request \<Rightarrow> digest \<Rightarrow> outer_stale_step \<Rightarrow> bool \<Rightarrow> node_state
    \<Rightarrow> node_state \<times> (outer_stale_carrier \<times> bool) option" where
  "stale_decide node kdf_free clock k sender spend tag step claim ns =
     (if ns_sign_poisoned ns then (ns, None)
      else if ns_lockdown ns then (ns, Some (StaleTerminal, False))
      else case outer_stale_carrier_deadline (ss_coord_nonces (ns_sign ns)) (sr_nonce spend) (unat (sr_expiry spend)) of
             None \<Rightarrow> (ns, Some (StaleTerminal, False))
           | Some deadline \<Rightarrow>
               (case stale_classify node clock k sender spend tag deadline step ns of
                  (ns1, None) \<Rightarrow> (ns1, None)
                | (ns1, Some outcome) \<Rightarrow>
                    if \<not> claim \<or> \<not> (case outcome of StaleDerive _ _ \<Rightarrow> True | _ \<Rightarrow> False) \<or> \<not> kdf_free then (ns1, Some (outcome, False))
                    else apsnd (map_option (\<lambda>o'. (o', True))) (stale_classify node clock (k + 1) sender spend tag deadline (Inspect True) ns1)))"

definition finish_stale ::
  "'d node \<Rightarrow> bool \<Rightarrow> channel_clock \<Rightarrow> node_id \<Rightarrow> sign_request \<Rightarrow> digest \<Rightarrow> string \<Rightarrow> memo_generation \<Rightarrow> node_state \<Rightarrow> node_state \<times> channel_handled" where
  "finish_stale node kdf_free clock sender spend tag memoized_carrier g ns =
     (case stale_decide node kdf_free clock 2 sender spend tag
             (Finish memoized_carrier g (arm_carrier_id node (sign_coord_request spend) = memoized_carrier)) False ns of
        (ns1, None) \<Rightarrow> (ns1, ChannelPanic)
      | (ns1, Some (outcome, _)) \<Rightarrow> (ns1, stale_reply outcome))"

definition handle_outer_stale_spend ::
  "'d node \<Rightarrow> bool \<Rightarrow> channel_clock \<Rightarrow> (nat \<Rightarrow> node_state \<Rightarrow> node_state) \<Rightarrow> node_id \<Rightarrow> tagged_request \<Rightarrow> node_state \<Rightarrow> node_state \<times> channel_handled" where
  "handle_outer_stale_spend node kdf_free clock during sender request ns =
     (case request of
        TaggedRefresh _ \<Rightarrow> (ns, stale_reply StaleTerminal)
      | TaggedSpend spend \<Rightarrow>
          if verify_coord_signature node (sign_coord_request spend) (sr_coord_sig spend) \<noteq> Inr () \<or> sr_nonce spend = [] \<or>
             length (sr_nonce spend) > MAX_COORD_NONCE_BYTES \<or> \<not> ensure_request_propagatable node (has_channel ns) request
          then (ns, stale_reply StaleTerminal)
          else (case arm_signature_tag node (sr_coord_sig spend) of
                  None \<Rightarrow> (ns, ChannelPanic)
                | Some tag \<Rightarrow>
                    (case stale_decide node kdf_free clock 0 sender spend tag (Inspect False) True (during 0 ns) of
                       (ns1, None) \<Rightarrow> (ns1, ChannelPanic)
                     | (ns1, Some (StaleDerive memoized_carrier g, True)) \<Rightarrow>
                         finish_stale node kdf_free clock sender spend tag memoized_carrier g (during 1 ns1)
                     | (ns1, Some (outcome, _)) \<Rightarrow> (ns1, stale_reply outcome))))"

subsection \<open>The handler\<close>

definition handle_channel_body ::
  "'d node \<Rightarrow> 'w chain_backend option \<Rightarrow> bool \<Rightarrow> channel_clock \<Rightarrow> (nat \<Rightarrow> node_state \<Rightarrow> node_state) \<Rightarrow> bytes \<Rightarrow> node_state \<Rightarrow> 'w
    \<Rightarrow> (node_state \<times> channel_handled) \<times> 'w" where
  "handle_channel_body node be kdf_free clock during body ns w =
     (case ns_channel ns of
        None \<Rightarrow> ((ns, Replied (Rejected UnknownMsgType)), w)
      | Some ch \<Rightarrow>
          let (ch', ing) = ingest (nd_sig node) (nd_wire node) (nd_env node) ch body (ck_received clock);
              ns1 = ns\<lparr>ns_channel := Some ch'\<rparr>
          in case ing of
               IngReply r \<Rightarrow> ((ns1, Replied r), w)
             | IngStaleSpend sender request \<Rightarrow> (handle_outer_stale_spend node kdf_free clock during sender request ns1, w)
             | IngRequest sender request \<Rightarrow> handle_relayed node be kdf_free clock during sender request ns1 w)"

subsection \<open>The handler is an execution of the channel\<close>

definition harmless_all :: "'d node \<Rightarrow> (nat \<Rightarrow> node_state \<Rightarrow> node_state) \<Rightarrow> bool" where
  "harmless_all node during \<longleftrightarrow> (\<forall>i. harmless node (during i))"

lemma during_runs: "harmless_all node during \<Longrightarrow> node_runs node a b \<Longrightarrow> node_runs node a (during i b)"
  by (simp add: harmless_all_def harmless_after)

lemma runs_on_store:
  assumes "\<And>st. fst (f st) = channel_next (channel_of node) op st"
  shows "node_runs node ns (fst (on_store d f ns))"
proof (cases "ns_channel ns")
  case (Some ch)
  have "node_runs node ns (set_store (fst (f (ch_store ch))) ns)" by (rule node_runs_set_store [OF Some assms])
  with Some show ?thesis by (simp add: on_store_def split_beta)
qed (simp add: on_store_def)

lemma runs_after_on_store:
  assumes "node_runs node a b" "\<And>st. fst (f st) = channel_next (channel_of node) op st"
  shows "node_runs node a (fst (on_store d f b))"
  using node_runs_trans [OF assms(1) runs_on_store] assms(2) .

lemma runs_confirm_on_node: "node_runs node ns (fst (confirm_on_node node now t s k ns))"
  by (auto simp: confirm_on_node_def channel_next_def channel_of_def
      intro!: runs_on_store [where op = "OpConfirm s k (effective_now (ss_coord_nonces (ns_sign ns)) now) t"])

lemma runs_resolve_conflict:
  assumes h: "harmless_all node during"
  shows "node_runs node ns (fst (resolve_conflict node kf clock during s spend tag m g ns))"
proof -
  note d3 = during_runs [OF h node_runs_refl, of ns 3]
  have c: "node_runs node ns (fst (on_store False (\<lambda>st. claim_carrier_derivation st (sr_nonce spend) s m) (during 3 ns)))"
    by (rule runs_after_on_store [OF d3, of _ "OpClaimDerivation (sr_nonce spend) s m"]) (simp add: channel_next_def)
  have r: "node_runs node ns (fst (on_store False (\<lambda>st. record_carrier_derivation_result st (sr_nonce spend) s tag g m) (during 4 x)))"
    if "node_runs node ns x" for x
    by (rule runs_after_on_store [OF during_runs [OF h that], of _ "OpRecordDerivation (sr_nonce spend) s tag g m"]) (simp add: channel_next_def)
  show ?thesis using c r during_runs [OF h] by (simp add: resolve_conflict_def Let_def split_beta)
qed

lemma runs_resolve_carrier:
  assumes "harmless_all node during"
  shows "node_runs node ns (fst (resolve_carrier node kf clock during s spend ns))"
  by (simp add: resolve_carrier_def runs_resolve_conflict [OF assms] split: option.split carrier_memo_lookup.split)

lemma runs_count_receipt:
  assumes h: "harmless_all node during" and r: "node_runs node a ns"
  shows "node_runs node a (fst (count_receipt node kf clock during s spend ns))"
proof -
  obtain ns1 res where rc: "resolve_carrier node kf clock during s spend ns = (ns1, res)" by fastforce
  have r1: "node_runs node a ns1" using node_runs_trans [OF r runs_resolve_carrier [OF h, of ns kf clock s spend]] rc by simp
  have "node_runs node a x" if "confirm_on_node node now t s k (during 6 ns1) = (x, r)" for now t k x r
    using node_runs_trans [OF during_runs [OF h r1] runs_confirm_on_node [of node "during 6 ns1" now t s k]] that by simp
  then show ?thesis
    by (auto simp: count_receipt_def rc r1 split: sum.split option.split prod.split)
qed

lemma runs_handler:
  assumes "harmless_all node during" "run_handler node be clock during request ns w = ((ns', h), w')"
  shows "node_runs node ns ns'"
  using assms by (cases request) (auto simp: run_handler_def harmless_all_def intro: handle_sign_runs handle_refresh_runs)

lemma runs_relayed:
  assumes h: "harmless_all node during" and "handle_relayed node be kf clock during s request ns w = ((ns', out), w')"
  shows "node_runs node ns ns'"
proof -
  obtain ns1 res w1 where rh: "run_handler node be clock during request ns w = ((ns1, res), w1)" by (metis surj_pair)
  note r1 = runs_handler [OF h rh]
  from assms(2) rh r1 runs_count_receipt [OF h during_runs [OF h r1]] show ?thesis
    by (auto simp: handle_relayed_def Let_def split_beta split: handled.split_asm tagged_request.split_asm)
qed

lemma runs_stale_classify: "node_runs node ns (fst (stale_classify node clock k s spend tag d step ns))"
  unfolding stale_classify_def
  by (rule runs_on_store [of _ _ "OpOuterStale (sr_nonce spend) tag (unat (sr_expiry spend), d) s (ck_stale clock k) (ck_stale_mono clock k) step"])
     (simp add: channel_next_def channel_of_def split: option.split prod.split)

lemma runs_stale_decide: "node_runs node ns (fst (stale_decide node kf clock k s spend tag step claim ns))"
proof -
  have c: "node_runs node ns x" if "stale_classify node clock k s spend tag d step ns = (x, r)" for k d step x r
    using runs_stale_classify [of node ns clock k s spend tag d step] that by simp
  show ?thesis
    by (auto simp: stale_decide_def split: option.split prod.split dest!: c intro: node_runs_trans [OF _ runs_stale_classify])
qed

lemma runs_outer_stale:
  assumes h: "harmless_all node during"
  shows "node_runs node ns (fst (handle_outer_stale_spend node kf clock during s request ns))"
proof -
  have sd: "node_runs node ns x" if "stale_decide node kf clock k s spend tag step claim (during i y) = (x, r)" "node_runs node ns y"
    for k spend tag step claim i x y r
    using node_runs_trans [OF during_runs [OF h that(2)] runs_stale_decide [of node "during i y" kf clock k s spend tag step claim]] that by simp
  have fin: "node_runs node ns (fst (finish_stale node kf clock s spend tag m g (during i y)))" if "node_runs node ns y" for spend tag m g y i
    using sd [OF _ that] by (auto simp: finish_stale_def split: prod.split option.split)
  show ?thesis
    using sd [OF _ node_runs_refl]
    by (auto simp: handle_outer_stale_spend_def fin split: tagged_request.split option.split prod.split outer_stale_carrier.split bool.split)
qed

lemma runs_ingest:
  assumes "ns_channel ns = Some ch" "ingest (nd_sig node) (nd_wire node) (nd_env node) ch body now = (ch', out)"
  shows "node_runs node ns (ns\<lparr>ns_channel := Some ch'\<rparr>)"
proof -
  have parsed: "store_runs node st (fst (handle_parsed (nd_sig node) (nd_wire node) (nd_env node) st s p w t))" for st s p w t
    by (auto simp: handle_parsed_def split: option.split intro!: store_runs_op [of _ _ "OpAcceptPartial q t" for q])
       (simp add: channel_next_def channel_of_def)
  have part: "store_runs node st (fst (handle_partial (nd_sig node) (nd_wire node) (nd_env node) st s b w t))" for st s b w t
    using parsed by (simp add: handle_partial_def split: option.split)
  have disp: "store_runs node st (ch_store c')" if "dispatch (nd_sig node) (nd_wire node) (nd_env node) c a t stale = (c', o')" "ch_store c = st" for c a t stale c' o' st
    using part that by (auto simp: dispatch_def Let_def split_beta split: option.split_asm if_split_asm)
  have fr: "ch_store (record_freshness_reject c x y z) = ch_store c" for c x y z by (simp add: record_freshness_reject_def Let_def)
  have "store_runs node (ch_store ch) (ch_store ch')"
    using assms(2) by (auto simp: ingest_def Let_def fr split: sum.split_asm prod.split_asm ingress_guard_result.split_asm if_split_asm elim: disp)
  with assms(1) show ?thesis by (simp add: node_runs_def)
qed

lemma handle_channel_runs:
  assumes "handle_channel_body node be kf clock during body ns w = ((ns', out), w')" and h: "harmless_all node during"
  shows "node_runs node ns ns'"
proof (cases "ns_channel ns")
  case (Some ch)
  obtain ch' ing where ig: "ingest (nd_sig node) (nd_wire node) (nd_env node) ch body (ck_received clock) = (ch', ing)" by fastforce
  note r1 = runs_ingest [OF Some ig]
  have st: "node_runs node ns x" if "handle_outer_stale_spend node kf clock during s q (ns\<lparr>ns_channel := Some ch'\<rparr>) = (x, r)" for s q x r
    using node_runs_trans [OF r1 runs_outer_stale [OF h, of _ kf clock s q]] that by simp
  from assms(1) Some ig r1 st node_runs_trans [OF r1 runs_relayed [OF h]] show ?thesis
    by (cases ing) (auto simp: handle_channel_body_def)
qed (use assms(1) in \<open>auto simp: handle_channel_body_def\<close>)

end
