(* ===== verification/Egress.thy ===== *)
theory Egress
  imports Channel_Handler
begin

text \<open>
  What leaves a node over the channel: the outbound messages of a release and of the outbox
  (\<open>propagate_outbox\<close> and \<open>spawn_fan_out\<close> of \<open>crates/vault-node/src/lib.rs\<close>) and the delivery of one
  message to one peer (\<open>parse_reply\<close>, \<open>retry_loop\<close>, \<open>try_endpoints\<close> and \<open>retry_message_until\<close> of
  \<open>channel.rs\<close>). The network, the clocks, the random source and the sleep act on a world of any type and are
  arguments. The retry loop may run forever when the wall clock never advances, so it is a partial function; it
  is shown to end for every clock that advances with its sleeps.
\<close>

subsection \<open>Messages\<close>

record outbound =
  ob_msg_type :: string
  ob_payload :: bytes
  ob_deadline :: u64

definition release_outbound :: "(partial_payload \<Rightarrow> bytes) \<Rightarrow> release \<Rightarrow> outbound list" where
  "release_outbound to_bytes r =
     map (\<lambda>p. \<lparr>ob_msg_type = MSG_TYPE_PARTIAL, ob_payload = to_bytes p, ob_deadline = rel_deadline r\<rparr>) (rel_payloads r)"

fun request_expiry :: "tagged_request \<Rightarrow> u64" where
  "request_expiry (TaggedSpend r) = unat (sr_expiry r)"
| "request_expiry (TaggedRefresh r) = unat (rr_expiry r)"

text \<open>One task per peer, each with the whole list in order.\<close>

definition spawn_fan_out :: "'d node \<Rightarrow> node_state \<Rightarrow> outbound list \<Rightarrow> (node_id \<times> outbound list) list" where
  "spawn_fan_out node ns msgs = (if has_channel ns then map (\<lambda>peer. (peer, msgs)) (peer_ids (nd_env node)) else [])"

definition propagate_outbox :: "'d node \<Rightarrow> node_state \<Rightarrow> node_state \<times> (node_id \<times> outbound list) list" where
  "propagate_outbox node ns =
     (if \<not> has_channel ns then (ns, [])
      else (ns\<lparr>ns_outbox := []\<rparr>,
            concat (map (\<lambda>r. spawn_fan_out node ns
              [\<lparr>ob_msg_type = MSG_TYPE_REQUEST, ob_payload = request_payload node r, ob_deadline = request_expiry r\<rparr>]) (ns_outbox ns))))"

subsection \<open>Replies\<close>

datatype outbound_reply = ObAccepted | ObRejected string | ObUnknownCandidate | ObRateLimited u64

record tagged_reply =
  tg_status :: string
  tg_reason :: "string option"
  tg_retry_after_secs :: "u64 option"

text \<open>Only the four frozen pairs of HTTP status and tag are replies; the JSON reader is an argument.\<close>

definition parse_reply :: "(bytes \<Rightarrow> tagged_reply option) \<Rightarrow> nat \<Rightarrow> bytes \<Rightarrow> unit + outbound_reply" where
  "parse_reply parse status body =
     (case parse body of
        None \<Rightarrow> Err ()
      | Some t \<Rightarrow>
          if (status, tg_status t) = (200, ''ACCEPTED'') then Ok ObAccepted
          else if (status, tg_status t) = (409, ''UNKNOWN_CANDIDATE'') then Ok ObUnknownCandidate
          else if (status, tg_status t) = (429, ''RATE_LIMITED'') then Ok (ObRateLimited (case tg_retry_after_secs t of None \<Rightarrow> 1 | Some s \<Rightarrow> s))
          else if (status, tg_status t) = (400, ''REJECTED'') then Ok (ObRejected (case tg_reason t of None \<Rightarrow> ''UNKNOWN'' | Some r \<Rightarrow> r))
          else Err ())"

subsection \<open>The retry loop\<close>

definition default_backoff :: "u64 list" where
  "default_backoff = [1, 2, 5, 10, 30]"

datatype retry_outcome = RetryAccepted | RetryRejected string | GaveUp

text \<open>What the loop calls: the wall clock, one attempt, and the sleep.\<close>

record 'w retry_env =
  re_now :: "'w \<Rightarrow> u64 \<times> 'w"
  re_attempt :: "'w \<Rightarrow> (unit + outbound_reply) \<times> 'w"
  re_sleep :: "u64 \<Rightarrow> 'w \<Rightarrow> 'w"

text \<open>The backoff is read at a clamped index; an empty schedule is the panic of the code's indexing.\<close>

definition backoff_wait :: "u64 list \<Rightarrow> nat \<Rightarrow> u64 option" where
  "backoff_wait backoff i = (if backoff = [] then None else Some (backoff ! min i (length backoff - 1)))"

datatype retry_wait = RetryDone retry_outcome | RetryAfter u64 nat | RetryPanics

definition retry_wait_of :: "u64 list \<Rightarrow> nat \<Rightarrow> unit + outbound_reply \<Rightarrow> retry_wait" where
  "retry_wait_of backoff i r =
     (let again = (case backoff_wait backoff i of None \<Rightarrow> RetryPanics | Some s \<Rightarrow> RetryAfter s (sat_add64 i 1)) in
      case r of
        Inl _ \<Rightarrow> again
      | Inr ObAccepted \<Rightarrow> RetryDone RetryAccepted
      | Inr (ObRejected reason) \<Rightarrow> RetryDone (RetryRejected reason)
      | Inr (ObRateLimited s) \<Rightarrow> RetryAfter s i
      | Inr ObUnknownCandidate \<Rightarrow> again)"

text \<open>One round: a result, or the next index. The result \<open>None\<close> is the panic.\<close>

definition retry_round :: "'w retry_env \<Rightarrow> u64 \<Rightarrow> u64 list \<Rightarrow> nat \<Rightarrow> 'w \<Rightarrow> (retry_outcome option + nat) \<times> 'w" where
  "retry_round env expiry backoff i w =
     (let (t, w1) = re_now env w in
      if t > expiry then (Inl (Some GaveUp), w1)
      else let (r, w2) = re_attempt env w1 in
        (case retry_wait_of backoff i r of
           RetryDone outcome \<Rightarrow> (Inl (Some outcome), w2)
         | RetryPanics \<Rightarrow> (Inl None, w2)
         | RetryAfter wait j \<Rightarrow>
             let (after, w3) = re_now env w2 in
             if after > expiry then (Inl (Some GaveUp), w3)
             else (Inr j, re_sleep env (min (max wait 1) (sat_add64 (expiry - after) 1)) w3)))"

partial_function (option) retry_loop :: "'w retry_env \<Rightarrow> u64 \<Rightarrow> u64 list \<Rightarrow> nat \<Rightarrow> 'w \<Rightarrow> (retry_outcome option \<times> 'w) option" where
  "retry_loop env expiry backoff i w =
     (case retry_round env expiry backoff i w of
        (Inl res, w1) \<Rightarrow> Some (res, w1)
      | (Inr j, w1) \<Rightarrow> retry_loop env expiry backoff j w1)"

subsection \<open>One message to one peer\<close>

record 'w transport =
  tp_now :: "'w \<Rightarrow> u64 \<times> 'w"
  tp_random :: "'w \<Rightarrow> bytes option \<times> 'w"
  tp_send :: "string \<Rightarrow> envelope \<Rightarrow> u64 \<Rightarrow> 'w \<Rightarrow> (unit + outbound_reply) \<times> 'w"
  tp_sleep :: "u64 \<Rightarrow> 'w \<Rightarrow> 'w"

record egress_cfg =
  eg_sign :: "digest \<Rightarrow> bytes"
  eg_per_send_deadline_secs :: u64

fun try_endpoints ::
  "'d node \<Rightarrow> egress_cfg \<Rightarrow> 'w transport \<Rightarrow> string \<Rightarrow> node_id \<Rightarrow> bytes \<Rightarrow> string list \<Rightarrow> u64 \<Rightarrow> 'w \<Rightarrow> (unit + outbound_reply) \<times> 'w" where
  "try_endpoints node cfg tp msg_type recipient payload [] deadline w = (Err (), w)"
| "try_endpoints node cfg tp msg_type recipient payload (endp # rest) deadline w =
     (let (now, w1) = tp_now tp w in
      if now > deadline then (Err (), w1)
      else let remaining = sat_add64 (deadline - now) 1;
               (nonce, w2) = tp_random tp w1
        in case nonce of
             None \<Rightarrow> (Err (), w2)
           | Some n \<Rightarrow>
               let ev = build_envelope (nd_sig node) (nd_text node) (nd_wire node) (nd_env node) (eg_sign cfg) n msg_type recipient payload (word_of_nat now)
               in (case tp_send tp endp ev (min (eg_per_send_deadline_secs cfg) remaining) w2 of
                     (Inr reply, w3) \<Rightarrow> (Ok reply, w3)
                   | (Inl _, w3) \<Rightarrow> try_endpoints node cfg tp msg_type recipient payload rest deadline w3))"

definition peer_bases :: "channel_env \<Rightarrow> node_id \<Rightarrow> string list option" where
  "peer_bases env k =
     (if unat k < length (ce_nodes env) \<and> mn_endpoints (ce_nodes env ! unat k) \<noteq> [] then Some (mn_endpoints (ce_nodes env ! unat k)) else None)"

datatype delivery = Delivered | NoEndpoint | PermanentlyRejected string | DeliveryGaveUp | DeliveryPanic

fun delivery_of :: "retry_outcome option \<Rightarrow> delivery" where
  "delivery_of (Some RetryAccepted) = Delivered"
| "delivery_of (Some (RetryRejected reason)) = PermanentlyRejected reason"
| "delivery_of (Some GaveUp) = DeliveryGaveUp"
| "delivery_of None = DeliveryPanic"

definition transport_env ::
  "'d node \<Rightarrow> egress_cfg \<Rightarrow> 'w transport \<Rightarrow> string \<Rightarrow> node_id \<Rightarrow> bytes \<Rightarrow> string list \<Rightarrow> u64 \<Rightarrow> 'w retry_env" where
  "transport_env node cfg tp msg_type recipient payload endpoints deadline =
     \<lparr>re_now = tp_now tp, re_attempt = try_endpoints node cfg tp msg_type recipient payload endpoints deadline, re_sleep = tp_sleep tp\<rparr>"

definition retry_message_until ::
  "'d node \<Rightarrow> egress_cfg \<Rightarrow> 'w transport \<Rightarrow> node_id \<Rightarrow> outbound \<Rightarrow> 'w \<Rightarrow> (delivery \<times> 'w) option" where
  "retry_message_until node cfg tp recipient msg w =
     (case peer_bases (nd_env node) recipient of
        None \<Rightarrow> Some (NoEndpoint, w)
      | Some endpoints \<Rightarrow>
          map_option (apfst delivery_of)
            (retry_loop (transport_env node cfg tp (ob_msg_type msg) recipient (ob_payload msg) endpoints (ob_deadline msg))
               (ob_deadline msg) default_backoff 0 w))"

text \<open>The task of one peer: every message in order, whatever became of the one before.\<close>

fun deliver_all :: "'d node \<Rightarrow> egress_cfg \<Rightarrow> 'w transport \<Rightarrow> node_id \<Rightarrow> outbound list \<Rightarrow> 'w \<Rightarrow> (delivery list \<times> 'w) option" where
  "deliver_all node cfg tp peer [] w = Some ([], w)"
| "deliver_all node cfg tp peer (m # ms) w =
     Option.bind (retry_message_until node cfg tp peer m w) (\<lambda>(d, w1).
       map_option (apfst (Cons d)) (deliver_all node cfg tp peer ms w1))"

subsection \<open>Delivery ends\<close>

text \<open>The documented behaviour of the clock, the random source, the sleep and the HTTP client: the wall clock does not run
  backwards and advances by at least the time slept, and a send is one entry in the log of sends.\<close>

definition honest_transport :: "'w transport \<Rightarrow> ('w \<Rightarrow> u64) \<Rightarrow> ('w \<Rightarrow> (string \<times> envelope) list) \<Rightarrow> bool" where
  "honest_transport tp time sends \<longleftrightarrow>
     (\<forall>w. fst (tp_now tp w) = time (snd (tp_now tp w)) \<and> time w \<le> time (snd (tp_now tp w)) \<and> sends (snd (tp_now tp w)) = sends w) \<and>
     (\<forall>w. time w \<le> time (snd (tp_random tp w)) \<and> sends (snd (tp_random tp w)) = sends w) \<and>
     (\<forall>b ev d w. time w \<le> time (snd (tp_send tp b ev d w)) \<and> sends (snd (tp_send tp b ev d w)) = sends w @ [(b, ev)]) \<and>
     (\<forall>d w. time w + d \<le> time (tp_sleep tp d w) \<and> sends (tp_sleep tp d w) = sends w)"

definition allowed_send :: "'d node \<Rightarrow> string \<Rightarrow> node_id \<Rightarrow> bytes \<Rightarrow> string list \<Rightarrow> u64 \<Rightarrow> string \<times> envelope \<Rightarrow> bool" where
  "allowed_send node msg_type recipient payload endpoints deadline x \<longleftrightarrow>
     fst x \<in> set endpoints \<and> unat (ev_timestamp (snd x)) \<le> deadline \<and> ev_recipient_node_id (snd x) = recipient \<and>
     ev_sender_node_id (snd x) = ce_node_id (nd_env node) \<and> ev_msg_type (snd x) = msg_type \<and> ev_payload_b64 (snd x) = wa_b64_encode (nd_wire node) payload"

text \<open>What a call adds to the log of sends: at most \<open>n\<close> allowed ones.\<close>

definition sends_only ::
  "('w \<Rightarrow> u64) \<Rightarrow> ('w \<Rightarrow> (string \<times> envelope) list) \<Rightarrow> (string \<times> envelope \<Rightarrow> bool) \<Rightarrow> nat \<Rightarrow> 'w \<Rightarrow> 'w \<Rightarrow> bool" where
  "sends_only time sends ok n w w' \<longleftrightarrow>
     time w \<le> time w' \<and> (\<exists>xs. sends w' = sends w @ xs \<and> length xs \<le> n \<and> (\<forall>x \<in> set xs. ok x))"

lemma sends_only_trans: "sends_only time sends ok m a b \<Longrightarrow> sends_only time sends ok n b c \<Longrightarrow> sends_only time sends ok (m + n) a c"
  by (auto simp: sends_only_def)

lemma sends_only_mono: "sends_only time sends ok m a b \<Longrightarrow> m \<le> n \<Longrightarrow> sends_only time sends ok n a b"
  by (auto simp: sends_only_def)

lemma sends_only_quiet: "time a \<le> time b \<Longrightarrow> sends b = sends a \<Longrightarrow> sends_only time sends ok n a b"
  by (simp add: sends_only_def)

lemma honest_transportD:
  assumes "honest_transport tp time sends"
  shows "tp_now tp w = (t, w') \<Longrightarrow> t = time w' \<and> sends_only time sends ok 0 w w'"
    "tp_random tp w = (r, w') \<Longrightarrow> sends_only time sends ok 0 w w'"
    "tp_send tp b ev d w = (r', w') \<Longrightarrow> ok (b, ev) \<Longrightarrow> sends_only time sends ok 1 w w'"
    "sends_only time sends ok 0 w (tp_sleep tp d w)" "time w + d \<le> time (tp_sleep tp d w)"
proof -
  have now: "fst (tp_now tp w) = time (snd (tp_now tp w))" "time w \<le> time (snd (tp_now tp w))" "sends (snd (tp_now tp w)) = sends w"
    and rnd: "time w \<le> time (snd (tp_random tp w))" "sends (snd (tp_random tp w)) = sends w"
    and snd: "time w \<le> time (snd (tp_send tp b ev d w))" "sends (snd (tp_send tp b ev d w)) = sends w @ [(b, ev)]"
    and slp: "time w + d \<le> time (tp_sleep tp d w)" "sends (tp_sleep tp d w) = sends w"
    using assms by (auto simp: honest_transport_def)
  show "t = time w' \<and> sends_only time sends ok 0 w w'" if "tp_now tp w = (t, w')"
    using now that by (simp add: sends_only_quiet)
  show "sends_only time sends ok 0 w w'" if "tp_random tp w = (r, w')"
    using rnd that by (simp add: sends_only_quiet)
  show "sends_only time sends ok 1 w w'" if "tp_send tp b ev d w = (r', w')" "ok (b, ev)"
    using snd that by (simp add: sends_only_def)
  show "sends_only time sends ok 0 w (tp_sleep tp d w)" "time w + d \<le> time (tp_sleep tp d w)"
    using slp by (simp_all add: sends_only_quiet)
qed

lemma try_endpoints_sends:
  assumes h: "honest_transport tp time sends"
    and "try_endpoints node cfg tp mt k payload eps deadline w = (r, w')" "set eps \<subseteq> set all" "deadline < 2 ^ 64"
  shows "sends_only time sends (allowed_send node mt k payload all deadline) (length eps) w w'"
  using assms(2,3)
proof (induction eps arbitrary: w)
  case Nil
  then show ?case by (auto intro: sends_only_quiet)
next
  case (Cons e eps)
  let ?ok = "allowed_send node mt k payload all deadline"
  obtain t w1 where n: "tp_now tp w = (t, w1)" by fastforce
  note n1 = honest_transportD(1) [OF h n, of ?ok]
  show ?case
  proof (cases "t > deadline")
    case True
    with Cons.prems(1) n n1 show ?thesis by (auto intro: sends_only_mono)
  next
    case False
    obtain c w2 where c: "tp_random tp w1 = (c, w2)" by fastforce
    have m2: "sends_only time sends ?ok 0 w w2"
      using sends_only_trans [OF conjunct2 [OF n1] honest_transportD(2) [OF h c]] by simp
    show ?thesis
    proof (cases c)
      case None
      with Cons.prems(1) n c False m2 show ?thesis by (auto intro: sends_only_mono)
    next
      case (Some nonce)
      let ?ev = "build_envelope (nd_sig node) (nd_text node) (nd_wire node) (nd_env node) (eg_sign cfg) nonce mt k payload (word_of_nat t)"
      obtain res w3 where sd: "tp_send tp e ?ev (min (eg_per_send_deadline_secs cfg) (sat_add64 (deadline - t) 1)) w2 = (res, w3)" by fastforce
      have "unat (word_of_nat t :: 64 word) = t" using False assms(4) by (simp add: unat_of_nat)
      then have ok: "?ok (e, ?ev)" using False Cons.prems(2) by (simp add: allowed_send_def build_envelope_def Let_def)
      have m3: "sends_only time sends ?ok 1 w w3" using sends_only_trans [OF m2 honest_transportD(3) [OF h sd, of ?ok, OF ok]] by simp
      show ?thesis
      proof (cases res)
        case (Inl x)
        with Cons.prems(1) n c Some sd False have "try_endpoints node cfg tp mt k payload eps deadline w3 = (r, w')" by simp
        from sends_only_trans [OF m3 Cons.IH [OF this]] Cons.prems(2) show ?thesis by simp
      next
        case (Inr x)
        with Cons.prems(1) n c Some sd False m3 show ?thesis by (auto intro: sends_only_mono)
      qed
    qed
  qed
qed

text \<open>A round of the loop: it never panics on a schedule, ends past the deadline, and otherwise sleeps for a second.\<close>

lemma retry_round_progress:
  assumes h: "honest_transport tp time sends" and bk: "backoff \<noteq> []"
    and rd: "retry_round \<lparr>re_now = tp_now tp, re_attempt = attempt, re_sleep = tp_sleep tp\<rparr> expiry backoff i w = (res, w')"
    and at: "\<And>w. sends_only time sends ok n w (snd (attempt w))"
  shows "sends_only time sends ok (if expiry < time w then 0 else n) w w' \<and> res \<noteq> Inl None \<and> (res = Inl (Some GaveUp) \<longrightarrow> expiry < time w') \<and>
    (\<forall>j. res = Inr j \<longrightarrow> time w < time w' \<and> time w \<le> expiry)"
proof -
  let ?env = "\<lparr>re_now = tp_now tp, re_attempt = attempt, re_sleep = tp_sleep tp\<rparr>"
  obtain t w1 where n1: "tp_now tp w = (t, w1)" by fastforce
  have m1: "t = time w1" "sends_only time sends ok 0 w w1" using honest_transportD(1) [OF h n1] by auto
  show ?thesis
  proof (cases "t > expiry")
    case True
    with rd n1 m1 show ?thesis by (auto simp: retry_round_def intro: sends_only_mono)
  next
    case False
    have tw: "time w \<le> time w1" "\<not> expiry < time w" using m1 False by (auto simp: sends_only_def)
    obtain r w2 where a: "attempt w1 = (r, w2)" by fastforce
    have m2: "sends_only time sends ok n w w2" using sends_only_trans [OF m1(2) at [of w1]] a by simp
    obtain t3 w3 where n3: "tp_now tp w2 = (t3, w3)" by fastforce
    have m3: "t3 = time w3" "sends_only time sends ok n w w3"
      using honest_transportD(1) [OF h n3] sends_only_trans [OF m2, of 0 w3] by auto
    define d where "d x = min (max x 1) (sat_add64 (expiry - t3) 1)" for x
    have d1: "1 \<le> d x" for x by (simp add: d_def sat_add64_def u64_max_def)
    have m4: "sends_only time sends ok n w (tp_sleep tp (d x) w3)" "time w3 < time (tp_sleep tp (d x) w3)" for x
      using sends_only_trans [OF m3(2) honest_transportD(4) [OF h]] honest_transportD(5) [OF h, of w3 "d x"] d1 [of x] by auto
    have bw: "\<exists>s. backoff_wait backoff i = Some s" using bk by (simp add: backoff_wait_def)
    have tw3: "time w \<le> time w3" using m3 by (simp add: sends_only_def)
    note slept = m4(1) [unfolded d_def m3(1) One_nat_def] le_less_trans [OF tw3 m4(2), unfolded d_def m3(1) One_nat_def]
    from rd show ?thesis
      using n1 a n3 False m2 m3 slept bw tw
      by (auto simp: retry_round_def retry_wait_of_def Let_def split: sum.split_asm outbound_reply.split_asm if_split_asm)
  qed
qed

lemma retry_loop_ends:
  assumes h: "honest_transport tp time sends" and bk: "backoff \<noteq> []"
    and at: "\<And>w. sends_only time sends ok n w (snd (attempt w))"
  shows "\<exists>out w'. retry_loop \<lparr>re_now = tp_now tp, re_attempt = attempt, re_sleep = tp_sleep tp\<rparr> expiry backoff i w = Some (Some out, w') \<and>
    sends_only time sends ok (n * (expiry + 1 - time w)) w w' \<and> (out = GaveUp \<longrightarrow> expiry < time w')"
proof (induction "expiry + 1 - time w" arbitrary: i w rule: less_induct)
  case less
  let ?env = "\<lparr>re_now = tp_now tp, re_attempt = attempt, re_sleep = tp_sleep tp\<rparr>"
  obtain res w1 where rd: "retry_round ?env expiry backoff i w = (res, w1)" by fastforce
  note p = retry_round_progress [OF h bk rd at]
  show ?case
  proof (cases res)
    case (Inl r)
    with p obtain out where r: "res = Inl (Some out)" by (cases r) auto
    have "sends_only time sends ok (n * (expiry + 1 - time w)) w w1"
      by (rule sends_only_mono [OF conjunct1 [OF p]]) auto
    with p r rd show ?thesis by (subst retry_loop.simps) simp
  next
    case (Inr j)
    with p have t: "time w < time w1" "time w \<le> expiry" "sends_only time sends ok n w w1" by auto
    then have "expiry + 1 - time w1 < expiry + 1 - time w" by simp
    from less [OF this, of j] obtain out w' where l: "retry_loop ?env expiry backoff j w1 = Some (Some out, w')"
      "sends_only time sends ok (n * (expiry + 1 - time w1)) w1 w'" "out = GaveUp \<longrightarrow> expiry < time w'" by blast
    have "n + n * (expiry + 1 - time w1) \<le> n * (expiry + 1 - time w)"
    proof -
      have "1 + (expiry + 1 - time w1) \<le> expiry + 1 - time w" using t(1,2) by simp
      then have "n * (1 + (expiry + 1 - time w1)) \<le> n * (expiry + 1 - time w)" by (rule mult_le_mono2)
      then show ?thesis by (simp add: algebra_simps)
    qed
    from sends_only_mono [OF sends_only_trans [OF t(3) l(2)] this] l rd Inr show ?thesis by (subst retry_loop.simps) auto
  qed
qed

text \<open>C25: delivery ends. On a clock that does not run backwards and advances with the sleeps, sending a message to a
  peer ends (the loop returns, without a panic); it gives up only past the deadline, makes at most one
  pass over the endorsed endpoints per remaining second, and every envelope it sends goes to an endorsed endpoint of that
  peer, carries the message unchanged, and is stamped no later than the deadline.\<close>

theorem delivery_terminates:
  assumes "honest_transport tp time sends" "ob_deadline msg < 2 ^ 64" "peer_bases (nd_env node) peer = Some endpoints"
  shows "\<exists>d w' xs. retry_message_until node cfg tp peer msg w = Some (d, w') \<and> d \<notin> {NoEndpoint, DeliveryPanic} \<and>
    (d = DeliveryGaveUp \<longrightarrow> ob_deadline msg < time w') \<and>
    sends w' = sends w @ xs \<and> length xs \<le> length endpoints * (ob_deadline msg + 1 - time w) \<and>
    (\<forall>x \<in> set xs. allowed_send node (ob_msg_type msg) peer (ob_payload msg) endpoints (ob_deadline msg) x)"
proof -
  let ?ok = "allowed_send node (ob_msg_type msg) peer (ob_payload msg) endpoints (ob_deadline msg)"
  let ?att = "try_endpoints node cfg tp (ob_msg_type msg) peer (ob_payload msg) endpoints (ob_deadline msg)"
  have "sends_only time sends ?ok (length endpoints) w1 (snd (?att w1))" for w1
    by (rule try_endpoints_sends [OF assms(1) prod.collapse [symmetric] _ assms(2)]) simp
  from retry_loop_ends [OF assms(1) _ this, where backoff = default_backoff and expiry = "ob_deadline msg" and i = 0 and w = w] obtain out w' where
    l: "retry_loop \<lparr>re_now = tp_now tp, re_attempt = ?att, re_sleep = tp_sleep tp\<rparr> (ob_deadline msg) default_backoff 0 w = Some (Some out, w')"
    "sends_only time sends ?ok (length endpoints * (ob_deadline msg + 1 - time w)) w w'" "out = GaveUp \<longrightarrow> ob_deadline msg < time w'"
    by (auto simp: default_backoff_def)
  have d: "delivery_of (Some out) \<notin> {NoEndpoint, DeliveryPanic}" "delivery_of (Some out) = DeliveryGaveUp \<longrightarrow> out = GaveUp" by (cases out; simp)+
  from l(1) have "retry_message_until node cfg tp peer msg w = Some (delivery_of (Some out), w')"
    by (simp add: retry_message_until_def assms(3) transport_env_def)
  with l(2,3) d show ?thesis unfolding sends_only_def by blast
qed

text \<open>A peer that never answers: the world is the time and the log of sends.\<close>

definition silent_peer :: "(nat \<times> (string \<times> envelope) list) transport" where
  "silent_peer = \<lparr>tp_now = (\<lambda>w. (fst w, w)), tp_random = (\<lambda>w. (Some [], w)), tp_send = (\<lambda>b ev d w. (Err (), (fst w, snd w @ [(b, ev)]))),
     tp_sleep = (\<lambda>d w. (fst w + d, snd w))\<rparr>"

definition egress_demo_node :: "nat node" where
  "egress_demo_node = demo_node\<lparr>nd_env := (demo_env 0)\<lparr>ce_nodes := [\<lparr>mn_node_id = 0, mn_signing_pubkey = [], mn_channel_pubkey = [], mn_endpoints = [''z'']\<rparr>,
     \<lparr>mn_node_id = 1, mn_signing_pubkey = [], mn_channel_pubkey = [],
     mn_endpoints = [''a'', ''b'']\<rparr>]\<rparr>\<rparr>"

definition egress_demo_msg :: outbound where
  "egress_demo_msg = \<lparr>ob_msg_type = MSG_TYPE_REQUEST, ob_payload = [], ob_deadline = 12\<rparr>"

theorem delivery_terminates_witness:
  "\<exists>d w' xs. retry_message_until egress_demo_node \<lparr>eg_sign = (\<lambda>d. []), eg_per_send_deadline_secs = 5\<rparr> silent_peer 1 egress_demo_msg (10, []) = Some (d, w') \<and>
    d \<notin> {NoEndpoint, DeliveryPanic} \<and> (d = DeliveryGaveUp \<longrightarrow> 12 < fst w') \<and> snd w' = [] @ xs \<and> length xs \<le> 2 * 3 \<and>
    (\<forall>x \<in> set xs. allowed_send egress_demo_node MSG_TYPE_REQUEST 1 [] [''a'', ''b''] 12 x)"
proof -
  have h: "honest_transport silent_peer fst snd" by (simp add: honest_transport_def silent_peer_def)
  have p: "peer_bases (nd_env egress_demo_node) 1 = Some [''a'', ''b'']" by (simp add: peer_bases_def egress_demo_node_def)
  have m: "ob_deadline egress_demo_msg < 2 ^ 64" "ob_deadline egress_demo_msg = 12" "ob_msg_type egress_demo_msg = MSG_TYPE_REQUEST"
    "ob_payload egress_demo_msg = []" by (simp_all add: egress_demo_msg_def)
  from delivery_terminates [OF h m(1) p, of "\<lparr>eg_sign = (\<lambda>d. []), eg_per_send_deadline_secs = 5\<rparr>" "(10, [])"] show ?thesis
    by (simp add: m)
qed

subsection \<open>What propagates\<close>

lemma propagate_outbox_drains:
  assumes "has_channel ns"
  shows "ns_outbox (fst (propagate_outbox node ns)) = []" "ns_channel (fst (propagate_outbox node ns)) = ns_channel ns"
    "set (snd (propagate_outbox node ns)) = {(peer, [\<lparr>ob_msg_type = MSG_TYPE_REQUEST, ob_payload = request_payload node r, ob_deadline = request_expiry r\<rparr>])
       | peer r. peer \<in> set (peer_ids (nd_env node)) \<and> r \<in> set (ns_outbox ns)}"
  using assms by (auto simp: propagate_outbox_def spawn_fan_out_def)

end
