(* ===== verification/Node_Frame.thy ===== *)
theory Node_Frame
  imports Egress
begin

text \<open>
  What the steps of the handlers leave alone: the lockdown flag and the count of spends in flight
  (\<open>frame\<close>). Only the guards of the spend handler count, and only the deadline poll locks.
\<close>

definition frame :: "node_state \<Rightarrow> bool \<times> nat" where
  "frame ns = (ns_lockdown ns, ns_spend_preflight ns)"

lemma frame_simps [simp]:
  "frame (ns\<lparr>ns_sign := a\<rparr>) = frame ns" "frame (ns\<lparr>ns_sign_poisoned := b\<rparr>) = frame ns" "frame (ns\<lparr>ns_outbox := c\<rparr>) = frame ns"
  "frame (ns\<lparr>ns_authorized := d\<rparr>) = frame ns" "frame (ns\<lparr>ns_channel := e\<rparr>) = frame ns" "frame (ns\<lparr>ns_duress_arm := f\<rparr>) = frame ns"
  "frame (set_sign g ns) = frame ns" "frame (push_outbox r ns) = frame ns" "frame (with_store h ns) = frame ns" "frame (set_store st ns) = frame ns"
  by (simp_all add: frame_def set_sign_def push_outbox_def with_store_def set_store_def)

lemma frame_stage [simp]: "frame (stage_spend_carrier node r k ns) = frame ns"
  by (simp add: stage_spend_carrier_def)

lemma frame_staged [simp]: "frame (staged node c ns) = frame ns"
  by (simp add: staged_def)

lemma frame_on_store [simp]: "frame (fst (on_store d f ns)) = frame ns"
  by (simp add: on_store_def split_beta split: option.split)

subsection \<open>The spend handler\<close>

lemma frame_hook [simp]: "frame (fst (fire_arm_hook node v k n g first now ns)) = frame ns"
  by (cases "ns_channel ns"; cases g) (simp_all add: fire_arm_hook_def Let_def split_beta)

lemma frame_rule: "frame (fst (sign_rule node clock r adm v k ns)) = frame ns"
  by (simp add: sign_rule_def Let_def split_beta split: option.split)

lemma frame_register [simp]: "frame (fst (register_pair node t p ns)) = frame ns"
  by (simp add: register_pair_def Let_def split_beta split: option.split sum.split)

lemma frame_record_acceptance [simp]: "frame (fst (record_acceptance node c cls t ns)) = frame ns"
  by (simp add: record_acceptance_def Let_def)

definition framed :: "(node_state \<Rightarrow> node_state) \<Rightarrow> bool" where
  "framed f \<longleftrightarrow> (\<forall>ns. frame (f ns) = frame ns)"

lemma framedD [simp]: "framed f \<Longrightarrow> frame (f ns) = frame ns"
  by (simp add: framed_def)

lemma frame_hold: "framed unwind \<Longrightarrow> frame (fst (hold_and_sign node t c cls unwind ns)) = frame ns"
proof -
  assume u: "framed unwind"
  have "frame (fst (sign_and_register node t c cls f unwind ns)) = frame ns" for f
  proof (cases "sign_all node (sc_spend c # sc_escape c # sc_bumps c)")
    case (Some ps)
    have "frame (fst (register_pair node t p (staged node c ns))) = frame ns" for p by simp
    then show ?thesis using u Some
      by (auto simp: sign_and_register_def Let_def split_beta simp del: frame_register split: list.split sum.split)
  qed (use u in \<open>simp add: sign_and_register_def\<close>)
  then show ?thesis using u by (simp add: hold_and_sign_def Let_def split: tx_class.split)
qed

lemma frame_after_reserve: "framed unwind \<Longrightarrow> frame (fst (after_reserve node hb t c pre cls unwind ns)) = frame ns"
  by (simp add: after_reserve_def frame_hold split: sum.split check_failure.split)

lemma frame_after_verify: "frame (fst (after_verify node hb clock c pre ns)) = frame ns"
proof -
  have u: "framed (if new then with_store f else (\<lambda>x. x))" "framed (\<lambda>x. x)" for new f by (simp_all add: framed_def)
  have r: "frame x = frame ns" if "reserve_hot t c cls ns = (x, res)" for t cls x res
    using that by (auto simp: reserve_hot_def Let_def split_beta split: option.split_asm)
  show ?thesis
    by (auto simp: after_verify_def Let_def record_refusal_def frame_after_reserve [OF u(1)] frame_after_reserve [OF u(2)]
        dest!: r split: sum.split check_failure.split tx_class.split prod.split)
qed

lemma frame_decide: "frame (fst (sign_decide node hb clock r v k pre ns)) = frame ns"
proof -
  have p: "frame (prune_logs node now t ns) = frame ns" for now t ns by (simp add: prune_logs_def)
  have vf: "frame (fst (verify_fresh node hb clock c pre ns)) = frame ns" for c ns
    by (simp add: verify_fresh_def Let_def p record_refusal_def frame_after_verify
        split: option.split sum.split check_failure.split sign_response.split)
  have "frame (fst (replay_or_verify node hb clock c pre ns)) = frame ns" for c
    by (simp add: replay_or_verify_def Let_def vf split: option.split)
  then show ?thesis by (simp add: sign_decide_def decode_and_decide_def Let_def split: option.split)
qed

lemma frame_finish: "frame (finish_sign t claim ns) = (ns_lockdown ns, ns_spend_preflight ns - 1)"
proof -
  have "frame (drop_claim t claim ns) = frame ns" by (simp add: drop_claim_def Let_def split: option.split)
  then show ?thesis by (simp add: finish_sign_def frame_def)
qed

lemma frame_admit:
  assumes "sign_admit node clock r ns = (ns', res)"
  shows "frame ns' = (ns_lockdown ns, ns_spend_preflight ns + (case res of Inl _ \<Rightarrow> 0 | Inr _ \<Rightarrow> 1))"
proof -
  have f: "frame x = (ns_lockdown x, ns_spend_preflight x)" for x by (simp add: frame_def)
  have s: "ns_lockdown (set_sign g x) = ns_lockdown x" "ns_spend_preflight (set_sign g x) = ns_spend_preflight x" for g x
    by (simp_all add: set_sign_def)
  have c: "frame y = (ns_lockdown x, ns_spend_preflight x + (case q of Inl _ \<Rightarrow> 0 | Inr _ \<Rightarrow> 1))"
    if "admit_claim node t r eff cd x = (y, q)" for t eff cd x y q
    using that by (auto simp: admit_claim_def split: if_split_asm option.split_asm) (simp_all add: f)
  from assms show ?thesis
    by (auto simp: sign_admit_def Let_def split: if_split_asm prod.split_asm sum.split_asm option.split_asm dest!: c simp: s)
       (simp_all add: f)
qed

subsection \<open>The other handlers\<close>

lemma frame_refresh_admit: "frame (fst (refresh_admit node clock r ns)) = frame ns"
  by (simp add: refresh_admit_def Let_def split_beta split: sum.split)

lemma frame_refresh_decide: "frame (fst (refresh_decide node hb clock r pre ns)) = frame ns"
proof -
  have s: "frame (fst (sign_refresh node t c ns)) = frame ns" for t c ns
  proof (cases "add_node_signatures node (fc_psbt c)")
    case (Some sgd)
    obtain x res where reg: "register_pair node t (refresh_pair node c sgd) ns = (x, res)" by fastforce
    have "frame x = frame ns" using frame_register [of node t "refresh_pair node c sgd" ns] reg by simp
    with Some reg show ?thesis by (cases res) (simp_all add: sign_refresh_def record_refresh_def Let_def)
  qed (simp add: sign_refresh_def)
  have f: "frame (fst (refresh_failure c x ns)) = frame ns" for c x ns
    by (cases x) (simp_all add: refresh_failure_def record_refresh_refusal_def)
  have v: "frame (fst (verify_refresh node hb clock c pre ns)) = frame ns" for c ns
    by (simp add: verify_refresh_def Let_def prune_logs_def f s record_refresh_refusal_def split: sum.split option.split)
  have "frame (fst (replay_or_refresh node hb clock c pre ns)) = frame ns" for c
    by (simp add: replay_or_refresh_def Let_def v split: option.split)
  then show ?thesis by (simp add: refresh_decide_def Let_def split: option.split)
qed

lemma frame_confirm: "frame (fst (confirm_on_node node now t s k ns)) = frame ns"
  by (simp add: confirm_on_node_def)

lemma frame_stale_decide: "frame (fst (stale_decide node kf clock k s spend tag step claim ns)) = frame ns"
proof -
  have c': "frame (fst (stale_classify node clock k s spend tag d step x)) = frame x" for k d step x by (simp add: stale_classify_def)
  have c: "frame x = frame y" if "stale_classify node clock k s spend tag d step y = (x, r)" for k d step x r y
    using c' [of k d step y] that by simp
  show ?thesis by (auto simp: stale_decide_def c' dest!: c split: option.split prod.split)
qed

lemma frame_propagate: "frame (fst (propagate_outbox node ns)) = frame ns"
  by (simp add: propagate_outbox_def)

subsection \<open>The poll and the fire loop\<close>

lemma lockdown_latch: "ns_lockdown (latch_lockdown persisted ns)" "ns_spend_preflight (latch_lockdown persisted ns) = ns_spend_preflight ns"
  "ns_channel (latch_lockdown persisted ns) = ns_channel ns"
  by (simp_all add: latch_lockdown_def split: option.split)

lemma lockdown_tick_frame:
  "lockdown_tick persisted now ns = Some (ns', d) \<Longrightarrow>
     (ns_lockdown ns \<longrightarrow> ns_lockdown ns') \<and> ns_spend_preflight ns' = ns_spend_preflight ns \<and> ns_channel ns' = ns_channel ns"
  by (auto simp: lockdown_tick_def enter_lockdown_def record_deadline_tick_def lockdown_latch split: option.split_asm if_split_asm)

end
