(* ===== verification/Node_Machine.thy ===== *)
theory Node_Machine
  imports Node_Frame "HOL-Library.Multiset"
begin

text \<open>
  The node as one concurrent machine. A configuration is the state behind the locks and the multiset of handlers that
  are between two critical sections; \<open>node_step\<close> has one rule per critical section of \<open>crates/vault-node/src/lib.rs\<close>
  (admission, ruling, decision and the guards' drop of a spend; admission and decision of a refresh; the steps of the
  \<open>/channel\<close> handler; a fire pass; the deadline poll; the drain of the outbox), so every interleaving of the threads is
  a path. Shown for every reachable configuration: the candidate store is an execution of the channel machine; the
  preflight counter is the number of spends in flight, so no refresh overtakes a spend; Lockdown is final.
\<close>

datatype thread =
    SpendAdmitted sign_request admitted
  | SpendRuled sign_request pin_verdict string "nonce_claim option"
  | SpendDone "nonce_claim option"
  | RefreshAdmitted refresh_request

fun is_spend :: "thread \<Rightarrow> bool" where
  "is_spend (RefreshAdmitted _) = False"
| "is_spend _ = True"

type_synonym config = "node_state \<times> thread multiset"

definition carrier_for :: "'d node \<Rightarrow> sign_request \<Rightarrow> node_state \<Rightarrow> string" where
  "carrier_for node r ns = (if has_channel ns then arm_carrier_id node (sign_coord_request r) else [])"

inductive node_step :: "'d node \<Rightarrow> config \<Rightarrow> config \<Rightarrow> bool" for node :: "'d node" where
  admit: "sign_admit node clock r ns = (ns', Inr adm) \<Longrightarrow> node_step node (ns, T) (ns', add_mset (SpendAdmitted r adm) T)"
| admit_refused: "sign_admit node clock r ns = (ns', Inl h) \<Longrightarrow> node_step node (ns, T) (ns', T)"
| pin_panic: "pin_ruling node (sr_pin r) = None \<Longrightarrow>
    node_step node (ns, add_mset (SpendAdmitted r adm) T) (ns, add_mset (SpendDone (am_claim adm)) T)"
| rule_go: "pin_ruling node (sr_pin r) = Some v \<Longrightarrow> sign_rule node clock r adm v (carrier_for node r ns) ns = (ns', claim, None) \<Longrightarrow>
    node_step node (ns, add_mset (SpendAdmitted r adm) T) (ns', add_mset (SpendRuled r v (carrier_for node r ns) claim) T)"
| rule_stop: "pin_ruling node (sr_pin r) = Some v \<Longrightarrow> sign_rule node clock r adm v (carrier_for node r ns) ns = (ns', claim, Some h) \<Longrightarrow>
    node_step node (ns, add_mset (SpendAdmitted r adm) T) (ns', add_mset (SpendDone claim) T)"
| decide: "sign_decide node hb clock r v k pre ns = (ns', h) \<Longrightarrow>
    node_step node (ns, add_mset (SpendRuled r v k claim) T) (ns', add_mset (SpendDone claim) T)"
| finish: "node_step node (ns, add_mset (SpendDone claim) T) (finish_sign t claim ns, T)"
| refresh_go: "refresh_admit node rclock rr ns = (ns', None) \<Longrightarrow> node_step node (ns, T) (ns', add_mset (RefreshAdmitted rr) T)"
| refresh_refused: "refresh_admit node rclock rr ns = (ns', Some h) \<Longrightarrow> node_step node (ns, T) (ns', T)"
| refresh_end: "refresh_decide node hb rclock rr pre1 ns = (ns', h) \<Longrightarrow> node_step node (ns, add_mset (RefreshAdmitted rr) T) (ns', T)"
| receive: "ns_channel ns = Some ch \<Longrightarrow> ingest (nd_sig node) (nd_wire node) (nd_env node) ch body now = (ch', out) \<Longrightarrow>
    node_step node (ns, T) (ns\<lparr>ns_channel := Some ch'\<rparr>, T)"
| claim_derivation: "node_step node (ns, T) (fst (on_store False (\<lambda>st. claim_carrier_derivation st nonce sender k) ns), T)"
| record_derivation: "node_step node (ns, T) (fst (on_store False (\<lambda>st. record_carrier_derivation_result st nonce sender tag g k) ns), T)"
| outer_stale: "node_step node (ns, T) (fst (stale_decide node kf cclock i sender spend tag step claiming ns), T)"
| confirm: "node_step node (ns, T) (fst (confirm_on_node node now mono_now sender k ns), T)"
| fire_pass: "fst (fst (fire_tick_with_lockdown_net node be persisted fclock ns (w :: nat))) = ns' \<Longrightarrow> node_step node (ns, T) (ns', T)"
| poll: "node_step node (ns, T) (lockdown_tick_with_lockdown_net persisted now ns, T)"
| drain: "node_step node (ns, T) (fst (propagate_outbox node ns), T)"

abbreviation node_steps :: "'d node \<Rightarrow> config \<Rightarrow> config \<Rightarrow> bool" where
  "node_steps node \<equiv> (node_step node)\<^sup>*\<^sup>*"

text \<open>A node starts with a fresh store, no handler and the lockdown flag its start-up read.\<close>

definition node_start :: "config \<Rightarrow> bool" where
  "node_start c \<longleftrightarrow> snd c = {#} \<and> ns_spend_preflight (fst c) = 0 \<and>
     (\<forall>ch. ns_channel (fst c) = Some ch \<longrightarrow> (\<exists>mc mb hb. ch_store ch = store_new mc mb hb))"

subsection \<open>One step\<close>

lemma runs_poll: "node_runs node ns (lockdown_tick_with_lockdown_net persisted now ns)"
proof -
  have r: "ns_channel (record_deadline_tick now ns) = ns_channel ns" by (simp add: record_deadline_tick_def)
  have "ns_channel (lockdown_tick_with_lockdown_net persisted now ns) = ns_channel ns"
    using r by (auto simp: lockdown_tick_with_lockdown_net_def Let_def lockdown_latch split: option.split dest!: lockdown_tick_frame)
  then show ?thesis by (rule node_runs_same)
qed

lemma frame_poll:
  "(ns_lockdown ns \<longrightarrow> ns_lockdown (lockdown_tick_with_lockdown_net persisted now ns)) \<and>
   ns_spend_preflight (lockdown_tick_with_lockdown_net persisted now ns) = ns_spend_preflight ns"
proof -
  have r: "ns_lockdown (record_deadline_tick now ns) = ns_lockdown ns" "ns_spend_preflight (record_deadline_tick now ns) = ns_spend_preflight ns"
    by (simp_all add: record_deadline_tick_def)
  then show ?thesis
    by (auto simp: lockdown_tick_with_lockdown_net_def Let_def lockdown_latch split: option.split dest!: lockdown_tick_frame)
qed

lemma fire_tick_step:
  assumes "fire_tick node be persisted clock ns w = ((ns', res), w')"
  shows "node_runs node ns ns' \<and> (ns_lockdown ns \<longrightarrow> ns_lockdown ns') \<and> ns_spend_preflight ns' = ns_spend_preflight ns"
proof (cases "ns_channel ns")
  case None
  with assms show ?thesis by (simp add: fire_tick_def)
next
  case (Some ch)
  let ?st0 = "prune_store (ch_store ch) (fk_due_now clock) (fk_mono_now clock)"
  let ?ns1 = "set_store ?st0 ns"
  have p: "node_runs node ns ?ns1"
    by (rule node_runs_set_store [OF Some, of _ _ "OpPruneStore (fk_due_now clock) (fk_mono_now clock)"]) (simp add: channel_next_def)
  have f1: "ns_lockdown ?ns1 = ns_lockdown ns" "ns_spend_preflight ?ns1 = ns_spend_preflight ns" by (simp_all add: set_store_def)
  have fr: "(ns_lockdown ns \<longrightarrow> ns_lockdown n2) \<and> ns_spend_preflight n2 = ns_spend_preflight ns \<and> node_runs node ns n2"
    if "lockdown_tick persisted (fk_due_now clock) ?ns1 = Some (n2, d)" for n2 d
    using lockdown_tick_frame [OF that] f1 node_runs_trans [OF p node_runs_same [of n2 ?ns1]] by simp
  show ?thesis
  proof (cases res)
    case (Some ro)
    then obtain rels outs where ro: "res = Some (rels, outs)" by (cases ro) auto
    have runs: "node_runs node ns ns'"
      using fire_tick_cases [OF assms [unfolded ro] \<open>ns_channel ns = Some ch\<close>] \<open>ns_channel ns = Some ch\<close> by (auto simp: node_runs_def)
    have st: "ns_lockdown (set_store x y) = ns_lockdown y" "ns_spend_preflight (set_store x y) = ns_spend_preflight y" for x y
      by (simp_all add: set_store_def)
    from assms \<open>ns_channel ns = Some ch\<close> ro runs show ?thesis
      by (auto simp: fire_tick_def Let_def st split: if_split_asm option.split_asm prod.split_asm dest!: fr)
  next
    case None
    with assms \<open>ns_channel ns = Some ch\<close> p f1 show ?thesis
      by (auto simp: fire_tick_def Let_def split: if_split_asm option.split_asm prod.split_asm dest!: fr)
  qed
qed

lemma fire_pass_step:
  assumes "fst (fst (fire_tick_with_lockdown_net node be persisted clock ns w)) = ns'"
  shows "node_runs node ns ns' \<and> (ns_lockdown ns \<longrightarrow> ns_lockdown ns') \<and> ns_spend_preflight ns' = ns_spend_preflight ns"
proof (cases "ns_lockdown ns \<and> critical_lock_poisoned ns")
  case True
  with assms show ?thesis by (auto simp: fire_tick_with_lockdown_net_def)
next
  case False
  obtain ns1 r w1 where f: "fire_tick node be persisted clock ns w = ((ns1, r), w1)" by (metis surj_pair)
  note s = fire_tick_step [OF f]
  have "ns' = (if critical_lock_poisoned ns1 then latch_lockdown persisted ns1 else ns1)"
    using assms f by (simp add: fire_tick_with_lockdown_net_def False)
  moreover have "node_runs node ns (latch_lockdown persisted ns1)"
    using s node_runs_trans [OF _ node_runs_same [OF lockdown_latch(3)]] by blast
  ultimately show ?thesis using s by (simp add: lockdown_latch)
qed

lemma step_runs: "node_step node c c' \<Longrightarrow> node_runs node (fst c) (fst c')"
proof (induction rule: node_step.induct)
  case (decide hb clock r v k pre ns ns' h claim T)
  then show ?case by (auto intro: runs_decide)
next
  case (refresh_end hb rclock rr pre1 ns ns' h T)
  then show ?case using runs_refresh_decide [of node ns hb rclock rr pre1] by simp
next
  case (refresh_go rclock rr ns ns' T)
  then show ?case using runs_refresh_admit [of node ns rclock rr] by simp
next
  case (refresh_refused rclock rr ns ns' h T)
  then show ?case using runs_refresh_admit [of node ns rclock rr] by simp
next
  case (claim_derivation ns T nonce sender k)
  then show ?case by (auto simp: channel_next_def intro!: runs_on_store [where op = "OpClaimDerivation nonce sender k"])
next
  case (record_derivation ns T nonce sender tag g k)
  then show ?case by (auto simp: channel_next_def intro!: runs_on_store [where op = "OpRecordDerivation nonce sender tag g k"])
next
  case (drain ns T)
  then show ?case by (auto simp: propagate_outbox_def intro: node_runs_same)
next
  case (fire_pass be persisted fclock ns w ns' T)
  then show ?case using fire_pass_step by fastforce
qed (auto intro: runs_admit runs_rule runs_finish runs_ingest runs_stale_decide runs_confirm_on_node runs_poll)

definition counts_spends :: "config \<Rightarrow> bool" where
  "counts_spends c \<longleftrightarrow> ns_spend_preflight (fst c) = size (filter_mset is_spend (snd c))"

lemma frame_eqD: "frame a = frame b \<Longrightarrow> ns_lockdown a = ns_lockdown b \<and> ns_spend_preflight a = ns_spend_preflight b"
  by (simp add: frame_def)

lemma step_frame:
  "node_step node c c' \<Longrightarrow> (ns_lockdown (fst c) \<longrightarrow> ns_lockdown (fst c')) \<and> (counts_spends c \<longrightarrow> counts_spends c')"
proof (induction rule: node_step.induct)
  case (rule_go r v clock adm ns ns' claim T)
  then show ?case using frame_eqD [OF frame_rule [of node clock r adm v "carrier_for node r ns" ns]] by (simp add: counts_spends_def)
next
  case (rule_stop r v clock adm ns ns' claim h T)
  then show ?case using frame_eqD [OF frame_rule [of node clock r adm v "carrier_for node r ns" ns]] by (simp add: counts_spends_def)
next
  case (decide hb clock r v k pre ns ns' h claim T)
  then show ?case using frame_eqD [OF frame_decide [of node hb clock r v k pre ns]] by (simp add: counts_spends_def)
next
  case (finish ns claim T t)
  then show ?case using frame_finish [of t claim ns] by (simp add: counts_spends_def frame_def)
next
  case (admit clock r ns ns' adm T)
  then show ?case using frame_admit [OF admit] by (simp add: counts_spends_def frame_def)
next
  case (admit_refused clock r ns ns' h T)
  then show ?case using frame_admit [OF admit_refused] by (simp add: counts_spends_def frame_def)
next
  case (refresh_go rclock rr ns ns' T)
  then show ?case using frame_eqD [OF frame_refresh_admit [of node rclock rr ns]] by (simp add: counts_spends_def)
next
  case (refresh_refused rclock rr ns ns' h T)
  then show ?case using frame_eqD [OF frame_refresh_admit [of node rclock rr ns]] by (simp add: counts_spends_def)
next
  case (refresh_end hb rclock rr pre1 ns ns' h T)
  then show ?case using frame_eqD [OF frame_refresh_decide [of node hb rclock rr pre1 ns]] by (simp add: counts_spends_def)
next
  case (outer_stale ns T kf cclock i sender spend tag step claiming)
  then show ?case using frame_eqD [OF frame_stale_decide [of node kf cclock i sender spend tag step claiming ns]] by (simp add: counts_spends_def)
next
  case (confirm ns T now mono_now sender k)
  then show ?case using frame_eqD [OF frame_confirm [of node now mono_now sender k ns]] by (simp add: counts_spends_def)
next
  case (fire_pass be persisted fclock ns w ns' T)
  then show ?case using fire_pass_step by (fastforce simp: counts_spends_def)
next
  case (claim_derivation ns T nonce sender k)
  then show ?case using frame_eqD [OF frame_on_store [of False "\<lambda>st. claim_carrier_derivation st nonce sender k" ns]] by (simp add: counts_spends_def)
next
  case (record_derivation ns T nonce sender tag g k)
  then show ?case using frame_eqD [OF frame_on_store [of False "\<lambda>st. record_carrier_derivation_result st nonce sender tag g k" ns]] by (simp add: counts_spends_def)
next
  case (drain ns T)
  then show ?case using frame_eqD [OF frame_propagate [of node ns]] by (simp add: counts_spends_def)
qed (simp_all add: counts_spends_def frame_poll)

subsection \<open>Reachable configurations\<close>

lemma steps_runs: "node_steps node c c' \<Longrightarrow> node_runs node (fst c) (fst c')"
  by (induction rule: rtranclp_induct) (auto intro: node_runs_trans step_runs)

lemma steps_lockdown: "node_steps node c c' \<Longrightarrow> ns_lockdown (fst c) \<Longrightarrow> ns_lockdown (fst c')"
  by (induction rule: rtranclp_induct) (auto dest: step_frame)

lemma steps_count: "node_steps node c c' \<Longrightarrow> counts_spends c \<Longrightarrow> counts_spends c'"
  by (induction rule: rtranclp_induct) (auto dest: step_frame)

lemma start_counts: "node_start c \<Longrightarrow> counts_spends c"
  by (simp add: node_start_def counts_spends_def)

text \<open>C23: the node refines the channel machine. Whatever requests, messages, fire passes and polls interleave, the
  candidate store of a running node is the result of an execution of the channel's operations from the fresh store, so
  every theorem about executions of the channel holds of the node.\<close>

theorem node_refines_channel:
  assumes "node_start c" "node_steps node c (ns, T)" "ns_channel ns = Some ch"
  shows "\<exists>mc mb hb ops. ch_store ch = channel_run (channel_of node) ops (store_new mc mb hb)"
proof -
  from steps_runs [OF assms(2)] assms(3) obtain ch0 where c0: "ns_channel (fst c) = Some ch0" "store_runs node (ch_store ch0) (ch_store ch)"
    by (auto simp: node_runs_def split: option.split_asm)
  moreover from assms(1) c0(1) obtain mc mb hb where "ch_store ch0 = store_new mc mb hb" by (auto simp: node_start_def)
  ultimately show ?thesis by (auto simp: store_runs_def)
qed

text \<open>C21: no refresh overtakes a spend. In every reachable configuration the preflight counter is the number of spend
  handlers between their admission and their end, so it never wraps; a refresh that is accepted without an earlier
  verdict is accepted in a configuration in which no spend handler is in flight and no spend is pending.\<close>

theorem refresh_never_overtakes_spend:
  assumes "node_start c" "node_steps node c (ns, T)" "RefreshAdmitted request \<in># T"
    and "refresh_decide node hb clock request pre ns = (ns', answer (RespAccepted a))" "pre = fst (prefetch_prevouts node be (rr_refresh_psbt request) w)"
    and "decode_psbt node (rr_refresh_psbt request) = Some p"
    and "\<not> recorded_refresh (refresh_case_of node request (effective_now (ss_coord_nonces (ns_sign ns)) (rk_decide_raw clock)) p) ns a"
  shows "filter_mset is_spend T = {#} \<and> ns_spend_preflight ns = 0 \<and>
    \<not> pending_has_any (ss_pending (ns_sign ns)) (effective_now (ss_coord_nonces (ns_sign ns)) (rk_decide_raw clock))"
proof -
  let ?now = "effective_now (ss_coord_nonces (ns_sign ns)) (rk_decide_raw clock)"
  have pre: "fetch_refuses pre" unfolding assms(5) by (rule fetch_refuses_prefetch)
  from refresh_decide_Accepted [OF assms(4) pre] assms(6,7) have "fresh_refresh node hb ns ?now p pre" by auto
  moreover have "counts_spends (ns, T)" by (rule steps_count [OF assms(2) start_counts [OF assms(1)]])
  ultimately show ?thesis by (simp add: fresh_refresh_def counts_spends_def)
qed

text \<open>C22: Lockdown is final. Once a node is locked down it stays locked through every step of every thread; it admits no
  spend and no refresh, and a handler that was already past its admission when the node locked registers and signs nothing: its
  decision leaves the state as it is and answers with the one fraud refusal (or panics on a poisoned lock).\<close>

theorem lockdown_is_final:
  assumes "ns_lockdown ns0" "node_steps node (ns0, T0) (ns, T)"
  shows "ns_lockdown ns \<and> sign_admit node clock r ns = (ns, Inl (answer fraud_suspected)) \<and>
    refresh_admit node rclock rr ns = (ns, Some (answer fraud_suspected)) \<and>
    sign_decide node hb clock r v k pre ns \<in> {(ns, HandlerPanic), (ns, answer fraud_suspected)} \<and>
    refresh_decide node hb rclock rr pre1 ns \<in> {(ns, HandlerPanic), (ns, answer fraud_suspected)}"
proof -
  have "ns_lockdown ns" using steps_lockdown [OF assms(2)] assms(1) by simp
  then show ?thesis by (simp add: sign_admit_def refresh_admit_def sign_decide_def refresh_decide_def)
qed

subsection \<open>The handlers are paths of the machine\<close>

lemma node_runs_channel: "node_runs node a b \<Longrightarrow> has_channel b = has_channel a"
  by (auto simp: node_runs_def has_channel_def split: option.split_asm)

text \<open>The spend handler, with any steps of other threads between its critical sections, is a path that starts and ends with the
  same threads in flight.\<close>

lemma handle_sign_path:
  assumes run: "handle_sign node be clock during_pin during_fetch r ns w = ((ns', h), w')"
    and pin: "\<And>x t. node_steps node (x, add_mset t T) (during_pin x, add_mset t T)"
    and fetch: "\<And>x t. node_steps node (x, add_mset t T) (during_fetch x, add_mset t T)"
  shows "node_steps node (ns, T) (ns', T)"
proof -
  obtain ns1 res where adm: "sign_admit node clock r ns = (ns1, res)" by fastforce
  show ?thesis
  proof (cases res)
    case (Inl x)
    with adm run show ?thesis by (auto simp: handle_sign_def intro: node_step.admit_refused)
  next
    case ok: (Inr a)
    have p1: "node_steps node (ns, T) (during_pin ns1, add_mset (SpendAdmitted r a) T)"
      by (rule converse_rtranclp_into_rtranclp [OF node_step.admit [OF adm [unfolded ok]] pin])
    have hc: "has_channel (during_pin ns1) = has_channel ns1"
      using node_runs_channel [OF steps_runs [OF pin [of ns1 "SpendDone None"]]] by simp
    have fin: "node_steps node (x, add_mset (SpendDone cl) T) (finish_sign t cl x, T)" for x cl t
      by (rule r_into_rtranclp) (rule node_step.finish)
    show ?thesis
    proof (cases "pin_ruling node (sr_pin r)")
      case None
      have "node_steps node (during_pin ns1, add_mset (SpendAdmitted r a) T) (during_pin ns1, add_mset (SpendDone (am_claim a)) T)"
        by (rule r_into_rtranclp) (rule node_step.pin_panic [OF None])
      with p1 fin [of "during_pin ns1" "am_claim a" "sk_drop_mono clock"] adm ok run None show ?thesis by (auto simp: handle_sign_def)
    next
      case pn: (Some v)
      let ?k = "carrier_for node r (during_pin ns1)"
      have k: "(if has_channel ns1 then arm_carrier_id node (sign_coord_request r) else []) = ?k" by (simp add: carrier_for_def hc)
      obtain ns2 claim res2 where rl: "sign_rule node clock r a v ?k (during_pin ns1) = (ns2, claim, res2)" by (metis surj_pair)
      obtain pre w1 where pf: "prefetch_spend_escape_prevouts node be r w = (pre, w1)" by fastforce
      obtain ns3 h3 where dc: "sign_decide node (be \<noteq> None) clock r v ?k pre (during_fetch ns2) = (ns3, h3)" by fastforce
      note e = handle_sign_end [where during_pin = during_pin and during_fetch = during_fetch, OF adm [unfolded ok] pn _ pf, unfolded k, OF rl dc]
      show ?thesis
      proof (cases res2)
        case (Some x)
        have "node_steps node (during_pin ns1, add_mset (SpendAdmitted r a) T) (ns2, add_mset (SpendDone claim) T)"
          by (rule r_into_rtranclp) (rule node_step.rule_stop [OF pn rl [unfolded Some]])
        with p1 fin [of ns2 claim "sk_drop_mono clock"] run e Some show ?thesis by auto
      next
        case None
        have p2: "node_steps node (during_pin ns1, add_mset (SpendAdmitted r a) T) (during_fetch ns2, add_mset (SpendRuled r v ?k claim) T)"
          by (rule converse_rtranclp_into_rtranclp [OF node_step.rule_go [OF pn rl [unfolded None]] fetch])
        have "node_steps node (during_fetch ns2, add_mset (SpendRuled r v ?k claim) T) (ns3, add_mset (SpendDone claim) T)"
          by (rule r_into_rtranclp) (rule node_step.decide [OF dc])
        with p1 p2 fin [of ns3 claim "sk_drop_mono clock"] run e None show ?thesis by auto
      qed
    qed
  qed
qed

lemma handle_refresh_path:
  assumes run: "handle_refresh node be clock during_fetch r ns w = ((ns', h), w')"
    and fetch: "\<And>x t. node_steps node (x, add_mset t T) (during_fetch x, add_mset t T)"
  shows "node_steps node (ns, T) (ns', T)"
proof -
  obtain ns1 res where adm: "refresh_admit node clock r ns = (ns1, res)" by fastforce
  show ?thesis
  proof (cases res)
    case (Some x)
    with adm run show ?thesis by (auto simp: handle_refresh_def intro: node_step.refresh_refused)
  next
    case None
    obtain pre w1 where pf: "prefetch_prevouts node be (rr_refresh_psbt r) w = (pre, w1)" by fastforce
    obtain ns2 h2 where dc: "refresh_decide node (be \<noteq> None) clock r pre (during_fetch ns1) = (ns2, h2)" by fastforce
    have "node_steps node (ns, T) (during_fetch ns1, add_mset (RefreshAdmitted r) T)"
      by (rule converse_rtranclp_into_rtranclp [OF node_step.refresh_go [OF adm [unfolded None]] fetch])
    moreover have "node_step node (during_fetch ns1, add_mset (RefreshAdmitted r) T) (ns2, T)" by (rule node_step.refresh_end [OF dc])
    ultimately show ?thesis using run adm pf dc None by (auto simp: handle_refresh_def)
  qed
qed

end
