(* ===== verification/Refresh_Demo.thy ===== *)
theory Refresh_Demo
  imports Sign_Demo Refresh_Handler
begin

text \<open>A refresh through the handler, evaluated step by step: one vault coin is paid back to the vault.\<close>

definition rd_psbt :: psbt where
  "rd_psbt = (demo_psbt [demo_out 1 0 950])\<lparr>psbt_inputs := [sd_input]\<rparr>"

definition rd_node :: "nat node" where
  "rd_node = sign_node\<lparr>nd_psbt_from_str := (\<lambda>s. Some rd_psbt)\<rparr>"

definition rd_request :: refresh_request where
  "rd_request = \<lparr>rr_refresh_psbt = ''r'', rr_nonce = ''n'', rr_expiry = 2000, rr_policy_version = 1, rr_coord_sig = [CHR 0x04]\<rparr>"

definition rd_clock :: refresh_clock where
  "rd_clock = \<lparr>rk_admit_raw = 1000, rk_admit_mono = 7, rk_decide_raw = 1002, rk_prune_mono = 8, rk_register_mono = 8\<rparr>"

lemma rd_node_reads:
  "nd_sig rd_node = sd_sig" "nd_desc rd_node = demo_api" "nd_check_params rd_node = demo_params" "nd_user_pubkey rd_node = [5]"
  "nd_witness_script rd_node = [1, 1]" "nd_wire rd_node = demo_wire" "nd_text rd_node = demo_text" "nd_coordinator_auth rd_node = [4]"
  "nd_max_commitment_age_secs rd_node = 10000" "nd_max_msg_bytes rd_node = 1000" "nd_json rd_node = (\<lambda>r. [])"
  "nd_envelope_json rd_node = (\<lambda>e. [])" "nd_pubkey rd_node = [6]" "nd_sign_ecdsa rd_node = (\<lambda>d. [9])" "nd_env rd_node = demo_env 0"
  "nd_refresh_min_interval_secs rd_node = 1000" "nd_refresh_max_feerate rd_node = 100" "nd_tx rd_node = demo_tx_api"
  "candidate_keys_of rd_node = candidate_keys_of sign_node" "decode_psbt rd_node ''r'' = Some rd_psbt"
  by (simp_all add: rd_node_def sign_node_reads candidate_keys_of_def decode_psbt_def str_trim_def is_space_def)
     (simp_all add: sign_node_def demo_node_def)

lemma rd_admit: "\<exists>ns. refresh_admit rd_node rd_clock rd_request sd_state = (ns, None) \<and> sd_live ns \<and> ns_spend_preflight ns = 0 \<and>
  ss_pending (ns_sign ns) = [] \<and> ss_refreshes (ns_sign ns) = []"
proof -
  have st: "\<not> ns_lockdown sd_state" "\<not> ns_sign_poisoned sd_state" "ss_coord_nonces (ns_sign sd_state) = nonce_log_default" "has_channel sd_state"
    by (simp_all add: sd_state_def demo_node_state_def has_channel_def)
  obtain lg where cr: "check_and_record nonce_log_default \<lparr>nr_nonce = ''n'', nr_expiry = 2000, nr_now = 1000, nr_max_age = 10000,
      nr_mono_now = Some 7, nr_record_deadline = False\<rparr> = (lg, nonce_decision.Accepted)" "high_water lg = 0"
    by (simp add: check_and_record_def nonce_log_default_def effective_now_def prune_nonces_def hm_simps
        MAX_COORD_NONCE_BYTES_def MAX_COORD_NONCES_def sat_add64_def u64_max_def checked_add64_def Let_def hm_values_def hm_get_def hm_retain_def hm_insert_def)
  have req: "cr_nonce (refresh_coord_request rd_request) = ''n''" "unat (cr_expiry (refresh_coord_request rd_request)) = 2000"
    "\<not> is_coord_spend (refresh_coord_request rd_request)" "rr_coord_sig rd_request = [CHR 0x04]"
    by (simp_all add: refresh_coord_request_def rd_request_def is_coord_spend_def)
  have sg: "verify_coord_signature rd_node q [CHR 0x04] = Inr ()" for q
    by (simp add: verify_coord_signature_def rd_node_reads demo_wire_def sd_sig_reads)
  have auth: "verify_coord_auth rd_node (refresh_coord_request rd_request) [CHR 0x04] 1000 nonce_log_default (Some 7) =
      (lg, Inr (effective_now lg 1000, carrier_deadline lg ''n''))"
    by (simp add: verify_coord_auth_def sg req rd_node_reads cr bind_res_def)
  have fits: "request_fits_channel_body rd_node q" for q by (simp add: request_fits_channel_body_def envelope_body_def rd_node_reads)
  show ?thesis
    using cr(2) by (simp add: refresh_admit_def st rd_clock_def req auth Let_def ensure_request_propagatable_def fits)
      (simp add: sd_live_def set_sign_def sd_state_def demo_node_state_def sd_store_def store_new_def)
qed

lemma rd_checks:
  "verify_spend rd_node True rd_psbt (Some sd_prevouts) = Inr ()" "classify demo_api rd_psbt demo_params = Inr \<lparr>cls_class = Refresh, cls_hot_outflow = 0\<rparr>"
  "add_node_signatures rd_node rd_psbt = Some (rd_psbt\<lparr>psbt_inputs := [sd_signed]\<rparr>)" "check_refresh_feerate rd_node rd_psbt = None"
proof -
  have u: "verify_user_signatures rd_node rd_psbt = Inr ()"
    by (simp add: verify_user_signatures_def rd_psbt_def sd_input_def demo_input_def rd_node_reads sd_sig_reads hm_get_def)
  have c: "compare_prevouts_against_chain rd_psbt [Some \<lparr>po_txout = \<lparr>script_pubkey = [5, 1], txo_value = 1000\<rparr>, po_confirmed = True\<rparr>] = Inr ()"
    by (simp add: compare_prevouts_against_chain_def prevout_agrees_def rd_psbt_def sd_input_def demo_input_def demo_psbt_def)
  have "evaluate demo_api rd_psbt demo_params = Inr ()"
    by (simp add: rd_psbt_def sd_input_def demo_defs policy_defs refuse_with_def bind_res_def)
  with u c show "verify_spend rd_node True rd_psbt (Some sd_prevouts) = Inr ()"
    by (simp add: verify_spend_def rd_node_reads run_prevout_check_def sd_prevouts_def bind_res_def map_err_def)
  show "classify demo_api rd_psbt demo_params = Inr \<lparr>cls_class = Refresh, cls_hot_outflow = 0\<rparr>"
    by (simp add: rd_psbt_def sd_input_def demo_defs policy_defs refuse_with_def)
  show "add_node_signatures rd_node rd_psbt = Some (rd_psbt\<lparr>psbt_inputs := [sd_signed]\<rparr>)"
    by (simp add: add_node_signatures_def rd_psbt_def rd_node_reads sd_sig_reads sd_signed_def sd_input_def demo_input_def)
  show "check_refresh_feerate rd_node rd_psbt = None"
    by (simp add: check_refresh_feerate_def rd_node_reads demo_tx_api_def present_utxos_def outputs_sum_def rd_psbt_def sd_input_def demo_input_def
        demo_psbt_def demo_out_def sat_simps sat_mul128_def)
qed

lemma rd_register:
  assumes "sd_live ns" "pair_specs p = [s]" "cs_psbt s = rd_psbt\<lparr>psbt_inputs := [sd_signed]\<rparr>" "cs_escape_bumps s = []" "rp_hot_reserve p = None"
  shows "\<exists>ns'. register_pair rd_node t p ns = (ns', Inr ())"
proof -
  obtain ch where ch: "ns_channel ns = Some ch" "sd_store (ch_store ch)" using assms(1) by (auto simp: sd_live_def)
  obtain c1 where c1: "candidate_build sd_sig s (candidate_keys_of sign_node) = Ok c1" "c_commitment_id c1 = cs_commitment_id s"
    "capacity_bytes (reserve_partial_capacity sd_sig c1 (ce_nodes (demo_env 0)) 0) = 454" using sd_build [OF _ assms(3,4)] by auto
  have b: "build_all (channel_of rd_node) (pair_specs p) = Ok [c1]"
    using c1(1) assms(2) by (simp add: channel_of_def rd_node_reads bind_res_def)
  have ids: "c_commitment_id (reserve_partial_capacity a c n i) = c_commitment_id c" for a c n i by (simp add: reserve_partial_capacity_def)
  have ce: "ce_node_id (demo_env 0) = 0" by (simp add: demo_env_def)
  obtain st' where r: "register_candidates sd_sig (demo_env 0) t (ch_store ch) [c1] (pair_directive rd_node p) None = (st', Ok [Inserted])"
    using ch(2) c1(2,3)
    by (simp add: register_candidates_def sd_store_def Let_def ids hm_get_def hm_contains_def sat_simps ce register_def hm_insert_def)
  then show ?thesis
    using ch b assms(5) by (simp add: register_pair_def rd_node_reads r register_verdict_def)
qed

lemma rd_decide:
  assumes "sd_live ns" "ns_spend_preflight ns = 0" "ss_pending (ns_sign ns) = []" "ss_refreshes (ns_sign ns) = []"
  shows "\<exists>ns' a. refresh_decide rd_node True rd_clock rd_request (Some sd_prevouts) ns = (ns', answer (RespAccepted a))"
proof -
  have now: "effective_now (ss_coord_nonces (ns_sign ns)) t = t" for t using assms by (simp add: sd_live_def effective_now_def)
  define c where "c = refresh_case_of rd_node rd_request 1002 rd_psbt"
  have cf: "fc_now c = 1002" "fc_psbt c = rd_psbt" by (simp_all add: c_def refresh_case_of_def Let_def)
  let ?ns = "set_sign (\<lambda>s. s\<lparr>ss_replay := replay_prune (ss_replay s) 1002\<rparr>) ns"
  have live: "sd_live ?ns" "ss_replay (ns_sign ?ns) = []" using assms by (simp_all add: sd_live_def set_sign_def replay_prune_def hm_retain_def)
  let ?ns2 = "prune_logs rd_node 1002 (rk_prune_mono rd_clock) ?ns"
  have live2: "sd_live ?ns2"
    unfolding prune_logs_def by (rule sd_live_with_store) (use live sd_store_keeps in \<open>simp_all add: sd_live_def set_sign_def\<close>)
  have logs: "ns_spend_preflight ?ns2 = 0" "ss_pending (ns_sign ?ns2) = []" "ss_refreshes (ns_sign ?ns2) = []"
    using assms by (simp_all add: prune_logs_def with_store_def set_sign_def pending_prune_def refresh_prune_def hm_retain_def)
  have gates: "refresh_gates rd_node c ?ns2 = None"
    by (simp add: refresh_gates_def logs cf rd_checks pending_has_any_def hm_values_def check_refresh_interval_def last_refresh_def hm_get_def)
       (simp add: rd_psbt_def demo_psbt_def)
  let ?p = "refresh_pair rd_node c (rd_psbt\<lparr>psbt_inputs := [sd_signed]\<rparr>)"
  obtain s where sp: "pair_specs ?p = [s]" "cs_psbt s = rd_psbt\<lparr>psbt_inputs := [sd_signed]\<rparr>" "cs_escape_bumps s = []"
    by (simp add: pair_specs_def refresh_pair_def)
  have "rp_hot_reserve ?p = None" by (simp add: refresh_pair_def)
  from rd_register [OF live2 sp this] obtain ns3 where reg: "register_pair rd_node (rk_register_mono rd_clock) ?p ?ns2 = (ns3, Inr ())" by blast
  have "\<exists>ns' a. replay_or_refresh rd_node True rd_clock c (Some sd_prevouts) ns = (ns', answer (RespAccepted a))"
    by (simp add: replay_or_refresh_def live cf replay_get_def hm_get_def verify_refresh_def rd_checks rd_node_reads gates sign_refresh_def reg
        record_refresh_def Let_def)
  then show ?thesis
    using assms(1) by (simp add: refresh_decide_def now rd_clock_def rd_request_def rd_node_reads c_def sat_add64_def u64_max_def sd_live_def)
qed

theorem refresh_acceptance_sound_witness:
  "\<exists>ns' a. handle_refresh rd_node (Some sd_backend) rd_clock (\<lambda>x. x) rd_request sd_state () = ((ns', answer (RespAccepted a)), ()) \<and>
     verify_coord_signature rd_node (refresh_coord_request rd_request) (rr_coord_sig rd_request) = Inr ()"
proof -
  obtain ns1 where adm: "refresh_admit rd_node rd_clock rd_request sd_state = (ns1, None)" "sd_live ns1" "ns_spend_preflight ns1 = 0"
    "ss_pending (ns_sign ns1) = []" "ss_refreshes (ns_sign ns1) = []" using rd_admit by blast
  obtain ns' a where dc: "refresh_decide rd_node True rd_clock rd_request (Some sd_prevouts) ns1 = (ns', answer (RespAccepted a))"
    using rd_decide [OF adm(2-5)] by blast
  have "fetch_prevouts rd_psbt sd_backend () = (sd_prevouts, ())"
    by (simp add: fetch_prevouts_def sd_backend_def sd_prevouts_def rd_psbt_def demo_psbt_def)
  then have pf: "prefetch_prevouts rd_node (Some sd_backend) (rr_refresh_psbt rd_request) () = (Some sd_prevouts, ())"
    by (simp add: prefetch_prevouts_def rd_request_def rd_node_reads)
  have run: "handle_refresh rd_node (Some sd_backend) rd_clock (\<lambda>x. x) rd_request sd_state () = ((ns', answer (RespAccepted a)), ())"
    by (simp add: handle_refresh_def adm pf dc)
  from refresh_acceptance_sound [OF run] run show ?thesis by blast
qed

end
