(* ===== verification/Node_Demo.thy ===== *)
theory Node_Demo
  imports Node_Machine Refresh_Demo
begin

text \<open>Concrete paths of the node machine.\<close>

lemma sd_start: "node_start (sd_state, {#})"
  by (auto simp: node_start_def sd_state_def demo_node_state_def)

lemma rd_path: "\<exists>ns. node_steps rd_node (sd_state, {#}) (ns, {#RefreshAdmitted rd_request#}) \<and> sd_live ns \<and> ns_spend_preflight ns = 0 \<and>
  ss_pending (ns_sign ns) = [] \<and> ss_refreshes (ns_sign ns) = []"
  using rd_admit by (blast intro: r_into_rtranclp node_step.refresh_go)

theorem node_refines_channel_witness:
  "\<exists>ns T ch. node_steps rd_node (sd_state, {#}) (ns, T) \<and> T \<noteq> {#} \<and> ns_channel ns = Some ch \<and>
     (\<exists>mc mb hb ops. ch_store ch = channel_run (channel_of rd_node) ops (store_new mc mb hb))"
proof -
  obtain ns where p: "node_steps rd_node (sd_state, {#}) (ns, {#RefreshAdmitted rd_request#})" "sd_live ns" using rd_path by blast
  then obtain ch where ch: "ns_channel ns = Some ch" by (auto simp: sd_live_def)
  from node_refines_channel [OF sd_start p(1) ch] p ch show ?thesis by fastforce
qed

theorem refresh_never_overtakes_spend_witness:
  "\<exists>ns T ns' a. node_steps rd_node (sd_state, {#}) (ns, T) \<and> RefreshAdmitted rd_request \<in># T \<and>
     refresh_decide rd_node True rd_clock rd_request (Some sd_prevouts) ns = (ns', answer (RespAccepted a)) \<and> filter_mset is_spend T = {#}"
proof -
  obtain ns where p: "node_steps rd_node (sd_state, {#}) (ns, {#RefreshAdmitted rd_request#})" "sd_live ns" "ns_spend_preflight ns = 0"
    "ss_pending (ns_sign ns) = []" "ss_refreshes (ns_sign ns) = []" using rd_path by blast
  obtain ns' a where d: "refresh_decide rd_node True rd_clock rd_request (Some sd_prevouts) ns = (ns', answer (RespAccepted a))"
    using rd_decide [OF p(2-5)] by blast
  have pf: "Some sd_prevouts = fst (prefetch_prevouts rd_node (Some sd_backend) (rr_refresh_psbt rd_request) ())"
    by (simp add: prefetch_prevouts_def rd_request_def rd_node_reads fetch_prevouts_def sd_backend_def sd_prevouts_def)
       (simp add: rd_psbt_def demo_psbt_def)
  have dec: "decode_psbt rd_node (rr_refresh_psbt rd_request) = Some rd_psbt" by (simp add: rd_request_def rd_node_reads)
  have "\<not> recorded_refresh c ns a" for c using p(2) by (simp add: recorded_refresh_def sd_live_def replay_prune_def replay_get_def hm_retain_def hm_get_def)
  from refresh_never_overtakes_spend [OF sd_start p(1) _ d pf dec this] p(1) d show ?thesis by fastforce
qed

theorem lockdown_is_final_witness:
  "ns_lockdown (lockdown_tick_with_lockdown_net False 10 (sd_state\<lparr>ns_lockdown := True\<rparr>)) \<and>
   sign_admit sign_node sd_clock sd_request (lockdown_tick_with_lockdown_net False 10 (sd_state\<lparr>ns_lockdown := True\<rparr>)) =
     (lockdown_tick_with_lockdown_net False 10 (sd_state\<lparr>ns_lockdown := True\<rparr>), Inl (answer fraud_suspected))"
proof -
  have l: "ns_lockdown (sd_state\<lparr>ns_lockdown := True\<rparr>)" by simp
  have "node_steps sign_node (sd_state\<lparr>ns_lockdown := True\<rparr>, {#}) (lockdown_tick_with_lockdown_net False 10 (sd_state\<lparr>ns_lockdown := True\<rparr>), {#})"
    by (rule r_into_rtranclp) (rule node_step.poll)
  from lockdown_is_final [OF l this] show ?thesis by blast
qed

end
