(* ===== verification/Alert_Queue.thy ===== *)
theory Alert_Queue
  imports Ingest
begin

text \<open>
  The alert queue of \<open>crates/vault-node/src/watchtower.rs\<close>: the alerts of the chain scan and the
  freshness diagnostics of the channel share one bounded queue, which \<open>GET /events\<close> reads with a
  cursor. The queue is shown to deliver an alert exactly once to a client that carries its cursor,
  as long as no more than \<open>cap\<close> events were appended since, and a peer whose clock is off is shown
  not to push alerts out by repeating itself.

  The sequence counter is a \<open>u64\<close> that wraps, as the release build does; a theorem that needs the
  counter not to wrap says so.
\<close>

subsection \<open>Alerts and events\<close>

datatype alert_kind = RecoveryPathSpend | UnrecognizedSpend

record alert =
  al_kind :: alert_kind
  al_spend_txid :: string
  al_outpoint :: string
  al_script :: string

datatype event = Watchtower alert | ChannelFreshness freshness_event

record published_freshness =
  pf_ingress_high_water :: u64
  pf_reject_count :: u64

record alert_queue =
  aq_entries :: "(u64 \<times> string \<times> event) list"
  aq_next_seq :: u64
  aq_seen :: "string list"
  aq_published :: "(node_id, published_freshness) hmap"
  aq_cap :: nat

definition DEFAULT_ALERT_CAP :: nat where "DEFAULT_ALERT_CAP = 1024"

definition alert_queue_new :: "nat \<Rightarrow> alert_queue" where
  "alert_queue_new cap = \<lparr>aq_entries = [], aq_next_seq = 1, aq_seen = [], aq_published = [], aq_cap = cap\<rparr>"

subsection \<open>Dedupe keys\<close>

text \<open>Decimal display of a number.\<close>

fun show_dec :: "nat \<Rightarrow> string" where
  "show_dec n = (if n < 10 then [char_of (48 + n)] else show_dec (n div 10) @ [char_of (48 + n mod 10)])"

declare show_dec.simps [simp del]

definition alert_key :: "alert \<Rightarrow> string" where
  "alert_key a = al_spend_txid a @ '':'' @ al_outpoint a"

definition freshness_key :: "node_id \<Rightarrow> string" where
  "freshness_key peer = ''freshness:'' @ show_dec (unat peer)"

subsection \<open>Operations\<close>

fun evict_to :: "nat \<Rightarrow> (u64 \<times> string \<times> event) list \<Rightarrow> string list \<Rightarrow> (u64 \<times> string \<times> event) list \<times> string list" where
  "evict_to cap [] seen = ([], seen)"
| "evict_to cap ((seq, key, ev) # es) seen =
     (if length ((seq, key, ev) # es) > cap then evict_to cap es (removeAll key seen) else ((seq, key, ev) # es, seen))"

definition queue_append :: "alert_queue \<Rightarrow> string \<Rightarrow> event \<Rightarrow> alert_queue" where
  "queue_append q key ev =
     (let seq = aq_next_seq q;
          (entries, seen) = evict_to (aq_cap q) (aq_entries q @ [(seq, key, ev)]) (aq_seen q)
      in q\<lparr>aq_next_seq := (seq + 1) mod 2 ^ 64, aq_entries := entries, aq_seen := seen\<rparr>)"

definition queue_push :: "alert_queue \<Rightarrow> alert \<Rightarrow> bool \<times> alert_queue" where
  "queue_push q a =
     (let key = alert_key a in
      if key \<in> set (aq_seen q) then (False, q)
      else (True, queue_append (q\<lparr>aq_seen := key # aq_seen q\<rparr>) key (Watchtower a)))"

text \<open>The first entry under \<open>key\<close> replaced, if there is one.\<close>

fun replace_first :: "string \<Rightarrow> event \<Rightarrow> (u64 \<times> string \<times> event) list \<Rightarrow> (u64 \<times> string \<times> event) list" where
  "replace_first key ev [] = []"
| "replace_first key ev ((seq, k, old) # es) =
     (if k = key then (seq, k, ev) # es else (seq, k, old) # replace_first key ev es)"

fun remove_first :: "string \<Rightarrow> (u64 \<times> string \<times> event) list \<Rightarrow> (u64 \<times> string \<times> event) list" where
  "remove_first key [] = []"
| "remove_first key ((seq, k, ev) # es) = (if k = key then es else (seq, k, ev) # remove_first key es)"

text \<open>What the rest of \<open>record_freshness\<close> does once the count to publish is known.\<close>

definition publish_freshness :: "alert_queue \<Rightarrow> freshness_event \<Rightarrow> published_freshness \<Rightarrow> alert_queue" where
  "publish_freshness q ev pub =
     (let key = freshness_key (fe_peer_node_id ev);
          q1 = q\<lparr>aq_published := hm_insert (fe_peer_node_id ev) pub (aq_published q),
                 aq_entries := remove_first key (aq_entries q),
                 aq_seen := (if key \<in> set (aq_seen q) then aq_seen q else key # aq_seen q)\<rparr>
      in queue_append q1 key (ChannelFreshness (ev\<lparr>fe_reject_count := pf_reject_count pub\<rparr>)))"

definition record_freshness :: "alert_queue \<Rightarrow> freshness_event \<Rightarrow> u64 \<Rightarrow> alert_queue" where
  "record_freshness q ev ingress_high_water =
     (case hm_get (aq_published q) (fe_peer_node_id ev) of
        None \<Rightarrow> publish_freshness q ev
                  \<lparr>pf_ingress_high_water = ingress_high_water, pf_reject_count = fe_reject_count ev\<rparr>
      | Some published \<Rightarrow>
          if ingress_high_water < pf_ingress_high_water published then q
          else if ingress_high_water = pf_ingress_high_water published then
            (if fe_reject_count ev \<le> pf_reject_count published then q
             else q\<lparr>aq_published := hm_insert (fe_peer_node_id ev) (published\<lparr>pf_reject_count := fe_reject_count ev\<rparr>) (aq_published q),
                    aq_entries := replace_first (freshness_key (fe_peer_node_id ev)) (ChannelFreshness ev) (aq_entries q)\<rparr>)
          else publish_freshness q ev
                 \<lparr>pf_ingress_high_water = ingress_high_water, pf_reject_count = max (pf_reject_count published) (fe_reject_count ev)\<rparr>)"

definition queue_cursor :: "alert_queue \<Rightarrow> u64" where
  "queue_cursor q = (aq_next_seq q + 2 ^ 64 - 1) mod 2 ^ 64"

definition queue_since :: "alert_queue \<Rightarrow> u64 \<Rightarrow> event list \<times> u64" where
  "queue_since q since = (map (\<lambda>(_, _, ev). ev) (filter (\<lambda>(seq, _, _). since < seq) (aq_entries q)), queue_cursor q)"

text \<open>The two writers of the queue, in the order in which they take its lock.\<close>

datatype queue_op = PushAlert alert | RecordFreshness freshness_event u64

fun queue_step :: "alert_queue \<Rightarrow> queue_op \<Rightarrow> alert_queue" where
  "queue_step q (PushAlert a) = snd (queue_push q a)"
| "queue_step q (RecordFreshness ev h) = record_freshness q ev h"

definition queue_run :: "alert_queue \<Rightarrow> queue_op list \<Rightarrow> alert_queue" where
  "queue_run q ops = foldl queue_step q ops"

lemma queue_run_simps [simp]:
  "queue_run q [] = q" "queue_run q (x # ops) = queue_run (queue_step q x) ops"
  "queue_run q (ops @ ops') = queue_run (queue_run q ops) ops'"
  by (simp_all add: queue_run_def)

subsection \<open>Keys tell events apart\<close>

lemma digit_char_eq: "m < 10 \<Longrightarrow> n < 10 \<Longrightarrow> char_of (48 + m) = (char_of (48 + n) :: char) \<longleftrightarrow> m = (n :: nat)"
  by (auto dest!: arg_cong [where f = "of_char :: char \<Rightarrow> nat"] simp: of_char_of take_bit_eq_mod)

lemma show_dec_nonempty [simp]: "show_dec n \<noteq> []"
  by (subst show_dec.simps) simp

lemma show_dec_eq_iff [simp]: "show_dec m = show_dec n \<longleftrightarrow> m = n"
proof (induction m arbitrary: n rule: show_dec.induct)
  case (1 m)
  show ?case
  proof (cases "m < 10 \<or> n < 10")
    case True
    then show ?thesis
      by (subst (1 2) show_dec.simps) (auto simp: digit_char_eq append_eq_Cons_conv Cons_eq_append_conv)
  next
    case False
    then have "show_dec m = show_dec n \<longleftrightarrow> m div 10 = n div 10 \<and> m mod 10 = n mod 10"
      by (subst (1 2) show_dec.simps) (simp add: 1 digit_char_eq)
    then show ?thesis by (metis div_mult_mod_eq)
  qed
qed

lemma freshness_key_eq_iff [simp]: "freshness_key p = freshness_key p' \<longleftrightarrow> p = p'"
  by (simp add: freshness_key_def word_unat_eq_iff)

text \<open>A transaction id is displayed in lowercase hex.\<close>

definition lower_hex :: "string \<Rightarrow> bool" where
  "lower_hex s = list_all (\<lambda>c. c \<in> set ''0123456789abcdef'') s"

lemma alert_key_not_freshness:
  assumes "lower_hex (al_spend_txid a)"
  shows "alert_key a \<noteq> freshness_key p"
  using assms
  by (cases "al_spend_txid a" rule: remdups_adj.cases) (auto simp: alert_key_def freshness_key_def lower_hex_def)

subsection \<open>The invariant of the queue\<close>

abbreviation entry_key :: "u64 \<times> string \<times> event \<Rightarrow> string" where
  "entry_key e \<equiv> fst (snd e)"

lemma remove_first_filter: "distinct (map entry_key es) \<Longrightarrow> remove_first key es = filter (\<lambda>e. entry_key e \<noteq> key) es"
  by (induction key es rule: remove_first.induct) (auto intro!: filter_True [symmetric])

lemma replace_first_map:
  "distinct (map entry_key es) \<Longrightarrow>
   replace_first key ev es = map (\<lambda>(seq, k, old). (seq, k, if k = key then ev else old)) es"
  by (induction key ev es rule: replace_first.induct) (force intro!: map_idI [symmetric])+

lemma evict_to_entries: "fst (evict_to cap es seen) = drop (length es - cap) es"
  by (induction cap es seen rule: evict_to.induct) (auto simp: Suc_diff_le)

lemma evict_to_seen:
  "set (snd (evict_to cap es seen)) = set seen - entry_key ` set (take (length es - cap) es)"
  by (induction cap es seen rule: evict_to.induct) (auto simp: Suc_diff_le)

lemma evict_to_distinct: "distinct seen \<Longrightarrow> distinct (snd (evict_to cap es seen))"
  by (induction cap es seen rule: evict_to.induct) (auto simp: distinct_removeAll)

text \<open>
  What an entry says: an alert stands under its own key, and the one entry of a peer carries the
  highest count that was ever accepted for it.
\<close>

fun entry_ok :: "(node_id, published_freshness) hmap \<Rightarrow> string \<Rightarrow> event \<Rightarrow> bool" where
  "entry_ok pub k (Watchtower a) = (k = alert_key a \<and> lower_hex (al_spend_txid a))"
| "entry_ok pub k (ChannelFreshness ev) =
     (k = freshness_key (fe_peer_node_id ev) \<and>
      map_option pf_reject_count (hm_get pub (fe_peer_node_id ev)) = Some (fe_reject_count ev))"

definition queue_ok :: "alert_queue \<Rightarrow> bool" where
  "queue_ok q \<longleftrightarrow>
     sorted_wrt (<) (map fst (aq_entries q)) \<and>
     (\<forall>e \<in> set (aq_entries q). 0 < fst e \<and> fst e < aq_next_seq q) \<and>
     0 < aq_next_seq q \<and> aq_next_seq q < 2 ^ 64 \<and>
     distinct (map entry_key (aq_entries q)) \<and>
     set (aq_seen q) = entry_key ` set (aq_entries q) \<and> distinct (aq_seen q) \<and>
     length (aq_entries q) \<le> aq_cap q \<and>
     (\<forall>e \<in> set (aq_entries q). entry_ok (aq_published q) (entry_key e) (snd (snd e)))"

lemma queue_ok_new: "queue_ok (alert_queue_new cap)"
  by (simp add: queue_ok_def alert_queue_new_def)

lemma queue_append_simps [simp]:
  "aq_published (queue_append q key ev) = aq_published q" "aq_cap (queue_append q key ev) = aq_cap q"
  "aq_next_seq (queue_append q key ev) = (aq_next_seq q + 1) mod 2 ^ 64"
  "aq_entries (queue_append q key ev) =
     drop (length (aq_entries q) + 1 - aq_cap q) (aq_entries q @ [(aq_next_seq q, key, ev)])"
  using evict_to_entries [of "aq_cap q" "aq_entries q @ [(aq_next_seq q, key, ev)]" "aq_seen q"]
  by (simp_all add: queue_append_def Let_def split_beta)

lemma queue_append_seen:
  "set (aq_seen (queue_append q key ev)) =
     set (aq_seen q) - entry_key ` set (take (length (aq_entries q) + 1 - aq_cap q) (aq_entries q @ [(aq_next_seq q, key, ev)]))"
  "distinct (aq_seen q) \<Longrightarrow> distinct (aq_seen (queue_append q key ev))"
  using evict_to_seen [of "aq_cap q" "aq_entries q @ [(aq_next_seq q, key, ev)]" "aq_seen q"]
    evict_to_distinct [of "aq_seen q" "aq_cap q" "aq_entries q @ [(aq_next_seq q, key, ev)]"]
  by (simp_all add: queue_append_def Let_def split_beta)

text \<open>Appending an event under a key that no entry has and that \<open>seen\<close> already holds.\<close>

lemma keys_after_eviction:
  assumes "distinct (map f es)"
  shows "f ` set es - f ` set (take n es) = f ` set (drop n es)"
proof -
  have "distinct (map f (take n es) @ map f (drop n es))" using assms by (metis append_take_drop_id map_append)
  then have "f ` set (take n es) \<inter> f ` set (drop n es) = {}" by simp
  moreover have "f ` set es = f ` set (take n es) \<union> f ` set (drop n es)"
    by (metis append_take_drop_id image_Un set_append)
  ultimately show ?thesis by blast
qed

lemma queue_append_ok:
  assumes "queue_ok (q\<lparr>aq_seen := seen\<rparr>)" and "key \<notin> entry_key ` set (aq_entries q)"
    and "set (aq_seen q) = insert key (entry_key ` set (aq_entries q))" and "distinct (aq_seen q)"
    and "aq_next_seq q + 1 < 2 ^ 64" and "entry_ok (aq_published q) key ev"
  shows "queue_ok (queue_append q key ev)"
proof -
  define es where "es = aq_entries q @ [(aq_next_seq q, key, ev)]"
  define n where "n = length (aq_entries q) + 1 - aq_cap q"
  let ?q = "queue_append q key ev"
  have e: "aq_entries ?q = drop n es" by (simp add: es_def n_def)
  have d: "distinct (map entry_key es)" using assms(1,2) by (auto simp: queue_ok_def es_def)
  have s: "sorted_wrt (<) (map fst es)" using assms(1) by (auto simp: queue_ok_def es_def sorted_wrt_append)
  have a: "\<forall>e \<in> set es. 0 < fst e \<and> fst e < aq_next_seq q + 1 \<and> entry_ok (aq_published q) (entry_key e) (snd (snd e))"
    using assms(1,6) by (auto simp: queue_ok_def es_def less_Suc_eq)
  have sub: "set (drop n es) \<subseteq> set es" by (rule set_drop_subset)
  have "set (aq_seen ?q) = entry_key ` set (drop n es)"
    unfolding queue_append_seen(1) using keys_after_eviction [OF d, of n] by (simp add: assms(3) es_def n_def)
  moreover have "sorted_wrt (<) (map fst (drop n es))" using s by (metis drop_map sorted_wrt_drop)
  moreover have "distinct (map entry_key (drop n es))" using d by (metis distinct_drop drop_map)
  moreover have "length (drop n es) \<le> aq_cap q" by (simp add: es_def n_def)
  moreover have "distinct (aq_seen ?q)" by (rule queue_append_seen(2) [OF assms(4)])
  moreover have "aq_next_seq ?q = aq_next_seq q + 1" using assms(5) by simp
  ultimately show ?thesis
    unfolding queue_ok_def e using assms(5) a sub by (auto simp del: length_drop)
qed

lemma queue_push_ok:
  assumes "queue_ok q" "lower_hex (al_spend_txid a)" "aq_next_seq q + 1 < 2 ^ 64"
  shows "queue_ok (snd (queue_push q a))"
proof (cases "alert_key a \<in> set (aq_seen q)")
  case True
  with assms(1) show ?thesis by (simp add: queue_push_def)
next
  case False
  have "queue_ok (queue_append (q\<lparr>aq_seen := alert_key a # aq_seen q\<rparr>) (alert_key a) (Watchtower a))"
    using assms False by (intro queue_append_ok [where seen = "aq_seen q"]) (auto simp: queue_ok_def)
  with False show ?thesis by (simp add: queue_push_def Let_def)
qed

lemma entry_ok_other_peer:
  "entry_ok pub k ev \<Longrightarrow> k \<noteq> freshness_key p \<Longrightarrow> entry_ok (hm_insert p x pub) k ev"
  by (cases ev) (auto simp: hm_get_insert)

lemma queue_ok_without_peer:
  assumes "queue_ok q"
  shows "queue_ok (q\<lparr>aq_published := hm_insert p pub (aq_published q), aq_entries := remove_first (freshness_key p) (aq_entries q),
    aq_seen := removeAll (freshness_key p) (aq_seen q)\<rparr>)"
proof -
  let ?es = "aq_entries q"
  have r: "remove_first (freshness_key p) ?es = filter (\<lambda>e. entry_key e \<noteq> freshness_key p) ?es"
    using assms by (intro remove_first_filter) (simp add: queue_ok_def)
  have "length (filter (\<lambda>e. entry_key e \<noteq> freshness_key p) ?es) \<le> aq_cap q"
    using assms length_filter_le le_trans unfolding queue_ok_def by blast
  moreover have "set (aq_seen q) - {freshness_key p} = entry_key ` {e \<in> set ?es. entry_key e \<noteq> freshness_key p}"
    using assms by (auto simp: queue_ok_def)
  moreover have "\<forall>e \<in> set ?es. entry_key e \<noteq> freshness_key p \<longrightarrow>
      entry_ok (hm_insert p pub (aq_published q)) (entry_key e) (snd (snd e))"
    using assms entry_ok_other_peer unfolding queue_ok_def by blast
  ultimately show ?thesis
    using assms unfolding queue_ok_def r
    by (simp add: distinct_map_filter sorted_wrt_map sorted_wrt_filter distinct_removeAll)
qed

lemma publish_freshness_ok:
  assumes "queue_ok q" "aq_next_seq q + 1 < 2 ^ 64"
  shows "queue_ok (publish_freshness q ev pub)"
proof -
  let ?p = "fe_peer_node_id ev" and ?k = "freshness_key (fe_peer_node_id ev)"
  let ?q = "q\<lparr>aq_published := hm_insert ?p pub (aq_published q), aq_entries := remove_first ?k (aq_entries q),
    aq_seen := (if ?k \<in> set (aq_seen q) then aq_seen q else ?k # aq_seen q)\<rparr>"
  have w: "queue_ok (?q\<lparr>aq_seen := removeAll ?k (aq_seen q)\<rparr>)" using queue_ok_without_peer [OF assms(1), of ?p pub] by simp
  then have "entry_key ` set (aq_entries ?q) = set (aq_seen q) - {?k}" by (simp add: queue_ok_def)
  moreover have "distinct (aq_seen q)" using assms(1) by (simp add: queue_ok_def)
  ultimately have "queue_ok (queue_append ?q ?k (ChannelFreshness (ev\<lparr>fe_reject_count := pf_reject_count pub\<rparr>)))"
    using assms(2) by (intro queue_append_ok [OF w]) (auto simp: hm_get_insert)
  then show ?thesis by (simp add: publish_freshness_def Let_def)
qed

lemma queue_ok_update_peer:
  assumes "queue_ok q"
  shows "queue_ok (q\<lparr>aq_published := hm_insert (fe_peer_node_id ev) (p\<lparr>pf_reject_count := fe_reject_count ev\<rparr>) (aq_published q),
    aq_entries := replace_first (freshness_key (fe_peer_node_id ev)) (ChannelFreshness ev) (aq_entries q)\<rparr>)"
proof -
  let ?g = "\<lambda>(seq, k, old). (seq, k, if k = freshness_key (fe_peer_node_id ev) then ChannelFreshness ev else old)"
  have r: "replace_first (freshness_key (fe_peer_node_id ev)) (ChannelFreshness ev) (aq_entries q) = map ?g (aq_entries q)"
    using assms by (intro replace_first_map) (simp add: queue_ok_def)
  have g: "fst (?g e) = fst e" "entry_key (?g e) = entry_key e" for e by (simp_all split: prod.splits)
  have "map fst (map ?g (aq_entries q)) = map fst (aq_entries q)" "map entry_key (map ?g (aq_entries q)) = map entry_key (aq_entries q)"
    by (simp_all add: g)
  moreover have "entry_key ` set (map ?g (aq_entries q)) = entry_key ` set (aq_entries q)" by (simp add: image_image g)
  moreover have "entry_ok (hm_insert (fe_peer_node_id ev) (p\<lparr>pf_reject_count := fe_reject_count ev\<rparr>) (aq_published q))
      (entry_key (?g e)) (snd (snd (?g e)))" if "entry_ok (aq_published q) (entry_key e) (snd (snd e))" for e
    using that by (auto simp: hm_get_insert intro: entry_ok_other_peer split: prod.splits)
  ultimately show ?thesis using assms unfolding queue_ok_def r by (auto simp: g simp del: map_map)
qed

lemma record_freshness_ok:
  "queue_ok q \<Longrightarrow> aq_next_seq q + 1 < 2 ^ 64 \<Longrightarrow> queue_ok (record_freshness q ev h)"
  by (simp add: record_freshness_def publish_freshness_ok queue_ok_update_peer split: option.split)

fun op_ok :: "queue_op \<Rightarrow> bool" where
  "op_ok (PushAlert a) = lower_hex (al_spend_txid a)"
| "op_ok (RecordFreshness ev h) = True"

lemma queue_step_ok:
  "queue_ok q \<Longrightarrow> op_ok x \<Longrightarrow> aq_next_seq q + 1 < 2 ^ 64 \<Longrightarrow> queue_ok (queue_step q x)"
  by (cases x) (simp_all add: queue_push_ok record_freshness_ok)

lemma queue_step_next_seq:
  "aq_next_seq q + 1 < 2 ^ 64 \<Longrightarrow> aq_next_seq (queue_step q x) \<in> {aq_next_seq q, aq_next_seq q + 1}"
  by (cases x) (auto simp: queue_push_def record_freshness_def publish_freshness_def Let_def split: option.split)

lemma queue_step_cap [simp]: "aq_cap (queue_step q x) = aq_cap q"
  by (cases x) (auto simp: queue_push_def record_freshness_def publish_freshness_def Let_def split: option.split)

lemma queue_run_cap [simp]: "aq_cap (queue_run q ops) = aq_cap q"
  by (induction ops arbitrary: q) simp_all

lemma queue_run_ok:
  "queue_ok q \<Longrightarrow> list_all op_ok ops \<Longrightarrow> aq_next_seq q + length ops < 2 ^ 64 \<Longrightarrow>
   queue_ok (queue_run q ops) \<and> aq_next_seq q \<le> aq_next_seq (queue_run q ops) \<and>
   aq_next_seq (queue_run q ops) \<le> aq_next_seq q + length ops"
proof (induction ops arbitrary: q)
  case Nil
  then show ?case by simp
next
  case (Cons x ops)
  then have n: "aq_next_seq (queue_step q x) \<in> {aq_next_seq q, aq_next_seq q + 1}" "queue_ok (queue_step q x)"
    using queue_step_next_seq [of q x] queue_step_ok [of q x] by simp_all
  then have "aq_next_seq (queue_step q x) + length ops < 2 ^ 64" using Cons.prems(3) by auto
  with Cons.IH [OF n(2)] Cons.prems(2) n(1) show ?case by auto
qed

subsection \<open>Retention and delivery\<close>

lemma sorted_seq_room:
  fixes xs :: "nat list"
  assumes "sorted_wrt (<) xs" and "\<forall>x \<in> set xs. x < n" and "i < length xs"
  shows "length xs - i \<le> n - xs ! i"
proof -
  have "set (drop i xs) \<subseteq> {xs ! i..<n}"
  proof
    fix x
    assume "x \<in> set (drop i xs)"
    then obtain j where "x = xs ! (i + j)" "i + j < length xs" by (auto simp: in_set_conv_nth)
    with assms sorted_wrt_nth_less [OF assms(1), of i "i + j"] show "x \<in> {xs ! i..<n}" by (cases j) auto
  qed
  then have "card (set (drop i xs)) \<le> n - xs ! i" using card_mono [of "{xs ! i..<n}"] by simp
  moreover have "distinct xs" using assms(1) by (simp add: strict_sorted_iff)
  ultimately show ?thesis by (simp add: distinct_card)
qed

lemma queue_append_keeps:
  assumes "queue_ok (q\<lparr>aq_seen := seen\<rparr>)" and "e \<in> set (aq_entries q)" and "aq_next_seq q < fst e + aq_cap q"
  shows "e \<in> set (aq_entries (queue_append q key ev))"
proof -
  let ?es = "aq_entries q"
  obtain i where i: "i < length ?es" "e = ?es ! i" using assms(2) by (auto simp: in_set_conv_nth)
  have "length (map fst ?es) - i \<le> aq_next_seq q - map fst ?es ! i"
    using assms(1) i(1) by (intro sorted_seq_room) (auto simp: queue_ok_def)
  then have n: "length ?es + 1 - aq_cap q \<le> i" using i assms(3) by simp
  then have "e = drop (length ?es + 1 - aq_cap q) ?es ! (i - (length ?es + 1 - aq_cap q))" using i by simp
  moreover have "i - (length ?es + 1 - aq_cap q) < length (drop (length ?es + 1 - aq_cap q) ?es)" using i(1) n by simp
  ultimately have "e \<in> set (drop (length ?es + 1 - aq_cap q) ?es)" by (metis nth_mem)
  then show ?thesis by simp
qed

lemma publish_freshness_keeps:
  assumes "queue_ok q" and "(s, k, Watchtower a) \<in> set (aq_entries q)" and "aq_next_seq q < s + aq_cap q"
  shows "(s, k, Watchtower a) \<in> set (aq_entries (publish_freshness q ev pub))"
proof -
  let ?p = "fe_peer_node_id ev" and ?k = "freshness_key (fe_peer_node_id ev)"
  let ?q = "q\<lparr>aq_published := hm_insert ?p pub (aq_published q), aq_entries := remove_first ?k (aq_entries q),
    aq_seen := (if ?k \<in> set (aq_seen q) then aq_seen q else ?k # aq_seen q)\<rparr>"
  have w: "queue_ok (?q\<lparr>aq_seen := removeAll ?k (aq_seen q)\<rparr>)" using queue_ok_without_peer [OF assms(1), of ?p pub] by simp
  have "k = alert_key a" "lower_hex (al_spend_txid a)" using assms(1,2) by (fastforce simp: queue_ok_def)+
  then have "k \<noteq> ?k" using alert_key_not_freshness by simp
  moreover have "remove_first ?k (aq_entries q) = filter (\<lambda>e. entry_key e \<noteq> ?k) (aq_entries q)"
    using assms(1) by (intro remove_first_filter) (simp add: queue_ok_def)
  ultimately have "(s, k, Watchtower a) \<in> set (aq_entries ?q)" using assms(2) by simp
  with queue_append_keeps [OF w, of "(s, k, Watchtower a)"] assms(3) show ?thesis
    by (simp add: publish_freshness_def Let_def)
qed

lemma update_peer_keeps:
  assumes "queue_ok q" and "(s, k, Watchtower a) \<in> set (aq_entries q)"
  shows "(s, k, Watchtower a) \<in> set (replace_first (freshness_key p) ev (aq_entries q))"
proof -
  have "k = alert_key a" "lower_hex (al_spend_txid a)" using assms by (fastforce simp: queue_ok_def)+
  then have "k \<noteq> freshness_key p" using alert_key_not_freshness by simp
  moreover have "replace_first (freshness_key p) ev (aq_entries q) =
      map (\<lambda>(seq, k, old). (seq, k, if k = freshness_key p then ev else old)) (aq_entries q)"
    using assms(1) by (intro replace_first_map) (simp add: queue_ok_def)
  ultimately show ?thesis using assms(2) by force
qed

lemma queue_step_keeps:
  assumes "queue_ok q" and "(s, k, Watchtower a) \<in> set (aq_entries q)"
    and "aq_next_seq q + 1 < 2 ^ 64" and "aq_next_seq (queue_step q x) \<le> s + aq_cap q"
  shows "(s, k, Watchtower a) \<in> set (aq_entries (queue_step q x))"
proof (cases x)
  case (PushAlert b)
  have "queue_ok (q\<lparr>aq_seen := alert_key b # aq_seen q, aq_seen := aq_seen q\<rparr>)" using assms(1) by simp
  with queue_append_keeps [where q = "q\<lparr>aq_seen := alert_key b # aq_seen q\<rparr>" and seen = "aq_seen q" and e = "(s, k, Watchtower a)"
      and key = "alert_key b" and ev = "Watchtower b"] assms PushAlert show ?thesis
    by (auto simp: queue_push_def Let_def)
next
  case (RecordFreshness ev h)
  have n: "aq_next_seq (publish_freshness q ev pub) = aq_next_seq q + 1" for pub
    using assms(3) by (simp add: publish_freshness_def Let_def)
  show ?thesis
    using assms RecordFreshness publish_freshness_keeps [OF assms(1,2)] update_peer_keeps [OF assms(1,2)]
    by (auto simp: record_freshness_def n split: option.splits if_splits)
qed

lemma queue_run_keeps:
  "queue_ok q \<Longrightarrow> list_all op_ok ops \<Longrightarrow> aq_next_seq q + length ops < 2 ^ 64 \<Longrightarrow>
   (s, k, Watchtower a) \<in> set (aq_entries q) \<Longrightarrow> aq_next_seq (queue_run q ops) \<le> s + aq_cap q \<Longrightarrow>
   (s, k, Watchtower a) \<in> set (aq_entries (queue_run q ops))"
proof (induction ops arbitrary: q)
  case Nil
  then show ?case by simp
next
  case (Cons x ops)
  then have n: "aq_next_seq (queue_step q x) \<in> {aq_next_seq q, aq_next_seq q + 1}" "queue_ok (queue_step q x)"
    using queue_step_next_seq [of q x] queue_step_ok [of q x] by simp_all
  then have l: "aq_next_seq (queue_step q x) + length ops < 2 ^ 64" using Cons.prems(3) by auto
  have "aq_next_seq (queue_step q x) \<le> aq_next_seq (queue_run (queue_step q x) ops)"
    using queue_run_ok [OF n(2) _ l] Cons.prems(2) by simp
  with Cons.prems have "(s, k, Watchtower a) \<in> set (aq_entries (queue_step q x))"
    by (intro queue_step_keeps) auto
  with Cons.IH [OF n(2) _ l] Cons.prems show ?case by simp
qed

lemma count_unique_event:
  "distinct (map entry_key es) \<Longrightarrow> (s, k, ev) \<in> set es \<Longrightarrow> (\<And>e. e \<in> set es \<Longrightarrow> snd (snd e) = ev \<Longrightarrow> entry_key e = k) \<Longrightarrow>
   count_list (map (\<lambda>e. snd (snd e)) (filter (\<lambda>e. c < fst e) es)) ev = (if c < s then 1 else 0)"
proof (induction es)
  case Nil
  then show ?case by simp
next
  case (Cons e es)
  show ?case
  proof (cases "snd (snd e) = ev")
    case True
    with Cons.prems(3) have k: "entry_key e = k" by simp
    have "(s, k, ev) \<notin> set es"
    proof
      assume "(s, k, ev) \<in> set es"
      then have "entry_key e \<in> entry_key ` set es" using k by (metis fst_conv image_eqI snd_conv)
      with Cons.prems(1) show False by simp
    qed
    with Cons.prems(2) have e: "e = (s, k, ev)" by simp
    have "snd (snd e') \<noteq> ev" if m: "e' \<in> set es" for e'
    proof
      assume "snd (snd e') = ev"
      then have "entry_key e' = k" using Cons.prems(3) [of e'] m by simp
      then have "entry_key e \<in> entry_key ` set es" using k m by (metis image_eqI)
      with Cons.prems(1) show False by simp
    qed
    then have "count_list (map (\<lambda>e. snd (snd e)) (filter (\<lambda>e. c < fst e) es)) ev = 0"
      by (force simp: count_list_0_iff)
    then show ?thesis by (simp add: e)
  next
    case False
    with Cons.prems Cons.IH show ?thesis by (cases e) auto
  qed
qed

lemma queue_cursor_ok: "queue_ok q \<Longrightarrow> queue_cursor q = aq_next_seq q - 1"
proof -
  assume "queue_ok q"
  then have "aq_next_seq q + 2 ^ 64 - 1 = (aq_next_seq q - 1) + 2 ^ 64" "aq_next_seq q - 1 < 2 ^ 64" by (auto simp: queue_ok_def)
  then show ?thesis unfolding queue_cursor_def by (metis mod_add_self2 mod_less)
qed

lemma queue_push_new:
  assumes "queue_ok q" "queue_push q a = (True, q1)" "0 < aq_cap q" "aq_next_seq q + 1 < 2 ^ 64"
  shows "(aq_next_seq q, alert_key a, Watchtower a) \<in> set (aq_entries q1)" "aq_next_seq q1 = aq_next_seq q + 1" "aq_cap q1 = aq_cap q"
proof -
  have q1: "q1 = queue_append (q\<lparr>aq_seen := alert_key a # aq_seen q\<rparr>) (alert_key a) (Watchtower a)"
    using assms(2) by (simp add: queue_push_def Let_def split: if_splits)
  show "aq_next_seq q1 = aq_next_seq q + 1" "aq_cap q1 = aq_cap q" using assms(4) by (simp_all add: q1)
  have "length (aq_entries q) + 1 - aq_cap q \<le> length (aq_entries q)" using assms(3) by simp
  then show "(aq_next_seq q, alert_key a, Watchtower a) \<in> set (aq_entries q1)" by (simp add: q1)
qed

lemma alert_entry_unique:
  assumes "queue_ok q" and "(s, alert_key a, Watchtower a) \<in> set (aq_entries q)"
  shows "count_list (fst (queue_since q c)) (Watchtower a) = (if c < s then 1 else 0)"
proof -
  have "entry_key e = alert_key a" if "e \<in> set (aq_entries q)" "snd (snd e) = Watchtower a" for e
    using assms(1) that by (auto simp: queue_ok_def dest!: bspec)
  with assms show ?thesis
    unfolding queue_since_def fst_conv split_beta by (intro count_unique_event [where k = "alert_key a"]) (auto simp: queue_ok_def)
qed

text \<open>C29: a client that pulls events with its cursor gets every alert exactly once. Take any queue
  that the node's writers have built, an alert that is newly enqueued on it, and any further alerts and
  freshness diagnostics. As long as at most \<open>cap\<close> events were appended since the alert, a pull whose
  cursor is from before the alert returns it once, and a pull whose cursor is at or past it does not
  return it again.\<close>

theorem alert_delivered_once:
  assumes "q = queue_run (alert_queue_new cap) history" and "list_all op_ok history"
    and "queue_push q a = (True, q1)" and "lower_hex (al_spend_txid a)"
    and "q2 = queue_run q1 later" and "list_all op_ok later"
    and "length history + length later + 2 < 2 ^ 64"
    and "queue_cursor q2 \<le> queue_cursor q + cap"
  shows "count_list (fst (queue_since q2 c)) (Watchtower a) = (if c \<le> queue_cursor q then 1 else 0)"
proof -
  have cap: "aq_cap q = cap" by (simp add: assms(1) alert_queue_new_def)
  have q: "queue_ok q" "aq_next_seq q \<le> 1 + length history"
    using queue_run_ok [OF queue_ok_new, of history cap] assms(1,2,7) by (simp_all add: alert_queue_new_def)
  have n: "aq_next_seq q + 1 < 2 ^ 64" using q(2) assms(7) by simp
  have q1: "queue_ok q1" using queue_push_ok [OF q(1) assms(4) n] assms(3) by simp
  have n1: "aq_next_seq q1 = aq_next_seq q + 1" "aq_cap q1 = cap"
    using assms(3) n cap by (auto simp: queue_push_def Let_def split: if_splits)
  have l: "aq_next_seq q1 + length later < 2 ^ 64" using n1(1) q(2) assms(7) by simp
  have q2: "queue_ok q2" "aq_next_seq q1 \<le> aq_next_seq q2" using queue_run_ok [OF q1 assms(6) l] assms(5) by simp_all
  have s: "0 < aq_next_seq q" using q(1) by (simp add: queue_ok_def)
  have "aq_next_seq q2 \<le> aq_next_seq q + cap" and "0 < aq_cap q"
    using assms(8) q2(2) n1 cap s queue_cursor_ok [OF q(1)] queue_cursor_ok [OF q2(1)] by auto
  with queue_run_keeps [OF q1 assms(6) l queue_push_new(1) [OF q(1) assms(3) _ n]] n1(2) assms(5)
  have "(aq_next_seq q, alert_key a, Watchtower a) \<in> set (aq_entries q2)" by simp
  from alert_entry_unique [OF q2(1) this, of c] s show ?thesis by (auto simp: queue_cursor_ok [OF q(1)])
qed

definition demo_alert :: "string \<Rightarrow> alert" where
  "demo_alert t = \<lparr>al_kind = UnrecognizedSpend, al_spend_txid = t, al_outpoint = ''0a:1'', al_script = ''00''\<rparr>"

definition demo_stale :: "node_id \<Rightarrow> u64 \<Rightarrow> freshness_event" where
  "demo_stale p n = \<lparr>fe_peer_node_id = p, fe_reject_count = n, fe_skew_secs = - 400\<rparr>"

definition demo_history :: "queue_op list" where
  "demo_history = [RecordFreshness (demo_stale 3 1) 1000, PushAlert (demo_alert ''0b'')]"

definition demo_later :: "queue_op list" where
  "demo_later = [RecordFreshness (demo_stale 3 2) 1000, RecordFreshness (demo_stale 4 1) 1000, PushAlert (demo_alert ''0c'')]"

lemma demo_keys:
  "alert_key (demo_alert t) = alert_key (demo_alert t') \<longleftrightarrow> t = t'"
  "lower_hex t \<Longrightarrow> alert_key (demo_alert t) \<noteq> freshness_key p" "lower_hex t \<Longrightarrow> freshness_key p \<noteq> alert_key (demo_alert t)"
  using alert_key_not_freshness [of "demo_alert t" p] by (auto simp: alert_key_def demo_alert_def)

lemmas demo_queue_simps = demo_keys demo_stale_def lower_hex_def alert_queue_new_def queue_push_def record_freshness_def
  publish_freshness_def queue_append_def Let_def hm_get_def hm_insert_def

text \<open>With room for two events: the second alert is returned once although a third event was appended.\<close>

theorem alert_delivered_once_witness:
  "let q = queue_run (alert_queue_new 2) demo_history; q1 = snd (queue_push q (demo_alert ''0c''));
       q2 = queue_run q1 demo_later
   in queue_cursor q = 2 \<and> queue_cursor q2 = 4 \<and>
      count_list (fst (queue_since q2 2)) (Watchtower (demo_alert ''0c'')) = 1 \<and>
      count_list (fst (queue_since q2 3)) (Watchtower (demo_alert ''0c'')) = 0"
proof -
  let ?q = "queue_run (alert_queue_new 2) demo_history" and ?a = "demo_alert ''0c''"
  let ?q1 = "snd (queue_push ?q ?a)"
  let ?q2 = "queue_run ?q1 demo_later"
  have p: "queue_push ?q ?a = (True, ?q1)" and c: "queue_cursor ?q = 2" "queue_cursor ?q2 = 4"
    and o: "list_all op_ok demo_history" "list_all op_ok demo_later" "lower_hex (al_spend_txid ?a)"
      "length demo_history + length demo_later + 2 < 2 ^ 64"
    by (simp_all add: demo_history_def demo_later_def demo_queue_simps queue_cursor_def) (simp_all add: demo_alert_def)
  have "count_list (fst (queue_since ?q2 d)) (Watchtower ?a) = (if d \<le> queue_cursor ?q then 1 else 0)" for d
    by (rule alert_delivered_once [OF refl o(1) p o(3) refl o(2) o(4)]) (simp add: c)
  from this [of 2] this [of 3] c show ?thesis by simp
qed

subsection \<open>A peer whose clock is off\<close>

text \<open>The peers for which an event at high-water \<open>h\<close> would still be published.\<close>

definition unpublished :: "alert_queue \<Rightarrow> u64 \<Rightarrow> node_id \<Rightarrow> bool" where
  "unpublished q h p = (case hm_get (aq_published q) p of None \<Rightarrow> True | Some pub \<Rightarrow> pf_ingress_high_water pub < h)"

lemma record_freshness_latched:
  assumes "aq_next_seq q + 1 < 2 ^ 64"
  shows "aq_next_seq (record_freshness q ev h) = aq_next_seq q + (if unpublished q h (fe_peer_node_id ev) then 1 else 0)"
    and "unpublished (record_freshness q ev h) h p \<longleftrightarrow> unpublished q h p \<and> p \<noteq> fe_peer_node_id ev"
  using assms
  by (auto simp: record_freshness_def publish_freshness_def unpublished_def Let_def hm_get_insert split: option.splits)

lemma latched_advance:
  "aq_next_seq q + length evs < 2 ^ 64 \<Longrightarrow>
   aq_next_seq (queue_run q (map (\<lambda>ev. RecordFreshness ev h) evs)) =
     aq_next_seq q + card {p \<in> fe_peer_node_id ` set evs. unpublished q h p}"
proof (induction evs arbitrary: q)
  case Nil
  then show ?case by simp
next
  case (Cons ev evs)
  let ?p = "fe_peer_node_id ev" and ?q = "record_freshness q ev h"
  let ?S = "{p \<in> fe_peer_node_id ` set evs. unpublished ?q h p}"
  have n: "aq_next_seq q + 1 < 2 ^ 64" using Cons.prems by simp
  note r = record_freshness_latched [OF n, of ev h]
  have "{p \<in> fe_peer_node_id ` set (ev # evs). unpublished q h p} = (if unpublished q h ?p then insert ?p ?S else ?S)"
    by (auto simp: r(2))
  moreover have "?p \<notin> ?S" "finite ?S" by (auto simp: r(2))
  moreover have "aq_next_seq ?q + length evs < 2 ^ 64" using Cons.prems by (simp add: r(1))
  ultimately show ?case using Cons.IH [of ?q] by (simp add: r(1))
qed

text \<open>C40: a clock outage does not push alerts out of the queue. While the node's freshness high-water
  stands still, any number of stale envelopes from any number of peers appends at most one event per
  peer, so the queue loses no alert that still has as many free places behind it as there are peers.\<close>

theorem latched_outage_bounded:
  assumes "q = queue_run (alert_queue_new cap) history" and "list_all op_ok history"
    and "q2 = queue_run q (map (\<lambda>ev. RecordFreshness ev h) stale)"
    and "length history + length stale + 2 < 2 ^ 64"
  shows "queue_cursor q2 \<le> queue_cursor q + card (fe_peer_node_id ` set stale) \<and>
    (\<forall>s a. (s, alert_key a, Watchtower a) \<in> set (aq_entries q) \<longrightarrow> queue_cursor q + card (fe_peer_node_id ` set stale) < s + cap \<longrightarrow>
       (s, alert_key a, Watchtower a) \<in> set (aq_entries q2))"
proof -
  let ?P = "fe_peer_node_id ` set stale" and ?ops = "map (\<lambda>ev. RecordFreshness ev h) stale"
  have q: "queue_ok q" "aq_next_seq q \<le> 1 + length history" "aq_cap q = cap"
    using queue_run_ok [OF queue_ok_new, of history cap] assms(1,2,4) by (simp_all add: alert_queue_new_def)
  have n: "aq_next_seq q + length ?ops < 2 ^ 64" using q(2) assms(4) by simp
  have ops: "list_all op_ok ?ops" by (simp add: list_all_iff)
  have q2: "queue_ok q2" using queue_run_ok [OF q(1) ops n] assms(3) by simp
  have "aq_next_seq q2 \<le> aq_next_seq q + card ?P"
    using latched_advance [of q stale h] n assms(3) card_mono [of ?P "{p \<in> ?P. unpublished q h p}"] by auto
  moreover have "0 < aq_next_seq q" "0 < aq_next_seq q2" using q(1) q2 by (simp_all add: queue_ok_def)
  ultimately show ?thesis
    using queue_run_keeps [OF q(1) ops n] q(3)
    unfolding queue_cursor_ok [OF q(1)] queue_cursor_ok [OF q2] by (auto simp: assms(3))
qed

theorem latched_outage_bounded_witness:
  "let q = queue_run (alert_queue_new 4) [PushAlert (demo_alert ''0c'')];
       q2 = queue_run q (map (\<lambda>ev. RecordFreshness ev 1000) (map (\<lambda>n. demo_stale (word_of_nat (n mod 2)) n) [1, 2, 3, 4, 5, 6]))
   in queue_cursor q2 \<le> queue_cursor q + 2 \<and>
      (1, alert_key (demo_alert ''0c''), Watchtower (demo_alert ''0c'')) \<in> set (aq_entries q2)"
proof -
  let ?ops = "[PushAlert (demo_alert ''0c'')]"
  let ?q = "queue_run (alert_queue_new 4) ?ops" and ?st = "map (\<lambda>n. demo_stale (word_of_nat (n mod 2)) n) [1, 2, 3, 4, 5, 6]"
  have o: "list_all op_ok ?ops" "length ?ops + length ?st + 2 < 2 ^ 64" by (simp_all add: lower_hex_def demo_alert_def)
  have e: "(1, alert_key (demo_alert ''0c''), Watchtower (demo_alert ''0c'')) \<in> set (aq_entries ?q)" "queue_cursor ?q = 1"
    by (simp_all add: demo_queue_simps queue_cursor_def)
  have "fe_peer_node_id ` set ?st = {0, 1}" by (auto simp: demo_stale_def)
  then have "card (fe_peer_node_id ` set ?st) = 2" by simp
  with latched_outage_bounded [OF refl o(1) refl o(2), of 4 1000] e show ?thesis unfolding Let_def by auto
qed

end
