(* ===== verification/Core_Rpc.thy ===== *)
theory Core_Rpc
  imports Chain_View
begin

text \<open>
  The Bitcoin Core client of \<open>crates/vault-node/src/chain.rs\<close> (\<open>BitcoindBackend\<close>): how each method
  of the backend interface reads Core's JSON replies, and which replies it refuses. A reply is a JSON
  value; the transport, which posts a request and parses the body, is the argument \<open>core_rpc\<close> over an
  unknown world that every call may change; the text formats of rust-bitcoin are the argument
  \<open>core_api\<close>. The state of the backend object itself is the record \<open>core_state\<close>, paired with the
  world. Error texts are not modelled, only which error arises.
\<close>

subsection \<open>JSON\<close>

datatype json =
    JNull | JBool bool | JInt int | JFloat string | JStr string | JArr "json list" | JObj "(string \<times> json) list"

fun json_get :: "json \<Rightarrow> string \<Rightarrow> json option" where
  "json_get (JObj m) k = map_of m k"
| "json_get _ k = None"

text \<open>Indexing with a field name yields \<open>null\<close> where there is no such field.\<close>

definition json_at :: "json \<Rightarrow> string \<Rightarrow> json" where
  "json_at v k = (case json_get v k of None \<Rightarrow> JNull | Some x \<Rightarrow> x)"

fun as_str :: "json \<Rightarrow> string option" where
  "as_str (JStr s) = Some s"
| "as_str _ = None"

fun as_bool :: "json \<Rightarrow> bool option" where
  "as_bool (JBool b) = Some b"
| "as_bool _ = None"

fun as_u64 :: "json \<Rightarrow> nat option" where
  "as_u64 (JInt i) = (if 0 \<le> i \<and> i < 2 ^ 64 then Some (nat i) else None)"
| "as_u64 _ = None"

fun as_i64 :: "json \<Rightarrow> int option" where
  "as_i64 (JInt i) = (if - (2 ^ 63) \<le> i \<and> i < 2 ^ 63 then Some i else None)"
| "as_i64 _ = None"

fun as_array :: "json \<Rightarrow> json list option" where
  "as_array (JArr xs) = Some xs"
| "as_array _ = None"

subsection \<open>Errors and formats\<close>

datatype core_error =
    Transport
  | RpcRefused string
  | BadReply string
  | TooLarge string
  | NotChained nat
  | NoLongerActive nat
  | BlockVanished nat
  | CacheCold
  | SnapshotMoved
  | BatchReplies
  | EmptyPackage
  | MalformedTx
  | ScanIncomplete
  | TipVanished nat
  | TipChanged nat
  | GappedCursor nat nat

record core_api =
  ca_script_of_hex :: "string \<Rightarrow> script option"
  ca_bytes_of_hex :: "string \<Rightarrow> bytes option"
  ca_txid_of_str :: "string \<Rightarrow> txid option"
  ca_hash_of_str :: "string \<Rightarrow> bytes option"
  ca_sats :: "json \<Rightarrow> u64 option"
  ca_hex :: "bytes \<Rightarrow> string"
  ca_show_txid :: "txid \<Rightarrow> string"
  ca_show_hash :: "bytes \<Rightarrow> string"
  ca_show_outpoint :: "outpoint \<Rightarrow> string"

type_synonym block_hash = bytes

definition io_opt :: "'e \<Rightarrow> 'a option \<Rightarrow> ('w, 'e, 'a) chain_io" where
  "io_opt e x = (case x of None \<Rightarrow> io_fail e | Some a \<Rightarrow> io_return a)"

definition io_res :: "'e + 'a \<Rightarrow> ('w, 'e, 'a) chain_io" where
  "io_res r = (case r of Inl e \<Rightarrow> io_fail e | Inr a \<Rightarrow> io_return a)"

definition io_guard :: "'e \<Rightarrow> bool \<Rightarrow> ('w, 'e, unit) chain_io" where
  "io_guard e b = (if b then io_return () else io_fail e)"

lemma io_lift_iff [simp]:
  "io_opt e x w = (Inr a, w') \<longleftrightarrow> x = Some a \<and> w' = w"
  "io_res r w = (Inr a, w') \<longleftrightarrow> r = Inr a \<and> w' = w"
  "io_guard e b w = (Inr u, w') \<longleftrightarrow> b \<and> w' = w"
  by (auto simp: io_opt_def io_res_def io_guard_def split: option.split sum.split)

definition opt_res :: "'e \<Rightarrow> 'a option \<Rightarrow> 'e + 'a" where
  "opt_res e x = (case x of None \<Rightarrow> Err e | Some a \<Rightarrow> Ok a)"

lemma opt_res_iff [simp]: "opt_res e x = Inr a \<longleftrightarrow> x = Some a"
  by (auto simp: opt_res_def split: option.split)

text \<open>A loop that collects, and ends at the first error.\<close>

fun collect_res :: "('a \<Rightarrow> 'e + 'b) \<Rightarrow> 'a list \<Rightarrow> 'e + 'b list" where
  "collect_res f [] = Ok []"
| "collect_res f (x # xs) = bind_res (f x) (\<lambda>y. bind_res (collect_res f xs) (\<lambda>ys. Ok (y # ys)))"

lemma collect_res_iff: "collect_res f xs = Inr ys \<longleftrightarrow> list_all2 (\<lambda>x y. f x = Inr y) xs ys"
proof (induction xs arbitrary: ys)
  case Nil
  then show ?case by auto
next
  case (Cons x xs)
  have "collect_res f (x # xs) = Inr ys \<longleftrightarrow> (\<exists>z zs. f x = Inr z \<and> collect_res f xs = Inr zs \<and> ys = z # zs)"
    by (auto simp: bind_res_def split: sum.split)
  then show ?case by (auto simp: Cons.IH list_all2_Cons1)
qed

subsection \<open>Calls\<close>

record 'w core_rpc =
  cr_post :: "string \<Rightarrow> json list \<Rightarrow> ('w, core_error, json) chain_io"
  cr_post_batch :: "(nat \<times> string \<times> json list) list \<Rightarrow> ('w, core_error, json list) chain_io"

definition call_reply :: "'w core_rpc \<Rightarrow> string \<Rightarrow> json list \<Rightarrow> ('w, core_error, json) chain_io" where
  "call_reply rpc method params = cr_post rpc method params"

definition call :: "'w core_rpc \<Rightarrow> string \<Rightarrow> json list \<Rightarrow> ('w, core_error, json) chain_io" where
  "call rpc method params =
     io_bind (call_reply rpc method params) (\<lambda>reply.
     if json_at reply ''error'' \<noteq> JNull then io_fail (RpcRefused method) else io_return (json_at reply ''result''))"

text \<open>A call whose error \<open>code\<close> means an ordinary absence.\<close>

definition call_absent :: "'w core_rpc \<Rightarrow> int \<Rightarrow> string \<Rightarrow> json list \<Rightarrow> ('w, core_error, json option) chain_io" where
  "call_absent rpc code method params =
     io_bind (call_reply rpc method params) (\<lambda>reply.
     if json_at reply ''error'' \<noteq> JNull
     then if as_i64 (json_at (json_at reply ''error'') ''code'') = Some code then io_return None else io_fail (RpcRefused method)
     else io_return (Some (json_at reply ''result'')))"

subsection \<open>Chain reads\<close>

definition tip_height :: "'w core_rpc \<Rightarrow> ('w, core_error, nat) chain_io" where
  "tip_height rpc =
     io_bind (call rpc ''getblockcount'' []) (\<lambda>r.
     io_bind (io_opt (BadReply ''getblockcount'') (as_u64 r)) (\<lambda>n. io_return (n mod 2 ^ 32)))"

definition block_median_feerate :: "'w core_rpc \<Rightarrow> nat \<Rightarrow> ('w, core_error, u64 option) chain_io" where
  "block_median_feerate rpc height =
     io_bind (call_absent rpc (- 8) ''getblockstats'' [JInt (int height), JArr [JStr ''feerate_percentiles'']]) (\<lambda>r. case r of
       None \<Rightarrow> io_return None
     | Some result \<Rightarrow>
         io_bind (io_opt (BadReply ''getblockstats'') (as_array (json_at result ''feerate_percentiles''))) (\<lambda>percentiles.
         io_bind (io_opt (BadReply ''getblockstats'') (if 2 < length percentiles then as_u64 (percentiles ! 2) else None)) (\<lambda>median.
         io_return (Some median))))"

definition block_hash_at :: "'w core_rpc \<Rightarrow> core_api \<Rightarrow> nat \<Rightarrow> ('w, core_error, block_hash option) chain_io" where
  "block_hash_at rpc api height =
     io_bind (call_absent rpc (- 8) ''getblockhash'' [JInt (int height)]) (\<lambda>r. case r of
       None \<Rightarrow> io_return None
     | Some result \<Rightarrow>
         io_bind (io_opt (BadReply ''getblockhash'') (as_str result)) (\<lambda>hash.
         io_bind (io_opt (BadReply ''getblockhash'') (ca_hash_of_str api hash)) (\<lambda>h. io_return (Some h))))"

definition best_block_hash :: "'w core_rpc \<Rightarrow> core_api \<Rightarrow> ('w, core_error, block_hash) chain_io" where
  "best_block_hash rpc api =
     io_bind (call rpc ''getbestblockhash'' []) (\<lambda>r.
     io_bind (io_opt (BadReply ''getbestblockhash'') (as_str r)) (\<lambda>text.
     io_opt (BadReply ''getbestblockhash'') (ca_hash_of_str api text)))"

definition u32_of :: "core_error \<Rightarrow> nat \<Rightarrow> core_error + 32 word" where
  "u32_of e n = (if n < 2 ^ 32 then Ok (word_of_nat n) else Err e)"

definition confirm_active_height :: "'w core_rpc \<Rightarrow> core_api \<Rightarrow> block_hash \<Rightarrow> ('w, core_error, nat) chain_io" where
  "confirm_active_height rpc api block =
     io_bind (call rpc ''getblockheader'' [JStr (ca_show_hash api block), JBool True]) (\<lambda>header.
     io_bind (io_opt (BadReply ''getblockheader'') (as_u64 (json_at header ''height''))) (\<lambda>height.
     io_bind (io_guard (TooLarge ''getblockheader'') (height < 2 ^ 32)) (\<lambda>_.
     io_bind (block_hash_at rpc api height) (\<lambda>h.
     if h \<noteq> Some block then io_fail (NoLongerActive height) else io_return height))))"

subsection \<open>The traversal of the watchtower\<close>

record spend_seen =
  sp_spend_txid :: txid
  sp_outpoint :: outpoint
  sp_script :: script
  sp_witness :: "bytes list"

record scan_traversal =
  tr_spends :: "spend_seen list"
  tr_blocks :: "(nat \<times> block_hash) list"

text \<open>The entries of an optional array; anything else counts as empty.\<close>

definition array_or_empty :: "json option \<Rightarrow> json list" where
  "array_or_empty v = (case v of None \<Rightarrow> [] | Some x \<Rightarrow> (case as_array x of None \<Rightarrow> [] | Some xs \<Rightarrow> xs))"

definition witness_items :: "core_api \<Rightarrow> json \<Rightarrow> core_error + bytes list" where
  "witness_items api vin =
     collect_res (\<lambda>item. bind_res (opt_res (BadReply ''getblock'') (as_str item)) (\<lambda>hex.
       opt_res (BadReply ''getblock'') (ca_bytes_of_hex api hex)))
     (array_or_empty (json_get vin ''txinwitness''))"

text \<open>What one input contributes to the scan.\<close>

definition spend_of_input :: "core_api \<Rightarrow> script list \<Rightarrow> string \<Rightarrow> json \<Rightarrow> core_error + spend_seen option" where
  "spend_of_input api watched spend_txid vin =
     (let bad = BadReply ''getblock'' in
      if json_get vin ''coinbase'' \<noteq> None then Ok None
      else bind_res (opt_res bad (json_get vin ''prevout'')) (\<lambda>prevout.
        bind_res (opt_res bad (as_str (json_at (json_at prevout ''scriptPubKey'') ''hex''))) (\<lambda>spk_hex.
        bind_res (opt_res bad (ca_script_of_hex api spk_hex)) (\<lambda>spk.
        if spk \<notin> set watched then Ok None
        else bind_res (opt_res bad (as_str (json_at vin ''txid''))) (\<lambda>prev_txid.
          bind_res (opt_res bad (as_u64 (json_at vin ''vout''))) (\<lambda>vout.
          bind_res (witness_items api vin) (\<lambda>witness.
          bind_res (opt_res bad (ca_txid_of_str api spend_txid)) (\<lambda>txid.
          bind_res (opt_res bad (ca_txid_of_str api prev_txid)) (\<lambda>prev.
          Ok (Some \<lparr>sp_spend_txid = txid, sp_outpoint = \<lparr>op_txid = prev, op_vout = word_of_nat vout\<rparr>,
                    sp_script = spk, sp_witness = witness\<rparr>))))))))))"

definition spends_of_tx :: "core_api \<Rightarrow> script list \<Rightarrow> json \<Rightarrow> core_error + spend_seen list" where
  "spends_of_tx api watched tx =
     bind_res (opt_res (BadReply ''getblock'') (as_str (json_at tx ''txid''))) (\<lambda>spend_txid.
     bind_res (collect_res (spend_of_input api watched spend_txid) (array_or_empty (Some (json_at tx ''vin'')))) (\<lambda>found.
     Ok (List.map_filter id found)))"

text \<open>The spends of a block, from the \<open>tx\<close> field of its reply.\<close>

definition spends_of_block :: "core_api \<Rightarrow> script list \<Rightarrow> json \<Rightarrow> core_error + spend_seen list" where
  "spends_of_block api watched txs_field =
     bind_res (opt_res (BadReply ''getblock'') (as_array txs_field)) (\<lambda>txs.
     bind_res (collect_res (spends_of_tx api watched) txs) (\<lambda>found. Ok (concat found)))"

definition check_parent :: "string option \<Rightarrow> nat \<Rightarrow> json \<Rightarrow> core_error + unit" where
  "check_parent required height block =
     (case required of
        None \<Rightarrow> Ok ()
      | Some req \<Rightarrow> bind_res (opt_res (BadReply ''getblock'') (as_str (json_at block ''previousblockhash''))) (\<lambda>parent.
          if parent \<noteq> req then Err (NotChained height) else Ok ()))"

definition hash_text_at :: "'w core_rpc \<Rightarrow> nat \<Rightarrow> ('w, core_error, string) chain_io" where
  "hash_text_at rpc height =
     io_bind (call rpc ''getblockhash'' [JInt (int height)]) (\<lambda>r. io_opt (BadReply ''getblockhash'') (as_str r))"

text \<open>One round of the loop: the text of the block's hash, the hash, and the spends in the block.\<close>

definition traverse_block ::
  "'w core_rpc \<Rightarrow> core_api \<Rightarrow> script list \<Rightarrow> string option \<Rightarrow> nat \<Rightarrow> ('w, core_error, string \<times> block_hash \<times> spend_seen list) chain_io" where
  "traverse_block rpc api watched required height =
     io_bind (hash_text_at rpc height) (\<lambda>hash.
     io_bind (call rpc ''getblock'' [JStr hash, JInt 3]) (\<lambda>block.
     io_bind (io_res (check_parent required height block)) (\<lambda>_.
     io_bind (io_opt (BadReply ''getblockhash'') (ca_hash_of_str api hash)) (\<lambda>h.
     io_bind (io_res (spends_of_block api watched (json_at block ''tx''))) (\<lambda>spends.
     io_return (hash, h, spends))))))"

text \<open>
  The loop. It returns the last block read, where there is one, with the text of its hash, and the
  traversal; a block's required parent is the block before it.
\<close>

fun traverse ::
  "'w core_rpc \<Rightarrow> core_api \<Rightarrow> script list \<Rightarrow> (nat \<times> string) option \<Rightarrow> string option \<Rightarrow> nat list
    \<Rightarrow> ('w, core_error, (nat \<times> string) option \<times> scan_traversal) chain_io" where
  "traverse rpc api watched scanned required [] = io_return (scanned, \<lparr>tr_spends = [], tr_blocks = []\<rparr>)"
| "traverse rpc api watched scanned required (height # hs) =
     io_bind (traverse_block rpc api watched required height) (\<lambda>(text, h, spends).
     io_bind (traverse rpc api watched (Some (height, text)) (Some text) hs) (\<lambda>(last_scanned, tr).
     io_return (last_scanned, \<lparr>tr_spends = spends @ tr_spends tr, tr_blocks = (height, h) # tr_blocks tr\<rparr>)))"

definition spends_of ::
  "'w core_rpc \<Rightarrow> core_api \<Rightarrow> script list \<Rightarrow> nat \<Rightarrow> nat \<Rightarrow> block_hash option \<Rightarrow> ('w, core_error, scan_traversal) chain_io" where
  "spends_of rpc api scripts from_height through_height expected_parent =
     io_bind (traverse rpc api scripts None (map_option (ca_show_hash api) expected_parent) [from_height..<through_height + 1])
       (\<lambda>(last_scanned, tr). case last_scanned of
          None \<Rightarrow> io_return tr
        | Some (height, text) \<Rightarrow>
            io_bind (call rpc ''getblockhash'' [JInt (int height)]) (\<lambda>active.
            if as_str active \<noteq> Some text then io_fail (NoLongerActive height) else io_return tr))"

subsection \<open>What a traversal proves\<close>

text \<open>
  Core's blocks as the client relies on them: a block's hash determines its parent and its
  transactions, the block at height 0 has no parent, and a displayed hash parses back. Confirmation
  counts and successors, which do change, are not read.
\<close>

definition core_blocks :: "'w core_rpc \<Rightarrow> core_api \<Rightarrow> (block_hash \<Rightarrow> json) \<Rightarrow> (block_hash \<Rightarrow> json) \<Rightarrow> bool" where
  "core_blocks rpc api prev txs \<longleftrightarrow>
     (\<forall>s h w b w'. call rpc ''getblock'' [JStr s, JInt 3] w = (Inr b, w') \<longrightarrow> ca_hash_of_str api s = Some h \<longrightarrow>
        json_at b ''previousblockhash'' = prev h \<and> json_at b ''tx'' = txs h) \<and>
     (\<forall>s h w w'. hash_text_at rpc 0 w = (Inr s, w') \<longrightarrow> ca_hash_of_str api s = Some h \<longrightarrow> as_str (prev h) = None) \<and>
     (\<forall>h. ca_hash_of_str api (ca_show_hash api h) = Some h)"

definition parent_of :: "core_api \<Rightarrow> (block_hash \<Rightarrow> json) \<Rightarrow> block_hash \<Rightarrow> block_hash option" where
  "parent_of api prev h = (case as_str (prev h) of None \<Rightarrow> None | Some s \<Rightarrow> ca_hash_of_str api s)"

text \<open>Each block names the one before it as its parent, the first one the root, where there is one.\<close>

fun linked :: "('h \<Rightarrow> 'h option) \<Rightarrow> 'h option \<Rightarrow> 'h list \<Rightarrow> bool" where
  "linked par root [] = True"
| "linked par root (h # hs) = ((root = None \<or> par h = root) \<and> linked par (Some h) hs)"

lemma traverse_block_Ok:
  assumes "core_blocks rpc api prev txs"
    and "traverse_block rpc api watched required height w = (Inr (text, h, spends), w')"
  shows "ca_hash_of_str api text = Some h" "spends_of_block api watched (txs h) = Inr spends"
    "required \<noteq> None \<Longrightarrow> as_str (prev h) = required" "height = 0 \<Longrightarrow> as_str (prev h) = None"
proof -
  from assms(2) obtain w1 b w2 where r: "hash_text_at rpc height w = (Inr text, w1)"
    "call rpc ''getblock'' [JStr text, JInt 3] w1 = (Inr b, w2)" "check_parent required height b = Inr ()"
    "ca_hash_of_str api text = Some h" "spends_of_block api watched (json_at b ''tx'') = Inr spends"
    by (auto simp: traverse_block_def io_bind_Ok_iff)
  then have b: "json_at b ''previousblockhash'' = prev h" "json_at b ''tx'' = txs h"
    using assms(1) unfolding core_blocks_def by blast+
  show "ca_hash_of_str api text = Some h" "spends_of_block api watched (txs h) = Inr spends" using r(4,5) b by simp_all
  show "as_str (prev h) = required" if "required \<noteq> None"
    using r(3) that b by (auto simp: check_parent_def bind_res_def opt_res_def split: option.splits sum.splits if_splits)
  show "as_str (prev h) = None" if "height = 0" using assms(1) r(1,4) that unfolding core_blocks_def by blast
qed

lemma traverse_Ok:
  assumes "core_blocks rpc api prev txs"
    and "traverse rpc api watched scanned required hs w = (Inr (lst, tr), w')"
    and "case required of None \<Rightarrow> root = None | Some t \<Rightarrow> root = ca_hash_of_str api t \<and> root \<noteq> None"
  shows "map fst (tr_blocks tr) = hs \<and> linked (parent_of api prev) root (map snd (tr_blocks tr)) \<and>
    (\<exists>found. list_all2 (\<lambda>h f. spends_of_block api watched (txs h) = Inr f) (map snd (tr_blocks tr)) found \<and> tr_spends tr = concat found) \<and>
    (\<forall>h. hs \<noteq> [] \<longrightarrow> hd hs = 0 \<longrightarrow> hd (map snd (tr_blocks tr)) = h \<longrightarrow> parent_of api prev h = None) \<and>
    (hs \<noteq> [] \<longrightarrow> map_option fst lst = Some (List.last hs))"
  using assms(2,3)
proof (induction hs arbitrary: scanned required root w lst tr w')
  case Nil
  then show ?case by auto
next
  case (Cons height hs)
  from Cons.prems(1) obtain s h spends w1 tr1 w2 where
    b: "traverse_block rpc api watched required height w = (Inr (s, h, spends), w1)" and
    t: "traverse rpc api watched (Some (height, s)) (Some s) hs w1 = (Inr (lst, tr1), w2)" and
    tr: "tr = \<lparr>tr_spends = spends @ tr_spends tr1, tr_blocks = (height, h) # tr_blocks tr1\<rparr>"
    by (auto simp: io_bind_Ok_iff)
  note blk = traverse_block_Ok [OF assms(1) b]
  have root: "root = None \<or> parent_of api prev h = root"
    using Cons.prems(2) blk(3) by (auto simp: parent_of_def split: option.splits)
  have ih: "map fst (tr_blocks tr1) = hs" "linked (parent_of api prev) (Some h) (map snd (tr_blocks tr1))"
    "\<exists>found. list_all2 (\<lambda>h f. spends_of_block api watched (txs h) = Inr f) (map snd (tr_blocks tr1)) found \<and> tr_spends tr1 = concat found"
    "hs \<noteq> [] \<longrightarrow> map_option fst lst = Some (List.last hs)"
    using Cons.IH [OF t, of "Some h"] blk(1) by auto
  then obtain found where "list_all2 (\<lambda>h f. spends_of_block api watched (txs h) = Inr f) (map snd (tr_blocks tr)) (spends # found)"
    "tr_spends tr = concat (spends # found)" using tr blk(2) by auto
  moreover have "height = 0 \<longrightarrow> parent_of api prev h = None" using blk(4) by (simp add: parent_of_def)
  moreover have "hs = [] \<Longrightarrow> lst = Some (height, s)" using t by simp
  ultimately show ?case using ih root by (auto simp: tr)
qed

lemma spends_of_Ok:
  assumes "core_blocks rpc api prev txs"
    and "spends_of rpc api scripts from_height through_height expected w = (Inr tr, w')"
  shows "map fst (tr_blocks tr) = [from_height..<through_height + 1]"
    and "linked (parent_of api prev) expected (map snd (tr_blocks tr))"
    and "\<exists>found. list_all2 (\<lambda>h f. spends_of_block api scripts (txs h) = Inr f) (map snd (tr_blocks tr)) found \<and> tr_spends tr = concat found"
    and "from_height = 0 \<Longrightarrow> tr_blocks tr \<noteq> [] \<Longrightarrow> parent_of api prev (snd (hd (tr_blocks tr))) = None"
proof -
  from assms(2) obtain lst w1 where
    t: "traverse rpc api scripts None (map_option (ca_show_hash api) expected) [from_height..<through_height + 1] w = (Inr (lst, tr), w1)"
    by (auto simp: spends_of_def io_bind_Ok_iff split: option.splits if_splits prod.splits)
  have "case map_option (ca_show_hash api) expected of None \<Rightarrow> expected = None
      | Some s \<Rightarrow> expected = ca_hash_of_str api s \<and> expected \<noteq> None"
    using assms(1) by (auto simp: core_blocks_def split: option.split)
  note tr = traverse_Ok [OF assms(1) t this]
  then show "map fst (tr_blocks tr) = [from_height..<through_height + 1]"
    "linked (parent_of api prev) expected (map snd (tr_blocks tr))"
    "\<exists>found. list_all2 (\<lambda>h f. spends_of_block api scripts (txs h) = Inr f) (map snd (tr_blocks tr)) found \<and> tr_spends tr = concat found"
    by blast+
  show "parent_of api prev (snd (hd (tr_blocks tr))) = None" if "from_height = 0" "tr_blocks tr \<noteq> []"
  proof -
    have ne: "[from_height..<through_height + 1] \<noteq> []" using tr that(2) by (metis map_is_Nil_conv)
    moreover have "hd [from_height..<through_height + 1] = 0" using that(1) by (simp add: upt_conv_Cons del: upt_Suc)
    ultimately show ?thesis using tr that(2) by (metis hd_map)
  qed
qed

subsection \<open>A plain text format\<close>

text \<open>For concrete instances: a byte is displayed as the character of its code.\<close>

definition demo_bytes_of_str :: "string \<Rightarrow> bytes" where
  "demo_bytes_of_str = map (\<lambda>c. word_of_nat (of_char c))"

definition demo_str_of_bytes :: "bytes \<Rightarrow> string" where
  "demo_str_of_bytes = map (\<lambda>b. char_of (unat b))"

lemma demo_bytes_roundtrip: "demo_bytes_of_str (demo_str_of_bytes bs) = bs"
proof (induction bs)
  case Nil
  then show ?case by (simp add: demo_bytes_of_str_def demo_str_of_bytes_def)
next
  case (Cons b bs)
  have "unat b < 256" using unsigned_less [of b] by simp
  with Cons show ?case by (simp add: demo_bytes_of_str_def demo_str_of_bytes_def)
qed

end
