(* ===== verification/Watch_Scan.thy ===== *)
theory Watch_Scan
  imports Alert_Queue Core_Rpc Node_State
begin

text \<open>
  The chain scan of \<open>crates/vault-node/src/watchtower.rs\<close>: classification of spends, the cursor with
  its window of block hashes, one scan pass, and the driver that repeats it. The backend is a record of
  the three calls the scan makes; \<open>core_scanner\<close> is the Bitcoin Core client of \<open>Core_Rpc\<close>. The scan is
  shown to skip no block of the chain it follows: whatever reorganisations race its passes, once a block
  is an anchor of the cursor, every spend of the vault in that block and in all its ancestors has raised
  its alert, unless the node had accepted it.

  Heights are \<open>u32\<close>: additions that the code leaves unchecked wrap, as in the release build.
\<close>

subsection \<open>Classification\<close>

definition alert_from_spend :: "core_api \<Rightarrow> alert_kind \<Rightarrow> spend_seen \<Rightarrow> alert" where
  "alert_from_spend api kind spend =
     \<lparr>al_kind = kind, al_spend_txid = ca_show_txid api (sp_spend_txid spend),
      al_outpoint = ca_show_outpoint api (sp_outpoint spend), al_script = ca_hex api (sp_script spend)\<rparr>"

definition second_to_last :: "'a list \<Rightarrow> 'a option" where
  "second_to_last xs = (if length xs < 2 then None else Some (xs ! (length xs - 2)))"

definition is_recovery_branch :: "bytes list \<Rightarrow> bool" where
  "is_recovery_branch witness = (second_to_last witness = Some [])"

fun classify_spends :: "core_api \<Rightarrow> spend_seen list \<Rightarrow> txid list \<Rightarrow> alert list" where
  "classify_spends api [] authorized_txids = []"
| "classify_spends api (spend # spends) authorized_txids =
     (if is_recovery_branch (sp_witness spend)
      then alert_from_spend api RecoveryPathSpend spend # classify_spends api spends authorized_txids
      else if sp_spend_txid spend \<notin> set authorized_txids
      then alert_from_spend api UnrecognizedSpend spend # classify_spends api spends authorized_txids
      else classify_spends api spends authorized_txids)"

subsection \<open>The backend and the cursor\<close>

record 'w scan_backend =
  sb_tip_height :: "('w, core_error, nat) chain_io"
  sb_block_hash_at :: "nat \<Rightarrow> ('w, core_error, block_hash option) chain_io"
  sb_spends_of :: "script list \<Rightarrow> nat \<Rightarrow> nat \<Rightarrow> block_hash option \<Rightarrow> ('w, core_error, scan_traversal) chain_io"

definition core_scanner :: "'w core_rpc \<Rightarrow> core_api \<Rightarrow> 'w scan_backend" where
  "core_scanner rpc api = \<lparr>sb_tip_height = tip_height rpc, sb_block_hash_at = block_hash_at rpc api, sb_spends_of = spends_of rpc api\<rparr>"

record scan_cursor =
  sc_anchors :: "(nat \<times> block_hash) list"
  sc_next_from :: nat

definition MAX_REORG_DEPTH :: nat where "MAX_REORG_DEPTH = 100"

definition cursor_starting_at :: "nat \<Rightarrow> scan_cursor" where
  "cursor_starting_at from_height = \<lparr>sc_anchors = [], sc_next_from = from_height\<rparr>"

definition cursor_new :: scan_cursor where
  "cursor_new = cursor_starting_at 0"

definition u32_max :: nat where "u32_max = 2 ^ 32 - 1"

definition u32_succ :: "nat \<Rightarrow> nat" where
  "u32_succ h = (h + 1) mod 2 ^ 32"

definition deque_back :: "'a list \<Rightarrow> 'a option" where
  "deque_back xs = (if xs = [] then None else Some (List.last xs))"

subsection \<open>Scanning\<close>

definition scan_through ::
  "'w scan_backend \<Rightarrow> core_api \<Rightarrow> script list \<Rightarrow> txid list \<Rightarrow> nat \<Rightarrow> nat \<Rightarrow> block_hash option
    \<Rightarrow> ('w, core_error, alert list \<times> (nat \<times> block_hash) list) chain_io" where
  "scan_through be api scripts authorized from_height through_height expected_parent =
     io_bind (sb_spends_of be scripts from_height through_height expected_parent) (\<lambda>traversal.
     io_return (classify_spends api (tr_spends traversal) authorized, tr_blocks traversal))"

definition scan :: "'w scan_backend \<Rightarrow> core_api \<Rightarrow> script list \<Rightarrow> txid list \<Rightarrow> nat \<Rightarrow> ('w, core_error, alert list) chain_io" where
  "scan be api scripts authorized from_height =
     io_bind (sb_tip_height be) (\<lambda>through_height.
     io_bind (scan_through be api scripts authorized from_height through_height None) (\<lambda>(alerts, blocks). io_return alerts))"

text \<open>The walk over the anchors from the newest to the oldest.\<close>

fun find_fork :: "'w scan_backend \<Rightarrow> (nat \<times> block_hash) list \<Rightarrow> ('w, core_error, nat option) chain_io" where
  "find_fork be [] = io_return None"
| "find_fork be ((height, hash) # older) =
     io_bind (sb_block_hash_at be height) (\<lambda>r. if r = Some hash then io_return (Some height) else find_fork be older)"

definition pop_above :: "nat \<Rightarrow> (nat \<times> block_hash) list \<Rightarrow> (nat \<times> block_hash) list" where
  "pop_above fork_height anchors = rev (dropWhile (\<lambda>(h, _). h > fork_height) (rev anchors))"

text \<open>An error leaves the cursor as it was; otherwise the height to scan from and the new cursor.\<close>

definition reconcile_cursor :: "'w scan_backend \<Rightarrow> scan_cursor \<Rightarrow> ('w, core_error, nat \<times> scan_cursor) chain_io" where
  "reconcile_cursor be cursor =
     (case deque_back (sc_anchors cursor) of
        None \<Rightarrow> io_return (sc_next_from cursor, cursor)
      | Some (anchor_height, anchor_hash) \<Rightarrow>
          io_bind (sb_block_hash_at be anchor_height) (\<lambda>r.
          if r = Some anchor_hash then io_return (sc_next_from cursor, cursor)
          else io_bind (find_fork be (rev (sc_anchors cursor))) (\<lambda>fork. case fork of
              Some fork_height \<Rightarrow>
                io_return (u32_succ fork_height,
                  \<lparr>sc_anchors = pop_above fork_height (sc_anchors cursor), sc_next_from = u32_succ fork_height\<rparr>)
            | None \<Rightarrow> io_return (0, \<lparr>sc_anchors = [], sc_next_from = 0\<rparr>))))"

fun push_blocks :: "(nat \<times> block_hash) list \<Rightarrow> (nat \<times> block_hash) list \<Rightarrow> core_error + (nat \<times> block_hash) list" where
  "push_blocks anchors [] = Ok anchors"
| "push_blocks anchors ((height, hash) # bs) =
     (case deque_back anchors of
        Some (b, _) \<Rightarrow> if height \<noteq> u32_succ b then Err (GappedCursor height b) else push_blocks (anchors @ [(height, hash)]) bs
      | None \<Rightarrow> push_blocks (anchors @ [(height, hash)]) bs)"

definition extend_anchors ::
  "scan_cursor \<Rightarrow> (nat \<times> block_hash) list \<Rightarrow> nat \<Rightarrow> nat \<Rightarrow> core_error + scan_cursor" where
  "extend_anchors cursor blocks from tip =
     (if tip < from then Ok cursor
      else let lo = max from (tip - MAX_REORG_DEPTH);
               anchors = (case deque_back (sc_anchors cursor) of
                            Some (h, _) \<Rightarrow> if lo > u32_succ h then [] else sc_anchors cursor
                          | None \<Rightarrow> sc_anchors cursor);
               start = (case deque_back anchors of None \<Rightarrow> lo | Some (h, _) \<Rightarrow> max (u32_succ h) lo)
           in bind_res (push_blocks anchors (filter (\<lambda>(h, _). start \<le> h) blocks)) (\<lambda>pushed.
              Ok (cursor\<lparr>sc_anchors := drop (length pushed - (MAX_REORG_DEPTH + 1)) pushed\<rparr>)))"

text \<open>
  The part of a pass between the reconciliation and the publication: the captured tip hash, the scan,
  the prospective cursor and the second look at the tip.
\<close>

definition scan_range ::
  "'w scan_backend \<Rightarrow> core_api \<Rightarrow> script list \<Rightarrow> txid list \<Rightarrow> scan_cursor \<Rightarrow> nat \<Rightarrow> nat
    \<Rightarrow> ('w, core_error, alert list \<times> scan_cursor) chain_io" where
  "scan_range be api scripts authorized cursor from_height tip =
     io_bind (sb_block_hash_at be tip) (\<lambda>r.
     io_bind (io_opt (TipVanished tip) r) (\<lambda>tip_hash.
     io_bind (scan_through be api scripts authorized from_height tip (map_option snd (deque_back (sc_anchors cursor))))
       (\<lambda>(new_alerts, scanned_blocks).
     io_bind (io_res (extend_anchors cursor scanned_blocks from_height tip)) (\<lambda>advanced.
     io_bind (sb_block_hash_at be tip) (\<lambda>r2.
     if r2 \<noteq> Some tip_hash then io_fail (TipChanged tip)
     else io_return (new_alerts, advanced\<lparr>sc_next_from := min (tip + 1) u32_max\<rparr>))))))"

text \<open>The alerts that were newly queued, in order.\<close>

fun push_all :: "alert_queue \<Rightarrow> alert list \<Rightarrow> alert list \<times> alert_queue" where
  "push_all q [] = ([], q)"
| "push_all q (a # as) =
     (case queue_push q a of (fresh, q1) \<Rightarrow>
      case push_all q1 as of (queued, q2) \<Rightarrow> (if fresh then a # queued else queued, q2))"

text \<open>
  One pass. \<open>authorized\<close> is the set as the pass finds it under its lock, \<open>q\<close> the queue as the pass
  finds it when it publishes. The outcome is the list of alerts newly queued, of which the code reports
  the number; a pass that fails keeps the reconciled cursor.
\<close>

definition scan_pass ::
  "'w scan_backend \<Rightarrow> core_api \<Rightarrow> script list \<Rightarrow> txid list \<Rightarrow> alert_queue \<Rightarrow> scan_cursor \<Rightarrow> 'w
    \<Rightarrow> ((core_error + alert list) \<times> scan_cursor \<times> alert_queue) \<times> 'w" where
  "scan_pass be api scripts authorized q cursor w =
     (case reconcile_cursor be cursor w of
        (Inl e, w1) \<Rightarrow> ((Inl e, cursor, q), w1)
      | (Inr (from_height, cursor1), w1) \<Rightarrow>
          (case sb_tip_height be w1 of
             (Inl e, w2) \<Rightarrow> ((Inl e, cursor1, q), w2)
           | (Inr tip, w2) \<Rightarrow>
               if (case deque_back (sc_anchors cursor1) of None \<Rightarrow> False | Some (anchor_height, _) \<Rightarrow> tip < anchor_height)
               then ((Inr [], cursor1, q), w2)
               else (case scan_range be api scripts authorized cursor1 from_height tip w2 of
                       (Inl e, w3) \<Rightarrow> ((Inl e, cursor1, q), w3)
                     | (Inr (new_alerts, advanced), w3) \<Rightarrow>
                         let (queued, q1) = push_all q new_alerts in ((Inr queued, advanced, q1), w3))))"

subsection \<open>The driver and the node's entry points\<close>

text \<open>
  One round of the driver. Between two passes, and while a pass reads the chain, the channel handlers
  record freshness events on the queue (\<open>events\<close>). A round in which the blocking task panics loses the
  cursor; nothing is published by it.
\<close>

datatype round = Pass "txid list" "(freshness_event \<times> u64) list" | PanickedPass

record tower =
  tw_cursor :: scan_cursor
  tw_queue :: alert_queue
  tw_raised :: "alert list"

definition tower_new :: "nat \<Rightarrow> tower" where
  "tower_new cap = \<lparr>tw_cursor = cursor_new, tw_queue = alert_queue_new cap, tw_raised = []\<rparr>"

fun drive_round :: "'w scan_backend \<Rightarrow> core_api \<Rightarrow> script list \<Rightarrow> round \<Rightarrow> tower \<times> 'w \<Rightarrow> tower \<times> 'w" where
  "drive_round be api scripts PanickedPass (t, w) = (t\<lparr>tw_cursor := cursor_new\<rparr>, w)"
| "drive_round be api scripts (Pass authorized events) (t, w) =
     (let q = queue_run (tw_queue t) (map (\<lambda>(ev, h). RecordFreshness ev h) events);
          ((outcome, cursor, q1), w1) = scan_pass be api scripts authorized q (tw_cursor t) w
      in (t\<lparr>tw_cursor := cursor, tw_queue := q1,
            tw_raised := tw_raised t @ (case outcome of Inl _ \<Rightarrow> [] | Inr queued \<Rightarrow> queued)\<rparr>, w1))"

text \<open>The chain may change between rounds in any way: \<open>w\<close> of each round is an argument.\<close>

fun drive :: "'w scan_backend \<Rightarrow> core_api \<Rightarrow> script list \<Rightarrow> tower \<Rightarrow> (round \<times> 'w) list \<Rightarrow> tower" where
  "drive be api scripts t [] = t"
| "drive be api scripts t ((r, w) # rs) = drive be api scripts (fst (drive_round be api scripts r (t, w))) rs"

definition watchtower_tick ::
  "'d node \<Rightarrow> node_state \<Rightarrow> 'w scan_backend \<Rightarrow> core_api \<Rightarrow> alert_queue \<Rightarrow> nat \<Rightarrow> 'w \<Rightarrow> ((core_error + nat) \<times> alert_queue) \<times> 'w" where
  "watchtower_tick node ns be api q from_height w =
     (case scan_pass be api (vault_scripts node) (ns_authorized ns) q (cursor_starting_at from_height) w of
        ((outcome, _, q1), w1) \<Rightarrow> ((map_sum id length outcome, q1), w1))"

definition events :: "alert_queue \<Rightarrow> u64 \<Rightarrow> event list \<times> u64" where
  "events q since = queue_since q since"

subsection \<open>What the scan raises\<close>

definition spend_key :: "core_api \<Rightarrow> spend_seen \<Rightarrow> string" where
  "spend_key api sp = ca_show_txid api (sp_spend_txid sp) @ '':'' @ ca_show_outpoint api (sp_outpoint sp)"

text \<open>A spend that must raise an alert whatever the node accepted, when it accepted only \<open>accepted\<close>.\<close>

definition alarming :: "txid set \<Rightarrow> spend_seen \<Rightarrow> bool" where
  "alarming accepted sp \<longleftrightarrow> is_recovery_branch (sp_witness sp) \<or> sp_spend_txid sp \<notin> accepted"

lemma alert_from_spend_key [simp]: "alert_key (alert_from_spend api kind sp) = spend_key api sp"
  by (simp add: alert_key_def alert_from_spend_def spend_key_def)

lemma classify_spends_spec:
  "a \<in> set (classify_spends api spends auth) \<longleftrightarrow>
   (\<exists>sp \<in> set spends. alarming (set auth) sp \<and>
      a = alert_from_spend api (if is_recovery_branch (sp_witness sp) then RecoveryPathSpend else UnrecognizedSpend) sp)"
  by (induction spends) (auto simp: alarming_def)

lemma alarming_mono: "accepted \<subseteq> accepted' \<Longrightarrow> alarming accepted' sp \<Longrightarrow> alarming accepted sp"
  by (auto simp: alarming_def)

text \<open>Every key the queue remembers belongs to an alert that was raised, or to a freshness event.\<close>

definition seen_raised :: "alert_queue \<Rightarrow> alert list \<Rightarrow> bool" where
  "seen_raised q raised \<longleftrightarrow> set (aq_seen q) \<subseteq> alert_key ` set raised \<union> range freshness_key"

lemma queue_append_seen_subset: "set (aq_seen (queue_append q key ev)) \<subseteq> set (aq_seen q)"
  by (auto simp: queue_append_seen(1))

lemma record_freshness_seen: "set (aq_seen (record_freshness q ev h)) \<subseteq> insert (freshness_key (fe_peer_node_id ev)) (set (aq_seen q))"
proof -
  have "set (aq_seen (publish_freshness q ev pub)) \<subseteq> insert (freshness_key (fe_peer_node_id ev)) (set (aq_seen q))" for pub
    unfolding publish_freshness_def Let_def by (rule order_trans [OF queue_append_seen_subset]) auto
  then show ?thesis by (auto simp: record_freshness_def split: option.split)
qed

lemma freshness_run_seen_raised:
  "seen_raised q raised \<Longrightarrow> seen_raised (queue_run q (map (\<lambda>(ev, h). RecordFreshness ev h) evs)) raised"
proof (induction evs arbitrary: q)
  case Nil
  then show ?case by simp
next
  case (Cons e evs)
  obtain ev h where e: "e = (ev, h)" by (cases e)
  have "seen_raised (record_freshness q ev h) raised"
    using Cons.prems record_freshness_seen [of q ev h] by (auto simp: seen_raised_def)
  with Cons.IH show ?case by (simp add: e)
qed

lemma push_all_raises:
  assumes "push_all q as = (queued, q')" and "seen_raised q raised"
    and "\<forall>a \<in> set as. lower_hex (al_spend_txid a)"
  shows "seen_raised q' (raised @ queued) \<and> alert_key ` set as \<subseteq> alert_key ` set (raised @ queued)"
  using assms
proof (induction as arbitrary: q queued raised)
  case Nil
  then show ?case by simp
next
  case (Cons a as)
  obtain fresh q1 where p: "queue_push q a = (fresh, q1)" by (cases "queue_push q a")
  obtain queued1 where r: "push_all q1 as = (queued1, q')" and qd: "queued = (if fresh then a # queued1 else queued1)"
    using Cons.prems(1) p by (auto split: prod.splits)
  show ?case
  proof (cases fresh)
    case True
    then have "q1 = queue_append (q\<lparr>aq_seen := alert_key a # aq_seen q\<rparr>) (alert_key a) (Watchtower a)"
      using p by (simp add: queue_push_def Let_def split: if_splits)
    then have "set (aq_seen q1) \<subseteq> insert (alert_key a) (set (aq_seen q))"
      using queue_append_seen_subset [of "q\<lparr>aq_seen := alert_key a # aq_seen q\<rparr>" "alert_key a" "Watchtower a"] by simp
    then have "seen_raised q1 (raised @ [a])" using Cons.prems(2) unfolding seen_raised_def by auto
    from Cons.IH [OF r this] Cons.prems(3) show ?thesis by (auto simp: qd True)
  next
    case False
    then have q1: "q1 = q" "alert_key a \<in> set (aq_seen q)" using p by (auto simp: queue_push_def Let_def split: if_splits)
    then have "alert_key a \<in> alert_key ` set raised"
      using Cons.prems(2,3) alert_key_not_freshness [of a] by (auto simp: seen_raised_def)
    moreover have "seen_raised q' (raised @ queued1) \<and> alert_key ` set as \<subseteq> alert_key ` set (raised @ queued1)"
      using Cons.IH [OF r] Cons.prems q1 by simp
    ultimately show ?thesis by (auto simp: qd False)
  qed
qed

subsection \<open>Ancestors and coverage\<close>

inductive ancestor :: "('h \<Rightarrow> 'h option) \<Rightarrow> 'h \<Rightarrow> 'h \<Rightarrow> bool" for par :: "'h \<Rightarrow> 'h option" where
  anc_refl: "ancestor par h h"
| anc_parent: "par h = Some p \<Longrightarrow> ancestor par a p \<Longrightarrow> ancestor par a h"

lemma ancestor_unfold: "ancestor par a h \<longleftrightarrow> a = h \<or> (\<exists>p. par h = Some p \<and> ancestor par a p)"
  by (subst ancestor.simps) auto

lemma linked_covered:
  assumes "linked par root hs" and "\<forall>h \<in> set hs. C h"
    and "case root of None \<Rightarrow> hs \<noteq> [] \<longrightarrow> par (hd hs) = None | Some r \<Rightarrow> \<forall>a. ancestor par a r \<longrightarrow> C a"
  shows "\<forall>h \<in> set hs. \<forall>a. ancestor par a h \<longrightarrow> C a"
  using assms
proof (induction hs arbitrary: root)
  case Nil
  then show ?case by simp
next
  case (Cons h hs)
  have h: "\<forall>a. ancestor par a h \<longrightarrow> C a"
    using Cons.prems by (subst ancestor_unfold) (auto split: option.splits)
  with Cons.IH [of "Some h"] Cons.prems show ?case by simp
qed

lemma push_blocks_Ok: "push_blocks as bs = Inr ps \<Longrightarrow> ps = as @ bs"
  by (induction as bs arbitrary: ps rule: push_blocks.induct) (auto split: option.splits if_splits)

lemma deque_back_simps [simp]: "deque_back [] = None" "deque_back (xs @ [x]) = Some x" "deque_back xs = None \<longleftrightarrow> xs = []"
  by (simp_all add: deque_back_def)

lemma deque_back_mem: "deque_back xs = Some x \<Longrightarrow> x \<in> set xs"
  by (auto simp: deque_back_def split: if_splits)

lemma extend_anchors_Ok:
  assumes "extend_anchors cur blocks from tip = Inr cur'" and "from \<le> tip"
  obtains as start where "as = [] \<or> as = sc_anchors cur"
    "sc_anchors cur' = drop (length (as @ filter (\<lambda>b. start \<le> fst b) blocks) - (MAX_REORG_DEPTH + 1)) (as @ filter (\<lambda>b. start \<le> fst b) blocks)"
    "push_blocks as (filter (\<lambda>b. start \<le> fst b) blocks) = Inr (as @ filter (\<lambda>b. start \<le> fst b) blocks)"
    "start = (case deque_back as of None \<Rightarrow> max from (tip - MAX_REORG_DEPTH) | Some (h, _) \<Rightarrow> max (u32_succ h) (max from (tip - MAX_REORG_DEPTH)))"
proof -
  define lo where "lo = max from (tip - MAX_REORG_DEPTH)"
  define as where "as = (case deque_back (sc_anchors cur) of Some (h, _) \<Rightarrow> if lo > u32_succ h then [] else sc_anchors cur | None \<Rightarrow> sc_anchors cur)"
  define start where "start = (case deque_back as of None \<Rightarrow> lo | Some (h, _) \<Rightarrow> max (u32_succ h) lo)"
  have as: "as = [] \<or> as = sc_anchors cur" by (auto simp: as_def split: option.split)
  obtain ps where ps: "push_blocks as (filter (\<lambda>b. start \<le> fst b) blocks) = Inr ps"
    "sc_anchors cur' = drop (length ps - (MAX_REORG_DEPTH + 1)) ps"
    using assms unfolding extend_anchors_def Let_def lo_def [symmetric] as_def [symmetric] start_def [symmetric] split_beta
    by (auto simp: bind_res_Ok_iff)
  note eq = push_blocks_Ok [OF ps(1)]
  show ?thesis
  proof (rule that [of as start])
    show "as = [] \<or> as = sc_anchors cur" by (rule as)
  qed (use ps in \<open>simp_all only: eq\<close>, simp only: start_def lo_def)
qed

lemma extend_anchors_subset:
  assumes "extend_anchors cur blocks from tip = Inr cur'"
  shows "set (sc_anchors cur') \<subseteq> set (sc_anchors cur) \<union> set blocks"
proof (cases "from \<le> tip")
  case True
  obtain as start where e: "as = [] \<or> as = sc_anchors cur"
    "sc_anchors cur' = drop (length (as @ filter (\<lambda>b. start \<le> fst b) blocks) - (MAX_REORG_DEPTH + 1)) (as @ filter (\<lambda>b. start \<le> fst b) blocks)"
    by (rule extend_anchors_Ok [OF assms True])
  have "set (sc_anchors cur') \<subseteq> set (as @ filter (\<lambda>b. start \<le> fst b) blocks)" unfolding e(2) by (rule set_drop_subset)
  with e(1) show ?thesis by auto
next
  case False
  with assms show ?thesis by (simp add: extend_anchors_def)
qed

lemma extend_anchors_nonempty:
  assumes "extend_anchors cur blocks from tip = Inr cur'" and "map fst blocks = [from..<tip + 1]"
    and "sc_anchors cur \<noteq> [] \<or> from \<le> tip"
  shows "sc_anchors cur' \<noteq> []"
proof (cases "from \<le> tip")
  case True
  then have "tip \<in> set (map fst blocks)" using assms(2) by simp
  then obtain x where x: "(tip, x) \<in> set blocks" by auto
  obtain as start where e: "sc_anchors cur' = drop (length (as @ filter (\<lambda>b. start \<le> fst b) blocks) - (MAX_REORG_DEPTH + 1)) (as @ filter (\<lambda>b. start \<le> fst b) blocks)"
    "start = (case deque_back as of None \<Rightarrow> max from (tip - MAX_REORG_DEPTH) | Some (h, _) \<Rightarrow> max (u32_succ h) (max from (tip - MAX_REORG_DEPTH)))"
    by (rule extend_anchors_Ok [OF assms(1) True])
  have "as @ filter (\<lambda>b. start \<le> fst b) blocks \<noteq> []"
  proof (cases "as = []")
    case nil: True
    then have "(tip, x) \<in> set (filter (\<lambda>b. start \<le> fst b) blocks)" using x True e(2) by simp
    then have "filter (\<lambda>b. start \<le> fst b) blocks \<noteq> []" by (metis empty_iff list.set(1))
    then show ?thesis by simp
  qed simp
  then have "length (as @ filter (\<lambda>b. start \<le> fst b) blocks) - (MAX_REORG_DEPTH + 1) < length (as @ filter (\<lambda>b. start \<le> fst b) blocks)"
    by (simp only: MAX_REORG_DEPTH_def) (metis diff_less length_greater_0_conv zero_less_numeral add_gr_0)
  then show ?thesis unfolding e(1) by (metis drop_eq_Nil2 not_le)
next
  case False
  with assms show ?thesis by (simp add: extend_anchors_def)
qed

text \<open>
  A block is covered when its spends are known and each of them that is alarming has been raised. The
  cursor is covered when all its anchors are, with all their ancestors, and an empty cursor starts at
  the first block.
\<close>

definition block_covered ::
  "core_api \<Rightarrow> txid set \<Rightarrow> (block_hash \<Rightarrow> core_error + spend_seen list) \<Rightarrow> alert list \<Rightarrow> block_hash \<Rightarrow> bool" where
  "block_covered api accepted spends_in raised h \<longleftrightarrow>
     (\<exists>found. spends_in h = Inr found \<and> (\<forall>sp \<in> set found. alarming accepted sp \<longrightarrow> spend_key api sp \<in> alert_key ` set raised))"

definition cursor_covered :: "(block_hash \<Rightarrow> block_hash option) \<Rightarrow> (block_hash \<Rightarrow> bool) \<Rightarrow> scan_cursor \<Rightarrow> bool" where
  "cursor_covered par C cur \<longleftrightarrow>
     (\<forall>b \<in> set (sc_anchors cur). \<forall>a. ancestor par a (snd b) \<longrightarrow> C a) \<and> (sc_anchors cur = [] \<longrightarrow> sc_next_from cur = 0)"

lemma block_covered_mono: "set raised \<subseteq> set raised' \<Longrightarrow> block_covered api acc spends_in raised h \<Longrightarrow> block_covered api acc spends_in raised' h"
  unfolding block_covered_def by (meson image_mono subsetD)

lemma cursor_covered_mono: "(\<And>h. C h \<Longrightarrow> C' h) \<Longrightarrow> cursor_covered par C cur \<Longrightarrow> cursor_covered par C' cur"
  by (simp add: cursor_covered_def)

lemma find_fork_mem: "find_fork be as w = (Inr (Some fork), w') \<Longrightarrow> \<exists>x. (fork, x) \<in> set as"
  by (induction be as arbitrary: w rule: find_fork.induct) (auto simp: io_bind_Ok_iff split: if_splits)

lemma pop_above_props:
  "set (pop_above fork as) \<subseteq> set as" "(fork, x) \<in> set as \<Longrightarrow> pop_above fork as \<noteq> []"
  by (auto simp: pop_above_def dest: set_dropWhileD)

lemma reconcile_cases:
  assumes "reconcile_cursor be cur w = (Inr (from_height, cur1), w1)"
  obtains (same) "cur1 = cur" "from_height = sc_next_from cur"
    | (fork) fork x where "(fork, x) \<in> set (sc_anchors cur)" "from_height = u32_succ fork"
        "cur1 = \<lparr>sc_anchors = pop_above fork (sc_anchors cur), sc_next_from = u32_succ fork\<rparr>"
    | (reset) "from_height = 0" "cur1 = \<lparr>sc_anchors = [], sc_next_from = 0\<rparr>"
proof (cases "cur1 = cur \<and> from_height = sc_next_from cur")
  case True
  then show ?thesis using same by simp
next
  case False
  with assms obtain hh x w2 where "deque_back (sc_anchors cur) = Some (hh, x)"
    and ff: "io_bind (find_fork be (rev (sc_anchors cur))) (\<lambda>fork. case fork of
        Some fork_height \<Rightarrow> io_return (u32_succ fork_height,
          \<lparr>sc_anchors = pop_above fork_height (sc_anchors cur), sc_next_from = u32_succ fork_height\<rparr>)
      | None \<Rightarrow> io_return (0, \<lparr>sc_anchors = [], sc_next_from = 0\<rparr>)) w2 = (Inr (from_height, cur1), w1)"
    by (cases "deque_back (sc_anchors cur)") (auto simp: reconcile_cursor_def io_bind_Ok_iff [of "sb_block_hash_at be _"] split: if_splits)
  then show ?thesis using fork reset find_fork_mem [of be "rev (sc_anchors cur)" w2] by (fastforce simp: io_bind_Ok_iff split: option.splits)
qed

lemma reconcile_covered:
  assumes "cursor_covered par C cur" and "reconcile_cursor be cur w = (Inr (from_height, cur1), w1)"
  shows "cursor_covered par C cur1 \<and> from_height = sc_next_from cur1"
proof (rule reconcile_cases [OF assms(2)])
  fix fork x
  assume f: "(fork, x) \<in> set (sc_anchors cur)" "from_height = u32_succ fork"
    "cur1 = \<lparr>sc_anchors = pop_above fork (sc_anchors cur), sc_next_from = u32_succ fork\<rparr>"
  from pop_above_props(2) [OF f(1)] pop_above_props(1) [of fork "sc_anchors cur"] assms(1) f(2,3) show ?thesis
    by (auto simp: cursor_covered_def)
qed (use assms(1) in \<open>simp_all add: cursor_covered_def\<close>)

text \<open>Rounds in which the node had accepted nothing but \<open>accepted\<close>.\<close>

fun round_within :: "txid set \<Rightarrow> round \<Rightarrow> bool" where
  "round_within accepted PanickedPass = True"
| "round_within accepted (Pass auth evs) = (set auth \<subseteq> accepted)"

locale chain_scanner =
  fixes be :: "'w scan_backend"
    and scripts :: "script list"
    and par :: "block_hash \<Rightarrow> block_hash option"
    and spends_in :: "block_hash \<Rightarrow> core_error + spend_seen list"
    and good :: bool
  assumes traversed_heights: "good \<Longrightarrow> sb_spends_of be scripts from_height through expected w = (Inr tr, w') \<Longrightarrow>
      map fst (tr_blocks tr) = [from_height..<through + 1]"
    and traversed_linked: "good \<Longrightarrow> sb_spends_of be scripts from_height through expected w = (Inr tr, w') \<Longrightarrow>
      linked par expected (map snd (tr_blocks tr))"
    and traversed_spends: "good \<Longrightarrow> sb_spends_of be scripts from_height through expected w = (Inr tr, w') \<Longrightarrow>
      \<exists>found. list_all2 (\<lambda>h f. spends_in h = Inr f) (map snd (tr_blocks tr)) found \<and> tr_spends tr = concat found"
    and traversed_first: "good \<Longrightarrow> sb_spends_of be scripts from_height through expected w = (Inr tr, w') \<Longrightarrow>
      from_height = 0 \<Longrightarrow> tr_blocks tr \<noteq> [] \<Longrightarrow> par (snd (hd (tr_blocks tr))) = None"
begin

lemma traversed_covered:
  assumes "good" and "sb_spends_of be scripts from_height through expected w = (Inr tr, w')"
    and "set auth \<subseteq> accepted" and "alert_key ` set (classify_spends api (tr_spends tr) auth) \<subseteq> alert_key ` set raised"
    and "h \<in> set (map snd (tr_blocks tr))"
  shows "block_covered api accepted spends_in raised h"
proof -
  obtain found where f: "list_all2 (\<lambda>h f. spends_in h = Inr f) (map snd (tr_blocks tr)) found" "tr_spends tr = concat found"
    using traversed_spends [OF assms(1,2)] by blast
  obtain i where i: "i < length (map snd (tr_blocks tr))" "map snd (tr_blocks tr) ! i = h"
    using assms(5) by (auto simp only: in_set_conv_nth)
  define fs where "fs = found ! i"
  have fs: "spends_in h = Inr fs" "fs \<in> set found"
    using list_all2_nthD [OF f(1) i(1)] i list_all2_lengthD [OF f(1)] by (simp_all add: fs_def)
  have "spend_key api sp \<in> alert_key ` set raised" if "sp \<in> set fs" "alarming accepted sp" for sp
  proof -
    have "alarming (set auth) sp" using that(2) assms(3) alarming_mono by blast
    moreover have "sp \<in> set (tr_spends tr)" using that(1) fs(2) f(2) by auto
    ultimately have "\<exists>a \<in> set (classify_spends api (tr_spends tr) auth). alert_key a = spend_key api sp"
      by (intro bexI [of _ "alert_from_spend api (if is_recovery_branch (sp_witness sp) then RecoveryPathSpend else UnrecognizedSpend) sp"])
        (auto simp only: classify_spends_spec alert_from_spend_key)
    then show ?thesis using assms(4) by (metis image_eqI subsetD)
  qed
  with fs(1) show ?thesis by (simp add: block_covered_def)
qed

lemma scan_range_covered:
  assumes good and c: "cursor_covered par (block_covered api accepted spends_in raised) cur" "from_height = sc_next_from cur"
    and r: "scan_range be api scripts auth cur from_height tip w = (Inr (alerts, adv), w')"
    and "set auth \<subseteq> accepted" and m: "set raised \<subseteq> set raised'" and k: "alert_key ` set alerts \<subseteq> alert_key ` set raised'"
  shows "cursor_covered par (block_covered api accepted spends_in raised') adv"
proof -
  let ?C = "block_covered api accepted spends_in raised'" and ?root = "map_option snd (deque_back (sc_anchors cur))"
  from r obtain tr w1 w2 adv1 where
    t: "sb_spends_of be scripts from_height tip ?root w1 = (Inr tr, w2)" and
    al: "alerts = classify_spends api (tr_spends tr) auth" and
    ex: "extend_anchors cur (tr_blocks tr) from_height tip = Inr adv1" and
    adv: "adv = adv1\<lparr>sc_next_from := min (tip + 1) u32_max\<rparr>"
    by (auto simp: scan_range_def scan_through_def io_bind_Ok_iff split: if_splits)
  have c': "cursor_covered par ?C cur" using c(1) block_covered_mono [OF m] by (rule cursor_covered_mono [rotated])
  have "\<forall>h \<in> set (map snd (tr_blocks tr)). ?C h"
    using traversed_covered [OF \<open>good\<close> t \<open>set auth \<subseteq> accepted\<close>] k unfolding al by blast
  moreover have "case ?root of None \<Rightarrow> map snd (tr_blocks tr) \<noteq> [] \<longrightarrow> par (hd (map snd (tr_blocks tr))) = None
      | Some r \<Rightarrow> \<forall>a. ancestor par a r \<longrightarrow> ?C a"
    using c' c(2) traversed_first [OF \<open>good\<close> t] deque_back_mem [of "sc_anchors cur"]
    by (auto simp: cursor_covered_def hd_map split: option.split)
  ultimately have b: "\<forall>h \<in> set (map snd (tr_blocks tr)). \<forall>a. ancestor par a h \<longrightarrow> ?C a"
    by (rule linked_covered [OF traversed_linked [OF \<open>good\<close> t]])
  have "sc_anchors adv1 \<noteq> []"
    using extend_anchors_nonempty [OF ex traversed_heights [OF \<open>good\<close> t]] c' c(2) by (auto simp: cursor_covered_def)
  then show ?thesis using extend_anchors_subset [OF ex] b c' by (fastforce simp: cursor_covered_def adv)
qed

lemma scan_pass_covered:
  assumes good and c: "cursor_covered par (block_covered api accepted spends_in raised) cur" and q: "seen_raised q raised"
    and hex: "\<forall>t. lower_hex (ca_show_txid api t)" and auth: "set auth \<subseteq> accepted"
    and p: "scan_pass be api scripts auth q cur w = ((outcome, cur', q'), w')"
    and r: "raised' = raised @ (case outcome of Inl _ \<Rightarrow> [] | Inr queued \<Rightarrow> queued)"
  shows "cursor_covered par (block_covered api accepted spends_in raised') cur' \<and> seen_raised q' raised'"
proof (cases "reconcile_cursor be cur w")
  case (Pair res w1)
  show ?thesis
  proof (cases res)
    case (Inl e)
    with p Pair have "outcome = Inl e" "cur' = cur" "q' = q" by (auto simp: scan_pass_def)
    with r c q show ?thesis by simp
  next
    case (Inr fc)
    obtain from_height cur1 where fc: "fc = (from_height, cur1)" by (cases fc)
    note rc = reconcile_covered [OF c Pair [unfolded Inr fc]]
    consider (stay) "cur' = cur1" "q' = q" "raised' = raised"
      | (commit) tip w2 alerts queued w3 where "scan_range be api scripts auth cur1 from_height tip w2 = (Inr (alerts, cur'), w3)"
        "push_all q alerts = (queued, q')" "raised' = raised @ queued"
      using p r Pair Inr fc by (auto simp: scan_pass_def Let_def split: prod.splits sum.splits if_splits)
    then show ?thesis
    proof cases
      case stay
      with rc q show ?thesis by simp
    next
      case commit
      have "\<forall>a \<in> set alerts. lower_hex (al_spend_txid a)"
        using commit(1) hex by (auto simp: scan_range_def scan_through_def io_bind_Ok_iff classify_spends_spec alert_from_spend_def split: if_splits)
      note ra = push_all_raises [OF commit(2) q this]
      with scan_range_covered [OF \<open>good\<close> _ _ commit(1) auth, of raised raised'] rc commit(3) show ?thesis by simp
    qed
  qed
qed

lemma drive_covered:
  assumes good and "\<forall>t. lower_hex (ca_show_txid api t)"
  shows "cursor_covered par (block_covered api accepted spends_in (tw_raised t)) (tw_cursor t) \<Longrightarrow>
    seen_raised (tw_queue t) (tw_raised t) \<Longrightarrow> list_all (\<lambda>(r, w). round_within accepted r) rs \<Longrightarrow>
    cursor_covered par (block_covered api accepted spends_in (tw_raised (drive be api scripts t rs))) (tw_cursor (drive be api scripts t rs))"
proof (induction rs arbitrary: t)
  case Nil
  then show ?case by simp
next
  case (Cons rw rs)
  obtain r w where rw: "rw = (r, w)" by (cases rw)
  let ?t = "fst (drive_round be api scripts r (t, w))"
  have "cursor_covered par (block_covered api accepted spends_in (tw_raised ?t)) (tw_cursor ?t) \<and> seen_raised (tw_queue ?t) (tw_raised ?t)"
  proof (cases r)
    case (Pass auth evs)
    let ?q = "queue_run (tw_queue t) (map (\<lambda>(ev, h). RecordFreshness ev h) evs)"
    obtain outcome cur' q' w' where p: "scan_pass be api scripts auth ?q (tw_cursor t) w = ((outcome, cur', q'), w')"
      by (metis surj_pair)
    have "set auth \<subseteq> accepted" using Cons.prems(3) by (simp add: rw Pass)
    with scan_pass_covered [OF assms(1) Cons.prems(1) freshness_run_seen_raised [OF Cons.prems(2)] assms(2) _ p refl] p show ?thesis
      by (simp add: Pass)
  next
    case PanickedPass
    with Cons.prems show ?thesis by (simp add: cursor_covered_def cursor_new_def cursor_starting_at_def)
  qed
  with Cons.IH [of ?t] Cons.prems(3) show ?case by (simp add: rw)
qed

end

interpretation core: chain_scanner "core_scanner rpc api" scripts "parent_of api prev"
  "\<lambda>h. spends_of_block api scripts (txs h)" "core_blocks rpc api prev txs" for rpc api scripts prev txs
  by unfold_locales (auto simp: core_scanner_def dest: spends_of_Ok)

text \<open>C26: the watchtower skips no block of the chain it follows. Take any number of scan passes over a
  Bitcoin Core backend, with any reorganisation between any two of its replies, with failed and panicking
  passes and with freshness events on the same queue. If a block is among the anchors of the cursor, then
  every spend of a watched script in that block or in any of its ancestors has raised an alert under its
  transaction id and outpoint, if it took the recovery branch or was never in the set of transactions the
  node accepted.\<close>

theorem watchtower_skips_no_block:
  assumes "core_blocks rpc api prev txs" and "\<forall>t. lower_hex (ca_show_txid api t)"
    and "t = drive (core_scanner rpc api) api scripts (tower_new cap) rounds"
    and "list_all (\<lambda>(r, w). round_within accepted r) rounds"
    and "(height, hash) \<in> set (sc_anchors (tw_cursor t))" and "ancestor (parent_of api prev) block hash"
  shows "\<exists>found. spends_of_block api scripts (txs block) = Inr found \<and>
    (\<forall>sp \<in> set found. is_recovery_branch (sp_witness sp) \<or> sp_spend_txid sp \<notin> accepted \<longrightarrow>
       (\<exists>a \<in> set (tw_raised t). alert_key a = spend_key api sp))"
proof -
  have "cursor_covered (parent_of api prev)
      (block_covered api accepted (\<lambda>h. spends_of_block api scripts (txs h)) (tw_raised t)) (tw_cursor t)"
    unfolding assms(3) using core.drive_covered [OF assms(1,2), of accepted scripts "tower_new cap" rounds] assms(4)
    by (simp add: tower_new_def cursor_new_def cursor_starting_at_def cursor_covered_def seen_raised_def alert_queue_new_def)
  with assms(5,6) have "block_covered api accepted (\<lambda>h. spends_of_block api scripts (txs h)) (tw_raised t) block"
    unfolding cursor_covered_def by (metis snd_conv)
  then show ?thesis unfolding block_covered_def alarming_def by fastforce
qed

subsection \<open>A concrete chain\<close>

definition hex_text :: "bytes \<Rightarrow> string" where
  "hex_text bs = concat (map (\<lambda>b. [''0123456789abcdef'' ! (unat b div 16), ''0123456789abcdef'' ! (unat b mod 16)]) bs)"

definition demo_core_api :: core_api where
  "demo_core_api = \<lparr>ca_script_of_hex = (\<lambda>s. Some (demo_bytes_of_str s)), ca_bytes_of_hex = (\<lambda>s. Some (demo_bytes_of_str s)),
     ca_txid_of_str = (\<lambda>s. Some (demo_bytes_of_str s)), ca_hash_of_str = (\<lambda>s. Some (demo_bytes_of_str s)), ca_sats = as_u64,
     ca_hex = hex_text, ca_show_txid = hex_text, ca_show_hash = demo_str_of_bytes,
     ca_show_outpoint = (\<lambda>p. hex_text (op_txid p) @ '':'' @ show_dec (unat (op_vout p)))\<rparr>"

text \<open>A theft in the second block: it spends the vault script \<open>v\<close> through the normal branch.\<close>

definition demo_theft_tx :: json where
  "demo_theft_tx = JObj [(''txid'', JStr ''T''), (''vin'', JArr [JObj [(''txid'', JStr ''D''), (''vout'', JInt 0),
     (''prevout'', JObj [(''scriptPubKey'', JObj [(''hex'', JStr ''v'')])]), (''txinwitness'', JArr [JStr ''s'', JStr ''1'', JStr ''w''])]])]"

definition demo_prev :: "block_hash \<Rightarrow> json" where
  "demo_prev h = (if h = demo_bytes_of_str ''g'' then JNull else JStr ''g'')"

definition demo_txs :: "block_hash \<Rightarrow> json" where
  "demo_txs h = (if h = demo_bytes_of_str ''g'' then JArr [] else JArr [demo_theft_tx])"

definition demo_core_post :: "string \<Rightarrow> json list \<Rightarrow> (unit, core_error, json) chain_io" where
  "demo_core_post method params w =
     (Inr (JObj [(''result'',
        if method = ''getblockcount'' then JInt 1
        else if method = ''getblockhash'' then (if params = [JInt 0] then JStr ''g'' else JStr ''b'')
        else (case params of JStr s # _ \<Rightarrow> JObj [(''previousblockhash'', demo_prev (demo_bytes_of_str s)), (''tx'', demo_txs (demo_bytes_of_str s))]
              | _ \<Rightarrow> JNull))]), w)"

definition demo_core :: "unit core_rpc" where
  "demo_core = \<lparr>cr_post = demo_core_post, cr_post_batch = (\<lambda>_ w. (Inl Transport, w))\<rparr>"

lemma hex_text_lower: "lower_hex (hex_text bs)"
proof (induction bs)
  case Nil
  then show ?case by (simp add: hex_text_def lower_hex_def)
next
  case (Cons b bs)
  have d: "''0123456789abcdef'' ! n \<in> set ''0123456789abcdef''" if "n < 16" for n
    using that by (intro nth_mem) simp
  have "unat b < 256" using unsigned_less [of b] by simp
  then have "unat b div 16 < 16" "unat b mod 16 < 16" by simp_all
  with d have "list_all (\<lambda>c. c \<in> set ''0123456789abcdef'') [''0123456789abcdef'' ! (unat b div 16), ''0123456789abcdef'' ! (unat b mod 16)]"
    by (simp only: list.pred_inject simp_thms)
  with Cons show ?case unfolding hex_text_def lower_hex_def by (simp only: list.map concat.simps list_all_append simp_thms)
qed

lemmas demo_core_simps = demo_core_def demo_core_post_def demo_core_api_def call_def call_absent_def call_reply_def io_bind_def
  io_opt_def io_res_def json_at_def hash_text_at_def

lemma demo_core_blocks: "core_blocks demo_core demo_core_api demo_prev demo_txs"
  unfolding core_blocks_def
  by (auto simp: demo_core_simps demo_prev_def demo_bytes_roundtrip)

abbreviation demo_vault :: "script list" where "demo_vault \<equiv> [demo_bytes_of_str ''v'']"

definition demo_theft :: spend_seen where
  "demo_theft = \<lparr>sp_spend_txid = demo_bytes_of_str ''T'', sp_outpoint = \<lparr>op_txid = demo_bytes_of_str ''D'', op_vout = 0\<rparr>,
     sp_script = demo_bytes_of_str ''v'', sp_witness = map demo_bytes_of_str [''s'', ''1'', ''w'']\<rparr>"

lemma demo_hashes: "demo_bytes_of_str ''b'' \<noteq> demo_bytes_of_str ''g''"
  by (simp add: demo_bytes_of_str_def)

lemma demo_spends:
  "spends_of_block demo_core_api demo_vault (demo_txs (demo_bytes_of_str ''g'')) = Inr []"
  "spends_of_block demo_core_api demo_vault (demo_txs (demo_bytes_of_str ''b'')) = Inr [demo_theft]"
  by (simp_all add: spends_of_block_def demo_txs_def demo_hashes demo_theft_tx_def spends_of_tx_def spend_of_input_def witness_items_def
      array_or_empty_def opt_res_def demo_core_api_def json_at_def demo_theft_def Let_def List.map_filter_def)

lemma demo_reads:
  "tip_height demo_core w = (Inr 1, w)" "block_hash_at demo_core demo_core_api 1 w = (Inr (Some (demo_bytes_of_str ''b'')), w)"
  "hash_text_at demo_core 0 w = (Inr ''g'', w)" "hash_text_at demo_core 1 w = (Inr ''b'', w)"
  "call demo_core ''getblockhash'' [JInt 1] w = (Inr (JStr ''b''), w)"
  by (simp_all add: tip_height_def block_hash_at_def demo_core_simps)

lemma demo_traverse_blocks:
  "traverse_block demo_core demo_core_api demo_vault None 0 w = (Inr (''g'', demo_bytes_of_str ''g'', []), w)"
  "traverse_block demo_core demo_core_api demo_vault (Some ''g'') 1 w = (Inr (''b'', demo_bytes_of_str ''b'', [demo_theft]), w)"
  using demo_spends
  by (simp_all add: traverse_block_def demo_reads demo_core_simps check_parent_def opt_res_def demo_prev_def demo_hashes)

lemma demo_spends_of:
  "spends_of demo_core demo_core_api demo_vault 0 1 None w =
   (Inr \<lparr>tr_spends = [demo_theft], tr_blocks = [(0, demo_bytes_of_str ''g''), (1, demo_bytes_of_str ''b'')]\<rparr>, w)"
  by (simp add: spends_of_def io_bind_def demo_traverse_blocks demo_traverse_blocks [simplified] demo_reads [simplified] upt_rec)

definition demo_theft_alert :: alert where
  "demo_theft_alert = alert_from_spend demo_core_api UnrecognizedSpend demo_theft"

lemma cursor_starting_at_simps [simp]: "sc_anchors (cursor_starting_at n) = []" "sc_next_from (cursor_starting_at n) = n"
  by (simp_all add: cursor_starting_at_def)

lemma core_scanner_simps [simp]:
  "sb_tip_height (core_scanner rpc api) = tip_height rpc" "sb_block_hash_at (core_scanner rpc api) = block_hash_at rpc api"
  "sb_spends_of (core_scanner rpc api) = spends_of rpc api"
  by (simp_all add: core_scanner_def)

lemma demo_theft_class: "\<not> is_recovery_branch (sp_witness demo_theft)"
  by (simp add: is_recovery_branch_def second_to_last_def demo_theft_def demo_bytes_of_str_def)

lemma demo_scan:
  "drive (core_scanner demo_core demo_core_api) demo_core_api demo_vault (tower_new 4) [(Pass [] [], ())] =
   \<lparr>tw_cursor = \<lparr>sc_anchors = [(0, demo_bytes_of_str ''g''), (1, demo_bytes_of_str ''b'')], sc_next_from = 2\<rparr>,
    tw_queue = snd (queue_push (alert_queue_new 4) demo_theft_alert), tw_raised = [demo_theft_alert]\<rparr>"
proof -
  have e: "extend_anchors (cursor_starting_at 0) [(0, demo_bytes_of_str ''g''), (1, demo_bytes_of_str ''b'')] 0 1 =
      Inr \<lparr>sc_anchors = [(0, demo_bytes_of_str ''g''), (1, demo_bytes_of_str ''b'')], sc_next_from = 0\<rparr>"
    by (simp add: extend_anchors_def cursor_starting_at_def MAX_REORG_DEPTH_def u32_succ_def deque_back_def)
  have so: "spends_of demo_core demo_core_api demo_vault 0 (Suc 0) None w =
      (Inr \<lparr>tr_spends = [demo_theft], tr_blocks = [(0, demo_bytes_of_str ''g''), (Suc 0, demo_bytes_of_str ''b'')]\<rparr>, w)" for w
    using demo_spends_of [of w] by simp
  have r: "scan_range (core_scanner demo_core demo_core_api) demo_core_api demo_vault [] (cursor_starting_at 0) 0 1 w =
      (Inr ([demo_theft_alert], \<lparr>sc_anchors = [(0, demo_bytes_of_str ''g''), (1, demo_bytes_of_str ''b'')], sc_next_from = 2\<rparr>), w)" for w
    by (simp add: scan_range_def scan_through_def io_bind_def demo_reads demo_reads [simplified] io_opt_def io_res_def e e [simplified] demo_theft_class
        so demo_theft_alert_def u32_max_def)
  have "fst (queue_push (alert_queue_new 4) demo_theft_alert)" by (simp add: queue_push_def alert_queue_new_def Let_def)
  then show ?thesis
    by (simp add: scan_pass_def reconcile_cursor_def tower_new_def cursor_new_def r r [simplified]
        split_beta Let_def demo_reads demo_reads [simplified])
qed

text \<open>One pass over the two blocks, with nothing accepted: the theft in the second block has been raised.\<close>

theorem watchtower_skips_no_block_witness:
  "let t = drive (core_scanner demo_core demo_core_api) demo_core_api demo_vault (tower_new 4) [(Pass [] [], ())]
   in (1, demo_bytes_of_str ''b'') \<in> set (sc_anchors (tw_cursor t)) \<and>
      (\<exists>a \<in> set (tw_raised t). alert_key a = spend_key demo_core_api demo_theft)"
proof -
  let ?t = "drive (core_scanner demo_core demo_core_api) demo_core_api demo_vault (tower_new 4) [(Pass [] [], ())]"
  have m: "(1, demo_bytes_of_str ''b'') \<in> set (sc_anchors (tw_cursor ?t))" unfolding demo_scan by simp
  have "\<forall>t. lower_hex (ca_show_txid demo_core_api t)" by (simp add: demo_core_api_def hex_text_lower)
  from watchtower_skips_no_block [OF demo_core_blocks this refl _ m anc_refl, of "{}"]
  have "\<exists>found. spends_of_block demo_core_api demo_vault (demo_txs (demo_bytes_of_str ''b'')) = Inr found \<and>
      (\<forall>sp \<in> set found. \<exists>a \<in> set (tw_raised ?t). alert_key a = spend_key demo_core_api sp)" by simp
  then show ?thesis unfolding Let_def demo_spends using m by auto
qed

subsection \<open>The cursor invariant\<close>

text \<open>
  The anchors are a window of at most 101 consecutive heights, and the next scan starts right above the
  newest of them: the debug assertion at the end of a pass, and what the comment at the early return of
  \<open>scan_pass\<close> asks for.
\<close>

definition contiguous :: "(nat \<times> block_hash) list \<Rightarrow> bool" where
  "contiguous as \<longleftrightarrow> map fst as = [fst (hd as)..<fst (hd as) + length as]"

definition cursor_ok :: "scan_cursor \<Rightarrow> bool" where
  "cursor_ok cur \<longleftrightarrow> sc_anchors cur \<noteq> [] \<longrightarrow>
     contiguous (sc_anchors cur) \<and> length (sc_anchors cur) \<le> MAX_REORG_DEPTH + 1 \<and>
     sc_next_from cur = fst (List.last (sc_anchors cur)) + 1 \<and> fst (List.last (sc_anchors cur)) < u32_max"

lemma contiguousI: "map fst as = [lo..<hi] \<Longrightarrow> contiguous as"
proof (cases as)
  case (Cons a rest)
  assume h: "map fst as = [lo..<hi]"
  then have "lo < hi" using Cons by (cases "lo < hi") auto
  then have "fst (hd as) = lo" using h Cons by (metis hd_map hd_upt list.distinct(1))
  moreover have "lo + length as = hi" using h \<open>lo < hi\<close> by (metis le_add_diff_inverse length_map length_upt less_imp_le)
  ultimately show ?thesis using h by (simp add: contiguous_def)
qed (simp add: contiguous_def)

lemma contiguous_nth: "contiguous as \<Longrightarrow> i < length as \<Longrightarrow> fst (as ! i) = fst (hd as) + i"
  unfolding contiguous_def by (metis length_map nth_map nth_upt nat_add_left_cancel_less)

lemma contiguous_last: "contiguous as \<Longrightarrow> as \<noteq> [] \<Longrightarrow> fst (List.last as) + 1 = fst (hd as) + length as"
  using contiguous_nth [of as "length as - 1"] by (simp add: last_conv_nth)

lemma contiguous_drop: "contiguous as \<Longrightarrow> contiguous (drop n as)"
  unfolding contiguous_def [of as] by (metis contiguousI drop_map drop_upt)

lemma contiguous_take: "contiguous as \<Longrightarrow> contiguous (take n as)"
proof -
  assume c: "contiguous as"
  have "map fst (take n as) = take n [fst (hd as)..<fst (hd as) + length as]" using c unfolding contiguous_def by (metis take_map)
  also have "\<dots> = [fst (hd as)..<fst (hd as) + min n (length as)]"
    by (cases "n \<le> length as") simp_all
  finally show ?thesis by (rule contiguousI)
qed

lemma contiguous_append:
  assumes "contiguous as" "as \<noteq> []" "map fst bs = [fst (List.last as) + 1..<hi]"
  shows "contiguous (as @ bs)"
proof (cases "bs = []")
  case True
  with assms(1) show ?thesis by simp
next
  case False
  then have "fst (List.last as) + 1 < hi" using assms(3) by (metis length_0_conv length_map list.size(3) upt_conv_Nil not_less)
  moreover have "fst (hd as) \<le> fst (List.last as) + 1" using contiguous_last [OF assms(1,2)] by simp
  ultimately have "[fst (hd as)..<hi] = [fst (hd as)..<fst (List.last as) + 1] @ [fst (List.last as) + 1..<hi]"
    by (metis le_add_diff_inverse less_imp_le upt_add_eq_append)
  then have "map fst (as @ bs) = [fst (hd as)..<hi]"
    using assms(1,3) contiguous_last [OF assms(1,2)] unfolding contiguous_def by (metis map_append)
  then show ?thesis by (rule contiguousI)
qed

lemma pop_above_contiguous:
  assumes "contiguous as" and "(fork, x) \<in> set as"
  shows "contiguous (pop_above fork as) \<and> pop_above fork as \<noteq> [] \<and> fst (List.last (pop_above fork as)) = fork \<and>
    length (pop_above fork as) \<le> length as"
proof -
  obtain i where i: "i < length as" "as ! i = (fork, x)" using assms(2) by (auto simp: in_set_conv_nth)
  have f: "fst (hd as) + i = fork" using contiguous_nth [OF assms(1) i(1)] i(2) by simp
  have "\<forall>b \<in> set (drop (Suc i) as). fst b > fork"
  proof
    fix b
    assume "b \<in> set (drop (Suc i) as)"
    then obtain j where "j < length as - Suc i" "b = as ! (Suc i + j)" by (auto simp: in_set_conv_nth)
    then show "fst b > fork" using contiguous_nth [OF assms(1), of "Suc i + j"] f by simp
  qed
  then have d: "dropWhile (\<lambda>(h, _). h > fork) (rev (drop (Suc i) as) @ ys) = dropWhile (\<lambda>(h, _). h > fork) ys" for ys
    by (intro dropWhile_append2) auto
  have t: "take (Suc i) as = take i as @ [(fork, x)]" using i by (simp add: take_Suc_conv_app_nth)
  have "rev as = rev (drop (Suc i) as) @ rev (take (Suc i) as)" by (metis append_take_drop_id rev_append)
  then have "pop_above fork as = take (Suc i) as" unfolding pop_above_def using d by (simp add: t)
  with t contiguous_take [OF assms(1), of "Suc i"] i(1) show ?thesis by simp
qed

lemma cursor_ok_succ: "cursor_ok cur \<Longrightarrow> (h, x) \<in> set (sc_anchors cur) \<Longrightarrow> u32_succ h = h + 1 \<and> h < u32_max"
proof -
  assume c: "cursor_ok cur" and m: "(h, x) \<in> set (sc_anchors cur)"
  then have ne: "sc_anchors cur \<noteq> []" by auto
  with c have k: "contiguous (sc_anchors cur)" "fst (List.last (sc_anchors cur)) < u32_max" by (auto simp: cursor_ok_def)
  obtain i where "i < length (sc_anchors cur)" "sc_anchors cur ! i = (h, x)" using m by (auto simp: in_set_conv_nth)
  then have "h \<le> fst (List.last (sc_anchors cur))"
    using contiguous_nth [OF k(1), of i] contiguous_last [OF k(1) ne] by simp
  with k(2) show ?thesis by (simp add: u32_succ_def u32_max_def)
qed

lemma reconcile_cursor_ok:
  assumes "cursor_ok cur" and "reconcile_cursor be cur w = (Inr (from_height, cur1), w1)"
  shows "cursor_ok cur1 \<and> from_height = sc_next_from cur1"
proof -
  consider (same) "cur1 = cur" "from_height = sc_next_from cur"
    | (fork) fork x where "(fork, x) \<in> set (sc_anchors cur)" "from_height = u32_succ fork"
        "cur1 = \<lparr>sc_anchors = pop_above fork (sc_anchors cur), sc_next_from = u32_succ fork\<rparr>"
    | (reset) "from_height = 0" "cur1 = \<lparr>sc_anchors = [], sc_next_from = 0\<rparr>"
    by (rule reconcile_cases [OF assms(2)])
  then show ?thesis
  proof cases
    case fork
    have c: "contiguous (sc_anchors cur)" "length (sc_anchors cur) \<le> MAX_REORG_DEPTH + 1"
      using assms(1) fork(1) by (auto simp: cursor_ok_def)
    from pop_above_contiguous [OF c(1) fork(1)] c(2) cursor_ok_succ [OF assms(1) fork(1)] fork(2,3) show ?thesis
      by (auto simp: cursor_ok_def)
  qed (use assms(1) in \<open>simp_all add: cursor_ok_def\<close>)
qed

lemma filter_upt_ge: "filter (\<lambda>h. k \<le> h) [i..<j] = [max i k..<j]"
  by (induction j) (auto simp: max_def)

text \<open>The check of the code against a gap: the first block pushed follows the newest anchor.\<close>

lemma first_pushed_height:
  assumes "push_blocks as bs = Inr ps" "bs \<noteq> []" "as \<noteq> []" "map fst bs = [start..<hi]" "u32_succ (fst (List.last as)) = h"
  shows "start = h"
proof -
  obtain b rest where bs: "bs = b # rest" using assms(2) by (cases bs) auto
  then have "start < hi" using assms(4) by (cases "start < hi") auto
  then have "fst b = start" using assms(4) bs by (simp add: upt_conv_Cons)
  moreover have "fst b = u32_succ (fst (List.last as))"
    using assms(1,3) bs by (cases b) (auto simp: deque_back_def split: prod.splits if_splits)
  ultimately show ?thesis using assms(5) by simp
qed

lemma extend_anchors_ok:
  assumes ok: "cursor_ok cur" "from_height = sc_next_from cur" and tip: "tip < u32_max"
    and above: "case deque_back (sc_anchors cur) of None \<Rightarrow> True | Some (h, _) \<Rightarrow> h \<le> tip"
    and hs: "map fst blocks = [from_height..<tip + 1]"
    and ex: "extend_anchors cur blocks from_height tip = Inr adv"
  shows "cursor_ok (adv\<lparr>sc_next_from := tip + 1\<rparr>) \<and> (sc_anchors adv \<noteq> [] \<longrightarrow> fst (List.last (sc_anchors adv)) = tip)"
proof (cases "from_height \<le> tip")
  case False
  then have a: "adv = cur" using ex by (simp add: extend_anchors_def)
  have "fst (List.last (sc_anchors cur)) = tip" if "sc_anchors cur \<noteq> []"
    using that ok above False by (auto simp: cursor_ok_def deque_back_def split: prod.splits)
  with ok(1) tip show ?thesis by (auto simp: a cursor_ok_def)
next
  case True
  obtain as start where as: "as = [] \<or> as = sc_anchors cur" and
    anc: "sc_anchors adv = drop (length (as @ filter (\<lambda>b. start \<le> fst b) blocks) - (MAX_REORG_DEPTH + 1)) (as @ filter (\<lambda>b. start \<le> fst b) blocks)" and
    pb: "push_blocks as (filter (\<lambda>b. start \<le> fst b) blocks) = Inr (as @ filter (\<lambda>b. start \<le> fst b) blocks)" and
    st: "start = (case deque_back as of None \<Rightarrow> max from_height (tip - MAX_REORG_DEPTH)
      | Some (h, _) \<Rightarrow> max (u32_succ h) (max from_height (tip - MAX_REORG_DEPTH)))"
    by (rule extend_anchors_Ok [OF ex True])
  define bs where "bs = filter (\<lambda>b. start \<le> fst b) blocks"
  have succ: "u32_succ (fst (List.last as)) = from_height \<and> fst (List.last as) + 1 = from_height" if "as \<noteq> []"
    using that as ok cursor_ok_succ [OF ok(1), of "fst (List.last as)" "snd (List.last as)"] by (auto simp: cursor_ok_def)
  have start: "start = max from_height (tip - MAX_REORG_DEPTH)"
    unfolding st using succ by (cases "as = []") (auto simp: deque_back_def split: prod.splits)
  have "map fst bs = filter (\<lambda>h. start \<le> h) [from_height..<tip + 1]" unfolding bs_def hs [symmetric] by (simp add: filter_map comp_def)
  also have "\<dots> = [start..<tip + 1]" unfolding filter_upt_ge using start by (simp add: max.absorb2)
  finally have b: "map fst bs = [start..<tip + 1]" .
  have ne: "bs \<noteq> []" using b start True by auto
  then have l: "fst (List.last bs) = tip" using b by (metis add_diff_cancel_right' last_map last_upt list.map_disc_iff upt_conv_Nil not_le map_is_Nil_conv less_imp_le not_less)
  have c: "contiguous (as @ bs)"
  proof (cases "as = []")
    case True
    then show ?thesis using contiguousI [OF b] by simp
  next
    case False
    have "push_blocks as bs = Inr (as @ bs)" using pb by (simp only: bs_def)
    from first_pushed_height [OF this ne False b conjunct1 [OF succ [OF False]]] have "start = from_height" .
    then have "map fst bs = [fst (List.last as) + 1..<tip + 1]" using b succ [OF False] by (simp only:)
    moreover have "contiguous as" using as False ok(1) by (auto simp: cursor_ok_def)
    ultimately show ?thesis using False by (intro contiguous_append)
  qed
  define ps where "ps = as @ bs"
  have a: "sc_anchors adv = drop (length ps - (MAX_REORG_DEPTH + 1)) ps" using anc by (simp only: bs_def ps_def)
  have "ps \<noteq> []" "fst (List.last ps) = tip" "contiguous ps" using ne l c by (simp_all add: ps_def)
  then have "fst (List.last (sc_anchors adv)) = tip" "contiguous (sc_anchors adv)" "length (sc_anchors adv) \<le> MAX_REORG_DEPTH + 1"
    by (simp_all add: a last_drop contiguous_drop MAX_REORG_DEPTH_def)
  then show ?thesis using tip by (simp add: cursor_ok_def)
qed

lemma scan_pass_cursor_ok:
  assumes "cursor_ok cur" and heights: "\<And>from_height through ex w tr w'. sb_spends_of be scripts from_height through ex w = (Inr tr, w') \<Longrightarrow>
      map fst (tr_blocks tr) = [from_height..<through + 1]"
    and tips: "\<And>w n w'. sb_tip_height be w = (Inr n, w') \<Longrightarrow> n < u32_max"
    and p: "scan_pass be api scripts auth q cur w = ((outcome, cur', q'), w')"
  shows "cursor_ok cur'"
proof (cases "reconcile_cursor be cur w")
  case (Pair res w1)
  show ?thesis
  proof (cases res)
    case (Inl e)
    with p Pair have "cur' = cur" by (auto simp: scan_pass_def)
    with assms(1) show ?thesis by simp
  next
    case (Inr fc)
    obtain from_height cur1 where fc: "fc = (from_height, cur1)" by (cases fc)
    note rc = reconcile_cursor_ok [OF assms(1) Pair [unfolded Inr fc]]
    consider (stay) "cur' = cur1"
      | (commit) tip w2 w3 alerts w4 where "sb_tip_height be w1 = (Inr tip, w2)"
        "\<not> (case deque_back (sc_anchors cur1) of None \<Rightarrow> False | Some (h, _) \<Rightarrow> tip < h)"
        "scan_range be api scripts auth cur1 from_height tip w3 = (Inr (alerts, cur'), w4)"
      using p Pair Inr fc by (auto simp: scan_pass_def Let_def split: prod.splits sum.splits if_splits)
    then show ?thesis
    proof cases
      case stay
      with rc show ?thesis by simp
    next
      case commit
      from commit(3) obtain tr w5 w6 adv where
        t: "sb_spends_of be scripts from_height tip (map_option snd (deque_back (sc_anchors cur1))) w5 = (Inr tr, w6)" and
        ex: "extend_anchors cur1 (tr_blocks tr) from_height tip = Inr adv" and cur': "cur' = adv\<lparr>sc_next_from := min (tip + 1) u32_max\<rparr>"
        by (auto simp: scan_range_def scan_through_def io_bind_Ok_iff split: if_splits)
      have "tip < u32_max" by (rule tips [OF commit(1)])
      with extend_anchors_ok [OF _ _ this _ heights [OF t] ex] rc commit(2) show ?thesis
        by (auto simp: cur' split: option.splits)
    qed
  qed
qed

text \<open>The scan cursor stays well formed. Whatever the chain does, and whether passes commit, fail or
  panic, the anchors of the cursor are at most 101 blocks of consecutive heights and the next pass starts
  exactly one above the newest anchor, so no height can fall between two passes.\<close>

theorem scan_cursor_invariant:
  assumes "core_blocks rpc api prev txs" and "\<forall>w n w'. tip_height rpc w = (Inr n, w') \<longrightarrow> n < u32_max"
    and "cur = tw_cursor (drive (core_scanner rpc api) api scripts (tower_new cap) rounds)" and "sc_anchors cur \<noteq> []"
  shows "map fst (sc_anchors cur) = [fst (hd (sc_anchors cur))..<sc_next_from cur] \<and> length (sc_anchors cur) \<le> 101 \<and>
    sc_next_from cur = fst (List.last (sc_anchors cur)) + 1"
proof -
  have "cursor_ok (tw_cursor t) \<Longrightarrow> cursor_ok (tw_cursor (drive (core_scanner rpc api) api scripts t rounds))" for t
  proof (induction rounds arbitrary: t)
    case Nil
    then show ?case by simp
  next
    case (Cons rw rounds)
    obtain r w where rw: "rw = (r, w)" by (cases rw)
    have "cursor_ok (tw_cursor (fst (drive_round (core_scanner rpc api) api scripts r (t, w))))"
    proof (cases r)
      case (Pass auth evs)
      obtain outcome cur' q' w' where p: "scan_pass (core_scanner rpc api) api scripts auth
          (queue_run (tw_queue t) (map (\<lambda>(ev, h). RecordFreshness ev h) evs)) (tw_cursor t) w = ((outcome, cur', q'), w')"
        by (metis surj_pair)
      have "cursor_ok cur'"
      proof (rule scan_pass_cursor_ok [OF Cons.prems _ _ p])
        show "map fst (tr_blocks tr) = [from_height..<through + 1]"
          if "sb_spends_of (core_scanner rpc api) scripts from_height through ex w = (Inr tr, w')" for from_height through ex w tr w'
          using spends_of_Ok(1) [OF assms(1)] that unfolding core_scanner_simps .
        show "n < u32_max" if "sb_tip_height (core_scanner rpc api) w = (Inr n, w')" for w n w'
          using assms(2) that unfolding core_scanner_simps by blast
      qed
      with p show ?thesis by (simp add: Pass)
    next
      case PanickedPass
      then show ?thesis by (simp add: cursor_ok_def cursor_new_def)
    qed
    with Cons.IH show ?case by (simp add: rw)
  qed
  then have "cursor_ok cur" unfolding assms(3) by (simp add: tower_new_def cursor_ok_def cursor_new_def)
  with assms(4) have c: "contiguous (sc_anchors cur)" "length (sc_anchors cur) \<le> MAX_REORG_DEPTH + 1"
    "sc_next_from cur = fst (List.last (sc_anchors cur)) + 1" by (auto simp: cursor_ok_def)
  with contiguous_last [OF c(1) assms(4)] show ?thesis by (auto simp: contiguous_def MAX_REORG_DEPTH_def)
qed

theorem scan_cursor_invariant_witness:
  "let cur = tw_cursor (drive (core_scanner demo_core demo_core_api) demo_core_api demo_vault (tower_new 4) [(Pass [] [], ())])
   in map fst (sc_anchors cur) = [0..<2] \<and> sc_next_from cur = 2"
proof -
  let ?cur = "tw_cursor (drive (core_scanner demo_core demo_core_api) demo_core_api demo_vault (tower_new 4) [(Pass [] [], ())])"
  have c: "sc_anchors ?cur \<noteq> []" "sc_next_from ?cur = 2" "fst (hd (sc_anchors ?cur)) = 0" unfolding demo_scan by simp_all
  have "\<forall>w n w'. tip_height demo_core w = (Inr n, w') \<longrightarrow> n < u32_max" by (simp add: demo_reads u32_max_def)
  from scan_cursor_invariant [OF demo_core_blocks this refl c(1)] c(2,3) show ?thesis unfolding Let_def by metis
qed

end
