(* ===== verification/Core_Vault.thy ===== *)
theory Core_Vault
  imports Core_Rpc "HOL-Library.Multiset"
begin

text \<open>
  The reads of the Bitcoin Core client that decide whether a sweep is admissible: prevouts (one by one
  and in a batch), the mempool, the cached set of confirmed vault outputs with its bounded advance over
  new blocks, and the fire-time denominator \<open>vault_unspent\<close>. The backend object keeps its cache and the
  handle of its wallet in \<open>core_state\<close>, which is part of the world: a call waits for the network, and
  meanwhile other threads may change both. A hash set of outpoints is a list without repetition.
\<close>

subsection \<open>The state of the backend\<close>

record vault_cache =
  vc_bestblock :: block_hash
  vc_height :: nat
  vc_scripts :: "script list"
  vc_candidates :: "outpoint list"

record vault_wallet =
  vw_name :: string
  vw_scripts :: "script list"
  vw_anchor :: "nat \<times> block_hash"

record core_state =
  cs_scan_cache :: "vault_cache option"
  cs_vault_wallet :: "vault_wallet option"
  cs_reimport_pending :: bool
  cs_reimport_in_progress :: bool
  cs_full_scans :: nat

type_synonym 'n core_world = "core_state \<times> 'n"

definition io_state :: "('n core_world, 'e, core_state) chain_io" where
  "io_state w = (Ok (fst w), w)"

definition io_update :: "(core_state \<Rightarrow> core_state) \<Rightarrow> ('n core_world, 'e, unit) chain_io" where
  "io_update f w = (Ok (), (f (fst w), snd w))"

subsection \<open>Prevouts\<close>

definition parse_prevout :: "core_api \<Rightarrow> json \<Rightarrow> core_error + prevout option" where
  "parse_prevout api result =
     (let bad = BadReply ''gettxout'' in
      if result = JNull then Ok None
      else bind_res (opt_res bad (as_str (json_at (json_at result ''scriptPubKey'') ''hex''))) (\<lambda>spk_hex.
        bind_res (opt_res bad (ca_sats api (json_at result ''value''))) (\<lambda>sats.
        bind_res (opt_res bad (as_u64 (json_at result ''confirmations''))) (\<lambda>confirmations.
        bind_res (opt_res bad (ca_script_of_hex api spk_hex)) (\<lambda>spk.
        Ok (Some \<lparr>po_txout = \<lparr>script_pubkey = spk, txo_value = sats\<rparr>, po_confirmed = confirmations > 0\<rparr>))))))"

definition gettxout_params :: "core_api \<Rightarrow> outpoint \<Rightarrow> json list" where
  "gettxout_params api outpoint = [JStr (ca_show_txid api (op_txid outpoint)), JInt (uint (op_vout outpoint)), JBool True]"

definition core_prevout :: "'w core_rpc \<Rightarrow> core_api \<Rightarrow> outpoint \<Rightarrow> ('w, core_error, prevout option) chain_io" where
  "core_prevout rpc api outpoint =
     io_bind (call rpc ''gettxout'' (gettxout_params api outpoint)) (\<lambda>result. io_res (parse_prevout api result))"

text \<open>One reply of the batch, filed under its id.\<close>

definition place_reply :: "core_api \<Rightarrow> nat \<Rightarrow> json \<Rightarrow> prevout option option list \<Rightarrow> core_error + prevout option option list" where
  "place_reply api n reply ordered =
     (case as_u64 (json_at reply ''id'') of
        None \<Rightarrow> Err BatchReplies
      | Some i \<Rightarrow>
          if \<not> i < n then Err BatchReplies
          else if ordered ! i \<noteq> None then Err BatchReplies
          else if json_at reply ''error'' \<noteq> JNull then Err (RpcRefused ''gettxout'')
          else bind_res (parse_prevout api (json_at reply ''result'')) (\<lambda>p. Ok (ordered[i := Some p])))"

fun place_replies :: "core_api \<Rightarrow> nat \<Rightarrow> json list \<Rightarrow> prevout option option list \<Rightarrow> core_error + prevout option option list" where
  "place_replies api n [] ordered = Ok ordered"
| "place_replies api n (reply # replies) ordered = bind_res (place_reply api n reply ordered) (place_replies api n replies)"

definition core_prevouts :: "'w core_rpc \<Rightarrow> core_api \<Rightarrow> outpoint list \<Rightarrow> ('w, core_error, prevout option list) chain_io" where
  "core_prevouts rpc api outpoints =
     (if outpoints = [] then io_return []
      else io_bind (cr_post_batch rpc (map (\<lambda>(i, outp). (i, ''gettxout'', gettxout_params api outp)) (enumerate 0 outpoints))) (\<lambda>replies.
        io_bind (io_guard BatchReplies (length replies = length outpoints)) (\<lambda>_.
        io_bind (io_res (place_replies api (length outpoints) replies (replicate (length outpoints) None))) (\<lambda>ordered.
        io_res (collect_res (opt_res BatchReplies) ordered)))))"

subsection \<open>Broadcast, mempool and confirmation\<close>

definition core_broadcast :: "'w core_rpc \<Rightarrow> core_api \<Rightarrow> tx_api \<Rightarrow> bytes \<Rightarrow> ('w, core_error, txid) chain_io" where
  "core_broadcast rpc api ta raw_tx =
     io_bind (io_opt MalformedTx (tx_deserialize ta raw_tx)) (\<lambda>tx.
     io_bind (call rpc ''sendrawtransaction'' [JStr (ca_hex api (tx_serialize ta tx))]) (\<lambda>result.
     io_bind (io_opt (BadReply ''sendrawtransaction'') (as_str result)) (\<lambda>txid.
     io_opt (BadReply ''sendrawtransaction'') (ca_txid_of_str api txid))))"

definition txid_entries :: "core_api \<Rightarrow> json list \<Rightarrow> core_error + txid list" where
  "txid_entries api entries =
     collect_res (\<lambda>entry. bind_res (opt_res (BadReply ''getrawmempool'') (as_str entry)) (\<lambda>t.
       opt_res (BadReply ''getrawmempool'') (ca_txid_of_str api t))) entries"

definition mempool_txids :: "'w core_rpc \<Rightarrow> core_api \<Rightarrow> ('w, core_error, txid list) chain_io" where
  "mempool_txids rpc api =
     io_bind (call rpc ''getrawmempool'' []) (\<lambda>mempool.
     io_bind (io_opt (BadReply ''getrawmempool'') (as_array mempool)) (\<lambda>entries.
     io_res (txid_entries api entries)))"

definition mempool_snapshot :: "'w core_rpc \<Rightarrow> core_api \<Rightarrow> ('w, core_error, txid list \<times> nat) chain_io" where
  "mempool_snapshot rpc api =
     io_bind (call rpc ''getrawmempool'' [JBool False, JBool True]) (\<lambda>reply.
     io_bind (io_opt (BadReply ''getrawmempool'') (as_u64 (json_at reply ''mempool_sequence''))) (\<lambda>sequence.
     io_bind (io_opt (BadReply ''getrawmempool'') (as_array (json_at reply ''txids''))) (\<lambda>entries.
     io_bind (io_res (txid_entries api entries)) (\<lambda>txids.
     io_return (remdups txids, sequence)))))"

definition raw_transaction_if_available :: "'w core_rpc \<Rightarrow> core_api \<Rightarrow> txid \<Rightarrow> ('w, core_error, bytes option) chain_io" where
  "raw_transaction_if_available rpc api txid =
     io_bind (call_absent rpc (- 5) ''getrawtransaction'' [JStr (ca_show_txid api txid)]) (\<lambda>r. case r of
       None \<Rightarrow> io_return None
     | Some result \<Rightarrow>
         io_bind (io_opt (BadReply ''getrawtransaction'') (as_str result)) (\<lambda>hex.
         io_bind (io_opt (BadReply ''getrawtransaction'') (ca_bytes_of_hex api hex)) (\<lambda>raw. io_return (Some raw))))"

definition core_mempool_transaction :: "'w core_rpc \<Rightarrow> core_api \<Rightarrow> txid \<Rightarrow> ('w, core_error, bytes option) chain_io" where
  "core_mempool_transaction rpc api txid =
     io_bind (mempool_txids rpc api) (\<lambda>resident.
     if txid \<notin> set resident then io_return None else raw_transaction_if_available rpc api txid)"

definition core_mempool_resident ::
  "'w core_rpc \<Rightarrow> core_api \<Rightarrow> txid list \<Rightarrow> ('w, core_error, (txid \<times> bytes) option) chain_io" where
  "core_mempool_resident rpc api txids =
     (if txids = [] then io_return None
      else io_bind (mempool_txids rpc api) (\<lambda>resident.
        case List.find (\<lambda>t. t \<in> set resident) txids of
          None \<Rightarrow> io_return None
        | Some found \<Rightarrow>
            io_bind (raw_transaction_if_available rpc api found) (\<lambda>raw. io_return (map_option (\<lambda>r. (found, r)) raw))))"

definition core_transaction_confirmed :: "'w core_rpc \<Rightarrow> core_api \<Rightarrow> txid \<Rightarrow> ('w, core_error, bool) chain_io" where
  "core_transaction_confirmed rpc api txid =
     io_bind (call_absent rpc (- 5) ''getrawtransaction'' [JStr (ca_show_txid api txid), JBool True]) (\<lambda>r. case r of
       None \<Rightarrow> io_return False
     | Some (JObj m) \<Rightarrow>
         io_return (case as_u64 (json_at (JObj m) ''confirmations'') of None \<Rightarrow> False | Some n \<Rightarrow> n > 0)
     | Some _ \<Rightarrow> io_fail (BadReply ''getrawtransaction''))"

definition entry_allows :: "json \<Rightarrow> bool" where
  "entry_allows entry \<longleftrightarrow> as_bool (json_at entry ''allowed'') = Some True \<or>
     as_str (json_at entry ''reject-reason'') = Some ''txn-already-in-mempool''"

definition core_test_package_accept :: "'w core_rpc \<Rightarrow> core_api \<Rightarrow> bytes list \<Rightarrow> ('w, core_error, package_verdict) chain_io" where
  "core_test_package_accept rpc api raw_txs =
     (if raw_txs = [] then io_fail EmptyPackage
      else io_bind (call rpc ''testmempoolaccept'' [JArr (map (\<lambda>raw. JStr (ca_hex api raw)) raw_txs)]) (\<lambda>result.
        io_bind (io_opt (BadReply ''testmempoolaccept'') (as_array result)) (\<lambda>entries.
        io_return (if list_all entry_allows entries then PackageAccepted else PackageRejected))))"

subsection \<open>Advancing the cache\<close>

definition MAX_VAULT_SCAN_DELTA_BLOCKS :: nat where "MAX_VAULT_SCAN_DELTA_BLOCKS = 32"

text \<open>An input removes the outpoint it spends; one without an outpoint is the coinbase.\<close>

definition spend_candidate :: "core_api \<Rightarrow> json \<Rightarrow> outpoint list \<Rightarrow> core_error + outpoint list" where
  "spend_candidate api vin candidates =
     (case (as_str (json_at vin ''txid''), as_u64 (json_at vin ''vout'')) of
        (Some txid, Some vout) \<Rightarrow>
          bind_res (u32_of (TooLarge ''vout'') vout) (\<lambda>v.
          bind_res (opt_res (BadReply ''getblock'') (ca_txid_of_str api txid)) (\<lambda>t.
          Ok (removeAll \<lparr>op_txid = t, op_vout = v\<rparr> candidates)))
      | _ \<Rightarrow> Ok candidates)"

definition add_candidate :: "core_api \<Rightarrow> script list \<Rightarrow> txid \<Rightarrow> nat \<times> json \<Rightarrow> outpoint list \<Rightarrow> core_error + outpoint list" where
  "add_candidate api watched txid output candidates =
     bind_res (opt_res (BadReply ''getblock'') (as_str (json_at (json_at (snd output) ''scriptPubKey'') ''hex''))) (\<lambda>script_hex.
     bind_res (opt_res (BadReply ''getblock'') (ca_script_of_hex api script_hex)) (\<lambda>script.
     if script \<in> set watched
     then bind_res (u32_of (TooLarge ''vout'') (fst output)) (\<lambda>v. Ok (set_insert \<lparr>op_txid = txid, op_vout = v\<rparr> candidates))
     else Ok candidates))"

fun fold_res :: "('a \<Rightarrow> 's \<Rightarrow> 'e + 's) \<Rightarrow> 'a list \<Rightarrow> 's \<Rightarrow> 'e + 's" where
  "fold_res f [] s = Ok s"
| "fold_res f (x # xs) s = bind_res (f x s) (fold_res f xs)"

definition apply_tx :: "core_api \<Rightarrow> script list \<Rightarrow> json \<Rightarrow> outpoint list \<Rightarrow> core_error + outpoint list" where
  "apply_tx api watched tx candidates =
     bind_res (fold_res (spend_candidate api) (array_or_empty (Some (json_at tx ''vin''))) candidates) (\<lambda>unspent.
     bind_res (opt_res (BadReply ''getblock'') (as_str (json_at tx ''txid''))) (\<lambda>txid_text.
     bind_res (opt_res (BadReply ''getblock'') (ca_txid_of_str api txid_text)) (\<lambda>txid.
     bind_res (opt_res (BadReply ''getblock'') (as_array (json_at tx ''vout''))) (\<lambda>outputs.
     fold_res (add_candidate api watched txid) (enumerate 0 outputs) unspent))))"

definition apply_block :: "core_api \<Rightarrow> script list \<Rightarrow> json \<Rightarrow> outpoint list \<Rightarrow> core_error + outpoint list" where
  "apply_block api watched txs_field candidates =
     bind_res (opt_res (BadReply ''getblock'') (as_array txs_field)) (\<lambda>txs. fold_res (apply_tx api watched) txs candidates)"

definition delta_block ::
  "'w core_rpc \<Rightarrow> core_api \<Rightarrow> script list \<Rightarrow> nat \<Rightarrow> block_hash \<times> outpoint list \<Rightarrow> ('w, core_error, block_hash \<times> outpoint list) chain_io" where
  "delta_block rpc api watched height st =
     io_bind (block_hash_at rpc api height) (\<lambda>r.
     io_bind (io_opt (BlockVanished height) r) (\<lambda>hash.
     io_bind (call rpc ''getblock'' [JStr (ca_show_hash api hash), JInt 2]) (\<lambda>block.
     io_bind (io_guard (NotChained height) (as_str (json_at block ''previousblockhash'') = Some (ca_show_hash api (fst st)))) (\<lambda>_.
     io_bind (io_res (apply_block api watched (json_at block ''tx'') (snd st))) (\<lambda>candidates.
     io_return (hash, candidates))))))"

fun delta_blocks ::
  "'w core_rpc \<Rightarrow> core_api \<Rightarrow> script list \<Rightarrow> nat list \<Rightarrow> block_hash \<times> outpoint list \<Rightarrow> ('w, core_error, block_hash \<times> outpoint list) chain_io" where
  "delta_blocks rpc api watched [] st = io_return st"
| "delta_blocks rpc api watched (height # hs) st = io_bind (delta_block rpc api watched height st) (delta_blocks rpc api watched hs)"

definition advance_confirmed_scan :: "'w core_rpc \<Rightarrow> core_api \<Rightarrow> vault_cache \<Rightarrow> ('w, core_error, vault_cache) chain_io" where
  "advance_confirmed_scan rpc api cache =
     io_bind (tip_height rpc) (\<lambda>tip.
     if tip \<le> vc_height cache then io_return cache
     else let through = min tip (min (vc_height cache + MAX_VAULT_SCAN_DELTA_BLOCKS) (2 ^ 32 - 1)) in
       io_bind (delta_blocks rpc api (vc_scripts cache) [vc_height cache + 1..<through + 1] (vc_bestblock cache, vc_candidates cache))
         (\<lambda>(parent, candidates).
       io_bind (block_hash_at rpc api through) (\<lambda>active.
       if active \<noteq> Some parent then io_fail (NoLongerActive through)
       else io_return (cache\<lparr>vc_bestblock := parent, vc_height := through, vc_candidates := candidates\<rparr>))))"

subsection \<open>The cold scan\<close>

definition parse_outpoint :: "core_api \<Rightarrow> string \<Rightarrow> json \<Rightarrow> core_error + outpoint" where
  "parse_outpoint api context entry =
     bind_res (opt_res (BadReply context) (as_str (json_at entry ''txid''))) (\<lambda>txid.
     bind_res (opt_res (BadReply context) (as_u64 (json_at entry ''vout''))) (\<lambda>vout.
     bind_res (opt_res (BadReply context) (ca_txid_of_str api txid)) (\<lambda>t.
     bind_res (u32_of (TooLarge context) vout) (\<lambda>v. Ok \<lparr>op_txid = t, op_vout = v\<rparr>))))"

definition raw_descriptor :: "core_api \<Rightarrow> script \<Rightarrow> string" where
  "raw_descriptor api script = ''raw('' @ ca_hex api script @ '')''"

record cold_scan =
  co_cache :: vault_cache
  co_oldest_unspent_height :: nat

text \<open>One unspent output of the scan: its outpoint and its height.\<close>

definition unspent_entry :: "core_api \<Rightarrow> json \<Rightarrow> core_error + outpoint \<times> nat" where
  "unspent_entry api entry =
     (let bad = BadReply ''scantxoutset'' in
      bind_res (opt_res bad (as_str (json_at entry ''txid''))) (\<lambda>txid.
      bind_res (opt_res bad (as_u64 (json_at entry ''vout''))) (\<lambda>vout.
      bind_res (u32_of (TooLarge ''scantxoutset'') vout) (\<lambda>v.
      bind_res (opt_res bad (as_u64 (json_at entry ''height''))) (\<lambda>height.
      bind_res (u32_of (TooLarge ''scantxoutset'') height) (\<lambda>_.
      bind_res (opt_res bad (ca_txid_of_str api txid)) (\<lambda>t. Ok (\<lparr>op_txid = t, op_vout = v\<rparr>, height))))))))"

definition full_confirmed_scan ::
  "'n core_world core_rpc \<Rightarrow> core_api \<Rightarrow> script list \<Rightarrow> ('n core_world, core_error, cold_scan) chain_io" where
  "full_confirmed_scan rpc api scripts =
     io_bind (io_update (\<lambda>s. s\<lparr>cs_full_scans := cs_full_scans s + 1\<rparr>)) (\<lambda>_.
     io_bind (call rpc ''scantxoutset'' [JStr ''start'', JArr (map (\<lambda>script. JObj [(''desc'', JStr (raw_descriptor api script))]) scripts)]) (\<lambda>scan.
     io_bind (io_guard ScanIncomplete (as_bool (json_at scan ''success'') = Some True)) (\<lambda>_.
     io_bind (io_opt (BadReply ''scantxoutset'') (as_str (json_at scan ''bestblock''))) (\<lambda>bestblock_text.
     io_bind (io_opt (BadReply ''scantxoutset'') (ca_hash_of_str api bestblock_text)) (\<lambda>bestblock.
     io_bind (io_opt (BadReply ''scantxoutset'') (as_array (json_at scan ''unspents''))) (\<lambda>unspents.
     io_bind (io_res (collect_res (unspent_entry api) unspents)) (\<lambda>entries.
     io_bind (confirm_active_height rpc api bestblock) (\<lambda>height.
     io_return \<lparr>co_cache = \<lparr>vc_bestblock = bestblock, vc_height = height, vc_scripts = scripts, vc_candidates = remdups (map fst entries)\<rparr>,
                co_oldest_unspent_height = (if entries = [] then height else Min (snd ` set entries))\<rparr>))))))))"

subsection \<open>The fire-time denominator\<close>

definition confirmed_candidates ::
  "'n core_world core_rpc \<Rightarrow> core_api \<Rightarrow> (outpoint list \<Rightarrow> outpoint list) \<Rightarrow> script list
    \<Rightarrow> ('n core_world, core_error, block_hash \<times> outpoint list) chain_io" where
  "confirmed_candidates rpc api sort_outpoints scripts =
     io_bind (best_block_hash rpc api) (\<lambda>tip.
     io_bind io_state (\<lambda>s. case cs_scan_cache s of
       None \<Rightarrow> io_fail CacheCold
     | Some cache \<Rightarrow>
         if vc_scripts cache = scripts \<and> vc_bestblock cache = tip
         then io_return (tip, sort_outpoints (remdups (vc_candidates cache))) else io_fail CacheCold))"

text \<open>The entries of the two maps that a pass fills: confirmed outputs, then authorized unconfirmed ones.\<close>

definition keep_confirmed :: "script list \<Rightarrow> (outpoint \<times> prevout option) list \<Rightarrow> (outpoint, prevout) hmap" where
  "keep_confirmed scripts found =
     fold (\<lambda>(outp, p) m. case p of
             Some po \<Rightarrow> if script_pubkey (po_txout po) \<in> set scripts \<and> po_confirmed po then hm_insert outp po m else m
           | None \<Rightarrow> m) found []"

fun authorized_outputs ::
  "'w core_rpc \<Rightarrow> core_api \<Rightarrow> txid \<Rightarrow> script list \<Rightarrow> (nat \<times> txout) list \<Rightarrow> (outpoint, prevout) hmap
    \<Rightarrow> ('w, core_error, (outpoint, prevout) hmap) chain_io" where
  "authorized_outputs rpc api txid scripts [] found = io_return found"
| "authorized_outputs rpc api txid scripts ((vout, out) # outs) found =
     (if script_pubkey out \<notin> set scripts then authorized_outputs rpc api txid scripts outs found
      else io_bind (io_res (u32_of (TooLarge ''outputs'') vout)) (\<lambda>v.
        io_bind (core_prevout rpc api \<lparr>op_txid = txid, op_vout = v\<rparr>) (\<lambda>p.
        authorized_outputs rpc api txid scripts outs
          (case p of Some po \<Rightarrow> if \<not> po_confirmed po then hm_insert \<lparr>op_txid = txid, op_vout = v\<rparr> po found else found | None \<Rightarrow> found))))"

fun authorized_unconfirmed ::
  "'w core_rpc \<Rightarrow> core_api \<Rightarrow> tx_api \<Rightarrow> script list \<Rightarrow> txid list \<Rightarrow> (outpoint, prevout) hmap
    \<Rightarrow> ('w, core_error, (outpoint, prevout) hmap) chain_io" where
  "authorized_unconfirmed rpc api ta scripts [] found = io_return found"
| "authorized_unconfirmed rpc api ta scripts (txid # txids) found =
     io_bind (raw_transaction_if_available rpc api txid) (\<lambda>r. case r of
       None \<Rightarrow> authorized_unconfirmed rpc api ta scripts txids found
     | Some raw \<Rightarrow>
         io_bind (io_opt MalformedTx (tx_deserialize ta raw)) (\<lambda>tx.
         io_bind (authorized_outputs rpc api txid scripts (enumerate 0 (tx_output tx)) found) (\<lambda>found1.
         authorized_unconfirmed rpc api ta scripts txids found1)))"

text \<open>One bracketed pass: \<open>None\<close> when the tip or the mempool moved under it.\<close>

definition vault_pass ::
  "'n core_world core_rpc \<Rightarrow> core_api \<Rightarrow> tx_api \<Rightarrow> (outpoint list \<Rightarrow> outpoint list) \<Rightarrow> script list \<Rightarrow> txid list
    \<Rightarrow> ('n core_world, core_error, (outpoint, prevout) hmap option) chain_io" where
  "vault_pass rpc api ta sort_outpoints scripts authorized =
     io_bind (mempool_snapshot rpc api) (\<lambda>(mempool_before, sequence_before).
     io_bind (confirmed_candidates rpc api sort_outpoints scripts) (\<lambda>(scan_tip, candidates).
     io_bind (core_prevouts rpc api candidates) (\<lambda>confirmed_prevouts.
     io_bind (io_guard BatchReplies (length confirmed_prevouts = length candidates)) (\<lambda>_.
     io_bind (authorized_unconfirmed rpc api ta scripts (filter (\<lambda>t. t \<in> set authorized) mempool_before)
                (keep_confirmed scripts (zip candidates confirmed_prevouts))) (\<lambda>found.
     io_bind (best_block_hash rpc api) (\<lambda>tip_after.
     io_bind (mempool_snapshot rpc api) (\<lambda>(_, sequence_after).
     io_return (if scan_tip = tip_after \<and> sequence_before = sequence_after then Some found else None))))))))"

text \<open>\<open>sort_outpoints\<close> and \<open>sort_found\<close> are the orders of rust-bitcoin on outpoints.\<close>

definition vault_unspent ::
  "'n core_world core_rpc \<Rightarrow> core_api \<Rightarrow> tx_api \<Rightarrow> (outpoint list \<Rightarrow> outpoint list) \<Rightarrow>
    ((outpoint \<times> prevout) list \<Rightarrow> (outpoint \<times> prevout) list) \<Rightarrow> script list \<Rightarrow> txid list
    \<Rightarrow> ('n core_world, core_error, (outpoint \<times> prevout) list) chain_io" where
  "vault_unspent rpc api ta sort_outpoints sort_found scripts authorized =
     io_bind (vault_pass rpc api ta sort_outpoints scripts authorized) (\<lambda>found. case found of
       Some m \<Rightarrow> io_return (sort_found m)
     | None \<Rightarrow> io_bind (vault_pass rpc api ta sort_outpoints scripts authorized) (\<lambda>found. case found of
           Some m \<Rightarrow> io_return (sort_found m)
         | None \<Rightarrow> io_fail SnapshotMoved))"

subsection \<open>A batch answers by id\<close>

definition reply_answers :: "core_api \<Rightarrow> json \<Rightarrow> nat \<Rightarrow> prevout option \<Rightarrow> bool" where
  "reply_answers api reply i p \<longleftrightarrow> as_u64 (json_at reply ''id'') = Some i \<and> json_at reply ''error'' = JNull \<and>
     parse_prevout api (json_at reply ''result'') = Inr p"

lemma place_reply_Ok:
  assumes "place_reply api n reply ordered = Inr ordered'" "length ordered = n"
  shows "\<exists>i p. i < n \<and> ordered ! i = None \<and> reply_answers api reply i p \<and> ordered' = ordered[i := Some p]"
  using assms by (auto simp: place_reply_def reply_answers_def bind_res_Ok_iff split: option.splits if_splits)

lemma place_replies_Ok:
  assumes "place_replies api n replies ordered = Inr ordered'" "length ordered = n"
  shows "length ordered' = n \<and>
    (\<forall>i p. i < n \<longrightarrow> ordered' ! i = Some p \<longrightarrow> ordered ! i = Some p \<or> (\<exists>reply \<in> set replies. reply_answers api reply i p))"
  using assms
proof (induction replies arbitrary: ordered)
  case Nil
  then show ?case by simp
next
  case (Cons reply replies)
  from Cons.prems(1) obtain o1 where o1: "place_reply api n reply ordered = Inr o1" "place_replies api n replies o1 = Inr ordered'"
    by (auto simp: bind_res_Ok_iff)
  then obtain i p where i: "i < n" "reply_answers api reply i p" "o1 = ordered[i := Some p]"
    using place_reply_Ok [OF o1(1) Cons.prems(2)] by auto
  have ih: "length ordered' = n" "\<And>j q. j < n \<Longrightarrow> ordered' ! j = Some q \<Longrightarrow> o1 ! j = Some q \<or> (\<exists>reply \<in> set replies. reply_answers api reply j q)"
    using Cons.IH [OF o1(2)] Cons.prems(2) i(3) by auto
  have "ordered ! j = Some q \<or> (\<exists>r \<in> set (reply # replies). reply_answers api r j q)"
    if "j < n" "ordered' ! j = Some q" for j q
    using ih(2) [OF that] i Cons.prems(2) by (cases "i = j") auto
  with ih(1) show ?case by blast
qed

lemma core_prevouts_Ok:
  assumes "core_prevouts rpc api outpoints w = (Inr ps, w')" "outpoints \<noteq> []"
  obtains replies where
    "cr_post_batch rpc (map (\<lambda>(i, outp). (i, ''gettxout'', gettxout_params api outp)) (enumerate 0 outpoints)) w = (Inr replies, w')"
    "length replies = length outpoints" "length ps = length outpoints"
    "\<And>i. i < length outpoints \<Longrightarrow> \<exists>reply \<in> set replies. reply_answers api reply i (ps ! i)"
proof -
  let ?n = "length outpoints"
  from assms obtain replies ordered where r:
    "cr_post_batch rpc (map (\<lambda>(i, outp). (i, ''gettxout'', gettxout_params api outp)) (enumerate 0 outpoints)) w = (Inr replies, w')"
    "length replies = ?n" "place_replies api ?n replies (replicate ?n None) = Inr ordered"
    "collect_res (opt_res BatchReplies) ordered = Inr ps"
    by (auto simp: core_prevouts_def io_bind_Ok_iff)
  have l: "list_all2 (\<lambda>x y. x = Some y) ordered ps" using r(4) by (simp add: collect_res_iff)
  note pr = place_replies_Ok [OF r(3)]
  then have "length ps = ?n" using list_all2_lengthD [OF l] by simp
  moreover have "\<exists>reply \<in> set replies. reply_answers api reply i (ps ! i)" if "i < ?n" for i
    using pr that list_all2_nthD [OF l, of i] by simp
  ultimately show ?thesis using that [of replies] r(1,2) by blast
qed

subsection \<open>The cache is the unspent set of the chain\<close>

text \<open>
  The reference: what one transaction of a block spends and what it creates for the watched scripts, read off
  its JSON, and which outputs a history of transactions leaves unspent: those that one of its
  transactions created and none after it spent. Nothing here goes through the steps of the client.
\<close>

definition tx_spends :: "core_api \<Rightarrow> json \<Rightarrow> outpoint set" where
  "tx_spends api tx = {outp. \<exists>vin \<in> set (array_or_empty (Some (json_at tx ''vin''))). \<exists>t.
     as_str (json_at vin ''txid'') = Some t \<and> ca_txid_of_str api t = Some (op_txid outp) \<and>
     as_u64 (json_at vin ''vout'') = Some (unat (op_vout outp))}"

definition tx_creates :: "core_api \<Rightarrow> script list \<Rightarrow> json \<Rightarrow> outpoint set" where
  "tx_creates api watched tx = {outp. \<exists>t outs h script.
     as_str (json_at tx ''txid'') = Some t \<and> ca_txid_of_str api t = Some (op_txid outp) \<and>
     as_array (json_at tx ''vout'') = Some outs \<and> unat (op_vout outp) < length outs \<and>
     as_str (json_at (json_at (outs ! unat (op_vout outp)) ''scriptPubKey'') ''hex'') = Some h \<and>
     ca_script_of_hex api h = Some script \<and> script \<in> set watched}"

definition unspent_after :: "core_api \<Rightarrow> script list \<Rightarrow> json list \<Rightarrow> outpoint set" where
  "unspent_after api watched txs = {outp. \<exists>k < length txs. outp \<in> tx_creates api watched (txs ! k) \<and>
     (\<forall>j. k < j \<and> j < length txs \<longrightarrow> outp \<notin> tx_spends api (txs ! j))}"

lemma unspent_after_Nil [simp]: "unspent_after api watched [] = {}"
  by (simp add: unspent_after_def)

lemma unspent_after_snoc:
  "unspent_after api watched (txs @ [tx]) = unspent_after api watched txs - tx_spends api tx \<union> tx_creates api watched tx"
  (is "?l = ?r")
proof (intro set_eqI iffI)
  fix outp assume "outp \<in> ?l"
  then obtain k where k: "k < Suc (length txs)" "outp \<in> tx_creates api watched ((txs @ [tx]) ! k)"
    "\<forall>j. k < j \<and> j < Suc (length txs) \<longrightarrow> outp \<notin> tx_spends api ((txs @ [tx]) ! j)" by (auto simp: unspent_after_def)
  show "outp \<in> ?r"
  proof (cases "k = length txs")
    case True
    with k(2) show ?thesis by simp
  next
    case False
    with k(1) have kl: "k < length txs" by simp
    moreover have "outp \<notin> tx_spends api tx" using k(3) [rule_format, of "length txs"] kl by simp
    moreover have "outp \<notin> tx_spends api (txs ! j)" if "k < j" "j < length txs" for j
      using k(3) [rule_format, of j] that by (simp add: nth_append)
    ultimately show ?thesis using k(2) by (auto simp: unspent_after_def nth_append)
  qed
next
  fix outp assume r: "outp \<in> ?r"
  show "outp \<in> ?l"
  proof (cases "outp \<in> tx_creates api watched tx")
    case True
    then show ?thesis by (auto simp: unspent_after_def intro!: exI [of _ "length txs"])
  next
    case False
    with r obtain k where "k < length txs" "outp \<in> tx_creates api watched (txs ! k)" "outp \<notin> tx_spends api tx"
      "\<forall>j. k < j \<and> j < length txs \<longrightarrow> outp \<notin> tx_spends api (txs ! j)" by (auto simp: unspent_after_def)
    then show ?thesis by (auto simp: unspent_after_def nth_append less_Suc_eq intro!: exI [of _ k])
  qed
qed

text \<open>One step of the client changes the unspent set as the reference says.\<close>

lemma outpoint_eq_iff:
  "n < 2 ^ 32 \<Longrightarrow> outp = \<lparr>op_txid = t, op_vout = word_of_nat n\<rparr> \<longleftrightarrow> op_txid outp = t \<and> unat (op_vout outp) = n"
  by (cases outp) (auto simp: unat_of_nat)

lemma spend_candidate_set:
  assumes "spend_candidate api vin cs = Inr cs'"
  shows "set cs' = set cs - {outp. \<exists>t. as_str (json_at vin ''txid'') = Some t \<and> ca_txid_of_str api t = Some (op_txid outp) \<and>
     as_u64 (json_at vin ''vout'') = Some (unat (op_vout outp))}"
proof (cases "as_str (json_at vin ''txid'') = None \<or> as_u64 (json_at vin ''vout'') = None")
  case True
  with assms show ?thesis by (auto simp: spend_candidate_def split: option.splits)
next
  case False
  then obtain t n where v: "as_str (json_at vin ''txid'') = Some t" "as_u64 (json_at vin ''vout'') = Some n" by auto
  with assms obtain tid where "n < 2 ^ 32" "ca_txid_of_str api t = Some tid" "cs' = removeAll \<lparr>op_txid = tid, op_vout = word_of_nat n\<rparr> cs"
    by (auto simp: spend_candidate_def bind_res_Ok_iff u32_of_def split: if_splits)
  moreover from this(1) have "outp = \<lparr>op_txid = tid, op_vout = word_of_nat n\<rparr> \<longleftrightarrow> op_txid outp = tid \<and> n = unat (op_vout outp)" for outp
    using outpoint_eq_iff by metis
  ultimately show ?thesis using v by (simp add: set_eq_iff) blast
qed

lemma spend_all_set:
  "fold_res (spend_candidate api) vins cs = Inr cs' \<Longrightarrow>
   set cs' = set cs - {outp. \<exists>vin \<in> set vins. \<exists>t. as_str (json_at vin ''txid'') = Some t \<and>
     ca_txid_of_str api t = Some (op_txid outp) \<and> as_u64 (json_at vin ''vout'') = Some (unat (op_vout outp))}"
proof (induction vins arbitrary: cs)
  case Nil
  then show ?case by simp
next
  case (Cons vin vins)
  then obtain c1 where c1: "spend_candidate api vin cs = Inr c1" "fold_res (spend_candidate api) vins c1 = Inr cs'"
    by (auto simp: bind_res_Ok_iff)
  show ?case unfolding Cons.IH [OF c1(2)] spend_candidate_set [OF c1(1)] by auto
qed

definition pays_watched :: "core_api \<Rightarrow> script list \<Rightarrow> json \<Rightarrow> bool" where
  "pays_watched api watched out \<longleftrightarrow> (\<exists>h script. as_str (json_at (json_at out ''scriptPubKey'') ''hex'') = Some h \<and>
     ca_script_of_hex api h = Some script \<and> script \<in> set watched)"

lemma add_candidate_set:
  assumes "add_candidate api watched txid (i, out) cs = Inr cs'"
  shows "set cs' = set cs \<union> {outp. op_txid outp = txid \<and> unat (op_vout outp) = i \<and> pays_watched api watched out}"
proof -
  from assms obtain h script where h: "as_str (json_at (json_at out ''scriptPubKey'') ''hex'') = Some h" "ca_script_of_hex api h = Some script"
    and c: "script \<notin> set watched \<and> cs' = cs \<or>
       script \<in> set watched \<and> i < 2 ^ 32 \<and> cs' = set_insert \<lparr>op_txid = txid, op_vout = word_of_nat i\<rparr> cs"
    by (auto simp: add_candidate_def bind_res_Ok_iff u32_of_def split: if_splits)
  show ?thesis
  proof (cases "script \<in> set watched")
    case True
    with c have i: "i < 2 ^ 32" and cs': "set cs' = insert \<lparr>op_txid = txid, op_vout = word_of_nat i\<rparr> (set cs)"
      by (auto simp: set_insert_def)
    have "pays_watched api watched out" using True h by (auto simp: pays_watched_def)
    with outpoint_eq_iff [OF i, of _ txid] show ?thesis unfolding cs' by blast
  qed (use c h in \<open>auto simp: pays_watched_def\<close>)
qed

lemma add_all_set:
  "fold_res (add_candidate api watched txid) (enumerate n outs) cs = Inr cs' \<Longrightarrow>
   set cs' = set cs \<union> {outp. op_txid outp = txid \<and> n \<le> unat (op_vout outp) \<and> unat (op_vout outp) < n + length outs \<and>
     pays_watched api watched (outs ! (unat (op_vout outp) - n))}"
proof (induction outs arbitrary: n cs)
  case Nil
  then show ?case by auto
next
  case (Cons out outs)
  then obtain c1 where c1: "add_candidate api watched txid (n, out) cs = Inr c1"
    "fold_res (add_candidate api watched txid) (enumerate (Suc n) outs) c1 = Inr cs'" by (auto simp: bind_res_Ok_iff)
  have "n \<le> m \<and> m < n + length (out # outs) \<and> pays_watched api watched ((out # outs) ! (m - n)) \<longleftrightarrow>
     m = n \<and> pays_watched api watched out \<or> Suc n \<le> m \<and> m < Suc n + length outs \<and> pays_watched api watched (outs ! (m - Suc n))" for m :: nat
    by (cases "m \<le> n") (auto simp: nth_Cons' Suc_le_eq)
  then show ?case unfolding Cons.IH [OF c1(2)] add_candidate_set [OF c1(1)] by auto
qed

lemma apply_tx_set:
  assumes "apply_tx api watched tx cs = Inr cs'"
  shows "set cs' = set cs - tx_spends api tx \<union> tx_creates api watched tx"
proof -
  from assms obtain u h txid outs where u: "fold_res (spend_candidate api) (array_or_empty (Some (json_at tx ''vin''))) cs = Inr u"
    "as_str (json_at tx ''txid'') = Some h" "ca_txid_of_str api h = Some txid" "as_array (json_at tx ''vout'') = Some outs"
    "fold_res (add_candidate api watched txid) (enumerate 0 outs) u = Inr cs'"
    by (auto simp: apply_tx_def bind_res_Ok_iff)
  have "tx_creates api watched tx = {outp. op_txid outp = txid \<and> unat (op_vout outp) < length outs \<and>
      pays_watched api watched (outs ! unat (op_vout outp))}"
    using u(2-4) by (auto simp: tx_creates_def pays_watched_def)
  with spend_all_set [OF u(1)] add_all_set [OF u(5)] show ?thesis by (simp add: tx_spends_def)
qed

lemma apply_txs_unspent:
  "fold_res (apply_tx api watched) txs cs = Inr cs' \<Longrightarrow> set cs = unspent_after api watched past \<Longrightarrow>
   set cs' = unspent_after api watched (past @ txs)"
proof (induction txs arbitrary: cs past)
  case Nil
  then show ?case by simp
next
  case (Cons tx txs)
  then obtain c1 where c1: "apply_tx api watched tx cs = Inr c1" "fold_res (apply_tx api watched) txs c1 = Inr cs'"
    by (auto simp: bind_res_Ok_iff)
  have "set c1 = unspent_after api watched (past @ [tx])"
    using apply_tx_set [OF c1(1)] Cons.prems(2) by (simp add: unspent_after_snoc)
  from Cons.IH [OF c1(2) this] show ?case by simp
qed

text \<open>The blocks from the first one to \<open>h\<close> along the parents, and the transactions of a chain in order.\<close>

inductive chain_to :: "(block_hash \<Rightarrow> block_hash option) \<Rightarrow> block_hash \<Rightarrow> block_hash list \<Rightarrow> bool" for par where
  chain_first: "par h = None \<Longrightarrow> chain_to par h [h]"
| chain_next: "par h = Some p \<Longrightarrow> chain_to par p bs \<Longrightarrow> chain_to par h (bs @ [h])"

lemma chain_to_unique: "chain_to par h bs \<Longrightarrow> chain_to par h cs \<Longrightarrow> bs = cs"
proof (induction arbitrary: cs rule: chain_to.induct)
  case (chain_first h)
  from chain_first.prems chain_first.hyps show ?case by (cases rule: chain_to.cases) auto
next
  case (chain_next h p bs)
  from chain_next.prems chain_next.hyps obtain ds where "chain_to par p ds" "cs = ds @ [h]" by (cases rule: chain_to.cases) auto
  with chain_next.IH show ?case by simp
qed

definition history :: "(block_hash \<Rightarrow> json) \<Rightarrow> block_hash list \<Rightarrow> json list" where
  "history txs bs = concat (map (\<lambda>h. array_or_empty (Some (txs h))) bs)"

text \<open>A cache is exact when its candidates are the outputs its chain leaves unspent, and its height is its block's.\<close>

definition cache_exact :: "core_api \<Rightarrow> (block_hash \<Rightarrow> block_hash option) \<Rightarrow> (block_hash \<Rightarrow> json) \<Rightarrow> vault_cache \<Rightarrow> bool" where
  "cache_exact api par txs cache \<longleftrightarrow> (\<exists>bs. chain_to par (vc_bestblock cache) bs \<and> length bs = Suc (vc_height cache) \<and>
     set (vc_candidates cache) = unspent_after api (vc_scripts cache) (history txs bs))"

text \<open>A block read at verbosity 2.\<close>

definition core_blocks2 :: "'w core_rpc \<Rightarrow> core_api \<Rightarrow> (block_hash \<Rightarrow> json) \<Rightarrow> (block_hash \<Rightarrow> json) \<Rightarrow> bool" where
  "core_blocks2 rpc api prev txs \<longleftrightarrow>
     (\<forall>h w b w'. call rpc ''getblock'' [JStr (ca_show_hash api h), JInt 2] w = (Inr b, w') \<longrightarrow>
        json_at b ''previousblockhash'' = prev h \<and> json_at b ''tx'' = txs h) \<and>
     (\<forall>h. ca_hash_of_str api (ca_show_hash api h) = Some h)"

lemma delta_block_Ok:
  assumes "core_blocks2 rpc api prev txs" and "delta_block rpc api watched height (p, cs) w = (Inr (h, cs'), w')"
  shows "parent_of api prev h = Some p"
    "set cs = unspent_after api watched past \<Longrightarrow> set cs' = unspent_after api watched (past @ array_or_empty (Some (txs h)))"
proof -
  from assms(2) obtain b w1 w2 where b: "call rpc ''getblock'' [JStr (ca_show_hash api h), JInt 2] w1 = (Inr b, w2)"
    "as_str (json_at b ''previousblockhash'') = Some (ca_show_hash api p)" "apply_block api watched (json_at b ''tx'') cs = Inr cs'"
    by (auto simp: delta_block_def io_bind_Ok_iff)
  then have t: "json_at b ''previousblockhash'' = prev h" "json_at b ''tx'' = txs h"
    using assms(1) unfolding core_blocks2_def by blast+
  with b(2) assms(1) show "parent_of api prev h = Some p" by (simp add: parent_of_def core_blocks2_def)
  from b(3) t(2) obtain l where l: "as_array (txs h) = Some l" "fold_res (apply_tx api watched) l cs = Inr cs'"
    by (auto simp: apply_block_def bind_res_Ok_iff)
  show "set cs = unspent_after api watched past \<Longrightarrow> set cs' = unspent_after api watched (past @ array_or_empty (Some (txs h)))"
    using apply_txs_unspent [OF l(2)] l(1) by (simp add: array_or_empty_def)
qed

lemma delta_blocks_chain:
  assumes "core_blocks2 rpc api prev txs" and "delta_blocks rpc api watched hs (p, cs) w = (Inr (h, cs'), w')"
    and "chain_to (parent_of api prev) p bs" and "set cs = unspent_after api watched (history txs bs)"
  shows "\<exists>more. length more = length hs \<and> chain_to (parent_of api prev) h (bs @ more) \<and>
    set cs' = unspent_after api watched (history txs (bs @ more))"
  using assms(2-)
proof (induction hs arbitrary: p cs w bs)
  case Nil
  then show ?case by simp
next
  case (Cons height hs)
  from Cons.prems(1) obtain p1 cs1 w1 where d: "delta_block rpc api watched height (p, cs) w = (Inr (p1, cs1), w1)"
    and r: "delta_blocks rpc api watched hs (p1, cs1) w1 = (Inr (h, cs'), w')" by (auto simp: io_bind_Ok_iff)
  note b = delta_block_Ok [OF assms(1) d]
  have "set cs1 = unspent_after api watched (history txs (bs @ [p1]))" using b(2) [OF Cons.prems(3)] by (simp add: history_def)
  from Cons.IH [OF r chain_next [OF b(1) Cons.prems(2)] this] obtain more where
    "length more = length hs" "chain_to (parent_of api prev) h ((bs @ [p1]) @ more)" "set cs' = unspent_after api watched (history txs ((bs @ [p1]) @ more))"
    by blast
  then show ?case by (intro exI [of _ "p1 # more"]) simp
qed

text \<open>C28: advancing the cache of confirmed vault outputs keeps it exact. If the candidates of the cache are exactly
  the outputs of the watched scripts that the transactions of the chain up to the cache's block created and did not
  spend later, then after an advance they are exactly those of the chain up to its new block, which lies on top of the
  old one at the height the cache records, whatever reorganisations race the reads; an advance that changed the cache
  ended with a read that showed the new block as the active one at that height; and one advance covers at
  most 32 blocks.\<close>

theorem cache_advance_is_replay:
  assumes "core_blocks2 rpc api prev txs" and "cache_exact api (parent_of api prev) txs cache"
    and "advance_confirmed_scan rpc api cache w = (Inr cache', w')"
  shows "cache_exact api (parent_of api prev) txs cache' \<and> vc_scripts cache' = vc_scripts cache \<and>
    vc_height cache \<le> vc_height cache' \<and> vc_height cache' \<le> vc_height cache + 32 \<and>
    (\<forall>bs. chain_to (parent_of api prev) (vc_bestblock cache) bs \<longrightarrow>
       (\<exists>more. length more = vc_height cache' - vc_height cache \<and> chain_to (parent_of api prev) (vc_bestblock cache') (bs @ more))) \<and>
    (cache' = cache \<or> (\<exists>w1. block_hash_at rpc api (vc_height cache') w1 = (Inr (Some (vc_bestblock cache')), w')))"
proof (cases "cache' = cache")
  case True
  with assms(2) show ?thesis by (auto intro: exI [of _ "[]"])
next
  case False
  with assms(3) obtain tip through w1 w2 parent cs where
    t: "\<not> tip \<le> vc_height cache" "through = min tip (min (vc_height cache + MAX_VAULT_SCAN_DELTA_BLOCKS) (2 ^ 32 - 1))" "tip < 2 ^ 32" and
    d: "delta_blocks rpc api (vc_scripts cache) [vc_height cache + 1..<through + 1] (vc_bestblock cache, vc_candidates cache) w1 = (Inr (parent, cs), w2)" and
    a: "block_hash_at rpc api through w2 = (Inr (Some parent), w')" and
    c: "cache' = cache\<lparr>vc_bestblock := parent, vc_height := through, vc_candidates := cs\<rparr>"
    by (auto simp: advance_confirmed_scan_def io_bind_Ok_iff Let_def tip_height_def split: if_splits)
  have th: "vc_height cache \<le> through" "through \<le> vc_height cache + 32" using t by (auto simp: MAX_VAULT_SCAN_DELTA_BLOCKS_def)
  have one: "\<exists>more. length more = through - vc_height cache \<and> chain_to (parent_of api prev) parent (bs @ more) \<and>
      set cs = unspent_after api (vc_scripts cache) (history txs (bs @ more))"
    if "chain_to (parent_of api prev) (vc_bestblock cache) bs"
      "set (vc_candidates cache) = unspent_after api (vc_scripts cache) (history txs bs)" for bs
    using delta_blocks_chain [OF assms(1) d that] by (simp del: upt_Suc)
  from assms(2) obtain bs where bs: "chain_to (parent_of api prev) (vc_bestblock cache) bs" "length bs = Suc (vc_height cache)"
    "set (vc_candidates cache) = unspent_after api (vc_scripts cache) (history txs bs)" by (auto simp: cache_exact_def)
  from one [OF bs(1,3)] obtain more where more: "length more = through - vc_height cache" "chain_to (parent_of api prev) parent (bs @ more)"
    "set cs = unspent_after api (vc_scripts cache) (history txs (bs @ more))" by blast
  have "cache_exact api (parent_of api prev) txs cache'"
    using more bs(2) th by (auto simp: cache_exact_def c intro!: exI [of _ "bs @ more"])
  moreover have "bs2 = bs" if "chain_to (parent_of api prev) (vc_bestblock cache) bs2" for bs2 using chain_to_unique that bs(1) by blast
  ultimately show ?thesis using th a more(1,2) by (auto simp: c)
qed

subsection \<open>A bracketed read is a snapshot\<close>

text \<open>Computations that only move the world forward.\<close>

definition forward :: "('w \<Rightarrow> 'w \<Rightarrow> bool) \<Rightarrow> ('w, 'e, 'a) chain_io \<Rightarrow> bool" where
  "forward later m \<longleftrightarrow> (\<forall>w. later w (snd (m w)))"

text \<open>
  What the client relies on of Core while it reads. Time only moves forward; each reply was true at some
  instant between its request and its arrival; the mempool sequence never decreases; and if neither the
  tip nor the sequence differ between two instants, the unspent outputs did not change between them.
\<close>

definition core_view :: "'w core_rpc \<Rightarrow> core_api \<Rightarrow> ('w \<Rightarrow> 'w \<Rightarrow> bool) \<Rightarrow> ('w \<Rightarrow> block_hash) \<Rightarrow> ('w \<Rightarrow> nat) \<Rightarrow>
    ('w \<Rightarrow> txid set) \<Rightarrow> ('w \<Rightarrow> outpoint \<Rightarrow> prevout option) \<Rightarrow> bool" where
  "core_view rpc api later tip seq mem view \<longleftrightarrow>
     (\<forall>a. later a a) \<and> (\<forall>a b c. later a b \<longrightarrow> later b c \<longrightarrow> later a c) \<and>
     (\<forall>method params. forward later (cr_post rpc method params)) \<and> (\<forall>requests. forward later (cr_post_batch rpc requests)) \<and>
     (\<forall>w ts n w'. mempool_snapshot rpc api w = (Inr (ts, n), w') \<longrightarrow> (\<exists>v. later w v \<and> later v w' \<and> n = seq v \<and> set ts = mem v)) \<and>
     (\<forall>w h w'. best_block_hash rpc api w = (Inr h, w') \<longrightarrow> (\<exists>v. later w v \<and> later v w' \<and> h = tip v)) \<and>
     (\<forall>outp w p w'. core_prevout rpc api outp w = (Inr p, w') \<longrightarrow> (\<exists>v. later w v \<and> later v w' \<and> p = view v outp)) \<and>
     (\<forall>requests w replies w' reply i outp p. cr_post_batch rpc requests w = (Inr replies, w') \<longrightarrow> map fst requests = [0..<length requests] \<longrightarrow>
        reply \<in> set replies \<longrightarrow> i < length requests \<longrightarrow> requests ! i = (i, ''gettxout'', gettxout_params api outp) \<longrightarrow> reply_answers api reply i p \<longrightarrow>
        (\<exists>v. later w v \<and> later v w' \<and> p = view v outp)) \<and>
     (\<forall>a b. later a b \<longrightarrow> seq a \<le> seq b) \<and>
     (\<forall>a b c. later a b \<longrightarrow> later b c \<longrightarrow> tip a = tip c \<longrightarrow> seq a = seq c \<longrightarrow> view b = view a)"

lemma forward_pure:
  assumes "reflp later"
  shows "forward later (io_return a)" "forward later (io_fail e)" "forward later (io_opt e x)" "forward later (io_res r)"
    "forward later (io_guard e b)"
  using reflpD [OF assms] by (auto simp: forward_def io_opt_def io_res_def io_guard_def split: option.split sum.split)

lemma forward_bind:
  assumes "transp later" "forward later m" "\<And>a. forward later (f a)"
  shows "forward later (io_bind m f)"
  unfolding forward_def
proof
  fix w
  obtain r w1 where m: "m w = (r, w1)" by (cases "m w")
  then have w1: "later w w1" using assms(2) unfolding forward_def by (metis snd_conv)
  show "later w (snd (io_bind m f w))"
  proof (cases r)
    case (Inl e)
    with m w1 show ?thesis by (simp add: io_bind_def)
  next
    case (Inr a)
    with m assms(3) have "later w1 (snd (f a w1))" by (simp add: forward_def)
    with m Inr w1 show ?thesis using transpD [OF assms(1)] by (simp add: io_bind_def)
  qed
qed

lemma core_viewD:
  assumes "core_view rpc api later tip seq mem view"
  shows core_view_refl: "reflp later" and core_view_trans: "transp later"
    and core_view_forward: "forward later (cr_post rpc method params)" "forward later (cr_post_batch rpc requests)"
    and core_view_snapshot: "mempool_snapshot rpc api w = (Inr (ts, n), w') \<Longrightarrow> \<exists>v. later w v \<and> later v w' \<and> n = seq v \<and> set ts = mem v"
    and core_view_tip: "best_block_hash rpc api w = (Inr h, w') \<Longrightarrow> \<exists>v. later w v \<and> later v w' \<and> h = tip v"
    and core_view_prevout: "core_prevout rpc api outp w = (Inr p, w') \<Longrightarrow> \<exists>v. later w v \<and> later v w' \<and> p = view v outp"
    and core_view_batch: "cr_post_batch rpc requests w = (Inr replies, w') \<Longrightarrow> map fst requests = [0..<length requests] \<Longrightarrow> reply \<in> set replies \<Longrightarrow> i < length requests \<Longrightarrow>
      requests ! i = (i, ''gettxout'', gettxout_params api outp) \<Longrightarrow> reply_answers api reply i p \<Longrightarrow>
      \<exists>v. later w v \<and> later v w' \<and> p = view v outp"
    and core_view_seq: "later a b \<Longrightarrow> seq a \<le> seq b"
    and core_view_stable: "later a b \<Longrightarrow> later b c \<Longrightarrow> tip a = tip c \<Longrightarrow> seq a = seq c \<Longrightarrow> view b = view a"
proof -
  note v = assms [unfolded core_view_def]
  note v1 = conjunct2 [OF v] note v2 = conjunct2 [OF v1] note v3 = conjunct2 [OF v2] note v4 = conjunct2 [OF v3]
  note v5 = conjunct2 [OF v4] note v6 = conjunct2 [OF v5] note v7 = conjunct2 [OF v6] note v8 = conjunct2 [OF v7]
  show "reflp later" using conjunct1 [OF v] unfolding reflp_def .
  show "transp later" using conjunct1 [OF v1] unfolding transp_def .
  show "forward later (cr_post rpc method params)" by (rule conjunct1 [OF v2, rule_format])
  show "forward later (cr_post_batch rpc requests)" by (rule conjunct1 [OF v3, rule_format])
  show "\<exists>v. later w v \<and> later v w' \<and> n = seq v \<and> set ts = mem v" if "mempool_snapshot rpc api w = (Inr (ts, n), w')"
    by (rule conjunct1 [OF v4, rule_format, OF that])
  show "\<exists>v. later w v \<and> later v w' \<and> h = tip v" if "best_block_hash rpc api w = (Inr h, w')"
    by (rule conjunct1 [OF v5, rule_format, OF that])
  show "\<exists>v. later w v \<and> later v w' \<and> p = view v outp" if "core_prevout rpc api outp w = (Inr p, w')"
    by (rule conjunct1 [OF v6, rule_format, OF that])
  show "\<exists>v. later w v \<and> later v w' \<and> p = view v outp"
    if "cr_post_batch rpc requests w = (Inr replies, w')" "map fst requests = [0..<length requests]" "reply \<in> set replies" "i < length requests"
      "requests ! i = (i, ''gettxout'', gettxout_params api outp)" "reply_answers api reply i p"
    by (rule conjunct1 [OF v7, rule_format, OF that])
  show "seq a \<le> seq b" if "later a b" by (rule conjunct1 [OF v8, rule_format, OF that])
  show "view b = view a" if "later a b" "later b c" "tip a = tip c" "seq a = seq c"
    by (rule conjunct2 [OF v8, rule_format, OF that])
qed

text \<open>Every read of the client moves forward.\<close>

lemma client_forward:
  assumes "core_view rpc api later tip seq mem view"
  shows "forward later (call rpc method params)" "forward later (call_absent rpc code method params)"
    "forward later (best_block_hash rpc api)" "forward later (mempool_snapshot rpc api)" "forward later (core_prevout rpc api outp)"
    "forward later (core_prevouts rpc api outps)" "forward later (raw_transaction_if_available rpc api txid)"
proof -
  note pure = forward_pure [OF core_view_refl [OF assms]] and bind = forward_bind [OF core_view_trans [OF assms]]
  note post = core_view_forward [OF assms]
  show c: "forward later (call rpc mth ps)" for mth ps
    unfolding call_def call_reply_def by (intro bind post) (simp add: pure)
  show a: "forward later (call_absent rpc code mth ps)" for code mth ps
    unfolding call_absent_def call_reply_def by (intro bind post) (simp add: pure)
  show "forward later (best_block_hash rpc api)" unfolding best_block_hash_def by (intro bind c pure)
  show "forward later (mempool_snapshot rpc api)" unfolding mempool_snapshot_def by (intro bind c pure)
  show "forward later (core_prevout rpc api outp)" unfolding core_prevout_def by (intro bind c pure)
  have "forward later (io_bind (cr_post_batch rpc rs) (\<lambda>replies. io_bind (io_guard e (P replies)) (\<lambda>_.
      io_bind (io_res (g replies)) (\<lambda>ordered. io_res (h ordered)))))"
    for rs and e :: core_error and P and g :: "json list \<Rightarrow> core_error + prevout option option list" and h :: "_ \<Rightarrow> core_error + prevout option list"
    by (intro bind post pure)
  then show "forward later (core_prevouts rpc api outps)" unfolding core_prevouts_def by (simp only: pure split: if_split) simp
  have "forward later (case r of None \<Rightarrow> io_return None | Some result \<Rightarrow>
         io_bind (io_opt (BadReply ''getrawtransaction'') (as_str result)) (\<lambda>hex.
         io_bind (io_opt (BadReply ''getrawtransaction'') (ca_bytes_of_hex api hex)) (\<lambda>raw. io_return (Some raw))))" for r
    by (cases r) (simp_all add: pure bind)
  then show "forward later (raw_transaction_if_available rpc api txid)"
    unfolding raw_transaction_if_available_def by (intro bind a) simp
qed

lemma forwardD: "forward later m \<Longrightarrow> m w = (r, w') \<Longrightarrow> later w w'"
  by (metis forward_def snd_conv)

text \<open>What the batch of a pass saw.\<close>

lemma core_prevouts_view:
  assumes "core_view rpc api later tip seq mem view" and "core_prevouts rpc api outps w = (Inr ps, w')"
  shows "length ps = length outps \<and> (\<forall>i < length outps. \<exists>v. later w v \<and> later v w' \<and> ps ! i = view v (outps ! i))"
proof (cases "outps = []")
  case True
  with assms(2) show ?thesis by (simp add: core_prevouts_def)
next
  case False
  let ?rs = "map (\<lambda>(i, outp). (i, ''gettxout'', gettxout_params api outp)) (enumerate 0 outps)"
  obtain replies where r: "cr_post_batch rpc ?rs w = (Inr replies, w')" "length ps = length outps"
    "\<And>i. i < length outps \<Longrightarrow> \<exists>reply \<in> set replies. reply_answers api reply i (ps ! i)"
    using core_prevouts_Ok [OF assms(2) False] by metis
  have "\<exists>v. later w v \<and> later v w' \<and> ps ! i = view v (outps ! i)" if i: "i < length outps" for i
  proof -
    obtain reply where "reply \<in> set replies" "reply_answers api reply i (ps ! i)" using r(3) [OF i] by blast
    moreover have "?rs ! i = (i, ''gettxout'', gettxout_params api (outps ! i))" using i by (simp add: nth_enumerate_eq)
    moreover have "map fst ?rs = [0..<length ?rs]" by (simp add: comp_def split_beta enumerate_eq_zip)
    ultimately show ?thesis using core_view_batch [OF assms(1) r(1), of reply i "outps ! i"] i by simp
  qed
  with r(2) show ?thesis by blast
qed

lemma keep_confirmed_get:
  assumes "distinct (map fst found)"
  shows "hm_get (keep_confirmed scripts found) outp = Some p \<longleftrightarrow>
    (outp, Some p) \<in> set found \<and> po_confirmed p \<and> script_pubkey (po_txout p) \<in> set scripts"
proof -
  have "hm_get (fold (\<lambda>(outp, p) m. case p of
             Some po \<Rightarrow> if script_pubkey (po_txout po) \<in> set scripts \<and> po_confirmed po then hm_insert outp po m else m
           | None \<Rightarrow> m) found m) outp = Some p \<longleftrightarrow>
      (outp, Some p) \<in> set found \<and> po_confirmed p \<and> script_pubkey (po_txout p) \<in> set scripts \<or>
      hm_get m outp = Some p" if "outp \<notin> fst ` set found \<or> hm_get m outp = None" for m
    using assms that
  proof (induction found arbitrary: m)
    case Nil
    then show ?case by simp
  next
    case (Cons e found)
    obtain o1 p1 where e: "e = (o1, p1)" by (cases e)
    have n: "o1 \<notin> fst ` set found" "distinct (map fst found)" "(o1, q) \<notin> set found" for q
      using Cons.prems(1) by (auto simp: e image_iff)
    show ?case
    proof (cases "outp = o1")
      case True
      then have e1: "e = (outp, p1)" and n1: "outp \<notin> fst ` set found" "\<And>q. (outp, q) \<notin> set found" using e n by auto
      have "hm_get m outp = None" using Cons.prems(2) by (auto simp: e1)
      then show ?thesis by (cases p1) (auto simp: e1 Cons.IH n n1 hm_get_insert)
    next
      case False
      have "outp \<notin> fst ` set found \<or> hm_get m outp = None" using Cons.prems(2) by (auto simp: e)
      with n False show ?thesis by (cases p1) (auto simp: e Cons.IH hm_get_insert)
    qed
  qed
  from this [of "[]"] show ?thesis by (simp add: keep_confirmed_def)
qed

text \<open>Between two instants with the same tip and sequence, every reply is that of the first instant.\<close>

definition quiet :: "('w \<Rightarrow> 'w \<Rightarrow> bool) \<Rightarrow> ('w \<Rightarrow> outpoint \<Rightarrow> prevout option) \<Rightarrow> 'w \<Rightarrow> 'w \<Rightarrow> bool" where
  "quiet later view a c \<longleftrightarrow> (\<forall>b. later a b \<longrightarrow> later b c \<longrightarrow> view b = view a)"

lemma authorized_outputs_view:
  assumes "core_view rpc api later tip seq mem view" and "authorized_outputs rpc api txid scripts outs found w = (Inr found', w')"
  shows "later w w' \<and> (\<forall>a c. later a w \<longrightarrow> later w' c \<longrightarrow> quiet later view a c \<longrightarrow>
    (\<forall>outp p. hm_get found' outp = Some p \<longrightarrow> hm_get found outp = Some p \<or> op_txid outp = txid \<and> \<not> po_confirmed p \<and> view a outp = Some p) \<and>
    (\<forall>outp p. hm_get found outp = Some p \<longrightarrow> po_confirmed p \<longrightarrow> view a outp = Some p \<longrightarrow> hm_get found' outp = Some p))"
  using assms(2)
proof (induction outs arbitrary: found w)
  case Nil
  then show ?case using core_view_refl [OF assms(1)] by (simp add: reflp_def)
next
  case (Cons out outs)
  obtain vout o1 where out: "out = (vout, o1)" by (cases out)
  show ?case
  proof (cases "script_pubkey o1 \<in> set scripts")
    case False
    with Cons show ?thesis by (simp add: out)
  next
    case True
    with Cons.prems obtain v p w1 where
      p: "core_prevout rpc api \<lparr>op_txid = txid, op_vout = v\<rparr> w = (Inr p, w1)" and
      r: "authorized_outputs rpc api txid scripts outs
          (case p of Some po \<Rightarrow> if \<not> po_confirmed po then hm_insert \<lparr>op_txid = txid, op_vout = v\<rparr> po found else found | None \<Rightarrow> found) w1
          = (Inr found', w')"
      by (auto simp: out io_bind_Ok_iff)
    let ?o = "\<lparr>op_txid = txid, op_vout = v\<rparr>"
    let ?f = "case p of Some po \<Rightarrow> if \<not> po_confirmed po then hm_insert ?o po found else found | None \<Rightarrow> found"
    note ih = Cons.IH [OF r]
    obtain u where u: "later w u" "later u w1" "p = view u ?o" using core_view_prevout [OF assms(1) p] by blast
    note tr = transpD [OF core_view_trans [OF assms(1)]]
    have w1: "later w w1" by (rule tr [OF u(1,2)])
    have "later w w'" by (rule tr [OF w1 conjunct1 [OF ih]])
    moreover have
      "(\<forall>outp p. hm_get found' outp = Some p \<longrightarrow> hm_get found outp = Some p \<or> op_txid outp = txid \<and> \<not> po_confirmed p \<and> view a outp = Some p) \<and>
       (\<forall>outp p. hm_get found outp = Some p \<longrightarrow> po_confirmed p \<longrightarrow> view a outp = Some p \<longrightarrow> hm_get found' outp = Some p)"
      if a: "later a w" "later w' c" "quiet later view a c" for a c
    proof -
      have "later a u" by (rule tr [OF a(1) u(1)])
      moreover have "later u c" by (rule tr [OF u(2) tr [OF conjunct1 [OF ih] a(2)]])
      ultimately have va: "view u = view a" using a(3) by (simp add: quiet_def)
      have fnd: "hm_get ?f outp = Some q \<Longrightarrow> hm_get found outp = Some q \<or> op_txid outp = txid \<and> \<not> po_confirmed q \<and> view a outp = Some q" for outp q
        using u(3) va by (auto simp: hm_get_insert split: option.splits if_splits)
      have kept: "hm_get found outp = Some q \<Longrightarrow> po_confirmed q \<Longrightarrow> view a outp = Some q \<Longrightarrow> hm_get ?f outp = Some q" for outp q
        using u(3) va by (auto simp: hm_get_insert split: option.splits)
      have "later a w1" by (rule tr [OF a(1) w1])
      note ih1 = conjunct2 [OF ih, rule_format, OF this a(2,3)]
      from ih1 have
        i1: "\<And>outp q. hm_get found' outp = Some q \<Longrightarrow> hm_get ?f outp = Some q \<or> op_txid outp = txid \<and> \<not> po_confirmed q \<and> view a outp = Some q" and
        i2: "\<And>outp q. hm_get ?f outp = Some q \<Longrightarrow> po_confirmed q \<Longrightarrow> view a outp = Some q \<Longrightarrow> hm_get found' outp = Some q"
        by simp_all
      show ?thesis using i1 i2 fnd kept by blast
    qed
    ultimately show ?thesis by blast
  qed
qed

lemma authorized_unconfirmed_view:
  assumes "core_view rpc api later tip seq mem view" and "authorized_unconfirmed rpc api ta scripts txids found w = (Inr found', w')"
  shows "later w w' \<and> (\<forall>a c. later a w \<longrightarrow> later w' c \<longrightarrow> quiet later view a c \<longrightarrow>
    (\<forall>outp p. hm_get found' outp = Some p \<longrightarrow> hm_get found outp = Some p \<or> op_txid outp \<in> set txids \<and> \<not> po_confirmed p \<and> view a outp = Some p) \<and>
    (\<forall>outp p. hm_get found outp = Some p \<longrightarrow> po_confirmed p \<longrightarrow> view a outp = Some p \<longrightarrow> hm_get found' outp = Some p))"
  using assms(2)
proof (induction txids arbitrary: found w)
  case Nil
  then show ?case using core_view_refl [OF assms(1)] by (simp add: reflp_def)
next
  case (Cons txid txids)
  note tr = transpD [OF core_view_trans [OF assms(1)]]
  from Cons.prems obtain r w1 where raw: "raw_transaction_if_available rpc api txid w = (Inr r, w1)" by (auto simp: io_bind_Ok_iff)
  have w1: "later w w1" by (rule forwardD [OF client_forward(7) [OF assms(1)] raw])
  show ?case
  proof (cases r)
    case None
    with Cons.prems raw have "authorized_unconfirmed rpc api ta scripts txids found w1 = (Inr found', w')" by (auto simp: io_bind_Ok_iff)
    note ih = Cons.IH [OF this]
    have "later w w'" by (rule tr [OF w1 conjunct1 [OF ih]])
    with ih show ?thesis using tr [OF _ w1] by fastforce
  next
    case (Some raw_tx)
    with Cons.prems raw obtain tx :: transaction and found1 w2 where
      o: "authorized_outputs rpc api txid scripts (enumerate 0 (tx_output tx)) found w1 = (Inr found1, w2)" and
      r: "authorized_unconfirmed rpc api ta scripts txids found1 w2 = (Inr found', w')" by (fastforce simp: io_bind_Ok_iff)
    note ih = Cons.IH [OF r] and ou = authorized_outputs_view [OF assms(1) o]
    have w2: "later w1 w2" "later w2 w'" using ih ou by blast+
    have "later w w'" by (rule tr [OF w1 tr [OF w2]])
    moreover have
      "(\<forall>outp p. hm_get found' outp = Some p \<longrightarrow> hm_get found outp = Some p \<or> op_txid outp \<in> set (txid # txids) \<and> \<not> po_confirmed p \<and> view a outp = Some p) \<and>
       (\<forall>outp p. hm_get found outp = Some p \<longrightarrow> po_confirmed p \<longrightarrow> view a outp = Some p \<longrightarrow> hm_get found' outp = Some p)"
      if a: "later a w" "later w' c" "quiet later view a c" for a c
    proof -
      have a1: "later a w1" by (rule tr [OF a(1) w1])
      note i = conjunct2 [OF ih, rule_format, OF tr [OF a1 w2(1)] a(2,3)]
      note u = conjunct2 [OF ou, rule_format, OF a1 tr [OF w2(2) a(2)] a(3)]
      show ?thesis using i u by fastforce
    qed
    ultimately show ?thesis by blast
  qed
qed

lemma authorized_hm_ok:
  "authorized_outputs rpc api txid scripts outs found w = (Inr found', w') \<Longrightarrow> hm_ok found \<Longrightarrow> hm_ok found'"
proof (induction outs arbitrary: found w)
  case Nil
  then show ?case by simp
next
  case (Cons out outs)
  have "hm_ok (case p of Some po \<Rightarrow> if \<not> po_confirmed po then hm_insert k po found else found | None \<Rightarrow> found)" for p k
    using Cons.prems(2) by (simp split: option.split)
  with Cons.IH Cons.prems show ?case by (cases out) (auto simp: io_bind_Ok_iff split: if_splits)
qed

lemma authorized_unconfirmed_hm_ok:
  "authorized_unconfirmed rpc api ta scripts txids found w = (Inr found', w') \<Longrightarrow> hm_ok found \<Longrightarrow> hm_ok found'"
proof (induction txids arbitrary: found w)
  case Nil
  then show ?case by simp
next
  case (Cons txid txids)
  from Cons.prems(1) obtain r w1 where "raw_transaction_if_available rpc api txid w = (Inr r, w1)" by (auto simp: io_bind_Ok_iff)
  with Cons show ?case by (cases r) (fastforce simp: io_bind_Ok_iff dest: authorized_hm_ok)+
qed

lemma keep_confirmed_hm_ok: "hm_ok (keep_confirmed scripts found)"
proof -
  have "hm_ok m \<Longrightarrow> hm_ok (fold (\<lambda>(outp, p) m. case p of
             Some po \<Rightarrow> if script_pubkey (po_txout po) \<in> set scripts \<and> po_confirmed po then hm_insert outp po m else m
           | None \<Rightarrow> m) found m)" for m
    by (induction found arbitrary: m) (auto split: option.split)
  then show ?thesis by (simp add: keep_confirmed_def)
qed

text \<open>The outputs that a sweep must cover at an instant: the watched confirmed ones among the candidates.\<close>

definition snapshot_of ::
  "('w \<Rightarrow> outpoint \<Rightarrow> prevout option) \<Rightarrow> 'w \<Rightarrow> script list \<Rightarrow> outpoint set \<Rightarrow> txid set \<Rightarrow> (outpoint \<times> prevout) set \<Rightarrow> bool" where
  "snapshot_of view a scripts candidates authorized found \<longleftrightarrow>
     (\<forall>outp p. outp \<in> candidates \<longrightarrow> view a outp = Some p \<longrightarrow> po_confirmed p \<longrightarrow> script_pubkey (po_txout p) \<in> set scripts \<longrightarrow> (outp, p) \<in> found) \<and>
     (\<forall>outp p. (outp, p) \<in> found \<longrightarrow> view a outp = Some p \<and>
        (if po_confirmed p then outp \<in> candidates \<and> script_pubkey (po_txout p) \<in> set scripts else op_txid outp \<in> authorized))"

lemma vault_pass_snapshot:
  assumes "core_view rpc api later tip seq mem view" and "\<And>xs. mset (sort_outpoints xs) = mset xs"
    and "vault_pass rpc api ta sort_outpoints scripts authorized w = (Inr (Some found), w')"
  shows "hm_ok found \<and> (\<exists>a u cache. later w a \<and> later a w' \<and> later w u \<and> later u w' \<and> cs_scan_cache (fst u) = Some cache \<and>
    vc_scripts cache = scripts \<and> vc_bestblock cache = tip a \<and>
    snapshot_of view a scripts (set (vc_candidates cache)) (set authorized) (set found))"
proof -
  note tr = transpD [OF core_view_trans [OF assms(1)]]
  from assms(3) obtain mb sb w1 t cs w2 ps w3 w4 t2 w5 ma sa where
    s1: "mempool_snapshot rpc api w = (Inr (mb, sb), w1)" and
    cc: "confirmed_candidates rpc api sort_outpoints scripts w1 = (Inr (t, cs), w2)" and
    pv: "core_prevouts rpc api cs w2 = (Inr ps, w3)" and
    au: "authorized_unconfirmed rpc api ta scripts (filter (\<lambda>t. t \<in> set authorized) mb) (keep_confirmed scripts (zip cs ps)) w3 = (Inr found, w4)" and
    bb: "best_block_hash rpc api w4 = (Inr t2, w5)" and s2: "mempool_snapshot rpc api w5 = (Inr (ma, sa), w')" and
    eq: "t = t2" "sb = sa"
    by (auto simp: vault_pass_def io_bind_Ok_iff split: if_splits)
  from cc obtain cache where b1: "best_block_hash rpc api w1 = (Inr t, w2)" and
    ca: "cs_scan_cache (fst w2) = Some cache" "vc_scripts cache = scripts" "vc_bestblock cache = t" "cs = sort_outpoints (remdups (vc_candidates cache))"
    by (auto simp: confirmed_candidates_def io_bind_Ok_iff io_state_def split: option.splits if_splits)
  have cset: "set cs = set (vc_candidates cache)" using assms(2) ca(4) by (metis set_mset_mset set_remdups)
  have cdist: "distinct cs" using assms(2) ca(4) by (metis distinct_remdups mset_eq_imp_distinct_iff)
  obtain v0 where v0: "later w v0" "later v0 w1" "sb = seq v0" using core_view_snapshot [OF assms(1) s1] by blast
  obtain a where a: "later w1 a" "later a w2" "t = tip a" using core_view_tip [OF assms(1) b1] by blast
  obtain c where c: "later w4 c" "later c w5" "t2 = tip c" using core_view_tip [OF assms(1) bb] by blast
  obtain v3 where v3: "later w5 v3" "later v3 w'" "sa = seq v3" using core_view_snapshot [OF assms(1) s2] by blast
  have w23: "later w2 w3" by (rule forwardD [OF client_forward(6) [OF assms(1)] pv])
  note av = authorized_unconfirmed_view [OF assms(1) au]
  have w34: "later w3 w4" using av by blast
  have ac: "later a c" by (rule tr [OF a(2) tr [OF w23 tr [OF w34 c(1)]]])
  have "seq v0 \<le> seq a" "seq a \<le> seq c" "seq c \<le> seq v3"
    using core_view_seq [OF assms(1)] tr [OF v0(2) a(1)] ac tr [OF c(2) v3(1)] by blast+
  then have q: "quiet later view a c"
    using core_view_stable [OF assms(1), of a _ c] eq a(3) c(3) v0(3) v3(3) by (auto simp: quiet_def)
  have ps: "length ps = length cs" "\<And>i. i < length cs \<Longrightarrow> ps ! i = view a (cs ! i)"
  proof -
    note pw = core_prevouts_view [OF assms(1) pv]
    show "length ps = length cs" using pw by blast
    fix i
    assume "i < length cs"
    then obtain v where v: "later w2 v" "later v w3" "ps ! i = view v (cs ! i)" using pw by blast
    have "view v = view a" using q tr [OF a(2) v(1)] tr [OF v(2) tr [OF w34 c(1)]] unfolding quiet_def by blast
    with v(3) show "ps ! i = view a (cs ! i)" by simp
  qed
  have zm: "(outp, p) \<in> set (zip cs ps) \<longleftrightarrow> outp \<in> set cs \<and> p = view a outp" for outp p
    using ps by (auto simp: in_set_zip in_set_conv_nth)
  have kc: "hm_get (keep_confirmed scripts (zip cs ps)) outp = Some p \<longleftrightarrow>
      outp \<in> set cs \<and> view a outp = Some p \<and> po_confirmed p \<and> script_pubkey (po_txout p) \<in> set scripts" for outp p
    using keep_confirmed_get [of "zip cs ps" scripts outp p] cdist ps(1) by (auto simp: zm)
  note au2 = conjunct2 [OF av, rule_format, OF tr [OF a(2) w23] c(1) q]
  have hm: "hm_ok found" by (rule authorized_unconfirmed_hm_ok [OF au keep_confirmed_hm_ok])
  have "snapshot_of view a scripts (set cs) (set authorized) (set found)"
    unfolding snapshot_of_def hm_get_iff_mem [OF hm, symmetric] using au2 kc by fastforce
  moreover have "later w a" "later a w'" "later w w2" "later w2 w'"
    using tr [OF v0(1) tr [OF v0(2) a(1)]] tr [OF ac tr [OF c(2) tr [OF v3(1,2)]]] tr [OF tr [OF v0(1,2)] tr [OF a(1,2)]]
      tr [OF w23 tr [OF w34 tr [OF c(1) tr [OF c(2) tr [OF v3(1,2)]]]]] by blast+
  ultimately show ?thesis using hm ca a(3) cset by metis
qed

text \<open>C27: the denominator of a sweep is a snapshot. Core offers no atomic read of its unspent outputs, so
  the client reads them one by one and brackets the reads by the tip and by the mempool sequence. If the
  call answers, then there is one instant during it at which the whole answer was true: every watched
  confirmed output among the candidates of the cache is in it, the cache is that of the tip of this very
  instant, and everything else in the answer is an unconfirmed output of a transaction the node
  authorized. No outpoint is counted twice.\<close>

theorem vault_unspent_is_snapshot:
  assumes "core_view rpc api later tip seq mem view"
    and "\<forall>xs. mset (sort_outpoints xs) = mset xs" and "\<forall>xs. mset (sort_found xs) = mset xs"
    and "vault_unspent rpc api ta sort_outpoints sort_found scripts authorized w = (Inr found, w')"
  shows "distinct (map fst found) \<and>
    (\<exists>a u cache. later w a \<and> later a w' \<and> later w u \<and> later u w' \<and> cs_scan_cache (fst u) = Some cache \<and>
      vc_scripts cache = scripts \<and> vc_bestblock cache = tip a \<and>
      snapshot_of view a scripts (set (vc_candidates cache)) (set authorized) (set found))"
proof -
  let ?pass = "vault_pass rpc api ta sort_outpoints scripts authorized"
  note tr = transpD [OF core_view_trans [OF assms(1)]] and rf = reflpD [OF core_view_refl [OF assms(1)]]
  have fwd: "forward later ?pass"
  proof -
    note pure = forward_pure [OF core_view_refl [OF assms(1)]] and bind = forward_bind [OF core_view_trans [OF assms(1)]]
    note cf = client_forward [OF assms(1)]
    have st: "forward later io_state" using rf by (simp add: forward_def io_state_def)
    have cc: "forward later (confirmed_candidates rpc api sort_outpoints scripts)" unfolding confirmed_candidates_def
      by (intro bind cf st) (simp add: pure split: option.split)
    have ao: "forward later (authorized_outputs rpc api txid scripts outs m)" for txid outs m
      by (induction outs arbitrary: m) (auto intro!: pure bind cf split: prod.split)
    have au: "forward later (authorized_unconfirmed rpc api ta scripts txids m)" for txids m
      by (induction txids arbitrary: m) (auto intro!: pure bind cf ao split: option.split)
    show ?thesis unfolding vault_pass_def split_beta by (intro bind cf cc au pure)
  qed
  from assms(4) obtain r w1 where p1: "?pass w = (Inr r, w1)" by (auto simp: vault_unspent_def io_bind_Ok_iff)
  obtain w0 m where p: "?pass w0 = (Inr (Some m), w')" "later w w0" "found = sort_found m"
  proof (cases r)
    case (Some m)
    then have "w' = w1" "found = sort_found m" using assms(4) p1 by (simp_all add: vault_unspent_def io_bind_def)
    with that [of w m] p1 Some rf show ?thesis by simp
  next
    case None
    then have "io_bind ?pass (\<lambda>found. case found of Some m \<Rightarrow> io_return (sort_found m) | None \<Rightarrow> io_fail SnapshotMoved) w1 = (Inr found, w')"
      using assms(4) p1 by (simp add: vault_unspent_def io_bind_def)
    then obtain m where "?pass w1 = (Inr (Some m), w')" "found = sort_found m" by (auto simp: io_bind_Ok_iff split: option.splits)
    with that [of w1 m] forwardD [OF fwd p1] show ?thesis by simp
  qed
  note snap = vault_pass_snapshot [OF assms(1) assms(2) [rule_format] p(1)]
  have s: "set found = set m" "distinct (map fst found)"
    using assms(3) snap p(3) by (metis mset_eq_setD, metis hm_ok_def mset_eq_imp_distinct_iff mset_map)
  from snap obtain a u cache where "later w0 a" "later a w'" "later w0 u" "later u w'" "cs_scan_cache (fst u) = Some cache"
      "vc_scripts cache = scripts" "vc_bestblock cache = tip a"
      "snapshot_of view a scripts (set (vc_candidates cache)) (set authorized) (set m)"
    by blast
  then show ?thesis using s tr [OF p(2)] by metis
qed

subsection \<open>A concrete backend\<close>

definition plain_api :: core_api where
  "plain_api = \<lparr>ca_script_of_hex = (\<lambda>s. Some (demo_bytes_of_str s)), ca_bytes_of_hex = (\<lambda>s. Some (demo_bytes_of_str s)),
     ca_txid_of_str = (\<lambda>s. Some (demo_bytes_of_str s)), ca_hash_of_str = (\<lambda>s. Some (demo_bytes_of_str s)), ca_sats = as_u64,
     ca_hex = demo_str_of_bytes, ca_show_txid = demo_str_of_bytes, ca_show_hash = demo_str_of_bytes,
     ca_show_outpoint = (\<lambda>p. demo_str_of_bytes (op_txid p))\<rparr>"

abbreviation plain :: "string \<Rightarrow> bytes" where "plain \<equiv> demo_bytes_of_str"

text \<open>Two blocks; the second one pays the vault.\<close>

definition two_prev :: "block_hash \<Rightarrow> json" where
  "two_prev h = (if h = plain ''g'' then JNull else JStr ''g'')"

definition two_txs :: "block_hash \<Rightarrow> json" where
  "two_txs h = (if h = plain ''g'' then JArr []
     else JArr [JObj [(''txid'', JStr ''T''), (''vout'', JArr [JObj [(''scriptPubKey'', JObj [(''hex'', JStr ''v'')])]])]])"

definition unspent_json :: json where
  "unspent_json = JObj [(''scriptPubKey'', JObj [(''hex'', JStr ''v'')]), (''value'', JInt 5), (''confirmations'', JInt 1)]"

definition vault_outpoint :: outpoint where
  "vault_outpoint = \<lparr>op_txid = plain ''T'', op_vout = 0\<rparr>"

definition answer_txout :: "json list \<Rightarrow> json" where
  "answer_txout params = (if params = gettxout_params plain_api vault_outpoint then unspent_json else JNull)"

definition two_post :: "string \<Rightarrow> json list \<Rightarrow> ('w, core_error, json) chain_io" where
  "two_post method params w =
     (Inr (JObj [(''result'',
        if method = ''getblockcount'' then JInt 1
        else if method = ''getblockhash'' then JStr ''b''
        else if method = ''getbestblockhash'' then JStr ''b''
        else if method = ''getrawmempool'' then JObj [(''mempool_sequence'', JInt 7), (''txids'', JArr [])]
        else if method = ''gettxout'' then answer_txout params
        else (case params of JStr s # _ \<Rightarrow> JObj [(''previousblockhash'', two_prev (plain s)), (''tx'', two_txs (plain s))] | _ \<Rightarrow> JNull))]), w)"

definition two_batch :: "(nat \<times> string \<times> json list) list \<Rightarrow> ('w, core_error, json list) chain_io" where
  "two_batch requests w = (Inr (map (\<lambda>(i, m, ps). JObj [(''id'', JInt (int i)), (''result'', answer_txout ps)]) requests), w)"

definition two_core :: "'w core_rpc" where
  "two_core = \<lparr>cr_post = two_post, cr_post_batch = two_batch\<rparr>"

lemmas two_simps = two_core_def two_post_def call_def call_reply_def call_absent_def io_bind_def io_opt_def io_res_def io_guard_def json_at_def

lemma two_calls:
  "tip_height two_core w = (Inr 1, w)" "block_hash_at two_core plain_api h w = (Inr (Some (plain ''b'')), w)"
  "best_block_hash two_core plain_api w = (Inr (plain ''b''), w)" "mempool_snapshot two_core plain_api w = (Inr ([], 7), w)"
  by (simp_all add: tip_height_def block_hash_at_def best_block_hash_def mempool_snapshot_def txid_entries_def two_simps plain_api_def)

lemma two_getblock:
  "call two_core ''getblock'' [JStr s, JInt n] w = (Inr (JObj [(''previousblockhash'', two_prev (plain s)), (''tx'', two_txs (plain s))]), w)"
  by (simp add: two_simps)

lemma two_blocks: "core_blocks2 two_core plain_api two_prev two_txs"
  unfolding core_blocks2_def by (auto simp: two_simps plain_api_def demo_bytes_roundtrip)

definition cache_at_g :: vault_cache where
  "cache_at_g = \<lparr>vc_bestblock = plain ''g'', vc_height = 0, vc_scripts = [plain ''v''], vc_candidates = []\<rparr>"

definition cache_at_b :: vault_cache where
  "cache_at_b = \<lparr>vc_bestblock = plain ''b'', vc_height = 1, vc_scripts = [plain ''v''], vc_candidates = [vault_outpoint]\<rparr>"

lemma two_delta: "delta_block two_core plain_api [plain ''v''] (Suc 0) (plain ''g'', []) w = (Inr (plain ''b'', [vault_outpoint]), w)"
proof -
  have g: "demo_str_of_bytes (plain ''g'') = ''g''" "plain ''b'' \<noteq> plain ''g''"
    by (simp_all add: demo_bytes_of_str_def demo_str_of_bytes_def char_of_def bit_iff_odd)
  have "apply_block plain_api [plain ''v''] (two_txs (plain ''b'')) [] = Inr [vault_outpoint]"
    by (simp add: apply_block_def apply_tx_def add_candidate_def two_txs_def g array_or_empty_def opt_res_def json_at_def plain_api_def
        u32_of_def set_insert_def vault_outpoint_def enumerate_eq_zip)
  moreover have "ca_show_hash plain_api = demo_str_of_bytes" by (simp add: plain_api_def)
  ultimately show ?thesis
    using g by (simp add: delta_block_def two_calls two_getblock io_bind_def io_opt_def io_guard_def io_res_def json_at_def two_prev_def demo_bytes_roundtrip)
qed

lemma two_advance: "advance_confirmed_scan two_core plain_api cache_at_g w = (Inr cache_at_b, w)"
  by (simp add: advance_confirmed_scan_def io_bind_def two_calls two_delta cache_at_g_def cache_at_b_def Let_def MAX_VAULT_SCAN_DELTA_BLOCKS_def)

theorem cache_advance_is_replay_witness:
  "cache_exact plain_api (parent_of plain_api two_prev) two_txs cache_at_b \<and> vc_height cache_at_b = 1 \<and>
   (\<exists>w1. block_hash_at two_core plain_api (vc_height cache_at_b) w1 = (Inr (Some (vc_bestblock cache_at_b)), ()))"
proof -
  have "chain_to (parent_of plain_api two_prev) (plain ''g'') [plain ''g'']"
    by (rule chain_first) (simp add: parent_of_def two_prev_def)
  then have g: "cache_exact plain_api (parent_of plain_api two_prev) two_txs cache_at_g"
    by (auto simp: cache_exact_def cache_at_g_def history_def two_txs_def array_or_empty_def intro!: exI [of _ "[plain ''g'']"])
  have ne: "cache_at_b \<noteq> cache_at_g" "vc_height cache_at_b = 1" by (simp_all add: cache_at_b_def cache_at_g_def)
  from cache_advance_is_replay [OF two_blocks g two_advance [of "()"]] ne show ?thesis by auto
qed

text \<open>A backend whose answers never change.\<close>

definition two_view :: "'w \<Rightarrow> outpoint \<Rightarrow> prevout option" where
  "two_view w outp = (if gettxout_params plain_api outp = gettxout_params plain_api vault_outpoint
     then Some \<lparr>po_txout = \<lparr>script_pubkey = plain ''v'', txo_value = 5\<rparr>, po_confirmed = True\<rparr> else None)"

lemma two_parse: "parse_prevout plain_api (answer_txout (gettxout_params plain_api outp)) = Inr (two_view w outp)"
  by (simp add: answer_txout_def two_view_def parse_prevout_def unspent_json_def json_at_def opt_res_def)
    (simp add: plain_api_def)

lemma two_core_view: "core_view (two_core :: 'a core_rpc) plain_api (\<lambda>_ _. True) (\<lambda>_. plain ''b'') (\<lambda>_. 7) (\<lambda>_. {}) two_view"
proof -
  have p: "core_prevout two_core plain_api outp w = (Inr (two_view w outp), w)" for outp and w :: 'a
    using two_parse [of outp w] by (simp add: core_prevout_def two_simps)
  have b: "p = two_view v outp"
    if r: "cr_post_batch two_core requests w = (Inr replies, w')" "map fst requests = [0..<length requests]" "reply \<in> set replies"
      "i < length requests" "requests ! i = (i, ''gettxout'', gettxout_params plain_api outp)" "reply_answers plain_api reply i p"
    for requests replies reply i outp p and v w w' :: 'a
  proof -
    from r(1,3) obtain j where j: "j < length requests"
      "reply = (case requests ! j of (k, m, ps) \<Rightarrow> JObj [(''id'', JInt (int k)), (''result'', answer_txout ps)])"
      by (auto simp: two_core_def two_batch_def in_set_conv_nth)
    obtain m ps where q: "requests ! j = (j, m, ps)" using j(1) r(2) by (metis add_0 length_map nth_map nth_upt prod.collapse)
    have "j = i" using r(6) j(2) q by (auto simp: reply_answers_def json_at_def split: if_splits)
    then have "reply = JObj [(''id'', JInt (int i)), (''result'', answer_txout (gettxout_params plain_api outp))]" using j(2) q r(5) by simp
    then show ?thesis using r(6) two_parse [of outp v] by (auto simp: reply_answers_def json_at_def)
  qed
  have "two_view v = two_view w" for v w :: 'a by (auto simp: two_view_def)
  with b p show ?thesis unfolding core_view_def by (auto simp: forward_def two_calls)
qed

definition two_state :: core_state where
  "two_state = \<lparr>cs_scan_cache = Some cache_at_b, cs_vault_wallet = None, cs_reimport_pending = False, cs_reimport_in_progress = False,
     cs_full_scans = 0\<rparr>"

lemma two_unspent:
  "vault_unspent two_core plain_api ta (\<lambda>xs. xs) (\<lambda>xs. xs) [plain ''v''] [] (two_state, ()) =
   (Inr [(vault_outpoint, \<lparr>po_txout = \<lparr>script_pubkey = plain ''v'', txo_value = 5\<rparr>, po_confirmed = True\<rparr>)], (two_state, ()))"
proof -
  have c: "confirmed_candidates two_core plain_api (\<lambda>xs. xs) [plain ''v''] (two_state, ()) = (Inr (plain ''b'', [vault_outpoint]), (two_state, ()))"
    by (simp add: confirmed_candidates_def io_bind_def two_calls io_state_def two_state_def cache_at_b_def)
  have "core_prevouts two_core plain_api [vault_outpoint] (two_state, ()) = (Inr [two_view () vault_outpoint], (two_state, ()))"
    using two_parse [of vault_outpoint "()"]
    by (simp add: core_prevouts_def io_bind_def two_core_def two_batch_def enumerate_eq_zip io_guard_def io_res_def place_reply_def json_at_def opt_res_def)
  then show ?thesis
    by (simp add: vault_unspent_def vault_pass_def io_bind_def two_calls c io_guard_def keep_confirmed_def two_view_def hm_insert_def)
qed

definition two_tx :: tx_api where
  "two_tx = \<lparr>tx_weight = (\<lambda>tx. 4 * length (tx_input tx)), tx_vsize = (\<lambda>tx. length (tx_input tx)), tx_serialize = (\<lambda>tx. []), tx_deserialize = (\<lambda>b. None)\<rparr>"

theorem vault_unspent_is_snapshot_witness:
  "\<exists>found w'. vault_unspent two_core plain_api two_tx (\<lambda>xs. xs) (\<lambda>xs. xs) [plain ''v''] [] (two_state, ()) = (Inr found, w') \<and>
    map fst found = [vault_outpoint] \<and> (\<exists>(a :: unit core_world) (u :: unit core_world) cache. cs_scan_cache (fst u) = Some cache \<and>
      snapshot_of two_view a [plain ''v''] (set (vc_candidates cache)) {} (set found))"
  using vault_unspent_is_snapshot [OF two_core_view _ _ two_unspent [of two_tx]] by (simp add: two_unspent) blast

end
