(* ===== verification/Core_Wallet.thy ===== *)
theory Core_Wallet
  imports Core_Vault Wire_Proto
begin

text \<open>
  The node-owned watch-only wallet of the Bitcoin Core client and the refresh of the cache of
  confirmed vault outputs (\<open>crates/vault-node/src/chain.rs\<close>): the completion marker that records the
  chain position a wallet was built at, the build, check and repair of the wallet, the read of the
  wallet, and the refresh that chooses between the wallet, a bounded advance of the cache and a cold
  scan. A wallet whose anchor left the chain is latched out until a repair succeeds.
\<close>

subsection \<open>Markers and names\<close>

definition hex_digit :: "nat \<Rightarrow> char" where
  "hex_digit d = ''0123456789abcdef'' ! d"

text \<open>\<open>n\<close> with \<open>k\<close> lowercase hex digits, padded with zeros.\<close>

fun hex_padded :: "nat \<Rightarrow> nat \<Rightarrow> string" where
  "hex_padded 0 n = []"
| "hex_padded (Suc k) n = hex_padded k (n div 16) @ [hex_digit (n mod 16)]"

definition hex_value :: "char \<Rightarrow> nat option" where
  "hex_value c = (let v = of_char c :: nat in
     if 48 \<le> v \<and> v \<le> 57 then Some (v - 48) else if 97 \<le> v \<and> v \<le> 102 then Some (v - 87)
     else if 65 \<le> v \<and> v \<le> 70 then Some (v - 55) else None)"

fun hex_digits_value :: "string \<Rightarrow> nat \<Rightarrow> nat option" where
  "hex_digits_value [] acc = Some acc"
| "hex_digits_value (c # cs) acc = (case hex_value c of None \<Rightarrow> None | Some d \<Rightarrow> hex_digits_value cs (16 * acc + d))"

text \<open>\<open>u32::from_str_radix\<close> at radix 16, on at most eight characters: one leading plus sign is accepted.\<close>

definition u32_from_hex :: "string \<Rightarrow> nat option" where
  "u32_from_hex s = (let t = (case s of c # cs \<Rightarrow> if c = CHR ''+'' then cs else s | [] \<Rightarrow> []) in
     if t = [] then None else hex_digits_value t 0)"

definition strip_prefix :: "string \<Rightarrow> string \<Rightarrow> string option" where
  "strip_prefix p s = (if take (length p) s = p then Some (drop (length p) s) else None)"

definition strip_suffix_char :: "char \<Rightarrow> string \<Rightarrow> string option" where
  "strip_suffix_char c s = (if s \<noteq> [] \<and> List.last s = c then Some (butlast s) else None)"

definition vault_wallet_marker :: "core_api \<Rightarrow> bytes \<Rightarrow> nat \<times> block_hash \<Rightarrow> string" where
  "vault_wallet_marker api owner anchor =
     ''raw(6a4c44'' @ ca_hex api owner @ hex_padded 8 (fst anchor) @ ca_show_hash api (snd anchor) @ '')''"

text \<open>The slices of the payload are by bytes; a descriptor of Core is ASCII, so they are by characters too.\<close>

definition parse_vault_wallet_marker :: "core_api \<Rightarrow> bytes \<Rightarrow> string \<Rightarrow> (nat \<times> block_hash) option" where
  "parse_vault_wallet_marker api owner descriptor =
     (case strip_prefix (''raw(6a4c44'' @ ca_hex api owner) descriptor of
        None \<Rightarrow> None
      | Some rest \<Rightarrow>
          (case strip_suffix_char (CHR '')'') rest of
             None \<Rightarrow> None
           | Some payload \<Rightarrow>
               if length payload \<noteq> 72 then None
               else (case (u32_from_hex (take 8 payload), ca_hash_of_str api (drop 8 payload)) of
                       (Some height, Some hash) \<Rightarrow> Some (height, hash)
                     | _ \<Rightarrow> None)))"

fun bytes_le :: "bytes \<Rightarrow> bytes \<Rightarrow> bool" where
  "bytes_le [] ys = True"
| "bytes_le (x # xs) [] = False"
| "bytes_le (x # xs) (y # ys) = (x < y \<or> x = y \<and> bytes_le xs ys)"

fun insert_bytes :: "bytes \<Rightarrow> bytes list \<Rightarrow> bytes list" where
  "insert_bytes x [] = [x]"
| "insert_bytes x (y # ys) = (if bytes_le x y then x # y # ys else y # insert_bytes x ys)"

definition VAULT_WALLET_PREFIX :: string where "VAULT_WALLET_PREFIX = ''vaultnode-''"

definition vault_wallet_name :: "(bytes \<Rightarrow> digest) \<Rightarrow> core_api \<Rightarrow> bytes \<Rightarrow> script list \<Rightarrow> string" where
  "vault_wallet_name sha256 api owner scripts =
     (let ordered = remdups_adj (foldr insert_bytes scripts []);
          digest = sha256 (owner @ concat (map (\<lambda>s. u64_le (word_of_nat (length s)) @ s) ordered))
      in VAULT_WALLET_PREFIX @ ca_hex api (take 8 digest))"

subsection \<open>Wallet calls\<close>

text \<open>What the wallet functions share: the transports, the formats, the identity of the node, the digest.\<close>

record 'n wallet_env =
  we_core :: "'n core_world core_rpc"
  we_wallet_post :: "string \<Rightarrow> string \<Rightarrow> json list \<Rightarrow> ('n core_world, core_error, json) chain_io"
  we_api :: core_api
  we_owner :: bytes
  we_sha256 :: "bytes \<Rightarrow> digest"

definition wallet_call :: "'n wallet_env \<Rightarrow> string \<Rightarrow> string \<Rightarrow> json list \<Rightarrow> ('n core_world, core_error, json) chain_io" where
  "wallet_call env wallet method params =
     io_bind (we_wallet_post env wallet method params) (\<lambda>reply.
     if json_at reply ''error'' \<noteq> JNull then io_fail (RpcRefused method) else io_return (json_at reply ''result''))"

definition wallet_descriptors :: "'n wallet_env \<Rightarrow> string \<Rightarrow> ('n core_world, core_error, string list) chain_io" where
  "wallet_descriptors env name =
     io_bind (wallet_call env name ''listdescriptors'' []) (\<lambda>listed.
     io_bind (io_opt (BadReply ''listdescriptors'') (as_array (json_at listed ''descriptors''))) (\<lambda>entries.
     io_bind (io_res (collect_res (\<lambda>entry. bind_res (opt_res (BadReply ''listdescriptors'') (as_str (json_at entry ''desc''))) (\<lambda>desc.
       Ok (takeWhile (\<lambda>c. c \<noteq> CHR ''#'') desc))) entries)) (\<lambda>found. io_return (remdups found))))"

definition import_descriptors :: "'n wallet_env \<Rightarrow> string \<Rightarrow> json list \<Rightarrow> ('n core_world, core_error, unit) chain_io" where
  "import_descriptors env wallet requests =
     io_bind (wallet_call env wallet ''importdescriptors'' [JArr requests]) (\<lambda>results.
     io_bind (io_opt (BadReply ''importdescriptors'') (as_array results)) (\<lambda>entries.
     io_bind (io_guard (BadReply ''importdescriptors'') (length entries = length requests)) (\<lambda>_.
     io_guard (RpcRefused ''importdescriptors'') (list_all (\<lambda>entry. as_bool (json_at entry ''success'') = Some True) entries))))"

definition checksummed_descriptor :: "'n wallet_env \<Rightarrow> string \<Rightarrow> ('n core_world, core_error, string) chain_io" where
  "checksummed_descriptor env descriptor =
     io_bind (call (we_core env) ''getdescriptorinfo'' [JStr descriptor]) (\<lambda>info.
     io_opt (BadReply ''getdescriptorinfo'') (as_str (json_at info ''descriptor'')))"

definition block_time_at :: "'n wallet_env \<Rightarrow> nat \<Rightarrow> ('n core_world, core_error, nat) chain_io" where
  "block_time_at env height =
     io_bind (block_hash_at (we_core env) (we_api env) height) (\<lambda>r.
     io_bind (io_opt (BlockVanished height) r) (\<lambda>hash.
     io_bind (call (we_core env) ''getblockheader'' [JStr (ca_show_hash (we_api env) hash), JBool True]) (\<lambda>header.
     io_opt (BadReply ''getblockheader'') (as_u64 (json_at header ''time'')))))"

subsection \<open>Building and checking the wallet\<close>

definition descriptor_request :: "string \<Rightarrow> json \<Rightarrow> json" where
  "descriptor_request desc timestamp = JObj [(''desc'', JStr desc), (''timestamp'', timestamp), (''active'', JBool False)]"

fun vault_requests :: "'n wallet_env \<Rightarrow> nat \<Rightarrow> script list \<Rightarrow> ('n core_world, core_error, json list) chain_io" where
  "vault_requests env timestamp [] = io_return []"
| "vault_requests env timestamp (script # scripts) =
     io_bind (checksummed_descriptor env (raw_descriptor (we_api env) script)) (\<lambda>desc.
     io_bind (vault_requests env timestamp scripts) (\<lambda>rest.
     io_return (descriptor_request desc (JInt (int timestamp)) # rest)))"

definition anchor_of :: "cold_scan \<Rightarrow> nat \<times> block_hash" where
  "anchor_of cold = (vc_height (co_cache cold), vc_bestblock (co_cache cold))"

text \<open>The birthday of the import is bracketed by the anchor of the scan it comes from.\<close>

definition import_vault_descriptors ::
  "'n wallet_env \<Rightarrow> string \<Rightarrow> script list \<Rightarrow> cold_scan \<Rightarrow> ('n core_world, core_error, unit) chain_io" where
  "import_vault_descriptors env name scripts cold =
     io_bind (block_time_at env (co_oldest_unspent_height cold)) (\<lambda>timestamp.
     io_bind (block_hash_at (we_core env) (we_api env) (vc_height (co_cache cold))) (\<lambda>r.
     io_bind (io_guard (NoLongerActive (vc_height (co_cache cold))) (r = Some (vc_bestblock (co_cache cold)))) (\<lambda>_.
     io_bind (vault_requests env timestamp scripts) (\<lambda>requests.
     io_bind (import_descriptors env name requests) (\<lambda>_.
     io_bind (checksummed_descriptor env (vault_wallet_marker (we_api env) (we_owner env) (anchor_of cold))) (\<lambda>marker.
     import_descriptors env name [descriptor_request marker (JStr ''now'')]))))))"

definition create_vault_wallet ::
  "'n wallet_env \<Rightarrow> string \<Rightarrow> script list \<Rightarrow> cold_scan \<Rightarrow> ('n core_world, core_error, unit) chain_io" where
  "create_vault_wallet env name scripts cold =
     io_bind (call (we_core env) ''createwallet'' [JStr name, JBool True, JBool True, JStr [], JBool False, JBool True, JBool False]) (\<lambda>_.
     import_vault_descriptors env name scripts cold)"

text \<open>The markers of this node among the descriptors beyond the vault's own, if they all are markers.\<close>

fun parse_markers :: "core_api \<Rightarrow> bytes \<Rightarrow> string list \<Rightarrow> (nat \<times> block_hash) list option" where
  "parse_markers api owner [] = Some []"
| "parse_markers api owner (d # ds) =
     (case (parse_vault_wallet_marker api owner d, parse_markers api owner ds) of
        (Some a, Some as) \<Rightarrow> Some (a # as) | _ \<Rightarrow> None)"

fun first_active :: "'w core_rpc \<Rightarrow> core_api \<Rightarrow> (nat \<times> block_hash) list \<Rightarrow> ('w, core_error, (nat \<times> block_hash) option) chain_io" where
  "first_active rpc api [] = io_return None"
| "first_active rpc api ((height, hash) # as) =
     io_bind (block_hash_at rpc api height) (\<lambda>r. if r = Some hash then io_return (Some (height, hash)) else first_active rpc api as)"

text \<open>The repair of a wallet that is owned but incomplete or off the chain.\<close>

definition repair_vault_wallet ::
  "'n wallet_env \<Rightarrow> string \<Rightarrow> script list \<Rightarrow> cold_scan \<Rightarrow> ('n core_world, core_error, nat \<times> block_hash) chain_io" where
  "repair_vault_wallet env name scripts cold =
     io_bind (import_vault_descriptors env name scripts cold) (\<lambda>_.
     io_bind (wallet_descriptors env name) (\<lambda>repaired.
     if \<not> list_all (\<lambda>d. d \<in> set repaired) (map (raw_descriptor (we_api env)) scripts) \<or>
        vault_wallet_marker (we_api env) (we_owner env) (anchor_of cold) \<notin> set repaired
     then io_fail (BadReply ''wallet'')
     else io_bind (io_update (\<lambda>s. s\<lparr>cs_reimport_pending := False\<rparr>)) (\<lambda>_. io_return (anchor_of cold))))"

definition verify_vault_wallet ::
  "'n wallet_env \<Rightarrow> string \<Rightarrow> script list \<Rightarrow> cold_scan option \<Rightarrow> ('n core_world, core_error, nat \<times> block_hash) chain_io" where
  "verify_vault_wallet env name scripts cold_scan =
     io_bind (wallet_call env name ''getwalletinfo'' []) (\<lambda>info.
     io_bind (wallet_descriptors env name) (\<lambda>found.
     let watch_only = (as_bool (json_at info ''private_keys_enabled'') = Some False);
         expected = map (raw_descriptor (we_api env)) scripts;
         scripts_complete = list_all (\<lambda>d. d \<in> set found) expected;
         anchors = parse_markers (we_api env) (we_owner env) (filter (\<lambda>d. d \<notin> set expected) found);
         only_owned = (anchors \<noteq> None) in
     io_bind (if watch_only then first_active (we_core env) (we_api env) (case anchors of None \<Rightarrow> [] | Some as \<Rightarrow> as) else io_return None)
       (\<lambda>active_marker.
     case (if scripts_complete \<and> only_owned then active_marker else None) of
       Some anchor \<Rightarrow> io_return anchor
     | None \<Rightarrow>
         (case (if watch_only \<and> only_owned then cold_scan else None) of
            None \<Rightarrow> io_fail (BadReply ''wallet'')
          | Some cold \<Rightarrow> repair_vault_wallet env name scripts cold))))"

definition load_vault_wallet ::
  "'n wallet_env \<Rightarrow> string \<Rightarrow> script list \<Rightarrow> cold_scan option \<Rightarrow> ('n core_world, core_error, unit) chain_io" where
  "load_vault_wallet env name scripts cold_scan =
     io_bind (call_reply (we_core env) ''loadwallet'' [JStr name]) (\<lambda>reply.
     if json_at reply ''error'' = JNull then io_return ()
     else (let code = as_i64 (json_at (json_at reply ''error'') ''code'') in
       if code = Some (- 35) then io_return ()
       else if code = Some (- 18) then
         (case cold_scan of None \<Rightarrow> io_fail (BadReply ''wallet'') | Some cold \<Rightarrow> create_vault_wallet env name scripts cold)
       else io_fail (RpcRefused ''loadwallet'')))"

text \<open>The handle of an already verified wallet for these scripts.\<close>

definition held_wallet :: "script list \<Rightarrow> core_state \<Rightarrow> vault_wallet option" where
  "held_wallet scripts s =
     (case cs_vault_wallet s of None \<Rightarrow> None | Some wallet \<Rightarrow> if vw_scripts wallet = scripts then Some wallet else None)"

definition ensure_vault_wallet ::
  "'n wallet_env \<Rightarrow> script list \<Rightarrow> cold_scan option \<Rightarrow> ('n core_world, core_error, string \<times> (nat \<times> block_hash)) chain_io" where
  "ensure_vault_wallet env scripts cold_scan =
     io_bind io_state (\<lambda>s. case held_wallet scripts s of
       Some wallet \<Rightarrow> io_return (vw_name wallet, vw_anchor wallet)
     | None \<Rightarrow>
         let name = vault_wallet_name (we_sha256 env) (we_api env) (we_owner env) scripts in
         io_bind (load_vault_wallet env name scripts cold_scan) (\<lambda>_.
         io_bind (verify_vault_wallet env name scripts cold_scan) (\<lambda>anchor.
         io_bind (io_update (\<lambda>s. s\<lparr>cs_vault_wallet := Some \<lparr>vw_name = name, vw_scripts = scripts, vw_anchor = anchor\<rparr>\<rparr>)) (\<lambda>_.
         io_return (name, anchor)))))"

definition seed_vault_wallet :: "'n wallet_env \<Rightarrow> script list \<Rightarrow> cold_scan \<Rightarrow> ('n core_world, core_error, unit) chain_io" where
  "seed_vault_wallet env scripts cold =
     io_bind (ensure_vault_wallet env scripts (Some cold)) (\<lambda>(name, _).
     io_bind io_state (\<lambda>s.
     if \<not> cs_reimport_pending s then io_return ()
     else io_bind (import_vault_descriptors env name scripts cold) (\<lambda>_.
       io_bind (io_update (\<lambda>s. s\<lparr>cs_vault_wallet := map_option (\<lambda>w. w\<lparr>vw_anchor := anchor_of cold\<rparr>) (cs_vault_wallet s)\<rparr>)) (\<lambda>_.
       io_update (\<lambda>s. s\<lparr>cs_reimport_pending := False\<rparr>)))))"

subsection \<open>Reading the wallet\<close>

definition wallet_anchor :: "core_state \<Rightarrow> (nat \<times> block_hash) option" where
  "wallet_anchor s = map_option vw_anchor (cs_vault_wallet s)"

definition wallet_read_anchor_held :: "'n wallet_env \<Rightarrow> ('n core_world, core_error, bool) chain_io" where
  "wallet_read_anchor_held env =
     io_bind io_state (\<lambda>s. case wallet_anchor s of
       None \<Rightarrow> io_return False
     | Some (height, hash) \<Rightarrow>
         io_bind (block_hash_at (we_core env) (we_api env) height) (\<lambda>r. io_return (r = Some hash)))"

definition entry_txid :: "core_api \<Rightarrow> json \<Rightarrow> core_error + txid" where
  "entry_txid api entry =
     bind_res (opt_res (BadReply ''listsinceblock'') (as_str (json_at entry ''txid''))) (\<lambda>t.
     opt_res (BadReply ''listsinceblock'') (ca_txid_of_str api t))"

definition unspent_candidate :: "core_api \<Rightarrow> script list \<Rightarrow> json \<Rightarrow> outpoint list \<Rightarrow> core_error + outpoint list" where
  "unspent_candidate api watched entry candidates =
     bind_res (opt_res (BadReply ''listunspent'') (as_str (json_at entry ''scriptPubKey''))) (\<lambda>script_hex.
     bind_res (opt_res (BadReply ''listunspent'') (ca_script_of_hex api script_hex)) (\<lambda>script.
     if script \<notin> set watched then Ok candidates
     else bind_res (parse_outpoint api ''listunspent'' entry) (\<lambda>outp. Ok (set_insert outp candidates))))"

definition CREDIT_ONLY :: "string list" where "CREDIT_ONLY = [''receive'', ''generate'', ''immature'', ''orphan'']"

text \<open>The candidates, the unconfirmed debits and the confirmed debits as the history is read.\<close>

record history =
  hi_candidates :: "outpoint list"
  hi_pending :: "txid list"
  hi_confirmed_debits :: "txid list"

definition history_entry :: "core_api \<Rightarrow> json \<Rightarrow> history \<Rightarrow> core_error + history" where
  "history_entry api entry hist =
     bind_res (opt_res (BadReply ''listsinceblock'') (as_str (json_at entry ''category''))) (\<lambda>category.
     bind_res (opt_res (BadReply ''listsinceblock'') (as_i64 (json_at entry ''confirmations''))) (\<lambda>confirmations.
     if confirmations > 0 then
       (if category = ''send''
        then bind_res (entry_txid api entry) (\<lambda>t. Ok (hist\<lparr>hi_confirmed_debits := set_insert t (hi_confirmed_debits hist)\<rparr>))
        else bind_res (parse_outpoint api ''listsinceblock'' entry) (\<lambda>outp. Ok (hist\<lparr>hi_candidates := set_insert outp (hi_candidates hist)\<rparr>)))
     else if category \<in> set CREDIT_ONLY then Ok hist
     else bind_res (entry_txid api entry) (\<lambda>t. Ok (hist\<lparr>hi_pending := set_insert t (hi_pending hist)\<rparr>))))"

definition input_outpoint :: "core_api \<Rightarrow> json \<Rightarrow> core_error + outpoint option" where
  "input_outpoint api vin =
     (if json_get vin ''txid'' = None then Ok None
      else bind_res (parse_outpoint api ''gettransaction'' vin) (\<lambda>outp. Ok (Some outp)))"

text \<open>The inputs of the debits in order: of the unconfirmed ones they are added, of the confirmed ones they are spent.\<close>

fun expand_debits ::
  "'n wallet_env \<Rightarrow> string \<Rightarrow> (txid \<times> bool) list \<Rightarrow> outpoint list \<Rightarrow> outpoint list
    \<Rightarrow> ('n core_world, core_error, outpoint list \<times> outpoint list) chain_io" where
  "expand_debits env wallet [] candidates spent = io_return (candidates, spent)"
| "expand_debits env wallet ((txid, confirmed) # rest) candidates spent =
     io_bind (wallet_call env wallet ''gettransaction'' [JStr (ca_show_txid (we_api env) txid), JBool True, JBool True]) (\<lambda>tx.
     io_bind (io_opt (BadReply ''gettransaction'') (as_array (json_at (json_at tx ''decoded'') ''vin''))) (\<lambda>inputs.
     io_bind (io_res (collect_res (input_outpoint (we_api env)) inputs)) (\<lambda>outs.
     let ins = List.map_filter id outs in
     if confirmed then expand_debits env wallet rest candidates (fold set_insert ins spent)
     else expand_debits env wallet rest (fold set_insert ins candidates) spent)))"

text \<open>One attempt: the cache, or \<open>None\<close> when the tip moved while the wallet was read.\<close>

definition wallet_attempt ::
  "'n wallet_env \<Rightarrow> ((txid \<times> bool) list \<Rightarrow> (txid \<times> bool) list) \<Rightarrow> string \<Rightarrow> script list \<Rightarrow> vault_cache option
    \<Rightarrow> ('n core_world, core_error, vault_cache option) chain_io" where
  "wallet_attempt env sort_debits wallet scripts cached =
     io_bind (best_block_hash (we_core env) (we_api env)) (\<lambda>bestblock.
     io_bind (wallet_call env wallet ''listunspent''
       [JInt 1, JInt 9999999, JArr [], JBool True, JObj [(''include_immature_coinbase'', JBool True)]]) (\<lambda>unspents.
     io_bind (io_opt (BadReply ''listunspent'') (as_array unspents)) (\<lambda>entries.
     io_bind (io_res (fold_res (unspent_candidate (we_api env) scripts) entries [])) (\<lambda>listed.
     let candidates = (case cached of None \<Rightarrow> listed | Some cache \<Rightarrow> fold set_insert (vc_candidates cache) listed);
         since = (case cached of None \<Rightarrow> JNull | Some cache \<Rightarrow> JStr (ca_show_hash (we_api env) (vc_bestblock cache))) in
     io_bind (wallet_call env wallet ''listsinceblock'' [since, JInt 1, JBool True, JBool False, JBool True]) (\<lambda>pending.
     io_bind (io_opt (BadReply ''listsinceblock'') (as_str (json_at pending ''lastblock''))) (\<lambda>wallet_block_text.
     io_bind (io_opt (BadReply ''listsinceblock'') (ca_hash_of_str (we_api env) wallet_block_text)) (\<lambda>wallet_block.
     io_bind (io_opt (BadReply ''listsinceblock'') (as_array (json_at pending ''transactions''))) (\<lambda>transactions.
     io_bind (io_res (fold_res (history_entry (we_api env)) transactions
       \<lparr>hi_candidates = candidates, hi_pending = [], hi_confirmed_debits = []\<rparr>)) (\<lambda>hist.
     io_bind (expand_debits env wallet
       (sort_debits (map (\<lambda>t. (t, False)) (hi_pending hist) @ map (\<lambda>t. (t, True)) (hi_confirmed_debits hist))) (hi_candidates hist) [])
       (\<lambda>(expanded, spent).
     io_bind (best_block_hash (we_core env) (we_api env)) (\<lambda>tip_after.
     if tip_after = bestblock
     then io_bind (confirm_active_height (we_core env) (we_api env) wallet_block) (\<lambda>height.
       io_return (Some \<lparr>vc_bestblock = wallet_block, vc_height = height, vc_scripts = scripts,
                        vc_candidates = filter (\<lambda>outp. outp \<notin> set spent) expanded\<rparr>))
     else io_return None)))))))))))"

definition wallet_confirmed_scan ::
  "'n wallet_env \<Rightarrow> ((txid \<times> bool) list \<Rightarrow> (txid \<times> bool) list) \<Rightarrow> script list \<Rightarrow> vault_cache option
    \<Rightarrow> ('n core_world, core_error, vault_cache) chain_io" where
  "wallet_confirmed_scan env sort_debits scripts cached =
     io_bind (ensure_vault_wallet env scripts None) (\<lambda>(wallet, _).
     io_bind (wallet_attempt env sort_debits wallet scripts cached) (\<lambda>r. case r of
       Some cache \<Rightarrow> io_return cache
     | None \<Rightarrow> io_bind (wallet_attempt env sort_debits wallet scripts cached) (\<lambda>r. case r of
           Some cache \<Rightarrow> io_return cache
         | None \<Rightarrow> io_fail SnapshotMoved)))"

subsection \<open>Refreshing the cache\<close>

text \<open>A computation whose error is handled instead of passed on.\<close>

definition io_catch :: "('w, 'e, 'a) chain_io \<Rightarrow> ('a \<Rightarrow> ('w, 'f, 'b) chain_io) \<Rightarrow> ('e \<Rightarrow> ('w, 'f, 'b) chain_io) \<Rightarrow> ('w, 'f, 'b) chain_io" where
  "io_catch m f h w = (case m w of (Inl e, w1) \<Rightarrow> h e w1 | (Inr a, w1) \<Rightarrow> f a w1)"

text \<open>Another import is started only if none runs; \<open>can_spawn\<close> is whether the thread could be created.\<close>

definition spawn_vault_wallet_seed :: "bool \<Rightarrow> ('n core_world, core_error, unit) chain_io" where
  "spawn_vault_wallet_seed can_spawn =
     io_update (\<lambda>s. if cs_reimport_in_progress s then s else s\<lparr>cs_reimport_in_progress := can_spawn\<rparr>)"

text \<open>The body of that thread. An error and a panic end alike.\<close>

definition wallet_seed_task :: "'n wallet_env \<Rightarrow> script list \<Rightarrow> cold_scan \<Rightarrow> ('n core_world, core_error, unit) chain_io" where
  "wallet_seed_task env scripts cold =
     io_catch (seed_vault_wallet env scripts cold) (\<lambda>_. io_update (\<lambda>s. s\<lparr>cs_reimport_in_progress := False\<rparr>))
       (\<lambda>_. io_update (\<lambda>s. s\<lparr>cs_reimport_in_progress := False\<rparr>))"

definition anchor_reorged :: "'n wallet_env \<Rightarrow> ('n core_world, core_error, bool) chain_io" where
  "anchor_reorged env =
     io_bind io_state (\<lambda>s. case wallet_anchor s of
       None \<Rightarrow> io_return False
     | Some (height, hash) \<Rightarrow> io_bind (block_hash_at (we_core env) (we_api env) height) (\<lambda>r. io_return (r \<noteq> Some hash)))"

text \<open>Whether the wallet served the cache, and whether a repair is pending afterwards.\<close>

definition serve_from_wallet ::
  "'n wallet_env \<Rightarrow> ((txid \<times> bool) list \<Rightarrow> (txid \<times> bool) list) \<Rightarrow> script list \<Rightarrow> vault_cache option
    \<Rightarrow> ('n core_world, core_error, bool \<times> bool) chain_io" where
  "serve_from_wallet env sort_debits scripts cached =
     io_catch (wallet_confirmed_scan env sort_debits scripts cached)
       (\<lambda>cache. io_bind (wallet_read_anchor_held env) (\<lambda>held.
          if held then io_bind (io_update (\<lambda>s. s\<lparr>cs_scan_cache := Some cache\<rparr>)) (\<lambda>_. io_return (True, False))
          else io_bind (io_update (\<lambda>s. s\<lparr>cs_reimport_pending := True\<rparr>)) (\<lambda>_. io_return (False, True))))
       (\<lambda>_. io_bind (io_update (\<lambda>s. s\<lparr>cs_vault_wallet := None\<rparr>)) (\<lambda>_. io_return (False, False)))"

definition delta_base ::
  "'n wallet_env \<Rightarrow> vault_cache option \<Rightarrow> bool \<Rightarrow> bool \<Rightarrow> ('n core_world, core_error, vault_cache option) chain_io" where
  "delta_base env cached repair_pending repair_in_progress =
     (case cached of
        None \<Rightarrow> io_return None
      | Some cache \<Rightarrow>
          if \<not> repair_pending \<or> repair_in_progress
          then io_bind (block_hash_at (we_core env) (we_api env) (vc_height cache)) (\<lambda>r.
            io_return (if r = Some (vc_bestblock cache) then Some cache else None))
          else io_return None)"

definition cold_refresh ::
  "'n wallet_env \<Rightarrow> script list \<Rightarrow> bool \<Rightarrow> bool \<Rightarrow> ('n core_world, core_error, vault_cache) chain_io" where
  "cold_refresh env scripts seed_in_background can_spawn =
     io_bind (full_confirmed_scan (we_core env) (we_api env) scripts) (\<lambda>cold.
     io_bind (io_update (\<lambda>s. s\<lparr>cs_scan_cache := Some (co_cache cold)\<rparr>)) (\<lambda>_.
     io_bind (if seed_in_background then spawn_vault_wallet_seed can_spawn
              else io_catch (seed_vault_wallet env scripts cold) io_return (\<lambda>_. io_return ())) (\<lambda>_.
     io_return (co_cache cold))))"

text \<open>The refresh when the wallet did not serve: advance the base where there is one, else scan cold.\<close>

definition refresh_without_wallet ::
  "'n wallet_env \<Rightarrow> script list \<Rightarrow> vault_cache option \<Rightarrow> bool \<Rightarrow> bool \<Rightarrow> bool \<Rightarrow> bool \<Rightarrow> ('n core_world, core_error, unit) chain_io" where
  "refresh_without_wallet env scripts cached repair_pending repair_in_progress seed_in_background can_spawn =
     io_bind (delta_base env cached repair_pending repair_in_progress) (\<lambda>base.
     io_bind (case base of
                Some cache \<Rightarrow> advance_confirmed_scan (we_core env) (we_api env) cache
              | None \<Rightarrow> cold_refresh env scripts seed_in_background can_spawn) (\<lambda>refreshed.
     io_update (\<lambda>s. s\<lparr>cs_scan_cache := Some refreshed\<rparr>)))"

definition usable_cache :: "script list \<Rightarrow> core_state \<Rightarrow> vault_cache option" where
  "usable_cache scripts s = (case cs_scan_cache s of None \<Rightarrow> None | Some cache \<Rightarrow> if vc_scripts cache = scripts then Some cache else None)"

definition refresh_vault_unspent_cache_mode ::
  "'n wallet_env \<Rightarrow> ((txid \<times> bool) list \<Rightarrow> (txid \<times> bool) list) \<Rightarrow> script list \<Rightarrow> bool \<Rightarrow> bool \<Rightarrow> ('n core_world, core_error, unit) chain_io" where
  "refresh_vault_unspent_cache_mode env sort_debits scripts seed_in_background can_spawn =
     io_bind io_state (\<lambda>s0.
     io_bind (anchor_reorged env) (\<lambda>reorged.
     io_bind (io_update (\<lambda>s. s\<lparr>cs_reimport_pending := cs_reimport_pending s \<or> reorged\<rparr>)) (\<lambda>_.
     io_bind io_state (\<lambda>s1.
     io_bind (if \<not> cs_reimport_pending s1 \<and> \<not> cs_reimport_in_progress s1
              then serve_from_wallet env sort_debits scripts (usable_cache scripts s0)
              else io_return (False, cs_reimport_pending s1)) (\<lambda>res.
     if fst res then io_return ()
     else refresh_without_wallet env scripts (usable_cache scripts s0) (snd res) (cs_reimport_in_progress s1) seed_in_background can_spawn)))))"

definition refresh_vault_unspent_cache ::
  "'n wallet_env \<Rightarrow> ((txid \<times> bool) list \<Rightarrow> (txid \<times> bool) list) \<Rightarrow> script list \<Rightarrow> ('n core_world, core_error, unit) chain_io" where
  "refresh_vault_unspent_cache env sort_debits scripts = refresh_vault_unspent_cache_mode env sort_debits scripts False True"

definition refresh_vault_unspent_cache_live ::
  "'n wallet_env \<Rightarrow> ((txid \<times> bool) list \<Rightarrow> (txid \<times> bool) list) \<Rightarrow> script list \<Rightarrow> bool \<Rightarrow> ('n core_world, core_error, unit) chain_io" where
  "refresh_vault_unspent_cache_live env sort_debits scripts can_spawn = refresh_vault_unspent_cache_mode env sort_debits scripts True can_spawn"

subsection \<open>Markers read back\<close>

lemma hex_value_digit: "d < 16 \<Longrightarrow> hex_value (hex_digit d) = Some d"
proof -
  have "\<forall>d \<in> set [0..<16]. hex_value (hex_digit d) = Some d" by code_simp
  then show "d < 16 \<Longrightarrow> hex_value (hex_digit d) = Some d" by simp
qed

lemma hex_padded_value: "n < 16 ^ k \<Longrightarrow> hex_digits_value (hex_padded k n @ cs) acc = hex_digits_value cs (16 ^ k * acc + n)"
proof (induction k arbitrary: n cs acc)
  case 0
  then show ?case by simp
next
  case (Suc k)
  then have "n div 16 < 16 ^ k" by (simp add: less_mult_imp_div_less mult.commute)
  with Suc.IH [of "n div 16" "hex_digit (n mod 16) # cs" acc] show ?case
    by (simp add: hex_value_digit algebra_simps)
qed

lemma length_hex_padded [simp]: "length (hex_padded k n) = k"
  by (induction k arbitrary: n) simp_all

lemma hex_padded_digits: "c \<in> set (hex_padded k n) \<Longrightarrow> \<exists>d < 16. c = hex_digit d"
proof (induction k arbitrary: n)
  case (Suc k)
  then have "c \<in> set (hex_padded k (n div 16)) \<or> c = hex_digit (n mod 16)" by auto
  moreover have "n mod 16 < 16" by simp
  ultimately show ?case using Suc.IH by blast
qed simp

lemma u32_from_hex_padded: "n < 2 ^ 32 \<Longrightarrow> u32_from_hex (hex_padded 8 n) = Some n"
proof -
  assume n: "n < 2 ^ 32"
  have l: "length (hex_padded 8 n) = 8" by simp
  then obtain c cs where h: "hex_padded 8 n = c # cs" by (cases "hex_padded 8 n") auto
  then obtain d where "d < 16" "c = hex_digit d" using hex_padded_digits [of c 8 n] by auto
  then have "hex_value c \<noteq> None" by (simp add: hex_value_digit)
  then have "c \<noteq> CHR ''+''" by (auto simp: hex_value_def)
  with h have "u32_from_hex (hex_padded 8 n) = hex_digits_value (hex_padded 8 n) 0" by (simp add: u32_from_hex_def)
  also have "\<dots> = Some n" using hex_padded_value [of n 8 "[]" 0] n by simp
  finally show ?thesis .
qed

text \<open>A wallet's completion marker is read back exactly. The marker a node writes into its wallet
  names the node and the height and hash of the block the wallet was built at; parsing it for the same
  node returns that height and hash, for every 32-bit height and every hash of 64 hex digits.\<close>

theorem marker_roundtrip:
  assumes "height < 2 ^ 32" and "length (ca_show_hash api hash) = 64"
    and "ca_hash_of_str api (ca_show_hash api hash) = Some hash"
  shows "parse_vault_wallet_marker api owner (vault_wallet_marker api owner (height, hash)) = Some (height, hash)"
  using assms by (simp add: parse_vault_wallet_marker_def vault_wallet_marker_def strip_prefix_def strip_suffix_char_def
      butlast_append u32_from_hex_padded)

definition zeros_hash :: bytes where "zeros_hash = replicate 64 48"

theorem marker_roundtrip_witness:
  "parse_vault_wallet_marker plain_api [65] (vault_wallet_marker plain_api [65] (840000, zeros_hash)) = Some (840000, zeros_hash)"
proof (rule marker_roundtrip)
  show "length (ca_show_hash plain_api zeros_hash) = 64"
    by (simp add: plain_api_def zeros_hash_def demo_str_of_bytes_def)
  show "ca_hash_of_str plain_api (ca_show_hash plain_api zeros_hash) = Some zeros_hash"
    by (simp add: plain_api_def demo_bytes_roundtrip)
qed simp

subsection \<open>Where a refreshed cache comes from\<close>

text \<open>While a refresh waits for Core, no other thread changes the backend's own state.\<close>

definition undisturbed :: "'n core_world core_rpc \<Rightarrow> bool" where
  "undisturbed rpc \<longleftrightarrow> (\<forall>method params. forward (\<lambda>a b. fst a = fst b) (cr_post rpc method params))"

definition from_cold :: "'n wallet_env \<Rightarrow> script list \<Rightarrow> vault_cache \<Rightarrow> bool" where
  "from_cold env scripts cache \<longleftrightarrow>
     (\<exists>cold w w'. full_confirmed_scan (we_core env) (we_api env) scripts w = (Inr cold, w') \<and> cache = co_cache cold)"

text \<open>A base on the active chain, advanced.\<close>

definition from_base :: "'n wallet_env \<Rightarrow> vault_cache option \<Rightarrow> vault_cache \<Rightarrow> bool" where
  "from_base env cached cache \<longleftrightarrow>
     (\<exists>base_cache v w w'. cached = Some base_cache \<and>
        block_hash_at (we_core env) (we_api env) (vc_height base_cache) v = (Inr (Some (vc_bestblock base_cache)), w) \<and>
        advance_confirmed_scan (we_core env) (we_api env) base_cache w = (Inr cache, w'))"

text \<open>A read of the wallet after which its anchor was still on the active chain.\<close>

definition from_wallet ::
  "'n wallet_env \<Rightarrow> ((txid \<times> bool) list \<Rightarrow> (txid \<times> bool) list) \<Rightarrow> script list \<Rightarrow> vault_cache option \<Rightarrow> vault_cache \<Rightarrow> bool" where
  "from_wallet env sort_debits scripts cached cache \<longleftrightarrow>
     (\<exists>w w' w''. wallet_confirmed_scan env sort_debits scripts cached w = (Inr cache, w') \<and>
        wallet_read_anchor_held env w' = (Inr True, w''))"

lemma io_state_update [simp]:
  "io_state w = (Inr (fst w), w)" "io_update f w = (Inr (), (f (fst w), snd w))"
  by (simp_all add: io_state_def io_update_def split: prod.split)

lemma undisturbed_block_hash:
  assumes "undisturbed rpc" and "block_hash_at rpc api height w = (r, w')"
  shows "fst w' = fst w"
proof -
  have rt: "reflp (\<lambda>a b :: 'a core_world. fst a = fst b)" "transp (\<lambda>a b :: 'a core_world. fst a = fst b)"
    by (auto simp: reflp_def transp_def)
  note pure = forward_pure [OF rt(1)] and bind = forward_bind [OF rt(2)]
  have post: "forward (\<lambda>a b. fst a = fst b) (cr_post rpc mth ps)" for mth ps
    using assms(1) by (simp add: undisturbed_def)
  have "forward (\<lambda>a b. fst a = fst b) (call_absent rpc code mth ps)" for code mth ps
    unfolding call_absent_def call_reply_def by (intro bind post) (simp add: pure)
  then have "forward (\<lambda>a b. fst a = fst b) (block_hash_at rpc api height)"
    unfolding block_hash_at_def by (intro bind) (auto intro!: bind pure split: option.split)
  from forwardD [OF this assms(2)] show ?thesis by simp
qed

lemma anchor_reorged_keeps:
  assumes "undisturbed (we_core env)" and "anchor_reorged env w = (Inr reorged, w')"
  shows "fst w' = fst w"
proof (cases "wallet_anchor (fst w)")
  case None
  with assms(2) show ?thesis by (simp add: anchor_reorged_def io_bind_def)
next
  case (Some anchor)
  then obtain r where "block_hash_at (we_core env) (we_api env) (fst anchor) w = (Inr r, w')"
    using assms(2) by (cases anchor) (auto simp: anchor_reorged_def io_bind_Ok_iff)
  then show ?thesis by (rule undisturbed_block_hash [OF assms(1)])
qed

lemma serve_from_wallet_Ok:
  assumes "serve_from_wallet env sort_debits scripts cached w = (Inr (True, rp), w')"
  shows "\<exists>cache. cs_scan_cache (fst w') = Some cache \<and> from_wallet env sort_debits scripts cached cache"
proof -
  obtain r w1 where r: "wallet_confirmed_scan env sort_debits scripts cached w = (r, w1)" by (cases "wallet_confirmed_scan env sort_debits scripts cached w")
  show ?thesis
  proof (cases r)
    case (Inl e)
    with r assms show ?thesis by (auto simp: serve_from_wallet_def io_catch_def io_bind_Ok_iff)
  next
    case (Inr cache)
    with r assms obtain held w2 where h: "wallet_read_anchor_held env w1 = (Inr held, w2)" and
      "held \<and> cs_scan_cache (fst w') = Some cache"
      by (auto simp: serve_from_wallet_def io_catch_def io_bind_Ok_iff split: if_splits)
    with r Inr show ?thesis by (auto simp: from_wallet_def simp del: split_paired_Ex)
  qed
qed

lemma delta_base_Ok:
  assumes "delta_base env cached rp busy w = (Inr (Some cache), w')"
  shows "cached = Some cache" "\<not> rp \<or> busy" "block_hash_at (we_core env) (we_api env) (vc_height cache) w = (Inr (Some (vc_bestblock cache)), w')"
  using assms by (auto simp: delta_base_def io_bind_Ok_iff split: option.splits if_splits)

lemma cold_refresh_Ok:
  assumes "cold_refresh env scripts bg can_spawn w = (Inr cache, w')"
  shows "from_cold env scripts cache"
proof -
  from assms [unfolded cold_refresh_def] obtain cold w1 where c: "full_confirmed_scan (we_core env) (we_api env) scripts w = (Inr cold, w1)"
    and r: "io_bind (io_update (\<lambda>s. s\<lparr>cs_scan_cache := Some (co_cache cold)\<rparr>)) (\<lambda>_.
     io_bind (if bg then spawn_vault_wallet_seed can_spawn
              else io_catch (seed_vault_wallet env scripts cold) io_return (\<lambda>_. io_return ())) (\<lambda>_.
     io_return (co_cache cold))) w1 = (Inr cache, w')" by (rule io_bind_OkE)
  from r have "cache = co_cache cold" by (auto simp: io_bind_Ok_iff)
  with c show ?thesis unfolding from_cold_def by blast
qed

lemma refresh_without_wallet_Ok:
  assumes "refresh_without_wallet env scripts cached rp busy bg can_spawn w = (Inr (), w')"
  shows "\<exists>cache. cs_scan_cache (fst w') = Some cache \<and> (from_cold env scripts cache \<or> (\<not> rp \<or> busy) \<and> from_base env cached cache)"
proof -
  from assms [unfolded refresh_without_wallet_def] obtain b w1 where d: "delta_base env cached rp busy w = (Inr b, w1)" and
    r: "io_bind (case b of Some cache \<Rightarrow> advance_confirmed_scan (we_core env) (we_api env) cache
        | None \<Rightarrow> cold_refresh env scripts bg can_spawn) (\<lambda>refreshed. io_update (\<lambda>s. s\<lparr>cs_scan_cache := Some refreshed\<rparr>)) w1 = (Inr (), w')"
    by (rule io_bind_OkE)
  from r obtain cache w2 where c: "(case b of Some cache \<Rightarrow> advance_confirmed_scan (we_core env) (we_api env) cache
        | None \<Rightarrow> cold_refresh env scripts bg can_spawn) w1 = (Inr cache, w2)" and
    u: "io_update (\<lambda>s. s\<lparr>cs_scan_cache := Some cache\<rparr>) w2 = (Inr () :: core_error + unit, w')" by (rule io_bind_OkE)
  have w': "cs_scan_cache (fst w') = Some cache" using u by auto
  show ?thesis
  proof (cases b)
    case None
    with c cold_refresh_Ok w' show ?thesis by fastforce
  next
    case (Some bc)
    note db = delta_base_Ok [OF d [unfolded Some]]
    have "from_base env cached cache" using db(1,3) c Some unfolding from_base_def by fastforce
    with db(2) w' show ?thesis by blast
  qed
qed

text \<open>A wallet that awaits repair is never read. Whatever a refresh of the cache of confirmed outputs
  installs is a cold scan of Core's unspent set, or the advance of the cache's own base after that base
  was found on the active chain, or a read of the wallet; a wallet is read only when no repair is pending
  or running, and its answer is kept only if the block the wallet was built at was still on the active
  chain afterwards. While a repair is pending and none runs, only a cold scan is installed.\<close>

theorem latched_wallet_not_served:
  assumes "undisturbed (we_core env)"
    and "refresh_vault_unspent_cache_mode env sort_debits scripts bg can_spawn w = (Inr (), w')"
  shows "\<exists>cache. cs_scan_cache (fst w') = Some cache \<and>
    (from_cold env scripts cache \<or>
     (\<not> cs_reimport_pending (fst w) \<or> cs_reimport_in_progress (fst w)) \<and> from_base env (usable_cache scripts (fst w)) cache \<or>
     \<not> cs_reimport_pending (fst w) \<and> \<not> cs_reimport_in_progress (fst w) \<and>
       from_wallet env sort_debits scripts (usable_cache scripts (fst w)) cache)"
proof -
  let ?cached = "usable_cache scripts (fst w)" and ?busy = "cs_reimport_in_progress (fst w)"
  define rest where "rest = (\<lambda>reorged :: bool.
     io_bind (io_update (\<lambda>s. s\<lparr>cs_reimport_pending := cs_reimport_pending s \<or> reorged\<rparr>)) (\<lambda>_.
     io_bind io_state (\<lambda>s1.
     io_bind (if \<not> cs_reimport_pending s1 \<and> \<not> cs_reimport_in_progress s1
              then serve_from_wallet env sort_debits scripts ?cached
              else io_return (False, cs_reimport_pending s1)) (\<lambda>res.
     if fst res then io_return ()
     else refresh_without_wallet env scripts ?cached (snd res) (cs_reimport_in_progress s1) bg can_spawn))))"
  have "io_bind (anchor_reorged env) rest w = (Inr (), w')"
    using assms(2) by (simp add: refresh_vault_unspent_cache_mode_def rest_def io_bind_def [of io_state])
  then obtain reorged w1 where r: "anchor_reorged env w = (Inr reorged, w1)" and t: "rest reorged w1 = (Inr (), w')"
    by (rule io_bind_OkE)
  define pend where "pend = (cs_reimport_pending (fst w) \<or> reorged)"
  have "io_bind (if \<not> pend \<and> \<not> ?busy then serve_from_wallet env sort_debits scripts ?cached else io_return (False, pend))
     (\<lambda>res. if fst res then io_return () else refresh_without_wallet env scripts ?cached (snd res) ?busy bg can_spawn)
     ((fst w)\<lparr>cs_reimport_pending := pend\<rparr>, snd w1) = (Inr (), w')" (is "io_bind _ _ ?w2 = _")
    using t anchor_reorged_keeps [OF assms(1) r]
    by (simp add: rest_def pend_def io_bind_def [of "io_update _"] io_bind_def [of io_state] cong: if_cong split del: if_split)
  then obtain res w3 where
    s: "(if \<not> pend \<and> \<not> ?busy then serve_from_wallet env sort_debits scripts ?cached else io_return (False, pend)) ?w2 = (Inr res, w3)" and
    f: "(if fst res then io_return () else refresh_without_wallet env scripts ?cached (snd res) ?busy bg can_spawn) w3 = (Inr (), w')"
    by (rule io_bind_OkE)
  show ?thesis
  proof (cases "fst res")
    case True
    with s f have "\<not> pend" "\<not> ?busy" "serve_from_wallet env sort_debits scripts ?cached ?w2 = (Inr (True, snd res), w')"
      by (cases res; auto split: if_splits)+
    with serve_from_wallet_Ok [OF this(3)] show ?thesis by (auto simp: pend_def)
  next
    case False
    with f refresh_without_wallet_Ok obtain cache where "cs_scan_cache (fst w') = Some cache"
      "from_cold env scripts cache \<or> (\<not> snd res \<or> ?busy) \<and> from_base env ?cached cache" by fastforce
    moreover have "\<not> snd res \<or> ?busy \<Longrightarrow> \<not> cs_reimport_pending (fst w) \<or> ?busy" using s by (auto simp: pend_def split: if_splits)
    ultimately show ?thesis by blast
  qed
qed

text \<open>A backend whose wallet awaits repair and whose cached base is on the chain.\<close>

definition latched_state :: core_state where
  "latched_state = two_state\<lparr>cs_reimport_pending := True, cs_reimport_in_progress := True\<rparr>"

definition two_env :: "unit wallet_env" where
  "two_env = \<lparr>we_core = two_core, we_wallet_post = (\<lambda>_ _ _. io_fail Transport), we_api = plain_api, we_owner = [], we_sha256 = (\<lambda>b. b)\<rparr>"

lemma two_refresh:
  "refresh_vault_unspent_cache_live two_env (\<lambda>xs. xs) [plain ''v''] True (latched_state, ()) = (Inr (), (latched_state, ()))"
proof -
  have a: "anchor_reorged two_env (latched_state, ()) = (Inr False, (latched_state, ()))"
    by (simp add: anchor_reorged_def io_bind_def wallet_anchor_def latched_state_def two_state_def)
  have adv: "advance_confirmed_scan two_core plain_api cache_at_b w = (Inr cache_at_b, w)" for w :: "unit core_world"
    by (simp add: advance_confirmed_scan_def io_bind_def two_calls cache_at_b_def)
  have u: "usable_cache [plain ''v''] latched_state = Some cache_at_b"
    by (simp add: usable_cache_def latched_state_def two_state_def cache_at_b_def)
  have d: "delta_base two_env (Some cache_at_b) True True w = (Inr (Some cache_at_b), w)" for w
    by (simp add: delta_base_def io_bind_def two_env_def two_calls cache_at_b_def)
  have f: "latched_state\<lparr>cs_reimport_pending := True\<rparr> = latched_state" "latched_state\<lparr>cs_scan_cache := Some cache_at_b\<rparr> = latched_state"
    "cs_reimport_pending latched_state" "cs_reimport_in_progress latched_state"
    by (simp_all add: latched_state_def two_state_def)
  have "refresh_without_wallet two_env [plain ''v''] (Some cache_at_b) True True True True (latched_state, ()) = (Inr (), (latched_state, ()))"
    by (simp add: refresh_without_wallet_def io_bind_def d) (simp add: two_env_def adv f)
  then show ?thesis
    by (simp add: refresh_vault_unspent_cache_live_def refresh_vault_unspent_cache_mode_def io_bind_def a u f)
qed

theorem latched_wallet_not_served_witness:
  "cs_scan_cache latched_state = Some cache_at_b \<and>
   (from_cold two_env [plain ''v''] cache_at_b \<or> from_base two_env (Some cache_at_b) cache_at_b)"
proof -
  have "undisturbed (we_core two_env)" by (simp add: undisturbed_def two_env_def two_core_def two_post_def forward_def)
  from latched_wallet_not_served [OF this two_refresh [unfolded refresh_vault_unspent_cache_live_def]] show ?thesis
    by (simp add: latched_state_def two_state_def usable_cache_def cache_at_b_def)
qed

end
