(* ===== verification/Node_Keys.thy ===== *)
theory Node_Keys
  imports Manifest Candidate
begin

text \<open>
  The node's signing key, \<open>crates/vault-node/src/nodekey.rs\<close>, and the channel key derived from it
  (\<open>channel.rs\<close>): the operator's preimage as it is typed and read, the public derivation parameters and the
  derivation. The key derivation function, the hex codec and the curve are the argument \<open>keygen_api\<close>. The
  way the terminal is switched and the wiping of buffers are not modelled.
\<close>

subsection \<open>Text\<close>

text \<open>The UTF-8 encodings of the characters that \<open>str::trim\<close> removes.\<close>

definition WHITESPACE :: "string list" where
  "WHITESPACE = map (map char_of) ([[9], [10], [11], [12], [13], [32], [0xC2, 0x85], [0xC2, 0xA0], [0xE1, 0x9A, 0x80]] @
     map (\<lambda>k. [0xE2, 0x80, k]) [0x80..<0x8B] @
     [[0xE2, 0x80, 0xA8], [0xE2, 0x80, 0xA9], [0xE2, 0x80, 0xAF], [0xE2, 0x81, 0x9F], [0xE3, 0x80, 0x80 :: nat]])"

lemma whitespace_nonempty: "w \<in> set WHITESPACE \<Longrightarrow> w \<noteq> []"
  by (auto simp: WHITESPACE_def)

definition starts_with :: "string \<Rightarrow> string \<Rightarrow> bool" where
  "starts_with s w \<longleftrightarrow> take (length w) s = w"

function trim_start :: "string \<Rightarrow> string" where
  "trim_start s = (case find (starts_with s) WHITESPACE of None \<Rightarrow> s | Some w \<Rightarrow> trim_start (drop (length w) s))"
  by pat_completeness auto

termination
proof (relation "measure length")
  fix s w
  assume "find (starts_with s) WHITESPACE = Some w"
  then have "w \<in> set WHITESPACE" "take (length w) s = w" by (auto simp: find_Some_iff starts_with_def)
  then have "w \<noteq> []" "s \<noteq> []" using whitespace_nonempty by fastforce+
  then show "(drop (length w) s, s) \<in> measure length" by simp
qed simp

declare trim_start.simps [simp del]

text \<open>The same from the end, on the reversed text.\<close>

function trim_end_rev :: "string \<Rightarrow> string" where
  "trim_end_rev s = (case find (\<lambda>w. starts_with s (rev w)) WHITESPACE of None \<Rightarrow> s | Some w \<Rightarrow> trim_end_rev (drop (length w) s))"
  by pat_completeness auto

termination
proof (relation "measure length")
  fix s w
  assume "find (\<lambda>w. starts_with s (rev w)) WHITESPACE = Some w"
  then have "w \<in> set WHITESPACE" "take (length w) s = rev w" by (auto simp: find_Some_iff starts_with_def)
  then have "w \<noteq> []" "s \<noteq> []" using whitespace_nonempty by fastforce+
  then show "(drop (length w) s, s) \<in> measure length" by simp
qed simp

declare trim_end_rev.simps [simp del]

definition trim :: "string \<Rightarrow> string" where
  "trim s = rev (trim_end_rev (rev (trim_start s)))"

definition continuation :: "byte \<Rightarrow> bool" where
  "continuation c \<longleftrightarrow> 0x80 \<le> c \<and> c \<le> 0xBF"

text \<open>Well-formed UTF-8, as \<open>String::from_utf8\<close> checks it.\<close>

fun valid_utf8 :: "bytes \<Rightarrow> bool" where
  "valid_utf8 [] = True"
| "valid_utf8 (b # bs) =
     (if b < 0x80 then valid_utf8 bs
      else if 0xC2 \<le> b \<and> b \<le> 0xDF then
        (case bs of c1 # r \<Rightarrow> continuation c1 \<and> valid_utf8 r | _ \<Rightarrow> False)
      else if 0xE0 \<le> b \<and> b \<le> 0xEF then
        (case bs of c1 # c2 # r \<Rightarrow> continuation c1 \<and> (b = 0xE0 \<longrightarrow> 0xA0 \<le> c1) \<and> (b = 0xED \<longrightarrow> c1 \<le> 0x9F) \<and> continuation c2 \<and> valid_utf8 r
         | _ \<Rightarrow> False)
      else if 0xF0 \<le> b \<and> b \<le> 0xF4 then
        (case bs of c1 # c2 # c3 # r \<Rightarrow> continuation c1 \<and> (b = 0xF0 \<longrightarrow> 0x90 \<le> c1) \<and> (b = 0xF4 \<longrightarrow> c1 \<le> 0x8F) \<and>
            continuation c2 \<and> continuation c3 \<and> valid_utf8 r
         | _ \<Rightarrow> False)
      else False)"

definition from_utf8 :: "bytes \<Rightarrow> string option" where
  "from_utf8 bs = (if valid_utf8 bs then Some (map (\<lambda>b. char_of (unat b)) bs) else None)"

subsection \<open>The preimage\<close>

record keygen_api =
  kg_preimage_size :: nat
  kg_salt_size :: nat
  kg_from_hex :: "string \<Rightarrow> bytes option"
  kg_to_hex :: "bytes \<Rightarrow> string"
  kg_derive_key :: "bytes \<Rightarrow> bytes \<Rightarrow> 32 word \<Rightarrow> 32 word \<Rightarrow> bytes option"
  kg_seckey_of_slice :: "bytes \<Rightarrow> bytes option"
  kg_public_key :: "bytes \<Rightarrow> pubkey"
  kg_pubkey_of_str :: "string \<Rightarrow> pubkey option"
  kg_sha256 :: "bytes \<Rightarrow> digest"

datatype key_error =
    PreimageLength nat | PreimageNotHex | PreimageRead | PreimageNotUtf8 | ZeroOps | MemoryTooSmall | BadSalt
  | DerivationFailed | NotAScalar | PubkeyLength nat | BadPubkey | PreimageGeneration | SaltGeneration | EchoNotDisabled

text \<open>An array of fixed length from hex.\<close>

definition from_hex_array :: "keygen_api \<Rightarrow> nat \<Rightarrow> string \<Rightarrow> bytes option" where
  "from_hex_array api n s = (case kg_from_hex api s of None \<Rightarrow> None | Some b \<Rightarrow> if length b = n then Some b else None)"

definition preimage_from_hex :: "keygen_api \<Rightarrow> string \<Rightarrow> key_error + bytes" where
  "preimage_from_hex api raw =
     (let t = trim raw in
      if length t \<noteq> kg_preimage_size api * 2 then Err (PreimageLength (length t))
      else (case from_hex_array api (kg_preimage_size api) t of None \<Rightarrow> Err PreimageNotHex | Some b \<Rightarrow> Ok b))"

definition preimage_to_hex :: "keygen_api \<Rightarrow> bytes \<Rightarrow> string" where
  "preimage_to_hex api p = kg_to_hex api p"

text \<open>One call of \<open>read\<close> with a one-byte buffer; after the last event the input is at its end.\<close>

datatype read_event = ReadByte byte | ReadInterrupted | ReadFailed

definition MAX_LINE :: nat where "MAX_LINE = 64"

fun read_loop :: "read_event list \<Rightarrow> bytes \<Rightarrow> (key_error + bytes) \<times> read_event list" where
  "read_loop [] buffer = (Ok buffer, [])"
| "read_loop (ev # evs) buffer =
     (if length buffer < MAX_LINE then
        (case ev of
           ReadByte b \<Rightarrow> if b = 10 then (Ok buffer, evs) else read_loop evs (buffer @ [b])
         | ReadInterrupted \<Rightarrow> read_loop evs buffer
         | ReadFailed \<Rightarrow> (Err PreimageRead, evs))
      else (Ok buffer, ev # evs))"

definition read_line :: "keygen_api \<Rightarrow> read_event list \<Rightarrow> (key_error + bytes) \<times> read_event list" where
  "read_line api evs =
     (case read_loop evs [] of
        (Inl e, rest) \<Rightarrow> (Err e, rest)
      | (Inr buffer, rest) \<Rightarrow>
          ((case from_utf8 buffer of None \<Rightarrow> Err PreimageNotUtf8 | Some t \<Rightarrow> preimage_from_hex api t), rest))"

text \<open>On a terminal the echo is first switched off; \<open>echo_off\<close> is whether that succeeded.\<close>

definition read_from_stdin :: "keygen_api \<Rightarrow> bool \<Rightarrow> bool \<Rightarrow> read_event list \<Rightarrow> (key_error + bytes) \<times> read_event list" where
  "read_from_stdin api is_tty echo_off evs =
     (if \<not> is_tty then read_line api evs else if \<not> echo_off then (Err EchoNotDisabled, evs) else read_line api evs)"

text \<open>\<open>gen_rand_preimage\<close> of the derivation library.\<close>

definition preimage_generate :: "bytes option \<Rightarrow> key_error + bytes" where
  "preimage_generate generated = (case generated of None \<Rightarrow> Err PreimageGeneration | Some b \<Rightarrow> Ok b)"

subsection \<open>Derivation\<close>

record node_kdf =
  nk_salt :: bytes
  nk_ops :: "32 word"
  nk_mem_kib :: "32 word"

definition MIN_KDF_MEM_KIB :: "32 word" where "MIN_KDF_MEM_KIB = 8"

definition node_kdf_new :: "bytes \<Rightarrow> 32 word \<Rightarrow> 32 word \<Rightarrow> key_error + node_kdf" where
  "node_kdf_new salt ops mem_kib =
     (if ops = 0 then Err ZeroOps
      else if mem_kib < MIN_KDF_MEM_KIB then Err MemoryTooSmall
      else Ok \<lparr>nk_salt = salt, nk_ops = ops, nk_mem_kib = mem_kib\<rparr>)"

text \<open>\<open>urandom\<close> is the read of a salt from the system.\<close>

definition generate_with :: "bytes option \<Rightarrow> 32 word \<Rightarrow> 32 word \<Rightarrow> key_error + node_kdf" where
  "generate_with urandom ops mem_kib = (case urandom of None \<Rightarrow> Err SaltGeneration | Some salt \<Rightarrow> node_kdf_new salt ops mem_kib)"

definition from_hex_salt :: "keygen_api \<Rightarrow> string \<Rightarrow> 32 word \<Rightarrow> 32 word \<Rightarrow> key_error + node_kdf" where
  "from_hex_salt api salt_hex ops mem_kib =
     (case from_hex_array api (kg_salt_size api) (trim salt_hex) of
        None \<Rightarrow> Err BadSalt
      | Some salt \<Rightarrow> node_kdf_new salt ops mem_kib)"

definition salt_hex :: "keygen_api \<Rightarrow> node_kdf \<Rightarrow> string" where
  "salt_hex api kdf = kg_to_hex api (nk_salt kdf)"

definition derive_node_key :: "keygen_api \<Rightarrow> bytes \<Rightarrow> node_kdf \<Rightarrow> key_error + bytes" where
  "derive_node_key api preimage kdf =
     (case kg_derive_key api preimage (nk_salt kdf) (nk_ops kdf) (nk_mem_kib kdf) of
        None \<Rightarrow> Err DerivationFailed
      | Some key \<Rightarrow> (case kg_seckey_of_slice api key of None \<Rightarrow> Err NotAScalar | Some sk \<Rightarrow> Ok sk))"

definition parse_compressed_pubkey :: "keygen_api \<Rightarrow> string \<Rightarrow> key_error + pubkey" where
  "parse_compressed_pubkey api s =
     (if length s \<noteq> 66 then Err (PubkeyLength (length s))
      else (case kg_pubkey_of_str api s of None \<Rightarrow> Err BadPubkey | Some pk \<Rightarrow> Ok pk))"

subsection \<open>The channel key\<close>

definition CHANNEL_KEY_TAG :: string where "CHANNEL_KEY_TAG = ''btc-policy/channel-key/v0''"

text \<open>The retries over the counter; \<open>None\<close> is the panic of the exhausted counter.\<close>

fun retry_channel_key :: "keygen_api \<Rightarrow> bytes \<Rightarrow> byte list \<Rightarrow> bytes option" where
  "retry_channel_key api sk [] = None"
| "retry_channel_key api sk (counter # cs) =
     (case kg_seckey_of_slice api (tagged_hash (kg_sha256 api) CHANNEL_KEY_TAG (sk @ [counter])) of
        Some k \<Rightarrow> Some k
      | None \<Rightarrow> retry_channel_key api sk cs)"

definition derive_channel_seckey :: "keygen_api \<Rightarrow> bytes \<Rightarrow> bytes option" where
  "derive_channel_seckey api sk =
     (case kg_seckey_of_slice api (tagged_hash (kg_sha256 api) CHANNEL_KEY_TAG sk) of
        Some k \<Rightarrow> Some k
      | None \<Rightarrow> retry_channel_key api sk (map word_of_nat [0..<256]))"

definition channel_pubkey_of :: "keygen_api \<Rightarrow> bytes \<Rightarrow> pubkey" where
  "channel_pubkey_of api sk = kg_public_key api sk"

definition public_identity :: "keygen_api \<Rightarrow> bytes \<Rightarrow> (pubkey \<times> pubkey) option" where
  "public_identity api sk = map_option (\<lambda>csk. (kg_public_key api sk, channel_pubkey_of api csk)) (derive_channel_seckey api sk)"

subsection \<open>What is typed is what is read\<close>

definition hex_char :: "char \<Rightarrow> bool" where
  "hex_char c \<longleftrightarrow> c \<in> set ''0123456789abcdef''"

definition hex_text :: "string \<Rightarrow> bool" where
  "hex_text s \<longleftrightarrow> list_all hex_char s"

lemma whitespace_not_hex: "w \<in> set WHITESPACE \<Longrightarrow> \<not> hex_char (hd w) \<and> \<not> hex_char (last w)"
proof -
  have "list_all (\<lambda>w. \<not> hex_char (hd w) \<and> \<not> hex_char (last w)) WHITESPACE" by code_simp
  then show "w \<in> set WHITESPACE \<Longrightarrow> \<not> hex_char (hd w) \<and> \<not> hex_char (last w)" by (simp add: list_all_iff)
qed

lemma starts_with_hd: "starts_with s w \<Longrightarrow> w \<noteq> [] \<Longrightarrow> hd w \<in> set s"
  by (cases s; cases w) (auto simp: starts_with_def)

lemma trim_hex: "hex_text s \<Longrightarrow> trim s = s"
proof -
  assume s: "hex_text s"
  have "\<not> starts_with s w" if "w \<in> set WHITESPACE" for w
    using s starts_with_hd [of s w] whitespace_not_hex [OF that] whitespace_nonempty [OF that] by (auto simp: hex_text_def list_all_iff)
  then have "find (starts_with s) WHITESPACE = None" by (simp add: find_None_iff)
  then have a: "trim_start s = s" by (simp add: trim_start.simps [of s])
  have "\<not> starts_with (rev s) (rev w)" if "w \<in> set WHITESPACE" for w
    using s starts_with_hd [of "rev s" "rev w"] whitespace_not_hex [OF that] whitespace_nonempty [OF that]
    by (auto simp: hd_rev hex_text_def list_all_iff)
  then have "find (\<lambda>w. starts_with (rev s) (rev w)) WHITESPACE = None" by (simp add: find_None_iff)
  then have "trim_end_rev (rev s) = rev s" by (simp add: trim_end_rev.simps [of "rev s"])
  with a show ?thesis by (simp add: trim_def)
qed

lemma hex_char_byte:
  assumes "hex_char c"
  shows "(of_char c :: byte) < 0x80" "(of_char c :: byte) \<noteq> 10" "char_of (unat (of_char c :: byte)) = c"
proof -
  have "list_all (\<lambda>c. (of_char c :: byte) < 0x80 \<and> (of_char c :: byte) \<noteq> 10 \<and> char_of (unat (of_char c :: byte)) = c) ''0123456789abcdef''"
    by (simp add: char_of_def bit_iff_odd)
  with assms show "(of_char c :: byte) < 0x80" "(of_char c :: byte) \<noteq> 10" "char_of (unat (of_char c :: byte)) = c"
    unfolding list_all_iff hex_char_def by blast+
qed

lemma valid_utf8_ascii: "list_all (\<lambda>b. b < 0x80) bs \<Longrightarrow> valid_utf8 bs"
  by (induction bs) simp_all

lemma from_utf8_hex: "hex_text s \<Longrightarrow> from_utf8 (str_bytes s) = Some s"
proof -
  assume s: "hex_text s"
  then have "list_all (\<lambda>b. b < 0x80) (str_bytes s)" by (simp add: str_bytes_def hex_text_def list_all_iff hex_char_byte)
  moreover have "map (\<lambda>b. char_of (unat b)) (str_bytes s) = s"
    using s by (simp add: str_bytes_def hex_text_def list_all_iff map_idI hex_char_byte)
  ultimately show ?thesis by (simp add: from_utf8_def valid_utf8_ascii)
qed

text \<open>The bytes of the input, without the interrupted reads.\<close>

abbreviation delivered :: "read_event list \<Rightarrow> read_event list" where
  "delivered evs \<equiv> filter (\<lambda>ev. ev \<noteq> ReadInterrupted) evs"

lemma read_loop_line:
  assumes "delivered evs = map ReadByte bs @ ReadByte 10 # rest" and "10 \<notin> set bs" and "length buffer + length bs < MAX_LINE"
  shows "\<exists>evs'. read_loop evs buffer = (Ok (buffer @ bs), evs') \<and> delivered evs' = rest"
  using assms
proof (induction evs arbitrary: buffer bs)
  case Nil
  then show ?case by simp
next
  case (Cons ev evs)
  show ?case
  proof (cases ev)
    case (ReadByte b)
    show ?thesis
    proof (cases bs)
      case Nil
      with Cons.prems ReadByte show ?thesis by auto
    next
      case (Cons c cs)
      then show ?thesis using Cons.IH [of cs "buffer @ [c]"] Cons.prems ReadByte by auto
    qed
  next
    case ReadInterrupted
    with Cons.prems Cons.IH [of bs buffer] show ?thesis by auto
  next
    case ReadFailed
    with Cons.prems show ?thesis by (cases bs) auto
  qed
qed

lemma read_line_typed:
  assumes "length p = kg_preimage_size api" and "2 * kg_preimage_size api < 64"
    and "kg_from_hex api (kg_to_hex api p) = Some p" and "length (kg_to_hex api p) = 2 * length p"
    and "hex_text (kg_to_hex api p)"
    and "filter (\<lambda>ev. ev \<noteq> ReadInterrupted) evs = map ReadByte (str_bytes (preimage_to_hex api p)) @ ReadByte 10 # rest"
  shows "\<exists>evs'. read_line api evs = (Ok p, evs') \<and> filter (\<lambda>ev. ev \<noteq> ReadInterrupted) evs' = rest"
proof -
  have "10 \<notin> set (str_bytes (kg_to_hex api p))" using assms(5) hex_char_byte(2) by (auto simp: str_bytes_def hex_text_def list_all_iff)
  then obtain evs' where r: "read_loop evs [] = (Ok (str_bytes (kg_to_hex api p)), evs')" "delivered evs' = rest"
    using read_loop_line [OF assms(6) [unfolded preimage_to_hex_def], of "[]"] assms(1,2,4) by (auto simp: MAX_LINE_def str_bytes_def)
  have "preimage_from_hex api (kg_to_hex api p) = Ok p"
    using assms(1,3,4) trim_hex [OF assms(5)] by (simp add: preimage_from_hex_def from_hex_array_def Let_def)
  with r from_utf8_hex [OF assms(5)] show ?thesis by (simp add: read_line_def)
qed

text \<open>C19: the operator's preimage is read back exactly, and nothing after it. A preimage that was printed
  as hex and typed as one line is the preimage the daemon reads, however often the reads are interrupted,
  and every byte after the newline is still unread.\<close>

theorem preimage_read_back:
  assumes "length p = kg_preimage_size api" and "2 * kg_preimage_size api < 64"
    and "kg_from_hex api (kg_to_hex api p) = Some p" and "length (kg_to_hex api p) = 2 * length p"
    and "hex_text (kg_to_hex api p)"
    and "filter (\<lambda>ev. ev \<noteq> ReadInterrupted) evs = map ReadByte (str_bytes (preimage_to_hex api p)) @ ReadByte 10 # rest"
  shows "\<exists>evs'. read_line api evs = (Ok p, evs') \<and> filter (\<lambda>ev. ev \<noteq> ReadInterrupted) evs' = rest"
  using assms by (rule read_line_typed)

text \<open>The codec of rust-bitcoin on these texts: two lowercase digits per byte.\<close>

definition demo_digit :: "nat \<Rightarrow> char" where
  "demo_digit d = ''0123456789abcdef'' ! d"

definition demo_undigit :: "char \<Rightarrow> nat option" where
  "demo_undigit c = (let v = of_char c :: nat in if 48 \<le> v \<and> v \<le> 57 then Some (v - 48) else if 97 \<le> v \<and> v \<le> 102 then Some (v - 87) else None)"

definition demo_to_hex :: "bytes \<Rightarrow> string" where
  "demo_to_hex bs = concat (map (\<lambda>b. [demo_digit (unat b div 16), demo_digit (unat b mod 16)]) bs)"

fun demo_from_hex :: "string \<Rightarrow> bytes option" where
  "demo_from_hex [] = Some []"
| "demo_from_hex [c] = None"
| "demo_from_hex (c # d # s) = (case (demo_undigit c, demo_undigit d, demo_from_hex s) of
     (Some h, Some l, Some bs) \<Rightarrow> Some (word_of_nat (16 * h + l) # bs) | _ \<Rightarrow> None)"

definition demo_keygen :: keygen_api where
  "demo_keygen = \<lparr>kg_preimage_size = 8, kg_salt_size = 16, kg_from_hex = demo_from_hex, kg_to_hex = demo_to_hex,
     kg_derive_key = (\<lambda>p s ops mem. Some (p @ s)), kg_seckey_of_slice = (\<lambda>k. if k = [] then None else Some k),
     kg_public_key = (\<lambda>k. take 33 (2 # k)), kg_pubkey_of_str = demo_from_hex, kg_sha256 = (\<lambda>b. take 32 (b @ replicate 32 0))\<rparr>"

definition demo_preimage :: bytes where "demo_preimage = [64, 1, 2, 3, 4, 5, 160, 255]"

lemma demo_preimage_hex: "demo_to_hex demo_preimage = ''400102030405a0ff''"
  by (simp add: demo_preimage_def demo_to_hex_def demo_digit_def)

theorem preimage_read_back_witness:
  "\<exists>evs'. read_line demo_keygen (ReadInterrupted # map ReadByte (str_bytes ''400102030405a0ff'') @ [ReadInterrupted, ReadByte 10, ReadByte 7]) =
     (Ok demo_preimage, evs') \<and> filter (\<lambda>ev. ev \<noteq> ReadInterrupted) evs' = [ReadByte 7]"
proof (rule preimage_read_back)
  show "kg_from_hex demo_keygen (kg_to_hex demo_keygen demo_preimage) = Some demo_preimage"
    by (simp add: demo_keygen_def demo_preimage_hex demo_undigit_def) (simp add: demo_preimage_def)
  show "hex_text (kg_to_hex demo_keygen demo_preimage)" by (simp add: demo_keygen_def demo_preimage_hex hex_text_def hex_char_def)
  show "filter (\<lambda>ev. ev \<noteq> ReadInterrupted) (ReadInterrupted # map ReadByte (str_bytes ''400102030405a0ff'') @ [ReadInterrupted, ReadByte 10, ReadByte 7]) =
    map ReadByte (str_bytes (preimage_to_hex demo_keygen demo_preimage)) @ ReadByte 10 # [ReadByte 7]"
    by (simp add: preimage_to_hex_def demo_keygen_def demo_preimage_hex str_bytes_def)
qed (simp_all add: demo_keygen_def demo_preimage_hex, simp_all add: demo_preimage_def)

end
