(* ===== verification/Vault_Template.thy ===== *)
theory Vault_Template
  imports Policy_Core "HOL-Library.Word"
begin

unbundle bit_operations_syntax

text \<open>
  The vault descriptor template, \<open>crates/policy-core/src/template.rs\<close>: the check that a parsed
  descriptor is the two-branch vault and nothing else, and the string the vault is built from. The
  descriptor is the tree of rust-miniscript; the fragments the source names are constructors, every
  other one is \<open>OtherFragment\<close>. Beside it stands what the fragments mean on the chain: who can spend
  a script, and when.
\<close>

subsection \<open>Descriptors\<close>

datatype 'k terminal =
    OrI "'k terminal" "'k terminal"
  | AndV "'k terminal" "'k terminal"
  | Verify "'k terminal"
  | Check "'k terminal"
  | PkK 'k
  | Older "32 word"
  | Multi nat "'k list"
  | OtherFragment

datatype 'k wsh_inner = Ms "'k terminal" | SortedMulti nat "'k list"
datatype 'k ms_descriptor = Wsh "'k wsh_inner" | OtherDescriptor

text \<open>A key expression of rust-miniscript: its derivation paths and its text.\<close>

record 'k key_api =
  ka_num_der_paths :: "'k \<Rightarrow> nat"
  ka_show :: "'k \<Rightarrow> string"

subsection \<open>The template\<close>

definition RECOVERY_TIMELOCK_UNITS :: "16 word" where "RECOVERY_TIMELOCK_UNITS = 30375"
definition RECOVERY_TIMELOCK_NSEQUENCE :: "32 word" where "RECOVERY_TIMELOCK_NSEQUENCE = 4224679"
definition RECOVERY_THRESHOLD :: nat where "RECOVERY_THRESHOLD = 2"
definition RECOVERY_KEYS :: nat where "RECOVERY_KEYS = 3"

text \<open>\<open>from_512\<close> is \<open>Sequence::from_512_second_intervals\<close>.\<close>

definition recovery_sequence :: "(16 word \<Rightarrow> 32 word) \<Rightarrow> 32 word" where
  "recovery_sequence from_512 = from_512 RECOVERY_TIMELOCK_UNITS"

text \<open>Decimal text of a number, and \<open>join(",")\<close>.\<close>

fun show_nat :: "nat \<Rightarrow> string" where
  "show_nat n = (if n < 10 then [char_of (48 + n)] else show_nat (n div 10) @ [char_of (48 + n mod 10)])"

declare show_nat.simps [simp del]

fun join_comma :: "string list \<Rightarrow> string" where
  "join_comma [] = []"
| "join_comma [s] = s"
| "join_comma (s # t # ss) = s @ '','' @ join_comma (t # ss)"

definition vault_descriptor_string :: "string \<Rightarrow> nat \<Rightarrow> string list \<Rightarrow> string list \<Rightarrow> string" where
  "vault_descriptor_string user threshold nodes recovery =
     ''wsh(or_i(and_v(v:pk('' @ user @ ''),multi('' @ show_nat threshold @ '','' @ join_comma nodes @ '')),'' @
     ''and_v(v:older('' @ show_nat (unat RECOVERY_TIMELOCK_NSEQUENCE) @ ''),multi('' @ show_nat RECOVERY_THRESHOLD @ '','' @
     join_comma recovery @ ''))))''"

record 'k vault_template =
  vt_user_key :: 'k
  vt_threshold :: nat
  vt_node_keys :: "'k list"
  vt_recovery_keys :: "'k list"
  vt_recovery_timelock :: "32 word"

datatype key_role = UserRole | NodeRole | RecoveryRole

datatype template_error =
    OffTemplate
  | WrongTimelock "32 word"
  | WrongRecoveryKeyset nat nat
  | RangedKey key_role
  | RepeatedKey key_role
  | ZeroThreshold

text \<open>The loop over the keys in order; \<open>seen\<close> are the texts so far.\<close>

fun check_keys :: "'k key_api \<Rightarrow> (key_role \<times> 'k) list \<Rightarrow> string list \<Rightarrow> template_error + unit" where
  "check_keys api [] seen = Ok ()"
| "check_keys api ((r, key) # keys) seen =
     (if ka_num_der_paths api key \<noteq> 0 then Err (RangedKey r)
      else if ka_show api key \<in> set seen then Err (RepeatedKey r)
      else check_keys api keys (ka_show api key # seen))"

text \<open>The two branches of the expected shape: user key, node quorum, timelock, recovery quorum.\<close>

definition template_branches ::
  "'k ms_descriptor \<Rightarrow> ('k \<times> (nat \<times> 'k list) \<times> 32 word \<times> (nat \<times> 'k list)) option" where
  "template_branches d =
     (case d of
        Wsh (Ms (OrI (AndV (Verify (Check (PkK user_key))) (Multi k nodes)) (AndV (Verify (Older timelock)) (Multi rk recovery)))) \<Rightarrow>
          Some (user_key, (k, nodes), timelock, (rk, recovery))
      | _ \<Rightarrow> None)"

definition parse_vault_template :: "'k key_api \<Rightarrow> 'k ms_descriptor \<Rightarrow> template_error + 'k vault_template" where
  "parse_vault_template api descriptor =
     (case template_branches descriptor of
        None \<Rightarrow> Err OffTemplate
      | Some (user_key, (k, nodes), timelock, (rk, recovery)) \<Rightarrow>
          if timelock \<noteq> RECOVERY_TIMELOCK_NSEQUENCE then Err (WrongTimelock timelock)
          else if rk \<noteq> RECOVERY_THRESHOLD \<or> length recovery \<noteq> RECOVERY_KEYS then Err (WrongRecoveryKeyset rk (length recovery))
          else bind_res (check_keys api ((UserRole, user_key) # map (Pair NodeRole) nodes @ map (Pair RecoveryRole) recovery) []) (\<lambda>_.
            if k < 1 then Err ZeroThreshold
            else Ok \<lparr>vt_user_key = user_key, vt_threshold = k, vt_node_keys = nodes, vt_recovery_keys = recovery,
                      vt_recovery_timelock = timelock\<rparr>))"

subsection \<open>What an accepted descriptor is\<close>

definition template_of :: "'k vault_template \<Rightarrow> 'k ms_descriptor" where
  "template_of t = Wsh (Ms (OrI (AndV (Verify (Check (PkK (vt_user_key t)))) (Multi (vt_threshold t) (vt_node_keys t)))
     (AndV (Verify (Older (vt_recovery_timelock t))) (Multi RECOVERY_THRESHOLD (vt_recovery_keys t)))))"

abbreviation vault_keys :: "'k vault_template \<Rightarrow> 'k list" where
  "vault_keys t \<equiv> vt_user_key t # vt_node_keys t @ vt_recovery_keys t"

lemma template_branches_iff:
  "template_branches d = Some (u, (k, ns), lk, (rk, rs)) \<longleftrightarrow>
     d = Wsh (Ms (OrI (AndV (Verify (Check (PkK u))) (Multi k ns)) (AndV (Verify (Older lk)) (Multi rk rs))))"
  by (auto simp: template_branches_def split: ms_descriptor.splits wsh_inner.splits terminal.splits)

lemma check_keys_Ok_iff:
  "check_keys api keys seen = Ok () \<longleftrightarrow>
     (\<forall>p \<in> set keys. ka_num_der_paths api (snd p) = 0) \<and> distinct (map (\<lambda>p. ka_show api (snd p)) keys) \<and>
     (\<forall>p \<in> set keys. ka_show api (snd p) \<notin> set seen)"
  by (induction api keys seen rule: check_keys.induct) (auto simp: image_iff)

lemma parse_vault_template_iff:
  "parse_vault_template api d = Ok t \<longleftrightarrow>
     d = template_of t \<and> vt_recovery_timelock t = RECOVERY_TIMELOCK_NSEQUENCE \<and> length (vt_recovery_keys t) = RECOVERY_KEYS \<and>
     (\<forall>k \<in> set (vault_keys t). ka_num_der_paths api k = 0) \<and> distinct (map (ka_show api) (vault_keys t)) \<and> 1 \<le> vt_threshold t"
proof (cases "template_branches d")
  case None
  then have "d \<noteq> template_of t" by (auto simp: template_of_def template_branches_def)
  with None show ?thesis by (simp add: parse_vault_template_def)
next
  case (Some b)
  then obtain u k ns lk rk rs where b: "template_branches d = Some (u, (k, ns), lk, (rk, rs))" by (cases b) auto
  then have d: "d = Wsh (Ms (OrI (AndV (Verify (Check (PkK u))) (Multi k ns)) (AndV (Verify (Older lk)) (Multi rk rs))))"
    by (simp only: template_branches_iff)
  have keys: "check_keys api ((UserRole, u) # map (Pair NodeRole) ns @ map (Pair RecoveryRole) rs) [] = Ok () \<longleftrightarrow>
     (\<forall>k \<in> set (u # ns @ rs). ka_num_der_paths api k = 0) \<and> distinct (map (ka_show api) (u # ns @ rs))"
    unfolding check_keys_Ok_iff by (auto simp: comp_def ball_Un)
  show ?thesis
  proof (cases "check_keys api ((UserRole, u) # map (Pair NodeRole) ns @ map (Pair RecoveryRole) rs) []")
    case (Inl e)
    with keys b show ?thesis by (auto simp: parse_vault_template_def template_of_def d)
  next
    case (Inr z)
    then show ?thesis using keys b by (cases t) (auto simp: parse_vault_template_def template_of_def d)
  qed
qed

subsection \<open>What the text binds\<close>

lemma recovery_sequence_time_lock:
  assumes "\<And>n :: 16 word. from_512 n = (ucast n OR push_bit 22 1 :: 32 word)"
  shows "recovery_sequence from_512 = RECOVERY_TIMELOCK_NSEQUENCE"
  by (simp add: recovery_sequence_def assms RECOVERY_TIMELOCK_UNITS_def RECOVERY_TIMELOCK_NSEQUENCE_def)

lemma digit_char: "(d :: nat) < 10 \<Longrightarrow> of_char (char_of (48 + d) :: char) = 48 + d"
  by simp

lemma digit_char_inj: "d < 10 \<Longrightarrow> e < 10 \<Longrightarrow> (char_of (48 + d :: nat) :: char) = char_of (48 + e) \<Longrightarrow> d = e"
  by (metis add_left_cancel digit_char)

lemma show_nat_nonempty: "show_nat n \<noteq> []"
  by (subst show_nat.simps) simp

lemma show_nat_inj: "show_nat n = show_nat m \<Longrightarrow> n = m"
proof (induction n arbitrary: m rule: less_induct)
  case (less n)
  show ?case
  proof (cases "n < 10 \<or> m < 10")
    case True
    with less.prems have "n < 10 \<and> m < 10"
      using show_nat.simps [of n] show_nat.simps [of m] show_nat_nonempty [of "n div 10"] show_nat_nonempty [of "m div 10"]
      by (cases "n < 10"; cases "m < 10") (auto simp: append_eq_Cons_conv Cons_eq_append_conv)
    with less.prems show ?thesis
      using show_nat.simps [of n] show_nat.simps [of m] digit_char_inj [of n m] by simp
  next
    case False
    with less.prems have eq: "show_nat (n div 10) = show_nat (m div 10)" "(char_of (48 + n mod 10) :: char) = char_of (48 + m mod 10)"
      using show_nat.simps [of n] show_nat.simps [of m] by simp_all
    from less.IH [OF _ eq(1)] False have "n div 10 = m div 10" by simp
    moreover have "n mod 10 = m mod 10" using eq(2) by (intro digit_char_inj) simp_all
    ultimately show ?thesis by (metis div_mult_mod_eq)
  qed
qed

lemma show_nat_digits: "c \<in> set (show_nat n) \<Longrightarrow> c \<noteq> CHR '','' \<and> c \<noteq> CHR '')''"
proof (induction n rule: less_induct)
  case (less n)
  have d: "(char_of (48 + e :: nat) :: char) \<noteq> CHR '','' \<and> (char_of (48 + e) :: char) \<noteq> CHR '')''" if "e < 10" for e
  proof -
    have "(of_char (char_of (48 + e) :: char) :: nat) \<noteq> of_char (CHR '','')" "(of_char (char_of (48 + e) :: char) :: nat) \<noteq> of_char (CHR '')'')"
      unfolding digit_char [OF that] by simp_all
    then show ?thesis by metis
  qed
  show ?case
  proof (cases "n < 10")
    case True
    with less.prems d [of n] show ?thesis by (simp add: show_nat.simps [of n])
  next
    case False
    with less.prems have "c \<in> set (show_nat (n div 10)) \<or> c = char_of (48 + n mod 10)" by (auto simp: show_nat.simps [of n])
    with less.IH [of "n div 10"] d [of "n mod 10"] False show ?thesis by auto
  qed
qed

lemma split_at_inj: "c \<notin> set a \<Longrightarrow> c \<notin> set b \<Longrightarrow> a @ c # x = b @ c # y \<longleftrightarrow> a = b \<and> x = y"
proof (induction a arbitrary: b)
  case Nil
  then show ?case by (cases b) auto
next
  case (Cons z a)
  then show ?case by (cases b) auto
qed

text \<open>A key expression without the separators of the string.\<close>

definition plain_key :: "string \<Rightarrow> bool" where
  "plain_key s \<longleftrightarrow> s \<noteq> [] \<and> CHR '','' \<notin> set s \<and> CHR '')'' \<notin> set s"

lemma join_comma_Cons: "join_comma (s # ss) = (if ss = [] then s else s @ CHR '','' # join_comma ss)"
  by (cases ss) simp_all

lemma join_comma_chars: "list_all plain_key ss \<Longrightarrow> CHR '')'' \<notin> set (join_comma ss)"
  by (induction ss) (auto simp: join_comma_Cons plain_key_def)

lemma join_comma_inj: "list_all plain_key ss \<Longrightarrow> list_all plain_key ts \<Longrightarrow> join_comma ss = join_comma ts \<Longrightarrow> ss = ts"
proof (induction ss arbitrary: ts)
  case Nil
  then show ?case by (cases ts) (auto simp: join_comma_Cons plain_key_def split: if_splits)
next
  case (Cons s ss)
  then obtain t us where ts: "ts = t # us" by (cases ts) (auto simp: join_comma_Cons plain_key_def split: if_splits)
  have k: "CHR '','' \<notin> set s" "CHR '','' \<notin> set t" using Cons.prems ts by (simp_all add: plain_key_def)
  consider "ss = []" "us = []" | "ss \<noteq> []" "us \<noteq> []" | "ss = []" "us \<noteq> []" | "ss \<noteq> []" "us = []" by blast
  then show ?case
  proof cases
    case 2
    then have "s @ CHR '','' # join_comma ss = t @ CHR '','' # join_comma us" using Cons.prems(3) ts by (simp add: join_comma_Cons)
    with split_at_inj [OF k] have "s = t" "join_comma ss = join_comma us" by simp_all
    with Cons.IH [of us] Cons.prems ts show ?thesis by simp
  next
    case 3
    with Cons.prems(3) ts k show ?thesis by (auto simp: join_comma_Cons)
  next
    case 4
    with Cons.prems(3) ts k show ?thesis by (auto simp: join_comma_Cons)
  qed (use Cons.prems(3) ts in \<open>simp add: join_comma_Cons\<close>)
qed

text \<open>The descriptor text determines the vault: two vaults with the same text have the same user key, threshold, nodes and
  recovery keys in the same order, so a wallet id that hashes the text is the id of one vault.\<close>

theorem descriptor_string_binds:
  assumes "list_all plain_key (u # ns @ rs)" and "list_all plain_key (u' # ns' @ rs')"
    and "vault_descriptor_string u t ns rs = vault_descriptor_string u' t' ns' rs'"
  shows "u = u' \<and> t = t' \<and> ns = ns' \<and> rs = rs'"
proof -
  note cut = split_at_inj [of "CHR '')''"] and comma = split_at_inj [of "CHR '',''"]
  have k: "CHR '')'' \<notin> set u" "CHR '')'' \<notin> set u'" "CHR '')'' \<notin> set (join_comma ns)" "CHR '')'' \<notin> set (join_comma ns')"
    "CHR '')'' \<notin> set (join_comma rs)" "CHR '')'' \<notin> set (join_comma rs')"
    using assms(1,2) by (auto intro!: join_comma_chars simp: plain_key_def)
  have d: "CHR '','' \<notin> set (show_nat n)" for n using show_nat_digits by blast
  from assms(3) have u: "u = u'" and r: "show_nat t @ CHR '','' # join_comma ns @ CHR '')'' # CHR '')'' # CHR '','' #
      ''and_v(v:older('' @ show_nat (unat RECOVERY_TIMELOCK_NSEQUENCE) @ ''),multi('' @ show_nat RECOVERY_THRESHOLD @ '','' @ join_comma rs @ ''))))'' =
    show_nat t' @ CHR '','' # join_comma ns' @ CHR '')'' # CHR '')'' # CHR '','' #
      ''and_v(v:older('' @ show_nat (unat RECOVERY_TIMELOCK_NSEQUENCE) @ ''),multi('' @ show_nat RECOVERY_THRESHOLD @ '','' @ join_comma rs' @ ''))))''"
    by (simp_all add: vault_descriptor_string_def cut [OF k(1,2)])
  from r have t: "show_nat t = show_nat t'" and n: "join_comma ns = join_comma ns'" and
    "join_comma rs @ ''))))'' = join_comma rs' @ ''))))''"
    by (simp_all add: comma [OF d d] cut [OF k(3,4)])
  then have "join_comma rs = join_comma rs'" by simp
  with join_comma_inj [of rs rs'] join_comma_inj [OF _ _ n] show ?thesis using u show_nat_inj [OF t] assms(1,2) by simp
qed

subsection \<open>Who can spend it\<close>

text \<open>
  A relative lock as consensus reads it (BIP68): with the type flag, bit 22, its low 16 bits count
  intervals of 512 seconds, without it they count blocks.
\<close>

definition lock_elapsed :: "32 word \<Rightarrow> nat \<Rightarrow> nat \<Rightarrow> bool" where
  "lock_elapsed seq blocks secs =
     (if bit seq 22 then unat (seq AND 0xFFFF) * 512 \<le> secs else unat (seq AND 0xFFFF) \<le> blocks)"

text \<open>
  Which keys' signatures, at which age of the coin, satisfy a script. The rules are those of the fragments;
  a signature fills every slot of a quorum its key stands in.
\<close>

inductive spends :: "('k \<Rightarrow> bool) \<Rightarrow> nat \<Rightarrow> nat \<Rightarrow> 'k terminal \<Rightarrow> bool" for signs blocks secs where
  spends_left: "spends signs blocks secs a \<Longrightarrow> spends signs blocks secs (OrI a b)"
| spends_right: "spends signs blocks secs b \<Longrightarrow> spends signs blocks secs (OrI a b)"
| spends_and: "spends signs blocks secs a \<Longrightarrow> spends signs blocks secs b \<Longrightarrow> spends signs blocks secs (AndV a b)"
| spends_verify: "spends signs blocks secs a \<Longrightarrow> spends signs blocks secs (Verify a)"
| spends_check: "spends signs blocks secs a \<Longrightarrow> spends signs blocks secs (Check a)"
| spends_pk: "signs k \<Longrightarrow> spends signs blocks secs (PkK k)"
| spends_older: "lock_elapsed n blocks secs \<Longrightarrow> spends signs blocks secs (Older n)"
| spends_multi: "k \<le> length (filter signs ks) \<Longrightarrow> spends signs blocks secs (Multi k ks)"

inductive_simps spends_simps [simp]:
  "spends signs blocks secs (OrI a b)" "spends signs blocks secs (AndV a b)" "spends signs blocks secs (Verify a)"
  "spends signs blocks secs (Check a)" "spends signs blocks secs (PkK k)" "spends signs blocks secs (Older n)"
  "spends signs blocks secs (Multi k ks)"

fun spends_descriptor :: "('k \<Rightarrow> bool) \<Rightarrow> nat \<Rightarrow> nat \<Rightarrow> 'k ms_descriptor \<Rightarrow> bool" where
  "spends_descriptor signs blocks secs (Wsh (Ms ms)) = spends signs blocks secs ms"
| "spends_descriptor signs blocks secs (Wsh (SortedMulti k ks)) = (k \<le> length (filter signs ks))"
| "spends_descriptor signs blocks secs OtherDescriptor = False"

lemma recovery_lock_elapsed: "lock_elapsed RECOVERY_TIMELOCK_NSEQUENCE blocks secs \<longleftrightarrow> 180 * 86400 \<le> secs"
proof -
  have "bit RECOVERY_TIMELOCK_NSEQUENCE 22" "RECOVERY_TIMELOCK_NSEQUENCE AND 0xFFFF = (30375 :: 32 word)"
    by (simp_all add: RECOVERY_TIMELOCK_NSEQUENCE_def bit_iff_odd_drop_bit)
  then show ?thesis by (simp add: lock_elapsed_def)
qed

lemma length_filter_distinct: "distinct ks \<Longrightarrow> length (filter P ks) = card {k \<in> set ks. P k}"
  by (metis distinct_card distinct_filter set_filter)

text \<open>C13: an accepted vault has exactly two exits. If the template check accepts a descriptor, then a set
  of signatures spends the coins exactly when it holds the user's and those of at least \<open>t\<close> of the nodes, or
  when the coin is at least 180 days old and it holds two of the three recovery keys. All keys are different,
  so no signature counts in two roles or twice in one, and the quorum is never empty.\<close>

theorem template_spend_paths:
  assumes "parse_vault_template api d = Ok t"
  shows "(spends_descriptor signs blocks secs d \<longleftrightarrow>
       signs (vt_user_key t) \<and> vt_threshold t \<le> card {k \<in> set (vt_node_keys t). signs k} \<or>
       180 * 86400 \<le> secs \<and> 2 \<le> card {k \<in> set (vt_recovery_keys t). signs k}) \<and>
     distinct (vt_user_key t # vt_node_keys t @ vt_recovery_keys t) \<and> card (set (vt_recovery_keys t)) = 3 \<and> 1 \<le> vt_threshold t"
proof -
  note t = assms [unfolded parse_vault_template_iff]
  have dk: "distinct (vault_keys t)" using t distinct_map [of "ka_show api" "vault_keys t"] by blast
  then have "distinct (vt_node_keys t)" "distinct (vt_recovery_keys t)" by simp_all
  with t show ?thesis using dk
    by (simp add: template_of_def RECOVERY_THRESHOLD_def RECOVERY_KEYS_def recovery_lock_elapsed length_filter_distinct distinct_card)
qed

definition nat_keys :: "nat key_api" where
  "nat_keys = \<lparr>ka_num_der_paths = (\<lambda>k. 0), ka_show = show_nat\<rparr>"

definition demo_template :: "nat vault_template" where
  "demo_template = \<lparr>vt_user_key = 0, vt_threshold = 2, vt_node_keys = [1, 2, 3], vt_recovery_keys = [4, 5, 6],
     vt_recovery_timelock = RECOVERY_TIMELOCK_NSEQUENCE\<rparr>"

lemma demo_template_accepted: "parse_vault_template nat_keys (template_of demo_template) = Ok demo_template"
  unfolding parse_vault_template_iff by (simp add: demo_template_def nat_keys_def RECOVERY_KEYS_def show_nat.simps [of 0]
      show_nat.simps [of 1] show_nat.simps [of "Suc 0"] show_nat.simps [of 2] show_nat.simps [of 3] show_nat.simps [of 4] show_nat.simps [of 5] show_nat.simps [of 6])

theorem template_spend_paths_witness:
  "spends_descriptor (\<lambda>k. k \<in> {0, 1, 3}) 0 0 (template_of demo_template) \<and>
   \<not> spends_descriptor (\<lambda>k. k \<in> {0, 1, 4, 5}) 0 15551999 (template_of demo_template) \<and>
   spends_descriptor (\<lambda>k. k \<in> {4, 6}) 0 15552000 (template_of demo_template)"
proof -
  have c: "{k \<in> set (vt_node_keys demo_template). k \<in> {0, 1, 3}} = {1, 3}" "{k \<in> set (vt_node_keys demo_template). k \<in> {0, 1, 4, 5}} = {1}"
    "{k \<in> set (vt_recovery_keys demo_template). k \<in> {4, 6}} = {4, 6}"
    by (auto simp: demo_template_def)
  note s = conjunct1 [OF template_spend_paths [OF demo_template_accepted]]
  have "spends_descriptor (\<lambda>k. k \<in> {0, 1, 3}) 0 0 (template_of demo_template)"
    unfolding s c by (simp add: demo_template_def)
  moreover have "\<not> spends_descriptor (\<lambda>k. k \<in> {0, 1, 4, 5}) 0 15551999 (template_of demo_template)"
    unfolding s c by (simp add: demo_template_def)
  moreover have "spends_descriptor (\<lambda>k. k \<in> {4, 6}) 0 15552000 (template_of demo_template)"
    unfolding s c by (simp add: demo_template_def)
  ultimately show ?thesis by blast
qed

end
