(* ===== verification/Channel_Build.thy ===== *)
theory Channel_Build
  imports Node_Keys Vault_Template Ingest
begin

text \<open>
  The start of the node channel, \<open>crates/vault-node/src/channel.rs\<close>: the \<open>[channel]\<close> block of the
  configuration, \<open>ChannelState::build\<close> with all its checks in their order, and the module \<open>ceremony\<close> that
  computes the sealed hash and the endorsements which those checks read back. Parsers, the curve, socket
  addresses (by their canonical text) and the semaphore limit are the argument \<open>config_api\<close>.
\<close>

subsection \<open>Configuration\<close>

record config_api =
  cp_keys :: keygen_api
  cp_sig :: sig_api
  cp_sign :: "bytes \<Rightarrow> digest \<Rightarrow> bytes"
  cp_inner :: "pubkey \<Rightarrow> bytes"
  cp_show_pubkey :: "pubkey \<Rightarrow> string"
  cp_socket :: "string \<Rightarrow> string option"
  cp_max_permits :: nat

record channel_node_config =
  cn_node_id :: node_id
  cn_signing_pubkey :: string
  cn_channel_pubkey :: string
  cn_channel_endorsement :: string
  cn_endpoints :: "string list"

record channel_config =
  cc_node_id :: node_id
  cc_nodes :: "channel_node_config list"
  cc_max_active_candidates :: nat
  cc_max_candidate_store_bytes :: nat
  cc_per_peer_quota_per_min :: u64
  cc_max_concurrent_channel_requests :: nat
  cc_max_msg_bytes :: nat
  cc_max_response_bytes :: nat
  cc_per_send_deadline_secs :: u64
  cc_expected_manifest_hash :: string

datatype build_error =
    TooManyPermits | ZeroSendDeadline | PortZero | NodeCount nat nat | DuplicateNodeKey
  | NodeIdRange node_id | DuplicateNodeId node_id | BadSigningKey node_id | BadChannelKey node_id
  | NotCanonicalKey node_id | ChannelKeyIsCoordinator node_id | NoEndpoints node_id | BadEndpoint node_id
  | MissingNodeId nat | SelfIdRange node_id | SelfKeyMismatch | ManifestRefused manifest_error
  | ExpectedHashNotHex | ManifestHashMismatch | EndorsementMissing node_id | EndorsementNotHex node_id
  | EndorsementNotDer node_id | EndorsementInvalid node_id | ChannelKeyPanic | OwnChannelKeyMismatch | BadBindAddress | NotBound

text \<open>The vault-wide values the manifest is computed over, besides the nodes.\<close>

record sealed_values =
  sv_wallet_id :: bytes
  sv_coordinator_auth :: pubkey
  sv_max_msg_bytes :: u64
  sv_hot_budget :: hot_budget
  sv_hot_allowlist :: "string list"
  sv_escape_descriptor :: string
  sv_max_derivation_index :: "32 word"
  sv_escape_feerate_floor :: u64
  sv_escape_coverage_pct :: byte
  sv_escape_bump_max_fee_pct :: byte
  sv_network :: network

definition manifest_of :: "sealed_values \<Rightarrow> manifest_node list \<Rightarrow> base_manifest" where
  "manifest_of sv nodes = \<lparr>bm_wallet_id = sv_wallet_id sv, bm_protocol_version = PROTOCOL_VERSION,
     bm_coordinator_auth = sv_coordinator_auth sv, bm_max_msg_bytes = word_of_nat (sv_max_msg_bytes sv),
     bm_hot_max_per_tx = word_of_nat (max_per_tx_sat (sv_hot_budget sv)), bm_hot_max_per_window = word_of_nat (max_per_window_sat (sv_hot_budget sv)),
     bm_hot_window_secs = word_of_nat (window_secs (sv_hot_budget sv)), bm_hot_allowlist = sv_hot_allowlist sv,
     bm_escape_descriptor = sv_escape_descriptor sv, bm_max_derivation_index = sv_max_derivation_index sv,
     bm_escape_feerate_floor = word_of_nat (sv_escape_feerate_floor sv), bm_escape_coverage_pct = sv_escape_coverage_pct sv,
     bm_escape_bump_max_fee_pct = sv_escape_bump_max_fee_pct sv, bm_network = sv_network sv, bm_nodes = nodes\<rparr>"

subsection \<open>The ceremony\<close>

record ceremony_node =
  cer_node_id :: node_id
  cer_signing_pubkey :: pubkey
  cer_endpoints :: "string list"

definition manifest_nodes :: "ceremony_node list \<Rightarrow> pubkey list \<Rightarrow> manifest_node list" where
  "manifest_nodes nodes channel_pubkeys =
     map (\<lambda>(node, cpk). \<lparr>mn_node_id = cer_node_id node, mn_signing_pubkey = cer_signing_pubkey node, mn_channel_pubkey = cpk,
            mn_endpoints = cer_endpoints node\<rparr>) (zip nodes channel_pubkeys)"

datatype ceremony_error = BadDescriptor string | CeremonyManifest manifest_error

text \<open>\<open>canon\<close> parses a descriptor and prints it in canonical form.\<close>

fun canonical_all :: "(string \<Rightarrow> string option) \<Rightarrow> string list \<Rightarrow> ceremony_error + string list" where
  "canonical_all canon [] = Ok []"
| "canonical_all canon (d # ds) =
     (case canon d of
        None \<Rightarrow> Err (BadDescriptor d)
      | Some c \<Rightarrow> bind_res (canonical_all canon ds) (\<lambda>cs. Ok (c # cs)))"

definition ceremony_manifest_hash ::
  "config_api \<Rightarrow> (string \<Rightarrow> string option) \<Rightarrow> sealed_values \<Rightarrow> ceremony_node list \<Rightarrow> pubkey list \<Rightarrow> ceremony_error + digest" where
  "ceremony_manifest_hash api canon sv nodes channel_pubkeys =
     bind_res (canonical_all canon (sv_hot_allowlist sv)) (\<lambda>hot.
     bind_res (case canon (sv_escape_descriptor sv) of None \<Rightarrow> Err (BadDescriptor (sv_escape_descriptor sv)) | Some c \<Rightarrow> Ok c) (\<lambda>esc.
     case compute_manifest_hash (kg_sha256 (cp_keys api))
            (manifest_of (sv\<lparr>sv_hot_allowlist := hot, sv_escape_descriptor := esc\<rparr>) (manifest_nodes nodes channel_pubkeys)) of
       Inl e \<Rightarrow> Err (CeremonyManifest e)
     | Inr h \<Rightarrow> Ok h))"

text \<open>\<open>None\<close> is the panic of the channel key derivation.\<close>

definition endorse :: "config_api \<Rightarrow> bytes \<Rightarrow> bytes \<Rightarrow> digest \<Rightarrow> node_id \<Rightarrow> string list \<Rightarrow> string option" where
  "endorse api sk wallet_id manifest_hash nid endpoints =
     map_option (\<lambda>csk. kg_to_hex (cp_keys api) (sa_serialize_der (cp_sig api) (cp_sign api sk
         (endorsement_digest (kg_sha256 (cp_keys api)) wallet_id manifest_hash nid (channel_pubkey_of (cp_keys api) csk) PROTOCOL_VERSION endpoints))))
       (derive_channel_seckey (cp_keys api) sk)"

definition check_endorsement ::
  "config_api \<Rightarrow> pubkey \<Rightarrow> pubkey \<Rightarrow> bytes \<Rightarrow> digest \<Rightarrow> node_id \<Rightarrow> string list \<Rightarrow> string \<Rightarrow> build_error + unit" where
  "check_endorsement api signing channel_pk wallet_id manifest_hash nid endpoints hex =
     (case kg_from_hex (cp_keys api) hex of
        None \<Rightarrow> Err (EndorsementNotHex nid)
      | Some der \<Rightarrow>
          (case sa_from_der (cp_sig api) der of
             None \<Rightarrow> Err (EndorsementNotDer nid)
           | Some sig \<Rightarrow>
               if sa_verify (cp_sig api) (endorsement_digest (kg_sha256 (cp_keys api)) wallet_id manifest_hash nid channel_pk PROTOCOL_VERSION endpoints) sig signing
               then Ok () else Err (EndorsementInvalid nid)))"

definition verify_endorsement ::
  "config_api \<Rightarrow> pubkey \<Rightarrow> pubkey \<Rightarrow> bytes \<Rightarrow> digest \<Rightarrow> node_id \<Rightarrow> string list \<Rightarrow> string \<Rightarrow> build_error + unit" where
  "verify_endorsement api signing channel_pk wallet_id manifest_hash nid endpoints hex =
     check_endorsement api signing channel_pk wallet_id manifest_hash nid endpoints (trim hex)"

subsection \<open>Building the channel\<close>

definition validate_endpoint :: "config_api \<Rightarrow> node_id \<Rightarrow> string \<Rightarrow> build_error + unit" where
  "validate_endpoint api nid ep = (if cp_socket api ep = Some ep then Ok () else Err (BadEndpoint nid))"

definition canonical_keys :: "config_api \<Rightarrow> pubkey list \<Rightarrow> pubkey list" where
  "canonical_keys api keys = sort_key (cp_show_pubkey api) keys"

fun adjacent_equal :: "'x list \<Rightarrow> bool" where
  "adjacent_equal (x # y # xs) = (x = y \<or> adjacent_equal (y # xs))"
| "adjacent_equal _ = False"

text \<open>One membership entry, placed at its id.\<close>

definition place_node ::
  "config_api \<Rightarrow> pubkey list \<Rightarrow> pubkey \<Rightarrow> channel_node_config \<Rightarrow> manifest_node option list \<Rightarrow> build_error + manifest_node option list" where
  "place_node api canonical coordinator entry by_id =
     (let nid = cn_node_id entry; i = unat nid in
      if length canonical \<le> i then Err (NodeIdRange nid)
      else if by_id ! i \<noteq> None then Err (DuplicateNodeId nid)
      else (case kg_pubkey_of_str (cp_keys api) (cn_signing_pubkey entry) of
          None \<Rightarrow> Err (BadSigningKey nid)
        | Some signing \<Rightarrow>
            (case kg_pubkey_of_str (cp_keys api) (cn_channel_pubkey entry) of
               None \<Rightarrow> Err (BadChannelKey nid)
             | Some channel_pk \<Rightarrow>
                 if signing \<noteq> canonical ! i then Err (NotCanonicalKey nid)
                 else if cp_inner api channel_pk = cp_inner api coordinator then Err (ChannelKeyIsCoordinator nid)
                 else if cn_endpoints entry = [] then Err (NoEndpoints nid)
                 else bind_res (for_each (validate_endpoint api nid) (cn_endpoints entry)) (\<lambda>_.
                   Ok (by_id[i := Some \<lparr>mn_node_id = nid, mn_signing_pubkey = signing, mn_channel_pubkey = channel_pk,
                                        mn_endpoints = cn_endpoints entry\<rparr>])))))"

fun place_nodes ::
  "config_api \<Rightarrow> pubkey list \<Rightarrow> pubkey \<Rightarrow> channel_node_config list \<Rightarrow> manifest_node option list \<Rightarrow> build_error + manifest_node option list" where
  "place_nodes api canonical coordinator [] by_id = Ok by_id"
| "place_nodes api canonical coordinator (entry # entries) by_id =
     bind_res (place_node api canonical coordinator entry by_id) (place_nodes api canonical coordinator entries)"

fun all_present :: "nat \<Rightarrow> manifest_node option list \<Rightarrow> build_error + manifest_node list" where
  "all_present i [] = Ok []"
| "all_present i (None # os) = Err (MissingNodeId i)"
| "all_present i (Some n # os) = bind_res (all_present (Suc i) os) (\<lambda>ns. Ok (n # ns))"

definition membership :: "config_api \<Rightarrow> channel_config \<Rightarrow> pubkey list \<Rightarrow> pubkey \<Rightarrow> build_error + manifest_node list" where
  "membership api cfg descriptor_node_keys coordinator =
     (let n = length descriptor_node_keys; canonical = canonical_keys api descriptor_node_keys in
      if length (cc_nodes cfg) \<noteq> n then Err (NodeCount (length (cc_nodes cfg)) n)
      else if adjacent_equal canonical then Err DuplicateNodeKey
      else bind_res (place_nodes api canonical coordinator (cc_nodes cfg) (replicate n None)) (all_present 0))"

definition endorsement_of :: "config_api \<Rightarrow> channel_config \<Rightarrow> bytes \<Rightarrow> digest \<Rightarrow> manifest_node \<Rightarrow> build_error + unit" where
  "endorsement_of api cfg wallet_id manifest_hash node =
     (case find (\<lambda>e. cn_node_id e = mn_node_id node) (cc_nodes cfg) of
        None \<Rightarrow> Err (EndorsementMissing (mn_node_id node))
      | Some entry \<Rightarrow>
          check_endorsement api (mn_signing_pubkey node) (mn_channel_pubkey node) wallet_id manifest_hash (mn_node_id node)
            (mn_endpoints node) (cn_channel_endorsement entry))"

record built_channel =
  bc_env :: channel_env
  bc_state :: channel_state
  bc_channel_seckey :: bytes
  bc_channel_pubkey :: pubkey
  bc_permits :: nat
  bc_max_msg_bytes :: nat
  bc_max_response_bytes :: nat
  bc_per_send_deadline_secs :: u64

definition bind_text :: "16 word \<Rightarrow> string" where
  "bind_text port = ''127.0.0.1:'' @ show_nat (unat port)"

definition build_channel ::
  "config_api \<Rightarrow> channel_config \<Rightarrow> sealed_values \<Rightarrow> bytes \<Rightarrow> pubkey \<Rightarrow> pubkey list \<Rightarrow> 16 word \<Rightarrow> build_error + built_channel" where
  "build_channel api cfg sv node_seckey node_signing_pubkey descriptor_node_keys listen_port =
     (if cp_max_permits api < cc_max_concurrent_channel_requests cfg then Err TooManyPermits
      else if cc_per_send_deadline_secs cfg = 0 then Err ZeroSendDeadline
      else if listen_port = 0 then Err PortZero
      else bind_res (membership api cfg descriptor_node_keys (sv_coordinator_auth sv)) (\<lambda>nodes.
        let self_id = cc_node_id cfg; self = nodes ! unat self_id in
        if length descriptor_node_keys \<le> unat self_id then Err (SelfIdRange self_id)
        else if mn_signing_pubkey self \<noteq> node_signing_pubkey then Err SelfKeyMismatch
        else (case compute_manifest_hash (kg_sha256 (cp_keys api)) (manifest_of (sv\<lparr>sv_max_msg_bytes := cc_max_msg_bytes cfg\<rparr>) nodes) of
            Inl e \<Rightarrow> Err (ManifestRefused e)
          | Inr manifest_hash \<Rightarrow>
              (case from_hex_array (cp_keys api) 32 (cc_expected_manifest_hash cfg) of
                 None \<Rightarrow> Err ExpectedHashNotHex
               | Some expected \<Rightarrow>
                   if expected \<noteq> manifest_hash then Err ManifestHashMismatch
                   else bind_res (for_each (endorsement_of api cfg (sv_wallet_id sv) manifest_hash) nodes) (\<lambda>_.
                     (case derive_channel_seckey (cp_keys api) node_seckey of
                        None \<Rightarrow> Err ChannelKeyPanic
                      | Some csk \<Rightarrow>
                          if channel_pubkey_of (cp_keys api) csk \<noteq> mn_channel_pubkey self then Err OwnChannelKeyMismatch
                          else (case cp_socket api (bind_text listen_port) of
                              None \<Rightarrow> Err BadBindAddress
                            | Some bnd \<Rightarrow>
                                if list_ex (\<lambda>ep. cp_socket api ep = Some bnd) (mn_endpoints self)
                                then Ok \<lparr>bc_env = \<lparr>ce_node_id = self_id, ce_nodes = nodes, ce_wallet_id = sv_wallet_id sv,
                                          ce_manifest_hash = manifest_hash, ce_quota_per_min = cc_per_peer_quota_per_min cfg\<rparr>,
                                        bc_state = \<lparr>ch_store = store_new (cc_max_active_candidates cfg) (cc_max_candidate_store_bytes cfg) (sv_hot_budget sv),
                                          ch_guards = ingress_guards_default, ch_freshness = [], ch_alerts = []\<rparr>,
                                        bc_channel_seckey = csk, bc_channel_pubkey = channel_pubkey_of (cp_keys api) csk,
                                        bc_permits = cc_max_concurrent_channel_requests cfg, bc_max_msg_bytes = cc_max_msg_bytes cfg,
                                        bc_max_response_bytes = cc_max_response_bytes cfg, bc_per_send_deadline_secs = cc_per_send_deadline_secs cfg\<rparr>
                                else Err NotBound)))))))"

subsection \<open>The membership\<close>

text \<open>What the checks establish of the node at position \<open>i\<close>.\<close>

definition member_ok :: "config_api \<Rightarrow> pubkey list \<Rightarrow> pubkey \<Rightarrow> nat \<Rightarrow> manifest_node \<Rightarrow> bool" where
  "member_ok api canonical coordinator i m \<longleftrightarrow> unat (mn_node_id m) = i \<and> mn_signing_pubkey m = canonical ! i \<and>
     cp_inner api (mn_channel_pubkey m) \<noteq> cp_inner api coordinator \<and> mn_endpoints m \<noteq> [] \<and>
     (\<forall>ep \<in> set (mn_endpoints m). cp_socket api ep = Some ep)"

lemma validate_endpoint_Ok [simp]: "validate_endpoint api nid ep = Inr u \<longleftrightarrow> cp_socket api ep = Some ep"
  by (simp add: validate_endpoint_def)

lemma place_node_Ok:
  assumes "place_node api canonical coordinator entry by_id = Ok by_id'"
  shows "\<exists>m. by_id' = by_id[unat (cn_node_id entry) := Some m] \<and> unat (cn_node_id entry) < length canonical \<and>
    member_ok api canonical coordinator (unat (cn_node_id entry)) m"
  using assms by (auto simp: place_node_def Let_def bind_res_Ok_iff for_each_Ok_iff member_ok_def split: if_splits option.splits)

definition placed_ok :: "config_api \<Rightarrow> pubkey list \<Rightarrow> pubkey \<Rightarrow> manifest_node option list \<Rightarrow> bool" where
  "placed_ok api canonical coordinator by_id \<longleftrightarrow>
     (\<forall>i < length by_id. \<forall>m. by_id ! i = Some m \<longrightarrow> member_ok api canonical coordinator i m)"

lemma place_nodes_Ok:
  "place_nodes api canonical coordinator entries by_id = Ok by_id' \<Longrightarrow> placed_ok api canonical coordinator by_id \<Longrightarrow>
   placed_ok api canonical coordinator by_id' \<and> length by_id' = length by_id"
proof (induction entries arbitrary: by_id)
  case (Cons entry entries)
  from Cons.prems(1) obtain b where b: "place_node api canonical coordinator entry by_id = Ok b"
    and r: "place_nodes api canonical coordinator entries b = Ok by_id'" by (auto simp: bind_res_Ok_iff)
  from place_node_Ok [OF b] obtain m where m: "b = by_id[unat (cn_node_id entry) := Some m]"
    "member_ok api canonical coordinator (unat (cn_node_id entry)) m" by blast
  then have "placed_ok api canonical coordinator b" using Cons.prems(2)
    unfolding placed_ok_def by (metis length_list_update nth_list_update_eq nth_list_update_neq option.inject)
  with Cons.IH [OF r] m(1) show ?case by simp
qed simp

lemma all_present_Ok: "all_present i os = Ok ns \<longleftrightarrow> os = map Some ns"
proof (induction i os arbitrary: ns rule: all_present.induct)
  case (3 i n os)
  have "all_present i (Some n # os) = Ok ns \<longleftrightarrow> (\<exists>ns'. all_present (Suc i) os = Ok ns' \<and> ns = n # ns')"
    by (auto simp: bind_res_Ok_iff)
  then show ?case using 3 by auto
qed auto

lemma membership_Ok:
  assumes "membership api cfg keys coordinator = Ok nodes"
  shows "length nodes = length keys" "i < length keys \<Longrightarrow> member_ok api (canonical_keys api keys) coordinator i (nodes ! i)"
proof -
  from assms obtain by_id where b: "place_nodes api (canonical_keys api keys) coordinator (cc_nodes cfg) (replicate (length keys) None) = Ok by_id"
    and n: "by_id = map Some nodes"
    by (auto simp: membership_def Let_def bind_res_Ok_iff all_present_Ok split: if_splits)
  have "placed_ok api (canonical_keys api keys) coordinator (replicate (length keys) None)" by (simp add: placed_ok_def)
  from place_nodes_Ok [OF b this] n show l: "length nodes = length keys"
    and "i < length keys \<Longrightarrow> member_ok api (canonical_keys api keys) coordinator i (nodes ! i)"
    by (auto simp: placed_ok_def)
qed

lemma set_canonical_keys [simp]: "set (canonical_keys api keys) = set keys" "length (canonical_keys api keys) = length keys"
  by (simp_all add: canonical_keys_def)

lemma membership_keys:
  assumes "membership api cfg keys coordinator = Ok nodes"
  shows "map mn_signing_pubkey nodes = canonical_keys api keys" "map (\<lambda>m. unat (mn_node_id m)) nodes = [0..<length keys]"
    "\<forall>m \<in> set nodes. cp_inner api (mn_channel_pubkey m) \<noteq> cp_inner api coordinator"
  using membership_Ok [OF assms] by (auto simp: member_ok_def in_set_conv_nth intro!: nth_equalityI)

subsection \<open>What a built channel certifies\<close>

text \<open>The manifest a built channel was checked against.\<close>

definition built_manifest :: "channel_config \<Rightarrow> sealed_values \<Rightarrow> built_channel \<Rightarrow> base_manifest" where
  "built_manifest cfg sv bc = manifest_of (sv\<lparr>sv_max_msg_bytes := cc_max_msg_bytes cfg\<rparr>) (ce_nodes (bc_env bc))"

lemma build_channel_Ok:
  assumes "build_channel api cfg sv sk pk keys port = Ok bc"
  shows "membership api cfg keys (sv_coordinator_auth sv) = Ok (ce_nodes (bc_env bc))"
    "ce_node_id (bc_env bc) = cc_node_id cfg" "unat (cc_node_id cfg) < length keys"
    "mn_signing_pubkey (ce_nodes (bc_env bc) ! unat (cc_node_id cfg)) = pk"
    "compute_manifest_hash (kg_sha256 (cp_keys api)) (built_manifest cfg sv bc) = Ok (ce_manifest_hash (bc_env bc))"
    "from_hex_array (cp_keys api) 32 (cc_expected_manifest_hash cfg) = Some (ce_manifest_hash (bc_env bc))"
    "\<forall>node \<in> set (ce_nodes (bc_env bc)). endorsement_of api cfg (sv_wallet_id sv) (ce_manifest_hash (bc_env bc)) node = Ok ()"
    "ch_store (bc_state bc) = store_new (cc_max_active_candidates cfg) (cc_max_candidate_store_bytes cfg) (sv_hot_budget sv)"
    "ch_guards (bc_state bc) = ingress_guards_default" "ce_wallet_id (bc_env bc) = sv_wallet_id sv"
    "mn_channel_pubkey (ce_nodes (bc_env bc) ! unat (cc_node_id cfg)) = bc_channel_pubkey bc" "0 < cc_per_send_deadline_secs cfg"
    "bc_max_msg_bytes bc = cc_max_msg_bytes cfg"
  using assms by (auto simp: build_channel_def built_manifest_def Let_def bind_res_Ok_iff for_each_Ok_iff split: if_splits sum.splits option.splits)

text \<open>Every numeric value is a \<open>u64\<close>.\<close>

definition u64_values :: "channel_config \<Rightarrow> sealed_values \<Rightarrow> bool" where
  "u64_values cfg sv \<longleftrightarrow> cc_max_msg_bytes cfg < 2 ^ 64 \<and> max_per_tx_sat (sv_hot_budget sv) < 2 ^ 64 \<and> max_per_window_sat (sv_hot_budget sv) < 2 ^ 64 \<and>
     window_secs (sv_hot_budget sv) < 2 ^ 64 \<and> sv_escape_feerate_floor sv < 2 ^ 64"

lemma word64_inj: "a < 2 ^ 64 \<Longrightarrow> b < 2 ^ 64 \<Longrightarrow> (word_of_nat a :: 64 word) = word_of_nat b \<longleftrightarrow> a = b"
  by (simp add: word_of_nat_eq_iff take_bit_nat_eq_self)

lemma compute_manifest_hash_Ok:
  "compute_manifest_hash sha b = Ok h \<longleftrightarrow> (\<exists>x. base_manifest_bytes b = Ok x \<and> h = tagged_hash sha MANIFEST_TAG x)"
  by (auto simp: compute_manifest_hash_def bind_res_Ok_iff)

lemma base_manifest_network: "base_manifest_bytes b = Ok x \<Longrightarrow> bm_network b \<in> {Bitcoin, Signet, Regtest}"
  by (cases "bm_network b") (auto simp: base_manifest_bytes_def bind_res_Ok_iff)

text \<open>C17: a sealed federation is uniform. Two nodes whose channels came up with the same manifest hash, and nodes with
  different hashes do not talk to each other, have the same member list, coordinator key, wallet, network, message
  cap, Hot budget, hot allowlist, escape wallet, derivation bound, fee floor, coverage and bump ceiling, unless
  the two manifests collide under the hash.\<close>

theorem sealed_nodes_agree:
  assumes "build_channel api cfg sv sk pk keys port = Ok bc" and "build_channel api cfg' sv' sk' pk' keys' port' = Ok bc'"
    and "ce_manifest_hash (bc_env bc) = ce_manifest_hash (bc_env bc')"
    and "manifest_ok (built_manifest cfg sv bc)" and "manifest_ok (built_manifest cfg' sv' bc')"
    and "u64_values cfg sv" and "u64_values cfg' sv'"
    and "\<forall>x y. base_manifest_bytes (built_manifest cfg sv bc) = Ok x \<longrightarrow> base_manifest_bytes (built_manifest cfg' sv' bc') = Ok y \<longrightarrow>
      tagged_hash (kg_sha256 (cp_keys api)) MANIFEST_TAG x = tagged_hash (kg_sha256 (cp_keys api)) MANIFEST_TAG y \<longrightarrow> x = y"
  shows "ce_nodes (bc_env bc) = ce_nodes (bc_env bc') \<and> sv_coordinator_auth sv = sv_coordinator_auth sv' \<and> sv_wallet_id sv = sv_wallet_id sv' \<and>
    sv_network sv = sv_network sv' \<and> cc_max_msg_bytes cfg = cc_max_msg_bytes cfg' \<and> sv_hot_budget sv = sv_hot_budget sv' \<and>
    set (sv_hot_allowlist sv) = set (sv_hot_allowlist sv') \<and> sv_escape_descriptor sv = sv_escape_descriptor sv' \<and>
    sv_max_derivation_index sv = sv_max_derivation_index sv' \<and> sv_escape_feerate_floor sv = sv_escape_feerate_floor sv' \<and>
    sv_escape_coverage_pct sv = sv_escape_coverage_pct sv' \<and> sv_escape_bump_max_fee_pct sv = sv_escape_bump_max_fee_pct sv'"
proof -
  obtain x y where x: "base_manifest_bytes (built_manifest cfg sv bc) = Ok x"
    and y: "base_manifest_bytes (built_manifest cfg' sv' bc') = Ok y" and
    "tagged_hash (kg_sha256 (cp_keys api)) MANIFEST_TAG x = tagged_hash (kg_sha256 (cp_keys api)) MANIFEST_TAG y"
    using build_channel_Ok(5) [OF assms(1)] build_channel_Ok(5) [OF assms(2)] assms(3) by (auto simp: compute_manifest_hash_Ok)
  with assms(8) have "base_manifest_bytes (built_manifest cfg sv bc) = base_manifest_bytes (built_manifest cfg' sv' bc')" by simp
  then have e: "manifest_equiv (built_manifest cfg sv bc) (built_manifest cfg' sv' bc')"
    using manifest_preimage_faithful [OF assms(4,5) base_manifest_network [OF x] base_manifest_network [OF y]] by blast
  have "hb = hb'" if "max_per_tx_sat hb = max_per_tx_sat hb'" "max_per_window_sat hb = max_per_window_sat hb'" "window_secs hb = window_secs hb'"
    for hb hb' :: hot_budget using that by simp
  with e assms(6,7) show ?thesis
    by (simp add: manifest_equiv_def built_manifest_def manifest_of_def u64_values_def word64_inj)
qed

subsection \<open>A consistent federation\<close>

text \<open>A description of member configurations that agree with each other, and the lemma that the channel of each member then
  comes up: the demonstrations below and in the theories that build on this one are instances of it. It describes configurations and
  does not translate the code that writes them. First, what the checks rely on of the codecs and of the signature scheme.\<close>

definition codec_laws :: "config_api \<Rightarrow> bool" where
  "codec_laws api \<longleftrightarrow> (\<forall>pk. kg_pubkey_of_str (cp_keys api) (cp_show_pubkey api pk) = Some pk) \<and>
     (\<forall>b. kg_from_hex (cp_keys api) (kg_to_hex (cp_keys api) b) = Some b) \<and>
     (\<forall>s. sa_from_der (cp_sig api) (sa_serialize_der (cp_sig api) s) = Some s) \<and>
     (\<forall>sk d. sa_verify (cp_sig api) d (cp_sign api sk d) (kg_public_key (cp_keys api) sk))"

text \<open>The members in canonical order: the signing key and the endpoints of each.\<close>

type_synonym federation = "(bytes \<times> string list) list"

definition cer_nodes :: "config_api \<Rightarrow> federation \<Rightarrow> ceremony_node list" where
  "cer_nodes api fed = map (\<lambda>i. \<lparr>cer_node_id = word_of_nat i, cer_signing_pubkey = kg_public_key (cp_keys api) (fst (fed ! i)),
     cer_endpoints = snd (fed ! i)\<rparr>) [0..<length fed]"

definition channel_key_of :: "config_api \<Rightarrow> bytes \<Rightarrow> pubkey" where
  "channel_key_of api sk = channel_pubkey_of (cp_keys api) (the (derive_channel_seckey (cp_keys api) sk))"

definition cer_entry :: "config_api \<Rightarrow> bytes \<Rightarrow> digest \<Rightarrow> federation \<Rightarrow> nat \<Rightarrow> channel_node_config" where
  "cer_entry api wallet_id h fed i = \<lparr>cn_node_id = word_of_nat i, cn_signing_pubkey = cp_show_pubkey api (kg_public_key (cp_keys api) (fst (fed ! i))),
     cn_channel_pubkey = cp_show_pubkey api (channel_key_of api (fst (fed ! i))),
     cn_channel_endorsement = the (endorse api (fst (fed ! i)) wallet_id h (word_of_nat i) (snd (fed ! i))), cn_endpoints = snd (fed ! i)\<rparr>"

definition cer_member :: "config_api \<Rightarrow> federation \<Rightarrow> nat \<Rightarrow> manifest_node" where
  "cer_member api fed i = \<lparr>mn_node_id = word_of_nat i, mn_signing_pubkey = kg_public_key (cp_keys api) (fst (fed ! i)),
     mn_channel_pubkey = channel_key_of api (fst (fed ! i)), mn_endpoints = snd (fed ! i)\<rparr>"

definition fed_ok :: "config_api \<Rightarrow> pubkey \<Rightarrow> federation \<Rightarrow> bool" where
  "fed_ok api coordinator fed \<longleftrightarrow> length fed \<le> 2 ^ 16 \<and>
     (\<forall>m \<in> set fed. derive_channel_seckey (cp_keys api) (fst m) \<noteq> None \<and> snd m \<noteq> [] \<and> (\<forall>ep \<in> set (snd m). cp_socket api ep = Some ep) \<and>
        cp_inner api (channel_key_of api (fst m)) \<noteq> cp_inner api coordinator)"

lemma unat_word16: "i < length fed \<Longrightarrow> fed_ok api coordinator fed \<Longrightarrow> unat (word_of_nat i :: 16 word) = i"
  by (simp add: fed_ok_def unat_of_nat)

lemma manifest_nodes_cer:
  "manifest_nodes (cer_nodes api fed) (map (\<lambda>m. channel_key_of api (fst m)) fed) = map (cer_member api fed) [0..<length fed]"
  by (rule nth_equalityI) (simp_all add: manifest_nodes_def cer_nodes_def cer_member_def)

lemma place_cer_entry:
  assumes "codec_laws api" "fed_ok api coordinator fed" "canonical = map (\<lambda>m. kg_public_key (cp_keys api) (fst m)) fed" "i < length fed"
    "length by_id = length fed" "by_id ! i = None"
  shows "place_node api canonical coordinator (cer_entry api w h fed i) by_id = Ok (by_id[i := Some (cer_member api fed i)])"
proof -
  have f: "snd (fed ! i) \<noteq> []" "\<forall>ep \<in> set (snd (fed ! i)). cp_socket api ep = Some ep"
    "cp_inner api (channel_key_of api (fst (fed ! i))) \<noteq> cp_inner api coordinator"
    using assms(2) nth_mem [OF assms(4)] by (auto simp: fed_ok_def)
  have "for_each (validate_endpoint api (word_of_nat i)) (snd (fed ! i)) = Ok ()" using f(2) by (simp add: for_each_Ok_iff)
  with f assms show ?thesis
    by (simp add: place_node_def cer_entry_def cer_member_def Let_def unat_word16 codec_laws_def)
qed

lemma place_cer_entries:
  assumes "codec_laws api" "fed_ok api coordinator fed" "canonical = map (\<lambda>m. kg_public_key (cp_keys api) (fst m)) fed" "k \<le> length fed"
  shows "place_nodes api canonical coordinator (map (cer_entry api w h fed) [k..<length fed])
      (map (\<lambda>i. if i < k then Some (cer_member api fed i) else None) [0..<length fed]) =
    Ok (map (\<lambda>i. Some (cer_member api fed i)) [0..<length fed])"
  using assms(4)
proof (induction "length fed - k" arbitrary: k)
  case 0
  then show ?case by simp
next
  case (Suc d)
  then have k: "k < length fed" by simp
  have "(map (\<lambda>i. if i < k then Some (cer_member api fed i) else None) [0..<length fed])[k := Some (cer_member api fed k)] =
    map (\<lambda>i. if i < Suc k then Some (cer_member api fed i) else None) [0..<length fed]"
    using k by (auto intro!: nth_equalityI simp: nth_list_update)
  with Suc.hyps(1) [of "Suc k"] Suc.hyps(2) k place_cer_entry [OF assms(1-3) k, of "map (\<lambda>i. if i < k then Some (cer_member api fed i) else None) [0..<length fed]"]
  show ?case by (simp add: upt_conv_Cons [OF k])
qed

lemma endorsement_of_cer:
  assumes "codec_laws api" "fed_ok api coordinator fed" "cc_nodes cfg = map (cer_entry api w h fed) [0..<length fed]" "i < length fed"
  shows "endorsement_of api cfg w h (cer_member api fed i) = Ok ()"
proof -
  have "find (\<lambda>e. cn_node_id e = mn_node_id (cer_member api fed i)) (cc_nodes cfg) = Some (cer_entry api w h fed i)"
    unfolding find_Some_iff
  proof (intro exI [of _ i] conjI allI impI)
    fix j
    assume "j < i"
    then have "unat (word_of_nat j :: 16 word) \<noteq> unat (word_of_nat i :: 16 word)" using unat_word16 [OF _ assms(2)] assms(4) by simp
    with \<open>j < i\<close> show "cn_node_id (cc_nodes cfg ! j) \<noteq> mn_node_id (cer_member api fed i)"
      using assms(3,4) by (auto simp: cer_entry_def cer_member_def)
  qed (use assms(3,4) in \<open>simp_all add: cer_entry_def cer_member_def\<close>)
  moreover obtain csk where "derive_channel_seckey (cp_keys api) (fst (fed ! i)) = Some csk"
    using assms(2) nth_mem [OF assms(4)] by (auto simp: fed_ok_def)
  ultimately show ?thesis using assms(1)
    by (simp add: endorsement_of_def check_endorsement_def cer_entry_def cer_member_def endorse_def channel_key_of_def codec_laws_def)
qed

text \<open>The configuration of one member of a consistent federation.\<close>

definition sealed_cfg :: "config_api \<Rightarrow> sealed_values \<Rightarrow> digest \<Rightarrow> federation \<Rightarrow> channel_config \<Rightarrow> bool" where
  "sealed_cfg api sv h fed cfg \<longleftrightarrow> cc_nodes cfg = map (cer_entry api (sv_wallet_id sv) h fed) [0..<length fed] \<and>
     cc_expected_manifest_hash cfg = kg_to_hex (cp_keys api) h \<and> cc_max_msg_bytes cfg = sv_max_msg_bytes sv \<and>
     cc_max_concurrent_channel_requests cfg \<le> cp_max_permits api \<and> 0 < cc_per_send_deadline_secs cfg \<and> unat (cc_node_id cfg) < length fed"

lemma canonical_all_fixed: "\<forall>d \<in> set ds. canon d = Some d \<Longrightarrow> canonical_all canon ds = Ok ds"
  by (induction ds) simp_all

lemma sealed_node_boots:
  assumes "codec_laws api" and "fed_ok api (sv_coordinator_auth sv) fed"
    and "canonical_keys api keys = map (\<lambda>m. kg_public_key (cp_keys api) (fst m)) fed" and "\<not> adjacent_equal (canonical_keys api keys)"
    and "\<forall>d \<in> set (sv_escape_descriptor sv # sv_hot_allowlist sv). canon d = Some d"
    and "ceremony_manifest_hash api canon sv (cer_nodes api fed) (map (\<lambda>m. channel_key_of api (fst m)) fed) = Ok h" and "length h = 32"
    and "sealed_cfg api sv h fed cfg" and "port \<noteq> 0" and "fed ! unat (cc_node_id cfg) = (sk, eps)"
    and "cp_socket api (bind_text port) = Some (bind_text port)" and "bind_text port \<in> set eps"
  shows "\<exists>bc. build_channel api cfg sv sk (kg_public_key (cp_keys api) sk) keys port = Ok bc \<and> ce_manifest_hash (bc_env bc) = h \<and>
    ce_nodes (bc_env bc) = map (cer_member api fed) [0..<length fed]"
proof -
  let ?i = "unat (cc_node_id cfg)" and ?nodes = "map (cer_member api fed) [0..<length fed]"
  note cfg = assms(8) [unfolded sealed_cfg_def]
  have len: "length keys = length fed" using arg_cong [OF assms(3), of length] by simp
  have "membership api cfg keys (sv_coordinator_auth sv) = Ok ?nodes"
    using place_cer_entries [OF assms(1,2,3), of 0] cfg len assms(4)
    by (simp add: membership_def Let_def map_replicate_const all_present_Ok [THEN iffD2])
  moreover have "compute_manifest_hash (kg_sha256 (cp_keys api)) (manifest_of (sv\<lparr>sv_max_msg_bytes := cc_max_msg_bytes cfg\<rparr>) ?nodes) = Ok h"
    using assms(6) canonical_all_fixed [of "sv_hot_allowlist sv" canon] assms(5) cfg
    by (simp add: ceremony_manifest_hash_def manifest_nodes_cer split: sum.splits)
  moreover have "from_hex_array (cp_keys api) 32 (cc_expected_manifest_hash cfg) = Some h"
    using assms(1,7) cfg by (simp add: from_hex_array_def codec_laws_def)
  moreover have "for_each (endorsement_of api cfg (sv_wallet_id sv) h) ?nodes = Ok ()"
    using endorsement_of_cer [OF assms(1,2)] cfg by (auto simp: for_each_Ok_iff)
  moreover obtain csk where "derive_channel_seckey (cp_keys api) sk = Some csk"
    using assms(2) nth_mem [of ?i fed] assms(10) cfg by (auto simp: fed_ok_def)
  ultimately show ?thesis using assms(9-12) cfg len
    by (simp add: build_channel_def Let_def cer_member_def channel_key_of_def list_ex_iff) blast
qed

subsection \<open>Three nodes\<close>

lemma demo_undigit_digit: "d < 16 \<Longrightarrow> demo_undigit (demo_digit d) = Some d"
proof -
  have "list_all (\<lambda>d. demo_undigit (demo_digit d) = Some d) [0..<16]" by code_simp
  then show "d < 16 \<Longrightarrow> demo_undigit (demo_digit d) = Some d" by (simp add: list_all_iff)
qed

lemma demo_hex_inverse: "demo_from_hex (demo_to_hex bs) = Some bs"
proof (induction bs)
  case (Cons b bs)
  have "unat b < 256" using unsigned_less [of b] by simp
  with Cons show ?case by (simp add: demo_to_hex_def demo_undigit_digit)
qed (simp add: demo_to_hex_def)

definition demo_config_api :: config_api where
  "demo_config_api = \<lparr>cp_keys = demo_keygen\<lparr>kg_salt_size := 24, kg_sha256 := \<lambda>b. take 32 (rev b @ replicate 32 0)\<rparr>,
     cp_sig = \<lparr>sa_txid = (\<lambda>_. []), sa_sighash = (\<lambda>_ _ _ _. None), sa_serialize_der = (\<lambda>s. 48 # s),
       sa_from_der = (\<lambda>b. case b of [] \<Rightarrow> None | c # s \<Rightarrow> if c = 48 then Some s else None),
       sa_verify = (\<lambda>d s pk. s = pk @ d), sa_psbt_len = (\<lambda>_. 0), sa_sha256 = (\<lambda>b. take 32 (rev b @ replicate 32 0))\<rparr>,
     cp_sign = (\<lambda>sk d. take 33 (2 # sk) @ d), cp_inner = drop 1, cp_show_pubkey = demo_to_hex, cp_socket = Some, cp_max_permits = 1000\<rparr>"

definition demo_fed :: federation where
  "demo_fed = [(4 # replicate 31 1, [''127.0.0.1:7'']), (5 # replicate 31 1, [''127.0.0.1:7'']), (6 # replicate 31 1, [''127.0.0.1:7''])]"

definition demo_keys :: "pubkey list" where
  "demo_keys = [2 # 4 # replicate 31 1, 2 # 5 # replicate 31 1, 2 # 6 # replicate 31 1]"

definition demo_sealed :: sealed_values where
  "demo_sealed = \<lparr>sv_wallet_id = replicate 32 1, sv_coordinator_auth = 2 # replicate 31 9 @ [9], sv_max_msg_bytes = 100000,
     sv_hot_budget = \<lparr>max_per_tx_sat = 10, max_per_window_sat = 20, window_secs = 600\<rparr>, sv_hot_allowlist = [''h''],
     sv_escape_descriptor = ''e'', sv_max_derivation_index = 5, sv_escape_feerate_floor = 1, sv_escape_coverage_pct = 50,
     sv_escape_bump_max_fee_pct = 10, sv_network = Regtest\<rparr>"

definition demo_channel_config :: "digest \<Rightarrow> node_id \<Rightarrow> channel_config" where
  "demo_channel_config h i = \<lparr>cc_node_id = i, cc_nodes = map (cer_entry demo_config_api (replicate 32 1) h demo_fed) [0..<3],
     cc_max_active_candidates = 4, cc_max_candidate_store_bytes = 100000, cc_per_peer_quota_per_min = 60,
     cc_max_concurrent_channel_requests = 8, cc_max_msg_bytes = 100000, cc_max_response_bytes = 1000, cc_per_send_deadline_secs = 5,
     cc_expected_manifest_hash = demo_to_hex h\<rparr>"

lemma demo_codec_laws: "codec_laws demo_config_api"
  by (simp add: codec_laws_def demo_config_api_def demo_keygen_def demo_hex_inverse)

lemma demo_channel_key:
  "derive_channel_seckey (cp_keys demo_config_api) (x # replicate 31 1) = Some (replicate 31 1 @ [x])"
  by (simp add: derive_channel_seckey_def demo_config_api_def demo_keygen_def tagged_hash_def Let_def)

lemma demo_fed_ok: "fed_ok demo_config_api (sv_coordinator_auth demo_sealed) demo_fed"
  by (simp add: fed_ok_def demo_fed_def channel_key_of_def demo_channel_key channel_pubkey_of_def demo_sealed_def)
    (simp add: demo_config_api_def demo_keygen_def)

lemma demo_canonical_keys: "canonical_keys demo_config_api demo_keys = demo_keys"
proof -
  have "sorted (map demo_to_hex demo_keys)"
    by (simp add: demo_keys_def demo_to_hex_def demo_digit_def)
  then show ?thesis by (simp add: canonical_keys_def demo_config_api_def sort_key_id_if_sorted)
qed

lemma demo_keys_fed: "demo_keys = map (\<lambda>m. kg_public_key (cp_keys demo_config_api) (fst m)) demo_fed"
  by (simp add: demo_keys_def demo_fed_def demo_config_api_def demo_keygen_def)

lemma demo_fed_canonical:
  "canonical_keys demo_config_api demo_keys = map (\<lambda>m. kg_public_key (cp_keys demo_config_api) (fst m)) demo_fed"
  "\<not> adjacent_equal (canonical_keys demo_config_api demo_keys)"
  by (simp only: demo_canonical_keys demo_keys_fed [symmetric]) (simp only: demo_canonical_keys, simp add: demo_keys_def)

lemma demo_sealed_hash:
  "\<exists>h. ceremony_manifest_hash demo_config_api Some demo_sealed (cer_nodes demo_config_api demo_fed) (map (\<lambda>m. channel_key_of demo_config_api (fst m)) demo_fed) = Ok h \<and>
     length h = 32"
  by (simp add: ceremony_manifest_hash_def canonical_all_fixed compute_manifest_hash_def base_manifest_bytes_def manifest_of_def demo_sealed_def tagged_hash_def
      Let_def) (simp add: demo_config_api_def)

lemma demo_sealed_cfg: "i < 3 \<Longrightarrow> sealed_cfg demo_config_api demo_sealed h demo_fed (demo_channel_config h i)"
proof -
  assume "i < 3"
  then have "unat i < 3" by (simp add: word_less_nat_alt)
  moreover have "length demo_fed = 3" "sv_wallet_id demo_sealed = replicate 32 1" "sv_max_msg_bytes demo_sealed = 100000"
    by (simp_all add: demo_fed_def demo_sealed_def)
  moreover have "kg_to_hex (cp_keys demo_config_api) = demo_to_hex" "cp_max_permits demo_config_api = 1000"
    by (simp_all add: demo_config_api_def demo_keygen_def)
  ultimately show ?thesis by (simp add: sealed_cfg_def demo_channel_config_def)
qed

lemma demo_bind_text: "bind_text 7 = ''127.0.0.1:7''"
  by (simp add: bind_text_def show_nat.simps char_of_def bit_iff_odd)

lemma demo_node_boots:
  assumes "ceremony_manifest_hash demo_config_api Some demo_sealed (cer_nodes demo_config_api demo_fed) (map (\<lambda>m. channel_key_of demo_config_api (fst m)) demo_fed) = Ok h"
    and "length h = 32" and "i < 3"
  shows "\<exists>bc. build_channel demo_config_api (demo_channel_config h i) demo_sealed (fst (demo_fed ! unat i))
       (kg_public_key (cp_keys demo_config_api) (fst (demo_fed ! unat i))) demo_keys 7 = Ok bc \<and>
     ce_manifest_hash (bc_env bc) = h \<and> ce_nodes (bc_env bc) = map (cer_member demo_config_api demo_fed) [0..<length demo_fed]"
proof (rule sealed_node_boots [OF demo_codec_laws demo_fed_ok demo_fed_canonical _ assms(1,2) demo_sealed_cfg])
  have "unat i < 3" using assms(3) by (simp add: word_less_nat_alt)
  then have "unat i = 0 \<or> unat i = 1 \<or> unat i = 2" by linarith
  then show "demo_fed ! unat (cc_node_id (demo_channel_config h i)) = (fst (demo_fed ! unat i), [''127.0.0.1:7''])"
    by (auto simp: demo_fed_def demo_channel_config_def)
qed (simp_all add: assms(3) demo_bind_text, simp_all add: demo_config_api_def)

text \<open>The manifest of the three nodes fits its length fields.\<close>

lemma demo_manifest_ok:
  assumes "ce_nodes (bc_env bc) = map (cer_member demo_config_api demo_fed) [0..<length demo_fed]"
  shows "manifest_ok (built_manifest (demo_channel_config h i) demo_sealed bc) \<and> u64_values (demo_channel_config h i) demo_sealed"
proof -
  have "node_ok (cer_member demo_config_api demo_fed k)" if "k < 3" for k
  proof -
    from that have "k = 0 \<or> k = 1 \<or> k = 2" by linarith
    then show ?thesis by (auto simp: node_ok_def cer_member_def demo_fed_def channel_key_of_def demo_channel_key channel_pubkey_of_def)
        (simp_all add: demo_config_api_def demo_keygen_def)
  qed
  moreover have "length demo_fed = 3" by (simp add: demo_fed_def)
  ultimately show ?thesis using assms
    by (simp add: manifest_ok_def built_manifest_def manifest_of_def u64_values_def) (simp add: demo_sealed_def demo_channel_config_def)
qed

theorem sealed_nodes_agree_witness:
  "\<exists>h bc bc'. build_channel demo_config_api (demo_channel_config h 0) demo_sealed (fst (demo_fed ! 0))
       (kg_public_key (cp_keys demo_config_api) (fst (demo_fed ! 0))) demo_keys 7 = Ok bc \<and>
     build_channel demo_config_api (demo_channel_config h 2) demo_sealed (fst (demo_fed ! 2))
       (kg_public_key (cp_keys demo_config_api) (fst (demo_fed ! 2))) demo_keys 7 = Ok bc' \<and> ce_nodes (bc_env bc) = ce_nodes (bc_env bc')"
proof -
  obtain h where h: "ceremony_manifest_hash demo_config_api Some demo_sealed (cer_nodes demo_config_api demo_fed)
      (map (\<lambda>m. channel_key_of demo_config_api (fst m)) demo_fed) = Ok h" "length h = 32"
    using demo_sealed_hash by blast
  from demo_node_boots [OF h, of 0] obtain bc where bc: "build_channel demo_config_api (demo_channel_config h 0) demo_sealed (fst (demo_fed ! 0))
       (kg_public_key (cp_keys demo_config_api) (fst (demo_fed ! 0))) demo_keys 7 = Ok bc" "ce_manifest_hash (bc_env bc) = h"
    "ce_nodes (bc_env bc) = map (cer_member demo_config_api demo_fed) [0..<length demo_fed]" by auto
  from demo_node_boots [OF h, of 2] obtain bc' where bc': "build_channel demo_config_api (demo_channel_config h 2) demo_sealed (fst (demo_fed ! 2))
       (kg_public_key (cp_keys demo_config_api) (fst (demo_fed ! 2))) demo_keys 7 = Ok bc'" "ce_manifest_hash (bc_env bc') = h"
    "ce_nodes (bc_env bc') = map (cer_member demo_config_api demo_fed) [0..<length demo_fed]" by auto
  have "ce_nodes (bc_env bc) = ce_nodes (bc_env bc')"
    using sealed_nodes_agree [OF bc(1) bc'(1)] demo_manifest_ok [OF bc(3)] demo_manifest_ok [OF bc'(3)] bc(2,3) bc'(2,3)
    by (simp add: built_manifest_def demo_channel_config_def)
  with bc(1) bc'(1) show ?thesis by blast
qed

end
