(* ===== verification/Node_Config.thy ===== *)
theory Node_Config
  imports Channel_Build Node_Machine
begin

text \<open>
  The start of a node, \<open>crates/vault-node/src/lib.rs\<close>: the configuration file with its defaults,
  \<open>Node::from_toml_str\<close> with every check in its order, and \<open>Node::load\<close> around it. The TOML parser, the
  descriptor parsers and the curve are arguments (\<open>load_api\<close>, and \<open>config_api\<close> of \<^theory_text>\<open>Channel_Build\<close>); the
  functions a running node calls in its libraries come with the argument \<open>lib\<close>, a node whose configured
  fields are all replaced. The detail texts of the errors are not modelled.
\<close>

subsection \<open>The configuration file\<close>

record pin_attempt_budget_config =
  pc_max_attempts :: "nat option"
  pc_window_secs :: "u64 option"
  pc_backoff_schedule :: "u64 list option"
  pc_lockout_secs :: "u64 option"

record chain_backend_config =
  cb_rpc_addr :: string
  cb_auth :: string

text \<open>A field the schema gives a default is an option.\<close>

record config_file =
  cf_listen_port :: "16 word"
  cf_node_key_salt :: string
  cf_node_key_ops :: "32 word"
  cf_node_key_mem_kib :: "32 word"
  cf_descriptor :: string
  cf_allowlist :: "string list"
  cf_escape_descriptor :: string
  cf_max_derivation_index :: "32 word"
  cf_hold_secs :: u64
  cf_hot_max_per_tx :: u64
  cf_hot_max_per_window :: u64
  cf_hot_window_secs :: u64
  cf_combine_slack_secs :: "u64 option"
  cf_max_commitment_age_secs :: u64
  cf_refresh_min_interval_secs :: "u64 option"
  cf_refresh_max_feerate :: "u64 option"
  cf_duress_delay_secs :: "u64 option"
  cf_epsilon_secs :: "u64 option"
  cf_delivery_horizon_secs :: "u64 option"
  cf_escape_coverage_pct :: "byte option"
  cf_escape_feerate_floor :: "u64 option"
  cf_protocol_version :: "32 word"
  cf_escape_bump_max_fee_pct :: byte
  cf_network :: string
  cf_policy_version :: "32 word"
  cf_pin_normal_hash :: string
  cf_pin_duress_hash :: string
  cf_pin_attempt_budget :: "pin_attempt_budget_config option"
  cf_coordinator_auth_pubkey :: string
  cf_chain_backend :: "chain_backend_config option"
  cf_channel :: "channel_config option"

definition or_default :: "'a \<Rightarrow> 'a option \<Rightarrow> 'a" where
  "or_default d v = (case v of None \<Rightarrow> d | Some x \<Rightarrow> x)"

definition DEFAULT_ESCAPE_COVERAGE_PCT :: byte where "DEFAULT_ESCAPE_COVERAGE_PCT = 95"
definition DEFAULT_ESCAPE_FEERATE_FLOOR :: u64 where "DEFAULT_ESCAPE_FEERATE_FLOOR = 1"
definition DEFAULT_ESCAPE_BUMP_MAX_FEE_PCT :: byte where "DEFAULT_ESCAPE_BUMP_MAX_FEE_PCT = 0"

definition cfg_combine_slack_secs :: "config_file \<Rightarrow> u64" where "cfg_combine_slack_secs c = or_default 60 (cf_combine_slack_secs c)"
definition cfg_refresh_min_interval_secs :: "config_file \<Rightarrow> u64" where "cfg_refresh_min_interval_secs c = or_default 2592000 (cf_refresh_min_interval_secs c)"
definition cfg_refresh_max_feerate :: "config_file \<Rightarrow> u64" where "cfg_refresh_max_feerate c = or_default 100 (cf_refresh_max_feerate c)"
definition cfg_duress_delay_secs :: "config_file \<Rightarrow> u64" where "cfg_duress_delay_secs c = or_default 0 (cf_duress_delay_secs c)"
definition cfg_epsilon_secs :: "config_file \<Rightarrow> u64" where "cfg_epsilon_secs c = or_default 60 (cf_epsilon_secs c)"
definition cfg_delivery_horizon_secs :: "config_file \<Rightarrow> u64" where "cfg_delivery_horizon_secs c = or_default 60 (cf_delivery_horizon_secs c)"
definition cfg_escape_coverage_pct :: "config_file \<Rightarrow> byte" where "cfg_escape_coverage_pct c = or_default DEFAULT_ESCAPE_COVERAGE_PCT (cf_escape_coverage_pct c)"
definition cfg_escape_feerate_floor :: "config_file \<Rightarrow> u64" where "cfg_escape_feerate_floor c = or_default DEFAULT_ESCAPE_FEERATE_FLOOR (cf_escape_feerate_floor c)"

definition pin_attempt_budget_default :: pin_attempt_budget_config where
  "pin_attempt_budget_default = \<lparr>pc_max_attempts = None, pc_window_secs = None, pc_backoff_schedule = None, pc_lockout_secs = None\<rparr>"

definition pin_budget_of :: "config_file \<Rightarrow> pin_budget_config" where
  "pin_budget_of c =
     (let b = or_default pin_attempt_budget_default (cf_pin_attempt_budget c) in
      \<lparr>max_attempts = or_default 5 (pc_max_attempts b), pb_window_secs = or_default 3600 (pc_window_secs b),
       backoff_schedule = or_default [0] (pc_backoff_schedule b), lockout_secs = or_default 900 (pc_lockout_secs b)\<rparr>)"

definition hot_budget_of :: "config_file \<Rightarrow> hot_budget" where
  "hot_budget_of c = \<lparr>max_per_tx_sat = cf_hot_max_per_tx c, max_per_window_sat = cf_hot_max_per_window c, window_secs = cf_hot_window_secs c\<rparr>"

subsection \<open>Loading\<close>

record 'd load_api =
  la_conf :: config_api
  la_desc :: "'d desc_api"
  la_argon2 :: argon2_api
  la_key :: "pubkey key_api"
  la_declared_version :: "string \<Rightarrow> 32 word option option"
  la_toml :: "string \<Rightarrow> config_file option"
  la_parse_descriptor :: "string \<Rightarrow> pubkey ms_descriptor option"
  la_show_descriptor :: "pubkey ms_descriptor \<Rightarrow> string"
  la_explicit_script :: "pubkey ms_descriptor \<Rightarrow> script option"
  la_max_weight :: "pubkey ms_descriptor \<Rightarrow> u64 option"
  la_parse_wallet :: "string \<Rightarrow> 'd option"
  la_show_wallet :: "'d \<Rightarrow> string"

datatype config_error =
    BadToml | WrongVersion "32 word option" | UnsupportedName string | BadNodeKey key_error | BadCoordinatorKey key_error
  | BadVaultDescriptor | BadTemplate template_error | KeyNotInVault | ThresholdTooLow nat | NotMajority nat nat
  | CoordinatorIsUser | CoordinatorIsNode | CoordinatorIsChannel | ChannelDerivationPanic | NoWitnessScript | NoWeightBound
  | BadAllowlistEntry string | BadEscapeDescriptor | WrongKind kind_error
  | HoldNotBelowAge | WindowBelowAge | ZeroHotCap | TxCapAboveWindow | SlackTooShort | ZeroRefreshInterval | EpsilonTooLarge
  | DelayTooLarge | BadHorizon | BadCoverage | CoverageLeavesNoFee | ExpiryFloorAboveCap | EscapeNotAllowed
  | BadPinDigests pin_config_error | NoEntropy | BadPinBudget budget_config_error | BadBackendAddress | ChannelNeedsBackend
  | BadChannel build_error

definition require :: "bool \<Rightarrow> 'e \<Rightarrow> 'e + unit" where
  "require b e = (if b then Ok () else Err e)"

definition or_err :: "'e \<Rightarrow> 'a option \<Rightarrow> 'e + 'a" where
  "or_err e v = (case v of None \<Rightarrow> Err e | Some x \<Rightarrow> Ok x)"

definition version_preflight :: "'d load_api \<Rightarrow> string \<Rightarrow> config_error + unit" where
  "version_preflight api raw =
     bind_res (or_err BadToml (la_declared_version api raw)) (\<lambda>declared.
       require (declared = Some PROTOCOL_VERSION) (WrongVersion declared))"

record loaded_keys =
  lk_network :: network
  lk_seckey :: bytes
  lk_pubkey :: pubkey
  lk_coordinator :: pubkey
  lk_descriptor :: "pubkey ms_descriptor"
  lk_template :: "pubkey vault_template"

text \<open>The key, the coordinator and the vault descriptor, up to the check that the key is one of the vault's.\<close>

definition load_keys :: "'d load_api \<Rightarrow> config_file \<Rightarrow> bytes \<Rightarrow> config_error + loaded_keys \<times> 'd" where
  "load_keys api c preimage =
     (let keys = cp_keys (la_conf api); inner = cp_inner (la_conf api) in
      bind_res (or_err (UnsupportedName (cf_network c)) (parse_vault_network (cf_network c))) (\<lambda>net.
      bind_res (map_err BadNodeKey (from_hex_salt keys (cf_node_key_salt c) (cf_node_key_ops c) (cf_node_key_mem_kib c))) (\<lambda>kdf.
      bind_res (map_err BadNodeKey (derive_node_key keys preimage kdf)) (\<lambda>seckey.
      let pubkey = kg_public_key keys seckey in
      bind_res (map_err BadCoordinatorKey (parse_compressed_pubkey keys (cf_coordinator_auth_pubkey c))) (\<lambda>coordinator.
      bind_res (or_err BadVaultDescriptor (la_parse_descriptor api (cf_descriptor c))) (\<lambda>descriptor.
      bind_res (or_err BadVaultDescriptor (la_parse_wallet api (cf_descriptor c))) (\<lambda>vlt.
      bind_res (map_err BadTemplate (parse_vault_template (la_key api) descriptor)) (\<lambda>template.
      bind_res (require (list_ex (\<lambda>key. inner key = inner pubkey) (vt_node_keys template)) KeyNotInVault) (\<lambda>_.
        Ok (\<lparr>lk_network = net, lk_seckey = seckey, lk_pubkey = pubkey, lk_coordinator = coordinator, lk_descriptor = descriptor,
              lk_template = template\<rparr>, vlt))))))))))"

text \<open>The shape of a channel federation and the separation of the roles.\<close>

definition check_federation :: "'d load_api \<Rightarrow> config_file \<Rightarrow> loaded_keys \<Rightarrow> config_error + unit" where
  "check_federation api c lk =
     (let keys = cp_keys (la_conf api); inner = cp_inner (la_conf api);
          t = vt_threshold (lk_template lk); node_keys = vt_node_keys (lk_template lk); has_channel = (cf_channel c \<noteq> None) in
      bind_res (require (\<not> (has_channel \<and> t < 2)) (ThresholdTooLow t)) (\<lambda>_.
      bind_res (require (\<not> (has_channel \<and> length node_keys \<noteq> sat_mul64 t 2 - 1)) (NotMajority t (length node_keys))) (\<lambda>_.
      bind_res (require (inner (lk_coordinator lk) \<noteq> inner (vt_user_key (lk_template lk))) CoordinatorIsUser) (\<lambda>_.
      bind_res (require (\<not> list_ex (\<lambda>key. inner key = inner (lk_coordinator lk)) node_keys) CoordinatorIsNode) (\<lambda>_.
      bind_res (or_err ChannelDerivationPanic (derive_channel_seckey keys (lk_seckey lk))) (\<lambda>csk.
        require (inner (channel_pubkey_of keys csk) \<noteq> inner (lk_coordinator lk)) CoordinatorIsChannel))))))"

record 'd destinations =
  ds_allowed :: "'d list"
  ds_escape :: 'd

fun parse_allowlist :: "'d load_api \<Rightarrow> string list \<Rightarrow> config_error + 'd list" where
  "parse_allowlist api [] = Ok []"
| "parse_allowlist api (e # es) =
     bind_res (or_err (BadAllowlistEntry e) (la_parse_wallet api e)) (\<lambda>d.
     bind_res (parse_allowlist api es) (\<lambda>ds. Ok (d # ds)))"

definition load_destinations :: "'d load_api \<Rightarrow> config_file \<Rightarrow> network \<Rightarrow> config_error + 'd destinations" where
  "load_destinations api c net =
     bind_res (parse_allowlist api (cf_allowlist c)) (\<lambda>alws.
     bind_res (or_err BadEscapeDescriptor (la_parse_wallet api (cf_escape_descriptor c))) (\<lambda>esc.
     bind_res (map_err WrongKind (check_descriptor_network_kind (la_desc api) ''escape'' esc net)) (\<lambda>_.
     bind_res (for_each (\<lambda>d. map_err WrongKind (check_descriptor_network_kind (la_desc api) ''hot allowlist'' d net)) alws) (\<lambda>_.
       Ok \<lparr>ds_allowed = alws, ds_escape = esc\<rparr>))))"

definition SCAN_INTERVAL_SECS :: u64 where "SCAN_INTERVAL_SECS = 10"

definition check_limits :: "config_file \<Rightarrow> config_error + unit" where
  "check_limits c =
     (let age = cf_max_commitment_age_secs c; slack = cfg_combine_slack_secs c in
      if cf_hold_secs c \<ge> age then Err HoldNotBelowAge
      else if cf_hot_window_secs c < age then Err WindowBelowAge
      else if cf_hot_max_per_tx c = 0 \<or> cf_hot_max_per_window c = 0 then Err ZeroHotCap
      else if cf_hot_max_per_tx c > cf_hot_max_per_window c then Err TxCapAboveWindow
      else if slack < 2 * SCAN_INTERVAL_SECS then Err SlackTooShort
      else if cfg_refresh_min_interval_secs c = 0 then Err ZeroRefreshInterval
      else if cfg_epsilon_secs c > age then Err EpsilonTooLarge
      else if cfg_duress_delay_secs c > age then Err DelayTooLarge
      else if cf_channel c \<noteq> None \<and> (cfg_delivery_horizon_secs c = 0 \<or> cfg_delivery_horizon_secs c \<ge> age) then Err BadHorizon
      else if cfg_escape_coverage_pct c = 0 \<or> cfg_escape_coverage_pct c > 100 then Err BadCoverage
      else if cfg_escape_coverage_pct c = 100 \<and> cfg_escape_feerate_floor c > 0 then Err CoverageLeavesNoFee
      else if sat_add64 (cf_hold_secs c) slack > age then Err ExpiryFloorAboveCap
      else Ok ())"

text \<open>\<open>urandom\<close> is the outcome of the read of 32 random bytes.\<close>

definition load_pins :: "'d load_api \<Rightarrow> config_file \<Rightarrow> bytes option \<Rightarrow> config_error + carrier_kdf \<times> attempt_budget" where
  "load_pins api c urandom =
     bind_res (map_err BadPinDigests (validate_digests (la_argon2 api) (cf_pin_normal_hash c) (cf_pin_duress_hash c))) (\<lambda>_.
     bind_res (or_err NoEntropy urandom) (\<lambda>salt.
     bind_res (map_err BadPinDigests (carrier_kdf_new (la_argon2 api) (cf_pin_normal_hash c) (cf_pin_duress_hash c) salt)) (\<lambda>kdf.
     bind_res (map_err BadPinBudget (pin_budget_validate (pin_budget_of c))) (\<lambda>_.
     bind_res (map_err BadPinBudget (attempt_budget_new (max_attempts (pin_budget_of c)))) (\<lambda>pin_budget.
       Ok (kdf, pin_budget))))))"

text \<open>\<open>CarrierKdf::derive_locked\<close>: the \<open>expect\<close> is a panic.\<close>

definition derive_locked :: "argon2_api \<Rightarrow> carrier_kdf \<Rightarrow> digest \<Rightarrow> bytes option" where
  "derive_locked api kdf dg = hash_into api Argon2id (kdf_version kdf) (kdf_params kdf) dg (kdf_salt kdf) 32"

definition sealed_values_of :: "'d load_api \<Rightarrow> config_file \<Rightarrow> loaded_keys \<Rightarrow> bytes \<Rightarrow> 'd destinations \<Rightarrow> channel_config \<Rightarrow> sealed_values" where
  "sealed_values_of api c lk wallet ds cfg =
     (let esc = la_show_wallet api (ds_escape ds) in
      \<lparr>sv_wallet_id = wallet, sv_coordinator_auth = lk_coordinator lk, sv_max_msg_bytes = cc_max_msg_bytes cfg,
       sv_hot_budget = hot_budget_of c, sv_hot_allowlist = filter (\<lambda>d. d \<noteq> esc) (map (la_show_wallet api) (ds_allowed ds)),
       sv_escape_descriptor = esc, sv_max_derivation_index = cf_max_derivation_index c, sv_escape_feerate_floor = cfg_escape_feerate_floor c,
       sv_escape_coverage_pct = cfg_escape_coverage_pct c, sv_escape_bump_max_fee_pct = cf_escape_bump_max_fee_pct c, sv_network = lk_network lk\<rparr>)"

text \<open>The channel of the configuration; \<open>None\<close> without a \<open>[channel]\<close> block.\<close>

definition load_channel ::
  "'d load_api \<Rightarrow> config_file \<Rightarrow> loaded_keys \<Rightarrow> bytes \<Rightarrow> 'd destinations \<Rightarrow> config_error + built_channel option" where
  "load_channel api c lk wallet ds =
     (case cf_channel c of
        None \<Rightarrow> Ok None
      | Some cfg \<Rightarrow>
          (case build_channel (la_conf api) cfg (sealed_values_of api c lk wallet ds cfg) (lk_seckey lk) (lk_pubkey lk)
                  (vt_node_keys (lk_template lk)) (cf_listen_port c) of
             Inl e \<Rightarrow> Err (BadChannel e)
           | Inr bc \<Rightarrow> Ok (Some bc)))"

definition load_backend :: "'d load_api \<Rightarrow> config_file \<Rightarrow> config_error + (string \<times> string) option" where
  "load_backend api c =
     (case cf_chain_backend c of
        None \<Rightarrow> if cf_channel c \<noteq> None then Err ChannelNeedsBackend else Ok None
      | Some cb \<Rightarrow> (case cp_socket (la_conf api) (cb_rpc_addr cb) of None \<Rightarrow> Err BadBackendAddress | Some a \<Rightarrow> Ok (Some (a, cb_auth cb))))"

subsection \<open>The node\<close>

definition configured_node ::
  "'d load_api \<Rightarrow> 'd node \<Rightarrow> config_file \<Rightarrow> loaded_keys \<Rightarrow> 'd \<Rightarrow> script \<Rightarrow> u64 \<Rightarrow> bytes \<Rightarrow> 'd destinations \<Rightarrow> carrier_kdf \<Rightarrow> built_channel option \<Rightarrow> 'd node" where
  "configured_node api lib c lk vlt wscript weight wallet ds kdf chan = lib\<lparr>
     nd_desc := la_desc api, nd_sig := cp_sig (la_conf api), nd_sign_ecdsa := cp_sign (la_conf api) (lk_seckey lk),
     nd_pin_evaluator := argon2_evaluate (la_argon2 api) (cf_pin_normal_hash c) (cf_pin_duress_hash c),
     nd_carrier_kdf := (\<lambda>d. the (derive_locked (la_argon2 api) kdf d)),
     nd_pubkey := lk_pubkey lk, nd_user_pubkey := vt_user_key (lk_template lk), nd_witness_script := wscript,
     nd_check_params := \<lparr>vault = vlt, allowed = ds_allowed ds, escape = Some (ds_escape ds),
       max_derivation_index = unat (cf_max_derivation_index c), hot_max_per_tx = cf_hot_max_per_tx c\<rparr>,
     nd_pin_budget_config := pin_budget_of c, nd_coordinator_auth := lk_coordinator lk, nd_wallet_id := wallet,
     nd_policy_version := cf_policy_version c, nd_max_commitment_age_secs := cf_max_commitment_age_secs c, nd_hold_secs := cf_hold_secs c,
     nd_combine_slack_secs := cfg_combine_slack_secs c, nd_hot_budget := hot_budget_of c, nd_threshold := vt_threshold (lk_template lk),
     nd_max_vault_satisfaction_weight := weight, nd_refresh_min_interval_secs := cfg_refresh_min_interval_secs c,
     nd_refresh_max_feerate := cfg_refresh_max_feerate c, nd_duress_delay_secs := cfg_duress_delay_secs c, nd_epsilon_secs := cfg_epsilon_secs c,
     nd_delivery_horizon_secs := cfg_delivery_horizon_secs c, nd_escape_coverage_pct := unat (cfg_escape_coverage_pct c),
     nd_escape_feerate_floor := cfg_escape_feerate_floor c, nd_network := lk_network lk,
     nd_env := (case chan of None \<Rightarrow> nd_env lib | Some bc \<Rightarrow> bc_env bc),
     nd_max_msg_bytes := (case chan of None \<Rightarrow> nd_max_msg_bytes lib | Some bc \<Rightarrow> bc_max_msg_bytes bc)\<rparr>"

definition fresh_state :: "attempt_budget \<Rightarrow> built_channel option \<Rightarrow> node_state" where
  "fresh_state pin_budget chan = \<lparr>ns_lockdown = False, ns_lifecycle = None, ns_duress_arm = 0, ns_spend_preflight = 0,
     ns_last_deadline_tick = 0, ns_generation_claimed = False,
     ns_sign = \<lparr>ss_replay = [], ss_pending = [], ss_coord_nonces = nonce_log_default, ss_refreshes = [], ss_pin_budget = pin_budget\<rparr>,
     ns_sign_poisoned = False, ns_authorized = [], ns_channel = map_option bc_state chan, ns_store_poisoned = False, ns_outbox = []\<rparr>"

definition wallet_id_of :: "'d load_api \<Rightarrow> loaded_keys \<Rightarrow> bytes" where
  "wallet_id_of api lk = kg_sha256 (cp_keys (la_conf api)) (str_bytes (la_show_descriptor api (lk_descriptor lk)))"

definition from_toml_str :: "'d load_api \<Rightarrow> 'd node \<Rightarrow> string \<Rightarrow> bytes \<Rightarrow> bytes option \<Rightarrow> config_error + 'd node \<times> node_state" where
  "from_toml_str api lib raw preimage urandom =
     bind_res (version_preflight api raw) (\<lambda>_.
     bind_res (or_err BadToml (la_toml api raw)) (\<lambda>c.
     bind_res (load_keys api c preimage) (\<lambda>(lk, vlt).
     bind_res (check_federation api c lk) (\<lambda>_.
     bind_res (or_err NoWitnessScript (la_explicit_script api (lk_descriptor lk))) (\<lambda>wscript.
     bind_res (or_err NoWeightBound (la_max_weight api (lk_descriptor lk))) (\<lambda>weight.
     let wallet = wallet_id_of api lk in
     bind_res (load_destinations api c (lk_network lk)) (\<lambda>ds.
     bind_res (check_limits c) (\<lambda>_.
     bind_res (require (list_ex (\<lambda>d. la_show_wallet api d = la_show_wallet api (ds_escape ds)) (ds_allowed ds)) EscapeNotAllowed) (\<lambda>_.
     bind_res (load_pins api c urandom) (\<lambda>(kdf, pin_budget).
     bind_res (load_backend api c) (\<lambda>_.
     bind_res (load_channel api c lk wallet ds) (\<lambda>chan.
       Ok (configured_node api lib c lk vlt wscript weight wallet ds kdf chan, fresh_state pin_budget chan)))))))))))))"

definition require_channel_mode :: "node_state \<Rightarrow> bool" where
  "require_channel_mode ns \<longleftrightarrow> ns_channel ns \<noteq> None"

datatype load_error =
    ConfigUnreadable | DurableStorage | NoPreimage key_error | BadConfig config_error | ChannelRequired | LatchFailure lifecycle_error

text \<open>What the system calls of the start gave: the opened file and its contents, the storage kind, the input,
  the random bytes and the outcomes of the latch.\<close>

record startup =
  su_opened :: bool
  su_f_type :: "int option"
  su_enforcement_off :: bool
  su_contents :: "string option"
  su_stdin :: "read_event list"
  su_tty :: bool
  su_echo_off :: bool
  su_urandom :: "bytes option"
  su_file :: lifecycle_file
  su_latch_read :: "lifecycle_error + bytes option"
  su_latch_create :: latch_create
  su_latch_sync :: bool

definition node_load :: "'d load_api \<Rightarrow> 'd node \<Rightarrow> startup \<Rightarrow> load_error + 'd node \<times> node_state" where
  "node_load api lib su =
     bind_res (require (su_opened su) ConfigUnreadable) (\<lambda>_.
     bind_res (require (assert_volatile_storage (su_f_type su) (su_enforcement_off su)) DurableStorage) (\<lambda>_.
     bind_res (or_err ConfigUnreadable (su_contents su)) (\<lambda>raw.
     bind_res (map_err NoPreimage (fst (read_from_stdin (cp_keys (la_conf api)) (su_tty su) (su_echo_off su) (su_stdin su)))) (\<lambda>preimage.
     bind_res (map_err BadConfig (from_toml_str api lib raw preimage (su_urandom su))) (\<lambda>(node, ns).
     bind_res (require (require_channel_mode ns) ChannelRequired) (\<lambda>_.
     bind_res (map_err LatchFailure (apply_persisted_lockdown (su_latch_read su) (su_latch_create su) (su_latch_sync su) (su_file su) ns)) (\<lambda>ns'.
       Ok (node, ns'))))))))"

subsection \<open>What a loaded node is\<close>

lemma load_res_Ok_iff [simp]:
  "require b e = Inr u \<longleftrightarrow> b" "or_err e v = Inr x \<longleftrightarrow> v = Some x"
  by (auto simp: require_def or_err_def split: option.splits)

lemma from_toml_str_Ok:
  assumes "from_toml_str api lib raw preimage urandom = Ok (node, ns)"
  obtains c lk vlt wscript weight ds kdf b chan where
    "load_keys api c preimage = Ok (lk, vlt)" "check_federation api c lk = Ok ()" "load_destinations api c (lk_network lk) = Ok ds"
    "check_limits c = Ok ()" "load_pins api c urandom = Ok (kdf, b)" "load_channel api c lk (wallet_id_of api lk) ds = Ok chan"
    "list_ex (\<lambda>d. la_show_wallet api d = la_show_wallet api (ds_escape ds)) (ds_allowed ds)"
    "node = configured_node api lib c lk vlt wscript weight (wallet_id_of api lk) ds kdf chan" "ns = fresh_state b chan"
    "la_toml api raw = Some c" "la_declared_version api raw = Some (Some PROTOCOL_VERSION)"
  using assms that by (auto simp: from_toml_str_def version_preflight_def Let_def bind_res_Ok_iff)

lemma node_load_Ok:
  assumes "node_load api lib su = Ok (node, ns)"
  obtains raw preimage ns0 f where "from_toml_str api lib raw preimage (su_urandom su) = Ok (node, ns0)" "ns_channel ns0 \<noteq> None"
    "ns = ns0\<lparr>ns_lockdown := ns_lockdown ns, ns_lifecycle := Some f\<rparr>" "ns_lockdown ns0 \<longrightarrow> ns_lockdown ns"
    "assert_volatile_storage (su_f_type su) (su_enforcement_off su)"
  using assms that
  by (auto simp: node_load_def apply_persisted_lockdown_def require_channel_mode_def bind_res_Ok_iff split: option.splits latch_create.splits if_splits prod.splits)

text \<open>What the parsed keys satisfy.\<close>

lemma load_keys_Ok:
  assumes "load_keys api c preimage = Ok (lk, vlt)"
  shows "parse_vault_template (la_key api) (lk_descriptor lk) = Ok (lk_template lk)"
    "\<exists>key \<in> set (vt_node_keys (lk_template lk)). cp_inner (la_conf api) key = cp_inner (la_conf api) (lk_pubkey lk)"
    "lk_pubkey lk = kg_public_key (cp_keys (la_conf api)) (lk_seckey lk)" "parse_vault_network (cf_network c) = Some (lk_network lk)"
  using assms by (auto simp: load_keys_def Let_def bind_res_Ok_iff list_ex_iff)

lemma check_federation_Ok:
  assumes "check_federation api c lk = Ok ()"
  shows "cf_channel c \<noteq> None \<Longrightarrow> 2 \<le> vt_threshold (lk_template lk)"
    "cf_channel c \<noteq> None \<Longrightarrow> length (vt_node_keys (lk_template lk)) = sat_mul64 (vt_threshold (lk_template lk)) 2 - 1"
    "cp_inner (la_conf api) (lk_coordinator lk) \<noteq> cp_inner (la_conf api) (vt_user_key (lk_template lk))"
    "\<forall>key \<in> set (vt_node_keys (lk_template lk)). cp_inner (la_conf api) key \<noteq> cp_inner (la_conf api) (lk_coordinator lk)"
  using assms by (auto simp: check_federation_def Let_def bind_res_Ok_iff list_ex_iff)




text \<open>Two nodes with the same curve point are the same member of the federation.\<close>

lemma load_channel_Ok:
  assumes "load_channel api c lk wallet ds = Ok (Some bc)"
  obtains cfg where "cf_channel c = Some cfg"
    "build_channel (la_conf api) cfg (sealed_values_of api c lk wallet ds cfg) (lk_seckey lk) (lk_pubkey lk) (vt_node_keys (lk_template lk)) (cf_listen_port c) = Ok bc"
  using assms that by (auto simp: load_channel_def split: option.splits sum.splits)

text \<open>Everything the start of a node passed through.\<close>

lemma loaded_parts:
  assumes "node_load api lib su = Ok (node, ns)"
  obtains c preimage lk vlt wscript weight ds kdf b cfg bc f where
    "load_keys api c preimage = Ok (lk, vlt)" "check_federation api c lk = Ok ()" "check_limits c = Ok ()" "load_pins api c (su_urandom su) = Ok (kdf, b)"
    "cf_channel c = Some cfg"
    "build_channel (la_conf api) cfg (sealed_values_of api c lk (wallet_id_of api lk) ds cfg) (lk_seckey lk) (lk_pubkey lk)
       (vt_node_keys (lk_template lk)) (cf_listen_port c) = Ok bc"
    "node = configured_node api lib c lk vlt wscript weight (wallet_id_of api lk) ds kdf (Some bc)"
    "ns = (fresh_state b (Some bc))\<lparr>ns_lockdown := ns_lockdown ns, ns_lifecycle := Some f\<rparr>"
    "assert_volatile_storage (su_f_type su) (su_enforcement_off su)"
proof -
  from assms obtain raw preimage ns0 f where toml: "from_toml_str api lib raw preimage (su_urandom su) = Ok (node, ns0)" and ch: "ns_channel ns0 \<noteq> None"
    and ns: "ns = ns0\<lparr>ns_lockdown := ns_lockdown ns, ns_lifecycle := Some f\<rparr>" and v: "assert_volatile_storage (su_f_type su) (su_enforcement_off su)"
    by (rule node_load_Ok)
  from toml obtain c lk vlt wscript weight ds kdf b chan where parts: "load_keys api c preimage = Ok (lk, vlt)" "check_federation api c lk = Ok ()"
      "check_limits c = Ok ()" "load_pins api c (su_urandom su) = Ok (kdf, b)"
    and lc: "load_channel api c lk (wallet_id_of api lk) ds = Ok chan" and ns0: "ns0 = fresh_state b chan"
    and node: "node = configured_node api lib c lk vlt wscript weight (wallet_id_of api lk) ds kdf chan" by (rule from_toml_str_Ok)
  from ch ns0 obtain bc where bc: "chan = Some bc" by (auto simp: fresh_state_def)
  from lc [unfolded bc] obtain cfg where "cf_channel c = Some cfg" "build_channel (la_conf api) cfg (sealed_values_of api c lk (wallet_id_of api lk) ds cfg)
      (lk_seckey lk) (lk_pubkey lk) (vt_node_keys (lk_template lk)) (cf_listen_port c) = Ok bc" by (rule load_channel_Ok)
  with that parts ns [unfolded ns0 bc] node [unfolded bc] v show thesis by blast
qed

lemma majority_meets:
  assumes "Q \<subseteq> set nodes" "R \<subseteq> set nodes" "t \<le> card Q" "t \<le> card R" "length nodes = 2 * t - 1" "2 \<le> (t :: nat)"
  shows "Q \<inter> R \<noteq> {}"
proof
  assume "Q \<inter> R = {}"
  then have "card Q + card R = card (Q \<union> R)" using assms(1,2) by (simp add: card_Un_disjoint finite_subset [OF _ finite_set])
  also have "\<dots> \<le> length nodes" using assms(1,2) card_mono [of "set nodes" "Q \<union> R"] card_length [of nodes] by simp
  finally show False using assms(3-6) by linarith
qed

lemma minority_leaves_quorum:
  assumes "W \<subseteq> set nodes" "card W < t" "distinct nodes" "length nodes = 2 * t - (1 :: nat)"
  shows "t \<le> card (set nodes - W)"
  using assms card_Diff_subset [of W "set nodes"] finite_subset [OF assms(1)] distinct_card [OF assms(3)] by simp

text \<open>C12: a node that starts is a member of an honest-majority federation with separate roles. Its threshold \<open>t\<close>
  is at least 2 and it has \<open>2 t - 1\<close> distinct peers including itself, so two signing quorums always share a node
  and \<open>t - 1\<close> silent nodes leave a quorum; its own entry is its own key; the members are exactly the node keys of
  the vault descriptor; and the coordinator's key is, as a point of the curve, neither the user's nor a signing or
  channel key of any member.\<close>

theorem loaded_federation_shape:
  assumes "node_load api lib su = Ok (node, ns)"
  defines "nodes \<equiv> ce_nodes (nd_env node)" and "t \<equiv> nd_threshold node" and "pt \<equiv> cp_inner (la_conf api)"
  assumes "t < 2 ^ 63"
  shows "2 \<le> t \<and> length nodes = 2 * t - 1 \<and> distinct nodes \<and>
    (\<forall>Q R. Q \<subseteq> set nodes \<and> R \<subseteq> set nodes \<and> t \<le> card Q \<and> t \<le> card R \<longrightarrow> Q \<inter> R \<noteq> {}) \<and>
    (\<forall>W. W \<subseteq> set nodes \<and> card W < t \<longrightarrow> t \<le> card (set nodes - W)) \<and>
    unat (ce_node_id (nd_env node)) < length nodes \<and> mn_signing_pubkey (nodes ! unat (ce_node_id (nd_env node))) = nd_pubkey node \<and>
    (\<forall>m \<in> set nodes. pt (mn_signing_pubkey m) \<noteq> pt (nd_coordinator_auth node) \<and> pt (mn_channel_pubkey m) \<noteq> pt (nd_coordinator_auth node)) \<and>
    pt (nd_user_pubkey node) \<noteq> pt (nd_coordinator_auth node) \<and>
    (\<exists>d tpl. parse_vault_template (la_key api) d = Ok tpl \<and> vt_threshold tpl = t \<and> vt_user_key tpl = nd_user_pubkey node \<and>
       set (vt_node_keys tpl) = mn_signing_pubkey ` set nodes)"
proof -
  from assms(1) obtain c preimage lk vlt wscript weight ds kdf b cfg bc f where k: "load_keys api c preimage = Ok (lk, vlt)"
    and fed: "check_federation api c lk = Ok ()" and cf: "cf_channel c = Some cfg"
    and built: "build_channel (la_conf api) cfg (sealed_values_of api c lk (wallet_id_of api lk) ds cfg) (lk_seckey lk) (lk_pubkey lk)
        (vt_node_keys (lk_template lk)) (cf_listen_port c) = Ok bc"
    and node: "node = configured_node api lib c lk vlt wscript weight (wallet_id_of api lk) ds kdf (Some bc)"
    by (rule loaded_parts)
  have n: "nodes = ce_nodes (bc_env bc)" "t = vt_threshold (lk_template lk)" "nd_env node = bc_env bc" "nd_coordinator_auth node = lk_coordinator lk"
    "nd_user_pubkey node = vt_user_key (lk_template lk)" "nd_pubkey node = lk_pubkey lk"
    by (simp_all add: nodes_def t_def node configured_node_def)
  have sv: "sv_coordinator_auth (sealed_values_of api c lk w ds cfg) = lk_coordinator lk" for w by (simp add: sealed_values_of_def Let_def)
  note mem = build_channel_Ok(1) [OF built, unfolded sv]
  have t2: "2 \<le> t" and len: "length nodes = 2 * t - 1"
    using check_federation_Ok(1,2) [OF fed] cf membership_Ok(1) [OF mem] assms(5) n
    by (auto simp: sat_mul64_def u64_max_def min_def split: if_splits)
  have "distinct (map (\<lambda>m. unat (mn_node_id m)) nodes)" using membership_keys(2) [OF mem] n by simp
  then have d: "distinct nodes" by (simp add: distinct_map)
  have keys: "set (map mn_signing_pubkey nodes) = set (vt_node_keys (lk_template lk))" using membership_keys(1) [OF mem] n by simp
  have sep: "\<forall>m \<in> set nodes. pt (mn_signing_pubkey m) \<noteq> pt (lk_coordinator lk) \<and> pt (mn_channel_pubkey m) \<noteq> pt (lk_coordinator lk)"
    using keys check_federation_Ok(4) [OF fed] membership_keys(3) [OF mem] n by (auto simp: pt_def)
  have "\<exists>d tpl. parse_vault_template (la_key api) d = Ok tpl \<and> vt_threshold tpl = t \<and> vt_user_key tpl = nd_user_pubkey node \<and>
       set (vt_node_keys tpl) = mn_signing_pubkey ` set nodes"
    using load_keys_Ok(1) [OF k] keys n by fastforce
  then show ?thesis
    using t2 len d sep majority_meets [OF _ _ _ _ len t2] minority_leaves_quorum [OF _ _ d len] build_channel_Ok(2-4) [OF built]
      check_federation_Ok(3) [OF fed] membership_Ok(1) [OF mem] n by (auto simp: pt_def)
qed

subsection \<open>A loaded node and its life\<close>







end
