(* ===== verification/Load_Demo.thy ===== *)
theory Load_Demo
  imports Node_Config
begin

text \<open>
  The start of one node of the federation of \<^theory_text>\<open>Channel_Build\<close>: a configuration, the operator's preimage typed on
  the input, and the files of the host.
\<close>

definition load_demo_template :: "pubkey vault_template" where
  "load_demo_template = \<lparr>vt_user_key = 2 # 1 # replicate 31 1, vt_threshold = 2, vt_node_keys = demo_keys,
     vt_recovery_keys = [2 # 7 # replicate 31 1, 2 # 8 # replicate 31 1, 2 # 10 # replicate 31 1],
     vt_recovery_timelock = RECOVERY_TIMELOCK_NSEQUENCE\<rparr>"

definition load_demo_config :: "digest \<Rightarrow> config_file" where
  "load_demo_config h = \<lparr>cf_listen_port = 7, cf_node_key_salt = demo_to_hex (replicate 24 1), cf_node_key_ops = 3, cf_node_key_mem_kib = 64,
     cf_descriptor = ''v'', cf_allowlist = [''h'', ''e''], cf_escape_descriptor = ''e'', cf_max_derivation_index = 5, cf_hold_secs = 100,
     cf_hot_max_per_tx = 10, cf_hot_max_per_window = 20, cf_hot_window_secs = 600, cf_combine_slack_secs = None,
     cf_max_commitment_age_secs = 600, cf_refresh_min_interval_secs = None, cf_refresh_max_feerate = None, cf_duress_delay_secs = Some 300,
     cf_epsilon_secs = None, cf_delivery_horizon_secs = None, cf_escape_coverage_pct = Some 50, cf_escape_feerate_floor = None,
     cf_protocol_version = PROTOCOL_VERSION, cf_escape_bump_max_fee_pct = 10, cf_network = ''regtest'', cf_policy_version = 1,
     cf_pin_normal_hash = ''n'', cf_pin_duress_hash = ''du'', cf_pin_attempt_budget = None,
     cf_coordinator_auth_pubkey = demo_to_hex (2 # replicate 31 9 @ [9]), cf_chain_backend = Some \<lparr>cb_rpc_addr = ''b'', cb_auth = ''a''\<rparr>,
     cf_channel = Some (demo_channel_config h 0)\<rparr>"

definition load_demo_api :: "digest \<Rightarrow> nat load_api" where
  "load_demo_api h = \<lparr>la_conf = demo_config_api, la_desc = demo_api, la_argon2 = demo_argon2,
     la_key = \<lparr>ka_num_der_paths = (\<lambda>_. 0), ka_show = demo_to_hex\<rparr>, la_declared_version = (\<lambda>_. Some (Some PROTOCOL_VERSION)),
     la_toml = (\<lambda>_. Some (load_demo_config h)),
     la_parse_descriptor = (\<lambda>s. if s = ''v'' \<or> s = ''d'' then Some (template_of load_demo_template) else None),
     la_show_descriptor = (\<lambda>_. replicate 32 (CHR 0x01)), la_explicit_script = (\<lambda>_. Some [1, 1]), la_max_weight = (\<lambda>_. Some 400),
     la_parse_wallet = (\<lambda>s. if s = ''h'' then Some 2 else if s = ''e'' then Some 3 else Some 9),
     la_show_wallet = (\<lambda>d. if d = 2 then ''h'' else if d = 3 then ''e'' else ''v'')\<rparr>"

definition load_demo_preimage :: bytes where
  "load_demo_preimage = [4, 1, 1, 1, 1, 1, 1, 1]"

definition load_demo_startup :: startup where
  "load_demo_startup = \<lparr>su_opened = True, su_f_type = Some TMPFS_MAGIC, su_enforcement_off = False, su_contents = Some ''c'',
     su_stdin = map ReadByte (str_bytes (demo_to_hex load_demo_preimage)) @ [ReadByte 10], su_tty = False, su_echo_off = False,
     su_urandom = Some [9],
     su_file = \<lparr>lf_generation = None, lf_lockdown = None\<rparr>, su_latch_read = Ok None, su_latch_create = LatchCreated, su_latch_sync = True\<rparr>"

subsection \<open>The checks pass\<close>

lemma demo_hex_text: "hex_text (demo_to_hex bs) \<and> length (demo_to_hex bs) = 2 * length bs"
proof -
  have d: "hex_char (demo_digit d)" if "d < 16" for d
  proof -
    have "list_all (\<lambda>d. hex_char (demo_digit d)) [0..<16]" by code_simp
    with that show ?thesis by (simp add: list_all_iff)
  qed
  have "unat b div 16 < 16 \<and> unat b mod 16 < 16" for b :: byte
  proof -
    have "unat b < 256" using unsigned_less [of b] by simp
    then show ?thesis by simp
  qed
  with d show ?thesis by (induction bs) (simp_all add: demo_to_hex_def hex_text_def)
qed

lemma load_demo_stdin: "\<exists>rest. read_line (cp_keys demo_config_api) (su_stdin load_demo_startup) = (Ok load_demo_preimage, rest)"
proof -
  have k: "kg_preimage_size (cp_keys demo_config_api) = 8" "kg_to_hex (cp_keys demo_config_api) = demo_to_hex" "kg_from_hex (cp_keys demo_config_api) = demo_from_hex"
    by (simp_all add: demo_config_api_def demo_keygen_def)
  have "length load_demo_preimage = 8" by (simp add: load_demo_preimage_def)
  then have "\<exists>rest. read_line (cp_keys demo_config_api) (su_stdin load_demo_startup) = (Ok load_demo_preimage, rest) \<and> delivered rest = []"
    using demo_hex_text [of load_demo_preimage]
    by (intro read_line_typed) (simp_all add: k demo_hex_inverse load_demo_startup_def preimage_to_hex_def filter_map comp_def)
  then show ?thesis by blast
qed

definition load_demo_keys :: loaded_keys where
  "load_demo_keys = \<lparr>lk_network = Regtest, lk_seckey = 4 # replicate 31 1, lk_pubkey = 2 # 4 # replicate 31 1, lk_coordinator = 2 # replicate 31 9 @ [9],
     lk_descriptor = template_of load_demo_template, lk_template = load_demo_template\<rparr>"

lemma load_demo_template_ok: "parse_vault_template (la_key (load_demo_api h)) (template_of load_demo_template) = Ok load_demo_template"
  unfolding parse_vault_template_iff
  by (simp add: load_demo_api_def load_demo_template_def RECOVERY_KEYS_def demo_keys_def) (simp add: demo_to_hex_def demo_digit_def)

lemma load_demo_reads:
  "la_conf (load_demo_api h) = demo_config_api" "la_desc (load_demo_api h) = demo_api" "la_argon2 (load_demo_api h) = demo_argon2"
  "la_toml (load_demo_api h) raw = Some (load_demo_config h)" "la_parse_descriptor (load_demo_api h) ''v'' = Some (template_of load_demo_template)"
  "la_parse_wallet (load_demo_api h) ''v'' = Some 9" "la_parse_wallet (load_demo_api h) ''h'' = Some 2" "la_parse_wallet (load_demo_api h) ''e'' = Some 3"
  "la_show_wallet (load_demo_api h) 2 = ''h''" "la_show_wallet (load_demo_api h) 3 = ''e''"
  "la_explicit_script (load_demo_api h) d = Some [1, 1]" "la_max_weight (load_demo_api h) d = Some 400"
  "version_preflight (load_demo_api h) raw = Ok ()"
  by (simp_all add: load_demo_api_def version_preflight_def or_err_def require_def)

lemma demo_trim: "trim (demo_to_hex bs) = demo_to_hex bs"
  using demo_hex_text [of bs] by (simp add: trim_hex)

lemma load_demo_keys_ok: "load_keys (load_demo_api h) (load_demo_config h) load_demo_preimage = Ok (load_demo_keys, 9)"
proof -
  let ?keys = "cp_keys demo_config_api"
  have kdf: "from_hex_salt ?keys (demo_to_hex (replicate 24 1)) 3 64 = Ok \<lparr>nk_salt = replicate 24 1, nk_ops = 3, nk_mem_kib = 64\<rparr>"
    by (simp add: from_hex_salt_def from_hex_array_def demo_trim demo_hex_inverse node_kdf_new_def MIN_KDF_MEM_KIB_def)
      (simp add: demo_config_api_def demo_keygen_def demo_hex_inverse node_kdf_new_def MIN_KDF_MEM_KIB_def)
  have sk: "derive_node_key ?keys load_demo_preimage \<lparr>nk_salt = replicate 24 1, nk_ops = 3, nk_mem_kib = 64\<rparr> = Ok (4 # replicate 31 1)"
    by (simp add: derive_node_key_def demo_config_api_def demo_keygen_def load_demo_preimage_def numeral_eq_Suc)
  have co: "parse_compressed_pubkey ?keys (demo_to_hex (2 # replicate 31 9 @ [9])) = Ok (2 # replicate 31 9 @ [9])"
    using demo_hex_text [of "2 # replicate 31 9 @ [9]"]
    by (simp add: parse_compressed_pubkey_def demo_hex_inverse demo_config_api_def demo_keygen_def)
  have "load_keys (load_demo_api h) (load_demo_config h) load_demo_preimage =
    bind_res (require (list_ex (\<lambda>key. drop 1 key = drop 1 (kg_public_key ?keys (4 # replicate 31 1))) demo_keys) KeyNotInVault) (\<lambda>_.
      Ok (load_demo_keys\<lparr>lk_pubkey := kg_public_key ?keys (4 # replicate 31 1)\<rparr>, 9))"
    by (simp add: load_keys_def load_demo_reads load_demo_config_def kdf sk co or_err_def map_err_def parse_vault_network_def load_demo_template_ok
        load_demo_keys_def Let_def) (simp add: demo_config_api_def load_demo_template_def)
  moreover have "kg_public_key ?keys (4 # replicate 31 1) = 2 # 4 # replicate 31 1" by (simp add: demo_config_api_def demo_keygen_def)
  ultimately show ?thesis by (simp add: require_def demo_keys_def load_demo_keys_def)
qed

lemma load_demo_federation: "check_federation (load_demo_api h) (load_demo_config h) load_demo_keys = Ok ()"
proof -
  have ne: "x \<noteq> 9 \<Longrightarrow> x # replicate 31 1 \<noteq> replicate 31 9 @ [9]" for x :: byte by (simp add: replicate_append_same)
  show ?thesis
    by (simp add: check_federation_def load_demo_reads load_demo_keys_def load_demo_template_def demo_keys_def require_def or_err_def demo_channel_key
        channel_pubkey_of_def sat_mul64_def u64_max_def) (simp add: demo_config_api_def demo_keygen_def ne ne [symmetric])
qed

lemma load_demo_destinations:
  "load_destinations (load_demo_api h) (load_demo_config h) Regtest = Ok \<lparr>ds_allowed = [2, 3], ds_escape = 3\<rparr>"
  by (simp add: load_destinations_def load_demo_reads load_demo_config_def or_err_def map_err_def check_descriptor_network_kind_def demo_api_def Let_def)

lemma load_demo_limits: "check_limits (load_demo_config h) = Ok ()"
  by (simp add: check_limits_def load_demo_config_def cfg_combine_slack_secs_def cfg_refresh_min_interval_secs_def cfg_epsilon_secs_def
      cfg_duress_delay_secs_def cfg_delivery_horizon_secs_def cfg_escape_coverage_pct_def cfg_escape_feerate_floor_def or_default_def SCAN_INTERVAL_SECS_def
      sat_add64_def u64_max_def DEFAULT_ESCAPE_FEERATE_FLOOR_def)

lemma load_demo_pins: "\<exists>kdf b. load_pins (load_demo_api h) (load_demo_config h) (Some [9]) = Ok (kdf, b)"
proof -
  obtain kdf where "carrier_kdf_new demo_argon2 ''n'' ''du'' [9] = Ok kdf"
    by (simp add: carrier_kdf_new_def parse_digest_def require_bounded_params_def slot_version_def require_params_def demo_argon2_def
        MAX_ARGON2_M_COST_KIB_def MAX_ARGON2_T_COST_def MAX_ARGON2_P_COST_def)
  moreover have "pin_budget_validate (pin_budget_of (load_demo_config h)) = Ok ()" "max_attempts (pin_budget_of (load_demo_config h)) = 5"
    by (simp_all add: pin_budget_validate_def pin_budget_of_def load_demo_config_def or_default_def pin_attempt_budget_default_def Let_def)
  ultimately show ?thesis
    by (simp add: load_pins_def load_demo_reads load_demo_config_def [of h] demo_argon2_valid or_err_def map_err_def attempt_budget_new_def MAX_ATTEMPTS_CEILING_def)
qed

lemma load_demo_wallet: "wallet_id_of (load_demo_api h) load_demo_keys = replicate 32 1"
  by (simp add: wallet_id_of_def load_demo_reads) (simp add: load_demo_api_def demo_config_api_def str_bytes_def)

lemma load_demo_sealed:
  "sealed_values_of (load_demo_api h) (load_demo_config h) load_demo_keys (replicate 32 1) \<lparr>ds_allowed = [2, 3], ds_escape = 3\<rparr> (demo_channel_config h 0) = demo_sealed"
  by (simp add: sealed_values_of_def load_demo_reads Let_def)
    (simp add: load_demo_config_def load_demo_keys_def demo_sealed_def demo_channel_config_def hot_budget_of_def cfg_escape_feerate_floor_def
      cfg_escape_coverage_pct_def or_default_def DEFAULT_ESCAPE_FEERATE_FLOOR_def)

lemma load_demo_channel:
  assumes "ceremony_manifest_hash demo_config_api Some demo_sealed (cer_nodes demo_config_api demo_fed) (map (\<lambda>m. channel_key_of demo_config_api (fst m)) demo_fed) = Ok h"
    and "length h = 32"
  shows "\<exists>bc. load_channel (load_demo_api h) (load_demo_config h) load_demo_keys (replicate 32 1) \<lparr>ds_allowed = [2, 3], ds_escape = 3\<rparr> = Ok (Some bc) \<and>
     ce_manifest_hash (bc_env bc) = h \<and> ce_nodes (bc_env bc) = map (cer_member demo_config_api demo_fed) [0..<length demo_fed] \<and> bc_max_msg_bytes bc = 100000"
proof -
  have cf: "cf_channel (load_demo_config h) = Some (demo_channel_config h 0)" "cf_listen_port (load_demo_config h) = 7" by (simp_all add: load_demo_config_def)
  have k: "lk_seckey load_demo_keys = fst (demo_fed ! unat (0 :: node_id))" "vt_node_keys (lk_template load_demo_keys) = demo_keys"
    "lk_pubkey load_demo_keys = kg_public_key (cp_keys demo_config_api) (fst (demo_fed ! unat (0 :: node_id)))"
    by (simp_all add: load_demo_keys_def demo_fed_def load_demo_template_def) (simp add: demo_config_api_def demo_keygen_def)
  obtain bc where bc: "build_channel demo_config_api (demo_channel_config h 0) demo_sealed (fst (demo_fed ! unat (0 :: node_id)))
       (kg_public_key (cp_keys demo_config_api) (fst (demo_fed ! unat (0 :: node_id)))) demo_keys 7 = Ok bc" "ce_manifest_hash (bc_env bc) = h"
    "ce_nodes (bc_env bc) = map (cer_member demo_config_api demo_fed) [0..<length demo_fed]"
    using demo_node_boots [OF assms, of 0] by auto
  moreover have "bc_max_msg_bytes bc = 100000" using build_channel_Ok(13) [OF bc(1)] by (simp add: demo_channel_config_def)
  ultimately show ?thesis unfolding load_channel_def by (simp only: cf k load_demo_sealed load_demo_reads option.case sum.case) blast
qed

lemma load_demo_node:
  assumes "ceremony_manifest_hash demo_config_api Some demo_sealed (cer_nodes demo_config_api demo_fed) (map (\<lambda>m. channel_key_of demo_config_api (fst m)) demo_fed) = Ok h"
    and "length h = 32"
  shows "\<exists>bc kdf ns. node_load (load_demo_api h) demo_node load_demo_startup = Ok (configured_node (load_demo_api h) demo_node (load_demo_config h) load_demo_keys
      9 [1, 1] 400 (replicate 32 1) \<lparr>ds_allowed = [2, 3], ds_escape = 3\<rparr> kdf (Some bc), ns) \<and> ce_manifest_hash (bc_env bc) = h \<and>
    ce_nodes (bc_env bc) = map (cer_member demo_config_api demo_fed) [0..<length demo_fed] \<and> bc_max_msg_bytes bc = 100000"
proof -
  from load_demo_channel [OF assms] obtain bc where
    bc: "load_channel (load_demo_api h) (load_demo_config h) load_demo_keys (replicate 32 1) \<lparr>ds_allowed = [2, 3], ds_escape = 3\<rparr> = Ok (Some bc)"
    and sealed: "ce_manifest_hash (bc_env bc) = h \<and> ce_nodes (bc_env bc) = map (cer_member demo_config_api demo_fed) [0..<length demo_fed] \<and> bc_max_msg_bytes bc = 100000" by blast
  obtain kdf b where pins: "load_pins (load_demo_api h) (load_demo_config h) (Some [9]) = Ok (kdf, b)" using load_demo_pins by blast
  have be: "load_backend (load_demo_api h) (load_demo_config h) = Ok (Some (''b'', ''a''))"
    by (simp add: load_backend_def load_demo_reads load_demo_config_def demo_config_api_def)
  have net: "lk_network load_demo_keys = Regtest" by (simp add: load_demo_keys_def)
  let ?node = "configured_node (load_demo_api h) demo_node (load_demo_config h) load_demo_keys 9 [1, 1] 400 (replicate 32 1) \<lparr>ds_allowed = [2, 3], ds_escape = 3\<rparr> kdf (Some bc)"
  have toml: "from_toml_str (load_demo_api h) demo_node ''c'' load_demo_preimage (Some [9]) = Ok (?node, fresh_state b (Some bc))"
    by (simp add: from_toml_str_def load_demo_reads load_demo_keys_ok load_demo_federation net load_demo_destinations load_demo_limits pins be
        load_demo_wallet bc or_err_def require_def Let_def)
  obtain rest where "read_line (cp_keys demo_config_api) (su_stdin load_demo_startup) = (Ok load_demo_preimage, rest)" using load_demo_stdin by blast
  moreover have "\<not> su_tty load_demo_startup" by (simp add: load_demo_startup_def)
  ultimately have "\<exists>ns. node_load (load_demo_api h) demo_node load_demo_startup = Ok (?node, ns)"
    by (simp add: node_load_def load_demo_reads map_err_def read_from_stdin_def) (simp add: load_demo_startup_def toml require_def or_err_def require_channel_mode_def fresh_state_def
        apply_persisted_lockdown_def assert_volatile_storage_def classify_fs_def)
  with sealed show ?thesis by blast
qed

lemma load_demo_ok:
  "\<exists>h node ns. node_load (load_demo_api h) demo_node load_demo_startup = Ok (node, ns) \<and> nd_threshold node = 2"
proof -
  obtain h where h: "ceremony_manifest_hash demo_config_api Some demo_sealed (cer_nodes demo_config_api demo_fed)
      (map (\<lambda>m. channel_key_of demo_config_api (fst m)) demo_fed) = Ok h" "length h = 32"
    using demo_sealed_hash by blast
  from load_demo_node [OF h] obtain bc kdf ns where "node_load (load_demo_api h) demo_node load_demo_startup = Ok (configured_node (load_demo_api h) demo_node
      (load_demo_config h) load_demo_keys 9 [1, 1] 400 (replicate 32 1) \<lparr>ds_allowed = [2, 3], ds_escape = 3\<rparr> kdf (Some bc), ns)" by blast
  moreover have "nd_threshold (configured_node (load_demo_api h) demo_node (load_demo_config h) load_demo_keys 9 [1, 1] 400 (replicate 32 1)
      \<lparr>ds_allowed = [2, 3], ds_escape = 3\<rparr> kdf (Some bc)) = 2" by (simp add: configured_node_def load_demo_keys_def load_demo_template_def)
  ultimately show ?thesis by blast
qed

subsection \<open>Witnesses\<close>

theorem loaded_federation_shape_witness:
  "\<exists>h node ns. node_load (load_demo_api h) demo_node load_demo_startup = Ok (node, ns) \<and> nd_threshold node = 2 \<and> length (ce_nodes (nd_env node)) = 3"
proof -
  obtain h node ns where l: "node_load (load_demo_api h) demo_node load_demo_startup = Ok (node, ns)" and t: "nd_threshold node = 2"
    using load_demo_ok by blast
  have "length (ce_nodes (nd_env node)) = 2 * nd_threshold node - 1" using loaded_federation_shape [OF l] t by simp
  with l t show ?thesis by auto
qed


end
