(* ===== verification/Sealed_Vault.thy ===== *)
theory Sealed_Vault
  imports Node_Config
begin

text \<open>
  The user's side of the sealed vault, \<open>crates/vault-cli/src/sealed.rs\<close>: the published manifest as it is read, the
  cross-checks that turn the artifact files of the ceremony into a live vault, and the coordinator's credential. The files
  of the directory are a function from names to contents, the JSON parser and the descriptor parsers are the argument
  \<open>user_api\<close>, which extends the parsers of the node's configuration.
\<close>

subsection \<open>The manifest as published\<close>

record parsed_node =
  pn_node_id :: node_id
  pn_signing_pubkey :: string
  pn_channel_pubkey :: string
  pn_transport_endpoints :: "string list"
  pn_channel_endorsement :: string

record parsed_manifest =
  pm_protocol_version :: "32 word"
  pm_wallet_id :: string
  pm_vault_descriptor :: string
  pm_manifest_hash :: string
  pm_coordinator_auth_pubkey :: string
  pm_t :: nat
  pm_n :: nat
  pm_recovery_timelock :: "32 word"
  pm_policy_version :: "32 word"
  pm_max_msg_bytes :: u64
  pm_hot_max_per_tx :: u64
  pm_hot_max_per_window :: u64
  pm_hot_window_secs :: u64
  pm_hot_allowlist :: "string list"
  pm_escape_descriptor :: string
  pm_max_derivation_index :: "32 word"
  pm_escape_feerate_floor :: u64
  pm_escape_coverage_pct :: byte
  pm_escape_bump_max_fee_pct :: byte
  pm_network :: string
  pm_nodes :: "parsed_node list"

text \<open>\<open>ua_envelope_version\<close>: the text parses as JSON, and its \<open>protocol_version\<close> as a \<open>u64\<close>. \<open>ua_json\<close> is the
  deserialisation with its defaults. \<open>ua_loopback\<close> tells a parsed address.\<close>

record 'd user_api = "'d load_api" +
  ua_envelope_version :: "string \<Rightarrow> u64 option option"
  ua_json :: "string \<Rightarrow> parsed_manifest option"
  ua_loopback :: "string \<Rightarrow> bool"
  ua_script_pubkey :: "pubkey ms_descriptor \<Rightarrow> script"
  ua_address :: "script \<Rightarrow> network \<Rightarrow> string option"
  ua_seckey_of_str :: "string \<Rightarrow> bytes option"
  ua_tx :: tx_api

datatype sealed_error =
    ArtifactUnreadable string | ManifestNotJson | NotLiveRevision "u64 option" | DescriptorFile | ManifestDescriptor | DescriptorsDisagree
  | SealedOffTemplate template_error | WalletIdWrong string | ShapeDisagrees | SealedNetwork string | SealedEscape | SealedKind kind_error | SealedHot
  | CoordinatorFile key_error | CoordinatorDisagrees | NodeKey key_error | NodePosition nat | NoPinnedEndpoint nat | EndpointNotParsed
  | EndpointNotLoopback nat | SealedHash ceremony_error | HashWrong string | EndorsementWrong build_error | SealedVaultDescriptor

record 'd live_vault =
  lv_wallet_id :: bytes
  lv_manifest_hash :: digest
  lv_descriptor :: "pubkey ms_descriptor"
  lv_template :: "pubkey vault_template"
  lv_check_params :: "'d check_params"
  lv_network :: network
  lv_escape_bump_max_fee_pct :: byte
  lv_escape_feerate_floor :: u64
  lv_escape_coverage_pct :: byte
  lv_policy_version :: "32 word"
  lv_coordinator_pubkey :: pubkey
  lv_endpoints :: "string list"

subsection \<open>Loading\<close>

definition read_artifact :: "(string \<Rightarrow> string option) \<Rightarrow> string \<Rightarrow> sealed_error + string" where
  "read_artifact files name = or_err (ArtifactUnreadable name) (map_option trim (files name))"

definition parse_manifest :: "'d user_api \<Rightarrow> string \<Rightarrow> sealed_error + parsed_manifest" where
  "parse_manifest api t = or_err ManifestNotJson (ua_json api t)"

definition live_revision :: "'d user_api \<Rightarrow> string \<Rightarrow> sealed_error + unit" where
  "live_revision api t =
     bind_res (or_err ManifestNotJson (ua_envelope_version api t)) (\<lambda>revision.
       require (revision = Some (unat PROTOCOL_VERSION)) (NotLiveRevision revision))"

definition live_descriptor ::
  "'d user_api \<Rightarrow> (string \<Rightarrow> string option) \<Rightarrow> parsed_manifest \<Rightarrow> sealed_error + pubkey ms_descriptor \<times> pubkey vault_template" where
  "live_descriptor api files mf =
     bind_res (read_artifact files ''descriptor.txt'') (\<lambda>t.
     bind_res (or_err DescriptorFile (la_parse_descriptor api t)) (\<lambda>descriptor.
     bind_res (or_err ManifestDescriptor (la_parse_descriptor api (pm_vault_descriptor mf))) (\<lambda>claimed.
     bind_res (require (la_show_descriptor api claimed = la_show_descriptor api descriptor) DescriptorsDisagree) (\<lambda>_.
     bind_res (map_err SealedOffTemplate (parse_vault_template (la_key api) descriptor)) (\<lambda>template. Ok (descriptor, template))))))"


definition live_wallet_id ::
  "'d user_api \<Rightarrow> (string \<Rightarrow> string option) \<Rightarrow> parsed_manifest \<Rightarrow> pubkey ms_descriptor \<Rightarrow> sealed_error + bytes" where
  "live_wallet_id api files mf descriptor =
     (let wallet = kg_sha256 (cp_keys (la_conf api)) (str_bytes (la_show_descriptor api descriptor));
          hex = kg_to_hex (cp_keys (la_conf api)) wallet in
      bind_res (read_artifact files ''wallet-id.txt'') (\<lambda>t.
      bind_res (require (t = hex) (WalletIdWrong ''wallet-id.txt'')) (\<lambda>_.
      bind_res (require (pm_wallet_id mf = hex) (WalletIdWrong ''manifest wallet_id'')) (\<lambda>_. Ok wallet))))"

definition check_consensus_facts :: "parsed_manifest \<Rightarrow> pubkey vault_template \<Rightarrow> sealed_error + unit" where
  "check_consensus_facts mf template =
     require ((pm_t mf, pm_n mf, pm_recovery_timelock mf, length (pm_nodes mf)) =
       (vt_threshold template, length (vt_node_keys template), vt_recovery_timelock template, length (vt_node_keys template))) ShapeDisagrees"

fun live_hot :: "'d user_api \<Rightarrow> network \<Rightarrow> string list \<Rightarrow> sealed_error + 'd list" where
  "live_hot api net [] = Ok []"
| "live_hot api net (t # ts) =
     bind_res (or_err SealedHot (la_parse_wallet api t)) (\<lambda>d.
     bind_res (map_err SealedKind (check_descriptor_network_kind (la_desc api) ''hot allowlist'' d net)) (\<lambda>_.
     bind_res (live_hot api net ts) (\<lambda>ds. Ok (d # ds))))"

definition live_coordinator :: "'d user_api \<Rightarrow> (string \<Rightarrow> string option) \<Rightarrow> parsed_manifest \<Rightarrow> sealed_error + pubkey" where
  "live_coordinator api files mf =
     bind_res (read_artifact files ''coordinator-auth.pubkey'') (\<lambda>t.
     bind_res (map_err CoordinatorFile (parse_compressed_pubkey (cp_keys (la_conf api)) t)) (\<lambda>pk.
     bind_res (require (pm_coordinator_auth_pubkey mf = cp_show_pubkey (la_conf api) pk) CoordinatorDisagrees) (\<lambda>_. Ok pk)))"

fun live_endpoints :: "'d user_api \<Rightarrow> nat \<Rightarrow> string list \<Rightarrow> sealed_error + string list" where
  "live_endpoints api i [] = Ok []"
| "live_endpoints api i (e # es) =
     bind_res (or_err EndpointNotParsed (cp_socket (la_conf api) e)) (\<lambda>a.
     bind_res (require (ua_loopback api a) (EndpointNotLoopback i)) (\<lambda>_.
     bind_res (live_endpoints api i es) (\<lambda>as. Ok (a # as))))"

record live_node =
  ln_cer :: ceremony_node
  ln_channel :: pubkey
  ln_endpoints :: "string list"

definition live_node_of :: "'d user_api \<Rightarrow> pubkey vault_template \<Rightarrow> nat \<Rightarrow> parsed_node \<Rightarrow> sealed_error + live_node" where
  "live_node_of api template i node =
     bind_res (map_err NodeKey (parse_compressed_pubkey (cp_keys (la_conf api)) (pn_signing_pubkey node))) (\<lambda>signing.
     bind_res (require (unat (pn_node_id node) = i \<and> signing = vt_node_keys template ! i) (NodePosition i)) (\<lambda>_.
     bind_res (require (pn_transport_endpoints node \<noteq> []) (NoPinnedEndpoint i)) (\<lambda>_.
     bind_res (live_endpoints api i (pn_transport_endpoints node)) (\<lambda>addrs.
     bind_res (map_err NodeKey (parse_compressed_pubkey (cp_keys (la_conf api)) (pn_channel_pubkey node))) (\<lambda>channel.
       Ok \<lparr>ln_cer = \<lparr>cer_node_id = pn_node_id node, cer_signing_pubkey = signing, cer_endpoints = pn_transport_endpoints node\<rparr>,
            ln_channel = channel, ln_endpoints = addrs\<rparr>)))))"

fun live_nodes :: "'d user_api \<Rightarrow> pubkey vault_template \<Rightarrow> nat \<Rightarrow> parsed_node list \<Rightarrow> sealed_error + live_node list" where
  "live_nodes api template i [] = Ok []"
| "live_nodes api template i (node # nodes) =
     bind_res (live_node_of api template i node) (\<lambda>ln.
     bind_res (live_nodes api template (Suc i) nodes) (\<lambda>lns. Ok (ln # lns)))"

definition canon_of :: "'d user_api \<Rightarrow> string \<Rightarrow> string option" where
  "canon_of api d = map_option (la_show_wallet api) (la_parse_wallet api d)"

definition manifest_values :: "parsed_manifest \<Rightarrow> bytes \<Rightarrow> pubkey \<Rightarrow> network \<Rightarrow> sealed_values" where
  "manifest_values mf wallet coordinator net =
     \<lparr>sv_wallet_id = wallet, sv_coordinator_auth = coordinator, sv_max_msg_bytes = pm_max_msg_bytes mf,
      sv_hot_budget = \<lparr>max_per_tx_sat = pm_hot_max_per_tx mf, max_per_window_sat = pm_hot_max_per_window mf, window_secs = pm_hot_window_secs mf\<rparr>,
      sv_hot_allowlist = pm_hot_allowlist mf, sv_escape_descriptor = pm_escape_descriptor mf, sv_max_derivation_index = pm_max_derivation_index mf,
      sv_escape_feerate_floor = pm_escape_feerate_floor mf, sv_escape_coverage_pct = pm_escape_coverage_pct mf,
      sv_escape_bump_max_fee_pct = pm_escape_bump_max_fee_pct mf, sv_network = net\<rparr>"

definition live_hash ::
  "'d user_api \<Rightarrow> (string \<Rightarrow> string option) \<Rightarrow> parsed_manifest \<Rightarrow> bytes \<Rightarrow> pubkey \<Rightarrow> network \<Rightarrow> live_node list \<Rightarrow> sealed_error + digest" where
  "live_hash api files mf wallet coordinator net nodes =
     bind_res (map_err SealedHash (ceremony_manifest_hash (la_conf api) (canon_of api) (manifest_values mf wallet coordinator net)
       (map ln_cer nodes) (map ln_channel nodes))) (\<lambda>h.
     let hex = kg_to_hex (cp_keys (la_conf api)) h in
     bind_res (read_artifact files ''manifest-hash.txt'') (\<lambda>t.
     bind_res (require (t = hex) (HashWrong ''manifest-hash.txt'')) (\<lambda>_.
     bind_res (require (pm_manifest_hash mf = hex) (HashWrong ''manifest manifest_hash'')) (\<lambda>_. Ok h))))"

definition check_live_endorsement ::
  "'d user_api \<Rightarrow> pubkey vault_template \<Rightarrow> bytes \<Rightarrow> digest \<Rightarrow> parsed_node \<times> live_node \<Rightarrow> sealed_error + unit" where
  "check_live_endorsement api template wallet h = (\<lambda>(node, ln).
     map_err EndorsementWrong (verify_endorsement (la_conf api) (vt_node_keys template ! unat (pn_node_id node)) (ln_channel ln) wallet h (pn_node_id node)
       (pn_transport_endpoints node) (pn_channel_endorsement node)))"

definition load_artifacts :: "'d user_api \<Rightarrow> (string \<Rightarrow> string option) \<Rightarrow> sealed_error + 'd live_vault" where
  "load_artifacts api files =
     bind_res (read_artifact files ''manifest.json'') (\<lambda>t.
     bind_res (live_revision api t) (\<lambda>_.
     bind_res (parse_manifest api t) (\<lambda>mf.
     bind_res (live_descriptor api files mf) (\<lambda>(descriptor, template).
     bind_res (live_wallet_id api files mf descriptor) (\<lambda>wallet.
     bind_res (check_consensus_facts mf template) (\<lambda>_.
     bind_res (or_err (SealedNetwork (pm_network mf)) (parse_vault_network (pm_network mf))) (\<lambda>net.
     bind_res (or_err SealedEscape (la_parse_wallet api (pm_escape_descriptor mf))) (\<lambda>esc.
     bind_res (map_err SealedKind (check_descriptor_network_kind (la_desc api) ''escape'' esc net)) (\<lambda>_.
     bind_res (live_hot api net (pm_hot_allowlist mf)) (\<lambda>hots.
     bind_res (live_coordinator api files mf) (\<lambda>coordinator.
     bind_res (live_nodes api template 0 (pm_nodes mf)) (\<lambda>nodes.
     bind_res (live_hash api files mf wallet coordinator net nodes) (\<lambda>h.
     bind_res (for_each (check_live_endorsement api template wallet h) (zip (pm_nodes mf) nodes)) (\<lambda>_.
     bind_res (or_err SealedVaultDescriptor (la_parse_wallet api (la_show_descriptor api descriptor))) (\<lambda>vlt.
       Ok \<lparr>lv_wallet_id = wallet, lv_manifest_hash = h, lv_descriptor = descriptor, lv_template = template,
            lv_check_params = \<lparr>vault = vlt, allowed = hots @ [esc], escape = Some esc, max_derivation_index = unat (pm_max_derivation_index mf),
              hot_max_per_tx = pm_hot_max_per_tx mf\<rparr>,
            lv_network = net, lv_escape_bump_max_fee_pct = pm_escape_bump_max_fee_pct mf, lv_escape_feerate_floor = pm_escape_feerate_floor mf,
            lv_escape_coverage_pct = pm_escape_coverage_pct mf, lv_policy_version = pm_policy_version mf, lv_coordinator_pubkey = coordinator,
            lv_endpoints = concat (map ln_endpoints nodes)\<rparr>)))))))))))))))"

subsection \<open>Secret files\<close>

text \<open>A secret file: whether it opens without following a link and can be examined, what it is, and what its reads give.\<close>

record secret_file =
  sf_opened :: bool
  sf_examined :: bool
  sf_regular :: bool
  sf_mode :: "32 word"
  sf_reads :: "read_event list"

datatype secret_error = SecretNotOpened | SecretNotExamined | SecretNotRegular | SecretModeOpen | SecretOverCap | SecretRead | SecretNotUtf8 | SecretNotAKey | SecretForeign

definition MAX_CORE_COOKIE_BYTES :: nat where "MAX_CORE_COOKIE_BYTES = 4096"

text \<open>Reads until the buffer is full, the file ends or a read fails; \<open>None\<close> is the unbounded read.\<close>

fun fill_buffer :: "nat option \<Rightarrow> read_event list \<Rightarrow> bytes \<Rightarrow> secret_error + bytes" where
  "fill_buffer room [] filled = Ok filled"
| "fill_buffer room (ev # evs) filled =
     (if room = Some (length filled) then Ok filled
      else (case ev of
          ReadByte b \<Rightarrow> fill_buffer room evs (filled @ [b])
        | ReadInterrupted \<Rightarrow> fill_buffer room evs filled
        | ReadFailed \<Rightarrow> Err SecretRead))"

definition read_file :: "secret_file \<Rightarrow> nat option \<Rightarrow> secret_error + string" where
  "read_file f cap =
     (if \<not> sf_opened f then Err SecretNotOpened
      else if \<not> sf_examined f then Err SecretNotExamined
      else if \<not> sf_regular f then Err SecretNotRegular
      else if and (and (sf_mode f) 0xFFF) 0x3F \<noteq> 0 then Err SecretModeOpen
      else bind_res (fill_buffer (map_option Suc cap) (sf_reads f) []) (\<lambda>raw.
        if (case cap of None \<Rightarrow> False | Some n \<Rightarrow> n < length raw) then Err SecretOverCap
        else or_err SecretNotUtf8 (from_utf8 raw)))"

definition read_secret :: "secret_file \<Rightarrow> secret_error + string" where
  "read_secret f = read_file f None"

definition read_core_cookie :: "secret_file \<Rightarrow> secret_error + string" where
  "read_core_cookie f = read_file f (Some MAX_CORE_COOKIE_BYTES)"

text \<open>\<open>CoordinatorCredential::load_file\<close>.\<close>

definition load_credential :: "'d user_api \<Rightarrow> secret_file \<Rightarrow> pubkey \<Rightarrow> secret_error + bytes" where
  "load_credential api f pinned =
     bind_res (read_secret f) (\<lambda>t.
     bind_res (or_err SecretNotAKey (ua_seckey_of_str api (trim t))) (\<lambda>scalar.
     bind_res (require (kg_public_key (cp_keys (la_conf api)) scalar = pinned) SecretForeign) (\<lambda>_. Ok scalar)))"

lemma fill_buffer_length: "fill_buffer (Some n) evs filled = Ok raw \<Longrightarrow> length filled \<le> n \<Longrightarrow> length raw \<le> n"
  by (induction "Some n" evs filled rule: fill_buffer.induct) (auto split: if_splits read_event.splits)

subsection \<open>What a live vault certifies\<close>

text \<open>The manifest that the artifacts describe.\<close>

definition live_manifest :: "'d user_api \<Rightarrow> parsed_manifest \<Rightarrow> bytes \<Rightarrow> pubkey \<Rightarrow> network \<Rightarrow> live_node list \<Rightarrow> base_manifest" where
  "live_manifest api mf wallet coordinator net nodes =
     manifest_of ((manifest_values mf wallet coordinator net)\<lparr>sv_hot_allowlist := map (\<lambda>d. the (canon_of api d)) (pm_hot_allowlist mf),
       sv_escape_descriptor := the (canon_of api (pm_escape_descriptor mf))\<rparr>) (manifest_nodes (map ln_cer nodes) (map ln_channel nodes))"

definition artifact_manifest :: "'d user_api \<Rightarrow> (string \<Rightarrow> string option) \<Rightarrow> sealed_error + base_manifest" where
  "artifact_manifest api files =
     bind_res (read_artifact files ''manifest.json'') (\<lambda>t.
     bind_res (parse_manifest api t) (\<lambda>mf.
     bind_res (live_descriptor api files mf) (\<lambda>(descriptor, template).
     bind_res (live_wallet_id api files mf descriptor) (\<lambda>wallet.
     bind_res (or_err (SealedNetwork (pm_network mf)) (parse_vault_network (pm_network mf))) (\<lambda>net.
     bind_res (live_coordinator api files mf) (\<lambda>coordinator.
     bind_res (live_nodes api template 0 (pm_nodes mf)) (\<lambda>nodes. Ok (live_manifest api mf wallet coordinator net nodes))))))))"

lemma canonical_all_Ok:
  "canonical_all canon ds = Ok cs \<Longrightarrow> cs = map (\<lambda>d. the (canon d)) ds \<and> (\<forall>d \<in> set ds. canon d \<noteq> None)"
  by (induction ds arbitrary: cs) (auto simp: bind_res_Ok_iff split: option.splits)

lemma ceremony_manifest_hash_Ok:
  assumes "ceremony_manifest_hash api canon sv nodes cks = Ok h"
  shows "compute_manifest_hash (kg_sha256 (cp_keys api)) (manifest_of (sv\<lparr>sv_hot_allowlist := map (\<lambda>d. the (canon d)) (sv_hot_allowlist sv),
    sv_escape_descriptor := the (canon (sv_escape_descriptor sv))\<rparr>) (manifest_nodes nodes cks)) = Ok h"
proof -
  from assms obtain hot esc where he: "canonical_all canon (sv_hot_allowlist sv) = Ok hot" "canon (sv_escape_descriptor sv) = Some esc"
    by (auto simp: ceremony_manifest_hash_def bind_res_Ok_iff split: option.split_asm)
  then have "compute_manifest_hash (kg_sha256 (cp_keys api)) (manifest_of (sv\<lparr>sv_hot_allowlist := hot, sv_escape_descriptor := esc\<rparr>) (manifest_nodes nodes cks)) = Ok h"
    using assms by (simp add: ceremony_manifest_hash_def split: sum.split_asm)
  with he canonical_all_Ok [OF he(1)] show ?thesis by simp
qed

lemma live_hash_Ok:
  assumes "live_hash api files mf wallet coordinator net nodes = Ok h"
  shows "compute_manifest_hash (kg_sha256 (cp_keys (la_conf api))) (live_manifest api mf wallet coordinator net nodes) = Ok h"
proof -
  from assms have "ceremony_manifest_hash (la_conf api) (canon_of api) (manifest_values mf wallet coordinator net) (map ln_cer nodes) (map ln_channel nodes) = Ok h"
    by (auto simp: live_hash_def bind_res_Ok_iff Let_def)
  from ceremony_manifest_hash_Ok [OF this] show ?thesis by (simp add: live_manifest_def manifest_values_def)
qed

lemma live_hot_Ok: "live_hot api net ts = Ok ds \<Longrightarrow> map (la_show_wallet api) ds = map (\<lambda>d. the (canon_of api d)) ts"
  by (induction ts arbitrary: ds) (auto simp: bind_res_Ok_iff canon_of_def)

lemma live_nodes_length: "live_nodes api template i ps = Ok nodes \<Longrightarrow> length nodes = length ps"
  by (induction ps arbitrary: i nodes) (auto simp: bind_res_Ok_iff)

lemma load_artifacts_Ok:
  assumes "load_artifacts api files = Ok lv"
  obtains mf nodes esc hots where
    "artifact_manifest api files = Ok (live_manifest api mf (lv_wallet_id lv) (lv_coordinator_pubkey lv) (lv_network lv) nodes)"
    "live_hash api files mf (lv_wallet_id lv) (lv_coordinator_pubkey lv) (lv_network lv) nodes = Ok (lv_manifest_hash lv)"
    "la_parse_wallet api (pm_escape_descriptor mf) = Some esc" "live_hot api (lv_network lv) (pm_hot_allowlist mf) = Ok hots"
    "allowed (lv_check_params lv) = hots @ [esc]" "escape (lv_check_params lv) = Some esc"
    "max_derivation_index (lv_check_params lv) = unat (pm_max_derivation_index mf)" "hot_max_per_tx (lv_check_params lv) = pm_hot_max_per_tx mf"
    "lv_escape_bump_max_fee_pct lv = pm_escape_bump_max_fee_pct mf" "lv_escape_feerate_floor lv = pm_escape_feerate_floor mf"
    "lv_escape_coverage_pct lv = pm_escape_coverage_pct mf" "parse_vault_template (la_key api) (lv_descriptor lv) = Ok (lv_template lv)"
    "length nodes = length (vt_node_keys (lv_template lv))"
proof -
  from assms obtain t mf descriptor template wallet net esc hots coordinator nodes h vlt where
    r: "read_artifact files ''manifest.json'' = Ok t" "parse_manifest api t = Ok mf" "live_descriptor api files mf = Ok (descriptor, template)"
      "live_wallet_id api files mf descriptor = Ok wallet" "check_consensus_facts mf template = Ok ()" "parse_vault_network (pm_network mf) = Some net"
      "la_parse_wallet api (pm_escape_descriptor mf) = Some esc" "live_hot api net (pm_hot_allowlist mf) = Ok hots" "live_coordinator api files mf = Ok coordinator"
      "live_nodes api template 0 (pm_nodes mf) = Ok nodes" "live_hash api files mf wallet coordinator net nodes = Ok h"
    and lv: "lv = \<lparr>lv_wallet_id = wallet, lv_manifest_hash = h, lv_descriptor = descriptor, lv_template = template,
            lv_check_params = \<lparr>vault = vlt, allowed = hots @ [esc], escape = Some esc, max_derivation_index = unat (pm_max_derivation_index mf),
              hot_max_per_tx = pm_hot_max_per_tx mf\<rparr>,
            lv_network = net, lv_escape_bump_max_fee_pct = pm_escape_bump_max_fee_pct mf, lv_escape_feerate_floor = pm_escape_feerate_floor mf,
            lv_escape_coverage_pct = pm_escape_coverage_pct mf, lv_policy_version = pm_policy_version mf, lv_coordinator_pubkey = coordinator,
            lv_endpoints = concat (map ln_endpoints nodes)\<rparr>"
    by (auto simp: load_artifacts_def bind_res_Ok_iff)
  from r have "artifact_manifest api files = Ok (live_manifest api mf wallet coordinator net nodes)" by (simp add: artifact_manifest_def or_err_def)
  moreover have "parse_vault_template (la_key api) descriptor = Ok template" using r(3) by (auto simp: live_descriptor_def bind_res_Ok_iff)
  moreover have "length nodes = length (vt_node_keys template)" using r(5) live_nodes_length [OF r(10)] by (simp add: check_consensus_facts_def)
  ultimately show thesis using that [of mf nodes esc hots] r by (simp add: lv)
qed

text \<open>What a live vault works with, in terms of the manifest its artifacts describe.\<close>

lemma live_vault_manifest:
  assumes "load_artifacts api files = Ok lv" and "artifact_manifest api files = Ok b"
  shows "compute_manifest_hash (kg_sha256 (cp_keys (la_conf api))) b = Ok (lv_manifest_hash lv)"
    "bm_wallet_id b = lv_wallet_id lv" "bm_network b = lv_network lv" "bm_coordinator_auth b = lv_coordinator_pubkey lv"
    "unat (bm_max_derivation_index b) = max_derivation_index (lv_check_params lv)" "bm_hot_max_per_tx b = word_of_nat (hot_max_per_tx (lv_check_params lv))"
    "bm_escape_feerate_floor b = word_of_nat (lv_escape_feerate_floor lv)" "bm_escape_coverage_pct b = lv_escape_coverage_pct lv"
    "bm_escape_bump_max_fee_pct b = lv_escape_bump_max_fee_pct lv"
    "map_option (la_show_wallet api) (escape (lv_check_params lv)) = Some (bm_escape_descriptor b)"
    "la_show_wallet api ` set (allowed (lv_check_params lv)) = insert (bm_escape_descriptor b) (set (bm_hot_allowlist b))"
proof -
  from assms(1) obtain mf nodes esc hots where a: "artifact_manifest api files = Ok (live_manifest api mf (lv_wallet_id lv) (lv_coordinator_pubkey lv) (lv_network lv) nodes)"
    and h: "live_hash api files mf (lv_wallet_id lv) (lv_coordinator_pubkey lv) (lv_network lv) nodes = Ok (lv_manifest_hash lv)"
    and esc: "la_parse_wallet api (pm_escape_descriptor mf) = Some esc" and hots: "live_hot api (lv_network lv) (pm_hot_allowlist mf) = Ok hots"
    and lv: "allowed (lv_check_params lv) = hots @ [esc]" "escape (lv_check_params lv) = Some esc"
      "max_derivation_index (lv_check_params lv) = unat (pm_max_derivation_index mf)" "hot_max_per_tx (lv_check_params lv) = pm_hot_max_per_tx mf"
      "lv_escape_bump_max_fee_pct lv = pm_escape_bump_max_fee_pct mf" "lv_escape_feerate_floor lv = pm_escape_feerate_floor mf"
      "lv_escape_coverage_pct lv = pm_escape_coverage_pct mf"
    by (rule load_artifacts_Ok)
  have b: "b = live_manifest api mf (lv_wallet_id lv) (lv_coordinator_pubkey lv) (lv_network lv) nodes" using a assms(2) by simp
  then show "compute_manifest_hash (kg_sha256 (cp_keys (la_conf api))) b = Ok (lv_manifest_hash lv)" using live_hash_Ok [OF h] by simp
  have c: "the (canon_of api (pm_escape_descriptor mf)) = la_show_wallet api esc" by (simp add: canon_of_def esc)
  have "la_show_wallet api ` set hots = set (map (\<lambda>d. the (canon_of api d)) (pm_hot_allowlist mf))"
    using arg_cong [OF live_hot_Ok [OF hots], of set] by simp
  then show "la_show_wallet api ` set (allowed (lv_check_params lv)) = insert (bm_escape_descriptor b) (set (bm_hot_allowlist b))"
    by (simp add: lv b live_manifest_def manifest_of_def manifest_values_def c)
  show "bm_wallet_id b = lv_wallet_id lv" "bm_network b = lv_network lv" "bm_coordinator_auth b = lv_coordinator_pubkey lv"
    "unat (bm_max_derivation_index b) = max_derivation_index (lv_check_params lv)" "bm_hot_max_per_tx b = word_of_nat (hot_max_per_tx (lv_check_params lv))"
    "bm_escape_feerate_floor b = word_of_nat (lv_escape_feerate_floor lv)" "bm_escape_coverage_pct b = lv_escape_coverage_pct lv"
    "bm_escape_bump_max_fee_pct b = lv_escape_bump_max_fee_pct lv" "map_option (la_show_wallet api) (escape (lv_check_params lv)) = Some (bm_escape_descriptor b)"
    by (simp_all add: lv b live_manifest_def manifest_of_def manifest_values_def c)
qed

text \<open>The manifest that the values a running node works with describe: the bounds of its policy check, its budget, its
  destinations and the members of its channel. Only the fee ceiling of the rungs is an argument: a node hashes it at the start and
  keeps it nowhere.\<close>

definition node_values :: "('d \<Rightarrow> string) \<Rightarrow> byte \<Rightarrow> 'd node \<Rightarrow> sealed_values" where
  "node_values show_d pct node =
     (let cp = nd_check_params node; esc = show_d (the (escape cp)) in
      \<lparr>sv_wallet_id = nd_wallet_id node, sv_coordinator_auth = nd_coordinator_auth node, sv_max_msg_bytes = nd_max_msg_bytes node,
       sv_hot_budget = nd_hot_budget node, sv_hot_allowlist = filter (\<lambda>d. d \<noteq> esc) (map show_d (allowed cp)), sv_escape_descriptor = esc,
       sv_max_derivation_index = word_of_nat (max_derivation_index cp), sv_escape_feerate_floor = nd_escape_feerate_floor node,
       sv_escape_coverage_pct = word_of_nat (nd_escape_coverage_pct node), sv_escape_bump_max_fee_pct = pct, sv_network = nd_network node\<rparr>)"

definition node_manifest :: "('d \<Rightarrow> string) \<Rightarrow> byte \<Rightarrow> 'd node \<Rightarrow> base_manifest" where
  "node_manifest show_d pct node = manifest_of (node_values show_d pct node) (ce_nodes (nd_env node))"

text \<open>A started node works with the values it checked against the sealed hash.\<close>

lemma loaded_node_manifest:
  assumes "node_load api lib su = Ok (node, ns)" and "su_contents su = Some raw" and "la_toml api raw = Some c"
  defines "cp \<equiv> nd_check_params node"
  shows "compute_manifest_hash (kg_sha256 (cp_keys (la_conf api))) (node_manifest (la_show_wallet api) (cf_escape_bump_max_fee_pct c) node) = Ok (ce_manifest_hash (nd_env node))"
    "hot_max_per_tx cp = max_per_tx_sat (nd_hot_budget node)" "nd_escape_coverage_pct node < 256" "max_derivation_index cp < 2 ^ 32"
    "\<exists>e. escape cp = Some e \<and> la_show_wallet api e \<in> la_show_wallet api ` set (allowed cp)"
proof -
  from assms(1,2) obtain preimage ns0 where toml: "from_toml_str api lib raw preimage (su_urandom su) = Ok (node, ns0)" and ch: "require_channel_mode ns0"
    by (auto simp: node_load_def bind_res_Ok_iff)
  from toml obtain c' lk vlt wscript weight ds kdf b chan where lc': "load_channel api c' lk (wallet_id_of api lk) ds = Ok chan"
    and esc: "list_ex (\<lambda>d. la_show_wallet api d = la_show_wallet api (ds_escape ds)) (ds_allowed ds)"
    and ns0: "ns0 = fresh_state b chan" and node': "node = configured_node api lib c' lk vlt wscript weight (wallet_id_of api lk) ds kdf chan"
    and "la_toml api raw = Some c'" by (rule from_toml_str_Ok)
  then have "c' = c" using assms(3) by simp
  note lc = lc' [unfolded this] and node = node' [unfolded this]
  from ch ns0 obtain bc where bc: "chan = Some bc" by (auto simp: fresh_state_def require_channel_mode_def)
  from lc [unfolded bc] obtain cfg where built: "build_channel (la_conf api) cfg (sealed_values_of api c lk (wallet_id_of api lk) ds cfg)
      (lk_seckey lk) (lk_pubkey lk) (vt_node_keys (lk_template lk)) (cf_listen_port c) = Ok bc" by (rule load_channel_Ok)
  from build_channel_Ok(13) [OF built] have "built_manifest cfg (sealed_values_of api c lk (wallet_id_of api lk) ds cfg) bc = node_manifest (la_show_wallet api) (cf_escape_bump_max_fee_pct c) node"
    by (simp add: built_manifest_def node_manifest_def node_values_def sealed_values_of_def node bc configured_node_def Let_def)
  with build_channel_Ok(5) [OF built] show "compute_manifest_hash (kg_sha256 (cp_keys (la_conf api)))
      (node_manifest (la_show_wallet api) (cf_escape_bump_max_fee_pct c) node) = Ok (ce_manifest_hash (nd_env node))"
    by (simp add: node bc configured_node_def)
  show "hot_max_per_tx cp = max_per_tx_sat (nd_hot_budget node)" "\<exists>e. escape cp = Some e \<and> la_show_wallet api e \<in> la_show_wallet api ` set (allowed cp)"
    using esc by (auto simp: cp_def node configured_node_def hot_budget_of_def list_ex_iff image_iff) metis
  show "nd_escape_coverage_pct node < 256" "max_derivation_index cp < 2 ^ 32"
    using unsigned_less [of "cfg_escape_coverage_pct c"] unsigned_less [of "cf_max_derivation_index c"] by (simp_all add: cp_def node configured_node_def)
qed

text \<open>C18: the user's tool and the nodes apply one policy. When a live vault and a started node carry the same manifest hash, the
  values that the node's checks work with are those the tool checks a group against: the wallet, the network, the coordinator's key,
  the derivation bound, the cap of one hot spend, the fee floor and the coverage of the escape, the escape wallet and the set of
  allowed destinations; and the fee ceiling of the rungs is the one of the node's configuration. The tool and the node read and print
  descriptors with the same functions, and the two manifests do not collide under the hash.\<close>

theorem live_vault_matches_node:
  assumes "load_artifacts api files = Ok lv" and "artifact_manifest api files = Ok b"
    and "node_load (load_api.truncate api) lib su = Ok (node, ns)" and "su_contents su = Some raw" and "la_toml api raw = Some c"
    and "lv_manifest_hash lv = ce_manifest_hash (nd_env node)"
  defines "sealed \<equiv> node_manifest (la_show_wallet api) (cf_escape_bump_max_fee_pct c) node"
  assumes "manifest_ok b" and "manifest_ok sealed"
    and "hot_max_per_tx (lv_check_params lv) < 2 ^ 64" and "lv_escape_feerate_floor lv < 2 ^ 64"
    and "hot_max_per_tx (nd_check_params node) < 2 ^ 64" and "nd_escape_feerate_floor node < 2 ^ 64"
    and "\<forall>x y. base_manifest_bytes b = Ok x \<longrightarrow> base_manifest_bytes sealed = Ok y \<longrightarrow>
      tagged_hash (kg_sha256 (cp_keys (la_conf api))) MANIFEST_TAG x = tagged_hash (kg_sha256 (cp_keys (la_conf api))) MANIFEST_TAG y \<longrightarrow> x = y"
  shows "lv_wallet_id lv = nd_wallet_id node \<and> lv_network lv = nd_network node \<and> lv_coordinator_pubkey lv = nd_coordinator_auth node \<and>
    max_derivation_index (lv_check_params lv) = max_derivation_index (nd_check_params node) \<and>
    hot_max_per_tx (lv_check_params lv) = hot_max_per_tx (nd_check_params node) \<and> lv_escape_feerate_floor lv = nd_escape_feerate_floor node \<and>
    unat (lv_escape_coverage_pct lv) = nd_escape_coverage_pct node \<and> lv_escape_bump_max_fee_pct lv = cf_escape_bump_max_fee_pct c \<and>
    (\<exists>e e'. escape (lv_check_params lv) = Some e \<and> escape (nd_check_params node) = Some e' \<and> la_show_wallet api e = la_show_wallet api e') \<and>
    la_show_wallet api ` set (allowed (lv_check_params lv)) = la_show_wallet api ` set (allowed (nd_check_params node))"
proof -
  have tr: "la_conf (load_api.truncate api) = la_conf api" "la_show_wallet (load_api.truncate api) = la_show_wallet api"
    "la_toml (load_api.truncate api) = la_toml api" by (simp_all add: load_api.defs)
  note nd = loaded_node_manifest [OF assms(3,4), unfolded tr, OF assms(5), folded sealed_def]
  note live = live_vault_manifest [OF assms(1,2)]
  from live(1) nd(1) obtain x y where x: "base_manifest_bytes b = Ok x" and y: "base_manifest_bytes sealed = Ok y"
    and "tagged_hash (kg_sha256 (cp_keys (la_conf api))) MANIFEST_TAG x = tagged_hash (kg_sha256 (cp_keys (la_conf api))) MANIFEST_TAG y"
    using assms(6) by (auto simp: compute_manifest_hash_Ok)
  with assms(14) have "base_manifest_bytes b = base_manifest_bytes sealed" by simp
  then have q: "manifest_equiv b sealed"
    using manifest_preimage_faithful [OF assms(8,9) base_manifest_network [OF x] base_manifest_network [OF y]] by blast
  from nd(5) obtain e where e: "escape (nd_check_params node) = Some e" "la_show_wallet api e \<in> la_show_wallet api ` set (allowed (nd_check_params node))" by blast
  have fields: "bm_wallet_id b = bm_wallet_id sealed" "bm_network b = bm_network sealed" "bm_coordinator_auth b = bm_coordinator_auth sealed"
    "bm_max_derivation_index b = bm_max_derivation_index sealed" "bm_hot_max_per_tx b = bm_hot_max_per_tx sealed"
    "bm_escape_feerate_floor b = bm_escape_feerate_floor sealed" "bm_escape_coverage_pct b = bm_escape_coverage_pct sealed"
    "bm_escape_bump_max_fee_pct b = bm_escape_bump_max_fee_pct sealed" "bm_escape_descriptor b = bm_escape_descriptor sealed"
    "set (bm_hot_allowlist b) = set (bm_hot_allowlist sealed)"
    using q by (cases b, cases sealed, simp add: manifest_equiv_def)+
  have s: "bm_wallet_id sealed = nd_wallet_id node" "bm_network sealed = nd_network node" "bm_coordinator_auth sealed = nd_coordinator_auth node"
    "bm_escape_descriptor sealed = la_show_wallet api e" "bm_escape_bump_max_fee_pct sealed = cf_escape_bump_max_fee_pct c"
    "set (bm_hot_allowlist sealed) = la_show_wallet api ` set (allowed (nd_check_params node)) - {la_show_wallet api e}"
    "unat (bm_max_derivation_index sealed) = max_derivation_index (nd_check_params node)" "unat (bm_escape_coverage_pct sealed) = nd_escape_coverage_pct node"
    "bm_hot_max_per_tx sealed = word_of_nat (hot_max_per_tx (nd_check_params node))" "bm_escape_feerate_floor sealed = word_of_nat (nd_escape_feerate_floor node)"
    using e nd(2-4) by (auto simp: sealed_def node_manifest_def manifest_of_def node_values_def Let_def unat_of_nat take_bit_nat_eq_self)
  from live fields s e word64_inj assms(10-13) show ?thesis by auto
qed

end
