(* ===== verification/Core_View.thy ===== *)
theory Core_View
  imports Core_Rpc Sealed_Vault
begin

text \<open>
  The read-only view of Bitcoin Core that the user's tool composes over, \<open>crates/vault-cli/src/core_view.rs\<close>: the eight typed
  reads as a record of operations on an unknown world, and the adapter that implements them over one funnel: the cookie is
  read for every call, one framed HTTP reply is required, and its JSON envelope must be coherent. The HTTP exchange, base64 and
  the JSON parser are the argument \<open>view_transport\<close>; the text formats are the \<open>core_api\<close> of the backend client.
\<close>

subsection \<open>The typed reads\<close>

record chain_info =
  ci_identity :: blockchain_info
  ci_initial_block_download :: bool
  ci_best_block :: block_hash

record scan_coin =
  sn_outpoint :: outpoint
  sn_value :: u64
  sn_script :: script
  sn_height :: "32 word"

record vault_scan =
  sn_best_block :: block_hash
  sn_coins :: "scan_coin list"

record txout_view =
  tv_best_block :: block_hash
  tv_confirmations :: u64
  tv_value :: u64
  tv_script :: script
  tv_coinbase :: bool

record floors =
  fl_incremental_relay :: u64
  fl_mempool_min :: u64

datatype view_error =
    CookieFile secret_error | CookieMalformed | NoFramedReply | NotExchanged | ReplyNotUtf8 | NotOneValue | SecondValue | ForeignId
  | ResultAndError | ViewRefused "int option" | ResultBadStatus | NoResultNoError | FieldMissing string | NotLoopbackCore

record 'w user_core_view =
  cv_chain_info :: "('w, view_error, chain_info) chain_io"
  cv_best_block_hash :: "('w, view_error, block_hash) chain_io"
  cv_scan_vault_script :: "script \<Rightarrow> ('w, view_error, vault_scan) chain_io"
  cv_txout :: "outpoint \<Rightarrow> ('w, view_error, txout_view option) chain_io"
  cv_block_hash :: "32 word \<Rightarrow> ('w, view_error, block_hash option) chain_io"
  cv_block_transaction :: "txid \<Rightarrow> block_hash \<Rightarrow> ('w, view_error, transaction option) chain_io"
  cv_fee_estimate :: "('w, view_error, u64 option) chain_io"
  cv_fee_floors :: "('w, view_error, floors) chain_io"

subsection \<open>The funnel\<close>

definition RPC_ID :: string where "RPC_ID = ''btc-vault-core-view''"
definition VIEW_INVALID_ADDRESS_OR_KEY :: int where "VIEW_INVALID_ADDRESS_OR_KEY = -5"
definition VIEW_INVALID_PARAMETER :: int where "VIEW_INVALID_PARAMETER = -8"

datatype absent = NeverAbsent | NullResult | AbsentCode int

text \<open>The outcome of one exchange: a status with its body when it was framed whole, or no status.\<close>

datatype attempt = AttemptStatus nat "bytes option" | AttemptNotSent | AttemptNoStatus

record 'w view_transport =
  vt_cookie :: "'w \<Rightarrow> secret_file \<times> 'w"
  vt_base64 :: "bytes \<Rightarrow> string"
  vt_post :: "string \<Rightarrow> string \<Rightarrow> json \<Rightarrow> 'w \<Rightarrow> attempt \<times> 'w"
  vt_values :: "string \<Rightarrow> json option list"
  vt_formats :: core_api
  vt_tx :: tx_api

definition not_null :: "json option \<Rightarrow> json option" where
  "not_null v = (if v = Some JNull then None else v)"

definition core_reply :: "json option list \<Rightarrow> nat \<Rightarrow> absent \<Rightarrow> view_error + json" where
  "core_reply values status absnt =
     (case values of
        Some r # rest \<Rightarrow>
          if rest \<noteq> [] then Err SecondValue
          else if Option.bind (json_get r ''id'') as_str \<noteq> Some RPC_ID then Err ForeignId
          else let err = not_null (json_get r ''error''); res = not_null (json_get r ''result'');
                   coded = Option.bind (Option.bind err (\<lambda>e. json_get e ''code'')) as_i64 in
            (case (err, res) of
               (Some _, Some _) \<Rightarrow> Err ResultAndError
             | (Some _, None) \<Rightarrow> (case absnt of
                   AbsentCode code \<Rightarrow> if status \<noteq> 200 \<and> coded = Some code then Ok JNull else Err (ViewRefused coded)
                 | _ \<Rightarrow> Err (ViewRefused coded))
             | (None, Some v) \<Rightarrow> if status \<noteq> 200 then Err ResultBadStatus else Ok v
             | (None, None) \<Rightarrow> if absnt = NullResult \<and> status = 200 \<and> json_get r ''result'' \<noteq> None then Ok JNull else Err NoResultNoError)
      | _ \<Rightarrow> Err NotOneValue)"

definition rpc_body :: "string \<Rightarrow> json list \<Rightarrow> json" where
  "rpc_body name params = JObj [(''jsonrpc'', JStr ''1.0''), (''id'', JStr RPC_ID), (''method'', JStr name), (''params'', JArr params)]"

definition rpc :: "'w view_transport \<Rightarrow> string \<Rightarrow> json list \<Rightarrow> absent \<Rightarrow> ('w, view_error, json) chain_io" where
  "rpc vt name params absnt w =
     (let (f, w1) = vt_cookie vt w in
      case read_core_cookie f of
        Inl e \<Rightarrow> (Err (CookieFile e), w1)
      | Inr t \<Rightarrow>
          let credential = trim t in
          if CHR 0x0D \<in> set credential \<or> CHR 0x0A \<in> set credential then (Err CookieMalformed, w1)
          else let (sent, w2) = vt_post vt name (vt_base64 vt (str_bytes credential)) (rpc_body name params) w1 in
            ((case sent of
                AttemptStatus status (Some body) \<Rightarrow>
                  (case from_utf8 body of None \<Rightarrow> Err ReplyNotUtf8 | Some txt \<Rightarrow> core_reply (vt_values vt txt) status absnt)
              | AttemptStatus status None \<Rightarrow> Err NoFramedReply
              | _ \<Rightarrow> Err NotExchanged), w2))"

definition core_rpc_new :: "('a \<Rightarrow> bool) \<Rightarrow> 'a \<Rightarrow> view_error + 'a" where
  "core_rpc_new loopback addr = (if loopback addr then Ok addr else Err NotLoopbackCore)"

subsection \<open>The adapter\<close>

definition view_parsed :: "(string \<Rightarrow> 'a option) \<Rightarrow> json option \<Rightarrow> string \<Rightarrow> view_error + 'a" where
  "view_parsed f v what = or_err (FieldMissing what) (Option.bind (Option.bind v as_str) f)"

definition view_u64 :: "json option \<Rightarrow> string \<Rightarrow> view_error + u64" where
  "view_u64 v what = or_err (FieldMissing what) (Option.bind v as_u64)"

definition view_btc :: "'w view_transport \<Rightarrow> json option \<Rightarrow> string \<Rightarrow> view_error + u64" where
  "view_btc vt v what = or_err (FieldMissing what) (Option.bind v (ca_sats (vt_formats vt)))"

definition view_u32 :: "u64 \<Rightarrow> string \<Rightarrow> view_error + 32 word" where
  "view_u32 n what = (if n < 2 ^ 32 then Ok (word_of_nat n) else Err (FieldMissing what))"

definition rpc_chain_info :: "'w view_transport \<Rightarrow> ('w, view_error, chain_info) chain_io" where
  "rpc_chain_info vt =
     io_bind (rpc vt ''getblockchaininfo'' [] NeverAbsent) (\<lambda>info.
     io_res (bind_res (or_err (FieldMissing ''initialblockdownload'') (Option.bind (json_get info ''initialblockdownload'') as_bool)) (\<lambda>ibd.
       bind_res (view_parsed (ca_hash_of_str (vt_formats vt)) (json_get info ''bestblockhash'') ''bestblockhash'') (\<lambda>best.
         Ok \<lparr>ci_identity = \<lparr>bi_chain = Option.bind (json_get info ''chain'') as_str,
               bi_signet_challenge = Option.bind (json_get info ''signet_challenge'') as_str, bi_initialblockdownload = Some ibd\<rparr>,
             ci_initial_block_download = ibd, ci_best_block = best\<rparr>))))"

definition rpc_best_block_hash :: "'w view_transport \<Rightarrow> ('w, view_error, block_hash) chain_io" where
  "rpc_best_block_hash vt =
     io_bind (rpc vt ''getbestblockhash'' [] NeverAbsent) (\<lambda>h. io_res (view_parsed (ca_hash_of_str (vt_formats vt)) (Some h) ''getbestblockhash''))"

definition scan_record :: "'w view_transport \<Rightarrow> json \<Rightarrow> view_error + scan_coin" where
  "scan_record vt r =
     bind_res (view_u64 (json_get r ''height'') ''height'') (\<lambda>height.
     bind_res (view_parsed (ca_txid_of_str (vt_formats vt)) (json_get r ''txid'') ''txid'') (\<lambda>txid.
     bind_res (view_u64 (json_get r ''vout'') ''vout'') (\<lambda>vout.
     bind_res (view_u32 vout ''vout'') (\<lambda>vout32.
     bind_res (view_btc vt (json_get r ''amount'') ''amount'') (\<lambda>amount.
     bind_res (view_parsed (ca_script_of_hex (vt_formats vt)) (json_get r ''scriptPubKey'') ''scriptPubKey'') (\<lambda>spk.
     bind_res (view_u32 height ''height'') (\<lambda>height32.
       Ok \<lparr>sn_outpoint = \<lparr>op_txid = txid, op_vout = vout32\<rparr>, sn_value = amount, sn_script = spk, sn_height = height32\<rparr>)))))))"

definition rpc_scan_vault_script :: "'w view_transport \<Rightarrow> script \<Rightarrow> ('w, view_error, vault_scan) chain_io" where
  "rpc_scan_vault_script vt spk =
     io_bind (rpc vt ''scantxoutset'' [JStr ''start'', JArr [JStr (''raw('' @ ca_hex (vt_formats vt) spk @ '')'')]] NeverAbsent) (\<lambda>r.
     io_res (bind_res (require (Option.bind (json_get r ''success'') as_bool = Some True) (FieldMissing ''success'')) (\<lambda>_.
       bind_res (view_parsed (ca_hash_of_str (vt_formats vt)) (json_get r ''bestblock'') ''bestblock'') (\<lambda>best.
       bind_res (or_err (FieldMissing ''unspents'') (Option.bind (json_get r ''unspents'') as_array)) (\<lambda>records.
       bind_res (collect_res (scan_record vt) records) (\<lambda>coins. Ok \<lparr>sn_best_block = best, sn_coins = coins\<rparr>))))))"

definition txout_of :: "'w view_transport \<Rightarrow> json \<Rightarrow> view_error + txout_view option" where
  "txout_of vt v =
     (if v = JNull then Ok None
      else bind_res (view_parsed (ca_hash_of_str (vt_formats vt)) (json_get v ''bestblock'') ''bestblock'') (\<lambda>best.
        bind_res (view_u64 (json_get v ''confirmations'') ''confirmations'') (\<lambda>confirmations.
        bind_res (view_btc vt (json_get v ''value'') ''value'') (\<lambda>val.
        bind_res (view_parsed (ca_script_of_hex (vt_formats vt)) (Option.bind (json_get v ''scriptPubKey'') (\<lambda>s. json_get s ''hex'')) ''hex'') (\<lambda>spk.
        bind_res (or_err (FieldMissing ''coinbase'') (Option.bind (json_get v ''coinbase'') as_bool)) (\<lambda>cb.
          Ok (Some \<lparr>tv_best_block = best, tv_confirmations = confirmations, tv_value = val, tv_script = spk, tv_coinbase = cb\<rparr>)))))))"

definition rpc_txout :: "'w view_transport \<Rightarrow> outpoint \<Rightarrow> ('w, view_error, txout_view option) chain_io" where
  "rpc_txout vt outp =
     io_bind (rpc vt ''gettxout'' [JStr (ca_show_txid (vt_formats vt) (op_txid outp)), JInt (int (unat (op_vout outp))), JBool True] NullResult) (\<lambda>v.
       io_res (txout_of vt v))"

definition rpc_block_hash :: "'w view_transport \<Rightarrow> 32 word \<Rightarrow> ('w, view_error, block_hash option) chain_io" where
  "rpc_block_hash vt height =
     io_bind (rpc vt ''getblockhash'' [JInt (int (unat height))] (AbsentCode VIEW_INVALID_PARAMETER)) (\<lambda>h.
       if h = JNull then io_return None
       else io_res (bind_res (view_parsed (ca_hash_of_str (vt_formats vt)) (Some h) ''getblockhash'') (\<lambda>x. Ok (Some x))))"

definition rpc_block_transaction :: "'w view_transport \<Rightarrow> txid \<Rightarrow> block_hash \<Rightarrow> ('w, view_error, transaction option) chain_io" where
  "rpc_block_transaction vt txid block =
     io_bind (rpc vt ''getrawtransaction'' [JStr (ca_show_txid (vt_formats vt) txid), JBool False, JStr (ca_show_hash (vt_formats vt) block)]
        (AbsentCode VIEW_INVALID_ADDRESS_OR_KEY)) (\<lambda>raw.
       if raw = JNull then io_return None
       else io_res (bind_res (view_parsed (\<lambda>hex. Option.bind (ca_bytes_of_hex (vt_formats vt) hex) (tx_deserialize (vt_tx vt))) (Some raw) ''getrawtransaction'')
         (\<lambda>tx. Ok (Some tx))))"

definition rpc_fee_estimate :: "'w view_transport \<Rightarrow> ('w, view_error, u64 option) chain_io" where
  "rpc_fee_estimate vt =
     io_bind (rpc vt ''estimatesmartfee'' [JInt 6, JStr ''CONSERVATIVE''] NeverAbsent) (\<lambda>estimate.
     io_res (case estimate of
         JObj _ \<Rightarrow> (case not_null (json_get estimate ''feerate'') of
             None \<Rightarrow> Ok None
           | Some rate \<Rightarrow> bind_res (view_btc vt (Some rate) ''feerate'') (\<lambda>r. Ok (Some r)))
       | _ \<Rightarrow> Err (FieldMissing ''estimatesmartfee'')))"

definition rpc_fee_floors :: "'w view_transport \<Rightarrow> ('w, view_error, floors) chain_io" where
  "rpc_fee_floors vt =
     io_bind (rpc vt ''getmempoolinfo'' [] NeverAbsent) (\<lambda>info.
     io_res (bind_res (view_btc vt (json_get info ''incrementalrelayfee'') ''incrementalrelayfee'') (\<lambda>inc.
       bind_res (view_btc vt (json_get info ''mempoolminfee'') ''mempoolminfee'') (\<lambda>mn.
         Ok \<lparr>fl_incremental_relay = inc, fl_mempool_min = mn\<rparr>))))"

definition core_rpc_view :: "'w view_transport \<Rightarrow> 'w user_core_view" where
  "core_rpc_view vt = \<lparr>cv_chain_info = rpc_chain_info vt, cv_best_block_hash = rpc_best_block_hash vt, cv_scan_vault_script = rpc_scan_vault_script vt,
     cv_txout = rpc_txout vt, cv_block_hash = rpc_block_hash vt, cv_block_transaction = rpc_block_transaction vt, cv_fee_estimate = rpc_fee_estimate vt,
     cv_fee_floors = rpc_fee_floors vt\<rparr>"

subsection \<open>What an accepted reply is\<close>

lemma not_null_Some [simp]: "not_null v = Some x \<longleftrightarrow> v = Some x \<and> x \<noteq> JNull"
  by (auto simp: not_null_def)

lemma not_null_None: "not_null v = None \<longleftrightarrow> v = None \<or> v = Some JNull"
  by (auto simp: not_null_def)

text \<open>Absence and result are two coherent forms of one envelope: a call that accepts no absence returns a non-null result that
  came alone, with this request's id and status 200.\<close>

lemma core_reply_result:
  assumes "core_reply vs status absnt = Ok v" and "v \<noteq> JNull \<or> absnt = NeverAbsent"
  shows "\<exists>r. vs = [Some r] \<and> json_get r ''id'' = Some (JStr RPC_ID) \<and> json_get r ''result'' = Some v \<and> v \<noteq> JNull \<and>
    (json_get r ''error'' = None \<or> json_get r ''error'' = Some JNull) \<and> status = 200"
proof -
  have id: "Option.bind x as_str = Some s \<Longrightarrow> x = Some (JStr s)" for x s by (cases x) (auto elim!: as_str.elims)
  from assms obtain r where "vs = [Some r]" by (auto simp: core_reply_def split: list.splits option.splits if_splits)
  with assms show ?thesis
    by (auto simp: core_reply_def Let_def not_null_None split: if_splits option.splits absent.splits dest!: id)
qed

end
