(* ===== verification/User_Signer.thy ===== *)
theory User_Signer
  imports Sealed_Vault
begin

text \<open>
  The user's signer, \<open>crates/vault-cli/src/signer.rs\<close>: a request is a group of transactions, every member is rebuilt from the
  full previous transactions of its inputs, judged by the sealed policy, and the group must have one of the shapes a node can
  combine; only then is every input signed, after the operator's display was rendered from the same data. The erasure of secrets is not
  modelled.
\<close>

subsection \<open>Requests and members\<close>

record spend_authorization =
  au_spend :: psbt
  au_escape :: psbt
  au_escape_bumps :: "psbt list"

datatype user_authorization = AuthorizeSpend bytes spend_authorization | AuthorizeRefresh bytes psbt

record group_member =
  mb_psbt :: psbt
  mb_class :: tx_class
  mb_total_in :: u64
  mb_fee :: u64
  mb_outflow :: u64
  mb_outpoints :: "outpoint list"

datatype signer_error =
    UserKeyFile secret_error | ForeignUserKey | NoSealedScript | NoSealedWeight | MapsDoNotFit | CarriesScriptSig nat | CarriesWitness nat
  | SpentTwice nat | SighashBeyondAll nat | NoPreviousTx nat | PreviousTxMismatch nat | VoutPastPreviousTx nat | UtxoDisagrees nat
  | ForeignWitnessScript nat | InputValueOverflow | OutputValueOverflow | OutputsExceedInputs | PolicyRefused policy_error | NotARefresh
  | TooManyRungs nat | NotCombinable | EscapeNotFinal | RungShape nat | RungNotSignalling nat | RungLacksBase nat | RungRaisesOutput nat
  | RungFeeNotOver nat | RungSizeOverflow | RungUnderRelay nat | RungOverCeiling nat | LostPrevout nat | NotSealedCoin nat | NoSighash nat | BadScalar

text \<open>The state of the loop over the inputs: value so far, and the normalized maps and outpoints in reverse.\<close>

definition member_input :: "'d user_api \<Rightarrow> script \<Rightarrow> outpoint list \<Rightarrow> nat \<Rightarrow> txin \<Rightarrow> psbt_input \<Rightarrow> signer_error + txout" where
  "member_input api sealed_script seen i input pin =
     (if script_sig input \<noteq> [] then Err (CarriesScriptSig i)
      else if txin_witness input \<noteq> [] then Err (CarriesWitness i)
      else if previous_output input \<in> set seen then Err (SpentTwice i)
      else if (case psbt_sighash_type pin of None \<Rightarrow> False | Some t \<Rightarrow> t \<noteq> SIGHASH_ALL) then Err (SighashBeyondAll i)
      else (case non_witness_utxo pin of
          None \<Rightarrow> Err (NoPreviousTx i)
        | Some prevtx \<Rightarrow>
            if sa_txid (cp_sig (la_conf api)) prevtx \<noteq> op_txid (previous_output input) then Err (PreviousTxMismatch i)
            else if length (tx_output prevtx) \<le> unat (op_vout (previous_output input)) then Err (VoutPastPreviousTx i)
            else let canonical = tx_output prevtx ! unat (op_vout (previous_output input)) in
              if (case witness_utxo pin of None \<Rightarrow> False | Some c \<Rightarrow> c \<noteq> canonical) then Err (UtxoDisagrees i)
              else if (case witness_script pin of None \<Rightarrow> False | Some s \<Rightarrow> s \<noteq> sealed_script) then Err (ForeignWitnessScript i)
              else Ok canonical))"

definition normalize_input :: "script \<Rightarrow> txout \<Rightarrow> psbt_input \<Rightarrow> psbt_input" where
  "normalize_input sealed_script canonical pin = pin\<lparr>witness_utxo := Some canonical, witness_script := Some sealed_script\<rparr>"

fun member_inputs ::
  "'d user_api \<Rightarrow> script \<Rightarrow> outpoint list \<Rightarrow> nat \<Rightarrow> u64 \<Rightarrow> (txin \<times> psbt_input) list \<Rightarrow> signer_error + u64 \<times> psbt_input list" where
  "member_inputs api sealed_script seen i tin [] = Ok (tin, [])"
| "member_inputs api sealed_script seen i tin ((input, pin) # rest) =
     bind_res (member_input api sealed_script seen i input pin) (\<lambda>canonical.
     bind_res (or_err InputValueOverflow (checked_add64 tin (txo_value canonical))) (\<lambda>tin'.
     bind_res (member_inputs api sealed_script (previous_output input # seen) (Suc i) tin' rest) (\<lambda>(total, pins).
       Ok (total, normalize_input sealed_script canonical pin # pins))))"

fun checked_sum :: "u64 \<Rightarrow> u64 list \<Rightarrow> u64 option" where
  "checked_sum acc [] = Some acc"
| "checked_sum acc (v # vs) = Option.bind (checked_add64 acc v) (\<lambda>s. checked_sum s vs)"

definition member :: "'d user_api \<Rightarrow> 'd live_vault \<Rightarrow> script \<Rightarrow> psbt \<Rightarrow> signer_error + group_member" where
  "member api lv sealed_script p =
     (let tx = unsigned_tx p in
      if (length (psbt_inputs p), length (psbt_outputs p)) \<noteq> (length (tx_input tx), length (tx_output tx)) then Err MapsDoNotFit
      else bind_res (member_inputs api sealed_script [] 0 0 (zip (tx_input tx) (psbt_inputs p))) (\<lambda>(tin, pins).
      bind_res (or_err OutputValueOverflow (checked_sum 0 (map txo_value (tx_output tx)))) (\<lambda>tout.
      if tin < tout then Err OutputsExceedInputs
      else let normalized = p\<lparr>psbt_inputs := pins\<rparr>;
               kept = filter (\<lambda>out. script_pubkey out = ua_script_pubkey api (lv_descriptor lv)) (tx_output tx);
               outflow = tout - sum_list (map txo_value kept) in
        bind_res (map_err PolicyRefused (evaluate (la_desc api) normalized (lv_check_params lv))) (\<lambda>_.
        bind_res (map_err PolicyRefused (classify (la_desc api) normalized (lv_check_params lv))) (\<lambda>cls.
          Ok \<lparr>mb_psbt = normalized, mb_class = cls_class cls, mb_total_in = tin, mb_fee = tin - tout, mb_outflow = outflow,
               mb_outpoints = map previous_output (tx_input tx)\<rparr>)))))"

subsection \<open>The group\<close>

definition pair_labels :: "group_member \<Rightarrow> group_member \<Rightarrow> signer_error + string \<times> string" where
  "pair_labels spend esc =
     (let a = set (mb_outpoints spend); b = set (mb_outpoints esc);
          filled = (a \<noteq> {} \<and> b \<noteq> {}); dis = (a \<inter> b = {}) in
      if mb_class spend = Hot \<and> mb_class esc = Escape \<and> filled \<and> a = b
      then Ok (''primary hot-destination transaction'', ''escape-destination transaction'')
      else if mb_class spend = Escape \<and> mb_class esc = Escape \<and> filled \<and> dis
      then Ok (''escape-destination transaction 1'', ''escape-destination transaction 2'')
      else Err NotCombinable)"

definition unladdered :: "group_member \<Rightarrow> signer_error + unit" where
  "unladdered esc = (if list_ex (\<lambda>inp. sequence inp \<noteq> 0xffffffff) (tx_input (unsigned_tx (mb_psbt esc))) then Err EscapeNotFinal else Ok ())"

definition rung_form :: "32 word \<Rightarrow> nat \<Rightarrow> group_member \<Rightarrow> signer_error + unit" where
  "rung_form base_version i rg =
     (let tx = unsigned_tx (mb_psbt rg) in
      if tx_version tx \<noteq> base_version \<or> tx_lock_time tx \<noteq> 0 then Err (RungShape i)
      else if list_ex (\<lambda>inp. sequence inp \<noteq> ESCAPE_RBF_SEQUENCE) (tx_input tx) then Err (RungNotSignalling i)
      else Ok ())"

fun check_rungs ::
  "'d user_api \<Rightarrow> u64 \<Rightarrow> byte \<Rightarrow> group_member \<Rightarrow> nat \<Rightarrow> u64 list \<Rightarrow> u64 \<Rightarrow> group_member list \<Rightarrow> signer_error + unit" where
  "check_rungs api weight pct bas i previous_values previous_fee [] = Ok ()"
| "check_rungs api weight pct bas i previous_values previous_fee (rg # rgs) =
     (let tx = unsigned_tx (mb_psbt rg); raised = map txo_value (tx_output tx) in
      bind_res (rung_form (tx_version (unsigned_tx (mb_psbt bas))) i rg) (\<lambda>_.
      if mb_outpoints rg \<noteq> mb_outpoints bas \<or> map script_pubkey (tx_output tx) \<noteq> map script_pubkey (tx_output (unsigned_tx (mb_psbt bas)))
      then Err (RungLacksBase i)
      else if list_ex (\<lambda>(v, p). v > p) (zip raised previous_values) then Err (RungRaisesOutput i)
      else if mb_fee rg \<le> previous_fee then Err (RungFeeNotOver i)
      else (case escape_replacement_min_fee_delta (ua_tx api) weight tx of
          None \<Rightarrow> Err RungSizeOverflow
        | Some minimum \<Rightarrow>
            if mb_fee rg - previous_fee < minimum then Err (RungUnderRelay i)
            else if mb_fee rg * 100 > mb_total_in rg * unat pct then Err (RungOverCeiling i)
            else check_rungs api weight pct bas (Suc i) raised (mb_fee rg) rgs)))"

definition check_ladder :: "'d user_api \<Rightarrow> 'd live_vault \<Rightarrow> group_member \<Rightarrow> group_member list \<Rightarrow> signer_error + unit" where
  "check_ladder api lv bas rgs =
     (if rgs = [] then unladdered bas
      else bind_res (or_err NoSealedWeight (la_max_weight api (lv_descriptor lv))) (\<lambda>weight.
      bind_res (rung_form (tx_version (unsigned_tx (mb_psbt bas))) 0 bas) (\<lambda>_.
        check_rungs api weight (lv_escape_bump_max_fee_pct lv) bas 1 (map txo_value (tx_output (unsigned_tx (mb_psbt bas)))) (mb_fee bas) rgs)))"

fun members :: "'d user_api \<Rightarrow> 'd live_vault \<Rightarrow> script \<Rightarrow> psbt list \<Rightarrow> signer_error + group_member list" where
  "members api lv sealed_script [] = Ok []"
| "members api lv sealed_script (p # ps) =
     bind_res (member api lv sealed_script p) (\<lambda>m. bind_res (members api lv sealed_script ps) (\<lambda>ms. Ok (m # ms)))"

text \<open>The validated group, each member with its label.\<close>

record group =
  gr_hint :: bytes
  gr_members :: "(string \<times> group_member) list"

definition prepare :: "'d user_api \<Rightarrow> 'd live_vault \<Rightarrow> user_authorization \<Rightarrow> signer_error + group" where
  "prepare api lv req =
     bind_res (or_err NoSealedScript (la_explicit_script api (lv_descriptor lv))) (\<lambda>sealed_script.
     case req of
       AuthorizeRefresh wallet p \<Rightarrow>
         bind_res (member api lv sealed_script p) (\<lambda>refresh.
           if mb_class refresh \<noteq> Refresh then Err NotARefresh
           else Ok \<lparr>gr_hint = wallet, gr_members = [(''vault-refresh transaction'', refresh)]\<rparr>)
     | AuthorizeSpend wallet au \<Rightarrow>
         if length (au_escape_bumps au) > MAX_ESCAPE_BUMPS then Err (TooManyRungs (length (au_escape_bumps au)))
         else bind_res (member api lv sealed_script (au_spend au)) (\<lambda>spend.
         bind_res (member api lv sealed_script (au_escape au)) (\<lambda>esc.
         bind_res (members api lv sealed_script (au_escape_bumps au)) (\<lambda>rgs.
         bind_res (pair_labels spend esc) (\<lambda>(label0, label1).
         bind_res (if mb_class spend = Escape then unladdered spend else Ok ()) (\<lambda>_.
         bind_res (check_ladder api lv esc rgs) (\<lambda>_.
           Ok \<lparr>gr_hint = wallet, gr_members = (label0, spend) # (label1, esc) #
                  map (\<lambda>(n, rg). (label1 @ '' fee-bump '' @ show_nat n, rg)) (zip [1..<Suc (length rgs)] rgs)\<rparr>)))))))"

subsection \<open>The display\<close>

definition output_line :: "'d user_api \<Rightarrow> 'd live_vault \<Rightarrow> nat \<Rightarrow> txout \<Rightarrow> string" where
  "output_line api lv n out =
     (let spk = script_pubkey out;
          payee = (case ua_address api spk (lv_network lv) of None \<Rightarrow> ''script '' @ kg_to_hex (cp_keys (la_conf api)) spk | Some a \<Rightarrow> a);
          marker = (if spk = ua_script_pubkey api (lv_descriptor lv) then '' (vault change)'' else []) in
      ''  output '' @ show_nat n @ '': '' @ show_nat (txo_value out) @ '' sat to '' @ payee @ marker)"

definition member_lines :: "'d user_api \<Rightarrow> 'd live_vault \<Rightarrow> string \<times> group_member \<Rightarrow> string list" where
  "member_lines api lv = (\<lambda>(label, mb).
     (label @ '': '' @ show_nat (mb_fee mb) @ '' sat fee, '' @ show_nat (mb_outflow mb) @ '' sat leaving the vault, '' @ show_nat (length (mb_outpoints mb)) @ '' input(s)'') #
     map (\<lambda>(n, out). output_line api lv n out) (enumerate 0 (tx_output (unsigned_tx (mb_psbt mb)))))"

definition display_lines :: "'d user_api \<Rightarrow> 'd live_vault \<Rightarrow> group \<Rightarrow> string list" where
  "display_lines api lv grp =
     (''vault '' @ kg_to_hex (cp_keys (la_conf api)) (gr_hint grp) @ '' authorization (caller hint; the sealed state is authority)'') #
     concat (map (member_lines api lv) (gr_members grp))"

fun join_lines :: "string list \<Rightarrow> string" where
  "join_lines [] = []"
| "join_lines [l] = l"
| "join_lines (l # l' # ls) = l @ CHR 0x0A # join_lines (l' # ls)"

definition display :: "'d user_api \<Rightarrow> 'd live_vault \<Rightarrow> group \<Rightarrow> string" where
  "display api lv grp = join_lines (display_lines api lv grp)"

definition describe :: "'d user_api \<Rightarrow> 'd live_vault \<Rightarrow> user_authorization \<Rightarrow> signer_error + string" where
  "describe api lv req = bind_res (prepare api lv req) (\<lambda>grp. Ok (display api lv grp))"

subsection \<open>Signing\<close>

text \<open>The messages of one transaction, all built before the first signature.\<close>

fun input_messages :: "'d user_api \<Rightarrow> 'd live_vault \<Rightarrow> script \<Rightarrow> transaction \<Rightarrow> nat \<Rightarrow> psbt_input list \<Rightarrow> signer_error + digest list" where
  "input_messages api lv sealed_script tx i [] = Ok []"
| "input_messages api lv sealed_script tx i (pin # pins) =
     bind_res (or_err (LostPrevout i) (witness_utxo pin)) (\<lambda>utxo.
     bind_res (require (script_pubkey utxo = ua_script_pubkey api (lv_descriptor lv)) (NotSealedCoin i)) (\<lambda>_.
     bind_res (or_err (NoSighash i) (sa_sighash (cp_sig (la_conf api)) tx i sealed_script (txo_value utxo))) (\<lambda>msg.
     bind_res (input_messages api lv sealed_script tx (Suc i) pins) (\<lambda>msgs. Ok (msg # msgs)))))"

fun group_messages :: "'d user_api \<Rightarrow> 'd live_vault \<Rightarrow> script \<Rightarrow> psbt list \<Rightarrow> signer_error + digest list list" where
  "group_messages api lv sealed_script [] = Ok []"
| "group_messages api lv sealed_script (p # ps) =
     bind_res (input_messages api lv sealed_script (unsigned_tx p) 0 (psbt_inputs p)) (\<lambda>ms.
     bind_res (group_messages api lv sealed_script ps) (\<lambda>mss. Ok (ms # mss)))"

definition sign_input :: "'d user_api \<Rightarrow> 'd live_vault \<Rightarrow> bytes \<Rightarrow> digest \<Rightarrow> psbt_input \<Rightarrow> psbt_input" where
  "sign_input api lv scalar msg pin =
     pin\<lparr>partial_sigs := hm_insert (vt_user_key (lv_template lv)) \<lparr>signature = cp_sign (la_conf api) scalar msg, sig_sighash_type = SIGHASH_ALL\<rparr>
       (partial_sigs pin)\<rparr>"

definition sign_member :: "'d user_api \<Rightarrow> 'd live_vault \<Rightarrow> bytes \<Rightarrow> digest list \<Rightarrow> psbt \<Rightarrow> psbt" where
  "sign_member api lv scalar msgs p = p\<lparr>psbt_inputs := map (\<lambda>(msg, pin). sign_input api lv scalar msg pin) (zip msgs (psbt_inputs p))\<rparr>"

definition authorize :: "'d user_api \<Rightarrow> 'd live_vault \<Rightarrow> bytes \<Rightarrow> user_authorization \<Rightarrow> signer_error + string \<times> psbt list" where
  "authorize api lv secret req =
     bind_res (prepare api lv req) (\<lambda>grp.
     let shown = display api lv grp in
     bind_res (or_err NoSealedScript (la_explicit_script api (lv_descriptor lv))) (\<lambda>sealed_script.
     let ps = map (\<lambda>lm. mb_psbt (snd lm)) (gr_members grp) in
     bind_res (group_messages api lv sealed_script ps) (\<lambda>messages.
     bind_res (or_err BadScalar (kg_seckey_of_slice (cp_keys (la_conf api)) secret)) (\<lambda>scalar.
       Ok (shown, map (\<lambda>(msgs, p). sign_member api lv scalar msgs p) (zip messages ps))))))"

definition load_user_key :: "'d user_api \<Rightarrow> 'd live_vault \<Rightarrow> secret_file \<Rightarrow> signer_error + bytes" where
  "load_user_key api lv f =
     bind_res (map_err UserKeyFile (read_secret f)) (\<lambda>t.
     bind_res (or_err (UserKeyFile SecretNotAKey) (ua_seckey_of_str api (trim t))) (\<lambda>scalar.
     bind_res (require (kg_public_key (cp_keys (la_conf api)) scalar = vt_user_key (lv_template lv)) ForeignUserKey) (\<lambda>_. Ok scalar)))"

end
