(* ===== verification/User_Sound.thy ===== *)
theory User_Sound
  imports User_Signer
begin

text \<open>
  What the user's signer has established when it signs, and that a node of the same vault asks nothing more of the signed
  group: its signatures, its policy and its ladder pass the node's own checks.
\<close>

subsection \<open>Members\<close>

definition authentic_input :: "'d user_api \<Rightarrow> txin \<Rightarrow> psbt_input \<Rightarrow> bool" where
  "authentic_input api input pin \<longleftrightarrow> (\<exists>prevtx. non_witness_utxo pin = Some prevtx \<and> sa_txid (cp_sig (la_conf api)) prevtx = op_txid (previous_output input) \<and>
     unat (op_vout (previous_output input)) < length (tx_output prevtx) \<and>
     witness_utxo pin = Some (tx_output prevtx ! unat (op_vout (previous_output input))))"

lemma member_input_Ok:
  assumes "member_input api sealed_script seen i input pin = Ok canonical"
  shows "authentic_input api input (normalize_input sealed_script canonical pin)" "previous_output input \<notin> set seen"
  using assms by (auto simp: member_input_def authentic_input_def normalize_input_def Let_def split: if_splits option.splits)

text \<open>The normalized maps differ from the given ones in the previous output and the script only.\<close>

lemma member_inputs_Ok:
  assumes "member_inputs api sealed_script seen i tin xs = Ok (tot, pins)" and "tin \<le> u64_max"
  shows "length pins = length xs \<and> list_all2 (authentic_input api) (map fst xs) pins \<and> utxo_total tin pins = Some tot \<and> tot \<le> u64_max \<and>
    distinct (map (\<lambda>x. previous_output (fst x)) xs) \<and> (\<forall>x \<in> set xs. previous_output (fst x) \<notin> set seen)"
  using assms
proof (induction api sealed_script seen i tin xs arbitrary: tot pins rule: member_inputs.induct)
  case (2 api sealed_script seen i tin input pin rest)
  from 2(2) obtain canonical tin' pins' where m: "member_input api sealed_script seen i input pin = Ok canonical"
    and t: "checked_add64 tin (txo_value canonical) = Some tin'"
    and r: "member_inputs api sealed_script (previous_output input # seen) (Suc i) tin' rest = Ok (tot, pins')"
    and p: "pins = normalize_input sealed_script canonical pin # pins'"
    by (auto simp: bind_res_Ok_iff split: prod.splits)
  from t have t': "tin' \<le> u64_max" "sat_add64 tin (txo_value canonical) = tin'"
    by (auto simp: checked_add64_def sat_add64_def split: if_splits)
  from 2(1) [OF r t'(1)] t member_input_Ok [OF m] t'(2) show ?case
    by (auto simp: p or_err_def normalize_input_def)
qed auto

lemma checked_sum_Some: "checked_sum acc vs = Some s \<Longrightarrow> acc \<le> u64_max \<Longrightarrow> s = acc + sum_list vs \<and> s \<le> u64_max"
proof (induction vs arbitrary: acc)
  case (Cons v vs)
  from Cons.prems have "acc + v \<le> u64_max" "checked_sum (acc + v) vs = Some s"
    by (auto simp: checked_add64_def bind_eq_Some_conv split: if_splits)
  with Cons.IH [of "acc + v"] show ?case by simp
qed simp

definition member_ok_of :: "'d user_api \<Rightarrow> 'd live_vault \<Rightarrow> psbt \<Rightarrow> group_member \<Rightarrow> bool" where
  "member_ok_of api lv p mb \<longleftrightarrow> unsigned_tx (mb_psbt mb) = unsigned_tx p \<and> mb_outpoints mb = rung_inputs (mb_psbt mb) \<and>
     psbt_fee (mb_psbt mb) = Some (mb_fee mb) \<and> utxo_total 0 (psbt_inputs (mb_psbt mb)) = Some (mb_total_in mb) \<and> distinct (mb_outpoints mb) \<and>
     list_all2 (authentic_input api) (tx_input (unsigned_tx p)) (psbt_inputs (mb_psbt mb)) \<and>
     evaluate (la_desc api) (mb_psbt mb) (lv_check_params lv) = Ok () \<and>
     (\<exists>cls. classify (la_desc api) (mb_psbt mb) (lv_check_params lv) = Ok cls \<and> cls_class cls = mb_class mb)"

lemma member_Ok: "member api lv sealed_script p = Ok mb \<Longrightarrow> member_ok_of api lv p mb"
proof -
  assume "member api lv sealed_script p = Ok mb"
  then obtain tin pins tout cls where len: "length (psbt_inputs p) = length (tx_input (unsigned_tx p))"
    and i: "member_inputs api sealed_script [] 0 0 (zip (tx_input (unsigned_tx p)) (psbt_inputs p)) = Ok (tin, pins)"
    and o: "checked_sum 0 (map txo_value (tx_output (unsigned_tx p))) = Some tout"
    and e: "evaluate (la_desc api) (p\<lparr>psbt_inputs := pins\<rparr>) (lv_check_params lv) = Ok ()"
    and c: "classify (la_desc api) (p\<lparr>psbt_inputs := pins\<rparr>) (lv_check_params lv) = Ok cls"
    and mb: "mb_psbt mb = p\<lparr>psbt_inputs := pins\<rparr>" "mb_class mb = cls_class cls" "mb_total_in mb = tin" "mb_fee mb = tin - tout"
      "mb_outpoints mb = map previous_output (tx_input (unsigned_tx p))"
    by (auto simp: member_def Let_def bind_res_Ok_iff split: if_splits prod.splits)
  have z: "map (\<lambda>x. previous_output (fst x)) (zip (tx_input (unsigned_tx p)) (psbt_inputs p)) = map previous_output (tx_input (unsigned_tx p))"
    using len by (simp flip: map_map [unfolded comp_def])
  from member_inputs_Ok [OF i] len have f: "list_all2 (authentic_input api) (tx_input (unsigned_tx p)) pins" "utxo_total 0 pins = Some tin"
    "distinct (map previous_output (tx_input (unsigned_tx p)))"
    by (simp_all add: z)
  moreover have "sat_sum64 (map txo_value (tx_output (unsigned_tx p))) = tout"
    using checked_sum_Some [OF o] by (simp add: sat_sum64_eq)
  ultimately show ?thesis using e c mb by (simp add: member_ok_of_def rung_inputs_def psbt_fee_def)
qed

lemma members_Ok: "members api lv sealed_script ps = Ok ms \<Longrightarrow> list_all2 (member_ok_of api lv) ps ms"
  by (induction ps arbitrary: ms) (auto simp: bind_res_Ok_iff dest: member_Ok)

subsection \<open>What the judges read\<close>

text \<open>A signature changes nothing that the policy, the class or the ladder reads: the transaction, the output maps and the
  previous outputs.\<close>

definition same_read :: "psbt \<Rightarrow> psbt \<Rightarrow> bool" where
  "same_read p q \<longleftrightarrow> unsigned_tx p = unsigned_tx q \<and> psbt_outputs p = psbt_outputs q \<and>
     map witness_utxo (psbt_inputs p) = map witness_utxo (psbt_inputs q) \<and>
     map non_witness_utxo (psbt_inputs p) = map non_witness_utxo (psbt_inputs q)"

lemma for_each_map: "for_each f (map g xs) = for_each (\<lambda>x. f (g x)) xs"
  by (induction xs) auto

lemma for_each_utxo: "map witness_utxo xs = map witness_utxo ys \<Longrightarrow> for_each (\<lambda>x. f (witness_utxo x)) xs = for_each (\<lambda>x. f (witness_utxo x)) ys"
  by (metis for_each_map)

lemma same_utxos: "map witness_utxo xs = map witness_utxo ys \<Longrightarrow> list_all2 (\<lambda>x y. witness_utxo x = witness_utxo y) xs ys"
  by (simp add: list.rel_eq [symmetric] list.rel_map del: list.rel_eq)

lemma map_filter_utxo: "map witness_utxo xs = map witness_utxo ys \<Longrightarrow> List.map_filter witness_utxo xs = List.map_filter witness_utxo ys"
  by (drule same_utxos, induction rule: list_all2_induct) (simp_all add: map_filter_simps cong: option.case_cong)

lemma utxo_total_read: "map witness_utxo xs = map witness_utxo ys \<Longrightarrow> utxo_total acc xs = utxo_total acc ys"
  by (drule same_utxos, induction arbitrary: acc rule: list_all2_induct) (simp_all cong: option.case_cong)

lemma evaluate_read:
  assumes "same_read p q"
  shows "evaluate api p params = evaluate api q params" "classify api p params = classify api q params" "psbt_fee p = psbt_fee q"
proof -
  from assms have e: "unsigned_tx p = unsigned_tx q" "psbt_outputs p = psbt_outputs q" and m: "map witness_utxo (psbt_inputs p) = map witness_utxo (psbt_inputs q)"
    by (simp_all add: same_read_def)
  have l: "length (psbt_inputs p) = length (psbt_inputs q)" using m map_eq_imp_length_eq by blast
  have "check_psbt_consistency p = check_psbt_consistency q"
    using for_each_utxo [OF m, of "\<lambda>w. if w = None then refuse_with PsbtInconsistent ''psbt_consistency'' else Ok ()"]
    by (simp only: check_psbt_consistency_def e l)
  moreover have "check_inputs api p params = check_inputs api q params" unfolding check_inputs_def by (rule for_each_utxo [OF m])
  moreover have "check_fee p = check_fee q" by (simp add: check_fee_def total_in_def total_out_def e map_filter_utxo [OF m])
  moreover have "hot_outflow api p params = hot_outflow api q params" by (simp add: hot_outflow_def e)
  ultimately show "evaluate api p params = evaluate api q params" by (simp add: evaluate_def check_destinations_def check_hot_budget_def e)
  show "classify api p params = classify api q params" by (simp add: classify_def e)
  show "psbt_fee p = psbt_fee q" by (simp add: psbt_fee_def e utxo_total_read [OF m])
qed

lemma rung_read:
  assumes "same_read p q"
  shows "rung_inputs p = rung_inputs q" "rung_scripts p = rung_scripts q" "rung_values p = rung_values q" "rung_shape v p = rung_shape v q"
  using assms by (simp_all add: same_read_def rung_inputs_def rung_scripts_def rung_values_def rung_shape_def)

lemma ladder_rungs_read:
  assumes "list_all2 same_read ps qs"
  shows "ladder_rungs node ins scr f vs ps = ladder_rungs node ins scr f vs qs"
  using assms
proof (induction ps qs arbitrary: f vs rule: list_all2_induct)
  case (Cons p ps q qs)
  from Cons(1) have "unsigned_tx p = unsigned_tx q" by (simp add: same_read_def)
  then show ?case by (simp add: rung_read [OF Cons(1)] evaluate_read [OF Cons(1)] Cons(3) Let_def cong: option.case_cong if_cong)
qed simp

lemma for_each_read: "list_all2 same_read ps qs \<Longrightarrow> for_each (rung_shape v) ps = for_each (rung_shape v) qs"
  by (induction rule: list_all2_induct) (auto simp: rung_read)

lemma ensure_ladder_read:
  assumes "same_read p q" "list_all2 same_read ps qs"
  shows "ensure_escape_ladder node p ps sp = ensure_escape_ladder node q qs sp"
proof -
  have "unsigned_tx p = unsigned_tx q" using assms(1) by (simp add: same_read_def)
  moreover have "list_all2 same_read (p # ps) (q # qs)" using assms by simp
  moreover have "(ps = []) = (qs = [])" using assms(2) by auto
  ultimately show ?thesis unfolding ensure_escape_ladder_def
    by (simp only: for_each_read [of "p # ps" "q # qs"] evaluate_read(3) [OF assms(1)] rung_read [OF assms(1)] ladder_rungs_read [OF assms(2)])
qed

subsection \<open>The ladder\<close>

text \<open>A node of the vault: the same libraries, the sealed policy, the user's key and the sealed script with its weight.\<close>

definition same_vault :: "'d user_api \<Rightarrow> 'd live_vault \<Rightarrow> 'd node \<Rightarrow> bool" where
  "same_vault api lv node \<longleftrightarrow> nd_desc node = la_desc api \<and> nd_sig node = cp_sig (la_conf api) \<and> nd_tx node = ua_tx api \<and>
     nd_check_params node = lv_check_params lv \<and> nd_user_pubkey node = vt_user_key (lv_template lv) \<and>
     la_explicit_script api (lv_descriptor lv) = Some (nd_witness_script node) \<and>
     la_max_weight api (lv_descriptor lv) = Some (nd_max_vault_satisfaction_weight node)"

lemma rung_form_Ok: "rung_form v i mb = Ok () \<Longrightarrow> rung_shape v (mb_psbt mb) = Ok ()"
  by (auto simp: rung_form_def rung_shape_def Let_def for_each_Ok_iff expected_escape_sequence_def list_ex_iff split: if_splits)

lemma check_rungs_Ok:
  assumes "check_rungs api (nd_max_vault_satisfaction_weight node) pct bas i vs f rgs = Ok ()" and "nd_tx node = ua_tx api"
    and "list_all2 (member_ok_of api lv) ps rgs" and "mb_outpoints bas = rung_inputs (mb_psbt bas)"
  shows "ladder_rungs node (rung_inputs (mb_psbt bas)) (rung_scripts (mb_psbt bas)) f vs (map mb_psbt rgs) = Ok () \<and>
    for_each (rung_shape (tx_version (unsigned_tx (mb_psbt bas)))) (map mb_psbt rgs) = Ok () \<and>
    (\<forall>rg \<in> set rgs. mb_fee rg * 100 \<le> mb_total_in rg * unat pct)"
  using assms
proof (induction api "nd_max_vault_satisfaction_weight node" pct bas i vs f rgs arbitrary: ps rule: check_rungs.induct)
  case (2 api pct bas i vs f rg rgs)
  from 2(4) obtain p ps' where ps: "ps = p # ps'" "member_ok_of api lv p rg" "list_all2 (member_ok_of api lv) ps' rgs" by (auto simp: list_all2_Cons2)
  let ?tx = "unsigned_tx (mb_psbt rg)"
  from 2(2) obtain m where c: "rung_form (tx_version (unsigned_tx (mb_psbt bas))) i rg = Ok ()" "mb_outpoints rg = mb_outpoints bas"
    "map script_pubkey (tx_output ?tx) = map script_pubkey (tx_output (unsigned_tx (mb_psbt bas)))"
    "\<not> list_ex (\<lambda>(v, p). v > p) (zip (map txo_value (tx_output ?tx)) vs)" "f < mb_fee rg"
    "escape_replacement_min_fee_delta (ua_tx api) (nd_max_vault_satisfaction_weight node) ?tx = Some m" "m \<le> mb_fee rg - f"
    "mb_fee rg * 100 \<le> mb_total_in rg * unat pct"
    "check_rungs api (nd_max_vault_satisfaction_weight node) pct bas (Suc i) (map txo_value (tx_output ?tx)) (mb_fee rg) rgs = Ok ()"
    by (auto simp: Let_def bind_res_Ok_iff not_less split: if_splits option.splits)
  from ps(2) have fee: "psbt_fee (mb_psbt rg) = Some (mb_fee rg)" "mb_outpoints rg = rung_inputs (mb_psbt rg)" by (simp_all add: member_ok_of_def)
  from c(6) obtain v where v: "maximum_finalized_vsize node ?tx = Some v" "m = sat_mul64 v ESCAPE_RBF_INCREMENTAL_RELAY_SAT_VB"
    by (auto simp: escape_replacement_min_fee_delta_def maximum_finalized_vsize_def 2(3))
  have "ladder_rungs node (rung_inputs (mb_psbt bas)) (rung_scripts (mb_psbt bas)) (mb_fee rg) (map txo_value (tx_output ?tx)) (map mb_psbt rgs) = Ok () \<and>
    for_each (rung_shape (tx_version (unsigned_tx (mb_psbt bas)))) (map mb_psbt rgs) = Ok () \<and> (\<forall>rg \<in> set rgs. mb_fee rg * 100 \<le> mb_total_in rg * unat pct)"
    using 2(1) [OF refl refl _ _ _ _ _ _ _ 2(3) ps(3) 2(5)] c by (simp add: not_less Let_def)
  then show ?case using c fee 2(5) v rung_form_Ok [OF c(1)] by (simp add: rung_scripts_def rung_values_def Let_def not_less)
qed auto

lemma check_ladder_Ok:
  assumes "check_ladder api lv bas rgs = Ok ()" and "same_vault api lv node" and "list_all2 (member_ok_of api lv) ps rgs" and "member_ok_of api lv q bas"
  shows "ensure_escape_ladder node (mb_psbt bas) (map mb_psbt rgs) False = Ok ()"
    "\<forall>rg \<in> set rgs. mb_fee rg * 100 \<le> mb_total_in rg * unat (lv_escape_bump_max_fee_pct lv)"
proof -
  from assms(4) have b: "mb_outpoints bas = rung_inputs (mb_psbt bas)" "psbt_fee (mb_psbt bas) = Some (mb_fee bas)" by (simp_all add: member_ok_of_def)
  have "ensure_escape_ladder node (mb_psbt bas) (map mb_psbt rgs) False = Ok () \<and>
    (\<forall>rg \<in> set rgs. mb_fee rg * 100 \<le> mb_total_in rg * unat (lv_escape_bump_max_fee_pct lv))"
  proof (cases "rgs = []")
    case False
    then have f: "rung_form (tx_version (unsigned_tx (mb_psbt bas))) 0 bas = Ok ()"
      and r: "check_rungs api (nd_max_vault_satisfaction_weight node) (lv_escape_bump_max_fee_pct lv) bas 1 (rung_values (mb_psbt bas)) (mb_fee bas) rgs = Ok ()"
      using assms(1,2) by (auto simp: check_ladder_def bind_res_Ok_iff same_vault_def or_err_def rung_values_def)
    have "nd_tx node = ua_tx api" using assms(2) by (simp add: same_vault_def)
    from check_rungs_Ok [OF r this assms(3) b(1)] rung_form_Ok [OF f] False b(2) show ?thesis by (simp add: ensure_escape_ladder_def)
  qed (simp add: ensure_escape_ladder_def)
  then show "ensure_escape_ladder node (mb_psbt bas) (map mb_psbt rgs) False = Ok ()"
    "\<forall>rg \<in> set rgs. mb_fee rg * 100 \<le> mb_total_in rg * unat (lv_escape_bump_max_fee_pct lv)" by blast+
qed

subsection \<open>The signatures\<close>

lemma input_messages_length: "input_messages api lv scr tx i pins = Ok msgs \<Longrightarrow> length msgs = length pins"
  by (induction pins arbitrary: i msgs) (auto simp: bind_res_Ok_iff)

lemma sign_inputs_verify:
  assumes "input_messages api lv (nd_witness_script node) tx i pins = Ok msgs" and "same_vault api lv node"
    and "kg_public_key (cp_keys (la_conf api)) scalar = nd_user_pubkey node"
    and "\<And>d. sa_verify (cp_sig (la_conf api)) d (cp_sign (la_conf api) scalar d) (kg_public_key (cp_keys (la_conf api)) scalar)"
  shows "verify_user_inputs node tx i (map (\<lambda>(msg, pin). sign_input api lv scalar msg pin) (zip msgs pins)) = Ok ()"
  using assms(1)
proof (induction pins arbitrary: i msgs)
  case (Cons pin pins)
  from Cons.prems obtain utxo msg msgs' where m: "witness_utxo pin = Some utxo"
    "sa_sighash (cp_sig (la_conf api)) tx i (nd_witness_script node) (txo_value utxo) = Some msg"
    "input_messages api lv (nd_witness_script node) tx (Suc i) pins = Ok msgs'" "msgs = msg # msgs'"
    by (auto simp: bind_res_Ok_iff)
  have v: "nd_user_pubkey node = vt_user_key (lv_template lv)" "nd_sig node = cp_sig (la_conf api)" using assms(2) by (simp_all add: same_vault_def)
  have "sa_verify (cp_sig (la_conf api)) msg (cp_sign (la_conf api) scalar msg) (vt_user_key (lv_template lv))" using assms(3,4) v(1) by metis
  with m Cons.IH [OF m(3)] v show ?case by (simp add: sign_input_def hm_simps)
qed simp

lemma sign_member_read: "length msgs = length (psbt_inputs p) \<Longrightarrow> same_read (sign_member api lv scalar msgs p) p"
  by (simp add: same_read_def sign_member_def sign_input_def comp_def case_prod_beta flip: map_map [unfolded comp_def])

lemma group_messages_signed:
  assumes "group_messages api lv (nd_witness_script node) ps = Ok mss" and "same_vault api lv node"
    and "kg_public_key (cp_keys (la_conf api)) scalar = nd_user_pubkey node"
    and "\<And>d. sa_verify (cp_sig (la_conf api)) d (cp_sign (la_conf api) scalar d) (kg_public_key (cp_keys (la_conf api)) scalar)"
  shows "list_all2 (\<lambda>q p. same_read q p \<and> verify_user_signatures node q = Ok ()) (map (\<lambda>(msgs, p). sign_member api lv scalar msgs p) (zip mss ps)) ps"
  using assms(1)
proof (induction ps arbitrary: mss)
  case (Cons p ps)
  from Cons.prems obtain ms mss' where m: "input_messages api lv (nd_witness_script node) (unsigned_tx p) 0 (psbt_inputs p) = Ok ms"
    "group_messages api lv (nd_witness_script node) ps = Ok mss'" "mss = ms # mss'" by (auto simp: bind_res_Ok_iff)
  from sign_inputs_verify [OF m(1) assms(2-4)] sign_member_read [OF input_messages_length [OF m(1)], of api lv scalar] Cons.IH [OF m(2)] m(3)
  show ?case by (simp add: verify_user_signatures_def) (simp add: sign_member_def)
qed simp

subsection \<open>The signed group at a node\<close>

lemma prepare_spend_Ok:
  assumes "prepare api lv (AuthorizeSpend wallet au) = Ok grp" and "same_vault api lv node"
  obtains spend esc rgs where "map (\<lambda>lm. mb_psbt (snd lm)) (gr_members grp) = mb_psbt spend # mb_psbt esc # map mb_psbt rgs"
    "member_ok_of api lv (au_spend au) spend" "member_ok_of api lv (au_escape au) esc" "list_all2 (member_ok_of api lv) (au_escape_bumps au) rgs"
    "length rgs \<le> MAX_ESCAPE_BUMPS" "mb_class esc = Escape" "mb_class spend \<noteq> Refresh" "check_ladder api lv esc rgs = Ok ()"
    "pair_labels spend esc \<noteq> Err NotCombinable"
proof -
  from assms obtain spend esc rgs label0 label1 where m: "member api lv (nd_witness_script node) (au_spend au) = Ok spend"
    "member api lv (nd_witness_script node) (au_escape au) = Ok esc" "members api lv (nd_witness_script node) (au_escape_bumps au) = Ok rgs"
    "pair_labels spend esc = Ok (label0, label1)" "check_ladder api lv esc rgs = Ok ()" "length (au_escape_bumps au) \<le> MAX_ESCAPE_BUMPS"
    and grp: "gr_members grp = (label0, spend) # (label1, esc) # map (\<lambda>(n, rg). (label1 @ '' fee-bump '' @ show_nat n, rg)) (zip [1..<Suc (length rgs)] rgs)"
    by (auto simp: prepare_def same_vault_def bind_res_Ok_iff not_less or_err_def split: if_split_asm)
  have "map (\<lambda>lm. mb_psbt (snd lm)) (map (\<lambda>(n, rg). (label1 @ '' fee-bump '' @ show_nat n, rg)) (zip [1..<Suc (length rgs)] rgs)) = map mb_psbt rgs"
    by (simp add: comp_def case_prod_beta del: upt_Suc flip: map_map [unfolded comp_def])
  with grp have g: "map (\<lambda>lm. mb_psbt (snd lm)) (gr_members grp) = mb_psbt spend # mb_psbt esc # map mb_psbt rgs" by simp
  have "mb_class esc = Escape" "mb_class spend \<noteq> Refresh" using m(4) by (auto simp: pair_labels_def Let_def split: if_splits)
  moreover have "length rgs \<le> MAX_ESCAPE_BUMPS" using list_all2_lengthD [OF members_Ok [OF m(3)]] m(6) by simp
  ultimately show thesis using that [of spend esc rgs] g member_Ok [OF m(1)] member_Ok [OF m(2)] members_Ok [OF m(3)] m(4,5) by simp
qed

lemma verify_spend_read:
  assumes "same_read q p" and "verify_user_signatures node q = Ok ()" and "evaluate (nd_desc node) p (nd_check_params node) = Ok ()"
    and "hb \<Longrightarrow> run_prevout_check q pre = Ok ()"
  shows "verify_spend node hb q pre = Ok ()"
  using assms(2-4) by (simp add: verify_spend_def map_err_def evaluate_read [OF assms(1)])

lemma verify_escape_read:
  assumes "same_read q p" and "verify_user_signatures node q = Ok ()" and "evaluate (nd_desc node) p (nd_check_params node) = Ok ()"
    and "hb \<Longrightarrow> run_prevout_check q pre = Ok ()" and "classify (nd_desc node) p (nd_check_params node) = Ok cls" and "cls_class cls = Escape"
  shows "verify_escape node hb q pre = Ok ()"
  using verify_spend_read [OF assms(1-3), of hb pre] assms(4-6) by (simp add: verify_escape_def map_err_def evaluate_read [OF assms(1)])

text \<open>The class of a transaction depends on its scripts alone.\<close>

lemma set_scripts: "(\<forall>out \<in> set (tx_output (unsigned_tx p)). P (script_pubkey out)) \<longleftrightarrow> (\<forall>spk \<in> set (rung_scripts p). P spk)"
  by (simp add: rung_scripts_def)

lemma class_by_scripts:
  assumes "classify api p params = Ok c" "classify api q params = Ok d" "rung_scripts p = rung_scripts q"
  shows "cls_class c = cls_class d"
proof -
  have "(ca_escape (classify_scan api params (tx_output (unsigned_tx p))) = []) = (ca_escape (classify_scan api params (tx_output (unsigned_tx q))) = [])"
    using set_scripts [of p "\<lambda>spk. \<not> (\<not> pays_vault api params spk \<and> pays_escape api params spk)"]
      set_scripts [of q "\<lambda>spk. \<not> (\<not> pays_vault api params spk \<and> pays_escape api params spk)"] assms(3)
    by (simp add: scan_escape_Nil is_escape_def)
  moreover have "(ca_hot (classify_scan api params (tx_output (unsigned_tx p))) = []) = (ca_hot (classify_scan api params (tx_output (unsigned_tx q))) = [])"
    using set_scripts [of p "\<lambda>spk. \<not> ((\<not> pays_vault api params spk \<and> \<not> pays_escape api params spk) \<and> pays_allowed api params spk)"]
      set_scripts [of q "\<lambda>spk. \<not> ((\<not> pays_vault api params spk \<and> \<not> pays_escape api params spk) \<and> pays_allowed api params spk)"] assms(3)
    by (simp add: scan_hot_Nil is_hot_def)
  ultimately show ?thesis using assms(1,2) by (simp add: classify_Ok_iff Let_def)
qed

lemma authentic_read:
  assumes "same_read q p" and "list_all2 (authentic_input api) (tx_input (unsigned_tx p)) (psbt_inputs p)"
  shows "list_all2 (authentic_input api) (tx_input (unsigned_tx q)) (psbt_inputs q)"
proof -
  from assms(1) have l: "length (psbt_inputs q) = length (psbt_inputs p)" and u: "unsigned_tx q = unsigned_tx p"
    unfolding same_read_def using map_eq_imp_length_eq by blast+
  have "witness_utxo (psbt_inputs q ! i) = witness_utxo (psbt_inputs p ! i) \<and> non_witness_utxo (psbt_inputs q ! i) = non_witness_utxo (psbt_inputs p ! i)"
    if "i < length (psbt_inputs p)" for i
    using assms(1) that l unfolding same_read_def by (metis nth_map)
  with assms(2) l u show ?thesis by (simp add: list_all2_conv_all_nth authentic_input_def)
qed

text \<open>A signed member passes the checks of a node, with the class the signer found.\<close>

lemma signed_member_verified:
  assumes "member_ok_of api lv p mb" and "same_read q (mb_psbt mb)" and "verify_user_signatures node q = Ok ()" and "same_vault api lv node"
    and "hb \<Longrightarrow> run_prevout_check q pre = Ok ()"
  shows "verify_spend node hb q pre = Ok ()" "mb_class mb = Escape \<Longrightarrow> verify_escape node hb q pre = Ok ()"
    "\<exists>cls. classify (nd_desc node) q (nd_check_params node) = Ok cls \<and> cls_class cls = mb_class mb"
proof -
  have v: "nd_desc node = la_desc api" "nd_check_params node = lv_check_params lv" using assms(4) by (simp_all add: same_vault_def)
  from assms(1) obtain cls where m: "evaluate (nd_desc node) (mb_psbt mb) (nd_check_params node) = Ok ()"
    "classify (nd_desc node) (mb_psbt mb) (nd_check_params node) = Ok cls" "cls_class cls = mb_class mb"
    by (auto simp: member_ok_of_def v)
  show "verify_spend node hb q pre = Ok ()" by (rule verify_spend_read [OF assms(2,3) m(1) assms(5)])
  show "mb_class mb = Escape \<Longrightarrow> verify_escape node hb q pre = Ok ()" using verify_escape_read [OF assms(2,3) m(1) assms(5) m(2)] m(3) by simp
  show "\<exists>cls. classify (nd_desc node) q (nd_check_params node) = Ok cls \<and> cls_class cls = mb_class mb"
    using m(2,3) by (simp add: evaluate_read [OF assms(2)])
qed

lemma rung_class:
  assumes "check_ladder api lv e rgs = Ok ()" and "same_vault api lv node" and "list_all2 (member_ok_of api lv) ps rgs" and "member_ok_of api lv q e"
    and "rg \<in> set rgs"
  shows "mb_class rg = mb_class e"
proof -
  have "ensure_escape_ladder node (mb_psbt e) (map mb_psbt rgs) False = Ok ()" by (rule check_ladder_Ok [OF assms(1-4)])
  with assms(5) have "rung_above (mb_psbt e) (mb_psbt rg)" using accepted_ladder_chain [of node "mb_psbt e" "map mb_psbt rgs" False] by (cases rgs) auto
  then have "rung_scripts (mb_psbt rg) = rung_scripts (mb_psbt e)" by (simp add: rung_above_def)
  moreover obtain p where "member_ok_of api lv p rg" using assms(3,5) by (metis list_all2_conv_all_nth in_set_conv_nth)
  ultimately show ?thesis using assms(4) class_by_scripts unfolding member_ok_of_def by metis
qed

lemma fold_verify_Ok: "(\<And>b. b \<in> set bs \<Longrightarrow> f b = Ok ()) \<Longrightarrow> fold (\<lambda>b r. bind_res r (\<lambda>_. f b)) bs (Ok ()) = Ok ()"
  by (induction bs) auto

lemma authorize_spend_Ok:
  assumes "authorize api lv secret (AuthorizeSpend wallet au) = Ok (shown, ps)" and "load_user_key api lv f = Ok secret" and "same_vault api lv node"
    and scalar: "\<And>s sk. kg_seckey_of_slice (cp_keys (la_conf api)) s = Some sk \<Longrightarrow> sk = s"
    and sign: "\<And>sk d. sa_verify (cp_sig (la_conf api)) d (cp_sign (la_conf api) sk d) (kg_public_key (cp_keys (la_conf api)) sk)"
  obtains spend esc rgs where "list_all2 (\<lambda>q p. same_read q p \<and> verify_user_signatures node q = Ok ()) ps (mb_psbt spend # mb_psbt esc # map mb_psbt rgs)"
    "member_ok_of api lv (au_spend au) spend" "member_ok_of api lv (au_escape au) esc" "list_all2 (member_ok_of api lv) (au_escape_bumps au) rgs"
    "length rgs \<le> MAX_ESCAPE_BUMPS" "mb_class esc = Escape" "mb_class spend \<noteq> Refresh" "check_ladder api lv esc rgs = Ok ()"
    "pair_labels spend esc \<noteq> Err NotCombinable"
proof -
  from assms(2,3) have key: "kg_public_key (cp_keys (la_conf api)) secret = nd_user_pubkey node"
    by (auto simp: load_user_key_def bind_res_Ok_iff same_vault_def)
  from assms(1,3) obtain grp mss sk where g: "prepare api lv (AuthorizeSpend wallet au) = Ok grp"
    "group_messages api lv (nd_witness_script node) (map (\<lambda>lm. mb_psbt (snd lm)) (gr_members grp)) = Ok mss"
    "kg_seckey_of_slice (cp_keys (la_conf api)) secret = Some sk"
    "ps = map (\<lambda>(msgs, p). sign_member api lv sk msgs p) (zip mss (map (\<lambda>lm. mb_psbt (snd lm)) (gr_members grp)))"
    by (auto simp: authorize_def bind_res_Ok_iff same_vault_def Let_def)
  from scalar [OF g(3)] have sk: "sk = secret" .
  from group_messages_signed [OF g(2) assms(3) key sign]
  have a: "list_all2 (\<lambda>q p. same_read q p \<and> verify_user_signatures node q = Ok ()) ps (map (\<lambda>lm. mb_psbt (snd lm)) (gr_members grp))"
    by (simp add: g(4) sk)
  from g(1) assms(3) show thesis
    by (rule prepare_spend_Ok) (use a in \<open>auto intro: that\<close>)
qed

text \<open>C15: a node asks nothing more of the user. When the signer releases a spend, the transactions are the requested ones and
  every input carries the output its full previous transaction has; a node of the same vault accepts the spend's signatures and policy and finds its class, and accepts
  the escape, its ladder and every rung, whenever the chain confirms the previous outputs and the escape is not the spend
  itself; and no rung pays a fee over the sealed share of its inputs.\<close>

theorem authorized_group_verified:
  assumes "authorize api lv secret (AuthorizeSpend wallet au) = Ok (shown, ps)" and "load_user_key api lv f = Ok secret" and "same_vault api lv node"
    and scalar: "\<forall>s sk. kg_seckey_of_slice (cp_keys (la_conf api)) s = Some sk \<longrightarrow> sk = s"
    and sign: "\<forall>sk d. sa_verify (cp_sig (la_conf api)) d (cp_sign (la_conf api) sk d) (kg_public_key (cp_keys (la_conf api)) sk)"
  shows "\<exists>spend esc bmps. ps = spend # esc # bmps \<and>
    map unsigned_tx ps = unsigned_tx (au_spend au) # unsigned_tx (au_escape au) # map unsigned_tx (au_escape_bumps au) \<and> length bmps \<le> MAX_ESCAPE_BUMPS \<and>
    (\<forall>p \<in> set ps. list_all2 (authentic_input api) (tx_input (unsigned_tx p)) (psbt_inputs p)) \<and>
    (\<exists>cls. classify (nd_desc node) spend (nd_check_params node) = Ok cls \<and> cls_class cls \<noteq> Refresh) \<and>
    (\<forall>has_backend pre. (has_backend \<longrightarrow> run_prevout_check spend pre = Ok ()) \<longrightarrow> verify_spend node has_backend spend pre = Ok ()) \<and>
    (\<forall>c has_backend pre. sc_escape c = esc \<longrightarrow> sc_bumps c = bmps \<longrightarrow> sc_escape_id c \<noteq> sc_commitment_id c \<longrightarrow>
      (has_backend \<longrightarrow> (\<forall>p \<in> set (esc # bmps). run_prevout_check p pre = Ok ())) \<longrightarrow> verify_all_escapes node has_backend c pre = Ok ()) \<and>
    (\<forall>p \<in> set bmps. \<exists>fee tin. psbt_fee p = Some fee \<and> utxo_total 0 (psbt_inputs p) = Some tin \<and> fee * 100 \<le> tin * unat (lv_escape_bump_max_fee_pct lv))"
proof -
  have v: "nd_desc node = la_desc api" "nd_check_params node = lv_check_params lv" using assms(3) by (simp_all add: same_vault_def)
  obtain s e rgs where l: "list_all2 (\<lambda>q p. same_read q p \<and> verify_user_signatures node q = Ok ()) ps (mb_psbt s # mb_psbt e # map mb_psbt rgs)"
    and m: "member_ok_of api lv (au_spend au) s" "member_ok_of api lv (au_escape au) e" "list_all2 (member_ok_of api lv) (au_escape_bumps au) rgs"
    and k: "length rgs \<le> MAX_ESCAPE_BUMPS" "mb_class e = Escape" "mb_class s \<noteq> Refresh" "check_ladder api lv e rgs = Ok ()"
    by (rule authorize_spend_Ok [OF assms(1-3)]) (use scalar sign in blast)+
  from l obtain spend esc bmps where ps: "ps = spend # esc # bmps" and sp: "same_read spend (mb_psbt s)" "verify_user_signatures node spend = Ok ()"
    and es: "same_read esc (mb_psbt e)" "verify_user_signatures node esc = Ok ()"
    and bs: "list_all2 (\<lambda>q p. same_read q p \<and> verify_user_signatures node q = Ok ()) bmps (map mb_psbt rgs)"
    by (auto simp: list_all2_Cons2)
  have lad: "ensure_escape_ladder node esc bmps False = Ok ()"
    using check_ladder_Ok(1) [OF k(4) assms(3) m(3,2)] ensure_ladder_read [OF es(1) list.rel_mono_strong [OF bs], of node False] by simp
  have b: "\<exists>rg \<in> set rgs. \<exists>p. member_ok_of api lv p rg \<and> same_read q (mb_psbt rg) \<and> verify_user_signatures node q = Ok () \<and> mb_class rg = Escape"
    if "q \<in> set bmps" for q
    using that bs m(3) rung_class [OF k(4) assms(3) m(3,2)] k(2)
    by (auto simp: list_all2_conv_all_nth in_set_conv_nth) (metis nth_mem)
  from m(3) bs have u: "map unsigned_tx bmps = map unsigned_tx (au_escape_bumps au)"
    by (auto simp: list_all2_conv_all_nth member_ok_of_def same_read_def intro!: nth_equalityI)
  from list_all2_lengthD [OF bs] k(1) have len: "length bmps \<le> MAX_ESCAPE_BUMPS" by simp
  have all: "verify_all_escapes node hb c pre = Ok ()" if "sc_escape c = esc" "sc_bumps c = bmps" "sc_escape_id c \<noteq> sc_commitment_id c"
    "hb \<longrightarrow> (\<forall>p \<in> set (esc # bmps). run_prevout_check p pre = Ok ())" for c hb pre
  proof -
    have "verify_escape node hb esc pre = Ok ()" using signed_member_verified(2) [OF m(2) es assms(3)] that(4) k(2) by simp
    moreover have "verify_escape node hb q pre = Ok ()" if "q \<in> set bmps" for q
      using b [OF that] signed_member_verified(2) [OF _ _ _ assms(3)] \<open>hb \<longrightarrow> _\<close> that by auto
    ultimately show ?thesis using that(1-3) lad by (simp add: verify_all_escapes_def map_err_def fold_verify_Ok)
  qed
  have cap: "\<exists>fee tin. psbt_fee q = Some fee \<and> utxo_total 0 (psbt_inputs q) = Some tin \<and> fee * 100 \<le> tin * unat (lv_escape_bump_max_fee_pct lv)"
    if "q \<in> set bmps" for q
  proof -
    from b [OF that] obtain rg p where rg: "rg \<in> set rgs" "member_ok_of api lv p rg" "same_read q (mb_psbt rg)" by blast
    from rg(3) have "utxo_total 0 (psbt_inputs q) = utxo_total 0 (psbt_inputs (mb_psbt rg))" unfolding same_read_def by (intro utxo_total_read) simp
    with rg check_ladder_Ok(2) [OF k(4) assms(3) m(3,2)] show ?thesis by (auto simp: member_ok_of_def evaluate_read [OF rg(3)])
  qed
  have "\<exists>cls. classify (nd_desc node) spend (nd_check_params node) = Ok cls \<and> cls_class cls \<noteq> Refresh"
    using signed_member_verified(3) [OF m(1) sp assms(3), of False] k(3) by auto
  moreover have "unsigned_tx spend = unsigned_tx (au_spend au)" "unsigned_tx esc = unsigned_tx (au_escape au)"
    using sp(1) es(1) m(1,2) by (simp_all add: same_read_def member_ok_of_def)
  moreover have "\<forall>has_backend pre. (has_backend \<longrightarrow> run_prevout_check spend pre = Ok ()) \<longrightarrow> verify_spend node has_backend spend pre = Ok ()"
    using signed_member_verified(1) [OF m(1) sp assms(3)] by simp
  moreover have "list_all2 (authentic_input api) (tx_input (unsigned_tx q)) (psbt_inputs q)" if "q \<in> set ps" for q
  proof -
    from that b sp(1) es(1) m(1,2) obtain p mb where "member_ok_of api lv p mb" "same_read q (mb_psbt mb)" unfolding ps by auto blast
    then show ?thesis by (intro authentic_read [of q "mb_psbt mb"]) (simp_all add: member_ok_of_def)
  qed
  ultimately show ?thesis
    by (intro exI [of _ spend] exI [of _ esc] exI [of _ bmps] conjI) (use ps u len all cap in \<open>simp_all\<close>)
qed

end
