(* ===== verification/Spend_Composer.thy ===== *)
theory Spend_Composer
  imports Core_View User_Sound "HOL-Library.Product_Lexorder"
begin

text \<open>
  The composition of a spend, \<open>crates/vault-cli/src/inventory.rs\<close> and \<open>compose.rs\<close>: an inventory of every confirmed coin of the
  vault, read in a bracket between two observations of the tip and repeated when the tip moved, the full parents of the coins,
  the fee rate, and the pair of transactions built over them. The composer is shown to hand the signer only what the signer
  accepts.
\<close>

subsection \<open>Arguments and errors\<close>

text \<open>\<open>cm_address\<close>: a parsed address gives its script on a network. \<open>cm_from_unsigned_tx\<close> is \<open>Psbt::from_unsigned_tx\<close>,
  \<open>cm_dust\<close> is \<open>minimal_non_dust\<close>, \<open>cm_total_size\<close> is \<open>Transaction::total_size\<close>.\<close>

record 'd composer_api =
  cm_user :: "'d user_api"
  cm_address :: "string \<Rightarrow> (network \<Rightarrow> script option) option"
  cm_from_unsigned_tx :: "transaction \<Rightarrow> psbt option"
  cm_dust :: "script \<Rightarrow> u64"
  cm_total_size :: "transaction \<Rightarrow> u64"
  cm_from_core_arg :: "string \<Rightarrow> network option"

datatype held_error = Unavailable | GettxoutContradicts | NoBlockAtHeight "32 word" | ParentAbsent | ParentHashesElsewhere | ParentContradictsVout "32 word" | CoinChanged

datatype composer_error =
    CoreRead view_error | NoExplicitScript | NoSatisfactionWeight | ForeignChange | ForeignCore identity_error | InDownload | DuplicateOutpoint | OffVaultScript
  | NoCoin | UnsignedRefused | ShapePanic | ShapeNotPinned | SizeOverflow | SizeOverBound u64 | ImmatureCoinbase u64 | ProjectionOverflow
  | ProjectionOverBound u64 | HeldContradiction held_error | TipKeptMoving | BadAddress | ForeignAddress network | NoEscapeWallet | EscapeNotExpanded
  | NoEscapeBranch | NoEscapeIndex | InputsOverflow | PrimaryFeeOverflow | EscapeFeeOverflow | AmountNotHeld | EscapeFeeNotHeld | UnderDust nat | UnderCoverage
  | SizeDrifted u64 u64 | NoFullParent | FinalPolicy policy_error | FinalClass tx_class

subsection \<open>The inventory\<close>

definition MAX_COMPOSER_FULL_PREVTX_BYTES :: u64 where "MAX_COMPOSER_FULL_PREVTX_BYTES = 64 * 1024 * 1024"
definition MAX_COMPOSER_VSIZE :: u64 where "MAX_COMPOSER_VSIZE = 100000"
definition COINBASE_MATURITY :: u64 where "COINBASE_MATURITY = 100"
definition INVENTORY_PASSES :: nat where "INVENTORY_PASSES = 3"

record utxo =
  ut_outpoint :: outpoint
  ut_txout :: txout

record shape_inputs =
  sh_utxos :: "utxo list"
  sh_witness_script :: script
  sh_scripts :: "script \<times> script \<times> script"

record bracket =
  br_shape :: shape_inputs
  br_parents :: "(txid \<times> transaction) list"
  br_primary_vsize :: u64
  br_escape_vsize :: u64

record prepared_view =
  pv_bracket :: bracket
  pv_weight :: u64
  pv_sat_vb :: u64

definition outpoint_key :: "outpoint \<Rightarrow> txid \<times> 32 word" where
  "outpoint_key o' = (op_txid o', op_vout o')"

definition sorted_unique :: "scan_coin list \<Rightarrow> script \<Rightarrow> composer_error + scan_coin list" where
  "sorted_unique scanned vault_spk =
     (let coins = sort_key (\<lambda>c. outpoint_key (sn_outpoint c)) scanned in
      if adjacent_equal (map sn_outpoint coins) then Err DuplicateOutpoint
      else if list_ex (\<lambda>c. sn_script c \<noteq> vault_spk) coins then Err OffVaultScript
      else if coins = [] then Err NoCoin
      else Ok coins)"

fun set_prevouts :: "script \<Rightarrow> utxo list \<Rightarrow> psbt_input list \<Rightarrow> composer_error + psbt_input list" where
  "set_prevouts ws [] pins = Ok pins"
| "set_prevouts ws (u # us) [] = Err ShapePanic"
| "set_prevouts ws (u # us) (pin # pins) =
     bind_res (set_prevouts ws us pins) (\<lambda>rest. Ok (pin\<lparr>witness_utxo := Some (ut_txout u), witness_script := Some ws\<rparr> # rest))"

definition spend_tx :: "utxo list \<Rightarrow> (script \<times> u64) list \<Rightarrow> transaction" where
  "spend_tx us outs = \<lparr>tx_version = 2, tx_lock_time = 0,
     tx_input = map (\<lambda>u. \<lparr>previous_output = ut_outpoint u, script_sig = [], sequence = 0xffffffff, txin_witness = []\<rparr>) us,
     tx_output = map (\<lambda>(spk, v). \<lparr>script_pubkey = spk, txo_value = v\<rparr>) outs\<rparr>"

definition build_spend_n :: "'d composer_api \<Rightarrow> utxo list \<Rightarrow> script \<Rightarrow> (script \<times> u64) list \<Rightarrow> composer_error + psbt" where
  "build_spend_n api us ws outs =
     bind_res (or_err UnsignedRefused (cm_from_unsigned_tx api (spend_tx us outs))) (\<lambda>p.
     bind_res (set_prevouts ws us (psbt_inputs p)) (\<lambda>pins. Ok (p\<lparr>psbt_inputs := pins\<rparr>)))"

definition check_shape :: "transaction \<Rightarrow> composer_error + unit" where
  "check_shape tx =
     (let unsigned = list_all (\<lambda>i. sequence i = 0xffffffff \<and> script_sig i = [] \<and> txin_witness i = []) (tx_input tx) in
      if tx_input tx = [] \<or> \<not> unsigned \<or> tx_version tx \<noteq> 2 \<or> tx_lock_time tx \<noteq> 0 then Err ShapeNotPinned else Ok ())"

definition build_pair :: "'d composer_api \<Rightarrow> shape_inputs \<Rightarrow> u64 \<Rightarrow> u64 \<Rightarrow> u64 \<Rightarrow> composer_error + psbt \<times> psbt" where
  "build_pair api shape paid kept swept =
     (case sh_scripts shape of (destination, change, escp) \<Rightarrow>
        bind_res (build_spend_n api (sh_utxos shape) (sh_witness_script shape) [(destination, paid), (change, kept)]) (\<lambda>primary.
        bind_res (build_spend_n api (sh_utxos shape) (sh_witness_script shape) [(escp, swept)]) (\<lambda>sweep.
        bind_res (check_shape (unsigned_tx primary)) (\<lambda>_.
        bind_res (check_shape (unsigned_tx sweep)) (\<lambda>_. Ok (primary, sweep))))))"

definition finalized_vsize :: "'d composer_api \<Rightarrow> u64 \<Rightarrow> transaction \<Rightarrow> composer_error + u64" where
  "finalized_vsize api weight tx =
     bind_res (or_err SizeOverflow (maximum_finalized_vsize_for (ua_tx (cm_user api)) weight tx)) (\<lambda>vsize.
       if vsize > MAX_COMPOSER_VSIZE then Err (SizeOverBound vsize) else Ok vsize)"

subsection \<open>The candidate half of a bracket\<close>

text \<open>The reads of a phase give the tips they were answered at, and either its data or a contradiction that is held until the
  closing tip is known.\<close>

fun opening_reads :: "'w user_core_view \<Rightarrow> scan_coin list \<Rightarrow> ('w, composer_error, block_hash list \<times> (held_error + txout_view list)) chain_io" where
  "opening_reads core [] = io_return ([], Ok [])"
| "opening_reads core (coin # coins) =
     io_bind (io_map_err CoreRead (cv_txout core (sn_outpoint coin))) (\<lambda>v. case v of
         None \<Rightarrow> io_return ([], Err Unavailable)
       | Some view \<Rightarrow>
           if tv_coinbase view \<and> tv_confirmations view < COINBASE_MATURITY then io_fail (ImmatureCoinbase (tv_confirmations view))
           else if tv_confirmations view = 0 \<or> tv_value view \<noteq> sn_value coin \<or> tv_script view \<noteq> sn_script coin
           then io_return ([tv_best_block view], Err GettxoutContradicts)
           else io_bind (opening_reads core coins) (\<lambda>(tips, r). io_return (tv_best_block view # tips, bind_res r (\<lambda>vs. Ok (view # vs)))))"

definition parent_groups :: "scan_coin list \<Rightarrow> (txid \<times> scan_coin list) list" where
  "parent_groups coins =
     map (\<lambda>txid. (txid, filter (\<lambda>c. op_txid (sn_outpoint c) = txid) coins)) (sort (remdups (map (\<lambda>c. op_txid (sn_outpoint c)) coins)))"

definition projection :: "u64 \<Rightarrow> u64 \<Rightarrow> nat \<Rightarrow> u64 option" where
  "projection projected sz n = Option.bind (checked_mul64 sz (2 * n)) (\<lambda>both. checked_add64 projected both)"

definition agrees :: "transaction \<Rightarrow> scan_coin \<Rightarrow> bool" where
  "agrees parent coin \<longleftrightarrow> (let vout = unat (op_vout (sn_outpoint coin)) in vout < length (tx_output parent) \<and>
     txo_value (tx_output parent ! vout) = sn_value coin \<and> script_pubkey (tx_output parent ! vout) = sn_script coin)"

fun fetch_parents ::
  "'d composer_api \<Rightarrow> 'w user_core_view \<Rightarrow> u64 \<Rightarrow> (txid \<times> scan_coin list) list \<Rightarrow> ('w, composer_error, held_error + (txid \<times> transaction) list) chain_io" where
  "fetch_parents api core projected [] = io_return (Ok [])"
| "fetch_parents api core projected ((txid, coins) # groups) =
     io_bind (io_map_err CoreRead (cv_block_hash core (sn_height (hd coins)))) (\<lambda>b. case b of
         None \<Rightarrow> io_return (Err (NoBlockAtHeight (sn_height (hd coins))))
       | Some block \<Rightarrow>
           io_bind (io_map_err CoreRead (cv_block_transaction core txid block)) (\<lambda>t. case t of
               None \<Rightarrow> io_return (Err ParentAbsent)
             | Some parent \<Rightarrow>
                 (case projection projected (cm_total_size api parent) (length coins) of
                    None \<Rightarrow> io_fail ProjectionOverflow
                  | Some bytes \<Rightarrow>
                      if bytes > MAX_COMPOSER_FULL_PREVTX_BYTES then io_fail (ProjectionOverBound bytes)
                      else if sa_txid (cp_sig (la_conf (cm_user api))) parent \<noteq> txid then io_return (Err ParentHashesElsewhere)
                      else (case find (\<lambda>c. \<not> agrees parent c) coins of
                          Some c \<Rightarrow> io_return (Err (ParentContradictsVout (op_vout (sn_outpoint c))))
                        | None \<Rightarrow> io_bind (fetch_parents api core bytes groups) (\<lambda>r. io_return (bind_res r (\<lambda>ps. Ok ((txid, parent) # ps))))))))"

fun closing_reads :: "'w user_core_view \<Rightarrow> (scan_coin \<times> txout_view) list \<Rightarrow> ('w, composer_error, block_hash list \<times> (held_error + unit)) chain_io" where
  "closing_reads core [] = io_return ([], Ok ())"
| "closing_reads core ((coin, opened) # rest) =
     io_bind (io_map_err CoreRead (cv_txout core (sn_outpoint coin))) (\<lambda>v. case v of
         None \<Rightarrow> io_return ([], Err Unavailable)
       | Some view \<Rightarrow>
           if tv_value view \<noteq> tv_value opened \<or> tv_script view \<noteq> tv_script opened then io_return ([tv_best_block view], Err CoinChanged)
           else io_bind (closing_reads core rest) (\<lambda>(tips, r). io_return (tv_best_block view # tips, r)))"

definition candidates ::
  "'d composer_api \<Rightarrow> 'w user_core_view \<Rightarrow> scan_coin list \<Rightarrow> ('w, composer_error, block_hash list \<times> (held_error + (txid \<times> transaction) list)) chain_io" where
  "candidates api core coins =
     io_bind (opening_reads core coins) (\<lambda>(tips, r). case r of
         Inl e \<Rightarrow> io_return (tips, Err e)
       | Inr opening \<Rightarrow>
           io_bind (fetch_parents api core 0 (parent_groups coins)) (\<lambda>p. case p of
               Inl e \<Rightarrow> io_return (tips, Err e)
             | Inr parents \<Rightarrow>
                 io_bind (closing_reads core (zip coins opening)) (\<lambda>(tips', c). io_return (tips @ tips', bind_res c (\<lambda>_. Ok parents)))))"

subsection \<open>A bracket and the view\<close>

definition pass ::
  "'d composer_api \<Rightarrow> 'w user_core_view \<Rightarrow> network \<Rightarrow> script \<Rightarrow> script \<times> script \<times> script \<Rightarrow> u64 \<Rightarrow> ('w, composer_error, bracket option) chain_io" where
  "pass api core net ws scripts weight =
     io_bind (io_map_err CoreRead (cv_chain_info core)) (\<lambda>info.
     io_bind (io_res (map_err ForeignCore (verify_chain_identity (cm_from_core_arg api) (ci_identity info) net))) (\<lambda>_.
     io_bind (io_guard InDownload (\<not> ci_initial_block_download info)) (\<lambda>_.
     let vault_spk = fst (snd scripts) in
     io_bind (io_map_err CoreRead (cv_scan_vault_script core vault_spk)) (\<lambda>s.
     if sn_best_block s \<noteq> ci_best_block info then io_return None
     else io_bind (io_res (sorted_unique (sn_coins s) vault_spk)) (\<lambda>coins.
       let shape = \<lparr>sh_utxos = map (\<lambda>c. \<lparr>ut_outpoint = sn_outpoint c, ut_txout = \<lparr>script_pubkey = sn_script c, txo_value = sn_value c\<rparr>\<rparr>) coins,
             sh_witness_script = ws, sh_scripts = scripts\<rparr> in
       io_bind (io_res (build_pair api shape 0 0 0)) (\<lambda>(primary, sweep).
       io_bind (io_res (finalized_vsize api weight (unsigned_tx primary))) (\<lambda>primary_vsize.
       io_bind (io_res (finalized_vsize api weight (unsigned_tx sweep))) (\<lambda>escape_vsize.
       io_bind (candidates api core coins) (\<lambda>(tips, held).
       io_bind (io_map_err CoreRead (cv_best_block_hash core)) (\<lambda>tip.
       if list_ex (\<lambda>t. t \<noteq> ci_best_block info) (tips @ [tip]) then io_return None
       else (case held of
           Inl e \<Rightarrow> io_fail (HeldContradiction e)
         | Inr parents \<Rightarrow> io_return (Some \<lparr>br_shape = shape, br_parents = parents, br_primary_vsize = primary_vsize, br_escape_vsize = escape_vsize\<rparr>))))))))))))"

fun inventory_passes ::
  "nat \<Rightarrow> 'd composer_api \<Rightarrow> 'w user_core_view \<Rightarrow> network \<Rightarrow> script \<Rightarrow> script \<times> script \<times> script \<Rightarrow> u64 \<Rightarrow> ('w, composer_error, bracket option) chain_io" where
  "inventory_passes 0 api core net ws scripts weight = io_return None"
| "inventory_passes (Suc n) api core net ws scripts weight =
     io_bind (pass api core net ws scripts weight) (\<lambda>b. case b of
         Some br \<Rightarrow> io_return (Some br)
       | None \<Rightarrow> inventory_passes n api core net ws scripts weight)"

definition prepare_view ::
  "'d composer_api \<Rightarrow> 'w user_core_view \<Rightarrow> network \<Rightarrow> pubkey ms_descriptor \<Rightarrow> script \<times> script \<times> script \<Rightarrow> ('w, composer_error, prepared_view) chain_io" where
  "prepare_view api core net descriptor scripts =
     (let vault_spk = ua_script_pubkey (cm_user api) descriptor in
      io_bind (io_opt NoExplicitScript (la_explicit_script (cm_user api) descriptor)) (\<lambda>ws.
      io_bind (io_opt NoSatisfactionWeight (la_max_weight (cm_user api) descriptor)) (\<lambda>weight.
      io_bind (io_guard ForeignChange (fst (snd scripts) = vault_spk)) (\<lambda>_.
      io_bind (inventory_passes INVENTORY_PASSES api core net ws (fst scripts, vault_spk, snd (snd scripts)) weight) (\<lambda>accepted.
      io_bind (io_opt TipKeptMoving accepted) (\<lambda>br.
      io_bind (io_map_err CoreRead (cv_fee_estimate core)) (\<lambda>estimate.
      io_bind (io_map_err CoreRead (cv_fee_floors core)) (\<lambda>fl.
      let floor = max (fl_incremental_relay fl) (fl_mempool_min fl);
          sat_kvb = (case estimate of None \<Rightarrow> floor | Some e \<Rightarrow> max e floor) in
      io_return \<lparr>pv_bracket = br, pv_weight = weight, pv_sat_vb = (sat_kvb + 999) div 1000\<rparr>))))))))"

subsection \<open>Composition\<close>

definition base_escape_script :: "'d composer_api \<Rightarrow> 'd \<Rightarrow> composer_error + script" where
  "base_escape_script api d =
     bind_res (or_err EscapeNotExpanded (into_single_descriptors (la_desc (cm_user api)) d)) (\<lambda>branches.
     case branches of
       [] \<Rightarrow> Err NoEscapeBranch
     | first # _ \<Rightarrow> or_err NoEscapeIndex (derived_spk (la_desc (cm_user api)) first 0))"

fun attach_parents :: "(txid \<times> transaction) list \<Rightarrow> txin list \<Rightarrow> psbt_input list \<Rightarrow> composer_error + psbt_input list" where
  "attach_parents parents ins [] = Ok []"
| "attach_parents parents [] (pin # pins) = Err ShapePanic"
| "attach_parents parents (inp # ins) (pin # pins) =
     bind_res (or_err NoFullParent (hm_get parents (op_txid (previous_output inp)))) (\<lambda>parent.
     bind_res (attach_parents parents ins pins) (\<lambda>rest.
       Ok (pin\<lparr>non_witness_utxo := Some parent, psbt_sighash_type := Some SIGHASH_ALL\<rparr> # rest)))"

definition attach :: "(txid \<times> transaction) list \<Rightarrow> psbt \<Rightarrow> composer_error + psbt" where
  "attach parents p = bind_res (attach_parents parents (tx_input (unsigned_tx p)) (psbt_inputs p)) (\<lambda>pins. Ok (p\<lparr>psbt_inputs := pins\<rparr>))"

definition final_check :: "'d composer_api \<Rightarrow> 'd live_vault \<Rightarrow> psbt \<times> tx_class \<Rightarrow> composer_error + unit" where
  "final_check api lv = (\<lambda>(p, expected).
     bind_res (map_err FinalPolicy (evaluate (la_desc (cm_user api)) p (lv_check_params lv))) (\<lambda>_.
     bind_res (map_err FinalPolicy (classify (la_desc (cm_user api)) p (lv_check_params lv))) (\<lambda>cls.
       if cls_class cls \<noteq> expected then Err (FinalClass (cls_class cls)) else Ok ())))"

definition check_priced :: "'d composer_api \<Rightarrow> u64 \<Rightarrow> psbt \<times> u64 \<Rightarrow> composer_error + unit" where
  "check_priced api weight = (\<lambda>(p, priced).
     bind_res (finalized_vsize api weight (unsigned_tx p)) (\<lambda>reached.
       if reached \<noteq> priced then Err (SizeDrifted reached priced) else Ok ()))"

definition compose_over :: "'d composer_api \<Rightarrow> 'd live_vault \<Rightarrow> u64 \<Rightarrow> prepared_view \<Rightarrow> composer_error + user_authorization" where
  "compose_over api lv amount pv =
     (let br = pv_bracket pv; us = sh_utxos (br_shape br) in
      bind_res (or_err InputsOverflow (checked_sum 0 (map (\<lambda>u. txo_value (ut_txout u)) us))) (\<lambda>tot.
      bind_res (or_err PrimaryFeeOverflow (checked_mul64 (pv_sat_vb pv) (br_primary_vsize br))) (\<lambda>primary_fee.
      bind_res (or_err EscapeFeeOverflow (checked_mul64 (max (pv_sat_vb pv) (lv_escape_feerate_floor lv)) (br_escape_vsize br))) (\<lambda>escape_fee.
      bind_res (require (amount \<le> tot \<and> primary_fee \<le> tot - amount) AmountNotHeld) (\<lambda>_.
      bind_res (require (escape_fee \<le> tot) EscapeFeeNotHeld) (\<lambda>_.
      let change_value = tot - amount - primary_fee; sweep = tot - escape_fee in
      (case sh_scripts (br_shape br) of (destination, change, escp) \<Rightarrow>
      bind_res (require (cm_dust api destination \<le> amount) (UnderDust 0)) (\<lambda>_.
      bind_res (require (cm_dust api change \<le> change_value) (UnderDust 1)) (\<lambda>_.
      bind_res (require (cm_dust api escp \<le> sweep) (UnderDust 2)) (\<lambda>_.
      bind_res (require (tot * unat (lv_escape_coverage_pct lv) \<le> sweep * 100) UnderCoverage) (\<lambda>_.
      bind_res (build_pair api (br_shape br) amount change_value sweep) (\<lambda>(primary, esc).
      bind_res (for_each (check_priced api (pv_weight pv)) [(primary, br_primary_vsize br), (esc, br_escape_vsize br)]) (\<lambda>_.
      bind_res (attach (br_parents br) primary) (\<lambda>primary'.
      bind_res (attach (br_parents br) esc) (\<lambda>esc'.
      bind_res (for_each (final_check api lv) [(primary', Hot), (esc', Escape)]) (\<lambda>_.
        Ok (AuthorizeSpend (lv_wallet_id lv) \<lparr>au_spend = primary', au_escape = esc', au_escape_bumps = []\<rparr>)))))))))))))))))"

definition compose_spend :: "'d composer_api \<Rightarrow> 'd live_vault \<Rightarrow> 'w user_core_view \<Rightarrow> string \<Rightarrow> u64 \<Rightarrow> ('w, composer_error, user_authorization) chain_io" where
  "compose_spend api lv core destination_text amount =
     io_bind (io_opt BadAddress (cm_address api destination_text)) (\<lambda>parsed.
     io_bind (io_opt (ForeignAddress (lv_network lv)) (parsed (lv_network lv))) (\<lambda>destination.
     io_bind (io_opt NoEscapeWallet (escape (lv_check_params lv))) (\<lambda>sealed_escape.
     io_bind (io_res (base_escape_script api sealed_escape)) (\<lambda>escape_script.
     io_bind (prepare_view api core (lv_network lv) (lv_descriptor lv) (destination, ua_script_pubkey (cm_user api) (lv_descriptor lv), escape_script)) (\<lambda>pv.
       io_res (compose_over api lv amount pv))))))"

end
