(* ===== verification/Compose_Sound.thy ===== *)
theory Compose_Sound
  imports Spend_Composer
begin

text \<open>
  What a composed spend is: it spends every coin of the inventory, pays the amount asked for, leaves the rest to the vault, and
  its escape covers the sealed share; and the signer accepts it as it is.
\<close>

subsection \<open>The inventory\<close>

lemma sorted_adjacent_distinct:
  assumes "sorted (map f xs)" and "inj f" and "\<not> adjacent_equal xs"
  shows "distinct xs"
  using assms
proof (induction xs rule: adjacent_equal.induct)
  case (1 x y xs)
  have "x \<notin> set xs"
  proof
    assume "x \<in> set xs"
    then have "f x \<le> f y" "f y \<le> f x" using 1(2) by auto
    then have "x = y" using 1(3) by (simp add: inj_eq)
    with 1(4) show False by simp
  qed
  with 1 show ?case by auto
qed auto

lemma outpoint_key_inj: "inj outpoint_key"
  by (rule injI) (simp add: outpoint_key_def)

lemma sorted_unique_Ok:
  assumes "sorted_unique scanned vault_spk = Ok coins"
  shows "distinct (map sn_outpoint coins)" "coins \<noteq> []" "\<forall>c \<in> set coins. sn_script c = vault_spk" "set coins = set scanned"
proof -
  have c: "coins = sort_key (\<lambda>c. outpoint_key (sn_outpoint c)) scanned" and "\<not> adjacent_equal (map sn_outpoint coins)"
    and o: "coins \<noteq> []" "\<not> list_ex (\<lambda>c. sn_script c \<noteq> vault_spk) coins"
    using assms by (auto simp: sorted_unique_def Let_def split: if_splits)
  moreover have "sorted (map outpoint_key (map sn_outpoint coins))" using sorted_sort_key [of "\<lambda>c. outpoint_key (sn_outpoint c)" scanned] by (simp add: c comp_def)
  ultimately show "distinct (map sn_outpoint coins)" using sorted_adjacent_distinct outpoint_key_inj by blast
  show "coins \<noteq> []" "\<forall>c \<in> set coins. sn_script c = vault_spk" "set coins = set scanned" using o c by (auto simp: list_ex_iff)
qed

text \<open>The full parent of a coin: it hashes to the coin's transaction and has the coin at its place.\<close>

definition full_parent_of :: "'d composer_api \<Rightarrow> (txid \<times> transaction) list \<Rightarrow> scan_coin \<Rightarrow> bool" where
  "full_parent_of api parents c \<longleftrightarrow> (\<exists>parent. hm_get parents (op_txid (sn_outpoint c)) = Some parent \<and>
     sa_txid (cp_sig (la_conf (cm_user api))) parent = op_txid (sn_outpoint c) \<and> agrees parent c)"

lemma fetch_parents_Ok:
  assumes "fetch_parents api core projected groups w = (Inr (Inr ps), w')"
  shows "map fst ps = map fst groups \<and>
    (\<forall>g \<in> set groups. \<exists>parent. (fst g, parent) \<in> set ps \<and> sa_txid (cp_sig (la_conf (cm_user api))) parent = fst g \<and> (\<forall>c \<in> set (snd g). agrees parent c))"
  using assms
proof (induction api core projected groups arbitrary: w ps w' rule: fetch_parents.induct)
  case (2 api core projected txid coins groups)
  from 2(2) obtain block parent bytes ps' w1 w2 where
    p: "projection projected (cm_total_size api parent) (length coins) = Some bytes" "\<not> MAX_COMPOSER_FULL_PREVTX_BYTES < bytes"
      "sa_txid (cp_sig (la_conf (cm_user api))) parent = txid" "find (\<lambda>c. \<not> agrees parent c) coins = None"
      "fetch_parents api core bytes groups w1 = (Inr (Inr ps'), w2)" "ps = (txid, parent) # ps'"
    by (auto simp: bind_res_Ok_iff elim!: io_bind_OkE split: option.split_asm if_split_asm)
  from 2(1) [OF p(1,2) _ p(4,5)] p(3,4,6) show ?case by (auto simp: find_None_iff)
qed simp

lemma candidates_Ok:
  assumes "candidates api core coins w = (Inr (tips, Inr parents), w')"
  shows "\<forall>c \<in> set coins. full_parent_of api parents c"
proof
  fix c assume c: "c \<in> set coins"
  from assms obtain w1 w2 where f: "fetch_parents api core 0 (parent_groups coins) w1 = (Inr (Inr parents), w2)"
    by (auto simp: candidates_def bind_res_Ok_iff elim!: io_bind_OkE split: sum.split_asm)
  let ?t = "op_txid (sn_outpoint c)"
  have g: "(?t, filter (\<lambda>d. op_txid (sn_outpoint d) = ?t) coins) \<in> set (parent_groups coins)" using c by (auto simp: parent_groups_def)
  from bspec [OF conjunct2 [OF fetch_parents_Ok [OF f]] g] obtain parent where p: "(?t, parent) \<in> set parents" "sa_txid (cp_sig (la_conf (cm_user api))) parent = ?t" "agrees parent c"
    using c by auto
  have "map fst parents = sort (remdups (map (\<lambda>c. op_txid (sn_outpoint c)) coins))" using fetch_parents_Ok [OF f] by (simp add: parent_groups_def comp_def)
  then have "hm_ok parents" by (simp add: hm_ok_def hm_keys_def)
  with p show "full_parent_of api parents c" by (auto simp: full_parent_of_def hm_get_iff_mem)
qed

definition utxo_of :: "scan_coin \<Rightarrow> utxo" where
  "utxo_of c = \<lparr>ut_outpoint = sn_outpoint c, ut_txout = \<lparr>script_pubkey = sn_script c, txo_value = sn_value c\<rparr>\<rparr>"

definition bracket_ok :: "'d composer_api \<Rightarrow> 'w user_core_view \<Rightarrow> script \<Rightarrow> script \<times> script \<times> script \<Rightarrow> bracket \<Rightarrow> scan_coin list \<Rightarrow> bool" where
  "bracket_ok api core ws scripts br coins \<longleftrightarrow> br_shape br = \<lparr>sh_utxos = map utxo_of coins, sh_witness_script = ws, sh_scripts = scripts\<rparr> \<and>
     (\<exists>s w w'. cv_scan_vault_script core (fst (snd scripts)) w = (Inr s, w') \<and> set coins = set (sn_coins s)) \<and>
     distinct (map sn_outpoint coins) \<and> coins \<noteq> [] \<and> (\<forall>c \<in> set coins. sn_script c = fst (snd scripts) \<and> full_parent_of api (br_parents br) c)"

lemma pass_Ok:
  assumes "pass api core net ws scripts weight w = (Inr (Some br), w')"
  shows "\<exists>coins. bracket_ok api core ws scripts br coins"
proof -
  from assms obtain coins sc parents tips w1 w2 w3 w4 pv ev where s: "sorted_unique (sn_coins sc) (fst (snd scripts)) = Ok coins"
    and scan: "cv_scan_vault_script core (fst (snd scripts)) w3 = (Inr sc, w4)"
    and c: "candidates api core coins w1 = (Inr (tips, Inr parents), w2)"
    and br: "br = \<lparr>br_shape = \<lparr>sh_utxos = map utxo_of coins, sh_witness_script = ws, sh_scripts = scripts\<rparr>, br_parents = parents,
      br_primary_vsize = pv, br_escape_vsize = ev\<rparr>"
    unfolding pass_def utxo_of_def [abs_def] by (auto simp: Let_def elim!: io_bind_OkE split: if_split_asm sum.split_asm)
  have "\<exists>s w w'. cv_scan_vault_script core (fst (snd scripts)) w = (Inr s, w') \<and> set coins = set (sn_coins s)" using scan sorted_unique_Ok(4) [OF s] by blast
  then show ?thesis using sorted_unique_Ok [OF s] candidates_Ok [OF c] unfolding bracket_ok_def br by (intro exI [of _ coins]) simp
qed

lemma inventory_passes_Ok: "inventory_passes n api core net ws scripts weight w = (Inr (Some br), w') \<Longrightarrow> \<exists>coins. bracket_ok api core ws scripts br coins"
  by (induction n arbitrary: w) (auto elim!: io_bind_OkE split: option.split_asm dest: pass_Ok)

lemma prepare_view_Ok:
  assumes "prepare_view api core net descriptor scripts w = (Inr pv, w')"
  shows "\<exists>ws coins. la_explicit_script (cm_user api) descriptor = Some ws \<and>
    bracket_ok api core ws (fst scripts, ua_script_pubkey (cm_user api) descriptor, snd (snd scripts)) (pv_bracket pv) coins"
proof -
  from assms obtain ws weight w1 w2 where "la_explicit_script (cm_user api) descriptor = Some ws"
    and i: "inventory_passes INVENTORY_PASSES api core net ws (fst scripts, ua_script_pubkey (cm_user api) descriptor, snd (snd scripts)) weight w1 = (Inr (Some (pv_bracket pv)), w2)"
    unfolding prepare_view_def Let_def by (auto elim!: io_bind_OkE)
  with inventory_passes_Ok [OF i] show ?thesis by auto
qed

subsection \<open>The pair\<close>

text \<open>\<open>Psbt::from_unsigned_tx\<close> keeps the transaction and has a map for every input and output.\<close>

definition from_unsigned_law :: "'d composer_api \<Rightarrow> bool" where
  "from_unsigned_law api \<longleftrightarrow> (\<forall>tx p. cm_from_unsigned_tx api tx = Some p \<longrightarrow>
     unsigned_tx p = tx \<and> length (psbt_inputs p) = length (tx_input tx) \<and> length (psbt_outputs p) = length (tx_output tx))"

lemma set_prevouts_Ok:
  "set_prevouts ws us pins = Ok pins' \<Longrightarrow> length pins = length us \<Longrightarrow>
     list_all2 (\<lambda>u pin. witness_utxo pin = Some (ut_txout u) \<and> witness_script pin = Some ws) us pins'"
  by (induction ws us pins arbitrary: pins' rule: set_prevouts.induct) (auto simp: bind_res_Ok_iff)

lemma build_spend_n_Ok:
  assumes "build_spend_n api us ws outs = Ok p" and "from_unsigned_law api"
  shows "unsigned_tx p = spend_tx us outs \<and> length (psbt_outputs p) = length outs \<and>
    list_all2 (\<lambda>u pin. witness_utxo pin = Some (ut_txout u) \<and> witness_script pin = Some ws) us (psbt_inputs p)"
proof -
  from assms(1) obtain q pins where q: "cm_from_unsigned_tx api (spend_tx us outs) = Some q" "set_prevouts ws us (psbt_inputs q) = Ok pins" "p = q\<lparr>psbt_inputs := pins\<rparr>"
    by (auto simp: build_spend_n_def bind_res_Ok_iff)
  moreover from q(1) assms(2) have "unsigned_tx q = spend_tx us outs" "length (psbt_inputs q) = length us" "length (psbt_outputs q) = length outs"
    by (auto simp: from_unsigned_law_def spend_tx_def)
  ultimately show ?thesis using set_prevouts_Ok [OF q(2)] by simp
qed

definition composed_input :: "script \<Rightarrow> (txid \<times> transaction) list \<Rightarrow> utxo \<Rightarrow> psbt_input \<Rightarrow> bool" where
  "composed_input ws parents u pin \<longleftrightarrow> witness_utxo pin = Some (ut_txout u) \<and> witness_script pin = Some ws \<and> psbt_sighash_type pin = Some SIGHASH_ALL \<and>
     hm_get parents (op_txid (ut_outpoint u)) \<noteq> None \<and> non_witness_utxo pin = hm_get parents (op_txid (ut_outpoint u))"

lemma attach_parents_Ok:
  assumes "attach_parents parents (map (\<lambda>u. \<lparr>previous_output = ut_outpoint u, script_sig = [], sequence = 0xffffffff, txin_witness = []\<rparr>) us) pins = Ok pins'"
    and "list_all2 (\<lambda>u pin. witness_utxo pin = Some (ut_txout u) \<and> witness_script pin = Some ws) us pins"
  shows "list_all2 (composed_input ws parents) us pins'"
  using assms(2,1) by (induction arbitrary: pins' rule: list_all2_induct) (auto simp: bind_res_Ok_iff composed_input_def)

lemma attached_Ok:
  assumes "build_spend_n api us ws outs = Ok p" and "from_unsigned_law api" and "attach parents p = Ok q"
  shows "unsigned_tx q = spend_tx us outs" "length (psbt_outputs q) = length outs" "list_all2 (composed_input ws parents) us (psbt_inputs q)"
proof -
  note b = build_spend_n_Ok [OF assms(1,2)]
  from assms(3) obtain pins where "attach_parents parents (tx_input (unsigned_tx p)) (psbt_inputs p) = Ok pins" "q = p\<lparr>psbt_inputs := pins\<rparr>"
    by (auto simp: attach_def bind_res_Ok_iff)
  with b attach_parents_Ok [of parents us "psbt_inputs p" pins ws]
  show "unsigned_tx q = spend_tx us outs" "length (psbt_outputs q) = length outs" "list_all2 (composed_input ws parents) us (psbt_inputs q)"
    by (simp_all add: spend_tx_def)
qed

subsection \<open>The signer accepts\<close>

lemma composed_input_member:
  assumes "composed_input ws parents (utxo_of c) pin" and "full_parent_of api parents c" and "sn_outpoint c \<notin> set seen"
  shows "member_input (cm_user api) ws seen i \<lparr>previous_output = sn_outpoint c, script_sig = [], sequence = s, txin_witness = []\<rparr> pin = Ok (ut_txout (utxo_of c))"
proof -
  from assms(2) obtain parent where "hm_get parents (op_txid (sn_outpoint c)) = Some parent" "sa_txid (cp_sig (la_conf (cm_user api))) parent = op_txid (sn_outpoint c)"
    "agrees parent c" by (auto simp: full_parent_of_def)
  moreover from \<open>agrees parent c\<close> have "unat (op_vout (sn_outpoint c)) < length (tx_output parent)" "tx_output parent ! unat (op_vout (sn_outpoint c)) = ut_txout (utxo_of c)"
    by (simp_all add: agrees_def Let_def utxo_of_def)
  ultimately show ?thesis using assms(1,3) by (simp add: member_input_def composed_input_def Let_def utxo_of_def)
qed

lemma checked_sum_fits: "acc + sum_list vs \<le> u64_max \<Longrightarrow> checked_sum acc vs = Some (acc + sum_list vs)"
  by (induction vs arbitrary: acc) (simp_all add: checked_add64_def add.assoc)

lemma normalize_composed: "composed_input ws parents u pin \<Longrightarrow> normalize_input ws (ut_txout u) pin = pin"
  by (simp add: composed_input_def normalize_input_def)

lemma composed_members:
  assumes "list_all2 (composed_input ws parents) (map utxo_of coins) pins" and "\<forall>c \<in> set coins. full_parent_of api parents c"
    and "distinct (map sn_outpoint coins)" and "\<forall>c \<in> set coins. sn_outpoint c \<notin> set seen" and "checked_sum tin (map sn_value coins) = Some tot"
  shows "member_inputs (cm_user api) ws seen i tin (zip (tx_input (spend_tx (map utxo_of coins) outs)) pins) = Ok (tot, pins)"
  using assms
proof (induction coins arbitrary: pins seen i tin)
  case (Cons c coins)
  from Cons.prems(1) obtain pin pins' where p: "pins = pin # pins'" "composed_input ws parents (utxo_of c) pin"
    "list_all2 (composed_input ws parents) (map utxo_of coins) pins'" by (auto simp: list_all2_Cons1)
  from Cons.prems(5) obtain tin' where t: "checked_add64 tin (sn_value c) = Some tin'" "checked_sum tin' (map sn_value coins) = Some tot"
    by (auto simp: bind_eq_Some_conv)
  have v: "txo_value (ut_txout (utxo_of c)) = sn_value c" by (simp add: utxo_of_def)
  have z: "zip (tx_input (spend_tx (map utxo_of (c # coins)) outs)) pins =
    (\<lparr>previous_output = sn_outpoint c, script_sig = [], sequence = 0xffffffff, txin_witness = []\<rparr>, pin) # zip (tx_input (spend_tx (map utxo_of coins) outs)) pins'"
    by (simp add: p(1) spend_tx_def) (simp add: utxo_of_def)
  have "member_inputs (cm_user api) ws (sn_outpoint c # seen) (Suc i) tin' (zip (tx_input (spend_tx (map utxo_of coins) outs)) pins') = Ok (tot, pins')"
    using Cons.prems p(3) t(2) by (intro Cons.IH) (auto intro: rev_image_eqI)
  moreover have "member_input (cm_user api) ws seen i \<lparr>previous_output = sn_outpoint c, script_sig = [], sequence = 0xffffffff, txin_witness = []\<rparr> pin = Ok (ut_txout (utxo_of c))"
    using Cons.prems by (intro composed_input_member [OF p(2)]) simp_all
  ultimately show ?case using normalize_composed [OF p(2)] t(1) by (simp only: z member_inputs.simps) (simp add: p(1) v or_err_def)
qed (simp add: spend_tx_def)

lemma composed_member:
  assumes q: "unsigned_tx q = spend_tx (map utxo_of coins) outs" "length (psbt_outputs q) = length outs"
      "list_all2 (composed_input ws parents) (map utxo_of coins) (psbt_inputs q)"
    and coins: "\<forall>c \<in> set coins. full_parent_of api parents c" "distinct (map sn_outpoint coins)" "checked_sum 0 (map sn_value coins) = Some tot"
    and outs: "sum_list (map snd outs) \<le> tot" and final: "final_check api lv (q, cls) = Ok ()"
  shows "\<exists>mb. member (cm_user api) lv ws q = Ok mb \<and> mb_class mb = cls \<and> mb_outpoints mb = map sn_outpoint coins \<and> mb_psbt mb = q"
proof -
  have len: "length (psbt_inputs q) = length coins" using list_all2_lengthD [OF q(3)] by simp
  have i: "member_inputs (cm_user api) ws [] 0 0 (zip (tx_input (unsigned_tx q)) (psbt_inputs q)) = Ok (tot, psbt_inputs q)"
    unfolding q(1) by (rule composed_members [OF q(3) coins(1,2) _ coins(3)]) simp
  have "tot \<le> u64_max" using checked_sum_Some [OF coins(3)] by simp
  then have o: "checked_sum 0 (map txo_value (tx_output (unsigned_tx q))) = Some (sum_list (map snd outs))"
    using checked_sum_fits [of 0 "map snd outs"] outs by (simp add: q(1) spend_tx_def comp_def case_prod_beta)
  from final obtain c where "evaluate (la_desc (cm_user api)) q (lv_check_params lv) = Ok ()" "classify (la_desc (cm_user api)) q (lv_check_params lv) = Ok c" "cls_class c = cls"
    by (auto simp: final_check_def bind_res_Ok_iff split: if_splits)
  moreover have "q\<lparr>psbt_inputs := psbt_inputs q\<rparr> = q" "length (tx_input (unsigned_tx q)) = length coins" "length (tx_output (unsigned_tx q)) = length outs"
    "map previous_output (tx_input (unsigned_tx q)) = map sn_outpoint coins"
    by (simp_all add: q(1) spend_tx_def utxo_of_def)
  ultimately show ?thesis using q(2) len outs by (simp add: member_def i o or_err_def map_err_def Let_def)
qed

lemma compose_over_Ok:
  assumes "compose_over api lv amount pv = Ok req" and "bracket_ok api core ws (destination, change, escp) (pv_bracket pv) coins"
  obtains tot fee efee primary esc spend' esc' where "req = AuthorizeSpend (lv_wallet_id lv) \<lparr>au_spend = spend', au_escape = esc', au_escape_bumps = []\<rparr>"
    "checked_sum 0 (map sn_value coins) = Some tot" "amount + fee \<le> tot" "efee \<le> tot" "tot * unat (lv_escape_coverage_pct lv) \<le> (tot - efee) * 100"
    "build_spend_n api (map utxo_of coins) ws [(destination, amount), (change, tot - amount - fee)] = Ok primary"
    "build_spend_n api (map utxo_of coins) ws [(escp, tot - efee)] = Ok esc" "attach (br_parents (pv_bracket pv)) primary = Ok spend'"
    "attach (br_parents (pv_bracket pv)) esc = Ok esc'" "final_check api lv (spend', Hot) = Ok ()" "final_check api lv (esc', Escape) = Ok ()"
proof -
  have sh: "br_shape (pv_bracket pv) = \<lparr>sh_utxos = map utxo_of coins, sh_witness_script = ws, sh_scripts = (destination, change, escp)\<rparr>"
    using assms(2) by (simp add: bracket_ok_def)
  have v: "map (\<lambda>u. txo_value (ut_txout u)) (map utxo_of coins) = map sn_value coins" by (simp add: utxo_of_def)
  from assms(1) obtain tot fee efee primary esc spend' esc' where
    c: "checked_sum 0 (map sn_value coins) = Some tot" "amount \<le> tot" "fee \<le> tot - amount" "efee \<le> tot"
      "tot * unat (lv_escape_coverage_pct lv) \<le> (tot - efee) * 100"
      "build_pair api (br_shape (pv_bracket pv)) amount (tot - amount - fee) (tot - efee) = Ok (primary, esc)"
      "attach (br_parents (pv_bracket pv)) primary = Ok spend'" "attach (br_parents (pv_bracket pv)) esc = Ok esc'"
      "final_check api lv (spend', Hot) = Ok ()" "final_check api lv (esc', Escape) = Ok ()"
      "req = AuthorizeSpend (lv_wallet_id lv) \<lparr>au_spend = spend', au_escape = esc', au_escape_bumps = []\<rparr>"
    unfolding compose_over_def Let_def sh shape_inputs.simps v prod.case by (auto simp: bind_res_Ok_iff sh)
  from c(6) have "build_spend_n api (map utxo_of coins) ws [(destination, amount), (change, tot - amount - fee)] = Ok primary"
    "build_spend_n api (map utxo_of coins) ws [(escp, tot - efee)] = Ok esc"
    by (auto simp: build_pair_def sh bind_res_Ok_iff)
  moreover have "amount + fee \<le> tot" using c(2,3) by simp
  ultimately show thesis using that c by blast
qed

text \<open>C16: the composer hands the signer only what the signer accepts. A composed spend takes every coin that a scan of the vault's
  script reported, each once, in both transactions; it pays exactly the amount to the destination, on the sealed network, and the rest less a
  fee to the vault; its escape is one output that covers the sealed share of the coins, with no ladder; and the signer's own
  validation, which starts over from the full previous transactions, accepts the pair.\<close>

theorem composed_spend_authorized:
  assumes "compose_spend api lv core destination_text amount w = (Inr req, w')" and "from_unsigned_law api"
  shows "\<exists>au grp s wa wb coins parsed destination tot fee efee escp. req = AuthorizeSpend (lv_wallet_id lv) au \<and> prepare (cm_user api) lv req = Ok grp \<and>
    map (\<lambda>lm. mb_psbt (snd lm)) (gr_members grp) = [au_spend au, au_escape au] \<and>
    cv_scan_vault_script core (ua_script_pubkey (cm_user api) (lv_descriptor lv)) wa = (Inr s, wb) \<and> set coins = set (sn_coins s) \<and>
    coins \<noteq> [] \<and> distinct (map sn_outpoint coins) \<and> sum_list (map sn_value coins) = tot \<and> rung_inputs (au_spend au) = map sn_outpoint coins \<and>
    rung_inputs (au_escape au) = map sn_outpoint coins \<and> cm_address api destination_text = Some parsed \<and> parsed (lv_network lv) = Some destination \<and>
    tx_output (unsigned_tx (au_spend au)) = [\<lparr>script_pubkey = destination, txo_value = amount\<rparr>,
      \<lparr>script_pubkey = ua_script_pubkey (cm_user api) (lv_descriptor lv), txo_value = tot - amount - fee\<rparr>] \<and> amount + fee \<le> tot \<and>
    tx_output (unsigned_tx (au_escape au)) = [\<lparr>script_pubkey = escp, txo_value = tot - efee\<rparr>] \<and>
    efee \<le> tot \<and> tot * unat (lv_escape_coverage_pct lv) \<le> (tot - efee) * 100 \<and> au_escape_bumps au = []"
proof -
  from assms(1) obtain parsed destination escp pv w1 w2 where a: "cm_address api destination_text = Some parsed" "parsed (lv_network lv) = Some destination"
    and pv: "prepare_view api core (lv_network lv) (lv_descriptor lv) (destination, ua_script_pubkey (cm_user api) (lv_descriptor lv), escp) w1 = (Inr pv, w2)"
    and co: "compose_over api lv amount pv = Ok req"
    unfolding compose_spend_def by (auto elim!: io_bind_OkE)
  from prepare_view_Ok [OF pv] obtain ws coins where ws: "la_explicit_script (cm_user api) (lv_descriptor lv) = Some ws"
    and br: "bracket_ok api core ws (destination, ua_script_pubkey (cm_user api) (lv_descriptor lv), escp) (pv_bracket pv) coins" by auto
  from co br obtain tot fee efee primary esc spend' esc' where
    c: "req = AuthorizeSpend (lv_wallet_id lv) \<lparr>au_spend = spend', au_escape = esc', au_escape_bumps = []\<rparr>"
      "checked_sum 0 (map sn_value coins) = Some tot" "amount + fee \<le> tot" "efee \<le> tot" "tot * unat (lv_escape_coverage_pct lv) \<le> (tot - efee) * 100"
    and p: "build_spend_n api (map utxo_of coins) ws [(destination, amount), (ua_script_pubkey (cm_user api) (lv_descriptor lv), tot - amount - fee)] = Ok primary"
    and e: "build_spend_n api (map utxo_of coins) ws [(escp, tot - efee)] = Ok esc"
    and at: "attach (br_parents (pv_bracket pv)) primary = Ok spend'" "attach (br_parents (pv_bracket pv)) esc = Ok esc'"
    and f: "final_check api lv (spend', Hot) = Ok ()" "final_check api lv (esc', Escape) = Ok ()"
    by (rule compose_over_Ok)
  have k: "\<forall>c \<in> set coins. full_parent_of api (br_parents (pv_bracket pv)) c" "distinct (map sn_outpoint coins)" "coins \<noteq> []"
    using br by (auto simp: bracket_ok_def)
  note s' = attached_Ok [OF p assms(2) at(1)] and e' = attached_Ok [OF e assms(2) at(2)]
  obtain sm where sm: "member (cm_user api) lv ws spend' = Ok sm" "mb_class sm = Hot" "mb_outpoints sm = map sn_outpoint coins" "mb_psbt sm = spend'"
    using composed_member [OF s' k(1,2) c(2) _ f(1)] c(3) by auto
  obtain em where em: "member (cm_user api) lv ws esc' = Ok em" "mb_class em = Escape" "mb_outpoints em = map sn_outpoint coins" "mb_psbt em = esc'"
    using composed_member [OF e' k(1,2) c(2) _ f(2)] c(4) by auto
  have "unladdered em = Ok ()" by (simp add: unladdered_def em(4) e'(1) spend_tx_def list_ex_iff)
  moreover have "pair_labels sm em = Ok (''primary hot-destination transaction'', ''escape-destination transaction'')"
    using k(3) by (simp add: pair_labels_def sm em Let_def)
  ultimately obtain grp where grp: "prepare (cm_user api) lv req = Ok grp" "map (\<lambda>lm. mb_psbt (snd lm)) (gr_members grp) = [spend', esc']"
    by (simp add: prepare_def ws or_err_def c(1) sm em check_ladder_def)
  obtain s wa wb where s: "cv_scan_vault_script core (ua_script_pubkey (cm_user api) (lv_descriptor lv)) wa = (Inr s, wb)" "set coins = set (sn_coins s)"
    using br by (auto simp: bracket_ok_def)
  have "sum_list (map sn_value coins) = tot" using checked_sum_Some [OF c(2)] by simp
  moreover have "rung_inputs spend' = map sn_outpoint coins" "rung_inputs esc' = map sn_outpoint coins"
    by (simp_all add: rung_inputs_def s'(1) e'(1) spend_tx_def utxo_of_def)
  ultimately show ?thesis using a c(3-5) k(2,3) s'(1) e'(1) s grp unfolding c(1)
    by (intro exI [of _ "\<lparr>au_spend = spend', au_escape = esc', au_escape_bumps = []\<rparr>"] exI [of _ grp] exI [of _ s] exI [of _ wa] exI [of _ wb] exI [of _ coins]
        exI [of _ parsed] exI [of _ destination] exI [of _ tot] exI [of _ fee] exI [of _ efee] exI [of _ escp]) (simp add: spend_tx_def)
qed

end
