(* ===== verification/User_Demo.thy ===== *)
theory User_Demo
  imports User_Sound Load_Demo
begin

text \<open>
  Witnesses for the user's side: the artifacts of the three-node federation load into a live vault that agrees with a node of
  that federation, and a signer releases a laddered pair that a node verifies.
\<close>

subsection \<open>The artifacts of the demonstration federation\<close>

definition demo_parsed_node :: "digest \<Rightarrow> nat \<Rightarrow> parsed_node" where
  "demo_parsed_node h i = (let e = cer_entry demo_config_api (replicate 32 1) h demo_fed i in
     \<lparr>pn_node_id = cn_node_id e, pn_signing_pubkey = cn_signing_pubkey e, pn_channel_pubkey = cn_channel_pubkey e,
      pn_transport_endpoints = cn_endpoints e, pn_channel_endorsement = cn_channel_endorsement e\<rparr>)"

definition demo_parsed :: "digest \<Rightarrow> parsed_manifest" where
  "demo_parsed h = \<lparr>pm_protocol_version = PROTOCOL_VERSION, pm_wallet_id = demo_to_hex (replicate 32 1), pm_vault_descriptor = ''d'',
     pm_manifest_hash = demo_to_hex h, pm_coordinator_auth_pubkey = demo_to_hex (2 # replicate 31 9 @ [9]), pm_t = 2, pm_n = 3,
     pm_recovery_timelock = RECOVERY_TIMELOCK_NSEQUENCE, pm_policy_version = 1, pm_max_msg_bytes = 100000, pm_hot_max_per_tx = 10,
     pm_hot_max_per_window = 20, pm_hot_window_secs = 600, pm_hot_allowlist = [''h''], pm_escape_descriptor = ''e'', pm_max_derivation_index = 5,
     pm_escape_feerate_floor = 1, pm_escape_coverage_pct = 50, pm_escape_bump_max_fee_pct = 10, pm_network = ''regtest'',
     pm_nodes = map (demo_parsed_node h) [0..<3]\<rparr>"

definition user_demo_api :: "config_api \<Rightarrow> digest \<Rightarrow> nat user_api" where
  "user_demo_api conf h = \<lparr>la_conf = conf, la_desc = demo_api, la_argon2 = demo_argon2,
     la_key = \<lparr>ka_num_der_paths = (\<lambda>_. 0), ka_show = demo_to_hex\<rparr>, la_declared_version = (\<lambda>_. Some (Some PROTOCOL_VERSION)),
     la_toml = (\<lambda>_. Some (load_demo_config h)),
     la_parse_descriptor = (\<lambda>s. if s = ''v'' \<or> s = ''d'' then Some (template_of load_demo_template) else None),
     la_show_descriptor = (\<lambda>_. replicate 32 (CHR 0x01)), la_explicit_script = (\<lambda>_. Some [1, 1]), la_max_weight = (\<lambda>_. Some 400),
     la_parse_wallet = (\<lambda>s. if s = ''h'' then Some 2 else if s = ''e'' then Some 3 else Some 9),
     la_show_wallet = (\<lambda>d. if d = 2 then ''h'' else if d = 3 then ''e'' else ''v''),
     ua_envelope_version = (\<lambda>_. Some (Some (unat PROTOCOL_VERSION))), ua_json = (\<lambda>_. Some (demo_parsed h)), ua_loopback = (\<lambda>_. True),
     ua_script_pubkey = (\<lambda>_. [5, 1]), ua_address = (\<lambda>_ _. None), ua_seckey_of_str = demo_from_hex, ua_tx = demo_tx_api\<rparr>"

definition demo_files :: "digest \<Rightarrow> string \<Rightarrow> string option" where
  "demo_files h name = (if name = ''manifest.json'' then Some ''m'' else if name = ''descriptor.txt'' then Some ''d''
     else if name = ''wallet-id.txt'' then Some (demo_to_hex (replicate 32 1))
     else if name = ''coordinator-auth.pubkey'' then Some (demo_to_hex (2 # replicate 31 9 @ [9]))
     else if name = ''manifest-hash.txt'' then Some (demo_to_hex h) else None)"

lemma user_demo_reads:
  "la_conf (user_demo_api c h) = c" "la_desc (user_demo_api c h) = demo_api" "la_parse_descriptor (user_demo_api c h) ''d'' = Some (template_of load_demo_template)"
  "la_show_descriptor (user_demo_api c h) d = replicate 32 (CHR 0x01)" "la_explicit_script (user_demo_api c h) d = Some [1, 1]"
  "la_max_weight (user_demo_api c h) d = Some 400" "la_parse_wallet (user_demo_api c h) ''h'' = Some 2" "la_parse_wallet (user_demo_api c h) ''e'' = Some 3"
  "la_parse_wallet (user_demo_api c h) (replicate 32 (CHR 0x01)) = Some 9"
  "la_show_wallet (user_demo_api c h) 2 = ''h''" "la_show_wallet (user_demo_api c h) 3 = ''e''" "ua_envelope_version (user_demo_api c h) t = Some (Some (unat PROTOCOL_VERSION))"
  "ua_json (user_demo_api c h) t = Some (demo_parsed h)" "ua_loopback (user_demo_api c h) a" "ua_script_pubkey (user_demo_api c h) d = [5, 1]"
  "ua_seckey_of_str (user_demo_api c h) = demo_from_hex" "ua_tx (user_demo_api c h) = demo_tx_api" "la_key (user_demo_api c h) = la_key (load_demo_api h)"
  by (simp_all add: user_demo_api_def load_demo_api_def numeral_eq_Suc)

lemma demo_artifacts:
  "read_artifact (demo_files h) ''descriptor.txt'' = Ok ''d''" "read_artifact (demo_files h) ''wallet-id.txt'' = Ok (demo_to_hex (replicate 32 1))"
  "read_artifact (demo_files h) ''coordinator-auth.pubkey'' = Ok (demo_to_hex (2 # replicate 31 9 @ [9]))"
  "read_artifact (demo_files h) ''manifest-hash.txt'' = Ok (demo_to_hex h)" "\<exists>t. read_artifact (demo_files h) ''manifest.json'' = Ok t"
proof -
  have "trim ''d'' = ''d''" by (simp add: trim_hex hex_text_def hex_char_def)
  then show "read_artifact (demo_files h) ''descriptor.txt'' = Ok ''d''" "read_artifact (demo_files h) ''wallet-id.txt'' = Ok (demo_to_hex (replicate 32 1))"
    "read_artifact (demo_files h) ''coordinator-auth.pubkey'' = Ok (demo_to_hex (2 # replicate 31 9 @ [9]))"
    "read_artifact (demo_files h) ''manifest-hash.txt'' = Ok (demo_to_hex h)" "\<exists>t. read_artifact (demo_files h) ''manifest.json'' = Ok t"
    using demo_trim [of "2 # replicate 31 9 @ [9]"] demo_trim [of "replicate 32 1"] demo_trim [of h]
    by (simp_all only: read_artifact_def demo_files_def or_err_def) (simp_all (no_asm_simp))
qed

lemma demo_pubkey_text: "length pk = 33 \<Longrightarrow> parse_compressed_pubkey (cp_keys demo_config_api) (demo_to_hex pk) = Ok pk"
  using demo_hex_text [of pk] by (simp add: parse_compressed_pubkey_def demo_hex_inverse demo_config_api_def demo_keygen_def)

lemma demo_channel_length: "i < 3 \<Longrightarrow> length (channel_key_of demo_config_api (fst (demo_fed ! i))) = 33 \<and> derive_channel_seckey (cp_keys demo_config_api) (fst (demo_fed ! i)) \<noteq> None"
proof -
  assume "i < 3"
  then have "i = 0 \<or> i = 1 \<or> i = 2" by linarith
  then show ?thesis by (auto simp: demo_fed_def channel_key_of_def demo_channel_key channel_pubkey_of_def) (simp_all add: demo_config_api_def demo_keygen_def)
qed

definition demo_live_node :: "nat \<Rightarrow> live_node" where
  "demo_live_node i = \<lparr>ln_cer = cer_nodes demo_config_api demo_fed ! i, ln_channel = channel_key_of demo_config_api (fst (demo_fed ! i)),
     ln_endpoints = [''127.0.0.1:7'']\<rparr>"

lemma demo_live_node_of:
  assumes "i < 3"
  shows "live_node_of (user_demo_api demo_config_api h) load_demo_template i (demo_parsed_node h i) = Ok (demo_live_node i)"
proof -
  let ?pk = "kg_public_key (cp_keys demo_config_api) (fst (demo_fed ! i))"
  from assms have i: "i = 0 \<or> i = 1 \<or> i = 2" by linarith
  then have f: "?pk = demo_keys ! i" "length ?pk = 33" "snd (demo_fed ! i) = [''127.0.0.1:7'']" "unat (word_of_nat i :: 16 word) = i"
    by (auto simp: demo_fed_def demo_keys_def) (simp_all add: demo_config_api_def demo_keygen_def)
  have sh: "cp_show_pubkey demo_config_api = demo_to_hex" "cp_socket demo_config_api = Some" by (simp_all add: demo_config_api_def)
  have len: "length demo_fed = 3" by (simp add: demo_fed_def)
  have t: "vt_node_keys load_demo_template = demo_keys" by (simp add: load_demo_template_def)
  show ?thesis using assms f demo_channel_length [OF assms]
    by (simp add: live_node_of_def demo_parsed_node_def cer_entry_def Let_def sh user_demo_reads demo_pubkey_text map_err_def require_def or_err_def t
        demo_live_node_def cer_nodes_def len)
qed

lemma demo_live_nodes: "live_nodes (user_demo_api demo_config_api h) load_demo_template 0 (map (demo_parsed_node h) [0..<3]) = Ok (map demo_live_node [0..<3])"
proof -
  have "[0..<3] = [0, Suc 0, Suc (Suc 0)]" by (simp add: upt_rec)
  then show ?thesis by (simp add: demo_live_node_of)
qed

lemma demo_live_manifest:
  "live_manifest (user_demo_api demo_config_api h) (demo_parsed h) (replicate 32 1) (2 # replicate 31 9 @ [9]) Regtest (map demo_live_node [0..<3]) =
     manifest_of demo_sealed (map (cer_member demo_config_api demo_fed) [0..<length demo_fed])"
  "canonical_all (canon_of (user_demo_api demo_config_api h)) [''h''] = Ok [''h'']" "canon_of (user_demo_api demo_config_api h) ''e'' = Some ''e''"
  "map ln_cer (map demo_live_node [0..<3]) = cer_nodes demo_config_api demo_fed"
  "map ln_channel (map demo_live_node [0..<3]) = map (\<lambda>m. channel_key_of demo_config_api (fst m)) demo_fed"
proof -
  have len: "length demo_fed = 3" by (simp add: demo_fed_def)
  show c: "map ln_cer (map demo_live_node [0..<3]) = cer_nodes demo_config_api demo_fed"
    by (rule nth_equalityI) (simp_all add: cer_nodes_def demo_live_node_def len)
  show k: "map ln_channel (map demo_live_node [0..<3]) = map (\<lambda>m. channel_key_of demo_config_api (fst m)) demo_fed"
    by (rule nth_equalityI) (simp_all add: demo_live_node_def len)
  show "canonical_all (canon_of (user_demo_api demo_config_api h)) [''h''] = Ok [''h'']" "canon_of (user_demo_api demo_config_api h) ''e'' = Some ''e''"
    by (simp_all add: canon_of_def user_demo_reads)
  show "live_manifest (user_demo_api demo_config_api h) (demo_parsed h) (replicate 32 1) (2 # replicate 31 9 @ [9]) Regtest (map demo_live_node [0..<3]) =
     manifest_of demo_sealed (map (cer_member demo_config_api demo_fed) [0..<length demo_fed])"
    unfolding live_manifest_def c k by (simp add: manifest_nodes_cer manifest_values_def demo_parsed_def demo_sealed_def canon_of_def user_demo_reads)
qed

lemma demo_live_hash:
  assumes "ceremony_manifest_hash demo_config_api Some demo_sealed (cer_nodes demo_config_api demo_fed) (map (\<lambda>m. channel_key_of demo_config_api (fst m)) demo_fed) = Ok h"
  shows "live_hash (user_demo_api demo_config_api h) (demo_files h) (demo_parsed h) (replicate 32 1) (2 # replicate 31 9 @ [9]) Regtest (map demo_live_node [0..<3]) = Ok h"
proof -
  have "manifest_values (demo_parsed h) (replicate 32 1) (2 # replicate 31 9 @ [9]) Regtest = demo_sealed"
    by (simp add: manifest_values_def demo_parsed_def demo_sealed_def)
  moreover have "ceremony_manifest_hash demo_config_api (canon_of (user_demo_api demo_config_api h)) demo_sealed (cer_nodes demo_config_api demo_fed)
      (map (\<lambda>m. channel_key_of demo_config_api (fst m)) demo_fed) = Ok h"
    using assms demo_live_manifest(2,3) [of h] by (simp add: ceremony_manifest_hash_def) (simp add: demo_sealed_def)
  moreover have "pm_manifest_hash (demo_parsed h) = demo_to_hex h" "kg_to_hex (cp_keys demo_config_api) = demo_to_hex"
    by (simp_all add: demo_parsed_def demo_config_api_def demo_keygen_def)
  ultimately show ?thesis
    unfolding live_hash_def demo_live_manifest(4,5) user_demo_reads by (simp add: map_err_def demo_artifacts require_def Let_def)
qed

lemma demo_endorsed:
  "for_each (check_live_endorsement (user_demo_api demo_config_api h) load_demo_template (replicate 32 1) h)
     (zip (map (demo_parsed_node h) [0..<3]) (map demo_live_node [0..<3])) = Ok ()"
proof -
  have "check_live_endorsement (user_demo_api demo_config_api h) load_demo_template (replicate 32 1) h (demo_parsed_node h i, demo_live_node i) = Ok ()" if "i < 3" for i
  proof -
    from that have i: "i = 0 \<or> i = 1 \<or> i = 2" by linarith
    then have "vt_node_keys load_demo_template ! unat (word_of_nat i :: 16 word) = kg_public_key (cp_keys demo_config_api) (fst (demo_fed ! i))"
      by (auto simp: load_demo_template_def demo_keys_def demo_fed_def) (simp_all add: demo_config_api_def demo_keygen_def)
    moreover obtain csk where "derive_channel_seckey (cp_keys demo_config_api) (fst (demo_fed ! i)) = Some csk" using demo_channel_length \<open>i < 3\<close> by blast
    moreover have "kg_to_hex (cp_keys demo_config_api) = demo_to_hex" "kg_from_hex (cp_keys demo_config_api) = demo_from_hex"
      by (simp_all add: demo_config_api_def demo_keygen_def)
    ultimately show ?thesis using demo_codec_laws
      by (simp add: check_live_endorsement_def user_demo_reads demo_parsed_node_def cer_entry_def demo_live_node_def verify_endorsement_def
          endorse_def demo_trim check_endorsement_def demo_hex_inverse codec_laws_def channel_key_of_def map_err_def)
  qed
  then show ?thesis by (simp add: for_each_Ok_iff zip_map_map zip_same_conv_map)
qed

definition demo_live_vault :: "digest \<Rightarrow> nat live_vault" where
  "demo_live_vault h = \<lparr>lv_wallet_id = replicate 32 1, lv_manifest_hash = h, lv_descriptor = template_of load_demo_template, lv_template = load_demo_template,
     lv_check_params = \<lparr>vault = 9, allowed = [2, 3], escape = Some 3, max_derivation_index = 5, hot_max_per_tx = 10\<rparr>,
     lv_network = Regtest, lv_escape_bump_max_fee_pct = 10, lv_escape_feerate_floor = 1, lv_escape_coverage_pct = 50, lv_policy_version = 1,
     lv_coordinator_pubkey = 2 # replicate 31 9 @ [9], lv_endpoints = replicate 3 ''127.0.0.1:7''\<rparr>"

lemma demo_vault_loads:
  assumes "ceremony_manifest_hash demo_config_api Some demo_sealed (cer_nodes demo_config_api demo_fed) (map (\<lambda>m. channel_key_of demo_config_api (fst m)) demo_fed) = Ok h"
  shows "load_artifacts (user_demo_api demo_config_api h) (demo_files h) = Ok (demo_live_vault h)"
    "artifact_manifest (user_demo_api demo_config_api h) (demo_files h) = Ok (manifest_of demo_sealed (map (cer_member demo_config_api demo_fed) [0..<length demo_fed]))"
proof -
  let ?api = "user_demo_api demo_config_api h"
  obtain t where t: "read_artifact (demo_files h) ''manifest.json'' = Ok t" using demo_artifacts(5) by blast
  have m: "parse_manifest ?api t = Ok (demo_parsed h)" "live_revision ?api t = Ok ()"
    by (simp_all add: parse_manifest_def live_revision_def user_demo_reads or_err_def require_def)
  have p: "pm_vault_descriptor (demo_parsed h) = ''d''" "pm_wallet_id (demo_parsed h) = demo_to_hex (replicate 32 1)" "pm_network (demo_parsed h) = ''regtest''"
    "pm_nodes (demo_parsed h) = map (demo_parsed_node h) [0..<3]" "pm_hot_allowlist (demo_parsed h) = [''h'']" "pm_escape_descriptor (demo_parsed h) = ''e''"
    "pm_coordinator_auth_pubkey (demo_parsed h) = demo_to_hex (2 # replicate 31 9 @ [9])"
    by (simp_all add: demo_parsed_def)
  have d: "live_descriptor ?api (demo_files h) (demo_parsed h) = Ok (template_of load_demo_template, load_demo_template)"
    by (simp add: live_descriptor_def demo_artifacts user_demo_reads p or_err_def require_def load_demo_template_ok map_err_def)
  have "kg_sha256 (cp_keys demo_config_api) (str_bytes (replicate 32 (CHR 0x01))) = replicate 32 1" "kg_to_hex (cp_keys demo_config_api) = demo_to_hex"
    by (simp_all add: demo_config_api_def str_bytes_def demo_keygen_def)
  then have w: "live_wallet_id ?api (demo_files h) (demo_parsed h) (template_of load_demo_template) = Ok (replicate 32 1)"
    by (simp only: live_wallet_id_def user_demo_reads Let_def demo_artifacts p) (simp add: require_def)
  have f: "check_consensus_facts (demo_parsed h) load_demo_template = Ok ()"
    by (simp add: check_consensus_facts_def demo_parsed_def load_demo_template_def demo_keys_def require_def)
  have n: "parse_vault_network ''regtest'' = Some Regtest" by (simp add: parse_vault_network_def)
  have k: "check_descriptor_network_kind demo_api r x Regtest = Ok ()" if "x = 2 \<or> x = 3" for r x
    using that by (auto simp: check_descriptor_network_kind_def demo_api_def Let_def)
  have c: "live_coordinator ?api (demo_files h) (demo_parsed h) = Ok (2 # replicate 31 9 @ [9])"
    using demo_pubkey_text [of "2 # replicate 31 9 @ [9]"]
    by (simp add: live_coordinator_def demo_artifacts user_demo_reads p map_err_def require_def) (simp add: demo_config_api_def)
  have eps: "concat (map ln_endpoints (map demo_live_node [0..<3])) = replicate 3 ''127.0.0.1:7''"
    by (simp add: demo_live_node_def upt_rec numeral_eq_Suc)
  show "load_artifacts ?api (demo_files h) = Ok (demo_live_vault h)"
    using demo_live_hash [OF assms] demo_endorsed [of h] eps
    by (simp add: load_artifacts_def t m d w f p n c k user_demo_reads or_err_def map_err_def demo_live_nodes del: map_map)
      (simp add: demo_live_vault_def demo_parsed_def)
  show "artifact_manifest ?api (demo_files h) = Ok (manifest_of demo_sealed (map (cer_member demo_config_api demo_fed) [0..<length demo_fed]))"
    using demo_live_manifest(1) [of h]
    by (simp add: artifact_manifest_def t m d w p n c or_err_def demo_live_nodes)
qed

text \<open>The node of the demonstration works with the sealed values of its federation.\<close>

lemma demo_node_values:
  fixes bc :: built_channel and kdf :: carrier_kdf and h :: digest
  defines "node \<equiv> configured_node (load_demo_api h) demo_node (load_demo_config h) load_demo_keys 9 [1, 1] 400 (replicate 32 1) \<lparr>ds_allowed = [2, 3], ds_escape = 3\<rparr> kdf (Some bc)"
  assumes "ce_nodes (bc_env bc) = map (cer_member demo_config_api demo_fed) [0..<length demo_fed]" "bc_max_msg_bytes bc = 100000"
  shows "node_manifest (la_show_wallet (user_demo_api demo_config_api h)) (cf_escape_bump_max_fee_pct (load_demo_config h)) node =
      manifest_of demo_sealed (map (cer_member demo_config_api demo_fed) [0..<length demo_fed])"
    "hot_max_per_tx (nd_check_params node) = 10" "nd_escape_feerate_floor node = 1" "nd_env node = bc_env bc"
  using assms(2,3)
  by (simp_all add: node_manifest_def node_values_def node_def configured_node_def user_demo_reads Let_def)
    (simp_all add: load_demo_config_def load_demo_keys_def demo_sealed_def hot_budget_of_def cfg_escape_feerate_floor_def cfg_escape_coverage_pct_def
      or_default_def DEFAULT_ESCAPE_FEERATE_FLOOR_def)

theorem live_vault_matches_node_witness:
  "\<exists>h lv node ns. load_artifacts (user_demo_api demo_config_api h) (demo_files h) = Ok lv \<and>
     node_load (load_demo_api h) demo_node load_demo_startup = Ok (node, ns) \<and>
     hot_max_per_tx (lv_check_params lv) = hot_max_per_tx (nd_check_params node) \<and> lv_network lv = nd_network node"
proof -
  obtain h where h: "ceremony_manifest_hash demo_config_api Some demo_sealed (cer_nodes demo_config_api demo_fed)
      (map (\<lambda>m. channel_key_of demo_config_api (fst m)) demo_fed) = Ok h" "length h = 32"
    using demo_sealed_hash by blast
  note l = demo_vault_loads [OF h(1)]
  from load_demo_node [OF h] obtain bc kdf ns node where n: "node_load (load_demo_api h) demo_node load_demo_startup = Ok (node, ns)"
    and bc: "ce_manifest_hash (bc_env bc) = h" "ce_nodes (bc_env bc) = map (cer_member demo_config_api demo_fed) [0..<length demo_fed]" "bc_max_msg_bytes bc = 100000"
    and node: "node = configured_node (load_demo_api h) demo_node (load_demo_config h) load_demo_keys 9 [1, 1] 400 (replicate 32 1) \<lparr>ds_allowed = [2, 3], ds_escape = 3\<rparr> kdf (Some bc)"
    by blast
  note v = demo_node_values [OF bc(2,3), of h kdf, folded node]
  have tr: "load_api.truncate (user_demo_api demo_config_api h) = load_demo_api h" by (simp add: load_api.defs user_demo_api_def load_demo_api_def)
  have toml: "su_contents load_demo_startup = Some ''c''" "la_toml (user_demo_api demo_config_api h) ''c'' = Some (load_demo_config h)"
    by (simp_all add: load_demo_startup_def user_demo_api_def)
  have "manifest_ok (manifest_of demo_sealed (map (cer_member demo_config_api demo_fed) [0..<length demo_fed]))"
    using demo_manifest_ok [OF bc(2), of h 0] bc(2) by (simp add: built_manifest_def demo_sealed_def demo_channel_config_def)
  then have "hot_max_per_tx (lv_check_params (demo_live_vault h)) = hot_max_per_tx (nd_check_params node) \<and> lv_network (demo_live_vault h) = nd_network node"
    using live_vault_matches_node [OF l n [folded tr] toml] by (simp add: v bc(1)) (simp add: demo_live_vault_def)
  with l(1) n show ?thesis by blast
qed

subsection \<open>A signed pair with one rung\<close>

definition signer_conf :: config_api where
  "signer_conf = demo_config_api\<lparr>cp_sig := (cp_sig demo_config_api)\<lparr>sa_sighash := \<lambda>tx i s v. Some [word_of_nat i], sa_txid := \<lambda>_. [7]\<rparr>\<rparr>"

definition signer_coin :: txout where
  "signer_coin = \<lparr>script_pubkey = [5, 1], txo_value = 100000\<rparr>"

definition signer_prevtx :: transaction where
  "signer_prevtx = \<lparr>tx_version = 2, tx_lock_time = 0, tx_input = [], tx_output = [signer_coin]\<rparr>"

definition signer_psbt :: "psbt_input list \<Rightarrow> txout list \<Rightarrow> psbt" where
  "signer_psbt pins outs = (demo_psbt outs)\<lparr>psbt_inputs := pins\<rparr>"

definition signer_given :: psbt_input where
  "signer_given = demo_input\<lparr>non_witness_utxo := Some signer_prevtx, witness_utxo := None\<rparr>"

definition signer_normal :: psbt_input where
  "signer_normal = demo_input\<lparr>non_witness_utxo := Some signer_prevtx, witness_utxo := Some signer_coin, witness_script := Some [1, 1]\<rparr>"

definition signer_request :: spend_authorization where
  "signer_request = \<lparr>au_spend = signer_psbt [signer_given] [demo_out 2 0 10, demo_out 5 1 99000], au_escape = signer_psbt [signer_given] [demo_out 3 0 99000],
     au_escape_bumps = [signer_psbt [signer_given] [demo_out 3 0 95000]]\<rparr>"

definition signer_node :: "nat node" where
  "signer_node = demo_node\<lparr>nd_sig := cp_sig signer_conf, nd_user_pubkey := vt_user_key load_demo_template, nd_check_params := lv_check_params (demo_live_vault []),
     nd_max_vault_satisfaction_weight := 400\<rparr>"

definition signer_key_file :: secret_file where
  "signer_key_file = \<lparr>sf_opened = True, sf_examined = True, sf_regular = True, sf_mode = 0x180, sf_reads = map ReadByte (str_bytes (demo_to_hex (replicate 32 1)))\<rparr>"

abbreviation signer_api :: "nat user_api" where "signer_api \<equiv> user_demo_api signer_conf []"
abbreviation signer_vault :: "nat live_vault" where "signer_vault \<equiv> demo_live_vault []"

lemma signer_reads:
  "lv_descriptor signer_vault = template_of load_demo_template" "lv_template signer_vault = load_demo_template" "lv_escape_bump_max_fee_pct signer_vault = 10"
  "lv_check_params signer_vault = \<lparr>vault = 9, allowed = [2, 3], escape = Some 3, max_derivation_index = 5, hot_max_per_tx = 10\<rparr>"
  "sa_txid (cp_sig signer_conf) tx = [7]" "sa_sighash (cp_sig signer_conf) tx i s v = Some [word_of_nat i]" "cp_keys signer_conf = cp_keys demo_config_api"
  "cp_sign signer_conf = cp_sign demo_config_api" "kg_seckey_of_slice (cp_keys demo_config_api) k = (if k = [] then None else Some k)"
  "kg_public_key (cp_keys demo_config_api) k = take 33 (2 # k)" "vt_user_key load_demo_template = 2 # replicate 32 1"
  by (simp_all add: demo_live_vault_def signer_conf_def demo_config_api_def demo_keygen_def load_demo_template_def numeral_eq_Suc)

lemma signer_same_vault: "same_vault signer_api signer_vault signer_node"
  by (simp add: same_vault_def user_demo_reads signer_reads signer_node_def) (simp add: demo_node_def)

lemma signer_inputs: "member_inputs signer_api [1, 1] [] 0 0 [(\<lparr>previous_output = \<lparr>op_txid = [7], op_vout = 0\<rparr>, script_sig = [], sequence = 0xfffffffd, txin_witness = []\<rparr>, signer_given)] =
    Ok (100000, [signer_normal])"
  by (simp add: member_input_def user_demo_reads signer_reads signer_given_def signer_normal_def demo_input_def signer_prevtx_def signer_coin_def normalize_input_def
      or_err_def checked_add64_def u64_max_def)

definition signer_member :: "tx_class \<Rightarrow> u64 \<Rightarrow> u64 \<Rightarrow> txout list \<Rightarrow> group_member" where
  "signer_member c fee out outs = \<lparr>mb_psbt = signer_psbt [signer_normal] outs, mb_class = c, mb_total_in = 100000, mb_fee = fee, mb_outflow = out,
     mb_outpoints = [\<lparr>op_txid = [7], op_vout = 0\<rparr>]\<rparr>"

lemma signer_members:
  "member signer_api signer_vault [1, 1] (signer_psbt [signer_given] [demo_out 2 0 10, demo_out 5 1 99000]) =
     Ok (signer_member Hot 990 10 [demo_out 2 0 10, demo_out 5 1 99000])"
  "v \<in> {95000, 99000} \<Longrightarrow> member signer_api signer_vault [1, 1] (signer_psbt [signer_given] [demo_out 3 0 v]) =
     Ok (signer_member Escape (100000 - v) v [demo_out 3 0 v])"
  using signer_inputs
  by (auto simp: member_def signer_psbt_def demo_psbt_def signer_member_def or_err_def checked_add64_def u64_max_def map_err_def user_demo_reads signer_reads
      policy_defs demo_api_def demo_out_def signer_normal_def signer_coin_def demo_input_def)

lemma signer_vsize: "escape_replacement_min_fee_delta demo_tx_api 400 (unsigned_tx (signer_psbt pins outs)) = Some 201"
  by (simp add: escape_replacement_min_fee_delta_def maximum_finalized_vsize_for_def demo_tx_api_def checked_add64_def checked_mul64_def u64_max_def
      signer_psbt_def demo_psbt_def sat_mul64_def ESCAPE_RBF_INCREMENTAL_RELAY_SAT_VB_def MAX_SUPPORTED_INCREMENTAL_RELAY_SAT_KVB_def)

lemma signer_ladder:
  "check_ladder signer_api signer_vault (signer_member Escape 1000 99000 [demo_out 3 0 99000]) [signer_member Escape 5000 95000 [demo_out 3 0 95000]] = Ok ()"
  by (simp add: check_ladder_def user_demo_reads or_err_def rung_form_def signer_member_def Let_def signer_vsize signer_reads)
    (simp add: signer_psbt_def demo_psbt_def demo_out_def ESCAPE_RBF_SEQUENCE_def)

lemma signer_prepared:
  "\<exists>l0 l1 l2. prepare signer_api signer_vault (AuthorizeSpend [1] signer_request) =
     Ok \<lparr>gr_hint = [1], gr_members = [(l0, signer_member Hot 990 10 [demo_out 2 0 10, demo_out 5 1 99000]), (l1, signer_member Escape 1000 99000 [demo_out 3 0 99000]),
       (l2, signer_member Escape 5000 95000 [demo_out 3 0 95000])]\<rparr>"
proof -
  have "pair_labels (signer_member Hot 990 10 os) (signer_member Escape 1000 99000 os') =
      Ok (''primary hot-destination transaction'', ''escape-destination transaction'')" for os os'
    by (simp add: pair_labels_def signer_member_def Let_def)
  moreover have "mb_class (signer_member Hot 990 10 os) \<noteq> Escape" for os by (simp add: signer_member_def)
  ultimately show ?thesis using signer_members(2) [of 95000] signer_members(2) [of 99000]
    by (simp add: prepare_def user_demo_reads or_err_def signer_request_def MAX_ESCAPE_BUMPS_def signer_members(1) signer_ladder)
qed

lemma signer_messages:
  "input_messages signer_api signer_vault [1, 1] tx 0 [signer_normal] = Ok [[0]]"
  by (simp add: user_demo_reads signer_reads signer_normal_def signer_coin_def or_err_def require_def)

lemma signer_authorizes: "\<exists>shown ps. authorize signer_api signer_vault (replicate 32 1) (AuthorizeSpend [1] signer_request) = Ok (shown, ps)"
proof -
  obtain l0 l1 l2 where g: "prepare signer_api signer_vault (AuthorizeSpend [1] signer_request) =
     Ok \<lparr>gr_hint = [1], gr_members = [(l0, signer_member Hot 990 10 [demo_out 2 0 10, demo_out 5 1 99000]), (l1, signer_member Escape 1000 99000 [demo_out 3 0 99000]),
       (l2, signer_member Escape 5000 95000 [demo_out 3 0 95000])]\<rparr>"
    using signer_prepared by blast
  have m: "psbt_inputs (mb_psbt (signer_member c f out os)) = [signer_normal]" for c f out os by (simp add: signer_member_def signer_psbt_def)
  show ?thesis by (simp add: authorize_def g user_demo_reads or_err_def m signer_messages signer_reads del: input_messages.simps)
qed

lemma fill_buffer_all: "fill_buffer None (map ReadByte bs) filled = Ok (filled @ bs)"
  by (induction bs arbitrary: filled) auto

lemma signer_key_loads: "load_user_key signer_api signer_vault signer_key_file = Ok (replicate 32 1)"
proof -
  have "hex_text (demo_to_hex (replicate 32 1))" using demo_hex_text by blast
  then have "read_secret signer_key_file = Ok (demo_to_hex (replicate 32 1))"
    by (simp add: read_secret_def read_file_def signer_key_file_def fill_buffer_all from_utf8_hex or_err_def)
  moreover have "kg_public_key (cp_keys demo_config_api) (replicate 32 1) = vt_user_key load_demo_template" by (simp add: signer_reads)
  ultimately show ?thesis
    by (simp add: load_user_key_def map_err_def demo_trim user_demo_reads demo_hex_inverse or_err_def signer_reads require_def)
qed

theorem authorized_group_verified_witness:
  "\<exists>shown ps spend esc bmps. authorize signer_api signer_vault (replicate 32 1) (AuthorizeSpend [1] signer_request) = Ok (shown, ps) \<and> ps = [spend, esc] @ bmps \<and> length bmps = 1 \<and>
     verify_spend signer_node False spend None = Ok () \<and>
     (\<forall>c. sc_escape c = esc \<longrightarrow> sc_bumps c = bmps \<longrightarrow> sc_escape_id c \<noteq> sc_commitment_id c \<longrightarrow> verify_all_escapes signer_node False c None = Ok ())"
proof -
  obtain shown ps where ps: "authorize signer_api signer_vault (replicate 32 1) (AuthorizeSpend [1] signer_request) = Ok (shown, ps)" using signer_authorizes by blast
  have scalar: "\<forall>s sk. kg_seckey_of_slice (cp_keys (la_conf signer_api)) s = Some sk \<longrightarrow> sk = s"
    by (simp add: user_demo_reads signer_reads split: if_splits)
  have sign: "\<forall>sk d. sa_verify (cp_sig (la_conf signer_api)) d (cp_sign (la_conf signer_api) sk d) (kg_public_key (cp_keys (la_conf signer_api)) sk)"
    by (simp add: user_demo_reads signer_conf_def demo_config_api_def demo_keygen_def)
  from authorized_group_verified [OF ps signer_key_loads signer_same_vault scalar sign] obtain spend esc bmps where r: "ps = spend # esc # bmps"
    "map unsigned_tx ps = unsigned_tx (au_spend signer_request) # unsigned_tx (au_escape signer_request) # map unsigned_tx (au_escape_bumps signer_request)"
    "\<forall>has_backend pre. (has_backend \<longrightarrow> run_prevout_check spend pre = Ok ()) \<longrightarrow> verify_spend signer_node has_backend spend pre = Ok ()"
    "\<forall>c has_backend pre. sc_escape c = esc \<longrightarrow> sc_bumps c = bmps \<longrightarrow> sc_escape_id c \<noteq> sc_commitment_id c \<longrightarrow>
      (has_backend \<longrightarrow> (\<forall>p \<in> set (esc # bmps). run_prevout_check p pre = Ok ())) \<longrightarrow> verify_all_escapes signer_node has_backend c pre = Ok ()"
    by - (elim exE conjE, rule that)
  have "length bmps = 1" using arg_cong [OF r(2), of length] by (simp add: r(1) signer_request_def)
  with ps r(1,3,4) show ?thesis by (intro exI [of _ shown] exI [of _ ps] exI [of _ spend] exI [of _ esc] exI [of _ bmps]) simp
qed

end
