(* ===== verification/Compose_Demo.thy ===== *)
theory Compose_Demo
  imports Compose_Sound User_Demo
begin

text \<open>
  A witness for the composer: a vault of one confirmed coin, read through a view of Core that answers every query, from which a
  spend of ten satoshi is composed.
\<close>

definition compose_demo_api :: "nat composer_api" where
  "compose_demo_api = \<lparr>cm_user = user_demo_api signer_conf [], cm_address = (\<lambda>_. Some (\<lambda>_. Some [2, 0])),
     cm_from_unsigned_tx = (\<lambda>tx. Some \<lparr>unsigned_tx = tx,
       psbt_inputs = map (\<lambda>_. \<lparr>non_witness_utxo = None, witness_utxo = None, partial_sigs = [], psbt_sighash_type = None, redeem_script = None,
         witness_script = None, final_script_sig = None, final_script_witness = None\<rparr>) (tx_input tx),
       psbt_outputs = map (\<lambda>_. \<lparr>bip32_derivation = []\<rparr>) (tx_output tx)\<rparr>),
     cm_dust = (\<lambda>_. 1), cm_total_size = (\<lambda>_. 100), cm_from_core_arg = (\<lambda>s. if s = ''regtest'' then Some Regtest else None)\<rparr>"

definition compose_demo_coin :: scan_coin where
  "compose_demo_coin = \<lparr>sn_outpoint = \<lparr>op_txid = [7], op_vout = 0\<rparr>, sn_value = 100000, sn_script = [5, 1], sn_height = 3\<rparr>"

definition compose_demo_core :: "unit user_core_view" where
  "compose_demo_core = \<lparr>cv_chain_info = io_return \<lparr>ci_identity = \<lparr>bi_chain = Some ''regtest'', bi_signet_challenge = None, bi_initialblockdownload = Some False\<rparr>,
       ci_initial_block_download = False, ci_best_block = [1]\<rparr>,
     cv_best_block_hash = io_return [1], cv_scan_vault_script = (\<lambda>_. io_return \<lparr>sn_best_block = [1], sn_coins = [compose_demo_coin]\<rparr>),
     cv_txout = (\<lambda>_. io_return (Some \<lparr>tv_best_block = [1], tv_confirmations = 6, tv_value = 100000, tv_script = [5, 1], tv_coinbase = False\<rparr>)),
     cv_block_hash = (\<lambda>_. io_return (Some [2])), cv_block_transaction = (\<lambda>_ _. io_return (Some signer_prevtx)), cv_fee_estimate = io_return None,
     cv_fee_floors = io_return \<lparr>fl_incremental_relay = 1000, fl_mempool_min = 900\<rparr>\<rparr>"

lemma compose_demo_reads:
  "cm_user compose_demo_api = user_demo_api signer_conf []" "cm_address compose_demo_api t = Some (\<lambda>_. Some [2, 0])" "cm_dust compose_demo_api spk = 1"
  "cm_total_size compose_demo_api tx = 100" "cm_from_core_arg compose_demo_api ''regtest'' = Some Regtest"
  by (simp_all add: compose_demo_api_def)

lemma compose_demo_law: "from_unsigned_law compose_demo_api"
  by (auto simp: from_unsigned_law_def compose_demo_api_def)

definition compose_demo_utxo :: utxo where
  "compose_demo_utxo = \<lparr>ut_outpoint = \<lparr>op_txid = [7], op_vout = 0\<rparr>, ut_txout = signer_coin\<rparr>"

definition compose_demo_psbt :: "transaction option \<Rightarrow> 32 word option \<Rightarrow> (script \<times> u64) list \<Rightarrow> psbt" where
  "compose_demo_psbt prev sh outs = \<lparr>unsigned_tx = spend_tx [compose_demo_utxo] outs,
     psbt_inputs = [\<lparr>non_witness_utxo = prev, witness_utxo = Some signer_coin, partial_sigs = [], psbt_sighash_type = sh, redeem_script = None,
       witness_script = Some [1, 1], final_script_sig = None, final_script_witness = None\<rparr>],
     psbt_outputs = map (\<lambda>_. \<lparr>bip32_derivation = []\<rparr>) outs\<rparr>"

lemma compose_demo_build: "build_spend_n compose_demo_api [compose_demo_utxo] [1, 1] outs = Ok (compose_demo_psbt None None outs)"
  by (simp add: build_spend_n_def compose_demo_api_def or_err_def compose_demo_psbt_def) (simp add: spend_tx_def compose_demo_utxo_def)

lemma compose_demo_shape: "check_shape (unsigned_tx (compose_demo_psbt a b outs)) = Ok ()"
  by (simp add: check_shape_def compose_demo_psbt_def spend_tx_def)

definition compose_demo_shape_inputs :: shape_inputs where
  "compose_demo_shape_inputs = \<lparr>sh_utxos = [compose_demo_utxo], sh_witness_script = [1, 1], sh_scripts = ([2, 0], [5, 1], [3, 0])\<rparr>"

lemma compose_demo_pair:
  "build_pair compose_demo_api compose_demo_shape_inputs a b c = Ok (compose_demo_psbt None None [([2, 0], a), ([5, 1], b)], compose_demo_psbt None None [([3, 0], c)])"
  by (simp add: build_pair_def compose_demo_shape_inputs_def compose_demo_build compose_demo_shape)

lemma compose_demo_vsize: "finalized_vsize compose_demo_api 400 (unsigned_tx (compose_demo_psbt a b outs)) = Ok 201"
  by (simp add: finalized_vsize_def compose_demo_reads user_demo_reads maximum_finalized_vsize_for_def demo_tx_api_def compose_demo_psbt_def spend_tx_def
      checked_add64_def checked_mul64_def u64_max_def or_err_def MAX_COMPOSER_VSIZE_def)

definition compose_demo_view :: txout_view where
  "compose_demo_view = \<lparr>tv_best_block = [1], tv_confirmations = 6, tv_value = 100000, tv_script = [5, 1], tv_coinbase = False\<rparr>"

lemma compose_demo_answers:
  "cv_txout compose_demo_core outp w = (Inr (Some compose_demo_view), w)" "cv_block_hash compose_demo_core h w = (Inr (Some [2]), w)"
  "cv_block_transaction compose_demo_core t b w = (Inr (Some signer_prevtx), w)" "cv_best_block_hash compose_demo_core w = (Inr [1], w)"
  "cv_scan_vault_script compose_demo_core spk w = (Inr \<lparr>sn_best_block = [1], sn_coins = [compose_demo_coin]\<rparr>, w)" "cv_fee_estimate compose_demo_core w = (Inr None, w)"
  "cv_fee_floors compose_demo_core w = (Inr \<lparr>fl_incremental_relay = 1000, fl_mempool_min = 900\<rparr>, w)"
  by (simp_all add: compose_demo_core_def compose_demo_view_def)

lemma compose_demo_reads_pass:
  "opening_reads compose_demo_core [compose_demo_coin] w = (Inr ([[1]], Inr [compose_demo_view]), w)"
  "closing_reads compose_demo_core [(compose_demo_coin, compose_demo_view)] w = (Inr ([[1]], Inr ()), w)"
  by (simp_all add: io_bind_def io_map_err_def compose_demo_answers) (simp_all add: compose_demo_view_def compose_demo_coin_def)

lemma compose_demo_parents: "fetch_parents compose_demo_api compose_demo_core 0 (parent_groups [compose_demo_coin]) w = (Inr (Inr [([7], signer_prevtx)]), w)"
proof -
  have "parent_groups [compose_demo_coin] = [([7], [compose_demo_coin])]" by (simp add: parent_groups_def compose_demo_coin_def)
  moreover have "agrees signer_prevtx compose_demo_coin" by (simp add: agrees_def signer_prevtx_def signer_coin_def compose_demo_coin_def)
  moreover have "projection 0 100 (Suc 0) = Some 200" by (simp add: projection_def checked_mul64_def checked_add64_def u64_max_def)
  ultimately show ?thesis
    by (simp add: io_bind_def io_map_err_def compose_demo_answers compose_demo_reads user_demo_reads signer_reads MAX_COMPOSER_FULL_PREVTX_BYTES_def)
qed

lemma compose_demo_candidates: "candidates compose_demo_api compose_demo_core [compose_demo_coin] w = (Inr ([[1], [1]], Inr [([7], signer_prevtx)]), w)"
  by (simp add: candidates_def io_bind_def compose_demo_reads_pass compose_demo_parents del: opening_reads.simps fetch_parents.simps closing_reads.simps)

definition compose_demo_bracket :: bracket where
  "compose_demo_bracket = \<lparr>br_shape = compose_demo_shape_inputs, br_parents = [([7], signer_prevtx)], br_primary_vsize = 201, br_escape_vsize = 201\<rparr>"

lemma compose_demo_passes: "pass compose_demo_api compose_demo_core Regtest [1, 1] ([2, 0], [5, 1], [3, 0]) 400 w = (Inr (Some compose_demo_bracket), w)"
proof -
  obtain info where info: "cv_chain_info compose_demo_core w = (Inr info, w)" "ci_best_block info = [1]" "\<not> ci_initial_block_download info"
    "verify_chain_identity (cm_from_core_arg compose_demo_api) (ci_identity info) Regtest = Ok ()" for w
    by (simp add: compose_demo_core_def verify_chain_identity_def compose_demo_reads)
  have coins: "sorted_unique [compose_demo_coin] [5, 1] = Ok [compose_demo_coin]" by (simp add: sorted_unique_def compose_demo_coin_def)
  have shape: "\<lparr>sh_utxos = map (\<lambda>c. \<lparr>ut_outpoint = sn_outpoint c, ut_txout = \<lparr>script_pubkey = sn_script c, txo_value = sn_value c\<rparr>\<rparr>) [compose_demo_coin],
      sh_witness_script = [1, 1], sh_scripts = ([2, 0], [5, 1], [3, 0])\<rparr> = compose_demo_shape_inputs"
    by (simp add: compose_demo_shape_inputs_def compose_demo_utxo_def compose_demo_coin_def signer_coin_def)
  show ?thesis unfolding pass_def Let_def
    by (simp add: io_bind_def io_map_err_def info compose_demo_answers io_res_def io_guard_def map_err_def coins shape [simplified] compose_demo_pair compose_demo_vsize
        compose_demo_candidates compose_demo_bracket_def)
qed

lemma compose_demo_final:
  "final_check compose_demo_api (demo_live_vault []) (compose_demo_psbt a b [([2, 0], 10), ([5, 1], 99789)], Hot) = Ok ()"
  "final_check compose_demo_api (demo_live_vault []) (compose_demo_psbt a b [([3, 0], 99799)], Escape) = Ok ()"
  by (auto simp: final_check_def compose_demo_reads user_demo_reads signer_reads map_err_def compose_demo_psbt_def spend_tx_def policy_defs demo_api_def signer_coin_def
      compose_demo_utxo_def)

lemma compose_demo_over:
  "\<exists>req. compose_over compose_demo_api (demo_live_vault []) 10 \<lparr>pv_bracket = compose_demo_bracket, pv_weight = 400, pv_sat_vb = 1\<rparr> = Ok req"
proof -
  have tot: "checked_sum 0 (map (\<lambda>u. txo_value (ut_txout u)) (sh_utxos compose_demo_shape_inputs)) = Some 100000"
    by (simp add: compose_demo_shape_inputs_def compose_demo_utxo_def signer_coin_def checked_add64_def u64_max_def)
  have sh: "sh_scripts compose_demo_shape_inputs = ([2, 0], [5, 1], [3, 0])" by (simp add: compose_demo_shape_inputs_def)
  have at: "attach [([7], signer_prevtx)] (compose_demo_psbt None None outs) = Ok (compose_demo_psbt (Some signer_prevtx) (Some SIGHASH_ALL) outs)" for outs
    by (simp add: attach_def compose_demo_psbt_def spend_tx_def compose_demo_utxo_def or_err_def hm_get_def)
  show ?thesis
    by (simp add: compose_over_def compose_demo_bracket_def tot sh or_err_def checked_mul64_def u64_max_def require_def compose_demo_reads compose_demo_pair
        check_priced_def compose_demo_vsize at compose_demo_final demo_live_vault_def [THEN arg_cong, of lv_escape_feerate_floor]
        demo_live_vault_def [THEN arg_cong, of lv_escape_coverage_pct])
qed

theorem composed_spend_authorized_witness:
  "\<exists>req grp. compose_spend compose_demo_api (demo_live_vault []) compose_demo_core ''a'' 10 () = (Inr req, ()) \<and>
     prepare (user_demo_api signer_conf []) (demo_live_vault []) req = Ok grp"
proof -
  obtain req where req: "compose_over compose_demo_api (demo_live_vault []) 10 \<lparr>pv_bracket = compose_demo_bracket, pv_weight = 400, pv_sat_vb = 1\<rparr> = Ok req"
    using compose_demo_over by blast
  have "prepare_view compose_demo_api compose_demo_core Regtest (template_of load_demo_template) ([2, 0], [5, 1], [3, 0]) () =
      (Inr \<lparr>pv_bracket = compose_demo_bracket, pv_weight = 400, pv_sat_vb = 1\<rparr>, ())"
    by (simp add: prepare_view_def Let_def io_bind_def io_opt_def io_guard_def compose_demo_reads user_demo_reads INVENTORY_PASSES_def numeral_3_eq_3 compose_demo_passes
        io_map_err_def compose_demo_answers)
  moreover have "base_escape_script compose_demo_api 3 = Ok [3, 0]" by (simp add: base_escape_script_def compose_demo_reads user_demo_reads demo_api_def or_err_def)
  moreover have "lv_network (demo_live_vault []) = Regtest" by (simp add: demo_live_vault_def)
  ultimately have c: "compose_spend compose_demo_api (demo_live_vault []) compose_demo_core ''a'' 10 () = (Inr req, ())"
    by (simp add: compose_spend_def io_bind_def io_opt_def io_res_def compose_demo_reads user_demo_reads signer_reads req [unfolded One_nat_def])
  from composed_spend_authorized [OF c compose_demo_law] have "\<exists>grp. prepare (user_demo_api signer_conf []) (demo_live_vault []) req = Ok grp"
    unfolding compose_demo_reads by (elim exE conjE) blast
  with c show ?thesis by blast
qed

end
