(* ===== verification/Spec2Isabelle.thy ===== *)
theory Spec2Isabelle
  imports Policy_Core Replay_Log Hot_Budget Ingress_Guard Pin_Budget Wire_Proto Manifest Ingest Duress_Silence Fire_Loop Sign_Silence
    Node_Demo Watch_Scan Core_Wallet Load_Demo Compose_Demo
begin

text \<open>
  A verification library for btc-policy, a federation of policy nodes that co-sign spends of a
  Bitcoin vault. A coordinator submits a user-signed spend together with a pre-signed escape to
  every node; each node checks its policy, signs at ingress, and withholds its partial signature
  until the request's Hold has passed and a threshold of nodes is known to hold the same request.
  A second PIN silently arms a duress overlay: once a threshold of nodes holds a request that was
  judged a duress, hot spends freeze and the escape sweeps the vault at a fire time \<open>T\<close>.

  \<^bold>\<open>Theories and sources.\<close>

  \<^item> \<open>Prelude\<close>: results, saturating \<open>u64\<close> arithmetic, hash maps as association lists, and the
    interface locales \<open>hash_map\<close>, \<open>replay_guard\<close> and \<open>inv_system\<close>.
  \<^item> \<open>Bitcoin_Types\<close>: transactions and PSBTs as the program reads them.
  \<^item> \<open>Policy_Core\<close>: \<open>crates/policy-core/src/lib.rs\<close>. The checks of \<open>evaluate\<close> in the order of
    the code, the classifier and the key-flavour check. Shown: the worst-case loss of an admitted
    spend, soundness of the class, what each refusal code certifies, absence of panics and overflow.
  \<^item> \<open>Replay_Log\<close>: \<open>crates/vault-node/src/replay.rs\<close>. The replay, pending, refresh and coordinator
    nonce logs. Shown: a nonce is accepted at most once under any clocks, the log is bounded, a
    refreshed coin keeps its interval.
  \<^item> \<open>Hot_Budget\<close>: \<open>HotBudgetLedger\<close> of \<open>crates/vault-node/src/channel.rs\<close>. Shown: the velocity
    bound per monotonic window.
  \<^item> \<open>Ingress_Guard\<close>: \<open>IngressGuards\<close> of the same file. Shown: envelope single use, the sliding
    per-peer quota, freshness.
  \<^item> \<open>Pin_Budget\<close>: \<open>crates/vault-node/src/pin.rs\<close>. Digest validation, the verdict, the carrier KDF
    and the attempt budget, whose timestamp ring is shown to refine a plain queue; when a lockout trips, and until when it holds.
  \<^item> \<open>Wire_Proto\<close>: \<open>crates/vault-proto/src/lib.rs\<close>. Commitments, coordinator requests and their
    digests. Shown: the canonical bytes are injective (through the \<open>prefix_code\<close> locale).
  \<^item> \<open>Manifest\<close>: the sealed-manifest, endorsement and envelope preimages of \<open>channel.rs\<close>, with what
    they bind.
  \<^item> \<open>Candidate\<close>, \<open>Partial_Store\<close>, \<open>Duress_Arming\<close>, \<open>Fire_Gate\<close>: the candidate registry of
    \<open>channel.rs\<close>, one definition per method (\<open>Candidate\<close>, \<open>SigningVariant\<close>, \<open>PartialStore\<close>,
    \<open>ChannelState\<close>), with helpers for loop bodies and closures.
  \<^item> \<open>Channel_Machine\<close>: all methods that take the store lock as labels of one transition function
    \<open>channel_step\<close>. Since they share that lock, an interleaving of threads is a list of labels.
    \<open>Channel_Demo\<close> evaluates a small federation for the witnesses.
  \<^item> \<open>Registry\<close>: every operation is a sequence of registry edits (an inductive relation); from that,
    exact byte accounting, verified signatures, the release gate, each rung leaving at most once,
    atomic registration, and the exact effect of the expiry sweep.
  \<^item> \<open>Arm_Quorum\<close>: the overlay only ever rises, freezes hot spends for good, and arms only by a
    threshold of distinct holders of one carrier; likewise for the gate before release.
  \<^item> \<open>Duress_Silence\<close>: before the arm commits, an execution and its twin with every duress verdict
    replaced by a normal one are indistinguishable, result by result.
  \<^item> \<open>Ingest\<close>: parsing, authentication, guards, dispatch and envelope construction. Shown: only
    authenticated bodies act, and a released share is imported by a peer.
  \<^item> \<open>Chain_View\<close>: the backend interface of \<open>crates/vault-node/src/chain.rs\<close>, the walk over unconfirmed ancestors, package
    assembly, the identity and index checks. Shown: an assembled package holds all and only authorized ancestors, at most 24.
  \<^item> \<open>Node_State\<close>: the fields of \<open>Node\<close> in \<open>crates/vault-node/src/lib.rs\<close>, the storage check, the generation claim,
    the persisted latch and the deadline poll. Shown: an armed node locks at its fire time, even on torn
    locks; a claimed generation is never claimed again and a latched inode always starts locked.
  \<^item> \<open>Escape_Ladder\<close>, \<open>Escape_Sweep\<close>: acceptance of a fee-bump ladder; the measured environment, the rung selection and the
    admissibility of a sweep. Shown: an accepted ladder ascends, the selection equals its specification, only admissible rungs leave.
  \<^item> \<open>Fire_Loop\<close>: one pass of the fire driver. Shown: every transaction sent is combined from a verified quorum, authorized at
    the last look and, for an armed escape, admissible.
  \<^item> \<open>Request_Checks\<close>: coordinator authentication, carrier identities, the padded payload, chain ground truth, user and
    node signatures. Shown: the size of a propagated payload does not depend on PIN, nonce or signature.
  \<^item> \<open>Sign_Pipeline\<close>, \<open>Sign_Sound\<close>, \<open>Sign_Demo\<close>, \<open>Sign_Silence\<close>: the spend handler in its three critical sections, what an acceptance
    certifies, a concrete accepted spend, and that a duress PIN gets the same answer as a normal one.
  \<^item> \<open>Refresh_Handler\<close>, \<open>Refresh_Demo\<close>: the refresh handler and what an accepted refresh certifies.
  \<^item> \<open>Channel_Handler\<close>: the \<open>/channel\<close> handler: the local handler, the resolution of the carrier, the holder receipt, and the
    reply to an outer-stale spend.
  \<^item> \<open>Egress\<close>: the outbox, the fan-out and the delivery of one message. Shown: delivery ends on every advancing clock.
  \<^item> \<open>Node_Frame\<close>, \<open>Node_Machine\<close>, \<open>Node_Demo\<close>: all critical sections of the handlers, the fire pass, the poll and the drain as an
    inductive step relation over the node and the multiset of handlers in flight. Shown: the node refines the channel machine,
    no refresh overtakes a spend, Lockdown is final, and the handlers are paths of the machine.

  \<^item> \<open>Alert_Queue\<close>, \<open>Watch_Scan\<close>: \<open>crates/vault-node/src/watchtower.rs\<close>. The bounded queue of alerts with its pull cursor and
    freshness summaries; the classification of spends, the scan cursor with its anchors, one scan pass and the driver. Shown: a
    client gets every alert once, a stale peer cannot flood the queue, and no block of the chain escapes the scan whatever
    reorganisations race it. The \<open>chain_scanner\<close> locale is the interface to the backend.
  \<^item> \<open>Core_Rpc\<close>, \<open>Core_Vault\<close>, \<open>Core_Wallet\<close>: \<open>BitcoindBackend\<close> of \<open>chain.rs\<close>. How each reply of Bitcoin Core is read, the traversal
    of blocks, the cache of confirmed vault outputs and its bounded advance, the bracketed read of the vault at fire time, and the
    node-owned watch-only wallet with its marker, repair and latch. Shown: an advance keeps the cache exactly the unspent watched
    outputs of the chain up to its block, a bracketed read is a snapshot, and a wallet that awaits repair never feeds the cache.
  \<^item> \<open>Vault_Template\<close>: \<open>crates/policy-core/src/template.rs\<close>. The check that a descriptor is the two-branch vault, beside a semantics of
    its fragments. Shown: who can spend an accepted vault, and when; the descriptor text determines the vault.
  \<^item> \<open>Node_Keys\<close>: \<open>crates/vault-node/src/nodekey.rs\<close>. The operator's preimage, the derivation of the signing key and of the channel key.
    Shown: a preimage is read back as it was printed.
  \<^item> \<open>Channel_Build\<close>: the \<open>[channel]\<close> block, the ceremony functions and \<open>ChannelState::build\<close> of \<open>channel.rs\<close>. Shown: nodes with one
    manifest hash agree on every sealed value; a consistent federation comes up, which the demonstrations use.
  \<^item> \<open>Node_Config\<close>, \<open>Load_Demo\<close>: the configuration file and the start of a node in \<open>lib.rs\<close>. Shown: a started node is in a federation of
    \<open>2 t - 1\<close> members with separate roles, and it is well formed in every state it reaches; the start of one concrete node.
  \<^item> \<open>Sealed_Vault\<close>: \<open>crates/vault-cli/src/sealed.rs\<close>. The artifact files of the ceremony as the user's tool reads them, and the secret
    files. Shown: a live vault and a started node with the same manifest hash check against the same values.
  \<^item> \<open>User_Signer\<close>, \<open>User_Sound\<close>, \<open>User_Demo\<close>: \<open>crates/vault-cli/src/signer.rs\<close>. The validation of a group from the full previous
    transactions, the pair shapes, the ladder with the ceiling that only the signer checks, the display and the signatures. Shown:
    what the signer releases passes every check of a node.
  \<^item> \<open>Core_View\<close>: \<open>crates/vault-cli/src/core_view.rs\<close>. The typed reads of Bitcoin Core and the envelope of its replies.
  \<^item> \<open>Spend_Composer\<close>, \<open>Compose_Sound\<close>, \<open>Compose_Demo\<close>: \<open>crates/vault-cli/src/inventory.rs\<close>, \<open>compose.rs\<close> and the builder of \<open>fed.rs\<close>. The
    inventory bracket, the full parents, and the pair. Shown: the signer accepts every composed spend. With the previous item the
    three parties are joined: what is composed is signed, and what is signed is verified.

  \<^bold>\<open>Conventions.\<close> A \<open>u64\<close> or \<open>usize\<close> is a \<open>nat\<close> with saturation and overflow written out; wire
  integers keep their width as words; bytes are \<open>8 word\<close> lists. A hash map is an association list
  with distinct keys, a hash set of node ids a list without repetition. Every clock reading, every outcome of a system
  call and every step of another thread between two locks is an argument, so a theorem quantifies over all of them. Errors
  are values; a panic is an explicit value, shown unreachable where the code relies on that. Third-party code (rust-bitcoin,
  miniscript, Argon2, SHA-256, serde, hex, base64, the HTTP client) is a record of functions passed as an argument; a theorem
  that needs a law of it names the law as a hypothesis, and its witness instantiates it. The definitions are total, most of them by
  structural recursion; the ancestor walk has its own termination proof, and the retry loop, which runs as long as the wall clock
  stands still, is a partial function that is proved to return. No fuel is used.

  \<^bold>\<open>Not modelled.\<close> The HTTP server and client and the socket transport of the Core client, which are input/output around
  third-party code; of the command-line crate the set-up ceremony's front end, the federation runner and the attack harness, which drive
  processes and print reports; detail strings, logging, zeroization, test hooks and debug
  assertions. The constant-time selects are plain conditionals: timing is outside the model. A fire pass is one step of the node
  machine, although the code releases its locks inside it. The state of the Core client is shared by threads; its functions are modelled
  one at a time, with the interference of the others inside the world that every call may change. The size of a candidate is bounded by
  its reservation in bytes as the code computes it; that no combination of partial signatures outgrows that reservation is a fact of the
  encodings, which are arguments here, and is not stated.
\<close>

end
